(* ===== verification/Prelude.thy ===== *)
theory Prelude
  imports Main "HOL-Library.Word"
begin

text \<open>
  Shared vocabulary of the development: the machine integers of \<open>linux/types.h\<close>, byte
  buffers and the block copies the C code makes with \<open>memcpy\<close>, the little- and big-endian
  views of a buffer, and the generic facts on lists, options and words that the component
  theories use. An access outside a buffer, a shift by an undefined amount or a call through
  a null pointer is undefined behaviour in C; the model makes it the value \<open>None\<close>.
\<close>

unbundle bit_operations_syntax

named_theorems buf_simps \<open>lengths and elements of updated byte buffers\<close>
named_theorems byte_simps \<open>joining and splitting multi-byte fields\<close>
named_theorems inv_intros \<open>operations that keep a component invariant\<close>

type_synonym u8 = "8 word"
type_synonym u16 = "16 word"
type_synonym u32 = "32 word"
type_synonym u64 = "64 word"
type_synonym bytes = "u8 list"

section \<open>Checked reads and block writes\<close>

text \<open>A read of \<open>p[i]\<close>: defined inside the buffer only.\<close>

definition rd :: "'a list \<Rightarrow> nat \<Rightarrow> 'a option" where
  "rd xs i = (if i < length xs then Some (xs ! i) else None)"

text \<open>\<open>block xs i n\<close> is the block of \<open>n\<close> elements that starts at offset \<open>i\<close>.\<close>

definition block :: "'a list \<Rightarrow> nat \<Rightarrow> nat \<Rightarrow> 'a list" where
  "block xs i n = take n (drop i xs)"

text \<open>\<open>memcpy (dst + i, src, length src)\<close>: undefined when the block leaves the buffer.\<close>

definition blit :: "'a list \<Rightarrow> nat \<Rightarrow> 'a list \<Rightarrow> 'a list" where
  "blit dst i src = take i dst @ src @ drop (i + length src) dst"

definition memcpy_at :: "'a list \<Rightarrow> nat \<Rightarrow> 'a list \<Rightarrow> 'a list option" where
  "memcpy_at dst i src = (if i + length src \<le> length dst then Some (blit dst i src) else None)"

lemma rd_Some [simp]: "i < length xs \<Longrightarrow> rd xs i = Some (xs ! i)"
  by (simp add: rd_def)

lemma rd_eq_Some_iff: "rd xs i = Some x \<longleftrightarrow> i < length xs \<and> xs ! i = x"
  by (auto simp: rd_def)

lemma rd_eq_None_iff: "rd xs i = None \<longleftrightarrow> length xs \<le> i"
  by (auto simp: rd_def)

lemma length_block [buf_simps]: "i + n \<le> length xs \<Longrightarrow> length (block xs i n) = n"
  by (simp add: block_def)

lemma nth_block [buf_simps]: "i + n \<le> length xs \<Longrightarrow> k < n \<Longrightarrow> block xs i n ! k = xs ! (i + k)"
  by (simp add: block_def)

lemma length_blit [buf_simps]: "i + length src \<le> length dst \<Longrightarrow> length (blit dst i src) = length dst"
  by (simp add: blit_def)

lemma nth_blit [buf_simps]:
  "i + length src \<le> length dst \<Longrightarrow> k < length dst \<Longrightarrow>
   blit dst i src ! k = (if k < i then dst ! k
                         else if k < i + length src then src ! (k - i) else dst ! k)"
  by (auto simp: blit_def nth_append)

lemma block_blit_same [buf_simps]:
  "i + length src \<le> length dst \<Longrightarrow> block (blit dst i src) i (length src) = src"
  by (simp add: block_def blit_def)

lemma block_blit_below [buf_simps]:
  "i + length src \<le> length dst \<Longrightarrow> j + n \<le> i \<Longrightarrow> block (blit dst i src) j n = block dst j n"
  by (rule nth_equalityI) (auto simp: buf_simps)

lemma block_blit_above [buf_simps]:
  "i + length src \<le> length dst \<Longrightarrow> i + length src \<le> j \<Longrightarrow> j + n \<le> length dst \<Longrightarrow>
   block (blit dst i src) j n = block dst j n"
  by (rule nth_equalityI) (auto simp: buf_simps)

lemma block_slice: "j + m \<le> n \<Longrightarrow> i + n \<le> length xs \<Longrightarrow> block (block xs i n) j m = block xs (i + j) m"
  by (rule nth_equalityI) (auto simp: buf_simps add.assoc)

lemma block_append_fill: "i \<le> length xs \<Longrightarrow> block xs 0 i = take i xs"
  by (simp add: block_def)

lemma block_whole [simp]: "block xs 0 (length xs) = xs"
  by (simp add: block_def)

lemma block_zero [simp]: "block xs i 0 = []"
  by (simp add: block_def)

section \<open>Multi-byte fields\<close>

definition le16_of :: "u8 \<Rightarrow> u8 \<Rightarrow> u16" where
  "le16_of lo hi = ucast lo OR push_bit 8 (ucast hi)"

definition lo8 :: "u16 \<Rightarrow> u8" where
  "lo8 v = ucast (v AND 0xFF)"

definition hi8 :: "u16 \<Rightarrow> u8" where
  "hi8 v = ucast (drop_bit 8 v)"

lemma bit_u8_iff: "bit (b :: u8) n \<Longrightarrow> n < 8"
  using bit_imp_le_length [of b n] by simp

lemma bit_u16_iff: "bit (b :: u16) n \<Longrightarrow> n < 16"
  using bit_imp_le_length [of b n] by simp

lemma mask8_word: "(0xFF :: 'a :: len word) = mask 8"
  by (simp add: mask_eq_exp_minus_1)

lemma and_0xFF: "v AND 0xFF = take_bit 8 (v :: 'a :: len word)"
  by (simp only: mask8_word take_bit_eq_mask)

lemma lo8_le16_of [byte_simps, simp]: "lo8 (le16_of lo hi) = lo"
  by (rule bit_word_eqI) (auto simp: lo8_def le16_of_def and_0xFF bit_simps)

lemma hi8_le16_of [byte_simps, simp]: "hi8 (le16_of lo hi) = hi"
  by (rule bit_word_eqI) (auto simp: hi8_def le16_of_def bit_simps dest: bit_u8_iff)

lemma le16_of_lo8_hi8 [byte_simps, simp]: "le16_of (lo8 v) (hi8 v) = v"
proof (rule bit_word_eqI)
  fix n assume n: "n < LENGTH(16)"
  show "bit (le16_of (lo8 v) (hi8 v)) n = bit v n"
    using n by (cases "n < 8") (auto simp: lo8_def hi8_def le16_of_def and_0xFF bit_simps)
qed

section \<open>Widening casts\<close>

lemma ucast_up_eq_iff:
  fixes x y :: "'a :: len word"
  assumes "LENGTH('a) \<le> LENGTH('b)"
  shows "(ucast x :: 'b :: len word) = ucast y \<longleftrightarrow> x = y"
proof
  assume eq: "(ucast x :: 'b word) = ucast y"
  show "x = y"
  proof (rule bit_word_eqI)
    fix n assume "n < LENGTH('a)"
    then show "bit x n = bit y n"
      using arg_cong [OF eq, of "\<lambda>w. bit w n"] assms by (simp add: bit_simps)
  qed
qed simp

lemma ucast_up_eq_0_iff:
  fixes x :: "'a :: len word"
  assumes "LENGTH('a) \<le> LENGTH('b)"
  shows "(ucast x :: 'b :: len word) = 0 \<longleftrightarrow> x = 0"
  using ucast_up_eq_iff [OF assms, of x 0] by simp

lemma of_nat_unat_word [simp]: "of_nat (unat w) = (w :: 'a :: len word)"
  by simp

lemma unat_of_nat_small: "n < 2 ^ LENGTH('a) \<Longrightarrow> unat (of_nat n :: 'a :: len word) = n"
  by (simp add: unsigned_of_nat take_bit_nat_eq_self)

lemma unat_add_small:
  "unat a + unat b < 2 ^ LENGTH('a) \<Longrightarrow> unat (a + b :: 'a :: len word) = unat a + unat b"
  by (simp add: unat_word_ariths)

lemma unat_sub_small: "b \<le> a \<Longrightarrow> unat (a - b :: 'a :: len word) = unat a - unat b"
  by (simp add: unat_sub_if' word_le_nat_alt)

lemma sint_small:
  assumes "uint w < 2 ^ (LENGTH('a) - 1)"
  shows "sint (w :: 'a :: len word) = uint w"
proof -
  have "- (2 ^ (LENGTH('a) - 1)) \<le> uint w"
    using uint_ge_0 [of w] by (smt (verit) zero_le_power)
  with assms show ?thesis by (simp add: sint_uint signed_take_bit_int_eq_self)
qed

section \<open>Options\<close>

lemma bind_eq_Some_iff: "Option.bind m f = Some y \<longleftrightarrow> (\<exists>x. m = Some x \<and> f x = Some y)"
  by (cases m) auto

lemma case_option_bind: "(case m of None \<Rightarrow> None | Some x \<Rightarrow> f x) = Option.bind m f"
  by (cases m) auto

end
