(* ===== verification/Bitops.thy ===== *)
theory Bitops
  imports Prelude
begin

text \<open>
  The bit operations of \<open>linux/bitops.h\<close> and the field helpers of \<open>linux/bitfield.h\<close>.
  A bitmap is an array of \<open>unsigned long\<close> (64 bits): a list of \<open>u64\<close>. The atomic
  builtins act on one word, so each is one state transformation; an index outside the array
  is \<open>None\<close>, and so is \<open>__ffs\<close> of zero, which the compiler builtin leaves undefined.
  The \<open>unsigned long\<close> arithmetic of the searches is on \<open>nat\<close> with the wrap-around of the
  one sum that can overflow written out.
\<close>

section \<open>Single words\<close>

definition BITS_PER_LONG :: nat where
  "BITS_PER_LONG = 64"

definition BIT :: "nat \<Rightarrow> u64" where
  "BIT n = push_bit n 1"

definition GENMASK :: "nat \<Rightarrow> nat \<Rightarrow> u64" where
  "GENMASK h l = ((NOT 0 - push_bit l 1 + 1) AND drop_bit (BITS_PER_LONG - 1 - h) (NOT 0))"

definition ffs_ul :: "u64 \<Rightarrow> nat option" where
  "ffs_ul x = List.find (bit x) [0..<64]"

definition fls_ul :: "u64 \<Rightarrow> nat option" where
  "fls_ul x = List.find (bit x) (rev [0..<64])"

definition fls64 :: "u64 \<Rightarrow> nat" where
  "fls64 x = (case fls_ul x of None \<Rightarrow> 0 | Some n \<Rightarrow> Suc n)"

definition fls :: "u32 \<Rightarrow> nat" where
  "fls x = (case List.find (bit x) (rev [0..<32]) of None \<Rightarrow> 0 | Some n \<Rightarrow> Suc n)"

definition hweight_long :: "u64 \<Rightarrow> nat" where
  "hweight_long x = length (filter (bit x) [0..<64])"

definition hweight32 :: "u32 \<Rightarrow> nat" where
  "hweight32 x = length (filter (bit x) [0..<32])"

definition hweight8 :: "u32 \<Rightarrow> nat" where
  "hweight8 w = hweight32 (w AND 0xff)"

text \<open>A shift of a 32-bit value by 32 or more is undefined.\<close>

definition shl32 :: "u32 \<Rightarrow> u32 \<Rightarrow> u32 option" where
  "shl32 v s = (if unat s < 32 then Some (push_bit (unat s) v) else None)"

definition shr32 :: "u32 \<Rightarrow> u32 \<Rightarrow> u32 option" where
  "shr32 v s = (if unat s < 32 then Some (drop_bit (unat s) v) else None)"

definition rol32 :: "u32 \<Rightarrow> u32 \<Rightarrow> u32 option" where
  "rol32 val shift =
     Option.bind (shl32 val shift) (\<lambda>a. Option.bind (shr32 val (32 - shift)) (\<lambda>b. Some (a OR b)))"

definition ror32 :: "u32 \<Rightarrow> u32 \<Rightarrow> u32 option" where
  "ror32 val shift =
     Option.bind (shr32 val shift) (\<lambda>a. Option.bind (shl32 val (32 - shift)) (\<lambda>b. Some (a OR b)))"

section \<open>Bitmaps\<close>

definition set_bit_ul :: "nat \<Rightarrow> u64 list \<Rightarrow> u64 list option" where
  "set_bit_ul nr addr =
     Option.bind (rd addr (nr div BITS_PER_LONG)) (\<lambda>w.
       Some (addr[nr div BITS_PER_LONG := w OR push_bit (nr mod BITS_PER_LONG) 1]))"

definition clear_bit_ul :: "nat \<Rightarrow> u64 list \<Rightarrow> u64 list option" where
  "clear_bit_ul nr addr =
     Option.bind (rd addr (nr div BITS_PER_LONG)) (\<lambda>w.
       Some (addr[nr div BITS_PER_LONG := w AND NOT (push_bit (nr mod BITS_PER_LONG) 1)]))"

definition test_bit_ul :: "nat \<Rightarrow> u64 list \<Rightarrow> bool option" where
  "test_bit_ul nr addr =
     Option.bind (rd addr (nr div BITS_PER_LONG)) (\<lambda>w.
       Some (w AND push_bit (nr mod BITS_PER_LONG) 1 \<noteq> 0))"

definition test_and_set_bit :: "nat \<Rightarrow> u64 list \<Rightarrow> (bool \<times> u64 list) option" where
  "test_and_set_bit nr addr =
     Option.bind (rd addr (nr div BITS_PER_LONG)) (\<lambda>old.
       Some (old AND push_bit (nr mod BITS_PER_LONG) 1 \<noteq> 0,
             addr[nr div BITS_PER_LONG := old OR push_bit (nr mod BITS_PER_LONG) 1]))"

definition test_and_clear_bit :: "nat \<Rightarrow> u64 list \<Rightarrow> (bool \<times> u64 list) option" where
  "test_and_clear_bit nr addr =
     Option.bind (rd addr (nr div BITS_PER_LONG)) (\<lambda>old.
       Some (old AND push_bit (nr mod BITS_PER_LONG) 1 \<noteq> 0,
             addr[nr div BITS_PER_LONG := old AND NOT (push_bit (nr mod BITS_PER_LONG) 1)]))"

text \<open>\<open>(nbits + BITS_PER_LONG - 1) / BITS_PER_LONG\<close> in \<open>unsigned long\<close>.\<close>

definition words_of :: "nat \<Rightarrow> nat" where
  "words_of n = ((n + BITS_PER_LONG - 1) mod 2 ^ 64) div BITS_PER_LONG"

definition bitmap_zero :: "u64 list \<Rightarrow> nat \<Rightarrow> u64 list option" where
  "bitmap_zero dst nbits =
     (if words_of nbits \<le> length dst
      then Some (replicate (words_of nbits) 0 @ drop (words_of nbits) dst) else None)"

text \<open>The word loop the four searches share: \<open>f\<close> is the identity or the complement.\<close>

function scan_words :: "(u64 \<Rightarrow> u64) \<Rightarrow> u64 list \<Rightarrow> nat \<Rightarrow> nat \<Rightarrow> nat \<Rightarrow> nat option" where
  "scan_words f addr sz words i =
     (if i < words then
        (case rd addr i of None \<Rightarrow> None
         | Some w \<Rightarrow>
             (case ffs_ul (f w) of
                Some b \<Rightarrow> Some (if i * BITS_PER_LONG + b < sz then i * BITS_PER_LONG + b else sz)
              | None \<Rightarrow> scan_words f addr sz words (Suc i)))
      else Some sz)"
  by pat_completeness auto
termination
  by (relation "measure (\<lambda>(f, addr, sz, words, i). words - i)") auto

declare scan_words.simps [simp del]

definition find_first_bit :: "u64 list \<Rightarrow> nat \<Rightarrow> nat option" where
  "find_first_bit addr sz = scan_words id addr sz (words_of sz) 0"

definition find_first_zero_bit :: "u64 list \<Rightarrow> nat \<Rightarrow> nat option" where
  "find_first_zero_bit addr sz = scan_words NOT addr sz (words_of sz) 0"

definition find_next :: "(u64 \<Rightarrow> u64) \<Rightarrow> u64 list \<Rightarrow> nat \<Rightarrow> nat \<Rightarrow> nat option" where
  "find_next f addr sz offset =
     (if offset \<ge> sz then Some sz
      else Option.bind (rd addr (offset div BITS_PER_LONG)) (\<lambda>w.
        (case ffs_ul (f w AND push_bit (offset mod BITS_PER_LONG) (NOT 0)) of
           Some b \<Rightarrow>
             Some (if offset div BITS_PER_LONG * BITS_PER_LONG + b < sz
                   then offset div BITS_PER_LONG * BITS_PER_LONG + b else sz)
         | None \<Rightarrow> scan_words f addr sz (words_of sz) (Suc (offset div BITS_PER_LONG)))))"

definition find_next_bit :: "u64 list \<Rightarrow> nat \<Rightarrow> nat \<Rightarrow> nat option" where
  "find_next_bit addr sz offset = find_next id addr sz offset"

definition find_next_zero_bit :: "u64 list \<Rightarrow> nat \<Rightarrow> nat \<Rightarrow> nat option" where
  "find_next_zero_bit addr sz offset = find_next NOT addr sz offset"

section \<open>Bit fields\<close>

definition FIELD_PREP :: "u64 \<Rightarrow> u64 \<Rightarrow> u64 option" where
  "FIELD_PREP msk v = map_option (\<lambda>s. push_bit s v AND msk) (ffs_ul msk)"

definition FIELD_GET :: "u64 \<Rightarrow> u64 \<Rightarrow> u64 option" where
  "FIELD_GET msk v = map_option (\<lambda>s. drop_bit s (v AND msk)) (ffs_ul msk)"

definition FIELD_FIT :: "u64 \<Rightarrow> u64 \<Rightarrow> bool option" where
  "FIELD_FIT msk v = map_option (\<lambda>s. push_bit s v AND NOT msk = 0) (ffs_ul msk)"

definition u8_encode_bits :: "u8 \<Rightarrow> u8 \<Rightarrow> u8 option" where
  "u8_encode_bits v msk = map_option ucast (FIELD_PREP (ucast msk) (ucast v))"

definition u8_get_bits :: "u8 \<Rightarrow> u8 \<Rightarrow> u8 option" where
  "u8_get_bits v msk = map_option ucast (FIELD_GET (ucast msk) (ucast v))"

definition u8p_replace_bits :: "u8 \<Rightarrow> u8 \<Rightarrow> u8 \<Rightarrow> u8 option" where
  "u8p_replace_bits p val msk = map_option (\<lambda>e. (p AND NOT msk) OR e) (u8_encode_bits val msk)"

definition u16_encode_bits :: "u16 \<Rightarrow> u16 \<Rightarrow> u16 option" where
  "u16_encode_bits v msk = map_option ucast (FIELD_PREP (ucast msk) (ucast v))"

definition u16_get_bits :: "u16 \<Rightarrow> u16 \<Rightarrow> u16 option" where
  "u16_get_bits v msk = map_option ucast (FIELD_GET (ucast msk) (ucast v))"

definition u32_encode_bits :: "u32 \<Rightarrow> u32 \<Rightarrow> u32 option" where
  "u32_encode_bits v msk = map_option ucast (FIELD_PREP (ucast msk) (ucast v))"

definition u32_get_bits :: "u32 \<Rightarrow> u32 \<Rightarrow> u32 option" where
  "u32_get_bits v msk = map_option ucast (FIELD_GET (ucast msk) (ucast v))"

definition u32p_replace_bits :: "u32 \<Rightarrow> u32 \<Rightarrow> u32 \<Rightarrow> u32 option" where
  "u32p_replace_bits p val msk = map_option (\<lambda>e. (p AND NOT msk) OR e) (u32_encode_bits val msk)"

definition u64_encode_bits :: "u64 \<Rightarrow> u64 \<Rightarrow> u64 option" where
  "u64_encode_bits v msk = FIELD_PREP msk v"

definition le16_get_bits :: "u16 \<Rightarrow> u16 \<Rightarrow> u16 option" where
  "le16_get_bits v msk = u16_get_bits v msk"

definition le32_get_bits :: "u32 \<Rightarrow> u32 \<Rightarrow> u32 option" where
  "le32_get_bits v msk = u32_get_bits v msk"

definition le32_encode_bits :: "u32 \<Rightarrow> u32 \<Rightarrow> u32 option" where
  "le32_encode_bits v msk = u32_encode_bits v msk"

definition le32p_replace_bits :: "u32 \<Rightarrow> u32 \<Rightarrow> u32 \<Rightarrow> u32 option" where
  "le32p_replace_bits p val msk = u32p_replace_bits p val msk"

definition le64_get_bits :: "u64 \<Rightarrow> u64 \<Rightarrow> u64 option" where
  "le64_get_bits v msk = u64_encode_bits (v AND msk) msk"

text \<open>
  \<open>rtw_read32_mask_helper\<close> and \<open>rtw_set32_mask_helper\<close>: the msk is widened to
  \<open>unsigned long\<close> for \<open>__ffs\<close>, the shifts are on 32 bits.
\<close>

definition rtw_read32_mask_helper :: "u32 \<Rightarrow> u32 \<Rightarrow> u32 option" where
  "rtw_read32_mask_helper val msk = map_option (\<lambda>s. drop_bit s (val AND msk)) (ffs_ul (ucast msk))"

definition rtw_set32_mask_helper :: "u32 \<Rightarrow> u32 \<Rightarrow> u32 \<Rightarrow> u32 option" where
  "rtw_set32_mask_helper val msk data =
     map_option (\<lambda>s. (val AND NOT msk) OR (push_bit s data AND msk)) (ffs_ul (ucast msk))"

section \<open>Lemmas: lowest and highest set bit\<close>

lemma ffs_ul_Some_iff:
  "ffs_ul x = Some n \<longleftrightarrow> n < 64 \<and> bit x n \<and> (\<forall>m < n. \<not> bit x m)"
  unfolding ffs_ul_def find_Some_iff by (auto intro!: exI [of _ n])

lemma ffs_ul_None_iff: "ffs_ul x = None \<longleftrightarrow> x = 0"
proof
  assume "ffs_ul x = None"
  then have "\<forall>n < 64. \<not> bit x n"
    by (auto simp: ffs_ul_def find_None_iff)
  then show "x = 0"
    by (intro bit_word_eqI) auto
qed (auto simp: ffs_ul_def find_None_iff)

lemma ffs_ul_bound: "ffs_ul x = Some n \<Longrightarrow> n < 64"
  by (simp add: ffs_ul_Some_iff)

lemma ffs_ul_neq_0E:
  assumes "x \<noteq> 0"
  obtains n where "ffs_ul x = Some n"
  using assms ffs_ul_None_iff [of x] by (cases "ffs_ul x") auto

section \<open>Lemmas: bitmaps as sets of bit numbers\<close>

text \<open>The abstract view of a bitmap: the numbers of the bits that are set.\<close>

definition in_bitmap :: "u64 list \<Rightarrow> nat \<Rightarrow> bool" where
  "in_bitmap addr n \<longleftrightarrow> bit (addr ! (n div 64)) (n mod 64)"

lemma and_single_bit: "k < 64 \<Longrightarrow> (w :: u64) AND push_bit k 1 \<noteq> 0 \<longleftrightarrow> bit w k"
  by (simp add: push_bit_of_1 and_exp_eq_0_iff_not_bit)

lemma div_mod_64_eq: "n div 64 = m div 64 \<Longrightarrow> n mod 64 = m mod 64 \<Longrightarrow> n = (m :: nat)"
  by (metis div_mod_decomp)

lemma in_bitmap_update:
  assumes "m div 64 < length addr"
  shows "in_bitmap (addr[m div 64 := w]) n \<longleftrightarrow>
         (if n div 64 = m div 64 then bit w (n mod 64) else in_bitmap addr n)"
  using assms by (auto simp: in_bitmap_def)

lemma in_bitmap_set:
  assumes "m div 64 < length addr"
  shows "in_bitmap (addr[m div 64 := addr ! (m div 64) OR push_bit (m mod 64) 1]) n
         \<longleftrightarrow> in_bitmap addr n \<or> n = m"
  unfolding in_bitmap_update [OF assms]
  by (cases "n div 64 = m div 64"; cases "n mod 64 = m mod 64")
    (auto simp: in_bitmap_def bit_simps dest: div_mod_64_eq)

lemma in_bitmap_clear:
  assumes "m div 64 < length addr"
  shows "in_bitmap (addr[m div 64 := addr ! (m div 64) AND NOT (push_bit (m mod 64) 1)]) n
         \<longleftrightarrow> in_bitmap addr n \<and> n \<noteq> m"
  unfolding in_bitmap_update [OF assms]
  by (cases "n div 64 = m div 64"; cases "n mod 64 = m mod 64")
    (auto simp: in_bitmap_def bit_simps dest: div_mod_64_eq)

lemmas bitmap_defs = set_bit_ul_def clear_bit_ul_def test_bit_ul_def test_and_set_bit_def
  test_and_clear_bit_def BITS_PER_LONG_def

section \<open>Lemmas: the searches\<close>

lemma scan_words_spec:
  assumes "words \<le> length addr" and "sz \<le> words * 64"
  shows "\<exists>r. scan_words f addr sz words i = Some r \<and> r \<le> sz
           \<and> (r < sz \<longrightarrow> i * 64 \<le> r \<and> bit (f (addr ! (r div 64))) (r mod 64))
           \<and> (\<forall>n. i * 64 \<le> n \<and> n < r \<longrightarrow> \<not> bit (f (addr ! (n div 64))) (n mod 64))"
  using assms
proof (induction f addr sz words i rule: scan_words.induct)
  case (1 f addr sz words i)
  show ?case
  proof (cases "i < words")
    case False
    then show ?thesis
      using 1(3) by (subst scan_words.simps) (fastforce simp: scan_words.simps)
  next
    case True
    then have i: "i < length addr" using 1(2) by simp
    have in_i: "n div 64 = i" if "i * 64 \<le> n" "n < Suc i * 64" for n
      using that by (simp add: div_nat_eqI)
    show ?thesis
    proof (cases "ffs_ul (f (addr ! i))")
      case None
      then have z: "f (addr ! i) = 0" by (simp add: ffs_ul_None_iff)
      have *: "scan_words f addr sz words i = scan_words f addr sz words (Suc i)"
        using True i None by (subst scan_words.simps) simp
      obtain r where r: "scan_words f addr sz words (Suc i) = Some r" "r \<le> sz"
        "r < sz \<longrightarrow> Suc i * 64 \<le> r \<and> bit (f (addr ! (r div 64))) (r mod 64)"
        "\<forall>n. Suc i * 64 \<le> n \<and> n < r \<longrightarrow> \<not> bit (f (addr ! (n div 64))) (n mod 64)"
        using 1(1) [OF True rd_Some [OF i] None 1(2,3)] by blast
      have "\<not> bit (f (addr ! (n div 64))) (n mod 64)" if "i * 64 \<le> n" "n < r" for n
        using r(4) that in_i [of n] z by (cases "n < Suc i * 64") auto
      then show ?thesis using r * by auto
    next
      case (Some b)
      then have b: "b < 64" "bit (f (addr ! i)) b" "\<forall>m < b. \<not> bit (f (addr ! i)) m"
        by (simp_all add: ffs_ul_Some_iff)
      define r where "r = (if i * 64 + b < sz then i * 64 + b else sz)"
      have *: "scan_words f addr sz words i = Some r"
        using True i Some by (subst scan_words.simps) (simp add: BITS_PER_LONG_def r_def)
      have "\<not> bit (f (addr ! (n div 64))) (n mod 64)" if "i * 64 \<le> n" "n < r" for n
      proof -
        have "n < i * 64 + b" using that by (simp add: r_def split: if_splits)
        moreover have "n div 64 = i" using in_i that(1) calculation b(1) by simp
        ultimately show ?thesis using b(3) by (auto simp: modulo_nat_def)
      qed
      then show ?thesis using * b by (auto simp: r_def)
    qed
  qed
qed

lemma words_of_bounds: "sz + 63 < 2 ^ 64 \<Longrightarrow> sz \<le> words_of sz * 64"
  by (simp add: words_of_def BITS_PER_LONG_def)

lemma words_of_exact: "sz + 63 < 2 ^ 64 \<Longrightarrow> words_of sz = (sz + 63) div 64"
  by (simp add: words_of_def BITS_PER_LONG_def)

lemma find_next_unfold:
  "\<not> sz \<le> off \<Longrightarrow> off div 64 < length addr \<Longrightarrow>
   find_next f addr sz off =
     (case ffs_ul (f (addr ! (off div 64)) AND push_bit (off mod 64) (NOT 0)) of
        Some b \<Rightarrow> Some (if off div 64 * 64 + b < sz then off div 64 * 64 + b else sz)
      | None \<Rightarrow> scan_words f addr sz (words_of sz) (Suc (off div 64)))"
  by (simp add: find_next_def BITS_PER_LONG_def split: option.split)

lemma find_next_spec:
  assumes len: "words_of sz \<le> length addr" and sz: "sz + 63 < 2 ^ 64"
  shows "\<exists>r. find_next f addr sz off = Some r \<and> r \<le> sz
           \<and> (r < sz \<longrightarrow> off \<le> r \<and> bit (f (addr ! (r div 64))) (r mod 64))
           \<and> (\<forall>n. off \<le> n \<and> n < r \<longrightarrow> \<not> bit (f (addr ! (n div 64))) (n mod 64))"
proof (cases "off \<ge> sz")
  case True
  then show ?thesis by (auto simp: find_next_def)
next
  case False
  define i where "i = off div 64"
  define s where "s = off mod 64"
  have off: "off = i * 64 + s" and s: "s < 64" by (simp_all add: i_def s_def)
  have i: "i < length addr"
    using False len sz by (simp add: words_of_exact i_def)
  define w where "w = f (addr ! i) AND push_bit s (NOT 0)"
  have bw: "bit w n \<longleftrightarrow> n < 64 \<and> s \<le> n \<and> bit (f (addr ! i)) n" for n
    by (auto simp: w_def bit_simps dest: bit_imp_le_length)
  have in_i: "n div 64 = i" if "off \<le> n" "n < Suc i * 64" for n
    using that off by (simp add: div_nat_eqI)
  show ?thesis
  proof (cases "ffs_ul w")
    case None
    then have z: "w = 0" by (simp add: ffs_ul_None_iff)
    have *: "find_next f addr sz off = scan_words f addr sz (words_of sz) (Suc i)"
      using find_next_unfold [OF False, of addr f, folded i_def s_def, OF i, folded w_def] None by simp
    obtain r where r: "scan_words f addr sz (words_of sz) (Suc i) = Some r" "r \<le> sz"
      "r < sz \<longrightarrow> Suc i * 64 \<le> r \<and> bit (f (addr ! (r div 64))) (r mod 64)"
      "\<forall>n. Suc i * 64 \<le> n \<and> n < r \<longrightarrow> \<not> bit (f (addr ! (n div 64))) (n mod 64)"
      using scan_words_spec [OF len words_of_bounds [OF sz]] by blast
    have "\<not> bit (f (addr ! (n div 64))) (n mod 64)" if n: "off \<le> n" "n < r" for n
    proof (cases "n < Suc i * 64")
      case True
      then have d: "n div 64 = i" using in_i n by simp
      then have "s \<le> n mod 64" using n off by (simp add: modulo_nat_def)
      then show ?thesis using bw [of "n mod 64"] z d by simp
    next
      case False
      then show ?thesis using r(4) n by simp
    qed
    then show ?thesis using * r off s by auto
  next
    case (Some b)
    then have b: "b < 64" "s \<le> b" "bit (f (addr ! i)) b" "\<forall>m < b. \<not> bit w m"
      by (simp_all add: ffs_ul_Some_iff bw)
    define r where "r = (if i * 64 + b < sz then i * 64 + b else sz)"
    have *: "find_next f addr sz off = Some r"
      using find_next_unfold [OF False, of addr f, folded i_def s_def, OF i, folded w_def] Some
      by (simp add: r_def)
    have "\<not> bit (f (addr ! (n div 64))) (n mod 64)" if n: "off \<le> n" "n < r" for n
    proof -
      have lt: "n < i * 64 + b" using n by (simp add: r_def split: if_splits)
      have d: "n div 64 = i" using in_i n(1) lt b(1) by simp
      have "s \<le> n mod 64" "n mod 64 < b" using n off lt d by (simp_all add: modulo_nat_def)
      then show ?thesis using b(4) bw [of "n mod 64"] d by auto
    qed
    then show ?thesis using * b off by (auto simp: r_def)
  qed
qed

section \<open>Lemmas: fields under a contiguous mask\<close>

lemma bit_GENMASK:
  assumes "l \<le> h" and "h < 64"
  shows "bit (GENMASK h l) n \<longleftrightarrow> l \<le> n \<and> n \<le> h"
proof -
  have "(NOT 0 :: u64) - push_bit l 1 + 1 = NOT (mask l)"
    by (simp add: push_bit_of_1 mask_eq_exp_minus_1 not_eq_complement)
  moreover have "bit (drop_bit (63 - h) (NOT 0 :: u64)) n \<longleftrightarrow> n \<le> h"
    using assms by (auto simp: bit_simps)
  ultimately show ?thesis
    using assms by (auto simp: GENMASK_def BITS_PER_LONG_def bit_simps)
qed

lemma ffs_GENMASK: "l \<le> h \<Longrightarrow> h < 64 \<Longrightarrow> ffs_ul (GENMASK h l) = Some l"
  by (auto simp: ffs_ul_Some_iff bit_GENMASK)

lemma bit_below_of_less:
  fixes v :: "'a :: len word"
  assumes "unat v < 2 ^ k" and "bit v n"
  shows "n < k"
proof -
  have "bit (unat v) n" using assms(2) by (simp add: bit_unsigned_iff)
  then have "2 ^ n \<le> unat v"
    by (metis bit_iff_odd div_less even_zero linorder_not_le)
  then have "(2 :: nat) ^ n < 2 ^ k" using assms(1) by linarith
  then show ?thesis by simp
qed

lemma FIELD_PREP_GENMASK:
  assumes "l \<le> h" "h < 64" "unat v < 2 ^ (h + 1 - l)"
  shows "FIELD_PREP (GENMASK h l) v = Some (push_bit l v)"
proof -
  have "push_bit l v AND GENMASK h l = push_bit l v"
    using assms bit_below_of_less [OF assms(3)]
    by (intro bit_word_eqI) (fastforce simp: bit_simps bit_GENMASK)
  then show ?thesis using assms by (simp add: FIELD_PREP_def ffs_GENMASK)
qed

lemma drop_push_fit:
  fixes v :: u64
  assumes "l \<le> h" "h < 64" "unat v < 2 ^ (h + 1 - l)"
  shows "drop_bit l (push_bit l v) = v"
  using assms bit_below_of_less [OF assms(3)]
  by (intro bit_word_eqI) (fastforce simp: bit_simps)

lemma push_and_GENMASK:
  assumes "l \<le> h" "h < 64" "unat v < 2 ^ (h + 1 - l)"
  shows "push_bit l v AND GENMASK h l = push_bit l v"
  using FIELD_PREP_GENMASK [OF assms] assms by (simp add: FIELD_PREP_def ffs_GENMASK)

lemma ffs_ul_ucast_bound: "ffs_ul (ucast (m :: u32)) = Some n \<Longrightarrow> n < 32"
  by (auto simp: ffs_ul_Some_iff bit_simps dest: bit_imp_le_length)

section \<open>Properties\<close>

text \<open>
  the bitmap operations refine a set of bit numbers: inside the array, \<open>set_bit\<close> adds its
  bit and no other, \<open>clear_bit\<close> removes it and no other, \<open>test_bit\<close> reads membership, and
  \<open>test_and_set_bit\<close> and \<open>test_and_clear_bit\<close> return the old membership with the same
  new bitmap; none changes the length of the array.
\<close>

theorem bitmap_refines_set:
  assumes "nr div 64 < length addr"
  shows "\<exists>s c. set_bit_ul nr addr = Some s \<and> clear_bit_ul nr addr = Some c
     \<and> test_bit_ul nr addr = Some (in_bitmap addr nr)
     \<and> test_and_set_bit nr addr = Some (in_bitmap addr nr, s)
     \<and> test_and_clear_bit nr addr = Some (in_bitmap addr nr, c)
     \<and> length s = length addr \<and> length c = length addr
     \<and> Collect (in_bitmap s) = insert nr (Collect (in_bitmap addr))
     \<and> Collect (in_bitmap c) = Collect (in_bitmap addr) - {nr}"
  using assms
  by (auto simp: bitmap_defs in_bitmap_set in_bitmap_clear and_single_bit in_bitmap_def [of addr nr]
      simp flip: push_bit_of_1)

theorem bitmap_refines_set_witness:
  "\<exists>s c. set_bit_ul 70 [0, 1] = Some s \<and> clear_bit_ul 70 [0, 1] = Some c
     \<and> length s = 2 \<and> length c = 2
     \<and> Collect (in_bitmap s) = insert 70 (Collect (in_bitmap [0, 1]))
     \<and> Collect (in_bitmap c) = Collect (in_bitmap [0, 1]) - {70}"
  using bitmap_refines_set [of 70 "[0, 1]"] by auto

text \<open>
  \<open>find_next_bit\<close> on a bitmap that holds \<open>size\<close> bits always returns, never reads past
  the array, and returns the first set bit at or above \<open>offset\<close> and below \<open>size\<close>, or
  \<open>size\<close> when there is none.
\<close>

theorem find_next_bit_correct:
  assumes "(sz + 63) div 64 \<le> length addr" and "sz + 63 < 2 ^ 64"
  shows "\<exists>r. find_next_bit addr sz offset = Some r \<and> r \<le> sz
     \<and> (r < sz \<longrightarrow> offset \<le> r \<and> in_bitmap addr r)
     \<and> (\<forall>n. offset \<le> n \<and> n < r \<longrightarrow> \<not> in_bitmap addr n)"
  using find_next_spec [of sz addr id offset] assms
  by (simp add: find_next_bit_def in_bitmap_def words_of_exact)

theorem find_next_bit_correct_witness:
  "\<exists>r. find_next_bit [4, 8] 100 3 = Some r \<and> r \<le> 100
     \<and> (r < 100 \<longrightarrow> 3 \<le> r \<and> in_bitmap [4, 8] r)
     \<and> (\<forall>n. 3 \<le> n \<and> n < r \<longrightarrow> \<not> in_bitmap [4, 8] n)"
  using find_next_bit_correct [of 100 "[4, 8]" 3] by simp

text \<open>
  a value that fits a field survives the field helpers: for the mask \<open>GENMASK(h, l)\<close>,
  \<open>FIELD_PREP\<close> places it, \<open>FIELD_FIT\<close> accepts it and \<open>FIELD_GET\<close> reads it back,
  whatever other bits are set outside the mask.
\<close>

theorem field_roundtrip:
  assumes "l \<le> h" and "h < 64" and "unat v < 2 ^ (h + 1 - l)"
    and "rest AND GENMASK h l = 0"
  shows "\<exists>p. FIELD_PREP (GENMASK h l) v = Some p \<and> FIELD_FIT (GENMASK h l) v = Some True
     \<and> FIELD_GET (GENMASK h l) (p OR rest) = Some v"
proof -
  have "push_bit l v AND NOT (GENMASK h l) = 0"
    by (subst push_and_GENMASK [OF assms(1-3), symmetric]) (simp add: and.assoc)
  moreover have "drop_bit l ((push_bit l v OR rest) AND GENMASK h l) = v"
    using push_and_GENMASK [OF assms(1-3)] drop_push_fit [OF assms(1-3)] assms(4)
    by (simp add: bit.conj_disj_distrib2)
  ultimately show ?thesis
    using assms FIELD_PREP_GENMASK [OF assms(1-3)]
    by (simp add: FIELD_FIT_def FIELD_GET_def ffs_GENMASK)
qed

theorem field_roundtrip_witness:
  "\<exists>p. FIELD_PREP (GENMASK 11 8) 5 = Some p \<and> FIELD_FIT (GENMASK 11 8) 5 = Some True
     \<and> FIELD_GET (GENMASK 11 8) (p OR 0xF000) = Some 5"
proof -
  have "(0xF000 :: u64) AND GENMASK 11 8 = 0"
    by code_simp
  then show ?thesis using field_roundtrip [of 8 11 5 "0xF000"] by simp
qed

text \<open>
  \<open>rtw_set32_mask_helper\<close> writes a masked register field without touching the bits
  outside the mask, for every mask but the empty one, on which \<open>__ffs\<close> is undefined;
  writing back the field that \<open>rtw_read32_mask_helper\<close> reads changes nothing.
\<close>

theorem masked_register_update:
  assumes "msk \<noteq> 0"
  shows "\<exists>r f. rtw_set32_mask_helper val msk data = Some r \<and> rtw_read32_mask_helper val msk = Some f
     \<and> r AND NOT msk = val AND NOT msk
     \<and> rtw_set32_mask_helper val msk f = Some val"
proof -
  have "(ucast msk :: u64) \<noteq> 0"
    using assms by (simp add: ucast_up_eq_0_iff)
  then obtain s where s: "ffs_ul (ucast msk) = Some s" by (rule ffs_ul_neq_0E)
  have low: "s \<le> n" if "bit msk n" for n
    using s that bit_imp_le_length [OF that]
    by (auto simp: ffs_ul_Some_iff bit_simps linorder_not_less [symmetric])
  have "push_bit s (drop_bit s (val AND msk)) = val AND msk"
    using low by (intro bit_word_eqI) (fastforce simp: bit_simps)
  then have "val AND NOT msk OR (push_bit s (drop_bit s (val AND msk)) AND msk) = val"
    by (intro bit_word_eqI) (auto simp: bit_simps)
  moreover have "(val AND NOT msk OR (push_bit s data AND msk)) AND NOT msk = val AND NOT msk"
    by (rule bit_word_eqI) (auto simp: bit_simps)
  ultimately show ?thesis
    by (simp add: rtw_set32_mask_helper_def rtw_read32_mask_helper_def s)
qed

theorem masked_register_update_witness:
  "\<exists>r f. rtw_set32_mask_helper 0xABCD 0xF0 7 = Some r \<and> rtw_read32_mask_helper 0xABCD 0xF0 = Some f
     \<and> r AND NOT 0xF0 = 0xABCD AND NOT 0xF0 \<and> rtw_set32_mask_helper 0xABCD 0xF0 f = Some 0xABCD"
  using masked_register_update [of "0xF0" "0xABCD" 7] by fastforce

text \<open>
  \<open>le64_get_bits\<close> does not extract a field: it re-encodes the masked value, so whenever the
  field lies above its own width (\<open>h < 2 l\<close>) it returns zero for every value, while
  \<open>FIELD_GET\<close> returns the field.
\<close>

theorem le64_get_bits_loses_field:
  assumes "l \<le> h" and "h < 64" and "h < 2 * l"
  shows "le64_get_bits v (GENMASK h l) = Some 0
     \<and> FIELD_GET (GENMASK h l) v = Some (drop_bit l (v AND GENMASK h l))"
proof -
  have "push_bit l (v AND GENMASK h l) AND GENMASK h l = 0"
    using assms by (intro bit_word_eqI) (auto simp: bit_simps bit_GENMASK)
  then show ?thesis using assms
    by (simp add: le64_get_bits_def u64_encode_bits_def FIELD_PREP_def FIELD_GET_def ffs_GENMASK)
qed

theorem le64_get_bits_loses_field_witness:
  "le64_get_bits 0x1200 (GENMASK 15 8) = Some 0
     \<and> FIELD_GET (GENMASK 15 8) 0x1200 = Some (drop_bit 8 (0x1200 AND GENMASK 15 8))"
  using le64_get_bits_loses_field [of 8 15 "0x1200"] by simp

end
