(* ===== verification/ListHead.thy ===== *)
theory ListHead
  imports Prelude
begin

text \<open>
  The intrusive lists of \<open>linux/types.h\<close>. The memory is the store of the \<open>next\<close> and
  \<open>prev\<close> fields, by node address; \<open>None\<close> is the null pointer, and an operation that
  follows one has the result \<open>None\<close>. The circular list that starts at a head is related to
  the sequence of its nodes by \<open>dll\<close>; the locale \<open>intrusive_fifo\<close> states what the users of
  these lists (the work queues and the packet queues) rely on, and the client lemmas about
  draining a queue are proved in it once.
\<close>

type_synonym addr = nat

record lmem =
  nxt :: "addr \<Rightarrow> addr option"
  prv :: "addr \<Rightarrow> addr option"

abbreviation set_nxt :: "addr \<Rightarrow> addr option \<Rightarrow> lmem \<Rightarrow> lmem" where
  "set_nxt a v m \<equiv> m\<lparr>nxt := (nxt m)(a := v)\<rparr>"

abbreviation set_prv :: "addr \<Rightarrow> addr option \<Rightarrow> lmem \<Rightarrow> lmem" where
  "set_prv a v m \<equiv> m\<lparr>prv := (prv m)(a := v)\<rparr>"

definition INIT_LIST_HEAD :: "addr \<Rightarrow> lmem \<Rightarrow> lmem" where
  "INIT_LIST_HEAD l m = set_prv l (Some l) (set_nxt l (Some l) m)"

definition list_add_between :: "addr \<Rightarrow> addr \<Rightarrow> addr \<Rightarrow> lmem \<Rightarrow> lmem" where
  "list_add_between n p q m =
     set_nxt p (Some n) (set_prv n (Some p) (set_nxt n (Some q) (set_prv q (Some n) m)))"

definition list_add_tail :: "addr \<Rightarrow> addr \<Rightarrow> lmem \<Rightarrow> lmem option" where
  "list_add_tail n head m = Option.bind (prv m head) (\<lambda>p. Some (list_add_between n p head m))"

definition list_add :: "addr \<Rightarrow> addr \<Rightarrow> lmem \<Rightarrow> lmem option" where
  "list_add n head m = Option.bind (nxt m head) (\<lambda>q. Some (list_add_between n head q m))"

text \<open>Each statement of \<open>list_del\<close> reads the fields again after the one before has written.\<close>

definition list_del :: "addr \<Rightarrow> lmem \<Rightarrow> lmem option" where
  "list_del e m =
     Option.bind (prv m e) (\<lambda>p.
       let m1 = set_nxt p (nxt m e) m in
       Option.bind (nxt m1 e) (\<lambda>q.
         let m2 = set_prv q (prv m1 e) m1 in
         Some (set_prv e None (set_nxt e None m2))))"

definition list_del_init :: "addr \<Rightarrow> lmem \<Rightarrow> lmem option" where
  "list_del_init e m = Option.bind (list_del e m) (\<lambda>m'. Some (INIT_LIST_HEAD e m'))"

definition list_empty :: "addr \<Rightarrow> lmem \<Rightarrow> bool" where
  "list_empty head m \<longleftrightarrow> nxt m head = Some head"

definition list_move_tail :: "addr \<Rightarrow> addr \<Rightarrow> lmem \<Rightarrow> lmem option" where
  "list_move_tail e head m = Option.bind (list_del e m) (list_add_tail e head)"

definition list_first_entry_or_null :: "addr \<Rightarrow> lmem \<Rightarrow> addr option" where
  "list_first_entry_or_null head m =
     (case nxt m head of None \<Rightarrow> None | Some p \<Rightarrow> if p \<noteq> head then Some p else None)"

section \<open>Hash-list nodes\<close>

text \<open>
  \<open>pprev\<close> points at the pointer that points at the node: the \<open>first\<close> field of a head or
  the \<open>next\<close> field of a node.
\<close>

datatype hcell = First addr | Next addr

record hmem =
  hfirst :: "addr \<Rightarrow> addr option"
  hnext :: "addr \<Rightarrow> addr option"
  pprev :: "addr \<Rightarrow> hcell option"

fun store_cell :: "hcell \<Rightarrow> addr option \<Rightarrow> hmem \<Rightarrow> hmem" where
  "store_cell (First h) v m = m\<lparr>hfirst := (hfirst m)(h := v)\<rparr>"
| "store_cell (Next n) v m = m\<lparr>hnext := (hnext m)(n := v)\<rparr>"

definition INIT_HLIST_HEAD :: "addr \<Rightarrow> hmem \<Rightarrow> hmem" where
  "INIT_HLIST_HEAD h m = m\<lparr>hfirst := (hfirst m)(h := None)\<rparr>"

definition hlist_empty :: "addr \<Rightarrow> hmem \<Rightarrow> bool" where
  "hlist_empty h m \<longleftrightarrow> hfirst m h = None"

definition hlist_add_head :: "addr \<Rightarrow> addr \<Rightarrow> hmem \<Rightarrow> hmem" where
  "hlist_add_head n h m =
     (let m1 = m\<lparr>hnext := (hnext m)(n := hfirst m h)\<rparr>;
          m2 = (case hfirst m1 h of None \<Rightarrow> m1
                | Some f \<Rightarrow> m1\<lparr>pprev := (pprev m1)(f := Some (Next n))\<rparr>)
      in m2\<lparr>hfirst := (hfirst m2)(h := Some n), pprev := (pprev m2)(n := Some (First h))\<rparr>)"

text \<open>
  The last statement casts the node to \<open>struct list_head\<close> and initialises it as a list head:
  both words of the node then hold the node's own address, which read as a hash node is
  \<open>next = n\<close> and \<open>pprev = &n->next\<close>.
\<close>

definition hlist_del_init :: "addr \<Rightarrow> hmem \<Rightarrow> hmem" where
  "hlist_del_init n m =
     (case pprev m n of None \<Rightarrow> m
      | Some c \<Rightarrow>
          let m1 = store_cell c (hnext m n) m;
              m2 = (case hnext m1 n of None \<Rightarrow> m1
                    | Some q \<Rightarrow> m1\<lparr>pprev := (pprev m1)(q := pprev m1 n)\<rparr>)
          in m2\<lparr>hnext := (hnext m2)(n := Some n), pprev := (pprev m2)(n := Some (Next n))\<rparr>)"

section \<open>Circular lists and their node sequences\<close>

fun dseg :: "lmem \<Rightarrow> addr \<Rightarrow> addr list \<Rightarrow> addr \<Rightarrow> bool" where
  "dseg m a [] b \<longleftrightarrow> nxt m a = Some b \<and> prv m b = Some a"
| "dseg m a (x # xs) b \<longleftrightarrow> nxt m a = Some x \<and> prv m x = Some a \<and> dseg m x xs b"

definition dll :: "lmem \<Rightarrow> addr \<Rightarrow> addr list \<Rightarrow> bool" where
  "dll m h xs \<longleftrightarrow> distinct (h # xs) \<and> dseg m h xs h"

lemma dseg_append [simp]: "dseg m a (xs @ y # ys) b \<longleftrightarrow> dseg m a xs y \<and> dseg m y ys b"
  by (induction xs arbitrary: a) auto

text \<open>
  A segment only depends on the \<open>next\<close> field of its start and inner nodes and the \<open>prev\<close>
  field of its inner nodes and end.
\<close>

lemma dseg_cong:
  "(\<And>x. x \<in> set (a # xs) \<Longrightarrow> nxt m' x = nxt m x) \<Longrightarrow>
   (\<And>x. x \<in> set (b # xs) \<Longrightarrow> prv m' x = prv m x) \<Longrightarrow> dseg m' a xs b = dseg m a xs b"
  by (induction xs arbitrary: a) auto

lemma dseg_last: "dseg m a xs b \<Longrightarrow> prv m b = Some (last (a # xs))"
  by (induction xs arbitrary: a) auto

lemma dseg_first: "dseg m a xs b \<Longrightarrow> nxt m a = Some (hd (xs @ [b]))"
  by (cases xs) auto

lemma dll_cong:
  "(\<And>x. x \<in> set (h # xs) \<Longrightarrow> nxt m' x = nxt m x \<and> prv m' x = prv m x) \<Longrightarrow> dll m' h xs = dll m h xs"
  unfolding dll_def by (subst dseg_cong [of h xs m' m h]) auto

lemma dll_init: "dll (INIT_LIST_HEAD h m) h []"
  by (simp add: dll_def INIT_LIST_HEAD_def)

lemma dll_empty_iff: "dll m h xs \<Longrightarrow> list_empty h m \<longleftrightarrow> xs = []"
  by (cases xs) (auto simp: dll_def list_empty_def)

lemma dll_first: "dll m h xs \<Longrightarrow> list_first_entry_or_null h m = (case xs of [] \<Rightarrow> None | x # _ \<Rightarrow> Some x)"
  by (cases xs) (auto simp: dll_def list_first_entry_or_null_def)

lemma dll_add_tail:
  assumes "dll m h xs" and "n \<notin> set (h # xs)"
  shows "\<exists>m'. list_add_tail n h m = Some m' \<and> dll m' h (xs @ [n])
     \<and> (\<forall>x. x \<notin> set (n # h # xs) \<longrightarrow> nxt m' x = nxt m x \<and> prv m' x = prv m x)"
proof (cases xs rule: rev_cases)
  case Nil
  then show ?thesis
    using assms by (auto simp: dll_def list_add_tail_def list_add_between_def)
next
  case (snoc ys y)
  have y: "dseg m h ys y" "nxt m y = Some h" "prv m h = Some y"
    using assms(1) snoc by (auto simp: dll_def)
  let ?m = "list_add_between n y h m"
  have "list_add_tail n h m = Some ?m" using y by (simp add: list_add_tail_def)
  moreover have "dseg ?m h ys y"
    using y(1) assms snoc
    by (subst dseg_cong [of h ys ?m m y]) (auto simp: list_add_between_def dll_def)
  ultimately show ?thesis
    using assms snoc by (auto simp: dll_def list_add_between_def)
qed

lemma dll_add_head:
  assumes "dll m h xs" and "n \<notin> set (h # xs)"
  shows "\<exists>m'. list_add n h m = Some m' \<and> dll m' h (n # xs)"
proof (cases xs)
  case Nil
  then show ?thesis
    using assms by (auto simp: dll_def list_add_def list_add_between_def)
next
  case (Cons y ys)
  have y: "dseg m y ys h" "nxt m h = Some y" "prv m y = Some h"
    using assms(1) Cons by (auto simp: dll_def)
  let ?m = "list_add_between n h y m"
  have "list_add n h m = Some ?m" using y by (simp add: list_add_def)
  moreover have "dseg ?m y ys h"
    using y(1) assms Cons
    by (subst dseg_cong [of y ys ?m m h]) (auto simp: list_add_between_def dll_def)
  ultimately show ?thesis
    using assms Cons by (auto simp: dll_def list_add_between_def)
qed

text \<open>Removing a node joins its two neighbours.\<close>

lemma list_del_eq:
  assumes "dll m h (xs @ e # ys)"
  shows "list_del e m = Some (set_prv e None (set_nxt e None
           (set_prv (hd (ys @ [h])) (Some (last (h # xs))) (set_nxt (last (h # xs)) (Some (hd (ys @ [h]))) m))))"
proof -
  have *: "dseg m h xs e" "dseg m e ys h" "e \<notin> set (h # xs)"
    using assms by (auto simp: dll_def)
  have ne: "last (h # xs) \<noteq> e" using *(3) by (metis last_in_set list.distinct(1))
  show ?thesis
    using dseg_last [OF *(1)] dseg_first [OF *(2)] ne by (simp add: list_del_def)
qed

lemma dll_del:
  assumes "dll m h (xs @ e # ys)"
  shows "\<exists>m'. list_del e m = Some m' \<and> dll m' h (xs @ ys)
     \<and> (\<forall>x. x \<notin> set (h # xs @ e # ys) \<longrightarrow> nxt m' x = nxt m x \<and> prv m' x = prv m x)"
proof -
  define p where "p = last (h # xs)"
  define q where "q = hd (ys @ [h])"
  define m' where "m' = set_prv e None (set_nxt e None (set_prv q (Some p) (set_nxt p (Some q) m)))"
  have d: "list_del e m = Some m'"
    using list_del_eq [OF assms] by (simp only: m'_def p_def q_def)
  have seg: "dseg m h xs e" "dseg m e ys h" "distinct (h # xs @ e # ys)"
    using assms by (auto simp: dll_def)
  have pq: "p \<in> set (h # xs)" "q \<in> set (h # ys)"
    by (auto simp: p_def q_def) (cases ys; simp)
  have pre: "dseg m' h xs q"
  proof (cases xs rule: rev_cases)
    case Nil
    then show ?thesis using seg pq by (auto simp: m'_def p_def)
  next
    case (snoc zs z)
    then have z: "p = z" "dseg m h zs z" using seg(1) by (auto simp: p_def)
    have "q \<notin> set xs" using pq seg(3) by auto
    then have "dseg m' h zs z"
      using z seg(3) snoc by (subst dseg_cong [of h zs m' m z]) (auto simp: m'_def)
    then show ?thesis using snoc z seg pq by (auto simp: m'_def)
  qed
  have post: "dseg m' q (tl ys) h" if "ys \<noteq> []"
  proof -
    obtain zs where zs: "ys = q # zs" using \<open>ys \<noteq> []\<close> by (cases ys) (auto simp: q_def)
    have "p \<notin> set ys" using pq seg(3) by auto
    then show ?thesis
      using seg zs by (subst dseg_cong [of q "tl ys" m' m h]) (auto simp: m'_def)
  qed
  have "dseg m' h (xs @ ys) h"
  proof (cases ys)
    case Nil
    then show ?thesis using pre by (simp add: q_def)
  next
    case (Cons z zs)
    then show ?thesis using pre post by (simp add: q_def)
  qed
  moreover have "\<forall>x. x \<notin> set (h # xs @ e # ys) \<longrightarrow> nxt m' x = nxt m x \<and> prv m' x = prv m x"
    using pq by (auto simp: m'_def)
  ultimately show ?thesis using d seg(3) by (auto simp: dll_def)
qed

lemma dll_del_init:
  assumes "dll m h (xs @ e # ys)"
  shows "\<exists>m'. list_del_init e m = Some m' \<and> dll m' h (xs @ ys) \<and> dll m' e []
     \<and> (\<forall>x. x \<notin> set (h # xs @ e # ys) \<longrightarrow> nxt m' x = nxt m x \<and> prv m' x = prv m x)"
proof -
  obtain m1 where m1: "list_del e m = Some m1" "dll m1 h (xs @ ys)"
    "\<forall>x. x \<notin> set (h # xs @ e # ys) \<longrightarrow> nxt m1 x = nxt m x \<and> prv m1 x = prv m x"
    using dll_del [OF assms] by blast
  have e: "e \<notin> set (h # xs @ ys)" using assms by (auto simp: dll_def)
  have "dll (INIT_LIST_HEAD e m1) h (xs @ ys)"
    using m1(2) e by (subst dll_cong [of h "xs @ ys" _ m1]) (auto simp: INIT_LIST_HEAD_def)
  then show ?thesis
    using m1 dll_init by (auto simp: list_del_init_def) (auto simp: INIT_LIST_HEAD_def)
qed

lemma split_remove1: "x \<in> set xs \<Longrightarrow> \<exists>ys zs. xs = ys @ x # zs \<and> x \<notin> set ys \<and> remove1 x xs = ys @ zs"
  by (metis remove1_append remove1.simps(2) split_list_first)

section \<open>The interface: a queue of linked nodes\<close>

text \<open>
  \<open>rep q xs\<close>: the queue \<open>q\<close> holds the nodes \<open>xs\<close>, oldest first. \<open>enq\<close> links a
  node that is not in the queue at the tail, \<open>unlink\<close> takes a node of the queue out and
  \<open>peek\<close> reads the oldest one.
\<close>

locale intrusive_fifo =
  fixes rep :: "'q \<Rightarrow> 'n list \<Rightarrow> bool"
    and usable :: "'q \<Rightarrow> 'n \<Rightarrow> bool"
    and enq :: "'n \<Rightarrow> 'q \<Rightarrow> 'q option"
    and unlink :: "'n \<Rightarrow> 'q \<Rightarrow> 'q option"
    and peek :: "'q \<Rightarrow> 'n option"
  assumes rep_distinct: "rep q xs \<Longrightarrow> distinct xs"
    and peek_rep: "rep q xs \<Longrightarrow> peek q = (case xs of [] \<Rightarrow> None | x # _ \<Rightarrow> Some x)"
    and enq_rep: "rep q xs \<Longrightarrow> usable q n \<Longrightarrow> n \<notin> set xs \<Longrightarrow> \<exists>q'. enq n q = Some q' \<and> rep q' (xs @ [n])"
    and enq_usable: "enq n q = Some q' \<Longrightarrow> usable q' k = usable q k"
    and unlink_rep: "rep q xs \<Longrightarrow> n \<in> set xs \<Longrightarrow> \<exists>q'. unlink n q = Some q' \<and> rep q' (remove1 n xs)"
begin

text \<open>Taking the oldest node out, as \<open>skb_dequeue\<close> and the worker thread do.\<close>

definition deq where
  "deq q = (case peek q of None \<Rightarrow> Some (None, q)
            | Some n \<Rightarrow> map_option (\<lambda>q'. (Some n, q')) (unlink n q))"

lemma deq_Nil: "rep q [] \<Longrightarrow> deq q = Some (None, q)"
  by (simp add: deq_def peek_rep)

lemma deq_Cons: "rep q (x # xs) \<Longrightarrow> \<exists>q'. deq q = Some (Some x, q') \<and> rep q' xs"
  using unlink_rep [of q "x # xs" x] by (auto simp: deq_def peek_rep)

fun enq_all where
  "enq_all [] q = Some q"
| "enq_all (n # ns) q = Option.bind (enq n q) (enq_all ns)"

lemma enq_all_rep:
  "rep q xs \<Longrightarrow> (\<And>n. n \<in> set ns \<Longrightarrow> usable q n) \<Longrightarrow> distinct (xs @ ns) \<Longrightarrow>
   \<exists>q'. enq_all ns q = Some q' \<and> rep q' (xs @ ns)"
proof (induction ns arbitrary: q xs)
  case Nil
  then show ?case by simp
next
  case (Cons n ns)
  then obtain q1 where q1: "enq n q = Some q1" "rep q1 (xs @ [n])"
    using enq_rep [of q xs n] by auto
  have "\<exists>q'. enq_all ns q1 = Some q' \<and> rep q' ((xs @ [n]) @ ns)"
    using Cons.prems q1 enq_usable [OF q1(1)] by (intro Cons.IH) auto
  then show ?case using q1 by simp
qed

fun deq_all where
  "deq_all 0 q = Some ([], q)"
| "deq_all (Suc k) q =
     Option.bind (deq q) (\<lambda>(r, q'). case r of None \<Rightarrow> Some ([], q')
       | Some n \<Rightarrow> map_option (\<lambda>(ns, q''). (n # ns, q'')) (deq_all k q'))"

lemma deq_all_rep: "rep q xs \<Longrightarrow> length xs < k \<Longrightarrow> \<exists>q'. deq_all k q = Some (xs, q') \<and> rep q' []"
proof (induction xs arbitrary: q k)
  case Nil
  then obtain j where "k = Suc j" by (cases k) auto
  with Nil show ?case by (simp add: deq_Nil)
next
  case (Cons x xs)
  then obtain j where j: "k = Suc j" "length xs < j" by (cases k) auto
  obtain q1 where q1: "deq q = Some (Some x, q1)" "rep q1 xs"
    using deq_Cons [OF Cons.prems(1)] by blast
  then show ?case using Cons.IH [OF q1(2) j(2)] j(1) by auto
qed

end

text \<open>The list heads of \<open>linux/types.h\<close> provide it: a queue is a memory and a head.\<close>

definition lh_rep :: "lmem \<times> addr \<Rightarrow> addr list \<Rightarrow> bool" where
  "lh_rep q xs = dll (fst q) (snd q) xs"

definition lh_enq :: "addr \<Rightarrow> lmem \<times> addr \<Rightarrow> (lmem \<times> addr) option" where
  "lh_enq n q = map_option (\<lambda>m. (m, snd q)) (list_add_tail n (snd q) (fst q))"

definition lh_unlink :: "addr \<Rightarrow> lmem \<times> addr \<Rightarrow> (lmem \<times> addr) option" where
  "lh_unlink n q = map_option (\<lambda>m. (m, snd q)) (list_del_init n (fst q))"

definition lh_peek :: "lmem \<times> addr \<Rightarrow> addr option" where
  "lh_peek q = list_first_entry_or_null (snd q) (fst q)"

interpretation lh: intrusive_fifo lh_rep "\<lambda>q n. n \<noteq> snd q" lh_enq lh_unlink lh_peek
proof unfold_locales
  fix q xs n
  assume rep: "lh_rep q xs"
  show "distinct xs" using rep by (simp add: lh_rep_def dll_def)
  show "lh_peek q = (case xs of [] \<Rightarrow> None | x # _ \<Rightarrow> Some x)"
    using rep dll_first by (simp add: lh_rep_def lh_peek_def)
  show "\<exists>q'. lh_enq n q = Some q' \<and> lh_rep q' (xs @ [n])" if "n \<noteq> snd q" "n \<notin> set xs"
    using dll_add_tail [of "fst q" "snd q" xs n] rep that by (auto simp: lh_rep_def lh_enq_def)
  show "\<exists>q'. lh_unlink n q = Some q' \<and> lh_rep q' (remove1 n xs)" if mem: "n \<in> set xs"
  proof -
    obtain ys zs where xs: "xs = ys @ n # zs" "remove1 n xs = ys @ zs"
      using split_remove1 [OF mem] by blast
    then show ?thesis
      using dll_del_init [of "fst q" "snd q" ys n zs] rep by (auto simp: lh_rep_def lh_unlink_def)
  qed
next
  fix n q q' k
  assume "lh_enq n q = Some q'"
  then show "(k \<noteq> snd q') = (k \<noteq> snd q)" by (auto simp: lh_enq_def)
qed

section \<open>Properties\<close>

text \<open>
  the circular list of \<open>linux/types.h\<close> is a first-in first-out queue: from a freshly
  initialised head, linking any distinct nodes with \<open>list_add_tail\<close> never follows a null
  pointer, and unlinking the first entry until the list is empty gives back exactly those
  nodes in the order they were added.
\<close>

theorem list_head_fifo:
  assumes "distinct ns" and "h \<notin> set ns"
  shows "\<exists>q. lh.enq_all ns (INIT_LIST_HEAD h m, h) = Some q \<and> lh_rep q ns
     \<and> (\<exists>q'. lh.deq_all (Suc (length ns)) q = Some (ns, q') \<and> lh_rep q' [])"
proof -
  have "lh_rep (INIT_LIST_HEAD h m, h) []" by (simp add: lh_rep_def dll_init)
  then obtain q where q: "lh.enq_all ns (INIT_LIST_HEAD h m, h) = Some q" "lh_rep q ns"
    using lh.enq_all_rep [of "(INIT_LIST_HEAD h m, h)" "[]" ns] assms by auto
  then show ?thesis using lh.deq_all_rep [OF q(2), of "Suc (length ns)"] by blast
qed

theorem list_head_fifo_witness:
  "\<exists>q. lh.enq_all [5, 3, 9] (INIT_LIST_HEAD 1 \<lparr>nxt = Map.empty, prv = Map.empty\<rparr>, 1) = Some q
     \<and> lh_rep q [5, 3, 9]
     \<and> (\<exists>q'. lh.deq_all (Suc (length [5, 3, 9 :: nat])) q = Some ([5, 3, 9], q') \<and> lh_rep q' [])"
  by (rule list_head_fifo) simp_all

text \<open>
  \<open>list_del_init\<close> takes a node out of the middle of a list: the list keeps the other nodes
  in order, the node is left as an empty list of its own, so \<open>list_empty\<close> holds of it, and no
  memory outside the list is written.
\<close>

theorem list_del_init_unlinks:
  assumes "dll m h (xs @ e # ys)"
  shows "\<exists>m'. list_del_init e m = Some m' \<and> dll m' h (xs @ ys) \<and> list_empty e m'
     \<and> (\<forall>x. x \<notin> set (h # xs @ e # ys) \<longrightarrow> nxt m' x = nxt m x \<and> prv m' x = prv m x)"
  using dll_del_init [OF assms] by (auto simp: dll_def list_empty_def)

theorem list_del_init_unlinks_witness:
  "\<exists>m'. list_del_init 2 \<lparr>nxt = [1 \<mapsto> 2, 2 \<mapsto> 3, 3 \<mapsto> 1], prv = [1 \<mapsto> 3, 2 \<mapsto> 1, 3 \<mapsto> 2]\<rparr> = Some m'
     \<and> dll m' 1 [3] \<and> list_empty 2 m'"
proof -
  have "dll \<lparr>nxt = [1 \<mapsto> 2, 2 \<mapsto> 3, 3 \<mapsto> 1], prv = [1 \<mapsto> 3, 2 \<mapsto> 1, 3 \<mapsto> 2]\<rparr> 1 ([] @ 2 # [3])"
    by (simp add: dll_def)
  from list_del_init_unlinks [OF this] show ?thesis by auto
qed

end
