(* ===== verification/SkBuff.thy ===== *)
theory SkBuff
  imports ListHead
begin

text \<open>
  The packet buffers of \<open>linux/skbuff.h\<close>. A buffer is the bytes of its allocation with the
  \<open>data\<close> and \<open>tail\<close> pointers as offsets from \<open>head\<close> (\<open>end\<close> is the length of the
  allocation). The shim moves the pointers without a check, so the offsets are integers that
  may leave the allocation, \<open>len\<close> is the 32-bit counter that wraps, and a block write
  outside the allocation is undefined (\<open>None\<close>). The queues are list heads with a counter;
  they provide the interface \<open>intrusive_fifo\<close> of the list theory. The kernel allocator is a
  parameter: whether each of its calls succeeds, and the contents of fresh memory.
\<close>

section \<open>Buffers\<close>

record sk_buff =
  head_mem :: bytes
  data :: int
  tail :: int
  len :: u32
  data_len :: u32
  protocol :: u16
  pkt_type :: u8
  priority :: u32
  queue_mapping :: u16
  ip_summed :: u32
  cb :: bytes
  dma_addr :: u64
  mbuf_ref :: "nat option"

definition sk_end :: "sk_buff \<Rightarrow> int" where
  "sk_end skb = int (length (head_mem skb))"

record skb_alloc =
  data_ok :: bool
  skb_ok :: bool
  garbage :: "nat \<Rightarrow> u8"

text \<open>
  \<open>alloc_skb\<close>: the first \<open>kmalloc\<close> is for the bytes, the second, which zeroes, for the
  structure.
\<close>

definition alloc_skb :: "skb_alloc \<Rightarrow> u32 \<Rightarrow> sk_buff option" where
  "alloc_skb al sz =
     (let alloc_size = sz + 64 in
      if \<not> data_ok al then None
      else if \<not> skb_ok al then None
      else Some \<lparr>head_mem = map (garbage al) [0..<unat alloc_size], data = 0, tail = 0, len = 0,
                 data_len = 0, protocol = 0, pkt_type = 0, priority = 0, queue_mapping = 0,
                 ip_summed = 0, cb = replicate 64 0, dma_addr = 0, mbuf_ref = None\<rparr>)"

definition dev_alloc_skb :: "skb_alloc \<Rightarrow> u32 \<Rightarrow> sk_buff option" where
  "dev_alloc_skb al sz = alloc_skb al sz"

definition netdev_alloc_skb :: "skb_alloc \<Rightarrow> u32 \<Rightarrow> sk_buff option" where
  "netdev_alloc_skb al sz = alloc_skb al sz"

definition netdev_alloc_skb_ip_align :: "skb_alloc \<Rightarrow> u32 \<Rightarrow> sk_buff option" where
  "netdev_alloc_skb_ip_align al sz = alloc_skb al (sz + 2)"

text \<open>Stores through a pointer into the allocation.\<close>

definition skb_store :: "sk_buff \<Rightarrow> int \<Rightarrow> bytes \<Rightarrow> sk_buff option" where
  "skb_store skb off bs =
     (if 0 \<le> off then map_option (\<lambda>b. skb\<lparr>head_mem := b\<rparr>) (memcpy_at (head_mem skb) (nat off) bs)
      else None)"

definition skb_load :: "sk_buff \<Rightarrow> int \<Rightarrow> nat \<Rightarrow> bytes option" where
  "skb_load skb off n =
     (if 0 \<le> off \<and> nat off + n \<le> length (head_mem skb) then Some (block (head_mem skb) (nat off) n)
      else None)"

definition skb_put :: "sk_buff \<Rightarrow> u32 \<Rightarrow> int \<times> sk_buff" where
  "skb_put skb n = (tail skb, skb\<lparr>tail := tail skb + uint n, len := len skb + n\<rparr>)"

definition skb_put_zero :: "sk_buff \<Rightarrow> u32 \<Rightarrow> (int \<times> sk_buff) option" where
  "skb_put_zero skb n =
     (let (tmp, s) = skb_put skb n
      in map_option (Pair tmp) (skb_store s tmp (replicate (unat n) 0)))"

text \<open>The source block has \<open>length bs\<close> bytes, the \<open>len\<close> argument of the call.\<close>

definition skb_put_data :: "sk_buff \<Rightarrow> bytes \<Rightarrow> sk_buff option" where
  "skb_put_data skb bs =
     (let (tmp, s) = skb_put skb (of_nat (length bs)) in skb_store s tmp bs)"

definition skb_push :: "sk_buff \<Rightarrow> u32 \<Rightarrow> int \<times> sk_buff" where
  "skb_push skb n =
     (let s = skb\<lparr>data := data skb - uint n, len := len skb + n\<rparr> in (data s, s))"

definition skb_pull :: "sk_buff \<Rightarrow> u32 \<Rightarrow> int \<times> sk_buff" where
  "skb_pull skb n =
     (let s = skb\<lparr>data := data skb + uint n, len := len skb - n\<rparr> in (data s, s))"

definition skb_reserve :: "sk_buff \<Rightarrow> int \<Rightarrow> sk_buff" where
  "skb_reserve skb n = skb\<lparr>data := data skb + n, tail := tail skb + n\<rparr>"

definition skb_trim :: "sk_buff \<Rightarrow> u32 \<Rightarrow> sk_buff" where
  "skb_trim skb n =
     (if len skb > n then skb\<lparr>tail := tail skb - uint (len skb - n), len := n\<rparr> else skb)"

definition skb_headroom :: "sk_buff \<Rightarrow> u32" where
  "skb_headroom skb = word_of_int (data skb)"

definition skb_tailroom :: "sk_buff \<Rightarrow> u32" where
  "skb_tailroom skb = word_of_int (sk_end skb - tail skb)"

definition skb_tailroom_reserve :: "sk_buff \<Rightarrow> u32 \<Rightarrow> u32 \<Rightarrow> int" where
  "skb_tailroom_reserve skb mtu needed_tailroom =
     sint (word_of_int (sint (skb_tailroom skb) - sint needed_tailroom) :: u32)"

definition skb_tail_pointer :: "sk_buff \<Rightarrow> int" where
  "skb_tail_pointer skb = tail skb"

definition skb_mac_header :: "sk_buff \<Rightarrow> int" where
  "skb_mac_header skb = data skb"

definition skb_reset_tail_pointer :: "sk_buff \<Rightarrow> sk_buff" where
  "skb_reset_tail_pointer skb = skb\<lparr>tail := data skb\<rparr>"

definition skb_copy_from_linear_data :: "sk_buff \<Rightarrow> nat \<Rightarrow> bytes option" where
  "skb_copy_from_linear_data skb n = skb_load skb (data skb) n"

text \<open>The headroom is passed to the \<open>int\<close> parameter of \<open>skb_reserve\<close>: the signed reading.\<close>

definition skb_copy :: "skb_alloc \<Rightarrow> sk_buff \<Rightarrow> sk_buff option option" where
  "skb_copy al skb =
     (case alloc_skb al (len skb + skb_headroom skb) of
        None \<Rightarrow> Some None
      | Some n0 \<Rightarrow>
          let n1 = skb_reserve n0 (sint (skb_headroom skb));
              (at, n2) = skb_put n1 (len skb)
          in Option.bind (skb_load skb (data skb) (unat (len skb))) (\<lambda>bs.
               Option.bind (skb_store n2 at bs) (\<lambda>n3. Some (Some (n3\<lparr>cb := cb skb\<rparr>)))))"

definition skb_clone :: "skb_alloc \<Rightarrow> sk_buff \<Rightarrow> sk_buff option option" where
  "skb_clone al skb = skb_copy al skb"

definition skb_copy_header :: "sk_buff \<Rightarrow> sk_buff \<Rightarrow> sk_buff" where
  "skb_copy_header dst src = dst\<lparr>cb := cb src, priority := priority src\<rparr>"

definition skb_get_queue_mapping :: "sk_buff \<Rightarrow> u16" where
  "skb_get_queue_mapping skb = queue_mapping skb"

definition skb_set_queue_mapping :: "sk_buff \<Rightarrow> u16 \<Rightarrow> sk_buff" where
  "skb_set_queue_mapping skb q = skb\<lparr>queue_mapping := q\<rparr>"

section \<open>Well-formed buffers and their payload\<close>

definition skb_wf :: "sk_buff \<Rightarrow> bool" where
  "skb_wf skb \<longleftrightarrow> 0 \<le> data skb \<and> data skb \<le> tail skb \<and> tail skb \<le> sk_end skb
     \<and> uint (len skb) = tail skb - data skb \<and> sk_end skb < 2 ^ 31 \<and> length (cb skb) = 64"

definition payload :: "sk_buff \<Rightarrow> bytes" where
  "payload skb = block (head_mem skb) (nat (data skb)) (nat (tail skb - data skb))"

lemma skb_wfE:
  assumes "skb_wf skb"
  obtains d t where "data skb = int d" "tail skb = int t" "d \<le> t" "t \<le> length (head_mem skb)"
    "unat (len skb) = t - d" "length (head_mem skb) < 2 ^ 31" "length (cb skb) = 64"
    "payload skb = block (head_mem skb) d (t - d)"
proof
  let ?d = "nat (data skb)" and ?t = "nat (tail skb)"
  show "data skb = int ?d" "tail skb = int ?t" "?d \<le> ?t" "?t \<le> length (head_mem skb)"
    "length (head_mem skb) < 2 ^ 31" "length (cb skb) = 64"
    using assms by (auto simp: skb_wf_def sk_end_def)
  show "payload skb = block (head_mem skb) ?d (?t - ?d)"
    using assms by (simp add: payload_def skb_wf_def nat_diff_distrib)
  show "unat (len skb) = ?t - ?d"
    using assms by (simp add: skb_wf_def nat_diff_distrib flip: nat_uint_eq)
qed

lemma skb_wfI:
  assumes "data skb = int d" "tail skb = int t" "d \<le> t" "t \<le> length (head_mem skb)"
    "unat (len skb) = t - d" "length (head_mem skb) < 2 ^ 31" "length (cb skb) = 64"
  shows "skb_wf skb" and "payload skb = block (head_mem skb) d (t - d)"
  using assms by (simp_all add: skb_wf_def sk_end_def payload_def uint_nat of_nat_diff nat_diff_distrib)

lemma skb_wf_len: "skb_wf skb \<Longrightarrow> length (payload skb) = unat (len skb)"
  by (erule skb_wfE) (simp add: buf_simps)

lemma alloc_skb_wf:
  assumes "alloc_skb al sz = Some skb" and "unat sz + 64 < 2 ^ 31"
  shows "skb_wf skb" and "payload skb = []" and "length (head_mem skb) = unat sz + 64"
    and "data skb = 0" and "tail skb = 0"
proof -
  have sz: "unat (sz + 64) = unat sz + 64"
    using assms(2) by (simp add: unat_word_ariths)
  have f: "length (head_mem skb) = unat sz + 64" "data skb = 0" "tail skb = 0" "len skb = 0"
    "length (cb skb) = 64"
    using assms(1) sz by (auto simp: alloc_skb_def Let_def split: if_splits)
  then show "length (head_mem skb) = unat sz + 64" "data skb = 0" "tail skb = 0" by simp_all
  show "skb_wf skb" "payload skb = []"
    using skb_wfI [of skb 0 0] f assms(2) by simp_all
qed

lemma block_append_blit:
  "d \<le> t \<Longrightarrow> t + length bs \<le> length xs \<Longrightarrow>
   block (blit xs t bs) d (t + length bs - d) = block xs d (t - d) @ bs"
  by (rule nth_equalityI) (auto simp: buf_simps nth_append add.commute)

text \<open>\<open>skb_put_data\<close> appends to the payload when the bytes fit the tail room.\<close>

lemma skb_put_data_ok:
  assumes wf: "skb_wf skb" and room: "tail skb + int (length bs) \<le> sk_end skb"
  shows "\<exists>s. skb_put_data skb bs = Some s \<and> skb_wf s \<and> payload s = payload skb @ bs
     \<and> data s = data skb \<and> tail s = tail skb + int (length bs) \<and> cb s = cb skb
     \<and> length (head_mem s) = length (head_mem skb)"
proof -
  from wf obtain d t where dt: "data skb = int d" "tail skb = int t" "d \<le> t"
    "length (head_mem skb) < 2 ^ 31" "length (cb skb) = 64" "unat (len skb) = t - d"
    "payload skb = block (head_mem skb) d (t - d)"
    by (rule skb_wfE)
  have fit: "t + length bs \<le> length (head_mem skb)" using room dt by (simp add: sk_end_def)
  have n: "unat (of_nat (length bs) :: u32) = length bs"
    using fit dt(4) by (intro unat_of_nat_small) simp
  have l: "unat (len skb + of_nat (length bs)) = t + length bs - d"
    using fit dt n by (subst unat_add_small) simp_all
  define s where "s = skb\<lparr>tail := int (t + length bs), len := len skb + of_nat (length bs),
      head_mem := blit (head_mem skb) t bs\<rparr>"
  have s: "skb_put_data skb bs = Some s"
    using dt fit n by (simp add: skb_put_data_def skb_put_def skb_store_def memcpy_at_def s_def uint_nat)
  have sf: "data s = int d" "tail s = int (t + length bs)" "unat (len s) = t + length bs - d"
    "length (head_mem s) = length (head_mem skb)" "cb s = cb skb"
    "head_mem s = blit (head_mem skb) t bs"
    using dt l fit by (simp_all add: s_def buf_simps)
  have "skb_wf s" and p: "payload s = block (head_mem s) d (t + length bs - d)"
    by (rule skb_wfI [of s d "t + length bs"]; use sf dt fit in simp)+
  then show ?thesis
    using s sf dt fit by (simp add: block_append_blit)
qed

lemma skb_pull_ok:
  assumes wf: "skb_wf skb" and n: "n \<le> len skb"
  shows "skb_wf (snd (skb_pull skb n)) \<and> payload (snd (skb_pull skb n)) = drop (unat n) (payload skb)"
proof -
  from wf obtain d t where dt: "data skb = int d" "tail skb = int t" "d \<le> t" "t \<le> length (head_mem skb)"
    "length (head_mem skb) < 2 ^ 31" "length (cb skb) = 64" "unat (len skb) = t - d"
    "payload skb = block (head_mem skb) d (t - d)"
    by (rule skb_wfE)
  define k where "k = unat n"
  have un: "uint n = int k" by (simp add: k_def)
  have k: "k \<le> t - d" "unat (len skb - n) = t - (d + k)"
    using n dt(7) unat_sub_small [OF n] by (simp_all add: word_le_nat_alt k_def)
  let ?s = "snd (skb_pull skb n)"
  have sf: "data ?s = int (d + k)" "tail ?s = int t" "unat (len ?s) = t - (d + k)"
    "head_mem ?s = head_mem skb" "cb ?s = cb skb"
    using dt k un by (simp_all add: skb_pull_def Let_def)
  have "skb_wf ?s" and p: "payload ?s = block (head_mem ?s) (d + k) (t - (d + k))"
    by (rule skb_wfI [of ?s "d + k" t]; use sf dt k in simp)+
  then show ?thesis
    unfolding p sf(4) dt(8) by (simp add: block_def drop_take add.commute k_def)
qed

lemma skb_push_ok:
  assumes wf: "skb_wf skb" and n: "uint n \<le> data skb"
  shows "skb_wf (snd (skb_push skb n)) \<and> payload (snd (skb_push skb n)) =
         block (head_mem skb) (nat (data skb) - unat n) (unat n) @ payload skb"
proof -
  from wf obtain d t where dt: "data skb = int d" "tail skb = int t" "d \<le> t" "t \<le> length (head_mem skb)"
    "length (head_mem skb) < 2 ^ 31" "length (cb skb) = 64" "unat (len skb) = t - d"
    "payload skb = block (head_mem skb) d (t - d)"
    by (rule skb_wfE)
  define k where "k = unat n"
  have un: "uint n = int k" by (simp add: k_def)
  have k: "k \<le> d" using n dt(1) un by simp
  have l: "unat (len skb + n) = t - (d - k)"
    using k dt by (subst unat_add_small) (simp_all add: k_def)
  let ?s = "snd (skb_push skb n)"
  have sf: "data ?s = int (d - k)" "tail ?s = int t" "unat (len ?s) = t - (d - k)"
    "head_mem ?s = head_mem skb" "cb ?s = cb skb"
    using dt k l un by (simp_all add: skb_push_def Let_def)
  have "skb_wf ?s" and p: "payload ?s = block (head_mem ?s) (d - k) (t - (d - k))"
    by (rule skb_wfI [of ?s "d - k" t]; use sf dt k in simp)+
  moreover have "block (head_mem skb) (d - k) (t - (d - k)) =
      block (head_mem skb) (d - k) k @ block (head_mem skb) d (t - d)"
    using dt k by (intro nth_equalityI) (auto simp: buf_simps nth_append)
  ultimately show ?thesis
    using p dt(1,8) sf(4) by (simp add: k_def)
qed

lemma skb_trim_ok:
  assumes wf: "skb_wf skb"
  shows "skb_wf (skb_trim skb n) \<and> payload (skb_trim skb n) = take (unat n) (payload skb)"
proof -
  from wf obtain d t where dt: "data skb = int d" "tail skb = int t" "d \<le> t" "t \<le> length (head_mem skb)"
    "length (head_mem skb) < 2 ^ 31" "length (cb skb) = 64" "unat (len skb) = t - d"
    "payload skb = block (head_mem skb) d (t - d)"
    by (rule skb_wfE)
  define k where "k = unat n"
  have un: "uint n = int k" by (simp add: k_def)
  show ?thesis
  proof (cases "len skb > n")
    case False
    then have "t - d \<le> unat n" using dt(7) by (simp add: word_less_nat_alt)
    then show ?thesis using False wf dt(8) by (simp add: skb_trim_def block_def)
  next
    case True
    have k: "k < t - d" "unat (len skb - n) = t - d - k"
      using True dt(7) unat_sub_small [OF less_imp_le [OF True]] by (simp_all add: word_less_nat_alt k_def)
    have unat_sub_u: "uint (len skb - n) = int (t - d - k)"
      by (metis k(2) uint_nat)
    let ?s = "skb_trim skb n"
    have sf: "data ?s = int d" "tail ?s = int (d + k)" "unat (len ?s) = k"
      "head_mem ?s = head_mem skb" "cb ?s = cb skb"
      using True k dt unat_sub_u by (simp_all add: skb_trim_def k_def)
    have "skb_wf ?s" and p: "payload ?s = block (head_mem ?s) d (d + k - d)"
      by (rule skb_wfI [of ?s d "d + k"]; use sf dt k in simp)+
    then show ?thesis
      unfolding p sf(4) dt(8) using k by (simp add: block_def k_def min_def)
  qed
qed

lemma skb_put_zero_ok:
  assumes wf: "skb_wf skb" and room: "tail skb + uint n \<le> sk_end skb"
  shows "\<exists>s. skb_put_zero skb n = Some (tail skb, s) \<and> skb_wf s
     \<and> payload s = payload skb @ replicate (unat n) 0 \<and> data s = data skb
     \<and> tail s = tail skb + uint n \<and> length (head_mem s) = length (head_mem skb)"
proof -
  have "skb_put_zero skb n = map_option (Pair (tail skb)) (skb_put_data skb (replicate (unat n) 0))"
    by (simp add: skb_put_zero_def skb_put_data_def skb_put_def)
  then show ?thesis
    using skb_put_data_ok [OF wf, of "replicate (unat n) 0"] room by auto
qed

lemma skb_reserve_empty:
  assumes "skb_wf skb" "payload skb = []" "0 \<le> n" "tail skb + n \<le> sk_end skb"
  shows "skb_wf (skb_reserve skb n)" "payload (skb_reserve skb n) = []"
proof -
  have z: "tail skb = data skb"
    using skb_wf_len [OF assms(1)] assms(1,2) by (simp add: skb_wf_def unat_eq_zero)
  show "skb_wf (skb_reserve skb n)" "payload (skb_reserve skb n) = []"
    using assms z by (simp_all add: skb_wf_def skb_reserve_def payload_def sk_end_def)
qed

lemma skb_headroom_wf: "skb_wf skb \<Longrightarrow> uint (skb_headroom skb) = data skb"
  by (simp add: skb_headroom_def skb_wf_def uint_word_of_int)

lemma skb_headroom_sint: "skb_wf skb \<Longrightarrow> sint (skb_headroom skb) = data skb"
  by (subst sint_small) (simp_all add: skb_headroom_wf, simp add: skb_wf_def)

section \<open>Queues\<close>

record sk_buff_head =
  qmem :: lmem
  qhead :: addr
  qlen :: u32

definition skb_queue_head_init :: "sk_buff_head \<Rightarrow> sk_buff_head" where
  "skb_queue_head_init q = q\<lparr>qmem := INIT_LIST_HEAD (qhead q) (qmem q), qlen := 0\<rparr>"

definition skb_queue_empty :: "sk_buff_head \<Rightarrow> bool" where
  "skb_queue_empty q = list_empty (qhead q) (qmem q)"

definition skb_queue_len :: "sk_buff_head \<Rightarrow> u32" where
  "skb_queue_len q = qlen q"

definition skb_queue_tail :: "addr \<Rightarrow> sk_buff_head \<Rightarrow> sk_buff_head option" where
  "skb_queue_tail skb q =
     Option.bind (list_add_tail skb (qhead q) (qmem q)) (\<lambda>m. Some (q\<lparr>qmem := m, qlen := qlen q + 1\<rparr>))"

definition skb_queue_head :: "addr \<Rightarrow> sk_buff_head \<Rightarrow> sk_buff_head option" where
  "skb_queue_head skb q =
     Option.bind (list_add skb (qhead q) (qmem q)) (\<lambda>m. Some (q\<lparr>qmem := m, qlen := qlen q + 1\<rparr>))"

definition skb_unlink :: "addr \<Rightarrow> sk_buff_head \<Rightarrow> sk_buff_head option" where
  "skb_unlink skb q =
     Option.bind (list_del skb (qmem q)) (\<lambda>m. Some (q\<lparr>qmem := m, qlen := qlen q - 1\<rparr>))"

definition skb_peek :: "sk_buff_head \<Rightarrow> addr option" where
  "skb_peek q = (if list_empty (qhead q) (qmem q) then None else nxt (qmem q) (qhead q))"

definition skb_dequeue :: "sk_buff_head \<Rightarrow> (addr option \<times> sk_buff_head) option" where
  "skb_dequeue q =
     (if list_empty (qhead q) (qmem q) then Some (None, q)
      else Option.bind (nxt (qmem q) (qhead q)) (\<lambda>skb.
        Option.bind (list_del skb (qmem q)) (\<lambda>m.
          Some (Some skb, q\<lparr>qmem := m, qlen := qlen q - 1\<rparr>))))"

text \<open>
  \<open>skb_queue_purge\<close> (and \<open>ieee80211_purge_tx_queue\<close>, the same loop): dequeue and free until the
  queue is empty. The result lists the buffers passed to \<open>kfree_skb\<close>, in order; a purge that
  does not end, or follows a null pointer, is \<open>None\<close>.
\<close>

partial_function (option) skb_queue_purge :: "sk_buff_head \<Rightarrow> addr list \<Rightarrow> (addr list \<times> sk_buff_head) option" where
  "skb_queue_purge q freed =
     Option.bind (skb_dequeue q) (\<lambda>r. case r of
         (None, q') \<Rightarrow> Some (freed, q')
       | (Some skb, q') \<Rightarrow> skb_queue_purge q' (freed @ [skb]))"

text \<open>The lockless variants are the same list operations without the lock around them.\<close>

definition skb_queue_tail_nolock :: "addr \<Rightarrow> sk_buff_head \<Rightarrow> sk_buff_head option" where
  "skb_queue_tail_nolock = skb_queue_tail"

definition skb_unlink_nolock :: "addr \<Rightarrow> sk_buff_head \<Rightarrow> sk_buff_head option" where
  "skb_unlink_nolock = skb_unlink"

text \<open>A queue holds the buffers \<open>xs\<close>, and its counter is their number modulo the width.\<close>

definition skbq_rep :: "sk_buff_head \<Rightarrow> addr list \<Rightarrow> bool" where
  "skbq_rep q xs \<longleftrightarrow> dll (qmem q) (qhead q) xs \<and> qlen q = of_nat (length xs)"

interpretation skbq: intrusive_fifo skbq_rep "\<lambda>q n. n \<noteq> qhead q" skb_queue_tail skb_unlink skb_peek
proof unfold_locales
  fix q xs n
  assume rep: "skbq_rep q xs"
  show "distinct xs" using rep by (simp add: skbq_rep_def dll_def)
  show "skb_peek q = (case xs of [] \<Rightarrow> None | x # _ \<Rightarrow> Some x)"
    using rep by (cases xs) (auto simp: skbq_rep_def dll_def skb_peek_def list_empty_def)
  show "\<exists>q'. skb_queue_tail n q = Some q' \<and> skbq_rep q' (xs @ [n])" if "n \<noteq> qhead q" "n \<notin> set xs"
    using dll_add_tail [of "qmem q" "qhead q" xs n] rep that
    by (auto simp: skbq_rep_def skb_queue_tail_def)
  show "\<exists>q'. skb_unlink n q = Some q' \<and> skbq_rep q' (remove1 n xs)" if mem: "n \<in> set xs"
  proof -
    obtain ys zs where xs: "xs = ys @ n # zs" "remove1 n xs = ys @ zs"
      using split_remove1 [OF mem] by blast
    then show ?thesis
      using dll_del [of "qmem q" "qhead q" ys n zs] rep by (auto simp: skbq_rep_def skb_unlink_def)
  qed
next
  fix n q q' k
  assume "skb_queue_tail n q = Some q'"
  then show "(k \<noteq> qhead q') = (k \<noteq> qhead q)"
    by (auto simp: skb_queue_tail_def bind_eq_Some_iff)
qed

lemma skb_dequeue_deq: "skbq_rep q xs \<Longrightarrow> skb_dequeue q = skbq.deq q"
  by (cases xs)
    (auto simp: skbq_rep_def dll_def skb_dequeue_def skbq.deq_def skb_peek_def skb_unlink_def
      list_empty_def map_option_bind comp_def)

lemma skb_dequeue_Nil: "skbq_rep q [] \<Longrightarrow> skb_dequeue q = Some (None, q)"
  by (simp add: skb_dequeue_deq skbq.deq_Nil)

lemma skb_dequeue_Cons: "skbq_rep q (x # xs) \<Longrightarrow> \<exists>q'. skb_dequeue q = Some (Some x, q') \<and> skbq_rep q' xs"
  by (simp add: skb_dequeue_deq skbq.deq_Cons)

lemma skb_queue_purge_rep:
  "skbq_rep q xs \<Longrightarrow> \<exists>q'. skb_queue_purge q acc = Some (acc @ xs, q') \<and> skbq_rep q' []"
proof (induction xs arbitrary: q acc)
  case Nil
  then show ?case by (subst skb_queue_purge.simps) (simp add: skb_dequeue_Nil)
next
  case (Cons x xs)
  obtain q1 where q1: "skb_dequeue q = Some (Some x, q1)" "skbq_rep q1 xs"
    using skb_dequeue_Cons [OF Cons.prems] by blast
  show ?case
    using Cons.IH [OF q1(2), of "acc @ [x]"] q1(1) by (subst skb_queue_purge.simps) simp
qed

section \<open>Properties\<close>

text \<open>
  on a well-formed buffer the pointer operations act on the payload as list operations and
  keep the buffer well formed: \<open>skb_put_data\<close> appends bytes that fit the tail room,
  \<open>skb_pull\<close> of at most \<open>len\<close> bytes drops them from the front, \<open>skb_trim\<close> keeps a
  prefix, and \<open>skb_push\<close> into the head room exposes the bytes before the payload.
\<close>

theorem skb_ops_refine_payload:
  assumes "skb_wf skb"
  shows "(tail skb + int (length bs) \<le> sk_end skb \<longrightarrow>
           (\<exists>s. skb_put_data skb bs = Some s \<and> skb_wf s \<and> payload s = payload skb @ bs))
     \<and> (n \<le> len skb \<longrightarrow> skb_wf (snd (skb_pull skb n))
           \<and> payload (snd (skb_pull skb n)) = drop (unat n) (payload skb))
     \<and> skb_wf (skb_trim skb n) \<and> payload (skb_trim skb n) = take (unat n) (payload skb)
     \<and> (uint n \<le> data skb \<longrightarrow> skb_wf (snd (skb_push skb n)) \<and> payload (snd (skb_push skb n)) =
           block (head_mem skb) (nat (data skb) - unat n) (unat n) @ payload skb)"
  using skb_put_data_ok [OF assms, of bs] skb_pull_ok [OF assms, of n] skb_trim_ok [OF assms, of n]
    skb_push_ok [OF assms, of n] by blast

text \<open>A buffer of eight bytes with two bytes of head room and the payload \<open>[7, 8, 9]\<close>.\<close>

definition skb_example :: sk_buff where
  "skb_example = \<lparr>head_mem = [1, 2, 7, 8, 9, 0, 0, 0], data = 2, tail = 5, len = 3, data_len = 0,
     protocol = 0, pkt_type = 0, priority = 0, queue_mapping = 0, ip_summed = 0,
     cb = replicate 64 0, dma_addr = 0, mbuf_ref = None\<rparr>"

lemma skb_example_wf: "skb_wf skb_example" "payload skb_example = [7, 8, 9]"
  by (simp_all add: skb_example_def skb_wf_def sk_end_def payload_def block_def)

theorem skb_ops_refine_payload_witness:
  "(\<exists>s. skb_put_data skb_example [4, 4] = Some s \<and> skb_wf s \<and> payload s = [7, 8, 9, 4, 4])
     \<and> skb_wf (snd (skb_pull skb_example 2)) \<and> payload (snd (skb_pull skb_example 2)) = [9]
     \<and> payload (skb_trim skb_example 2) = [7, 8]
     \<and> payload (snd (skb_push skb_example 2)) = [1, 2, 7, 8, 9]"
proof -
  have h: "tail skb_example + int (length [4, 4 :: u8]) \<le> sk_end skb_example"
    "2 \<le> len skb_example" "uint (2 :: u32) \<le> data skb_example"
    by (simp_all add: skb_example_def sk_end_def)
  show ?thesis
    using skb_ops_refine_payload [OF skb_example_wf(1), of "[4, 4]" 2] h
    by (simp add: skb_example_wf(2)) (simp add: skb_example_def block_def)
qed

text \<open>
  \<open>skb_copy\<close> of a well-formed buffer, when both allocations succeed and the copy stays
  below the signed range of the head room, writes only inside the new allocation and gives a
  well-formed buffer with the same payload, head room and control block.
\<close>

theorem skb_copy_faithful:
  assumes wf: "skb_wf skb" and al: "data_ok al" "skb_ok al" and room: "sk_end skb + 64 < 2 ^ 31"
  shows "\<exists>c. skb_copy al skb = Some (Some c) \<and> skb_wf c \<and> payload c = payload skb
     \<and> data c = data skb \<and> cb c = cb skb"
proof -
  define sz where "sz = len skb + skb_headroom skb"
  have l: "uint (len skb) = tail skb - data skb" "data skb \<le> tail skb" "tail skb \<le> sk_end skb" "0 \<le> data skb"
    using wf by (simp_all add: skb_wf_def)
  have sz: "uint sz = tail skb"
    unfolding sz_def using l room skb_headroom_wf [OF wf] by (subst uint_plus_simple_iff [THEN iffD1]) (auto simp: no_olen_add)
  obtain n0 where n0: "alloc_skb al sz = Some n0" using al by (simp add: alloc_skb_def Let_def)
  have usz: "unat sz + 64 < 2 ^ 31" using sz l room by (simp flip: nat_uint_eq)
  note a = alloc_skb_wf [OF n0 usz]
  have e0: "sk_end n0 = tail skb + 64"
    using a(3) sz l by (simp add: sk_end_def flip: nat_uint_eq)
  define n1 where "n1 = skb_reserve n0 (data skb)"
  have n1: "skb_wf n1" "payload n1 = []" "data n1 = data skb" "tail n1 = data skb" "sk_end n1 = tail skb + 64"
    using skb_reserve_empty [OF a(1,2), of "data skb"] a(4,5) e0 l
    by (simp_all add: n1_def skb_reserve_def sk_end_def)
  have pl: "int (length (payload skb)) = uint (len skb)"
    using skb_wf_len [OF wf] by simp
  obtain s where s: "skb_put_data n1 (payload skb) = Some s" "skb_wf s" "payload s = payload skb" "data s = data skb"
    using skb_put_data_ok [OF n1(1), of "payload skb"] n1 pl l by auto
  have pw: "(of_nat (length (payload skb)) :: u32) = len skb"
    using skb_wf_len [OF wf] by simp
  have ld: "skb_load skb (data skb) (unat (len skb)) = Some (payload skb)"
    using wf l by (auto simp: skb_load_def payload_def sk_end_def skb_wf_def simp flip: nat_uint_eq)
  have "skb_copy al skb = Some (Some (s\<lparr>cb := cb skb\<rparr>))"
    using s(1) n0 ld pw
    by (simp add: skb_copy_def skb_put_data_def skb_headroom_sint [OF wf] Let_def split_def flip: sz_def n1_def)
  moreover have "skb_wf (s\<lparr>cb := cb skb\<rparr>)" "payload (s\<lparr>cb := cb skb\<rparr>) = payload s"
    using s(2) wf by (simp_all add: skb_wf_def payload_def sk_end_def)
  ultimately show ?thesis using s by simp
qed

theorem skb_copy_faithful_witness:
  "\<exists>c. skb_copy \<lparr>data_ok = True, skb_ok = True, garbage = (\<lambda>_. 0xAA)\<rparr> skb_example = Some (Some c)
     \<and> skb_wf c \<and> payload c = [7, 8, 9] \<and> data c = 2"
proof -
  have "sk_end skb_example + 64 < 2 ^ 31" by (simp add: skb_example_def sk_end_def)
  then show ?thesis
    using skb_copy_faithful [OF skb_example_wf(1), of "\<lparr>data_ok = True, skb_ok = True, garbage = (\<lambda>_. 0xAA)\<rparr>"]
    by (auto simp: skb_example_wf(2)) (simp add: skb_example_def)
qed

text \<open>
  a packet queue is first in, first out and its counter is exact: from an initialised queue,
  any distinct buffers queued at the tail are all counted, and \<open>skb_queue_purge\<close> ends, frees
  every one of them once, in the order they were queued, and leaves the queue empty with
  \<open>qlen = 0\<close>.
\<close>

theorem skb_queue_fifo_purge:
  assumes "distinct ns" and "qhead q \<notin> set ns"
  shows "\<exists>q1 q2. skbq.enq_all ns (skb_queue_head_init q) = Some q1
     \<and> skb_queue_len q1 = of_nat (length ns)
     \<and> skb_queue_purge q1 [] = Some (ns, q2) \<and> skb_queue_empty q2 \<and> skb_queue_len q2 = 0"
proof -
  have "skbq_rep (skb_queue_head_init q) []"
    by (simp add: skbq_rep_def skb_queue_head_init_def dll_init)
  then obtain q1 where q1: "skbq.enq_all ns (skb_queue_head_init q) = Some q1" "skbq_rep q1 ns"
    using skbq.enq_all_rep [of "skb_queue_head_init q" "[]" ns] assms
    by (auto simp: skb_queue_head_init_def)
  obtain q2 where "skb_queue_purge q1 [] = Some (ns, q2)" "skbq_rep q2 []"
    using skb_queue_purge_rep [OF q1(2), of "[]"] by auto
  then show ?thesis
    using q1 by (auto simp: skbq_rep_def skb_queue_len_def skb_queue_empty_def dll_empty_iff)
qed

theorem skb_queue_fifo_purge_witness:
  "\<exists>q1 q2. skbq.enq_all [10, 11, 12] (skb_queue_head_init
        \<lparr>qmem = \<lparr>nxt = Map.empty, prv = Map.empty\<rparr>, qhead = 1, qlen = 7\<rparr>) = Some q1
     \<and> skb_queue_len q1 = of_nat (length [10, 11, 12 :: nat])
     \<and> skb_queue_purge q1 [] = Some ([10, 11, 12], q2) \<and> skb_queue_empty q2 \<and> skb_queue_len q2 = 0"
  by (rule skb_queue_fifo_purge) simp_all

end
