(* ===== verification/LogRing.thy ===== *)
theory LogRing
  imports Prelude
begin

text \<open>
  The diagnostic log ring of \<open>rtw88_compat.c\<close> (\<open>rtw88_log_append\<close>, \<open>rtw88_read_log\<close>):
  8192 bytes, a head where the next byte goes and a tail where reading starts. Writing never
  blocks: when the head catches up with the tail the oldest byte is dropped. The indices are
  \<open>uint32_t\<close> and stay below the size, so they are naturals here. The contents of the ring
  are the bytes from tail to head, and the operations refine a bounded queue that forgets its
  oldest bytes. \<open>rtw88_printk\<close> and \<open>rtw88_dev_printk\<close> are the callers; the formatted
  text is their argument.
\<close>

definition RING_SIZE :: nat where
  "RING_SIZE = 8192"

record log_ring =
  log_lock :: bool
  ring :: "char list"
  log_head :: nat
  log_tail :: nat

definition log_init :: log_ring where
  "log_init = \<lparr>log_lock = False, ring = replicate RING_SIZE (CHR 0x00), log_head = 0, log_tail = 0\<rparr>"

text \<open>The loop body of \<open>rtw88_log_append\<close>: one character.\<close>

definition log_put :: "log_ring \<Rightarrow> char \<Rightarrow> log_ring" where
  "log_put r c =
     (let r1 = r\<lparr>ring := (ring r)[log_head r := c], log_head := (log_head r + 1) mod RING_SIZE\<rparr>
      in if log_head r1 = log_tail r1 then r1\<lparr>log_tail := (log_tail r1 + 1) mod RING_SIZE\<rparr> else r1)"

definition rtw88_log_append :: "log_ring \<Rightarrow> string \<Rightarrow> log_ring" where
  "rtw88_log_append r msg = (if \<not> log_lock r then r else foldl log_put r msg)"

text \<open>
  The reading loop: at most \<open>max_len\<close> bytes, until the tail meets the head. The result is what
  is stored in \<open>out_buf\<close>; its length is the return value.
\<close>

fun log_read :: "nat \<Rightarrow> log_ring \<Rightarrow> string \<times> log_ring" where
  "log_read 0 r = ([], r)"
| "log_read (Suc n) r =
     (if log_tail r \<noteq> log_head r then
        (let (cs, r') = log_read n (r\<lparr>log_tail := (log_tail r + 1) mod RING_SIZE\<rparr>)
         in (ring r ! log_tail r # cs, r'))
      else ([], r))"

definition rtw88_read_log :: "bool \<Rightarrow> nat \<Rightarrow> log_ring \<Rightarrow> string \<times> log_ring" where
  "rtw88_read_log out_buf max_len r =
     (if \<not> out_buf \<or> max_len = 0 \<or> \<not> log_lock r then ([], r) else log_read max_len r)"

section \<open>The printing entry points\<close>

text \<open>
  \<open>snprintf\<close> into a buffer of \<open>n\<close> bytes keeps at most \<open>n - 1\<close> characters. Text formatted
  by the caller has no zero character.
\<close>

definition level_str :: "int \<Rightarrow> string" where
  "level_str level =
     (if level \<ge> 0 \<and> level \<le> 3 then [''ERR'', ''WARN'', ''INFO'', ''DBG''] ! nat level else ''???'')"

definition rtw88_printk :: "int \<Rightarrow> int \<Rightarrow> string \<Rightarrow> log_ring \<Rightarrow> log_ring" where
  "rtw88_printk log_level level msg r =
     (if level > log_level then r
      else let buf = take 511 msg
           in rtw88_log_append r (take 511 (''[rtw88 '' @ level_str level @ ''] '' @ buf)))"

definition rtw88_dev_printk :: "int \<Rightarrow> int \<Rightarrow> string option option \<Rightarrow> string \<Rightarrow> log_ring \<Rightarrow> log_ring" where
  "rtw88_dev_printk log_level level dev msg r =
     (if level > log_level then r
      else let name = (case dev of Some (Some n) \<Rightarrow> n | _ \<Rightarrow> ''?'');
               buf = take 511 msg
           in rtw88_log_append r
                (take 511 (''[rtw88 '' @ level_str level @ '' '' @ name @ ''] '' @ buf)))"

section \<open>Contents and invariant\<close>

definition log_wf :: "log_ring \<Rightarrow> bool" where
  "log_wf r \<longleftrightarrow> length (ring r) = RING_SIZE \<and> log_head r < RING_SIZE \<and> log_tail r < RING_SIZE"

definition log_count :: "log_ring \<Rightarrow> nat" where
  "log_count r = (log_head r + RING_SIZE - log_tail r) mod RING_SIZE"

definition log_contents :: "log_ring \<Rightarrow> string" where
  "log_contents r = map (\<lambda>i. ring r ! ((log_tail r + i) mod RING_SIZE)) [0..<log_count r]"

text \<open>The abstract log: keep the last \<open>RING_SIZE - 1\<close> characters.\<close>

definition keep_last :: "string \<Rightarrow> string" where
  "keep_last xs = drop (length xs - (RING_SIZE - 1)) xs"

lemma RING_pos [simp]: "0 < RING_SIZE"
  by (simp add: RING_SIZE_def)

lemma log_count_less: "log_count r < RING_SIZE"
  by (simp add: log_count_def)

lemma length_log_contents [simp]: "length (log_contents r) = log_count r"
  by (simp add: log_contents_def)

text \<open>Modular arithmetic of the two indices.\<close>

lemma head_from_count:
  "log_wf r \<Longrightarrow> (log_tail r + log_count r) mod RING_SIZE = log_head r"
  by (simp add: log_wf_def log_count_def mod_add_right_eq)

lemma count_unique:
  "log_wf r \<Longrightarrow> n < RING_SIZE \<Longrightarrow> (log_tail r + n) mod RING_SIZE = log_head r \<Longrightarrow> log_count r = n"
  by (auto simp: log_wf_def log_count_def mod_if split: if_splits)

lemma ring_index_inj:
  assumes "i < RING_SIZE" "j < RING_SIZE" "t < RING_SIZE"
    and "(t + i) mod RING_SIZE = (t + j) mod RING_SIZE"
  shows "i = j"
  using assms by (auto simp: mod_if split: if_splits)

lemma contents_nth: "i < log_count r \<Longrightarrow> log_contents r ! i = ring r ! ((log_tail r + i) mod RING_SIZE)"
  by (simp add: log_contents_def)

lemma log_put_wf [inv_intros]: "log_wf r \<Longrightarrow> log_wf (log_put r c)"
  by (simp add: log_wf_def log_put_def Let_def)

lemma log_put_lock [simp]: "log_lock (log_put r c) = log_lock r"
  by (simp add: log_put_def Let_def)

text \<open>Slot \<open>i\<close> of the contents is not the head slot.\<close>

lemma slot_not_head:
  assumes "log_wf r" and "i < log_count r"
  shows "(log_tail r + i) mod RING_SIZE \<noteq> log_head r"
  using ring_index_inj [of i "log_count r" "log_tail r"] head_from_count [OF assms(1)] assms
    log_count_less [of r] by (auto simp: log_wf_def)

text \<open>One character appended while there is room.\<close>

lemma log_put_room:
  assumes wf: "log_wf r" and room: "log_count r + 1 < RING_SIZE"
  shows "log_contents (log_put r c) = log_contents r @ [c]"
proof -
  have hd: "(log_tail r + (log_count r + 1)) mod RING_SIZE = (log_head r + 1) mod RING_SIZE"
    using head_from_count [OF wf] by (metis add.assoc mod_add_left_eq)
  have ne: "(log_head r + 1) mod RING_SIZE \<noteq> log_tail r"
    using ring_index_inj [of "log_count r + 1" 0 "log_tail r"] room wf hd by (auto simp: log_wf_def)
  let ?r = "log_put r c"
  have r: "log_tail ?r = log_tail r" "log_head ?r = (log_head r + 1) mod RING_SIZE"
    "ring ?r = (ring r)[log_head r := c]"
    using ne by (simp_all add: log_put_def Let_def)
  have c': "log_count ?r = log_count r + 1"
    using count_unique [OF log_put_wf [OF wf], of "log_count r + 1" c] room hd r by simp
  have nth: "log_contents ?r ! i = (log_contents r @ [c]) ! i" if "i < log_count r + 1" for i
  proof (cases "i = log_count r")
    case True
    then show ?thesis using contents_nth [of i ?r] c' r head_from_count [OF wf] wf
      by (simp add: log_wf_def nth_append)
  next
    case False
    then have "i < log_count r" using that by simp
    then show ?thesis using contents_nth [of i ?r] contents_nth [of i r] c' r slot_not_head [OF wf, of i]
      by (simp add: nth_append)
  qed
  show ?thesis by (rule nth_equalityI) (use nth c' in simp_all)
qed

text \<open>One character appended to a full ring: the oldest one is lost.\<close>

lemma log_put_full:
  assumes wf: "log_wf r" and full: "log_count r = RING_SIZE - 1"
  shows "log_contents (log_put r c) = tl (log_contents r) @ [c]"
proof -
  have t: "log_tail r < RING_SIZE" using wf by (simp add: log_wf_def)
  have "(log_head r + 1) mod RING_SIZE = (log_tail r + RING_SIZE) mod RING_SIZE"
    using head_from_count [OF wf] full
    by (metis RING_pos Suc_diff_1 Suc_eq_plus1 add.assoc mod_add_left_eq)
  then have eq: "(log_head r + 1) mod RING_SIZE = log_tail r" using t by simp
  let ?r = "log_put r c"
  have r: "log_tail ?r = (log_tail r + 1) mod RING_SIZE" "log_head ?r = log_tail r"
    "ring ?r = (ring r)[log_head r := c]"
    using eq by (simp_all add: log_put_def Let_def)
  have shift: "(log_tail ?r + i) mod RING_SIZE = (log_tail r + (i + 1)) mod RING_SIZE" for i
    unfolding r(1) by (metis add.assoc add.commute mod_add_left_eq)
  have "(log_tail ?r + (RING_SIZE - 1)) mod RING_SIZE = log_head ?r"
    unfolding shift r(2) using t by simp
  then have c': "log_count ?r = RING_SIZE - 1"
    using count_unique [OF log_put_wf [OF wf], of "RING_SIZE - 1" c] by simp
  have nth: "log_contents ?r ! i = (tl (log_contents r) @ [c]) ! i" if i: "i < RING_SIZE - 1" for i
  proof (cases "i + 1 = log_count r")
    case True
    moreover from this have "\<not> i < log_count r - 1" by simp
    ultimately show ?thesis using contents_nth [of i ?r] c' i r(3) shift head_from_count [OF wf] wf
      by (simp add: log_wf_def nth_append)
  next
    case False
    then have lt: "i + 1 < log_count r" using i full by simp
    moreover from this have "i < log_count r - 1" by simp
    ultimately show ?thesis
      using contents_nth [of i ?r] contents_nth [of "i + 1" r] c' i r(3) shift slot_not_head [OF wf lt]
      by (simp add: nth_append nth_tl)
  qed
  show ?thesis by (rule nth_equalityI) (use nth c' full in \<open>simp_all add: RING_SIZE_def\<close>)
qed

lemma keep_last_short: "length xs < RING_SIZE \<Longrightarrow> keep_last xs = xs"
  by (simp add: keep_last_def)

lemma log_put_keep_last:
  assumes wf: "log_wf r"
  shows "log_contents (log_put r c) = keep_last (log_contents r @ [c])"
proof (cases "log_count r = RING_SIZE - 1")
  case True
  then show ?thesis
    using log_put_full [OF wf True] by (simp add: keep_last_def drop_Suc RING_SIZE_def)
next
  case False
  then have "log_count r + 1 < RING_SIZE" using log_count_less [of r] by linarith
  then show ?thesis using log_put_room [OF wf] by (simp add: keep_last_short)
qed

lemma keep_last_keep_last: "keep_last (keep_last xs @ ys) = keep_last (xs @ ys)"
proof -
  define k where "k = RING_SIZE - 1"
  define d where "d = length xs - k"
  have e: "keep_last xs @ ys = drop d (xs @ ys)"
    by (simp add: keep_last_def d_def k_def)
  have kd: "keep_last (drop d zs) = drop (length zs - d - k + d) zs" for zs
    by (simp add: keep_last_def k_def)
  have "keep_last (drop d (xs @ ys)) = drop (length (xs @ ys) - d - k + d) (xs @ ys)"
    by (rule kd)
  also have "length (xs @ ys) - d - k + d = length (xs @ ys) - k"
    by (cases "length xs \<le> k") (simp_all add: d_def)
  also have "drop (length (xs @ ys) - k) (xs @ ys) = keep_last (xs @ ys)"
    by (simp add: keep_last_def k_def)
  finally show ?thesis unfolding e .
qed

lemma log_append_contents:
  "log_wf r \<Longrightarrow> log_wf (foldl log_put r msg)
     \<and> log_contents (foldl log_put r msg) = keep_last (log_contents r @ msg)"
proof (induction msg arbitrary: r)
  case Nil
  then show ?case using log_count_less [of r] by (simp add: keep_last_short)
next
  case (Cons c cs)
  have "log_contents (foldl log_put (log_put r c) cs) = keep_last (keep_last (log_contents r @ [c]) @ cs)"
    using Cons log_put_keep_last log_put_wf by metis
  then show ?case using Cons log_put_wf keep_last_keep_last [of "log_contents r @ [c]" cs] by simp
qed

lemma log_read_contents:
  "log_wf r \<Longrightarrow> log_read n r = (cs, r') \<Longrightarrow>
   cs = take n (log_contents r) \<and> log_contents r' = drop n (log_contents r) \<and> log_wf r'"
proof (induction n arbitrary: r cs)
  case 0
  then show ?case by simp
next
  case (Suc n)
  show ?case
  proof (cases "log_tail r = log_head r")
    case True
    then have "log_count r = 0" using Suc.prems(1) by (simp add: log_count_def)
    then show ?thesis using Suc.prems True by (simp add: log_contents_def)
  next
    case False
    let ?r = "r\<lparr>log_tail := (log_tail r + 1) mod RING_SIZE\<rparr>"
    have wf: "log_wf ?r" using Suc.prems(1) by (simp add: log_wf_def)
    have pos: "0 < log_count r" using head_from_count [OF Suc.prems(1)] False Suc.prems(1)
      by (cases "log_count r") (auto simp: log_wf_def)
    have shift: "((log_tail r + 1) mod RING_SIZE + i) mod RING_SIZE = (log_tail r + (i + 1)) mod RING_SIZE" for i
      by (metis add.assoc add.commute mod_add_left_eq)
    have cnt: "log_count ?r = log_count r - 1"
      using pos log_count_less [of r] head_from_count [OF Suc.prems(1)] shift [of "log_count r - 1"]
      by (intro count_unique [OF wf]) simp_all
    have split: "log_contents r = ring r ! log_tail r # log_contents ?r"
    proof (rule nth_equalityI)
      show "length (log_contents r) = length (ring r ! log_tail r # log_contents ?r)"
        using cnt pos by simp
      fix i assume "i < length (log_contents r)"
      then show "log_contents r ! i = (ring r ! log_tail r # log_contents ?r) ! i"
        using contents_nth [of i r] contents_nth [of "i - 1" ?r] cnt shift [of "i - 1"] Suc.prems(1)
        by (cases i) (simp_all add: log_wf_def)
    qed
    obtain ds where ds: "log_read n ?r = (ds, r')" "cs = ring r ! log_tail r # ds"
      using Suc.prems(2) False by (cases "log_read n ?r") (auto simp: Let_def)
    then show ?thesis using Suc.IH [OF wf ds(1)] split by simp
  qed
qed

section \<open>Properties\<close>

text \<open>
  the log ring refines a bounded log that forgets its oldest characters: appending a message
  to a well-formed ring stores exactly the last 8191 characters of the old contents followed by
  the message, and the indices stay inside the ring.
\<close>

theorem log_append_refines:
  assumes "log_wf r" and "log_lock r"
  shows "log_wf (rtw88_log_append r msg)
     \<and> log_contents (rtw88_log_append r msg) = keep_last (log_contents r @ msg)"
  using assms log_append_contents by (simp add: rtw88_log_append_def)

theorem log_append_refines_witness:
  "log_wf (rtw88_log_append (log_init\<lparr>log_lock := True\<rparr>) ''hello'')
     \<and> log_contents (rtw88_log_append (log_init\<lparr>log_lock := True\<rparr>) ''hello'') = ''hello''"
proof -
  have wf: "log_wf (log_init\<lparr>log_lock := True\<rparr>)" by (simp add: log_wf_def log_init_def)
  have "log_contents (log_init\<lparr>log_lock := True\<rparr>) = []"
    by (simp add: log_contents_def log_count_def log_init_def)
  then show ?thesis
    using log_append_refines [OF wf, of "''hello''"] by (simp add: keep_last_short RING_SIZE_def)
qed

text \<open>
  what is written to the log can be read back: on a ring that is empty, a message shorter than
  the ring appended with \<open>rtw88_log_append\<close> is returned unchanged by \<open>rtw88_read_log\<close> with a
  large enough buffer, and a smaller buffer returns a prefix and leaves the rest to be read.
\<close>

theorem log_write_read:
  assumes "log_wf r" and "log_lock r" and "log_contents r = []" and "length msg < RING_SIZE" and "0 < n"
    and "rtw88_read_log True n (rtw88_log_append r msg) = (out, r')"
  shows "out = take n msg \<and> log_contents r' = drop n msg \<and> log_wf r'"
proof -
  let ?r = "rtw88_log_append r msg"
  have r: "log_wf ?r" "log_contents ?r = msg"
    using log_append_contents [OF assms(1), of msg] assms(2-4)
    by (simp_all add: rtw88_log_append_def keep_last_short)
  have lk: "log_lock (foldl log_put r msg) = log_lock r"
    by (induction msg arbitrary: r) simp_all
  have "log_read n ?r = (out, r')"
    using assms(2,5,6) lk by (simp add: rtw88_read_log_def rtw88_log_append_def)
  then show ?thesis using log_read_contents [OF r(1)] r(2) by simp
qed

theorem log_write_read_witness:
  "\<exists>out r'. rtw88_read_log True 3 (rtw88_log_append (log_init\<lparr>log_lock := True\<rparr>) ''hello'') = (out, r')
     \<and> out = ''hel'' \<and> log_contents r' = ''lo'' \<and> log_wf r'"
proof -
  have h: "log_wf (log_init\<lparr>log_lock := True\<rparr>)" "log_lock (log_init\<lparr>log_lock := True\<rparr>)"
    "log_contents (log_init\<lparr>log_lock := True\<rparr>) = []" "length ''hello'' < RING_SIZE"
    by (simp_all add: log_wf_def log_init_def log_contents_def log_count_def RING_SIZE_def)
  obtain out r' where o: "rtw88_read_log True 3 (rtw88_log_append (log_init\<lparr>log_lock := True\<rparr>) ''hello'') = (out, r')"
    by (metis surj_pair)
  show ?thesis using log_write_read [OF h _ o] o by (auto simp: numeral_3_eq_3)
qed

end
