(* ===== verification/ThreadCall.thy ===== *)
theory ThreadCall
  imports Prelude
begin

text \<open>
  The cancellable thread calls of \<open>rtw88_thread_call.c\<close>. The native Mach thread call is a
  parameter: its operations as a record and \<open>native_laws\<close>, what their documentation promises
  (entering queues one invocation, cancelling removes it and says whether there was one, the
  kernel takes a queued invocation off before it runs it). Every critical section under the
  call's lock is one function on the call; the system around a call counts the invocations that
  the kernel has taken off the queue but whose dispatch has not entered its first critical
  section, those that are executing, and the threads that wait in a synchronous cancel, and
  interleaves the critical sections in every order.
\<close>

section \<open>The wrapper\<close>

record 'n native_ops =
  native_enter :: "'n \<Rightarrow> 'n"
  native_enter_delayed :: "u64 \<Rightarrow> 'n \<Rightarrow> 'n"
  native_cancel :: "'n \<Rightarrow> bool \<times> 'n"

record 'n rtw88_call =
  native :: 'n
  pending :: bool
  canceling :: bool
  running :: u32

text \<open>
  \<open>rtw88_thread_call_allocate\<close>: the callback pointer must be set and the three allocations
  (structure, lock, native call) must succeed; what was allocated before a failure is released.
  The function and argument never change after that.
\<close>

definition rtw88_thread_call_allocate :: "bool \<Rightarrow> bool \<Rightarrow> bool \<Rightarrow> 'n option \<Rightarrow> 'n rtw88_call option" where
  "rtw88_thread_call_allocate fn mem_ok lock_ok nat_call =
     (if \<not> fn then None
      else if \<not> mem_ok then None
      else if \<not> lock_ok then None
      else (case nat_call of None \<Rightarrow> None
            | Some n \<Rightarrow> Some \<lparr>native = n, pending = False, canceling = False, running = 0\<rparr>))"

text \<open>The two critical sections of \<open>rtw88_call_dispatch\<close>; the first decides about the callback.\<close>

definition dispatch_enter :: "'n rtw88_call \<Rightarrow> bool \<times> 'n rtw88_call" where
  "dispatch_enter c = (\<not> canceling c, c\<lparr>pending := False, running := running c + 1\<rparr>)"

definition dispatch_exit :: "'n rtw88_call \<Rightarrow> 'n rtw88_call" where
  "dispatch_exit c = c\<lparr>running := running c - 1\<rparr>"

text \<open>\<open>rtw88_call_submit\<close> on a non-null handle; the result is \<open>already\<close>.\<close>

definition rtw88_call_submit :: "'n native_ops \<Rightarrow> u64 \<Rightarrow> bool \<Rightarrow> 'n rtw88_call \<Rightarrow> bool \<times> 'n rtw88_call" where
  "rtw88_call_submit ops deadline delayed c =
     (let already = (pending c \<or> canceling c);
          (submit, c1) =
            (if \<not> canceling c \<and> pending c \<and> delayed then
               (let (removed, n) = native_cancel ops (native c) in (removed, c\<lparr>native := n\<rparr>))
             else (\<not> canceling c \<and> \<not> pending c, c));
          c2 = (if submit then
                  c1\<lparr>pending := True,
                     native := (if delayed then native_enter_delayed ops deadline (native c1)
                                else native_enter ops (native c1))\<rparr>
                else c1)
      in (already, c2))"

definition rtw88_thread_call_enter :: "'n native_ops \<Rightarrow> 'n rtw88_call \<Rightarrow> bool \<times> 'n rtw88_call" where
  "rtw88_thread_call_enter ops c = rtw88_call_submit ops 0 False c"

definition rtw88_thread_call_enter_delayed ::
    "'n native_ops \<Rightarrow> u64 \<Rightarrow> 'n rtw88_call \<Rightarrow> bool \<times> 'n rtw88_call" where
  "rtw88_thread_call_enter_delayed ops d c = rtw88_call_submit ops d True c"

definition rtw88_thread_call_cancel :: "'n native_ops \<Rightarrow> 'n rtw88_call \<Rightarrow> bool \<times> 'n rtw88_call" where
  "rtw88_thread_call_cancel ops c =
     (let (canceled, n) = native_cancel ops (native c)
      in (canceled, if canceled then c\<lparr>native := n, pending := False\<rparr> else c\<lparr>native := n\<rparr>))"

text \<open>
  \<open>rtw88_thread_call_cancel_wait\<close> up to its waiting loop, the loop's condition, and the part
  after the loop. Waking up re-evaluates the condition under the lock.
\<close>

definition cancel_wait_begin :: "'n native_ops \<Rightarrow> 'n rtw88_call \<Rightarrow> bool \<times> 'n rtw88_call" where
  "cancel_wait_begin ops c = rtw88_thread_call_cancel ops (c\<lparr>canceling := True\<rparr>)"

definition cancel_wait_blocked :: "'n rtw88_call \<Rightarrow> bool" where
  "cancel_wait_blocked c \<longleftrightarrow> pending c \<or> running c \<noteq> 0"

definition cancel_wait_end :: "'n rtw88_call \<Rightarrow> 'n rtw88_call" where
  "cancel_wait_end c = c\<lparr>canceling := False\<rparr>"

section \<open>The native interface\<close>

definition native_laws :: "'n native_ops \<Rightarrow> ('n \<Rightarrow> bool) \<Rightarrow> ('n \<Rightarrow> 'n) \<Rightarrow> bool" where
  "native_laws ops queued take_off \<longleftrightarrow>
     (\<forall>n. queued (native_enter ops n)) \<and> (\<forall>d n. queued (native_enter_delayed ops d n))
     \<and> (\<forall>n. fst (native_cancel ops n) = queued n \<and> \<not> queued (snd (native_cancel ops n)))
     \<and> (\<forall>n. \<not> queued (take_off n))"

section \<open>The system around one call\<close>

text \<open>
  \<open>stopped\<close>: the owner has stopped the producers, which the header demands before the call is
  freed; a callback that is executing may still submit its own call. \<open>freeing\<close> is how far
  \<open>rtw88_thread_call_free\<close> has got: inside its synchronous cancel, or past it;
  \<open>freed\<close>: the structure has been released. An invocation enters its first critical section
  on a thread of its own, of which the machine has fewer than \<open>2 ^ 32\<close>.
\<close>

datatype free_pc = NotFreeing | FreeWaiting | FreeWaited

record 'n call_sys =
  call :: "'n rtw88_call"
  inflight :: nat
  executing :: nat
  waiters :: nat
  freeing :: free_pc
  stopped :: bool
  freed :: bool

inductive call_step :: "'n native_ops \<Rightarrow> ('n \<Rightarrow> bool) \<Rightarrow> ('n \<Rightarrow> 'n) \<Rightarrow> 'n call_sys \<Rightarrow> 'n call_sys \<Rightarrow> bool"
  for ops :: "'n native_ops" and queued :: "'n \<Rightarrow> bool" and take_off :: "'n \<Rightarrow> 'n" where
  submit: "\<not> stopped s \<or> 0 < executing s \<Longrightarrow>
     call_step ops queued take_off s (s\<lparr>call := snd (rtw88_call_submit ops d delayed (call s))\<rparr>)"
| cancel: "\<not> freed s \<Longrightarrow>
     call_step ops queued take_off s (s\<lparr>call := snd (rtw88_thread_call_cancel ops (call s))\<rparr>)"
| kernel_take: "queued (native (call s)) \<Longrightarrow>
     call_step ops queued take_off s
       (s\<lparr>call := (call s)\<lparr>native := take_off (native (call s))\<rparr>, inflight := inflight s + 1\<rparr>)"
| enter: "0 < inflight s \<Longrightarrow> executing s + 1 < 2 ^ 32 \<Longrightarrow>
     call_step ops queued take_off s
       (s\<lparr>call := snd (dispatch_enter (call s)), inflight := inflight s - 1, executing := executing s + 1\<rparr>)"
| exit: "0 < executing s \<Longrightarrow>
     call_step ops queued take_off s (s\<lparr>call := dispatch_exit (call s), executing := executing s - 1\<rparr>)"
| wait_begin: "\<not> freed s \<Longrightarrow>
     call_step ops queued take_off s
       (s\<lparr>call := snd (cancel_wait_begin ops (call s)), waiters := waiters s + 1\<rparr>)"
| wait_end: "0 < waiters s \<Longrightarrow> \<not> freed s \<Longrightarrow> \<not> cancel_wait_blocked (call s) \<Longrightarrow>
     call_step ops queued take_off s (s\<lparr>call := cancel_wait_end (call s), waiters := waiters s - 1\<rparr>)"
| stop_producers: "call_step ops queued take_off s (s\<lparr>stopped := True\<rparr>)"
| free_begin: "stopped s \<Longrightarrow> freeing s = NotFreeing \<Longrightarrow>
     call_step ops queued take_off s
       (s\<lparr>call := snd (cancel_wait_begin ops (call s)), freeing := FreeWaiting\<rparr>)"
| free_waited: "freeing s = FreeWaiting \<Longrightarrow> \<not> cancel_wait_blocked (call s) \<Longrightarrow>
     call_step ops queued take_off s (s\<lparr>call := cancel_wait_end (call s), freeing := FreeWaited\<rparr>)"
| free_done: "freeing s = FreeWaited \<Longrightarrow> call_step ops queued take_off s (s\<lparr>freed := True\<rparr>)"

definition call_start :: "'n \<Rightarrow> 'n call_sys" where
  "call_start n = \<lparr>call = \<lparr>native = n, pending = False, canceling = False, running = 0\<rparr>,
     inflight = 0, executing = 0, waiters = 0, freeing = NotFreeing, stopped = False, freed = False\<rparr>"

inductive call_reach :: "'n native_ops \<Rightarrow> ('n \<Rightarrow> bool) \<Rightarrow> ('n \<Rightarrow> 'n) \<Rightarrow> 'n call_sys \<Rightarrow> bool"
  for ops :: "'n native_ops" and queued :: "'n \<Rightarrow> bool" and take_off :: "'n \<Rightarrow> 'n" where
  start: "\<not> queued n \<Longrightarrow> call_reach ops queued take_off (call_start n)"
| step: "call_reach ops queued take_off s \<Longrightarrow> call_step ops queued take_off s t \<Longrightarrow>
     call_reach ops queued take_off t"

section \<open>The invariant\<close>

text \<open>
  The pending flag counts exactly the one invocation that is on the native queue or taken off it
  but not entered; the running counter is the number of executing dispatches; and once
  \<open>free\<close> has waited, nothing is left that could run.
\<close>

definition call_idle :: "('n \<Rightarrow> bool) \<Rightarrow> 'n call_sys \<Rightarrow> bool" where
  "call_idle queued s \<longleftrightarrow> \<not> queued (native (call s)) \<and> inflight s = 0 \<and> executing s = 0"

definition call_inv :: "('n \<Rightarrow> bool) \<Rightarrow> 'n call_sys \<Rightarrow> bool" where
  "call_inv queued s \<longleftrightarrow>
     of_bool (queued (native (call s))) + inflight s = of_bool (pending (call s))
     \<and> running (call s) = of_nat (executing s) \<and> executing s < 2 ^ 32
     \<and> (freeing s \<noteq> NotFreeing \<longrightarrow> stopped s)
     \<and> (freeing s = FreeWaited \<or> freed s \<longrightarrow> freeing s = FreeWaited \<and> call_idle queued s)"

lemma call_inv_start: "\<not> queued n \<Longrightarrow> call_inv queued (call_start n)"
  by (simp add: call_inv_def call_start_def)

lemma of_nat_u32_eq_0: "n < 2 ^ 32 \<Longrightarrow> (of_nat n :: u32) = 0 \<longleftrightarrow> n = 0"
  by (auto simp: word_of_nat_eq_0_iff dest: dvd_imp_le)

lemma inv_not_blocked_idle:
  "call_inv queued s \<Longrightarrow> \<not> cancel_wait_blocked (call s) \<Longrightarrow> call_idle queued s"
  by (auto simp: call_inv_def cancel_wait_blocked_def call_idle_def of_nat_u32_eq_0 split: if_splits)

lemma blocked_has_work:
  assumes "call_inv queued s" and "cancel_wait_blocked (call s)"
  shows "0 < executing s \<or> 0 < inflight s \<or> queued (native (call s))"
proof (rule ccontr)
  assume "\<not> ?thesis"
  with assms show False
    by (simp add: call_inv_def cancel_wait_blocked_def)
qed

lemma native_lawsD:
  assumes "native_laws ops queued take_off"
  shows "queued (native_enter ops n)" "queued (native_enter_delayed ops d n)"
    "fst (native_cancel ops n) = queued n" "\<not> queued (snd (native_cancel ops n))" "\<not> queued (take_off n)"
  using assms by (auto simp: native_laws_def)

lemmas call_op_defs = rtw88_call_submit_def rtw88_thread_call_cancel_def cancel_wait_begin_def
  cancel_wait_end_def dispatch_enter_def dispatch_exit_def Let_def split_def

lemma submit_pending:
  assumes "native_laws ops queued take_off"
    and "of_bool (queued (native c)) + k = (of_bool (pending c) :: nat)"
  shows "of_bool (queued (native (snd (rtw88_call_submit ops d dl c)))) + k =
         (of_bool (pending (snd (rtw88_call_submit ops d dl c))) :: nat)"
    and "running (snd (rtw88_call_submit ops d dl c)) = running c"
  using assms(2) native_lawsD [OF assms(1)] by (auto simp: call_op_defs)

lemma cancel_pending:
  assumes "native_laws ops queued take_off"
    and "of_bool (queued (native c)) + k = (of_bool (pending c) :: nat)"
  shows "of_bool (queued (native (snd (rtw88_thread_call_cancel ops c)))) + k =
         (of_bool (pending (snd (rtw88_thread_call_cancel ops c))) :: nat)"
    and "running (snd (rtw88_thread_call_cancel ops c)) = running c"
    and "\<not> queued (native (snd (rtw88_thread_call_cancel ops c)))"
  using assms(2) native_lawsD [OF assms(1)] by (auto simp: call_op_defs)

lemma call_step_inv:
  assumes laws: "native_laws ops queued take_off"
  shows "call_step ops queued take_off s t \<Longrightarrow> call_inv queued s \<Longrightarrow> call_inv queued t"
proof (induction rule: call_step.induct)
  case (submit s d delayed)
  then have "\<not> (freeing s = FreeWaited \<or> freed s)"
    by (auto simp: call_inv_def call_idle_def)
  with submit show ?case
    using submit_pending [OF laws, of "call s" "inflight s" d delayed] by (auto simp: call_inv_def)
next
  case (cancel s)
  then show ?case
    using cancel_pending [OF laws, of "call s" "inflight s"] by (auto simp: call_inv_def call_idle_def)
next
  case (kernel_take s)
  then show ?case
    using native_lawsD(5) [OF laws] by (auto simp: call_inv_def call_idle_def)
next
  case (enter s)
  then show ?case
    by (auto simp: call_inv_def call_idle_def dispatch_enter_def split: if_splits)
next
  case (exit s)
  then show ?case
    by (auto simp: call_inv_def call_idle_def dispatch_exit_def of_nat_diff)
next
  case (wait_begin s)
  then show ?case
    using cancel_pending [OF laws, of "(call s)\<lparr>canceling := True\<rparr>" "inflight s"]
    by (auto simp: call_inv_def call_idle_def cancel_wait_begin_def)
next
  case (free_begin s)
  then show ?case
    using cancel_pending [OF laws, of "(call s)\<lparr>canceling := True\<rparr>" "inflight s"]
    by (auto simp: call_inv_def call_idle_def cancel_wait_begin_def)
next
  case (free_waited s)
  then show ?case
    using inv_not_blocked_idle [of queued s] by (auto simp: call_inv_def call_idle_def cancel_wait_end_def)
qed (auto simp: call_inv_def call_idle_def cancel_wait_end_def)

lemma call_reach_inv:
  assumes "native_laws ops queued take_off"
  shows "call_reach ops queued take_off s \<Longrightarrow> call_inv queued s"
  by (induction rule: call_reach.induct) (auto intro: call_inv_start call_step_inv [OF assms])

text \<open>What is left to run, weighted by the steps it still takes.\<close>

definition call_work :: "('n \<Rightarrow> bool) \<Rightarrow> 'n call_sys \<Rightarrow> nat" where
  "call_work queued s = 3 * of_bool (queued (native (call s))) + 2 * inflight s + executing s"

lemma submit_canceling: "canceling c \<Longrightarrow> rtw88_call_submit ops d dl c = (True, c)"
  by (simp add: rtw88_call_submit_def)

lemma call_work_step:
  assumes laws: "native_laws ops queued take_off"
  shows "call_step ops queued take_off s t \<Longrightarrow> canceling (call s) \<Longrightarrow> call_work queued t \<le> call_work queued s"
proof (induction rule: call_step.induct)
  case (submit s d delayed)
  then show ?case by (simp add: submit_canceling call_work_def)
next
  case (kernel_take s)
  then show ?case using native_lawsD(5) [OF laws] by (simp add: call_work_def)
qed (use native_lawsD [OF laws] in \<open>auto simp: call_work_def call_op_defs\<close>)

section \<open>Properties\<close>

text \<open>
  a synchronous cancel is synchronous: in every interleaving of submitters, cancellers and
  kernel dispatch threads, whenever the waiting loop of \<open>rtw88_thread_call_cancel_wait\<close> lets
  its caller go, no invocation of the callback is queued, none has been taken off the queue and
  not yet entered, and none is executing.
\<close>

theorem cancel_wait_quiesces:
  assumes "native_laws ops queued take_off" and "call_reach ops queued take_off s"
    and "\<not> cancel_wait_blocked (call s)"
  shows "\<not> queued (native (call s)) \<and> inflight s = 0 \<and> executing s = 0"
  using inv_not_blocked_idle [OF call_reach_inv [OF assms(1,2)] assms(3)] by (simp add: call_idle_def)

text \<open>A native call as a flag: queued or not.\<close>

definition flag_ops :: "bool native_ops" where
  "flag_ops = \<lparr>native_enter = (\<lambda>_. True), native_enter_delayed = (\<lambda>_ _. True),
     native_cancel = (\<lambda>n. (n, False))\<rparr>"

lemma flag_laws: "native_laws flag_ops id (\<lambda>_. False)"
  by (simp add: native_laws_def flag_ops_def)

definition flag_busy :: "bool call_sys" where
  "flag_busy = \<lparr>call = \<lparr>native = False, pending = True, canceling = True, running = 0\<rparr>,
     inflight = 1, executing = 0, waiters = 1, freeing = NotFreeing, stopped = False, freed = False\<rparr>"

lemma flag_busy_reach: "call_reach flag_ops id (\<lambda>_. False) flag_busy"
proof -
  let ?R = "call_reach flag_ops id (\<lambda>_. False)" and ?S = "call_step flag_ops id (\<lambda>_. False)"
  let ?s0 = "call_start False"
  let ?s1 = "?s0\<lparr>call := snd (rtw88_call_submit flag_ops 0 False (call ?s0))\<rparr>"
  let ?s2 = "?s1\<lparr>call := (call ?s1)\<lparr>native := False\<rparr>, inflight := inflight ?s1 + 1\<rparr>"
  let ?s3 = "?s2\<lparr>call := snd (cancel_wait_begin flag_ops (call ?s2)), waiters := waiters ?s2 + 1\<rparr>"
  have "?R ?s0" by (rule call_reach.start) simp
  moreover have "?S ?s0 ?s1" by (rule call_step.submit) (simp add: call_start_def)
  moreover have "?S ?s1 ?s2"
    by (rule call_step.kernel_take) (simp add: call_start_def rtw88_call_submit_def flag_ops_def)
  moreover have "?S ?s2 ?s3" by (rule call_step.wait_begin) (simp add: call_start_def)
  ultimately have "?R ?s3" by (blast intro: call_reach.step)
  moreover have "?s3 = flag_busy"
    by (simp add: flag_busy_def call_start_def call_op_defs flag_ops_def)
  ultimately show ?thesis by simp
qed

theorem cancel_wait_quiesces_witness:
  "\<not> cancel_wait_blocked (call (call_start False))
     \<and> \<not> id (native (call (call_start False))) \<and> inflight (call_start False) = 0 \<and> executing (call_start False) = 0"
proof -
  have "\<not> cancel_wait_blocked (call (call_start False))"
    by (simp add: cancel_wait_blocked_def call_start_def)
  moreover have "call_reach flag_ops id (\<lambda>_. False) (call_start False)"
    by (rule call_reach.start) simp
  ultimately show ?thesis using cancel_wait_quiesces [OF flag_laws] by blast
qed

text \<open>
  no use after free: when the producers were stopped before \<open>rtw88_thread_call_free\<close>, as its
  header demands, then after the structure is released nothing is queued, in flight or
  executing, so no dispatch and no submission touches it again.
\<close>

theorem freed_call_never_runs:
  assumes "native_laws ops queued take_off" and "call_reach ops queued take_off s" and "freed s"
    and "call_step ops queued take_off s t"
  shows "call_idle queued s \<and> call_idle queued t \<and> call t = call s"
proof -
  have inv: "call_inv queued s" "call_inv queued t"
    using call_reach_inv [OF assms(1)] call_reach.step [OF assms(2,4)] assms(2) by blast+
  have fr: "freeing s = FreeWaited" "stopped s" "call_idle queued s"
    using inv(1) assms(3) by (auto simp: call_inv_def)
  have "call_idle queued t \<and> call t = call s"
    using assms(4) fr assms(3) by cases (auto simp: call_idle_def)
  then show ?thesis using fr by simp
qed

definition flag_freed :: "bool call_sys" where
  "flag_freed = (call_start False)\<lparr>freeing := FreeWaited, stopped := True, freed := True\<rparr>"

lemma flag_freed_reach: "call_reach flag_ops id (\<lambda>_. False) flag_freed"
proof -
  let ?R = "call_reach flag_ops id (\<lambda>_. False)" and ?S = "call_step flag_ops id (\<lambda>_. False)"
  let ?s0 = "call_start False"
  let ?s1 = "?s0\<lparr>stopped := True\<rparr>"
  let ?s2 = "?s1\<lparr>call := snd (cancel_wait_begin flag_ops (call ?s1)), freeing := FreeWaiting\<rparr>"
  let ?s3 = "?s2\<lparr>call := cancel_wait_end (call ?s2), freeing := FreeWaited\<rparr>"
  have "?R ?s0" by (rule call_reach.start) simp
  moreover have "?S ?s0 ?s1" by (rule call_step.stop_producers)
  moreover have "?S ?s1 ?s2" by (rule call_step.free_begin) (simp_all add: call_start_def)
  moreover have "?S ?s2 ?s3"
    by (rule call_step.free_waited)
      (simp_all add: call_start_def cancel_wait_blocked_def call_op_defs flag_ops_def)
  moreover have "?S ?s3 (?s3\<lparr>freed := True\<rparr>)" by (rule call_step.free_done) simp
  ultimately have "?R (?s3\<lparr>freed := True\<rparr>)" by (blast intro: call_reach.step)
  moreover have "?s3\<lparr>freed := True\<rparr> = flag_freed"
    by (simp add: flag_freed_def call_start_def call_op_defs flag_ops_def)
  ultimately show ?thesis by simp
qed

theorem freed_call_never_runs_witness:
  "freed flag_freed \<and> call_idle id flag_freed
     \<and> call_idle id (flag_freed\<lparr>stopped := True\<rparr>) \<and> call (flag_freed\<lparr>stopped := True\<rparr>) = call flag_freed"
proof -
  have f: "freed flag_freed" by (simp add: flag_freed_def)
  have "call_step flag_ops id (\<lambda>_. False) flag_freed (flag_freed\<lparr>stopped := True\<rparr>)"
    by (rule call_step.stop_producers)
  from freed_call_never_runs [OF flag_laws flag_freed_reach f this] f show ?thesis by blast
qed

text \<open>
  a synchronous cancel cannot wait for nothing: while the call is cancelling, a blocked waiter
  always has a dispatch step that reduces the remaining work, and no step of any thread adds
  work, because submissions are refused; so the wait ends after finitely many dispatch steps.
\<close>

theorem cancel_wait_progress:
  assumes "native_laws ops queued take_off" and "call_reach ops queued take_off s"
    and "canceling (call s)" and "cancel_wait_blocked (call s)"
  shows "(\<exists>t. call_step ops queued take_off s t \<and> call_work queued t < call_work queued s)
     \<and> (\<forall>t. call_step ops queued take_off s t \<longrightarrow> call_work queued t \<le> call_work queued s)"
proof -
  have inv: "call_inv queued s" by (rule call_reach_inv [OF assms(1,2)])
  consider "0 < executing s" | "executing s = 0" "0 < inflight s"
    | "executing s = 0" "inflight s = 0" "queued (native (call s))"
    using blocked_has_work [OF inv assms(4)] by (cases "executing s = 0"; cases "inflight s = 0") auto
  then have "\<exists>t. call_step ops queued take_off s t \<and> call_work queued t < call_work queued s"
  proof cases
    case 1
    then show ?thesis using call_step.exit [OF 1]
      by (fastforce simp: call_work_def dispatch_exit_def)
  next
    case 2
    then have "call_step ops queued take_off s
       (s\<lparr>call := snd (dispatch_enter (call s)), inflight := inflight s - 1, executing := executing s + 1\<rparr>)"
      by (intro call_step.enter) simp_all
    then show ?thesis using 2 by (fastforce simp: call_work_def dispatch_enter_def)
  next
    case 3
    then show ?thesis using call_step.kernel_take [of queued s, OF 3(3)] native_lawsD(5) [OF assms(1)]
      by (fastforce simp: call_work_def)
  qed
  then show ?thesis using call_work_step [OF assms(1) _ assms(3)] by blast
qed

theorem cancel_wait_progress_witness:
  "cancel_wait_blocked (call flag_busy)
     \<and> (\<exists>t. call_step flag_ops id (\<lambda>_. False) flag_busy t \<and> call_work id t < call_work id flag_busy)"
proof -
  have "canceling (call flag_busy)" "cancel_wait_blocked (call flag_busy)"
    by (simp_all add: flag_busy_def cancel_wait_blocked_def)
  with cancel_wait_progress [OF flag_laws flag_busy_reach] show ?thesis by blast
qed

text \<open>
  submissions are coalesced: while an invocation is pending and the call is not cancelling, a
  plain submission changes nothing and reports the pending one; a delayed submission retimes
  it only when the native call could still be taken back, and otherwise changes nothing but the
  native queue; in both cases the call stays pending. A cancelling call refuses every
  submission, and a dispatch that finds it cancelling does not run the callback.
\<close>

theorem submit_coalesces:
  "(pending c \<and> \<not> canceling c \<longrightarrow>
      rtw88_thread_call_enter ops c = (True, c)
      \<and> fst (rtw88_thread_call_enter_delayed ops d c)
      \<and> pending (snd (rtw88_thread_call_enter_delayed ops d c))
      \<and> native (snd (rtw88_thread_call_enter_delayed ops d c)) =
          (case native_cancel ops (native c) of
             (True, n) \<Rightarrow> native_enter_delayed ops d n | (False, n) \<Rightarrow> n))
   \<and> (canceling c \<longrightarrow> rtw88_thread_call_enter ops c = (True, c)
      \<and> rtw88_thread_call_enter_delayed ops d c = (True, c) \<and> \<not> fst (dispatch_enter c))"
  by (auto simp: rtw88_thread_call_enter_def rtw88_thread_call_enter_delayed_def call_op_defs
      split: bool.splits)

theorem submit_coalesces_witness:
  "rtw88_thread_call_enter flag_ops \<lparr>native = True, pending = True, canceling = False, running = 1\<rparr> =
     (True, \<lparr>native = True, pending = True, canceling = False, running = 1\<rparr>)
   \<and> native (snd (rtw88_thread_call_enter_delayed flag_ops 5
        \<lparr>native = True, pending = True, canceling = False, running = 1\<rparr>))"
  using submit_coalesces [of "\<lparr>native = True, pending = True, canceling = False, running = 1\<rparr>" flag_ops 5]
  by (simp add: flag_ops_def)

end
