(* ===== verification/Timers.thy ===== *)
theory Timers
  imports Prelude
begin

text \<open>
  Time and timers: \<open>linux/jiffies.h\<close>, \<open>linux/timer.h\<close>, \<open>linux/delay.h\<close> and the timer section of
  \<open>rtw88_compat.c\<close>. A jiffy is a millisecond in an \<open>unsigned long\<close>. The current time and the
  success of the thread-call allocation are arguments; arming and cancelling the thread call of
  a timer are reported as values, for the thread-call component to act on.
\<close>

section \<open>Jiffies\<close>

definition HZ :: u64 where
  "HZ = 1000"

text \<open>\<open>rtw88_get_jiffies\<close> from the nanosecond reading of the absolute time.\<close>

definition rtw88_get_jiffies :: "u64 \<Rightarrow> u64" where
  "rtw88_get_jiffies nsecs = nsecs div 1000000"

definition msecs_to_jiffies :: "u32 \<Rightarrow> u64" where
  "msecs_to_jiffies msecs = ucast msecs"

definition usecs_to_jiffies :: "u32 \<Rightarrow> u64" where
  "usecs_to_jiffies usecs = ucast ((usecs + 999) div 1000)"

definition jiffies_to_msecs :: "u64 \<Rightarrow> u32" where
  "jiffies_to_msecs j = ucast j"

definition jiffies_to_usecs :: "u64 \<Rightarrow> u32" where
  "jiffies_to_usecs j = ucast (j * 1000)"

definition time_after :: "u64 \<Rightarrow> u64 \<Rightarrow> bool" where
  "time_after a b \<longleftrightarrow> sint (b - a) < 0"

definition time_before :: "u64 \<Rightarrow> u64 \<Rightarrow> bool" where
  "time_before a b = time_after b a"

definition time_after_eq :: "u64 \<Rightarrow> u64 \<Rightarrow> bool" where
  "time_after_eq a b \<longleftrightarrow> 0 \<le> sint (a - b)"

section \<open>Delays\<close>

text \<open>\<open>udelay\<close> as the list of \<open>IODelay\<close> calls it makes, in microseconds.\<close>

function udelay :: "nat \<Rightarrow> nat list" where
  "udelay usecs = (if usecs > 1000 then 1000 # udelay (usecs - 1000)
                   else if usecs \<noteq> 0 then [usecs] else [])"
  by pat_completeness auto
termination by (relation "measure id") auto

declare udelay.simps [simp del]

definition ndelay :: "nat \<Rightarrow> nat list" where
  "ndelay nsecs = udelay ((nsecs + 999) mod 2 ^ 64 div 1000)"

definition mdelay :: "nat \<Rightarrow> nat list" where
  "mdelay msecs = udelay (msecs * 1000 mod 2 ^ 64)"

datatype wait_call = IOSleep nat | IODelay nat

definition usleep_range :: "nat \<Rightarrow> nat \<Rightarrow> wait_call" where
  "usleep_range min_us max_us =
     (let avg = (min_us + max_us) mod 2 ^ 64 div 2
      in if avg \<ge> 1000 then IOSleep (avg div 1000 mod 2 ^ 32) else IODelay avg)"

definition msleep :: "nat \<Rightarrow> wait_call" where
  "msleep msecs = IOSleep msecs"

definition ssleep :: "nat \<Rightarrow> wait_call" where
  "ssleep secs = IOSleep (secs * 1000 mod 2 ^ 32)"

definition fsleep :: "nat \<Rightarrow> wait_call" where
  "fsleep us = (if us < 1000 then IODelay us else IOSleep ((us div 1000 mod 2 ^ 32 + 1) mod 2 ^ 32))"

section \<open>Timers\<close>

record timer_list =
  expires :: u64
  has_function :: bool
  timer_data :: u64
  timer_call :: bool
  timer_active :: bool

definition timer_setup :: "bool \<Rightarrow> timer_list \<Rightarrow> timer_list" where
  "timer_setup fn t = t\<lparr>has_function := fn, expires := 0, timer_active := False, timer_call := False\<rparr>"

definition setup_timer :: "bool \<Rightarrow> u64 \<Rightarrow> timer_list \<Rightarrow> timer_list" where
  "setup_timer fn d t = t\<lparr>timer_data := d, timer_active := False, timer_call := False, has_function := fn\<rparr>"

definition timer_pending :: "timer_list \<Rightarrow> bool" where
  "timer_pending t = timer_active t"

text \<open>
  \<open>mod_timer\<close>: the second result is the delay in milliseconds handed to
  \<open>clock_interval_to_deadline\<close>, a \<open>uint32_t\<close>, if the thread call was armed.
\<close>

definition mod_timer :: "bool \<Rightarrow> u64 \<Rightarrow> u64 \<Rightarrow> timer_list \<Rightarrow> bool \<times> u32 option \<times> timer_list" where
  "mod_timer alloc_ok now at t =
     (let was_active = timer_active t;
          t1 = (if timer_call t then t else t\<lparr>timer_call := alloc_ok\<rparr>)
      in if \<not> timer_call t1 then (was_active, None, t1)
         else let d = sint (at - now); delay_ms = (if d \<le> 0 then 1 else d)
              in (was_active, Some (word_of_int delay_ms), t1\<lparr>expires := at, timer_active := True\<rparr>))"

text \<open>\<open>del_timer\<close> and \<open>del_timer_sync\<close>: the thread call is cancelled when there is one.\<close>

definition del_timer :: "timer_list \<Rightarrow> bool \<times> timer_list" where
  "del_timer t = (timer_active t, t\<lparr>timer_active := False\<rparr>)"

definition del_timer_sync :: "timer_list \<Rightarrow> timer_list" where
  "del_timer_sync t = t\<lparr>timer_active := False, timer_call := False\<rparr>"

definition timer_delete_sync :: "timer_list \<Rightarrow> timer_list" where
  "timer_delete_sync = del_timer_sync"

text \<open>\<open>timer_call_fn\<close>: whether the timer's function runs.\<close>

definition timer_call_fn :: "timer_list \<Rightarrow> bool \<times> timer_list" where
  "timer_call_fn t = (if timer_active t then (has_function t, t\<lparr>timer_active := False\<rparr>) else (False, t))"

section \<open>Lemmas\<close>

lemma sint_u64_of_int: "- (2 ^ 63) \<le> d \<Longrightarrow> d < 2 ^ 63 \<Longrightarrow> sint (word_of_int d :: u64) = d"
  by (simp add: signed_of_int signed_take_bit_int_eq_self)

lemma sum_list_udelay: "sum_list (udelay n) = n"
  by (induction n rule: udelay.induct) (subst udelay.simps, simp)

lemma udelay_chunks: "\<forall>d \<in> set (udelay n). 0 < d \<and> d \<le> 1000"
proof (induction n rule: udelay.induct)
  case (1 n)
  then show ?case by (subst udelay.simps) auto
qed

section \<open>Properties\<close>

text \<open>
  jiffies comparisons survive the wrap-around of the counter: for two instants less than
  \<open>2 ^ 63\<close> milliseconds apart, however the counter wraps between them, \<open>time_after\<close>,
  \<open>time_before\<close> and \<open>time_after_eq\<close> give the order of the instants.
\<close>

theorem jiffies_order:
  assumes "- (2 ^ 63) < d" and "d < 2 ^ 63"
  shows "(time_after (t + word_of_int d) t \<longleftrightarrow> 0 < d)
     \<and> (time_before (t + word_of_int d) t \<longleftrightarrow> d < 0)
     \<and> (time_after_eq (t + word_of_int d) t \<longleftrightarrow> 0 \<le> d)"
proof -
  have "t - (t + word_of_int d) = word_of_int (- d)" by simp
  moreover have "sint (word_of_int (- d) :: u64) = - d" "sint (word_of_int d :: u64) = d"
    using assms by (simp_all only: sint_u64_of_int)
  ultimately show ?thesis
    by (simp add: time_after_def time_before_def time_after_eq_def)
qed

theorem jiffies_order_witness:
  "time_after (5 + word_of_int 10) (5 :: u64) \<and> \<not> time_before (5 + word_of_int 10) (5 :: u64)"
  using jiffies_order [of 10 5] by simp

text \<open>
  arming a timer always leaves it pending with a positive delay, unless its thread call could
  not be allocated, and then the timer is left as it was; a timer that was deleted before its
  thread call ran does not run its function, and one that fires runs it at most once.
\<close>

theorem timer_lifecycle:
  "(case mod_timer ok now at t of (was, armed, t') \<Rightarrow>
      was = timer_active t
      \<and> (timer_call t \<or> ok \<longrightarrow> timer_pending t' \<and> expires t' = at \<and> armed \<noteq> None
           \<and> (sint (at - now) < 2 ^ 32 \<longrightarrow> armed \<noteq> Some 0))
      \<and> (\<not> timer_call t \<and> \<not> ok \<longrightarrow> armed = None \<and> t' = t))
   \<and> \<not> fst (timer_call_fn (snd (del_timer t)))
   \<and> \<not> fst (timer_call_fn (del_timer_sync t))
   \<and> \<not> fst (timer_call_fn (snd (timer_call_fn t)))"
proof -
  have "word_of_int d \<noteq> (0 :: u32)" if "0 < d" "d < 2 ^ 32" for d :: int
    using that by (simp add: word_of_int_eq_0_iff zdvd_not_zless)
  moreover have "(if sint (at - now) \<le> 0 then 1 else sint (at - now)) > 0" by simp
  ultimately show ?thesis
    by (auto simp: mod_timer_def Let_def timer_pending_def del_timer_def del_timer_sync_def timer_call_fn_def)
qed

theorem timer_lifecycle_witness:
  "case mod_timer True 100 150 \<lparr>expires = 0, has_function = True, timer_data = 0, timer_call = False, timer_active = False\<rparr>
   of (was, armed, t') \<Rightarrow> \<not> was \<and> timer_pending t' \<and> expires t' = 150 \<and> armed \<noteq> None"
  using timer_lifecycle [where ok = True and now = 100 and at = 150 and t = "\<lparr>expires = 0, has_function = True, timer_data = 0, timer_call = False, timer_active = False\<rparr>"]
  by (simp split: prod.splits)

text \<open>
  \<open>udelay\<close> splits a delay into busy-waits of at most one millisecond that add up to exactly the
  delay asked for.
\<close>

theorem udelay_splits_exactly:
  "sum_list (udelay n) = n \<and> (\<forall>d. d \<in> set (udelay n) \<longrightarrow> 0 < d \<and> d \<le> 1000)"
  using sum_list_udelay udelay_chunks by blast

theorem udelay_splits_exactly_witness:
  "sum_list (udelay 2500) = 2500 \<and> (\<forall>d. d \<in> set (udelay 2500) \<longrightarrow> 0 < d \<and> d \<le> 1000)"
  by (rule udelay_splits_exactly)

end
