(* ===== verification/Workqueue.thy ===== *)
theory Workqueue
  imports Timers
begin

text \<open>
  The work queues of \<open>linux/workqueue.h\<close> and \<open>rtw88_compat.c\<close>. All work state is protected by
  the one \<open>work_state_lock\<close>, so every critical section is a function on the whole state: the work
  items and the queues, by number. A queue is the sequence of its linked work items (the list
  theory shows that the \<open>list_head\<close> operations used here are first-in first-out on that
  sequence). The places where the code sleeps on the lock are conditions that the step relation
  waits for; a run is the sequence of labelled steps it takes. The worker thread of a queue is idle, executing an item or gone.
\<close>

type_synonym wid = nat
type_synonym qid = nat

text \<open>\<open>pending\<close> is 1 when queued and 2 while the delay timer is armed.\<close>

record work_struct =
  w_pending :: nat
  w_wq :: "qid option"
  w_executing :: bool
  w_canceling :: bool
  w_timer :: timer_list

datatype worker = Idle | Executing wid | Gone

record workqueue_struct =
  q_items :: "wid list"
  q_running :: bool
  q_done :: bool
  q_active :: nat
  q_worker :: worker

record wq_state =
  works :: "wid \<Rightarrow> work_struct"
  queues :: "qid \<Rightarrow> workqueue_struct"

abbreviation upd_work :: "wid \<Rightarrow> (work_struct \<Rightarrow> work_struct) \<Rightarrow> wq_state \<Rightarrow> wq_state" where
  "upd_work w f s \<equiv> s\<lparr>works := (works s)(w := f (works s w))\<rparr>"

abbreviation upd_queue :: "qid \<Rightarrow> (workqueue_struct \<Rightarrow> workqueue_struct) \<Rightarrow> wq_state \<Rightarrow> wq_state" where
  "upd_queue q f s \<equiv> s\<lparr>queues := (queues s)(q := f (queues s q))\<rparr>"

section \<open>Setting up\<close>

definition INIT_WORK :: "work_struct \<Rightarrow> work_struct" where
  "INIT_WORK w = w\<lparr>w_pending := 0, w_wq := None, w_executing := False, w_canceling := False\<rparr>"

definition INIT_DELAYED_WORK :: "work_struct \<Rightarrow> work_struct" where
  "INIT_DELAYED_WORK w = (INIT_WORK w)\<lparr>w_timer := timer_setup True (w_timer w)\<rparr>"

text \<open>\<open>alloc_workqueue\<close>: the structure, the state lock and the thread must all be there.\<close>

definition alloc_workqueue :: "bool \<Rightarrow> bool \<Rightarrow> bool \<Rightarrow> workqueue_struct option" where
  "alloc_workqueue mem_ok state_lock thread_ok =
     (if \<not> mem_ok then None
      else if \<not> state_lock then None
      else if \<not> thread_ok then None
      else Some \<lparr>q_items = [], q_running = True, q_done = False, q_active = 0, q_worker = Idle\<rparr>)"

section \<open>Queueing\<close>

definition queue_work_locked :: "qid \<Rightarrow> wid \<Rightarrow> wq_state \<Rightarrow> bool \<times> wq_state" where
  "queue_work_locked q w s =
     (if \<not> q_running (queues s q) \<or> w_pending (works s w) \<noteq> 0 \<or> w_canceling (works s w) then (False, s)
      else if w_executing (works s w) \<and> w_wq (works s w) \<noteq> Some q then (False, s)
      else (True, upd_queue q (\<lambda>r. r\<lparr>q_items := q_items r @ [w]\<rparr>)
                   (upd_work w (\<lambda>x. x\<lparr>w_wq := Some q, w_pending := 1\<rparr>) s)))"

definition queue_work :: "bool \<Rightarrow> qid option \<Rightarrow> wid option \<Rightarrow> wq_state \<Rightarrow> bool \<times> wq_state" where
  "queue_work state_lock wq work s =
     (case (wq, work) of
        (Some q, Some w) \<Rightarrow> if \<not> state_lock then (False, s) else queue_work_locked q w s
      | _ \<Rightarrow> (False, s))"

definition schedule_work :: "qid \<Rightarrow> bool \<Rightarrow> wid option \<Rightarrow> wq_state \<Rightarrow> bool \<times> wq_state" where
  "schedule_work system_wq state_lock work s = queue_work state_lock (Some system_wq) work s"

text \<open>The timer of a delayed item fires: \<open>rtw88_delayed_work_timer_fn\<close>.\<close>

definition delayed_work_timer_fn :: "wid \<Rightarrow> wq_state \<Rightarrow> wq_state" where
  "delayed_work_timer_fn w s =
     (if w_pending (works s w) = 2 then
        (case w_wq (works s w) of
           Some q \<Rightarrow> snd (queue_work_locked q w (upd_work w (\<lambda>x. x\<lparr>w_pending := 0\<rparr>) s))
         | None \<Rightarrow> upd_work w (\<lambda>x. x\<lparr>w_pending := 0\<rparr>) s)
      else s)"

text \<open>
  \<open>queue_delayed_work\<close> on non-null arguments; \<open>timer_ok\<close> is the success of the thread-call
  allocation in \<open>mod_timer\<close>.
\<close>

definition queue_delayed_work :: "bool \<Rightarrow> u64 \<Rightarrow> qid \<Rightarrow> wid \<Rightarrow> u64 \<Rightarrow> wq_state \<Rightarrow> bool \<times> wq_state" where
  "queue_delayed_work timer_ok now q w delay s =
     (if delay = 0 then queue_work_locked q w s
      else if \<not> q_running (queues s q) \<or> w_pending (works s w) \<noteq> 0 \<or> w_canceling (works s w)
              \<or> (w_executing (works s w) \<and> w_wq (works s w) \<noteq> Some q) then (False, s)
      else let (_, _, t) = mod_timer timer_ok now (now + delay) (w_timer (works s w));
               p = (if timer_call t then 2 else 0)
           in (p \<noteq> 0, upd_work w (\<lambda>x. x\<lparr>w_wq := Some q, w_pending := p, w_timer := t\<rparr>) s))"

definition schedule_delayed_work :: "qid \<Rightarrow> bool \<Rightarrow> u64 \<Rightarrow> wid \<Rightarrow> u64 \<Rightarrow> wq_state \<Rightarrow> bool \<times> wq_state" where
  "schedule_delayed_work system_wq timer_ok now w delay s = queue_delayed_work timer_ok now system_wq w delay s"

section \<open>Cancelling and flushing\<close>

text \<open>
  \<open>remove_pending_work\<close>: an item that is queued is unlinked from the queue it is linked in, which
  is the queue of its \<open>wq\<close> field.
\<close>

definition remove_pending_work :: "wid \<Rightarrow> wq_state \<Rightarrow> bool \<times> wq_state" where
  "remove_pending_work w s =
     (let was = (w_pending (works s w) \<noteq> 0);
          s1 = (if w_pending (works s w) = 1
                then (case w_wq (works s w) of None \<Rightarrow> s
                      | Some q \<Rightarrow> upd_queue q (\<lambda>r. r\<lparr>q_items := remove1 w (q_items r)\<rparr>) s)
                else s)
      in (was, upd_work w (\<lambda>x. x\<lparr>w_pending := 0\<rparr>) s1))"

text \<open>\<open>cancel_work_sync\<close> before its waiting loop, the condition it sleeps on, and after the loop.\<close>

definition cancel_work_begin :: "wid \<Rightarrow> wq_state \<Rightarrow> bool \<times> wq_state" where
  "cancel_work_begin w s = remove_pending_work w (upd_work w (\<lambda>x. x\<lparr>w_canceling := True\<rparr>) s)"

definition cancel_work_blocked :: "wid \<Rightarrow> wq_state \<Rightarrow> bool" where
  "cancel_work_blocked w s \<longleftrightarrow> w_executing (works s w)"

definition cancel_work_end :: "wid \<Rightarrow> wq_state \<Rightarrow> wq_state" where
  "cancel_work_end w s = upd_work w (\<lambda>x. x\<lparr>w_canceling := False\<rparr>) s"

text \<open>
  \<open>cancel_delayed_work_sync\<close> releases the lock for \<open>del_timer_sync\<close> between the removal and the
  waiting loop.
\<close>

definition cancel_delayed_work_del_timer :: "wid \<Rightarrow> wq_state \<Rightarrow> wq_state" where
  "cancel_delayed_work_del_timer w s = upd_work w (\<lambda>x. x\<lparr>w_timer := del_timer_sync (w_timer x)\<rparr>) s"

definition cancel_delayed_work :: "wid \<Rightarrow> wq_state \<Rightarrow> bool \<times> wq_state" where
  "cancel_delayed_work w s =
     (let (was, s1) = remove_pending_work w s
      in (was, upd_work w (\<lambda>x. x\<lparr>w_timer := snd (del_timer (w_timer x))\<rparr>) s1))"

definition mod_delayed_work :: "bool \<Rightarrow> u64 \<Rightarrow> qid \<Rightarrow> wid \<Rightarrow> u64 \<Rightarrow> wq_state \<Rightarrow> bool \<times> wq_state" where
  "mod_delayed_work timer_ok now q w delay s =
     queue_delayed_work timer_ok now q w delay (snd (cancel_delayed_work w s))"

definition flush_work_blocked :: "wid \<Rightarrow> wq_state \<Rightarrow> bool" where
  "flush_work_blocked w s \<longleftrightarrow> w_pending (works s w) \<noteq> 0 \<or> w_executing (works s w)"

definition flush_workqueue_blocked :: "qid \<Rightarrow> wq_state \<Rightarrow> bool" where
  "flush_workqueue_blocked q s \<longleftrightarrow> q_items (queues s q) \<noteq> [] \<or> q_active (queues s q) \<noteq> 0"

definition destroy_workqueue_begin :: "qid \<Rightarrow> wq_state \<Rightarrow> wq_state" where
  "destroy_workqueue_begin q s = upd_queue q (\<lambda>r. r\<lparr>q_running := False\<rparr>) s"

section \<open>The worker thread\<close>

text \<open>\<open>wq_thread_fn\<close>: taking the oldest item, finishing it, and leaving the loop.\<close>

definition worker_take :: "qid \<Rightarrow> wq_state \<Rightarrow> wq_state" where
  "worker_take q s =
     (case q_items (queues s q) of [] \<Rightarrow> s
      | w # ws \<Rightarrow>
          upd_queue q (\<lambda>r. r\<lparr>q_items := ws, q_active := q_active r + 1, q_worker := Executing w\<rparr>)
            (upd_work w (\<lambda>x. x\<lparr>w_pending := 0, w_executing := True\<rparr>) s))"

definition worker_finish :: "qid \<Rightarrow> wid \<Rightarrow> wq_state \<Rightarrow> wq_state" where
  "worker_finish q w s =
     upd_queue q (\<lambda>r. r\<lparr>q_active := q_active r - 1, q_worker := Idle\<rparr>)
       (upd_work w (\<lambda>x. x\<lparr>w_executing := False\<rparr>) s)"

definition worker_exit :: "qid \<Rightarrow> wq_state \<Rightarrow> wq_state" where
  "worker_exit q s = upd_queue q (\<lambda>r. r\<lparr>q_done := True, q_worker := Gone\<rparr>) s"

text \<open>
  The sections as labelled steps of an interleaving. A thread asleep in a waiting loop is a step
  that is not possible yet: \<open>CancelReturn w\<close> is the section that ends a \<open>cancel_work_sync\<close> or
  \<open>cancel_delayed_work_sync\<close> of \<open>w\<close>.
\<close>

datatype wq_act =
  QueueWork qid wid | QueueDelayed bool u64 qid wid u64 | TimerFires wid
  | CancelBegin wid | CancelDelTimer wid | CancelReturn wid | CancelDelayed wid
  | DestroyBegin qid | WorkerTake qid | WorkerFinish qid wid | WorkerLeave qid

inductive wq_step :: "wq_act \<Rightarrow> wq_state \<Rightarrow> wq_state \<Rightarrow> bool" where
  queue: "wq_step (QueueWork q w) s (snd (queue_work_locked q w s))"
| queue_delayed: "wq_step (QueueDelayed ok now q w delay) s (snd (queue_delayed_work ok now q w delay s))"
| timer_fires: "wq_step (TimerFires w) s (delayed_work_timer_fn w s)"
| cancel_begin: "wq_step (CancelBegin w) s (snd (cancel_work_begin w s))"
| cancel_del_timer: "wq_step (CancelDelTimer w) s (cancel_delayed_work_del_timer w s)"
| cancel_end: "\<not> cancel_work_blocked w s \<Longrightarrow> wq_step (CancelReturn w) s (cancel_work_end w s)"
| cancel_delayed: "wq_step (CancelDelayed w) s (snd (cancel_delayed_work w s))"
| destroy_begin: "wq_step (DestroyBegin q) s (destroy_workqueue_begin q s)"
| take: "q_worker (queues s q) = Idle \<Longrightarrow> q_items (queues s q) \<noteq> [] \<Longrightarrow>
     wq_step (WorkerTake q) s (worker_take q s)"
| finish: "q_worker (queues s q) = Executing w \<Longrightarrow> wq_step (WorkerFinish q w) s (worker_finish q w s)"
| leave: "q_worker (queues s q) = Idle \<Longrightarrow> \<not> q_running (queues s q) \<Longrightarrow> q_items (queues s q) = [] \<Longrightarrow>
     wq_step (WorkerLeave q) s (worker_exit q s)"

inductive wq_run :: "wq_state \<Rightarrow> wq_act list \<Rightarrow> wq_state \<Rightarrow> bool" where
  nil: "wq_run s [] s"
| cons: "wq_step a s m \<Longrightarrow> wq_run m as t \<Longrightarrow> wq_run s (a # as) t"

inductive_cases wq_run_nilE: "wq_run s [] t"
inductive_cases wq_run_consE: "wq_run s (a # as) t"
inductive_cases wq_returnE: "wq_step (CancelReturn w) s t"
inductive_cases wq_cancelE: "wq_step (CancelBegin w) s t"

fun queues_work :: "wid \<Rightarrow> wq_act \<Rightarrow> bool" where
  "queues_work w (QueueWork q v) = (v = w)"
| "queues_work w (QueueDelayed ok now q v delay) = (v = w)"
| "queues_work w _ = False"

definition fresh_work :: work_struct where
  "fresh_work = \<lparr>w_pending = 0, w_wq = None, w_executing = False, w_canceling = False,
     w_timer = \<lparr>expires = 0, has_function = True, timer_data = 0, timer_call = False, timer_active = False\<rparr>\<rparr>"

definition fresh_queue :: workqueue_struct where
  "fresh_queue = \<lparr>q_items = [], q_running = True, q_done = False, q_active = 0, q_worker = Idle\<rparr>"

definition wq_start :: wq_state where
  "wq_start = \<lparr>works = (\<lambda>_. fresh_work), queues = (\<lambda>_. fresh_queue)\<rparr>"

inductive wq_reach :: "wq_state \<Rightarrow> bool" where
  start: "wq_reach wq_start"
| step: "wq_reach s \<Longrightarrow> wq_step a s t \<Longrightarrow> wq_reach t"

section \<open>The invariant\<close>

text \<open>
  An item is linked in a queue exactly when it is marked queued for that queue, and once; an item
  marked executing is executing on the worker of its own queue and on no other; a cancelling
  item is not pending; a queue's active count is its worker's state; a worker that is gone left
  an empty queue that takes no more work.
\<close>

definition wq_inv :: "wq_state \<Rightarrow> bool" where
  "wq_inv s \<longleftrightarrow>
     (\<forall>q w. w \<in> set (q_items (queues s q)) \<longleftrightarrow> w_pending (works s w) = 1 \<and> w_wq (works s w) = Some q)
     \<and> (\<forall>q. distinct (q_items (queues s q)))
     \<and> (\<forall>q w. q_worker (queues s q) = Executing w \<longleftrightarrow> w_executing (works s w) \<and> w_wq (works s w) = Some q)
     \<and> (\<forall>w. w_executing (works s w) \<longrightarrow> w_wq (works s w) \<noteq> None)
     \<and> (\<forall>w. w_pending (works s w) \<noteq> 0 \<longrightarrow> w_wq (works s w) \<noteq> None)
     \<and> (\<forall>w. w_canceling (works s w) \<longrightarrow> w_pending (works s w) = 0)
     \<and> (\<forall>q. q_active (queues s q) = (case q_worker (queues s q) of Executing _ \<Rightarrow> 1 | _ \<Rightarrow> 0))
     \<and> (\<forall>q. q_done (queues s q) \<longleftrightarrow> q_worker (queues s q) = Gone)
     \<and> (\<forall>q. q_done (queues s q) \<longrightarrow> \<not> q_running (queues s q) \<and> q_items (queues s q) = [])"

lemma wq_inv_start: "wq_inv wq_start"
  by (simp add: wq_inv_def wq_start_def fresh_work_def fresh_queue_def)

lemma wq_invD:
  assumes "wq_inv s"
  shows "w \<in> set (q_items (queues s q)) \<longleftrightarrow> w_pending (works s w) = 1 \<and> w_wq (works s w) = Some q"
    and "distinct (q_items (queues s q))"
    and "q_worker (queues s q) = Executing w \<longleftrightarrow> w_executing (works s w) \<and> w_wq (works s w) = Some q"
    and "w_executing (works s w) \<Longrightarrow> w_wq (works s w) \<noteq> None"
    and "w_pending (works s w) \<noteq> 0 \<Longrightarrow> w_wq (works s w) \<noteq> None"
    and "w_canceling (works s w) \<Longrightarrow> w_pending (works s w) = 0"
    and "q_active (queues s q) = (case q_worker (queues s q) of Executing _ \<Rightarrow> 1 | _ \<Rightarrow> 0)"
    and "q_done (queues s q) \<longleftrightarrow> q_worker (queues s q) = Gone"
    and "q_done (queues s q) \<Longrightarrow> \<not> q_running (queues s q) \<and> q_items (queues s q) = []"
  using assms unfolding wq_inv_def by blast+

lemma queue_work_locked_inv [inv_intros]:
  assumes inv: "wq_inv s"
  shows "wq_inv (snd (queue_work_locked q w s))"
proof (cases "fst (queue_work_locked q w s)")
  case False
  then have "snd (queue_work_locked q w s) = s" by (auto simp: queue_work_locked_def split: if_splits)
  then show ?thesis using inv by simp
next
  case True
  then have g: "q_running (queues s q)" "w_pending (works s w) = 0" "\<not> w_canceling (works s w)"
    "w_executing (works s w) \<longrightarrow> w_wq (works s w) = Some q"
    by (auto simp: queue_work_locked_def split: if_splits)
  then show ?thesis
    using inv wq_invD(1) [OF inv, of w q] wq_invD(9) [OF inv, of q]
    unfolding wq_inv_def queue_work_locked_def by auto
qed

lemma set_pending0_inv:
  assumes inv: "wq_inv s" and "w_pending (works s w) \<noteq> 1"
  shows "wq_inv (upd_work w (\<lambda>x. x\<lparr>w_pending := 0\<rparr>) s)"
  using assms unfolding wq_inv_def by auto

lemma timer_fn_inv [inv_intros]: "wq_inv s \<Longrightarrow> wq_inv (delayed_work_timer_fn w s)"
  by (auto simp: delayed_work_timer_fn_def intro!: inv_intros set_pending0_inv split: option.split)

lemma queue_delayed_inv [inv_intros]:
  assumes inv: "wq_inv s"
  shows "wq_inv (snd (queue_delayed_work ok now q w delay s))"
proof (cases "delay = 0 \<or> \<not> q_running (queues s q) \<or> w_pending (works s w) \<noteq> 0
    \<or> w_canceling (works s w) \<or> (w_executing (works s w) \<and> w_wq (works s w) \<noteq> Some q)")
  case True
  then show ?thesis using inv by (auto simp: queue_delayed_work_def intro: inv_intros)
next
  case False
  then show ?thesis
    using inv unfolding wq_inv_def queue_delayed_work_def Let_def split_def by auto
qed

lemma remove_pending_inv [inv_intros]:
  assumes inv: "wq_inv s"
  shows "wq_inv (snd (remove_pending_work w s))"
  using inv wq_invD(2) [OF inv] unfolding wq_inv_def remove_pending_work_def Let_def
  by (auto split: option.split)

lemma remove_pending_inv_cancel:
  assumes inv: "wq_inv s"
  shows "wq_inv (snd (cancel_work_begin w s))"
  using inv wq_invD(2) [OF inv] unfolding wq_inv_def cancel_work_begin_def remove_pending_work_def Let_def
  by (auto split: option.split)

lemma set_timer_inv: "wq_inv s \<Longrightarrow> wq_inv (upd_work w (\<lambda>x. x\<lparr>w_timer := f x\<rparr>) s)"
  unfolding wq_inv_def by auto

lemma worker_take_inv:
  assumes inv: "wq_inv s" and "q_worker (queues s q) = Idle" and "q_items (queues s q) = w # ws"
  shows "wq_inv (worker_take q s)"
proof -
  have w: "w_pending (works s w) = 1" "w_wq (works s w) = Some q" "distinct (w # ws)"
    using wq_invD(1) [OF inv, of w q] wq_invD(2) [OF inv, of q] assms(3) by simp_all
  have mem: "v \<in> set (w # ws) \<longleftrightarrow> w_pending (works s v) = 1 \<and> w_wq (works s v) = Some q" for v
    using wq_invD(1) [OF inv, of v q] assms(3) by simp
  have none: "\<not> (w_executing (works s v) \<and> w_wq (works s v) = Some q)" for v
    using wq_invD(3) [OF inv, of q v] assms(2) by simp
  show ?thesis
    using inv w mem none wq_invD(7) [OF inv, of q] wq_invD(8) [OF inv, of q] assms(2,3)
    unfolding wq_inv_def worker_take_def by (auto split: if_splits)
qed

lemma worker_finish_inv:
  assumes inv: "wq_inv s" and "q_worker (queues s q) = Executing w"
  shows "wq_inv (worker_finish q w s)"
proof -
  have ex: "w_executing (works s v) \<and> w_wq (works s v) = Some q \<longleftrightarrow> v = w" for v
    using wq_invD(3) [OF inv, of q v] assms(2) by auto
  then have w: "w_wq (works s w) = Some q" by blast
  have none: "w_executing (works s v) \<Longrightarrow> v \<noteq> w \<Longrightarrow> w_wq (works s v) \<noteq> Some q" for v
    using ex by blast
  have a: "q_active (queues s q) = 1" "\<not> q_done (queues s q)"
    using wq_invD(7,8) [OF inv, of q] assms(2) by simp_all
  show ?thesis
    using inv w none a unfolding wq_inv_def worker_finish_def by (auto split: if_splits)
qed

lemma wq_step_inv: "wq_step a s t \<Longrightarrow> wq_inv s \<Longrightarrow> wq_inv t"
proof (induction rule: wq_step.induct)
  case (take s q)
  then show ?case by (auto simp: neq_Nil_conv intro: worker_take_inv)
next
  case (cancel_delayed w s)
  then show ?case
    using set_timer_inv [OF remove_pending_inv [OF cancel_delayed.prems]]
    by (simp add: cancel_delayed_work_def split_def Let_def)
next
  case (cancel_end w s)
  then show ?case unfolding wq_inv_def cancel_work_end_def by auto
next
  case (destroy_begin q s)
  then show ?case unfolding wq_inv_def destroy_workqueue_begin_def by auto
next
  case (leave s q)
  then have inv: "wq_inv s" by simp
  have "\<not> (w_pending (works s v) = 1 \<and> w_wq (works s v) = Some q)"
    "\<not> (w_executing (works s v) \<and> w_wq (works s v) = Some q)" for v
    using wq_invD(1,3) [OF inv] leave by (metis empty_iff list.set(1), metis worker.distinct(1))
  then show ?case
    using leave wq_invD(7) [OF inv, of q] unfolding wq_inv_def worker_exit_def by auto
next
  case (cancel_del_timer w s)
  then show ?case
    using set_timer_inv [of s w "\<lambda>x. del_timer_sync (w_timer x)"]
    by (simp only: cancel_delayed_work_del_timer_def)
qed (simp_all add: inv_intros remove_pending_inv_cancel worker_finish_inv)

lemma wq_reach_inv: "wq_reach s \<Longrightarrow> wq_inv s"
  by (induction rule: wq_reach.induct) (auto intro: wq_inv_start wq_step_inv)

lemma executing_iff_worker:
  "wq_inv s \<Longrightarrow> w_executing (works s w) \<longleftrightarrow> (\<exists>p. q_worker (queues s p) = Executing w)"
  using wq_invD(3) [of s _ w] wq_invD(4) [of s w] by auto

lemma queue_work_locked_stopped: "\<not> q_running (queues s q) \<Longrightarrow> queue_work_locked q w s = (False, s)"
  by (simp add: queue_work_locked_def)

text \<open>A cancelling item stays marked until a cancellation of it returns; a quiet item stays quiet
  until it is queued.\<close>

lemma mark_kept:
  "wq_step a s t \<Longrightarrow> w_canceling (works s w) \<Longrightarrow> a \<noteq> CancelReturn w \<Longrightarrow> w_canceling (works t w)"
  by (induction rule: wq_step.induct)
    (auto simp: queue_work_locked_def queue_delayed_work_def delayed_work_timer_fn_def cancel_work_begin_def
      remove_pending_work_def cancel_delayed_work_del_timer_def cancel_work_end_def cancel_delayed_work_def
      destroy_workqueue_begin_def worker_take_def worker_finish_def worker_exit_def Let_def split_def
      split: option.split list.split)

lemma marked_run:
  "wq_run s as t \<Longrightarrow> wq_inv s \<Longrightarrow> w_canceling (works s w) \<Longrightarrow> CancelReturn w \<notin> set as \<Longrightarrow>
     wq_inv t \<and> w_canceling (works t w)"
  by (induction rule: wq_run.induct) (auto dest: wq_step_inv mark_kept)

lemma cancelling_kept:
  assumes "wq_run s (CancelBegin w # as) m" and "wq_inv s" and "CancelReturn w \<notin> set as"
  shows "wq_inv m \<and> w_canceling (works m w)"
proof -
  let ?b = "snd (cancel_work_begin w s)"
  have "wq_run ?b as m" using assms(1) by (elim wq_run_consE wq_cancelE) simp
  moreover have "w_canceling (works ?b w)"
    by (simp add: cancel_work_begin_def remove_pending_work_def Let_def split: option.split)
  ultimately show ?thesis using marked_run remove_pending_inv_cancel [OF assms(2)] assms(3) by blast
qed

definition work_quiet :: "wid \<Rightarrow> wq_state \<Rightarrow> bool" where
  "work_quiet w s \<longleftrightarrow> w_pending (works s w) = 0 \<and> \<not> w_executing (works s w)"

lemma quiet_step:
  assumes "wq_step a s t" and "wq_inv s" and "work_quiet w s" and "\<not> queues_work w a"
  shows "work_quiet w t"
  using assms
proof (induction rule: wq_step.induct)
  case (take s q)
  have "w \<notin> set (q_items (queues s q))"
    using wq_invD(1) [OF take.prems(1), of w q] take.prems(2) by (simp add: work_quiet_def)
  then show ?case using take.prems(2) by (auto simp: work_quiet_def worker_take_def split: list.split)
qed (auto simp: work_quiet_def queue_work_locked_def queue_delayed_work_def delayed_work_timer_fn_def
      cancel_work_begin_def remove_pending_work_def cancel_delayed_work_del_timer_def cancel_work_end_def
      cancel_delayed_work_def destroy_workqueue_begin_def worker_finish_def worker_exit_def Let_def split_def
      split: option.split)

lemma quiet_kept:
  "wq_run s as t \<Longrightarrow> wq_inv s \<Longrightarrow> work_quiet w s \<Longrightarrow> \<not> list_ex (queues_work w) as \<Longrightarrow>
     wq_inv t \<and> work_quiet w t"
  by (induction rule: wq_run.induct) (auto dest: wq_step_inv quiet_step)

lemmas wq_eval = wq_start_def fresh_work_def fresh_queue_def queue_work_locked_def worker_take_def
  cancel_work_begin_def remove_pending_work_def destroy_workqueue_begin_def worker_exit_def

section \<open>Properties\<close>

text \<open>
  C30: work items are not re-entrant: in every interleaving of queueing, delayed queueing, timers,
  cancellation, destruction and worker threads, a work item executes on at most one worker, the
  worker of the queue it was queued to, and it is linked at most once, in at most one queue.
\<close>

theorem work_not_reentrant:
  assumes "wq_reach s"
  shows "(q_worker (queues s q) = Executing w \<and> q_worker (queues s q') = Executing w \<longrightarrow> q = q')
     \<and> (w \<in> set (q_items (queues s q)) \<and> w \<in> set (q_items (queues s q')) \<longrightarrow> q = q')
     \<and> distinct (q_items (queues s q))
     \<and> (w_executing (works s w) \<longleftrightarrow> (\<exists>p. q_worker (queues s p) = Executing w))"
proof -
  have inv: "wq_inv s" by (rule wq_reach_inv [OF assms])
  show ?thesis
    using executing_iff_worker [OF inv, of w] wq_invD(1-3) [OF inv] by (metis option.inject)
qed

theorem work_not_reentrant_witness:
  "wq_reach (worker_take 0 (snd (queue_work_locked 0 5 wq_start)))
     \<and> q_worker (queues (worker_take 0 (snd (queue_work_locked 0 5 wq_start))) 0) = Executing 5
     \<and> (\<exists>p. q_worker (queues (worker_take 0 (snd (queue_work_locked 0 5 wq_start))) p) = Executing 5)"
proof -
  let ?s1 = "snd (queue_work_locked 0 5 wq_start)"
  have "wq_step (WorkerTake 0) ?s1 (worker_take 0 ?s1)" by (rule wq_step.take) (simp_all add: wq_eval)
  then have r: "wq_reach (worker_take 0 ?s1)"
    by (blast intro: wq_reach.intros wq_step.queue)
  moreover have "w_executing (works (worker_take 0 ?s1) 5)" "q_worker (queues (worker_take 0 ?s1) 0) = Executing 5"
    by (simp_all add: wq_eval)
  ultimately show ?thesis using work_not_reentrant [OF r, of 0 5 0] by blast
qed

text \<open>
  C29: once \<open>cancel_work_sync\<close> or \<open>cancel_delayed_work_sync\<close> has returned, the item is quiet:
  in every interleaving that goes from the beginning of a cancellation to its return, with any
  sections of other threads in between but no return of another cancellation of the same item,
  the item is queued nowhere, its mark is clear again, no worker is executing it and its timer
  will not queue it, even if it was executing when the cancellation began; and it stays so
  through everything that follows until somebody queues it again. While the cancellation waits
  nothing can queue it.
\<close>

theorem cancel_work_sync_quiesces:
  assumes "wq_reach s"
    and "wq_run s (CancelBegin w # as) m" and "wq_step (CancelReturn w) m t"
    and "CancelReturn w \<notin> set as"
    and "wq_run t bs u" and "\<not> list_ex (queues_work w) bs"
  shows "\<not> w_canceling (works t w)
     \<and> w_pending (works u w) = 0 \<and> (\<forall>q. w \<notin> set (q_items (queues u q)))
     \<and> (\<forall>q. q_worker (queues u q) \<noteq> Executing w) \<and> delayed_work_timer_fn w u = u
     \<and> w_canceling (works m w) \<and> w_pending (works m w) = 0
     \<and> queue_work_locked q w m = (False, m) \<and> queue_delayed_work ok now q w d m = (False, m)"
proof -
  have m: "wq_inv m" "w_canceling (works m w)"
    using cancelling_kept [OF assms(2) wq_reach_inv [OF assms(1)] assms(4)] by blast+
  then have p: "w_pending (works m w) = 0" by (rule wq_invD(6))
  have t: "wq_inv t" "work_quiet w t" "\<not> w_canceling (works t w)"
    using wq_step_inv [OF assms(3) m(1)] assms(3) p
    by (auto elim!: wq_returnE simp: work_quiet_def cancel_work_blocked_def cancel_work_end_def)
  have "wq_inv u" "work_quiet w u" using quiet_kept [OF assms(5) t(1,2) assms(6)] by blast+
  then show ?thesis
    using m(2) p t(3) wq_invD(1,3)
    by (auto simp: work_quiet_def queue_work_locked_def queue_delayed_work_def delayed_work_timer_fn_def)
qed

text \<open>The item is executing when the cancellation begins, which waits for the worker.\<close>

theorem cancel_work_sync_quiesces_witness:
  "w_executing (works (worker_take 0 (snd (queue_work_locked 0 5 wq_start))) 5)
     \<and> (let m = worker_finish 0 5 (snd (cancel_work_begin 5 (worker_take 0 (snd (queue_work_locked 0 5 wq_start)))))
        in w_pending (works (cancel_work_end 5 m) 5) = 0
           \<and> (\<forall>q. q_worker (queues (cancel_work_end 5 m) q) \<noteq> Executing 5))"
proof -
  let ?s1 = "snd (queue_work_locked 0 5 wq_start)" let ?s = "worker_take 0 ?s1"
  let ?b = "snd (cancel_work_begin 5 ?s)" let ?m = "worker_finish 0 5 ?b"
  have e: "w_executing (works ?s 5)" "q_worker (queues ?b 0) = Executing 5" "\<not> cancel_work_blocked 5 ?m"
    by (simp_all add: wq_eval worker_finish_def cancel_work_blocked_def)
  have "wq_step (WorkerTake 0) ?s1 ?s" by (rule wq_step.take) (simp_all add: wq_eval)
  then have r: "wq_reach ?s" by (blast intro: wq_reach.intros wq_step.queue)
  have run: "wq_run ?s [CancelBegin 5, WorkerFinish 0 5] ?m"
    by (rule wq_run.intros wq_step.cancel_begin wq_step.finish [OF e(2)])+
  have "wq_step (CancelReturn 5) ?m (cancel_work_end 5 ?m)" by (rule wq_step.cancel_end [OF e(3)])
  from cancel_work_sync_quiesces [OF r run this _ wq_run.nil] show ?thesis using e(1) by (simp add: Let_def)
qed

text \<open>
  With two cancellations of one item under way the proviso matters: the first to return clears
  the mark, and the other one may find the item queued again when it wakes up, and return.
\<close>

lemma second_canceller_returns_queued:
  "\<exists>t. wq_run wq_start [QueueWork 0 5, WorkerTake 0, CancelBegin 5, CancelBegin 5, WorkerFinish 0 5,
         CancelReturn 5, QueueWork 0 5, CancelReturn 5] t
     \<and> 5 \<in> set (q_items (queues t 0))"
proof -
  let ?s1 = "snd (queue_work_locked 0 5 wq_start)" let ?s2 = "worker_take 0 ?s1"
  let ?s3 = "snd (cancel_work_begin 5 (snd (cancel_work_begin 5 ?s2)))" let ?s4 = "worker_finish 0 5 ?s3"
  let ?s5 = "snd (queue_work_locked 0 5 (cancel_work_end 5 ?s4))"
  note ev = wq_eval worker_finish_def cancel_work_end_def cancel_work_blocked_def
  have g: "q_worker (queues ?s1 0) = Idle" "q_items (queues ?s1 0) \<noteq> []"
    "q_worker (queues ?s3 0) = Executing 5" "\<not> cancel_work_blocked 5 ?s4" "\<not> cancel_work_blocked 5 ?s5"
    by (simp_all add: ev)
  have "wq_run wq_start [QueueWork 0 5, WorkerTake 0, CancelBegin 5, CancelBegin 5, WorkerFinish 0 5,
      CancelReturn 5, QueueWork 0 5, CancelReturn 5] (cancel_work_end 5 ?s5)"
    by (rule wq_run.intros wq_step.queue wq_step.take [OF g(1,2)] wq_step.cancel_begin
        wq_step.finish [OF g(3)] wq_step.cancel_end [OF g(4)] wq_step.cancel_end [OF g(5)])+
  moreover have "5 \<in> set (q_items (queues (cancel_work_end 5 ?s5) 0))" by (simp add: ev)
  ultimately show ?thesis by blast
qed

text \<open>
  \<open>destroy_workqueue\<close> frees only a drained queue: when the worker has set \<open>done\<close>, which is
  what the destroyer waits for, the queue is empty, nothing is executing on it, no item is
  marked queued for it, and every later \<open>queue_work\<close> to it is refused without effect.
\<close>

theorem destroyed_queue_drained:
  assumes "wq_reach s" and "q_done (queues s q)"
  shows "q_items (queues s q) = [] \<and> q_active (queues s q) = 0
     \<and> (\<forall>w. q_worker (queues s q) \<noteq> Executing w)
     \<and> (\<forall>w. \<not> (w_pending (works s w) = 1 \<and> w_wq (works s w) = Some q))
     \<and> queue_work lk (Some q) (Some w) s = (False, s)"
proof -
  have inv: "wq_inv s" by (rule wq_reach_inv [OF assms(1)])
  have d: "\<not> q_running (queues s q)" "q_items (queues s q) = []" "q_worker (queues s q) = Gone"
    using wq_invD(8,9) [OF inv, of q] assms(2) by auto
  then show ?thesis
    using wq_invD(1) [OF inv, of _ q] wq_invD(7) [OF inv, of q]
    by (auto simp: queue_work_def queue_work_locked_stopped)
qed

theorem destroyed_queue_drained_witness:
  "q_done (queues (worker_exit 0 (destroy_workqueue_begin 0 wq_start)) 0)
     \<and> queue_work True (Some 0) (Some 3) (worker_exit 0 (destroy_workqueue_begin 0 wq_start))
       = (False, worker_exit 0 (destroy_workqueue_begin 0 wq_start))"
proof -
  let ?s1 = "destroy_workqueue_begin 0 wq_start"
  have "wq_step (WorkerLeave 0) ?s1 (worker_exit 0 ?s1)" by (rule wq_step.leave) (simp_all add: wq_eval)
  then have "wq_reach (worker_exit 0 ?s1)" by (blast intro: wq_reach.intros wq_step.destroy_begin)
  moreover have "q_done (queues (worker_exit 0 ?s1) 0)" by (simp add: wq_eval)
  ultimately show ?thesis using destroyed_queue_drained by blast
qed

text \<open>
  flushing waits for the right thing: \<open>flush_work\<close> goes on sleeping exactly while the item is
  pending or some worker executes it, and when \<open>flush_workqueue\<close> returns nothing is linked in
  the queue and its worker executes nothing.
\<close>

theorem flush_waits_for_work:
  assumes "wq_reach s"
  shows "(flush_work_blocked w s \<longleftrightarrow> w_pending (works s w) \<noteq> 0 \<or> (\<exists>q. q_worker (queues s q) = Executing w))
     \<and> (\<not> flush_workqueue_blocked q s \<longrightarrow>
          (\<forall>v. v \<notin> set (q_items (queues s q)) \<and> q_worker (queues s q) \<noteq> Executing v))"
proof -
  have inv: "wq_inv s" by (rule wq_reach_inv [OF assms])
  show ?thesis
    using executing_iff_worker [OF inv, of w] wq_invD(7) [OF inv, of q] by (auto simp: flush_work_blocked_def flush_workqueue_blocked_def)
qed

theorem flush_waits_for_work_witness:
  "flush_work_blocked 5 (snd (queue_work_locked 0 5 wq_start))
     \<longleftrightarrow> w_pending (works (snd (queue_work_locked 0 5 wq_start)) 5) \<noteq> 0
         \<or> (\<exists>q. q_worker (queues (snd (queue_work_locked 0 5 wq_start)) q) = Executing 5)"
proof -
  have "wq_reach (snd (queue_work_locked 0 5 wq_start))" by (blast intro: wq_reach.intros wq_step.queue)
  from flush_waits_for_work [OF this] show ?thesis by blast
qed

end
