(* ===== verification/Firmware.thy ===== *)
theory Firmware
  imports Prelude
begin

text \<open>
  Firmware loading: \<open>rtw88_firmware.c\<close>, the table of \<open>fw_blobs.c\<close> and \<open>fw_blobs.h\<close>. The
  compressed bytes of the blobs and zlib's \<open>inflate\<close> are parameters; \<open>inflate_ok\<close> states what
  the loader relies on from zlib. The kernel allocator is the sequence of its outcomes, and every
  function also returns the allocations and frees it made with their sizes, since \<open>IOFree\<close> must
  be given the size that \<open>IOMalloc\<close> was.
\<close>

section \<open>The blob table\<close>

record rtw88_fw_blob =
  blob_name :: string
  compressed_size :: nat
  original_size :: nat

definition rtw88_fw_blobs :: "rtw88_fw_blob list" where
  "rtw88_fw_blobs =
     [\<lparr>blob_name = ''rtw8812a_fw.bin'', compressed_size = 17288, original_size = 27030\<rparr>,
      \<lparr>blob_name = ''rtw8814a_fw.bin'', compressed_size = 37687, original_size = 68320\<rparr>,
      \<lparr>blob_name = ''rtw8821a_fw.bin'', compressed_size = 20218, original_size = 31898\<rparr>,
      \<lparr>blob_name = ''rtw8821c_fw.bin'', compressed_size = 56993, original_size = 139472\<rparr>,
      \<lparr>blob_name = ''rtw8822b_fw.bin'', compressed_size = 87223, original_size = 161240\<rparr>,
      \<lparr>blob_name = ''rtw8822c_fw.bin'', compressed_size = 92712, original_size = 202600\<rparr>]"

section \<open>Decompression\<close>

datatype mem_event = Malloc nat | Free nat

text \<open>
  The outcome of a decompression by zlib: the codes of \<open>inflateInit\<close>, \<open>inflate\<close> and
  \<open>inflateEnd\<close>, and the bytes written. \<open>Z_OK\<close> is 0 and \<open>Z_STREAM_END\<close> is 1.
\<close>

record zlib_run =
  z_init :: int
  z_inflate :: int
  z_end :: int
  z_out :: bytes

type_synonym zlib = "bytes \<Rightarrow> nat \<Rightarrow> zlib_run"

definition rtw88_decompress :: "zlib \<Rightarrow> nat \<Rightarrow> bytes \<Rightarrow> int \<times> bytes" where
  "rtw88_decompress z dest_len src =
     (let r = z src dest_len
      in if z_init r \<noteq> 0 then (z_init r, [])
         else if z_inflate r \<noteq> 1 then (z_inflate r, [])
         else (if z_end r = 0 then 0 else z_end r, z_out r))"

text \<open>The allocator that zlib is given: a 32-bit size, and a header that remembers it.\<close>

definition rtw88_zcalloc :: "u32 \<Rightarrow> u32 \<Rightarrow> u32" where
  "rtw88_zcalloc items sz = items * sz + 8"

definition rtw88_zcfree :: "u32 option \<Rightarrow> mem_event list" where
  "rtw88_zcfree ptr = (case ptr of None \<Rightarrow> [] | Some alloc_size \<Rightarrow> [Free (unat alloc_size)])"

section \<open>Loading\<close>

record firmware =
  fw_size :: nat
  fw_data :: bytes
  fw_alloc_size :: nat

definition sizeof_firmware :: nat where
  "sizeof_firmware = 24"

text \<open>
  One blob: the buffer of four times the compressed size, the decompression, the structure.
  \<open>mem_ok\<close> and \<open>fw_ok\<close> are the outcomes of the two allocations.
\<close>

definition load_blob :: "zlib \<Rightarrow> (string \<Rightarrow> bytes) \<Rightarrow> bool \<Rightarrow> bool \<Rightarrow> rtw88_fw_blob \<Rightarrow> firmware option \<times> mem_event list" where
  "load_blob z blob_data mem_ok fw_ok b =
     (let alloc = compressed_size b * 4; out_len = alloc mod 2 ^ 32
      in if \<not> mem_ok then (None, [])
         else (case rtw88_decompress z out_len (take (compressed_size b) (blob_data (blob_name b))) of
                 (err, out) \<Rightarrow>
                   if err \<noteq> 0 then (None, [Malloc alloc, Free alloc])
                   else if \<not> fw_ok then (None, [Malloc alloc, Free alloc])
                   else (Some \<lparr>fw_size = length out, fw_data = out, fw_alloc_size = alloc\<rparr>,
                         [Malloc alloc, Malloc sizeof_firmware])))"

fun load_fw_from_blob :: "zlib \<Rightarrow> (string \<Rightarrow> bytes) \<Rightarrow> bool \<Rightarrow> bool \<Rightarrow> rtw88_fw_blob list \<Rightarrow> string
    \<Rightarrow> firmware option \<times> mem_event list" where
  "load_fw_from_blob z d mem_ok fw_ok [] base = (None, [])"
| "load_fw_from_blob z d mem_ok fw_ok (b # bs) base =
     (if blob_name b \<noteq> base then load_fw_from_blob z d mem_ok fw_ok bs base
      else load_blob z d mem_ok fw_ok b)"

text \<open>The part of a path after its last slash, found in one pass over the string.\<close>

fun base_name :: "string \<Rightarrow> string \<Rightarrow> string" where
  "base_name base [] = base"
| "base_name base (c # cs) = base_name (if c = CHR ''/'' then cs else base) cs"

definition load_fw :: "zlib \<Rightarrow> (string \<Rightarrow> bytes) \<Rightarrow> bool \<Rightarrow> bool \<Rightarrow> string \<Rightarrow> firmware option \<times> mem_event list" where
  "load_fw z d mem_ok fw_ok name = load_fw_from_blob z d mem_ok fw_ok rtw88_fw_blobs (base_name name name)"

text \<open>
  \<open>request_firmware_nowait\<close>: the return code, and what the continuation was called with, if it
  was called (a null firmware included).
\<close>

definition request_firmware_nowait :: "zlib \<Rightarrow> (string \<Rightarrow> bytes) \<Rightarrow> bool \<Rightarrow> bool \<Rightarrow> string \<Rightarrow> bool
    \<Rightarrow> int \<times> firmware option option \<times> mem_event list" where
  "request_firmware_nowait z d mem_ok fw_ok name cont =
     (if \<not> cont then (-22, None, [])
      else let (fw, ev) = load_fw z d mem_ok fw_ok name in (0, Some fw, ev))"

definition release_firmware :: "firmware option \<Rightarrow> mem_event list" where
  "release_firmware fw =
     (case fw of None \<Rightarrow> [] | Some f \<Rightarrow> [Free (fw_alloc_size f), Free sizeof_firmware])"

definition rtw88_load_firmware_sync :: "zlib \<Rightarrow> (string \<Rightarrow> bytes) \<Rightarrow> bool \<Rightarrow> bool \<Rightarrow> string
    \<Rightarrow> int \<times> firmware option \<times> mem_event list" where
  "rtw88_load_firmware_sync z d mem_ok fw_ok name =
     (let (fw, ev) = load_fw z d mem_ok fw_ok name in (if fw \<noteq> None then 0 else -2, fw, ev))"

section \<open>Lemmas\<close>

text \<open>What zlib promises for a stream that holds \<open>orig\<close>: room for it makes the run succeed.\<close>

definition inflate_ok :: "zlib \<Rightarrow> bytes \<Rightarrow> bytes \<Rightarrow> bool" where
  "inflate_ok z src orig \<longleftrightarrow> (\<forall>room. length orig \<le> room \<longrightarrow>
     z src room = \<lparr>z_init = 0, z_inflate = 1, z_end = 0, z_out = orig\<rparr>)"

lemma base_name_no_slash: "CHR ''/'' \<notin> set s \<Longrightarrow> base_name base s = base"
  by (induction s arbitrary: base) auto

lemma base_name_path: "CHR ''/'' \<notin> set s \<Longrightarrow> base_name base (dir @ CHR ''/'' # s) = s"
  by (induction dir arbitrary: base) (auto simp: base_name_no_slash)

lemma blob_names_plain: "b \<in> set rtw88_fw_blobs \<Longrightarrow> CHR ''/'' \<notin> set (blob_name b)"
  by (auto simp: rtw88_fw_blobs_def)

lemma blob_names_distinct: "distinct (map blob_name rtw88_fw_blobs)"
  by (simp add: rtw88_fw_blobs_def)

lemma blob_room: "b \<in> set rtw88_fw_blobs \<Longrightarrow>
  original_size b \<le> compressed_size b * 4 \<and> compressed_size b * 4 < 2 ^ 32"
  by (auto simp: rtw88_fw_blobs_def)

lemma load_fw_from_blob_find:
  "distinct (map blob_name bs) \<Longrightarrow> b \<in> set bs \<Longrightarrow>
   load_fw_from_blob z d m f bs (blob_name b) = load_blob z d m f b"
  by (induction bs) auto

text \<open>Outstanding allocations after a sequence of events.\<close>

definition outstanding :: "mem_event list \<Rightarrow> nat list \<Rightarrow> bool" where
  "outstanding evs sizes \<longleftrightarrow>
     (\<forall>n. count_list evs (Malloc n) = count_list evs (Free n) + count_list sizes n)"

lemma load_fw_from_blob_outstanding:
  "load_fw_from_blob z d m f bs base = (fw, ev) \<Longrightarrow>
   outstanding ev (case fw of None \<Rightarrow> [] | Some x \<Rightarrow> [fw_alloc_size x, sizeof_firmware])"
  by (induction bs)
    (auto simp: load_blob_def outstanding_def Let_def split: if_splits prod.splits)

section \<open>Properties\<close>

text \<open>
  every firmware image of the table can be loaded: for each blob, whatever directory the driver
  asks for it in, the loader finds that blob and no other, the buffer of four times the
  compressed size has room for the image, and with a zlib that inflates the embedded stream to
  the image the result is exactly the image, of the size the table records.
\<close>

theorem firmware_loads_every_blob:
  assumes "b \<in> set rtw88_fw_blobs"
    and "inflate_ok z (take (compressed_size b) (d (blob_name b))) orig"
    and "length orig = original_size b"
  shows "\<exists>ev. rtw88_load_firmware_sync z d True True (dir @ ''/'' @ blob_name b) =
     (0, Some \<lparr>fw_size = original_size b, fw_data = orig, fw_alloc_size = compressed_size b * 4\<rparr>, ev)"
proof -
  have "load_fw z d True True (dir @ ''/'' @ blob_name b) = load_blob z d True True b"
    using load_fw_from_blob_find [OF blob_names_distinct assms(1)] base_name_path [OF blob_names_plain [OF assms(1)]]
    by (simp add: load_fw_def)
  moreover have "rtw88_decompress z (compressed_size b * 4 mod 2 ^ 32) (take (compressed_size b) (d (blob_name b))) = (0, orig)"
    using assms(2,3) blob_room [OF assms(1)] by (simp add: rtw88_decompress_def inflate_ok_def)
  ultimately show ?thesis
    using assms(3) by (simp add: rtw88_load_firmware_sync_def load_blob_def Let_def)
qed

theorem firmware_loads_every_blob_witness:
  "\<exists>ev. rtw88_load_firmware_sync
       (\<lambda>_ _. \<lparr>z_init = 0, z_inflate = 1, z_end = 0, z_out = replicate 27030 7\<rparr>) (\<lambda>_. [1]) True True
       (''rtw88'' @ ''/'' @ ''rtw8812a_fw.bin'') =
     (0, Some \<lparr>fw_size = 27030, fw_data = replicate 27030 7, fw_alloc_size = 69152\<rparr>, ev)"
proof -
  let ?b = "\<lparr>blob_name = ''rtw8812a_fw.bin'', compressed_size = 17288, original_size = 27030\<rparr>"
  let ?z = "\<lambda>_ _. \<lparr>z_init = 0, z_inflate = 1, z_end = 0, z_out = replicate 27030 (7 :: u8)\<rparr>"
  have "?b \<in> set rtw88_fw_blobs" by (simp add: rtw88_fw_blobs_def)
  moreover have "inflate_ok ?z s (replicate 27030 7)" for s by (simp add: inflate_ok_def)
  ultimately have "\<exists>ev. rtw88_load_firmware_sync ?z (\<lambda>_. [1]) True True (''rtw88'' @ ''/'' @ blob_name ?b) =
     (0, Some \<lparr>fw_size = original_size ?b, fw_data = replicate 27030 7, fw_alloc_size = compressed_size ?b * 4\<rparr>, ev)"
    by (intro firmware_loads_every_blob) simp_all
  then show ?thesis by simp
qed

text \<open>
  loading never leaks and frees with the right sizes: whatever zlib and the allocator do,
  including a failing decompression or a failing allocation at any point, a load that fails
  has freed every block it allocated with the size it was allocated with, and a load that
  succeeds followed by \<open>release_firmware\<close> has too.
\<close>

theorem firmware_memory_balanced:
  assumes "load_fw z d mem_ok fw_ok name = (fw, ev)"
  shows "outstanding (ev @ release_firmware fw) []"
  using load_fw_from_blob_outstanding [OF assms [unfolded load_fw_def]]
  by (auto simp: outstanding_def release_firmware_def split: option.splits)

theorem firmware_memory_balanced_witness:
  "\<exists>fw ev. load_fw (\<lambda>_ _. \<lparr>z_init = 0, z_inflate = -3, z_end = 0, z_out = []\<rparr>) (\<lambda>_. []) True True ''x/rtw8822c_fw.bin'' = (fw, ev)
     \<and> outstanding (ev @ release_firmware fw) []"
  by (metis firmware_memory_balanced surj_pair)

end
