(* ===== verification/Sync.thy ===== *)
theory Sync
  imports Prelude
begin

text \<open>
  Atomics, completions, semaphores and moving averages: \<open>linux/atomic.h\<close>,
  \<open>linux/completion.h\<close>, \<open>linux/mutex.h\<close>, \<open>linux/average.h\<close> and
  \<open>atomic_dec_if_positive\<close> of \<open>rtw88_compat.c\<close>. A C \<open>int\<close> is a 32-bit word read as signed.
  Each critical section is a function; a sleeping loop is the condition it waits on.
\<close>

section \<open>Atomic integers\<close>

type_synonym atomic_t = u32
type_synonym atomic_long_t = u64

definition atomic_read :: "atomic_t \<Rightarrow> u32" where
  "atomic_read v = v"

definition atomic_set :: "u32 \<Rightarrow> atomic_t \<Rightarrow> atomic_t" where
  "atomic_set i v = i"

definition atomic_inc :: "atomic_t \<Rightarrow> u32 \<times> atomic_t" where
  "atomic_inc v = (v + 1, v + 1)"

definition atomic_dec :: "atomic_t \<Rightarrow> u32 \<times> atomic_t" where
  "atomic_dec v = (v - 1, v - 1)"

definition atomic_inc_return :: "atomic_t \<Rightarrow> u32 \<times> atomic_t" where
  "atomic_inc_return v = (v + 1, v + 1)"

definition atomic_dec_return :: "atomic_t \<Rightarrow> u32 \<times> atomic_t" where
  "atomic_dec_return v = (v - 1, v - 1)"

definition atomic_dec_and_test :: "atomic_t \<Rightarrow> bool \<times> atomic_t" where
  "atomic_dec_and_test v = (v - 1 = 0, v - 1)"

definition atomic_inc_and_test :: "atomic_t \<Rightarrow> bool \<times> atomic_t" where
  "atomic_inc_and_test v = (v + 1 = 0, v + 1)"

definition atomic_add_return :: "u32 \<Rightarrow> atomic_t \<Rightarrow> u32 \<times> atomic_t" where
  "atomic_add_return i v = (v + i, v + i)"

definition atomic_sub_return :: "u32 \<Rightarrow> atomic_t \<Rightarrow> u32 \<times> atomic_t" where
  "atomic_sub_return i v = (v - i, v - i)"

definition atomic_cmpxchg :: "u32 \<Rightarrow> u32 \<Rightarrow> atomic_t \<Rightarrow> u32 \<times> atomic_t" where
  "atomic_cmpxchg old new v = (v, if v = old then new else v)"

definition atomic_long_read :: "atomic_long_t \<Rightarrow> u64" where
  "atomic_long_read v = v"

definition atomic_long_set :: "u64 \<Rightarrow> atomic_long_t \<Rightarrow> atomic_long_t" where
  "atomic_long_set i v = i"

definition atomic_long_inc :: "atomic_long_t \<Rightarrow> u64 \<times> atomic_long_t" where
  "atomic_long_inc v = (v + 1, v + 1)"

definition atomic_long_dec :: "atomic_long_t \<Rightarrow> u64 \<times> atomic_long_t" where
  "atomic_long_dec v = (v - 1, v - 1)"

definition xchg :: "u64 \<Rightarrow> u64 \<Rightarrow> u64 \<times> u64" where
  "xchg val v = (v, val)"

text \<open>
  \<open>atomic_dec_if_positive\<close> among other threads: \<open>seen\<close> lists the values that the counter has at
  the successive compare-and-swaps. The result is the returned value and, when the swap
  succeeded, the pair of values it replaced and stored; \<open>None\<close> when the loop is still retrying
  at the end of the list.
\<close>

fun dec_if_positive_loop :: "u32 \<Rightarrow> atomic_t list \<Rightarrow> (u32 \<times> (u32 \<times> u32) option) option" where
  "dec_if_positive_loop c seen =
     (if sint c \<le> 0 then Some (c - 1, None)
      else (case seen of [] \<Rightarrow> None
            | v # vs \<Rightarrow>
                (let (old, v') = atomic_cmpxchg c (c - 1) v
                 in if old = c then Some (c - 1, Some (v, v')) else dec_if_positive_loop old vs)))"

definition atomic_dec_if_positive :: "atomic_t \<Rightarrow> atomic_t list \<Rightarrow> (u32 \<times> (u32 \<times> u32) option) option" where
  "atomic_dec_if_positive v seen = dec_if_positive_loop (atomic_read v) seen"

declare dec_if_positive_loop.simps [simp del]

section \<open>Completions\<close>

record completion =
  c_done :: u32
  c_lock :: bool

definition init_completion :: "bool \<Rightarrow> completion" where
  "init_completion lock_ok = \<lparr>c_done = 0, c_lock = lock_ok\<rparr>"

definition complete :: "completion \<Rightarrow> completion" where
  "complete c = c\<lparr>c_done := c_done c + 1\<rparr>"

definition complete_all :: "completion \<Rightarrow> completion" where
  "complete_all c = c\<lparr>c_done := NOT 0\<rparr>"

text \<open>\<open>None\<close>: the waiter sleeps.\<close>

definition wait_for_completion :: "completion \<Rightarrow> completion option" where
  "wait_for_completion c =
     (if c_done c = 0 then None
      else Some (if c_done c \<noteq> NOT 0 then c\<lparr>c_done := c_done c - 1\<rparr> else c))"

text \<open>
  The polling loop of \<open>wait_for_completion_timeout\<close>: \<open>views\<close> lists, for each turn, the completion
  as found under the lock and whether the deadline had passed when it was not done; the result
  is the return value with the completion left behind.
\<close>

fun wait_for_completion_timeout :: "(completion \<times> bool) list \<Rightarrow> (nat \<times> completion) option" where
  "wait_for_completion_timeout [] = None"
| "wait_for_completion_timeout ((c, late) # views) =
     (case wait_for_completion c of
        Some c' \<Rightarrow> Some (1, c')
      | None \<Rightarrow> if late then Some (0, c) else wait_for_completion_timeout views)"

definition completion_done :: "completion \<Rightarrow> bool" where
  "completion_done c \<longleftrightarrow> 0 < c_done c"

definition reinit_completion :: "completion \<Rightarrow> completion" where
  "reinit_completion c = c\<lparr>c_done := 0\<rparr>"

section \<open>Mutexes and semaphores\<close>

text \<open>A mutex is its lock, free or held; \<open>None\<close>: the caller blocks or unlocks what is not held.\<close>

definition mutex_trylock :: "bool \<Rightarrow> bool \<times> bool" where
  "mutex_trylock held = (\<not> held, True)"

definition mutex_lock :: "bool \<Rightarrow> bool option" where
  "mutex_lock held = (if held then None else Some True)"

definition mutex_unlock :: "bool \<Rightarrow> bool option" where
  "mutex_unlock held = (if held then Some False else None)"

definition mutex_is_locked :: "bool \<Rightarrow> bool \<times> bool" where
  "mutex_is_locked held = (let (r, h) = mutex_trylock held in (\<not> r, if r then False else h))"

definition down :: "u32 \<Rightarrow> u32 option" where
  "down count = (if sint count \<le> 0 then None else Some (count - 1))"

definition down_trylock :: "u32 \<Rightarrow> int \<times> u32" where
  "down_trylock count = (if sint count > 0 then (0, count - 1) else (-1, count))"

definition up :: "u32 \<Rightarrow> u32" where
  "up count = count + 1"

section \<open>Moving averages\<close>

text \<open>
  The \<open>DECLARE_EWMA\<close> family for given precision and reciprocal weight. Shifts of an
  \<open>unsigned long\<close> by a negative amount or by its width are undefined.
\<close>

definition ewma_init :: u64 where
  "ewma_init = 0"

definition ewma_read :: "nat \<Rightarrow> u64 \<Rightarrow> u64 option" where
  "ewma_read p e = (if p < 64 then Some (drop_bit p e) else None)"

definition ewma_add :: "nat \<Rightarrow> nat \<Rightarrow> u64 \<Rightarrow> u64 \<Rightarrow> u64 option" where
  "ewma_add p weight_rcp val e =
     (if e = 0 then (if p < 64 then Some (push_bit p val) else None)
      else if weight_rcp < 64 \<and> weight_rcp \<le> p \<and> p - weight_rcp < 64
           then Some ((e - drop_bit weight_rcp e) + push_bit (p - weight_rcp) val)
      else None)"

section \<open>Lemmas\<close>

lemma not_zero_u32: "(NOT 0 :: u32) = of_nat (2 ^ 32 - 1)"
  by simp

lemma c_done_completes: "c_done ((complete ^^ n) c) = c_done c + of_nat n"
  by (induction n) (simp_all add: complete_def add.assoc add.commute)

lemma waits_after_all:
  "c_done c = NOT 0 \<Longrightarrow> wait_for_completion c = Some c"
  by (simp add: wait_for_completion_def)


fun wait_n :: "nat \<Rightarrow> completion \<Rightarrow> completion option" where
  "wait_n 0 c = Some c"
| "wait_n (Suc n) c = (case wait_for_completion c of None \<Rightarrow> None | Some c' \<Rightarrow> wait_n n c')"

lemma wait_step:
  assumes "c_done c = of_nat (Suc n)" "Suc n < 2 ^ 32 - 1"
  shows "wait_for_completion c = Some (c\<lparr>c_done := of_nat n\<rparr>)"
proof -
  have "unat (of_nat (Suc n) :: u32) = Suc n"
    using assms(2) by (intro unat_of_nat_small) simp
  moreover have "unat (NOT 0 :: u32) = 2 ^ 32 - 1"
    by (simp only: not_zero_u32, rule unat_of_nat_small) simp
  ultimately have "c_done c \<noteq> 0" "c_done c \<noteq> NOT 0"
    using assms by (metis unat_0 nat.distinct(1), metis less_irrefl)
  then show ?thesis
    using assms(1) by (simp add: wait_for_completion_def)
qed

lemma wait_n_counts:
  assumes "c_done c = of_nat n" "k \<le> n" "n < 2 ^ 32 - 1"
  shows "wait_n k c = Some (c\<lparr>c_done := of_nat (n - k)\<rparr>)"
  using assms
proof (induction k arbitrary: c n)
  case 0
  then show ?case by (metis wait_n.simps(1) diff_zero completion.surjective completion.update_convs(1))
next
  case (Suc k)
  then obtain m where n: "n = Suc m" by (cases n) auto
  have "wait_n k (c\<lparr>c_done := of_nat m\<rparr>) = Some (c\<lparr>c_done := of_nat (m - k)\<rparr>)"
    using Suc.IH [of "c\<lparr>c_done := of_nat m\<rparr>" m] Suc.prems n by simp
  then show ?case
    using wait_step [of c m] Suc.prems n by simp
qed

lemma wait_n_all: "c_done c = NOT 0 \<Longrightarrow> wait_n k c = Some c"
  by (induction k) (simp_all add: waits_after_all)

lemma wait_n_exhausted:
  assumes "c_done c = of_nat n" "n < 2 ^ 32 - 1"
  shows "wait_n (Suc n) c = None"
  using assms
proof (induction n arbitrary: c)
  case 0
  then show ?case by (simp add: wait_for_completion_def)
next
  case (Suc n)
  have "wait_n (Suc n) (c\<lparr>c_done := of_nat n\<rparr>) = None"
    using Suc.prems by (intro Suc.IH) auto
  then show ?case
    using wait_step [of c n] Suc.prems by (simp del: of_nat_Suc)
qed

text \<open>
  A completion counts. After \<open>reinit_completion\<close> and \<open>n\<close> calls of \<open>complete\<close>, fewer than
  2^32 - 1, exactly \<open>n\<close> waits return and the next one sleeps; after \<open>complete_all\<close> any number of
  waits return and leave the completion as it is, until it is initialised again.
\<close>

theorem completion_counts:
  assumes "n < 2 ^ 32 - 1"
  shows "(k \<le> n \<longrightarrow> (\<exists>c'. wait_n k ((complete ^^ n) (reinit_completion c)) = Some c'
                            \<and> c_done c' = of_nat (n - k)))
       \<and> wait_n (Suc n) ((complete ^^ n) (reinit_completion c)) = None
       \<and> wait_n k (complete_all c) = Some (complete_all c)
       \<and> wait_for_completion (reinit_completion (complete_all c)) = None"
proof -
  let ?d = "(complete ^^ n) (reinit_completion c)"
  have d: "c_done ?d = of_nat n"
    by (simp add: c_done_completes reinit_completion_def)
  have "c_done (complete_all c) = NOT 0" "c_done (reinit_completion (complete_all c)) = 0"
    by (simp_all add: complete_all_def reinit_completion_def)
  moreover from this have "wait_for_completion (reinit_completion (complete_all c)) = None"
    by (simp add: wait_for_completion_def)
  ultimately show ?thesis
    using wait_n_counts [OF d _ assms, of k] wait_n_exhausted [OF d assms] wait_n_all [of "complete_all c" k]
    by simp
qed

theorem completion_counts_witness:
  "(\<exists>c'. wait_n 1 ((complete ^^ 2) (reinit_completion (init_completion True))) = Some c'
      \<and> c_done c' = of_nat (2 - 1))
   \<and> wait_n (Suc 2) ((complete ^^ 2) (reinit_completion (init_completion True))) = None"
  using completion_counts [of 2 1 "init_completion True"] by simp

section \<open>The conditional decrement\<close>

lemma dec_loop_result:
  assumes "dec_if_positive_loop c seen = Some (r, swap)"
  shows "\<exists>v. (v = c \<or> v \<in> set seen) \<and> r = v - 1
           \<and> (case swap of None \<Rightarrow> sint v \<le> 0 | Some (old, new) \<Rightarrow> old = v \<and> new = v - 1 \<and> 0 < sint v)"
  using assms
proof (induction c seen rule: dec_if_positive_loop.induct)
  case (1 c seen)
  show ?case
  proof (cases "sint c \<le> 0")
    case True
    then show ?thesis using "1.prems" by (auto simp: dec_if_positive_loop.simps [of c])
  next
    case pos: False
    then obtain v vs where s: "seen = v # vs"
      using "1.prems" by (cases seen) (auto simp: dec_if_positive_loop.simps [of c])
    show ?thesis
    proof (cases "v = c")
      case True
      then show ?thesis using "1.prems" pos s
        by (auto simp: dec_if_positive_loop.simps [of c] atomic_cmpxchg_def)
    next
      case False
      then have "dec_if_positive_loop v vs = Some (r, swap)"
        using "1.prems" pos s by (simp add: dec_if_positive_loop.simps [of c] atomic_cmpxchg_def)
      with "1.IH" [OF pos s refl, of v v] False s show ?thesis
        by (auto simp: atomic_cmpxchg_def)
    qed
  qed
qed

lemma dec_loop_returns:
  "v \<in> set seen \<Longrightarrow> sint v \<le> 0 \<Longrightarrow> \<exists>r. dec_if_positive_loop c seen = Some r"
proof (induction seen arbitrary: c)
  case Nil
  then show ?case by simp
next
  case (Cons x seen)
  then show ?case
    by (cases "x = v") (auto simp: dec_if_positive_loop.simps [of c] dec_if_positive_loop.simps [of v]
        atomic_cmpxchg_def)
qed

lemma dec_loop_stable:
  "dec_if_positive_loop c (c # seen)
     = Some (c - 1, if sint c \<le> 0 then None else Some (c, c - 1))"
  by (simp add: dec_if_positive_loop.simps [of c] atomic_cmpxchg_def)

text \<open>
  Whatever other threads do to the counter between the compare-and-swaps of
  \<open>atomic_dec_if_positive\<close>, a call that returns \<open>r\<close> saw a value \<open>r + 1\<close> of the counter; it stores
  nothing when that value was zero or negative, and otherwise replaced exactly that value,
  a positive one, by \<open>r\<close>. An undisturbed call returns at its first swap.
\<close>

theorem atomic_dec_if_positive_safe:
  "(atomic_dec_if_positive v seen = Some (r, swap) \<longrightarrow>
      (\<exists>w \<in> insert v (set seen). r = w - 1
         \<and> (swap = None \<and> sint w \<le> 0 \<or> swap = Some (w, w - 1) \<and> 0 < sint w)))
   \<and> atomic_dec_if_positive v (v # seen)
       = Some (v - 1, if sint v \<le> 0 then None else Some (v, v - 1))"
proof (intro conjI impI)
  assume "atomic_dec_if_positive v seen = Some (r, swap)"
  then have "dec_if_positive_loop v seen = Some (r, swap)"
    by (simp add: atomic_dec_if_positive_def atomic_read_def)
  from dec_loop_result [OF this] show "\<exists>w \<in> insert v (set seen). r = w - 1
      \<and> (swap = None \<and> sint w \<le> 0 \<or> swap = Some (w, w - 1) \<and> 0 < sint w)"
    by (cases swap) auto
next
  show "atomic_dec_if_positive v (v # seen)
      = Some (v - 1, if sint v \<le> 0 then None else Some (v, v - 1))"
    by (simp only: atomic_dec_if_positive_def atomic_read_def dec_loop_stable)
qed

theorem atomic_dec_if_positive_safe_witness:
  "\<exists>w \<in> insert 3 (set [2, 2 :: u32]). (1 :: u32) = w - 1
     \<and> (Some (2, 1) = (None :: (u32 \<times> u32) option) \<and> sint w \<le> 0
        \<or> Some (2 :: u32, 1 :: u32) = Some (w, w - 1) \<and> 0 < sint w)"
proof -
  have "atomic_dec_if_positive 3 [2, 2] = Some (1, Some (2, 1))"
    by (simp add: atomic_dec_if_positive_def atomic_read_def dec_if_positive_loop.simps
        atomic_cmpxchg_def)
  then show ?thesis
    using atomic_dec_if_positive_safe [of 3 "[2, 2]" 1 "Some (2, 1)"] by (elim conjE mp)
qed

section \<open>The averages stay in range\<close>

lemma ewma_step_bound:
  fixes e M :: nat
  assumes "e \<le> M * 2 ^ p" "v \<le> M" "w \<le> p"
  shows "e - e div 2 ^ w + v * 2 ^ (p - w) \<le> M * 2 ^ p"
proof -
  let ?D = "M * 2 ^ (p - w)"
  have Mp: "M * 2 ^ p = ?D * 2 ^ w"
    using assms(3) by (simp add: mult.assoc flip: power_add)
  define q where "q = e div 2 ^ w"
  have v: "v * 2 ^ (p - w) \<le> ?D"
    using assms(2) by simp
  have q: "q \<le> ?D"
    using assms(1) unfolding Mp q_def by (metis div_le_mono nonzero_mult_div_cancel_right power_not_zero zero_neq_numeral)
  show ?thesis
  proof (cases "q = ?D")
    case True
    moreover have "q \<le> e" by (simp add: q_def)
    ultimately have "e - q + v * 2 ^ (p - w) \<le> e" using v by linarith
    then show ?thesis using assms(1) by (simp add: q_def)
  next
    case False
    with q have q1: "q + 1 \<le> ?D" by simp
    have "e < (q + 1) * 2 ^ w"
      using dividend_less_div_times [of "2 ^ w" e] unfolding q_def by (simp add: algebra_simps)
    then have e: "e + 1 \<le> (q + 1) * 2 ^ w" by simp
    obtain d where d: "?D = q + 1 + d" using q1 le_Suc_ex by blast
    obtain t where t: "(2::nat) ^ w = Suc t" by (cases "(2::nat) ^ w") auto
    have "e - q + v * 2 ^ (p - w) \<le> (q + 1) * 2 ^ w - 1 - q + ?D"
      using e v by (intro add_mono diff_le_mono) auto
    also have "\<dots> \<le> ?D * 2 ^ w"
      unfolding d t by (simp add: algebra_simps)
    finally show ?thesis unfolding Mp q_def .
  qed
qed

lemma unat_drop_bit: "unat (drop_bit n w) = unat w div 2 ^ n" for w :: u64
  using unsigned_less [of w, where 'a = nat]
  by (subst unsigned_drop_bit_eq) (simp add: take_bit_eq_mod drop_bit_eq_div)

text \<open>
  The moving average of \<open>DECLARE_EWMA\<close> never leaves the range of its samples: with samples
  at most \<open>M\<close>, reciprocal weight at most the precision and \<open>M * 2 ^ p\<close> inside an unsigned long,
  any number of additions gives an accumulator of at most \<open>M * 2 ^ p\<close>, without wrap-around, and
  \<open>ewma_read\<close> at most \<open>M\<close>.
\<close>

theorem ewma_bounded:
  assumes "\<forall>v \<in> set vs. unat v \<le> M" "M * 2 ^ p < 2 ^ 64" "w \<le> p" "p < 64"
  shows "\<exists>e r. foldl (\<lambda>e v. Option.bind e (ewma_add p w v)) (Some ewma_init) vs = Some e
           \<and> unat e \<le> M * 2 ^ p \<and> ewma_read p e = Some r \<and> unat r \<le> M"
proof -
  have step: "\<exists>e'. ewma_add p w v e = Some e' \<and> unat e' \<le> M * 2 ^ p"
    if e: "unat e \<le> M * 2 ^ p" and v: "unat v \<le> M" for e v
  proof -
    have bnd: "unat e - unat e div 2 ^ w + unat v * 2 ^ (p - w) \<le> M * 2 ^ p"
      by (rule ewma_step_bound [OF e v assms(3)])
    have vp: "unat v * 2 ^ p \<le> M * 2 ^ p" using v by simp
    have push: "unat (push_bit k v) = unat v * 2 ^ k" if "k \<le> p" for k
    proof -
      have "unat v * 2 ^ k \<le> unat v * 2 ^ p"
        using that by (intro mult_le_mono2 power_increasing) simp_all
      with vp assms(2) have "unat v * 2 ^ k < 2 ^ 64"
        by (meson le_less_trans)
      then have "take_bit 64 (unat v * 2 ^ k) = unat v * 2 ^ k" by (rule take_bit_nat_eq_self)
      then show ?thesis by (subst unsigned_push_bit_eq) (simp add: push_bit_eq_mult)
    qed
    have drop: "unat (drop_bit w e) = unat e div 2 ^ w"
      by (rule unat_drop_bit)
    have sub: "unat (e - drop_bit w e) = unat e - unat e div 2 ^ w"
      by (subst unat_sub_small) (simp_all add: drop word_le_nat_alt)
    show ?thesis
    proof (cases "e = 0")
      case True
      then show ?thesis using vp assms(4) push [of p] by (simp add: ewma_add_def)
    next
      case False
      have "unat ((e - drop_bit w e) + push_bit (p - w) v)
              = unat e - unat e div 2 ^ w + unat v * 2 ^ (p - w)"
        using bnd assms(2) by (subst unat_add_small) (simp_all add: sub push)
      then show ?thesis using False bnd assms(3,4) by (simp add: ewma_add_def)
    qed
  qed
  have "\<exists>e'. foldl (\<lambda>e v. Option.bind e (ewma_add p w v)) (Some e) vs = Some e' \<and> unat e' \<le> M * 2 ^ p"
    if "unat e \<le> M * 2 ^ p" for e
    using that assms(1)
  proof (induction vs arbitrary: e)
    case Nil
    then show ?case by simp
  next
    case (Cons v vs)
    then obtain e1 where "ewma_add p w v e = Some e1" "unat e1 \<le> M * 2 ^ p"
      using step [of e v] by auto
    then show ?case using Cons by simp
  qed
  from this [of ewma_init] obtain e where e: "foldl (\<lambda>e v. Option.bind e (ewma_add p w v)) (Some ewma_init) vs = Some e"
    "unat e \<le> M * 2 ^ p" by (auto simp: ewma_init_def)
  have "unat (drop_bit p e) = unat e div 2 ^ p"
    by (rule unat_drop_bit)
  also have "\<dots> \<le> M" using e(2) by (metis div_le_mono nonzero_mult_div_cancel_right power_not_zero zero_neq_numeral)
  finally show ?thesis using e assms(4) by (simp add: ewma_read_def)
qed

theorem ewma_bounded_witness:
  "\<exists>e r. foldl (\<lambda>e v. Option.bind e (ewma_add 10 3 v)) (Some ewma_init) [50, 80] = Some e
     \<and> unat e \<le> 100 * 2 ^ 10 \<and> ewma_read 10 e = Some r \<and> unat r \<le> 100"
  using ewma_bounded [of "[50, 80]" 100 10 3] by simp

end
