(* ===== verification/RxReorder.thy ===== *)
theory RxReorder
  imports Prelude "HOL-Library.Multiset"
begin

text \<open>
  The receive reorder buffers of \<open>RTW88IEEE80211.cpp\<close> (\<open>rxBaSetup\<close> to \<open>rxReorderFlushStale\<close>):
  one buffer per traffic identifier with a downlink BlockAck agreement. Sequence numbers are
  12-bit; the source computes \<open>(a - b) & 0xFFF\<close> in \<open>int\<close>, which is \<open>(a - b) mod 4096\<close>. Frames are
  values of a type variable; what an operation hands to \<open>deliverDataFrame\<close> and to \<open>kfree_skb\<close>
  are lists of its result. Each operation runs under \<open>_rxBaLock\<close>.
\<close>

section \<open>State\<close>

definition kRxBaMaxBuf :: int where
  "kRxBaMaxBuf = 64"

definition kRxBaNumTid :: nat where
  "kRxBaNumTid = 8"

text \<open>The slot array is a function; every access is at an index below \<open>kRxBaMaxBuf\<close>.\<close>

record 'f RxReorder =
  r_active :: bool
  headSn :: int
  bufSize :: int
  stored :: int
  buf :: "nat \<Rightarrow> 'f option"

type_synonym 'f rx_ba = "nat \<Rightarrow> 'f RxReorder option"

record 'f rx_result =
  rx_state :: "'f rx_ba"
  rx_deliver :: "'f list"
  rx_free :: "'f list"
  rx_arm :: bool

definition slot :: "int \<Rightarrow> nat" where
  "slot sn = nat (sn mod kRxBaMaxBuf)"

definition slots :: "'f RxReorder \<Rightarrow> 'f list" where
  "slots r = List.map_filter (buf r) [0 ..< nat kRxBaMaxBuf]"

section \<open>Operations\<close>

text \<open>\<open>mem_ok\<close>: \<open>IOMallocZero\<close> succeeds.\<close>

definition rxBaSetup :: "bool \<Rightarrow> nat \<Rightarrow> int \<Rightarrow> int \<Rightarrow> 'f rx_ba \<Rightarrow> 'f rx_result" where
  "rxBaSetup mem_ok tid ssn bufsize ba =
     (if tid \<ge> kRxBaNumTid then \<lparr>rx_state = ba, rx_deliver = [], rx_free = [], rx_arm = False\<rparr>
      else
        let bufsize = (if bufsize = 0 \<or> bufsize > kRxBaMaxBuf then kRxBaMaxBuf else bufsize);
            fresh = \<lparr>r_active = True, headSn = ssn mod 4096, bufSize = bufsize, stored = 0, buf = (\<lambda>_. None)\<rparr>
        in case ba tid of
             None \<Rightarrow> \<lparr>rx_state = (if mem_ok then ba(tid := Some fresh) else ba),
                      rx_deliver = [], rx_free = [], rx_arm = False\<rparr>
           | Some r \<Rightarrow> \<lparr>rx_state = ba(tid := Some fresh), rx_deliver = [], rx_free = slots r, rx_arm = False\<rparr>)"

definition rxBaTeardown :: "nat \<Rightarrow> 'f rx_ba \<Rightarrow> 'f rx_result" where
  "rxBaTeardown tid ba =
     (if tid \<ge> kRxBaNumTid then \<lparr>rx_state = ba, rx_deliver = [], rx_free = [], rx_arm = False\<rparr>
      else case ba tid of
             None \<Rightarrow> \<lparr>rx_state = ba, rx_deliver = [], rx_free = [], rx_arm = False\<rparr>
           | Some r \<Rightarrow> \<lparr>rx_state = ba(tid := None), rx_deliver = [], rx_free = slots r, rx_arm = False\<rparr>)"

definition rxBaTeardownAll :: "'f rx_ba \<Rightarrow> 'f rx_result" where
  "rxBaTeardownAll ba =
     fold (\<lambda>tid res. let t = rxBaTeardown tid (rx_state res) in t\<lparr>rx_free := rx_free res @ rx_free t\<rparr>)
       [0 ..< kRxBaNumTid] \<lparr>rx_state = ba, rx_deliver = [], rx_free = [], rx_arm = False\<rparr>"

text \<open>The common body of the loops: the head slot is emptied, if it holds a frame, and the head advances.\<close>

definition pop_head :: "'f RxReorder \<Rightarrow> 'f list \<Rightarrow> 'f RxReorder \<times> 'f list" where
  "pop_head r out =
     (case buf r (slot (headSn r)) of
        None \<Rightarrow> (r\<lparr>headSn := (headSn r + 1) mod 4096\<rparr>, out)
      | Some f \<Rightarrow> (r\<lparr>buf := (buf r)(slot (headSn r) := None), stored := stored r - 1,
                     headSn := (headSn r + 1) mod 4096\<rparr>, out @ [f]))"

definition slide_more :: "int \<Rightarrow> 'f RxReorder \<Rightarrow> 'f list \<Rightarrow> bool" where
  "slide_more newHead r out \<longleftrightarrow>
     (newHead - headSn r) mod 4096 \<noteq> 0 \<and> (newHead - headSn r) mod 4096 < 2048
     \<and> int (length out) < kRxBaMaxBuf"

lemma headSn_pop_head [simp]: "headSn (fst (pop_head r out)) = (headSn r + 1) mod 4096"
  by (simp add: pop_head_def split: option.split)

lemma dist_dec:
  fixes a b :: int
  assumes "(a - b) mod 4096 \<noteq> 0"
  shows "(a - (b + 1) mod 4096) mod 4096 = (a - b) mod 4096 - 1"
proof -
  have "(a - (b + 1) mod 4096) mod 4096 = ((a - b) mod 4096 - 1) mod 4096"
    by (simp add: mod_diff_right_eq mod_diff_left_eq diff_diff_eq)
  also have "\<dots> = (a - b) mod 4096 - 1"
    using assms pos_mod_sign [of 4096 "a - b"] pos_mod_bound [of 4096 "a - b"]
    by (intro mod_pos_pos_trivial) linarith+
  finally show ?thesis .
qed

function slide :: "int \<Rightarrow> 'f RxReorder \<Rightarrow> 'f list \<Rightarrow> 'f RxReorder \<times> 'f list" where
  "slide newHead r out =
     (if slide_more newHead r out
      then (let (r', out') = pop_head r out in slide newHead r' out')
      else (r, out))"
  by pat_completeness auto
termination
proof (relation "measure (\<lambda>(h, r, out). nat ((h - headSn r) mod 4096))")
  show "wf (measure (\<lambda>(h, r :: 'f RxReorder, out :: 'f list). nat ((h - headSn r) mod 4096)))" by simp
next
  fix h and r r' :: "'f RxReorder" and out out' x
  assume more: "slide_more h r out" and "x = pop_head r out" "(r', out') = x"
  then have "headSn r' = (headSn r + 1) mod 4096"
    using headSn_pop_head [of r out] by (metis fst_conv)
  moreover have "(h - headSn r) mod 4096 \<noteq> 0" "0 \<le> (h - headSn r) mod 4096"
    using more by (simp_all add: slide_more_def)
  ultimately have "nat ((h - headSn r') mod 4096) < nat ((h - headSn r) mod 4096)"
    using dist_dec [of h "headSn r"] by simp
  then show "((h, r', out'), (h, r, out)) \<in> measure (\<lambda>(h, r, out). nat ((h - headSn r) mod 4096))"
    by simp
qed

declare slide.simps [simp del]

text \<open>Release the in-order run at the head; \<open>limit\<close> is what the output array still holds.\<close>

fun release_run :: "nat \<Rightarrow> 'f RxReorder \<Rightarrow> 'f list \<Rightarrow> 'f RxReorder \<times> 'f list" where
  "release_run 0 r out = (r, out)"
| "release_run (Suc limit) r out =
     (if stored r > 0 \<and> buf r (slot (headSn r)) \<noteq> None
      then (let (r', out') = pop_head r out in release_run limit r' out')
      else (r, out))"

text \<open>Skip the leading holes; \<open>guard\<close> counts down from 4096.\<close>

fun skip_holes :: "nat \<Rightarrow> 'f RxReorder \<Rightarrow> 'f RxReorder" where
  "skip_holes 0 r = r"
| "skip_holes (Suc guard) r =
     (if stored r > 0 \<and> buf r (slot (headSn r)) = None
      then skip_holes guard (r\<lparr>headSn := (headSn r + 1) mod 4096\<rparr>)
      else r)"

definition room :: "'f list \<Rightarrow> nat" where
  "room out = nat kRxBaMaxBuf - length out"

text \<open>The part of \<open>rxReorderInput\<close> after the stale check, on one buffer.\<close>

definition reorder_accept :: "'f \<Rightarrow> int \<Rightarrow> 'f RxReorder \<Rightarrow> 'f RxReorder \<times> 'f list \<times> 'f list" where
  "reorder_accept skb sn r =
     (let rel = (sn - headSn r) mod 4096;
          (r1, out1) = (if rel \<ge> bufSize r then slide ((sn + 1 - bufSize r) mod 4096) r [] else (r, []));
          (r2, freed) = (if buf r1 (slot sn) \<noteq> None then (r1, [skb])
                         else (r1\<lparr>buf := (buf r1)(slot sn \<mapsto> skb), stored := stored r1 + 1\<rparr>, []));
          (r3, out) = release_run (room out1) r2 out1
      in (r3, out, freed))"

definition rxReorderInput :: "nat \<Rightarrow> 'f \<Rightarrow> int \<Rightarrow> 'f rx_ba \<Rightarrow> 'f rx_result" where
  "rxReorderInput tid skb sn ba =
     (case ba tid of
        None \<Rightarrow> \<lparr>rx_state = ba, rx_deliver = [skb], rx_free = [], rx_arm = False\<rparr>
      | Some r \<Rightarrow>
          if \<not> r_active r then \<lparr>rx_state = ba, rx_deliver = [skb], rx_free = [], rx_arm = False\<rparr>
          else if (sn - headSn r) mod 4096 \<ge> 2048
          then \<lparr>rx_state = ba, rx_deliver = [], rx_free = [skb], rx_arm = False\<rparr>
          else (let (r', out, freed) = reorder_accept skb sn r
                in \<lparr>rx_state = ba(tid := Some r'), rx_deliver = out, rx_free = freed,
                    rx_arm = stored r' > 0\<rparr>))"

definition flush_tid :: "nat \<Rightarrow> 'f rx_result \<Rightarrow> 'f rx_result" where
  "flush_tid tid res =
     (case rx_state res tid of
        None \<Rightarrow> res
      | Some r \<Rightarrow>
          if \<not> r_active r \<or> stored r = 0 then res
          else (let (r', out) = release_run (room (rx_deliver res)) (skip_holes 4096 r) (rx_deliver res)
                in res\<lparr>rx_state := (rx_state res)(tid := Some r'), rx_deliver := out,
                       rx_arm := (rx_arm res \<or> stored r' > 0)\<rparr>))"

definition rxReorderFlushStale :: "'f rx_ba \<Rightarrow> 'f rx_result" where
  "rxReorderFlushStale ba =
     fold flush_tid [0 ..< kRxBaNumTid] \<lparr>rx_state = ba, rx_deliver = [], rx_free = [], rx_arm = False\<rparr>"

section \<open>The abstract window\<close>

text \<open>
  \<open>H\<close> is the unwrapped number of the head: the sequence number it would have with unbounded
  counters. \<open>pend H r\<close> maps an unwrapped number to the frame buffered for it, and
  \<open>frames_in p a b\<close> are the frames of \<open>p\<close> from \<open>a\<close> to before \<open>b\<close> in order.
\<close>

definition pend :: "int \<Rightarrow> 'f RxReorder \<Rightarrow> int \<Rightarrow> 'f option" where
  "pend H r n = (if H \<le> n \<and> n < H + kRxBaMaxBuf then buf r (slot n) else None)"

definition frames_in :: "(int \<Rightarrow> 'f option) \<Rightarrow> int \<Rightarrow> int \<Rightarrow> 'f list" where
  "frames_in p a b = List.map_filter p [a .. b - 1]"

definition occupied :: "'f RxReorder \<Rightarrow> nat set" where
  "occupied r = {i. i < nat kRxBaMaxBuf \<and> buf r i \<noteq> None}"

definition rx_inv :: "int \<Rightarrow> 'f RxReorder \<Rightarrow> bool" where
  "rx_inv H r \<longleftrightarrow> r_active r \<and> headSn r = H mod 4096 \<and> 1 \<le> bufSize r \<and> bufSize r \<le> kRxBaMaxBuf
     \<and> (\<forall>n. pend H r n \<noteq> None \<longrightarrow> n < H + bufSize r)
     \<and> stored r = int (card (occupied r)) \<and> stored r < kRxBaMaxBuf"

section \<open>Slots and sequence numbers\<close>

lemma slot_less [simp]: "slot n < 64"
  by (simp add: slot_def kRxBaMaxBuf_def nat_less_iff)

lemma slot_mod [simp]: "slot (n mod 4096) = slot n"
  by (simp add: slot_def kRxBaMaxBuf_def mod_mod_cancel)

lemma slot_eq_iff: "slot m = slot n \<longleftrightarrow> m mod 64 = n mod 64"
  by (simp add: slot_def kRxBaMaxBuf_def eq_nat_nat_iff)

lemma slot_inj_window:
  assumes "slot m = slot n" "H \<le> m" "m < H + 64" "H \<le> n" "n < H + 64"
  shows "m = n"
proof -
  have "(m - n) mod 64 = 0"
    using assms(1) by (simp add: slot_eq_iff mod_eq_dvd_iff)
  then obtain k where "m - n = 64 * k" by (auto simp: mod_eq_0_iff_dvd)
  moreover have "- 64 < m - n" "m - n < 64" using assms(2-) by linarith+
  ultimately show ?thesis by presburger
qed

lemma slot_next: "slot (H + 64) = slot H"
  by (simp add: slot_eq_iff)

lemma slot_window: "i < 64 \<Longrightarrow> \<exists>n. H \<le> n \<and> n < H + 64 \<and> slot n = i"
  by (rule exI [of _ "H + (int i - H) mod 64"])
     (simp add: slot_def kRxBaMaxBuf_def mod_add_right_eq)

lemma pend_outside [simp]: "n < H \<Longrightarrow> pend H r n = None"
  by (simp add: pend_def)

lemma finite_occupied [simp]: "finite (occupied r)"
  by (rule finite_subset [of _ "{..<64}"]) (auto simp: occupied_def kRxBaMaxBuf_def)

lemma occupied_empty_pend: "occupied r = {} \<Longrightarrow> pend H r n = None"
  by (auto simp: occupied_def pend_def kRxBaMaxBuf_def)

lemma frames_in_empty [simp]: "b \<le> a \<Longrightarrow> frames_in p a b = []"
  by (simp add: frames_in_def map_filter_simps)

lemma frames_in_step:
  "a < b \<Longrightarrow> frames_in p a b = (case p a of None \<Rightarrow> [] | Some f \<Rightarrow> [f]) @ frames_in p (a + 1) b"
  by (simp add: frames_in_def upto_rec1 map_filter_simps split: option.split)

lemma frames_in_append:
  "a \<le> b \<Longrightarrow> b \<le> c \<Longrightarrow> frames_in p a c = frames_in p a b @ frames_in p b c"
  by (cases "b = c") (simp_all add: frames_in_def List.map_filter_def upto_split1 [of a b "c - 1"])

lemma frames_in_cong:
  "(\<And>n. a \<le> n \<Longrightarrow> n < b \<Longrightarrow> p n = q n) \<Longrightarrow> frames_in p a b = frames_in q a b"
  unfolding frames_in_def List.map_filter_def
  by (intro map_cong filter_cong) auto

section \<open>One turn of the loops\<close>

definition rx_core :: "int \<Rightarrow> 'f RxReorder \<Rightarrow> bool" where
  "rx_core H r \<longleftrightarrow> headSn r = H mod 4096 \<and> stored r = int (card (occupied r))"

definition keeps :: "'f RxReorder \<Rightarrow> 'f RxReorder \<Rightarrow> bool" where
  "keeps r r' \<longleftrightarrow> r_active r' = r_active r \<and> bufSize r' = bufSize r"

lemma keeps_refl [simp]: "keeps r r"
  by (simp add: keeps_def)

lemma keeps_trans: "keeps a b \<Longrightarrow> keeps b c \<Longrightarrow> keeps a c"
  by (simp add: keeps_def)

lemma head_incr: "((H mod 4096) + 1) mod 4096 = (H + 1) mod 4096" for H :: int
  by (simp add: mod_add_left_eq)

lemma pop_head_step:
  assumes "rx_core H r" "pop_head r out = (r', out')"
  shows "rx_core (H + 1) r'" "keeps r r'"
    "pend (H + 1) r' = (pend H r)(H := None)"
    "out' = out @ (case pend H r H of None \<Rightarrow> [] | Some f \<Rightarrow> [f])"
    "stored r' = stored r - (if pend H r H = None then 0 else 1)"
proof -
  have hd: "headSn r = H mod 4096" using assms(1) by (simp add: rx_core_def)
  have pH: "pend H r H = buf r (slot H)" by (simp add: pend_def kRxBaMaxBuf_def)
  have occ: "occupied r' = occupied r - {slot H}"
    using assms(2) by (auto simp: pop_head_def hd occupied_def split: option.splits if_splits)
  have buf: "buf r' = (buf r)(slot H := None)"
    using assms(2) by (auto simp: pop_head_def hd split: option.splits)
  have st: "stored r' = stored r - (if buf r (slot H) = None then 0 else 1)"
    using assms(2) by (auto simp: pop_head_def hd split: option.splits)
  have card: "int (card (occupied r')) = int (card (occupied r)) - (if buf r (slot H) = None then 0 else 1)"
  proof (cases "buf r (slot H) = None")
    case True
    then show ?thesis unfolding occ by (simp add: occupied_def)
  next
    case False
    then have "slot H \<in> occupied r" by (simp add: occupied_def kRxBaMaxBuf_def)
    then have "Suc (card (occupied r - {slot H})) = card (occupied r)"
      by (rule card_Suc_Diff1 [OF finite_occupied])
    then show ?thesis unfolding occ using False by simp
  qed
  show "rx_core (H + 1) r'"
    using assms st card by (auto simp: rx_core_def pop_head_def head_incr split: option.splits)
  show "keeps r r'"
    using assms(2) by (auto simp: pop_head_def keeps_def split: option.splits)
  show "out' = out @ (case pend H r H of None \<Rightarrow> [] | Some f \<Rightarrow> [f])"
    using assms(2) by (auto simp: pop_head_def hd pH split: option.splits)
  show "stored r' = stored r - (if pend H r H = None then 0 else 1)"
    by (simp add: st pH)
  show "pend (H + 1) r' = (pend H r)(H := None)"
  proof
    fix n
    consider "n \<le> H" | "H < n" "n < H + 64" | "n = H + 64" | "H + 64 < n" by linarith
    then show "pend (H + 1) r' n = ((pend H r)(H := None)) n"
    proof cases
      case 2
      then have "slot n \<noteq> slot H" using slot_inj_window [of n H H] by auto
      with 2 show ?thesis by (simp add: pend_def buf kRxBaMaxBuf_def)
    qed (auto simp: pend_def buf kRxBaMaxBuf_def slot_next)
  qed
qed

lemma card_occupied_pos: "pend H r n \<noteq> None \<Longrightarrow> 0 < card (occupied r)"
  by (auto simp: card_gt_0_iff pend_def occupied_def kRxBaMaxBuf_def split: if_splits intro: exI [of _ "slot n"])

section \<open>The loops\<close>

lemma slide_result:
  assumes "rx_core H r" "int d < 2048" "int (length out) + stored r < 64"
  shows "\<exists>r'. slide ((H + int d) mod 4096) r out = (r', out @ frames_in (pend H r) H (H + int d))
            \<and> rx_core (H + int d) r' \<and> keeps r r'
            \<and> pend (H + int d) r' = (\<lambda>n. if n < H + int d then None else pend H r n)
            \<and> int (length (frames_in (pend H r) H (H + int d))) + stored r' = stored r"
  using assms
proof (induction d arbitrary: H r out)
  case 0
  have "\<not> slide_more (H mod 4096) r out"
    using "0.prems"(1) by (simp add: slide_more_def rx_core_def)
  then have "slide (H mod 4096) r out = (r, out)" by (simp add: slide.simps)
  moreover have "pend H r = (\<lambda>n. if n < H then None else pend H r n)" by auto
  ultimately show ?case using "0.prems"(1) by simp
next
  case (Suc d)
  have hd: "headSn r = H mod 4096" using Suc.prems(1) by (simp add: rx_core_def)
  have dist: "((H + int (Suc d)) mod 4096 - H mod 4096) mod 4096 = int (Suc d)"
    using Suc.prems(2) by (simp add: mod_diff_eq)
  have "0 \<le> stored r" using Suc.prems(1) by (simp add: rx_core_def)
  with Suc.prems(2,3) have more: "slide_more ((H + int (Suc d)) mod 4096) r out"
    by (simp add: slide_more_def hd dist kRxBaMaxBuf_def del: of_nat_Suc)
  obtain r1 out1 where pop: "pop_head r out = (r1, out1)" by force
  note st = pop_head_step [OF Suc.prems(1) pop]
  have len: "int (length out1) + stored r1 < 64"
    using Suc.prems(3) by (simp add: st(4,5) split: option.split)
  have "int d < 2048" using Suc.prems(2) by simp
  from Suc.IH [OF st(1) this len] obtain r' where
    r': "slide ((H + 1 + int d) mod 4096) r1 out1 = (r', out1 @ frames_in (pend (H + 1) r1) (H + 1) (H + 1 + int d))"
      "rx_core (H + 1 + int d) r'" "keeps r1 r'"
      "pend (H + 1 + int d) r' = (\<lambda>n. if n < H + 1 + int d then None else pend (H + 1) r1 n)"
      "int (length (frames_in (pend (H + 1) r1) (H + 1) (H + 1 + int d))) + stored r' = stored r1"
    by blast
  have eqH: "H + int (Suc d) = H + 1 + int d" by simp
  have fr: "frames_in (pend (H + 1) r1) (H + 1) (H + 1 + int d) = frames_in (pend H r) (H + 1) (H + 1 + int d)"
    by (rule frames_in_cong) (simp add: st(3))
  have step: "frames_in (pend H r) H (H + int (Suc d))
      = (case pend H r H of None \<Rightarrow> [] | Some f \<Rightarrow> [f]) @ frames_in (pend H r) (H + 1) (H + 1 + int d)"
    unfolding eqH by (subst frames_in_step) simp_all
  have "slide ((H + int (Suc d)) mod 4096) r out = (r', out @ frames_in (pend H r) H (H + int (Suc d)))"
    using more pop r'(1) step unfolding eqH
    by (simp add: slide.simps [of "(H + 1 + int d) mod 4096" r] st(4) fr)
  moreover have "pend (H + int (Suc d)) r' = (\<lambda>n. if n < H + int (Suc d) then None else pend H r n)"
    unfolding eqH r'(4) st(3) by auto
  moreover have "int (length (frames_in (pend H r) H (H + int (Suc d)))) + stored r' = stored r"
    unfolding step using r'(5) st(5) by (cases "pend H r H") (simp_all add: fr)
  moreover have "rx_core (H + int (Suc d)) r'" unfolding eqH by (rule r'(2))
  moreover have "keeps r r'" by (rule keeps_trans [OF st(2) r'(3)])
  ultimately show ?case by blast
qed

lemma release_run_limited:
  assumes "rx_core H r"
  shows "\<exists>r' H'. release_run k r out = (r', out @ frames_in (pend H r) H H')
            \<and> H \<le> H' \<and> rx_core H' r' \<and> keeps r r'
            \<and> (\<forall>n. H \<le> n \<and> n < H' \<longrightarrow> pend H r n \<noteq> None)
            \<and> (pend H r H' = None \<or> length (frames_in (pend H r) H H') = k)
            \<and> pend H' r' = (\<lambda>n. if n < H' then None else pend H r n)
            \<and> int (length (frames_in (pend H r) H H')) + stored r' = stored r"
  using assms
proof (induction k arbitrary: H r out)
  case 0
  then show ?case by (intro exI [of _ r] exI [of _ H]) auto
next
  case (Suc k)
  have hd: "headSn r = H mod 4096" using Suc.prems by (simp add: rx_core_def)
  have bufH: "buf r (slot (headSn r)) = pend H r H" by (simp add: hd pend_def kRxBaMaxBuf_def)
  show ?case
  proof (cases "pend H r H = None")
    case True
    then have "release_run (Suc k) r out = (r, out)" by (simp add: bufH)
    then show ?thesis using True Suc.prems
      by (intro exI [of _ r] exI [of _ H]) auto
  next
    case False
    then have pos: "stored r > 0"
      using card_occupied_pos [of H r H] Suc.prems by (auto simp: rx_core_def)
    obtain r1 out1 where pop: "pop_head r out = (r1, out1)" by force
    note st = pop_head_step [OF Suc.prems pop]
    from Suc.IH [OF st(1), of out1] obtain r' H' where
      r': "release_run k r1 out1 = (r', out1 @ frames_in (pend (H + 1) r1) (H + 1) H')"
        "H + 1 \<le> H'" "rx_core H' r'" "keeps r1 r'"
        "\<forall>n. H + 1 \<le> n \<and> n < H' \<longrightarrow> pend (H + 1) r1 n \<noteq> None"
        "pend (H + 1) r1 H' = None \<or> length (frames_in (pend (H + 1) r1) (H + 1) H') = k"
        "pend H' r' = (\<lambda>n. if n < H' then None else pend (H + 1) r1 n)"
        "int (length (frames_in (pend (H + 1) r1) (H + 1) H')) + stored r' = stored r1"
      by blast
    have fr: "frames_in (pend (H + 1) r1) (H + 1) H' = frames_in (pend H r) (H + 1) H'"
      by (rule frames_in_cong) (simp add: st(3))
    have step: "frames_in (pend H r) H H'
        = (case pend H r H of None \<Rightarrow> [] | Some f \<Rightarrow> [f]) @ frames_in (pend H r) (H + 1) H'"
      using r'(2) by (subst frames_in_step) simp_all
    have "release_run (Suc k) r out = (r', out @ frames_in (pend H r) H H')"
      using pos False pop r'(1) by (simp add: bufH step st(4) fr)
    moreover have "\<forall>n. H \<le> n \<and> n < H' \<longrightarrow> pend H r n \<noteq> None"
      using r'(5) False by (metis fun_upd_other order_le_less st(3) zless_imp_add1_zle)
    moreover have "pend H r H' = None \<or> length (frames_in (pend H r) H H') = Suc k"
      using r'(2) r'(6) [unfolded fr] False by (auto simp: st(3) step)
    moreover have "pend H' r' = (\<lambda>n. if n < H' then None else pend H r n)"
      unfolding r'(7) st(3) using r'(2) by auto
    moreover have "int (length (frames_in (pend H r) H H')) + stored r' = stored r"
      unfolding step using r'(8) st(5) False by (auto simp: fr)
    moreover have "H \<le> H'" "keeps r r'" using r'(2) keeps_trans [OF st(2) r'(4)] by simp_all
    ultimately show ?thesis using r'(3) by blast
  qed
qed

lemma release_run_result:
  assumes "rx_core H r" "stored r \<le> int k"
  shows "\<exists>r' H'. release_run k r out = (r', out @ frames_in (pend H r) H H')
            \<and> H \<le> H' \<and> rx_core H' r' \<and> keeps r r'
            \<and> (\<forall>n. H \<le> n \<and> n < H' \<longrightarrow> pend H r n \<noteq> None) \<and> pend H r H' = None
            \<and> pend H' r' = (\<lambda>n. if n < H' then None else pend H r n)"
proof -
  from release_run_limited [OF assms(1), of k out] obtain r' H' where
    r': "release_run k r out = (r', out @ frames_in (pend H r) H H')" "H \<le> H'" "rx_core H' r'" "keeps r r'"
      "\<forall>n. H \<le> n \<and> n < H' \<longrightarrow> pend H r n \<noteq> None"
      "pend H r H' = None \<or> length (frames_in (pend H r) H H') = k"
      "pend H' r' = (\<lambda>n. if n < H' then None else pend H r n)"
      "int (length (frames_in (pend H r) H H')) + stored r' = stored r"
    by blast
  have "pend H r H' = None" if "length (frames_in (pend H r) H H') = k"
  proof -
    have "stored r' \<le> 0" using that r'(8) assms(2) by simp
    then have "occupied r' = {}" using r'(3) by (simp add: rx_core_def)
    then have "pend H' r' H' = None" by (rule occupied_empty_pend)
    then show ?thesis using r'(7) by simp
  qed
  with r' show ?thesis by blast
qed

lemma skip_holes_result:
  assumes "rx_core H r" "pend H r (H + int d) \<noteq> None" "d \<le> k"
  shows "\<exists>r' H'. skip_holes k r = r' \<and> H \<le> H' \<and> H' \<le> H + int d \<and> rx_core H' r' \<and> keeps r r'
            \<and> (\<forall>n. H \<le> n \<and> n < H' \<longrightarrow> pend H r n = None) \<and> pend H r H' \<noteq> None
            \<and> pend H' r' = pend H r \<and> stored r' = stored r"
  using assms
proof (induction k arbitrary: H r d)
  case 0
  then show ?case by (intro exI [of _ r] exI [of _ H]) auto
next
  case (Suc k)
  have hd: "headSn r = H mod 4096" using Suc.prems(1) by (simp add: rx_core_def)
  have bufH: "buf r (slot (headSn r)) = pend H r H" by (simp add: hd pend_def kRxBaMaxBuf_def)
  show ?case
  proof (cases "pend H r H = None")
    case False
    then have "skip_holes (Suc k) r = r" by (auto simp: bufH)
    then show ?thesis using False Suc.prems(1) by (intro exI [of _ r] exI [of _ H]) auto
  next
    case True
    then obtain e where d: "d = Suc e" using Suc.prems(2) by (cases d) auto
    have pos: "stored r > 0"
      using card_occupied_pos [OF Suc.prems(2)] Suc.prems(1) by (simp add: rx_core_def)
    let ?r1 = "r\<lparr>headSn := (headSn r + 1) mod 4096\<rparr>"
    have pop: "pop_head r [] = (?r1, [])" using True by (simp add: pop_head_def bufH)
    note st = pop_head_step [OF Suc.prems(1) pop]
    have p1: "pend (H + 1) ?r1 = pend H r" using st(3) True by auto
    have "H + int d = (H + 1) + int e" using d by simp
    then have "pend (H + 1) ?r1 (H + 1 + int e) \<noteq> None" using Suc.prems(2) p1 by (simp add: add.assoc)
    from Suc.IH [OF st(1) this] Suc.prems(3) d obtain r' H' where
      r': "skip_holes k ?r1 = r'" "H + 1 \<le> H'" "H' \<le> H + 1 + int e" "rx_core H' r'" "keeps ?r1 r'"
        "\<forall>n. H + 1 \<le> n \<and> n < H' \<longrightarrow> pend H r n = None" "pend H r H' \<noteq> None"
        "pend H' r' = pend H r" "stored r' = stored r"
      unfolding p1 by auto
    have "\<forall>n. H \<le> n \<and> n < H' \<longrightarrow> pend H r n = None"
      using r'(6) True by (metis order_le_less zless_imp_add1_zle)
    moreover have "skip_holes (Suc k) r = r'" using r'(1) True pos by (simp add: bufH)
    moreover have "keeps r r'" by (rule keeps_trans [OF st(2) r'(5)])
    ultimately show ?thesis using r' d by (intro exI [of _ r'] exI [of _ H']) auto
  qed
qed

section \<open>Input refines the abstract window\<close>

text \<open>What the window holds once frame \<open>f\<close> with number \<open>N\<close> is accepted: a frame already there stays.\<close>

definition with_frame :: "(int \<Rightarrow> 'f option) \<Rightarrow> int \<Rightarrow> 'f \<Rightarrow> int \<Rightarrow> 'f option" where
  "with_frame p N f = (if p N = None then p(N \<mapsto> f) else p)"

lemma insert_step:
  fixes f :: 'f
  assumes "rx_core T r" "T \<le> N" "N < T + 64" "pend T r N = None"
  defines "r' \<equiv> r\<lparr>buf := (buf r)(slot N \<mapsto> f), stored := stored r + 1\<rparr>"
  shows "rx_core T r'" "pend T r' = (pend T r)(N \<mapsto> f)"
proof -
  have none: "buf r (slot N) = None" using assms(2-4) by (simp add: pend_def kRxBaMaxBuf_def)
  then have "occupied r' = insert (slot N) (occupied r)" "slot N \<notin> occupied r"
    by (auto simp: occupied_def r'_def kRxBaMaxBuf_def)
  then show "rx_core T r'" using assms(1) by (simp add: rx_core_def r'_def)
  show "pend T r' = (pend T r)(N \<mapsto> f)"
  proof
    fix n
    show "pend T r' n = ((pend T r)(N \<mapsto> f)) n"
      using slot_inj_window [of n N T] assms(2,3) by (auto simp: pend_def r'_def kRxBaMaxBuf_def)
  qed
qed

lemma rel_unwrapped:
  "\<lbrakk>0 \<le> N - H; N - H < 4096\<rbrakk> \<Longrightarrow> (N mod 4096 - H mod 4096) mod 4096 = N - H" for N H :: int
  by (simp add: mod_diff_eq)

lemma slide_part:
  fixes H N :: int and r :: "'f RxReorder"
  assumes inv: "rx_inv H r" and N: "H \<le> N" "N < H + 2048"
  defines "T \<equiv> max H (N + 1 - bufSize r)"
  shows "\<exists>r1. (if (N mod 4096 - headSn r) mod 4096 \<ge> bufSize r
               then slide ((N mod 4096 + 1 - bufSize r) mod 4096) r [] else (r, []))
              = (r1, frames_in (pend H r) H T)
            \<and> rx_core T r1 \<and> keeps r r1
            \<and> pend T r1 = (\<lambda>n. if n < T then None else pend H r n)
            \<and> int (length (frames_in (pend H r) H T)) + stored r1 = stored r"
proof -
  have core: "rx_core H r" and b: "1 \<le> bufSize r" "bufSize r \<le> 64" "stored r < 64" "headSn r = H mod 4096"
    using inv by (simp_all add: rx_inv_def rx_core_def kRxBaMaxBuf_def)
  have rel: "(N mod 4096 - headSn r) mod 4096 = N - H"
    using N by (simp add: b(4) rel_unwrapped)
  show ?thesis
  proof (cases "bufSize r \<le> N - H")
    case True
    then have T: "T = H + int (nat (N + 1 - bufSize r - H))" by (simp add: T_def)
    have "(N mod 4096 + 1 - bufSize r) mod 4096 = T mod 4096"
      unfolding T_def using True by (simp add: mod_diff_left_eq mod_add_left_eq add_diff_eq [symmetric])
    moreover have "int (nat (N + 1 - bufSize r - H)) < 2048"
      using N b(1) by simp
    ultimately show ?thesis
      using slide_result [OF core, of "nat (N + 1 - bufSize r - H)" "[]"] True b(3) rel
      unfolding T [symmetric] by auto
  next
    case False
    then have "T = H" by (simp add: T_def)
    moreover have "pend H r = (\<lambda>n. if n < H then None else pend H r n)" by auto
    ultimately show ?thesis using False rel core by simp
  qed
qed

lemma reorder_accept_result:
  fixes H N :: int and f :: 'f
  assumes inv: "rx_inv H r" and N: "H \<le> N" "N < H + 2048"
  defines "p \<equiv> with_frame (pend H r) N f" and "T \<equiv> max H (N + 1 - bufSize r)"
  shows "\<exists>r' H'. reorder_accept f (N mod 4096) r
              = (r', frames_in p H H', if pend H r N = None then [] else [f])
           \<and> T \<le> H' \<and> (\<forall>n. T \<le> n \<and> n < H' \<longrightarrow> p n \<noteq> None) \<and> p H' = None
           \<and> rx_inv H' r' \<and> keeps r r' \<and> pend H' r' = (\<lambda>n. if n < H' then None else p n)"
proof -
  have b: "1 \<le> bufSize r" "bufSize r \<le> 64" "stored r < 64" "r_active r"
    and win: "\<And>n. pend H r n \<noteq> None \<Longrightarrow> n < H + bufSize r"
    using inv by (auto simp: rx_inv_def kRxBaMaxBuf_def)
  from slide_part [OF inv N] obtain r1 where
    r1: "(if (N mod 4096 - headSn r) mod 4096 \<ge> bufSize r
          then slide ((N mod 4096 + 1 - bufSize r) mod 4096) r [] else (r, []))
         = (r1, frames_in (pend H r) H T)"
      "rx_core T r1" "keeps r r1" "pend T r1 = (\<lambda>n. if n < T then None else pend H r n)"
      "int (length (frames_in (pend H r) H T)) + stored r1 = stored r"
    unfolding T_def by blast
  have TN: "T \<le> N" "N < T + bufSize r" using N b by (auto simp: T_def)
  have HT: "H \<le> T" by (simp add: T_def)
  have pT: "pend T r1 N = pend H r N" using TN r1(4) by simp
  have bufN: "buf r1 (slot N) = pend H r N"
    using TN b(2) pT by (simp add: pend_def [of T] kRxBaMaxBuf_def)
  define r2 where "r2 = (if pend H r N \<noteq> None then r1
      else r1\<lparr>buf := (buf r1)(slot (N mod 4096) \<mapsto> f), stored := stored r1 + 1\<rparr>)"
  have r2: "rx_core T r2 \<and> pend T r2 = with_frame (pend T r1) N f"
    using insert_step [of T r1 N f] r1(2) TN b(2) pT by (auto simp: r2_def with_frame_def)
  have k2: "keeps r r2" and st2: "stored r2 \<le> stored r1 + 1"
    using r1(3) by (auto simp: r2_def keeps_def)
  have pT2: "pend T r2 n = p n" if "T \<le> n" for n
    using that r1(4) TN(1) by (simp add: r2 p_def with_frame_def)
  have "stored r2 \<le> int (room (frames_in (pend H r) H T))"
    using st2 r1(5) b(3) by (simp add: room_def kRxBaMaxBuf_def)
  from release_run_result [OF conjunct1 [OF r2] this, of "frames_in (pend H r) H T"] obtain r' H' where
    r': "release_run (room (frames_in (pend H r) H T)) r2 (frames_in (pend H r) H T)
           = (r', frames_in (pend H r) H T @ frames_in (pend T r2) T H')"
      "T \<le> H'" "rx_core H' r'" "keeps r2 r'"
      "\<forall>n. T \<le> n \<and> n < H' \<longrightarrow> pend T r2 n \<noteq> None" "pend T r2 H' = None"
      "pend H' r' = (\<lambda>n. if n < H' then None else pend T r2 n)"
    by blast
  have "frames_in (pend H r) H T = frames_in p H T"
    using TN(1) by (intro frames_in_cong) (auto simp: p_def with_frame_def)
  moreover have "frames_in (pend T r2) T H' = frames_in p T H'"
    by (rule frames_in_cong) (simp add: pT2)
  ultimately have out: "frames_in (pend H r) H T @ frames_in (pend T r2) T H' = frames_in p H H'"
    using frames_in_append [OF HT r'(2), of p] by simp
  have acc: "reorder_accept f (N mod 4096) r
      = (r', frames_in p H H', if pend H r N = None then [] else [f])"
    using r'(1) out by (simp add: reorder_accept_def Let_def r1(1) bufN r2_def split: if_splits)
  have pend': "pend H' r' = (\<lambda>n. if n < H' then None else p n)"
    unfolding r'(7) using r'(2) pT2 by (auto simp: fun_eq_iff)
  have runs: "\<forall>n. T \<le> n \<and> n < H' \<longrightarrow> p n \<noteq> None" "p H' = None"
    using r'(2,5,6) pT2 by auto
  have kr: "keeps r r'" by (rule keeps_trans [OF k2 r'(4)])
  have winp: "n < H' + bufSize r" if "pend H' r' n \<noteq> None" for n
    using that win [of n] TN HT r'(2) by (auto simp: pend' p_def with_frame_def split: if_splits)
  have "pend H' r' H' = None" using runs(2) by (simp add: pend')
  then have "slot H' \<notin> occupied r'" by (simp add: pend_def occupied_def kRxBaMaxBuf_def)
  then have "occupied r' \<subseteq> {..<64} - {slot H'}" by (auto simp: occupied_def kRxBaMaxBuf_def)
  then have "card (occupied r') \<le> 63" using card_mono [of "{..<64} - {slot H'}" "occupied r'"] by simp
  then have "rx_inv H' r'"
    using r'(3) kr b winp by (auto simp: rx_inv_def rx_core_def keeps_def kRxBaMaxBuf_def)
  with acc r'(2) runs kr pend' show ?thesis by blast
qed

section \<open>The flush of one traffic identifier\<close>

lemma stored_pend:
  assumes "rx_inv H r"
  shows "stored r > 0 \<longleftrightarrow> (\<exists>n. pend H r n \<noteq> None)"
proof
  assume "stored r > 0"
  then obtain i where "i \<in> occupied r"
    using assms by (auto simp: rx_inv_def card_gt_0_iff)
  then show "\<exists>n. pend H r n \<noteq> None"
    using slot_window [of i H] by (auto simp: occupied_def pend_def kRxBaMaxBuf_def)
next
  assume "\<exists>n. pend H r n \<noteq> None"
  then have "0 < card (occupied r)" by (metis card_occupied_pos)
  then show "stored r > 0" using assms by (simp add: rx_inv_def)
qed

lemma flush_one:
  assumes inv: "rx_inv H r" and pos: "stored r > 0"
  shows "\<exists>r' H'. release_run k (skip_holes 4096 r) out = (r', out @ frames_in (pend H r) H H')
           \<and> H < H' + (if k = 0 then 1 else 0) \<and> H' < H + 4096 \<and> rx_inv H' r'
           \<and> pend H' r' = (\<lambda>n. if n < H' then None else pend H r n)
           \<and> (0 < k \<longrightarrow> frames_in (pend H r) H H' \<noteq> [])"
proof -
  have core: "rx_core H r" and b: "bufSize r \<le> 64" "stored r < 64"
    and win: "\<And>n. pend H r n \<noteq> None \<Longrightarrow> n < H + bufSize r"
    using inv by (auto simp: rx_inv_def rx_core_def kRxBaMaxBuf_def)
  obtain m where m: "pend H r m \<noteq> None" using pos stored_pend [OF inv] by blast
  then have mH: "H \<le> m" by (metis pend_outside not_le)
  define d where "d = nat (m - H)"
  have d: "m = H + int d" "d \<le> 4096" using mH win [OF m] b by (auto simp: d_def)
  from skip_holes_result [OF core m [unfolded d(1)] d(2)] obtain r1 H1 where
    r1: "skip_holes 4096 r = r1" "H \<le> H1" "rx_core H1 r1" "keeps r r1"
      "\<forall>n. H \<le> n \<and> n < H1 \<longrightarrow> pend H r n = None" "pend H r H1 \<noteq> None" "pend H1 r1 = pend H r"
      "stored r1 = stored r"
    by blast
  from release_run_limited [OF r1(3), of k out] obtain r' H' where
    r': "release_run k r1 out = (r', out @ frames_in (pend H r) H1 H')"
      "H1 \<le> H'" "rx_core H' r'" "keeps r1 r'" "\<forall>n. H1 \<le> n \<and> n < H' \<longrightarrow> pend H r n \<noteq> None"
      "pend H r H' = None \<or> length (frames_in (pend H r) H1 H') = k"
      "pend H' r' = (\<lambda>n. if n < H' then None else pend H r n)"
      "int (length (frames_in (pend H r) H1 H')) + stored r' = stored r"
    unfolding r1(7,8) by blast
  have "frames_in (pend H r) H H1 = []"
    using r1(5) by (auto simp: frames_in_def List.map_filter_def filter_empty_conv)
  then have fr: "frames_in (pend H r) H H' = frames_in (pend H r) H1 H'"
    using frames_in_append [OF r1(2) r'(2), of "pend H r"] by simp
  have hi: "H' \<le> H + 64"
  proof (cases "H' = H1")
    case True
    then show ?thesis using win [OF r1(6)] b(1) by simp
  next
    case False
    then have "pend H r (H' - 1) \<noteq> None" using r'(2,5) by simp
    then show ?thesis using win b(1) by fastforce
  qed
  have lo: "0 < k \<Longrightarrow> frames_in (pend H r) H1 H' \<noteq> [] \<and> H1 < H'"
  proof -
    assume "0 < k"
    then have "H1 < H'" using r'(2,6) r1(6) by (cases "H' = H1") auto
    then show ?thesis using r1(6) by (auto simp: frames_in_step)
  qed
  have "n < H' + bufSize r" if "pend H' r' n \<noteq> None" for n
    using that win [of n] r1(2) r'(2) by (auto simp: r'(7) split: if_splits)
  then have "rx_inv H' r'"
    using inv r'(3,4,8) r1(4) b(2)
    by (auto simp: rx_inv_def rx_core_def keeps_def kRxBaMaxBuf_def)
  then show ?thesis using r' r1(1,2) fr hi lo by (intro exI [of _ r'] exI [of _ H']) auto
qed

section \<open>Sessions\<close>

text \<open>
  A frame of a session is labelled with its traffic identifier and its unwrapped sequence number.
  \<open>H\<close> unwraps the heads: it never decreases, and \<open>tracks\<close> follows the 12-bit head of a buffer from
  one state to the next.
\<close>

datatype 'p frame = Frame (tid_of: nat) (sn_of: int) (payload_of: 'p)

definition tracks :: "(nat \<Rightarrow> int) \<Rightarrow> 'f rx_ba \<Rightarrow> (nat \<Rightarrow> int) \<Rightarrow> bool" where
  "tracks H ba' H' \<longleftrightarrow> (\<forall>t. H t \<le> H' t \<and> H' t < H t + 4096
     \<and> (case ba' t of None \<Rightarrow> H' t = H t | Some r \<Rightarrow> headSn r = H' t mod 4096))"

inductive rx_sess :: "'p frame rx_ba \<Rightarrow> (nat \<Rightarrow> int) \<Rightarrow> 'p frame list \<Rightarrow> bool" where
  ba_start: "rx_sess (\<lambda>_. None) H []"
| ba_setup: "rx_sess ba H ds \<Longrightarrow> tid < kRxBaNumTid \<Longrightarrow> H tid \<le> S \<Longrightarrow> 0 \<le> b \<Longrightarrow>
    rx_sess (rx_state (rxBaSetup mem_ok tid (S mod 4096) b ba)) (H(tid := S)) ds"
| ba_teardown: "rx_sess ba H ds \<Longrightarrow> rx_sess (rx_state (rxBaTeardown tid ba)) H ds"
| ba_input: "rx_sess ba H ds \<Longrightarrow> ba tid = Some r \<Longrightarrow> H tid - 2048 \<le> N \<Longrightarrow> N < H tid + 2048 \<Longrightarrow>
    res = rxReorderInput tid (Frame tid N x) (N mod 4096) ba \<Longrightarrow> tracks H (rx_state res) H' \<Longrightarrow>
    rx_sess (rx_state res) H' (ds @ rx_deliver res)"
| ba_flush: "rx_sess ba H ds \<Longrightarrow> res = rxReorderFlushStale ba \<Longrightarrow> tracks H (rx_state res) H' \<Longrightarrow>
    rx_sess (rx_state res) H' (ds @ rx_deliver res)"

definition labelled :: "nat \<Rightarrow> (int \<Rightarrow> 'p frame option) \<Rightarrow> bool" where
  "labelled t p \<longleftrightarrow> (\<forall>n f. p n = Some f \<longrightarrow> tid_of f = t \<and> sn_of f = n)"

definition in_order :: "'p frame list \<Rightarrow> nat \<Rightarrow> int \<Rightarrow> bool" where
  "in_order ds t h \<longleftrightarrow> (let sns = map sn_of (filter (\<lambda>f. tid_of f = t) ds)
                      in sorted_wrt (<) sns \<and> (\<forall>n \<in> set sns. n < h))"

definition sess_inv :: "'p frame rx_ba \<Rightarrow> (nat \<Rightarrow> int) \<Rightarrow> 'p frame list \<Rightarrow> bool" where
  "sess_inv ba H ds \<longleftrightarrow> (\<forall>t. in_order ds t (H t)
     \<and> (\<forall>r. ba t = Some r \<longrightarrow> rx_inv (H t) r \<and> labelled t (pend (H t) r)))"

lemma tracks_unique:
  assumes "tracks H ba' A" "tracks H ba' B"
  shows "A = B"
proof
  fix t
  show "A t = B t"
  proof (cases "ba' t")
    case None
    then show ?thesis using assms [unfolded tracks_def, THEN spec, of t] by simp
  next
    case (Some r)
    have bound: "H t \<le> A t" "A t < H t + 4096" "H t \<le> B t" "B t < H t + 4096"
      using assms unfolding tracks_def by blast+
    have "headSn r = A t mod 4096" "headSn r = B t mod 4096"
      using assms [unfolded tracks_def, THEN spec, of t] Some by simp_all
    then have "A t mod 4096 = B t mod 4096" by simp
    then have "4096 dvd A t - B t" by (simp add: mod_eq_dvd_iff)
    then obtain k where k: "A t - B t = 4096 * k" by (elim dvdE)
    with bound have "k = 0" by linarith
    with k show ?thesis by simp
  qed
qed

lemma in_order_frames:
  assumes "in_order ds t h" "labelled u p" "h \<le> h'" "u = t \<Longrightarrow> a = h \<and> b = h'"
  shows "in_order (ds @ frames_in p a b) t h'"
proof -
  have lab: "sn_of (the (p n)) = n \<and> tid_of (the (p n)) = u" if "p n \<noteq> None" for n
    using assms(2) that unfolding labelled_def by (metis option.exhaust_sel)
  show ?thesis
  proof (cases "u = t")
    case True
    let ?ns = "filter (\<lambda>n. p n \<noteq> None) [a .. b - 1]"
    have fl: "filter (\<lambda>f. tid_of f = t) (frames_in p a b) = map (\<lambda>n. the (p n)) ?ns"
      unfolding frames_in_def List.map_filter_def filter_map filter_filter
      using lab True by (intro map_cong filter_cong) (auto simp: o_def)
    have "map sn_of (map (\<lambda>n. the (p n)) ?ns) = ?ns"
      unfolding map_map by (rule map_idI) (use lab in auto)
    moreover have "sorted_wrt (<) ?ns"
      by (intro sorted_wrt_filter) (simp add: sorted_wrt_upto)
    ultimately show ?thesis
      using assms(1,3,4) True fl
      by (fastforce simp: in_order_def Let_def sorted_wrt_append)
  next
    case False
    then have "filter (\<lambda>f. tid_of f = t) (frames_in p a b) = []"
      using lab by (auto simp: frames_in_def List.map_filter_def filter_empty_conv)
    then show ?thesis using assms(1,3) by (fastforce simp: in_order_def Let_def)
  qed
qed

lemma in_order_mono: "in_order ds t h \<Longrightarrow> h \<le> h' \<Longrightarrow> in_order ds t h'"
  by (fastforce simp: in_order_def Let_def)

lemma labelled_sub: "labelled t p \<Longrightarrow> labelled t (\<lambda>n. if n < h then None else p n)"
  by (simp add: labelled_def)

lemma labelled_with: "labelled t p \<Longrightarrow> labelled t (with_frame p N (Frame t N x))"
  by (auto simp: labelled_def with_frame_def)

lemma with_frame_le:
  assumes "rx_inv H r" "N < H + 2048" "with_frame (pend H r) N f n \<noteq> None"
  shows "n < H + 2048"
  using assms by (auto simp: with_frame_def rx_inv_def kRxBaMaxBuf_def split: if_splits)

lemma rxReorderInput_accept:
  fixes H N :: int and f :: 'f
  assumes inv: "rx_inv H r" and ba: "ba tid = Some r" and N: "H \<le> N" "N < H + 2048"
  defines "p \<equiv> with_frame (pend H r) N f" and "T \<equiv> max H (N + 1 - bufSize r)"
  shows "\<exists>r' H'. rxReorderInput tid f (N mod 4096) ba
             = \<lparr>rx_state = ba(tid := Some r'), rx_deliver = frames_in p H H',
                rx_free = (if pend H r N = None then [] else [f]), rx_arm = (stored r' > 0)\<rparr>
           \<and> T \<le> H' \<and> H' < H + 4096 \<and> (\<forall>n. T \<le> n \<and> n < H' \<longrightarrow> p n \<noteq> None) \<and> p H' = None
           \<and> rx_inv H' r' \<and> pend H' r' = (\<lambda>n. if n < H' then None else p n)"
proof -
  have hd: "headSn r = H mod 4096" "r_active r" "1 \<le> bufSize r" using inv by (simp_all add: rx_inv_def)
  have rel: "(N mod 4096 - headSn r) mod 4096 < 2048"
    using N by (simp add: hd rel_unwrapped)
  from reorder_accept_result [OF inv N, of f] obtain r' H' where
    r': "reorder_accept f (N mod 4096) r = (r', frames_in p H H', if pend H r N = None then [] else [f])"
      "T \<le> H'" "\<forall>n. T \<le> n \<and> n < H' \<longrightarrow> p n \<noteq> None" "p H' = None" "rx_inv H' r'"
      "pend H' r' = (\<lambda>n. if n < H' then None else p n)"
    unfolding p_def T_def by blast
  have "H' < H + 4096"
  proof (cases "H' = T")
    case True
    then show ?thesis using N hd(3) by (auto simp: T_def)
  next
    case False
    then have "p (H' - 1) \<noteq> None" using r'(2,3) by simp
    then show ?thesis using with_frame_le [OF inv N(2)] unfolding p_def by fastforce
  qed
  with r' show ?thesis
    using rel ba hd(2) by (intro exI [of _ r'] exI [of _ H']) (simp add: rxReorderInput_def)
qed

lemma rxReorderInput_stale:
  assumes "rx_inv H r" "ba tid = Some r" "H - 2048 \<le> N" "N < H"
  shows "rxReorderInput tid f (N mod 4096) ba
           = \<lparr>rx_state = ba, rx_deliver = [], rx_free = [f], rx_arm = False\<rparr>"
proof -
  have "(N mod 4096 - headSn r) mod 4096 = (N - H) mod 4096" "r_active r"
    using assms(1) by (simp_all add: rx_inv_def mod_diff_eq)
  moreover have "(N - H) mod 4096 = N - H + 4096"
    using assms(3,4) mod_add_self2 [of "N - H" 4096] mod_pos_pos_trivial [of "N - H + 4096" 4096] by simp
  ultimately show ?thesis using assms by (simp add: rxReorderInput_def)
qed

lemma sess_inv_upd:
  assumes "sess_inv ba H ds" "labelled t p" "h = H t" "h \<le> h'" "rx_inv h' r'"
    "pend h' r' = (\<lambda>n. if n < h' then None else p n)"
  shows "sess_inv (ba(t := Some r')) (H(t := h')) (ds @ frames_in p h h')"
  unfolding sess_inv_def
proof
  fix u
  have io: "in_order ds u (H u)" using assms(1) by (simp add: sess_inv_def)
  have "in_order (ds @ frames_in p h h') u ((H(t := h')) u)"
    using in_order_frames [OF io assms(2), of "(H(t := h')) u" h h'] assms(3,4) by auto
  moreover have "rx_inv ((H(t := h')) u) r \<and> labelled u (pend ((H(t := h')) u) r)"
    if "(ba(t := Some r')) u = Some r" for r
    using that assms(1,5) labelled_sub [OF assms(2), of h']
    by (cases "u = t") (auto simp: sess_inv_def simp flip: assms(6))
  ultimately show "in_order (ds @ frames_in p h h') u ((H(t := h')) u) \<and>
      (\<forall>r. (ba(t := Some r')) u = Some r \<longrightarrow> rx_inv ((H(t := h')) u) r \<and> labelled u (pend ((H(t := h')) u) r))"
    by blast
qed

lemma flush_tid_inv:
  assumes "sess_inv (rx_state res) H (ds @ rx_deliver res)"
  shows "\<exists>h. sess_inv (rx_state (flush_tid t res)) (H(t := h)) (ds @ rx_deliver (flush_tid t res))
           \<and> H t \<le> h \<and> h < H t + 4096 \<and> (\<forall>u. u \<noteq> t \<longrightarrow> rx_state (flush_tid t res) u = rx_state res u)
           \<and> (rx_state res t = None \<longrightarrow> rx_state (flush_tid t res) t = None \<and> h = H t)"
proof (cases "rx_state res t")
  case None
  then show ?thesis using assms by (intro exI [of _ "H t"]) (simp add: flush_tid_def fun_upd_idem)
next
  case (Some r)
  then have inv: "rx_inv (H t) r" and lab: "labelled t (pend (H t) r)"
    using assms unfolding sess_inv_def by blast+
  then have act: "r_active r" by (simp add: rx_inv_def)
  show ?thesis
  proof (cases "stored r = 0")
    case True
    then show ?thesis using assms Some by (intro exI [of _ "H t"]) (simp add: flush_tid_def fun_upd_idem)
  next
    case False
    moreover have "0 \<le> stored r" using inv by (simp add: rx_inv_def)
    ultimately have "stored r > 0" by linarith
    from flush_one [OF inv this, of "room (rx_deliver res)" "rx_deliver res"] obtain r' H' where
      r': "release_run (room (rx_deliver res)) (skip_holes 4096 r) (rx_deliver res)
             = (r', rx_deliver res @ frames_in (pend (H t) r) (H t) H')"
        "H t \<le> H'" "H' < H t + 4096" "rx_inv H' r'"
        "pend H' r' = (\<lambda>n. if n < H' then None else pend (H t) r n)"
      by (auto split: if_splits)
    have "sess_inv ((rx_state res)(t := Some r')) (H(t := H'))
            ((ds @ rx_deliver res) @ frames_in (pend (H t) r) (H t) H')"
      by (rule sess_inv_upd [OF assms lab refl r'(2,4,5)])
    then show ?thesis
      using Some False act r'(1-3) by (intro exI [of _ H']) (simp add: flush_tid_def)
  qed
qed

lemma flush_tid_None: "rx_state (flush_tid t res) u = None \<longleftrightarrow> rx_state res u = None"
  by (auto simp: flush_tid_def split: option.splits prod.splits)

lemma flush_fold_None: "rx_state (fold flush_tid ts res) u = None \<longleftrightarrow> rx_state res u = None"
  by (induction ts arbitrary: res) (simp_all add: flush_tid_None)

lemma flush_fold_inv:
  assumes "sess_inv (rx_state res) H (ds @ rx_deliver res)" "distinct ts"
  shows "\<exists>H'. sess_inv (rx_state (fold flush_tid ts res)) H' (ds @ rx_deliver (fold flush_tid ts res))
           \<and> (\<forall>t. H t \<le> H' t \<and> H' t < H t + 4096 \<and> (t \<notin> set ts \<longrightarrow> H' t = H t))
           \<and> (\<forall>t. rx_state res t = None \<longrightarrow> rx_state (fold flush_tid ts res) t = None \<and> H' t = H t)"
  using assms
proof (induction ts arbitrary: res H)
  case Nil
  then show ?case by auto
next
  case (Cons t ts)
  from flush_tid_inv [OF Cons.prems(1), of t] obtain h where
    h: "sess_inv (rx_state (flush_tid t res)) (H(t := h)) (ds @ rx_deliver (flush_tid t res))"
      "H t \<le> h" "h < H t + 4096" "\<forall>u. u \<noteq> t \<longrightarrow> rx_state (flush_tid t res) u = rx_state res u"
      "rx_state res t = None \<longrightarrow> rx_state (flush_tid t res) t = None \<and> h = H t"
    by (elim exE conjE) (rule that)
  from Cons.IH [OF h(1)] Cons.prems(2) obtain H' where
    H': "sess_inv (rx_state (fold flush_tid ts (flush_tid t res))) H' (ds @ rx_deliver (fold flush_tid ts (flush_tid t res)))"
      "\<forall>u. (H(t := h)) u \<le> H' u \<and> H' u < (H(t := h)) u + 4096 \<and> (u \<notin> set ts \<longrightarrow> H' u = (H(t := h)) u)"
      "\<forall>u. rx_state (flush_tid t res) u = None \<longrightarrow>
         rx_state (fold flush_tid ts (flush_tid t res)) u = None \<and> H' u = (H(t := h)) u"
    by auto
  have "H u \<le> H' u \<and> H' u < H u + 4096 \<and> (u \<notin> set (t # ts) \<longrightarrow> H' u = H u)" for u
    using H'(2) h(2,3) Cons.prems(2) by (cases "u = t") (auto dest: spec [of _ u])
  moreover have "rx_state res u = None \<longrightarrow> rx_state (fold flush_tid (t # ts) res) u = None \<and> H' u = H u" for u
    using H'(3) h(4,5) by (cases "u = t") auto
  ultimately show ?case using H'(1) by (intro exI [of _ H']) auto
qed

lemma sess_inv_tracks:
  "sess_inv ba H ds \<Longrightarrow> (\<And>t. G t \<le> H t \<and> H t < G t + 4096) \<Longrightarrow> (\<And>t. ba t = None \<Longrightarrow> H t = G t) \<Longrightarrow> tracks G ba H"
  by (auto simp: tracks_def sess_inv_def rx_inv_def split: option.split)

lemma rx_sess_inv:
  fixes ba :: "'p frame rx_ba"
  assumes "rx_sess ba H ds"
  shows "sess_inv ba H ds"
  using assms
proof (induction rule: rx_sess.induct)
  case (ba_start H)
  then show ?case by (simp add: sess_inv_def in_order_def)
next
  case (ba_setup ba H ds tid S b mem_ok)
  let ?c = "if b = 0 \<or> b > kRxBaMaxBuf then kRxBaMaxBuf else b"
  define fr :: "'p frame RxReorder" where
    "fr = \<lparr>r_active = True, headSn = S mod 4096, bufSize = ?c, stored = 0, buf = (\<lambda>_. None)\<rparr>"
  have fresh: "rx_inv S fr" "labelled tid (pend S fr)"
    using ba_setup.hyps(4) by (auto simp: fr_def rx_inv_def pend_def occupied_def kRxBaMaxBuf_def labelled_def)
  have io: "in_order ds t ((H(tid := S)) t)" for t
    using ba_setup.IH ba_setup.hyps(3) by (auto simp: sess_inv_def intro: in_order_mono [of ds tid "H tid"])
  consider "rx_state (rxBaSetup mem_ok tid (S mod 4096) b ba) = ba(tid := Some fr)"
    | "ba tid = None" "rx_state (rxBaSetup mem_ok tid (S mod 4096) b ba) = ba"
    using ba_setup.hyps(2) by (cases "ba tid"; cases mem_ok) (auto simp: rxBaSetup_def Let_def fr_def)
  then show ?case
  proof cases
    case 1
    then show ?thesis using ba_setup.IH io fresh by (simp add: sess_inv_def)
  next
    case 2
    then show ?thesis using ba_setup.IH io by (auto simp: sess_inv_def)
  qed
next
  case (ba_teardown ba H ds tid)
  then show ?case by (auto simp: rxBaTeardown_def sess_inv_def split: option.splits)
next
  case (ba_input ba H ds tid r N res x H')
  have inv: "rx_inv (H tid) r" and lab: "labelled tid (pend (H tid) r)"
    using ba_input.IH ba_input.hyps(2) by (auto simp: sess_inv_def)
  show ?case
  proof (cases "N < H tid")
    case True
    with rxReorderInput_stale [of "H tid" r ba tid N "Frame tid N x"] inv ba_input.hyps(2,3,5)
    have res: "rx_state res = ba" "rx_deliver res = []" by simp_all
    then have "tracks H (rx_state res) H" using ba_input.IH by (auto intro: sess_inv_tracks)
    then have "H' = H" using ba_input.hyps(6) by (metis tracks_unique)
    then show ?thesis using ba_input.IH res by simp
  next
    case False
    then have N: "H tid \<le> N" by simp
    let ?p = "with_frame (pend (H tid) r) N (Frame tid N x)"
    from rxReorderInput_accept [of "H tid" r ba tid N "Frame tid N x"] inv N ba_input.hyps(2,4)
    obtain r' h where
      r': "rx_state res = ba(tid := Some r')" "rx_deliver res = frames_in ?p (H tid) h"
        "H tid \<le> h" "h < H tid + 4096" "rx_inv h r'" "pend h r' = (\<lambda>n. if n < h then None else ?p n)"
      unfolding ba_input.hyps(5) by auto
    have S: "sess_inv (rx_state res) (H(tid := h)) (ds @ rx_deliver res)"
      unfolding r'(1,2) by (rule sess_inv_upd [OF ba_input.IH labelled_with [OF lab] refl r'(3,5,6)])
    have "tracks H (rx_state res) (H(tid := h))"
      using r'(1,3,4) by (intro sess_inv_tracks [OF S]) (auto split: if_splits)
    then have "H' = H(tid := h)" using ba_input.hyps(6) by (metis tracks_unique)
    then show ?thesis using S by (simp only:)
  qed
next
  case (ba_flush ba H ds res H')
  from flush_fold_inv [of "\<lparr>rx_state = ba, rx_deliver = [], rx_free = [], rx_arm = False\<rparr>" H ds "[0 ..< kRxBaNumTid]"]
    ba_flush.IH ba_flush.hyps(2)
  obtain G where G: "sess_inv (rx_state res) G (ds @ rx_deliver res)"
    "\<And>t. H t \<le> G t \<and> G t < H t + 4096" "\<And>t. ba t = None \<Longrightarrow> G t = H t"
    unfolding rxReorderFlushStale_def by auto
  have "tracks H (rx_state res) G"
    using G(2,3) by (intro sess_inv_tracks [OF G(1)])
      (auto simp: ba_flush.hyps(2) rxReorderFlushStale_def flush_fold_None)
  then have "H' = G" using ba_flush.hyps(3) by (metis tracks_unique)
  then show ?case using G(1) by simp
qed

section \<open>Properties\<close>

text \<open>
  C12: The reorder buffer refines a window over unbounded sequence numbers. A frame up to 2048
  before the head is freed without any other effect. A frame from the head to 2047 beyond it is
  inserted, unless its number is already buffered, when it is freed; the head moves far enough
  for the frame to fit in the negotiated window and then past the run of buffered frames; every
  buffered frame passed is delivered, in order, everything else stays buffered, and the timer
  is armed exactly when something does. The invariant is kept, so this holds again afterwards.
\<close>

theorem rx_input_refines:
  assumes "rx_inv H r" and "ba tid = Some r" and "H - 2048 \<le> N" and "N < H + 2048"
  shows "if N < H
         then rxReorderInput tid f (N mod 4096) ba
                = \<lparr>rx_state = ba, rx_deliver = [], rx_free = [f], rx_arm = False\<rparr>
         else \<exists>r' H'. rxReorderInput tid f (N mod 4096) ba
                 = \<lparr>rx_state = ba(tid := Some r'), rx_deliver = frames_in (with_frame (pend H r) N f) H H',
                    rx_free = (if pend H r N = None then [] else [f]),
                    rx_arm = (\<exists>n. pend H' r' n \<noteq> None)\<rparr>
               \<and> max H (N + 1 - bufSize r) \<le> H'
               \<and> (\<forall>n. max H (N + 1 - bufSize r) \<le> n \<and> n < H' \<longrightarrow> with_frame (pend H r) N f n \<noteq> None)
               \<and> with_frame (pend H r) N f H' = None
               \<and> rx_inv H' r'
               \<and> pend H' r' = (\<lambda>n. if n < H' then None else with_frame (pend H r) N f n)"
proof (cases "N < H")
  case True
  then show ?thesis using rxReorderInput_stale [of H r ba tid N f] assms by simp
next
  case False
  then have "H \<le> N" by simp
  from rxReorderInput_accept [of H r ba tid N f, OF assms(1,2) this assms(4)] obtain r' H' where
    r': "rxReorderInput tid f (N mod 4096) ba
       = \<lparr>rx_state = ba(tid := Some r'), rx_deliver = frames_in (with_frame (pend H r) N f) H H',
          rx_free = (if pend H r N = None then [] else [f]), rx_arm = (stored r' > 0)\<rparr>"
      "max H (N + 1 - bufSize r) \<le> H'"
      "\<forall>n. max H (N + 1 - bufSize r) \<le> n \<and> n < H' \<longrightarrow> with_frame (pend H r) N f n \<noteq> None"
      "with_frame (pend H r) N f H' = None" "rx_inv H' r'"
      "pend H' r' = (\<lambda>n. if n < H' then None else with_frame (pend H r) N f n)"
    by (elim exE conjE) (rule that)
  show ?thesis
    unfolding if_not_P [OF False] r'(1) stored_pend [OF r'(5)]
    using r'(2-6) by (intro exI [of _ r'] exI [of _ H'] conjI refl)
qed

definition demo_buf :: "string RxReorder" where
  "demo_buf = \<lparr>r_active = True, headSn = 4094, bufSize = 8, stored = 0, buf = (\<lambda>_. None)\<rparr>"

theorem rx_input_refines_witness:
  "\<exists>r' H'. rxReorderInput 0 ''b'' (4096 mod 4096) [0 \<mapsto> demo_buf]
         = \<lparr>rx_state = [0 \<mapsto> r'], rx_deliver = frames_in (with_frame (pend 4094 demo_buf) 4096 ''b'') 4094 H',
            rx_free = [], rx_arm = (\<exists>n. pend H' r' n \<noteq> None)\<rparr> \<and> 4094 \<le> H' \<and> rx_inv H' r'"
proof -
  have "rx_inv 4094 demo_buf"
    by (simp add: demo_buf_def rx_inv_def pend_def occupied_def kRxBaMaxBuf_def)
  moreover have "pend 4094 demo_buf 4096 = None" by (simp add: demo_buf_def pend_def)
  ultimately show ?thesis
    using rx_input_refines [of 4094 demo_buf "[0 \<mapsto> demo_buf]" 0 4096 "''b''"]
    by (simp del: mod_self) (elim exE conjE, intro exI conjI, assumption+)
qed

text \<open>
  C11: Frames of a traffic identifier reach the network stack in order and none twice: in every
  session of agreements set up and torn down, frames arriving within 2048 numbers of the head,
  in any order and with any duplicates, and timer flushes, the unwrapped sequence numbers of
  what was handed to \<open>deliverDataFrame\<close> for that identifier strictly increase.
\<close>

theorem rx_delivery_in_order:
  assumes "rx_sess ba H ds"
  shows "sorted_wrt (<) (map sn_of (filter (\<lambda>f. tid_of f = t) ds))"
  using rx_sess_inv [OF assms] by (simp add: sess_inv_def in_order_def Let_def)

definition demo_ba :: "string frame rx_ba" where
  "demo_ba = rx_state (rxBaSetup True 0 (10 mod 4096) 8 (\<lambda>_. None))"

definition demo_late :: "string frame rx_result" where
  "demo_late = rxReorderInput 0 (Frame 0 11 ''b'') (11 mod 4096) demo_ba"

definition demo_early :: "string frame rx_result" where
  "demo_early = rxReorderInput 0 (Frame 0 10 ''a'') (10 mod 4096) (rx_state demo_late)"

lemmas demo_simps = demo_ba_def demo_late_def demo_early_def rxBaSetup_def rxReorderInput_def
  reorder_accept_def kRxBaMaxBuf_def kRxBaNumTid_def slot_def room_def pop_head_def Let_def

lemma demo_late_eq:
  "demo_late = \<lparr>rx_state = [0 \<mapsto> \<lparr>r_active = True, headSn = 10, bufSize = 8, stored = 1, buf = [11 \<mapsto> Frame 0 11 ''b'']\<rparr>],
     rx_deliver = [], rx_free = [], rx_arm = True\<rparr>"
  by (simp add: demo_simps eval_nat_numeral)

lemma demo_early_eq:
  "demo_early = \<lparr>rx_state = [0 \<mapsto> \<lparr>r_active = True, headSn = 12, bufSize = 8, stored = 0, buf = (\<lambda>_. None)\<rparr>],
     rx_deliver = [Frame 0 10 ''a'', Frame 0 11 ''b''], rx_free = [], rx_arm = False\<rparr>"
  by (simp add: demo_early_def demo_late_eq demo_simps eval_nat_numeral fun_upd_twist)

lemma demo_late_session:
  "rx_sess (rx_state demo_late) (\<lambda>_. 10) ([] @ rx_deliver demo_late)"
proof -
  have "rx_sess demo_ba ((\<lambda>_. 10)(0 := 10)) []"
    unfolding demo_ba_def by (intro rx_sess.ba_setup rx_sess.ba_start) (simp_all add: kRxBaNumTid_def)
  then have "rx_sess demo_ba (\<lambda>_. 10) []" by (simp add: fun_upd_idem)
  then show ?thesis
    by (rule rx_sess.ba_input [OF _ _ _ _ demo_late_def])
       (simp_all add: demo_late_eq tracks_def demo_ba_def rxBaSetup_def kRxBaNumTid_def Let_def)
qed

lemma demo_session:
  "rx_sess (rx_state demo_early) ((\<lambda>_. 10)(0 := 12)) (([] @ rx_deliver demo_late) @ rx_deliver demo_early)"
  by (rule rx_sess.ba_input [OF demo_late_session _ _ _ demo_early_def])
     (simp_all add: demo_late_eq demo_early_eq tracks_def)

theorem rx_delivery_in_order_witness:
  "rx_deliver demo_late @ rx_deliver demo_early = [Frame 0 10 ''a'', Frame 0 11 ''b'']
   \<and> sorted_wrt (<) (map sn_of (filter (\<lambda>f. tid_of f = 0) (([] @ rx_deliver demo_late) @ rx_deliver demo_early)))"
  using rx_delivery_in_order [OF demo_session, of 0] by (simp add: demo_late_eq demo_early_eq)

text \<open>Progress of the flush timer.\<close>

definition holds_frames :: "nat \<Rightarrow> 'f rx_ba \<Rightarrow> bool" where
  "holds_frames t ba = (case ba t of None \<Rightarrow> False | Some r \<Rightarrow> stored r > 0)"

lemma flush_tid_progress:
  assumes "\<And>r. rx_state res t = Some r \<Longrightarrow> \<exists>h. rx_inv h r"
  shows "(rx_deliver res \<noteq> [] \<or> holds_frames t (rx_state res) \<longrightarrow> rx_deliver (flush_tid t res) \<noteq> [])
       \<and> (rx_arm (flush_tid t res) \<longleftrightarrow> rx_arm res \<or> holds_frames t (rx_state (flush_tid t res)))
       \<and> (\<forall>u. u \<noteq> t \<longrightarrow> rx_state (flush_tid t res) u = rx_state res u)"
proof (cases "rx_state res t")
  case None
  then show ?thesis by (simp add: flush_tid_def holds_frames_def)
next
  case (Some r)
  then obtain h where inv: "rx_inv h r" using assms by blast
  have nn: "r_active r" "0 \<le> stored r" using inv by (simp_all add: rx_inv_def)
  show ?thesis
  proof (cases "stored r = 0")
    case True
    then show ?thesis using Some by (simp add: flush_tid_def holds_frames_def)
  next
    case False
    with nn(2) have "stored r > 0" by linarith
    from flush_one [OF inv this, of "room (rx_deliver res)" "rx_deliver res"] obtain r' xs where
      r': "release_run (room (rx_deliver res)) (skip_holes 4096 r) (rx_deliver res) = (r', rx_deliver res @ xs)"
        "0 < room (rx_deliver res) \<longrightarrow> xs \<noteq> []"
      by (elim exE conjE) (rule that)
    have "room (rx_deliver res) = 0 \<Longrightarrow> rx_deliver res \<noteq> []" by (auto simp: room_def kRxBaMaxBuf_def)
    with r' show ?thesis using Some False nn by (auto simp: flush_tid_def holds_frames_def)
  qed
qed

lemma flush_fold_progress:
  assumes "\<And>t r. t \<in> set ts \<Longrightarrow> rx_state res t = Some r \<Longrightarrow> \<exists>h. rx_inv h r" "distinct ts"
  shows "(rx_deliver res \<noteq> [] \<or> (\<exists>t \<in> set ts. holds_frames t (rx_state res)) \<longrightarrow>
            rx_deliver (fold flush_tid ts res) \<noteq> [])
       \<and> (rx_arm (fold flush_tid ts res) \<longleftrightarrow>
            rx_arm res \<or> (\<exists>t \<in> set ts. holds_frames t (rx_state (fold flush_tid ts res))))
       \<and> (\<forall>u. u \<notin> set ts \<longrightarrow> rx_state (fold flush_tid ts res) u = rx_state res u)"
  using assms
proof (induction ts arbitrary: res)
  case Nil
  then show ?case by simp
next
  case (Cons t ts)
  let ?m = "flush_tid t res"
  have t: "(rx_deliver res \<noteq> [] \<or> holds_frames t (rx_state res) \<longrightarrow> rx_deliver ?m \<noteq> [])"
    "rx_arm ?m \<longleftrightarrow> rx_arm res \<or> holds_frames t (rx_state ?m)"
    "\<forall>u. u \<noteq> t \<longrightarrow> rx_state ?m u = rx_state res u"
    using flush_tid_progress [of res t] Cons.prems(1) by auto
  have same: "rx_state ?m u = rx_state res u" if "u \<in> set ts" for u
    using t(3) that Cons.prems(2) by auto
  have "\<exists>h. rx_inv h r" if "u \<in> set ts" "rx_state ?m u = Some r" for u r
    using Cons.prems(1) [of u r] that same by simp
  from Cons.IH [of ?m, OF this] Cons.prems(2) have
    IH: "rx_deliver ?m \<noteq> [] \<or> (\<exists>u \<in> set ts. holds_frames u (rx_state ?m)) \<longrightarrow>
           rx_deliver (fold flush_tid ts ?m) \<noteq> []"
      "rx_arm (fold flush_tid ts ?m) \<longleftrightarrow>
         rx_arm ?m \<or> (\<exists>u \<in> set ts. holds_frames u (rx_state (fold flush_tid ts ?m)))"
      "\<forall>u. u \<notin> set ts \<longrightarrow> rx_state (fold flush_tid ts ?m) u = rx_state ?m u"
    by simp_all
  have hf: "holds_frames u (rx_state ?m) = holds_frames u (rx_state res)" if "u \<in> set ts" for u
    using same [OF that] by (simp add: holds_frames_def)
  have ht: "holds_frames t (rx_state (fold flush_tid ts ?m)) = holds_frames t (rx_state ?m)"
    using IH(3) Cons.prems(2) by (simp add: holds_frames_def)
  show ?case using IH t hf by (auto simp: ht)
qed

text \<open>
  No buffered frame waits for ever behind a lost one: whenever any of the eight reorder buffers
  holds a frame, a fire of the reorder timer delivers at least one frame, and it arms the timer
  again exactly when some buffer still holds frames.
\<close>

theorem rx_flush_progress:
  assumes "\<forall>t r. ba t = Some r \<longrightarrow> (\<exists>h. rx_inv h r)" and "tid < kRxBaNumTid" and "holds_frames tid ba"
  shows "rx_deliver (rxReorderFlushStale ba) \<noteq> []
       \<and> (rx_arm (rxReorderFlushStale ba) \<longleftrightarrow>
            (\<exists>t < kRxBaNumTid. holds_frames t (rx_state (rxReorderFlushStale ba))))"
  using flush_fold_progress [of "[0 ..< kRxBaNumTid]"
      "\<lparr>rx_state = ba, rx_deliver = [], rx_free = [], rx_arm = False\<rparr>"] assms
  unfolding rxReorderFlushStale_def by auto

theorem rx_flush_progress_witness:
  "rx_deliver (rxReorderFlushStale (rx_state demo_late)) \<noteq> []"
proof -
  have "rx_inv 10 \<lparr>r_active = True, headSn = 10, bufSize = 8, stored = 1, buf = [11 \<mapsto> Frame 0 11 ''b'']\<rparr>"
    using rx_sess_inv [OF demo_late_session] by (simp add: sess_inv_def demo_late_eq)
  then have "\<forall>t r. rx_state demo_late t = Some r \<longrightarrow> (\<exists>h. rx_inv h r)"
    by (auto simp: demo_late_eq split: if_splits)
  then show ?thesis
    using rx_flush_progress [of "rx_state demo_late" 0] by (simp add: demo_late_eq kRxBaNumTid_def holds_frames_def)
qed

end
