(* ===== verification/Mac80211.thy ===== *)
theory Mac80211
  imports SkBuff
begin

text \<open>
  The mac80211 interface of \<open>net/mac80211.h\<close>: the structures the driver and the kernel extension
  share, as records with the source's fields, its enumerations as datatypes, and the inline
  helpers; with the stateless mac80211 functions of \<open>rtw88_compat.c\<close>. A pointer to an object of
  the interface is an address (\<open>0\<close> is NULL) looked up in a store; C \<open>int\<close>, \<open>s8\<close> and \<open>s32\<close> fields
  are integers; a fixed array is a list of that length.
\<close>

type_synonym ptr = nat

section \<open>Frame control\<close>

definition IEEE80211_FCTL_FTYPE :: u16 where "IEEE80211_FCTL_FTYPE = 0x000c"
definition IEEE80211_FCTL_STYPE :: u16 where "IEEE80211_FCTL_STYPE = 0x00f0"
definition IEEE80211_FCTL_TODS :: u16 where "IEEE80211_FCTL_TODS = 0x0100"
definition IEEE80211_FCTL_FROMDS :: u16 where "IEEE80211_FCTL_FROMDS = 0x0200"
definition IEEE80211_FCTL_MOREDATA :: u16 where "IEEE80211_FCTL_MOREDATA = 0x2000"
definition IEEE80211_FCTL_PROTECTED :: u16 where "IEEE80211_FCTL_PROTECTED = 0x4000"

definition IEEE80211_FTYPE_MGMT :: u16 where "IEEE80211_FTYPE_MGMT = 0x0000"
definition IEEE80211_FTYPE_CTL :: u16 where "IEEE80211_FTYPE_CTL = 0x0004"
definition IEEE80211_FTYPE_DATA :: u16 where "IEEE80211_FTYPE_DATA = 0x0008"

definition IEEE80211_STYPE_PROBE_RESP :: u16 where "IEEE80211_STYPE_PROBE_RESP = 0x0050"
definition IEEE80211_STYPE_BEACON :: u16 where "IEEE80211_STYPE_BEACON = 0x0080"
definition IEEE80211_STYPE_ACTION :: u16 where "IEEE80211_STYPE_ACTION = 0x00D0"

lemmas fc_defs = IEEE80211_FCTL_FTYPE_def IEEE80211_FCTL_STYPE_def IEEE80211_FCTL_TODS_def
  IEEE80211_FCTL_FROMDS_def IEEE80211_FCTL_MOREDATA_def IEEE80211_FCTL_PROTECTED_def
  IEEE80211_FTYPE_MGMT_def IEEE80211_FTYPE_CTL_def IEEE80211_FTYPE_DATA_def
  IEEE80211_STYPE_PROBE_RESP_def IEEE80211_STYPE_BEACON_def IEEE80211_STYPE_ACTION_def

definition ieee80211_is_mgmt :: "u16 \<Rightarrow> bool" where
  "ieee80211_is_mgmt fc \<longleftrightarrow> fc AND 0x000c = IEEE80211_FTYPE_MGMT"

definition ieee80211_is_data :: "u16 \<Rightarrow> bool" where
  "ieee80211_is_data fc \<longleftrightarrow> fc AND 0x000c = IEEE80211_FTYPE_DATA"

definition ieee80211_is_ctl :: "u16 \<Rightarrow> bool" where
  "ieee80211_is_ctl fc \<longleftrightarrow> fc AND 0x000c = IEEE80211_FTYPE_CTL"

definition ieee80211_has_tods :: "u16 \<Rightarrow> bool" where
  "ieee80211_has_tods fc \<longleftrightarrow> fc AND IEEE80211_FCTL_TODS \<noteq> 0"

definition ieee80211_has_fromds :: "u16 \<Rightarrow> bool" where
  "ieee80211_has_fromds fc \<longleftrightarrow> fc AND IEEE80211_FCTL_FROMDS \<noteq> 0"

definition ieee80211_has_protected :: "u16 \<Rightarrow> bool" where
  "ieee80211_has_protected fc \<longleftrightarrow> fc AND IEEE80211_FCTL_PROTECTED \<noteq> 0"

definition ieee80211_has_moredata :: "u16 \<Rightarrow> bool" where
  "ieee80211_has_moredata fc \<longleftrightarrow> fc AND IEEE80211_FCTL_MOREDATA \<noteq> 0"

definition ieee80211_is_beacon :: "u16 \<Rightarrow> bool" where
  "ieee80211_is_beacon fc \<longleftrightarrow>
     fc AND (IEEE80211_FCTL_FTYPE OR IEEE80211_FCTL_STYPE) = IEEE80211_FTYPE_MGMT OR IEEE80211_STYPE_BEACON"

definition ieee80211_is_probe_resp :: "u16 \<Rightarrow> bool" where
  "ieee80211_is_probe_resp fc \<longleftrightarrow>
     fc AND (IEEE80211_FCTL_FTYPE OR IEEE80211_FCTL_STYPE) = IEEE80211_FTYPE_MGMT OR IEEE80211_STYPE_PROBE_RESP"

definition ieee80211_is_action :: "u16 \<Rightarrow> bool" where
  "ieee80211_is_action fc \<longleftrightarrow>
     fc AND (IEEE80211_FCTL_FTYPE OR IEEE80211_FCTL_STYPE) = IEEE80211_FTYPE_MGMT OR IEEE80211_STYPE_ACTION"

definition ieee80211_is_nullfunc :: "u16 \<Rightarrow> bool" where
  "ieee80211_is_nullfunc fc \<longleftrightarrow> fc AND (0x00fc OR 0x000c) = 0x0048 OR IEEE80211_FTYPE_DATA"

definition ieee80211_is_data_qos :: "u16 \<Rightarrow> bool" where
  "ieee80211_is_data_qos fc \<longleftrightarrow> fc AND (0x000c OR 0x0080) = IEEE80211_FTYPE_DATA OR 0x0080"

text \<open>The frame control field is the first two bytes, little-endian; \<open>None\<close>: fewer than two bytes.\<close>

definition frame_control_of :: "bytes \<Rightarrow> u16 option" where
  "frame_control_of f = Option.bind (rd f 0) (\<lambda>lo. map_option (le16_of lo) (rd f 1))"

definition hdrlen_of_fc :: "u16 \<Rightarrow> nat" where
  "hdrlen_of_fc fc =
     (let has_a4 = (fc AND (IEEE80211_FCTL_TODS OR IEEE80211_FCTL_FROMDS)
                      = IEEE80211_FCTL_TODS OR IEEE80211_FCTL_FROMDS);
          is_qos = (fc AND 0x0080 \<noteq> 0 \<and> fc AND 0x000c = IEEE80211_FTYPE_DATA)
      in 24 + (if has_a4 then 6 else 0) + (if is_qos then 2 else 0))"

definition ieee80211_get_hdrlen_from_skb :: "sk_buff \<Rightarrow> nat option" where
  "ieee80211_get_hdrlen_from_skb skb =
     Option.bind (skb_load skb (data skb) 2) (\<lambda>f. map_option hdrlen_of_fc (frame_control_of f))"

section \<open>Headers\<close>

record ieee80211_hdr =
  h_frame_control :: u16
  h_duration_id :: u16
  h_addr1 :: bytes
  h_addr2 :: bytes
  h_addr3 :: bytes
  h_seq_ctrl :: u16
  h_addr4 :: bytes

record ieee80211_hdr_3addr =
  h3_frame_control :: u16
  h3_duration_id :: u16
  h3_addr1 :: bytes
  h3_addr2 :: bytes
  h3_addr3 :: bytes
  h3_seq_ctrl :: u16

text \<open>The two anonymous beacon and probe response bodies have the same layout.\<close>

record mgmt_beacon =
  mb_timestamp :: u64
  mb_beacon_int :: u16
  mb_capab_info :: u16
  mb_variable :: bytes

datatype mgmt_body = MgmtBeacon mgmt_beacon | MgmtProbeResp mgmt_beacon | MgmtAction bytes

record ieee80211_mgmt =
  m_frame_control :: u16
  m_duration :: u16
  m_da :: bytes
  m_sa :: bytes
  m_bssid :: bytes
  m_seq_ctrl :: u16
  m_u :: mgmt_body

text \<open>The packed three-address header in memory, as the source reads and writes it through a cast.\<close>

definition hdr_3addr_bytes :: "ieee80211_hdr_3addr \<Rightarrow> bytes" where
  "hdr_3addr_bytes h =
     [lo8 (h3_frame_control h), hi8 (h3_frame_control h), lo8 (h3_duration_id h), hi8 (h3_duration_id h)]
     @ h3_addr1 h @ h3_addr2 h @ h3_addr3 h @ [lo8 (h3_seq_ctrl h), hi8 (h3_seq_ctrl h)]"

definition hdr_3addr_at :: "bytes \<Rightarrow> ieee80211_hdr_3addr option" where
  "hdr_3addr_at f =
     (if length f < 24 then None
      else Some \<lparr>h3_frame_control = le16_of (f ! 0) (f ! 1), h3_duration_id = le16_of (f ! 2) (f ! 3),
                 h3_addr1 = block f 4 6, h3_addr2 = block f 10 6, h3_addr3 = block f 16 6,
                 h3_seq_ctrl = le16_of (f ! 22) (f ! 23)\<rparr>)"

section \<open>Bands and channels\<close>

datatype nl80211_band = NL80211_BAND_2GHZ | NL80211_BAND_5GHZ | NL80211_BAND_60GHZ

datatype nl80211_channel_type =
  NL80211_CHAN_NO_HT | NL80211_CHAN_HT20 | NL80211_CHAN_HT40MINUS | NL80211_CHAN_HT40PLUS

record ieee80211_channel =
  ch_band :: nl80211_band
  ch_center_freq :: u16
  ch_hw_value :: u16
  ch_flags :: u32
  ch_max_power :: int
  ch_max_reg_power :: int

record ieee80211_rate =
  rt_bitrate :: u32
  rt_hw_value :: u16
  rt_hw_value_short :: u16
  rt_flags :: u32

record ieee80211_mcs_info =
  mcs_rx_mask :: bytes
  mcs_rx_highest :: u16
  mcs_tx_params :: u32

record ieee80211_sta_ht_cap =
  ht_cap_bits :: u16
  ht_supported :: bool
  ampdu_factor :: u8
  ampdu_density :: u8
  ht_mcs :: ieee80211_mcs_info

record ieee80211_vht_mcs_info =
  vm_rx_mcs_map :: u32
  vm_rx_highest :: u16
  vm_tx_mcs_map :: u32
  vm_tx_highest :: u16

record ieee80211_sta_vht_cap =
  vht_supported :: bool
  vht_cap_bits :: u32
  vht_mcs :: ieee80211_vht_mcs_info

text \<open>The channel and rate arrays carry their lengths \<open>n_channels\<close> and \<open>n_bitrates\<close> as lists.\<close>

record ieee80211_supported_band =
  sb_channels :: "ieee80211_channel list"
  sb_bitrates :: "ieee80211_rate list"
  sb_ht_cap :: ieee80211_sta_ht_cap
  sb_vht_cap :: ieee80211_sta_vht_cap
  sb_band :: nl80211_band

datatype nl80211_chan_width =
  NL80211_CHAN_WIDTH_20_NOHT | NL80211_CHAN_WIDTH_20 | NL80211_CHAN_WIDTH_40 | NL80211_CHAN_WIDTH_80
  | NL80211_CHAN_WIDTH_80P80 | NL80211_CHAN_WIDTH_160 | NL80211_CHAN_WIDTH_5 | NL80211_CHAN_WIDTH_10

record cfg80211_chan_def =
  cd_chan :: "ieee80211_channel option"
  cd_width :: nl80211_chan_width
  cd_center_freq1 :: u32
  cd_center_freq2 :: u32

section \<open>The wireless device and the hardware\<close>

datatype nl80211_ext_feature_index =
  NL80211_EXT_FEATURE_CAN_REPLACE_PTK0 | NL80211_EXT_FEATURE_SCAN_RANDOM_SN | NL80211_EXT_FEATURE_SET_SCAN_DWELL

fun ext_feature_number :: "nl80211_ext_feature_index \<Rightarrow> nat" where
  "ext_feature_number NL80211_EXT_FEATURE_CAN_REPLACE_PTK0 = 0"
| "ext_feature_number NL80211_EXT_FEATURE_SCAN_RANDOM_SN = 1"
| "ext_feature_number NL80211_EXT_FEATURE_SET_SCAN_DWELL = 2"

record ieee80211_iface_limit =
  il_max :: u16
  il_types :: u16

record ieee80211_iface_combination =
  ic_limits :: "ieee80211_iface_limit list"
  ic_max_interfaces :: u32
  ic_num_different_channels :: u8
  ic_beacon_int_infra_match :: bool
  ic_radar_detect_widths :: u8
  ic_radar_detect_regions :: u16

record wiphy =
  wy_dev :: ptr
  wy_bands :: "ieee80211_supported_band option list"
  wy_interface_modes :: u32
  wy_flags :: u32
  wy_features :: u32
  wy_available_antennas_tx :: u8
  wy_available_antennas_rx :: u8
  wy_max_scan_ssids :: u16
  wy_max_scan_ie_len :: u16
  wy_max_sched_scan_ssids :: u16
  wy_rts_threshold :: u32
  wy_iface_combinations :: "ieee80211_iface_combination list"
  wy_wowlan :: ptr
  wy_sar_capa :: ptr
  wy_perm_addr :: bytes
  wy_regulatory_flags :: u32
  wy_reg_notifier :: ptr
  wy_ext_features :: bytes

definition wiphy_ext_feature_set :: "nl80211_ext_feature_index \<Rightarrow> wiphy \<Rightarrow> wiphy" where
  "wiphy_ext_feature_set idx w =
     (let i = ext_feature_number idx
      in w\<lparr>wy_ext_features := (wy_ext_features w)[i div 8 := wy_ext_features w ! (i div 8) OR push_bit (i mod 8) 1]\<rparr>)"

record ieee80211_conf =
  cf_flags :: u32
  cf_power_level :: int
  cf_listen_interval :: u16
  cf_dynamic_ps_timeout :: int
  cf_chandef :: cfg80211_chan_def

record ieee80211_hw =
  hw_priv :: ptr
  hw_wiphy :: ptr
  hw_ops :: ptr
  hw_wiphy_bands :: "ieee80211_supported_band option list"
  hw_queues :: int
  hw_max_rates :: u16
  hw_max_rate_tries :: u16
  hw_extra_tx_headroom :: u16
  hw_flags :: u32
  hw_required_mask :: u32
  hw_txq_data_size :: u32
  hw_sta_data_size :: u32
  hw_vif_data_size :: u32
  hw_conf :: ieee80211_conf
  hw_kext_hw :: ptr

datatype hw_flag =
  RX_INCLUDES_FCS | SIGNAL_DBM | SPECTRUM_MGMT | REPORTS_TX_ACK_STATUS | MFP_CAPABLE | SUPPORTS_PS
  | SUPPORTS_DYNAMIC_PS | AMPDU_AGGREGATION | SUPPORT_FAST_XMIT | SUPPORTS_AMSDU_IN_AMPDU | HAS_RATE_CONTROL
  | TX_AMSDU | SINGLE_SCAN_ON_ALL_BANDS | WANT_MONITOR_VIF | NO_AUTO_VIF | SW_CRYPTO_CONTROL

fun hw_flag_bit :: "hw_flag \<Rightarrow> nat" where
  "hw_flag_bit RX_INCLUDES_FCS = 0"
| "hw_flag_bit SIGNAL_DBM = 1"
| "hw_flag_bit SPECTRUM_MGMT = 2"
| "hw_flag_bit REPORTS_TX_ACK_STATUS = 3"
| "hw_flag_bit MFP_CAPABLE = 4"
| "hw_flag_bit SUPPORTS_PS = 5"
| "hw_flag_bit SUPPORTS_DYNAMIC_PS = 6"
| "hw_flag_bit AMPDU_AGGREGATION = 7"
| "hw_flag_bit SUPPORT_FAST_XMIT = 8"
| "hw_flag_bit SUPPORTS_AMSDU_IN_AMPDU = 9"
| "hw_flag_bit HAS_RATE_CONTROL = 10"
| "hw_flag_bit TX_AMSDU = 11"
| "hw_flag_bit SINGLE_SCAN_ON_ALL_BANDS = 12"
| "hw_flag_bit WANT_MONITOR_VIF = 13"
| "hw_flag_bit NO_AUTO_VIF = 14"
| "hw_flag_bit SW_CRYPTO_CONTROL = 15"

definition ieee80211_hw_set :: "hw_flag \<Rightarrow> ieee80211_hw \<Rightarrow> ieee80211_hw" where
  "ieee80211_hw_set flg hw = hw\<lparr>hw_flags := hw_flags hw OR push_bit (hw_flag_bit flg) 1\<rparr>"

definition ieee80211_hw_check :: "hw_flag \<Rightarrow> ieee80211_hw \<Rightarrow> bool" where
  "ieee80211_hw_check flg hw \<longleftrightarrow> hw_flags hw AND push_bit (hw_flag_bit flg) 1 \<noteq> 0"

definition SET_IEEE80211_PERM_ADDR :: "bytes \<Rightarrow> wiphy \<Rightarrow> wiphy" where
  "SET_IEEE80211_PERM_ADDR addr w = w\<lparr>wy_perm_addr := take 6 addr\<rparr>"

end
