(* ===== verification/MacStation.thy ===== *)
theory MacStation
  imports Mac80211
begin

text \<open>
  The second half of \<open>net/mac80211.h\<close>: interfaces, stations, transmit and receive descriptors,
  keys, scan requests, the driver operations and the regulatory and rate types; and the
  functions of \<open>rtw88_compat.c\<close> and of the header that work on them.
\<close>

section \<open>Interfaces and stations\<close>

datatype nl80211_iftype =
  NL80211_IFTYPE_UNSPECIFIED | NL80211_IFTYPE_ADHOC | NL80211_IFTYPE_STATION | NL80211_IFTYPE_AP
  | NL80211_IFTYPE_AP_VLAN | NL80211_IFTYPE_WDS | NL80211_IFTYPE_MONITOR | NL80211_IFTYPE_MESH_POINT
  | NL80211_IFTYPE_P2P_CLIENT | NL80211_IFTYPE_P2P_GO | NL80211_IFTYPE_P2P_DEVICE | NL80211_IFTYPE_OCB
  | NL80211_IFTYPE_NAN

fun iftype_number :: "nl80211_iftype \<Rightarrow> nat" where
  "iftype_number NL80211_IFTYPE_UNSPECIFIED = 0"
| "iftype_number NL80211_IFTYPE_ADHOC = 1"
| "iftype_number NL80211_IFTYPE_STATION = 2"
| "iftype_number NL80211_IFTYPE_AP = 3"
| "iftype_number NL80211_IFTYPE_AP_VLAN = 4"
| "iftype_number NL80211_IFTYPE_WDS = 5"
| "iftype_number NL80211_IFTYPE_MONITOR = 6"
| "iftype_number NL80211_IFTYPE_MESH_POINT = 7"
| "iftype_number NL80211_IFTYPE_P2P_CLIENT = 8"
| "iftype_number NL80211_IFTYPE_P2P_GO = 9"
| "iftype_number NL80211_IFTYPE_P2P_DEVICE = 10"
| "iftype_number NL80211_IFTYPE_OCB = 11"
| "iftype_number NL80211_IFTYPE_NAN = 12"

record mu_group_data =
  mg_membership :: bytes
  mg_position :: bytes

text \<open>\<open>bssid\<close> points to six bytes, normally the \<open>bssid_buf\<close> beside it.\<close>

record ieee80211_bss_conf =
  bc_bssid :: bytes
  bc_bssid_buf :: bytes
  bc_assoc :: bool
  bc_ibss_joined :: bool
  bc_aid :: u16
  bc_use_cts_prot :: bool
  bc_use_short_preamble :: bool
  bc_use_short_slot :: bool
  bc_enable_beacon :: bool
  bc_dtim_period :: u8
  bc_beacon_int :: u16
  bc_assoc_capability :: u16
  bc_sync_tsf :: u64
  bc_sync_device_ts :: u32
  bc_sync_dtim_count :: u8
  bc_basic_rates :: u32
  bc_mcast_rate :: "int list"
  bc_ht_operation_mode :: u16
  bc_cqm_rssi_thold :: int
  bc_cqm_rssi_hyst :: u32
  bc_cqm_rssi_low :: int
  bc_cqm_rssi_high :: int
  bc_chandef_chan :: "ieee80211_channel option"
  bc_chandef_width :: u8
  bc_qos :: bool
  bc_hidden_ssid :: bool
  bc_txpower :: int
  bc_p2p_noa_attr :: bool
  bc_p2p_oppps_ctwindow :: u8
  bc_mu_group :: mu_group_data

record vif_cfg =
  vc_assoc :: bool
  vc_aid :: u16
  vc_ssid_len :: u16
  vc_ssid :: bytes
  vc_ps :: bool

record ieee80211_vif =
  vif_type :: nl80211_iftype
  vif_bss_conf :: ieee80211_bss_conf
  vif_cfg_of :: vif_cfg
  vif_txq :: ptr
  vif_addr :: bytes
  vif_p2p :: bool
  vif_driver_flags :: u32

datatype ieee80211_sta_rx_bandwidth =
  IEEE80211_STA_RX_BW_20 | IEEE80211_STA_RX_BW_40 | IEEE80211_STA_RX_BW_80 | IEEE80211_STA_RX_BW_160
  | IEEE80211_STA_RX_BW_320

record sta_rate =
  sr_idx :: int
  sr_count :: u8
  sr_count_cts :: u8
  sr_count_rts :: u8
  sr_flags :: u32

type_synonym ieee80211_sta_rates = "sta_rate list"

record sta_deflink =
  dl_ht_cap :: ieee80211_sta_ht_cap
  dl_vht_cap :: ieee80211_sta_vht_cap
  dl_supp_rates :: "u32 list"
  dl_bandwidth :: ieee80211_sta_rx_bandwidth
  dl_agg_max_rc_amsdu_len :: u16

record ieee80211_sta =
  sta_addr :: bytes
  sta_aid :: u16
  sta_wme :: bool
  sta_mfp :: bool
  sta_tdls :: bool
  sta_max_rc_amsdu_len :: u16
  sta_txq :: "ptr list"
  sta_deflink_of :: sta_deflink

record ieee80211_link_sta =
  ls_sta :: ptr
  ls_ht_cap :: ieee80211_sta_ht_cap
  ls_vht_cap :: ieee80211_sta_vht_cap
  ls_supp_rates :: "u16 list"
  ls_bandwidth :: ieee80211_sta_rx_bandwidth

section \<open>Transmit and receive descriptors\<close>

text \<open>\<open>count\<close> is a bit field of five bits.\<close>

record ieee80211_tx_rate =
  tr_idx :: int
  tr_count :: "5 word"
  tr_flags :: u32

definition IEEE80211_TX_MAX_RATES :: nat where
  "IEEE80211_TX_MAX_RATES = 4"

record tx_control_part =
  tc_rts_cts_rate_idx :: int
  tc_use_rts :: bool
  tc_use_cts_prot :: bool
  tc_short_preamble :: bool
  tc_skip_table :: bool
  tc_vif :: ptr
  tc_hw_key :: ptr
  tc_sta :: ptr

record tx_status_part =
  ts_ack_signal :: int
  ts_ampdu_ack_len :: u8
  ts_ampdu_len :: u8
  ts_antenna :: u8
  ts_tx_time :: u32
  ts_is_valid_ack_signal :: bool
  ts_status_driver_data :: bytes

datatype tx_info_u = TxControl tx_control_part | TxStatus tx_status_part

text \<open>
  The rate table is the first member of both structures of the union, at the same place, so it
  is one field; the rest is read as the structure last written.
\<close>

record ieee80211_tx_info =
  ti_flags :: u32
  ti_band :: u8
  ti_tx_time_est :: int
  ti_rates :: "ieee80211_tx_rate list"
  ti_u :: tx_info_u

definition ieee80211_tx_info_clear_status :: "ieee80211_tx_info \<Rightarrow> ieee80211_tx_info" where
  "ieee80211_tx_info_clear_status info =
     fold (\<lambda>i inf. inf\<lparr>ti_rates := (ti_rates inf)[i := \<lparr>tr_idx = -1, tr_count = 0, tr_flags = 0\<rparr>]\<rparr>)
       [0 ..< IEEE80211_TX_MAX_RATES] info"

datatype ieee80211_ac_numbers =
  IEEE80211_AC_NUMBERS_VO | IEEE80211_AC_NUMBERS_VI | IEEE80211_AC_NUMBERS_BE | IEEE80211_AC_NUMBERS_BK

record ieee80211_txq =
  tq_vif :: ptr
  tq_sta :: ptr
  tq_tid :: u8
  tq_ac :: u8

record ieee80211_rx_status =
  rs_mactime :: u64
  rs_device_timestamp :: u32
  rs_ampdu_reference :: u32
  rs_flag :: u32
  rs_freq :: u16
  rs_rate_idx :: u8
  rs_nss :: u8
  rs_vht_nss :: u8
  rs_rx_flags :: u8
  rs_band :: u8
  rs_encoding :: u8
  rs_bw :: u8
  rs_signal :: int
  rs_chains :: u8
  rs_chain_signal :: "int list"
  rs_antenna :: u8
  rs_ampdu_delimiter_crc :: u8
  rs_zero_length_psdu_type :: bool

section \<open>Keys, scans and the driver operations\<close>

definition WLAN_CIPHER_SUITE_TKIP :: u32 where "WLAN_CIPHER_SUITE_TKIP = 0x000FAC02"
definition WLAN_CIPHER_SUITE_CCMP :: u32 where "WLAN_CIPHER_SUITE_CCMP = 0x000FAC04"

record ieee80211_key_conf =
  kc_cipher :: u32
  kc_icv_len :: u8
  kc_iv_len :: u8
  kc_hw_key_idx :: u8
  kc_keyidx :: int
  kc_flags :: u16
  kc_keylen :: u8
  kc_key :: bytes

datatype set_key_cmd = SET_KEY | DISABLE_KEY

record cfg80211_ssid_entry =
  se_ssid :: bytes
  se_ssid_len :: u8

record cfg80211_scan_request =
  sq_ssids :: "cfg80211_ssid_entry list"
  sq_channels :: "ieee80211_channel list"
  sq_ie :: bytes
  sq_flags :: u32
  sq_no_cck :: bool
  sq_duration_mandatory :: bool
  sq_duration :: u16
  sq_mac_addr :: bytes
  sq_mac_addr_mask :: bytes

record ieee80211_scan_ies =
  si_ies :: "bytes list"
  si_common_ies :: bytes

record ieee80211_scan_request =
  sreq_ies :: ieee80211_scan_ies
  sreq_req :: cfg80211_scan_request

record ieee80211_chanctx_conf =
  cc_def_chan :: "ieee80211_channel option"
  cc_rx_chains_static :: u8
  cc_rx_chains_dynamic :: u8

datatype ieee80211_reconfig_type = IEEE80211_RECONFIG_TYPE_RESTART | IEEE80211_RECONFIG_TYPE_SUSPEND

datatype ieee80211_chanctx_switch_mode = CHANCTX_SWMODE_REASSIGN_VIF | CHANCTX_SWMODE_SWAP_CONTEXTS

record ieee80211_vif_chanctx_switch =
  cs_vif :: ptr
  cs_old_ctx :: ptr
  cs_new_ctx :: ptr

datatype ampdu_action =
  IEEE80211_AMPDU_RX_START | IEEE80211_AMPDU_RX_STOP | IEEE80211_AMPDU_TX_START
  | IEEE80211_AMPDU_TX_START_IMMEDIATE | IEEE80211_AMPDU_TX_STOP_CONT | IEEE80211_AMPDU_TX_STOP_FLUSH
  | IEEE80211_AMPDU_TX_STOP_FLUSH_CONT | IEEE80211_AMPDU_TX_OPERATIONAL

record ieee80211_ampdu_params =
  ap_action :: ampdu_action
  ap_sta :: ptr
  ap_tid :: u16
  ap_ssn :: "u16 option"
  ap_buf_size :: u8
  ap_amsdu :: bool
  ap_timeout :: u16

text \<open>
  The operations table of a driver with state \<open>'s\<close>, up to \<open>cancel_hw_scan\<close>; the extension never
  calls the later entries. Each entry is a function pointer that may be NULL; a void operation
  returns the new state only. The table is filled in by the driver.
\<close>

record 's ieee80211_ops =
  op_tx :: "(ptr \<Rightarrow> ptr \<Rightarrow> sk_buff \<Rightarrow> 's \<Rightarrow> 's) option"
  op_start :: "(ptr \<Rightarrow> 's \<Rightarrow> int \<times> 's) option"
  op_stop :: "(ptr \<Rightarrow> bool \<Rightarrow> 's \<Rightarrow> 's) option"
  op_add_interface :: "(ptr \<Rightarrow> ptr \<Rightarrow> 's \<Rightarrow> int \<times> 's) option"
  op_remove_interface :: "(ptr \<Rightarrow> ptr \<Rightarrow> 's \<Rightarrow> 's) option"
  op_change_interface :: "(ptr \<Rightarrow> ptr \<Rightarrow> nl80211_iftype \<Rightarrow> bool \<Rightarrow> 's \<Rightarrow> int \<times> 's) option"
  op_config :: "(ptr \<Rightarrow> int \<Rightarrow> u32 \<Rightarrow> 's \<Rightarrow> int \<times> 's) option"
  op_configure_filter :: "(ptr \<Rightarrow> u32 \<Rightarrow> u32 \<Rightarrow> u64 \<Rightarrow> 's \<Rightarrow> u32 \<times> 's) option"
  op_sta_add :: "(ptr \<Rightarrow> ptr \<Rightarrow> ptr \<Rightarrow> 's \<Rightarrow> int \<times> 's) option"
  op_sta_remove :: "(ptr \<Rightarrow> ptr \<Rightarrow> ptr \<Rightarrow> 's \<Rightarrow> int \<times> 's) option"
  op_sta_statistics :: "(ptr \<Rightarrow> ptr \<Rightarrow> ptr \<Rightarrow> ptr \<Rightarrow> 's \<Rightarrow> 's) option"
  op_bss_info_changed :: "(ptr \<Rightarrow> ptr \<Rightarrow> ieee80211_bss_conf \<Rightarrow> u64 \<Rightarrow> 's \<Rightarrow> 's) option"
  op_conf_tx :: "(ptr \<Rightarrow> ptr \<Rightarrow> u32 \<Rightarrow> u16 \<Rightarrow> ptr \<Rightarrow> 's \<Rightarrow> int \<times> 's) option"
  op_wake_tx_queue :: "(ptr \<Rightarrow> ptr \<Rightarrow> 's \<Rightarrow> 's) option"
  op_set_key :: "(ptr \<Rightarrow> set_key_cmd \<Rightarrow> ptr \<Rightarrow> ptr \<Rightarrow> ieee80211_key_conf \<Rightarrow> 's \<Rightarrow> int \<times> 's) option"
  op_hw_scan :: "(ptr \<Rightarrow> ptr \<Rightarrow> ieee80211_scan_request \<Rightarrow> 's \<Rightarrow> int \<times> 's) option"
  op_cancel_hw_scan :: "(ptr \<Rightarrow> ptr \<Rightarrow> 's \<Rightarrow> 's) option"

section \<open>Rates, stations and regulatory data\<close>

record cfg80211_sar_freq_ranges =
  fr_start_freq :: u32
  fr_end_freq :: u32

record cfg80211_sar_sub_specs =
  ss_freq_range_index :: u32
  ss_power :: int

record cfg80211_sar_specs =
  sp_type :: u32
  sp_sub_specs :: "cfg80211_sar_sub_specs list"

record cfg80211_sar_capa =
  sc_type :: u32
  sc_freq_ranges :: "cfg80211_sar_freq_ranges list"

record band_bitrate_mask =
  bm_legacy :: u32
  bm_ht_mcs :: bytes
  bm_vht_mcs :: "u16 list"

type_synonym cfg80211_bitrate_mask = "band_bitrate_mask list"

record cfg80211_ssid =
  ssid_bytes :: bytes
  ssid_len :: u8

record cfg80211_match_set =
  ms_ssid :: cfg80211_ssid
  ms_bssid :: bytes
  ms_rssi_thold :: int

datatype nl80211_cqm_rssi_threshold_event =
  NL80211_CQM_RSSI_THRESHOLD_EVENT_LOW | NL80211_CQM_RSSI_THRESHOLD_EVENT_HIGH | NL80211_CQM_RSSI_BEACON_LOSS_EVENT

datatype ieee80211_smps_mode =
  IEEE80211_SMPS_AUTOMATIC | IEEE80211_SMPS_OFF | IEEE80211_SMPS_STATIC | IEEE80211_SMPS_DYNAMIC

record ieee80211_tx_queue_params =
  qp_txop :: u16
  qp_cw_min :: u16
  qp_cw_max :: u16
  qp_aifs :: u8
  qp_uapsd :: bool

record rate_info =
  ri_flags :: u32
  ri_legacy :: u32
  ri_mcs :: u8
  ri_nss :: u8
  ri_bw :: u8
  ri_he_gi :: u8
  ri_he_dcm :: u8
  ri_he_ru_alloc :: u8
  ri_n_bonded_ch :: u8

record station_info =
  st_filled :: u64
  st_txrate :: rate_info
  st_rxrate :: rate_info
  st_inactive_time :: u32
  st_rx_bytes :: u64
  st_tx_bytes :: u64
  st_rx_packets :: u32
  st_tx_packets :: u32
  st_signal :: int
  st_signal_avg :: int

record ieee80211_prep_tx_info =
  pt_duration :: u16
  pt_success :: bool

datatype nl80211_dfs_regions = NL80211_DFS_UNSET | NL80211_DFS_FCC | NL80211_DFS_ETSI | NL80211_DFS_JP

datatype nl80211_reg_initiator =
  NL80211_REGDOM_SET_BY_CORE | NL80211_REGDOM_SET_BY_USER | NL80211_REGDOM_SET_BY_DRIVER
  | NL80211_REGDOM_SET_BY_COUNTRY_IE

record regulatory_request =
  rr_initiator :: nl80211_reg_initiator
  rr_alpha2 :: string
  rr_dfs_region :: nl80211_dfs_regions

record cfg80211_sched_scan_plan =
  pl_interval :: u32
  pl_iterations :: u32

text \<open>The products are computed in \<open>int\<close>; with 8-bit operands they stay far below \<open>2 ^ 31\<close>.\<close>

definition cfg80211_calculate_bitrate :: "rate_info \<Rightarrow> u32" where
  "cfg80211_calculate_bitrate rate =
     (if ri_flags rate AND 2 \<noteq> 0 then ucast (ri_nss rate) * (ucast (ri_mcs rate) + 1) * 1000
      else if ri_flags rate AND 1 \<noteq> 0 then (ucast (ri_mcs rate) + 1) * 1000
      else ri_legacy rate * 100)"

section \<open>Functions of the compatibility layer\<close>

text \<open>\<open>None\<close> arguments are null pointers; reading past the 32-byte array is undefined.\<close>

definition cfg80211_ssid_eq :: "cfg80211_ssid option \<Rightarrow> cfg80211_ssid option \<Rightarrow> bool option" where
  "cfg80211_ssid_eq a b =
     (case (a, b) of
        (Some x, Some y) \<Rightarrow>
          if ssid_len x \<noteq> ssid_len y then Some False
          else if unat (ssid_len x) \<le> length (ssid_bytes x) \<and> unat (ssid_len x) \<le> length (ssid_bytes y)
          then Some (take (unat (ssid_len x)) (ssid_bytes x) = take (unat (ssid_len x)) (ssid_bytes y))
          else None
      | _ \<Rightarrow> Some False)"

text \<open>C division truncates towards zero; the operands are positive here.\<close>

definition ieee80211_freq_to_channel :: "int \<Rightarrow> int" where
  "ieee80211_freq_to_channel freq =
     (if 2412 \<le> freq \<and> freq \<le> 2484 then (freq - 2407) div 5
      else if 5180 \<le> freq \<and> freq \<le> 5825 then (freq - 5000) div 5
      else 0)"

definition ieee80211_channel_to_frequency :: "int \<Rightarrow> nl80211_band \<Rightarrow> int" where
  "ieee80211_channel_to_frequency chan band =
     (if band = NL80211_BAND_2GHZ then 2407 + chan * 5 else 5000 + chan * 5)"

definition ieee80211_txq_get_depth :: "bool \<Rightarrow> bool \<Rightarrow> u64 option \<times> u64 option" where
  "ieee80211_txq_get_depth want_frames want_bytes =
     (if want_frames then Some 0 else None, if want_bytes then Some 0 else None)"

definition ieee80211_vif_type_p2p :: "ieee80211_vif option \<Rightarrow> u8" where
  "ieee80211_vif_type_p2p vif = (case vif of None \<Rightarrow> 0 | Some v \<Rightarrow> of_nat (iftype_number (vif_type v)))"

text \<open>
  The frames built by the layer. \<open>None\<close> is an undefined memory access, \<open>Some None\<close> the NULL result.
  The bytes are stored in the order of the source, each into the block returned by
  \<open>skb_put_zero\<close>.
\<close>

definition fill_frame :: "skb_alloc \<Rightarrow> u32 \<Rightarrow> u32 \<Rightarrow> (nat \<times> bytes) list \<Rightarrow> sk_buff option option" where
  "fill_frame al headroom n writes =
     (case alloc_skb al (headroom + n) of
        None \<Rightarrow> Some None
      | Some s0 \<Rightarrow>
          Option.bind (skb_put_zero (skb_reserve s0 (uint headroom)) n) (\<lambda>(p, s1).
            map_option Some
              (fold (\<lambda>(off, bs) m. Option.bind m (\<lambda>s. skb_store s (p + int off) bs)) writes (Some s1))))"

definition ieee80211_nullfunc_get :: "skb_alloc \<Rightarrow> ieee80211_vif option \<Rightarrow> bool \<Rightarrow> sk_buff option option" where
  "ieee80211_nullfunc_get al vif qos_ok =
     (case vif of None \<Rightarrow> Some None
      | Some v \<Rightarrow>
          let subtype = (if qos_ok then 0xC else 0x4 :: u8);
              bssid = take 6 (bc_bssid (vif_bss_conf v))
          in fill_frame al 64 (if qos_ok then 26 else 24)
               ([(0, [push_bit 4 subtype OR push_bit 2 2]), (1, [0x01]), (2, [0]), (3, [0]), (4, bssid),
                 (10, take 6 (vif_addr v)), (16, bssid), (22, [0]), (23, [0])]
                @ (if qos_ok then [(24, [0]), (25, [0])] else [])))"

definition ieee80211_pspoll_get :: "skb_alloc \<Rightarrow> ieee80211_vif option \<Rightarrow> sk_buff option option" where
  "ieee80211_pspoll_get al vif =
     (case vif of None \<Rightarrow> Some None
      | Some v \<Rightarrow>
          let aid = vc_aid (vif_cfg_of v) OR 0xC000
          in fill_frame al 64 16
               [(0, [push_bit 4 0xA OR push_bit 2 1]), (1, [0x00]), (2, [lo8 aid]), (3, [hi8 aid]),
                (4, take 6 (bc_bssid (vif_bss_conf v))), (10, take 6 (vif_addr v))])"

end
