(* ===== verification/MacFrames.thy ===== *)
theory MacFrames
  imports MacStation
begin

text \<open>
  Theorems on the mac80211 interface: the frame predicates, the three-address header in memory,
  the frames built by \<open>rtw88_compat.c\<close>, the channel numbers, and the registry of the hardware
  structure (\<open>ieee80211_alloc_hw\<close>, \<open>rtw88_register_hw\<close> and their companions).
\<close>

section \<open>The hardware registry\<close>

text \<open>The live allocations of the two structures and the global \<open>g_rtw88_hw\<close>.\<close>

record mac_state =
  g_rtw88_hw :: ptr
  hw_store :: "ptr \<rightharpoonup> ieee80211_hw"
  wiphy_store :: "ptr \<rightharpoonup> wiphy"

definition sizeof_ieee80211_hw :: nat where
  "sizeof_ieee80211_hw = 128"

definition rtw88_register_hw :: "ptr \<Rightarrow> mac_state \<Rightarrow> mac_state" where
  "rtw88_register_hw hw st = st\<lparr>g_rtw88_hw := hw\<rparr>"

definition rtw88_unregister_hw :: "ptr \<Rightarrow> mac_state \<Rightarrow> mac_state" where
  "rtw88_unregister_hw hw st = (if g_rtw88_hw st = hw then st\<lparr>g_rtw88_hw := 0\<rparr> else st)"

definition rtw88_get_hw :: "mac_state \<Rightarrow> ptr" where
  "rtw88_get_hw st = g_rtw88_hw st"

text \<open>\<open>None\<close>: the global points to freed memory.\<close>

definition wiphy_to_ieee80211_hw :: "ptr \<Rightarrow> mac_state \<Rightarrow> ptr option" where
  "wiphy_to_ieee80211_hw w st =
     (if g_rtw88_hw st = 0 then Some 0
      else case hw_store st (g_rtw88_hw st) of
             None \<Rightarrow> None
           | Some hw \<Rightarrow> Some (if hw_wiphy hw = w then g_rtw88_hw st else 0))"

definition s_default_chan :: ieee80211_channel where
  "s_default_chan = \<lparr>ch_band = NL80211_BAND_2GHZ, ch_center_freq = 2412, ch_hw_value = 1, ch_flags = 0,
     ch_max_power = 20, ch_max_reg_power = 0\<rparr>"

definition zero_wiphy :: wiphy where
  "zero_wiphy = \<lparr>wy_dev = 0, wy_bands = [None, None, None], wy_interface_modes = 0, wy_flags = 0, wy_features = 0,
     wy_available_antennas_tx = 0, wy_available_antennas_rx = 0, wy_max_scan_ssids = 0, wy_max_scan_ie_len = 0,
     wy_max_sched_scan_ssids = 0, wy_rts_threshold = 0, wy_iface_combinations = [], wy_wowlan = 0,
     wy_sar_capa = 0, wy_perm_addr = replicate 6 0, wy_regulatory_flags = 0, wy_reg_notifier = 0,
     wy_ext_features = [0]\<rparr>"

text \<open>\<open>hwp\<close> and \<open>wp\<close> are the results of the two \<open>kzalloc\<close> calls, \<open>0\<close> for a failure.\<close>

definition ieee80211_alloc_hw :: "ptr \<Rightarrow> ptr \<Rightarrow> ptr \<Rightarrow> mac_state \<Rightarrow> ptr \<times> mac_state" where
  "ieee80211_alloc_hw hwp wp ops st =
     (if hwp = 0 then (0, st)
      else if wp = 0 then (0, st)
      else (hwp, rtw88_register_hw hwp
             (st\<lparr>hw_store := (hw_store st)(hwp \<mapsto>
                   \<lparr>hw_priv = hwp + sizeof_ieee80211_hw, hw_wiphy = wp, hw_ops = ops,
                    hw_wiphy_bands = [None, None, None], hw_queues = 0, hw_max_rates = 0, hw_max_rate_tries = 0,
                    hw_extra_tx_headroom = 0, hw_flags = 0, hw_required_mask = 0, hw_txq_data_size = 0,
                    hw_sta_data_size = 0, hw_vif_data_size = 0,
                    hw_conf = \<lparr>cf_flags = 0, cf_power_level = 0, cf_listen_interval = 0, cf_dynamic_ps_timeout = 0,
                               cf_chandef = \<lparr>cd_chan = Some s_default_chan, cd_width = NL80211_CHAN_WIDTH_20_NOHT,
                                             cd_center_freq1 = 0, cd_center_freq2 = 0\<rparr>\<rparr>,
                    hw_kext_hw = 0\<rparr>),
                  wiphy_store := (wiphy_store st)(wp \<mapsto> zero_wiphy\<lparr>wy_dev := hwp + sizeof_ieee80211_hw\<rparr>)\<rparr>)))"

text \<open>\<open>kfree (NULL)\<close> does nothing; freeing or reading what is not allocated is undefined (\<open>None\<close>).\<close>

definition free_wiphy :: "ptr \<Rightarrow> mac_state \<Rightarrow> mac_state option" where
  "free_wiphy w st =
     (if w = 0 then Some st
      else if wiphy_store st w = None then None
      else Some (st\<lparr>wiphy_store := (wiphy_store st)(w := None)\<rparr>))"

definition ieee80211_free_hw :: "ptr \<Rightarrow> mac_state \<Rightarrow> mac_state option" where
  "ieee80211_free_hw hw st =
     (let st1 = rtw88_unregister_hw hw st
      in if hw = 0 then Some st1
         else case hw_store st1 hw of
                None \<Rightarrow> None
              | Some h \<Rightarrow> map_option (\<lambda>s. s\<lparr>hw_store := (hw_store s)(hw := None)\<rparr>) (free_wiphy (hw_wiphy h) st1))"

section \<open>Lemmas\<close>

lemma skb_store_payload:
  assumes "skb_wf s" "off + length bs \<le> length (payload s)"
  shows "\<exists>s'. skb_store s (data s + int off) bs = Some s' \<and> skb_wf s' \<and> payload s' = blit (payload s) off bs
            \<and> data s' = data s \<and> cb s' = cb s"
proof -
  from assms(1) obtain d t where dt: "data s = int d" "tail s = int t" "d \<le> t" "t \<le> length (head_mem s)"
    "unat (SkBuff.len s) = t - d" "length (head_mem s) < 2 ^ 31" "length (cb s) = 64"
    "payload s = block (head_mem s) d (t - d)"
    by (rule skb_wfE)
  have n: "off + length bs \<le> t - d" using assms(2) dt by (simp add: buf_simps)
  let ?m = "blit (head_mem s) (d + off) bs"
  let ?s = "s\<lparr>head_mem := ?m\<rparr>"
  have st: "skb_store s (data s + int off) bs = Some ?s"
    using n dt by (simp add: skb_store_def memcpy_at_def nat_add_distrib)
  have L: "length ?m = length (head_mem s)" using n dt by (simp add: buf_simps)
  have wf: "skb_wf ?s" "payload ?s = block ?m d (t - d)"
    using skb_wfI [of ?s d t] dt L by simp_all
  have "block ?m d (t - d) = blit (payload s) off bs"
    using n dt by (intro nth_equalityI) (auto simp: buf_simps)
  with st wf show ?thesis by simp
qed

lemma fold_store_payload:
  assumes "skb_wf s" "p = data s" "\<And>off bs. (off, bs) \<in> set ws \<Longrightarrow> off + length bs \<le> length (payload s)"
  shows "\<exists>s'. fold (\<lambda>(off, bs) m. Option.bind m (\<lambda>s. skb_store s (p + int off) bs)) ws (Some s) = Some s'
            \<and> skb_wf s' \<and> payload s' = fold (\<lambda>(off, bs) f. blit f off bs) ws (payload s) \<and> data s' = data s"
  using assms
proof (induction ws arbitrary: s)
  case Nil
  then show ?case by simp
next
  case (Cons w ws)
  obtain off bs where w: "w = (off, bs)" by force
  with Cons.prems(3) have fit: "off + length bs \<le> length (payload s)" by simp
  from skb_store_payload [OF Cons.prems(1) fit] obtain s1 where
    s1: "skb_store s (data s + int off) bs = Some s1" "skb_wf s1" "payload s1 = blit (payload s) off bs"
      "data s1 = data s" by blast
  have "length (payload s1) = length (payload s)" using fit by (simp add: s1(3) buf_simps)
  then show ?case using Cons.IH [of s1] Cons.prems s1 w by simp
qed

lemma fill_frame_payload:
  assumes "data_ok al" "skb_ok al" "unat h + unat n + 64 < 2 ^ 31"
    and "\<And>off bs. (off, bs) \<in> set ws \<Longrightarrow> off + length bs \<le> unat n"
  shows "\<exists>s. fill_frame al h n ws = Some (Some s) \<and> skb_wf s \<and> data s = uint h
            \<and> payload s = fold (\<lambda>(off, bs) f. blit f off bs) ws (replicate (unat n) 0)"
proof -
  have hn: "unat (h + n) = unat h + unat n"
    using assms(3) by (simp add: unat_word_ariths)
  obtain s0 where s0: "alloc_skb al (h + n) = Some s0"
    using assms(1,2) by (simp add: alloc_skb_def Let_def)
  note a = alloc_skb_wf [OF s0, unfolded hn, OF assms(3)]
  let ?r = "skb_reserve s0 (uint h)"
  have room: "tail s0 + uint h \<le> sk_end s0" using a by (simp add: sk_end_def)
  have "0 \<le> uint h" by simp
  note r = skb_reserve_empty [OF a(1,2) this room]
  have rt: "tail ?r = uint h" "data ?r = uint h" "sk_end ?r = int (unat h + unat n + 64)"
    using a by (simp_all add: skb_reserve_def sk_end_def)
  have "tail ?r + uint n \<le> sk_end ?r" by (simp add: rt)
  from skb_put_zero_ok [OF r(1) this] obtain s1 where
    s1: "skb_put_zero ?r n = Some (uint h, s1)" "skb_wf s1" "payload s1 = replicate (unat n) 0" "data s1 = uint h"
    unfolding r(2) rt append_Nil by blast
  have fit: "off + length bs \<le> length (payload s1)" if "(off, bs) \<in> set ws" for off bs
    using assms(4) [OF that] by (simp add: s1(3))
  from fold_store_payload [OF s1(2) s1(4) [symmetric] fit] obtain s' where
    s': "fold (\<lambda>(off, bs) m. Option.bind m (\<lambda>s. skb_store s (uint h + int off) bs)) ws (Some s1) = Some s'"
      "skb_wf s'" "payload s' = fold (\<lambda>(off, bs) f. blit f off bs) ws (replicate (unat n) 0)" "data s' = uint h"
    unfolding s1(3,4) by blast
  have "fill_frame al h n ws = Some (Some s')"
    by (simp only: fill_frame_def s0 option.case s1(1) Option.bind.simps prod.case s'(1) option.map)
  with s'(2-4) show ?thesis by blast
qed

lemma list6E:
  assumes "length xs = 6"
  obtains a b c d e f where "xs = [a, b, c, d, e, f]"
  using assms by (auto simp: numeral_eq_Suc length_Suc_conv)

lemmas frame_eval = blit_def numeral_eq_Suc hdr_3addr_bytes_def lo8_def hi8_def

section \<open>Properties\<close>

text \<open>
  The keep-alive frames of the reserved page are well formed. When memory is available the
  null-function frame is exactly the 24-byte header with type data, subtype null (QoS null with
  a zero QoS control field), ToDS, BSSID, station and BSSID; the PS-Poll frame is its 16-byte
  header with the association number under the two high bits; both leave 64 bytes of head room
  for the transmit descriptor, and no byte is stored outside the buffer.
\<close>

theorem keepalive_frames:
  assumes "data_ok al" "skb_ok al" "length (bc_bssid (vif_bss_conf v)) = 6" "length (vif_addr v) = 6"
  shows "(\<exists>s. ieee80211_nullfunc_get al (Some v) qos = Some (Some s) \<and> skb_wf s \<and> data s = 64
            \<and> payload s = hdr_3addr_bytes \<lparr>h3_frame_control = (if qos then 0x01C8 else 0x0148), h3_duration_id = 0,
                  h3_addr1 = bc_bssid (vif_bss_conf v), h3_addr2 = vif_addr v, h3_addr3 = bc_bssid (vif_bss_conf v),
                  h3_seq_ctrl = 0\<rparr> @ (if qos then [0, 0] else []))
       \<and> (\<exists>s. ieee80211_pspoll_get al (Some v) = Some (Some s) \<and> skb_wf s \<and> data s = 64
            \<and> payload s = [0xA4, 0, lo8 (vc_aid (vif_cfg_of v) OR 0xC000), hi8 (vc_aid (vif_cfg_of v) OR 0xC000)]
                @ bc_bssid (vif_bss_conf v) @ vif_addr v)"
proof -
  obtain b0 b1 b2 b3 b4 b5 where b: "bc_bssid (vif_bss_conf v) = [b0, b1, b2, b3, b4, b5]"
    using assms(3) by (rule list6E)
  obtain a0 a1 a2 a3 a4 a5 where a: "vif_addr v = [a0, a1, a2, a3, a4, a5]"
    using assms(4) by (rule list6E)
  let ?nf = "\<lambda>c t. [(0, [c]), (1, [0x01]), (2, [0]), (3, [0]), (4, [b0, b1, b2, b3, b4, b5]),
     (10, [a0, a1, a2, a3, a4, a5]), (16, [b0, b1, b2, b3, b4, b5]), (22, [0]), (23, [0])] @ t :: (nat \<times> bytes) list"
  let ?ps = "[(0, [0xA4]), (1, [0]), (2, [lo8 (vc_aid (vif_cfg_of v) OR 0xC000)]), (3, [hi8 (vc_aid (vif_cfg_of v) OR 0xC000)]),
     (4, [b0, b1, b2, b3, b4, b5]), (10, [a0, a1, a2, a3, a4, a5])] :: (nat \<times> bytes) list"
  have get: "ieee80211_nullfunc_get al (Some v) True = fill_frame al 64 26 (?nf 0xC8 [(24, [0]), (25, [0])])"
    "ieee80211_nullfunc_get al (Some v) False = fill_frame al 64 24 (?nf 0x48 [])"
    "ieee80211_pspoll_get al (Some v) = fill_frame al 64 16 ?ps"
    by (simp_all add: ieee80211_nullfunc_get_def ieee80211_pspoll_get_def Let_def a b)
  have fit: "off + length bs \<le> unat (26 :: u32)" if "(off, bs) \<in> set (?nf 0xC8 [(24, [0]), (25, [0])])" for off bs
    using that by auto
  have fit': "off + length bs \<le> unat (24 :: u32)" if "(off, bs) \<in> set (?nf 0x48 [])" for off bs
    using that by auto
  have fit'': "off + length bs \<le> unat (16 :: u32)" if "(off, bs) \<in> set ?ps" for off bs
    using that by auto
  have bytes: "fold (\<lambda>(off, bs) f. blit f off bs) (?nf 0xC8 [(24, [0]), (25, [0])]) (replicate (unat (26 :: u32)) 0)
      = [0xC8, 1, 0, 0, b0, b1, b2, b3, b4, b5, a0, a1, a2, a3, a4, a5, b0, b1, b2, b3, b4, b5, 0, 0, 0, 0]"
    "fold (\<lambda>(off, bs) f. blit f off bs) (?nf 0x48 []) (replicate (unat (24 :: u32)) 0)
      = [0x48, 1, 0, 0, b0, b1, b2, b3, b4, b5, a0, a1, a2, a3, a4, a5, b0, b1, b2, b3, b4, b5, 0, 0]"
    "fold (\<lambda>(off, bs) f. blit f off bs) ?ps (replicate (unat (16 :: u32)) 0)
      = [0xA4, 0, lo8 (vc_aid (vif_cfg_of v) OR 0xC000), hi8 (vc_aid (vif_cfg_of v) OR 0xC000),
         b0, b1, b2, b3, b4, b5, a0, a1, a2, a3, a4, a5]"
    by (simp_all add: blit_def numeral_eq_Suc)
  have hdr: "[lo8 0x01C8, hi8 0x01C8, lo8 0x0148, hi8 0x0148, lo8 0, hi8 0] = [0xC8, 1, 0x48, 1, 0, 0]"
    by (simp add: lo8_def hi8_def)
  have sz: "unat (64 :: u32) + unat (26 :: u32) + 64 < 2 ^ 31" "unat (64 :: u32) + unat (24 :: u32) + 64 < 2 ^ 31"
    "unat (64 :: u32) + unat (16 :: u32) + 64 < 2 ^ 31" by simp_all
  show ?thesis
    using fill_frame_payload [of al 64 26 "?nf 0xC8 [(24, [0]), (25, [0])]", OF assms(1,2) sz(1) fit]
      fill_frame_payload [of al 64 24 "?nf 0x48 []", OF assms(1,2) sz(2) fit']
      fill_frame_payload [of al 64 16 ?ps, OF assms(1,2) sz(3) fit''] hdr
    unfolding get [symmetric] bytes
    by (cases qos) (simp_all add: a b hdr_3addr_bytes_def)
qed

definition demo_vif :: ieee80211_vif where
  "demo_vif = \<lparr>vif_type = NL80211_IFTYPE_STATION,
     vif_bss_conf = \<lparr>bc_bssid = [1, 2, 3, 4, 5, 6], bc_bssid_buf = [1, 2, 3, 4, 5, 6], bc_assoc = True, bc_ibss_joined = False,
       bc_aid = 1, bc_use_cts_prot = False, bc_use_short_preamble = False, bc_use_short_slot = False,
       bc_enable_beacon = False, bc_dtim_period = 1, bc_beacon_int = 100, bc_assoc_capability = 0, bc_sync_tsf = 0,
       bc_sync_device_ts = 0, bc_sync_dtim_count = 0, bc_basic_rates = 0, bc_mcast_rate = [0, 0, 0],
       bc_ht_operation_mode = 0, bc_cqm_rssi_thold = 0, bc_cqm_rssi_hyst = 0, bc_cqm_rssi_low = 0,
       bc_cqm_rssi_high = 0, bc_chandef_chan = None, bc_chandef_width = 0, bc_qos = True, bc_hidden_ssid = False,
       bc_txpower = 0, bc_p2p_noa_attr = False, bc_p2p_oppps_ctwindow = 0,
       bc_mu_group = \<lparr>mg_membership = replicate 8 0, mg_position = replicate 16 0\<rparr>\<rparr>,
     vif_cfg_of = \<lparr>vc_assoc = True, vc_aid = 1, vc_ssid_len = 0, vc_ssid = replicate 32 0, vc_ps = False\<rparr>,
     vif_txq = 0, vif_addr = [7, 8, 9, 10, 11, 12], vif_p2p = False, vif_driver_flags = 0\<rparr>"

theorem keepalive_frames_witness:
  "\<exists>s. ieee80211_pspoll_get \<lparr>data_ok = True, skb_ok = True, garbage = (\<lambda>_. 9)\<rparr> (Some demo_vif) = Some (Some s)
     \<and> payload s = [0xA4, 0, 1, 0xC0, 1, 2, 3, 4, 5, 6, 7, 8, 9, 10, 11, 12]"
  using keepalive_frames [of "\<lparr>data_ok = True, skb_ok = True, garbage = (\<lambda>_. 9)\<rparr>" demo_vif False]
  by (auto simp: demo_vif_def lo8_def hi8_def)

text \<open>
  Channel numbers and frequencies. Channels 1 to 13 of the 2.4 GHz band and 36 to 165 of the 5 GHz
  band survive the way to a frequency and back. Channel 14 does not fit the formula: its
  frequency 2484 MHz is read as channel 15, and channel 14 is turned into 2477 MHz.
\<close>

theorem channel_frequency_roundtrip:
  "(1 \<le> c \<and> c \<le> 13 \<longrightarrow> ieee80211_freq_to_channel (ieee80211_channel_to_frequency c NL80211_BAND_2GHZ) = c)
   \<and> (36 \<le> c \<and> c \<le> 165 \<longrightarrow> ieee80211_freq_to_channel (ieee80211_channel_to_frequency c NL80211_BAND_5GHZ) = c)
   \<and> ieee80211_freq_to_channel 2484 = 15 \<and> ieee80211_channel_to_frequency 14 NL80211_BAND_2GHZ = 2477"
  by (auto simp: ieee80211_freq_to_channel_def ieee80211_channel_to_frequency_def)

theorem channel_frequency_roundtrip_witness:
  "ieee80211_freq_to_channel (ieee80211_channel_to_frequency 36 NL80211_BAND_5GHZ) = 36"
  using channel_frequency_roundtrip [of 36] by simp

text \<open>
  The registry never hands out a stale hardware structure. A successful allocation is the
  registered structure, its wireless device finds it again and no other, it has a channel to
  dereference; freeing it releases both allocations, clears the registration, and lookups answer
  NULL. An allocation that fails at either step changes nothing.
\<close>

theorem hw_registry_lifecycle:
  assumes "hwp \<noteq> 0" "wp \<noteq> 0" "hw_store st hwp = None" "wiphy_store st wp = None" "w \<noteq> wp"
  shows "(case ieee80211_alloc_hw hwp wp ops st of (hw, st1) \<Rightarrow>
            hw = hwp \<and> rtw88_get_hw st1 = hw \<and> wiphy_to_ieee80211_hw wp st1 = Some hw
          \<and> wiphy_to_ieee80211_hw w st1 = Some 0
          \<and> (\<exists>h. hw_store st1 hw = Some h \<and> cd_chan (cf_chandef (hw_conf h)) \<noteq> None
               \<and> wy_dev (the (wiphy_store st1 wp)) = hw_priv h)
          \<and> ieee80211_free_hw hw st1 = Some (st\<lparr>g_rtw88_hw := 0\<rparr>)
          \<and> wiphy_to_ieee80211_hw wp (st\<lparr>g_rtw88_hw := 0\<rparr>) = Some 0)
       \<and> ieee80211_alloc_hw 0 wp ops st = (0, st) \<and> ieee80211_alloc_hw hwp 0 ops st = (0, st)"
  using assms
  by (simp add: ieee80211_alloc_hw_def rtw88_register_hw_def rtw88_get_hw_def wiphy_to_ieee80211_hw_def
      ieee80211_free_hw_def rtw88_unregister_hw_def free_wiphy_def fun_upd_idem zero_wiphy_def)

theorem hw_registry_lifecycle_witness:
  "ieee80211_free_hw 4096 (snd (ieee80211_alloc_hw 4096 8192 0 \<lparr>g_rtw88_hw = 0, hw_store = Map.empty, wiphy_store = Map.empty\<rparr>))
     = Some \<lparr>g_rtw88_hw = 0, hw_store = Map.empty, wiphy_store = Map.empty\<rparr>"
  using hw_registry_lifecycle [of 4096 8192 "\<lparr>g_rtw88_hw = 0, hw_store = Map.empty, wiphy_store = Map.empty\<rparr>" 1 0]
  by (auto split: prod.splits)

end
