(* ===== verification/MgmtFrames.thy ===== *)
theory MgmtFrames
  imports MacStation "HOL-Library.Monad_Syntax"
begin

text \<open>
  Validation of management responses (\<open>RTW88MgmtValidation.hpp\<close>) and the RSN element
  (\<open>rtw88ReadSuite\<close> to \<open>rtw88BuildSelectedRsnIe\<close> of \<open>RTW88IEEE80211.cpp\<close>). A pointer into received
  data with the end of the data is the list of the bytes from the pointer to the end; a read
  beyond the end is the result \<open>None\<close>. What the source returns is inside \<open>Some\<close>.
\<close>

section \<open>Authentication and association responses\<close>

definition differs :: "bytes \<Rightarrow> nat \<Rightarrow> bytes \<Rightarrow> nat \<Rightarrow> bool option" where
  "differs f i g j = do { a \<leftarrow> rd f i; b \<leftarrow> rd g j; Some (a \<noteq> b) }"

fun peer_loop :: "bytes \<Rightarrow> bytes \<Rightarrow> bytes \<Rightarrow> nat list \<Rightarrow> bool option" where
  "peer_loop f mac bssid [] = Some True"
| "peer_loop f mac bssid (i # is) =
     do { d1 \<leftarrow> differs f (4 + i) mac i;
          if d1 then Some False else
          do { d2 \<leftarrow> differs f (10 + i) bssid i;
               if d2 then Some False else
               do { d3 \<leftarrow> differs f (16 + i) bssid i;
                    if d3 then Some False else peer_loop f mac bssid is }}}"

definition rtw88ResponsePeer :: "bytes option \<Rightarrow> nat \<Rightarrow> bytes option \<Rightarrow> bytes option \<Rightarrow> bool option" where
  "rtw88ResponsePeer f n mac bssid =
     (case (f, mac, bssid) of
        (Some f, Some mac, Some bssid) \<Rightarrow> if n < 30 then Some False else peer_loop f mac bssid [0 ..< 6]
      | _ \<Rightarrow> Some False)"

text \<open>The value written through \<open>status\<close>, when the function returns true.\<close>

definition rtw88AuthResponse ::
  "bytes option \<Rightarrow> nat \<Rightarrow> bytes option \<Rightarrow> bytes option \<Rightarrow> bool \<Rightarrow> u16 option option" where
  "rtw88AuthResponse f n mac bssid status =
     (if \<not> status then Some None
      else do { peer \<leftarrow> rtw88ResponsePeer f n mac bssid;
                if \<not> peer then Some None
                else (case f of None \<Rightarrow> Some None | Some f \<Rightarrow>
                  do { f0 \<leftarrow> rd f 0; f24 \<leftarrow> rd f 24; f25 \<leftarrow> rd f 25; f26 \<leftarrow> rd f 26; f27 \<leftarrow> rd f 27;
                       if f0 AND 0xfc \<noteq> 0xb0 \<or> f24 \<noteq> 0 \<or> f25 \<noteq> 0 \<or> f26 \<noteq> 2 \<or> f27 \<noteq> 0 then Some None
                       else do { f28 \<leftarrow> rd f 28; f29 \<leftarrow> rd f 29; Some (Some (le16_of f28 f29)) }}) })"

text \<open>The result and, when they were written, the status and the association number.\<close>

definition rtw88AssocResponse ::
  "bytes option \<Rightarrow> nat \<Rightarrow> bytes option \<Rightarrow> bytes option \<Rightarrow> bool \<Rightarrow> bool \<Rightarrow> (bool \<times> (u16 \<times> u16) option) option" where
  "rtw88AssocResponse f n mac bssid status aid =
     (if \<not> status \<or> \<not> aid then Some (False, None)
      else do { peer \<leftarrow> rtw88ResponsePeer f n mac bssid;
                if \<not> peer then Some (False, None)
                else (case f of None \<Rightarrow> Some (False, None) | Some f \<Rightarrow>
                  do { f0 \<leftarrow> rd f 0;
                       if f0 AND 0xfc \<noteq> 0x10 \<and> f0 AND 0xfc \<noteq> 0x30 then Some (False, None)
                       else do { f26 \<leftarrow> rd f 26; f27 \<leftarrow> rd f 27; f28 \<leftarrow> rd f 28; f29 \<leftarrow> rd f 29;
                                 let st = le16_of f26 f27; a = le16_of f28 f29 AND 0x3fff
                                 in Some (st \<noteq> 0 \<or> 1 \<le> a \<and> a \<le> 2007, Some (st, a)) }}) })"

lemma differs_in [simp]:
  "i < length f \<Longrightarrow> j < length g \<Longrightarrow> differs f i g j = Some (f ! i \<noteq> g ! j)"
  by (simp add: differs_def)

lemma peer_loop_result:
  assumes "22 \<le> length f" "length mac = 6" "length bssid = 6" "set is \<subseteq> {..<6}"
  shows "peer_loop f mac bssid is
           = Some (\<forall>i \<in> set is. f ! (4 + i) = mac ! i \<and> f ! (10 + i) = bssid ! i \<and> f ! (16 + i) = bssid ! i)"
  using assms(4) by (induction "is") (use assms in \<open>auto\<close>)

lemma six_bytes_eq:
  "k + 6 \<le> length f \<Longrightarrow> length g = 6 \<Longrightarrow> (\<forall>i < 6. f ! (k + i) = g ! i) \<longleftrightarrow> block f k 6 = g"
  by (auto simp: list_eq_iff_nth_eq buf_simps)

lemma response_peer_result:
  assumes "n \<le> length f" "length mac = 6" "length bssid = 6"
  shows "rtw88ResponsePeer (Some f) n (Some mac) (Some bssid)
           = Some (30 \<le> n \<and> block f 4 6 = mac \<and> block f 10 6 = bssid \<and> block f 16 6 = bssid)"
proof (cases "n < 30")
  case False
  then have L: "30 \<le> length f" using assms(1) by simp
  have "rtw88ResponsePeer (Some f) n (Some mac) (Some bssid)
      = Some (\<forall>i \<in> {..<6}. f ! (4 + i) = mac ! i \<and> f ! (10 + i) = bssid ! i \<and> f ! (16 + i) = bssid ! i)"
    using False L assms peer_loop_result [of f mac bssid "[0 ..< 6]"]
    by (simp add: rtw88ResponsePeer_def atLeast0LessThan del: upt_rec_numeral)
  also have "\<dots> = Some ((\<forall>i < 6. f ! (4 + i) = mac ! i) \<and> (\<forall>i < 6. f ! (10 + i) = bssid ! i)
                         \<and> (\<forall>i < 6. f ! (16 + i) = bssid ! i))"
    by auto
  finally show ?thesis
    using False L six_bytes_eq [of 4 f mac] six_bytes_eq [of 10 f bssid] six_bytes_eq [of 16 f bssid] assms(2,3) by simp
qed (simp add: rtw88ResponsePeer_def)

text \<open>
  C22: Only the target's answers move the connection on. On a received frame of any length and
  contents, neither check reads outside the frame. An authentication response is accepted exactly
  when it has at least 30 bytes, is addressed to this station by the target BSS, is an
  authentication frame of the open system, second in the sequence; its status is reported. An
  association response is accepted exactly when it comes from the target, is an association or
  reassociation response and either reports a failure or carries an association number from 1
  to 2007.
\<close>

theorem mgmt_response_validation:
  assumes "length mac = 6" and "length bssid = 6"
  shows "(\<exists>r. rtw88AuthResponse (Some f) (length f) (Some mac) (Some bssid) True = Some r
            \<and> (r \<noteq> None \<longleftrightarrow> 30 \<le> length f \<and> block f 4 6 = mac \<and> block f 10 6 = bssid \<and> block f 16 6 = bssid
                 \<and> f ! 0 AND 0xfc = 0xb0 \<and> le16_of (f ! 24) (f ! 25) = 0 \<and> le16_of (f ! 26) (f ! 27) = 2)
            \<and> (r \<noteq> None \<longrightarrow> r = Some (le16_of (f ! 28) (f ! 29))))
       \<and> (\<exists>ok out. rtw88AssocResponse (Some f) (length f) (Some mac) (Some bssid) True True = Some (ok, out)
            \<and> (ok \<longleftrightarrow> 30 \<le> length f \<and> block f 4 6 = mac \<and> block f 10 6 = bssid \<and> block f 16 6 = bssid
                 \<and> f ! 0 AND 0xfc \<in> {0x10, 0x30}
                 \<and> (le16_of (f ! 26) (f ! 27) \<noteq> 0 \<or> le16_of (f ! 28) (f ! 29) AND 0x3fff \<in> {1..2007}))
            \<and> (ok \<longrightarrow> out = Some (le16_of (f ! 26) (f ! 27), le16_of (f ! 28) (f ! 29) AND 0x3fff)))"
proof -
  have le16_eq: "le16_of a b = le16_of c d \<longleftrightarrow> a = c \<and> b = d" for a b c d
    by (metis hi8_le16_of lo8_le16_of)
  have const: "0 = le16_of 0 0" "2 = le16_of 2 0" by (simp_all add: le16_of_def)
  let ?peer = "30 \<le> length f \<and> block f 4 6 = mac \<and> block f 10 6 = bssid \<and> block f 16 6 = bssid"
  have P: "rtw88ResponsePeer (Some f) (length f) (Some mac) (Some bssid) = Some ?peer"
    by (rule response_peer_result [OF order_refl assms])
  show ?thesis
  proof (cases ?peer)
    case True
    then have L: "30 \<le> length f" by blast
    have z: "le16_of (f ! 24) (f ! 25) = 0 \<longleftrightarrow> f ! 24 = 0 \<and> f ! 25 = 0"
      "le16_of (f ! 26) (f ! 27) = 2 \<longleftrightarrow> f ! 26 = 2 \<and> f ! 27 = 0"
      unfolding const le16_eq by simp_all
    have R: "rd f k = Some (f ! k)" if "k < 30" for k using L that by simp
    have "rtw88AuthResponse (Some f) (length f) (Some mac) (Some bssid) True
        = Some (if f ! 0 AND 0xfc = 0xb0 \<and> f ! 24 = 0 \<and> f ! 25 = 0 \<and> f ! 26 = 2 \<and> f ! 27 = 0
                then Some (le16_of (f ! 28) (f ! 29)) else None)"
      using True by (simp add: rtw88AuthResponse_def P R)
    moreover have "rtw88AssocResponse (Some f) (length f) (Some mac) (Some bssid) True True
        = Some (if f ! 0 AND 0xfc = 0x10 \<or> f ! 0 AND 0xfc = 0x30
                then (le16_of (f ! 26) (f ! 27) \<noteq> 0 \<or> le16_of (f ! 28) (f ! 29) AND 0x3fff \<in> {1..2007},
                      Some (le16_of (f ! 26) (f ! 27), le16_of (f ! 28) (f ! 29) AND 0x3fff))
                else (False, None))"
      using True by (simp add: rtw88AssocResponse_def P R Let_def)
    ultimately show ?thesis using True z by simp
  next
    case False
    then have "rtw88AuthResponse (Some f) (length f) (Some mac) (Some bssid) True = Some None"
      "rtw88AssocResponse (Some f) (length f) (Some mac) (Some bssid) True True = Some (False, None)"
      by (simp_all only: rtw88AuthResponse_def rtw88AssocResponse_def P bind.bind_lunit not_True_eq_False
          not_False_eq_True if_True if_False simp_thms)
    with False show ?thesis by blast
  qed
qed

definition demo_auth :: bytes where
  "demo_auth = [0xb0, 0, 0, 0, 1, 2, 3, 4, 5, 6, 7, 8, 9, 10, 11, 12, 7, 8, 9, 10, 11, 12, 0, 0, 0, 0, 2, 0, 0, 0]"

lemma demo_auth_fields:
  "length demo_auth = 30" "block demo_auth 4 6 = [1, 2, 3, 4, 5, 6]" "block demo_auth 10 6 = [7, 8, 9, 10, 11, 12]"
  "block demo_auth 16 6 = [7, 8, 9, 10, 11, 12]" "demo_auth ! 0 AND 0xfc = 0xb0"
  "le16_of (demo_auth ! 24) (demo_auth ! 25) = 0" "le16_of (demo_auth ! 26) (demo_auth ! 27) = 2"
  "le16_of (demo_auth ! 28) (demo_auth ! 29) = 0"
  by (simp_all add: demo_auth_def block_def le16_of_def)

theorem mgmt_response_validation_witness:
  "rtw88AuthResponse (Some demo_auth) (length demo_auth) (Some [1, 2, 3, 4, 5, 6]) (Some [7, 8, 9, 10, 11, 12]) True
     = Some (Some 0)"
  using mgmt_response_validation [of "[1, 2, 3, 4, 5, 6]" "[7, 8, 9, 10, 11, 12]" demo_auth]
  by (auto simp: demo_auth_fields)

section \<open>The RSN element\<close>

definition be32_of :: "u8 \<Rightarrow> u8 \<Rightarrow> u8 \<Rightarrow> u8 \<Rightarrow> u32" where
  "be32_of b0 b1 b2 b3 = push_bit 24 (ucast b0) OR push_bit 16 (ucast b1) OR push_bit 8 (ucast b2) OR ucast b3"

definition rtw88ReadSuite :: "bytes \<Rightarrow> u32 option" where
  "rtw88ReadSuite p =
     do { b0 \<leftarrow> rd p 0; b1 \<leftarrow> rd p 1; b2 \<leftarrow> rd p 2; b3 \<leftarrow> rd p 3;
          Some (be32_of b0 b1 b2 b3) }"

definition rtw88WriteSuite :: "u32 \<Rightarrow> bytes" where
  "rtw88WriteSuite suite =
     [ucast (drop_bit 24 suite), ucast (drop_bit 16 suite), ucast (drop_bit 8 suite), ucast suite]"

definition SUITE_PSK :: u32 where
  "SUITE_PSK = 0x000FAC02"

text \<open>The two counting loops: whether one of the next \<open>n\<close> suites is \<open>s\<close>, and the pointer after them.\<close>

fun has_suite :: "nat \<Rightarrow> bytes \<Rightarrow> u32 \<Rightarrow> (bool \<times> bytes) option" where
  "has_suite 0 p s = Some (False, p)"
| "has_suite (Suc n) p s =
     do { v \<leftarrow> rtw88ReadSuite p; (b, q) \<leftarrow> has_suite n (drop 4 p) s; Some (v = s \<or> b, q) }"

text \<open>A suite list: its 16-bit count, checked against what is left, then the suites.\<close>

definition suite_list :: "bytes \<Rightarrow> u32 \<Rightarrow> (bool \<times> bytes) option option" where
  "suite_list p s =
     (if length p < 2 then Some None
      else do { lo \<leftarrow> rd p 0; hi \<leftarrow> rd p 1;
                let count = unat (le16_of lo hi); p = drop 2 p
                in if count > length p div 4 then Some None else map_option Some (has_suite count p s) })"

text \<open>From the pairwise count to the end, with the group cipher read before it.\<close>

definition select_suites :: "u32 \<Rightarrow> bytes \<Rightarrow> (u32 \<times> u32) option option" where
  "select_suites grp p =
     do { pw \<leftarrow> suite_list p WLAN_CIPHER_SUITE_CCMP;
          case pw of None \<Rightarrow> Some None
          | Some (hasCcmp, p2) \<Rightarrow>
              do { akm \<leftarrow> suite_list p2 SUITE_PSK;
                   case akm of None \<Rightarrow> Some None
                   | Some (hasPsk, p3) \<Rightarrow>
                       if \<not> hasCcmp \<or> \<not> hasPsk then Some None
                       else if grp \<noteq> WLAN_CIPHER_SUITE_CCMP \<and> grp \<noteq> WLAN_CIPHER_SUITE_TKIP then Some None
                       else Some (Some (WLAN_CIPHER_SUITE_CCMP, grp)) }}"

text \<open>\<open>rsn\<close> has at least \<open>n\<close> bytes. \<open>Some None\<close>: the function returns false.\<close>

definition rtw88RsnSelectCcmpPsk :: "bytes option \<Rightarrow> nat \<Rightarrow> (u32 \<times> u32) option option" where
  "rtw88RsnSelectCcmpPsk rsn n =
     (case rsn of None \<Rightarrow> Some None
      | Some rsn \<Rightarrow>
          if n < 8 then Some None
          else let p = take n rsn
          in do { v0 \<leftarrow> rd p 0; v1 \<leftarrow> rd p 1;
                  if v0 \<noteq> 1 \<or> v1 \<noteq> 0 then Some None
                  else do { grp \<leftarrow> rtw88ReadSuite (drop 2 p); select_suites grp (drop 6 p) }})"

definition rtw88BuildSelectedRsnIe :: "u32 \<Rightarrow> bytes" where
  "rtw88BuildSelectedRsnIe group_cipher =
     (let g = (if group_cipher \<noteq> WLAN_CIPHER_SUITE_TKIP then WLAN_CIPHER_SUITE_CCMP else group_cipher)
      in [48, 20, 1, 0] @ rtw88WriteSuite g @ [1, 0] @ rtw88WriteSuite WLAN_CIPHER_SUITE_CCMP
         @ [1, 0] @ rtw88WriteSuite SUITE_PSK @ [0, 0])"

text \<open>The format: the body of an RSN element.\<close>

definition rsn_body :: "u32 \<Rightarrow> u32 list \<Rightarrow> u32 list \<Rightarrow> bytes \<Rightarrow> bytes" where
  "rsn_body grp pw akms rest =
     [1, 0] @ rtw88WriteSuite grp
     @ [lo8 (of_nat (length pw)), hi8 (of_nat (length pw))] @ concat (map rtw88WriteSuite pw)
     @ [lo8 (of_nat (length akms)), hi8 (of_nat (length akms))] @ concat (map rtw88WriteSuite akms) @ rest"

lemma length_WriteSuite [simp]: "length (rtw88WriteSuite s) = 4"
  by (simp add: rtw88WriteSuite_def)

lemma bytes_of_u32 [simp]:
  "be32_of (ucast (drop_bit 24 s)) (ucast (drop_bit 16 s)) (ucast (drop_bit 8 s)) (ucast s) = s"
proof (rule bit_word_eqI)
  fix n assume "n < LENGTH(32)"
  then consider "n < 8" | "8 \<le> n" "n < 16" | "16 \<le> n" "n < 24" | "24 \<le> n" "n < 32" by fastforce
  then show "bit (be32_of (ucast (drop_bit 24 s)) (ucast (drop_bit 16 s)) (ucast (drop_bit 8 s)) (ucast s)) n = bit s n"
    by cases (auto simp: be32_of_def bit_simps)
qed

lemma u32_of_bytes [simp]:
  "ucast (drop_bit 24 (be32_of b0 b1 b2 b3)) = b0" "ucast (drop_bit 16 (be32_of b0 b1 b2 b3)) = b1"
  "ucast (drop_bit 8 (be32_of b0 b1 b2 b3)) = b2" "ucast (be32_of b0 b1 b2 b3) = b3"
  by (rule bit_word_eqI; auto simp: be32_of_def bit_simps dest: bit_u8_iff)+

lemma read_write_suite [simp]: "rtw88ReadSuite (rtw88WriteSuite s @ p) = Some s"
  by (simp add: rtw88ReadSuite_def rtw88WriteSuite_def rd_def)

lemma read_suite_exhaust:
  assumes "4 \<le> length p"
  obtains s where "rtw88ReadSuite p = Some s" "p = rtw88WriteSuite s @ drop 4 p"
proof -
  obtain b0 b1 b2 b3 q where p: "p = b0 # b1 # b2 # b3 # q"
    using assms by (auto simp: numeral_eq_Suc Suc_le_length_iff)
  show ?thesis
    by (rule that [of "be32_of b0 b1 b2 b3"]) (simp_all add: p rtw88ReadSuite_def rtw88WriteSuite_def rd_def)
qed

lemma WriteSuite_inject [simp]: "rtw88WriteSuite a = rtw88WriteSuite b \<longleftrightarrow> a = b"
  by (metis append_Nil2 option.inject read_write_suite)

lemma has_suite_parse:
  assumes "4 * n \<le> length p"
  shows "\<exists>ss. length ss = n \<and> p = concat (map rtw88WriteSuite ss) @ drop (4 * n) p
            \<and> has_suite n p s = Some (s \<in> set ss, drop (4 * n) p)"
  using assms
proof (induction n arbitrary: p)
  case 0
  then show ?case by simp
next
  case (Suc n)
  then obtain t where t: "rtw88ReadSuite p = Some t" "p = rtw88WriteSuite t @ drop 4 p"
    using read_suite_exhaust [of p] by auto
  have "4 * n \<le> length (drop 4 p)" using Suc.prems by simp
  from Suc.IH [OF this] obtain ss where
    ss: "length ss = n" "drop 4 p = concat (map rtw88WriteSuite ss) @ drop (4 * n) (drop 4 p)"
      "has_suite n (drop 4 p) s = Some (s \<in> set ss, drop (4 * n) (drop 4 p))"
    by blast
  have "p = concat (map rtw88WriteSuite (t # ss)) @ drop (4 * Suc n) p"
    using t(2) ss(2) by (simp add: add.commute)
  moreover have "has_suite (Suc n) p s = Some (s \<in> set (t # ss), drop (4 * Suc n) p)"
    using t(1) ss(3) by (auto simp: add.commute)
  ultimately show ?case using ss(1) by (intro exI [of _ "t # ss"]) simp
qed

lemma length_suites [simp]: "length (concat (map rtw88WriteSuite ss)) = 4 * length ss"
  by (induction ss) simp_all

lemma has_suite_encoded:
  "has_suite (length ss) (concat (map rtw88WriteSuite ss) @ q) s = Some (s \<in> set ss, q)"
  by (induction ss) auto

definition suite_bytes :: "u32 list \<Rightarrow> bytes" where
  "suite_bytes ss = [lo8 (of_nat (length ss)), hi8 (of_nat (length ss))] @ concat (map rtw88WriteSuite ss)"

text \<open>A list of fewer than \<open>2 ^ 14\<close> suites is found exactly where it is encoded.\<close>

lemma suite_list_total: "\<exists>r. suite_list p s = Some r"
proof (cases "length p < 2")
  case False
  then have "rd p 0 = Some (p ! 0)" "rd p 1 = Some (p ! 1)" by (auto intro: rd_Some)
  with False show ?thesis
  proof (cases "unat (le16_of (p ! 0) (p ! 1)) > length (drop 2 p) div 4")
    case le: False
    then have "4 * unat (le16_of (p ! 0) (p ! 1)) \<le> length (drop 2 p)" by linarith
    from has_suite_parse [OF this, of s] obtain r where
      "has_suite (unat (le16_of (p ! 0) (p ! 1))) (drop 2 p) s = Some r" by blast
    then have "suite_list p s = Some (Some r)"
      unfolding suite_list_def Let_def using \<open>\<not> length p < 2\<close> le \<open>rd p 0 = _\<close> \<open>rd p 1 = _\<close>
      by (simp only: if_False bind.bind_lunit option.map)
    then show ?thesis by blast
  qed (simp add: suite_list_def)
qed (simp add: suite_list_def)

lemma suite_list_sound:
  assumes "suite_list p s = Some (Some (b, q))"
  shows "\<exists>ss. p = suite_bytes ss @ q \<and> b = (s \<in> set ss)"
proof -
  obtain lo hi p' where p: "p = lo # hi # p'"
    using assms by (cases p rule: list.exhaust; cases "tl p") (auto simp: suite_list_def)
  let ?n = "unat (le16_of lo hi)"
  have le: "4 * ?n \<le> length p'" and h: "has_suite ?n p' s = Some (b, q)"
    using assms by (auto simp: suite_list_def p rd_def Let_def split: if_splits)
  from has_suite_parse [OF le, of s] h obtain ss where
    "length ss = ?n" "p' = concat (map rtw88WriteSuite ss) @ q" "b = (s \<in> set ss)" by auto
  then show ?thesis by (intro exI [of _ ss]) (simp add: p suite_bytes_def)
qed

lemma suite_list_complete:
  assumes "length ss < 2 ^ 16"
  shows "suite_list (suite_bytes ss @ q) s = Some (Some (s \<in> set ss, q))"
proof -
  have "unat (of_nat (length ss) :: u16) = length ss"
    using assms by (intro unat_of_nat_small) simp
  then show ?thesis
    by (simp add: suite_list_def suite_bytes_def rd_def Let_def has_suite_encoded)
qed

lemma length_suite_bytes: "length (suite_bytes ss) = 2 + 4 * length ss"
  by (simp add: suite_bytes_def)

lemma rsn_body_alt: "rsn_body grp pw akm rest = [1, 0] @ rtw88WriteSuite grp @ suite_bytes pw @ suite_bytes akm @ rest"
  by (simp add: rsn_body_def suite_bytes_def)

lemma select_total: "\<exists>r. select_suites grp p = Some r"
proof -
  obtain r1 where r1: "suite_list p WLAN_CIPHER_SUITE_CCMP = Some r1" using suite_list_total by blast
  show ?thesis
  proof (cases r1)
    case (Some hp)
    obtain r2 where "suite_list (snd hp) SUITE_PSK = Some r2" using suite_list_total by blast
    then show ?thesis using r1 Some by (cases hp; cases r2) (auto simp: select_suites_def)
  qed (simp add: select_suites_def r1)
qed

lemma select_sound:
  assumes "select_suites grp p = Some (Some (c, g))"
  shows "c = WLAN_CIPHER_SUITE_CCMP \<and> g = grp \<and> g \<in> {WLAN_CIPHER_SUITE_CCMP, WLAN_CIPHER_SUITE_TKIP}
      \<and> (\<exists>pw akm rest. p = suite_bytes pw @ suite_bytes akm @ rest \<and> WLAN_CIPHER_SUITE_CCMP \<in> set pw \<and> SUITE_PSK \<in> set akm)"
proof -
  from assms obtain p2 p3 where
    pp: "suite_list p WLAN_CIPHER_SUITE_CCMP = Some (Some (True, p2))" "suite_list p2 SUITE_PSK = Some (Some (True, p3))"
      "c = WLAN_CIPHER_SUITE_CCMP" "g = grp" "g \<in> {WLAN_CIPHER_SUITE_CCMP, WLAN_CIPHER_SUITE_TKIP}"
    by (auto simp: select_suites_def bind_eq_Some_iff split: option.splits if_splits)
  from suite_list_sound [OF pp(1)] suite_list_sound [OF pp(2)] obtain pw akm where
    "p = suite_bytes pw @ p2" "WLAN_CIPHER_SUITE_CCMP \<in> set pw" "p2 = suite_bytes akm @ p3" "SUITE_PSK \<in> set akm"
    by auto
  with pp(3-5) show ?thesis by blast
qed

lemma select_complete:
  assumes "WLAN_CIPHER_SUITE_CCMP \<in> set pw" "SUITE_PSK \<in> set akm" "length pw < 2 ^ 16" "length akm < 2 ^ 16"
    "grp \<in> {WLAN_CIPHER_SUITE_CCMP, WLAN_CIPHER_SUITE_TKIP}"
  shows "select_suites grp (suite_bytes pw @ suite_bytes akm @ rest) = Some (Some (WLAN_CIPHER_SUITE_CCMP, grp))"
  using assms by (auto simp: select_suites_def suite_list_complete)

lemma rsn_select_unfold:
  assumes "8 \<le> length e"
  obtains v0 v1 grp p where "e = [v0, v1] @ rtw88WriteSuite grp @ p"
    "rtw88RsnSelectCcmpPsk (Some e) (length e) = (if v0 = 1 \<and> v1 = 0 then select_suites grp p else Some None)"
proof -
  obtain v0 v1 e2 where e: "e = v0 # v1 # e2" "4 \<le> length e2"
    using assms by (auto simp: numeral_eq_Suc Suc_le_length_iff)
  obtain grp where grp: "rtw88ReadSuite e2 = Some grp" "e2 = rtw88WriteSuite grp @ drop 4 e2"
    using e(2) by (rule read_suite_exhaust)
  show ?thesis
  proof (rule that [of v0 v1 grp "drop 4 e2"])
    show "e = [v0, v1] @ rtw88WriteSuite grp @ drop 4 e2" using e grp by simp
    show "rtw88RsnSelectCcmpPsk (Some e) (length e) = (if v0 = 1 \<and> v1 = 0 then select_suites grp (drop 4 e2) else Some None)"
      using assms grp(1) by (simp add: rtw88RsnSelectCcmpPsk_def e(1) rd_def)
  qed
qed

lemma rsn_body_eq_iff:
  "[v0, v1] @ rtw88WriteSuite grp @ p = rsn_body g pw akm rest \<longleftrightarrow>
     v0 = 1 \<and> v1 = 0 \<and> grp = g \<and> p = suite_bytes pw @ suite_bytes akm @ rest"
  by (auto simp: rsn_body_alt)

text \<open>
  The RSN element parser is exact and memory safe. For any element contents of at most 255 bytes it
  never reads outside the element, and it selects a network exactly when the contents are an RSN
  body of version 1 whose group cipher is CCMP or TKIP, whose pairwise list names CCMP and whose
  key management list names PSK; it then answers CCMP with that group cipher.
\<close>

theorem rsn_select_correct:
  assumes "length e \<le> 255"
  shows "\<exists>r. rtw88RsnSelectCcmpPsk (Some e) (length e) = Some r
           \<and> (r = Some (c, g) \<longleftrightarrow>
                c = WLAN_CIPHER_SUITE_CCMP \<and> g \<in> {WLAN_CIPHER_SUITE_CCMP, WLAN_CIPHER_SUITE_TKIP}
                \<and> (\<exists>pw akm rest. e = rsn_body g pw akm rest
                     \<and> WLAN_CIPHER_SUITE_CCMP \<in> set pw \<and> SUITE_PSK \<in> set akm))"
proof (cases "length e < 8")
  case True
  then have "e \<noteq> rsn_body g pw akm rest" for pw akm rest
    by (auto simp: rsn_body_alt length_suite_bytes)
  with True show ?thesis by (simp add: rtw88RsnSelectCcmpPsk_def)
next
  case False
  then have "8 \<le> length e" by simp
  then obtain v0 v1 grp p where e: "e = [v0, v1] @ rtw88WriteSuite grp @ p"
    and sel: "rtw88RsnSelectCcmpPsk (Some e) (length e) = (if v0 = 1 \<and> v1 = 0 then select_suites grp p else Some None)"
    by (rule rsn_select_unfold)
  have lp: "length p \<le> 255" using assms e by simp
  obtain r where r: "select_suites grp p = Some r" using select_total by blast
  have small: "length pw < 2 ^ 16 \<and> length akm < 2 ^ 16" if "p = suite_bytes pw @ suite_bytes akm @ rest" for pw akm rest
    using lp that by (simp add: length_suite_bytes)
  have "r = Some (c, g) \<longleftrightarrow> c = WLAN_CIPHER_SUITE_CCMP \<and> g \<in> {WLAN_CIPHER_SUITE_CCMP, WLAN_CIPHER_SUITE_TKIP} \<and> grp = g
      \<and> (\<exists>pw akm rest. p = suite_bytes pw @ suite_bytes akm @ rest \<and> WLAN_CIPHER_SUITE_CCMP \<in> set pw \<and> SUITE_PSK \<in> set akm)"
    (is "_ \<longleftrightarrow> ?ok")
  proof
    assume "r = Some (c, g)"
    with r have "select_suites grp p = Some (Some (c, g))" by simp
    from select_sound [OF this] show ?ok by blast
  next
    assume ok: ?ok
    then obtain pw akm rest where p: "p = suite_bytes pw @ suite_bytes akm @ rest" "WLAN_CIPHER_SUITE_CCMP \<in> set pw"
      "SUITE_PSK \<in> set akm" by blast
    have "select_suites grp p = Some (Some (WLAN_CIPHER_SUITE_CCMP, grp))"
      unfolding p(1) using p(2,3) small [OF p(1)] ok by (intro select_complete) simp_all
    then show "r = Some (c, g)" using r ok by simp
  qed
  moreover have "(\<exists>pw akm rest. e = rsn_body g pw akm rest \<and> Q pw akm) \<longleftrightarrow>
      v0 = 1 \<and> v1 = 0 \<and> grp = g \<and> (\<exists>pw akm rest. p = suite_bytes pw @ suite_bytes akm @ rest \<and> Q pw akm)" for Q
    unfolding e rsn_body_eq_iff by blast
  ultimately show ?thesis
    by (cases "v0 = 1 \<and> v1 = 0") (simp_all add: sel r, blast?)
qed

theorem rsn_select_correct_witness:
  "rtw88RsnSelectCcmpPsk (Some (rsn_body WLAN_CIPHER_SUITE_TKIP [WLAN_CIPHER_SUITE_CCMP] [SUITE_PSK] []))
     (length (rsn_body WLAN_CIPHER_SUITE_TKIP [WLAN_CIPHER_SUITE_CCMP] [SUITE_PSK] []))
     = Some (Some (WLAN_CIPHER_SUITE_CCMP, WLAN_CIPHER_SUITE_TKIP))"
proof -
  let ?e = "rsn_body WLAN_CIPHER_SUITE_TKIP [WLAN_CIPHER_SUITE_CCMP] [SUITE_PSK] []"
  have "length ?e \<le> 255" by (simp add: rsn_body_alt length_suite_bytes)
  moreover have "WLAN_CIPHER_SUITE_CCMP \<in> set [WLAN_CIPHER_SUITE_CCMP]" "SUITE_PSK \<in> set [SUITE_PSK]" by simp_all
  ultimately show ?thesis
    using rsn_select_correct [of ?e WLAN_CIPHER_SUITE_CCMP WLAN_CIPHER_SUITE_TKIP] by blast
qed

text \<open>
  The RSN element sent in the association request is one the parser accepts: 22 bytes, element
  48 of length 20, selecting CCMP with the group cipher of the network when that is TKIP and CCMP
  otherwise.
\<close>

theorem rsn_build_roundtrip:
  "length (rtw88BuildSelectedRsnIe g) = 22 \<and> take 2 (rtw88BuildSelectedRsnIe g) = [48, 20]
   \<and> rtw88RsnSelectCcmpPsk (Some (drop 2 (rtw88BuildSelectedRsnIe g))) 20
       = Some (Some (WLAN_CIPHER_SUITE_CCMP,
                     if g = WLAN_CIPHER_SUITE_TKIP then WLAN_CIPHER_SUITE_TKIP else WLAN_CIPHER_SUITE_CCMP))"
proof -
  let ?g = "if g = WLAN_CIPHER_SUITE_TKIP then WLAN_CIPHER_SUITE_TKIP else WLAN_CIPHER_SUITE_CCMP"
  have b: "rtw88BuildSelectedRsnIe g = [48, 20] @ rsn_body ?g [WLAN_CIPHER_SUITE_CCMP] [SUITE_PSK] [0, 0]"
    by (simp add: rtw88BuildSelectedRsnIe_def rsn_body_def Let_def lo8_def hi8_def)
  have L: "length (rsn_body ?g [WLAN_CIPHER_SUITE_CCMP] [SUITE_PSK] [0, 0]) = 20"
    by (simp add: rsn_body_alt length_suite_bytes)
  show ?thesis
    unfolding b using L select_complete [where grp = ?g and pw = "[WLAN_CIPHER_SUITE_CCMP]" and akm = "[SUITE_PSK]" and rest = "[0, 0]"]
    by (simp add: rtw88RsnSelectCcmpPsk_def rsn_body_alt)
qed

end
