(* ===== verification/Hooks.thy ===== *)
theory Hooks
  imports MacStation
begin

text \<open>
  The hooks of \<open>rtw88_compat.c\<close> between the Linux driver and the kernel extension: interrupt and
  NAPI registration, the mac80211 callbacks, the initialisation of the layer, and the helpers
  that drive the rtw88 core for scanning and connecting. Function pointers are addresses (\<open>0\<close> is
  NULL); what an operation calls is the list of its events. The core of the driver is not part
  of the repository: its functions are a parameter \<open>core\<close> that may change the device.
\<close>

section \<open>State\<close>

record rtw88_hw_callbacks =
  cb_rx_frame :: ptr
  cb_tx_status :: ptr
  cb_scan_done :: ptr

record hooks =
  g_irq_handler :: ptr
  g_irq_thread_fn :: ptr
  g_irq_dev_id :: ptr
  g_irq_thread_call :: ptr
  g_vif :: ptr
  g_tx_resume_cb :: ptr
  g_hw_cbs :: "rtw88_hw_callbacks option"
  g_kext_hw :: ptr

datatype hook_event =
    CallIrq ptr ptr
  | CallIrqThread ptr ptr
  | CallTxResume ptr
  | CallRxFrame ptr ptr ptr
  | CallTxStatus ptr ptr ptr
  | CallScanDone ptr ptr bool
  | CallIterator ptr ptr ptr
  | CallPoll ptr ptr int
  | KfreeSkb ptr
  | TcEnter ptr
  | TcCancelWait ptr
  | TcFree ptr

section \<open>Interrupts\<close>

definition rtw88_register_vif :: "ptr \<Rightarrow> hooks \<Rightarrow> hooks" where
  "rtw88_register_vif vif g = g\<lparr>g_vif := vif\<rparr>"

definition rtw88_unregister_vif :: "hooks \<Rightarrow> hooks" where
  "rtw88_unregister_vif g = g\<lparr>g_vif := 0\<rparr>"

definition rtw88_set_tx_resume_cb :: "ptr \<Rightarrow> hooks \<Rightarrow> hooks" where
  "rtw88_set_tx_resume_cb f g = g\<lparr>g_tx_resume_cb := f\<rparr>"

definition rtw88_irq_thread_wrapper :: "hooks \<Rightarrow> hook_event list" where
  "rtw88_irq_thread_wrapper g =
     (if g_irq_thread_fn g \<noteq> 0 \<and> g_irq_dev_id g \<noteq> 0 then [CallIrqThread (g_irq_thread_fn g) (g_irq_dev_id g)] else [])
     @ (if g_tx_resume_cb g \<noteq> 0 then [CallTxResume (g_tx_resume_cb g)] else [])"

text \<open>\<open>be_ring_avail\<close> is the driver's count of free slots.\<close>

definition rtw88_be_tx_avail :: "(ptr \<Rightarrow> u32) \<Rightarrow> hooks \<Rightarrow> u32" where
  "rtw88_be_tx_avail be_ring_avail g = (if g_irq_dev_id g = 0 then 0 else be_ring_avail (g_irq_dev_id g))"

text \<open>\<open>tc\<close> is the result of \<open>thread_call_allocate\<close>, \<open>0\<close> when it fails.\<close>

definition rtw88_devm_request_threaded_irq :: "ptr \<Rightarrow> ptr \<Rightarrow> ptr \<Rightarrow> ptr \<Rightarrow> hooks \<Rightarrow> int \<times> hooks" where
  "rtw88_devm_request_threaded_irq tc handler thread_fn dev_id g =
     (0, g\<lparr>g_irq_handler := handler, g_irq_thread_fn := thread_fn, g_irq_dev_id := dev_id,
           g_irq_thread_call := (if g_irq_thread_call g = 0 then tc else g_irq_thread_call g)\<rparr>)"

definition rtw88_devm_free_irq :: "hooks \<Rightarrow> hook_event list \<times> hooks" where
  "rtw88_devm_free_irq g =
     (if g_irq_thread_call g \<noteq> 0 then [TcCancelWait (g_irq_thread_call g), TcFree (g_irq_thread_call g)] else [],
      g\<lparr>g_irq_thread_call := 0, g_irq_handler := 0, g_irq_thread_fn := 0, g_irq_dev_id := 0\<rparr>)"

definition IRQ_WAKE_THREAD :: int where
  "IRQ_WAKE_THREAD = 2"

text \<open>\<open>ret\<close> is what the handler returns.\<close>

definition rtw88_trigger_interrupt :: "int \<Rightarrow> hooks \<Rightarrow> hook_event list" where
  "rtw88_trigger_interrupt ret g =
     (if g_irq_handler g \<noteq> 0 \<and> g_irq_dev_id g \<noteq> 0
      then CallIrq (g_irq_handler g) (g_irq_dev_id g)
           # (if ret = IRQ_WAKE_THREAD \<and> g_irq_thread_call g \<noteq> 0 then [TcEnter (g_irq_thread_call g)] else [])
      else [])"

section \<open>NAPI and tasklets\<close>

record napi_struct =
  napi_dev :: ptr
  napi_poll :: ptr
  napi_weight :: int
  napi_running :: int
  napi_thread_call :: ptr

text \<open>\<open>work\<close> is what the poll function returns.\<close>

definition rtw88_napi_thread_wrapper :: "int \<Rightarrow> ptr \<Rightarrow> napi_struct \<Rightarrow> hook_event list" where
  "rtw88_napi_thread_wrapper work napi n =
     (if napi \<noteq> 0 \<and> napi_poll n \<noteq> 0
      then CallPoll (napi_poll n) napi (napi_weight n)
           # (if work \<ge> napi_weight n \<and> napi_thread_call n \<noteq> 0 then [TcEnter (napi_thread_call n)] else [])
      else [])"

definition rtw88_netif_napi_add :: "ptr \<Rightarrow> ptr \<Rightarrow> ptr \<Rightarrow> napi_struct \<Rightarrow> napi_struct" where
  "rtw88_netif_napi_add tc dev poll_fn n =
     n\<lparr>napi_dev := dev, napi_poll := poll_fn, napi_weight := 64, napi_running := 0,
       napi_thread_call := (if napi_thread_call n = 0 then tc else napi_thread_call n)\<rparr>"

definition rtw88_netif_napi_del :: "napi_struct \<Rightarrow> hook_event list \<times> napi_struct" where
  "rtw88_netif_napi_del n =
     (if napi_thread_call n \<noteq> 0 then [TcCancelWait (napi_thread_call n), TcFree (napi_thread_call n)] else [],
      n\<lparr>napi_thread_call := 0, napi_poll := 0, napi_dev := 0, napi_running := 0\<rparr>)"

definition rtw88_napi_schedule :: "ptr \<Rightarrow> napi_struct \<Rightarrow> hook_event list" where
  "rtw88_napi_schedule napi n =
     (if napi \<noteq> 0 \<and> napi_poll n \<noteq> 0 \<and> napi_thread_call n \<noteq> 0 then [TcEnter (napi_thread_call n)] else [])"

record tasklet_struct =
  tl_func :: ptr
  tl_data :: u64

definition tasklet_init :: "ptr \<Rightarrow> u64 \<Rightarrow> tasklet_struct \<Rightarrow> tasklet_struct" where
  "tasklet_init f d t = t\<lparr>tl_func := f, tl_data := d\<rparr>"

definition tasklet_schedule :: "tasklet_struct \<Rightarrow> (ptr \<times> u64) list" where
  "tasklet_schedule t = (if tl_func t \<noteq> 0 then [(tl_func t, tl_data t)] else [])"

section \<open>Callbacks into the extension\<close>

text \<open>\<open>reg\<close> is the registered hardware structure with its address, if any.\<close>

definition rtw88_set_hw_callbacks ::
  "rtw88_hw_callbacks option \<Rightarrow> ptr \<Rightarrow> ieee80211_hw option \<Rightarrow> hooks \<Rightarrow> ieee80211_hw option \<times> hooks" where
  "rtw88_set_hw_callbacks cbs kext_hw reg g =
     (map_option (\<lambda>hw. hw\<lparr>hw_kext_hw := kext_hw\<rparr>) reg, g\<lparr>g_hw_cbs := cbs, g_kext_hw := kext_hw\<rparr>)"

definition kext_ctx :: "ieee80211_hw option \<Rightarrow> hooks \<Rightarrow> ptr" where
  "kext_ctx hw g =
     (let ctx = (case hw of None \<Rightarrow> 0 | Some h \<Rightarrow> hw_kext_hw h) in if ctx = 0 then g_kext_hw g else ctx)"

definition ieee80211_rx_irqsafe :: "ieee80211_hw option \<Rightarrow> ptr \<Rightarrow> hooks \<Rightarrow> hook_event list" where
  "ieee80211_rx_irqsafe hw skb g =
     (case g_hw_cbs g of
        Some c \<Rightarrow> if cb_rx_frame c \<noteq> 0 then [CallRxFrame (cb_rx_frame c) (kext_ctx hw g) skb] else [KfreeSkb skb]
      | None \<Rightarrow> [KfreeSkb skb])"

definition ieee80211_rx_napi :: "ieee80211_hw option \<Rightarrow> ptr \<Rightarrow> hooks \<Rightarrow> hook_event list" where
  "ieee80211_rx_napi hw skb g = ieee80211_rx_irqsafe hw skb g"

definition ieee80211_tx_status_irqsafe :: "ieee80211_hw option \<Rightarrow> ptr \<Rightarrow> hooks \<Rightarrow> hook_event list" where
  "ieee80211_tx_status_irqsafe hw skb g =
     (case g_hw_cbs g of
        Some c \<Rightarrow> if cb_tx_status c \<noteq> 0 then [CallTxStatus (cb_tx_status c) (kext_ctx hw g) skb] else [KfreeSkb skb]
      | None \<Rightarrow> [KfreeSkb skb])"

definition ieee80211_tx_status :: "ieee80211_hw option \<Rightarrow> ptr \<Rightarrow> hooks \<Rightarrow> hook_event list" where
  "ieee80211_tx_status hw skb g = ieee80211_tx_status_irqsafe hw skb g"

definition ieee80211_free_txskb :: "ptr \<Rightarrow> hook_event list" where
  "ieee80211_free_txskb skb = [KfreeSkb skb]"

text \<open>\<open>aborted\<close> is the field of the info argument, \<open>None\<close> when that is NULL.\<close>

definition ieee80211_scan_completed :: "ieee80211_hw option \<Rightarrow> bool option \<Rightarrow> hooks \<Rightarrow> hook_event list" where
  "ieee80211_scan_completed hw aborted g =
     (case g_hw_cbs g of
        Some c \<Rightarrow> if cb_scan_done c \<noteq> 0
                  then [CallScanDone (cb_scan_done c) (kext_ctx hw g) (case aborted of None \<Rightarrow> False | Some a \<Rightarrow> a)] else []
      | None \<Rightarrow> [])"

definition ieee80211_iterate_active_interfaces :: "ptr \<Rightarrow> ptr \<Rightarrow> hooks \<Rightarrow> hook_event list" where
  "ieee80211_iterate_active_interfaces iterator d g =
     (if g_vif g \<noteq> 0 \<and> iterator \<noteq> 0 then [CallIterator iterator d (g_vif g)] else [])"

definition ieee80211_iterate_active_interfaces_atomic :: "ptr \<Rightarrow> ptr \<Rightarrow> hooks \<Rightarrow> hook_event list" where
  "ieee80211_iterate_active_interfaces_atomic iterator d g =
     (if g_vif g \<noteq> 0 \<and> iterator \<noteq> 0 then [CallIterator iterator d (g_vif g)] else [])"

section \<open>Initialisation of the layer\<close>

text \<open>
  The resources of the layer: the work lock, the log lock and the two system queues. The ledger
  lists what was acquired and released; \<open>ok r\<close> tells whether acquiring \<open>r\<close> succeeds. A queue also
  fails without the work lock, as \<open>alloc_workqueue\<close> does.
\<close>

datatype resource = WorkLock | LogLock | SystemWq | SystemLongWq

datatype ledger_event = Acquire resource | Release resource

record layer =
  work_state_lock :: bool
  log_lock_set :: bool
  system_wq :: bool
  system_long_wq :: bool

definition layer_off :: layer where
  "layer_off = \<lparr>work_state_lock = False, log_lock_set = False, system_wq = False, system_long_wq = False\<rparr>"

definition acquire :: "(resource \<Rightarrow> bool) \<Rightarrow> resource \<Rightarrow> ledger_event list" where
  "acquire ok r = (if ok r then [Acquire r] else [])"

definition release_if :: "bool \<Rightarrow> resource \<Rightarrow> ledger_event list" where
  "release_if held r = (if held then [Release r] else [])"

definition rtw88_compat_init :: "(resource \<Rightarrow> bool) \<Rightarrow> layer \<Rightarrow> int \<times> layer \<times> ledger_event list" where
  "rtw88_compat_init ok l =
     (if system_wq l \<or> system_long_wq l \<or> log_lock_set l then (-16, l, [])
      else if \<not> ok WorkLock then (-12, l\<lparr>work_state_lock := False\<rparr>, [])
      else
        let got = [Acquire WorkLock] @ acquire ok LogLock @ acquire ok SystemWq @ acquire ok SystemLongWq
        in if \<not> ok SystemWq \<or> \<not> ok SystemLongWq \<or> \<not> ok LogLock
           then (-12, l\<lparr>work_state_lock := False, log_lock_set := False, system_wq := False, system_long_wq := False\<rparr>,
                 got @ release_if (ok SystemWq) SystemWq @ release_if (ok SystemLongWq) SystemLongWq
                 @ release_if (ok LogLock) LogLock @ [Release WorkLock])
           else (0, \<lparr>work_state_lock = True, log_lock_set = True, system_wq = True, system_long_wq = True\<rparr>, got))"

definition rtw88_compat_exit :: "layer \<Rightarrow> hooks \<Rightarrow> layer \<times> hooks \<times> ledger_event list \<times> hook_event list" where
  "rtw88_compat_exit l g =
     (layer_off,
      \<lparr>g_irq_handler = 0, g_irq_thread_fn = 0, g_irq_dev_id = 0, g_irq_thread_call = 0, g_vif = 0, g_tx_resume_cb = 0,
       g_hw_cbs = None, g_kext_hw = 0\<rparr>,
      release_if (system_wq l) SystemWq @ release_if (system_long_wq l) SystemLongWq
        @ release_if (work_state_lock l) WorkLock @ release_if (log_lock_set l) LogLock,
      if g_irq_thread_call g \<noteq> 0 then [TcCancelWait (g_irq_thread_call g), TcFree (g_irq_thread_call g)] else [])"

section \<open>Helpers over the driver core\<close>

datatype chip_id = C8822B | C8822C | C8723D | C8821C | C8703B | C8821A | C8812A | C8814A | COther

text \<open>The fields of the driver's device that the helpers read or write.\<close>

record rtw_dev =
  rd_scanning :: bool
  rd_scan_offload :: bool
  rd_rcr :: u32
  rd_need_rfk :: bool
  rd_fix_rate :: u8
  rd_btcoex :: bool
  rd_vif_bssid :: bytes
  rd_fw_version :: u16
  rd_fw_sub_version :: u8
  rd_chip :: "chip_id option"
  rd_tx_unicast :: u64
  rd_rx_unicast :: u64

datatype core_fun =
    MutexLock | MutexUnlock | SetChannel | PortConfigBssid | PrepareTx | WriteRcr u32
  | ScanStart bytes | ScanComplete | EnableInterrupt

text \<open>A call into the core, recorded with the device as the core finds it.\<close>

type_synonym core_run = "rtw_dev \<times> (core_fun \<times> rtw_dev) list"

definition call_core :: "(core_fun \<Rightarrow> rtw_dev \<Rightarrow> rtw_dev) \<Rightarrow> core_fun \<Rightarrow> core_run \<Rightarrow> core_run" where
  "call_core core f s = (core f (fst s), snd s @ [(f, fst s)])"

definition upd_dev :: "(rtw_dev \<Rightarrow> rtw_dev) \<Rightarrow> core_run \<Rightarrow> core_run" where
  "upd_dev f s = (f (fst s), snd s)"

text \<open>
  The bit \<open>BIT_CBSSID_BCN\<close> is defined by the driver: an argument. \<open>ready\<close>: the hardware structure,
  its private data and the interface are not NULL; \<open>has_vif\<close>: so is the driver's part of the
  interface.
\<close>

definition rtw88_sw_scan_start ::
  "(core_fun \<Rightarrow> rtw_dev \<Rightarrow> rtw_dev) \<Rightarrow> u32 \<Rightarrow> bool \<Rightarrow> bool \<Rightarrow> bytes \<Rightarrow> rtw_dev \<Rightarrow> core_run" where
  "rtw88_sw_scan_start core bcn ready has_vif addr d =
     (if \<not> ready \<or> \<not> has_vif then (d, [])
      else let s = call_core core (ScanStart addr) (call_core core MutexLock (d, []));
               s = upd_dev (\<lambda>d. d\<lparr>rd_rcr := rd_rcr d AND NOT bcn\<rparr>) s;
               s = call_core core (WriteRcr (rd_rcr (fst s))) s
           in call_core core MutexUnlock s)"

definition rtw88_sw_scan_switch_channel :: "(core_fun \<Rightarrow> rtw_dev \<Rightarrow> rtw_dev) \<Rightarrow> bool \<Rightarrow> rtw_dev \<Rightarrow> core_run" where
  "rtw88_sw_scan_switch_channel core ready d =
     (if \<not> ready then (d, [])
      else call_core core MutexUnlock (call_core core SetChannel (call_core core MutexLock (d, []))))"

definition rtw88_awdl_switch_channel :: "(core_fun \<Rightarrow> rtw_dev \<Rightarrow> rtw_dev) \<Rightarrow> bool \<Rightarrow> rtw_dev \<Rightarrow> core_run" where
  "rtw88_awdl_switch_channel core ready d =
     (if \<not> ready then (d, [])
      else let s = call_core core SetChannel (call_core core MutexLock (d, []));
               s = call_core core PrepareTx (upd_dev (\<lambda>d. d\<lparr>rd_need_rfk := True\<rparr>) s)
           in call_core core MutexUnlock s)"

definition rtw88_sw_scan_complete :: "(core_fun \<Rightarrow> rtw_dev \<Rightarrow> rtw_dev) \<Rightarrow> u32 \<Rightarrow> bool \<Rightarrow> rtw_dev \<Rightarrow> core_run" where
  "rtw88_sw_scan_complete core bcn ready d =
     (if \<not> ready then (d, [])
      else let s = upd_dev (\<lambda>d. d\<lparr>rd_rcr := rd_rcr d OR bcn\<rparr>) (call_core core MutexLock (d, []));
               s = call_core core (WriteRcr (rd_rcr (fst s))) s
           in call_core core MutexUnlock (call_core core ScanComplete s))"

definition rtw88_connect_hw_setup ::
  "(core_fun \<Rightarrow> rtw_dev \<Rightarrow> rtw_dev) \<Rightarrow> bool \<Rightarrow> bool \<Rightarrow> bytes \<Rightarrow> rtw_dev \<Rightarrow> core_run" where
  "rtw88_connect_hw_setup core ready has_vif bssid d =
     (if \<not> ready then (d, [])
      else let s = call_core core SetChannel (call_core core MutexLock (d, []));
               s = (if has_vif
                    then call_core core PortConfigBssid (upd_dev (\<lambda>d. d\<lparr>rd_vif_bssid := take 6 bssid\<rparr>) s) else s);
               s = call_core core PrepareTx (upd_dev (\<lambda>d. d\<lparr>rd_need_rfk := True\<rparr>) s);
               s = upd_dev (\<lambda>d. d\<lparr>rd_fix_rate := 0xFF\<rparr>) s
           in call_core core MutexUnlock s)"

definition rtw88_restore_connected_hw ::
  "(core_fun \<Rightarrow> rtw_dev \<Rightarrow> rtw_dev) \<Rightarrow> bool \<Rightarrow> bool \<Rightarrow> bytes \<Rightarrow> rtw_dev \<Rightarrow> core_run" where
  "rtw88_restore_connected_hw core ready has_vif bssid d =
     (if \<not> ready then (d, [])
      else let s = call_core core SetChannel (call_core core MutexLock (d, []));
               s = (if has_vif
                    then call_core core PortConfigBssid (upd_dev (\<lambda>d. d\<lparr>rd_vif_bssid := take 6 bssid\<rparr>) s) else s);
               s = call_core core PrepareTx (upd_dev (\<lambda>d. d\<lparr>rd_need_rfk := True\<rparr>) s);
               s = upd_dev (\<lambda>d. d\<lparr>rd_fix_rate := 0xFF\<rparr>) s
           in call_core core MutexUnlock s)"

definition rtw88_force_wifi_only :: "bool \<Rightarrow> rtw_dev \<Rightarrow> rtw_dev" where
  "rtw88_force_wifi_only ready d = (if ready \<and> rd_btcoex d then d\<lparr>rd_btcoex := False\<rparr> else d)"

definition rtw88_is_scanning :: "bool \<Rightarrow> rtw_dev \<Rightarrow> bool" where
  "rtw88_is_scanning ready d \<longleftrightarrow> ready \<and> rd_scanning d"

definition rtw88_hw_scan_supported :: "bool \<Rightarrow> rtw_dev \<Rightarrow> bool" where
  "rtw88_hw_scan_supported ready d \<longleftrightarrow> ready \<and> rd_scan_offload d"

definition rtw88_reenable_interrupt :: "(core_fun \<Rightarrow> rtw_dev \<Rightarrow> rtw_dev) \<Rightarrow> hooks \<Rightarrow> rtw_dev \<Rightarrow> core_run" where
  "rtw88_reenable_interrupt core g d =
     (if g_irq_dev_id g \<noteq> 0 then call_core core EnableInterrupt (d, []) else (d, []))"

text \<open>Output arguments: what is stored through each pointer that is not NULL.\<close>

definition rtw88_get_fw_version :: "rtw_dev option \<Rightarrow> bool \<Rightarrow> bool \<Rightarrow> u16 option \<times> u8 option" where
  "rtw88_get_fw_version d v s =
     (if v then Some (case d of None \<Rightarrow> 0 | Some d \<Rightarrow> rd_fw_version d) else None,
      if s then Some (case d of None \<Rightarrow> 0 | Some d \<Rightarrow> rd_fw_sub_version d) else None)"

definition rtw88_get_stats :: "rtw_dev option \<Rightarrow> bool \<Rightarrow> bool \<Rightarrow> u32 option \<times> u32 option" where
  "rtw88_get_stats d t r =
     (if t then Some (case d of None \<Rightarrow> 0 | Some d \<Rightarrow> ucast (rd_tx_unicast d)) else None,
      if r then Some (case d of None \<Rightarrow> 0 | Some d \<Rightarrow> ucast (rd_rx_unicast d)) else None)"

fun chip_label :: "chip_id \<Rightarrow> string" where
  "chip_label C8822B = ''RTL8822BE''"
| "chip_label C8822C = ''RTL8822CE''"
| "chip_label C8723D = ''RTL8723DE''"
| "chip_label C8821C = ''RTL8821CE''"
| "chip_label C8703B = ''RTL8703BE''"
| "chip_label C8821A = ''RTL8821AE''"
| "chip_label C8812A = ''RTL8812AE''"
| "chip_label C8814A = ''RTL8814AE''"
| "chip_label COther = ''RTL88xx (Unknown)''"

text \<open>\<open>strlcpy\<close> into a buffer of \<open>sz\<close> bytes keeps at most \<open>sz - 1\<close> characters; \<open>None\<close>: nothing is stored.\<close>

definition rtw88_get_chip_name :: "rtw_dev option \<Rightarrow> bool \<Rightarrow> nat \<Rightarrow> string option" where
  "rtw88_get_chip_name d buf_ok sz =
     (if \<not> buf_ok \<or> sz = 0 then None
      else Some (take (sz - 1)
        (case d of None \<Rightarrow> ''Unknown''
         | Some d \<Rightarrow> (case rd_chip d of None \<Rightarrow> ''Unknown'' | Some c \<Rightarrow> chip_label c))))"

section \<open>Properties\<close>

text \<open>What a ledger leaves held, given what was held before; \<open>None\<close>: a double acquire or a stray release.\<close>

fun settle :: "resource set \<Rightarrow> ledger_event list \<Rightarrow> resource set option" where
  "settle held [] = Some held"
| "settle held (Acquire r # es) = (if r \<in> held then None else settle (insert r held) es)"
| "settle held (Release r # es) = (if r \<in> held then settle (held - {r}) es else None)"

definition held_by :: "layer \<Rightarrow> resource set" where
  "held_by l = (if work_state_lock l then {WorkLock} else {}) \<union> (if log_lock_set l then {LogLock} else {})
     \<union> (if system_wq l then {SystemWq} else {}) \<union> (if system_long_wq l then {SystemLongWq} else {})"

lemma settle_append:
  "settle held (as @ bs) = Option.bind (settle held as) (\<lambda>h. settle h bs)"
  by (induction held "as" rule: settle.induct) auto

text \<open>
  Initialising the compatibility layer is all or nothing. From the unloaded state, whichever
  allocations fail, \<open>rtw88_compat_init\<close> either returns 0 holding all four resources or returns
  an error with every resource it got released again and the globals as in the unloaded state;
  in both cases the globals name exactly what is held. A second call is refused without
  effect, and \<open>rtw88_compat_exit\<close> releases what the first one got, no more and no less, so the
  layer can be initialised again.
\<close>

theorem compat_init_all_or_nothing:
  "case rtw88_compat_init ok layer_off of (ret, l, led) \<Rightarrow>
     (ret = 0 \<longleftrightarrow> (\<forall>r. ok r)) \<and> (ret \<noteq> 0 \<longrightarrow> ret = -12 \<and> l = layer_off)
     \<and> settle {} led = Some (held_by l)
     \<and> (ret = 0 \<longrightarrow> rtw88_compat_init ok' l = (-16, l, []))
     \<and> (case rtw88_compat_exit l g of (l', g', led', _) \<Rightarrow> l' = layer_off \<and> settle (held_by l) led' = Some {})"
proof -
  have all: "(\<forall>r. ok r) \<longleftrightarrow> ok WorkLock \<and> ok LogLock \<and> ok SystemWq \<and> ok SystemLongWq"
    by (metis resource.exhaust)
  show ?thesis
    by (cases "ok WorkLock"; cases "ok LogLock"; cases "ok SystemWq"; cases "ok SystemLongWq")
       (auto simp: rtw88_compat_init_def rtw88_compat_exit_def layer_off_def held_by_def acquire_def release_if_def
         all Let_def)
qed

definition hooks_off :: hooks where
  "hooks_off = \<lparr>g_irq_handler = 0, g_irq_thread_fn = 0, g_irq_dev_id = 0, g_irq_thread_call = 0, g_vif = 0,
     g_tx_resume_cb = 0, g_hw_cbs = None, g_kext_hw = 0\<rparr>"

theorem compat_init_all_or_nothing_witness:
  "fst (rtw88_compat_init (\<lambda>_. True) layer_off) = 0
   \<and> rtw88_compat_init (\<lambda>_. True) (fst (snd (rtw88_compat_init (\<lambda>_. True) layer_off)))
       = (-16, fst (snd (rtw88_compat_init (\<lambda>_. True) layer_off)), [])"
  using compat_init_all_or_nothing [of "\<lambda>_. True" "\<lambda>_. True" hooks_off]
  by (simp add: split_beta)

text \<open>
  Connecting calibrates the radio. Whatever the driver core does in its functions, the connect
  helper calls it under the device mutex in a fixed order, channel first; the core finds the
  target BSSID stored when it programs the port and the calibration request set when it
  prepares transmission, and the fixed data rate is off when the mutex is released. Restoring a
  connection does exactly the same.
\<close>

theorem connect_calibrates:
  assumes "length bssid = 6"
  shows "\<exists>d0 d1 d2 d3 d4 d5.
     rtw88_connect_hw_setup core True True bssid d
       = (d5, [(MutexLock, d0), (SetChannel, d1), (PortConfigBssid, d2), (PrepareTx, d3), (MutexUnlock, d4)])
     \<and> d0 = d \<and> rd_vif_bssid d2 = bssid \<and> rd_need_rfk d3 \<and> rd_fix_rate d4 = 0xFF
     \<and> d1 = core MutexLock d0 \<and> d2 = (core SetChannel d1)\<lparr>rd_vif_bssid := bssid\<rparr>
     \<and> d3 = (core PortConfigBssid d2)\<lparr>rd_need_rfk := True\<rparr> \<and> d4 = (core PrepareTx d3)\<lparr>rd_fix_rate := 0xFF\<rparr>
     \<and> d5 = core MutexUnlock d4
     \<and> rtw88_restore_connected_hw core True True bssid d = rtw88_connect_hw_setup core True True bssid d"
  using assms
  by (simp add: rtw88_connect_hw_setup_def rtw88_restore_connected_hw_def Let_def call_core_def upd_dev_def)

definition demo_dev :: rtw_dev where
  "demo_dev = \<lparr>rd_scanning = False, rd_scan_offload = True, rd_rcr = 0, rd_need_rfk = False, rd_fix_rate = 4,
     rd_btcoex = True, rd_vif_bssid = replicate 6 0, rd_fw_version = 9, rd_fw_sub_version = 1, rd_chip = Some C8822C,
     rd_tx_unicast = 0, rd_rx_unicast = 0\<rparr>"

theorem connect_calibrates_witness:
  "\<exists>d0 d1 d2 d3 d4 d5.
     rtw88_connect_hw_setup (\<lambda>_ d. d) True True [1, 2, 3, 4, 5, 6] demo_dev
       = (d5, [(MutexLock, d0), (SetChannel, d1), (PortConfigBssid, d2), (PrepareTx, d3), (MutexUnlock, d4)])
     \<and> d0 = demo_dev \<and> rd_vif_bssid d2 = [1, 2, 3, 4, 5, 6] \<and> rd_need_rfk d3"
  using connect_calibrates [of "[1, 2, 3, 4, 5, 6]" "\<lambda>_ d. d" demo_dev] by auto

text \<open>
  Interrupt and poll registrations end for good. While a handler is registered an interrupt calls
  it with the device it was registered with and wakes the thread only when the handler asks for
  it; after \<open>devm_free_irq\<close> an interrupt calls nothing and wakes nothing, the thread call has been
  cancelled before it was freed, and the bottom half run late calls no handler. The same holds
  for a deleted NAPI instance.
\<close>

theorem irq_napi_lifecycle:
  assumes "handler \<noteq> 0" "dev_id \<noteq> 0" "tc \<noteq> 0" "napi \<noteq> 0"
  shows "(case rtw88_devm_request_threaded_irq tc handler thread_fn dev_id (g\<lparr>g_irq_thread_call := 0\<rparr>) of (ret, g1) \<Rightarrow>
            ret = 0
          \<and> rtw88_trigger_interrupt r g1 = CallIrq handler dev_id # (if r = IRQ_WAKE_THREAD then [TcEnter tc] else [])
          \<and> (case rtw88_devm_free_irq g1 of (ev, g2) \<Rightarrow>
               ev = [TcCancelWait tc, TcFree tc] \<and> rtw88_trigger_interrupt r g2 = []
               \<and> (\<forall>e \<in> set (rtw88_irq_thread_wrapper g2). e = CallTxResume (g_tx_resume_cb g))
               \<and> rtw88_devm_free_irq g2 = ([], g2)))
       \<and> (case rtw88_netif_napi_del (rtw88_netif_napi_add tc dev poll_fn (n\<lparr>napi_thread_call := 0\<rparr>)) of (ev, n2) \<Rightarrow>
            ev = [TcCancelWait tc, TcFree tc] \<and> rtw88_napi_schedule napi n2 = []
            \<and> rtw88_napi_thread_wrapper w napi n2 = [] \<and> rtw88_netif_napi_del n2 = ([], n2))"
  using assms
  by (simp add: rtw88_devm_request_threaded_irq_def rtw88_trigger_interrupt_def rtw88_devm_free_irq_def
      rtw88_irq_thread_wrapper_def rtw88_netif_napi_del_def rtw88_netif_napi_add_def rtw88_napi_schedule_def
      rtw88_napi_thread_wrapper_def)

theorem irq_napi_lifecycle_witness:
  "snd (rtw88_devm_request_threaded_irq 7 1 2 3 (hooks_off\<lparr>g_irq_thread_call := 0\<rparr>)) \<noteq> hooks_off
   \<and> rtw88_trigger_interrupt 2 (snd (rtw88_devm_request_threaded_irq 7 1 2 3 (hooks_off\<lparr>g_irq_thread_call := 0\<rparr>)))
       = [CallIrq 1 3, TcEnter 7]"
  using irq_napi_lifecycle [where handler = 1 and dev_id = 3 and tc = 7 and napi = 9 and thread_fn = 2 and g = hooks_off
      and r = 2]
  by (simp add: split_beta IRQ_WAKE_THREAD_def hooks_off_def rtw88_devm_request_threaded_irq_def)

end
