(* ===== verification/BssScan.thy ===== *)
theory BssScan
  imports MgmtFrames
begin

text \<open>
  The scan results of \<open>RTW88IEEE80211.cpp\<close>: what \<open>processScanResult\<close> makes of a beacon or probe
  response, the table of networks it keeps (\<open>_bssList\<close>, \<open>_bssCount\<close>, \<open>_scanGeneration\<close>), the ageing
  \<open>cmdScan\<close> and \<open>scanDone\<close> apply to it, and the byte format \<open>cmdGetBSSList\<close> hands to user space. The
  linked list under \<open>_bssLock\<close> is a list of its nodes; \<open>bss_blocks\<close> counts the nodes that
  \<open>IOMallocZero\<close> gave and \<open>IOFree\<close> did not take back, \<open>freed_skbs\<close> the frames given to
  \<open>kfree_skb\<close>. A copy outside a buffer is \<open>None\<close>.
\<close>

definition WLAN_EID_SSID :: u8 where "WLAN_EID_SSID = 0"
definition WLAN_EID_DS_PARAMS :: u8 where "WLAN_EID_DS_PARAMS = 3"
definition WLAN_EID_RSN :: u8 where "WLAN_EID_RSN = 48"
definition WLAN_EID_HT_OPERATION :: u8 where "WLAN_EID_HT_OPERATION = 61"
definition WLAN_EID_VENDOR_SPECIFIC :: u8 where "WLAN_EID_VENDOR_SPECIFIC = 221"

lemmas eid_defs = WLAN_EID_SSID_def WLAN_EID_DS_PARAMS_def WLAN_EID_RSN_def WLAN_EID_HT_OPERATION_def
  WLAN_EID_VENDOR_SPECIFIC_def

text \<open>The signed 16-bit signal strength is kept as its bit pattern.\<close>

record RTW88BSS =
  b_ssid :: bytes
  b_ssid_len :: u8
  b_bssid :: bytes
  b_rssi :: u16
  b_freq :: u16
  b_channel :: u8
  b_capabilities :: u32
  b_beacon_interval :: u16
  b_cipher :: u32
  b_group_cipher :: u32
  b_akm :: u32
  b_last_seen_scan :: u32
  b_ies :: bytes
  b_ies_len :: u16

definition zero_bss :: RTW88BSS where
  "zero_bss = \<lparr>b_ssid = replicate 33 0, b_ssid_len = 0, b_bssid = replicate 6 0, b_rssi = 0, b_freq = 0,
     b_channel = 0, b_capabilities = 0, b_beacon_interval = 0, b_cipher = 0, b_group_cipher = 0, b_akm = 0,
     b_last_seen_scan = 0, b_ies = replicate 512 0, b_ies_len = 0\<rparr>"

section \<open>A beacon or probe response\<close>

text \<open>What one element with contents \<open>v\<close> changes.\<close>

definition ie_update :: "u8 \<Rightarrow> bytes \<Rightarrow> RTW88BSS \<Rightarrow> RTW88BSS option" where
  "ie_update eid v b =
     (if eid = WLAN_EID_SSID \<and> 0 < length v \<and> length v \<le> 32 then
        map_option (\<lambda>s. b\<lparr>b_ssid := s, b_ssid_len := of_nat (length v)\<rparr>) (memcpy_at (b_ssid b) 0 v)
      else if eid = WLAN_EID_DS_PARAMS \<and> 1 \<le> length v then Some (b\<lparr>b_channel := v ! 0\<rparr>)
      else if eid = WLAN_EID_HT_OPERATION \<and> 1 \<le> length v \<and> b_channel b = 0 then Some (b\<lparr>b_channel := v ! 0\<rparr>)
      else if eid = WLAN_EID_RSN then
        map_option (\<lambda>sel. case sel of None \<Rightarrow> b
                      | Some (pw, grp) \<Rightarrow> b\<lparr>b_cipher := pw, b_group_cipher := grp, b_akm := SUITE_PSK\<rparr>)
          (rtw88RsnSelectCcmpPsk (Some v) (length v))
      else if eid = WLAN_EID_VENDOR_SPECIFIC \<and> 8 \<le> length v \<and> v ! 0 = 0x00 \<and> v ! 1 = 0x50 \<and> v ! 2 = 0xf2
          \<and> v ! 3 = 0x01 \<and> b_cipher b = 0 then
        Some (b\<lparr>b_cipher := WLAN_CIPHER_SUITE_TKIP, b_group_cipher := WLAN_CIPHER_SUITE_TKIP, b_akm := SUITE_PSK\<rparr>)
      else Some b)"

text \<open>The copy of the raw element, when it fits.\<close>

definition copy_ie :: "bytes \<Rightarrow> RTW88BSS \<Rightarrow> RTW88BSS option" where
  "copy_ie raw b =
     (if unat (b_ies_len b) + length raw < 512 then
        map_option (\<lambda>e. b\<lparr>b_ies := e, b_ies_len := b_ies_len b + of_nat (length raw)\<rparr>)
          (memcpy_at (b_ies b) (unat (b_ies_len b)) raw)
      else Some b)"

text \<open>The element walk; \<open>body\<close> is what is left up to the end of the frame.\<close>

function walk_ies :: "bytes \<Rightarrow> RTW88BSS \<Rightarrow> RTW88BSS option" where
  "walk_ies body b =
     (if length body < 2 then Some b
      else let n = unat (body ! 1)
      in if length body < 2 + n then Some b
         else do { b1 \<leftarrow> ie_update (body ! 0) (block body 2 n) b;
                   b2 \<leftarrow> copy_ie (block body 0 (2 + n)) b1;
                   walk_ies (drop (2 + n) body) b2 })"
  by pat_completeness auto
termination by (relation "measure (\<lambda>(body, b). length body)") auto

declare walk_ies.simps [simp del]

definition channel_of_freq :: "u16 \<Rightarrow> u8 \<Rightarrow> u8" where
  "channel_of_freq freq ch =
     (if ch = 0 \<and> freq \<noteq> 0 then
        let f = uint freq
        in if f = 2484 then 14
           else if f \<ge> 2412 \<and> f \<le> 2472 then of_int ((f - 2407) div 5)
           else if f \<ge> 5000 \<and> f \<le> 5900 then of_int ((f - 5000) div 5)
           else ch
      else ch)"

section \<open>The table of networks\<close>

record scan_db =
  bssList :: "RTW88BSS list"
  bssCount :: u32
  scanGeneration :: u32
  bss_blocks :: nat
  freed_skbs :: nat

definition scan_db0 :: scan_db where
  "scan_db0 = \<lparr>bssList = [], bssCount = 0, scanGeneration = 0, bss_blocks = 0, freed_skbs = 0\<rparr>"

text \<open>The search for the same BSSID; \<open>None\<close> when the table has none.\<close>

fun replace_bss :: "RTW88BSS \<Rightarrow> RTW88BSS list \<Rightarrow> RTW88BSS list option" where
  "replace_bss b [] = None"
| "replace_bss b (e # es) =
     (if b_bssid e = b_bssid b then Some (b # es) else map_option ((#) e) (replace_bss b es))"

definition store_bss :: "RTW88BSS \<Rightarrow> scan_db \<Rightarrow> scan_db" where
  "store_bss b db =
     (case replace_bss b (bssList db) of
        Some l \<Rightarrow> db\<lparr>bssList := l, bss_blocks := bss_blocks db - 1\<rparr>
      | None \<Rightarrow> db\<lparr>bssList := b # bssList db, bssCount := bssCount db + 1\<rparr>)"

text \<open>The network read from a frame of at least 36 bytes.\<close>

definition parse_beacon :: "bytes \<Rightarrow> ieee80211_rx_status \<Rightarrow> u32 \<Rightarrow> RTW88BSS option" where
  "parse_beacon f rxs gen =
     do { i0 \<leftarrow> rd f 32; i1 \<leftarrow> rd f 33; c0 \<leftarrow> rd f 34; c1 \<leftarrow> rd f 35;
          b \<leftarrow> walk_ies (drop 36 f)
                 (zero_bss\<lparr>b_beacon_interval := le16_of i0 i1, b_capabilities := ucast (le16_of c0 c1),
                           b_bssid := block f 16 6\<rparr>);
          Some (b\<lparr>b_rssi := of_int (rs_signal rxs), b_freq := rs_freq rxs, b_last_seen_scan := gen,
                  b_channel := channel_of_freq (rs_freq rxs) (b_channel b)\<rparr>) }"

text \<open>
  \<open>processScanResult\<close> on the frame (the bytes at \<open>skb->data\<close>, \<open>skb->len\<close> of them; \<open>None\<close> for a null
  pointer); \<open>mem\<close> tells whether \<open>IOMallocZero\<close> succeeds.
\<close>

definition free_frame :: "bytes option \<Rightarrow> scan_db \<Rightarrow> scan_db" where
  "free_frame skb db = (if skb = None then db else db\<lparr>freed_skbs := freed_skbs db + 1\<rparr>)"

definition processScanResult :: "bool \<Rightarrow> bytes option \<Rightarrow> ieee80211_rx_status \<Rightarrow> scan_db \<Rightarrow> scan_db option" where
  "processScanResult mem skb rxs db =
     (case skb of None \<Rightarrow> Some (free_frame skb db)
      | Some f \<Rightarrow>
          if length f < 24 + 12 then Some (free_frame skb db)
          else if \<not> mem then Some (free_frame skb db)
          else do { b \<leftarrow> parse_beacon f rxs (scanGeneration db);
                    Some (free_frame skb (store_bss b (db\<lparr>bss_blocks := bss_blocks db + 1\<rparr>))) })"

text \<open>The generation step of \<open>cmdScan\<close>: a wrapped counter restarts at 1 for every entry.\<close>

definition next_generation :: "scan_db \<Rightarrow> scan_db" where
  "next_generation db =
     (let g = scanGeneration db + 1
      in if g = 0 then db\<lparr>scanGeneration := 1, bssList := map (\<lambda>b. b\<lparr>b_last_seen_scan := 1\<rparr>) (bssList db)\<rparr>
         else db\<lparr>scanGeneration := g\<rparr>)"

text \<open>
  The ageing of \<open>scanDone\<close>: entries unseen for more than three scans go, except the BSSID of the
  connection (\<open>target\<close>, when the effective state is connected or handshaking).
\<close>

fun age_out :: "bytes option \<Rightarrow> u32 \<Rightarrow> RTW88BSS list \<Rightarrow> u32 \<Rightarrow> nat \<Rightarrow> RTW88BSS list \<times> u32 \<times> nat" where
  "age_out target gen [] cnt blocks = ([], cnt, blocks)"
| "age_out target gen (b # bs) cnt blocks =
     (if target \<noteq> Some (b_bssid b) \<and> gen - b_last_seen_scan b > 3
      then age_out target gen bs (if cnt \<noteq> 0 then cnt - 1 else cnt) (blocks - 1)
      else (case age_out target gen bs cnt blocks of (l, c, k) \<Rightarrow> (b # l, c, k)))"

definition scan_done_age :: "bool \<Rightarrow> bytes option \<Rightarrow> scan_db \<Rightarrow> scan_db" where
  "scan_done_age aborted target db =
     (if aborted then db
      else (case age_out target (scanGeneration db) (bssList db) (bssCount db) (bss_blocks db) of
              (l, c, k) \<Rightarrow> db\<lparr>bssList := l, bssCount := c, bss_blocks := k\<rparr>))"

section \<open>The list for user space\<close>

datatype IOReturn = IOSuccess | BadArgument | NotFound | NotReady | Busy | NoMemory | NoSpace | Unsupported | IOError

definition le32_bytes :: "u32 \<Rightarrow> bytes" where
  "le32_bytes v = [ucast v, ucast (drop_bit 8 v), ucast (drop_bit 16 v), ucast (drop_bit 24 v)]"

text \<open>One entry: length, SSID, BSSID, signal (high byte first), channel, cipher (host order).\<close>

definition bss_entry :: "RTW88BSS \<Rightarrow> bytes option" where
  "bss_entry b =
     (if unat (b_ssid_len b) \<le> length (b_ssid b) \<and> 6 \<le> length (b_bssid b)
      then Some (b_ssid_len b # block (b_ssid b) 0 (unat (b_ssid_len b)) @ block (b_bssid b) 0 6
                 @ [hi8 (b_rssi b), lo8 (b_rssi b), b_channel b] @ le32_bytes (b_cipher b))
      else None)"

fun put_entries :: "nat \<Rightarrow> RTW88BSS list \<Rightarrow> bytes \<Rightarrow> nat \<Rightarrow> (bytes \<times> nat) option" where
  "put_entries max_len [] buf written = Some (buf, written)"
| "put_entries max_len (b # bs) buf written =
     (let entry_sz = 1 + unat (b_ssid_len b) + 6 + 2 + 1 + 4
      in if written + entry_sz > max_len then Some (buf, written)
         else do { e \<leftarrow> bss_entry b; buf2 \<leftarrow> memcpy_at buf written e; put_entries max_len bs buf2 (written + entry_sz) })"

text \<open>
  \<open>buf\<close> is the caller's buffer (\<open>None\<close>: a null pointer) and \<open>n\<close> its announced size; the result has
  the buffer, the new size and the return code.
\<close>

definition cmdGetBSSList :: "bytes option \<Rightarrow> nat \<Rightarrow> scan_db \<Rightarrow> (IOReturn \<times> bytes \<times> nat) option" where
  "cmdGetBSSList buf n db =
     (case buf of None \<Rightarrow> Some (BadArgument, [], n)
      | Some buf \<Rightarrow>
          let max_len = (if n > 4095 then 4095 else n)
          in if max_len < 4 then Some (IOSuccess, buf, 0)
             else do { (buf2, written) \<leftarrow> put_entries max_len (bssList db) buf 4;
                       buf3 \<leftarrow> memcpy_at buf2 0 (le32_bytes (of_nat written));
                       Some (IOSuccess, buf3, written) })"

definition copyScanBSS :: "nat \<Rightarrow> bool \<Rightarrow> scan_db \<Rightarrow> IOReturn \<times> RTW88BSS option" where
  "copyScanBSS index out db =
     (if \<not> out then (BadArgument, None)
      else if index < length (bssList db) then (IOSuccess, Some (bssList db ! index)) else (NotFound, None))"

section \<open>Well-formed entries and tables\<close>

definition bss_ok :: "RTW88BSS \<Rightarrow> bool" where
  "bss_ok b \<longleftrightarrow> length (b_ssid b) = 33 \<and> b_ssid b ! 32 = 0 \<and> unat (b_ssid_len b) \<le> 32
     \<and> length (b_bssid b) = 6 \<and> length (b_ies b) = 512 \<and> unat (b_ies_len b) < 512"

definition db_ok :: "scan_db \<Rightarrow> bool" where
  "db_ok db \<longleftrightarrow> (\<forall>b \<in> set (bssList db). bss_ok b) \<and> distinct (map b_bssid (bssList db))
     \<and> bssCount db = of_nat (length (bssList db)) \<and> bss_blocks db = length (bssList db)"

lemma bss_okE:
  assumes "bss_ok b"
  obtains "length (b_ssid b) = 33" "b_ssid b ! 32 = 0" "unat (b_ssid_len b) \<le> 32"
    "length (b_bssid b) = 6" "length (b_ies b) = 512" "unat (b_ies_len b) < 512"
  using assms by (auto simp: bss_ok_def)

lemma db_ok_0: "db_ok scan_db0"
  by (simp add: db_ok_def scan_db0_def)

lemma rsn_select_total: "\<exists>r. rtw88RsnSelectCcmpPsk (Some v) (length v) = Some r"
proof (cases "length v < 8")
  case True
  then show ?thesis by (simp add: rtw88RsnSelectCcmpPsk_def)
next
  case False
  then have "8 \<le> length v" by simp
  then obtain v0 v1 grp p where "v = [v0, v1] @ rtw88WriteSuite grp @ p" and
    "rtw88RsnSelectCcmpPsk (Some v) (length v) = (if v0 = 1 \<and> v1 = 0 then select_suites grp p else Some None)"
    by (rule rsn_select_unfold)
  then show ?thesis using select_total [of grp p] by auto
qed

lemma ie_update_ok [inv_intros]:
  assumes "bss_ok b" and "length v \<le> 255"
  shows "\<exists>b'. ie_update eid v b = Some b' \<and> bss_ok b' \<and> b_bssid b' = b_bssid b"
proof -
  obtain sel where sel: "rtw88RsnSelectCcmpPsk (Some v) (length v) = Some sel" using rsn_select_total by blast
  have n: "unat (of_nat (length v) :: u8) = length v" if "length v \<le> 32"
    using that by (simp add: unat_of_nat_small)
  have s: "blit (b_ssid b) 0 v ! 32 = 0" "length (blit (b_ssid b) 0 v) = 33" if "length v \<le> 32"
    using that assms(1) by (auto simp: bss_ok_def buf_simps)
  show ?thesis
    using assms n s
    by (auto simp: ie_update_def memcpy_at_def sel bss_ok_def split: option.splits)
qed

lemma copy_ie_ok [inv_intros]:
  assumes "bss_ok b"
  shows "\<exists>b'. copy_ie raw b = Some b' \<and> bss_ok b' \<and> b_bssid b' = b_bssid b"
proof (cases "unat (b_ies_len b) + length raw < 512")
  case True
  then have "unat (b_ies_len b + of_nat (length raw)) = unat (b_ies_len b) + length raw"
    by (subst unat_add_small) (simp_all add: unat_of_nat_small)
  with True assms show ?thesis
    by (auto simp: copy_ie_def memcpy_at_def bss_ok_def buf_simps)
qed (use assms in \<open>auto simp: copy_ie_def\<close>)

lemma walk_ies_ok:
  "bss_ok b \<Longrightarrow> \<exists>b'. walk_ies body b = Some b' \<and> bss_ok b' \<and> b_bssid b' = b_bssid b"
proof (induction "length body" arbitrary: body b rule: less_induct)
  case less
  let ?n = "unat (body ! 1)"
  show ?case
  proof (cases "length body < 2 \<or> length body < 2 + ?n")
    case True
    then show ?thesis using less.prems by (subst walk_ies.simps) (auto simp: Let_def)
  next
    case False
    have n: "?n \<le> 255" using unsigned_less [of "body ! 1", where 'a = nat] by simp
    have "length (block body 2 ?n) \<le> 255" using False n by (simp add: buf_simps)
    then obtain b1 where b1: "ie_update (body ! 0) (block body 2 ?n) b = Some b1" "bss_ok b1" "b_bssid b1 = b_bssid b"
      using ie_update_ok [OF less.prems] by blast
    obtain b2 where b2: "copy_ie (block body 0 (2 + ?n)) b1 = Some b2" "bss_ok b2" "b_bssid b2 = b_bssid b1"
      using copy_ie_ok [OF b1(2)] by blast
    have "length (drop (2 + ?n) body) < length body" using False by (simp, linarith)
    from less.hyps [OF this b2(2)] obtain b' where
      "walk_ies (drop (2 + ?n) body) b2 = Some b'" "bss_ok b'" "b_bssid b' = b_bssid b2" by blast
    with False b1 b2 show ?thesis by (subst walk_ies.simps) (simp add: Let_def)
  qed
qed

lemma parse_beacon_ok:
  assumes "36 \<le> length f"
  obtains b where "parse_beacon f rxs gen = Some b" "bss_ok b" "b_bssid b = block f 16 6"
    "b_last_seen_scan b = gen" "b_rssi b = of_int (rs_signal rxs)"
proof -
  let ?b0 = "zero_bss\<lparr>b_beacon_interval := le16_of (f ! 32) (f ! 33),
      b_capabilities := ucast (le16_of (f ! 34) (f ! 35)), b_bssid := block f 16 6\<rparr>"
  have "bss_ok ?b0" using assms by (simp add: bss_ok_def zero_bss_def buf_simps)
  then obtain b where b: "walk_ies (drop 36 f) ?b0 = Some b" "bss_ok b" "b_bssid b = block f 16 6"
    using walk_ies_ok [of ?b0] by auto
  have "parse_beacon f rxs gen = Some (b\<lparr>b_rssi := of_int (rs_signal rxs), b_freq := rs_freq rxs,
      b_last_seen_scan := gen, b_channel := channel_of_freq (rs_freq rxs) (b_channel b)\<rparr>)"
    using assms b(1) by (simp add: parse_beacon_def)
  then show ?thesis using that b(2,3) by (simp add: bss_ok_def)
qed

lemma replace_bss_None: "replace_bss b l = None \<longleftrightarrow> b_bssid b \<notin> b_bssid ` set l"
  by (induction l) auto

lemma replace_bss_Some:
  "replace_bss b l = Some l' \<Longrightarrow> distinct (map b_bssid l) \<Longrightarrow>
     map b_bssid l' = map b_bssid l \<and> length l' = length l \<and> b \<in> set l'
     \<and> set l' = insert b {e \<in> set l. b_bssid e \<noteq> b_bssid b}"
proof (induction l arbitrary: l')
  case (Cons e es)
  show ?case
  proof (cases "b_bssid e = b_bssid b")
    case True
    then show ?thesis using Cons.prems by (auto simp: image_iff) (metis)
  next
    case False
    then obtain l2 where "replace_bss b es = Some l2" "l' = e # l2" using Cons.prems(1) by auto
    then show ?thesis using Cons.IH [of l2] Cons.prems(2) False by auto
  qed
qed simp

lemma store_bss_ok [inv_intros]:
  assumes "db_ok db" and "bss_ok b"
  shows "db_ok (store_bss b (db\<lparr>bss_blocks := bss_blocks db + 1\<rparr>))
    \<and> set (bssList (store_bss b (db\<lparr>bss_blocks := bss_blocks db + 1\<rparr>)))
        = insert b {e \<in> set (bssList db). b_bssid e \<noteq> b_bssid b}"
proof (cases "replace_bss b (bssList db)")
  case None
  then have fresh: "b_bssid b \<notin> b_bssid ` set (bssList db)" by (simp add: replace_bss_None)
  have "b_bssid e \<noteq> b_bssid b" if "e \<in> set (bssList db)" for e
    using fresh imageI [OF that, of b_bssid] by auto
  then have "{e \<in> set (bssList db). b_bssid e \<noteq> b_bssid b} = set (bssList db)" by blast
  with fresh show ?thesis using None assms by (auto simp: store_bss_def db_ok_def)
next
  case (Some l)
  then show ?thesis using assms replace_bss_Some [OF Some]
    by (auto simp: store_bss_def db_ok_def)
qed

lemma age_out_filter:
  assumes "cnt = of_nat (length l)" and "blocks = length l" and "length l < 2 ^ 32"
  shows "age_out target gen l cnt blocks =
    (let l' = filter (\<lambda>b. target = Some (b_bssid b) \<or> \<not> gen - b_last_seen_scan b > 3) l
     in (l', of_nat (length l') :: u32, length l'))"
proof -
  have "age_out target gen l cnt (blocks :: nat) =
      (filter (\<lambda>b. target = Some (b_bssid b) \<or> \<not> gen - b_last_seen_scan b > 3) l,
       of_nat (k + length (filter (\<lambda>b. target = Some (b_bssid b) \<or> \<not> gen - b_last_seen_scan b > 3) l)),
       k + length (filter (\<lambda>b. target = Some (b_bssid b) \<or> \<not> gen - b_last_seen_scan b > 3) l))"
    if "cnt = of_nat (k + length l)" "blocks = k + length l" "k + length l < 2 ^ 32" for k l cnt blocks
    using that
  proof (induction l arbitrary: k cnt blocks)
    case (Cons b bs)
    have nz: "cnt \<noteq> 0"
    proof
      assume "cnt = 0"
      then have "unat cnt = 0" by simp
      then show False using Cons.prems by (simp add: unat_of_nat_small del: of_nat_add of_nat_Suc)
    qed
    have "cnt - 1 = of_nat (k + length bs)" using Cons.prems(1) by simp
    then show ?case using nz Cons.IH [of "cnt - 1" k "blocks - 1"] Cons.IH [of cnt "Suc k" blocks] Cons.prems
      by (auto simp: add.assoc)
  qed simp
  from this [of cnt 0 l blocks] show ?thesis using assms by (simp add: Let_def)
qed

lemma next_generation_ok [inv_intros]: "db_ok db \<Longrightarrow> db_ok (next_generation db)"
  by (auto simp: next_generation_def db_ok_def bss_ok_def Let_def comp_def)

section \<open>Properties\<close>

text \<open>
  C21: Recording a beacon is memory safe and keeps the table consistent. Whatever the bytes of the frame
  (also a truncated element, an element that overruns the frame, several SSID elements or more
  elements than the 512-byte copy holds), \<open>processScanResult\<close> writes inside its buffers only, keeps
  one entry per BSSID, the entry count and every entry's bounds, leaks no memory and frees the frame
  exactly once; the sender of a frame of at least 36 bytes is in the table afterwards, with the
  present scan generation, and the entries of other networks are those from before.
\<close>

theorem scan_result_recorded:
  assumes "db_ok db"
  shows "\<exists>db'. processScanResult mem (Some f) rxs db = Some db' \<and> db_ok db'
    \<and> freed_skbs db' = freed_skbs db + 1
    \<and> {e \<in> set (bssList db'). b_bssid e \<noteq> block f 16 6} = {e \<in> set (bssList db). b_bssid e \<noteq> block f 16 6}
    \<and> (if 36 \<le> length f \<and> mem
       then \<exists>b \<in> set (bssList db'). b_bssid b = block f 16 6 \<and> b_last_seen_scan b = scanGeneration db
       else bssList db' = bssList db)"
proof (cases "36 \<le> length f \<and> mem")
  case False
  then show ?thesis using assms
    by (cases "length f < 36") (auto simp: processScanResult_def free_frame_def db_ok_def)
next
  case True
  then obtain b where b: "parse_beacon f rxs (scanGeneration db) = Some b" "bss_ok b"
    "b_bssid b = block f 16 6" "b_last_seen_scan b = scanGeneration db"
    by (metis parse_beacon_ok)
  let ?db = "store_bss b (db\<lparr>bss_blocks := bss_blocks db + 1\<rparr>)"
  have "processScanResult mem (Some f) rxs db = Some (free_frame (Some f) ?db)"
    using True b(1) by (simp add: processScanResult_def)
  moreover have "freed_skbs ?db = freed_skbs db" by (simp add: store_bss_def split: option.split)
  moreover note store_bss_ok [OF assms b(2)] b(3,4) True
  ultimately show ?thesis by (auto simp: free_frame_def db_ok_def)
qed

definition demo_rxs :: ieee80211_rx_status where
  "demo_rxs = \<lparr>rs_mactime = 0, rs_device_timestamp = 0, rs_ampdu_reference = 0, rs_flag = 0, rs_freq = 5180,
     rs_rate_idx = 0, rs_nss = 0, rs_vht_nss = 0, rs_rx_flags = 0, rs_band = 0, rs_encoding = 0, rs_bw = 0,
     rs_signal = -60, rs_chains = 0, rs_chain_signal = [], rs_antenna = 0, rs_ampdu_delimiter_crc = 0,
     rs_zero_length_psdu_type = False\<rparr>"

definition demo_beacon :: bytes where
  "demo_beacon = replicate 16 0 @ [2, 0, 0, 0, 0, 7] @ replicate 14 0 @ [0, 2, 72, 105]"

theorem scan_result_recorded_witness:
  "\<exists>db'. processScanResult True (Some demo_beacon) demo_rxs scan_db0 = Some db' \<and> db_ok db'
     \<and> freed_skbs db' = 1 \<and> (\<exists>b \<in> set (bssList db'). b_bssid b = [2, 0, 0, 0, 0, 7])"
proof -
  have "length demo_beacon = 40" "block demo_beacon 16 6 = [2, 0, 0, 0, 0, 7]"
    by (simp_all add: demo_beacon_def block_def)
  then show ?thesis
    using scan_result_recorded [OF db_ok_0, of True demo_beacon demo_rxs]
    by (auto simp: scan_db0_def)
qed

text \<open>
  Ageing removes exactly the stale networks. A completed scan removes the entries that were not
  heard for more than three scan generations, except the one the station is connected to, keeps the
  order of the others, and leaves count and memory consistent; an aborted scan removes nothing; a new
  generation (also when the counter wraps) leaves the entries that were just heard young.
\<close>

theorem scan_ageing_exact:
  assumes "db_ok db" and "length (bssList db) < 2 ^ 32"
  shows "bssList (scan_done_age aborted target db) =
      filter (\<lambda>b. aborted \<or> target = Some (b_bssid b) \<or> scanGeneration db - b_last_seen_scan b \<le> 3) (bssList db)
    \<and> db_ok (scan_done_age aborted target db)
    \<and> db_ok (next_generation db)
    \<and> scanGeneration (next_generation db) \<noteq> 0
    \<and> (\<forall>b' \<in> set (bssList (next_generation db)). \<exists>b \<in> set (bssList db). b_bssid b' = b_bssid b
         \<and> scanGeneration (next_generation db) - b_last_seen_scan b'
           = (if scanGeneration db + 1 = 0 then 0 else scanGeneration db - b_last_seen_scan b + 1))"
proof -
  have a: "age_out target (scanGeneration db) (bssList db) (bssCount db) (bss_blocks db) =
    (let l' = filter (\<lambda>b. target = Some (b_bssid b) \<or> \<not> scanGeneration db - b_last_seen_scan b > 3) (bssList db)
     in (l', of_nat (length l'), length l'))"
    using assms by (intro age_out_filter) (simp_all add: db_ok_def)
  have k: "db_ok (scan_done_age aborted target db)"
    using assms a by (auto simp: scan_done_age_def db_ok_def Let_def distinct_map_filter)
  have g: "scanGeneration (next_generation db) \<noteq> 0" by (simp add: next_generation_def Let_def)
  show ?thesis
    using k g next_generation_ok [OF assms(1)] a
    by (auto simp: scan_done_age_def Let_def not_less next_generation_def intro!: filter_cong [OF refl]
        simp del: word_le_def)
qed

definition demo_db :: scan_db where
  "demo_db = \<lparr>bssList = [zero_bss\<lparr>b_bssid := [1, 1, 1, 1, 1, 1], b_last_seen_scan := 9\<rparr>,
       zero_bss\<lparr>b_bssid := [2, 2, 2, 2, 2, 2], b_last_seen_scan := 4\<rparr>],
     bssCount = 2, scanGeneration = 10, bss_blocks = 2, freed_skbs = 0\<rparr>"

theorem scan_ageing_exact_witness:
  "map b_bssid (bssList (scan_done_age False None demo_db)) = [[1, 1, 1, 1, 1, 1]]
   \<and> length (bssList (scan_done_age False (Some [2, 2, 2, 2, 2, 2]) demo_db)) = 2"
proof -
  have ok: "db_ok demo_db" "length (bssList demo_db) < 2 ^ 32"
    by (simp_all add: demo_db_def db_ok_def bss_ok_def zero_bss_def)
  show ?thesis
    using scan_ageing_exact [OF ok, of False None] scan_ageing_exact [OF ok, of False "Some [2, 2, 2, 2, 2, 2]"]
    by (simp add: demo_db_def zero_bss_def)
qed

end
