(* ===== verification/Ctl.thy ===== *)
theory Ctl
  imports BssScan
begin

text \<open>
  The command line tool \<open>ctl/main.c\<close>. The extension is reached through IOKit calls, which are the fields
  of \<open>kext_api\<close>, a parameter: each takes the state \<open>'k\<close> of the system and gives a return code (0 is
  \<open>KERN_SUCCESS\<close>), the data and the next state; \<open>k_sleep\<close> is what happens during \<open>sleep (1)\<close>. Printed
  text is the list of format strings with their arguments. An overrun of a buffer is \<open>None\<close>.
\<close>

datatype selector = kRTW88Scan | kRTW88Connect | kRTW88Disconnect | kRTW88GetState | kRTW88GetBSSList
  | kRTW88GetRSSI | kRTW88SetDebug | kRTW88GetLog | kRTW88PowerOn | kRTW88PowerOff

text \<open>A C string in an array of \<open>n\<close> bytes is its text, at most \<open>n - 1\<close> characters.\<close>

record RTW88ConnectArgs =
  ca_ssid :: string
  ca_password :: string

record RTW88StateResult =
  sr_state :: u32
  sr_bssid :: bytes
  sr_ssid :: string
  sr_rssi :: int
  sr_channel :: u32
  sr_mac_addr :: bytes
  sr_fw_version :: u16
  sr_fw_sub_version :: u8
  sr_chip_name :: string
  sr_rx_byte_count :: u32
  sr_tx_byte_count :: u32
  sr_scan_offload_supported :: u8
  sr_powered :: u8

definition strlcpy :: "nat \<Rightarrow> string \<Rightarrow> string" where
  "strlcpy n s = take (n - 1) s"

datatype arg = AStr string | AInt int | AErr int | ABytes bytes

datatype line = Out string "arg list" | Err string "arg list"

record 'k kext_api =
  k_matching :: bool
  k_service :: bool
  k_open :: "'k \<Rightarrow> int \<times> 'k"
  k_close :: "'k \<Rightarrow> 'k"
  k_scalar :: "selector \<Rightarrow> u64 list \<Rightarrow> 'k \<Rightarrow> int \<times> 'k"
  k_connect :: "RTW88ConnectArgs \<Rightarrow> 'k \<Rightarrow> int \<times> 'k"
  k_struct :: "selector \<Rightarrow> 'k \<Rightarrow> int \<times> 'k"
  k_get_state :: "'k \<Rightarrow> int \<times> RTW88StateResult \<times> 'k"
  k_bytes :: "selector \<Rightarrow> nat \<Rightarrow> 'k \<Rightarrow> int \<times> bytes \<times> 'k"
  k_sleep :: "'k \<Rightarrow> 'k"

definition state_name :: "u32 \<Rightarrow> string" where
  "state_name s =
     (if s = 0 then ''idle'' else if s = 1 then ''scanning'' else if s = 2 then ''authenticating''
      else if s = 3 then ''associating'' else if s = 4 then ''handshaking'' else if s = 5 then ''connected''
      else if s = 6 then ''disconnecting'' else ''unknown'')"

text \<open>\<open>None\<close> as the connection stands for \<open>MACH_PORT_NULL\<close>.\<close>

definition open_kext :: "'k kext_api \<Rightarrow> 'k \<Rightarrow> unit option \<times> line list \<times> 'k" where
  "open_kext api k =
     (if \<not> k_matching api then (None, [Err ''rtw88ctl: failed to create matching dict'' []], k)
      else if \<not> k_service api then (None, [Err ''rtw88ctl: no rtw88 device found (is rtw88.kext loaded?)'' []], k)
      else (case k_open api k of (kr, k') \<Rightarrow>
              if kr \<noteq> 0 then (None, [Err ''rtw88ctl: IOServiceOpen failed: %s'' [AErr kr]], k')
              else (Some (), [], k')))"

section \<open>The list of networks\<close>

record bss_row =
  r_ssid :: bytes
  r_bssid :: bytes
  r_rssi :: int
  r_ch :: u8
  r_sec :: string

definition security_name :: "u32 \<Rightarrow> string" where
  "security_name cipher =
     (if cipher = 0x000FAC04 then ''WPA2'' else if cipher = 0x000FAC02 then ''TKIP''
      else if cipher = 0 then ''Open'' else ''Unknown'')"

definition le32_of :: "u8 \<Rightarrow> u8 \<Rightarrow> u8 \<Rightarrow> u8 \<Rightarrow> u32" where
  "le32_of b0 b1 b2 b3 = be32_of b3 b2 b1 b0"

text \<open>
  One round of the loop; \<open>p\<close> is what is left up to \<open>end\<close>. \<open>Some None\<close> leaves the loop. The SSID goes to
  a zeroed array of 33 bytes and is printed as a C string.
\<close>

definition bss_next :: "bytes \<Rightarrow> (bss_row \<times> bytes) option option" where
  "bss_next p =
     (case p of [] \<Rightarrow> Some None
      | sl # q \<Rightarrow>
          let n = unat sl
          in if length q < n + 6 + 2 + 1 + 4 then Some None
             else do { ssid \<leftarrow> memcpy_at (replicate 33 0) 0 (take n q);
                       if 0 \<notin> set ssid then None
                       else let q = drop n q
                            in Some (Some
                                 (\<lparr>r_ssid = takeWhile (\<lambda>c. c \<noteq> 0) ssid, r_bssid = take 6 q,
                                   r_rssi = sint (le16_of (q ! 7) (q ! 6)), r_ch = q ! 8,
                                   r_sec = security_name (le32_of (q ! 9) (q ! 10) (q ! 11) (q ! 12))\<rparr>,
                                  drop 13 q)) })"

lemma bss_next_shorter: "bss_next p = Some (Some (r, q)) \<Longrightarrow> length q < length p"
  by (auto simp: bss_next_def Let_def bind_eq_Some_iff split: list.splits if_splits)

function bss_rows :: "bytes \<Rightarrow> bss_row list option" where
  "bss_rows p =
     (case bss_next p of None \<Rightarrow> None
      | Some None \<Rightarrow> Some []
      | Some (Some (r, q)) \<Rightarrow> map_option ((#) r) (bss_rows q))"
  by pat_completeness auto
termination by (relation "measure length") (auto dest: bss_next_shorter)

declare bss_rows.simps [simp del]

definition row_line :: "bss_row \<Rightarrow> line" where
  "row_line r = Out ''%-33s %02x:%02x:%02x:%02x:%02x:%02x %4d dBm %4d  %s''
     [ABytes (r_ssid r), ABytes (r_bssid r), AInt (r_rssi r), AInt (uint (r_ch r)), AStr (r_sec r)]"

text \<open>\<open>buf\<close> has 4095 bytes of which the call returned \<open>n\<close>; the window from \<open>p\<close> to \<open>end\<close>.\<close>

definition list_window :: "bytes \<Rightarrow> nat \<Rightarrow> bytes" where
  "list_window buf n =
     (if n \<ge> 4 then let explicit_len = unat (le32_of (buf ! 0) (buf ! 1) (buf ! 2) (buf ! 3));
                     explicit_len = (if explicit_len > n then n else explicit_len)
                 in drop 4 (take explicit_len buf)
      else [])"

definition cmd_list :: "'k kext_api \<Rightarrow> 'k \<Rightarrow> (int \<times> line list \<times> 'k) option" where
  "cmd_list api k =
     (case k_bytes api kRTW88GetBSSList 4095 k of (kr, ret, k') \<Rightarrow>
        do { buf \<leftarrow> memcpy_at (replicate 4095 0) 0 ret;
             if kr \<noteq> 0 then Some (1, [Err ''rtw88ctl: get BSS list failed: %s'' [AErr kr]], k')
             else do { rows \<leftarrow> bss_rows (list_window buf (length ret));
                       Some (0, [Err ''[dbg] IOKit returned len=%zu, first bytes:'' [AInt (int (length ret))],
                                 Err '' %02x'' [ABytes (take 32 ret)],
                                 Out ''%-33s %-18s %5s %7s %s'' [AStr ''SSID'', AStr ''BSSID'', AStr ''RSSI'', AStr ''Channel'', AStr ''Security''],
                                 Out ''-----------------------------------------------------------------------'' []]
                                @ map row_line rows, k') }})"

section \<open>The other commands\<close>

text \<open>The wait of \<open>cmd_scan\<close>: true when a state other than scanning was seen; a dot per second.\<close>

fun scan_wait :: "'k kext_api \<Rightarrow> nat \<Rightarrow> 'k \<Rightarrow> bool \<times> line list \<times> 'k" where
  "scan_wait api 0 k = (False, [], k)"
| "scan_wait api (Suc n) k =
     (case k_get_state api (k_sleep api k) of (kr, result, k') \<Rightarrow>
        if kr = 0 \<and> sr_state result \<noteq> 1 then (True, [Out ''.'' []], k')
        else (case scan_wait api n k' of (dn, ls, k'') \<Rightarrow> (dn, Out ''.'' [] # ls, k'')))"

definition cmd_scan :: "'k kext_api \<Rightarrow> int \<Rightarrow> 'k \<Rightarrow> (int \<times> line list \<times> 'k) option" where
  "cmd_scan api wait_secs k =
     (case k_scalar api kRTW88Scan [] k of (kr, k1) \<Rightarrow>
        if kr \<noteq> 0 then Some (1, [Err ''rtw88ctl: scan failed: %s'' [AErr kr]], k1)
        else (case scan_wait api (nat wait_secs) k1 of (dn, dots, k2) \<Rightarrow>
                do { (ret, ls, k3) \<leftarrow> cmd_list api k2;
                     Some (ret, Out ''Scanning'' [] # dots @
                            (if dn then [] else [Out ''Scan still running after %d s -- showing partial results.'' [AInt wait_secs]])
                            @ ls, k3) }))"

text \<open>The poll of \<open>cmd_connect\<close>, in its round \<open>i\<close> of 30.\<close>

function connect_wait :: "'k kext_api \<Rightarrow> nat \<Rightarrow> 'k \<Rightarrow> int \<times> line list \<times> 'k" where
  "connect_wait api i k =
     (if i \<ge> 30 then (1, [Out ''Connection timed out'' []], k)
      else (case k_get_state api (k_sleep api k) of (kr, result, k') \<Rightarrow>
              if kr = 0 then
                let l = Out ''[%2ds] state: %-16s'' [AInt (int i + 1), AStr (state_name (sr_state result))]
                in if sr_state result = 5 then (0, [l, Out ''Connected! RSSI: %d dBm'' [AInt (sr_rssi result)]], k')
                   else if sr_state result = 0 \<and> i > 3 then (1, [l, Out ''Connection failed'' []], k')
                   else (case connect_wait api (i + 1) k' of (r, ls, k'') \<Rightarrow> (r, l # ls, k''))
              else connect_wait api (i + 1) k'))"
  by pat_completeness auto
termination by (relation "measure (\<lambda>(api, i, k). 30 - i)") auto

declare connect_wait.simps [simp del]

definition cmd_connect :: "'k kext_api \<Rightarrow> string \<Rightarrow> string option \<Rightarrow> 'k \<Rightarrow> int \<times> line list \<times> 'k" where
  "cmd_connect api ssid pass k =
     (let args = \<lparr>ca_ssid = strlcpy 33 ssid, ca_password = (case pass of None \<Rightarrow> '''' | Some p \<Rightarrow> strlcpy 64 p)\<rparr>
      in case k_connect api args k of (kr, k1) \<Rightarrow>
           if kr \<noteq> 0 then (1, [Err ''rtw88ctl: connect failed: %s'' [AErr kr]], k1)
           else (case connect_wait api 0 k1 of (r, ls, k2) \<Rightarrow> (r, Out ''Connecting to '' [AStr ssid] # ls, k2)))"

definition cmd_disconnect :: "'k kext_api \<Rightarrow> 'k \<Rightarrow> int \<times> line list \<times> 'k" where
  "cmd_disconnect api k =
     (case k_scalar api kRTW88Disconnect [] k of (kr, k') \<Rightarrow>
        if kr \<noteq> 0 then (1, [Err ''rtw88ctl: disconnect failed: %s'' [AErr kr]], k')
        else (0, [Out ''Disconnected'' []], k'))"

definition cmd_status :: "'k kext_api \<Rightarrow> 'k \<Rightarrow> int \<times> line list \<times> 'k" where
  "cmd_status api k =
     (case k_get_state api k of (kr, r, k') \<Rightarrow>
        if kr \<noteq> 0 then (1, [Err ''rtw88ctl: get state failed: %s'' [AErr kr]], k')
        else (0, [Out ''State:      %s'' [AStr (state_name (sr_state r))],
                  Out ''Card:       %s'' [AStr (sr_chip_name r)],
                  Out ''MAC:        %02x:%02x:%02x:%02x:%02x:%02x'' [ABytes (sr_mac_addr r)],
                  Out ''Firmware:   v%u.%u'' [AInt (uint (sr_fw_version r)), AInt (uint (sr_fw_sub_version r))],
                  Out ''Scan offld: %s'' [AStr (if sr_scan_offload_supported r \<noteq> 0 then ''yes'' else ''no'')],
                  Out ''Power:      %s'' [AStr (if sr_powered r \<noteq> 0 then ''on'' else ''off'')]]
                 @ (if sr_state r = 5 then
                      [Out ''SSID:       %s'' [AStr (if sr_ssid r \<noteq> '''' then sr_ssid r else ''(unknown)'')],
                       Out ''BSSID:      %02x:%02x:%02x:%02x:%02x:%02x'' [ABytes (sr_bssid r)],
                       Out ''RSSI:       %d dBm'' [AInt (sr_rssi r)],
                       Out ''Channel:    %u'' [AInt (uint (sr_channel r))],
                       Out ''TX Bytes:   %u'' [AInt (uint (sr_tx_byte_count r))],
                       Out ''RX Bytes:   %u'' [AInt (uint (sr_rx_byte_count r))]]
                    else []), k'))"

definition cmd_log :: "'k kext_api \<Rightarrow> 'k \<Rightarrow> int \<times> line list \<times> 'k" where
  "cmd_log api k =
     (case k_bytes api kRTW88GetLog 4096 k of (kr, out, k') \<Rightarrow>
        if kr \<noteq> 0 then (1, [Err ''rtw88ctl: get log failed: %s'' [AErr kr]], k')
        else (0, [Out '''' [ABytes out]], k'))"

definition cmd_debug :: "'k kext_api \<Rightarrow> int \<Rightarrow> 'k \<Rightarrow> int \<times> line list \<times> 'k" where
  "cmd_debug api level k =
     (case k_scalar api kRTW88SetDebug [of_int level] k of (kr, k') \<Rightarrow>
        if kr \<noteq> 0 then (1, [Err ''rtw88ctl: set debug failed: %s'' [AErr kr]], k')
        else (0, [Out ''Debug level set to %d'' [AInt level]], k'))"

definition cmd_power :: "'k kext_api \<Rightarrow> bool \<Rightarrow> 'k \<Rightarrow> int \<times> line list \<times> 'k" where
  "cmd_power api on k =
     (case k_struct api (if on then kRTW88PowerOn else kRTW88PowerOff) k of (kr, k') \<Rightarrow>
        if kr \<noteq> 0 then (1, [Err ''rtw88ctl: power %s failed: %s'' [AStr (if on then ''on'' else ''off''), AErr kr]], k')
        else (0, [Out ''Power %s'' [AStr (if on then ''on'' else ''off'')]], k'))"

section \<open>The command line\<close>

definition is_digit :: "char \<Rightarrow> bool" where
  "is_digit c \<longleftrightarrow> of_char c \<ge> (48 :: nat) \<and> of_char c \<le> (57 :: nat)"

definition is_space :: "char \<Rightarrow> bool" where
  "is_space c \<longleftrightarrow> of_char c = (32 :: nat) \<or> (of_char c \<ge> (9 :: nat) \<and> of_char c \<le> (13 :: nat))"

text \<open>\<open>atoi\<close>: \<open>strtol\<close> in base 10, which saturates, cut to an \<open>int\<close>.\<close>

definition atoi :: "string \<Rightarrow> int" where
  "atoi s =
     (let s = dropWhile is_space s;
          neg = (s \<noteq> [] \<and> hd s = CHR ''-'');
          s = (if s \<noteq> [] \<and> (hd s = CHR ''-'' \<or> hd s = CHR ''+'') then tl s else s);
          v = foldl (\<lambda>v c. 10 * v + (of_char c - 48)) 0 (takeWhile is_digit s);
          v = (if neg then max (- (2 ^ 63)) (- v) else min (2 ^ 63 - 1) v)
      in sint (word_of_int v :: u32))"

text \<open>
  \<open>getopt\<close> with the option string \<open>w:\<close>, as the loop of \<open>main\<close> uses it: the value of the last \<open>-w\<close>.
  Parsing ends at the first argument that is not an option; unknown letters are skipped.
\<close>

function scan_opts :: "string list \<Rightarrow> int \<Rightarrow> int" and opt_letters :: "string \<Rightarrow> string list \<Rightarrow> int \<Rightarrow> int" where
  "scan_opts [] w = w"
| "scan_opts (a # as) w =
     (if a = [] \<or> hd a \<noteq> CHR ''-'' \<or> a = ''-'' \<or> a = ''--'' then w else opt_letters (tl a) as w)"
| "opt_letters [] as w = scan_opts as w"
| "opt_letters (c # cs) as w =
     (if c = CHR ''w'' then
        (if cs \<noteq> [] then scan_opts as (atoi cs)
         else (case as of [] \<Rightarrow> w | b # bs \<Rightarrow> scan_opts bs (atoi b)))
      else opt_letters cs as w)"
  by pat_completeness auto
termination
  by (relation "measure (\<lambda>x. case x of Inl (as, w) \<Rightarrow> 2 * sum_list (map (\<lambda>a. Suc (length a)) as)
        | Inr (cs, as, w) \<Rightarrow> Suc (length cs + 2 * sum_list (map (\<lambda>a. Suc (length a)) as)))")
    (auto simp: neq_Nil_conv)

definition usage :: "string \<Rightarrow> line list" where
  "usage argv0 =
     [Err ''Usage: %s <command> [options]'' [AStr argv0], Err [] [], Err ''Commands:'' [],
      Err ''  scan [-w <secs>]         Scan and print results when done (default 10s)'' [],
      Err ''  list                     Show last scan results without re-scanning'' [],
      Err ''  connect <ssid> [pass]    Connect to a network'' [],
      Err ''  disconnect               Disconnect'' [],
      Err ''  power on|off             Toggle IEEE80211 radio power'' [],
      Err ''  status                   Show current connection status'' [],
      Err ''  log                      Dump driver log buffer'' [],
      Err ''  debug <level>            Set debug level (0=err 1=warn 2=info 3=dbg)'' [], Err [] [],
      Err ''Examples:'' [],
      Err ''  %s scan -w 10            Scan for 10 seconds'' [AStr argv0],
      Err ''  %s list                  Show found networks'' [AStr argv0],
      Err ''  %s connect MyWiFi password123'' [AStr argv0],
      Err ''  %s status'' [AStr argv0], Err [] [], Err ''Notes:'' [],
      Err ''  - rtw88.kext must be loaded (OpenCore injection or kextload)'' [],
      Err ''  - Works in BaseSystem (Recovery) environment'' [],
      Err ''  - Run with sudo if IOServiceOpen fails'' []]"

text \<open>The dispatch on \<open>argv[1]\<close>, with a connection open.\<close>

definition run_command :: "'k kext_api \<Rightarrow> string list \<Rightarrow> 'k \<Rightarrow> (int \<times> line list \<times> 'k) option" where
  "run_command api argv k =
     (let cmd = argv ! 1
      in if cmd = ''scan'' then cmd_scan api (scan_opts (drop 2 argv) 10) k
         else if cmd = ''list'' then cmd_list api k
         else if cmd = ''connect'' then
           (if length argv < 3 then Some (1, [Err ''rtw88ctl: connect requires SSID'' []], k)
            else Some (cmd_connect api (argv ! 2) (if length argv \<ge> 4 then Some (argv ! 3) else None) k))
         else if cmd = ''disconnect'' then Some (cmd_disconnect api k)
         else if cmd = ''power'' then
           (if length argv < 3 \<or> (argv ! 2 \<noteq> ''on'' \<and> argv ! 2 \<noteq> ''off'')
            then Some (1, [Err ''rtw88ctl: power requires on or off'' []], k)
            else Some (cmd_power api (argv ! 2 = ''on'') k))
         else if cmd = ''status'' then Some (cmd_status api k)
         else if cmd = ''log'' then Some (cmd_log api k)
         else if cmd = ''debug'' then
           (if length argv < 3 then Some (1, [Err ''debug requires level'' []], k)
            else Some (cmd_debug api (atoi (argv ! 2)) k))
         else Some (1, Err ''rtw88ctl: unknown command'' [AStr cmd] # usage (argv ! 0), k))"

definition main :: "'k kext_api \<Rightarrow> string list \<Rightarrow> 'k \<Rightarrow> (int \<times> line list \<times> 'k) option" where
  "main api argv k =
     (if length argv < 2 then Some (1, usage (argv ! 0), k)
      else (case open_kext api k of
              (None, ls, k1) \<Rightarrow> Some (1, ls, k1)
            | (Some _, ls, k1) \<Rightarrow>
                map_option (\<lambda>(ret, ls', k2). (ret, ls @ ls', k_close api k2)) (run_command api argv k1)))"

section \<open>Reading a stream of records\<close>

text \<open>
  The contract between a writer of variable-length records and a reader that takes one record off
  the front of what is left: what the writer made of a good record, the reader turns into its view
  and leaves the rest.
\<close>

locale record_stream =
  fixes enc :: "'r \<Rightarrow> bytes" and good :: "'r \<Rightarrow> bool" and view :: "'r \<Rightarrow> 'o"
    and next_rec :: "bytes \<Rightarrow> ('o \<times> bytes) option option" and read_all :: "bytes \<Rightarrow> 'o list option"
  assumes next_enc: "good r \<Longrightarrow> next_rec (enc r @ rest) = Some (Some (view r, rest))"
    and next_end: "next_rec [] = Some None"
    and read_step: "read_all p = (case next_rec p of None \<Rightarrow> None | Some None \<Rightarrow> Some []
        | Some (Some (o1, q)) \<Rightarrow> map_option ((#) o1) (read_all q))"
begin

lemma read_all_Nil: "read_all [] = Some []"
  by (subst read_step) (simp add: next_end)

lemma read_all_enc: "good r \<Longrightarrow> read_all (enc r @ rest) = map_option ((#) (view r)) (read_all rest)"
  by (subst read_step) (simp add: next_enc)

lemma read_all_stream: "list_all good rs \<Longrightarrow> read_all (concat (map enc rs)) = Some (map view rs)"
  by (induction rs) (simp_all add: read_all_Nil read_all_enc)

end

definition bss_bytes :: "RTW88BSS \<Rightarrow> bytes" where
  "bss_bytes b = the (bss_entry b)"

definition row_of :: "RTW88BSS \<Rightarrow> bss_row" where
  "row_of b = \<lparr>r_ssid = takeWhile (\<lambda>c. c \<noteq> 0) (take (unat (b_ssid_len b)) (b_ssid b)), r_bssid = b_bssid b,
     r_rssi = sint (b_rssi b), r_ch = b_channel b, r_sec = security_name (b_cipher b)\<rparr>"

lemma le32_of_bytes [byte_simps, simp]:
  "le32_of (ucast v) (ucast (drop_bit 8 v)) (ucast (drop_bit 16 v)) (ucast (drop_bit 24 v)) = v"
  by (simp add: le32_of_def)

lemma length_le32_bytes [simp]: "length (le32_bytes v) = 4"
  by (simp add: le32_bytes_def)

lemma bss_entry_ok:
  assumes "bss_ok b"
  shows "bss_entry b = Some (bss_bytes b)" and "length (bss_bytes b) = 14 + unat (b_ssid_len b)"
    and "bss_bytes b = b_ssid_len b # take (unat (b_ssid_len b)) (b_ssid b) @ b_bssid b
           @ [hi8 (b_rssi b), lo8 (b_rssi b), b_channel b] @ le32_bytes (b_cipher b)"
  using assms by (auto simp: bss_bytes_def bss_entry_def bss_ok_def block_def)

lemma six_list: "length xs = 6 \<Longrightarrow> \<exists>a b c d e f. xs = [a, b, c, d, e, f]"
  by (auto simp: length_Suc_conv eval_nat_numeral)

lemma takeWhile_zeros: "takeWhile (\<lambda>c. c \<noteq> 0) (xs @ replicate (Suc m) (0 :: u8)) = takeWhile (\<lambda>c. c \<noteq> 0) xs"
  by (induction xs) auto

lemma bss_next_entry:
  assumes "bss_ok b"
  shows "bss_next (bss_bytes b @ rest) = Some (Some (row_of b, rest))"
proof -
  let ?n = "unat (b_ssid_len b)"
  from assms have n: "?n \<le> 32" "length (b_ssid b) = 33" "length (b_bssid b) = 6" by (simp_all add: bss_ok_def)
  obtain a1 a2 a3 a4 a5 a6 where a: "b_bssid b = [a1, a2, a3, a4, a5, a6]" using six_list [OF n(3)] by blast
  let ?s = "take ?n (b_ssid b)"
  have m: "memcpy_at (replicate 33 0) 0 ?s = Some (?s @ replicate (33 - ?n) 0)"
    using n by (simp add: memcpy_at_def blit_def)
  have z: "0 \<in> set (?s @ replicate (33 - ?n) 0)" using n by simp
  have suc: "33 - ?n = Suc (32 - ?n)" using n(1) by simp
  have "takeWhile (\<lambda>c. c \<noteq> 0) (?s @ replicate (33 - ?n) 0) = takeWhile (\<lambda>c. c \<noteq> 0) ?s"
    unfolding suc by (rule takeWhile_zeros)
  then show ?thesis using n z
    by (simp add: bss_next_def bss_entry_ok(3) [OF assms] m row_of_def a Let_def le32_bytes_def)
qed

interpretation bss: record_stream bss_bytes bss_ok row_of bss_next bss_rows
proof
  show "bss_next [] = Some None" by (simp add: bss_next_def)
  show "bss_rows p = (case bss_next p of None \<Rightarrow> None | Some None \<Rightarrow> Some []
        | Some (Some (o1, q)) \<Rightarrow> map_option ((#) o1) (bss_rows q))" for p
    by (rule bss_rows.simps)
qed (rule bss_next_entry)

section \<open>The list from the extension to the screen\<close>

definition entry_size :: "RTW88BSS \<Rightarrow> nat" where
  "entry_size b = 14 + unat (b_ssid_len b)"

fun fitting :: "nat \<Rightarrow> RTW88BSS list \<Rightarrow> RTW88BSS list" where
  "fitting n [] = []"
| "fitting n (b # bs) = (if entry_size b > n then [] else b # fitting (n - entry_size b) bs)"

lemma fitting_prefix:
  "\<exists>m \<le> length l. fitting n l = take m l \<and> sum_list (map entry_size (take m l)) \<le> n
     \<and> (m < length l \<longrightarrow> n < sum_list (map entry_size (take (Suc m) l)))"
proof (induction l arbitrary: n)
  case (Cons b l)
  show ?case
  proof (cases "entry_size b > n")
    case True
    then show ?thesis by (intro exI [of _ 0]) simp
  next
    case False
    obtain m where m: "m \<le> length l" "fitting (n - entry_size b) l = take m l"
      "sum_list (map entry_size (take m l)) \<le> n - entry_size b"
      "m < length l \<longrightarrow> n - entry_size b < sum_list (map entry_size (take (Suc m) l))"
      using Cons.IH [of "n - entry_size b"] by blast
    then show ?thesis using False by (intro exI [of _ "Suc m"]) auto
  qed
qed simp

lemma fitting_ok: "list_all bss_ok l \<Longrightarrow> list_all bss_ok (fitting n l)"
  by (induction l arbitrary: n) auto

lemma length_stream: "list_all bss_ok l \<Longrightarrow> length (concat (map bss_bytes l)) = sum_list (map entry_size l)"
  by (induction l) (simp_all add: bss_entry_ok(2) entry_size_def)

lemma list_window_stream:
  assumes "unat v = 4 + length c"
  shows "list_window (le32_bytes v @ c @ pad) (4 + length c) = c"
proof -
  let ?b = "le32_bytes v @ c @ pad"
  have "le32_of (?b ! 0) (?b ! 1) (?b ! 2) (?b ! 3) = v" by (simp add: le32_bytes_def)
  moreover have "drop 4 (take (4 + length c) ?b) = c" by (simp add: drop_take)
  ultimately show ?thesis by (simp add: list_window_def Let_def assms)
qed

lemma put_entries_stream:
  assumes "list_all bss_ok l" and "written \<le> max_len" and "max_len \<le> length buf"
  shows "\<exists>buf'. put_entries max_len l buf written
      = Some (buf', written + sum_list (map entry_size (fitting (max_len - written) l)))
    \<and> length buf' = length buf \<and> take written buf' = take written buf
    \<and> written + sum_list (map entry_size (fitting (max_len - written) l)) \<le> max_len
    \<and> block buf' written (sum_list (map entry_size (fitting (max_len - written) l)))
        = concat (map bss_bytes (fitting (max_len - written) l))"
  using assms
proof (induction l arbitrary: buf written)
  case (Cons b l)
  have b: "bss_ok b" "list_all bss_ok l" using Cons.prems(1) by simp_all
  have len: "length (bss_bytes b) = entry_size b" using bss_entry_ok(2) [OF b(1)] by (simp add: entry_size_def)
  show ?case
  proof (cases "written + entry_size b > max_len")
    case True
    then show ?thesis using Cons.prems by (auto simp: entry_size_def)
  next
    case False
    let ?buf = "blit buf written (bss_bytes b)" and ?w = "written + entry_size b"
    have fit: "written + length (bss_bytes b) \<le> length buf" using False Cons.prems len by simp
    have lb: "length ?buf = length buf" using fit by (simp add: buf_simps)
    obtain buf' where i: "put_entries max_len l ?buf ?w
        = Some (buf', ?w + sum_list (map entry_size (fitting (max_len - ?w) l)))"
      "length buf' = length ?buf" "take ?w buf' = take ?w ?buf"
      "?w + sum_list (map entry_size (fitting (max_len - ?w) l)) \<le> max_len"
      "block buf' ?w (sum_list (map entry_size (fitting (max_len - ?w) l))) = concat (map bss_bytes (fitting (max_len - ?w) l))"
      using Cons.IH [of ?w ?buf] b(2) False Cons.prems(3) lb by auto
    let ?S = "sum_list (map entry_size (fitting (max_len - ?w) l))"
    have step: "put_entries max_len (b # l) buf written = Some (buf', ?w + ?S)"
      using False i(1) fit by (simp add: entry_size_def bss_entry_ok(1) [OF b(1)] memcpy_at_def add.assoc Let_def)
    have pre: "take written buf' = take written buf"
      using arg_cong [OF i(3), of "take written"] fit by (simp add: blit_def)
    have "block buf' written (entry_size b) = block (take ?w buf') written (entry_size b)"
      by (simp add: block_def drop_take)
    also have "\<dots> = bss_bytes b" unfolding i(3) using fit len by (simp add: blit_def block_def drop_take)
    finally have fst_part: "block buf' written (entry_size b) = bss_bytes b" .
    have "block buf' written (entry_size b + ?S) = bss_bytes b @ concat (map bss_bytes (fitting (max_len - ?w) l))"
      using fst_part i(5) by (simp add: block_def take_add drop_drop add.commute)
    then show ?thesis using step pre i(2,4) lb False by (simp add: add.assoc diff_diff_eq)
  qed
qed simp

lemma getBSSList_stream:
  assumes "db_ok db" and "4 \<le> length buf" and "length buf \<le> 4095"
  obtains buf' where "cmdGetBSSList (Some buf) (length buf) db = Some (IOSuccess, buf', length (le32_bytes 0) + length (concat (map bss_bytes (fitting (length buf - 4) (bssList db)))))"
    and "length buf' = length buf"
    and "take (4 + length (concat (map bss_bytes (fitting (length buf - 4) (bssList db))))) buf'
      = le32_bytes (of_nat (4 + length (concat (map bss_bytes (fitting (length buf - 4) (bssList db))))))
        @ concat (map bss_bytes (fitting (length buf - 4) (bssList db)))"
    and "4 + length (concat (map bss_bytes (fitting (length buf - 4) (bssList db)))) \<le> length buf"
proof -
  let ?F = "fitting (length buf - 4) (bssList db)"
  let ?S = "sum_list (map entry_size ?F)"
  have ok: "list_all bss_ok (bssList db)" using assms(1) by (simp add: db_ok_def list_all_iff)
  have S: "length (concat (map bss_bytes ?F)) = ?S"
    by (rule length_stream) (rule fitting_ok [OF ok])
  obtain b1 where b1: "put_entries (length buf) (bssList db) buf 4 = Some (b1, 4 + ?S)" "length b1 = length buf"
    "4 + ?S \<le> length buf" "block b1 4 ?S = concat (map bss_bytes ?F)"
    using put_entries_stream [OF ok assms(2), of buf] by auto
  let ?b = "blit b1 0 (le32_bytes (of_nat (4 + ?S)))"
  have len: "length ?b = length buf" using b1(2) assms(2) by (simp add: buf_simps)
  have "cmdGetBSSList (Some buf) (length buf) db = Some (IOSuccess, ?b, 4 + ?S)"
    using assms b1 by (simp add: cmdGetBSSList_def Let_def memcpy_at_def)
  moreover have "take (4 + ?S) ?b = le32_bytes (of_nat (4 + ?S)) @ concat (map bss_bytes ?F)"
    using b1 assms(2) by (simp add: blit_def block_def)
  ultimately show ?thesis using that [of ?b] len b1(3) S by simp
qed

lemma list_prints:
  assumes "db_ok db"
    and "cmdGetBSSList (Some (replicate 4095 0)) 4095 db = Some (ret, buf, len_out)"
    and "k_bytes api kRTW88GetBSSList 4095 k = (0, take len_out buf, k')"
  shows "\<exists>n head_lines. cmd_list api k = Some (0, head_lines @ map (row_line \<circ> row_of) (take n (bssList db)), k')
    \<and> length head_lines = 4 \<and> n \<le> length (bssList db)
    \<and> 4 + sum_list (map entry_size (take n (bssList db))) \<le> 4095
    \<and> (n < length (bssList db) \<longrightarrow> 4095 < 4 + sum_list (map entry_size (take (Suc n) (bssList db))))"
proof -
  let ?F = "fitting 4091 (bssList db)"
  let ?C = "concat (map bss_bytes ?F)"
  obtain b where b: "cmdGetBSSList (Some (replicate 4095 0)) 4095 db = Some (IOSuccess, b, 4 + length ?C)"
    "length b = 4095" "take (4 + length ?C) b = le32_bytes (of_nat (4 + length ?C)) @ ?C" "4 + length ?C \<le> 4095"
    using getBSSList_stream [OF assms(1), of "replicate 4095 0"] by (auto simp del: length_concat)
  have eq: "buf = b" "len_out = 4 + length ?C" using assms(2) b(1) by simp_all
  obtain m where m: "m \<le> length (bssList db)" "?F = take m (bssList db)"
    "sum_list (map entry_size (take m (bssList db))) \<le> 4091"
    "m < length (bssList db) \<longrightarrow> 4091 < sum_list (map entry_size (take (Suc m) (bssList db)))"
    using fitting_prefix by blast
  have ok: "list_all bss_ok ?F" using assms(1) by (intro fitting_ok) (simp add: db_ok_def list_all_iff)
  let ?ret = "le32_bytes (of_nat (4 + length ?C)) @ ?C"
  have u: "unat (of_nat (4 + length ?C) :: u32) = 4 + length ?C"
    by (rule unat_of_nat_small) (use b(4) in simp)
  have cp: "memcpy_at (replicate 4095 0) 0 ?ret = Some (?ret @ replicate (4091 - length ?C) 0)"
    using b(4) by (simp add: memcpy_at_def blit_def)
  have w: "list_window (?ret @ replicate (4091 - length ?C) 0) (4 + length ?C) = ?C"
    using list_window_stream [OF u] by (simp del: of_nat_add of_nat_Suc)
  show ?thesis
    using m(1,3,4) assms(3) cp w bss.read_all_stream [OF ok]
    by (intro exI [of _ m]) (auto simp: cmd_list_def eq b(3) m(2) [symmetric] comp_def simp del: length_concat)
qed

text \<open>
  The networks shown are the networks found. When the tool asks the extension for its scan results
  and IOKit hands it the bytes \<open>cmdGetBSSList\<close> wrote into a buffer of 4095 bytes, \<open>cmd_list\<close> stays
  inside its buffers, succeeds and prints one line for each of the first \<open>n\<close> networks of the table, in
  order, with their name, address, signal, channel and security; \<open>n\<close> is as large as the buffer allows.
\<close>

theorem bss_list_roundtrip:
  assumes "db_ok db"
    and "cmdGetBSSList (Some (replicate 4095 0)) 4095 db = Some (ret, buf, len_out)"
    and "k_bytes api kRTW88GetBSSList 4095 k = (0, take len_out buf, k')"
  shows "\<exists>n head_lines. cmd_list api k = Some (0, head_lines @ map (row_line \<circ> row_of) (take n (bssList db)), k')
    \<and> length head_lines = 4 \<and> n \<le> length (bssList db)
    \<and> 4 + sum_list (map entry_size (take n (bssList db))) \<le> 4095
    \<and> (n < length (bssList db) \<longrightarrow> 4095 < 4 + sum_list (map entry_size (take (Suc n) (bssList db))))"
  by (rule list_prints [OF assms])

definition demo_api :: "'k kext_api" where
  "demo_api = \<lparr>k_matching = True, k_service = True, k_open = Pair 0, k_close = id, k_scalar = (\<lambda>sel args. Pair 0),
     k_connect = (\<lambda>args. Pair 0), k_struct = (\<lambda>sel. Pair 0),
     k_get_state = (\<lambda>k. (0, \<lparr>sr_state = 5, sr_bssid = [], sr_ssid = [], sr_rssi = -50, sr_channel = 6, sr_mac_addr = [],
        sr_fw_version = 1, sr_fw_sub_version = 0, sr_chip_name = [], sr_rx_byte_count = 0, sr_tx_byte_count = 0,
        sr_scan_offload_supported = 0, sr_powered = 1\<rparr>, k)),
     k_bytes = (\<lambda>sel n k. (0, [], k)), k_sleep = id\<rparr>"

lemma demo_db_ok: "db_ok demo_db"
  by (simp add: demo_db_def db_ok_def bss_ok_def zero_bss_def)

theorem bss_list_roundtrip_witness:
  "\<exists>api head_lines. cmd_list (api :: unit kext_api) ()
     = Some (0, head_lines @ map (row_line \<circ> row_of) (bssList demo_db), ()) \<and> length head_lines = 4"
proof -
  have "\<exists>b n. cmdGetBSSList (Some (replicate 4095 0)) 4095 demo_db = Some (IOSuccess, b, n)"
    by (rule getBSSList_stream [OF demo_db_ok, of "replicate 4095 0"]) (auto simp del: length_concat)
  then obtain b n where b: "cmdGetBSSList (Some (replicate 4095 0)) 4095 demo_db = Some (IOSuccess, b, n)" by blast
  let ?api = "(demo_api :: unit kext_api)\<lparr>k_bytes := \<lambda>sel m k. (0, take n b, k)\<rparr>"
  obtain m h where m: "cmd_list ?api () = Some (0, h @ map (row_line \<circ> row_of) (take m (bssList demo_db)), ())"
    "length h = 4" "m < length (bssList demo_db) \<longrightarrow> 4095 < 4 + sum_list (map entry_size (take (Suc m) (bssList demo_db)))"
    using bss_list_roundtrip [OF demo_db_ok b, of ?api "()" "()"] by auto
  have "sum_list (map entry_size (take (Suc m) (bssList demo_db))) \<le> 28"
    by (cases m) (simp_all add: demo_db_def entry_size_def zero_bss_def)
  then have "take m (bssList demo_db) = bssList demo_db" using m(3) by force
  then show ?thesis using m(1,2) by auto
qed

section \<open>The outcome of connecting\<close>

text \<open>The system after \<open>j\<close> polls, and what poll \<open>j\<close> returns.\<close>

fun polled :: "'k kext_api \<Rightarrow> nat \<Rightarrow> 'k \<Rightarrow> 'k" where
  "polled api 0 k = k"
| "polled api (Suc j) k = polled api j (snd (snd (k_get_state api (k_sleep api k))))"

definition poll_state :: "'k kext_api \<Rightarrow> nat \<Rightarrow> 'k \<Rightarrow> u32 option" where
  "poll_state api j k =
     (case k_get_state api (k_sleep api (polled api j k)) of (kr, r, k') \<Rightarrow> if kr = 0 then Some (sr_state r) else None)"

lemma poll_state_Suc: "poll_state api (Suc j) k = poll_state api j (snd (snd (k_get_state api (k_sleep api k))))"
  by (simp add: poll_state_def)

lemma connect_wait_outcome:
  "fst (connect_wait api i k) =
     (if \<exists>j. i + j < 30 \<and> poll_state api j k = Some 5
          \<and> (\<forall>m < j. \<not> (i + m > 3 \<and> poll_state api m k = Some 0)) then 0 else 1)"
proof (induction api i k rule: connect_wait.induct)
  case (1 api i k)
  let ?P = "\<lambda>j. i + j < 30 \<and> poll_state api j k = Some 5 \<and> (\<forall>m < j. \<not> (i + m > 3 \<and> poll_state api m k = Some 0))"
  obtain kr r k1 where g: "k_get_state api (k_sleep api k) = (kr, r, k1)" by (cases "k_get_state api (k_sleep api k)") auto
  have later: "poll_state api (Suc j) k = poll_state api j k1" for j by (simp add: poll_state_Suc g)
  show ?case
  proof (cases "i \<ge> 30")
    case True
    then show ?thesis by (subst connect_wait.simps) simp
  next
    case False
    have p0: "poll_state api 0 k = (if kr = 0 then Some (sr_state r) else None)" by (simp add: poll_state_def g)
    have split: "(\<exists>j. ?P j) \<longleftrightarrow> poll_state api 0 k = Some 5 \<or> (\<not> (i > 3 \<and> poll_state api 0 k = Some 0)
        \<and> (\<exists>j. i + 1 + j < 30 \<and> poll_state api j k1 = Some 5
              \<and> (\<forall>m < j. \<not> (i + 1 + m > 3 \<and> poll_state api m k1 = Some 0))))" (is "_ \<longleftrightarrow> ?R")
    proof
      assume "\<exists>j. ?P j"
      then obtain j where j: "i + j < 30" "poll_state api j k = Some 5"
        and early: "\<And>m. m < j \<Longrightarrow> \<not> (i + m > 3 \<and> poll_state api m k = Some 0)" by blast
      show ?R
      proof (cases j)
        case (Suc j')
        have "\<not> (i + 1 + m > 3 \<and> poll_state api m k1 = Some 0)" if "m < j'" for m
          using early [of "Suc m"] Suc that by (simp add: later)
        moreover have "\<not> (i > 3 \<and> poll_state api 0 k = Some 0)" using early [of 0] Suc by simp
        moreover have "i + 1 + j' < 30" "poll_state api j' k1 = Some 5" using j Suc by (simp_all add: later)
        ultimately show ?thesis by blast
      qed (use j in simp)
    next
      assume ?R
      then consider "poll_state api 0 k = Some 5" | j where "\<not> (i > 3 \<and> poll_state api 0 k = Some 0)"
        "i + 1 + j < 30" "poll_state api j k1 = Some 5" "\<forall>m < j. \<not> (i + 1 + m > 3 \<and> poll_state api m k1 = Some 0)"
        by blast
      then show "\<exists>j. ?P j"
      proof cases
        case 1
        then show ?thesis using False by (intro exI [of _ 0]) simp
      next
        case (2 j)
        have "\<not> (i + m > 3 \<and> poll_state api m k = Some 0)" if "m < Suc j" for m
          using 2 that by (cases m) (auto simp: later)
        then show ?thesis using 2 by (intro exI [of _ "Suc j"]) (simp add: later)
      qed
    qed
    consider (fail) "kr \<noteq> 0" | (conn) "kr = 0" "sr_state r = 5" | (idle) "kr = 0" "sr_state r = 0" "i > 3"
      | (wait) "kr = 0" "sr_state r \<noteq> 5" "\<not> (sr_state r = 0 \<and> i > 3)" by blast
    then have "fst (connect_wait api i k) = (if ?R then 0 else 1)"
    proof cases
      case fail
      then show ?thesis using False 1(2) [OF False g [symmetric] refl] fail
        by (subst connect_wait.simps) (simp add: g p0)
    next
      case wait
      then show ?thesis using False 1(1) [OF False g [symmetric] refl]
        by (subst connect_wait.simps) (auto simp: g p0 Let_def split_beta)
    qed (use False in \<open>subst connect_wait.simps, simp add: g p0 Let_def\<close>)+
    then show ?thesis by (simp only: split)
  qed
qed

text \<open>
  The exit status of \<open>rtw88ctl connect\<close> is honest. It is 0 exactly when the extension accepted the
  request and one of the at most thirty polls of its state, one a second, saw the connected state
  before any poll after the fourth saw the idle state; in every other case, including failed polls
  and the timeout, it is 1. The name is cut to 32 and the password to 63 characters.
\<close>

theorem connect_exit_status:
  "fst (cmd_connect api ssid pass k) =
     (case k_connect api \<lparr>ca_ssid = take 32 ssid, ca_password = (case pass of None \<Rightarrow> [] | Some p \<Rightarrow> take 63 p)\<rparr> k of
        (kr, k1) \<Rightarrow>
          if kr = 0 \<and> (\<exists>j < 30. poll_state api j k1 = Some 5 \<and> (\<forall>m < j. m > 3 \<longrightarrow> poll_state api m k1 \<noteq> Some 0))
          then 0 else 1)"
proof -
  have "(\<exists>j < 30. poll_state api j k1 = Some 5 \<and> (\<forall>m < j. m > 3 \<longrightarrow> poll_state api m k1 \<noteq> Some 0))
    \<longleftrightarrow> (\<exists>j. 0 + j < 30 \<and> poll_state api j k1 = Some 5 \<and> (\<forall>m < j. \<not> (0 + m > 3 \<and> poll_state api m k1 = Some 0)))" for k1
    by auto
  then show ?thesis
    using connect_wait_outcome [of api 0]
    by (auto simp: cmd_connect_def strlcpy_def Let_def split_beta split: prod.splits option.splits)
qed

theorem connect_exit_status_witness:
  "fst (cmd_connect demo_api ''home'' None (0 :: nat)) = 0"
proof -
  have "poll_state demo_api 0 (0 :: nat) = Some 5" by (simp add: poll_state_def demo_api_def)
  then show ?thesis
    using connect_exit_status [of demo_api "''home''" None "0 :: nat"]
    by (auto simp: demo_api_def intro: exI [of _ 0])
qed

text \<open>
  The reader trusts the length byte: an entry with a name of more than 33 bytes would be copied past
  the array it is printed from. The extension never writes one, so this is reachable only with a
  different provider of the service.
\<close>

lemma list_trusts_ssid_len: "bss_next (34 # replicate 47 1) = None"
  by (simp add: bss_next_def memcpy_at_def)

end
