(* ===== verification/EtherDevice.thy ===== *)
theory EtherDevice
  imports Prelude "HOL-Library.Monad_Syntax"
begin

text \<open>
  Ethernet addresses: the helpers of \<open>linux/etherdevice.h\<close> over addresses as byte lists. A read past the end of
  an address is \<open>None\<close>, as everywhere in the development.
\<close>

definition ETH_ALEN :: nat where "ETH_ALEN = 6"

text \<open>\<open>memcmp (a, b, 6) == 0\<close>, which reads all six bytes of both sides at most.\<close>

definition ether_addr_equal :: "bytes \<Rightarrow> bytes \<Rightarrow> bool option" where
  "ether_addr_equal a b =
     (if ETH_ALEN \<le> length a \<and> ETH_ALEN \<le> length b then Some (take ETH_ALEN a = take ETH_ALEN b) else None)"

definition eth_broadcast_addr :: "bytes \<Rightarrow> bytes option" where
  "eth_broadcast_addr a = memcpy_at a 0 (replicate ETH_ALEN 0xff)"

definition eth_zero_addr :: "bytes \<Rightarrow> bytes option" where
  "eth_zero_addr a = memcpy_at a 0 (replicate ETH_ALEN 0)"

definition ether_addr_copy :: "bytes \<Rightarrow> bytes \<Rightarrow> bytes option" where
  "ether_addr_copy dst src = (if ETH_ALEN \<le> length src then memcpy_at dst 0 (take ETH_ALEN src) else None)"

definition is_broadcast_ether_addr :: "bytes \<Rightarrow> bool option" where
  "is_broadcast_ether_addr a =
     do { a0 \<leftarrow> rd a 0; a1 \<leftarrow> rd a 1; a2 \<leftarrow> rd a 2; a3 \<leftarrow> rd a 3; a4 \<leftarrow> rd a 4; a5 \<leftarrow> rd a 5;
          Some (a0 AND a1 AND a2 AND a3 AND a4 AND a5 = 0xff) }"

definition is_multicast_ether_addr :: "bytes \<Rightarrow> bool option" where
  "is_multicast_ether_addr a = do { a0 \<leftarrow> rd a 0; Some (0x01 AND a0 \<noteq> 0) }"

definition is_unicast_ether_addr :: "bytes \<Rightarrow> bool option" where
  "is_unicast_ether_addr a = do { m \<leftarrow> is_multicast_ether_addr a; Some (\<not> m) }"

definition is_zero_ether_addr :: "bytes \<Rightarrow> bool option" where
  "is_zero_ether_addr a =
     do { a0 \<leftarrow> rd a 0; a1 \<leftarrow> rd a 1; a2 \<leftarrow> rd a 2; a3 \<leftarrow> rd a 3; a4 \<leftarrow> rd a 4; a5 \<leftarrow> rd a 5;
          Some (a0 OR a1 OR a2 OR a3 OR a4 OR a5 = 0) }"

definition is_valid_ether_addr :: "bytes \<Rightarrow> bool option" where
  "is_valid_ether_addr a =
     do { m \<leftarrow> is_multicast_ether_addr a; if m then Some False else do { z \<leftarrow> is_zero_ether_addr a; Some (\<not> z) } }"

text \<open>\<open>rnd\<close>: the six bytes \<open>read_random\<close> gives.\<close>

definition eth_random_addr :: "bytes \<Rightarrow> bytes \<Rightarrow> bytes option" where
  "eth_random_addr rnd a =
     do { a \<leftarrow> memcpy_at a 0 (take ETH_ALEN rnd); a0 \<leftarrow> rd a 0; Some (a[0 := (a0 AND 0xfe) OR 0x02]) }"

fun masked_from :: "nat \<Rightarrow> bytes \<Rightarrow> bytes \<Rightarrow> bytes \<Rightarrow> bool option" where
  "masked_from 0 a b msk = Some True"
| "masked_from (Suc n) a b msk =
     do { x \<leftarrow> rd a (ETH_ALEN - Suc n); y \<leftarrow> rd b (ETH_ALEN - Suc n); k \<leftarrow> rd msk (ETH_ALEN - Suc n);
          if (x XOR y) AND k \<noteq> 0 then Some False else masked_from n a b msk }"

definition ether_addr_equal_masked :: "bytes \<Rightarrow> bytes \<Rightarrow> bytes \<Rightarrow> bool option" where
  "ether_addr_equal_masked a b msk = masked_from ETH_ALEN a b msk"

section \<open>What they decide\<close>

lemma and_ff_iff: "x AND y = 0xff \<longleftrightarrow> x = 0xff \<and> y = (0xff :: u8)"
proof -
  have f: "(0xff :: u8) = - 1" by simp
  show ?thesis unfolding f by (auto simp: bit_eq_iff bit_simps)
qed

lemma or_zero_iff: "x OR y = 0 \<longleftrightarrow> x = 0 \<and> y = (0 :: u8)"
  by (auto simp: bit_eq_iff bit_simps)

lemma addr_bytes:
  assumes "length a = 6"
  obtains a0 a1 a2 a3 a4 a5 where "a = [a0, a1, a2, a3, a4, a5]"
  using assms by (auto simp: numeral_eq_Suc length_Suc_conv)

lemma is_broadcast_iff: "length a = 6 \<Longrightarrow> is_broadcast_ether_addr a = Some (a = replicate 6 0xff)"
  by (erule addr_bytes) (auto simp: is_broadcast_ether_addr_def rd_def and_ff_iff numeral_eq_Suc)

lemma is_zero_iff: "length a = 6 \<Longrightarrow> is_zero_ether_addr a = Some (a = replicate 6 0)"
  by (erule addr_bytes) (auto simp: is_zero_ether_addr_def rd_def or_zero_iff numeral_eq_Suc)

lemma is_multicast_total: "length a = 6 \<Longrightarrow> is_multicast_ether_addr a = Some (0x01 AND a ! 0 \<noteq> 0)"
  by (simp add: is_multicast_ether_addr_def)

lemma ether_equal_iff: "length a = 6 \<Longrightarrow> length b = 6 \<Longrightarrow> ether_addr_equal a b = Some (a = b)"
  by (simp add: ether_addr_equal_def ETH_ALEN_def)

lemma broadcast_is_multicast: "length a = 6 \<Longrightarrow> is_broadcast_ether_addr a = Some True \<Longrightarrow> is_multicast_ether_addr a = Some True"
  by (simp add: is_broadcast_iff is_multicast_total)

lemma valid_iff:
  "length a = 6 \<Longrightarrow> is_valid_ether_addr a = Some (is_unicast_ether_addr a = Some True \<and> a \<noteq> replicate 6 0)"
  by (simp add: is_valid_ether_addr_def is_unicast_ether_addr_def is_zero_iff is_multicast_total)

lemma masked_full:
  assumes "length a = 6" "length b = 6"
  shows "ether_addr_equal_masked a b (replicate 6 0xff) = ether_addr_equal a b"
proof -
  have f: "(0xff :: u8) = - 1" by simp
  have x: "(x XOR y) AND 0xff = 0 \<longleftrightarrow> x = y" for x y :: u8
    unfolding f by (auto simp: bit_eq_iff bit_simps)
  obtain a0 a1 a2 a3 a4 a5 where a: "a = [a0, a1, a2, a3, a4, a5]" by (rule addr_bytes [OF assms(1)])
  obtain b0 b1 b2 b3 b4 b5 where b: "b = [b0, b1, b2, b3, b4, b5]" by (rule addr_bytes [OF assms(2)])
  show ?thesis
    unfolding ether_equal_iff [OF assms] unfolding a b ether_addr_equal_masked_def ETH_ALEN_def
    by (auto simp: numeral_eq_Suc ETH_ALEN_def x [simplified numeral_eq_Suc])
qed

lemma random_valid:
  assumes "length a = 6" "length rnd = 6"
  shows "\<exists>r. eth_random_addr rnd a = Some r \<and> length r = 6 \<and> is_valid_ether_addr r = Some True \<and> bit (r ! 0) 1"
proof -
  let ?r = "rnd[0 := (rnd ! 0 AND 0xfe) OR 0x02]"
  have r: "eth_random_addr rnd a = Some ?r" "length ?r = 6" "?r ! 0 = (rnd ! 0 AND 0xfe) OR 0x02"
    using assms by (simp_all add: eth_random_addr_def memcpy_at_def ETH_ALEN_def blit_def)
  have b: "bit (?r ! 0) 1" "\<not> bit (?r ! 0) 0" unfolding r(3) by (simp_all add: bit_simps bit_numeral_rec)
  then have "?r \<noteq> replicate 6 0" using r(2) by (metis bit_0_eq bot_apply bot_bool_def nth_replicate zero_less_numeral)
  moreover have "0x01 AND ?r ! 0 = 0" using b(2) by (auto simp: and_one_eq one_and_eq bit_0 even_iff_mod_2_eq_zero)
  ultimately show ?thesis
    using r(1,2) b(1) by (simp add: valid_iff is_unicast_ether_addr_def is_multicast_total)
qed

text \<open>
  Ethernet addresses are classified as the standard defines them. The all-ones address is the only broadcast
  address and is a multicast address; an address is valid when it is neither a group address nor zero; comparing under
  a full mask is comparing; and a generated random address is always a valid, locally administered unicast
  address, whatever random bytes the system supplies.
\<close>

theorem ether_addresses_classified:
  assumes "length a = 6" "length b = 6" "length rnd = 6"
  shows "is_broadcast_ether_addr a = Some (a = replicate 6 0xff)
    \<and> (a = replicate 6 0xff \<longrightarrow> is_multicast_ether_addr a = Some True)
    \<and> is_valid_ether_addr a = Some (is_unicast_ether_addr a = Some True \<and> a \<noteq> replicate 6 0)
    \<and> ether_addr_equal_masked a b (replicate 6 0xff) = ether_addr_equal a b
    \<and> (\<exists>r. eth_random_addr rnd a = Some r \<and> length r = 6 \<and> is_valid_ether_addr r = Some True \<and> bit (r ! 0) 1)"
  using assms is_broadcast_iff broadcast_is_multicast valid_iff masked_full random_valid by simp

theorem ether_addresses_classified_witness:
  "is_broadcast_ether_addr (replicate 6 0xff) = Some True
    \<and> (\<exists>r. eth_random_addr [0xff, 0, 1, 2, 3, 4] (replicate 6 0xff) = Some r \<and> is_valid_ether_addr r = Some True)"
  using ether_addresses_classified [of "replicate 6 0xff" "replicate 6 0" "[0xff, 0, 1, 2, 3, 4]"] by auto

end
