(* ===== verification/Sha1.thy ===== *)
theory Sha1
  imports Prelude "HOL-Library.Monad_Syntax"
begin

text \<open>
  The SHA-1 and HMAC-SHA1 functions of \<open>RTW88IEEE80211.cpp\<close>: the compression function with its sixteen
  word ring, the streaming context \<open>KERN_SHA1_CTX\<close>, and the keyed hash. They are compared with a
  direct transcription of the standards: the message schedule of eighty words and the round function of
  FIPS 180-4, its padding, and the HMAC of FIPS 198-1. The lengths of the code are 32-bit values, and where their sum wraps an update
  overruns the buffer of the context.
\<close>

section \<open>The code\<close>

record KERN_SHA1_CTX =
  sha_state :: "u32 list"
  sha_count :: "u32 \<times> u32"
  sha_buffer :: bytes

definition rol :: "u32 \<Rightarrow> nat \<Rightarrow> u32" where
  "rol v n = push_bit n v OR drop_bit (32 - n) v"

definition le_word :: "bytes \<Rightarrow> nat \<Rightarrow> u32" where
  "le_word p i = ucast (p ! (4 * i)) OR push_bit 8 (ucast (p ! (4 * i + 1)))
     OR push_bit 16 (ucast (p ! (4 * i + 2))) OR push_bit 24 (ucast (p ! (4 * i + 3)))"

text \<open>\<open>blk0\<close> and \<open>blk\<close>: the word of round \<open>i\<close>, and the ring with that word stored.\<close>

definition blk0 :: "nat \<Rightarrow> u32 list \<Rightarrow> u32" where
  "blk0 i l = (rol (l ! i) 24 AND 0xFF00FF00) OR (rol (l ! i) 8 AND 0x00FF00FF)"

definition blk :: "nat \<Rightarrow> u32 list \<Rightarrow> u32" where
  "blk i l = rol (l ! ((i + 13) mod 16) XOR l ! ((i + 8) mod 16) XOR l ! ((i + 2) mod 16) XOR l ! (i mod 16)) 1"

text \<open>
  Round \<open>i\<close> on the registers \<open>[a, b, c, d, e]\<close>: the macros are called with the registers rotated one place
  further each time, so \<open>v\<close> is register \<open>-i mod 5\<close>. Rounds 0 to 15 are \<open>r0\<close>, to 19 \<open>r1\<close>, to 39 \<open>r2\<close>,
  to 59 \<open>r3\<close> and to 79 \<open>r4\<close>.
\<close>

definition sha_round :: "nat \<Rightarrow> u32 list \<times> u32 list \<Rightarrow> u32 list \<times> u32 list" where
  "sha_round i s =
     (let r = fst s; l = snd s;
          iv = (5 - i mod 5) mod 5; iw = (6 - i mod 5) mod 5; ix = (7 - i mod 5) mod 5;
          iy = (8 - i mod 5) mod 5; iz = (9 - i mod 5) mod 5;
          v = r ! iv; w = r ! iw; x = r ! ix; y = r ! iy; z = r ! iz;
          m = (if i < 16 then blk0 i l else blk i l);
          l' = l[i mod 16 := m];
          z' = (if i < 20 then z + (((w AND (x XOR y)) XOR y) + m + 0x5A827999 + rol v 5)
                else if i < 40 then z + ((w XOR x XOR y) + m + 0x6ED9EBA1 + rol v 5)
                else if i < 60 then z + ((((w OR x) AND y) OR (w AND x)) + m + 0x8F1BBCDC + rol v 5)
                else z + ((w XOR x XOR y) + m + 0xCA62C1D6 + rol v 5))
      in (r[iz := z', iw := rol w 30], l'))"

definition kern_sha1_transform :: "u32 list \<Rightarrow> bytes \<Rightarrow> u32 list" where
  "kern_sha1_transform st buffer =
     map2 (+) st (fst (fold sha_round [0..<80] (st, map (le_word buffer) [0..<16])))"

definition kern_sha1_init :: "KERN_SHA1_CTX \<Rightarrow> KERN_SHA1_CTX" where
  "kern_sha1_init c = c\<lparr>sha_state := [0x67452301, 0xEFCDAB89, 0x98BADCFE, 0x10325476, 0xC3D2E1F0],
     sha_count := (0, 0)\<rparr>"

text \<open>
  The loop over whole blocks of \<open>data\<close>, which holds the \<open>len\<close> bytes the caller hands over, from offset \<open>i\<close>; the
  state and the last offset. The test \<open>i + 63 < len\<close> is made in 32 bits and may wrap; reading a block
  that leaves the \<open>len\<close> bytes is \<open>None\<close>.
\<close>

function sha_blocks :: "bytes \<Rightarrow> u32 \<Rightarrow> u32 \<Rightarrow> u32 list \<Rightarrow> (u32 list \<times> u32) option" where
  "sha_blocks data n i st =
     (if i + 63 < n
      then (if unat i + 64 \<le> unat n
            then sha_blocks data n (i + 64) (kern_sha1_transform st (block data (unat i) 64)) else None)
      else Some (st, i))"
  by pat_completeness auto
termination
proof (relation "measure (\<lambda>(data, n, i, st). unat n - unat i)")
  fix data :: bytes and n i :: u32 and st :: "u32 list"
  assume "unat i + 64 \<le> unat n"
  then have "unat (i + 64) = unat i + 64" using unsigned_less [of n, where 'a = nat] by (simp add: unat_word_ariths)
  then show "((data, n, i + 64, kern_sha1_transform st (block data (unat i) 64)), data, n, i, st)
      \<in> measure (\<lambda>(data, n, i, st). unat n - unat i)"
    using \<open>unat i + 64 \<le> unat n\<close> by simp
qed simp

declare sha_blocks.simps [simp del]

text \<open>
  \<open>kern_sha1_update\<close>: \<open>data\<close> holds the bytes handed over and the argument \<open>len\<close> is their number as a \<open>uint32_t\<close>.
  \<open>i\<close>, \<open>j\<close> and \<open>j + len\<close> are 32-bit values too. The copies stay inside the 64-byte buffer and the \<open>len\<close>
  bytes, or the result is \<open>None\<close>.
\<close>

definition kern_sha1_update :: "bytes \<Rightarrow> KERN_SHA1_CTX \<Rightarrow> KERN_SHA1_CTX option" where
  "kern_sha1_update data c =
     (let n = of_nat (length data) :: u32;
          (c0, c1) = sha_count c;
          c0' = c0 + push_bit 3 n;
          c1' = (if c0' < c0 then c1 + 1 else c1) + drop_bit 29 n;
          j = drop_bit 3 c0 AND 63;
          c = c\<lparr>sha_count := (c0', c1')\<rparr>
      in if j + n > 63 then
           do { buf \<leftarrow> memcpy_at (sha_buffer c) (unat j) (block data 0 (unat (64 - j)));
                (st, i) \<leftarrow> sha_blocks data n (64 - j) (kern_sha1_transform (sha_state c) buf);
                b \<leftarrow> memcpy_at buf 0 (block data (unat i) (unat (n - i)));
                Some (c\<lparr>sha_state := st, sha_buffer := b\<rparr>) }
         else do { b \<leftarrow> memcpy_at (sha_buffer c) (unat j) (block data 0 (unat n));
                   Some (c\<lparr>sha_buffer := b\<rparr>) })"

text \<open>The padding loop of \<open>kern_sha1_final\<close>, with fuel; no context needs more than 64 rounds.\<close>

fun sha_pad :: "nat \<Rightarrow> KERN_SHA1_CTX \<Rightarrow> KERN_SHA1_CTX option" where
  "sha_pad fuel c =
     (if fst (sha_count c) AND 504 = 448 then Some c
      else (case fuel of 0 \<Rightarrow> None | Suc f \<Rightarrow> do { c' \<leftarrow> kern_sha1_update [0] c; sha_pad f c' }))"

declare sha_pad.simps [simp del]

definition be_bytes :: "u32 \<Rightarrow> bytes" where
  "be_bytes w = [ucast (drop_bit 24 w), ucast (drop_bit 16 w), ucast (drop_bit 8 w), ucast w]"

definition kern_sha1_final :: "KERN_SHA1_CTX \<Rightarrow> bytes option" where
  "kern_sha1_final c =
     (let finalcount = be_bytes (snd (sha_count c)) @ be_bytes (fst (sha_count c))
      in do { c1 \<leftarrow> kern_sha1_update [0x80] c;
              c2 \<leftarrow> sha_pad 64 c1;
              c3 \<leftarrow> kern_sha1_update finalcount c2;
              Some (concat (map be_bytes (take 5 (sha_state c3)))) })"

text \<open>
  The contexts of \<open>kern_hmac_sha1\<close> live on the stack and start with arbitrary buffer contents, the
  parameter \<open>c\<close>.
\<close>

definition sha1_of :: "KERN_SHA1_CTX \<Rightarrow> bytes list \<Rightarrow> bytes option" where
  "sha1_of c parts =
     do { c' \<leftarrow> foldl (\<lambda>c d. c \<bind> kern_sha1_update d) (Some (kern_sha1_init c)) parts; kern_sha1_final c' }"

text \<open>The lengths of key and message are \<open>size_t\<close> and are cast to \<open>uint32_t\<close> for the updates.\<close>

definition cast_len :: "bytes \<Rightarrow> bytes" where
  "cast_len d = take (length d mod 2 ^ 32) d"

lemma cast_len_small: "length d < 2 ^ 32 \<Longrightarrow> cast_len d = d"
  by (simp only: cast_len_def mod_less take_all order.refl)

definition kern_hmac_sha1 :: "KERN_SHA1_CTX \<Rightarrow> bytes \<Rightarrow> bytes \<Rightarrow> bytes option" where
  "kern_hmac_sha1 c key data =
     do { k \<leftarrow> (if length key > 64 then sha1_of c [cast_len key] else Some key);
          k_ipad \<leftarrow> memcpy_at (replicate 64 0) 0 k;
          k_opad \<leftarrow> memcpy_at (replicate 64 0) 0 k;
          inner \<leftarrow> sha1_of c [map (\<lambda>b. b XOR 0x36) k_ipad, cast_len data];
          sha1_of c [map (\<lambda>b. b XOR 0x5c) k_opad, inner] }"

section \<open>The standard\<close>

definition be_word :: "bytes \<Rightarrow> nat \<Rightarrow> u32" where
  "be_word p i = push_bit 24 (ucast (p ! (4 * i))) OR push_bit 16 (ucast (p ! (4 * i + 1)))
     OR push_bit 8 (ucast (p ! (4 * i + 2))) OR ucast (p ! (4 * i + 3))"

fun sched :: "bytes \<Rightarrow> nat \<Rightarrow> u32" where
  "sched p t = (if t < 16 then be_word p t
     else rol (sched p (t - 3) XOR sched p (t - 8) XOR sched p (t - 14) XOR sched p (t - 16)) 1)"

declare sched.simps [simp del]

definition ch :: "u32 \<Rightarrow> u32 \<Rightarrow> u32 \<Rightarrow> u32" where
  "ch x y z = (x AND y) XOR (NOT x AND z)"

definition maj :: "u32 \<Rightarrow> u32 \<Rightarrow> u32 \<Rightarrow> u32" where
  "maj x y z = (x AND y) XOR (x AND z) XOR (y AND z)"

definition sha_f :: "nat \<Rightarrow> u32 \<Rightarrow> u32 \<Rightarrow> u32 \<Rightarrow> u32" where
  "sha_f t x y z = (if t < 20 then ch x y z else if t < 40 then x XOR y XOR z
     else if t < 60 then maj x y z else x XOR y XOR z)"

definition sha_k :: "nat \<Rightarrow> u32" where
  "sha_k t = (if t < 20 then 0x5a827999 else if t < 40 then 0x6ed9eba1 else if t < 60 then 0x8f1bbcdc else 0xca62c1d6)"

type_synonym regs5 = "u32 \<times> u32 \<times> u32 \<times> u32 \<times> u32"

fun std_round :: "bytes \<Rightarrow> nat \<Rightarrow> regs5 \<Rightarrow> regs5" where
  "std_round p t (a, b, c, d, e) = (rol a 5 + sha_f t b c d + e + sha_k t + sched p t, a, rol b 30, c, d)"

fun std_regs :: "bytes \<Rightarrow> regs5 \<Rightarrow> nat \<Rightarrow> regs5" where
  "std_regs p h 0 = h"
| "std_regs p h (Suc t) = std_round p t (std_regs p h t)"

fun std_compress :: "bytes \<Rightarrow> regs5 \<Rightarrow> regs5" where
  "std_compress p (a, b, c, d, e) =
     (case std_regs p (a, b, c, d, e) 80 of (a', b', c', d', e') \<Rightarrow> (a + a', b + b', c + c', d + d', e + e'))"

declare std_compress.simps [simp del]

function std_hash :: "regs5 \<Rightarrow> bytes \<Rightarrow> regs5" where
  "std_hash h m = (if length m < 64 then h else std_hash (std_compress (take 64 m) h) (drop 64 m))"
  by pat_completeness auto
termination by (relation "measure (\<lambda>(h, m). length m)") auto

declare std_hash.simps [simp del]

text \<open>The padding: a one bit, zeros up to 56 modulo 64 bytes, and the length in bits in eight bytes.\<close>

definition std_pad :: "bytes \<Rightarrow> bytes" where
  "std_pad m =
     (let bits = of_nat (8 * length m) :: u64
      in m @ [0x80] @ replicate ((119 - length m mod 64) mod 64) 0
         @ be_bytes (ucast (drop_bit 32 bits)) @ be_bytes (ucast bits))"

definition regs_bytes :: "regs5 \<Rightarrow> bytes" where
  "regs_bytes h = (case h of (a, b, c, d, e) \<Rightarrow> concat (map be_bytes [a, b, c, d, e]))"

definition std_sha1 :: "bytes \<Rightarrow> bytes" where
  "std_sha1 m = regs_bytes (std_hash (0x67452301, 0xefcdab89, 0x98badcfe, 0x10325476, 0xc3d2e1f0) (std_pad m))"

definition std_hmac :: "bytes \<Rightarrow> bytes \<Rightarrow> bytes" where
  "std_hmac key text =
     (let k0 = (if length key > 64 then std_sha1 key else key); k0 = k0 @ replicate (64 - length k0) 0
      in std_sha1 (map (\<lambda>b. b XOR 0x5c) k0 @ std_sha1 (map (\<lambda>b. b XOR 0x36) k0 @ text)))"

section \<open>One block\<close>

lemma ch_code: "(w AND (x XOR y)) XOR y = ch w x y"
  by (rule bit_word_eqI) (auto simp: ch_def bit_simps)

lemma maj_code: "((w OR x) AND y) OR (w AND x) = maj w x y"
  by (rule bit_word_eqI) (auto simp: maj_def bit_simps)

lemma mask_FF00FF00: "(0xFF00FF00 :: u32) = push_bit 24 (mask 8) OR push_bit 8 (mask 8)"
  by (simp add: mask_eq_exp_minus_1)

lemma mask_00FF00FF: "(0x00FF00FF :: u32) = push_bit 16 (mask 8) OR mask 8"
  by (simp add: mask_eq_exp_minus_1)

lemma swap_bytes:
  fixes b0 b1 b2 b3 :: u8
  defines "v \<equiv> ucast b0 OR push_bit 8 (ucast b1) OR push_bit 16 (ucast b2) OR push_bit 24 (ucast b3) :: u32"
  shows "(rol v 24 AND 0xFF00FF00) OR (rol v 8 AND 0x00FF00FF)
    = push_bit 24 (ucast b0) OR push_bit 16 (ucast b1) OR push_bit 8 (ucast b2) OR ucast b3"
  unfolding mask_FF00FF00 mask_00FF00FF
proof (rule bit_word_eqI)
  fix n assume "n < LENGTH(32)"
  then consider "n < 8" | "8 \<le> n" "n < 16" | "16 \<le> n" "n < 24" | "24 \<le> n" "n < 32" by fastforce
  then show "bit ((rol v 24 AND (push_bit 24 (mask 8) OR push_bit 8 (mask 8))) OR (rol v 8 AND (push_bit 16 (mask 8) OR mask 8))) n
    = bit (push_bit 24 (ucast b0) OR push_bit 16 (ucast b1) OR push_bit 8 (ucast b2) OR ucast b3 :: u32) n"
    by cases (auto simp: v_def rol_def bit_simps dest: bit_u8_iff)
qed

lemma blk0_le_word: "l ! i = le_word p i \<Longrightarrow> blk0 i l = be_word p i"
  unfolding blk0_def le_word_def be_word_def using swap_bytes [of "p ! (4 * i)"] by simp

definition list5 :: "regs5 \<Rightarrow> u32 list" where
  "list5 h = (case h of (a, b, c, d, e) \<Rightarrow> [a, b, c, d, e])"

definition ring_ok :: "bytes \<Rightarrow> nat \<Rightarrow> u32 list \<Rightarrow> bool" where
  "ring_ok p i l \<longleftrightarrow> length l = 16 \<and> (\<forall>t. t < i \<and> i \<le> t + 16 \<longrightarrow> l ! (t mod 16) = sched p t)
     \<and> (\<forall>t < 16. i \<le> t \<longrightarrow> l ! t = le_word p t)"

definition round_word :: "nat \<Rightarrow> u32 list \<Rightarrow> u32" where
  "round_word i l = (if i < 16 then blk0 i l else blk i l)"

lemma round_word_sched:
  assumes "ring_ok p i l"
  shows "round_word i l = sched p i"
proof (cases "i < 16")
  case True
  then show ?thesis using assms by (subst sched.simps) (simp add: round_word_def ring_ok_def blk0_le_word)
next
  case False
  have at: "l ! ((i + 16 - d) mod 16) = sched p (i - d)" if "0 < d" "d \<le> 16" for d
  proof -
    have "(i - d) mod 16 = (i + 16 - d) mod 16" using False that by (metis Nat.add_diff_assoc2 le_trans linorder_not_le mod_add_self2 nat_le_linear)
    then show ?thesis using assms that False by (simp add: ring_ok_def) (metis add.commute diff_add diff_less le_trans linorder_not_le nat_le_linear less_le_trans add_le_cancel_left le_refl trans_le_add2 le_diff_conv)
  qed
  have "blk i l = rol (sched p (i - 3) XOR sched p (i - 8) XOR sched p (i - 14) XOR sched p (i - 16)) 1"
    using at [of 3] at [of 8] at [of 14] at [of 16] False by (simp add: blk_def add.commute)
  then show ?thesis using False by (subst sched.simps) (simp add: round_word_def)
qed

lemma ring_ok_step:
  assumes "ring_ok p i l"
  shows "ring_ok p (Suc i) (l[i mod 16 := sched p i])"
proof -
  have "l[i mod 16 := sched p i] ! (t mod 16) = sched p t" if "t < Suc i" "Suc i \<le> t + 16" for t
  proof (cases "t = i")
    case False
    then have "\<not> 16 dvd (i - t)" using that nat_dvd_not_less [of "i - t" 16] by simp
    then have "t mod 16 \<noteq> i mod 16" using that mod_eq_dvd_iff_nat [of t i 16] by (metis less_Suc_eq_le)
    then show ?thesis using assms that False by (simp add: ring_ok_def)
  qed (use assms in \<open>simp add: ring_ok_def\<close>)
  moreover have "l[i mod 16 := sched p i] ! t = le_word p t" if "t < 16" "Suc i \<le> t" for t
    using assms that by (simp add: ring_ok_def)
  ultimately show ?thesis using assms by (auto simp: ring_ok_def)
qed

text \<open>The registers of the code, rotated, are those of the standard.\<close>

definition regs_ok :: "nat \<Rightarrow> u32 list \<Rightarrow> regs5 \<Rightarrow> bool" where
  "regs_ok i r h \<longleftrightarrow> length r = 5
     \<and> h = (r ! ((5 - i mod 5) mod 5), r ! ((6 - i mod 5) mod 5), r ! ((7 - i mod 5) mod 5),
            r ! ((8 - i mod 5) mod 5), r ! ((9 - i mod 5) mod 5))"

lemma list5_cases: "length r = 5 \<Longrightarrow> \<exists>a b c d e. r = [a, b, c, d, e]"
  by (auto simp: length_Suc_conv eval_nat_numeral)

lemma round_value:
  "(if i < 20 then z + (((w AND (x XOR y)) XOR y) + m + 0x5A827999 + rol v 5)
    else if i < 40 then z + ((w XOR x XOR y) + m + 0x6ED9EBA1 + rol v 5)
    else if i < 60 then z + ((((w OR x) AND y) OR (w AND x)) + m + 0x8F1BBCDC + rol v 5)
    else z + ((w XOR x XOR y) + m + 0xCA62C1D6 + rol v 5))
   = rol v 5 + sha_f i w x y + z + sha_k i + m"
  unfolding ch_code maj_code sha_f_def sha_k_def by (simp add: add.assoc add.commute add.left_commute)

lemma sha_round_eq:
  assumes "ring_ok p i l"
  shows "sha_round i (r, l) =
    (r[(9 - i mod 5) mod 5 := rol (r ! ((5 - i mod 5) mod 5)) 5
         + sha_f i (r ! ((6 - i mod 5) mod 5)) (r ! ((7 - i mod 5) mod 5)) (r ! ((8 - i mod 5) mod 5))
         + r ! ((9 - i mod 5) mod 5) + sha_k i + sched p i,
       (6 - i mod 5) mod 5 := rol (r ! ((6 - i mod 5) mod 5)) 30],
     l[i mod 16 := sched p i])"
proof -
  have m: "(if i < 16 then blk0 i l else blk i l) = sched p i"
    using round_word_sched [OF assms] by (simp add: round_word_def)
  show ?thesis unfolding sha_round_def Let_def fst_conv snd_conv m round_value ..
qed

lemma sha_round_step:
  assumes "regs_ok i r h" and "ring_ok p i l"
  shows "regs_ok (Suc i) (fst (sha_round i (r, l))) (std_round p i h)
    \<and> ring_ok p (Suc i) (snd (sha_round i (r, l)))"
proof -
  obtain a b c d e where r: "r = [a, b, c, d, e]"
    using assms(1) list5_cases [of r] unfolding regs_ok_def by blast
  consider "i mod 5 = 0" "Suc i mod 5 = 1" | "i mod 5 = 1" "Suc i mod 5 = 2" | "i mod 5 = 2" "Suc i mod 5 = 3"
    | "i mod 5 = 3" "Suc i mod 5 = 4" | "i mod 5 = 4" "Suc i mod 5 = 0" by (auto simp: mod_Suc) linarith
  then have "regs_ok (Suc i) (fst (sha_round i (r, l))) (std_round p i h)"
    by cases (use assms(1) r in \<open>simp add: regs_ok_def sha_round_eq [OF assms(2)]\<close>)+
  then show ?thesis using sha_round_eq [OF assms(2), of r] ring_ok_step [OF assms(2)] by simp
qed

lemma sha_rounds:
  assumes "length p = 64"
  shows "let s = fold sha_round [0..<n] (list5 h, map (le_word p) [0..<16])
    in regs_ok n (fst s) (std_regs p h n) \<and> ring_ok p n (snd s)"
proof (induction n)
  case 0
  show ?case by (cases h) (simp add: regs_ok_def ring_ok_def list5_def)
next
  case (Suc n)
  then show ?case using sha_round_step by (simp add: Let_def split_beta) (metis prod.collapse)
qed

lemma transform_compress:
  assumes "length p = 64"
  shows "kern_sha1_transform (list5 h) p = list5 (std_compress p h)"
proof -
  obtain a b c d e where h: "h = (a, b, c, d, e)" by (cases h)
  let ?s = "fold sha_round [0..<80] (list5 h, map (le_word p) [0..<16])"
  have r: "regs_ok 80 (fst ?s) (std_regs p h 80)" using sha_rounds [OF assms, of 80 h] by (simp only: Let_def)
  then obtain a' b' c' d' e' where f: "fst ?s = [a', b', c', d', e']" using list5_cases unfolding regs_ok_def by blast
  with r have "std_regs p h 80 = (a', b', c', d', e')" unfolding regs_ok_def by simp
  then show ?thesis unfolding kern_sha1_transform_def f using h by (simp add: std_compress.simps list5_def)
qed

section \<open>The streaming context\<close>

definition sha_h0 :: regs5 where
  "sha_h0 = (0x67452301, 0xefcdab89, 0x98badcfe, 0x10325476, 0xc3d2e1f0)"

text \<open>The context after the message \<open>m\<close>: whole blocks are hashed, the rest is in the buffer.\<close>

definition absorbed :: "bytes \<Rightarrow> KERN_SHA1_CTX \<Rightarrow> bool" where
  "absorbed m c \<longleftrightarrow> length (sha_buffer c) = 64
     \<and> sha_state c = list5 (std_hash sha_h0 (take (64 * (length m div 64)) m))
     \<and> take (length m mod 64) (sha_buffer c) = drop (64 * (length m div 64)) m
     \<and> sha_count c = (of_nat (8 * length m), of_nat (8 * length m div 2 ^ 32))"

lemma std_hash_short: "length m < 64 \<Longrightarrow> std_hash h m = h"
  by (subst std_hash.simps) simp

lemma std_hash_append: "length m = 64 * k \<Longrightarrow> std_hash h (m @ x) = std_hash (std_hash h m) x"
proof (induction k arbitrary: h m)
  case (Suc k)
  have t: "take 64 (m @ x) = take 64 m" "drop 64 (m @ x) = drop 64 m @ x" using Suc.prems by simp_all
  have "std_hash h (m @ x) = std_hash (std_compress (take 64 m) h) (drop 64 m @ x)"
    using Suc.prems t by (subst std_hash.simps) simp
  also have "\<dots> = std_hash (std_hash (std_compress (take 64 m) h) (drop 64 m)) x"
    by (rule Suc.IH) (use Suc.prems in simp)
  also have "std_hash (std_compress (take 64 m) h) (drop 64 m) = std_hash h m"
    using Suc.prems by (subst (2) std_hash.simps) simp
  finally show ?case .
qed (simp add: std_hash_short)

lemma std_hash_block: "length b = 64 \<Longrightarrow> std_hash h b = std_compress b h"
  by (subst std_hash.simps) (simp add: std_hash_short)

lemma std_hash_whole: "std_hash h m = std_hash h (take (64 * (length m div 64)) m)"
proof -
  let ?a = "take (64 * (length m div 64)) m" and ?t = "drop (64 * (length m div 64)) m"
  have "length ?a = 64 * (length m div 64)" by (simp add: min_absorb2)
  then have "std_hash h (?a @ ?t) = std_hash (std_hash h ?a) ?t" by (rule std_hash_append)
  moreover have "length ?t < 64" by (simp add: minus_mult_div_eq_mod)
  ultimately show ?thesis by (simp add: std_hash_short)
qed

text \<open>
  The offsets of the loop are multiples of 64 less the \<open>j\<close> bytes that were in the buffer. While \<open>j\<close> and the
  length stay below 2^32 together, the test of the loop does not wrap.
\<close>

lemma sha_blocks_hash:
  "i \<le> length data \<Longrightarrow> i + j = 64 * q \<Longrightarrow> j + length data < 2 ^ 32 \<Longrightarrow>
     sha_blocks data (of_nat (length data)) (of_nat i) (list5 h)
     = Some (list5 (std_hash h (drop i data)), of_nat (i + 64 * ((length data - i) div 64)))"
proof (induction "length data - i" arbitrary: i h q rule: less_induct)
  case less
  let ?n = "of_nat (length data) :: u32" and ?i = "of_nat i :: u32"
  have "64 * q < 64 * 2 ^ 26" using less.prems by simp
  then have fits: "i + 63 < 2 ^ 32" using less.prems(2) by simp
  have u: "unat ?n = length data" "unat ?i = i" "unat (?i + 63) = i + 63"
    using less.prems(3) fits by (simp_all add: unat_of_nat_small unat_word_ariths)
  have test: "?i + 63 < ?n \<longleftrightarrow> i + 63 < length data" by (simp only: word_less_nat_alt u)
  show ?case
  proof (cases "i + 63 < length data")
    case False
    then have "std_hash h (drop i data) = h" by (intro std_hash_short) simp
    moreover have "(length data - i) div 64 = 0" using False by simp
    ultimately show ?thesis using False test by (subst sha_blocks.simps) simp
  next
    case True
    let ?b = "block data i 64"
    have b: "length ?b = 64" "?b = take 64 (drop i data)" using True by (simp_all add: block_def)
    have ge: "\<not> length data - i < 64" using True by linarith
    have "std_hash h (drop i data) = std_hash (std_compress ?b h) (drop (i + 64) data)"
      using b ge by (subst std_hash.simps) (simp add: add.commute)
    moreover have "(length data - i) div 64 = Suc ((length data - (i + 64)) div 64)"
      using ge by (subst le_div_geq) (simp_all add: diff_diff_add)
    moreover have "?i + 64 = of_nat (i + 64)" by simp
    then have "sha_blocks data ?n ?i (list5 h) = sha_blocks data ?n (of_nat (i + 64)) (list5 (std_compress ?b h))"
      using True b(1) test by (subst sha_blocks.simps) (simp add: transform_compress u)
    moreover have "sha_blocks data ?n (of_nat (i + 64)) (list5 (std_compress ?b h))
        = Some (list5 (std_hash (std_compress ?b h) (drop (i + 64) data)), of_nat ((i + 64) + 64 * ((length data - (i + 64)) div 64)))"
      by (rule less.hyps [of _ "Suc q"]) (use True less.prems in auto)
    ultimately show ?thesis by (simp add: add.commute add.left_commute)
  qed
qed

lemma count_index: "unat (drop_bit 3 (of_nat (8 * n) :: u32) AND 63) = n mod 64"
proof -
  have "unat (drop_bit 3 (of_nat (8 * n) :: u32) AND 63) = unat (drop_bit 3 (of_nat (8 * n) :: u32)) mod 64"
  proof -
    have "(63 :: u32) = mask 6" by (simp add: mask_eq_exp_minus_1)
    then show ?thesis by (simp only: take_bit_eq_mask [symmetric] unsigned_take_bit_eq) (simp add: take_bit_eq_mod)
  qed
  also have "unat (drop_bit 3 (of_nat (8 * n) :: u32)) = (8 * n mod 2 ^ 32) div 8"
    unfolding unsigned_drop_bit_eq unsigned_of_nat by (simp add: drop_bit_eq_div take_bit_eq_mod)
  also have "(8 * n mod 2 ^ 32) div 8 mod 64 = n mod 64"
  proof -
    have "8 * n mod 2 ^ 32 = 8 * (n mod 2 ^ 29)" using mult_mod_right [of 8 n "2 ^ 29"] by simp
    then show ?thesis by (simp add: mod_mod_cancel)
  qed
  finally show ?thesis .
qed

lemma count_carry:
  fixes a b :: nat
  assumes "b < 2 ^ 35"
  shows "((if (of_nat a + of_nat b :: u32) < of_nat a then of_nat (a div 2 ^ 32) + 1 else of_nat (a div 2 ^ 32)) + of_nat (b div 2 ^ 32) :: u32)
    = of_nat ((a + b) div 2 ^ 32)"
proof -
  let ?x = "a mod 2 ^ 32" and ?y = "b mod 2 ^ 32"
  have u: "unat (of_nat a :: u32) = ?x" "unat (of_nat b :: u32) = ?y"
    "unat (of_nat a + of_nat b :: u32) = (?x + ?y) mod 2 ^ 32"
    by (simp_all add: unsigned_of_nat take_bit_eq_mod unat_word_ariths mod_simps)
  have lt: "?x < 2 ^ 32" "?y < 2 ^ 32" by simp_all
  define z where "z = ?x + ?y"
  have z: "z < 2 * 2 ^ 32" using lt unfolding z_def by linarith
  have zm: "z mod 2 ^ 32 = (if z < 2 ^ 32 then z else z - 2 ^ 32)"
    "z div 2 ^ 32 = (if 2 ^ 32 \<le> z then 1 else 0)" using z by (auto simp: le_mod_geq div_nat_eqI)
  have carry: "(of_nat a + of_nat b :: u32) < of_nat a \<longleftrightarrow> 2 ^ 32 \<le> z"
    unfolding word_less_nat_alt u z_def [symmetric] zm using lt z_def by auto
  have "(a + b) div 2 ^ 32 = a div 2 ^ 32 + b div 2 ^ 32 + z div 2 ^ 32"
    unfolding z_def by (rule div_add1_eq)
  moreover note zm(2)
  ultimately show ?thesis using carry by simp
qed

lemma update_count:
  assumes "n < 2 ^ 32"
  shows "push_bit 3 (of_nat n) = (of_nat (8 * n) :: u32)" and "drop_bit 29 (of_nat n) = (of_nat (8 * n div 2 ^ 32) :: u32)"
proof -
  show "push_bit 3 (of_nat n) = (of_nat (8 * n) :: u32)" by (simp add: push_bit_eq_mult)
  have "unat (drop_bit 29 (of_nat n :: u32)) = n div 2 ^ 29"
    unfolding unsigned_drop_bit_eq unsigned_of_nat using assms by (simp add: drop_bit_eq_div take_bit_eq_mod)
  then have "drop_bit 29 (of_nat n) = (of_nat (n div 2 ^ 29) :: u32)" by (metis of_nat_unat_word)
  moreover have "8 * n div 2 ^ 32 = n div 2 ^ 29" using div_mult_mult1 [of 8 n "2 ^ 29"] by simp
  ultimately show "drop_bit 29 (of_nat n) = (of_nat (8 * n div 2 ^ 32) :: u32)" by simp
qed

lemma absorbedE:
  assumes "absorbed m c"
  obtains a t k where "m = a @ t" "length a = 64 * k" "length t < 64" "length t = length m mod 64"
    "length (sha_buffer c) = 64" "sha_state c = list5 (std_hash sha_h0 a)" "take (length t) (sha_buffer c) = t"
    "sha_count c = (of_nat (8 * length m), of_nat (8 * length m div 2 ^ 32))"
proof -
  let ?k = "length m div 64"
  let ?t = "drop (64 * ?k) m"
  have t: "length ?t = length m mod 64" by (simp only: length_drop minus_mult_div_eq_mod)
  show ?thesis
  proof (rule that [of "take (64 * ?k) m" ?t ?k])
    show "length (take (64 * ?k) m) = 64 * ?k"
      unfolding length_take by (rule min.absorb2) (rule times_div_less_eq_dividend)
    show "length ?t < 64" unfolding t by simp
  qed (use assms t in \<open>auto simp: absorbed_def\<close>)
qed

lemma absorbedI:
  assumes "m = a @ t" "length a = 64 * k" "length t < 64" "length (sha_buffer c) = 64"
    "sha_state c = list5 (std_hash sha_h0 a)" "take (length t) (sha_buffer c) = t"
    "sha_count c = (of_nat (8 * length m), of_nat (8 * length m div 2 ^ 32))"
  shows "absorbed m c"
proof -
  have "length m div 64 = k" "length m mod 64 = length t" using assms(1-3) by auto
  then show ?thesis using assms by (simp add: absorbed_def)
qed

lemma u32_offset:
  assumes "i \<le> n" and "n < 2 ^ 32"
  shows "unat (of_nat i :: u32) = i" "unat (of_nat n - of_nat i :: u32) = n - i"
proof -
  have u: "unat (of_nat i :: u32) = i" "unat (of_nat n :: u32) = n"
    using assms by (auto intro!: unat_of_nat_small)
  show "unat (of_nat i :: u32) = i" by (rule u(1))
  have "(of_nat i :: u32) \<le> of_nat n" using assms(1) by (simp only: word_le_nat_alt u)
  then show "unat (of_nat n - of_nat i :: u32) = n - i" by (simp only: unat_sub u)
qed

lemma update_absorbs:
  assumes c: "absorbed m c" and n: "length m mod 64 + length data < 2 ^ 32"
  shows "\<exists>c'. kern_sha1_update data c = Some c' \<and> absorbed (m @ data) c'"
proof -
  let ?n = "length data"
  obtain a t q where m: "m = a @ t" and la: "length a = 64 * q" and t: "length t < 64" and tm: "length t = length m mod 64"
    and lb: "length (sha_buffer c) = 64" and st: "sha_state c = list5 (std_hash sha_h0 a)"
    and buf: "take (length t) (sha_buffer c) = t"
    and cnt: "sha_count c = (of_nat (8 * length m), of_nat (8 * length m div 2 ^ 32))"
    using c by (rule absorbedE)
  define j where "j = drop_bit 3 (of_nat (8 * length m) :: u32) AND 63"
  have j: "unat j = length t" unfolding tm j_def by (rule count_index)
  have n32: "?n < 2 ^ 32" and jn: "length t + ?n < 2 ^ 32" using n unfolding tm by linarith+
  have un: "unat (of_nat ?n :: u32) = ?n" using n32 by (simp add: unat_of_nat_small)
  have test: "63 < j + of_nat ?n \<longleftrightarrow> 63 < length t + ?n"
    using jn by (simp add: word_less_nat_alt unat_word_ariths un j)
  define C where "C = ((of_nat (8 * length (m @ data)) :: u32), (of_nat (8 * length (m @ data) div 2 ^ 32) :: u32))"
  have cnt': "(of_nat (8 * length m) + push_bit 3 (of_nat ?n) :: u32,
      (if of_nat (8 * length m) + push_bit 3 (of_nat ?n) < (of_nat (8 * length m) :: u32)
       then of_nat (8 * length m div 2 ^ 32) + 1 else of_nat (8 * length m div 2 ^ 32)) + drop_bit 29 (of_nat ?n)) = C"
    using count_carry [of "8 * ?n" "8 * length m"] n32 unfolding C_def update_count [OF n32] by (simp add: distrib_left)
  note unf = kern_sha1_update_def Let_def cnt prod.case j_def [symmetric] test j un
  show ?thesis
  proof (cases "length t + ?n > 63")
    case False
    let ?c = "c\<lparr>sha_count := C, sha_buffer := blit (sha_buffer c) (length t) data\<rparr>"
    have fit: "length t + ?n \<le> length (sha_buffer c)" using False lb by simp
    have "kern_sha1_update data c = Some ?c"
      using False fit cnt' unfolding unf by (simp add: memcpy_at_def block_def)
    moreover have "absorbed (m @ data) ?c"
    proof (rule absorbedI [of _ a "t @ data" q])
      show "take (length (t @ data)) (sha_buffer ?c) = t @ data" using buf lb t by (simp add: blit_def)
    qed (use m la False lb st fit in \<open>simp_all add: buf_simps C_def\<close>)
    ultimately show ?thesis by blast
  next
    case True
    let ?k = "64 - length t"
    let ?b = "t @ take ?k data"
    have k: "?k \<le> ?n" using True by simp
    have lbk: "length ?b = 64" using k t by simp
    have "j \<le> 64" using t by (simp add: word_le_nat_alt j)
    then have uk: "unat (64 - j) = ?k" by (simp add: unat_sub j)
    then have wk: "64 - j = of_nat ?k" by (metis of_nat_unat_word)
    have mc: "memcpy_at (sha_buffer c) (length t) (block data 0 ?k) = Some ?b"
      using k lb buf t by (simp add: memcpy_at_def blit_def block_def)
    let ?i = "?k + 64 * ((?n - ?k) div 64)"
    let ?A = "a @ ?b @ take (64 * ((?n - ?k) div 64)) (drop ?k data)" and ?T = "drop ?i data"
    have T: "length ?T < 64" "length ?T = (?n - ?k) mod 64" using k by (simp_all add: minus_mult_div_eq_mod diff_diff_eq [symmetric])
    have h: "std_hash (std_compress ?b (std_hash sha_h0 a)) (drop ?k data) = std_hash sha_h0 ?A"
    proof -
      have "std_hash sha_h0 ?A = std_hash (std_hash (std_hash sha_h0 a) ?b) (take (64 * ((?n - ?k) div 64)) (drop ?k data))"
        using std_hash_append [OF la] std_hash_append [of ?b 1] lbk by simp
      then show ?thesis using std_hash_whole [of _ "drop ?k data"] lbk by (simp add: std_hash_block)
    qed
    have ik: "?k + length t = 64 * 1" using t by simp
    have bl: "sha_blocks data (of_nat ?n) (64 - j) (kern_sha1_transform (sha_state c) ?b)
        = Some (list5 (std_hash sha_h0 ?A), of_nat ?i)"
      unfolding st transform_compress [OF lbk] wk sha_blocks_hash [OF k ik jn] h ..
    have "?i \<le> ?n" using k times_div_less_eq_dividend [of 64 "?n - ?k"] by linarith
    then have ui: "unat (of_nat ?i :: u32) = ?i" "unat (of_nat ?n - of_nat ?i :: u32) = ?n - ?i"
      using u32_offset [OF _ n32] by blast+
    define I where "I = (of_nat ?i :: u32)"
    let ?c = "c\<lparr>sha_count := C, sha_state := list5 (std_hash sha_h0 ?A), sha_buffer := blit ?b 0 ?T\<rparr>"
    have rest: "block data ?i (?n - ?i) = ?T" by (simp add: block_def)
    have mT: "memcpy_at ?b 0 ?T = Some (blit ?b 0 ?T)" using T(1) lbk unfolding memcpy_at_def by simp
    have "kern_sha1_update data c = Some ?c"
      using True cnt' unfolding unf uk by (simp add: mc bl [folded I_def] ui [folded I_def] rest mT)
    moreover have "absorbed (m @ data) ?c"
    proof (rule absorbedI [of _ ?A ?T "q + 1 + (?n - ?k) div 64"])
      have "take ?k data @ take (64 * ((?n - ?k) div 64)) (drop ?k data) @ ?T = data"
        unfolding add.commute [of ?k] drop_drop [symmetric] append_take_drop_id ..
      then show "m @ data = ?A @ ?T" using m by simp
      show "length ?A = 64 * (q + 1 + (?n - ?k) div 64)"
        using la lbk by (simp add: min_absorb2)
      show "length (sha_buffer ?c) = 64" using T(1) lbk by (simp add: buf_simps)
    qed (use T in \<open>simp_all add: C_def blit_def\<close>)
    ultimately show ?thesis by blast
  qed
qed

text \<open>When the sum does wrap, the test sends the whole piece into the 64-byte buffer.\<close>

lemma update_overruns:
  assumes c: "absorbed m c" and n: "length data < 2 ^ 32" and w: "2 ^ 32 \<le> length m mod 64 + length data"
  shows "kern_sha1_update data c = None"
proof -
  define j where "j = drop_bit 3 (of_nat (8 * length m) :: u32) AND 63"
  have j: "unat j = length m mod 64" unfolding j_def by (rule count_index)
  have un: "unat (of_nat (length data) :: u32) = length data" using n by (simp add: unat_of_nat_small)
  have r: "length m mod 64 < 64" by simp
  have "unat (j + of_nat (length data)) = length m mod 64 + length data - 2 ^ 32"
    using n w r by (simp add: unat_word_ariths un j le_mod_geq)
  then have test: "\<not> 63 < j + of_nat (length data)" using n r by (simp add: word_less_nat_alt)
  have "\<not> length m mod 64 + length data \<le> 64" using w by simp
  moreover have "length (sha_buffer c) = 64" "sha_count c = (of_nat (8 * length m), of_nat (8 * length m div 2 ^ 32))"
    using c by (simp_all add: absorbed_def)
  ultimately show ?thesis
    using test unfolding kern_sha1_update_def Let_def
    by (simp add: j_def [symmetric] j un memcpy_at_def block_def del: of_nat_mult)
qed

lemma and_push_mask: "(c :: u32) AND push_bit 3 (mask 6) = push_bit 3 (drop_bit 3 c AND mask 6)"
  by (rule bit_word_eqI) (auto simp: bit_simps)

lemma pad_left: "r < 64 \<Longrightarrow> (120 - r) mod 64 = (if r \<le> 56 then 56 - r else (120 :: nat) - r)"
  "r < 64 \<Longrightarrow> (119 - r) mod 64 = (if r \<le> 55 then 55 - r else (119 :: nat) - r)"
  by (auto simp: le_mod_geq)

lemma pad_test: "(of_nat (8 * n) :: u32) AND 504 = 448 \<longleftrightarrow> n mod 64 = 56"
proof -
  let ?c = "of_nat (8 * n) :: u32"
  let ?w = "drop_bit 3 ?c AND 63"
  have w: "?w = of_nat (n mod 64)" using count_index [of n] by (metis of_nat_unat_word)
  have n: "(504 :: u32) = push_bit 3 (mask 6)" "(63 :: u32) = mask 6" by (simp_all add: mask_eq_exp_minus_1)
  have "?c AND 504 = push_bit 3 ?w" unfolding n by (rule and_push_mask)
  also have "\<dots> = of_nat (8 * (n mod 64))" unfolding w by (simp add: push_bit_eq_mult)
  finally have e: "?c AND 504 = of_nat (8 * (n mod 64))" .
  have u: "unat (of_nat (8 * (n mod 64)) :: u32) = 8 * (n mod 64)" by (rule unat_of_nat_small) simp
  have "?c AND 504 = 448 \<longleftrightarrow> unat (of_nat (8 * (n mod 64)) :: u32) = unat (448 :: u32)"
    unfolding e by (simp only: word_unat_eq_iff)
  then show ?thesis unfolding u by simp
qed

lemma sha_pad_absorbs:
  assumes "absorbed m c" and "(120 - length m mod 64) mod 64 = k" and "k \<le> fuel"
  shows "\<exists>c'. sha_pad fuel c = Some c' \<and> absorbed (m @ replicate k 0) c'"
  using assms
proof (induction k arbitrary: fuel m c)
  case 0
  have "length m mod 64 < 64" by simp
  with 0(2) have "length m mod 64 = 56" by (simp add: pad_left split: if_splits)
  then show ?case using 0(1) by (subst sha_pad.simps) (simp add: absorbed_def pad_test del: of_nat_mult)
next
  case (Suc k)
  have lt: "length m mod 64 < 64" by simp
  have ne: "length m mod 64 \<noteq> 56" using Suc.prems(2) by auto
  obtain f where f: "fuel = Suc f" "k \<le> f" using Suc.prems(3) by (cases fuel) auto
  obtain c1 where c1: "kern_sha1_update [0] c = Some c1" "absorbed (m @ [0]) c1"
    using update_absorbs [OF Suc.prems(1), of "[0]"] lt by auto
  have "(120 - length (m @ [0]) mod 64) mod 64 = k"
    using Suc.prems(2) lt ne by (auto simp: mod_Suc pad_left split: if_splits)
  then obtain c' where c': "sha_pad f c1 = Some c'" "absorbed ((m @ [0]) @ replicate k 0) c'"
    using Suc.IH [OF c1(2) _ f(2)] by blast
  have "sha_pad fuel c = sha_pad f c1"
    using Suc.prems(1) ne c1(1) by (subst sha_pad.simps) (simp add: absorbed_def pad_test f(1) del: of_nat_mult)
  then show ?case using c' by simp
qed

lemma init_absorbed: "length (sha_buffer c) = 64 \<Longrightarrow> absorbed [] (kern_sha1_init c)"
  by (simp add: absorbed_def kern_sha1_init_def std_hash_short sha_h0_def list5_def)

lemma final_count:
  assumes "8 * n < 2 ^ 64"
  shows "ucast (drop_bit 32 (of_nat (8 * n) :: u64)) = (of_nat (8 * n div 2 ^ 32) :: u32)"
    and "ucast (of_nat (8 * n) :: u64) = (of_nat (8 * n) :: u32)"
proof -
  have u: "unat (of_nat (8 * n) :: u64) = 8 * n" by (rule unat_of_nat_small) (use assms in simp)
  have "unat (drop_bit 32 (of_nat (8 * n) :: u64)) = 8 * n div 2 ^ 32"
    unfolding unsigned_drop_bit_eq u using assms by (simp add: drop_bit_eq_div take_bit_eq_mod)
  then show "ucast (drop_bit 32 (of_nat (8 * n) :: u64)) = (of_nat (8 * n div 2 ^ 32) :: u32)"
    by (metis of_nat_unat)
  show "ucast (of_nat (8 * n) :: u64) = (of_nat (8 * n) :: u32)"
    using u by (metis of_nat_unat)
qed

lemma length_be_bytes [simp]: "length (be_bytes w) = 4"
  by (simp add: be_bytes_def)

lemma mod64_room: "k < 2 ^ 32 - 64 \<Longrightarrow> n mod 64 + k < (2 ^ 32 :: nat)"
  using mod_less_divisor [of 64 n] by simp

lemma final_hash:
  assumes c: "absorbed m c" and small: "8 * length m < 2 ^ 64"
  shows "kern_sha1_final c = Some (std_sha1 m)"
proof -
  let ?L = "be_bytes (snd (sha_count c)) @ be_bytes (fst (sha_count c))"
  let ?k = "(119 - length m mod 64) mod 64"
  obtain c1 where c1: "kern_sha1_update [0x80] c = Some c1" "absorbed (m @ [0x80]) c1"
    using update_absorbs [OF c, of "[0x80]"] mod64_room [of 1] by auto
  have "(120 - length (m @ [0x80]) mod 64) mod 64 = ?k"
    by (auto simp: mod_Suc pad_left)
  then obtain c2 where c2: "sha_pad 64 c1 = Some c2" "absorbed ((m @ [0x80]) @ replicate ?k 0) c2"
    using sha_pad_absorbs [OF c1(2)] by (metis mod_less_divisor less_imp_le zero_less_numeral)
  obtain c3 where c3: "kern_sha1_update ?L c2 = Some c3" "absorbed (((m @ [0x80]) @ replicate ?k 0) @ ?L) c3"
    using update_absorbs [OF c2(2), of ?L] mod64_room [of 8] by auto
  have L: "((m @ [0x80]) @ replicate ?k 0) @ ?L = std_pad m"
    using c final_count [OF small] by (simp add: std_pad_def Let_def absorbed_def del: of_nat_mult)
  have "64 dvd length (std_pad m)"
  proof -
    define r where "r = length m mod 64"
    have "length (std_pad m) = length m + 1 + (119 - r) mod 64 + 8" by (simp add: std_pad_def Let_def r_def)
    moreover have "length m = 64 * (length m div 64) + r" by (simp add: r_def)
    moreover have "r < 64" by (simp add: r_def)
    ultimately have "length (std_pad m) = 64 * (length m div 64 + (if r \<le> 55 then 1 else 2))"
      by (simp add: pad_left) linarith
    then show ?thesis by simp
  qed
  then have "take (64 * (length (std_pad m) div 64)) (std_pad m) = std_pad m" by simp
  then have st: "sha_state c3 = list5 (std_hash sha_h0 (std_pad m))" using c3(2) unfolding L absorbed_def by simp
  have "kern_sha1_final c = Some (concat (map be_bytes (take 5 (sha_state c3))))"
    using c1(1) c2(1) c3(1) by (simp add: kern_sha1_final_def Let_def)
  then show ?thesis unfolding st
    by (cases "std_hash sha_h0 (std_pad m)") (simp add: std_sha1_def sha_h0_def list5_def regs_bytes_def)
qed

text \<open>Every piece fits behind the bytes of the message that are still in the buffer, in 32 bits.\<close>

fun parts_fit :: "nat \<Rightarrow> bytes list \<Rightarrow> bool" where
  "parts_fit n [] = True"
| "parts_fit n (d # ds) = (n mod 64 + length d < 2 ^ 32 \<and> parts_fit (n + length d) ds)"

lemma foldl_None: "foldl (\<lambda>c d. c \<bind> kern_sha1_update d) None parts = None"
  by (induction parts) simp_all

lemma updates_absorb:
  assumes "absorbed m c" and "\<forall>d \<in> set parts. length d < 2 ^ 32"
  shows "if parts_fit (length m) parts
    then \<exists>c'. foldl (\<lambda>c d. c \<bind> kern_sha1_update d) (Some c) parts = Some c' \<and> absorbed (m @ concat parts) c'
    else foldl (\<lambda>c d. c \<bind> kern_sha1_update d) (Some c) parts = None"
  using assms
proof (induction parts arbitrary: m c)
  case (Cons d parts)
  show ?case
  proof (cases "length m mod 64 + length d < 2 ^ 32")
    case True
    obtain c1 where "kern_sha1_update d c = Some c1" "absorbed (m @ d) c1"
      using update_absorbs [OF Cons.prems(1) True] by auto
    then show ?thesis using Cons.IH [of "m @ d" c1] Cons.prems(2) True by (simp split: if_splits)
  next
    case False
    then have "kern_sha1_update d c = None" using update_overruns [OF Cons.prems(1)] Cons.prems(2) by simp
    then show ?thesis using False by (simp add: foldl_None)
  qed
qed simp

lemma sha1_of_std:
  assumes "length (sha_buffer c) = 64" and "\<forall>d \<in> set parts. length d < 2 ^ 32" and "length (concat parts) < 2 ^ 61"
  shows "sha1_of c parts = (if parts_fit 0 parts then Some (std_sha1 (concat parts)) else None)"
  using updates_absorb [OF init_absorbed [OF assms(1)] assms(2)] final_hash assms(3)
  by (auto simp: sha1_of_def split: if_splits)

lemma length_std_sha1 [simp]: "length (std_sha1 m) = 20"
  by (simp add: std_sha1_def regs_bytes_def split: prod.split)

lemma length_std_hmac [simp]: "length (std_hmac k m) = 20"
  by (simp add: std_hmac_def Let_def)

lemma hmac_std:
  assumes "length (sha_buffer c) = 64" and "length key < 2 ^ 32" and "length data < 2 ^ 32"
  shows "kern_hmac_sha1 c key data = Some (std_hmac key data)"
proof -
  define k where "k = (if length key > 64 then std_sha1 key else key)"
  have lk: "length k \<le> 64" by (simp add: k_def)
  have k: "(if length key > 64 then sha1_of c [cast_len key] else Some key) = Some k"
    using sha1_of_std [OF assms(1), of "[key]"] assms(2) by (simp add: k_def cast_len_small)
  have m: "memcpy_at (replicate 64 0) 0 k = Some (k @ replicate (64 - length k) 0)"
    using lk by (simp add: memcpy_at_def blit_def)
  have "sha1_of c [map (\<lambda>b. b XOR 0x36) (k @ replicate (64 - length k) 0), data]
      = Some (std_sha1 (map (\<lambda>b. b XOR 0x36) (k @ replicate (64 - length k) 0) @ data))"
    using sha1_of_std [OF assms(1), of "[map (\<lambda>b. b XOR 0x36) (k @ replicate (64 - length k) 0), data]"] assms(3) lk by simp
  moreover have "sha1_of c [map (\<lambda>b. b XOR 0x5c) (k @ replicate (64 - length k) 0), std_sha1 x]
      = Some (std_sha1 (map (\<lambda>b. b XOR 0x5c) (k @ replicate (64 - length k) 0) @ std_sha1 x))" for x
    using sha1_of_std [OF assms(1), of "[map (\<lambda>b. b XOR 0x5c) (k @ replicate (64 - length k) 0), std_sha1 x]"] lk by simp
  ultimately show ?thesis
    unfolding kern_hmac_sha1_def k cast_len_small [OF assms(3)] by (simp add: m std_hmac_def k_def [symmetric])
qed

section \<open>Properties\<close>

text \<open>
  C34: The streaming SHA-1 computes the SHA-1 of the standard, exactly while its 32-bit sums hold. Whatever
  the stack buffer held before, and however a message of fewer than \<open>2 ^ 61\<close> bytes is cut into parts of fewer than
  \<open>2 ^ 32\<close> bytes: when every part is shorter than \<open>2 ^ 32\<close> together with the bytes still in the buffer, which is the
  length of the message before it modulo 64, init, one update per part and final stay inside their buffers, the
  padding loop ends, and the digest is the FIPS 180-4 digest of the whole message; and when some part is not,
  its update runs over the 64-byte buffer.
\<close>

theorem sha1_streaming_equiv:
  assumes "length (sha_buffer c) = 64" and "\<forall>d \<in> set parts. length d < 2 ^ 32" and "length (concat parts) < 2 ^ 61"
  shows "foldl (\<lambda>c d. c \<bind> kern_sha1_update d) (Some (kern_sha1_init c)) parts \<bind> kern_sha1_final
    = (if parts_fit 0 parts then Some (std_sha1 (concat parts)) else None)"
  using sha1_of_std [OF assms] by (simp add: sha1_of_def)

theorem sha1_streaming_equiv_witness:
  "kern_sha1_update [97] (kern_sha1_init \<lparr>sha_state = [], sha_count = (7, 7), sha_buffer = replicate 64 1\<rparr>)
     \<bind> kern_sha1_update [98, 99] \<bind> kern_sha1_final = Some (std_sha1 [97, 98, 99])"
  using sha1_streaming_equiv [of "\<lparr>sha_state = [], sha_count = (7, 7), sha_buffer = replicate 64 1\<rparr>" "[[97], [98, 99]]"]
  by simp

text \<open>A part of \<open>2 ^ 32 - 1\<close> bytes after a single byte runs over the buffer.\<close>

lemma sha1_update_overruns:
  assumes "length (sha_buffer c) = 64" and "length d = 2 ^ 32 - 1"
  shows "kern_sha1_update [b] (kern_sha1_init c) \<bind> kern_sha1_update d = None"
proof -
  obtain c1 where c1: "kern_sha1_update [b] (kern_sha1_init c) = Some c1" "absorbed [b] c1"
    using update_absorbs [OF init_absorbed [OF assms(1)], of "[b]"] by auto
  have "kern_sha1_update d c1 = None" by (rule update_overruns [OF c1(2)]) (use assms(2) in simp_all)
  then show ?thesis by (simp add: c1(1))
qed

text \<open>
  \<open>kern_hmac_sha1\<close> is the HMAC-SHA1 of the standard, for every key (hashed first when it is longer
  than the 64-byte block) and every message of fewer than \<open>2 ^ 32\<close> bytes.
\<close>

theorem hmac_sha1_equiv:
  assumes "length (sha_buffer c) = 64" and "length key < 2 ^ 32" and "length data < 2 ^ 32"
  shows "kern_hmac_sha1 c key data = Some (std_hmac key data)"
  using assms by (rule hmac_std)

theorem hmac_sha1_equiv_witness:
  "kern_hmac_sha1 \<lparr>sha_state = [], sha_count = (0, 0), sha_buffer = replicate 64 0\<rparr> (replicate 80 170) [1, 2, 3]
     = Some (std_hmac (replicate 80 170) [1, 2, 3])"
  by (rule hmac_sha1_equiv) simp_all

end
