(* ===== verification/Aes.thy ===== *)
theory Aes
  imports Prelude "HOL-Library.Monad_Syntax"
begin

text \<open>
  The AES functions of \<open>RTW88IEEE80211.cpp\<close>: the inverse cipher with its tables and key expansion, and the
  RFC 3394 key unwrap that protects the group key in the third handshake message. They are compared with
  the forward cipher of FIPS 197 and the key wrap of RFC 3394, which the access point applies.
\<close>

section \<open>The code\<close>

definition aes_sbox :: bytes where
  "aes_sbox =
     [0x63, 0x7c, 0x77, 0x7b, 0xf2, 0x6b, 0x6f, 0xc5, 0x30, 0x01, 0x67, 0x2b, 0xfe, 0xd7, 0xab, 0x76,
      0xca, 0x82, 0xc9, 0x7d, 0xfa, 0x59, 0x47, 0xf0, 0xad, 0xd4, 0xa2, 0xaf, 0x9c, 0xa4, 0x72, 0xc0,
      0xb7, 0xfd, 0x93, 0x26, 0x36, 0x3f, 0xf7, 0xcc, 0x34, 0xa5, 0xe5, 0xf1, 0x71, 0xd8, 0x31, 0x15,
      0x04, 0xc7, 0x23, 0xc3, 0x18, 0x96, 0x05, 0x9a, 0x07, 0x12, 0x80, 0xe2, 0xeb, 0x27, 0xb2, 0x75,
      0x09, 0x83, 0x2c, 0x1a, 0x1b, 0x6e, 0x5a, 0xa0, 0x52, 0x3b, 0xd6, 0xb3, 0x29, 0xe3, 0x2f, 0x84,
      0x53, 0xd1, 0x00, 0xed, 0x20, 0xfc, 0xb1, 0x5b, 0x6a, 0xcb, 0xbe, 0x39, 0x4a, 0x4c, 0x58, 0xcf,
      0xd0, 0xef, 0xaa, 0xfb, 0x43, 0x4d, 0x33, 0x85, 0x45, 0xf9, 0x02, 0x7f, 0x50, 0x3c, 0x9f, 0xa8,
      0x51, 0xa3, 0x40, 0x8f, 0x92, 0x9d, 0x38, 0xf5, 0xbc, 0xb6, 0xda, 0x21, 0x10, 0xff, 0xf3, 0xd2,
      0xcd, 0x0c, 0x13, 0xec, 0x5f, 0x97, 0x44, 0x17, 0xc4, 0xa7, 0x7e, 0x3d, 0x64, 0x5d, 0x19, 0x73,
      0x60, 0x81, 0x4f, 0xdc, 0x22, 0x2a, 0x90, 0x88, 0x46, 0xee, 0xb8, 0x14, 0xde, 0x5e, 0x0b, 0xdb,
      0xe0, 0x32, 0x3a, 0x0a, 0x49, 0x06, 0x24, 0x5c, 0xc2, 0xd3, 0xac, 0x62, 0x91, 0x95, 0xe4, 0x79,
      0xe7, 0xc8, 0x37, 0x6d, 0x8d, 0xd5, 0x4e, 0xa9, 0x6c, 0x56, 0xf4, 0xea, 0x65, 0x7a, 0xae, 0x08,
      0xba, 0x78, 0x25, 0x2e, 0x1c, 0xa6, 0xb4, 0xc6, 0xe8, 0xdd, 0x74, 0x1f, 0x4b, 0xbd, 0x8b, 0x8a,
      0x70, 0x3e, 0xb5, 0x66, 0x48, 0x03, 0xf6, 0x0e, 0x61, 0x35, 0x57, 0xb9, 0x86, 0xc1, 0x1d, 0x9e,
      0xe1, 0xf8, 0x98, 0x11, 0x69, 0xd9, 0x8e, 0x94, 0x9b, 0x1e, 0x87, 0xe9, 0xce, 0x55, 0x28, 0xdf,
      0x8c, 0xa1, 0x89, 0x0d, 0xbf, 0xe6, 0x42, 0x68, 0x41, 0x99, 0x2d, 0x0f, 0xb0, 0x54, 0xbb, 0x16]"

definition aes_rsbox :: bytes where
  "aes_rsbox =
     [0x52, 0x09, 0x6a, 0xd5, 0x30, 0x36, 0xa5, 0x38, 0xbf, 0x40, 0xa3, 0x9e, 0x81, 0xf3, 0xd7, 0xfb,
      0x7c, 0xe3, 0x39, 0x82, 0x9b, 0x2f, 0xff, 0x87, 0x34, 0x8e, 0x43, 0x44, 0xc4, 0xde, 0xe9, 0xcb,
      0x54, 0x7b, 0x94, 0x32, 0xa6, 0xc2, 0x23, 0x3d, 0xee, 0x4c, 0x95, 0x0b, 0x42, 0xfa, 0xc3, 0x4e,
      0x08, 0x2e, 0xa1, 0x66, 0x28, 0xd9, 0x24, 0xb2, 0x76, 0x5b, 0xa2, 0x49, 0x6d, 0x8b, 0xd1, 0x25,
      0x72, 0xf8, 0xf6, 0x64, 0x86, 0x68, 0x98, 0x16, 0xd4, 0xa4, 0x5c, 0xcc, 0x5d, 0x65, 0xb6, 0x92,
      0x6c, 0x70, 0x48, 0x50, 0xfd, 0xed, 0xb9, 0xda, 0x5e, 0x15, 0x46, 0x57, 0xa7, 0x8d, 0x9d, 0x84,
      0x90, 0xd8, 0xab, 0x00, 0x8c, 0xbc, 0xd3, 0x0a, 0xf7, 0xe4, 0x58, 0x05, 0xb8, 0xb3, 0x45, 0x06,
      0xd0, 0x2c, 0x1e, 0x8f, 0xca, 0x3f, 0x0f, 0x02, 0xc1, 0xaf, 0xbd, 0x03, 0x01, 0x13, 0x8a, 0x6b,
      0x3a, 0x91, 0x11, 0x41, 0x4f, 0x67, 0xdc, 0xea, 0x97, 0xf2, 0xcf, 0xce, 0xf0, 0xb4, 0xe6, 0x73,
      0x96, 0xac, 0x74, 0x22, 0xe7, 0xad, 0x35, 0x85, 0xe2, 0xf9, 0x37, 0xe8, 0x1c, 0x75, 0xdf, 0x6e,
      0x47, 0xf1, 0x1a, 0x71, 0x1d, 0x29, 0xc5, 0x89, 0x6f, 0xb7, 0x62, 0x0e, 0xaa, 0x18, 0xbe, 0x1b,
      0xfc, 0x56, 0x3e, 0x4b, 0xc6, 0xd2, 0x79, 0x20, 0x9a, 0xdb, 0xc0, 0xfe, 0x78, 0xcd, 0x5a, 0xf4,
      0x1f, 0xdd, 0xa8, 0x33, 0x88, 0x07, 0xc7, 0x31, 0xb1, 0x12, 0x10, 0x59, 0x27, 0x80, 0xec, 0x5f,
      0x60, 0x51, 0x7f, 0xa9, 0x19, 0xb5, 0x4a, 0x0d, 0x2d, 0xe5, 0x7a, 0x9f, 0x93, 0xc9, 0x9c, 0xef,
      0xa0, 0xe0, 0x3b, 0x4d, 0xae, 0x2a, 0xf5, 0xb0, 0xc8, 0xeb, 0xbb, 0x3c, 0x83, 0x53, 0x99, 0x61,
      0x17, 0x2b, 0x04, 0x7e, 0xba, 0x77, 0xd6, 0x26, 0xe1, 0x69, 0x14, 0x63, 0x55, 0x21, 0x0c, 0x7d]"

definition aes_xtime :: "u8 \<Rightarrow> u8" where
  "aes_xtime x = push_bit 1 x XOR (if x AND 0x80 \<noteq> 0 then 0x1b else 0)"

function aes_mul_loop :: "u8 \<Rightarrow> u8 \<Rightarrow> u8 \<Rightarrow> u8" where
  "aes_mul_loop r x y =
     (if y = 0 then r
      else aes_mul_loop (if y AND 1 \<noteq> 0 then r XOR x else r) (aes_xtime x) (drop_bit 1 y))"
  by pat_completeness auto
termination
proof (relation "measure (\<lambda>(r, x, y). unat y)")
  fix r x y :: u8 assume "y \<noteq> 0"
  then have "unat y div 2 < unat y" by (simp add: unat_gt_0)
  moreover have "take_bit 8 (unat y) div 2 \<le> unat y div 2" by (rule div_le_mono) (rule take_bit_nat_less_eq_self)
  ultimately show "((if y AND 1 \<noteq> 0 then r XOR x else r, aes_xtime x, drop_bit 1 y), r, x, y) \<in> measure (\<lambda>(r, x, y). unat y)"
    unfolding in_measure prod.case unsigned_drop_bit_eq by (simp add: drop_bit_eq_div)
qed simp

declare aes_mul_loop.simps [simp del]

definition aes_mul :: "u8 \<Rightarrow> u8 \<Rightarrow> u8" where
  "aes_mul x y = aes_mul_loop 0 x y"

definition rcon :: bytes where
  "rcon = [0x01, 0x02, 0x04, 0x08, 0x10, 0x20, 0x40, 0x80, 0x1b, 0x36]"

text \<open>One round of the loop of \<open>aes128_key_expand\<close>, which writes \<open>round_key\<close> in order, four bytes at a time.\<close>

definition expand_word :: "bytes \<Rightarrow> bytes" where
  "expand_word rk =
     (let n = length rk; t = block rk (n - 4) 4;
          t = (if n mod 16 = 0
               then [aes_sbox ! unat (t ! 1) XOR rcon ! (n div 16 - 1), aes_sbox ! unat (t ! 2),
                     aes_sbox ! unat (t ! 3), aes_sbox ! unat (t ! 0)]
               else t)
      in rk @ map2 (XOR) (block rk (n - 16) 4) t)"

definition aes128_key_expand :: "bytes \<Rightarrow> bytes" where
  "aes128_key_expand key = (expand_word ^^ 40) key"

definition aes_add_round_key :: "bytes \<Rightarrow> bytes \<Rightarrow> bytes" where
  "aes_add_round_key s rk = map2 (XOR) s rk"

definition aes_inv_shift_rows :: "bytes \<Rightarrow> bytes" where
  "aes_inv_shift_rows s =
     (let t = s ! 13; s = s[13 := s ! 9]; s = s[9 := s ! 5]; s = s[5 := s ! 1]; s = s[1 := t];
          t = s ! 2; s = s[2 := s ! 10]; s = s[10 := t]; t = s ! 6; s = s[6 := s ! 14]; s = s[14 := t];
          t = s ! 3; s = s[3 := s ! 7]; s = s[7 := s ! 11]; s = s[11 := s ! 15]; s = s[15 := t]
      in s)"

definition aes_inv_sub_bytes :: "bytes \<Rightarrow> bytes" where
  "aes_inv_sub_bytes s = map (\<lambda>b. aes_rsbox ! unat b) s"

fun inv_mix_column :: "bytes \<Rightarrow> bytes" where
  "inv_mix_column [a0, a1, a2, a3] =
     [aes_mul a0 0x0e XOR aes_mul a1 0x0b XOR aes_mul a2 0x0d XOR aes_mul a3 0x09,
      aes_mul a0 0x09 XOR aes_mul a1 0x0e XOR aes_mul a2 0x0b XOR aes_mul a3 0x0d,
      aes_mul a0 0x0d XOR aes_mul a1 0x09 XOR aes_mul a2 0x0e XOR aes_mul a3 0x0b,
      aes_mul a0 0x0b XOR aes_mul a1 0x0d XOR aes_mul a2 0x09 XOR aes_mul a3 0x0e]"
| "inv_mix_column p = p"

definition aes_inv_mix_columns :: "bytes \<Rightarrow> bytes" where
  "aes_inv_mix_columns s = concat (map (\<lambda>c. inv_mix_column (block s (4 * c) 4)) [0..<4])"

definition dec_round :: "bytes \<Rightarrow> nat \<Rightarrow> bytes \<Rightarrow> bytes" where
  "dec_round rk r s =
     aes_inv_mix_columns (aes_add_round_key (aes_inv_sub_bytes (aes_inv_shift_rows s)) (block rk (16 * r) 16))"

definition aes128_decrypt_block :: "bytes \<Rightarrow> bytes \<Rightarrow> bytes" where
  "aes128_decrypt_block key inp =
     (let rk = aes128_key_expand key;
          s = aes_add_round_key inp (block rk 160 16);
          s = fold (dec_round rk) (rev [1..<10]) s
      in aes_add_round_key (aes_inv_sub_bytes (aes_inv_shift_rows s)) (block rk 0 16))"

text \<open>The step counter \<open>t\<close> into the bytes \<open>k\<close> down to 0 of the block, while it is not zero.\<close>

fun xor_t :: "nat \<Rightarrow> u64 \<Rightarrow> bytes \<Rightarrow> bytes" where
  "xor_t 0 t b = (if t = 0 then b else b[0 := b ! 0 XOR ucast t])"
| "xor_t (Suc k) t b = (if t = 0 then b else xor_t k (drop_bit 8 t) (b[Suc k := b ! Suc k XOR ucast t]))"

definition unwrap_step :: "bytes \<Rightarrow> nat \<Rightarrow> nat \<times> nat \<Rightarrow> bytes \<times> bytes list \<Rightarrow> bytes \<times> bytes list" where
  "unwrap_step kek n ji s =
     (let j = fst ji; i = snd ji; a = fst s; r = snd s;
          plain = aes128_decrypt_block kek (xor_t 7 (of_nat (n * j + i + 1)) a @ r ! i)
      in (take 8 plain, r[i := drop 8 plain]))"

text \<open>
  \<open>in\<close> has \<open>in_len\<close> bytes (below \<open>2 ^ 16\<close>) and \<open>out\<close> has room for 256. \<open>Some None\<close>: the function returns
  false; \<open>None\<close>: a copy outside a buffer.
\<close>

definition unwrap_order :: "nat \<Rightarrow> (nat \<times> nat) list" where
  "unwrap_order n = concat (map (\<lambda>j. map (Pair j) (rev [0..<n])) (rev [0..<6]))"

definition aes_unwrap_128 :: "bytes \<Rightarrow> bytes \<Rightarrow> bytes option option" where
  "aes_unwrap_128 kek inp =
     (if length inp < 16 \<or> length inp mod 8 \<noteq> 0 then Some None
      else let n = length inp div 8 - 1
      in if n = 0 \<or> n > 32 then Some None
         else let a = block inp 0 8; r = map (\<lambda>i. block inp (8 + i * 8) 8) [0..<n];
                  (a, r) = fold (unwrap_step kek n) (unwrap_order n) (a, r)
              in if a \<noteq> replicate 8 0xa6 then Some None
                 else if length (concat r) \<le> 256 then Some (Some (concat r)) else None)"

section \<open>The standards\<close>

fun std_word :: "bytes \<Rightarrow> nat \<Rightarrow> bytes" where
  "std_word key i =
     (if i < 4 then block key (4 * i) 4
      else let t = std_word key (i - 1);
               t = (if i mod 4 = 0
                    then map2 (XOR) (map (\<lambda>b. aes_sbox ! unat b) (rotate1 t)) [(aes_xtime ^^ (i div 4 - 1)) 1, 0, 0, 0]
                    else t)
           in map2 (XOR) (std_word key (i - 4)) t)"

declare std_word.simps [simp del]

definition std_round_key :: "bytes \<Rightarrow> nat \<Rightarrow> bytes" where
  "std_round_key key r = concat (map (std_word key) [4 * r..<4 * r + 4])"

definition sub_bytes :: "bytes \<Rightarrow> bytes" where
  "sub_bytes s = map (\<lambda>b. aes_sbox ! unat b) s"

text \<open>Byte \<open>r + 4 c\<close> is row \<open>r\<close>, column \<open>c\<close>; row \<open>r\<close> moves \<open>r\<close> places to the left.\<close>

definition shift_rows :: "bytes \<Rightarrow> bytes" where
  "shift_rows s = map (\<lambda>i. s ! (i mod 4 + 4 * ((i div 4 + i mod 4) mod 4))) [0..<16]"

fun mix_column :: "bytes \<Rightarrow> bytes" where
  "mix_column [a0, a1, a2, a3] =
     [aes_mul a0 2 XOR aes_mul a1 3 XOR a2 XOR a3, a0 XOR aes_mul a1 2 XOR aes_mul a2 3 XOR a3,
      a0 XOR a1 XOR aes_mul a2 2 XOR aes_mul a3 3, aes_mul a0 3 XOR a1 XOR a2 XOR aes_mul a3 2]"
| "mix_column p = p"

definition mix_columns :: "bytes \<Rightarrow> bytes" where
  "mix_columns s = concat (map (\<lambda>c. mix_column (block s (4 * c) 4)) [0..<4])"

definition enc_round :: "bytes \<Rightarrow> nat \<Rightarrow> bytes \<Rightarrow> bytes" where
  "enc_round key r s = map2 (XOR) (mix_columns (shift_rows (sub_bytes s))) (std_round_key key r)"

definition std_encrypt :: "bytes \<Rightarrow> bytes \<Rightarrow> bytes" where
  "std_encrypt key x =
     map2 (XOR) (shift_rows (sub_bytes (fold (enc_round key) [1..<10] (map2 (XOR) x (std_round_key key 0)))))
       (std_round_key key 10)"

definition be64 :: "nat \<Rightarrow> bytes" where
  "be64 t = map (\<lambda>k. ucast (drop_bit (8 * (7 - k)) (of_nat t :: u64))) [0..<8]"

definition wrap_step :: "bytes \<Rightarrow> nat \<Rightarrow> nat \<times> nat \<Rightarrow> bytes \<times> bytes list \<Rightarrow> bytes \<times> bytes list" where
  "wrap_step kek n ji s =
     (let b = std_encrypt kek (fst s @ snd s ! snd ji)
      in (map2 (XOR) (take 8 b) (be64 (n * fst ji + snd ji + 1)), (snd s)[snd ji := drop 8 b]))"

definition std_wrap :: "bytes \<Rightarrow> bytes \<Rightarrow> bytes" where
  "std_wrap kek p =
     (let n = length p div 8;
          (a, r) = fold (wrap_step kek n) (concat (map (\<lambda>j. map (Pair j) [0..<n]) [0..<6]))
                     (replicate 8 0xa6, map (\<lambda>i. block p (8 * i) 8) [0..<n])
      in a @ concat r)"

section \<open>The byte operations\<close>

lemma xor_cancel [simp]: "(a :: 'a :: len word) XOR (a XOR b) = b"
  by (simp add: xor.assoc [symmetric])

lemma map2_xor_cancel: "length s \<le> length k \<Longrightarrow> map2 (XOR) (map2 (XOR) s k) k = (s :: 'a :: len word list)"
proof (induction s arbitrary: k)
  case (Cons a s)
  then show ?case by (cases k) (simp_all add: xor.commute xor.left_commute)
qed simp

text \<open>The two tables are inverse to each other: a check over all 256 entries.\<close>

fun inverse_from :: "bytes \<Rightarrow> bytes \<Rightarrow> u8 \<Rightarrow> bool" where
  "inverse_from g [] k \<longleftrightarrow> True"
| "inverse_from g (s # ss) k \<longleftrightarrow> g ! unat s = k \<and> inverse_from g ss (k + 1)"

lemma inverse_from_nth: "inverse_from g ss k \<Longrightarrow> i < length ss \<Longrightarrow> g ! unat (ss ! i) = k + of_nat i"
proof (induction ss arbitrary: k i)
  case (Cons a ss)
  then show ?case by (cases i) (auto simp: add.assoc)
qed simp

lemma sbox_tables: "inverse_from aes_rsbox aes_sbox 0" "inverse_from aes_sbox aes_rsbox 0"
  "length aes_sbox = 256" "length aes_rsbox = 256"
proof -
  show "inverse_from aes_rsbox aes_sbox 0" unfolding aes_sbox_def by (simp, simp add: aes_rsbox_def)
  show "inverse_from aes_sbox aes_rsbox 0" unfolding aes_rsbox_def by (simp, simp add: aes_sbox_def)
qed (simp_all add: aes_sbox_def aes_rsbox_def)

lemma sbox_inverse [simp]:
  "aes_rsbox ! unat (aes_sbox ! unat x) = x" "aes_sbox ! unat (aes_rsbox ! unat x) = x"
  using inverse_from_nth [OF sbox_tables(1), of "unat x"] inverse_from_nth [OF sbox_tables(2), of "unat x"]
    unsigned_less [of x, where 'a = nat] by (simp_all add: sbox_tables(3,4))

lemma bit7_test: "(x :: u8) AND 0x80 \<noteq> 0 \<longleftrightarrow> bit x 7"
proof -
  have "(0x80 :: u8) = push_bit 7 1" by simp
  then show ?thesis by (metis and_exp_eq_0_iff_not_bit push_bit_of_1)
qed

lemma xtime_xor: "aes_xtime (a XOR b) = aes_xtime a XOR aes_xtime b"
  unfolding aes_xtime_def bit7_test
  by (auto simp: bit_simps push_bit_xor xor.assoc xor.commute xor.left_commute)

lemma mul_consts:
  "aes_mul a 2 = aes_xtime a" "aes_mul a 3 = a XOR aes_xtime a"
  "aes_mul a 0x09 = a XOR aes_xtime (aes_xtime (aes_xtime a))"
  "aes_mul a 0x0b = a XOR aes_xtime a XOR aes_xtime (aes_xtime (aes_xtime a))"
  "aes_mul a 0x0d = a XOR aes_xtime (aes_xtime a) XOR aes_xtime (aes_xtime (aes_xtime a))"
  "aes_mul a 0x0e = aes_xtime a XOR aes_xtime (aes_xtime a) XOR aes_xtime (aes_xtime (aes_xtime a))"
  by (simp_all add: aes_mul_def aes_mul_loop.simps xor.assoc)

lemmas xor_ac = xor.assoc xor.commute xor.left_commute

lemma mix_column_inverse:
  "inv_mix_column (mix_column [a0, a1, a2, a3]) = [a0, a1, a2, a3]"
  "mix_column (inv_mix_column [a0, a1, a2, a3]) = [a0, a1, a2, a3]"
  by (simp_all add: mul_consts xtime_xor xor_ac)

lemma list16: "length s = 16 \<Longrightarrow> \<exists>a0 a1 a2 a3 a4 a5 a6 a7 a8 a9 a10 a11 a12 a13 a14 a15.
    s = [a0, a1, a2, a3, a4, a5, a6, a7, a8, a9, a10, a11, a12, a13, a14, a15]"
  by (auto simp: length_Suc_conv eval_nat_numeral)

lemma shift_rows_inverse:
  assumes "length s = 16"
  shows "aes_inv_shift_rows (shift_rows s) = s" and "shift_rows (aes_inv_shift_rows s) = s"
proof -
  obtain a0 a1 a2 a3 a4 a5 a6 a7 a8 a9 a10 a11 a12 a13 a14 a15
    where s: "s = [a0, a1, a2, a3, a4, a5, a6, a7, a8, a9, a10, a11, a12, a13, a14, a15]"
    using list16 [OF assms] by blast
  have up: "[0..<16] = [0, 1, 2, 3, 4, 5, 6, 7, 8, 9, 10, 11, 12, 13, 14, 15]" by (simp add: upt_rec)
  show "aes_inv_shift_rows (shift_rows s) = s" "shift_rows (aes_inv_shift_rows s) = s"
    unfolding s shift_rows_def up aes_inv_shift_rows_def by (simp_all add: Let_def)
qed

lemma length_shift [simp]:
  "length (shift_rows s) = 16" "length (aes_inv_shift_rows s) = length s"
  "length (sub_bytes s) = length s" "length (aes_inv_sub_bytes s) = length s"
  by (simp_all add: shift_rows_def aes_inv_shift_rows_def sub_bytes_def aes_inv_sub_bytes_def Let_def)

lemma sub_bytes_inverse [simp]: "aes_inv_sub_bytes (sub_bytes s) = s" "sub_bytes (aes_inv_sub_bytes s) = s"
  by (simp_all add: sub_bytes_def aes_inv_sub_bytes_def comp_def)

lemma mix_columns_inverse:
  assumes "length s = 16"
  shows "aes_inv_mix_columns (mix_columns s) = s" and "mix_columns (aes_inv_mix_columns s) = s"
    and "length (mix_columns s) = 16" and "length (aes_inv_mix_columns s) = 16"
proof -
  obtain a0 a1 a2 a3 a4 a5 a6 a7 a8 a9 a10 a11 a12 a13 a14 a15
    where s: "s = [a0, a1, a2, a3, a4, a5, a6, a7, a8, a9, a10, a11, a12, a13, a14, a15]"
    using list16 [OF assms] by blast
  have up: "[0..<4] = [0, 1, 2, 3]" by (simp add: upt_rec)
  have four: "\<exists>b0 b1 b2 b3. mix_column [x0, x1, x2, x3] = [b0, b1, b2, b3]"
    "\<exists>b0 b1 b2 b3. inv_mix_column [x0, x1, x2, x3] = [b0, b1, b2, b3]" for x0 x1 x2 x3 by simp_all
  have cols: "concat (map (\<lambda>c. f (block (w @ x @ y @ z) (4 * c) 4)) [0..<4]) = f w @ f x @ f y @ f z"
    if "length w = 4" "length x = 4" "length y = 4" "length z = 4" for f :: "bytes \<Rightarrow> bytes" and w x y z
    using that by (simp add: up block_def)
  let ?w = "[a0, a1, a2, a3]" and ?x = "[a4, a5, a6, a7]" and ?y = "[a8, a9, a10, a11]" and ?z = "[a12, a13, a14, a15]"
  have s': "s = ?w @ ?x @ ?y @ ?z" by (simp add: s)
  have len: "length (mix_column [x0, x1, x2, x3]) = 4" "length (inv_mix_column [x0, x1, x2, x3]) = 4" for x0 x1 x2 x3 by simp_all
  have m: "mix_columns s = mix_column ?w @ mix_column ?x @ mix_column ?y @ mix_column ?z"
    "aes_inv_mix_columns s = inv_mix_column ?w @ inv_mix_column ?x @ inv_mix_column ?y @ inv_mix_column ?z"
    unfolding mix_columns_def aes_inv_mix_columns_def s' by (rule cols; simp)+
  show "aes_inv_mix_columns (mix_columns s) = s"
    unfolding m(1) aes_inv_mix_columns_def by (subst cols [OF len(1) len(1) len(1) len(1)]) (simp only: mix_column_inverse s')
  show "mix_columns (aes_inv_mix_columns s) = s"
    unfolding m(2) mix_columns_def by (subst cols [OF len(2) len(2) len(2) len(2)]) (simp only: mix_column_inverse s')
  show "length (mix_columns s) = 16" "length (aes_inv_mix_columns s) = 16"
    unfolding m length_append len by simp_all
qed

section \<open>The key schedule\<close>

lemma concat4:
  assumes "\<forall>x \<in> set xs. length x = 4"
  shows "drop (4 * i) (concat xs) = concat (drop i xs)" and "take (4 * i) (concat xs) = concat (take i xs)"
    and "length (concat xs) = 4 * length xs"
proof -
  have "drop (4 * i) (concat xs) = concat (drop i xs) \<and> take (4 * i) (concat xs) = concat (take i xs)"
    using assms
  proof (induction i arbitrary: xs)
    case (Suc i)
    then show ?case by (cases xs) (auto simp: drop_append take_append)
  qed simp
  then show "drop (4 * i) (concat xs) = concat (drop i xs)" "take (4 * i) (concat xs) = concat (take i xs)" by simp_all
  show "length (concat xs) = 4 * length xs" using assms by (induction xs) simp_all
qed

lemma block_concat4:
  assumes "\<forall>x \<in> set xs. length x = 4"
  shows "block (concat xs) (4 * i) (4 * n) = concat (take n (drop i xs))"
proof -
  have "\<forall>x \<in> set (drop i xs). length x = 4" using assms by (auto dest: in_set_dropD)
  then show ?thesis unfolding block_def concat4(1) [OF assms] by (rule concat4(2))
qed

lemma length_std_word: "length key = 16 \<Longrightarrow> i < 44 \<Longrightarrow> length (std_word key i) = 4"
proof (induction i rule: less_induct)
  case (less i)
  show ?case
  proof (cases "i < 4")
    case True
    then show ?thesis using less.prems by (subst std_word.simps) (simp add: buf_simps)
  next
    case False
    then show ?thesis using less.IH [of "i - 1"] less.IH [of "i - 4"] less.prems
      by (subst std_word.simps) (simp add: Let_def)
  qed
qed

lemma rcon_xtime: "q < 10 \<Longrightarrow> rcon ! q = (aes_xtime ^^ q) 1"
proof -
  have "\<forall>q < 10. rcon ! q = (aes_xtime ^^ q) 1"
    by (simp add: eval_nat_numeral All_less_Suc) (simp add: rcon_def aes_xtime_def)
  then show "q < 10 \<Longrightarrow> rcon ! q = (aes_xtime ^^ q) 1" by simp
qed

lemma list4: "length s = 4 \<Longrightarrow> \<exists>a b c d. s = [a, b, c, d]"
  by (auto simp: length_Suc_conv eval_nat_numeral)

lemma expand_words:
  assumes "length key = 16"
  shows "n \<le> 40 \<Longrightarrow> (expand_word ^^ n) key = concat (map (std_word key) [0..<4 + n])"
proof (induction n)
  case 0
  have "[0..<4 + 0] = [0, 1, 2, 3]" by (simp add: upt_rec)
  moreover have "block key 0 4 @ block key 4 4 @ block key 8 4 @ block key 12 4 = key"
    using list16 [OF assms] by (auto simp: block_def)
  ultimately show ?case by (simp add: std_word.simps)
next
  case (Suc n)
  let ?ws = "map (std_word key) [0..<4 + n]"
  have w4: "\<forall>x \<in> set ?ws. length x = 4" using Suc.prems by (auto intro: length_std_word [OF assms])
  have len: "length (concat ?ws) = 4 * (4 + n)" using concat4(3) [OF w4] by simp
  have b1: "block (concat ?ws) (length (concat ?ws) - 4) 4 = std_word key (3 + n)"
  proof -
    have "length (concat ?ws) - 4 = 4 * (3 + n)" unfolding len by simp
    moreover have "[3 + n..<4 + n] = [3 + n]" using upt_conv_Cons [of "3 + n" "4 + n"] by simp
    ultimately show ?thesis using block_concat4 [OF w4, of "3 + n" 1] by (simp add: drop_map)
  qed
  have b2: "block (concat ?ws) (length (concat ?ws) - 16) 4 = std_word key n"
  proof -
    have "length (concat ?ws) - 16 = 4 * n" unfolding len by simp
    moreover have "take 1 [n..<4 + n] = [n]" using upt_conv_Cons [of n "4 + n"] by simp
    ultimately show ?thesis using block_concat4 [OF w4, of n 1] by (simp add: drop_map take_map)
  qed
  obtain t0 t1 t2 t3 where t: "std_word key (3 + n) = [t0, t1, t2, t3]"
    using list4 length_std_word [OF assms, of "3 + n"] Suc.prems by fastforce
  have md: "length (concat ?ws) mod 16 = 0 \<longleftrightarrow> (4 + n) mod 4 = 0" unfolding len by presburger
  have dv: "length (concat ?ws) div 16 - 1 = (4 + n) div 4 - 1" unfolding len by simp
  have rc: "rcon ! ((4 + n) div 4 - 1) = (aes_xtime ^^ ((4 + n) div 4 - 1)) 1"
    by (rule rcon_xtime) (use Suc.prems in simp)
  have "expand_word (concat ?ws) = concat ?ws @ std_word key (4 + n)"
    unfolding expand_word_def Let_def b1 b2 md dv t rc
    by (subst (2) std_word.simps) (simp add: Let_def add.commute t [unfolded add.commute [of 3]])
  moreover have "[0..<4 + Suc n] = [0..<4 + n] @ [4 + n]" unfolding add_Suc_right by (rule upt_Suc_append) simp
  ultimately show ?case using Suc by simp
qed

lemma round_keys:
  assumes "length key = 16" and "r \<le> 10"
  shows "block (aes128_key_expand key) (16 * r) 16 = std_round_key key r" and "length (std_round_key key r) = 16"
proof -
  let ?ws = "map (std_word key) [0..<44]"
  have w4: "\<forall>x \<in> set ?ws. length x = 4" by (auto intro: length_std_word [OF assms(1)])
  have e: "aes128_key_expand key = concat ?ws" unfolding aes128_key_expand_def using expand_words [OF assms(1), of 40] by simp
  have "take 4 (drop (4 * r) [0..<44]) = [4 * r..<4 * r + 4]" using assms(2) by (simp add: take_upt)
  then show "block (aes128_key_expand key) (16 * r) 16 = std_round_key key r"
    unfolding e std_round_key_def using block_concat4 [OF w4, of "4 * r" 4] by (simp add: drop_map take_map)
  have "\<forall>x \<in> set (map (std_word key) [4 * r..<4 * r + 4]). length x = 4"
    using assms(2) by (auto intro: length_std_word [OF assms(1)])
  from concat4(3) [OF this] show "length (std_round_key key r) = 16" by (simp add: std_round_key_def)
qed

section \<open>The cipher\<close>

lemma length_map2_xor: "length s = 16 \<Longrightarrow> length k = 16 \<Longrightarrow> length (map2 (XOR) s k) = 16"
  by simp

lemma dec_enc_round:
  assumes "length key = 16" and "length s = 16" and "r \<le> 10"
  shows "dec_round (aes128_key_expand key) r (shift_rows (sub_bytes (enc_round key r s))) = shift_rows (sub_bytes s)"
    and "length (enc_round key r s) = 16"
  using assms round_keys [OF assms(1,3)] mix_columns_inverse [of "shift_rows (sub_bytes s)"]
  by (simp_all add: dec_round_def enc_round_def aes_add_round_key_def shift_rows_inverse map2_xor_cancel)

lemma enc_dec_round:
  assumes "length key = 16" and "length s = 16" and "r \<le> 10"
  shows "shift_rows (sub_bytes (enc_round key r (aes_inv_sub_bytes (aes_inv_shift_rows (dec_round (aes128_key_expand key) r s))))) = s"
    and "length (dec_round (aes128_key_expand key) r s) = 16"
proof -
  let ?m = "map2 (XOR) (aes_inv_sub_bytes (aes_inv_shift_rows s)) (std_round_key key r)"
  have m: "length ?m = 16" using assms round_keys(2) [OF assms(1,3)] by simp
  show "length (dec_round (aes128_key_expand key) r s) = 16"
    using m mix_columns_inverse(4) [OF m] round_keys(1) [OF assms(1,3)] by (simp add: dec_round_def aes_add_round_key_def)
  show "shift_rows (sub_bytes (enc_round key r (aes_inv_sub_bytes (aes_inv_shift_rows (dec_round (aes128_key_expand key) r s))))) = s"
    using assms m round_keys [OF assms(1,3)] mix_columns_inverse [OF m]
    by (simp add: dec_round_def enc_round_def aes_add_round_key_def shift_rows_inverse map2_xor_cancel)
qed

lemma dec_enc_rounds:
  assumes "length key = 16"
  shows "length s = 16 \<Longrightarrow> n \<le> 10 \<Longrightarrow>
    fold (dec_round (aes128_key_expand key)) (rev [1..<n]) (shift_rows (sub_bytes (fold (enc_round key) [1..<n] s)))
      = shift_rows (sub_bytes s) \<and> length (fold (enc_round key) [1..<n] s) = 16"
proof (induction n)
  case (Suc n)
  show ?case
  proof (cases "n = 0")
    case False
    then show ?thesis using Suc dec_enc_round [OF assms, of "fold (enc_round key) [1..<n] s" n] by simp
  qed (use Suc.prems in simp)
qed simp

lemma enc_dec_rounds:
  assumes "length key = 16"
  shows "length s = 16 \<Longrightarrow> n \<le> 10 \<Longrightarrow>
    shift_rows (sub_bytes (fold (enc_round key) [1..<n]
      (aes_inv_sub_bytes (aes_inv_shift_rows (fold (dec_round (aes128_key_expand key)) (rev [1..<n]) s))))) = s
    \<and> length (fold (dec_round (aes128_key_expand key)) (rev [1..<n]) s) = 16"
proof (induction n arbitrary: s)
  case 0
  then show ?case by (simp add: shift_rows_inverse)
next
  case (Suc n)
  show ?case
  proof (cases "n = 0")
    case False
    let ?s = "dec_round (aes128_key_expand key) n s"
    let ?x = "fold (dec_round (aes128_key_expand key)) (rev [1..<n]) ?s"
    have l: "length ?s = 16" using enc_dec_round(2) [OF assms Suc.prems(1), of n] Suc.prems(2) by simp
    note ih = Suc.IH [OF l]
    let ?y = "fold (enc_round key) [1..<n] (aes_inv_sub_bytes (aes_inv_shift_rows ?x))"
    have n: "n \<le> 10" using Suc.prems(2) by simp
    have x: "length ?x = 16" and y: "shift_rows (sub_bytes ?y) = ?s" using ih [OF n] by blast+
    have "length ?y = 16" using dec_enc_rounds [OF assms _ n, of "aes_inv_sub_bytes (aes_inv_shift_rows ?x)"] x by simp
    then have "?y = aes_inv_sub_bytes (aes_inv_shift_rows (shift_rows (sub_bytes ?y)))" by (simp add: shift_rows_inverse(1))
    then have "?y = aes_inv_sub_bytes (aes_inv_shift_rows ?s)" unfolding y .
    then show ?thesis using x Suc.prems False enc_dec_round(1) [OF assms Suc.prems(1) n] by simp
  qed (use Suc.prems in \<open>simp add: shift_rows_inverse\<close>)
qed

lemma aes_inverse:
  assumes "length key = 16" and "length x = 16"
  shows "aes128_decrypt_block key (std_encrypt key x) = x" and "std_encrypt key (aes128_decrypt_block key x) = x"
    and "length (std_encrypt key x) = 16" and "length (aes128_decrypt_block key x) = 16"
proof -
  have k: "block (aes128_key_expand key) 160 16 = std_round_key key 10" "length (std_round_key key 10) = 16"
    "block (aes128_key_expand key) 0 16 = std_round_key key 0" "length (std_round_key key 0) = 16"
    using round_keys [OF assms(1), of 10] round_keys [OF assms(1), of 0] by simp_all
  let ?s0 = "map2 (XOR) x (std_round_key key 0)"
  have s0: "length ?s0 = 16" using assms(2) k(4) by simp
  show "aes128_decrypt_block key (std_encrypt key x) = x" "length (std_encrypt key x) = 16"
    using dec_enc_rounds [OF assms(1) s0, of 10] s0 assms(2) k
    by (simp_all add: aes128_decrypt_block_def std_encrypt_def Let_def aes_add_round_key_def map2_xor_cancel shift_rows_inverse)
  let ?t0 = "map2 (XOR) x (std_round_key key 10)"
  have t0: "length ?t0 = 16" using assms(2) k(2) by simp
  show "std_encrypt key (aes128_decrypt_block key x) = x" "length (aes128_decrypt_block key x) = 16"
    using enc_dec_rounds [OF assms(1) t0, of 10] t0 assms(2) k
    by (simp_all add: aes128_decrypt_block_def std_encrypt_def Let_def aes_add_round_key_def map2_xor_cancel)
qed

section \<open>The key wrap\<close>

text \<open>The counter, as the eight bytes the standard combines with the register.\<close>

lemma xor_t_nth:
  "k < length b \<Longrightarrow> i < length b \<Longrightarrow>
     xor_t k t b ! i = (if i \<le> k then b ! i XOR ucast (drop_bit (8 * (k - i)) t) else b ! i)"
proof (induction k arbitrary: t b)
  case 0
  then show ?case by (cases "i = 0") auto
next
  case (Suc k)
  show ?case
  proof (cases "t = 0")
    case False
    have "xor_t (Suc k) t b ! i = xor_t k (drop_bit 8 t) (b[Suc k := b ! Suc k XOR ucast t]) ! i" using False by simp
    also have "\<dots> = (if i \<le> k then b[Suc k := b ! Suc k XOR ucast t] ! i XOR ucast (drop_bit (8 * (k - i)) (drop_bit 8 t))
        else b[Suc k := b ! Suc k XOR ucast t] ! i)"
      using Suc.prems by (intro Suc.IH) simp_all
    finally show ?thesis using Suc.prems by (cases "i = Suc k") (auto simp: drop_bit_drop_bit Suc_diff_le add.commute)
  qed (simp)
qed

lemma length_xor_t [simp]: "length (xor_t k t b) = length b"
  by (induction k arbitrary: t b) simp_all

lemma length_be64 [simp]: "length (be64 t) = 8"
  by (simp add: be64_def)

lemma xor_t_be64: "length b = 8 \<Longrightarrow> xor_t 7 (of_nat t) b = map2 (XOR) b (be64 t)"
  by (rule nth_equalityI) (simp_all add: xor_t_nth be64_def)

definition wrap_state :: "nat \<Rightarrow> bytes \<times> bytes list \<Rightarrow> bool" where
  "wrap_state n s \<longleftrightarrow> length (fst s) = 8 \<and> length (snd s) = n \<and> (\<forall>x \<in> set (snd s). length x = 8)"

lemma step_states:
  assumes "length kek = 16" and "wrap_state n s" and "snd ji < n"
  shows "wrap_state n (wrap_step kek n ji s)" and "wrap_state n (unwrap_step kek n ji s)"
    and "unwrap_step kek n ji (wrap_step kek n ji s) = s" and "wrap_step kek n ji (unwrap_step kek n ji s) = s"
proof -
  obtain a r where s: "s = (a, r)" by (cases s)
  obtain j i where ji: "ji = (j, i)" by (cases ji)
  have a: "length a = 8" and r: "length r = n" "\<forall>x \<in> set r. length x = 8" and i: "i < n"
    using assms(2,3) by (auto simp: wrap_state_def s ji)
  have ri: "length (r ! i) = 8" using r i by simp
  let ?t = "n * j + i + 1"
  let ?e = "std_encrypt kek (a @ r ! i)"
  have e: "length ?e = 16" "aes128_decrypt_block kek ?e = a @ r ! i" using aes_inverse [OF assms(1), of "a @ r ! i"] a ri by simp_all
  let ?d = "aes128_decrypt_block kek (map2 (XOR) a (be64 ?t) @ r ! i)"
  have d: "length ?d = 16" "std_encrypt kek ?d = map2 (XOR) a (be64 ?t) @ r ! i"
    using aes_inverse [OF assms(1), of "map2 (XOR) a (be64 ?t) @ r ! i"] a ri by simp_all
  have w: "wrap_step kek n ji s = (map2 (XOR) (take 8 ?e) (be64 ?t), r[i := drop 8 ?e])"
    by (simp add: wrap_step_def s ji Let_def)
  have u: "unwrap_step kek n ji s = (take 8 ?d, r[i := drop 8 ?d])"
    using a xor_t_be64 [OF a, of ?t] by (simp add: unwrap_step_def s ji Let_def)
  have upd: "\<forall>x \<in> set (r[i := y]). length x = 8" if "length y = 8" for y :: bytes
  proof
    fix x assume "x \<in> set (r[i := y])"
    then have "x = y \<or> x \<in> set r" using set_update_subset_insert [of r i y] by blast
    then show "length x = 8" using r(2) that by blast
  qed
  show "wrap_state n (wrap_step kek n ji s)"
    unfolding w wrap_state_def fst_conv snd_conv by (intro conjI upd) (use r(1) e(1) in simp_all)
  show "wrap_state n (unwrap_step kek n ji s)"
    unfolding u wrap_state_def fst_conv snd_conv by (intro conjI upd) (use r(1) d(1) in simp_all)
  have undone: "xor_t 7 (of_nat ?t) (map2 (XOR) (take 8 ?e) (be64 ?t)) = take 8 ?e"
    by (subst xor_t_be64) (use e in \<open>simp_all add: map2_xor_cancel\<close>)
  show "unwrap_step kek n ji (wrap_step kek n ji s) = s"
    unfolding w unfolding unwrap_step_def Let_def ji fst_conv snd_conv undone using e a r(1) i by (simp add: s)
  show "wrap_step kek n ji (unwrap_step kek n ji s) = s"
    unfolding u unfolding wrap_step_def Let_def ji fst_conv snd_conv using d a r(1) i by (simp add: s map2_xor_cancel)
qed

lemma fold_states:
  assumes "length kek = 16" and "\<forall>ji \<in> set l. snd ji < n"
  shows "wrap_state n s \<Longrightarrow> wrap_state n (fold (wrap_step kek n) l s)
      \<and> fold (unwrap_step kek n) (rev l) (fold (wrap_step kek n) l s) = s"
    and "wrap_state n s \<Longrightarrow> wrap_state n (fold (unwrap_step kek n) (rev l) s)
      \<and> fold (wrap_step kek n) l (fold (unwrap_step kek n) (rev l) s) = s"
proof -
  show "wrap_state n s \<Longrightarrow> wrap_state n (fold (wrap_step kek n) l s)
      \<and> fold (unwrap_step kek n) (rev l) (fold (wrap_step kek n) l s) = s"
    using assms(2)
  proof (induction l arbitrary: s)
    case (Cons ji l)
    have "wrap_state n (wrap_step kek n ji s)" "unwrap_step kek n ji (wrap_step kek n ji s) = s"
      using step_states(1,3) [OF assms(1) Cons.prems(1)] Cons.prems(2) by simp_all
    then show ?case using Cons.IH Cons.prems(2) by simp
  qed simp
  show "wrap_state n s \<Longrightarrow> wrap_state n (fold (unwrap_step kek n) (rev l) s)
      \<and> fold (wrap_step kek n) l (fold (unwrap_step kek n) (rev l) s) = s"
    using assms(2)
  proof (induction l arbitrary: s rule: rev_induct)
    case (snoc ji l)
    have "wrap_state n (unwrap_step kek n ji s)" "wrap_step kek n ji (unwrap_step kek n ji s) = s"
      using step_states(2,4) [OF assms(1) snoc.prems(1)] snoc.prems(2) by simp_all
    then show ?case using snoc.IH snoc.prems(2) by simp
  qed simp
qed

lemma unwrap_order_rev: "unwrap_order n = rev (concat (map (\<lambda>j. map (Pair j) [0..<n]) [0..<6]))"
proof -
  have "rev (concat (map (\<lambda>j. map (Pair j) [0..<n]) js)) = concat (map (\<lambda>j. map (Pair j) (rev [0..<n])) (rev js))" for js :: "nat list"
    by (induction js) (simp_all add: rev_map)
  then show ?thesis by (simp add: unwrap_order_def)
qed

lemma order_bound: "\<forall>ji \<in> set (concat (map (\<lambda>j. map (Pair j) [0..<n]) [0..<6])). snd ji < n"
  by auto

lemma blocks8:
  "length p = 8 * n \<Longrightarrow> concat (map (\<lambda>i. block p (8 * i) 8) [0..<n]) = p
     \<and> (\<forall>x \<in> set (map (\<lambda>i. block p (8 * i) 8) [0..<n]). length x = 8)"
proof (induction n arbitrary: p)
  case (Suc n)
  have "[0..<Suc n] = 0 # map Suc [0..<n]" by (simp add: upt_conv_Cons map_Suc_upt del: upt_Suc)
  then have "map (\<lambda>i. block p (8 * i) 8) [0..<Suc n] = take 8 p # map (\<lambda>i. block (drop 8 p) (8 * i) 8) [0..<n]"
    by (simp add: block_def add.commute comp_def)
  then show ?case using Suc.IH [of "drop 8 p"] Suc.prems by simp
qed simp

lemma blocks8_concat:
  "\<forall>x \<in> set xs. length x = 8 \<Longrightarrow> map (\<lambda>i. block (concat xs) (8 * i) 8) [0..<length xs] = xs \<and> length (concat xs) = 8 * length xs"
proof (induction xs)
  case (Cons x xs)
  have "[0..<length (x # xs)] = 0 # map Suc [0..<length xs]"
    by (simp add: upt_conv_Cons map_Suc_upt del: upt_Suc)
  then show ?case using Cons by (simp add: block_def comp_def)
qed simp

lemma wrap_unwraps:
  assumes "length kek = 16" and "length p = 8 * k"
  shows "length (std_wrap kek p) = 8 * (k + 1)
    \<and> (\<exists>a r. std_wrap kek p = a @ concat r \<and> wrap_state k (a, r)
         \<and> fold (unwrap_step kek k) (unwrap_order k) (a, r) = (replicate 8 0xa6, map (\<lambda>i. block p (8 * i) 8) [0..<k]))"
proof -
  let ?l = "\<lambda>n. concat (map (\<lambda>j. map (Pair j) [0..<n]) [0..<6 :: nat])"
  let ?iv = "replicate 8 (0xa6 :: u8)"
  have w0: "wrap_state k (?iv, map (\<lambda>i. block p (8 * i) 8) [0..<k])"
    using blocks8 [OF assms(2)] by (simp add: wrap_state_def)
  obtain a r where ar: "fold (wrap_step kek k) (?l k) (?iv, map (\<lambda>i. block p (8 * i) 8) [0..<k]) = (a, r)" by fastforce
  have st: "wrap_state k (a, r)" "fold (unwrap_step kek k) (unwrap_order k) (a, r) = (?iv, map (\<lambda>i. block p (8 * i) 8) [0..<k])"
    using fold_states(1) [OF assms(1) order_bound w0] unfolding ar unwrap_order_rev by simp_all
  moreover have "length (concat r) = 8 * k" using st(1) blocks8_concat [of r] by (simp add: wrap_state_def)
  ultimately show ?thesis using ar assms(2) by (auto simp: std_wrap_def wrap_state_def)
qed

text \<open>An input of a length the code rejects is no wrapped key.\<close>

lemma unwrap_reject:
  assumes "length kek = 16" and "length inp < 16 \<or> length inp mod 8 \<noteq> 0 \<or> length inp div 8 - 1 > 32"
    and "length p mod 8 = 0" "8 \<le> length p" "length p \<le> 256"
  shows "inp \<noteq> std_wrap kek p"
proof -
  obtain k where k: "length p = 8 * k" using assms(3) by (metis mod_0_imp_dvd dvdE)
  have "1 \<le> k" "k \<le> 32" using assms(4,5) k by simp_all
  then show ?thesis using wrap_unwraps [OF assms(1) k] assms(2) by auto
qed

text \<open>On any other input of \<open>n + 1\<close> groups the code returns the groups it computes, when the first is the constant.\<close>

lemma unwrap_accept:
  assumes "length kek = 16" and li: "length inp = 8 * (n + 1)" "0 < n" "n \<le> 32"
  defines "r0 \<equiv> map (\<lambda>i. block (drop 8 inp) (8 * i) 8) [0..<n]"
  obtains a r where "fold (unwrap_step kek n) (unwrap_order n) (take 8 inp, r0) = (a, r)"
    "fold (wrap_step kek n) (concat (map (\<lambda>j. map (Pair j) [0..<n]) [0..<6 :: nat])) (a, r) = (take 8 inp, r0)"
    "map (\<lambda>i. block (concat r) (8 * i) 8) [0..<n] = r" "length (concat r) = 8 * n" "concat r0 = drop 8 inp"
    "aes_unwrap_128 kek inp = Some (if a = replicate 8 0xa6 then Some (concat r) else None)"
proof -
  have cr: "concat r0 = drop 8 inp" "\<forall>x \<in> set r0. length x = 8" using blocks8 [of "drop 8 inp" n] li(1) by (simp_all add: r0_def)
  have w0: "wrap_state n (take 8 inp, r0)" using cr li(1) by (simp add: wrap_state_def r0_def)
  obtain a r where ar: "fold (unwrap_step kek n) (unwrap_order n) (take 8 inp, r0) = (a, r)" by fastforce
  have st: "wrap_state n (a, r)" "fold (wrap_step kek n) (concat (map (\<lambda>j. map (Pair j) [0..<n]) [0..<6 :: nat])) (a, r) = (take 8 inp, r0)"
    using fold_states(2) [OF assms(1) order_bound w0] ar unfolding unwrap_order_rev by (metis, metis)
  have rr: "map (\<lambda>i. block (concat r) (8 * i) 8) [0..<n] = r" "length (concat r) = 8 * n"
    using blocks8_concat [of r] st(1) by (auto simp: wrap_state_def)
  have n: "length inp div 8 - 1 = n" "\<not> (length inp < 16 \<or> length inp mod 8 \<noteq> 0)" "\<not> (n = 0 \<or> n > 32)" using li by auto
  have "r0 = map (\<lambda>i. block inp (8 + i * 8) 8) [0..<n]" by (simp add: r0_def block_def add.commute mult.commute)
  then have "aes_unwrap_128 kek inp = (case fold (unwrap_step kek n) (unwrap_order n) (block inp 0 8, r0) of
      (a, r) \<Rightarrow> if a \<noteq> replicate 8 0xa6 then Some None else if length (concat r) \<le> 256 then Some (Some (concat r)) else None)"
    unfolding aes_unwrap_128_def Let_def n(1) using n(2,3) by simp
  then have "aes_unwrap_128 kek inp = Some (if a = replicate 8 0xa6 then Some (concat r) else None)"
    using ar rr(2) li(3) by (simp add: block_def)
  then show thesis using that ar st(2) rr cr(1) by blast
qed

lemma unwrap_exact:
  assumes "length kek = 16"
  shows "\<exists>res. aes_unwrap_128 kek inp = Some res
    \<and> (res = Some p \<longleftrightarrow> length p mod 8 = 0 \<and> 8 \<le> length p \<and> length p \<le> 256 \<and> inp = std_wrap kek p)"
proof (cases "length inp < 16 \<or> length inp mod 8 \<noteq> 0 \<or> length inp div 8 - 1 > 32")
  case True
  have "\<not> (length p mod 8 = 0 \<and> 8 \<le> length p \<and> length p \<le> 256 \<and> inp = std_wrap kek p)" using unwrap_reject [OF assms True, of p] by metis
  moreover have "aes_unwrap_128 kek inp = Some None" using True by (auto simp: aes_unwrap_128_def Let_def)
  ultimately show ?thesis by simp
next
  case False
  define n where "n = length inp div 8 - 1"
  have li: "length inp = 8 * (n + 1)" "0 < n" "n \<le> 32" using False by (auto simp: n_def)
  let ?r0 = "map (\<lambda>i. block (drop 8 inp) (8 * i) 8) [0..<n]" and ?iv = "replicate 8 (0xa6 :: u8)"
  obtain a r where ar: "fold (unwrap_step kek n) (unwrap_order n) (take 8 inp, ?r0) = (a, r)"
    and st: "fold (wrap_step kek n) (concat (map (\<lambda>j. map (Pair j) [0..<n]) [0..<6 :: nat])) (a, r) = (take 8 inp, ?r0)"
    and rr: "map (\<lambda>i. block (concat r) (8 * i) 8) [0..<n] = r" "length (concat r) = 8 * n" and cr: "concat ?r0 = drop 8 inp"
    and code: "aes_unwrap_128 kek inp = Some (if a = ?iv then Some (concat r) else None)"
    by (rule unwrap_accept [OF assms li])
  have "a = ?iv \<and> concat r = p \<longleftrightarrow> length p mod 8 = 0 \<and> 8 \<le> length p \<and> length p \<le> 256 \<and> inp = std_wrap kek p"
  proof
    assume p: "a = ?iv \<and> concat r = p"
    then have "std_wrap kek p = take 8 inp @ concat ?r0" using st rr by (simp add: std_wrap_def)
    then show "length p mod 8 = 0 \<and> 8 \<le> length p \<and> length p \<le> 256 \<and> inp = std_wrap kek p"
      using p rr(2) li cr by auto
  next
    assume p: "length p mod 8 = 0 \<and> 8 \<le> length p \<and> length p \<le> 256 \<and> inp = std_wrap kek p"
    then obtain k where k: "length p = 8 * k" by (metis mod_0_imp_dvd dvdE)
    then have kn: "k = n" using wrap_unwraps [OF assms k] p li(1) by simp
    obtain a' r' where w: "inp = a' @ concat r'" "wrap_state n (a', r')"
      "fold (unwrap_step kek n) (unwrap_order n) (a', r') = (?iv, map (\<lambda>i. block p (8 * i) 8) [0..<n])"
      using wrap_unwraps [OF assms k] p kn by auto
    have "a' = take 8 inp" "concat r' = drop 8 inp" using w(1,2) by (simp_all add: wrap_state_def)
    then have "r' = ?r0" using blocks8_concat [of r'] w(2) unfolding wrap_state_def by auto
    then have "(a, r) = (?iv, map (\<lambda>i. block p (8 * i) 8) [0..<n])" using ar w(3) \<open>a' = take 8 inp\<close> by simp
    then show "a = ?iv \<and> concat r = p" using blocks8 [OF k] kn by simp
  qed
  then show ?thesis using code by auto
qed

text \<open>
  C32: The key unwrap accepts exactly the wrapped keys. For every 16-byte key encryption key and every
  input of any length, \<open>aes_unwrap_128\<close> stays inside its buffers; it returns true exactly when the input
  is the RFC 3394 wrapping, under that key and with the forward cipher of FIPS 197, of a key of 8 to 256
  bytes in whole groups of eight, and then it returns that key.
\<close>

theorem aes_unwrap_correct:
  assumes "length kek = 16"
  shows "\<exists>res. aes_unwrap_128 kek inp = Some res
    \<and> (res = Some p \<longleftrightarrow> length p mod 8 = 0 \<and> 8 \<le> length p \<and> length p \<le> 256 \<and> inp = std_wrap kek p)"
  using assms by (rule unwrap_exact)

theorem aes_unwrap_correct_witness:
  "aes_unwrap_128 (replicate 16 1) (std_wrap (replicate 16 1) (replicate 16 7)) = Some (Some (replicate 16 7))"
  using aes_unwrap_correct [of "replicate 16 1" "std_wrap (replicate 16 1) (replicate 16 7)" "replicate 16 7"] by auto

text \<open>
  The inverse cipher inverts AES-128. For every 16-byte key and block, \<open>aes128_decrypt_block\<close> undoes
  the FIPS 197 cipher under that key, and the cipher undoes it.
\<close>

theorem aes_decrypt_inverts:
  assumes "length key = 16" and "length x = 16"
  shows "aes128_decrypt_block key (std_encrypt key x) = x \<and> std_encrypt key (aes128_decrypt_block key x) = x"
  using aes_inverse [OF assms] by simp

theorem aes_decrypt_inverts_witness:
  "aes128_decrypt_block (replicate 16 2) (std_encrypt (replicate 16 2) (replicate 16 9)) = replicate 16 9"
  using aes_decrypt_inverts [of "replicate 16 2" "replicate 16 9"] by simp

end
