(* ===== verification/Wpa.thy ===== *)
theory Wpa
  imports Sha1 Aes
begin

text \<open>
  The WPA2 key functions of \<open>RTW88IEEE80211.cpp\<close>: \<open>derivePMK\<close> (PBKDF2 over 4096 rounds), \<open>derivePTK\<close> (the
  802.11 pseudo random function), the message integrity check of an EAPOL-Key frame and the search for the
  group key in its key data. The hash functions run on a context \<open>c\<close> from the stack, whose buffer has 64
  bytes of arbitrary contents.
\<close>

definition sha_stack :: "KERN_SHA1_CTX \<Rightarrow> bool" where
  "sha_stack c \<longleftrightarrow> length (sha_buffer c) = 64"

section \<open>The code\<close>

text \<open>The rounds of one block: \<open>u\<close> is hashed again and folded into \<open>t\<close>.\<close>

fun pmk_rounds :: "nat \<Rightarrow> KERN_SHA1_CTX \<Rightarrow> bytes \<Rightarrow> bytes \<Rightarrow> bytes \<Rightarrow> bytes option" where
  "pmk_rounds 0 c pass u t = Some t"
| "pmk_rounds (Suc n) c pass u t =
     do { u' \<leftarrow> kern_hmac_sha1 c pass u; pmk_rounds n c pass u' (map2 (XOR) t u') }"

text \<open>\<open>passphrase\<close> is the text before the terminating zero byte.\<close>

definition derivePMK :: "KERN_SHA1_CTX \<Rightarrow> bytes \<Rightarrow> bytes \<Rightarrow> nat \<Rightarrow> bytes option" where
  "derivePMK c passphrase ssid n =
     (let n = (if n > 120 then 120 else n)
      in if n > length ssid then None
         else do { u1 \<leftarrow> kern_hmac_sha1 c passphrase (take n ssid @ [0, 0, 0, 1]);
                   t1 \<leftarrow> pmk_rounds 4095 c passphrase u1 u1;
                   u2 \<leftarrow> kern_hmac_sha1 c passphrase (take n ssid @ [0, 0, 0, 2]);
                   t2 \<leftarrow> pmk_rounds 4095 c passphrase u2 u2;
                   Some (take 20 t1 @ take 12 t2) })"

text \<open>\<open>memcmp (a, b, n) < 0\<close> on two blocks of the same length.\<close>

fun mem_less :: "bytes \<Rightarrow> bytes \<Rightarrow> bool" where
  "mem_less (a # as) (b # bs) \<longleftrightarrow> a < b \<or> (a = b \<and> mem_less as bs)"
| "mem_less _ _ \<longleftrightarrow> False"

definition ptk_label :: bytes where
  "ptk_label = map of_char ''Pairwise key expansion''"

definition ptk_data :: "bytes \<Rightarrow> bytes \<Rightarrow> bytes \<Rightarrow> bytes \<Rightarrow> bytes" where
  "ptk_data anonce snonce spa aa =
     ptk_label @ [0] @ (if mem_less spa aa then spa @ aa else aa @ spa)
     @ (if mem_less snonce anonce then snonce @ anonce else anonce @ snonce)"

definition derivePTK :: "KERN_SHA1_CTX \<Rightarrow> bytes \<Rightarrow> bytes \<Rightarrow> bytes \<Rightarrow> bytes \<Rightarrow> bytes \<Rightarrow> bytes option" where
  "derivePTK c pmk anonce snonce spa aa =
     (let data = ptk_data anonce snonce spa aa
      in do { h0 \<leftarrow> kern_hmac_sha1 c pmk (data @ [0]); h1 \<leftarrow> kern_hmac_sha1 c pmk (data @ [1]);
              h2 \<leftarrow> kern_hmac_sha1 c pmk (data @ [2]); h3 \<leftarrow> kern_hmac_sha1 c pmk (data @ [3]);
              Some (h0 @ h1 @ h2 @ take 4 h3) })"

text \<open>\<open>mem\<close>: the temporary copy could be allocated.\<close>

definition eapol_mic_ok :: "KERN_SHA1_CTX \<Rightarrow> bool \<Rightarrow> bytes \<Rightarrow> bytes \<Rightarrow> bool option" where
  "eapol_mic_ok c mem kck eapol =
     (if length eapol < 99 then Some False
      else if \<not> mem then Some False
      else do { tmp \<leftarrow> memcpy_at eapol 81 (replicate 16 0);
                mic \<leftarrow> kern_hmac_sha1 c kck tmp;
                Some (block eapol 81 16 = take 16 mic) })"

text \<open>The walk over the key data, \<open>kd\<close> what is left; the group key and its index.\<close>

function extract_gtk_from_kde :: "bytes \<Rightarrow> (bytes \<times> u8) option" where
  "extract_gtk_from_kde kd =
     (if length kd < 2 then None
      else let n = unat (kd ! 1); body = drop 2 kd
      in if length kd < 2 + n then None
         else if kd ! 0 = 0xdd \<and> n \<ge> 6 \<and> block body 0 4 = [0x00, 0x0f, 0xac, 0x01] then
           (if n - 6 > 32 then None else Some (block body 6 (n - 6), body ! 4 AND 3))
         else extract_gtk_from_kde (drop (2 + n) kd))"
  by pat_completeness auto
termination by (relation "measure length") auto

declare extract_gtk_from_kde.simps [simp del]

section \<open>The standards\<close>

fun std_u :: "bytes \<Rightarrow> bytes \<Rightarrow> nat \<Rightarrow> bytes" where
  "std_u pass salt 0 = std_hmac pass salt"
| "std_u pass salt (Suc k) = std_hmac pass (std_u pass salt k)"

fun std_t :: "bytes \<Rightarrow> bytes \<Rightarrow> nat \<Rightarrow> bytes" where
  "std_t pass salt 0 = std_u pass salt 0"
| "std_t pass salt (Suc k) = map2 (XOR) (std_t pass salt k) (std_u pass salt (Suc k))"

text \<open>PBKDF2 with HMAC-SHA1: the first \<open>n\<close> bytes of the blocks 1 and 2, with \<open>r + 1\<close> rounds each.\<close>

definition std_pbkdf2 :: "bytes \<Rightarrow> bytes \<Rightarrow> nat \<Rightarrow> nat \<Rightarrow> bytes" where
  "std_pbkdf2 pass salt r n = take n (std_t pass (salt @ [0, 0, 0, 1]) r @ std_t pass (salt @ [0, 0, 0, 2]) r)"

text \<open>The pseudo random function of 802.11: \<open>n\<close> bytes of HMAC over label, zero byte, data and counter.\<close>

definition std_prf :: "bytes \<Rightarrow> bytes \<Rightarrow> bytes \<Rightarrow> nat \<Rightarrow> bytes" where
  "std_prf key label data n =
     take n (concat (map (\<lambda>i. std_hmac key (label @ [0] @ data @ [of_nat i])) [0..<n div 20 + 1]))"

section \<open>Key derivation\<close>

lemma hmac_stack: "sha_stack c \<Longrightarrow> length k < 2 ^ 32 \<Longrightarrow> length d < 2 ^ 32 \<Longrightarrow> kern_hmac_sha1 c k d = Some (std_hmac k d)"
  by (rule hmac_std) (simp_all add: sha_stack_def)

lemma length_std_u [simp]: "length (std_u pass salt k) = 20"
  by (cases k) simp_all

lemma length_std_t [simp]: "length (std_t pass salt k) = 20"
  by (induction k) simp_all

lemma pmk_rounds_std:
  assumes "sha_stack c" and "length pass < 2 ^ 32"
  shows "pmk_rounds n c pass (std_u pass salt k) (std_t pass salt k) = Some (std_t pass salt (k + n))"
proof (induction n arbitrary: k)
  case (Suc n)
  have "kern_hmac_sha1 c pass (std_u pass salt k) = Some (std_u pass salt (Suc k))"
    using hmac_stack [OF assms, of "std_u pass salt k"] by simp
  then show ?case using Suc.IH [of "Suc k"] by simp
qed simp

lemma derivePMK_std:
  assumes "sha_stack c" and "length pass < 2 ^ 32" and "n \<le> 120" and "n \<le> length ssid"
  shows "derivePMK c pass ssid n = Some (std_pbkdf2 pass (take n ssid) 4095 32)"
proof -
  have h: "kern_hmac_sha1 c pass (take n ssid @ [0, 0, 0, b]) = Some (std_u pass (take n ssid @ [0, 0, 0, b]) 0)" for b
    using hmac_stack [OF assms(1,2), of "take n ssid @ [0, 0, 0, b]"] assms(3,4) by simp
  have r: "pmk_rounds 4095 c pass (std_u pass salt 0) (std_u pass salt 0) = Some (std_t pass salt 4095)" for salt
    using pmk_rounds_std [OF assms(1,2), of 4095 salt 0] by (simp only: std_t.simps add_0)
  show ?thesis unfolding derivePMK_def Let_def using assms(3,4)
    by (simp add: h r std_pbkdf2_def del: std_u.simps)
qed

lemma mem_less_asym: "mem_less xs ys \<Longrightarrow> \<not> mem_less ys xs"
  by (induction xs ys rule: mem_less.induct) auto

lemma mem_less_total: "length xs = length ys \<Longrightarrow> mem_less xs ys \<or> mem_less ys xs \<or> xs = ys"
  by (induction xs ys rule: list_induct2) auto

lemma ptk_data_swap:
  "length spa = length aa \<Longrightarrow> length snonce = length anonce \<Longrightarrow>
     ptk_data anonce snonce spa aa = ptk_data snonce anonce aa spa"
  using mem_less_asym [of spa aa] mem_less_total [of spa aa] mem_less_asym [of snonce anonce] mem_less_total [of snonce anonce]
  by (auto simp: ptk_data_def)

lemma derivePTK_std:
  assumes "sha_stack c" and "length pmk = 32" and "length anonce = 32" and "length snonce = 32"
    and "length spa = 6" and "length aa = 6"
  shows "derivePTK c pmk anonce snonce spa aa
    = Some (std_prf pmk ptk_label (drop 23 (ptk_data anonce snonce spa aa)) 64)"
proof -
  let ?d = "ptk_data anonce snonce spa aa"
  have l: "length ptk_label = 22" by (simp add: ptk_label_def)
  have "length ?d = 99" using assms l by (simp add: ptk_data_def)
  then have h: "kern_hmac_sha1 c pmk (?d @ [b]) = Some (std_hmac pmk (?d @ [b]))" for b
    using hmac_stack [OF assms(1), of pmk "?d @ [b]"] assms(2) by simp
  have d: "ptk_label @ 0 # drop 23 ?d = ?d" using l by (simp add: ptk_data_def)
  have up: "[0..<64 div 20 + 1] = [0, 1, 2, 3 :: nat]" by (simp add: upt_rec)
  have e: "ptk_label @ [0] @ drop 23 ?d @ [x] = ?d @ [x]" for x using d by (metis append.assoc append_Cons append_Nil)
  show ?thesis
    unfolding derivePTK_def Let_def h std_prf_def up list.map e by simp
qed

text \<open>
  C33: The WPA2 keys are those of the standards. For every passphrase and network name of up to 120 bytes
  \<open>derivePMK\<close> returns the 32 bytes of PBKDF2-HMAC-SHA1 with 4096 rounds; for 32-byte nonces and 6-byte
  addresses \<open>derivePTK\<close> returns the 64 bytes of the 802.11 pseudo random function with the label
  ``Pairwise key expansion''; and both ends, each seeing its own address and nonce as the local ones, get
  the same pairwise key.
\<close>

theorem wpa_keys_derived:
  assumes "sha_stack c" and "length pass < 2 ^ 32" and "n \<le> 120" and "n \<le> length ssid"
    and "length pmk = 32" and "length anonce = 32" and "length snonce = 32" and "length spa = 6" and "length aa = 6"
  shows "derivePMK c pass ssid n = Some (std_pbkdf2 pass (take n ssid) 4095 32)
    \<and> length (std_pbkdf2 pass (take n ssid) 4095 32) = 32
    \<and> derivePTK c pmk anonce snonce spa aa = Some (std_prf pmk ptk_label
        ((if mem_less spa aa then spa @ aa else aa @ spa)
         @ (if mem_less snonce anonce then snonce @ anonce else anonce @ snonce)) 64)
    \<and> derivePTK c pmk snonce anonce aa spa = derivePTK c pmk anonce snonce spa aa"
proof -
  have "drop 23 (ptk_data anonce snonce spa aa) = (if mem_less spa aa then spa @ aa else aa @ spa)
      @ (if mem_less snonce anonce then snonce @ anonce else anonce @ snonce)"
    by (simp add: ptk_data_def ptk_label_def)
  moreover have "derivePTK c pmk snonce anonce aa spa = derivePTK c pmk anonce snonce spa aa"
    using ptk_data_swap [of spa aa snonce anonce] assms(6-9) by (simp add: derivePTK_def)
  moreover have "length (std_pbkdf2 pass (take n ssid) 4095 32) = 32" by (simp add: std_pbkdf2_def)
  ultimately show ?thesis using derivePMK_std [OF assms(1-4)] derivePTK_std [OF assms(1,5-9)] by simp
qed

definition demo_stack :: KERN_SHA1_CTX where
  "demo_stack = \<lparr>sha_state = [], sha_count = (0, 0), sha_buffer = replicate 64 0\<rparr>"

theorem wpa_keys_derived_witness:
  "\<exists>pmk. derivePMK demo_stack [112, 119] [104, 105] 2 = Some pmk \<and> length pmk = 32
     \<and> derivePTK demo_stack (replicate 32 1) (replicate 32 2) (replicate 32 3) (replicate 6 4) (replicate 6 5)
       = derivePTK demo_stack (replicate 32 1) (replicate 32 3) (replicate 32 2) (replicate 6 5) (replicate 6 4)"
proof -
  have "sha_stack demo_stack" by (simp add: sha_stack_def demo_stack_def)
  from wpa_keys_derived [OF this, of "[112, 119]" 2 "[104, 105]" "replicate 32 1" "replicate 32 2" "replicate 32 3" "replicate 6 4" "replicate 6 5"]
  show ?thesis by simp
qed

section \<open>The key data\<close>

definition is_gtk :: "u8 \<times> bytes \<Rightarrow> bool" where
  "is_gtk el \<longleftrightarrow> fst el = 0xdd \<and> 6 \<le> length (snd el) \<and> take 4 (snd el) = [0x00, 0x0f, 0xac, 0x01]"

definition enc_el :: "u8 \<times> bytes \<Rightarrow> bytes" where
  "enc_el el = fst el # of_nat (length (snd el)) # snd el"

text \<open>One element at the front of the key data.\<close>

lemma gtk_step:
  assumes "length v \<le> 255"
  shows "extract_gtk_from_kde (enc_el (i, v) @ rest) =
    (if is_gtk (i, v) then (if length v - 6 > 32 then None else Some (drop 6 v, v ! 4 AND 3))
     else extract_gtk_from_kde rest)"
proof -
  have n: "unat (of_nat (length v) :: u8) = length v" using assms by (simp add: unat_of_nat_small)
  show ?thesis
    by (subst extract_gtk_from_kde.simps) (auto simp: enc_el_def n Let_def is_gtk_def block_def nth_append)
qed

lemma kde_cases:
  obtains "length kd < 2 \<or> length kd < 2 + unat (kd ! 1)"
  | i v rest where "kd = enc_el (i, v) @ rest" "length v \<le> 255"
proof (cases "length kd < 2 \<or> length kd < 2 + unat (kd ! 1)")
  case False
  then obtain i l body where kd: "kd = i # l # body" by (cases kd; cases "tl kd") auto
  let ?n = "unat l"
  have b: "?n \<le> length body" using False kd by simp
  have u: "?n \<le> 255" using unsigned_less [of l, where 'a = nat] by simp
  have "kd = enc_el (i, take ?n body) @ drop ?n body" using b by (simp add: kd enc_el_def)
  moreover have "length (take ?n body) \<le> 255" using b u by simp
  ultimately show ?thesis using that(2) by blast
qed (rule that(1))

lemma gtk_short: "length kd < 2 \<or> length kd < 2 + unat (kd ! 1) \<Longrightarrow> extract_gtk_from_kde kd = None"
  by (subst extract_gtk_from_kde.simps) (cases "length kd < 2"; simp add: Let_def)

lemma six_bytes: "6 \<le> length v \<Longrightarrow> v = take 4 v @ [v ! 4, v ! 5] @ drop 6 v"
  using id_take_nth_drop [of 4 v] Cons_nth_drop_Suc [of 5 v] by (simp add: eval_nat_numeral)

definition gtk_format :: "bytes \<Rightarrow> bytes \<Rightarrow> u8 \<Rightarrow> (u8 \<times> bytes) list \<Rightarrow> u8 \<Rightarrow> u8 \<Rightarrow> bytes \<Rightarrow> bool" where
  "gtk_format kd gtk idx els info rsv rest \<longleftrightarrow>
     kd = concat (map enc_el els) @ enc_el (0xdd, [0x00, 0x0f, 0xac, 0x01, info, rsv] @ gtk) @ rest
     \<and> (\<forall>el \<in> set els. length (snd el) \<le> 255 \<and> \<not> is_gtk el) \<and> length gtk \<le> 32 \<and> idx = info AND 3"

lemma gtk_found:
  "extract_gtk_from_kde kd = Some (gtk, idx) \<Longrightarrow> \<exists>els info rsv rest. gtk_format kd gtk idx els info rsv rest"
proof (induction "length kd" arbitrary: kd rule: less_induct)
  case less
  show ?case
  proof (cases kd rule: kde_cases)
    case 1
    then show ?thesis using less.prems gtk_short [of kd] by simp
  next
    case (2 i v rest)
    show ?thesis
    proof (cases "is_gtk (i, v)")
      case True
      then have r: "length v - 6 \<le> 32" "gtk = drop 6 v" "idx = v ! 4 AND 3"
        using less.prems gtk_step [OF 2(2), of i rest] 2(1) by (auto split: if_splits)
      have l: "6 \<le> length v" "take 4 v = [0x00, 0x0f, 0xac, 0x01]" "i = 0xdd" using True by (simp_all add: is_gtk_def)
      have "v = [0x00, 0x0f, 0xac, 0x01, v ! 4, v ! 5] @ gtk" using six_bytes [OF l(1)] l(2) r(2) by simp
      then have "gtk_format kd gtk idx [] (v ! 4) (v ! 5) rest" using 2(1) r l(1,3) by (simp add: gtk_format_def)
      then show ?thesis by blast
    next
      case False
      then have "extract_gtk_from_kde rest = Some (gtk, idx)" using less.prems gtk_step [OF 2(2), of i rest] 2(1) by simp
      moreover have "length rest < length kd" by (simp add: 2(1) enc_el_def)
      ultimately obtain els info rsv rst where "gtk_format rest gtk idx els info rsv rst" using less.hyps by blast
      then have "gtk_format kd gtk idx ((i, v) # els) info rsv rst" using 2 False by (simp add: gtk_format_def)
      then show ?thesis by blast
    qed
  qed
qed

lemma gtk_found_conv:
  assumes "gtk_format kd gtk idx els info rsv rest"
  shows "extract_gtk_from_kde kd = Some (gtk, idx)"
proof -
  have last: "extract_gtk_from_kde (enc_el (0xdd, [0x00, 0x0f, 0xac, 0x01, info, rsv] @ gtk) @ rest) = Some (gtk, idx)"
    using gtk_step [of "[0x00, 0x0f, 0xac, 0x01, info, rsv] @ gtk" "0xdd" rest] assms by (simp add: is_gtk_def gtk_format_def)
  have els: "\<forall>el \<in> set els. length (snd el) \<le> 255 \<and> \<not> is_gtk el" using assms by (simp add: gtk_format_def)
  have "extract_gtk_from_kde (concat (map enc_el els) @ enc_el (0xdd, [0x00, 0x0f, 0xac, 0x01, info, rsv] @ gtk) @ rest)
      = Some (gtk, idx)" using els
  proof (induction els)
    case (Cons el els)
    then show ?case using gtk_step [of "snd el"] by (cases el) simp
  qed (use last in simp)
  then show ?thesis using assms by (simp add: gtk_format_def)
qed

text \<open>
  The group key is found exactly where the standard puts it. \<open>extract_gtk_from_kde\<close> returns a key and
  an index exactly when the key data is a sequence of well-formed elements, none of them a group key
  element, followed by a group key element (vendor specific, selector 00-0F-AC type 1) with that key of at
  most 32 bytes and that index, whatever comes after it.
\<close>

theorem gtk_extraction_exact:
  "extract_gtk_from_kde kd = Some (gtk, idx) \<longleftrightarrow>
     (\<exists>els info rsv rest. kd = concat (map enc_el els) @ enc_el (0xdd, [0x00, 0x0f, 0xac, 0x01, info, rsv] @ gtk) @ rest
        \<and> (\<forall>el \<in> set els. length (snd el) \<le> 255 \<and> \<not> is_gtk el) \<and> length gtk \<le> 32 \<and> idx = info AND 3)"
  using gtk_found [of kd gtk idx] gtk_found_conv [where kd = kd and gtk = gtk and idx = idx] unfolding gtk_format_def by blast

theorem gtk_extraction_exact_witness:
  "extract_gtk_from_kde ([0x30, 0] @ enc_el (0xdd, [0x00, 0x0f, 0xac, 0x01, 1, 0, 9, 9])) = Some ([9, 9], 1)"
  by (rule gtk_extraction_exact [THEN iffD2],
      rule exI [of _ "[(0x30, [])]"], rule exI [of _ 1], rule exI [of _ 0], rule exI [of _ "[]"])
    (simp add: enc_el_def is_gtk_def)

end
