(* ===== verification/Stack.thy ===== *)
theory Stack
  imports BssScan RxReorder Wpa MacFrames
begin

text \<open>
  The state of the class \<open>RTW88IEEE80211\<close> (its data members, in the order of the class), the driver it
  calls, and the record of the calls it makes. Every member function of the class is a function on this
  state. The driver's operations belong to the rtw88 sources: their presence and results are the
  argument \<open>driver\<close>, and each call is appended to \<open>k_fx\<close> in the order the code makes it. Kernel calls that can
  fail (memory, packet buffers) take their answer from \<open>k_answers\<close>, any list of booleans; past its end
  they succeed. A read or write outside a buffer is \<open>None\<close>.
\<close>

datatype RTW88State =
  RTW88_STATE_IDLE | RTW88_STATE_SCANNING | RTW88_STATE_AUTHENTICATING | RTW88_STATE_ASSOCIATING
  | RTW88_STATE_HANDSHAKING | RTW88_STATE_CONNECTED | RTW88_STATE_DISCONNECTING

section \<open>Frames and calls\<close>

text \<open>A received \<open>sk_buff\<close>: the bytes at \<open>skb->data\<close> and the receive status in its control block.\<close>

record rx_skb =
  f_data :: bytes
  f_rxs :: ieee80211_rx_status

text \<open>The transmit information the code writes for a frame; \<open>tm_sta\<close>: the frame is for the peer station.\<close>

record tx_meta =
  tm_flags :: u32
  tm_band :: nl80211_band
  tm_sta :: bool
  tm_key :: "ieee80211_key_conf option"
  tm_protocol :: u16

datatype fx =
    FxTx bytes tx_meta
  | FxSetKey set_key_cmd bool ieee80211_key_conf
  | FxStaAdd ieee80211_sta
  | FxStaRemove
  | FxBssInfo bool u64
  | FxCancelHwScan
  | FxHwScan "ieee80211_channel list"
  | FxHwStart
  | FxHwStop
  | FxAddInterface
  | FxRemoveInterface
  | FxFilter u32 u32
  | FxConnectSetup bytes
  | FxRestoreHw bytes
  | FxSwScanStart
  | FxSwScanSwitch ieee80211_channel
  | FxSwScanComplete
  | FxAwdlSwitch ieee80211_channel
  | FxInject bytes
  | FxInjectAwdl bytes
  | FxInjectAction bytes int u16
  | FxLink bool
  | FxTimer nat
  | FxTimerCancel
  | FxReorderArm
  | FxReorderCancel
  | FxEnterConnect
  | FxEnterScan
  | FxDrainConnect
  | FxDrainScan
  | FxScanDone bool
  | FxProbe
  | FxRegisterVif
  | FxUnregisterVif
  | FxRemove
  | FxFreeMbuf
  | FxFreeSkb

section \<open>The driver\<close>

text \<open>
  The members of \<open>hw->ops\<close> the class uses: absent pointers are \<open>False\<close> or \<open>None\<close>; otherwise the result of the
  call. \<open>d_set_key\<close> also gives the hardware key index the driver writes.
\<close>

record driver =
  d_ops :: bool
  d_tx :: bool
  d_start :: "int option"
  d_stop :: bool
  d_add_interface :: "int option"
  d_remove_interface :: bool
  d_configure_filter :: bool
  d_sta_add :: bool
  d_sta_remove :: bool
  d_bss_info_changed :: bool
  d_set_key :: "(set_key_cmd \<Rightarrow> ieee80211_key_conf \<Rightarrow> int \<times> u8) option"
  d_hw_scan :: "int option"
  d_cancel_hw_scan :: bool
  d_scanning :: bool
  d_scan_supported :: bool

text \<open>What the class reads and writes of \<open>struct ieee80211_hw\<close>: the bands of \<open>wiphy\<close> and \<open>conf.chandef\<close>.\<close>

record hw_view =
  h_bands :: "ieee80211_supported_band option list option"
  h_chandef :: cfg80211_chan_def

text \<open>A station and an interface from \<open>IOMallocZero\<close>.\<close>

definition zero_ht_cap :: ieee80211_sta_ht_cap where
  "zero_ht_cap = \<lparr>ht_cap_bits = 0, ht_supported = False, ampdu_factor = 0, ampdu_density = 0,
     ht_mcs = \<lparr>mcs_rx_mask = replicate 10 0, mcs_rx_highest = 0, mcs_tx_params = 0\<rparr>\<rparr>"

definition zero_vht_cap :: ieee80211_sta_vht_cap where
  "zero_vht_cap = \<lparr>vht_supported = False, vht_cap_bits = 0,
     vht_mcs = \<lparr>vm_rx_mcs_map = 0, vm_rx_highest = 0, vm_tx_mcs_map = 0, vm_tx_highest = 0\<rparr>\<rparr>"

definition zero_sta :: ieee80211_sta where
  "zero_sta = \<lparr>sta_addr = replicate 6 0, sta_aid = 0, sta_wme = False, sta_mfp = False, sta_tdls = False,
     sta_max_rc_amsdu_len = 0, sta_txq = replicate 17 0,
     sta_deflink_of = \<lparr>dl_ht_cap = zero_ht_cap, dl_vht_cap = zero_vht_cap, dl_supp_rates = [0, 0, 0],
       dl_bandwidth = IEEE80211_STA_RX_BW_20, dl_agg_max_rc_amsdu_len = 0\<rparr>\<rparr>"

definition zero_vif :: ieee80211_vif where
  "zero_vif = \<lparr>vif_type = NL80211_IFTYPE_UNSPECIFIED,
     vif_bss_conf = \<lparr>bc_bssid = [], bc_bssid_buf = replicate 6 0, bc_assoc = False, bc_ibss_joined = False,
       bc_aid = 0, bc_use_cts_prot = False, bc_use_short_preamble = False, bc_use_short_slot = False,
       bc_enable_beacon = False, bc_dtim_period = 0, bc_beacon_int = 0, bc_assoc_capability = 0, bc_sync_tsf = 0,
       bc_sync_device_ts = 0, bc_sync_dtim_count = 0, bc_basic_rates = 0, bc_mcast_rate = [0, 0, 0],
       bc_ht_operation_mode = 0, bc_cqm_rssi_thold = 0, bc_cqm_rssi_hyst = 0, bc_cqm_rssi_low = 0,
       bc_cqm_rssi_high = 0, bc_chandef_chan = None, bc_chandef_width = 0, bc_qos = False, bc_hidden_ssid = False,
       bc_txpower = 0, bc_p2p_noa_attr = False, bc_p2p_oppps_ctwindow = 0,
       bc_mu_group = \<lparr>mg_membership = replicate 8 0, mg_position = replicate 16 0\<rparr>\<rparr>,
     vif_cfg_of = \<lparr>vc_assoc = False, vc_aid = 0, vc_ssid_len = 0, vc_ssid = replicate 32 0, vc_ps = False\<rparr>,
     vif_txq = 0, vif_addr = replicate 6 0, vif_p2p = False, vif_driver_flags = 0\<rparr>"

section \<open>The class\<close>

record RTW88IEEE80211 =
  k_delegate :: bool
  k_connectTC :: bool
  k_manualScanTC :: bool
  k_parent :: bool
  k_rtwdev :: bool
  k_hw :: "hw_view option"
  k_vif :: "ieee80211_vif option"
  k_sta :: "ieee80211_sta option"
  k_state :: RTW88State
  k_connectCancelled :: bool
  k_deauthReason :: u32
  k_scanReturnState :: RTW88State
  k_powered :: bool
  k_pmkProvided :: bool
  k_externalSupplicant :: bool
  k_receiveMulticast :: bool
  k_awdlReceiveMode :: bool
  k_awdlChannel :: u16
  k_macAddr :: bytes
  k_timeoutMs :: u32
  k_scan :: scan_db
  k_scanRequest :: bool
  k_manualScanChannels :: "ieee80211_channel list"
  k_manualScanChannelCount :: u32
  k_manualScanAbort :: bool
  k_manualScanOnHomeChannel :: bool
  k_targetBSS :: RTW88BSS
  k_password :: bytes
  k_pmk :: bytes
  k_ptk :: bytes
  k_ptkConf :: "ieee80211_key_conf option"
  k_gtkConf :: "ieee80211_key_conf option"
  k_anonce :: bytes
  k_snonce :: bytes
  k_replayCtr :: bytes
  k_ccmpTxPn :: bytes
  k_wpa2 :: bool
  k_assocRsnIE :: bytes
  k_assocRsnIELen :: u16
  k_txSeq :: u16
  k_dataSeq :: u16
  k_awdlDataSeq :: u16
  k_assocAID :: u16
  k_txBaActive :: bool
  k_baTid :: u8
  k_connChanWidth :: u8
  k_baDialog :: u8
  k_baBufSize :: u16
  k_rxBa :: "rx_skb rx_ba"
  k_rssi :: int
  k_rxFrameCount :: u32
  k_fx :: "fx list"
  k_answers :: "bool list"

definition emit :: "fx \<Rightarrow> RTW88IEEE80211 \<Rightarrow> RTW88IEEE80211" where
  "emit e s = s\<lparr>k_fx := k_fx s @ [e]\<rparr>"

text \<open>The answer of the next kernel call that can fail.\<close>

definition ask :: "RTW88IEEE80211 \<Rightarrow> bool \<times> RTW88IEEE80211" where
  "ask s = (case k_answers s of [] \<Rightarrow> (True, s) | a # as \<Rightarrow> (a, s\<lparr>k_answers := as\<rparr>))"

definition answer :: "RTW88IEEE80211 \<Rightarrow> bool" where
  "answer s = (k_answers s = [] \<or> hd (k_answers s))"

lemma ask_eq [simp]: "ask s = (answer s, s\<lparr>k_answers := tl (k_answers s)\<rparr>)"
  by (cases "k_answers s") (simp_all add: ask_def answer_def)

text \<open>\<open>_hw && _hw->ops\<close>\<close>

definition has_ops :: "driver \<Rightarrow> RTW88IEEE80211 \<Rightarrow> bool" where
  "has_ops d s \<longleftrightarrow> k_hw s \<noteq> None \<and> d_ops d"

text \<open>The arrays of the class have their lengths, and the target network is a well-formed entry.\<close>

definition stack_ok :: "RTW88IEEE80211 \<Rightarrow> bool" where
  "stack_ok s \<longleftrightarrow> length (k_macAddr s) = 6 \<and> bss_ok (k_targetBSS s) \<and> length (k_pmk s) = 32 \<and> length (k_ptk s) = 64
     \<and> length (k_anonce s) = 32 \<and> length (k_snonce s) = 32 \<and> length (k_replayCtr s) = 8
     \<and> length (k_ccmpTxPn s) = 6 \<and> length (k_assocRsnIE s) = 257 \<and> length (k_password s) = 64"

lemma stack_okD:
  assumes "stack_ok s"
  shows "length (k_macAddr s) = 6" "bss_ok (k_targetBSS s)" "length (b_bssid (k_targetBSS s)) = 6"
    "length (k_pmk s) = 32" "length (k_ptk s) = 64" "length (k_anonce s) = 32" "length (k_snonce s) = 32"
    "length (k_replayCtr s) = 8" "length (k_ccmpTxPn s) = 6" "length (k_assocRsnIE s) = 257"
  using assms by (auto simp: stack_ok_def elim: bss_okE)

lemma emit_sel [simp]:
  "k_fx (emit e s) = k_fx s @ [e]" "stack_ok (emit e s) = stack_ok s"
  "k_delegate (emit e s) = k_delegate s" "k_connectTC (emit e s) = k_connectTC s" "k_manualScanTC (emit e s) = k_manualScanTC s"
  "k_parent (emit e s) = k_parent s" "k_rtwdev (emit e s) = k_rtwdev s" "k_hw (emit e s) = k_hw s" "k_vif (emit e s) = k_vif s"
  "k_sta (emit e s) = k_sta s" "k_state (emit e s) = k_state s" "k_connectCancelled (emit e s) = k_connectCancelled s"
  "k_deauthReason (emit e s) = k_deauthReason s" "k_scanReturnState (emit e s) = k_scanReturnState s"
  "k_powered (emit e s) = k_powered s" "k_pmkProvided (emit e s) = k_pmkProvided s"
  "k_externalSupplicant (emit e s) = k_externalSupplicant s" "k_receiveMulticast (emit e s) = k_receiveMulticast s"
  "k_awdlReceiveMode (emit e s) = k_awdlReceiveMode s" "k_awdlChannel (emit e s) = k_awdlChannel s"
  "k_macAddr (emit e s) = k_macAddr s" "k_timeoutMs (emit e s) = k_timeoutMs s" "k_scan (emit e s) = k_scan s"
  "k_scanRequest (emit e s) = k_scanRequest s" "k_manualScanChannels (emit e s) = k_manualScanChannels s"
  "k_manualScanChannelCount (emit e s) = k_manualScanChannelCount s" "k_manualScanAbort (emit e s) = k_manualScanAbort s"
  "k_manualScanOnHomeChannel (emit e s) = k_manualScanOnHomeChannel s" "k_targetBSS (emit e s) = k_targetBSS s"
  "k_password (emit e s) = k_password s" "k_pmk (emit e s) = k_pmk s" "k_ptk (emit e s) = k_ptk s"
  "k_ptkConf (emit e s) = k_ptkConf s" "k_gtkConf (emit e s) = k_gtkConf s" "k_anonce (emit e s) = k_anonce s"
  "k_snonce (emit e s) = k_snonce s" "k_replayCtr (emit e s) = k_replayCtr s" "k_ccmpTxPn (emit e s) = k_ccmpTxPn s"
  "k_wpa2 (emit e s) = k_wpa2 s" "k_assocRsnIE (emit e s) = k_assocRsnIE s" "k_assocRsnIELen (emit e s) = k_assocRsnIELen s"
  "k_txSeq (emit e s) = k_txSeq s" "k_dataSeq (emit e s) = k_dataSeq s" "k_awdlDataSeq (emit e s) = k_awdlDataSeq s"
  "k_assocAID (emit e s) = k_assocAID s" "k_txBaActive (emit e s) = k_txBaActive s" "k_baTid (emit e s) = k_baTid s"
  "k_connChanWidth (emit e s) = k_connChanWidth s" "k_baDialog (emit e s) = k_baDialog s" "k_baBufSize (emit e s) = k_baBufSize s"
  "k_rxBa (emit e s) = k_rxBa s" "k_rssi (emit e s) = k_rssi s" "k_rxFrameCount (emit e s) = k_rxFrameCount s"
  "k_answers (emit e s) = k_answers s"
  by (simp_all add: emit_def stack_ok_def)

definition WLAN_REASON_DEAUTH_LEAVING :: u8 where "WLAN_REASON_DEAUTH_LEAVING = 3"

end
