(* ===== verification/TxPath.thy ===== *)
theory TxPath
  imports Stack
begin

text \<open>
  The transmit functions of \<open>RTW88IEEE80211.cpp\<close>. A packet buffer from the network stack is its bytes; an
  \<open>sk_buff\<close> is allocated with 128 bytes of head room and filled by successive \<open>skb_put\<close> calls:
  \<open>skb_frame cap parts\<close> is its contents, \<open>None\<close> when the parts leave the \<open>cap\<close> bytes asked for.
\<close>

definition IEEE80211_FCTL_PM :: u16 where "IEEE80211_FCTL_PM = 0x1000"
definition IEEE80211_STYPE_PROBE_REQ :: u16 where "IEEE80211_STYPE_PROBE_REQ = 0x0040"
definition IEEE80211_STYPE_NULLFUNC :: u16 where "IEEE80211_STYPE_NULLFUNC = 0x0040"
definition IEEE80211_STYPE_QOS_DATA :: u16 where "IEEE80211_STYPE_QOS_DATA = 0x0080"
definition IEEE80211_QOS_CTL_TID_MASK :: u8 where "IEEE80211_QOS_CTL_TID_MASK = 0x0f"
definition IEEE80211_TX_CTL_NO_ACK :: u32 where "IEEE80211_TX_CTL_NO_ACK = 0x4"
definition IEEE80211_TX_CTL_FIRST_FRAGMENT :: u32 where "IEEE80211_TX_CTL_FIRST_FRAGMENT = 0x10"
definition IEEE80211_TX_CTL_AMPDU :: u32 where "IEEE80211_TX_CTL_AMPDU = 0x40"
definition WLAN_EID_SUPP_RATES :: u8 where "WLAN_EID_SUPP_RATES = 1"
definition ETH_P_PAE :: u16 where "ETH_P_PAE = 0x888E"

section \<open>Building frames\<close>

definition skb_frame :: "nat \<Rightarrow> bytes list \<Rightarrow> bytes option" where
  "skb_frame cap parts = (if length (concat parts) \<le> cap then Some (concat parts) else None)"

definition be16_of :: "u8 \<Rightarrow> u8 \<Rightarrow> u16" where
  "be16_of hi lo = le16_of lo hi"

definition be16_bytes :: "u16 \<Rightarrow> bytes" where
  "be16_bytes v = [hi8 v, lo8 v]"

text \<open>\<open>cpu_to_le16 ((uint16_t)(seq & 0xFFF) << 4)\<close>\<close>

definition seq_ctrl_of :: "u16 \<Rightarrow> u16" where
  "seq_ctrl_of q = push_bit 4 (q AND 0xFFF)"

definition hdr3 :: "u16 \<Rightarrow> bytes \<Rightarrow> bytes \<Rightarrow> bytes \<Rightarrow> u16 \<Rightarrow> bytes" where
  "hdr3 fc a1 a2 a3 seq = hdr_3addr_bytes \<lparr>h3_frame_control = fc, h3_duration_id = 0, h3_addr1 = a1, h3_addr2 = a2,
     h3_addr3 = a3, h3_seq_ctrl = seq\<rparr>"

definition next_txSeq :: "RTW88IEEE80211 \<Rightarrow> RTW88IEEE80211" where
  "next_txSeq s = s\<lparr>k_txSeq := k_txSeq s + 1\<rparr>"

definition band_of :: "u8 \<Rightarrow> nl80211_band" where
  "band_of c = (if c > 14 then NL80211_BAND_5GHZ else NL80211_BAND_2GHZ)"

definition is5g :: "RTW88IEEE80211 \<Rightarrow> bool" where
  "is5g s = (case k_hw s of None \<Rightarrow> False
             | Some h \<Rightarrow> (case cd_chan (h_chandef h) of None \<Rightarrow> False | Some c \<Rightarrow> ch_band c = NL80211_BAND_5GHZ))"

section \<open>Management frames\<close>

definition txMgmtFrame :: "driver \<Rightarrow> bytes \<Rightarrow> RTW88IEEE80211 \<Rightarrow> bool \<times> RTW88IEEE80211" where
  "txMgmtFrame d frame s =
     (if \<not> has_ops d s \<or> \<not> d_tx d then (False, s)
      else let (ok, s) = ask s
      in if \<not> ok then (False, s)
         else (True, emit (FxTx frame \<lparr>tm_flags = IEEE80211_TX_CTL_FIRST_FRAGMENT OR IEEE80211_TX_CTL_NO_ACK,
                     tm_band = NL80211_BAND_2GHZ, tm_sta = False, tm_key = None, tm_protocol = 0\<rparr>) s))"

definition txRawManagementFrame :: "driver \<Rightarrow> bytes option \<Rightarrow> RTW88IEEE80211 \<Rightarrow> bool \<times> RTW88IEEE80211" where
  "txRawManagementFrame d frame s =
     (case frame of None \<Rightarrow> (False, s)
      | Some f \<Rightarrow> if length f < 24 \<or> length f > 4096 then (False, s)
                  else if le16_of (f ! 0) (f ! 1) AND 0x000c \<noteq> 0 then (False, s)
                  else txMgmtFrame d f s)"

definition txNullFunc :: "driver \<Rightarrow> bool \<Rightarrow> RTW88IEEE80211 \<Rightarrow> bool \<times> RTW88IEEE80211" where
  "txNullFunc d powerSave s =
     (if \<not> has_ops d s \<or> \<not> d_tx d \<or> k_vif s = None \<or> k_sta s = None then (False, s)
      else let (ok, s) = ask s
      in if \<not> ok then (False, s)
         else let fc = IEEE80211_FTYPE_DATA OR IEEE80211_STYPE_NULLFUNC OR IEEE80211_FCTL_TODS;
                  fc = (if powerSave then fc OR IEEE80211_FCTL_PM else fc);
                  ap = b_bssid (k_targetBSS s);
                  f = hdr3 fc ap (k_macAddr s) ap (seq_ctrl_of (k_txSeq s))
              in (True, emit (FxTx f \<lparr>tm_flags = IEEE80211_TX_CTL_FIRST_FRAGMENT,
                   tm_band = band_of (b_channel (k_targetBSS s)), tm_sta = True, tm_key = None, tm_protocol = 0\<rparr>)
                   (next_txSeq s)))"

definition rates_2g :: bytes where
  "rates_2g = [0x82, 0x84, 0x8b, 0x96, 0x0c, 0x12, 0x18, 0x24]"

definition rates_5g :: bytes where
  "rates_5g = [0x8c, 0x12, 0x98, 0x24, 0x30, 0x48, 0x60, 0x6c]"

text \<open>The frame is built in a local array of 128 bytes.\<close>

definition txProbeRequest :: "driver \<Rightarrow> RTW88IEEE80211 \<Rightarrow> (bool \<times> RTW88IEEE80211) option" where
  "txProbeRequest d s =
     (if \<not> has_ops d s \<or> \<not> d_tx d then Some (False, s)
      else let rates = (if is5g s then rates_5g else rates_2g);
               h = hdr3 (IEEE80211_FTYPE_MGMT OR IEEE80211_STYPE_PROBE_REQ) (replicate 6 0xff) (k_macAddr s)
                     (replicate 6 0xff) (seq_ctrl_of (k_txSeq s))
      in do { f \<leftarrow> skb_frame 128 [h, [WLAN_EID_SSID, 0], [WLAN_EID_SUPP_RATES, of_nat (length rates)] @ rates];
              Some (txMgmtFrame d f (next_txSeq s)) })"

section \<open>Data frames\<close>

definition htAllowed :: "RTW88IEEE80211 \<Rightarrow> bool" where
  "htAllowed s \<longleftrightarrow> b_cipher (k_targetBSS s) \<noteq> WLAN_CIPHER_SUITE_TKIP \<and> b_group_cipher (k_targetBSS s) \<noteq> WLAN_CIPHER_SUITE_TKIP"

definition llc_snap :: "u16 \<Rightarrow> bytes" where
  "llc_snap ethertype = [0xAA, 0xAA, 0x03, 0x00, 0x00, 0x00] @ be16_bytes ethertype"

text \<open>The 48-bit packet number, its first byte the least significant.\<close>

fun pn_incr :: "bytes \<Rightarrow> bytes" where
  "pn_incr [] = []"
| "pn_incr (b # bs) = (if b + 1 \<noteq> 0 then (b + 1) # bs else (b + 1) # pn_incr bs)"

definition ccmp_header :: "bytes \<Rightarrow> int \<Rightarrow> bytes" where
  "ccmp_header pn keyidx =
     [pn ! 0, pn ! 1, 0x00, 0x20 OR push_bit 6 (of_int keyidx AND 0x3), pn ! 2, pn ! 3, pn ! 4, pn ! 5]"

text \<open>\<open>m\<close>: the Ethernet frame. Two kernel calls copy from it: the header, then the payload.\<close>

definition free_m :: "RTW88IEEE80211 \<Rightarrow> RTW88IEEE80211" where
  "free_m s = emit FxFreeMbuf s"

definition tx_protected :: "u16 \<Rightarrow> RTW88IEEE80211 \<Rightarrow> bool" where
  "tx_protected ethertype s \<longleftrightarrow> k_wpa2 s \<and> k_ptkConf s \<noteq> None \<and> ethertype \<noteq> ETH_P_PAE"

definition data_fc :: "bool \<Rightarrow> bool \<Rightarrow> u16" where
  "data_fc qos prot =
     (let fc = IEEE80211_FTYPE_DATA OR IEEE80211_FCTL_TODS;
          fc = (if qos then fc OR IEEE80211_STYPE_QOS_DATA else fc)
      in if prot then fc OR IEEE80211_FCTL_PROTECTED else fc)"

text \<open>The sequence number of a data frame and the counter it is taken from; the packet number of a protected one.\<close>

definition take_seq :: "bool \<Rightarrow> RTW88IEEE80211 \<Rightarrow> u16 \<times> RTW88IEEE80211" where
  "take_seq qos s = (if qos then (k_dataSeq s, s\<lparr>k_dataSeq := k_dataSeq s + 1\<rparr>) else (k_txSeq s, next_txSeq s))"

definition take_pn :: "bool \<Rightarrow> RTW88IEEE80211 \<Rightarrow> bytes \<times> RTW88IEEE80211" where
  "take_pn prot s =
     (case k_ptkConf s of
        Some key \<Rightarrow> if prot then (let pn = pn_incr (k_ccmpTxPn s) in (ccmp_header pn (kc_keyidx key), s\<lparr>k_ccmpTxPn := pn\<rparr>))
                    else ([], s)
      | None \<Rightarrow> ([], s))"

definition data_meta :: "bool \<Rightarrow> bool \<Rightarrow> u16 \<Rightarrow> RTW88IEEE80211 \<Rightarrow> tx_meta" where
  "data_meta qos prot ethertype s =
     \<lparr>tm_flags = (if qos \<and> k_txBaActive s then IEEE80211_TX_CTL_FIRST_FRAGMENT OR IEEE80211_TX_CTL_AMPDU
                  else IEEE80211_TX_CTL_FIRST_FRAGMENT),
      tm_band = band_of (b_channel (k_targetBSS s)), tm_sta = True, tm_key = (if prot then k_ptkConf s else None),
      tm_protocol = ethertype\<rparr>"

text \<open>From the header to the call of \<open>tx\<close>, once the \<open>sk_buff\<close> is allocated.\<close>

definition tx_data_send :: "bool \<Rightarrow> bool \<Rightarrow> u16 \<Rightarrow> bytes \<Rightarrow> RTW88IEEE80211 \<Rightarrow> (bool \<times> RTW88IEEE80211) option" where
  "tx_data_send qos prot ethertype m s =
     (let paylen = length m - 14;
          framelen = (if qos then 26 else 24) + (if prot then 8 else 0) + 8 + paylen;
          (q, s) = take_seq qos s;
          h = hdr3 (data_fc qos prot) (b_bssid (k_targetBSS s)) (k_macAddr s) (take 6 m) (seq_ctrl_of q);
          qosc = (if qos then [k_baTid s AND IEEE80211_QOS_CTL_TID_MASK, 0] else []);
          (ccmp, s) = take_pn prot s;
          (ok, s) = (if paylen \<noteq> 0 then ask s else (True, s))
      in do { f \<leftarrow> skb_frame framelen [h, qosc, ccmp, llc_snap ethertype, drop 14 m];
              if \<not> ok then Some (False, free_m s)
              else Some (True, free_m (emit (FxTx f (data_meta qos prot ethertype s)) s)) })"

definition txDataFrame :: "driver \<Rightarrow> bytes \<Rightarrow> RTW88IEEE80211 \<Rightarrow> (bool \<times> RTW88IEEE80211) option" where
  "txDataFrame d m s =
     (if \<not> has_ops d s \<or> \<not> d_tx d \<or> k_vif s = None \<or> k_sta s = None then Some (False, free_m s)
      else if length m < 14 \<or> length m > 2048 then Some (False, free_m s)
      else let (ok, s) = ask s
      in if \<not> ok then Some (False, free_m s)
      else let ethertype = be16_of (m ! 12) (m ! 13);
               (ok, s) = ask s
      in if \<not> ok then Some (False, free_m s)
      else tx_data_send (htAllowed s) (tx_protected ethertype s) ethertype m s)"

definition awdlBssid :: bytes where
  "awdlBssid = [0x00, 0x25, 0x00, 0xff, 0x94, 0x73]"

definition awdl_snap :: bytes where
  "awdl_snap = [0xaa, 0xaa, 0x03, 0x00, 0x17, 0xf2, 0x08, 0x00]"

definition txAWDLDataFrame :: "driver \<Rightarrow> bytes option \<Rightarrow> RTW88IEEE80211 \<Rightarrow> (bool \<times> RTW88IEEE80211) option" where
  "txAWDLDataFrame d mo s =
     (case mo of None \<Rightarrow> Some (False, s)
      | Some m \<Rightarrow>
        if \<not> has_ops d s \<or> \<not> d_tx d \<or> k_vif s = None then Some (False, free_m s)
        else if length m < 14 \<or> length m > 4096 then Some (False, free_m s)
        else let (ok, s) = ask s
        in if \<not> ok then Some (False, free_m s)
        else let ethertype = be16_of (m ! 12) (m ! 13);
                 paylen = length m - 14;
                 framelen = 24 + 8 + 8 + paylen;
                 (ok, s) = ask s
        in if \<not> ok then Some (False, free_m s)
        else let h = hdr3 IEEE80211_FTYPE_DATA (take 6 m) (block m 6 6) awdlBssid (seq_ctrl_of (k_txSeq s));
                 s = next_txSeq s;
                 q = k_awdlDataSeq s;
                 s = s\<lparr>k_awdlDataSeq := q + 1\<rparr>;
                 aw = [0x03, 0x04, lo8 q, hi8 q, 0, 0] @ be16_bytes ethertype;
                 (ok, s) = (if paylen \<noteq> 0 then ask s else (True, s))
        in do { f \<leftarrow> skb_frame framelen [h, awdl_snap, aw, drop 14 m];
                if \<not> ok then Some (False, free_m s)
                else Some (True, free_m (emit (FxTx f \<lparr>tm_flags = IEEE80211_TX_CTL_FIRST_FRAGMENT,
                   tm_band = (if is5g s then NL80211_BAND_5GHZ else NL80211_BAND_2GHZ), tm_sta = False, tm_key = None,
                   tm_protocol = ethertype\<rparr>) s)) })"

definition outputPacket :: "driver \<Rightarrow> bytes \<Rightarrow> RTW88IEEE80211 \<Rightarrow> (bool \<times> RTW88IEEE80211) option" where
  "outputPacket d m s =
     (let connected = (k_state s = RTW88_STATE_CONNECTED
            \<or> (k_state s = RTW88_STATE_SCANNING \<and> k_scanReturnState s = RTW88_STATE_CONNECTED
               \<and> (k_manualScanChannelCount s = 0 \<or> k_manualScanOnHomeChannel s)))
      in if \<not> connected \<or> \<not> k_rtwdev s \<or> k_hw s = None \<or> k_vif s = None \<or> k_sta s = None
         then Some (False, free_m s)
         else txDataFrame d m s)"

section \<open>The receiving end\<close>

text \<open>
  What an access point reads from a data frame: receiver, transmitter and destination address, the CCMP
  packet number of a protected frame, the protocol and the payload.
\<close>

record msdu =
  md_receiver :: bytes
  md_transmitter :: bytes
  md_destination :: bytes
  md_pn :: "bytes option"
  md_protocol :: u16
  md_payload :: bytes

definition ap_decap :: "bytes \<Rightarrow> msdu option" where
  "ap_decap f =
     do { fc \<leftarrow> frame_control_of f;
          let h = hdrlen_of_fc fc in
          let c = (if ieee80211_has_protected fc then h + 8 else h) in
          if length f < c + 8 \<or> block f c 6 \<noteq> [0xAA, 0xAA, 0x03, 0, 0, 0] then None
          else Some \<lparr>md_receiver = block f 4 6, md_transmitter = block f 10 6, md_destination = block f 16 6,
                     md_pn = (if ieee80211_has_protected fc then Some (block f h 2 @ block f (h + 4) 4) else None),
                     md_protocol = be16_of (f ! (c + 6)) (f ! (c + 7)), md_payload = drop (c + 8) f\<rparr> }"

definition data_frame :: "bytes \<Rightarrow> RTW88IEEE80211 \<Rightarrow> bytes" where
  "data_frame m s =
     (let ethertype = be16_of (m ! 12) (m ! 13); prot = tx_protected ethertype s; qos = htAllowed s
      in concat [hdr3 (data_fc qos prot) (b_bssid (k_targetBSS s)) (k_macAddr s) (take 6 m) (seq_ctrl_of (fst (take_seq qos s))),
                 if qos then [k_baTid s AND IEEE80211_QOS_CTL_TID_MASK, 0] else [],
                 fst (take_pn prot s), llc_snap ethertype, drop 14 m])"

lemma length_hdr3 [simp]:
  "length a1 = 6 \<Longrightarrow> length a2 = 6 \<Longrightarrow> length a3 = 6 \<Longrightarrow> length (hdr3 fc a1 a2 a3 q) = 24"
  by (simp add: hdr3_def hdr_3addr_bytes_def)

lemma length_pn_incr [simp]: "length (pn_incr p) = length p"
  by (induction p) simp_all

lemma take_seq_sel [simp]:
  "k_targetBSS (snd (take_seq q s)) = k_targetBSS s" "k_macAddr (snd (take_seq q s)) = k_macAddr s"
  "k_baTid (snd (take_seq q s)) = k_baTid s" "k_ptkConf (snd (take_seq q s)) = k_ptkConf s"
  "k_ccmpTxPn (snd (take_seq q s)) = k_ccmpTxPn s" "k_fx (snd (take_seq q s)) = k_fx s"
  "k_txBaActive (snd (take_seq q s)) = k_txBaActive s" "stack_ok (snd (take_seq q s)) = stack_ok s"
  by (simp_all add: take_seq_def next_txSeq_def stack_ok_def)

lemma take_pn_sel [simp]:
  "k_targetBSS (snd (take_pn b s)) = k_targetBSS s" "k_ptkConf (snd (take_pn b s)) = k_ptkConf s"
  "k_fx (snd (take_pn b s)) = k_fx s" "k_txBaActive (snd (take_pn b s)) = k_txBaActive s"
  "stack_ok (snd (take_pn b s)) = stack_ok s"
  by (simp_all add: take_pn_def stack_ok_def Let_def split: option.splits)

lemma take_pn_cong: "k_ptkConf s = k_ptkConf s' \<Longrightarrow> k_ccmpTxPn s = k_ccmpTxPn s' \<Longrightarrow> fst (take_pn b s) = fst (take_pn b s')"
  by (simp add: take_pn_def Let_def split: option.splits)

lemma length_take_pn: "tx_protected e s \<Longrightarrow> length (fst (take_pn True s)) = 8"
  by (auto simp: take_pn_def tx_protected_def Let_def ccmp_header_def)

lemma length_take_pn0: "fst (take_pn False s) = []"
  by (auto simp: take_pn_def split: option.splits)

text \<open>Whatever \<open>txDataFrame\<close> does, it releases the packet once and sends at most the one frame \<open>data_frame\<close>.\<close>

text \<open>The part of the state no transmit function changes.\<close>

definition tx_core :: "RTW88IEEE80211 \<Rightarrow> RTW88IEEE80211" where
  "tx_core s = s\<lparr>k_txSeq := 0, k_dataSeq := 0, k_ccmpTxPn := [], k_fx := [], k_answers := []\<rparr>"

lemma tx_core_updates [simp]:
  "tx_core (s\<lparr>k_txSeq := q\<rparr>) = tx_core s" "tx_core (s\<lparr>k_dataSeq := q\<rparr>) = tx_core s"
  "tx_core (s\<lparr>k_ccmpTxPn := p\<rparr>) = tx_core s" "tx_core (s\<lparr>k_fx := f\<rparr>) = tx_core s"
  "tx_core (s\<lparr>k_answers := x\<rparr>) = tx_core s" "tx_core (emit e s) = tx_core s" "tx_core (next_txSeq s) = tx_core s"
  by (simp_all add: tx_core_def emit_def next_txSeq_def)

lemma tx_core_take [simp]: "tx_core (snd (take_seq q s)) = tx_core s" "tx_core (snd (take_pn b s)) = tx_core s"
  by (simp_all add: take_seq_def take_pn_def Let_def split: option.splits)

lemma tx_core_sel:
  "k_delegate (tx_core s) = k_delegate s" "k_connectTC (tx_core s) = k_connectTC s"
  "k_manualScanTC (tx_core s) = k_manualScanTC s" "k_parent (tx_core s) = k_parent s" "k_rtwdev (tx_core s) = k_rtwdev s"
  "k_hw (tx_core s) = k_hw s" "k_vif (tx_core s) = k_vif s" "k_sta (tx_core s) = k_sta s" "k_state (tx_core s) = k_state s"
  "k_connectCancelled (tx_core s) = k_connectCancelled s" "k_deauthReason (tx_core s) = k_deauthReason s"
  "k_scanReturnState (tx_core s) = k_scanReturnState s" "k_powered (tx_core s) = k_powered s"
  "k_pmkProvided (tx_core s) = k_pmkProvided s" "k_externalSupplicant (tx_core s) = k_externalSupplicant s"
  "k_receiveMulticast (tx_core s) = k_receiveMulticast s" "k_awdlReceiveMode (tx_core s) = k_awdlReceiveMode s"
  "k_awdlChannel (tx_core s) = k_awdlChannel s" "k_macAddr (tx_core s) = k_macAddr s" "k_timeoutMs (tx_core s) = k_timeoutMs s"
  "k_scan (tx_core s) = k_scan s" "k_scanRequest (tx_core s) = k_scanRequest s"
  "k_manualScanChannels (tx_core s) = k_manualScanChannels s" "k_manualScanChannelCount (tx_core s) = k_manualScanChannelCount s"
  "k_manualScanAbort (tx_core s) = k_manualScanAbort s" "k_manualScanOnHomeChannel (tx_core s) = k_manualScanOnHomeChannel s"
  "k_targetBSS (tx_core s) = k_targetBSS s" "k_password (tx_core s) = k_password s" "k_pmk (tx_core s) = k_pmk s"
  "k_ptk (tx_core s) = k_ptk s" "k_ptkConf (tx_core s) = k_ptkConf s" "k_gtkConf (tx_core s) = k_gtkConf s"
  "k_anonce (tx_core s) = k_anonce s" "k_snonce (tx_core s) = k_snonce s" "k_replayCtr (tx_core s) = k_replayCtr s"
  "k_wpa2 (tx_core s) = k_wpa2 s" "k_assocRsnIE (tx_core s) = k_assocRsnIE s" "k_assocRsnIELen (tx_core s) = k_assocRsnIELen s"
  "k_awdlDataSeq (tx_core s) = k_awdlDataSeq s" "k_assocAID (tx_core s) = k_assocAID s"
  "k_txBaActive (tx_core s) = k_txBaActive s" "k_baTid (tx_core s) = k_baTid s" "k_connChanWidth (tx_core s) = k_connChanWidth s"
  "k_baDialog (tx_core s) = k_baDialog s" "k_baBufSize (tx_core s) = k_baBufSize s" "k_rxBa (tx_core s) = k_rxBa s"
  "k_rssi (tx_core s) = k_rssi s" "k_rxFrameCount (tx_core s) = k_rxFrameCount s"
  by (simp_all add: tx_core_def)

lemma tx_core_inv: "tx_core s' = tx_core s \<Longrightarrow> (\<And>x. f (tx_core x) = f x) \<Longrightarrow> f s' = f s"
  by metis

lemma tx_coreD:
  assumes "tx_core s' = tx_core s"
  shows
  "k_delegate s' = k_delegate s" "k_connectTC s' = k_connectTC s" "k_manualScanTC s' = k_manualScanTC s"
  "k_parent s' = k_parent s" "k_rtwdev s' = k_rtwdev s" "k_hw s' = k_hw s" "k_vif s' = k_vif s" "k_sta s' = k_sta s"
  "k_state s' = k_state s" "k_connectCancelled s' = k_connectCancelled s" "k_deauthReason s' = k_deauthReason s"
  "k_scanReturnState s' = k_scanReturnState s" "k_powered s' = k_powered s" "k_pmkProvided s' = k_pmkProvided s"
  "k_externalSupplicant s' = k_externalSupplicant s" "k_receiveMulticast s' = k_receiveMulticast s"
  "k_awdlReceiveMode s' = k_awdlReceiveMode s" "k_awdlChannel s' = k_awdlChannel s" "k_macAddr s' = k_macAddr s"
  "k_timeoutMs s' = k_timeoutMs s" "k_scan s' = k_scan s" "k_scanRequest s' = k_scanRequest s"
  "k_manualScanChannels s' = k_manualScanChannels s" "k_manualScanChannelCount s' = k_manualScanChannelCount s"
  "k_manualScanAbort s' = k_manualScanAbort s" "k_manualScanOnHomeChannel s' = k_manualScanOnHomeChannel s"
  "k_targetBSS s' = k_targetBSS s" "k_password s' = k_password s" "k_pmk s' = k_pmk s" "k_ptk s' = k_ptk s"
  "k_ptkConf s' = k_ptkConf s" "k_gtkConf s' = k_gtkConf s" "k_anonce s' = k_anonce s" "k_snonce s' = k_snonce s"
  "k_replayCtr s' = k_replayCtr s" "k_wpa2 s' = k_wpa2 s" "k_assocRsnIE s' = k_assocRsnIE s"
  "k_assocRsnIELen s' = k_assocRsnIELen s" "k_awdlDataSeq s' = k_awdlDataSeq s" "k_assocAID s' = k_assocAID s"
  "k_txBaActive s' = k_txBaActive s" "k_baTid s' = k_baTid s" "k_connChanWidth s' = k_connChanWidth s"
  "k_baDialog s' = k_baDialog s" "k_baBufSize s' = k_baBufSize s" "k_rxBa s' = k_rxBa s" "k_rssi s' = k_rssi s"
  "k_rxFrameCount s' = k_rxFrameCount s"
  by (rule tx_core_inv [OF assms], rule tx_core_sel)+

definition tx_outcome :: "bytes \<Rightarrow> RTW88IEEE80211 \<Rightarrow> bool \<Rightarrow> RTW88IEEE80211 \<Rightarrow> bool" where
  "tx_outcome m s r s' \<longleftrightarrow>
     stack_ok s' \<and> k_state s' = k_state s \<and> tx_core s' = tx_core s
     \<and> (let prot = tx_protected (be16_of (m ! 12) (m ! 13)) s
        in if r then k_fx s' = k_fx s @ [FxTx (data_frame m s) (data_meta (htAllowed s) prot (be16_of (m ! 12) (m ! 13)) s), FxFreeMbuf]
             \<and> 14 \<le> length m \<and> k_ccmpTxPn s' = (if prot then pn_incr (k_ccmpTxPn s) else k_ccmpTxPn s)
           else k_fx s' = k_fx s @ [FxFreeMbuf] \<and> k_ccmpTxPn s' \<in> {k_ccmpTxPn s, pn_incr (k_ccmpTxPn s)})"

lemma take_states [simp]:
  "k_state (snd (take_seq q s)) = k_state s" "k_state (snd (take_pn b s)) = k_state s"
  by (simp_all add: take_seq_def next_txSeq_def take_pn_def Let_def split: option.splits)

lemma take_pn_pn:
  "k_ccmpTxPn (snd (take_pn b s)) = (if b \<and> k_ptkConf s \<noteq> None then pn_incr (k_ccmpTxPn s) else k_ccmpTxPn s)"
  by (auto simp: take_pn_def Let_def split: option.splits)

lemma answers_irrelevant [simp]:
  "tx_protected e (s\<lparr>k_answers := x\<rparr>) = tx_protected e s" "htAllowed (s\<lparr>k_answers := x\<rparr>) = htAllowed s"
  "stack_ok (s\<lparr>k_answers := x\<rparr>) = stack_ok s" "data_meta q p e (s\<lparr>k_answers := x\<rparr>) = data_meta q p e s"
  "fst (take_seq q (s\<lparr>k_answers := x\<rparr>)) = fst (take_seq q s)"
  "fst (take_pn b (s\<lparr>k_answers := x\<rparr>)) = fst (take_pn b s)"
  by (simp_all add: tx_protected_def htAllowed_def stack_ok_def data_meta_def take_seq_def take_pn_def Let_def split: option.splits)

lemma data_meta_take [simp]:
  "data_meta q p e (snd (take_pn b s)) = data_meta q p e s" "data_meta q p e (snd (take_seq c s)) = data_meta q p e s"
  "fst (take_pn b (snd (take_seq c s))) = fst (take_pn b s)"
  by (simp_all add: data_meta_def take_pn_cong [of "snd (take_seq c s)" s])

lemma length_data_frame:
  assumes "stack_ok s" and "14 \<le> length m"
  shows "length (data_frame m s) = (if htAllowed s then 26 else 24) + (if tx_protected (be16_of (m ! 12) (m ! 13)) s then 8 else 0)
     + 8 + (length m - 14)"
proof -
  have h: "length (hdr3 fc (b_bssid (k_targetBSS s)) (k_macAddr s) (take 6 m) q) = 24" for fc q
    using stack_okD(1,3) [OF assms(1)] assms(2) by (intro length_hdr3) simp_all
  have l: "length (llc_snap e) = 8" for e by (simp add: llc_snap_def be16_bytes_def)
  have c: "length (fst (take_pn (tx_protected e s) s)) = (if tx_protected e s then 8 else 0)" for e
    using length_take_pn [of e s] by (cases "tx_protected e s") (simp_all add: length_take_pn0)
  show ?thesis unfolding data_frame_def Let_def by (simp only: concat.simps length_append h l c list.size length_drop append_Nil2) simp
qed

lemma tx_data_send_eq:
  fixes m s
  defines "e \<equiv> be16_of (m ! 12) (m ! 13)"
  assumes ok: "stack_ok s" and m: "14 \<le> length m"
  obtains s3 where
    "tx_data_send (htAllowed s) (tx_protected e s) e m s =
       (let sent = (length m = 14 \<or> answer s)
        in Some (sent, free_m (if sent then emit (FxTx (data_frame m s) (data_meta (htAllowed s) (tx_protected e s) e s)) s3 else s3)))"
    "stack_ok s3" "tx_core s3 = tx_core s" "k_fx s3 = k_fx s" "k_answers s = [] \<Longrightarrow> k_answers s3 = []"
    "k_ccmpTxPn s3 = (if tx_protected e s then pn_incr (k_ccmpTxPn s) else k_ccmpTxPn s)"
proof -
  let ?q = "htAllowed s" and ?p = "tx_protected e s"
  define s2 where "s2 = snd (take_pn ?p (snd (take_seq ?q s)))"
  define s3 where "s3 = (if length m - 14 \<noteq> 0 then s2\<lparr>k_answers := tl (k_answers s2)\<rparr> else s2)"
  have a: "k_answers s2 = k_answers s" by (simp add: s2_def take_seq_def next_txSeq_def take_pn_def Let_def split: option.splits)
  then have a': "answer s2 = answer s" by (simp add: answer_def)
  have frame: "skb_frame ((if ?q then 26 else 24) + (if ?p then 8 else 0) + 8 + (length m - 14))
     [hdr3 (data_fc ?q ?p) (b_bssid (k_targetBSS s)) (k_macAddr s) (take 6 m) (seq_ctrl_of (fst (take_seq ?q s))),
      if ?q then [k_baTid s AND IEEE80211_QOS_CTL_TID_MASK, 0] else [],
      fst (take_pn ?p s), llc_snap e, drop 14 m] = Some (data_frame m s)"
    using length_data_frame [OF ok m] unfolding skb_frame_def data_frame_def Let_def e_def by simp
  have meta: "data_meta ?q ?p e s3 = data_meta ?q ?p e s" by (simp add: s3_def s2_def)
  have "tx_data_send ?q ?p e m s = (let sent = (length m = 14 \<or> answer s)
      in Some (sent, free_m (if sent then emit (FxTx (data_frame m s) (data_meta ?q ?p e s)) s3 else s3)))"
    unfolding tx_data_send_def Let_def case_prod_beta take_seq_sel data_meta_take frame s2_def [symmetric] meta [symmetric]
    using m by (cases "length m - 14 = 0"; cases "answer s2") (simp_all add: s3_def a')
  moreover have "?p \<Longrightarrow> k_ptkConf s \<noteq> None" by (simp add: tx_protected_def)
  ultimately show thesis using ok a by (intro that [of s3]) (auto simp: s3_def s2_def take_pn_pn)
qed

lemma txDataFrame_eq:
  "txDataFrame d m s =
     (if \<not> has_ops d s \<or> \<not> d_tx d \<or> k_vif s = None \<or> k_sta s = None \<or> length m < 14 \<or> length m > 2048 then Some (False, free_m s)
      else if \<not> answer s then Some (False, free_m (s\<lparr>k_answers := tl (k_answers s)\<rparr>))
      else let s2 = s\<lparr>k_answers := tl (tl (k_answers s))\<rparr>
      in if \<not> answer (s\<lparr>k_answers := tl (k_answers s)\<rparr>) then Some (False, free_m s2)
      else let e = be16_of (m ! 12) (m ! 13) in tx_data_send (htAllowed s2) (tx_protected e s2) e m s2)"
  unfolding txDataFrame_def Let_def case_prod_beta ask_eq fst_conv snd_conv
  by (cases "\<not> has_ops d s \<or> \<not> d_tx d \<or> k_vif s = None \<or> k_sta s = None"; cases "length m < 14 \<or> length m > 2048")
    (simp_all only: if_True if_False simp_thms, simp_all)

lemma data_frame_answers [simp]: "data_frame m (s\<lparr>k_answers := x\<rparr>) = data_frame m s"
  by (simp add: data_frame_def Let_def)

lemma txDataFrame_outcome:
  assumes "stack_ok s"
  shows "\<exists>r s'. txDataFrame d m s = Some (r, s') \<and> tx_outcome m s r s'"
proof -
  let ?e = "be16_of (m ! 12) (m ! 13)" and ?s1 = "s\<lparr>k_answers := tl (k_answers s)\<rparr>" and ?s2 = "s\<lparr>k_answers := tl (tl (k_answers s))\<rparr>"
  let ?bad = "\<not> has_ops d s \<or> \<not> d_tx d \<or> k_vif s = None \<or> k_sta s = None \<or> length m < 14 \<or> length m > 2048"
  have fail: "tx_outcome m s False (free_m t)" if "t = s \<or> t = ?s1 \<or> t = ?s2" for t
    using assms that by (auto simp: tx_outcome_def free_m_def Let_def)
  consider "?bad \<or> \<not> answer s \<or> \<not> answer ?s1" | "14 \<le> length m" "\<not> ?bad" "answer s" "answer ?s1" by linarith
  then show ?thesis
  proof cases
    case 1
    then have "\<exists>t. (t = s \<or> t = ?s1 \<or> t = ?s2) \<and> txDataFrame d m s = Some (False, free_m t)"
      unfolding txDataFrame_eq by (cases ?bad; cases "answer s"; cases "answer ?s1") (simp_all only: if_True if_False simp_thms Let_def, blast+)
    then show ?thesis using fail by blast
  next
    case 2
    obtain s3 where s3: "tx_data_send (htAllowed ?s2) (tx_protected ?e ?s2) ?e m ?s2 = (let sent = (length m = 14 \<or> answer ?s2)
        in Some (sent, free_m (if sent then emit (FxTx (data_frame m ?s2) (data_meta (htAllowed ?s2) (tx_protected ?e ?s2) ?e ?s2)) s3 else s3)))"
      "stack_ok s3" "tx_core s3 = tx_core ?s2" "k_fx s3 = k_fx ?s2"
      "k_ccmpTxPn s3 = (if tx_protected ?e ?s2 then pn_incr (k_ccmpTxPn ?s2) else k_ccmpTxPn ?s2)"
      by (rule tx_data_send_eq [of ?s2 m]) (use assms 2(1) in simp_all)
    have "txDataFrame d m s = tx_data_send (htAllowed ?s2) (tx_protected ?e ?s2) ?e m ?s2"
      unfolding txDataFrame_eq Let_def using 2(2-4) by (simp only: if_False if_True simp_thms)
    then show ?thesis using s3 2(1) tx_coreD(9) [OF s3(3)]
      by (auto simp: tx_outcome_def free_m_def Let_def)
  qed
qed

text \<open>When the link is up and no kernel call fails, the packet is sent.\<close>

lemma txDataFrame_sends:
  assumes "stack_ok s" and "has_ops d s" and "d_tx d" and "k_vif s \<noteq> None" and "k_sta s \<noteq> None" and "k_answers s = []"
    and "14 \<le> length m" and "length m \<le> 2048"
  obtains s' where "txDataFrame d m s = Some (True, s')" "tx_outcome m s True s'" "k_answers s' = []"
proof -
  let ?e = "be16_of (m ! 12) (m ! 13)"
  have s: "s\<lparr>k_answers := tl (tl (k_answers s))\<rparr> = s" "answer s" "answer (s\<lparr>k_answers := tl (k_answers s)\<rparr>)" using assms(6) by (simp_all add: answer_def)
  obtain s3 where s3: "tx_data_send (htAllowed s) (tx_protected ?e s) ?e m s = (let sent = (length m = 14 \<or> answer s)
      in Some (sent, free_m (if sent then emit (FxTx (data_frame m s) (data_meta (htAllowed s) (tx_protected ?e s) ?e s)) s3 else s3)))"
    "k_answers s3 = []"
    by (rule tx_data_send_eq [OF assms(1,7)]) (use assms(6) in simp)
  have "txDataFrame d m s = tx_data_send (htAllowed s) (tx_protected ?e s) ?e m s"
    unfolding txDataFrame_eq Let_def s(1) using assms s(2,3) by auto
  moreover obtain r s' where r: "txDataFrame d m s = Some (r, s')" "tx_outcome m s r s'" using txDataFrame_outcome [OF assms(1)] by blast
  ultimately show thesis using s3 s(2) by (intro that [of s']) (auto simp: Let_def free_m_def)
qed

lemma pn_header:
  assumes "length pn = 6"
  shows "take 2 (ccmp_header pn i) @ drop 4 (ccmp_header pn i) = pn"
proof -
  from assms obtain a b c d e f where "pn = [a, b, c, d, e, f]" by (rule list6E)
  then show ?thesis by (simp add: ccmp_header_def)
qed

lemma data_fc_values:
  "data_fc True True = 0x4188" "data_fc True False = 0x0188" "data_fc False True = 0x4108" "data_fc False False = 0x0108"
  by (simp_all add: data_fc_def Let_def IEEE80211_FTYPE_DATA_def IEEE80211_FCTL_TODS_def IEEE80211_STYPE_QOS_DATA_def
      IEEE80211_FCTL_PROTECTED_def)

text \<open>A frame laid out as header, QoS field, CCMP header, LLC header and payload is read back as such.\<close>

lemma decap_layout:
  assumes "length a1 = 6" "length a2 = 6" "length a3 = 6" and "length qosc = (if qos then 2 else 0)"
    and "length ccmp = (if prot then 8 else 0)"
  shows "ap_decap (hdr3 (data_fc qos prot) a1 a2 a3 q @ qosc @ ccmp @ llc_snap e @ p) =
    Some \<lparr>md_receiver = a1, md_transmitter = a2, md_destination = a3,
          md_pn = (if prot then Some (take 2 ccmp @ drop 4 ccmp) else None), md_protocol = e, md_payload = p\<rparr>"
proof -
  have fc: "frame_control_of (hdr3 (data_fc qos prot) a1 a2 a3 q @ x) = Some (data_fc qos prot)" for x
    by (simp add: frame_control_of_def hdr3_def hdr_3addr_bytes_def)
  have prot: "ieee80211_has_protected (data_fc qos prot) = prot"
    by (cases qos; cases prot) (simp_all add: data_fc_values ieee80211_has_protected_def IEEE80211_FCTL_PROTECTED_def)
  have hl: "hdrlen_of_fc (data_fc qos prot) = 24 + length qosc"
    unfolding assms(4) by (cases qos; cases prot)
      (simp_all add: data_fc_values hdrlen_of_fc_def IEEE80211_FCTL_TODS_def IEEE80211_FCTL_FROMDS_def IEEE80211_FTYPE_DATA_def Let_def)
  have addr: "block (hdr3 fc a1 a2 a3 q @ x) 4 6 = a1" "block (hdr3 fc a1 a2 a3 q @ x) 10 6 = a2"
      "block (hdr3 fc a1 a2 a3 q @ x) 16 6 = a3" for fc x
    using assms(1-3) by (simp_all add: block_def hdr3_def hdr_3addr_bytes_def)
  have h: "length (hdr3 fc a1 a2 a3 q) = 24" for fc using assms(1-3) by simp
  have l: "length (llc_snap e) = 8" by (simp add: llc_snap_def be16_bytes_def)
  have snap: "take 6 (llc_snap e) = [0xAA, 0xAA, 0x03, 0, 0, 0]" "be16_of (llc_snap e ! 6) (llc_snap e ! 7) = e"
    by (simp_all add: llc_snap_def be16_bytes_def be16_of_def)
  show ?thesis
    unfolding ap_decap_def fc Option.bind.bind_lunit Let_def hl prot block_def
    using assms(5) addr [where x = "[]", unfolded block_def] by (cases prot) (simp_all add: h l snap nth_append)
qed

text \<open>The packet number as a number.\<close>

fun pn_val :: "bytes \<Rightarrow> nat" where
  "pn_val [] = 0"
| "pn_val (b # bs) = unat b + 256 * pn_val bs"

lemma pn_val_bound: "pn_val p < 256 ^ length p"
proof (induction p)
  case (Cons b p)
  have "unat b < 256" using unsigned_less [of b, where 'a = nat] by simp
  moreover have "pn_val p + 1 \<le> 256 ^ length p" using Cons by simp
  then have "256 * (pn_val p + 1) \<le> 256 * 256 ^ length p" by (rule mult_le_mono2)
  ultimately show ?case by simp
qed simp

lemma pn_val_incr: "pn_val (pn_incr p) = (pn_val p + 1) mod 256 ^ length p"
proof (induction p)
  case (Cons b p)
  have b: "unat b < 256" using unsigned_less [of b, where 'a = nat] by simp
  show ?case
  proof (cases "b + 1 = 0")
    case True
    then have "unat b = 255" using unat_add_small [of b 1] b by (cases "unat b = 255") auto
    then have "pn_val (b # p) + 1 = 256 * (pn_val p + 1)" by simp
    then show ?thesis using True Cons by (simp add: mult_mod_right)
  next
    case False
    then have "unat (b + 1) = unat b + 1" using b
      by (simp add: unat_word_ariths word_unat_eq_iff mod_Suc split: if_splits)
    then show ?thesis using False pn_val_bound [of "(b + 1) # p"] by simp
  qed
qed simp

lemma decap_data_frame:
  assumes "stack_ok s" and "14 \<le> length m"
  shows "ap_decap (data_frame m s) = Some \<lparr>md_receiver = b_bssid (k_targetBSS s), md_transmitter = k_macAddr s,
    md_destination = take 6 m, md_pn = (if tx_protected (be16_of (m ! 12) (m ! 13)) s then Some (pn_incr (k_ccmpTxPn s)) else None),
    md_protocol = be16_of (m ! 12) (m ! 13), md_payload = drop 14 m\<rparr>"
proof -
  let ?e = "be16_of (m ! 12) (m ! 13)"
  let ?p = "tx_protected ?e s"
  have "length (fst (take_pn ?p s)) = (if ?p then 8 else 0)"
    using length_take_pn [of ?e s] by (cases ?p) (simp_all add: length_take_pn0)
  moreover have "?p \<Longrightarrow> take 2 (fst (take_pn ?p s)) @ drop 4 (fst (take_pn ?p s)) = pn_incr (k_ccmpTxPn s)"
    using pn_header [of "pn_incr (k_ccmpTxPn s)"] stack_okD(9) [OF assms(1)] by (auto simp: tx_protected_def take_pn_def Let_def)
  ultimately show ?thesis
    using stack_okD(1,3) [OF assms(1)] assms(2) unfolding data_frame_def Let_def concat.simps append_Nil2
    by (subst decap_layout) auto
qed

section \<open>Properties\<close>

text \<open>
  C9: A packet handed to \<open>txDataFrame\<close> reaches the access point unchanged. The function always returns, never
  writes outside the frame it allocates, and frees the packet exactly once; when it reports success it has
  sent exactly one frame, from which the access point reads the BSSID as receiver, the station's address as
  transmitter, and the destination, protocol and payload of the packet. The frame is protected, with the next packet
  number and the pairwise key attached, exactly when the link uses WPA2, a pairwise key is installed and the
  packet is not part of a key handshake.
\<close>

theorem tx_data_reaches_ap:
  assumes "stack_ok s"
  shows "\<exists>r s'. txDataFrame d m s = Some (r, s') \<and> stack_ok s'
    \<and> (\<not> r \<longrightarrow> k_fx s' = k_fx s @ [FxFreeMbuf])
    \<and> (r \<longrightarrow> (\<exists>f meta. k_fx s' = k_fx s @ [FxTx f meta, FxFreeMbuf]
         \<and> (let e = be16_of (m ! 12) (m ! 13); prot = (k_wpa2 s \<and> k_ptkConf s \<noteq> None \<and> e \<noteq> ETH_P_PAE)
            in ap_decap f = Some \<lparr>md_receiver = b_bssid (k_targetBSS s), md_transmitter = k_macAddr s, md_destination = take 6 m,
                  md_pn = (if prot then Some (pn_incr (k_ccmpTxPn s)) else None), md_protocol = e, md_payload = drop 14 m\<rparr>
               \<and> tm_key meta = (if prot then k_ptkConf s else None))))"
proof -
  obtain r s' where r: "txDataFrame d m s = Some (r, s')" "tx_outcome m s r s'" using txDataFrame_outcome [OF assms] by blast
  let ?meta = "data_meta (htAllowed s) (tx_protected (be16_of (m ! 12) (m ! 13)) s) (be16_of (m ! 12) (m ! 13)) s"
  show ?thesis
  proof (cases r)
    case True
    then have "k_fx s' = k_fx s @ [FxTx (data_frame m s) ?meta, FxFreeMbuf]" "14 \<le> length m" "stack_ok s'"
      using r(2) by (simp_all add: tx_outcome_def Let_def)
    then show ?thesis using r(1) True decap_data_frame [OF assms] by (auto simp: Let_def data_meta_def tx_protected_def)
  next
    case False
    then show ?thesis using r by (intro exI [of _ False]) (simp add: tx_outcome_def Let_def)
  qed
qed

definition demo_drv :: driver where
  "demo_drv = \<lparr>d_ops = True, d_tx = True, d_start = Some 0, d_stop = True, d_add_interface = Some 0, d_remove_interface = True,
     d_configure_filter = True, d_sta_add = True, d_sta_remove = True, d_bss_info_changed = True,
     d_set_key = Some (\<lambda>_ _. (0, 4)), d_hw_scan = None, d_cancel_hw_scan = True, d_scanning = False, d_scan_supported = False\<rparr>"

text \<open>The class as its constructor leaves it, and a station associated without encryption.\<close>

definition stack0 :: RTW88IEEE80211 where
  "stack0 = \<lparr>k_delegate = False, k_connectTC = False, k_manualScanTC = False, k_parent = False, k_rtwdev = False, k_hw = None,
     k_vif = None, k_sta = None, k_state = RTW88_STATE_IDLE, k_connectCancelled = True, k_deauthReason = 0,
     k_scanReturnState = RTW88_STATE_IDLE, k_powered = False, k_pmkProvided = False, k_externalSupplicant = False,
     k_receiveMulticast = True, k_awdlReceiveMode = False, k_awdlChannel = 0, k_macAddr = replicate 6 0, k_timeoutMs = 0,
     k_scan = scan_db0, k_scanRequest = False, k_manualScanChannels = [], k_manualScanChannelCount = 0,
     k_manualScanAbort = False, k_manualScanOnHomeChannel = False, k_targetBSS = zero_bss, k_password = replicate 64 0,
     k_pmk = replicate 32 0, k_ptk = replicate 64 0, k_ptkConf = None, k_gtkConf = None, k_anonce = replicate 32 0,
     k_snonce = replicate 32 0, k_replayCtr = replicate 8 0, k_ccmpTxPn = replicate 6 0, k_wpa2 = False,
     k_assocRsnIE = replicate 257 0, k_assocRsnIELen = 0, k_txSeq = 0, k_dataSeq = 0, k_awdlDataSeq = 0, k_assocAID = 0,
     k_txBaActive = False, k_baTid = 0, k_connChanWidth = 20, k_baDialog = 0, k_baBufSize = 64, k_rxBa = (\<lambda>_. None),
     k_rssi = -100, k_rxFrameCount = 0, k_fx = [], k_answers = []\<rparr>"

lemma stack0_ok: "stack_ok stack0"
  by (simp add: stack_ok_def stack0_def bss_ok_def zero_bss_def)

theorem tx_data_reaches_ap_witness:
  "\<exists>r s'. txDataFrame demo_drv (replicate 14 0) stack0 = Some (r, s') \<and> stack_ok s'"
  using tx_data_reaches_ap [OF stack0_ok, of demo_drv "replicate 14 0"] by blast

section \<open>Packet numbers\<close>

text \<open>A sequence of packets through \<open>txDataFrame\<close>, each with its own answers of the driver.\<close>

fun tx_run :: "(driver \<times> bytes) list \<Rightarrow> RTW88IEEE80211 \<Rightarrow> RTW88IEEE80211 option" where
  "tx_run [] s = Some s"
| "tx_run ((d, m) # ms) s = do { (r, s') \<leftarrow> txDataFrame d m s; tx_run ms s' }"

text \<open>The packet numbers the access point sees among the calls.\<close>

fun sent_pns :: "fx list \<Rightarrow> bytes list" where
  "sent_pns [] = []"
| "sent_pns (FxTx f meta # es) =
     (case ap_decap f of Some md \<Rightarrow> (case md_pn md of Some pn \<Rightarrow> pn # sent_pns es | None \<Rightarrow> sent_pns es) | None \<Rightarrow> sent_pns es)"
| "sent_pns (_ # es) = sent_pns es"

lemma sent_pns_append: "sent_pns (xs @ ys) = sent_pns xs @ sent_pns ys"
  by (induction xs rule: sent_pns.induct) (auto split: option.splits)

lemma tx_step_pn:
  assumes "stack_ok s" and "txDataFrame d m s = Some (r, s')"
  obtains es where "k_fx s' = k_fx s @ es" "stack_ok s'"
    "(k_ccmpTxPn s' = k_ccmpTxPn s \<and> sent_pns es = []) \<or>
     (k_ccmpTxPn s' = pn_incr (k_ccmpTxPn s) \<and> sent_pns es \<in> {[], [pn_incr (k_ccmpTxPn s)]})"
proof -
  have o: "tx_outcome m s r s'" using txDataFrame_outcome [OF assms(1), of d m] assms(2) by auto
  show ?thesis
  proof (cases r)
    case False
    then show ?thesis using o by (intro that [of "[FxFreeMbuf]"]) (auto simp: tx_outcome_def Let_def)
  next
    case True
    then have m: "14 \<le> length m" using o by (simp add: tx_outcome_def Let_def)
    show ?thesis using o True decap_data_frame [OF assms(1) m]
      by (intro that [of "[FxTx (data_frame m s) (data_meta (htAllowed s) (tx_protected (be16_of (m ! 12) (m ! 13)) s) (be16_of (m ! 12) (m ! 13)) s), FxFreeMbuf]"])
        (auto simp: tx_outcome_def Let_def)
  qed
qed

lemma tx_run_pns:
  assumes "stack_ok s" and "tx_run ms s = Some s'"
  shows "\<exists>es js n. k_fx s' = k_fx s @ es \<and> n \<le> length ms \<and> sorted_wrt (<) js \<and> set js \<subseteq> {1..n}
    \<and> map pn_val (sent_pns es) = map (\<lambda>i. (pn_val (k_ccmpTxPn s) + i) mod 256 ^ 6) js
    \<and> (\<forall>pn \<in> set (sent_pns es). length pn = 6)"
  using assms
proof (induction ms arbitrary: s)
  case (Cons x ms)
  obtain d m where x: "x = (d, m)" by (cases x)
  obtain r s1 where s1: "txDataFrame d m s = Some (r, s1)" "tx_run ms s1 = Some s'" using Cons.prems(2) by (auto simp: x bind_eq_Some_iff)
  obtain es1 where es1: "k_fx s1 = k_fx s @ es1" "stack_ok s1"
    "(k_ccmpTxPn s1 = k_ccmpTxPn s \<and> sent_pns es1 = []) \<or>
     (k_ccmpTxPn s1 = pn_incr (k_ccmpTxPn s) \<and> sent_pns es1 \<in> {[], [pn_incr (k_ccmpTxPn s)]})"
    using tx_step_pn [OF Cons.prems(1) s1(1)] by blast
  obtain es js n where IH: "k_fx s' = k_fx s1 @ es" "n \<le> length ms" "sorted_wrt (<) js" "set js \<subseteq> {1..n}"
    "map pn_val (sent_pns es) = map (\<lambda>i. (pn_val (k_ccmpTxPn s1) + i) mod 256 ^ 6) js" "\<forall>pn \<in> set (sent_pns es). length pn = 6"
    using Cons.IH [OF es1(2) s1(2)] by blast
  have fx: "k_fx s' = k_fx s @ (es1 @ es)" using IH(1) es1(1) by simp
  from es1(3) show ?case
  proof
    assume "k_ccmpTxPn s1 = k_ccmpTxPn s \<and> sent_pns es1 = []"
    then show ?thesis using IH fx
      by (intro exI [of _ "es1 @ es"] exI [of _ js] exI [of _ n]) (simp add: sent_pns_append)
  next
    assume a: "k_ccmpTxPn s1 = pn_incr (k_ccmpTxPn s) \<and> sent_pns es1 \<in> {[], [pn_incr (k_ccmpTxPn s)]}"
    have l: "length (k_ccmpTxPn s) = 6" using stack_okD(9) [OF Cons.prems(1)] .
    have v: "pn_val (k_ccmpTxPn s1) = (pn_val (k_ccmpTxPn s) + 1) mod 256 ^ 6" using a l by (simp add: pn_val_incr)
    have js: "map (\<lambda>i. (pn_val (k_ccmpTxPn s1) + i) mod 256 ^ 6) js = map (\<lambda>i. (pn_val (k_ccmpTxPn s) + i) mod 256 ^ 6) (map Suc js)"
      unfolding v by (simp add: mod_add_left_eq)
    show ?thesis
      using IH fx js v a l
      by (intro exI [of _ "es1 @ es"] exI [of _ "(if sent_pns es1 = [] then [] else [1]) @ map Suc js"] exI [of _ "Suc n"])
        (auto simp: sent_pns_append sorted_wrt_map)
  qed
qed simp

text \<open>
  C8: CCMP packet numbers never repeat under one key. In every sequence of fewer than 2^48 packets, whatever the
  driver and the kernel answer, no two protected frames that \<open>txDataFrame\<close> sends carry the same packet number.
\<close>

theorem ccmp_pn_never_repeats:
  assumes "stack_ok s" and "tx_run ms s = Some s'" and "length ms < 2 ^ 48"
  shows "\<exists>es. k_fx s' = k_fx s @ es \<and> distinct (sent_pns es)"
proof -
  obtain es js n where r: "k_fx s' = k_fx s @ es" "n \<le> length ms" "sorted_wrt (<) js" "set js \<subseteq> {1..n}"
    "map pn_val (sent_pns es) = map (\<lambda>i. (pn_val (k_ccmpTxPn s) + i) mod 256 ^ 6) js"
    using tx_run_pns [OF assms(1,2)] by blast
  have n: "n < 256 ^ 6" using r(2) assms(3) by simp
  have "inj_on (\<lambda>i. (pn_val (k_ccmpTxPn s) + i) mod 256 ^ 6) (set js)"
  proof (rule inj_onI)
    fix x y assume xy: "x \<in> set js" "y \<in> set js"
      and eq: "(pn_val (k_ccmpTxPn s) + x) mod 256 ^ 6 = (pn_val (k_ccmpTxPn s) + y) mod 256 ^ 6"
    have "x \<le> n" "y \<le> n" using xy r(4) by auto
    moreover have "256 ^ 6 dvd int x - int y" using eq by (simp add: mod_eq_iff_dvd_symdiff_nat)
    then have "int x \<noteq> int y \<Longrightarrow> 256 ^ 6 \<le> \<bar>int x - int y\<bar>" using dvd_imp_le_int [of "int x - int y" "256 ^ 6"] by simp
    ultimately show "x = y" using n by (cases "int x = int y") auto
  qed
  then have "distinct (map pn_val (sent_pns es))"
    unfolding r(5) using r(3) by (simp add: distinct_map strict_sorted_iff)
  then show ?thesis using r(1) by (auto simp: distinct_map)
qed

text \<open>A connected station with a pairwise key, and two packets to send.\<close>

definition demo_key :: ieee80211_key_conf where
  "demo_key = \<lparr>kc_cipher = WLAN_CIPHER_SUITE_CCMP, kc_icv_len = 8, kc_iv_len = 8, kc_hw_key_idx = 4, kc_keyidx = 0, kc_flags = 8,
     kc_keylen = 16, kc_key = replicate 32 7\<rparr>"

definition demo_hw :: hw_view where
  "demo_hw = \<lparr>h_bands = Some [None, None, None],
     h_chandef = \<lparr>cd_chan = None, cd_width = NL80211_CHAN_WIDTH_20_NOHT, cd_center_freq1 = 0, cd_center_freq2 = 0\<rparr>\<rparr>"

definition demo_linked :: RTW88IEEE80211 where
  "demo_linked = stack0\<lparr>k_hw := Some demo_hw, k_vif := Some zero_vif, k_sta := Some zero_sta, k_wpa2 := True, k_ptkConf := Some demo_key, k_ccmpTxPn := [255, 0, 0, 0, 0, 0]\<rparr>"

theorem ccmp_pn_never_repeats_witness:
  "\<exists>s' es. tx_run [(demo_drv, replicate 20 1), (demo_drv, replicate 14 2)] demo_linked = Some s'
     \<and> k_fx s' = k_fx demo_linked @ es \<and> distinct (sent_pns es)"
proof -
  have ok: "stack_ok demo_linked" using stack0_ok by (simp add: demo_linked_def stack_ok_def)
  obtain r s1 where 1: "txDataFrame demo_drv (replicate 20 1) demo_linked = Some (r, s1)" "stack_ok s1"
    using txDataFrame_outcome [OF ok, of demo_drv "replicate 20 1"] by (auto simp: tx_outcome_def)
  obtain r' s2 where 2: "txDataFrame demo_drv (replicate 14 2) s1 = Some (r', s2)"
    using txDataFrame_outcome [OF 1(2), of demo_drv "replicate 14 2"] by blast
  have "tx_run [(demo_drv, replicate 20 1), (demo_drv, replicate 14 2)] demo_linked = Some s2" using 1(1) 2 by simp
  then show ?thesis using ccmp_pn_never_repeats [OF ok] by fastforce
qed

end
