(* ===== verification/BlockAck.thy ===== *)
theory BlockAck
  imports TxPath
begin

text \<open>
  The BlockAck negotiation of \<open>RTW88IEEE80211.cpp\<close>: the ADDBA request and response frames the station
  sends, and \<open>handleBackAction\<close>, which answers the access point's requests and keeps the receive sessions of
  \<open>RxReorder\<close>. The released frames of a session are the calls \<open>FxFreeSkb\<close>.
\<close>

definition WLAN_CATEGORY_BACK :: u8 where "WLAN_CATEGORY_BACK = 3"
definition WLAN_ACTION_ADDBA_REQ :: u8 where "WLAN_ACTION_ADDBA_REQ = 0"
definition WLAN_ACTION_ADDBA_RESP :: u8 where "WLAN_ACTION_ADDBA_RESP = 1"
definition WLAN_ACTION_DELBA :: u8 where "WLAN_ACTION_DELBA = 2"

lemmas back_defs = WLAN_CATEGORY_BACK_def WLAN_ACTION_ADDBA_REQ_def WLAN_ACTION_ADDBA_RESP_def WLAN_ACTION_DELBA_def

section \<open>Sending\<close>

definition action_hdr :: "RTW88IEEE80211 \<Rightarrow> bytes" where
  "action_hdr s = hdr3 (IEEE80211_FTYPE_MGMT OR IEEE80211_STYPE_ACTION) (b_bssid (k_targetBSS s)) (k_macAddr s)
     (b_bssid (k_targetBSS s)) (seq_ctrl_of (k_txSeq s))"

text \<open>The Block Ack Parameter Set: A-MSDU (bit 0), immediate policy (bit 1), TID (bits 2 to 5), buffer size (bits 6 to 15).\<close>

definition ba_param :: "u16 \<Rightarrow> u8 \<Rightarrow> u16 \<Rightarrow> u16" where
  "ba_param amsdu tid bufsize = amsdu OR push_bit 1 1 OR push_bit 2 (ucast (tid AND 0xf)) OR push_bit 6 (bufsize AND 0x3ff)"

definition sendAddbaRequest :: "driver \<Rightarrow> u8 \<Rightarrow> RTW88IEEE80211 \<Rightarrow> RTW88IEEE80211" where
  "sendAddbaRequest d tid s =
     (let h = action_hdr s;
          s = next_txSeq s;
          dialog = (if k_baDialog s + 1 = 0 then 1 else k_baDialog s + 1);
          s = s\<lparr>k_baDialog := dialog\<rparr>;
          param = ba_param 0 tid (k_baBufSize s);
          ssc = seq_ctrl_of (k_dataSeq s)
      in snd (txMgmtFrame d (h @ [WLAN_CATEGORY_BACK, WLAN_ACTION_ADDBA_REQ, dialog, lo8 param, hi8 param, 0, 0, lo8 ssc, hi8 ssc]) s))"

definition sendAddbaResponse :: "driver \<Rightarrow> u8 \<Rightarrow> u8 \<Rightarrow> u16 \<Rightarrow> u16 \<Rightarrow> RTW88IEEE80211 \<Rightarrow> RTW88IEEE80211" where
  "sendAddbaResponse d tid dialog req_param ba_timeout s =
     (let h = action_hdr s;
          s = next_txSeq s;
          param = ba_param (req_param AND 1) tid (k_baBufSize s)
      in snd (txMgmtFrame d (h @ [WLAN_CATEGORY_BACK, WLAN_ACTION_ADDBA_RESP, dialog, 0, 0, lo8 param, hi8 param,
                                  lo8 ba_timeout, hi8 ba_timeout]) s))"

definition startTxAggregation :: "driver \<Rightarrow> RTW88IEEE80211 \<Rightarrow> RTW88IEEE80211" where
  "startTxAggregation d s =
     (if k_txBaActive s then s
      else if \<not> htAllowed s then s
      else case k_sta s of
             None \<Rightarrow> s
           | Some sta \<Rightarrow> if \<not> ht_supported (dl_ht_cap (sta_deflink_of sta)) then s else sendAddbaRequest d (k_baTid s) s)"

section \<open>Receiving\<close>

definition rd16 :: "bytes \<Rightarrow> nat \<Rightarrow> u16 option" where
  "rd16 b i = do { lo \<leftarrow> rd b i; hi \<leftarrow> rd b (i + 1); Some (le16_of lo hi) }"

text \<open>What a session operation releases.\<close>

definition rx_settle :: "rx_skb rx_result \<Rightarrow> RTW88IEEE80211 \<Rightarrow> RTW88IEEE80211" where
  "rx_settle res s = s\<lparr>k_rxBa := rx_state res,
     k_fx := k_fx s @ replicate (length (rx_free res)) FxFreeSkb @ (if rx_arm res then [FxReorderArm] else [])\<rparr>"

definition rxBaSetup_k :: "u8 \<Rightarrow> u16 \<Rightarrow> u16 \<Rightarrow> RTW88IEEE80211 \<Rightarrow> RTW88IEEE80211" where
  "rxBaSetup_k tid ssn bufsize s =
     (let t = unat tid;
          (ok, s) = (if t < kRxBaNumTid \<and> k_rxBa s t = None then ask s else (True, s))
      in rx_settle (rxBaSetup ok t (uint ssn) (uint bufsize) (k_rxBa s)) s)"

definition rxBaTeardown_k :: "u8 \<Rightarrow> RTW88IEEE80211 \<Rightarrow> RTW88IEEE80211" where
  "rxBaTeardown_k tid s = rx_settle (rxBaTeardown (unat tid) (k_rxBa s)) s"

definition rxBaTeardownAll_k :: "RTW88IEEE80211 \<Rightarrow> RTW88IEEE80211" where
  "rxBaTeardownAll_k s = rx_settle (rxBaTeardownAll (k_rxBa s)) s"

definition handleBackAction :: "driver \<Rightarrow> bytes \<Rightarrow> RTW88IEEE80211 \<Rightarrow> RTW88IEEE80211 option" where
  "handleBackAction d b s =
     (if length b < 2 then Some s
      else do { action \<leftarrow> rd b 1;
        if action = WLAN_ACTION_ADDBA_REQ then
          (if length b < 9 then Some s
           else do { dialog \<leftarrow> rd b 2; req_param \<leftarrow> rd16 b 3; ba_to \<leftarrow> rd16 b 5; ssc \<leftarrow> rd16 b 7;
                     let tid = ucast (drop_bit 2 req_param AND 0xf);
                         bufsz = drop_bit 6 req_param AND 0x3ff;
                         ssn = drop_bit 4 ssc
                     in Some (sendAddbaResponse d tid dialog req_param ba_to (rxBaSetup_k tid ssn bufsz s)) })
        else if action = WLAN_ACTION_ADDBA_RESP then
          (if length b < 9 then Some s
           else do { status \<leftarrow> rd16 b 3; param \<leftarrow> rd16 b 5;
                     let tid = ucast (drop_bit 2 param AND 0xf)
                     in if status = 0 \<and> tid = k_baTid s then Some (s\<lparr>k_txBaActive := True\<rparr>) else Some s })
        else if action = WLAN_ACTION_DELBA then
          (if length b < 6 then Some s
           else do { del_param \<leftarrow> rd16 b 2;
                     let tid = ucast (drop_bit 12 del_param AND 0xf);
                         initiator = (del_param AND push_bit 11 1 \<noteq> 0);
                         s = (if \<not> initiator \<and> tid = k_baTid s then s\<lparr>k_txBaActive := False\<rparr> else s)
                     in Some (if initiator then rxBaTeardown_k tid s else s) })
        else Some s })"

section \<open>The parameter set as numbers\<close>

lemma low_bits:
  "w AND 1 = take_bit 1 w" "w AND 0xf = take_bit 4 w" "w AND 0x3ff = take_bit 10 w" for w :: u16
  by (simp_all add: take_bit_eq_mask mask_eq_exp_minus_1)

lemma low_nibble: "t AND 0xf = take_bit 4 t" for t :: u8
  by (simp add: take_bit_eq_mask mask_eq_exp_minus_1)

lemma unat_ucast_u8: "unat (ucast t :: u16) = unat (t :: u8)"
  using unsigned_less [of t, where 'a = nat] by (simp add: unsigned_ucast_eq take_bit_nat_eq_self)

lemma field_values:
  "unat (w AND 1) = unat w mod 2" "unat (drop_bit 1 w AND 1) = unat w div 2 mod 2"
  "unat (drop_bit 2 w AND 0xf) = unat w div 4 mod 16" "unat (drop_bit 6 w AND 0x3ff) = unat w div 64 mod 1024"
  "unat (drop_bit 4 w) = unat w div 16" for w :: u16
proof -
  have d: "unat (drop_bit n w) = unat w div 2 ^ n" for n
    using unsigned_less [of w, where 'a = nat] by (simp only: unsigned_drop_bit_eq) (simp add: take_bit_nat_eq_self drop_bit_eq_div)
  have t: "unat (take_bit n v) = unat v mod 2 ^ n" for n and v :: u16
    by (simp only: unsigned_take_bit_eq) (simp add: take_bit_eq_mod)
  show "unat (w AND 1) = unat w mod 2" "unat (drop_bit 1 w AND 1) = unat w div 2 mod 2"
    "unat (drop_bit 2 w AND 0xf) = unat w div 4 mod 16" "unat (drop_bit 6 w AND 0x3ff) = unat w div 64 mod 1024"
    "unat (drop_bit 4 w) = unat w div 16"
    unfolding low_bits t d by simp_all
qed

lemma ba_param_parts:
  "ba_param (x AND 1) t b AND 1 = x AND 1" "drop_bit 1 (ba_param (x AND 1) t b) AND 1 = 1"
  "drop_bit 2 (ba_param (x AND 1) t b) AND 0xf = ucast (t AND 0xf)"
  "drop_bit 6 (ba_param (x AND 1) t b) AND 0x3ff = b AND 0x3ff"
  unfolding ba_param_def low_bits low_nibble
  by (rule bit_word_eqI; auto simp: bit_simps)+

section \<open>The exchange\<close>

text \<open>
  The access point's side, in the numbers of the standard: the body of its request, and what it reads
  from a response: dialog token, status, A-MSDU support, policy, TID, buffer size and timeout.
\<close>

definition addba_request :: "u8 \<Rightarrow> nat \<Rightarrow> nat \<Rightarrow> nat \<Rightarrow> u16 \<Rightarrow> nat \<Rightarrow> bytes" where
  "addba_request dialog amsdu tid bufsize timeout ssn =
     (let p = of_nat (amsdu + 2 + 4 * tid + 64 * bufsize); q = of_nat (16 * ssn)
      in [3, 0, dialog, lo8 p, hi8 p, lo8 timeout, hi8 timeout, lo8 q, hi8 q])"

record addba_answer =
  aa_dialog :: u8
  aa_status :: u16
  aa_amsdu :: nat
  aa_policy :: nat
  aa_tid :: nat
  aa_bufsize :: nat
  aa_timeout :: u16

definition read_addba_response :: "bytes \<Rightarrow> addba_answer option" where
  "read_addba_response f =
     (case drop 24 f of
        [cat, act, dialog, s0, s1, p0, p1, t0, t1] \<Rightarrow>
          if cat = 3 \<and> act = 1
          then let p = unat (le16_of p0 p1)
               in Some \<lparr>aa_dialog = dialog, aa_status = le16_of s0 s1, aa_amsdu = p mod 2, aa_policy = p div 2 mod 2,
                        aa_tid = p div 4 mod 16, aa_bufsize = p div 64 mod 1024, aa_timeout = le16_of t0 t1\<rparr>
          else None
      | _ \<Rightarrow> None)"

lemma request_fields:
  assumes "amsdu \<le> 1" and "tid < 16" and "bufsize < 1024"
  defines "p \<equiv> of_nat (amsdu + 2 + 4 * tid + 64 * bufsize) :: u16"
  shows "unat (p AND 1) = amsdu" "unat (drop_bit 2 p AND 0xf) = tid" "unat (drop_bit 6 p AND 0x3ff) = bufsize"
proof -
  have "unat p = amsdu + 2 + 4 * tid + 64 * bufsize" unfolding p_def using assms(1-3) by (intro unat_of_nat_small) simp
  then have p: "unat p = (amsdu + 2) + 4 * (tid + 16 * bufsize)" by simp
  have "unat p mod 2 = amsdu" "unat p div 4 = tid + 16 * bufsize" using assms(1) unfolding p by presburger+
  moreover have "unat p div 64 = bufsize" using calculation(2) assms(2) div_mult2_eq [of "unat p" 4 16] by simp
  ultimately show "unat (p AND 1) = amsdu" "unat (drop_bit 2 p AND 0xf) = tid" "unat (drop_bit 6 p AND 0x3ff) = bufsize"
    using assms(2,3) by (simp_all add: field_values)
qed

text \<open>Reading a response built with \<open>ba_param\<close>.\<close>

lemma read_response:
  assumes "length h = 24"
  shows "read_addba_response (h @ [3, 1, dialog, 0, 0, lo8 (ba_param (x AND 1) tid b), hi8 (ba_param (x AND 1) tid b), lo8 to, hi8 to]) =
    Some \<lparr>aa_dialog = dialog, aa_status = 0, aa_amsdu = unat (x AND 1), aa_policy = 1, aa_tid = unat (tid AND 0xf),
          aa_bufsize = unat (b AND 0x3ff), aa_timeout = to\<rparr>"
proof -
  let ?p = "ba_param (x AND 1) tid b"
  have "unat ?p mod 2 = unat (x AND 1)" "unat ?p div 2 mod 2 = 1" "unat ?p div 64 mod 1024 = unat (b AND 0x3ff)"
    by (simp_all only: field_values [symmetric] ba_param_parts) simp
  moreover have "unat ?p div 4 mod 16 = unat (tid AND 0xf)"
    by (simp only: field_values [symmetric] ba_param_parts) (rule unat_ucast_u8)
  moreover have "le16_of 0 0 = 0" by (simp add: le16_of_def)
  ultimately show ?thesis using assms by (simp add: read_addba_response_def Let_def)
qed

lemma rxBaSetup_k_fresh:
  assumes "unat tid < 8" and "k_answers s = []"
  shows "\<exists>n. rxBaSetup_k tid ssn bufsize s = s\<lparr>k_rxBa := (k_rxBa s)(unat tid := Some \<lparr>r_active = True, headSn = uint ssn mod 4096,
      bufSize = (if uint bufsize = 0 \<or> uint bufsize > 64 then 64 else uint bufsize), stored = 0, buf = (\<lambda>_. None)\<rparr>),
    k_fx := k_fx s @ replicate n FxFreeSkb\<rparr>"
proof (cases "k_rxBa s (unat tid)")
  case None
  then show ?thesis using assms
    by (intro exI [of _ 0]) (simp add: rxBaSetup_k_def rx_settle_def rxBaSetup_def kRxBaNumTid_def kRxBaMaxBuf_def Let_def answer_def)
next
  case (Some r)
  then show ?thesis using assms
    by (intro exI [of _ "length (slots r)"]) (simp add: rxBaSetup_k_def rx_settle_def rxBaSetup_def kRxBaNumTid_def kRxBaMaxBuf_def Let_def)
qed

lemma ask_nil: "k_answers s = [] \<Longrightarrow> ask s = (True, s)"
  by (simp add: ask_def del: ask_eq)

lemma sendAddbaResponse_sends:
  assumes "has_ops d s" and "d_tx d" and "k_answers s = []"
  shows "\<exists>meta. sendAddbaResponse d tid dialog p timeout s = emit (FxTx (action_hdr s @ [3, 1, dialog, 0, 0,
    lo8 (ba_param (p AND 1) tid (k_baBufSize s)), hi8 (ba_param (p AND 1) tid (k_baBufSize s)), lo8 timeout, hi8 timeout]) meta) (next_txSeq s)"
proof -
  have "has_ops d (next_txSeq s)" "ask (next_txSeq s) = (True, next_txSeq s)" "k_baBufSize (next_txSeq s) = k_baBufSize s"
    using assms by (simp_all add: next_txSeq_def has_ops_def ask_nil del: ask_eq)
  then show ?thesis using assms(2)
    by (auto simp: sendAddbaResponse_def txMgmtFrame_def Let_def back_defs simp del: ask_eq)
qed

text \<open>
  C26: A BlockAck request is answered and stands up its session. For every well-formed ADDBA request for one of the
  TIDs 0 to 7, when the kernel and driver calls succeed, \<open>handleBackAction\<close> starts an empty, active reorder
  session for exactly that TID at the requested sequence number, with the requested window (64 when the request
  asks for none or for more), leaves the sessions of the other TIDs alone, and sends one response in which the
  access point reads its own dialog token, success, its A-MSDU setting, immediate policy, its TID, the advertised
  buffer size and its timeout.
\<close>

theorem addba_request_answered:
  assumes "stack_ok s" and "has_ops d s" and "d_tx d" and "k_answers s = []"
    and "amsdu \<le> 1" and "tid < 8" and "bufsize < 1024" and "ssn < 4096"
  shows "\<exists>s' r f meta. handleBackAction d (addba_request dialog amsdu tid bufsize timeout ssn) s = Some s'
    \<and> k_rxBa s' = (k_rxBa s)(tid := Some r)
    \<and> r = \<lparr>r_active = True, headSn = int ssn, bufSize = (if bufsize = 0 \<or> bufsize > 64 then 64 else int bufsize),
          stored = 0, buf = (\<lambda>_. None)\<rparr>
    \<and> (\<exists>n. k_fx s' = k_fx s @ replicate n FxFreeSkb @ [FxTx f meta])
    \<and> read_addba_response f = Some \<lparr>aa_dialog = dialog, aa_status = 0, aa_amsdu = amsdu, aa_policy = 1, aa_tid = tid,
          aa_bufsize = unat (k_baBufSize s AND 0x3ff), aa_timeout = timeout\<rparr>"
proof -
  let ?p = "of_nat (amsdu + 2 + 4 * tid + 64 * bufsize) :: u16" and ?q = "of_nat (16 * ssn) :: u16"
  let ?tid = "ucast (drop_bit 2 ?p AND 0xf) :: u8" and ?buf = "drop_bit 6 ?p AND 0x3ff" and ?ssn = "drop_bit 4 ?q"
  note f = request_fields [OF assms(5) _ assms(7), of tid]
  have tid: "unat ?tid = tid" using f(2) assms(6) by (simp add: unsigned_ucast_eq take_bit_nat_eq_self)
  have ssn: "uint ?ssn = int ssn" using assms(8) unat_of_nat_small [of "16 * ssn", where 'a = 16] by (simp add: uint_nat field_values)
  have bs: "uint ?buf = int bufsize" using f(3) assms(6) by (simp add: uint_nat)
  have tid4: "unat (?tid AND 0xf) = tid" unfolding low_nibble using tid assms(6) by (simp add: unsigned_take_bit_eq take_bit_nat_eq_self)
  define s1 where "s1 = rxBaSetup_k ?tid ?ssn ?buf s"
  have s1: "k_rxBa s1 = (k_rxBa s)(tid := Some \<lparr>r_active = True, headSn = int ssn,
        bufSize = (if bufsize = 0 \<or> bufsize > 64 then 64 else int bufsize), stored = 0, buf = (\<lambda>_. None)\<rparr>)"
    "\<exists>n. k_fx s1 = k_fx s @ replicate n FxFreeSkb" "has_ops d s1" "k_answers s1 = []" "stack_ok s1" "k_baBufSize s1 = k_baBufSize s"
    using assms(1,2,4,6,8) rxBaSetup_k_fresh [of ?tid s ?ssn ?buf] unfolding s1_def [symmetric] tid ssn bs
    by (auto simp: has_ops_def stack_ok_def)
  have h: "length (action_hdr s1) = 24" using stack_okD(1,3) [OF s1(5)] by (simp add: action_hdr_def)
  have eq: "handleBackAction d (addba_request dialog amsdu tid bufsize timeout ssn) s = Some (sendAddbaResponse d ?tid dialog ?p timeout s1)"
    by (simp add: handleBackAction_def addba_request_def rd16_def back_defs Let_def s1_def)
  define F where "F = action_hdr s1 @ [3, 1, dialog, 0, 0, lo8 (ba_param (?p AND 1) ?tid (k_baBufSize s)), hi8 (ba_param (?p AND 1) ?tid (k_baBufSize s)),
     lo8 timeout, hi8 timeout]"
  obtain meta where meta: "sendAddbaResponse d ?tid dialog ?p timeout s1 = emit (FxTx F meta) (next_txSeq s1)"
    using sendAddbaResponse_sends [OF s1(3) assms(3) s1(4), of ?tid dialog ?p timeout] unfolding s1(6) F_def by blast
  have "read_addba_response F = Some \<lparr>aa_dialog = dialog, aa_status = 0, aa_amsdu = amsdu, aa_policy = 1, aa_tid = tid,
      aa_bufsize = unat (k_baBufSize s AND 0x3ff), aa_timeout = timeout\<rparr>"
    unfolding F_def read_response [OF h] tid4 using f(1) assms(6) by simp
  moreover have "k_rxBa (emit (FxTx F meta) (next_txSeq s1)) = k_rxBa s1" "k_fx (emit (FxTx F meta) (next_txSeq s1)) = k_fx s1 @ [FxTx F meta]"
    by (simp_all add: next_txSeq_def)
  ultimately show ?thesis unfolding eq meta using s1(1,2) by (metis (no_types, lifting) append.assoc)
qed

definition demo_assoc :: RTW88IEEE80211 where
  "demo_assoc = stack0\<lparr>k_hw := Some demo_hw, k_state := RTW88_STATE_CONNECTED\<rparr>"

lemma demo_assoc_ok: "stack_ok demo_assoc" "has_ops demo_drv demo_assoc" "d_tx demo_drv" "k_answers demo_assoc = []"
  using stack0_ok by (simp_all add: demo_assoc_def stack_ok_def has_ops_def demo_drv_def stack0_def)

theorem addba_request_answered_witness:
  "\<exists>s' r. handleBackAction demo_drv (addba_request 9 0 5 32 0 100) demo_assoc = Some s'
     \<and> k_rxBa s' 5 = Some r \<and> headSn r = 100 \<and> bufSize r = 32"
  using addba_request_answered [OF demo_assoc_ok, of 0 5 32 100 9 0] by (auto simp: fun_upd_def)

text \<open>
  A request for one of the TIDs 8 to 15 gets no session, since \<open>rxBaSetup\<close> ignores them, but is answered
  with success all the same: the access point then aggregates frames that are never reordered.
\<close>

theorem addba_high_tid_accepted:
  assumes "stack_ok s" and "has_ops d s" and "d_tx d" and "k_answers s = []"
    and "8 \<le> tid" and "tid < 16" and "bufsize < 1024"
  shows "\<exists>s' f meta answer. handleBackAction d (addba_request dialog 0 tid bufsize timeout ssn) s = Some s'
    \<and> k_rxBa s' = k_rxBa s \<and> k_fx s' = k_fx s @ [FxTx f meta]
    \<and> read_addba_response f = Some answer \<and> aa_status answer = 0 \<and> aa_tid answer = tid"
proof -
  let ?p = "of_nat (0 + 2 + 4 * tid + 64 * bufsize) :: u16" and ?q = "of_nat (16 * ssn) :: u16"
  let ?tid = "ucast (drop_bit 2 ?p AND 0xf) :: u8"
  have tid: "unat ?tid = tid" using request_fields(2) [of 0 tid bufsize] assms(6,7) by (simp add: unsigned_ucast_eq take_bit_nat_eq_self)
  then have tid4: "unat (?tid AND 0xf) = tid" unfolding low_nibble using assms(6) by (simp add: unsigned_take_bit_eq take_bit_nat_eq_self)
  have same: "rxBaSetup_k ?tid x y s = s" for x y
    unfolding rxBaSetup_k_def Let_def tid using assms(5) by (simp add: kRxBaNumTid_def rxBaSetup_def rx_settle_def)
  have h: "length (action_hdr s) = 24" using stack_okD(1,3) [OF assms(1)] by (simp add: action_hdr_def)
  have eq: "handleBackAction d (addba_request dialog 0 tid bufsize timeout ssn) s = Some (sendAddbaResponse d ?tid dialog ?p timeout s)"
    by (simp add: handleBackAction_def addba_request_def rd16_def back_defs Let_def same [simplified])
  obtain f meta where "sendAddbaResponse d ?tid dialog ?p timeout s = emit (FxTx f meta) (next_txSeq s)"
    "read_addba_response f = Some \<lparr>aa_dialog = dialog, aa_status = 0, aa_amsdu = unat (?p AND 1), aa_policy = 1, aa_tid = tid,
      aa_bufsize = unat (k_baBufSize s AND 0x3ff), aa_timeout = timeout\<rparr>"
    using sendAddbaResponse_sends [OF assms(2-4), of ?tid dialog ?p timeout] read_response [OF h, unfolded] tid4 by metis
  then show ?thesis unfolding eq by (auto simp: next_txSeq_def)
qed

end
