(* ===== verification/Eapol.thy ===== *)
theory Eapol
  imports BlockAck
begin

text \<open>
  The WPA2 handshake of \<open>RTW88IEEE80211.cpp\<close>: \<open>clearKeys\<close>, \<open>releaseSta\<close>, \<open>installKey\<close>, \<open>sendEAPOLKey\<close> and
  \<open>handleEAPOL\<close>. \<open>c\<close> is the hash context on the stack, of arbitrary contents. \<open>rnd\<close> is what \<open>read_random\<close>
  returns. Log lines are left out.
\<close>

definition IEEE80211_KEY_FLAG_PAIRWISE :: u16 where "IEEE80211_KEY_FLAG_PAIRWISE = 0x8"

section \<open>Keys\<close>

definition slot_of :: "bool \<Rightarrow> RTW88IEEE80211 \<Rightarrow> ieee80211_key_conf option" where
  "slot_of pw s = (if pw then k_ptkConf s else k_gtkConf s)"

definition set_slot :: "bool \<Rightarrow> ieee80211_key_conf option \<Rightarrow> RTW88IEEE80211 \<Rightarrow> RTW88IEEE80211" where
  "set_slot pw key s = (if pw then s\<lparr>k_ptkConf := key\<rparr> else s\<lparr>k_gtkConf := key\<rparr>)"

text \<open>\<open>set_key (DISABLE_KEY)\<close> for the key of a slot, when there is one.\<close>

definition disable_slot :: "bool \<Rightarrow> RTW88IEEE80211 \<Rightarrow> RTW88IEEE80211" where
  "disable_slot pw s = (case slot_of pw s of None \<Rightarrow> s | Some key \<Rightarrow> emit (FxSetKey DISABLE_KEY pw key) s)"

definition clearKeys :: "driver \<Rightarrow> RTW88IEEE80211 \<Rightarrow> RTW88IEEE80211" where
  "clearKeys d s =
     (let s = (if k_powered s \<and> has_ops d s \<and> d_set_key d \<noteq> None then disable_slot False (disable_slot True s) else s)
      in s\<lparr>k_ptkConf := None, k_gtkConf := None, k_pmk := replicate 32 0, k_password := replicate 64 0,
           k_pmkProvided := False, k_ptk := replicate 64 0, k_ccmpTxPn := replicate 6 0\<rparr>)"

definition releaseSta :: "driver \<Rightarrow> RTW88IEEE80211 \<Rightarrow> RTW88IEEE80211" where
  "releaseSta d s =
     (if k_sta s = None then s
      else let s = (if has_ops d s \<and> d_sta_remove d \<and> k_vif s \<noteq> None then emit FxStaRemove s else s)
           in rxBaTeardownAll_k (s\<lparr>k_sta := None, k_txBaActive := False, k_dataSeq := 0\<rparr>))"

text \<open>Both callers pass the slot that belongs to \<open>pw\<close>; \<open>tk\<close> has \<open>tk_len\<close> bytes.\<close>

definition new_key :: "bool \<Rightarrow> u8 \<Rightarrow> u32 \<Rightarrow> bytes \<Rightarrow> ieee80211_key_conf" where
  "new_key pw keyidx cipher tk =
     \<lparr>kc_cipher = cipher, kc_icv_len = (if cipher = WLAN_CIPHER_SUITE_TKIP then 4 else 8), kc_iv_len = 8, kc_hw_key_idx = 0,
      kc_keyidx = sint keyidx, kc_flags = (if pw then IEEE80211_KEY_FLAG_PAIRWISE else 0),
      kc_keylen = of_nat (length tk), kc_key = tk @ replicate (32 - length tk) 0\<rparr>"

definition installKey :: "driver \<Rightarrow> bool \<Rightarrow> u8 \<Rightarrow> u32 \<Rightarrow> bytes \<Rightarrow> RTW88IEEE80211 \<Rightarrow> bool \<times> RTW88IEEE80211" where
  "installKey d pw keyidx cipher tk s =
     (case d_set_key d of
        None \<Rightarrow> (False, s)
      | Some set_key \<Rightarrow>
        if \<not> has_ops d s \<or> length tk = 0 \<or> length tk > 32 then (False, s)
        else if cipher \<noteq> WLAN_CIPHER_SUITE_CCMP \<and> cipher \<noteq> WLAN_CIPHER_SUITE_TKIP then (False, s)
        else if cipher = WLAN_CIPHER_SUITE_CCMP \<and> length tk \<noteq> 16 then (False, s)
        else if cipher = WLAN_CIPHER_SUITE_TKIP \<and> length tk \<noteq> 32 then (False, s)
        else let s = set_slot pw None (disable_slot pw s);
                 (ok, s) = ask s
        in if \<not> ok then (False, s)
           else let key = new_key pw keyidx cipher tk;
                    (ret, idx) = set_key SET_KEY key;
                    s = emit (FxSetKey SET_KEY pw key) s
           in if ret \<noteq> 0 then (False, s)
              else let s = set_slot pw (Some (key\<lparr>kc_hw_key_idx := idx\<rparr>)) s
                   in (True, if pw then s\<lparr>k_ccmpTxPn := replicate 6 0\<rparr> else s))"

section \<open>Sending\<close>

definition rtw88_make_packet_mbuf :: "bytes \<Rightarrow> RTW88IEEE80211 \<Rightarrow> bytes option \<times> RTW88IEEE80211" where
  "rtw88_make_packet_mbuf src s =
     (let (ok, s) = ask s
      in if \<not> ok then (None, s)
         else let (ok, s) = ask s in if \<not> ok then (None, free_m s) else (Some src, s))"

definition key_info :: "nat \<Rightarrow> bool \<Rightarrow> bool \<Rightarrow> bool \<Rightarrow> u16" where
  "key_info step install ack mic =
     (let ki = 0x000A;
          ki = (if mic then ki OR 0x0100 else ki);
          ki = (if install then ki OR 0x0040 else ki);
          ki = (if ack then ki OR 0x0080 else ki)
      in if step = 4 then ki OR 0x0200 else ki)"

text \<open>The EAPOL part of the frame, with \<open>mic\<close> in the MIC field.\<close>

definition eapol_key_frame :: "u16 \<Rightarrow> bytes \<Rightarrow> bytes \<Rightarrow> bytes \<Rightarrow> bytes \<Rightarrow> bytes" where
  "eapol_key_frame ki replay_counter nonce mic key_data =
     [2, 3] @ be16_bytes (95 + of_nat (length key_data)) @ [2] @ be16_bytes ki @ [0, 16] @ replay_counter @ nonce
     @ replicate 16 0 @ replicate 8 0 @ replicate 8 0 @ mic @ be16_bytes (of_nat (length key_data)) @ key_data"

definition sendEAPOLKey ::
  "KERN_SHA1_CTX \<Rightarrow> driver \<Rightarrow> nat \<Rightarrow> bytes \<Rightarrow> bool \<Rightarrow> bool \<Rightarrow> bool \<Rightarrow> RTW88IEEE80211 \<Rightarrow> RTW88IEEE80211 option" where
  "sendEAPOLKey c d step replay_counter install ack mic s =
     (let ki = key_info step install ack mic;
          kd = (if step = 2 then rtw88BuildSelectedRsnIe (b_group_cipher (k_targetBSS s)) else []);
          kd = (if 99 + length kd > 512 - 14 then [] else kd);
          eapol = eapol_key_frame ki replay_counter (k_snonce s) (replicate 16 0) kd
      in do { eapol \<leftarrow> (if mic then do { m \<leftarrow> kern_hmac_sha1 c (take 16 (k_ptk s)) eapol; memcpy_at eapol 81 (take 16 m) }
                        else Some eapol);
              case rtw88_make_packet_mbuf (b_bssid (k_targetBSS s) @ k_macAddr s @ [0x88, 0x8e] @ eapol) s of
                (None, s) \<Rightarrow> Some s
              | (Some m, s) \<Rightarrow> map_option snd (txDataFrame d m s) })"

section \<open>Receiving\<close>

definition rd_be16 :: "bytes \<Rightarrow> nat \<Rightarrow> u16 option" where
  "rd_be16 b i = do { hi \<leftarrow> rd b i; lo \<leftarrow> rd b (i + 1); Some (be16_of hi lo) }"

text \<open>The first message: nonces, the pw key and the reply.\<close>

definition eapol_m1 :: "KERN_SHA1_CTX \<Rightarrow> driver \<Rightarrow> bytes \<Rightarrow> bytes \<Rightarrow> RTW88IEEE80211 \<Rightarrow> RTW88IEEE80211 option" where
  "eapol_m1 c d rnd eap s =
     (let s = s\<lparr>k_anonce := block eap 17 32, k_snonce := rnd\<rparr>
      in do { ptk \<leftarrow> derivePTK c (k_pmk s) (k_anonce s) (k_snonce s) (k_macAddr s) (b_bssid (k_targetBSS s));
              let s = s\<lparr>k_ptk := ptk, k_replayCtr := block eap 9 8\<rparr> in
              do { s \<leftarrow> sendEAPOLKey c d 2 (k_replayCtr s) False False True s; Some (emit (FxTimer 5000) s) } })"

text \<open>The key data of the third message: \<open>Some None\<close> when it cannot be unwrapped, else the group key, if any.\<close>

definition m3_gtk :: "u16 \<Rightarrow> bytes \<Rightarrow> bytes \<Rightarrow> (bytes \<times> u8) option option option" where
  "m3_gtk ki ptk kd =
     (if kd = [] then Some (Some None)
      else if ki AND 0x1000 \<noteq> 0 then
        do { u \<leftarrow> aes_unwrap_128 (block ptk 16 16) kd;
             case u of None \<Rightarrow> Some None | Some k \<Rightarrow> Some (Some (extract_gtk_from_kde k)) }
      else Some (Some (extract_gtk_from_kde kd)))"

definition eapol_m3 :: "KERN_SHA1_CTX \<Rightarrow> driver \<Rightarrow> u16 \<Rightarrow> nat \<Rightarrow> nat \<Rightarrow> bytes \<Rightarrow> RTW88IEEE80211 \<Rightarrow> RTW88IEEE80211 option" where
  "eapol_m3 c d ki eapol_len key_data_len eap s =
     (let (mem, s) = ask s
      in do { ok \<leftarrow> eapol_mic_ok c mem (take 16 (k_ptk s)) (take eapol_len eap);
              if \<not> ok then Some s
              else if 99 + key_data_len > eapol_len then Some s
              else do { g \<leftarrow> m3_gtk ki (k_ptk s) (block eap 99 key_data_len);
                case g of None \<Rightarrow> Some s
                | Some gtk \<Rightarrow>
                    let s = s\<lparr>k_replayCtr := block eap 9 8\<rparr>;
                        (ok, s) = installKey d True 0 WLAN_CIPHER_SUITE_CCMP (block (k_ptk s) 32 16) s
                    in if \<not> ok then Some s
                    else let grp = (if b_group_cipher (k_targetBSS s) = WLAN_CIPHER_SUITE_TKIP then WLAN_CIPHER_SUITE_TKIP
                                    else WLAN_CIPHER_SUITE_CCMP);
                             (ok, s) = (case gtk of Some (k, i) \<Rightarrow> if length k \<noteq> 0 then installKey d False i grp k s else (True, s)
                                        | None \<Rightarrow> (True, s))
                    in if \<not> ok then Some s
                    else do { s \<leftarrow> sendEAPOLKey c d 4 (k_replayCtr s) False False True s;
                              let s = emit FxTimerCancel (s\<lparr>k_state := RTW88_STATE_CONNECTED\<rparr>);
                                  s = (if k_parent s then emit (FxLink True) s else s)
                              in Some (startTxAggregation d s) } } })"

definition handleEAPOL :: "KERN_SHA1_CTX \<Rightarrow> driver \<Rightarrow> bytes \<Rightarrow> bytes \<Rightarrow> RTW88IEEE80211 \<Rightarrow> RTW88IEEE80211 option" where
  "handleEAPOL c d rnd eap s =
     (if length eap < 99 then Some s
      else do { typ \<leftarrow> rd eap 1;
        if typ \<noteq> 3 then Some s
        else do { body_len \<leftarrow> rd_be16 eap 2;
          let eapol_len = 4 + unat body_len in
          if eapol_len > length eap \<or> eapol_len < 99 then Some s
          else do { ki \<leftarrow> rd_be16 eap 5; kdl \<leftarrow> rd_be16 eap 97;
            let is_m1 = (ki AND 0x0088 = 0x0088 \<and> ki AND 0x0100 = 0);
                is_m3 = (ki AND 0x01c8 = 0x01c8)
            in if is_m1 then eapol_m1 c d rnd eap s
               else if is_m3 then eapol_m3 c d ki eapol_len (unat kdl) eap s
               else Some s } } })"

section \<open>The layout of a key frame\<close>

lemma key_frame_layout:
  fixes ki :: u16
  assumes "length rc = 8" "length nonce = 32" "length mic = 16" and "length kd \<le> 300"
  defines "f \<equiv> eapol_key_frame ki rc nonce mic kd"
  shows "length f = 99 + length kd" "rd f 1 = Some 3" "rd_be16 f 2 = Some (95 + of_nat (length kd))" "rd_be16 f 5 = Some ki"
    "block f 9 8 = rc" "block f 17 32 = nonce" "block f 81 16 = mic" "rd_be16 f 97 = Some (of_nat (length kd))" "drop 99 f = kd"
    "length mic' = 16 \<Longrightarrow> blit f 81 mic' = eapol_key_frame ki rc nonce mic' kd"
proof -
  show "length f = 99 + length kd" using assms(1-3) by (simp add: f_def eapol_key_frame_def be16_bytes_def)
  then have l: "99 \<le> length f" by simp
  have r: "rd_be16 f i = Some (be16_of (f ! i) (f ! (i + 1)))" if "i + 1 < 99" for i
    using that l by (simp add: rd_be16_def)
  show "rd f 1 = Some 3" using l by (simp add: f_def eapol_key_frame_def)
  show "rd_be16 f 2 = Some (95 + of_nat (length kd))" "rd_be16 f 5 = Some ki"
    by (simp_all add: r) (simp_all add: f_def eapol_key_frame_def be16_bytes_def be16_of_def nth_Cons')
  show "block f 9 8 = rc" "block f 17 32 = nonce" "block f 81 16 = mic" "drop 99 f = kd"
    using assms(1-3) by (simp_all add: f_def eapol_key_frame_def be16_bytes_def block_def)
  show "rd_be16 f 97 = Some (of_nat (length kd))"
    using assms(1-3) by (simp add: r) (simp add: f_def eapol_key_frame_def be16_bytes_def be16_of_def nth_append)
  show "length mic' = 16 \<Longrightarrow> blit f 81 mic' = eapol_key_frame ki rc nonce mic' kd"
    using assms(1-3) by (simp add: f_def eapol_key_frame_def be16_bytes_def blit_def)
qed

text \<open>The frame with its integrity code under the key \<open>kck\<close>.\<close>

definition mic_of :: "bytes \<Rightarrow> u16 \<Rightarrow> bytes \<Rightarrow> bytes \<Rightarrow> bytes \<Rightarrow> bytes" where
  "mic_of kck ki rc nonce kd = take 16 (std_hmac kck (eapol_key_frame ki rc nonce (replicate 16 0) kd))"

definition signed_frame :: "bytes \<Rightarrow> u16 \<Rightarrow> bytes \<Rightarrow> bytes \<Rightarrow> bytes \<Rightarrow> bytes" where
  "signed_frame kck ki rc nonce kd = eapol_key_frame ki rc nonce (mic_of kck ki rc nonce kd) kd"

lemma length_mic_of [simp]: "length (mic_of kck ki rc nonce kd) = 16"
  by (simp add: mic_of_def)

lemma signed_frame_valid:
  assumes "sha_stack c" "length kck = 16" "length rc = 8" "length nonce = 32" "length kd \<le> 300"
  shows "eapol_mic_ok c True kck (signed_frame kck ki rc nonce kd) = Some True"
proof -
  let ?f = "signed_frame kck ki rc nonce kd" and ?z = "replicate 16 (0 :: u8)"
  note lay = key_frame_layout [OF assms(3,4) length_mic_of [of kck ki rc nonce kd] assms(5), where ki = ki, folded signed_frame_def]
  have "memcpy_at ?f 81 ?z = Some (eapol_key_frame ki rc nonce ?z kd)" using lay(1,10) by (simp add: memcpy_at_def)
  moreover have "kern_hmac_sha1 c kck (eapol_key_frame ki rc nonce ?z kd) = Some (std_hmac kck (eapol_key_frame ki rc nonce ?z kd))"
    using assms key_frame_layout(1) [OF assms(3,4), of ?z kd, where ki = ki] by (intro hmac_stack) simp_all
  ultimately show ?thesis using lay(1,7) by (simp add: eapol_mic_ok_def mic_of_def)
qed

section \<open>Sending and installing\<close>

lemma key_info_values: "key_info 2 False False True = 0x010A" "key_info 4 False False True = 0x030A"
  by (simp_all add: key_info_def Let_def)

lemma length_selected_rsn [simp]: "length (rtw88BuildSelectedRsnIe g) = 22"
  by (simp add: rtw88BuildSelectedRsnIe_def Let_def rtw88WriteSuite_def)

definition reply_data :: "nat \<Rightarrow> RTW88IEEE80211 \<Rightarrow> bytes" where
  "reply_data step s = (if step = 2 then rtw88BuildSelectedRsnIe (b_group_cipher (k_targetBSS s)) else [])"

definition reply_frame :: "nat \<Rightarrow> bytes \<Rightarrow> RTW88IEEE80211 \<Rightarrow> bytes" where
  "reply_frame step rc s = signed_frame (take 16 (k_ptk s)) (key_info step False False True) rc (k_snonce s) (reply_data step s)"

text \<open>The Ethernet packet a reply is sent in.\<close>

definition reply_packet :: "nat \<Rightarrow> bytes \<Rightarrow> RTW88IEEE80211 \<Rightarrow> bytes" where
  "reply_packet step rc s = b_bssid (k_targetBSS s) @ k_macAddr s @ [0x88, 0x8e] @ reply_frame step rc s"

lemma sendEAPOLKey_eq:
  assumes "stack_ok s" "sha_stack c" "length rc = 8"
  shows "sendEAPOLKey c d step rc False False True s =
    (case rtw88_make_packet_mbuf (reply_packet step rc s) s of (None, s) \<Rightarrow> Some s | (Some m, s) \<Rightarrow> map_option snd (txDataFrame d m s))"
proof -
  let ?kd = "reply_data step s" and ?ki = "key_info step False False True" and ?z = "replicate 16 (0 :: u8)"
  let ?f = "eapol_key_frame ?ki rc (k_snonce s) ?z ?kd"
  have kd: "length ?kd \<le> 22" by (simp add: reply_data_def)
  note lay = key_frame_layout [OF assms(3) stack_okD(7) [OF assms(1)], of ?z ?kd, where ki = ?ki]
  have l: "length ?f = 99 + length ?kd" using lay(1) kd by simp
  have h: "kern_hmac_sha1 c (take 16 (k_ptk s)) ?f = Some (std_hmac (take 16 (k_ptk s)) ?f)"
    using l kd by (intro hmac_stack [OF assms(2)]) simp_all
  have m: "memcpy_at ?f 81 (take 16 (std_hmac (take 16 (k_ptk s)) ?f)) = Some (reply_frame step rc s)"
    using lay(10) [of "take 16 (std_hmac (take 16 (k_ptk s)) ?f)"] l kd
    by (simp add: memcpy_at_def reply_frame_def signed_frame_def mic_of_def)
  have kd': "(let kd = (if step = 2 then rtw88BuildSelectedRsnIe (b_group_cipher (k_targetBSS s)) else []) in if 99 + length kd > 512 - 14 then [] else kd) = ?kd"
    by (simp add: reply_data_def)
  show ?thesis
    unfolding sendEAPOLKey_def Let_def kd' [unfolded Let_def] h by (simp add: m reply_packet_def)
qed

definition key_driver :: "driver \<Rightarrow> bool" where
  "key_driver d \<longleftrightarrow> d_ops d \<and> d_tx d \<and> (\<exists>f. d_set_key d = Some f \<and> (\<forall>k. fst (f SET_KEY k) = 0))"

definition link_up :: "RTW88IEEE80211 \<Rightarrow> bool" where
  "link_up s \<longleftrightarrow> k_hw s \<noteq> None \<and> k_vif s \<noteq> None \<and> k_sta s \<noteq> None \<and> k_answers s = []"

lemma reply_packet_facts:
  assumes "stack_ok s" "length rc = 8"
  shows "14 \<le> length (reply_packet step rc s)" "length (reply_packet step rc s) \<le> 2048"
    "be16_of (reply_packet step rc s ! 12) (reply_packet step rc s ! 13) = ETH_P_PAE" "drop 14 (reply_packet step rc s) = reply_frame step rc s"
proof -
  have l: "length (reply_frame step rc s) = 99 + length (reply_data step s)" "length (reply_data step s) \<le> 22"
    using key_frame_layout(1) [OF assms(2) stack_okD(7) [OF assms(1)] length_mic_of] unfolding reply_frame_def signed_frame_def
    by (simp_all add: reply_data_def)
  have a: "length (b_bssid (k_targetBSS s)) = 6" "length (k_macAddr s) = 6" using stack_okD [OF assms(1)] by simp_all
  show "14 \<le> length (reply_packet step rc s)" "length (reply_packet step rc s) \<le> 2048" using l a by (simp_all add: reply_packet_def)
  show "be16_of (reply_packet step rc s ! 12) (reply_packet step rc s ! 13) = ETH_P_PAE"
    using a by (simp add: reply_packet_def nth_append be16_of_def le16_of_def ETH_P_PAE_def)
  show "drop 14 (reply_packet step rc s) = reply_frame step rc s" using a by (simp add: reply_packet_def)
qed

text \<open>Any reply leaves the state of the handshake alone; with the link up it is sent, in the clear.\<close>

lemma sendEAPOLKey_total:
  assumes "stack_ok s" "sha_stack c" "length rc = 8"
  shows "\<exists>s'. sendEAPOLKey c d step rc False False True s = Some s' \<and> stack_ok s' \<and> tx_core s' = tx_core s"
proof -
  obtain m t where t: "rtw88_make_packet_mbuf (reply_packet step rc s) s = (m, t)" by fastforce
  have ok: "stack_ok t" "tx_core t = tx_core s"
    using t assms(1) by (auto simp: rtw88_make_packet_mbuf_def free_m_def split: if_splits)
  show ?thesis unfolding sendEAPOLKey_eq [OF assms] t
    using ok txDataFrame_outcome [OF ok(1), of d] by (cases m) (auto simp: tx_outcome_def, metis option.map(2) snd_conv)
qed

lemma sendEAPOLKey_sends:
  assumes "stack_ok s" "sha_stack c" "length rc = 8" "key_driver d" "link_up s"
  shows "\<exists>s' f meta md. sendEAPOLKey c d step rc False False True s = Some s' \<and> stack_ok s' \<and> tx_core s' = tx_core s \<and> k_answers s' = []
    \<and> k_fx s' = k_fx s @ [FxTx f meta, FxFreeMbuf]
    \<and> ap_decap f = Some md \<and> md_protocol md = ETH_P_PAE \<and> md_pn md = None \<and> md_payload md = reply_frame step rc s"
proof -
  let ?m = "reply_packet step rc s"
  note m = reply_packet_facts [OF assms(1,3), of step]
  have mk: "rtw88_make_packet_mbuf ?m s = (Some ?m, s)"
    using assms(5) by (simp add: rtw88_make_packet_mbuf_def link_up_def ask_nil del: ask_eq)
  obtain s' where s': "txDataFrame d ?m s = Some (True, s')" "tx_outcome ?m s True s'" "k_answers s' = []"
    by (rule txDataFrame_sends [OF assms(1) _ _ _ _ _ m(1,2), of d]) (use assms(4,5) in \<open>simp_all add: key_driver_def link_up_def has_ops_def\<close>)
  have np: "tx_protected ETH_P_PAE s = False" by (simp add: tx_protected_def)
  show ?thesis unfolding sendEAPOLKey_eq [OF assms(1-3)] mk
    using s' decap_data_frame [OF assms(1) m(1)] by (simp add: tx_outcome_def Let_def m(3,4) np)
qed

lemma installKey_success:
  assumes "key_driver d" "k_hw s \<noteq> None" "k_answers s = []"
    and "(cipher = WLAN_CIPHER_SUITE_CCMP \<and> length tk = 16) \<or> (cipher = WLAN_CIPHER_SUITE_TKIP \<and> length tk = 32)"
  shows "\<exists>idx fs. installKey d pw i cipher tk s = (True,
    (let t = set_slot pw (Some ((new_key pw i cipher tk)\<lparr>kc_hw_key_idx := idx\<rparr>))
               (s\<lparr>k_fx := k_fx s @ fs @ [FxSetKey SET_KEY pw (new_key pw i cipher tk)]\<rparr>)
     in if pw then t\<lparr>k_ccmpTxPn := replicate 6 0\<rparr> else t))"
proof -
  obtain f where f: "d_set_key d = Some f" "\<And>k. fst (f SET_KEY k) = 0" "has_ops d s" using assms(1,2) by (auto simp: key_driver_def has_ops_def)
  define fs where "fs = (case slot_of pw s of None \<Rightarrow> [] | Some key \<Rightarrow> [FxSetKey DISABLE_KEY pw key])"
  define t where "t = set_slot pw None (disable_slot pw s)"
  have t: "t = set_slot pw None (s\<lparr>k_fx := k_fx s @ fs\<rparr>)"
    by (auto simp: t_def disable_slot_def fs_def emit_def split: option.splits)
  then have "ask t = (True, t)" using assms(3) by (intro ask_nil) (simp add: set_slot_def)
  moreover have c: "WLAN_CIPHER_SUITE_CCMP \<noteq> WLAN_CIPHER_SUITE_TKIP" by (simp add: WLAN_CIPHER_SUITE_CCMP_def WLAN_CIPHER_SUITE_TKIP_def)
  moreover obtain idx where idx: "f SET_KEY (new_key pw i cipher tk) = (0, idx)" using f(2) by (metis surjective_pairing)
  ultimately have "installKey d pw i cipher tk s = (True, (let u = set_slot pw (Some ((new_key pw i cipher tk)\<lparr>kc_hw_key_idx := idx\<rparr>))
      (emit (FxSetKey SET_KEY pw (new_key pw i cipher tk)) t) in if pw then u\<lparr>k_ccmpTxPn := replicate 6 0\<rparr> else u))"
    using f(1,3) assms(4) unfolding installKey_def t_def [symmetric] by (auto simp: Let_def simp del: ask_eq)
  then show ?thesis unfolding t by (intro exI [of _ idx] exI [of _ fs]) (simp add: Let_def set_slot_def emit_def)
qed

lemma startTxAggregation_keeps [simp]:
  "k_state (startTxAggregation d s) = k_state s" "k_ptkConf (startTxAggregation d s) = k_ptkConf s"
  "k_gtkConf (startTxAggregation d s) = k_gtkConf s" "stack_ok (startTxAggregation d s) = stack_ok s"
  "\<exists>es. k_fx (startTxAggregation d s) = k_fx s @ es"
  by (auto simp: startTxAggregation_def sendAddbaRequest_def txMgmtFrame_def next_txSeq_def Let_def stack_ok_def split: option.splits)

section \<open>The access point's messages\<close>

text \<open>
  The first and third message of an authenticator, in the clear and with the key data \<open>p\<close> wrapped under
  the key encryption key and the whole signed under the key confirmation key of \<open>ptk\<close>.
\<close>

definition ap_m1 :: "bytes \<Rightarrow> bytes \<Rightarrow> bytes" where
  "ap_m1 rc anonce = eapol_key_frame 0x008A rc anonce (replicate 16 0) []"

definition ap_m3 :: "bytes \<Rightarrow> bytes \<Rightarrow> bytes \<Rightarrow> bytes \<Rightarrow> bytes" where
  "ap_m3 ptk rc anonce p = signed_frame (take 16 ptk) 0x13CA rc anonce (std_wrap (block ptk 16 16) p)"

lemma handle_m1:
  assumes "length rc = 8" "length anonce = 32"
  shows "handleEAPOL c d rnd (ap_m1 rc anonce) s = eapol_m1 c d rnd (ap_m1 rc anonce) s"
proof -
  note lay = key_frame_layout [OF assms, of "replicate 16 0" "[]", where ki = "0x008A", folded ap_m1_def]
  show ?thesis unfolding handleEAPOL_def using lay by simp
qed

lemma wrap_length: "length kek = 16 \<Longrightarrow> length p mod 8 = 0 \<Longrightarrow> length (std_wrap kek p) = length p + 8"
  using wrap_unwraps [of kek p "length p div 8"] by auto

lemma handle_m3:
  assumes "length ptk = 64" "length rc = 8" "length anonce = 32" "length p mod 8 = 0" "length p \<le> 256"
  shows "handleEAPOL c d rnd (ap_m3 ptk rc anonce p) s = eapol_m3 c d 0x13CA (length (ap_m3 ptk rc anonce p)) (length p + 8) (ap_m3 ptk rc anonce p) s"
    "length (ap_m3 ptk rc anonce p) = 107 + length p" "block (ap_m3 ptk rc anonce p) 9 8 = rc"
    "block (ap_m3 ptk rc anonce p) 99 (length p + 8) = std_wrap (block ptk 16 16) p"
proof -
  let ?kd = "std_wrap (block ptk 16 16) p" and ?f = "ap_m3 ptk rc anonce p"
  have kd: "length ?kd = length p + 8" using assms(1,4) by (intro wrap_length) (simp_all add: block_def)
  then have kd': "length ?kd \<le> 300" using assms(5) by simp
  note lay = key_frame_layout [OF assms(2,3) length_mic_of [of "take 16 ptk" "0x13CA" rc anonce ?kd] kd', where ki = "0x13CA",
    folded signed_frame_def, folded ap_m3_def]
  have u: "unat (95 + of_nat (length ?kd) :: u16) = 95 + length ?kd" "unat (of_nat (length ?kd) :: u16) = length ?kd"
    using kd' unat_of_nat_small [of "95 + length ?kd", where 'a = 16] unat_of_nat_small [of "length ?kd", where 'a = 16] by simp_all
  show "length ?f = 107 + length p" "block ?f 9 8 = rc" "block ?f 99 (length p + 8) = ?kd"
    using lay(1,5,9) kd by (simp_all add: block_def)
  show "handleEAPOL c d rnd ?f s = eapol_m3 c d 0x13CA (length ?f) (length p + 8) ?f s"
    unfolding handleEAPOL_def using lay(1-4,8) u kd by simp
qed

section \<open>The handshake\<close>

lemma derivePTK_total:
  assumes "sha_stack c" "stack_ok s" "length anonce = 32" "length snonce = 32"
  shows "\<exists>ptk. derivePTK c (k_pmk s) anonce snonce (k_macAddr s) (b_bssid (k_targetBSS s)) = Some ptk \<and> length ptk = 64"
proof -
  have "derivePTK c (k_pmk s) anonce snonce (k_macAddr s) (b_bssid (k_targetBSS s)) =
      Some (std_prf (k_pmk s) ptk_label (drop 23 (ptk_data anonce snonce (k_macAddr s) (b_bssid (k_targetBSS s)))) 64)"
    using stack_okD [OF assms(2)] assms by (intro derivePTK_std) simp_all
  moreover have "length (std_prf k l x 64) = 64" for k l x
  proof -
    have "[0..<64 div 20 + 1] = [0, 1, 2, 3 :: nat]" by (simp add: upt_rec)
    then show ?thesis by (simp add: std_prf_def)
  qed
  ultimately show ?thesis by simp
qed

lemma m1_result:
  assumes "stack_ok s" "sha_stack c" "length rnd = 32" "length rc = 8" "length anonce = 32"
    and "derivePTK c (k_pmk s) anonce rnd (k_macAddr s) (b_bssid (k_targetBSS s)) = Some ptk" "length ptk = 64"
  defines "t \<equiv> s\<lparr>k_anonce := anonce, k_snonce := rnd, k_ptk := ptk, k_replayCtr := rc\<rparr>"
  shows "handleEAPOL c d rnd (ap_m1 rc anonce) s = do { s \<leftarrow> sendEAPOLKey c d 2 rc False False True t; Some (emit (FxTimer 5000) s) }"
    "stack_ok t"
proof -
  note lay = key_frame_layout [OF assms(4,5), of "replicate 16 0" "[]", where ki = "0x008A", folded ap_m1_def]
  show "handleEAPOL c d rnd (ap_m1 rc anonce) s = do { s \<leftarrow> sendEAPOLKey c d 2 rc False False True t; Some (emit (FxTimer 5000) s) }"
    unfolding handle_m1 [OF assms(4,5)] eapol_m1_def Let_def using lay(5,6) assms(6) by (simp add: t_def)
  show "stack_ok t" using assms(1,3-5,7) by (simp add: t_def stack_ok_def)
qed

lemma m3_keys:
  assumes "stack_ok s" "key_driver d" "link_up s" "length (k_ptk s) = 64"
    and "length gtk = (if b_group_cipher (k_targetBSS s) = WLAN_CIPHER_SUITE_TKIP then 32 else 16)"
  defines "grp \<equiv> if b_group_cipher (k_targetBSS s) = WLAN_CIPHER_SUITE_TKIP then WLAN_CIPHER_SUITE_TKIP else WLAN_CIPHER_SUITE_CCMP"
  obtains s1 s2 kp kg where
    "installKey d True 0 WLAN_CIPHER_SUITE_CCMP (block (k_ptk s) 32 16) s = (True, s1)"
    "installKey d False i grp gtk s1 = (True, s2)" "k_targetBSS s1 = k_targetBSS s"
    "k_ptkConf s2 = Some kp" "take 16 (kc_key kp) = block (k_ptk s) 32 16" "kc_cipher kp = WLAN_CIPHER_SUITE_CCMP"
    "k_gtkConf s2 = Some kg" "take (length gtk) (kc_key kg) = gtk" "kc_cipher kg = grp" "kc_keyidx kg = sint i"
    "stack_ok s2" "link_up s2" "k_replayCtr s2 = k_replayCtr s"
    "FxSetKey SET_KEY True (new_key True 0 WLAN_CIPHER_SUITE_CCMP (block (k_ptk s) 32 16)) \<in> set (k_fx s2)"
    "FxSetKey SET_KEY False (new_key False i grp gtk) \<in> set (k_fx s2)"
proof -
  let ?tk = "block (k_ptk s) 32 16"
  have tk: "length ?tk = 16" using assms(4) by (simp add: block_def)
  obtain i1 f1 where 1: "installKey d True 0 WLAN_CIPHER_SUITE_CCMP ?tk s = (True,
      (let t = set_slot True (Some ((new_key True 0 WLAN_CIPHER_SUITE_CCMP ?tk)\<lparr>kc_hw_key_idx := i1\<rparr>))
         (s\<lparr>k_fx := k_fx s @ f1 @ [FxSetKey SET_KEY True (new_key True 0 WLAN_CIPHER_SUITE_CCMP ?tk)]\<rparr>)
       in if True then t\<lparr>k_ccmpTxPn := replicate 6 0\<rparr> else t))"
    using installKey_success [OF assms(2), of s WLAN_CIPHER_SUITE_CCMP ?tk True 0] assms(3) tk by (auto simp: link_up_def)
  define s1 where "s1 = s\<lparr>k_ptkConf := Some ((new_key True 0 WLAN_CIPHER_SUITE_CCMP ?tk)\<lparr>kc_hw_key_idx := i1\<rparr>),
      k_ccmpTxPn := replicate 6 0, k_fx := k_fx s @ f1 @ [FxSetKey SET_KEY True (new_key True 0 WLAN_CIPHER_SUITE_CCMP ?tk)]\<rparr>"
  have e1: "installKey d True 0 WLAN_CIPHER_SUITE_CCMP ?tk s = (True, s1)" unfolding 1 by (simp add: s1_def set_slot_def)
  have h1: "k_hw s1 \<noteq> None" "k_answers s1 = []" using assms(3) by (simp_all add: s1_def link_up_def)
  have g: "(grp = WLAN_CIPHER_SUITE_CCMP \<and> length gtk = 16) \<or> (grp = WLAN_CIPHER_SUITE_TKIP \<and> length gtk = 32)"
    using assms(5) by (simp add: grp_def)
  obtain i2 f2 where 2: "installKey d False i grp gtk s1 = (True,
      (let t = set_slot False (Some ((new_key False i grp gtk)\<lparr>kc_hw_key_idx := i2\<rparr>))
         (s1\<lparr>k_fx := k_fx s1 @ f2 @ [FxSetKey SET_KEY False (new_key False i grp gtk)]\<rparr>)
       in if False then t\<lparr>k_ccmpTxPn := replicate 6 0\<rparr> else t))"
    using installKey_success [OF assms(2) h1 g, of False i] by blast
  define s2 where "s2 = s1\<lparr>k_gtkConf := Some ((new_key False i grp gtk)\<lparr>kc_hw_key_idx := i2\<rparr>),
      k_fx := k_fx s1 @ f2 @ [FxSetKey SET_KEY False (new_key False i grp gtk)]\<rparr>"
  have e2: "installKey d False i grp gtk s1 = (True, s2)" unfolding 2 by (simp add: s2_def set_slot_def)
  have ok: "stack_ok s2" "link_up s2" using assms(1,3) by (simp_all add: s2_def s1_def stack_ok_def link_up_def)
  show thesis
    by (rule that [OF e1 e2 _ _ _ _ _ _ _ _ ok, of "(new_key True 0 WLAN_CIPHER_SUITE_CCMP ?tk)\<lparr>kc_hw_key_idx := i1\<rparr>"
          "(new_key False i grp gtk)\<lparr>kc_hw_key_idx := i2\<rparr>"], unfold s2_def s1_def) (use tk in \<open>simp_all add: new_key_def\<close>)
qed

lemma m3_connects:
  assumes "stack_ok s" "sha_stack c" "key_driver d" "link_up s" "length anonce = 32" "length rc = 8"
    and p: "length p mod 8 = 0" "8 \<le> length p" "length p \<le> 256" "extract_gtk_from_kde p = Some (gtk, idx)"
    and "length gtk = (if b_group_cipher (k_targetBSS s) = WLAN_CIPHER_SUITE_TKIP then 32 else 16)"
  shows "\<exists>s2 kp kg. handleEAPOL c d rnd (ap_m3 (k_ptk s) rc anonce p) s = Some s2 \<and> k_state s2 = RTW88_STATE_CONNECTED
    \<and> k_ptkConf s2 = Some kp \<and> kc_cipher kp = WLAN_CIPHER_SUITE_CCMP \<and> take 16 (kc_key kp) = block (k_ptk s) 32 16
    \<and> k_gtkConf s2 = Some kg \<and> take (length gtk) (kc_key kg) = gtk \<and> kc_keyidx kg = sint idx"
proof -
  let ?ptk = "k_ptk s" and ?f = "ap_m3 (k_ptk s) rc anonce p"
  let ?grp = "if b_group_cipher (k_targetBSS s) = WLAN_CIPHER_SUITE_TKIP then WLAN_CIPHER_SUITE_TKIP else WLAN_CIPHER_SUITE_CCMP"
  have l: "length ?ptk = 64" using stack_okD [OF assms(1)] by simp
  note m3 = handle_m3 [OF l assms(6,5) p(1,3)]
  have kek: "length (block ?ptk 16 16) = 16" "length (take 16 ?ptk) = 16" using l by (simp_all add: block_def)
  have mic: "eapol_mic_ok c True (take 16 ?ptk) ?f = Some True"
    unfolding ap_m3_def using kek p(3) wrap_length [OF kek(1) p(1)] by (intro signed_frame_valid assms(2,5,6)) simp_all
  have unwrap: "aes_unwrap_128 (block ?ptk 16 16) (std_wrap (block ?ptk 16 16) p) = Some (Some p)"
    using unwrap_exact [OF kek(1), of "std_wrap (block ?ptk 16 16) p" p] p by auto
  have "std_wrap (block ?ptk 16 16) p \<noteq> []" using wrap_length [OF kek(1) p(1)] by auto
  then have gtk: "m3_gtk 0x13CA ?ptk (block ?f 99 (length p + 8)) = Some (Some (Some (gtk, idx)))"
    unfolding m3(4) m3_gtk_def using unwrap p(4) by simp
  define t where "t = s\<lparr>k_replayCtr := rc\<rparr>"
  have t: "stack_ok t" "link_up t" "k_targetBSS t = k_targetBSS s" "k_ptk t = ?ptk" "k_replayCtr t = rc"
    using assms(1,4,6) by (simp_all add: t_def stack_ok_def link_up_def)
  obtain s1 s2 kp kg where k: "installKey d True 0 WLAN_CIPHER_SUITE_CCMP (block ?ptk 32 16) t = (True, s1)"
    "installKey d False idx ?grp gtk s1 = (True, s2)" "k_targetBSS s1 = k_targetBSS s"
    "k_ptkConf s2 = Some kp" "take 16 (kc_key kp) = block ?ptk 32 16" "kc_cipher kp = WLAN_CIPHER_SUITE_CCMP"
    "k_gtkConf s2 = Some kg" "take (length gtk) (kc_key kg) = gtk" "kc_cipher kg = ?grp" "kc_keyidx kg = sint idx"
    "stack_ok s2" "link_up s2" "k_replayCtr s2 = rc"
    "FxSetKey SET_KEY True (new_key True 0 WLAN_CIPHER_SUITE_CCMP (block ?ptk 32 16)) \<in> set (k_fx s2)"
    "FxSetKey SET_KEY False (new_key False idx ?grp gtk) \<in> set (k_fx s2)"
    by (rule m3_keys [OF t(1) assms(3) t(2), of gtk idx, unfolded t(3-5)]) (use assms(11) l in \<open>simp_all, blast?\<close>)
  obtain u where u: "sendEAPOLKey c d 4 rc False False True s2 = Some u" "tx_core u = tx_core s2"
    using sendEAPOLKey_total [OF k(11) assms(2,6), of d 4] by blast
  have ask: "ask s = (True, s)" using assms(4) by (intro ask_nil) (simp add: link_up_def)
  have g0: "length gtk \<noteq> 0" using assms(11) by (simp split: if_splits)
  have len: "take (length ?f) ?f = ?f" "\<not> 99 + (length p + 8) > length ?f" using m3(2) by simp_all
  define w where "w = (if k_parent u then emit (FxLink True) (emit FxTimerCancel (u\<lparr>k_state := RTW88_STATE_CONNECTED\<rparr>))
      else emit FxTimerCancel (u\<lparr>k_state := RTW88_STATE_CONNECTED\<rparr>))"
  have "handleEAPOL c d rnd ?f s = Some (startTxAggregation d w)"
    unfolding m3(1) eapol_m3_def ask Let_def case_prod_conv len(1) mic gtk m3(3) t_def [symmetric]
    using len(2) g0 k(1,2,13) u(1) by (simp add: k(3) t(4) w_def)
  moreover have "k_state w = RTW88_STATE_CONNECTED" "k_ptkConf w = k_ptkConf s2" "k_gtkConf w = k_gtkConf s2"
    using tx_coreD(31,32) [OF u(2)] by (simp_all add: w_def)
  ultimately show ?thesis using k(4-8,10) by simp
qed

text \<open>
  C6: The four-way handshake completes and both ends hold the same keys. Take an associated station with a working
  driver and an access point that derives the pairwise key from the same master key and nonces, as seen
  from its side. Message 1 makes the station send message 2: in the clear, with a valid integrity code under the
  access point's key, the replay counter of message 1, the station's nonce and its selected RSN element. A
  message 3 that carries a group key, wrapped and signed under the access point's keys, then connects the station:
  it installs the temporal key of the access point as the pairwise key and the access point's group key,
  with its index, for the group.
\<close>

theorem four_way_handshake_completes:
  assumes "stack_ok s" "sha_stack c" "key_driver d" "link_up s"
    and "length rnd = 32" "length anonce = 32" "length rc1 = 8" "length rc2 = 8"
    and ptk: "derivePTK c (k_pmk s) rnd anonce (b_bssid (k_targetBSS s)) (k_macAddr s) = Some ptk"
    and "length p mod 8 = 0" "8 \<le> length p" "length p \<le> 256" "extract_gtk_from_kde p = Some (gtk, idx)"
    and "length gtk = (if b_group_cipher (k_targetBSS s) = WLAN_CIPHER_SUITE_TKIP then 32 else 16)"
  shows "\<exists>s1 s2 f meta md kp kg. handleEAPOL c d rnd (ap_m1 rc1 anonce) s = Some s1
    \<and> k_fx s1 = k_fx s @ [FxTx f meta, FxFreeMbuf, FxTimer 5000] \<and> ap_decap f = Some md
    \<and> md_protocol md = ETH_P_PAE \<and> md_pn md = None \<and> eapol_mic_ok c True (take 16 ptk) (md_payload md) = Some True
    \<and> block (md_payload md) 9 8 = rc1 \<and> block (md_payload md) 17 32 = rnd
    \<and> drop 99 (md_payload md) = rtw88BuildSelectedRsnIe (b_group_cipher (k_targetBSS s))
    \<and> handleEAPOL c d rnd2 (ap_m3 ptk rc2 anonce p) s1 = Some s2 \<and> k_state s2 = RTW88_STATE_CONNECTED
    \<and> k_ptkConf s2 = Some kp \<and> kc_cipher kp = WLAN_CIPHER_SUITE_CCMP \<and> take 16 (kc_key kp) = block ptk 32 16
    \<and> k_gtkConf s2 = Some kg \<and> take (length gtk) (kc_key kg) = gtk \<and> kc_keyidx kg = sint idx"
proof -
  have dims: "length (k_macAddr s) = length (b_bssid (k_targetBSS s))" using stack_okD [OF assms(1)] by simp
  have "ptk_data anonce rnd (k_macAddr s) (b_bssid (k_targetBSS s)) = ptk_data rnd anonce (b_bssid (k_targetBSS s)) (k_macAddr s)"
    using ptk_data_swap [OF dims, of rnd anonce] assms(5,6) by simp
  then have ptk': "derivePTK c (k_pmk s) anonce rnd (k_macAddr s) (b_bssid (k_targetBSS s)) = Some ptk"
    using ptk by (simp add: derivePTK_def)
  then have l: "length ptk = 64" using derivePTK_total [OF assms(2,1,6,5)] by simp
  define t where "t = s\<lparr>k_anonce := anonce, k_snonce := rnd, k_ptk := ptk, k_replayCtr := rc1\<rparr>"
  note m1 = m1_result [OF assms(1,2,5,7,6) ptk' l, folded t_def]
  have "link_up t" using assms(4) by (simp add: t_def link_up_def)
  then obtain u f meta md where u: "sendEAPOLKey c d 2 rc1 False False True t = Some u" "stack_ok u" "tx_core u = tx_core t" "k_answers u = []"
      "k_fx u = k_fx t @ [FxTx f meta, FxFreeMbuf]" "ap_decap f = Some md" "md_protocol md = ETH_P_PAE" "md_pn md = None"
      "md_payload md = reply_frame 2 rc1 t"
    using sendEAPOLKey_sends [OF m1(2) assms(2,7,3)] by blast
  define s1 where "s1 = emit (FxTimer 5000) u"
  have s1: "stack_ok s1" "link_up s1" "k_ptk s1 = ptk" "k_targetBSS s1 = k_targetBSS s"
    using u(2,4) \<open>link_up t\<close> tx_coreD(6-8,27,30) [OF u(3)] by (simp_all add: s1_def link_up_def t_def)
  have gtk: "length gtk = (if b_group_cipher (k_targetBSS s1) = WLAN_CIPHER_SUITE_TKIP then 32 else 16)" using assms(14) s1(4) by simp
  obtain s2 kp kg where s2: "handleEAPOL c d rnd2 (ap_m3 ptk rc2 anonce p) s1 = Some s2" "k_state s2 = RTW88_STATE_CONNECTED"
    "k_ptkConf s2 = Some kp" "kc_cipher kp = WLAN_CIPHER_SUITE_CCMP" "take 16 (kc_key kp) = block ptk 32 16"
    "k_gtkConf s2 = Some kg" "take (length gtk) (kc_key kg) = gtk" "kc_keyidx kg = sint idx"
    using m3_connects [OF s1(1) assms(2,3) s1(2) assms(6,8,10-13) gtk] unfolding s1(3) by blast
  have "handleEAPOL c d rnd (ap_m1 rc1 anonce) s = Some s1" unfolding m1(1) u(1) by (simp add: s1_def)
  moreover have "k_fx s1 = k_fx s @ [FxTx f meta, FxFreeMbuf, FxTimer 5000]" using u(5) by (simp add: s1_def t_def)
  moreover have "md_payload md = signed_frame (take 16 ptk) 0x010A rc1 rnd (rtw88BuildSelectedRsnIe (b_group_cipher (k_targetBSS s)))"
    unfolding u(9) reply_frame_def by (simp add: t_def key_info_values reply_data_def)
  moreover have "eapol_mic_ok c True (take 16 ptk) (signed_frame (take 16 ptk) 0x010A rc1 rnd kd) = Some True"
      "block (signed_frame (take 16 ptk) 0x010A rc1 rnd kd) 9 8 = rc1" "block (signed_frame (take 16 ptk) 0x010A rc1 rnd kd) 17 32 = rnd"
      "drop 99 (signed_frame (take 16 ptk) 0x010A rc1 rnd kd) = kd" if "length kd \<le> 300" for kd
    using signed_frame_valid [OF assms(2) _ assms(7,5) that, of "take 16 ptk" "0x010A"] l
      key_frame_layout(5,6,9) [OF assms(7,5) length_mic_of that, of "0x010A" "take 16 ptk" "0x010A" rc1 rnd kd] by (simp_all add: signed_frame_def)
  ultimately show ?thesis using u(6-8) s2 l
    by (intro exI [of _ s1] exI [of _ s2] exI [of _ f] exI [of _ meta] exI [of _ md] exI [of _ kp] exI [of _ kg]) simp
qed

definition demo_ready :: RTW88IEEE80211 where
  "demo_ready = stack0\<lparr>k_hw := Some demo_hw, k_vif := Some zero_vif, k_sta := Some zero_sta, k_wpa2 := True,
     k_state := RTW88_STATE_HANDSHAKING\<rparr>"

definition demo_kde :: bytes where
  "demo_kde = enc_el (0xdd, [0x00, 0x0f, 0xac, 0x01, 1, 0] @ replicate 16 9)"

lemma demo_ready_ok: "stack_ok demo_ready" "link_up demo_ready" "key_driver demo_drv" "sha_stack demo_stack"
  using stack0_ok
  by (simp_all add: demo_ready_def stack_ok_def link_up_def key_driver_def demo_drv_def sha_stack_def demo_stack_def stack0_def)

lemma demo_kde_ok: "length demo_kde = 24" "extract_gtk_from_kde demo_kde = Some (replicate 16 9, 1)"
  using gtk_step [of "[0x00, 0x0f, 0xac, 0x01, 1, 0] @ replicate 16 9" "0xdd" "[]"]
  by (simp_all add: demo_kde_def is_gtk_def) (simp add: enc_el_def)

theorem four_way_handshake_completes_witness:
  "\<exists>ptk s1 s2. handleEAPOL demo_stack demo_drv (replicate 32 3) (ap_m1 (replicate 8 0) (replicate 32 2)) demo_ready = Some s1
     \<and> handleEAPOL demo_stack demo_drv (replicate 32 3) (ap_m3 ptk (replicate 8 1) (replicate 32 2) demo_kde) s1 = Some s2
     \<and> k_state s2 = RTW88_STATE_CONNECTED"
proof -
  have l: "length (k_pmk demo_ready) = 32" "length (b_bssid (k_targetBSS demo_ready)) = 6" "length (k_macAddr demo_ready) = 6"
    using stack_okD [OF demo_ready_ok(1)] by simp_all
  obtain ptk where ptk: "derivePTK demo_stack (k_pmk demo_ready) (replicate 32 3) (replicate 32 2)
      (b_bssid (k_targetBSS demo_ready)) (k_macAddr demo_ready) = Some ptk"
    using derivePTK_std [OF demo_ready_ok(4) l(1) _ _ l(2,3), of "replicate 32 3" "replicate 32 2"] by auto
  have g: "length (replicate 16 (9 :: u8)) = (if b_group_cipher (k_targetBSS demo_ready) = WLAN_CIPHER_SUITE_TKIP then 32 else 16)"
    by (simp add: demo_ready_def stack0_def zero_bss_def WLAN_CIPHER_SUITE_TKIP_def)
  show ?thesis
    using four_way_handshake_completes [OF demo_ready_ok(1,4,3,2) _ _ _ _ ptk _ _ _ demo_kde_ok(2) g, of "replicate 8 0" "replicate 8 1" "replicate 32 3"]
    unfolding demo_kde_ok(1) by (simp only: length_replicate simp_thms) fastforce
qed

section \<open>Safety\<close>

lemma stack_ok_state [simp]: "stack_ok (s\<lparr>k_state := x\<rparr>) = stack_ok s"
  by (simp add: stack_ok_def)

text \<open>The part of the state the handshake does not change.\<close>

definition hs_core :: "RTW88IEEE80211 \<Rightarrow> RTW88IEEE80211" where
  "hs_core s = (tx_core s)\<lparr>k_state := RTW88_STATE_IDLE, k_ptk := [], k_ptkConf := None, k_gtkConf := None, k_anonce := [],
     k_snonce := [], k_replayCtr := [], k_baDialog := 0\<rparr>"

lemma hs_core_updates [simp]:
  "hs_core (s\<lparr>k_state := x1\<rparr>) = hs_core s" "hs_core (s\<lparr>k_ptk := x2\<rparr>) = hs_core s" "hs_core (s\<lparr>k_ptkConf := x3\<rparr>) = hs_core s"
  "hs_core (s\<lparr>k_gtkConf := x3\<rparr>) = hs_core s" "hs_core (s\<lparr>k_anonce := x2\<rparr>) = hs_core s" "hs_core (s\<lparr>k_snonce := x2\<rparr>) = hs_core s"
  "hs_core (s\<lparr>k_replayCtr := x2\<rparr>) = hs_core s" "hs_core (s\<lparr>k_baDialog := x4\<rparr>) = hs_core s" "hs_core (s\<lparr>k_ccmpTxPn := x2\<rparr>) = hs_core s"
  "hs_core (s\<lparr>k_answers := x5\<rparr>) = hs_core s" "hs_core (s\<lparr>k_fx := x6\<rparr>) = hs_core s" "hs_core (emit e s) = hs_core s" "hs_core (next_txSeq s) = hs_core s"
  by (simp_all add: hs_core_def tx_core_def emit_def next_txSeq_def)

lemma hs_core_tx: "tx_core s' = tx_core s \<Longrightarrow> hs_core s' = hs_core s"
  by (simp add: hs_core_def)

lemma core_inv: "h s' = h s \<Longrightarrow> (\<And>x. f (h x) = f x) \<Longrightarrow> f s' = f s"
  by metis

lemma hs_coreD:
  assumes "hs_core s' = hs_core s"
  shows "k_macAddr s' = k_macAddr s" "k_targetBSS s' = k_targetBSS s" "k_rxBa s' = k_rxBa s" "k_parent s' = k_parent s"
    "k_scanReturnState s' = k_scanReturnState s" "k_externalSupplicant s' = k_externalSupplicant s" "k_wpa2 s' = k_wpa2 s"
    "k_hw s' = k_hw s" "k_vif s' = k_vif s" "k_sta s' = k_sta s" "k_scan s' = k_scan s" "k_powered s' = k_powered s"
  by (rule core_inv [where h = hs_core, OF assms], simp add: hs_core_def tx_core_def)+

lemma installKey_effect:
  assumes "installKey d pw i cipher tk s = (ok, s')"
  shows "stack_ok s \<Longrightarrow> stack_ok s'" "k_state s' = k_state s" "k_ptk s' = k_ptk s" "k_targetBSS s' = k_targetBSS s"
    "k_replayCtr s' = k_replayCtr s" "ok \<Longrightarrow> \<exists>idx. slot_of pw s' = Some ((new_key pw i cipher tk)\<lparr>kc_hw_key_idx := idx\<rparr>)"
    "\<not> pw \<Longrightarrow> k_ptkConf s' = k_ptkConf s" "hs_core s' = hs_core s"
proof -
  let ?key = "new_key pw i cipher tk"
  define t where "t = set_slot pw None (disable_slot pw s)"
  define bad where "bad \<longleftrightarrow> \<not> has_ops d s \<or> length tk = 0 \<or> length tk > 32
    \<or> (cipher \<noteq> WLAN_CIPHER_SUITE_CCMP \<and> cipher \<noteq> WLAN_CIPHER_SUITE_TKIP)
    \<or> (cipher = WLAN_CIPHER_SUITE_CCMP \<and> length tk \<noteq> 16) \<or> (cipher = WLAN_CIPHER_SUITE_TKIP \<and> length tk \<noteq> 32)"
  have t: "stack_ok s \<Longrightarrow> stack_ok t" "k_state t = k_state s" "k_ptk t = k_ptk s" "k_targetBSS t = k_targetBSS s"
    "k_replayCtr t = k_replayCtr s" "\<not> pw \<Longrightarrow> k_ptkConf t = k_ptkConf s" "hs_core t = hs_core s"
    by (auto simp: t_def set_slot_def disable_slot_def stack_ok_def split: option.splits)
  consider "ok = False" "s' = s" | x where "ok = False" "s' = t\<lparr>k_answers := x\<rparr>"
    | x where "ok = False" "s' = emit (FxSetKey SET_KEY pw ?key) (t\<lparr>k_answers := x\<rparr>)"
    | x idx where "ok = True" "s' = (let u = set_slot pw (Some (?key\<lparr>kc_hw_key_idx := idx\<rparr>)) (emit (FxSetKey SET_KEY pw ?key) (t\<lparr>k_answers := x\<rparr>))
        in if pw then u\<lparr>k_ccmpTxPn := replicate 6 0\<rparr> else u)"
  proof (cases "d_set_key d = None \<or> bad")
    case True
    then have "installKey d pw i cipher tk s = (False, s)" by (auto simp: installKey_def bad_def split: option.splits)
    then show thesis using assms that(1) by simp
  next
    case False
    then obtain f where f: "d_set_key d = Some f" "\<not> bad" by auto
    obtain ret idx where r: "f SET_KEY ?key = (ret, idx)" by fastforce
    have b: "(\<not> has_ops d s \<or> length tk = 0 \<or> length tk > 32) = False" "(cipher \<noteq> WLAN_CIPHER_SUITE_CCMP \<and> cipher \<noteq> WLAN_CIPHER_SUITE_TKIP) = False"
      "(cipher = WLAN_CIPHER_SUITE_CCMP \<and> length tk \<noteq> 16) = False" "(cipher = WLAN_CIPHER_SUITE_TKIP \<and> length tk \<noteq> 32) = False"
      using f(2) unfolding bad_def by blast+
    have "installKey d pw i cipher tk s = (if \<not> answer t then (False, t\<lparr>k_answers := tl (k_answers t)\<rparr>)
        else let v = emit (FxSetKey SET_KEY pw ?key) (t\<lparr>k_answers := tl (k_answers t)\<rparr>)
        in if ret \<noteq> 0 then (False, v) else (True, let u = set_slot pw (Some (?key\<lparr>kc_hw_key_idx := idx\<rparr>)) v
             in if pw then u\<lparr>k_ccmpTxPn := replicate 6 0\<rparr> else u))"
      unfolding installKey_def f(1) option.case b if_False t_def [symmetric] by (simp add: r Let_def)
    note eq = this [unfolded assms]
    consider "\<not> answer t" | "answer t" "ret \<noteq> 0" | "answer t" "ret = 0" by blast
    then show thesis
    proof cases
      case 1
      show thesis by (rule that(2) [of "tl (k_answers t)"]) (use eq 1 in \<open>simp_all only: if_True simp_thms prod.inject\<close>)
    next
      case 2
      show thesis by (rule that(3) [of "tl (k_answers t)"]) (use eq 2 in \<open>simp_all only: if_True if_False simp_thms Let_def prod.inject\<close>)
    next
      case 3
      show thesis by (rule that(4) [of idx "tl (k_answers t)"]) (use eq 3 in \<open>simp_all only: if_True if_False simp_thms Let_def prod.inject\<close>)
    qed
  qed
  note forms = this
  show "stack_ok s \<Longrightarrow> stack_ok s'" using t(1) by (cases rule: forms) (auto simp: set_slot_def stack_ok_def Let_def)
  show "k_state s' = k_state s" "k_ptk s' = k_ptk s" "k_targetBSS s' = k_targetBSS s" "k_replayCtr s' = k_replayCtr s"
      "\<not> pw \<Longrightarrow> k_ptkConf s' = k_ptkConf s" "hs_core s' = hs_core s"
    using t(2-7) by (cases rule: forms; simp add: set_slot_def Let_def)+
  show "ok \<Longrightarrow> \<exists>idx. slot_of pw s' = Some (?key\<lparr>kc_hw_key_idx := idx\<rparr>)"
    by (cases rule: forms) (auto simp: set_slot_def slot_of_def Let_def)
qed

lemma m3_gtk_total: "length ptk = 64 \<Longrightarrow> \<exists>g. m3_gtk ki ptk kd = Some g"
proof -
  assume "length ptk = 64"
  then obtain u where "aes_unwrap_128 (block ptk 16 16) kd = Some u" using unwrap_exact [of "block ptk 16 16" kd] by (auto simp: block_def)
  then show ?thesis by (auto simp: m3_gtk_def split: option.splits)
qed

lemma startTxAggregation_hs [simp]: "hs_core (startTxAggregation d s) = hs_core s"
  by (auto simp: startTxAggregation_def sendAddbaRequest_def txMgmtFrame_def Let_def split: option.splits)

text \<open>
  A valid third message of 802.11 under the pairwise key \<open>ptk\<close>: an EAPOL-Key packet (type 3) whose body length
  covers the key descriptor and fits the packet, with the flags Pairwise, Install, Ack and MIC, the MIC of the whole
  packet under the key confirmation key, and key data that fit the body and, where they are encrypted,
  unwrap under the key encryption key.
\<close>

definition m3_mic_valid :: "bytes \<Rightarrow> bytes \<Rightarrow> bool" where
  "m3_mic_valid ptk pkt \<longleftrightarrow>
     block pkt 81 16 = take 16 (std_hmac (take 16 ptk) (blit pkt 81 (replicate 16 0)))"

definition valid_m3 :: "bytes \<Rightarrow> bytes \<Rightarrow> bool" where
  "valid_m3 ptk eap \<longleftrightarrow>
     (\<exists>body ki kdl. rd eap 1 = Some 3 \<and> rd_be16 eap 2 = Some body \<and> rd_be16 eap 5 = Some ki \<and> rd_be16 eap 97 = Some kdl
        \<and> 99 \<le> 4 + unat body \<and> 4 + unat body \<le> length eap \<and> 99 + unat kdl \<le> 4 + unat body
        \<and> ki AND 0x0008 \<noteq> 0 \<and> ki AND 0x0040 \<noteq> 0 \<and> ki AND 0x0080 \<noteq> 0 \<and> ki AND 0x0100 \<noteq> 0
        \<and> m3_mic_valid ptk (take (4 + unat body) eap)
        \<and> (ki AND 0x1000 \<noteq> 0 \<and> kdl \<noteq> 0 \<longrightarrow> (\<exists>kd. aes_unwrap_128 (block ptk 16 16) (block eap 99 (unat kdl)) = Some (Some kd))))"

lemma mic_ok_valid:
  assumes "sha_stack c" "length pkt < 2 ^ 32" "eapol_mic_ok c True (take 16 ptk) pkt = Some True"
  shows "m3_mic_valid ptk pkt"
proof -
  have l: "97 \<le> length pkt" using assms(3) by (simp add: eapol_mic_ok_def split: if_splits)
  have "kern_hmac_sha1 c (take 16 ptk) (blit pkt 81 (replicate 16 0)) = Some (std_hmac (take 16 ptk) (blit pkt 81 (replicate 16 0)))"
    using l assms(2) by (intro hmac_stack [OF assms(1)]) (simp_all add: buf_simps)
  then show ?thesis
    using assms(3) l by (simp add: eapol_mic_ok_def memcpy_at_def m3_mic_valid_def split: if_splits)
qed

lemma m3_gtk_unwraps:
  assumes "m3_gtk ki ptk kd = Some (Some g)" "ki AND 0x1000 \<noteq> 0" "kd \<noteq> []"
  shows "\<exists>k. aes_unwrap_128 (block ptk 16 16) kd = Some (Some k)"
  using assms by (auto simp: m3_gtk_def split: option.splits bind_splits)

lemma m3_flags: "(ki :: u16) AND 0x01c8 = 0x01c8 \<Longrightarrow> ki AND 0x0008 \<noteq> 0 \<and> ki AND 0x0040 \<noteq> 0 \<and> ki AND 0x0080 \<noteq> 0 \<and> ki AND 0x0100 \<noteq> 0"
proof -
  assume a: "ki AND 0x01c8 = 0x01c8"
  have "ki AND m = 0x01c8 AND m" if "0x01c8 AND m = m" for m :: u16
    using a that by (metis and.assoc and.commute)
  from this [of "0x0008"] this [of "0x0040"] this [of "0x0080"] this [of "0x0100"] show ?thesis by simp
qed

lemma eapol_m3_safe:
  assumes "stack_ok s" "sha_stack c" "eapol_len \<le> length eap" "99 \<le> eapol_len" "eapol_len < 2 ^ 32" "k_state s \<noteq> RTW88_STATE_CONNECTED"
  shows "\<exists>s'. eapol_m3 c d ki eapol_len kdl eap s = Some s' \<and> stack_ok s' \<and> hs_core s' = hs_core s \<and> (k_state s' = k_state s
    \<or> k_state s' = RTW88_STATE_CONNECTED \<and> eapol_mic_ok c True (take 16 (k_ptk s)) (take eapol_len eap) = Some True
      \<and> 99 + kdl \<le> eapol_len \<and> (\<exists>g. m3_gtk ki (k_ptk s) (block eap 99 kdl) = Some (Some g))
      \<and> (\<exists>kp. k_ptkConf s' = Some kp \<and> kc_cipher kp = WLAN_CIPHER_SUITE_CCMP \<and> take 16 (kc_key kp) = block (k_ptk s) 32 16))"
proof -
  let ?d = "take eapol_len eap" and ?kck = "take 16 (k_ptk s)" and ?a = "s\<lparr>k_answers := tl (k_answers s)\<rparr>"
  have l: "length ?d = eapol_len" "length (k_ptk s) = 64" using assms(3) stack_okD(5) [OF assms(1)] by simp_all
  have "kern_hmac_sha1 c ?kck x = Some (std_hmac ?kck x)" if "length x = eapol_len" for x
    using that assms(5) by (intro hmac_stack [OF assms(2)]) simp_all
  then have mic: "\<exists>b. eapol_mic_ok c mem ?kck ?d = Some b" for mem
    using l assms(4) by (cases mem) (auto simp: eapol_mic_ok_def memcpy_at_def buf_simps)
  have mem: "eapol_mic_ok c False ?kck ?d = Some False" using l assms(4) by (simp add: eapol_mic_ok_def)
  obtain b where b: "eapol_mic_ok c (answer s) ?kck ?d = Some b" using mic by blast
  have bT: "b \<Longrightarrow> eapol_mic_ok c True ?kck ?d = Some True" using b mem by (cases "answer s") auto
  obtain g where g: "m3_gtk ki (k_ptk s) (block eap 99 kdl) = Some g" using m3_gtk_total [OF l(2)] by blast
  have ok: "stack_ok ?a" using assms(1) by (simp add: stack_ok_def)
  show ?thesis
  proof (cases "b \<and> 99 + kdl \<le> eapol_len \<and> g \<noteq> None")
    case False
    then have "eapol_m3 c d ki eapol_len kdl eap s = Some ?a"
      unfolding eapol_m3_def using b g by (auto simp: Let_def)
    then show ?thesis using ok by simp
  next
    case True
    then obtain gtk where gtk: "g = Some gtk" by blast
    define t where "t = ?a\<lparr>k_replayCtr := block eap 9 8\<rparr>"
    have t: "stack_ok t" "k_state t = k_state s" "k_ptk t = k_ptk s" "length (k_replayCtr t) = 8" "hs_core t = hs_core s"
      using assms(1,3,4) by (simp_all add: t_def stack_ok_def block_def)
    obtain o1 s1 where i1: "installKey d True 0 WLAN_CIPHER_SUITE_CCMP (block (k_ptk s) 32 16) t = (o1, s1)" by fastforce
    note e1 = installKey_effect [OF i1]
    define grp where "grp = (if b_group_cipher (k_targetBSS s1) = WLAN_CIPHER_SUITE_TKIP then WLAN_CIPHER_SUITE_TKIP else WLAN_CIPHER_SUITE_CCMP)"
    obtain o2 s2 where i2: "(case gtk of Some (k, i) \<Rightarrow> if length k \<noteq> 0 then installKey d False i grp k s1 else (True, s1) | None \<Rightarrow> (True, s1)) = (o2, s2)"
      by fastforce
    have e2: "stack_ok s2" "k_state s2 = k_state s" "k_ptkConf s2 = k_ptkConf s1" "k_replayCtr s2 = k_replayCtr t" "hs_core s2 = hs_core s"
      using i2 e1(1,2,5,8) t installKey_effect [of d False _ grp _ s1 o2 s2] by (auto split: option.splits if_splits)
    have code: "eapol_m3 c d ki eapol_len kdl eap s = (if \<not> o1 then Some s1 else if \<not> o2 then Some s2
        else do { s \<leftarrow> sendEAPOLKey c d 4 (k_replayCtr s2) False False True s2;
                  let s = emit FxTimerCancel (s\<lparr>k_state := RTW88_STATE_CONNECTED\<rparr>);
                      s = (if k_parent s then emit (FxLink True) s else s)
                  in Some (startTxAggregation d s) })"
      unfolding eapol_m3_def using b g gtk True i1 i2 t(3) unfolding grp_def t_def by (simp add: Let_def)
    obtain u where u: "sendEAPOLKey c d 4 (k_replayCtr s2) False False True s2 = Some u" "stack_ok u" "tx_core u = tx_core s2"
      using sendEAPOLKey_total [OF e2(1) assms(2), of "k_replayCtr s2" d 4] t(4) e2(4) by auto
    have kp: "o1 \<Longrightarrow> \<exists>kp. k_ptkConf s2 = Some kp \<and> kc_cipher kp = WLAN_CIPHER_SUITE_CCMP \<and> take 16 (kc_key kp) = block (k_ptk s) 32 16"
      using e1(6) l(2) unfolding e2(3) by (auto simp: slot_of_def new_key_def block_def)
    show ?thesis
      unfolding code using u(1,2) tx_coreD(31) [OF u(3)] hs_core_tx [OF u(3)] e1(1,2,8) t(1,2,5) e2(1,2,5) kp bT True g gtk
      by (cases o1; cases o2) (simp_all add: Let_def)
  qed
qed

lemma eapol_m1_safe:
  assumes "stack_ok s" "sha_stack c" "length rnd = 32" "99 \<le> length eap"
  shows "\<exists>s'. eapol_m1 c d rnd eap s = Some s' \<and> stack_ok s' \<and> hs_core s' = hs_core s \<and> k_state s' = k_state s"
proof -
  let ?t = "s\<lparr>k_anonce := block eap 17 32, k_snonce := rnd\<rparr>"
  have t: "stack_ok ?t" using assms(1,3,4) by (simp add: stack_ok_def block_def)
  obtain ptk where ptk: "derivePTK c (k_pmk s) (block eap 17 32) rnd (k_macAddr s) (b_bssid (k_targetBSS s)) = Some ptk" "length ptk = 64"
    using derivePTK_total [OF assms(2,1), of "block eap 17 32" rnd] assms(3,4) by (auto simp: block_def)
  let ?u = "?t\<lparr>k_ptk := ptk, k_replayCtr := block eap 9 8\<rparr>"
  have "stack_ok ?u" "length (k_replayCtr ?u) = 8" using t ptk(2) assms(4) by (simp_all add: stack_ok_def block_def)
  then obtain v where "sendEAPOLKey c d 2 (k_replayCtr ?u) False False True ?u = Some v" "stack_ok v" "tx_core v = tx_core ?u"
    using sendEAPOLKey_total [OF _ assms(2)] by blast
  then show ?thesis using ptk(1) tx_coreD(9) [of v ?u] hs_core_tx [of v ?u] by (simp add: eapol_m1_def Let_def)
qed

lemma handleEAPOL_dispatch:
  assumes "99 \<le> length eap"
  obtains "handleEAPOL c d rnd eap s = Some s" | "handleEAPOL c d rnd eap s = eapol_m1 c d rnd eap s"
  | n ki kdl where "handleEAPOL c d rnd eap s = eapol_m3 c d ki (4 + unat n) (unat kdl) eap s" "rd_be16 eap 2 = Some n"
      "4 + unat n \<le> length eap" "99 \<le> 4 + unat n" "rd eap 1 = Some 3" "rd_be16 eap 5 = Some ki" "rd_be16 eap 97 = Some kdl"
      "ki AND 0x01c8 = 0x01c8"
proof -
  obtain ty n ki kdl where r: "rd eap 1 = Some ty" "rd_be16 eap 2 = Some n" "rd_be16 eap 5 = Some ki" "rd_be16 eap 97 = Some kdl"
    using assms by (auto simp: rd_be16_def)
  note code = handleEAPOL_def [of c d rnd eap s, unfolded r Let_def bind.bind_lunit]
  consider "ty \<noteq> 3 \<or> length eap < 4 + unat n \<or> 4 + unat n < 99"
    | "ty = 3" "4 + unat n \<le> length eap" "99 \<le> 4 + unat n" by linarith
  then show thesis
  proof cases
    case 1
    then have "handleEAPOL c d rnd eap s = Some s" unfolding code by auto
    then show ?thesis by (rule that(1))
  next
    case 2
    have "handleEAPOL c d rnd eap s = (if ki AND 136 = 136 \<and> ki AND 256 = 0 then eapol_m1 c d rnd eap s
        else if ki AND 456 = 456 then eapol_m3 c d ki (4 + unat n) (unat kdl) eap s else Some s)"
      unfolding code using 2 assms by simp
    then show ?thesis using that(1,2) that(3) [OF _ r(2) 2(2,3) _ r(3,4)] r(1) 2(1) by (simp split: if_splits)
  qed
qed

lemma handleEAPOL_full:
  assumes "stack_ok s" "sha_stack c" "length rnd = 32" "k_state s \<noteq> RTW88_STATE_CONNECTED"
  shows "\<exists>s'. handleEAPOL c d rnd eap s = Some s' \<and> stack_ok s' \<and> hs_core s' = hs_core s \<and> (k_state s' = k_state s
    \<or> k_state s' = RTW88_STATE_CONNECTED \<and> valid_m3 (k_ptk s) eap
      \<and> (\<exists>n. 99 \<le> n \<and> n \<le> length eap \<and> eapol_mic_ok c True (take 16 (k_ptk s)) (take n eap) = Some True)
      \<and> (\<exists>kp. k_ptkConf s' = Some kp \<and> kc_cipher kp = WLAN_CIPHER_SUITE_CCMP \<and> take 16 (kc_key kp) = block (k_ptk s) 32 16))"
proof (cases "99 \<le> length eap")
  case True
  then show ?thesis
  proof (cases rule: handleEAPOL_dispatch [where c = c and d = d and rnd = rnd and s = s])
    case 1
    then show ?thesis using assms(1) by simp
  next
    case 2
    then show ?thesis using eapol_m1_safe [OF assms(1-3) True, of d] by auto
  next
    case (3 n ki kdl)
    have lt: "4 + unat n < 2 ^ 32" using unsigned_less [of n, where 'a = nat] by simp
    obtain s' where s': "eapol_m3 c d ki (4 + unat n) (unat kdl) eap s = Some s'" "stack_ok s'" "hs_core s' = hs_core s"
      "k_state s' = k_state s \<or> k_state s' = RTW88_STATE_CONNECTED
         \<and> eapol_mic_ok c True (take 16 (k_ptk s)) (take (4 + unat n) eap) = Some True
         \<and> 99 + unat kdl \<le> 4 + unat n \<and> (\<exists>g. m3_gtk ki (k_ptk s) (block eap 99 (unat kdl)) = Some (Some g))
         \<and> (\<exists>kp. k_ptkConf s' = Some kp \<and> kc_cipher kp = WLAN_CIPHER_SUITE_CCMP \<and> take 16 (kc_key kp) = block (k_ptk s) 32 16)"
      using eapol_m3_safe [OF assms(1,2) 3(3,4) lt assms(4)] by blast
    show ?thesis
    proof (cases "k_state s' = k_state s")
      case False
      with s'(4) have m: "eapol_mic_ok c True (take 16 (k_ptk s)) (take (4 + unat n) eap) = Some True"
        "99 + unat kdl \<le> 4 + unat n" and g: "\<exists>g. m3_gtk ki (k_ptk s) (block eap 99 (unat kdl)) = Some (Some g)" by blast+
      have "length (take (4 + unat n) eap) < 2 ^ 32" using lt by simp
      then have "m3_mic_valid (k_ptk s) (take (4 + unat n) eap)" using mic_ok_valid [OF assms(2) _ m(1)] by blast
      moreover have "\<exists>k. aes_unwrap_128 (block (k_ptk s) 16 16) (block eap 99 (unat kdl)) = Some (Some k)"
        if "ki AND 0x1000 \<noteq> 0" "kdl \<noteq> 0"
      proof -
        have "unat kdl \<noteq> 0" using that(2) by (simp add: unsigned_eq_0_iff)
        moreover have "length (block eap 99 (unat kdl)) = unat kdl" using m(2) 3(3) by (intro length_block) linarith
        ultimately have "block eap 99 (unat kdl) \<noteq> []" by (metis list.size(3))
        then show ?thesis using m3_gtk_unwraps g that(1) by blast
      qed
      ultimately have "valid_m3 (k_ptk s) eap"
        unfolding valid_m3_def using 3(2-7) m(2) m3_flags [OF 3(8)] by blast
      then show ?thesis unfolding 3(1) using s' False 3(3,4) by blast
    qed (simp add: 3(1) s')
  qed
next
  case False
  then show ?thesis using assms(1) by (simp add: handleEAPOL_def)
qed

lemma handleEAPOL_safe:
  assumes "stack_ok s" "sha_stack c" "length rnd = 32" "k_state s \<noteq> RTW88_STATE_CONNECTED"
  shows "\<exists>s'. handleEAPOL c d rnd eap s = Some s' \<and> stack_ok s' \<and> hs_core s' = hs_core s \<and> (k_state s' = k_state s
    \<or> k_state s' = RTW88_STATE_CONNECTED
      \<and> (\<exists>n. 99 \<le> n \<and> n \<le> length eap \<and> eapol_mic_ok c True (take 16 (k_ptk s)) (take n eap) = Some True)
      \<and> (\<exists>kp. k_ptkConf s' = Some kp \<and> kc_cipher kp = WLAN_CIPHER_SUITE_CCMP \<and> take 16 (kc_key kp) = block (k_ptk s) 32 16))"
  using handleEAPOL_full [OF assms, of d eap] by blast

text \<open>
  C5: The station connects only on a valid third message. On an EAPOL packet of any contents and length, received before the link is up,
  \<open>handleEAPOL\<close> stays inside its buffers and keeps the state well formed. It changes the connection state only to
  connected, and then only when the packet is a third message that the standard accepts (\<open>valid_m3\<close>): of type EAPOL-Key, with a
  body length that covers the key descriptor and fits the packet, with the flags Pairwise, Install, Ack and MIC set,
  with the HMAC-SHA1 of exactly that length under the key confirmation part of the current pairwise key as
  its MIC, and with key data that fit it and unwrap when they are encrypted; and the pairwise key installed then
  is the temporal part of the current pairwise key.
\<close>

theorem eapol_connects_only_on_valid_m3:
  assumes "stack_ok s" "sha_stack c" "length rnd = 32" "k_state s \<noteq> RTW88_STATE_CONNECTED"
  shows "\<exists>s'. handleEAPOL c d rnd eap s = Some s' \<and> stack_ok s' \<and> (k_state s' = k_state s
    \<or> k_state s' = RTW88_STATE_CONNECTED \<and> valid_m3 (k_ptk s) eap
      \<and> (\<exists>kp. k_ptkConf s' = Some kp \<and> kc_cipher kp = WLAN_CIPHER_SUITE_CCMP \<and> take 16 (kc_key kp) = block (k_ptk s) 32 16))"
  using handleEAPOL_full [OF assms, of d eap] by blast

text \<open>A third message under a pairwise key of sevens connects, and is found valid.\<close>

theorem eapol_connects_only_on_valid_m3_witness:
  "\<exists>s'. handleEAPOL demo_stack demo_drv (replicate 32 3) (ap_m3 (replicate 64 7) (replicate 8 1) (replicate 32 2) demo_kde)
        (demo_ready\<lparr>k_ptk := replicate 64 7\<rparr>) = Some s'
     \<and> k_state s' = RTW88_STATE_CONNECTED
     \<and> valid_m3 (replicate 64 7) (ap_m3 (replicate 64 7) (replicate 8 1) (replicate 32 2) demo_kde)"
proof -
  let ?s = "demo_ready\<lparr>k_ptk := replicate 64 7\<rparr>"
  have ok: "stack_ok ?s" "link_up ?s" "k_state ?s \<noteq> RTW88_STATE_CONNECTED" "k_ptk ?s = replicate 64 7"
    using demo_ready_ok(1,2) by (simp_all add: stack_ok_def link_up_def) (simp add: demo_ready_def)
  have g: "length (replicate 16 (9 :: u8)) = (if b_group_cipher (k_targetBSS ?s) = WLAN_CIPHER_SUITE_TKIP then 32 else 16)"
    by (simp add: demo_ready_def stack0_def zero_bss_def WLAN_CIPHER_SUITE_TKIP_def)
  have k: "length demo_kde mod 8 = 0" "8 \<le> length demo_kde" "length demo_kde \<le> 256"
    unfolding demo_kde_ok(1) by simp_all
  obtain s2 where s2: "handleEAPOL demo_stack demo_drv (replicate 32 3) (ap_m3 (k_ptk ?s) (replicate 8 1) (replicate 32 2) demo_kde) ?s = Some s2"
    "k_state s2 = RTW88_STATE_CONNECTED"
    using m3_connects [OF ok(1) demo_ready_ok(4,3) ok(2) length_replicate length_replicate k demo_kde_ok(2) g, of "replicate 32 3"] by blast
  from eapol_connects_only_on_valid_m3 [OF ok(1) demo_ready_ok(4) length_replicate ok(3), of demo_drv 3
      "ap_m3 (k_ptk ?s) (replicate 8 1) (replicate 32 2) demo_kde"]
  show ?thesis using s2 ok(3) unfolding ok(4) by (metis option.inject)
qed

text \<open>
  The state \<open>clearKeys\<close> leaves, where every connection starts, has a pairwise key of zeros, and nothing in
  \<open>handleEAPOL\<close> asks whether a first message was seen. So a third message signed and wrapped under a key of zeros, which
  anyone can build, connects the station with the key of zeros installed and a group key of the sender's choice.
\<close>

theorem m3_before_m1_installs_zero_key:
  assumes "stack_ok s" "sha_stack c" "key_driver d" "link_up (clearKeys d0 s)" "length anonce = 32" "length rc = 8"
    and "length p mod 8 = 0" "8 \<le> length p" "length p \<le> 256" "extract_gtk_from_kde p = Some (gtk, idx)"
    and "length gtk = (if b_group_cipher (k_targetBSS s) = WLAN_CIPHER_SUITE_TKIP then 32 else 16)"
  shows "\<exists>s2 kp kg. handleEAPOL c d rnd (ap_m3 (replicate 64 0) rc anonce p) (clearKeys d0 s) = Some s2
    \<and> k_state s2 = RTW88_STATE_CONNECTED \<and> k_ptkConf s2 = Some kp \<and> take 16 (kc_key kp) = replicate 16 0
    \<and> k_gtkConf s2 = Some kg \<and> take (length gtk) (kc_key kg) = gtk"
proof -
  have c: "k_ptk (clearKeys d0 s) = replicate 64 0" "k_targetBSS (clearKeys d0 s) = k_targetBSS s" "stack_ok (clearKeys d0 s)"
    using assms(1) by (auto simp: clearKeys_def Let_def disable_slot_def stack_ok_def split: option.splits)
  have "length gtk = (if b_group_cipher (k_targetBSS (clearKeys d0 s)) = WLAN_CIPHER_SUITE_TKIP then 32 else 16)" using assms(11) c(2) by simp
  note m3_connects [OF c(3) assms(2-4) assms(5-10) this, of rnd, unfolded c(1)]
  moreover have "block (replicate 64 (0 :: u8)) 32 16 = replicate 16 0" by (simp add: block_def)
  ultimately show ?thesis by (metis (no_types, lifting))
qed

end
