(* ===== verification/RxData.thy ===== *)
theory RxData
  imports Eapol EtherDevice
begin

text \<open>
  The receive path of data frames in \<open>RTW88IEEE80211.cpp\<close>: the software address filter, the hand-over to the reorder
  buffer, the removal of the 802.11 and CCMP headers, the splitting of aggregated frames (A-MSDU), EAPOL packets
  during the handshake, and the AWDL data frames. \<open>rnd\<close> gives the bytes \<open>read_random\<close> returns when a frame turns out to
  be a first handshake message; lengths are natural numbers, as no frame comes near the range of \<open>uint32_t\<close>.
\<close>

section \<open>Delivery to the network stack\<close>

definition rd_blk :: "bytes \<Rightarrow> nat \<Rightarrow> nat \<Rightarrow> bytes option" where
  "rd_blk f i n = (if i + n \<le> length f then Some (block f i n) else None)"

lemma rd_blk_Some [simp]: "i + n \<le> length f \<Longrightarrow> rd_blk f i n = Some (block f i n)"
  by (simp add: rd_blk_def)

definition eth_packet :: "bytes \<Rightarrow> bytes \<Rightarrow> u16 \<Rightarrow> bytes \<Rightarrow> bytes" where
  "eth_packet da sa ethertype pay = da @ sa @ be16_bytes ethertype @ pay"

text \<open>Three kernel calls can fail: the allocation, and the copies of the header and of a payload that is not empty.\<close>

definition fill_packet :: "bytes \<Rightarrow> bytes \<Rightarrow> u16 \<Rightarrow> bytes \<Rightarrow> RTW88IEEE80211 \<Rightarrow> bytes option \<times> RTW88IEEE80211" where
  "fill_packet da sa ethertype pay s =
     (if \<not> k_parent s then (None, s)
      else let (ok, s) = ask s
      in if \<not> ok then (None, s)
      else let (ok, s) = ask s
      in if \<not> ok then (None, free_m s)
      else let (ok, s) = (if pay \<noteq> [] then ask s else (True, s))
      in if \<not> ok then (None, free_m s)
      else (Some (eth_packet da sa ethertype pay), s))"

definition deliverEthernet :: "bytes \<Rightarrow> bytes \<Rightarrow> u16 \<Rightarrow> bytes \<Rightarrow> RTW88IEEE80211 \<Rightarrow> RTW88IEEE80211" where
  "deliverEthernet da sa ethertype pay s =
     (case fill_packet da sa ethertype pay s of
        (None, s) \<Rightarrow> s
      | (Some m, s) \<Rightarrow> emit (FxInject m) s)"

definition deliverAWDLEthernet :: "bytes \<Rightarrow> bytes \<Rightarrow> u16 \<Rightarrow> bytes \<Rightarrow> RTW88IEEE80211 \<Rightarrow> RTW88IEEE80211" where
  "deliverAWDLEthernet da sa ethertype pay s =
     (case fill_packet da sa ethertype pay s of
        (None, s) \<Rightarrow> s
      | (Some m, s) \<Rightarrow> emit (FxInjectAwdl m) s)"

section \<open>Aggregated frames\<close>

text \<open>\<open>(14u + sublen + 3u) & ~3u\<close>\<close>

definition sub_step :: "u16 \<Rightarrow> nat" where
  "sub_step sublen = unat ((14 + ucast sublen + 3) AND NOT 3 :: u32)"

lemma unat_and_not3: "unat (w AND NOT 3) = unat w div 4 * 4" for w :: u32
proof -
  have m: "(3 :: u32) = mask 2" by (simp add: mask_eq_exp_minus_1)
  have "w AND NOT 3 = push_bit 2 (drop_bit 2 w)"
    unfolding m by (rule bit_word_eqI) (auto simp: bit_simps not_less le_add_diff_inverse simp flip: add_2_eq_Suc)
  then show ?thesis
    using unsigned_less [of w, where 'a = nat]
    by (simp only: unsigned_push_bit_eq unsigned_drop_bit_eq)
      (simp add: drop_bit_eq_div push_bit_eq_mult take_bit_nat_eq_self)
qed

lemma sub_step_eq: "sub_step n = (unat n + 17) div 4 * 4"
proof -
  have "unat (14 + ucast n + 3 :: u32) = unat n + 17"
    using unsigned_less [of n, where 'a = nat]
    by (simp add: unat_word_ariths unsigned_ucast_eq take_bit_nat_eq_self)
  then show ?thesis unfolding sub_step_def unat_and_not3 by simp
qed

function deAmsdu :: "bytes \<Rightarrow> nat \<Rightarrow> RTW88IEEE80211 \<Rightarrow> RTW88IEEE80211 option" where
  "deAmsdu dat pos s =
     (if pos + 14 \<le> length dat then
        do { hi \<leftarrow> rd dat (pos + 12); lo \<leftarrow> rd dat (pos + 13);
             let sublen = be16_of hi lo in
             if unat sublen < 8 \<or> pos + 14 + unat sublen > length dat then Some s
             else do { m0 \<leftarrow> rd dat (pos + 14); m1 \<leftarrow> rd dat (pos + 15); m2 \<leftarrow> rd dat (pos + 16);
               s \<leftarrow> (if m0 = 0xAA \<and> m1 = 0xAA \<and> m2 = 0x03
                     then do { e0 \<leftarrow> rd dat (pos + 20); e1 \<leftarrow> rd dat (pos + 21);
                               da \<leftarrow> rd_blk dat pos 6; sa \<leftarrow> rd_blk dat (pos + 6) 6;
                               pay \<leftarrow> rd_blk dat (pos + 22) (unat sublen - 8);
                               Some (deliverEthernet da sa (be16_of e0 e1) pay s) }
                     else Some s);
               deAmsdu dat (pos + sub_step sublen) s } }
      else Some s)"
  by pat_completeness auto
termination
  by (relation "measure (\<lambda>(dat, pos, s). length dat - pos)") (auto simp: sub_step_eq)

declare deAmsdu.simps [simp del]

section \<open>Data frames\<close>

text \<open>The eight bytes \<open>llc\<close> points to, and whether they start an LLC/SNAP header.\<close>

definition is_snap :: "bytes \<Rightarrow> nat \<Rightarrow> bool option" where
  "is_snap f i = do { a \<leftarrow> rd f i; b \<leftarrow> rd f (i + 1); c \<leftarrow> rd f (i + 2); Some (a = 0xAA \<and> b = 0xAA \<and> c = 0x03) }"

text \<open>Where the LLC header of a single frame is, past the CCMP header when it was left in place.\<close>

definition llc_offset :: "bytes \<Rightarrow> u16 \<Rightarrow> nat \<Rightarrow> nat option" where
  "llc_offset f fc off =
     do { snap \<leftarrow> is_snap f off;
          if \<not> snap \<and> ieee80211_has_protected fc \<and> length f \<ge> off + 8 + 8
          then do { snap' \<leftarrow> is_snap f (off + 8); Some (if snap' then off + 8 else off) }
          else Some off }"

definition free_skb :: "RTW88IEEE80211 \<Rightarrow> RTW88IEEE80211" where
  "free_skb s = emit FxFreeSkb s"

definition deliverDataFrame ::
    "KERN_SHA1_CTX \<Rightarrow> driver \<Rightarrow> bytes \<Rightarrow> rx_skb \<Rightarrow> RTW88IEEE80211 \<Rightarrow> RTW88IEEE80211 option" where
  "deliverDataFrame c d rnd skb s =
     (let f = f_data skb in
      do { fc \<leftarrow> frame_control_of f;
           let hdrlen = hdrlen_of_fc fc in
           if length f < hdrlen then Some (free_skb s)
           else do {
             amsdu \<leftarrow> (if ieee80211_is_data_qos fc then do { q \<leftarrow> rd f (hdrlen - 2); Some (q AND 0x80 \<noteq> 0) } else Some False);
             if amsdu then
               (if ieee80211_has_protected fc \<and> length f < hdrlen + 8 then Some (free_skb s)
                else do { s \<leftarrow> deAmsdu (drop (if ieee80211_has_protected fc then hdrlen + 8 else hdrlen) f) 0 s;
                          Some (free_skb s) })
             else if length f < hdrlen + 8 then Some (free_skb s)
             else do {
               off \<leftarrow> llc_offset f fc hdrlen;
               snap \<leftarrow> is_snap f off;
               ethertype \<leftarrow> (if snap then do { hi \<leftarrow> rd f (off + 6); lo \<leftarrow> rd f (off + 7); Some (be16_of hi lo) } else Some 0);
               if snap \<and> ethertype = ETH_P_PAE \<and> k_state s = RTW88_STATE_HANDSHAKING \<and> \<not> k_externalSupplicant s
               then do { s \<leftarrow> handleEAPOL c d rnd (drop (off + 8) f) s; Some (free_skb s) }
               else do { a1 \<leftarrow> rd_blk f 4 6; a3 \<leftarrow> rd_blk f 16 6;
                         Some (free_skb (deliverEthernet a1 a3 ethertype (drop (off + 8) f) s)) } } } })"

section \<open>The reorder buffer in place\<close>

fun deliver_frames ::
    "KERN_SHA1_CTX \<Rightarrow> driver \<Rightarrow> (nat \<Rightarrow> bytes) \<Rightarrow> rx_skb list \<Rightarrow> RTW88IEEE80211 \<Rightarrow> RTW88IEEE80211 option" where
  "deliver_frames c d rnd [] s = Some s"
| "deliver_frames c d rnd (f # fs) s =
     do { s \<leftarrow> deliverDataFrame c d (rnd 0) f s; deliver_frames c d (\<lambda>i. rnd (Suc i)) fs s }"

definition rx_dispatch ::
    "KERN_SHA1_CTX \<Rightarrow> driver \<Rightarrow> (nat \<Rightarrow> bytes) \<Rightarrow> rx_skb rx_result \<Rightarrow> RTW88IEEE80211 \<Rightarrow> RTW88IEEE80211 option" where
  "rx_dispatch c d rnd res s =
     do { s \<leftarrow> deliver_frames c d rnd (rx_deliver res)
                (s\<lparr>k_rxBa := rx_state res, k_fx := k_fx s @ replicate (length (rx_free res)) FxFreeSkb\<rparr>);
          Some (if rx_arm res then emit FxReorderArm s else s) }"

definition rxReorderInput_k ::
    "KERN_SHA1_CTX \<Rightarrow> driver \<Rightarrow> (nat \<Rightarrow> bytes) \<Rightarrow> nat \<Rightarrow> rx_skb \<Rightarrow> u16 \<Rightarrow> RTW88IEEE80211 \<Rightarrow> RTW88IEEE80211 option" where
  "rxReorderInput_k c d rnd tid skb sn s = rx_dispatch c d rnd (rxReorderInput tid skb (uint sn) (k_rxBa s)) s"

definition rxReorderFlushStale_k :: "KERN_SHA1_CTX \<Rightarrow> driver \<Rightarrow> (nat \<Rightarrow> bytes) \<Rightarrow> RTW88IEEE80211 \<Rightarrow> RTW88IEEE80211 option" where
  "rxReorderFlushStale_k c d rnd s = rx_dispatch c d rnd (rxReorderFlushStale (k_rxBa s)) s"

text \<open>The software filter: from the distribution system, for us or for a group, sent by our access point.\<close>

definition infra_ok :: "bytes \<Rightarrow> RTW88IEEE80211 \<Rightarrow> bool option" where
  "infra_ok f s =
     do { fc \<leftarrow> frame_control_of f; a1 \<leftarrow> rd_blk f 4 6; a2 \<leftarrow> rd_blk f 10 6;
          own \<leftarrow> ether_addr_equal a1 (k_macAddr s); bc \<leftarrow> is_broadcast_ether_addr a1; mc \<leftarrow> is_multicast_ether_addr a1;
          ap \<leftarrow> ether_addr_equal a2 (b_bssid (k_targetBSS s));
          Some (fc AND IEEE80211_FCTL_FROMDS \<noteq> 0 \<and> (own \<or> bc \<or> mc) \<and> ap) }"

definition data_state :: "RTW88IEEE80211 \<Rightarrow> bool" where
  "data_state s \<longleftrightarrow> k_state s = RTW88_STATE_CONNECTED \<or> k_state s = RTW88_STATE_HANDSHAKING
     \<or> (k_state s = RTW88_STATE_SCANNING \<and> k_scanReturnState s = RTW88_STATE_CONNECTED)"

definition ba_session :: "nat \<Rightarrow> RTW88IEEE80211 \<Rightarrow> bool" where
  "ba_session tid s \<longleftrightarrow> tid < kRxBaNumTid \<and> (case k_rxBa s tid of None \<Rightarrow> False | Some r \<Rightarrow> r_active r)"

definition processRxData ::
    "KERN_SHA1_CTX \<Rightarrow> driver \<Rightarrow> (nat \<Rightarrow> bytes) \<Rightarrow> rx_skb \<Rightarrow> RTW88IEEE80211 \<Rightarrow> RTW88IEEE80211 option" where
  "processRxData c d rnd skb s =
     (let f = f_data skb in
      if \<not> data_state s then Some (free_skb s)
      else do { ok \<leftarrow> infra_ok f s;
        if \<not> ok then Some (free_skb s)
        else do { fc \<leftarrow> frame_control_of f;
          let hdrlen = hdrlen_of_fc fc in
          if ieee80211_is_data_qos fc \<and> length f \<ge> hdrlen
          then do { q \<leftarrow> rd f (hdrlen - 2);
                    let tid = unat (q AND 0x0f) in
                    if ba_session tid s
                    then do { sc \<leftarrow> rd16 f 22; rxReorderInput_k c d rnd tid skb (drop_bit 4 (sc AND 0xFFF0)) s }
                    else deliverDataFrame c d (rnd 0) skb s }
          else deliverDataFrame c d (rnd 0) skb s } })"

section \<open>AWDL data frames\<close>

definition tryDeliverAWDLDataFrame :: "rx_skb \<Rightarrow> RTW88IEEE80211 \<Rightarrow> (bool \<times> RTW88IEEE80211) option" where
  "tryDeliverAWDLDataFrame skb s =
     (let f = f_data skb in
      if length f < 24 + 8 + 8 then Some (False, s)
      else do { fc \<leftarrow> frame_control_of f;
        if fc AND (IEEE80211_FCTL_TODS OR IEEE80211_FCTL_FROMDS) \<noteq> 0 then Some (False, s)
        else do { a3 \<leftarrow> rd_blk f 16 6;
          if a3 \<noteq> awdlBssid then Some (False, s)
          else let hdrlen = hdrlen_of_fc fc in
          if hdrlen < 24 \<or> length f < hdrlen + 16 then Some (False, s)
          else do { snap \<leftarrow> rd_blk f hdrlen 8;
            if snap \<noteq> awdl_snap then Some (False, s)
            else do { p0 \<leftarrow> rd f (hdrlen + 8); p1 \<leftarrow> rd f (hdrlen + 9);
              if p0 \<noteq> 0x03 \<or> p1 \<noteq> 0x04 then Some (False, s)
              else do { hi \<leftarrow> rd f (hdrlen + 14); lo \<leftarrow> rd f (hdrlen + 15); a1 \<leftarrow> rd_blk f 4 6; a2 \<leftarrow> rd_blk f 10 6;
                        Some (True, free_skb (deliverAWDLEthernet a1 a2 (be16_of hi lo) (drop (hdrlen + 16) f) s)) } } } } })"

section \<open>What delivery leaves alone\<close>

text \<open>Only the log of calls grew, and answers of the kernel were used up.\<close>

definition only_log :: "RTW88IEEE80211 \<Rightarrow> RTW88IEEE80211 \<Rightarrow> bool" where
  "only_log s s' \<longleftrightarrow> (\<exists>x es. s' = s\<lparr>k_answers := x, k_fx := k_fx s @ es\<rparr>)"

lemma only_logI: "s' = s\<lparr>k_answers := x, k_fx := k_fx s @ es\<rparr> \<Longrightarrow> only_log s s'"
  by (auto simp: only_log_def)

lemma only_log_refl [simp]: "only_log s s"
  by (rule only_logI [where x = "k_answers s" and es = "[]"]) simp

lemma only_log_trans: "only_log s t \<Longrightarrow> only_log t u \<Longrightarrow> only_log s u"
  by (fastforce simp: only_log_def)

lemma only_log_emit [simp]: "only_log s t \<Longrightarrow> only_log s (emit e t)"
  unfolding only_log_def emit_def by fastforce

lemma only_log_answers [simp]:
  assumes "only_log s t"
  shows "only_log s (t\<lparr>k_answers := y\<rparr>)"
proof -
  obtain x es where "t = s\<lparr>k_answers := x, k_fx := k_fx s @ es\<rparr>" using assms by (auto simp: only_log_def)
  then show ?thesis by (intro only_logI [where x = y and es = es]) simp
qed

lemma only_logD:
  assumes "only_log s s'"
  shows "stack_ok s' = stack_ok s" "hs_core s' = hs_core s" "k_state s' = k_state s" "k_ptkConf s' = k_ptkConf s" "k_ptk s' = k_ptk s"
  using assms by (auto simp: only_log_def stack_ok_def)

lemma fill_packet_result:
  "fst (fill_packet da sa e p s) = None \<or> k_parent s \<and> fst (fill_packet da sa e p s) = Some (eth_packet da sa e p)"
  "only_log s (snd (fill_packet da sa e p s))"
  by (simp_all add: fill_packet_def Let_def free_m_def)

lemma deliver_log [simp]: "only_log s (deliverEthernet da sa e p s)" "only_log s (deliverAWDLEthernet da sa e p s)"
  using fill_packet_result(2) [of s da sa e p]
  by (auto simp: deliverEthernet_def deliverAWDLEthernet_def split: prod.split option.split)

lemma fill_packet_all: "k_parent s \<Longrightarrow> k_answers s = [] \<Longrightarrow> fill_packet da sa e p s = (Some (eth_packet da sa e p), s)"
  by (auto simp: fill_packet_def Let_def ask_nil simp del: ask_eq)

lemma deliver_all:
  assumes "k_parent s" "k_answers s = []"
  shows "deliverEthernet da sa e p s = emit (FxInject (eth_packet da sa e p)) s"
    "deliverAWDLEthernet da sa e p s = emit (FxInjectAwdl (eth_packet da sa e p)) s"
  by (simp_all add: deliverEthernet_def deliverAWDLEthernet_def fill_packet_all [OF assms])

section \<open>Splitting aggregated frames\<close>

lemma deAmsdu_step:
  fixes dat :: bytes and pos :: nat
  defines "n \<equiv> be16_of (dat ! (pos + 12)) (dat ! (pos + 13))"
  assumes "pos + 14 \<le> length dat" "8 \<le> unat n" "pos + 14 + unat n \<le> length dat"
  shows "deAmsdu dat pos s = deAmsdu dat (pos + sub_step n)
    (if dat ! (pos + 14) = 0xAA \<and> dat ! (pos + 15) = 0xAA \<and> dat ! (pos + 16) = 0x03
     then deliverEthernet (block dat pos 6) (block dat (pos + 6) 6) (be16_of (dat ! (pos + 20)) (dat ! (pos + 21)))
            (block dat (pos + 22) (unat n - 8)) s
     else s)"
  using assms(2-4) by (subst deAmsdu.simps) (simp add: n_def Let_def)

lemma deAmsdu_stop:
  fixes dat :: bytes and pos :: nat
  defines "n \<equiv> be16_of (dat ! (pos + 12)) (dat ! (pos + 13))"
  assumes "\<not> (pos + 14 \<le> length dat \<and> 8 \<le> unat n \<and> pos + 14 + unat n \<le> length dat)"
  shows "deAmsdu dat pos s = Some s"
  using assms(2) by (subst deAmsdu.simps) (auto simp: n_def Let_def)

lemma deAmsdu_total: "\<exists>s'. deAmsdu dat pos s = Some s' \<and> only_log s s'"
proof (induction "length dat - pos" arbitrary: pos s rule: less_induct)
  case less
  let ?n = "be16_of (dat ! (pos + 12)) (dat ! (pos + 13))"
  show ?case
  proof (cases "pos + 14 \<le> length dat \<and> 8 \<le> unat ?n \<and> pos + 14 + unat ?n \<le> length dat")
    case True
    then have "length dat - (pos + sub_step ?n) < length dat - pos" unfolding sub_step_eq by linarith
    note ih = less [OF this]
    have "only_log s (if b then deliverEthernet x1 x2 x3 x4 s else s)" for b x1 x2 x3 x4 by simp
    then show ?thesis
      unfolding deAmsdu_step [OF conjunct1 [OF True] conjunct1 [OF conjunct2 [OF True]] conjunct2 [OF conjunct2 [OF True]]]
      using ih only_log_trans by blast
  next
    case False
    then show ?thesis using deAmsdu_stop [of pos dat s] by auto
  qed
qed

section \<open>No frame leaves its buffer\<close>

lemma hdrlen_bounds:
  "24 \<le> hdrlen_of_fc fc" "hdrlen_of_fc fc \<le> 32"
  by (auto simp: hdrlen_of_fc_def Let_def)

lemma frame_control_24: "24 \<le> length f \<Longrightarrow> frame_control_of f = Some (le16_of (f ! 0) (f ! 1))"
  by (auto simp: frame_control_of_def rd_def)

lemma is_snap_at: "i + 8 \<le> length f \<Longrightarrow> is_snap f i = Some (f ! i = 0xAA \<and> f ! (i + 1) = 0xAA \<and> f ! (i + 2) = 0x03)"
  by (simp add: is_snap_def)

lemma llc_offset_at:
  assumes "off + 8 \<le> length f"
  obtains p where "llc_offset f fc off = Some p" "off \<le> p" "p + 8 \<le> length f"
proof (cases "\<not> (f ! off = 0xAA \<and> f ! (off + 1) = 0xAA \<and> f ! (off + 2) = 0x03) \<and> ieee80211_has_protected fc \<and> off + 8 + 8 \<le> length f")
  case True
  then show thesis
    using that [of "if f ! (off + 8) = 0xAA \<and> f ! (off + 8 + 1) = 0xAA \<and> f ! (off + 8 + 2) = 0x03 then off + 8 else off"] assms
    by (simp add: llc_offset_def is_snap_at)
next
  case False
  then show thesis using that [of off] assms by (auto simp: llc_offset_def is_snap_at)
qed

definition rx_keeps :: "RTW88IEEE80211 \<Rightarrow> RTW88IEEE80211 \<Rightarrow> bool" where
  "rx_keeps s s' \<longleftrightarrow> stack_ok s' \<and> hs_core s' = hs_core s
     \<and> (k_state s' = k_state s \<and> (k_state s = RTW88_STATE_HANDSHAKING \<or> k_ptkConf s' = k_ptkConf s)
        \<or> k_state s = RTW88_STATE_HANDSHAKING \<and> k_state s' = RTW88_STATE_CONNECTED \<and> k_ptkConf s' \<noteq> None)"

lemma rx_keeps_log: "stack_ok s \<Longrightarrow> only_log s s' \<Longrightarrow> rx_keeps s s'"
  by (simp add: rx_keeps_def only_logD)

lemma rx_keeps_trans: "rx_keeps s t \<Longrightarrow> rx_keeps t u \<Longrightarrow> rx_keeps s u"
  by (auto simp: rx_keeps_def)

lemma deliverDataFrame_safe:
  assumes "stack_ok s" "sha_stack c" "length rnd = 32" "24 \<le> length (f_data skb)"
  shows "\<exists>s'. deliverDataFrame c d rnd skb s = Some s' \<and> rx_keeps s s'"
proof -
  define f where "f = f_data skb"
  define fc where "fc = le16_of (f ! 0) (f ! 1)"
  define hl where "hl = hdrlen_of_fc fc"
  have fc: "frame_control_of f = Some fc" and len: "24 \<le> length f"
    using assms(4) by (simp_all add: frame_control_24 f_def fc_def)
  note hb = hdrlen_bounds [of fc, folded hl_def]
  have free: "rx_keeps s t \<Longrightarrow> rx_keeps s (free_skb t)" for t by (simp add: rx_keeps_def free_skb_def)
  have keep: "rx_keeps s s" using assms(1) by (simp add: rx_keeps_def)
  note code = deliverDataFrame_def [of c d rnd skb s, unfolded Let_def, folded f_def, unfolded fc bind.bind_lunit, folded hl_def]
  define am where "am \<longleftrightarrow> ieee80211_is_data_qos fc \<and> f ! (hl - 2) AND 0x80 \<noteq> 0"
  consider "length f < hl" | "hl \<le> length f" "am" | "hl \<le> length f" "\<not> am" "length f < hl + 8" | "hl + 8 \<le> length f" "\<not> am" by linarith
  then show ?thesis
  proof cases
    case 1
    then show ?thesis using free [OF keep] by (simp add: code)
  next
    case 2
    then have q: "(if ieee80211_is_data_qos fc then rd f (hl - 2) \<bind> (\<lambda>q. Some (q AND 0x80 \<noteq> 0)) else Some False) = Some True"
      using hb(1) by (auto simp: am_def)
    obtain t where "deAmsdu (drop (if ieee80211_has_protected fc then hl + 8 else hl) f) 0 s = Some t" "only_log s t"
      using deAmsdu_total by blast
    then show ?thesis using 2(1) free [OF keep] free [OF rx_keeps_log [OF assms(1)]] by (simp add: code q not_less)
  next
    case 3
    then have q: "(if ieee80211_is_data_qos fc then rd f (hl - 2) \<bind> (\<lambda>q. Some (q AND 0x80 \<noteq> 0)) else Some False) = Some False"
      using hb(1) by (auto simp: am_def)
    show ?thesis using 3 free [OF keep] by (simp add: code q not_less)
  next
    case 4
    then have q: "(if ieee80211_is_data_qos fc then rd f (hl - 2) \<bind> (\<lambda>q. Some (q AND 0x80 \<noteq> 0)) else Some False) = Some False"
      using hb(1) by (auto simp: am_def)
    obtain p where p: "llc_offset f fc hl = Some p" "hl \<le> p" "p + 8 \<le> length f" using 4(1) by (rule llc_offset_at)
    define sn where "sn \<longleftrightarrow> f ! p = 0xAA \<and> f ! (p + 1) = 0xAA \<and> f ! (p + 2) = 0x03"
    define e where "e = (if sn then be16_of (f ! (p + 6)) (f ! (p + 7)) else 0)"
    have e: "is_snap f p = Some sn" "(if sn then rd f (p + 6) \<bind> (\<lambda>hi. rd f (p + 7) \<bind> (\<lambda>lo. Some (be16_of hi lo))) else Some 0) = Some e"
      using p(3) by (simp_all add: is_snap_at sn_def e_def)
    have eq: "deliverDataFrame c d rnd skb s =
        (if sn \<and> e = ETH_P_PAE \<and> k_state s = RTW88_STATE_HANDSHAKING \<and> \<not> k_externalSupplicant s
         then handleEAPOL c d rnd (drop (p + 8) f) s \<bind> (\<lambda>s. Some (free_skb s))
         else Some (free_skb (deliverEthernet (block f 4 6) (block f 16 6) e (drop (p + 8) f) s)))"
      using 4(1) len by (simp add: code q p(1) e not_less)
    show ?thesis
    proof (cases "sn \<and> e = ETH_P_PAE \<and> k_state s = RTW88_STATE_HANDSHAKING \<and> \<not> k_externalSupplicant s")
      case True
      then obtain t where "handleEAPOL c d rnd (drop (p + 8) f) s = Some t" "rx_keeps s t"
        using handleEAPOL_safe [OF assms(1-3), of d "drop (p + 8) f"] by (auto simp: rx_keeps_def)
      then show ?thesis unfolding eq using True free by simp
    next
      case False
      then show ?thesis unfolding eq using free [OF rx_keeps_log [OF assms(1) deliver_log(1)]] by auto
    qed
  qed
qed

lemma deliver_frames_safe:
  assumes "stack_ok s" "sha_stack c" "\<forall>i. length (rnd i) = 32" "\<forall>f\<in>set fs. 24 \<le> length (f_data f)"
  shows "\<exists>s'. deliver_frames c d rnd fs s = Some s' \<and> rx_keeps s s'"
  using assms
proof (induction fs arbitrary: s rnd)
  case Nil
  then show ?case by (simp add: rx_keeps_def)
next
  case (Cons f fs)
  obtain t where t: "deliverDataFrame c d (rnd 0) f s = Some t" "rx_keeps s t"
    using deliverDataFrame_safe [of s c "rnd 0" f d] Cons.prems by auto
  then have "stack_ok t" by (simp add: rx_keeps_def)
  then show ?case using Cons.IH [of t "\<lambda>i. rnd (Suc i)"] Cons.prems t rx_keeps_trans [OF t(2)] by auto
qed

section \<open>Packets handed to the stack\<close>

text \<open>The packets handed to the network stack so far, in order.\<close>

fun inject_of :: "fx \<Rightarrow> bytes list" where
  "inject_of (FxInject m) = [m]"
| "inject_of _ = []"

definition injected :: "RTW88IEEE80211 \<Rightarrow> bytes list" where
  "injected s = concat (map inject_of (k_fx s))"

lemma injected_updates [simp]:
  "injected (emit e s) = injected s @ inject_of e" "injected (s\<lparr>k_answers := x\<rparr>) = injected s" "injected (s\<lparr>k_state := x1\<rparr>) = injected s"
  "injected (s\<lparr>k_ptk := x2\<rparr>) = injected s" "injected (s\<lparr>k_ptkConf := x3\<rparr>) = injected s" "injected (s\<lparr>k_gtkConf := x3\<rparr>) = injected s"
  "injected (s\<lparr>k_anonce := x2\<rparr>) = injected s" "injected (s\<lparr>k_snonce := x2\<rparr>) = injected s" "injected (s\<lparr>k_replayCtr := x2\<rparr>) = injected s"
  "injected (s\<lparr>k_ccmpTxPn := x2\<rparr>) = injected s" "injected (s\<lparr>k_baDialog := x4\<rparr>) = injected s" "injected (next_txSeq s) = injected s"
  "injected (s\<lparr>k_rxBa := x5\<rparr>) = injected s" "injected (free_m s) = injected s" "injected (free_skb s) = injected s"
  by (simp_all add: injected_def emit_def next_txSeq_def free_m_def free_skb_def)

lemma injected_take [simp]: "injected (snd (take_seq q s)) = injected s" "injected (snd (take_pn b s)) = injected s"
  by (simp_all add: injected_def)

lemma installKey_injects: "injected (snd (installKey d pw i cipher tk s)) = injected s"
  by (simp add: installKey_def set_slot_def disable_slot_def Let_def case_prod_beta split: option.split)

lemma txDataFrame_injects: "txDataFrame d m s = Some (r, s') \<Longrightarrow> injected s' = injected s"
  by (auto simp: txDataFrame_def tx_data_send_def Let_def case_prod_beta split: if_splits bind_splits)

lemma sendEAPOLKey_injects: "sendEAPOLKey c d step rc i a m s = Some s' \<Longrightarrow> injected s' = injected s"
  by (auto simp: sendEAPOLKey_def rtw88_make_packet_mbuf_def Let_def dest!: txDataFrame_injects split: if_splits bind_splits)

lemma startTxAggregation_injects [simp]: "injected (startTxAggregation d s) = injected s"
  by (auto simp: startTxAggregation_def sendAddbaRequest_def txMgmtFrame_def Let_def split: option.splits)

lemma eapol_m1_injects: "eapol_m1 c d rnd eap s = Some s' \<Longrightarrow> injected s' = injected s"
  by (auto simp: eapol_m1_def Let_def dest!: sendEAPOLKey_injects split: bind_splits)

lemma installKey_injects': "installKey d pw i cipher tk s = (ok, s') \<Longrightarrow> injected s' = injected s"
  using installKey_injects [of d pw i cipher tk s] by simp

lemma eapol_m3_injects: "eapol_m3 c d ki n kdl eap s = Some s' \<Longrightarrow> injected s' = injected s"
  by (auto simp: eapol_m3_def Let_def dest!: sendEAPOLKey_injects installKey_injects'
      split: if_splits bind_splits option.splits prod.splits)

lemma handleEAPOL_injects: "handleEAPOL c d rnd eap s = Some s' \<Longrightarrow> injected s' = injected s"
  by (auto simp: handleEAPOL_def Let_def dest!: eapol_m1_injects eapol_m3_injects split: if_splits bind_splits)

text \<open>A packet a frame carries: addresses, and a payload, that are blocks of the frame.\<close>

definition carries :: "bytes \<Rightarrow> bytes \<Rightarrow> bool" where
  "carries f m \<longleftrightarrow>
     (\<exists>i j k n e. i + 6 \<le> length f \<and> j + 6 \<le> length f \<and> k + n \<le> length f
        \<and> m = eth_packet (block f i 6) (block f j 6) e (block f k n))"

lemma carries_drop: "carries (drop p f) m \<Longrightarrow> carries f m"
  unfolding carries_def
proof (elim exE conjE)
  fix i j k n e
  assume "i + 6 \<le> length (drop p f)" "j + 6 \<le> length (drop p f)" "k + n \<le> length (drop p f)"
    and "m = eth_packet (block (drop p f) i 6) (block (drop p f) j 6) e (block (drop p f) k n)"
  then have "p + i + 6 \<le> length f \<and> p + j + 6 \<le> length f \<and> (p + k) + n \<le> length f
      \<and> m = eth_packet (block f (p + i) 6) (block f (p + j) 6) e (block f (p + k) n)"
    by (auto simp: block_def add.commute)
  then show "\<exists>i j k n e. i + 6 \<le> length f \<and> j + 6 \<le> length f \<and> k + n \<le> length f
      \<and> m = eth_packet (block f i 6) (block f j 6) e (block f k n)" by blast
qed

lemma deliverEthernet_injects:
  "\<exists>ms. injected (deliverEthernet da sa e p s) = injected s @ ms \<and> set ms \<subseteq> {eth_packet da sa e p}"
  by (auto simp: deliverEthernet_def fill_packet_def Let_def)

definition injects_from :: "bytes \<Rightarrow> RTW88IEEE80211 \<Rightarrow> RTW88IEEE80211 \<Rightarrow> bool" where
  "injects_from f s s' \<longleftrightarrow> (\<exists>ms. injected s' = injected s @ ms \<and> (\<forall>m\<in>set ms. carries f m))"

lemma injects_from_refl: "injected s' = injected s \<Longrightarrow> injects_from f s s'"
  by (simp add: injects_from_def)

lemma injects_from_trans: "injects_from f s t \<Longrightarrow> injects_from f t u \<Longrightarrow> injects_from f s u"
  unfolding injects_from_def by (metis Un_iff append.assoc set_append)

lemma injects_from_deliver:
  assumes "i + 6 \<le> length f" "j + 6 \<le> length f" "k + n \<le> length f"
  shows "injects_from f s (deliverEthernet (block f i 6) (block f j 6) e (block f k n) s)"
  using deliverEthernet_injects [of "block f i 6" "block f j 6" e "block f k n" s] assms
  unfolding injects_from_def carries_def by blast

lemma deAmsdu_injects: "deAmsdu dat pos s = Some s' \<Longrightarrow> injects_from dat s s'"
proof (induction "length dat - pos" arbitrary: pos s rule: less_induct)
  case less
  let ?n = "be16_of (dat ! (pos + 12)) (dat ! (pos + 13))"
  let ?t = "if dat ! (pos + 14) = 0xAA \<and> dat ! (pos + 15) = 0xAA \<and> dat ! (pos + 16) = 0x03
     then deliverEthernet (block dat pos 6) (block dat (pos + 6) 6) (be16_of (dat ! (pos + 20)) (dat ! (pos + 21)))
            (block dat (pos + 22) (unat ?n - 8)) s
     else s"
  show ?case
  proof (cases "pos + 14 \<le> length dat \<and> 8 \<le> unat ?n \<and> pos + 14 + unat ?n \<le> length dat")
    case True
    then have "length dat - (pos + sub_step ?n) < length dat - pos" unfolding sub_step_eq by linarith
    moreover have "deAmsdu dat (pos + sub_step ?n) ?t = Some s'"
      using less.prems True deAmsdu_step [of pos dat s] by simp
    ultimately have "injects_from dat ?t s'" by (rule less.hyps)
    moreover have "injects_from dat s ?t"
      using True injects_from_deliver [of pos dat "pos + 6" "pos + 22" "unat ?n - 8"] by (auto intro: injects_from_refl)
    ultimately show ?thesis by (rule injects_from_trans [rotated])
  next
    case False
    then show ?thesis using deAmsdu_stop [of pos dat s] less.prems by (simp add: injects_from_refl)
  qed
qed

lemma deliverDataFrame_injects:
  assumes "deliverDataFrame c d rnd skb s = Some s'"
  shows "injects_from (f_data skb) s s'"
proof -
  have am: "injects_from f s u" if "deAmsdu (drop p f) 0 s = Some u" for f p u
    using deAmsdu_injects [OF that] carries_drop unfolding injects_from_def by blast
  have one: "injects_from f s (deliverEthernet (block f 4 6) (block f 16 6) e (drop (p + 8) f) s)"
    if "22 \<le> length f" for f p e
    using that injects_from_deliver [of 4 f 16 "min (p + 8) (length f)" "length f - (p + 8)"]
    by (cases "p + 8 \<le> length f") (simp_all add: block_def)
  have fr: "injects_from f s (free_skb t) = injects_from f s t" for f t by (simp add: injects_from_def)
  show ?thesis
    using assms unfolding deliverDataFrame_def
    by (auto simp: Let_def fr rd_blk_def intro: am one injects_from_refl dest!: handleEAPOL_injects
        split: if_splits bind_splits)
qed

section \<open>Only the access point's frames\<close>

text \<open>
  A frame an associated station may take: marked as coming from the distribution system, addressed to the station or
  to a group, and transmitted by the access point.
\<close>

definition from_ap :: "bytes \<Rightarrow> RTW88IEEE80211 \<Rightarrow> bool" where
  "from_ap f s \<longleftrightarrow> bit (f ! 1) 1 \<and> (block f 4 6 = k_macAddr s \<or> bit (f ! 4) 0) \<and> block f 10 6 = b_bssid (k_targetBSS s)"

lemma fromds_bit: "le16_of lo hi AND IEEE80211_FCTL_FROMDS \<noteq> 0 \<longleftrightarrow> bit hi 1"
proof -
  have "(IEEE80211_FCTL_FROMDS :: u16) = push_bit 9 1" by (simp add: IEEE80211_FCTL_FROMDS_def)
  then have "le16_of lo hi AND IEEE80211_FCTL_FROMDS \<noteq> 0 \<longleftrightarrow> bit (le16_of lo hi) 9"
    by (simp only: bit_iff_and_push_bit_not_eq_0)
  also have "\<dots> \<longleftrightarrow> bit hi 1" using bit_u8_iff [of lo 9] by (auto simp: le16_of_def bit_simps)
  finally show ?thesis .
qed

lemma infra_ok_exact:
  assumes "stack_ok s" "24 \<le> length f"
  shows "infra_ok f s = Some (from_ap f s)"
proof -
  let ?a = "block f 4 6" and ?b = "block f 10 6"
  have l: "length ?a = 6" "length ?b = 6" "?a ! 0 = f ! 4" using assms(2) by (simp_all add: buf_simps)
  have mc: "(0x01 AND f ! 4 \<noteq> 0) = bit (f ! 4) 0" by (simp add: one_and_eq bit_0 odd_iff_mod_2_eq_one)
  have bc: "?a = replicate 6 0xff \<Longrightarrow> bit (f ! 4) 0" using l(3) by (simp add: bit_0)
  show ?thesis
    unfolding infra_ok_def frame_control_24 [OF assms(2)] from_ap_def
    using assms(2) l stack_okD(1,3) [OF assms(1)] bc
    by (auto simp: ether_equal_iff is_broadcast_iff is_multicast_total mc fromds_bit)
qed

text \<open>The frames a set of reorder sessions holds.\<close>

definition held :: "'f rx_ba \<Rightarrow> 'f set" where
  "held ba = {f. \<exists>tid r i. ba tid = Some r \<and> buf r i = Some f}"

lemma pop_head_frames: "set (snd (pop_head r out)) \<union> ran (buf (fst (pop_head r out))) \<subseteq> set out \<union> ran (buf r)"
  by (auto simp: pop_head_def ran_def split: option.splits if_splits)

lemma slide_frames: "set (snd (slide n r out)) \<union> ran (buf (fst (slide n r out))) \<subseteq> set out \<union> ran (buf r)"
proof (induction n r out rule: slide.induct)
  case (1 n r out)
  show ?case
  proof (cases "slide_more n r out")
    case True
    have "slide n r out = slide n (fst (pop_head r out)) (snd (pop_head r out))"
      by (subst slide.simps) (simp add: True case_prod_beta)
    then show ?thesis using 1 [OF True refl prod.collapse] pop_head_frames [of r out] by auto
  next
    case False
    then show ?thesis by (subst (1 2) slide.simps) simp
  qed
qed

lemma release_run_frames:
  "set (snd (release_run k r out)) \<union> ran (buf (fst (release_run k r out))) \<subseteq> set out \<union> ran (buf r)"
proof (induction k arbitrary: r out)
  case (Suc k)
  show ?case
    using Suc [of "fst (pop_head r out)" "snd (pop_head r out)"] pop_head_frames [of r out] by (auto simp: case_prod_beta)
qed simp

lemma accept_frames:
  assumes "reorder_accept f sn r = (r', out, freed)"
  shows "set out \<union> ran (buf r') \<subseteq> insert f (ran (buf r))"
proof -
  define r1o where "r1o = (if (sn - headSn r) mod 4096 \<ge> bufSize r then slide ((sn + 1 - bufSize r) mod 4096) r [] else (r, []))"
  have 1: "set (snd r1o) \<union> ran (buf (fst r1o)) \<subseteq> ran (buf r)"
    using slide_frames [of _ r "[]"] by (auto simp: r1o_def)
  define r2 where "r2 = (if buf (fst r1o) (slot sn) \<noteq> None then fst r1o
     else (fst r1o)\<lparr>buf := (buf (fst r1o))(slot sn \<mapsto> f), stored := stored (fst r1o) + 1\<rparr>)"
  have 2: "ran (buf r2) \<subseteq> insert f (ran (buf (fst r1o)))" by (auto simp: r2_def ran_def)
  have "r' = fst (release_run (room (snd r1o)) r2 (snd r1o))" "out = snd (release_run (room (snd r1o)) r2 (snd r1o))"
    using assms by (auto simp: reorder_accept_def Let_def case_prod_beta r1o_def r2_def split: if_splits)
  then show ?thesis using release_run_frames [of "room (snd r1o)" r2 "snd r1o"] 1 2 by blast
qed

lemma input_frames:
  "set (rx_deliver (rxReorderInput tid f sn ba)) \<union> held (rx_state (rxReorderInput tid f sn ba)) \<subseteq> insert f (held ba)"
proof -
  have acc: ?thesis if "ba tid = Some r" "reorder_accept f sn r = (r', out, freed)"
      "rx_deliver (rxReorderInput tid f sn ba) = out" "rx_state (rxReorderInput tid f sn ba) = ba(tid \<mapsto> r')" for r r' out freed
  proof -
    have "held (ba(tid \<mapsto> r')) \<subseteq> held ba \<union> ran (buf r')" by (auto simp: held_def ran_def)
    moreover have "ran (buf r) \<subseteq> held ba" using that(1) by (auto simp: held_def ran_def)
    ultimately show ?thesis unfolding that(3,4) using accept_frames [OF that(2)] by blast
  qed
  show ?thesis
  proof (cases "ba tid")
    case None
    then show ?thesis by (auto simp: rxReorderInput_def)
  next
    case (Some r)
    obtain r' out freed where a: "reorder_accept f sn r = (r', out, freed)" by (cases "reorder_accept f sn r")
    consider "\<not> r_active r" | "r_active r" "2048 \<le> (sn - headSn r) mod 4096" | "r_active r" "\<not> 2048 \<le> (sn - headSn r) mod 4096" by blast
    then show ?thesis by cases (use Some acc [OF Some a] in \<open>auto simp: rxReorderInput_def a\<close>)
  qed
qed

definition held_ok :: "RTW88IEEE80211 \<Rightarrow> bool" where
  "held_ok s \<longleftrightarrow> (\<forall>f\<in>held (k_rxBa s). 24 \<le> length (f_data f) \<and> from_ap (f_data f) s)"

lemma from_ap_core: "hs_core s' = hs_core s \<Longrightarrow> from_ap f s' = from_ap f s"
  using hs_coreD(1,2) [of s' s] by (simp add: from_ap_def)

lemma held_ok_keeps:
  assumes "rx_keeps s s'"
  shows "held_ok s' = held_ok s"
proof -
  have c: "hs_core s' = hs_core s" using assms by (simp add: rx_keeps_def)
  show ?thesis unfolding held_ok_def hs_coreD(3) [OF c] from_ap_core [OF c] ..
qed

lemma held_ok_emit [simp]: "held_ok (emit e s) = held_ok s"
  by (simp add: held_ok_def from_ap_def)

lemma deliver_frames_Nil: "deliver_frames c d rnd [] = Some"
  by (rule ext) simp

lemma processRxData_batch:
  assumes "stack_ok s" "24 \<le> length (f_data skb)" "held_ok s" "data_state s" "from_ap (f_data skb) s"
  obtains fs t arm where "processRxData c d rnd skb s
        = deliver_frames c d rnd fs t \<bind> (\<lambda>u. Some (if arm then emit FxReorderArm u else u))"
    "\<forall>f\<in>set fs. 24 \<le> length (f_data f) \<and> from_ap (f_data f) s" "stack_ok t" "k_state t = k_state s" "held_ok t"
    "set fs \<union> held (k_rxBa t) \<subseteq> insert skb (held (k_rxBa s))" "injected t = injected s"
proof -
  define f where "f = f_data skb"
  define fc where "fc = le16_of (f ! 0) (f ! 1)"
  define hl where "hl = hdrlen_of_fc fc"
  define tid where "tid = unat (f ! (hl - 2) AND 0x0f)"
  define sn where "sn = drop_bit 4 (le16_of (f ! 22) (f ! 23) AND 0xFFF0)"
  define res where "res = rxReorderInput tid skb (uint sn) (k_rxBa s)"
  have len: "24 \<le> length f" and rd: "frame_control_of f = Some fc" "rd16 f 22 = Some (le16_of (f ! 22) (f ! 23))"
    using assms(2) by (simp_all add: frame_control_24 f_def fc_def rd16_def)
  have q: "hl \<le> length f \<Longrightarrow> rd f (hl - 2) = Some (f ! (hl - 2))" using hdrlen_bounds(1) [of fc] by (simp add: hl_def)
  have "processRxData c d rnd skb s = (if ieee80211_is_data_qos fc \<and> hl \<le> length f \<and> ba_session tid s
      then rx_dispatch c d rnd res s else deliverDataFrame c d (rnd 0) skb s)"
    using assms(4,5) infra_ok_exact [OF assms(1,2)] q rd
    by (simp add: processRxData_def Let_def rxReorderInput_k_def f_def fc_def hl_def tid_def sn_def res_def)
  note code = this
  show thesis
  proof (cases "ieee80211_is_data_qos fc \<and> hl \<le> length f \<and> ba_session tid s")
    case True
    let ?t = "s\<lparr>k_rxBa := rx_state res, k_fx := k_fx s @ replicate (length (rx_free res)) FxFreeSkb\<rparr>"
    have ins: "\<forall>g\<in>insert skb (held (k_rxBa s)). 24 \<le> length (f_data g) \<and> from_ap (f_data g) s"
      using assms(2,3,5) by (simp add: held_ok_def)
    show thesis
    proof (rule that [of "rx_deliver res" ?t "rx_arm res"])
      show "processRxData c d rnd skb s = deliver_frames c d rnd (rx_deliver res) ?t
          \<bind> (\<lambda>u. Some (if rx_arm res then emit FxReorderArm u else u))"
        unfolding code using True by (simp add: rx_dispatch_def)
      show "\<forall>f\<in>set (rx_deliver res). 24 \<le> length (f_data f) \<and> from_ap (f_data f) s"
        using ins input_frames [of tid skb "uint sn" "k_rxBa s"] unfolding res_def by blast
      have "\<forall>g\<in>held (rx_state res). 24 \<le> length (f_data g) \<and> from_ap (f_data g) s"
        using ins input_frames [of tid skb "uint sn" "k_rxBa s"] unfolding res_def by blast
      then show "held_ok ?t" by (simp add: held_ok_def from_ap_def)
      show "set (rx_deliver res) \<union> held (k_rxBa ?t) \<subseteq> insert skb (held (k_rxBa s))"
        using input_frames [of tid skb "uint sn" "k_rxBa s"] unfolding res_def by simp
      show "injected ?t = injected s" by (simp add: injected_def map_replicate_const)
    qed (use assms(1) in \<open>simp_all add: stack_ok_def\<close>)
  next
    case False
    show thesis
    proof (rule that [of "[skb]" s False])
      show "processRxData c d rnd skb s = deliver_frames c d rnd [skb] s \<bind> (\<lambda>u. Some (if False then emit FxReorderArm u else u))"
        unfolding code if_not_P [OF False] by (simp add: deliver_frames_Nil)
    qed (use assms in auto)
  qed
qed

lemma deliver_frames_injects:
  "deliver_frames c d rnd fs s = Some s' \<Longrightarrow>
     \<exists>ms. injected s' = injected s @ ms \<and> (\<forall>m\<in>set ms. \<exists>f\<in>set fs. carries (f_data f) m)"
proof (induction fs arbitrary: rnd s)
  case (Cons f fs)
  then obtain t where t: "deliverDataFrame c d (rnd 0) f s = Some t" "deliver_frames c d (\<lambda>i. rnd (Suc i)) fs t = Some s'"
    by (auto split: bind_splits)
  obtain ms where ms: "injected t = injected s @ ms" "\<forall>m\<in>set ms. carries (f_data f) m"
    using deliverDataFrame_injects [OF t(1)] by (auto simp: injects_from_def)
  obtain ns where "injected s' = injected t @ ns" "\<forall>m\<in>set ns. \<exists>f\<in>set fs. carries (f_data f) m"
    using Cons.IH [OF t(2)] by blast
  then show ?case using ms by (intro exI [of _ "ms @ ns"]) auto
qed simp


lemma demo_ready_held: "held_ok demo_ready"
  by (simp add: demo_ready_def stack0_def held_ok_def held_def)

text \<open>A protected data frame of the access point to the station, and what is handed on is carried by it.\<close>

definition demo_ap_frame :: bytes where
  "demo_ap_frame = [0x08, 0x42, 0, 0] @ replicate 18 0 @ [0, 0] @ replicate 8 1 @ [0xAA, 0xAA, 3, 0, 0, 0, 8, 0, 5, 6, 7]"


section \<open>Every packet arrives whole\<close>

text \<open>
  What an access point puts on the air for a packet: the header \<open>ap_hdr\<close>, the CCMP header of a protected frame, and
  either one LLC packet or, in an aggregated frame, a sequence of subframes that each carry their own addresses and
  are padded to a multiple of four bytes, the last one excepted.
\<close>

definition ap_hdr :: "bool \<Rightarrow> bool \<Rightarrow> bytes \<Rightarrow> bytes \<Rightarrow> bytes \<Rightarrow> bytes \<Rightarrow> bytes \<Rightarrow> bytes" where
  "ap_hdr qos prot a1 a2 a3 seq qosc =
     [if qos then 0x88 else 0x08, if prot then 0x42 else 0x02, 0, 0] @ a1 @ a2 @ a3 @ seq @ (if qos then qosc else [])"

definition subframe :: "bytes \<times> bytes \<times> u16 \<times> bytes \<Rightarrow> bytes" where
  "subframe = (\<lambda>(da, sa, e, p). da @ sa @ be16_bytes (of_nat (8 + length p)) @ llc_snap e @ p)"

definition pad4 :: "nat \<Rightarrow> bytes" where
  "pad4 n = replicate ((4 - n mod 4) mod 4) 0"

fun amsdu_body :: "(bytes \<times> bytes \<times> u16 \<times> bytes) list \<Rightarrow> bytes" where
  "amsdu_body [] = []"
| "amsdu_body [m] = subframe m"
| "amsdu_body (m # ms) = subframe m @ pad4 (length (subframe m)) @ amsdu_body ms"

definition msdu_ok :: "bytes \<times> bytes \<times> u16 \<times> bytes \<Rightarrow> bool" where
  "msdu_ok = (\<lambda>(da, sa, e, p). length da = 6 \<and> length sa = 6 \<and> length p \<le> 65527)"

definition packet_of :: "bytes \<times> bytes \<times> u16 \<times> bytes \<Rightarrow> bytes" where
  "packet_of = (\<lambda>(da, sa, e, p). eth_packet da sa e p)"

lemma length_subframe: "msdu_ok (da, sa, e, p) \<Longrightarrow> length (subframe (da, sa, e, p)) = 22 + length p"
  by (simp add: subframe_def msdu_ok_def llc_snap_def be16_bytes_def)

lemma pad4_round: "(22 + k) + (4 - (22 + k) mod 4) mod 4 = (k + 25) div 4 * 4" for k :: nat
proof -
  obtain q r where k: "k = 4 * q + r" "r < 4" by (metis mod_less_divisor mult_div_mod_eq zero_less_numeral)
  then consider "r = 0" | "r = 1" | "r = 2" | "r = 3" by linarith
  then show ?thesis by cases (simp_all add: k(1))
qed

lemma be16_of_parts [simp]: "be16_of (hi8 v) (lo8 v) = v"
  by (simp add: be16_of_def)

lemma deAmsdu_subframe:
  assumes "msdu_ok (da, sa, e, p)" "k_parent s" "k_answers s = []"
  shows "deAmsdu (pre @ subframe (da, sa, e, p) @ rest) (length pre) s
    = deAmsdu (pre @ subframe (da, sa, e, p) @ rest) (length pre + (length p + 25) div 4 * 4) (emit (FxInject (eth_packet da sa e p)) s)"
proof -
  define n :: u16 where "n = of_nat (8 + length p)"
  define x where "x = subframe (da, sa, e, p) @ rest"
  define dat where "dat = pre @ x"
  have l: "length da = 6" "length sa = 6" "length p \<le> 65527" using assms(1) by (simp_all add: msdu_ok_def)
  have n: "unat n = 8 + length p" using l(3) unfolding n_def by (intro unat_of_nat_small) simp
  have x: "x = da @ sa @ [hi8 n, lo8 n, 0xAA, 0xAA, 0x03, 0, 0, 0, hi8 e, lo8 e] @ p @ rest"
    by (simp add: x_def subframe_def n_def be16_bytes_def llc_snap_def)
  have at: "dat ! (length pre + k) = x ! k" "block dat (length pre + k) m = block x k m" "block dat (length pre) m = block x 0 m" for k m
    by (simp_all add: dat_def block_def)
  have v: "x ! 12 = hi8 n" "x ! 13 = lo8 n" "x ! 14 = 0xAA" "x ! 15 = 0xAA" "x ! 16 = 0x03" "x ! 20 = hi8 e" "x ! 21 = lo8 e"
      "block x 0 6 = da" "block x 6 6 = sa" "block x 22 (length p) = p"
    using l(1,2) by (simp_all add: x nth_append block_def)
  have len: "length dat = length pre + (22 + length p) + length rest"
    using length_subframe [OF assms(1)] by (simp add: dat_def x_def)
  have "be16_of (dat ! (length pre + 12)) (dat ! (length pre + 13)) = n" by (simp only: at v be16_of_parts)
  note step = deAmsdu_step [of "length pre" dat s, unfolded this n]
  have "deAmsdu dat (length pre) s = deAmsdu dat (length pre + sub_step n) (deliverEthernet da sa e p s)"
    using step len by (simp add: at v)
  then show ?thesis
    unfolding deliver_all(1) [OF assms(2,3)] sub_step_eq n by (simp add: dat_def x_def add.commute)
qed

lemma deAmsdu_exact:
  assumes "\<forall>m\<in>set ms. msdu_ok m" "k_parent s" "k_answers s = []"
  shows "deAmsdu (pre @ amsdu_body ms) (length pre) s = Some (s\<lparr>k_fx := k_fx s @ map (\<lambda>m. FxInject (packet_of m)) ms\<rparr>)"
  using assms
proof (induction ms arbitrary: pre s rule: amsdu_body.induct)
  case 1
  then show ?case by (subst deAmsdu.simps) simp
next
  case (2 m)
  obtain da sa e p where m: "m = (da, sa, e, p)" by (cases m)
  have ok: "msdu_ok (da, sa, e, p)" using 2(1) m by simp
  let ?t = "emit (FxInject (eth_packet da sa e p)) s"
  have "\<not> length pre + (length p + 25) div 4 * 4 + 14 \<le> length (pre @ subframe m)"
    using length_subframe [OF ok] unfolding m length_append by linarith
  then have "deAmsdu (pre @ subframe m) (length pre + (length p + 25) div 4 * 4) ?t = Some ?t"
    by (subst deAmsdu.simps) (simp only: if_False)
  then have "deAmsdu (pre @ amsdu_body [m]) (length pre) s = Some ?t"
    using deAmsdu_subframe [OF ok 2(2,3), of pre "[]"] unfolding m by simp
  then show ?case by (simp add: m emit_def packet_of_def)
next
  case (3 m m' ms)
  obtain da sa e p where m: "m = (da, sa, e, p)" by (cases m)
  have ok: "msdu_ok (da, sa, e, p)" using 3(2) m by simp
  let ?pre = "pre @ subframe m @ pad4 (length (subframe m))" and ?t = "emit (FxInject (eth_packet da sa e p)) s"
  have pos: "length ?pre = length pre + (length p + 25) div 4 * 4"
    using length_subframe [OF ok] pad4_round [of "length p"] by (simp add: m pad4_def)
  have "deAmsdu (?pre @ amsdu_body (m' # ms)) (length ?pre) ?t
      = Some (?t\<lparr>k_fx := k_fx ?t @ map (\<lambda>m. FxInject (packet_of m)) (m' # ms)\<rparr>)"
    using 3(2-4) by (intro 3(1)) simp_all
  note this [unfolded pos]
  then have "deAmsdu (pre @ amsdu_body (m # m' # ms)) (length pre) s
      = Some (?t\<lparr>k_fx := k_fx ?t @ map (\<lambda>m. FxInject (packet_of m)) (m' # ms)\<rparr>)"
    using deAmsdu_subframe [OF ok 3(3,4), of pre "pad4 (length (subframe m)) @ amsdu_body (m' # ms)"]
    unfolding m amsdu_body.simps append_assoc by simp
  then show ?case by (simp add: m emit_def packet_of_def)
qed

lemma ap_fields:
  assumes "length a1 = 6" "length a2 = 6" "length a3 = 6" "length seq = 2" "length qosc = 2"
    and f: "f = ap_hdr qos prot a1 a2 a3 seq qosc @ rest"
  shows "length f = (if qos then 26 else 24) + length rest" "f ! 0 = (if qos then 0x88 else 0x08)" "f ! 1 = (if prot then 0x42 else 0x02)"
    "block f 4 6 = a1" "block f 10 6 = a2" "block f 16 6 = a3" "f ! 4 = a1 ! 0" "qos \<Longrightarrow> f ! 24 = qosc ! 0"
    "drop (if qos then 26 else 24) f = rest" "f ! ((if qos then 26 else 24) + k) = rest ! k"
  using assms(1-5) by (simp_all add: f ap_hdr_def block_def nth_append)

lemma ap_fc:
  defines "fc \<equiv> (\<lambda>qos prot. le16_of (if qos then 0x88 else 0x08) (if prot then 0x42 else 0x02))"
  shows "hdrlen_of_fc (fc qos prot) = (if qos then 26 else 24)" "ieee80211_is_data_qos (fc qos prot) = qos"
    "ieee80211_has_protected (fc qos prot) = prot"
proof -
  have v: "fc False False = 0x208" "fc True False = 0x288" "fc False True = 0x4208" "fc True True = 0x4288"
    by (simp_all add: fc_def le16_of_def)
  show "hdrlen_of_fc (fc qos prot) = (if qos then 26 else 24)" "ieee80211_is_data_qos (fc qos prot) = qos"
    "ieee80211_has_protected (fc qos prot) = prot"
    by (cases qos; cases prot; simp add: v hdrlen_of_fc_def ieee80211_is_data_qos_def ieee80211_has_protected_def
        IEEE80211_FCTL_PROTECTED_def IEEE80211_FCTL_TODS_def IEEE80211_FCTL_FROMDS_def IEEE80211_FTYPE_DATA_def IEEE80211_STYPE_QOS_DATA_def Let_def)+
qed

lemma deliver_amsdu_code:
  assumes "frame_control_of (f_data skb) = Some fc" "hdrlen_of_fc fc = h" "ieee80211_is_data_qos fc" "ieee80211_has_protected fc = prot"
    and "rd (f_data skb) (h - 2) = Some q" "q AND 0x80 \<noteq> 0" "h + (if prot then 8 else 0) \<le> length (f_data skb)"
    and "deAmsdu (drop (if prot then h + 8 else h) (f_data skb)) 0 s = Some t"
  shows "deliverDataFrame c d rnd skb s = Some (free_skb t)"
  using assms by (cases prot) (simp_all add: deliverDataFrame_def Let_def)

lemma deliver_single_code:
  assumes "frame_control_of (f_data skb) = Some fc" "hdrlen_of_fc fc = h" "h + 8 \<le> length (f_data skb)"
    and "ieee80211_is_data_qos fc \<Longrightarrow> rd (f_data skb) (h - 2) = Some q" "q AND 0x80 = 0"
    and "llc_offset (f_data skb) fc h = Some off" "is_snap (f_data skb) off = Some True"
    and "rd (f_data skb) (off + 6) = Some (hi8 e)" "rd (f_data skb) (off + 7) = Some (lo8 e)" "24 \<le> h"
    and "e \<noteq> ETH_P_PAE \<or> k_state s \<noteq> RTW88_STATE_HANDSHAKING \<or> k_externalSupplicant s"
  shows "deliverDataFrame c d rnd skb s
    = Some (free_skb (deliverEthernet (block (f_data skb) 4 6) (block (f_data skb) 16 6) e (drop (off + 8) (f_data skb)) s))"
  using assms by (cases "ieee80211_is_data_qos fc") (auto simp add: deliverDataFrame_def Let_def)

lemma deliver_amsdu:
  assumes "length a1 = 6" "length a2 = 6" "length a3 = 6" "length seq = 2" "length qosc = 2" "length ccmp = 8" "bit (qosc ! 0) 7"
    and "\<forall>m\<in>set ms. msdu_ok m" "k_parent s" "k_answers s = []"
  shows "deliverDataFrame c d rnd \<lparr>f_data = ap_hdr True prot a1 a2 a3 seq qosc @ (if prot then ccmp else []) @ amsdu_body ms, f_rxs = rxs\<rparr> s
    = Some (free_skb (s\<lparr>k_fx := k_fx s @ map (\<lambda>m. FxInject (packet_of m)) ms\<rparr>))"
proof -
  let ?rest = "(if prot then ccmp else []) @ amsdu_body ms"
  let ?f = "ap_hdr True prot a1 a2 a3 seq qosc @ ?rest"
  note fl = ap_fields [OF assms(1-5) refl, where qos = True and prot = prot and rest = ?rest, unfolded if_True]
  have b: "(0x80 :: u8) = push_bit 7 1" by simp
  have q: "rd ?f 24 = Some (qosc ! 0)" "qosc ! 0 AND 0x80 \<noteq> 0"
    using fl(1,8) assms(7) unfolding b bit_iff_and_push_bit_not_eq_0 [symmetric] by simp_all
  have dr: "drop (if prot then 26 + 8 else 26) ?f = amsdu_body ms"
    using assms(1-6) by (cases prot) (simp_all add: ap_hdr_def)
  have fc: "frame_control_of ?f = Some (le16_of 0x88 (if prot then 0x42 else 0x02))"
    using fl(1-3) by (simp add: frame_control_24)
  note h = ap_fc [of True prot, unfolded if_True]
  show ?thesis
  proof (rule deliver_amsdu_code, unfold rx_skb.select_convs)
    show "26 + (if prot then 8 else 0) \<le> length ?f" using fl(1) assms(6) by simp
    show "deAmsdu (drop (if prot then 26 + 8 else 26) ?f) 0 s = Some (s\<lparr>k_fx := k_fx s @ map (\<lambda>m. FxInject (packet_of m)) ms\<rparr>)"
      unfolding dr using deAmsdu_exact [OF assms(8-10), of "[]"] by simp
  qed (use fc h q in simp_all)
qed

lemma deliver_single:
  assumes "length a1 = 6" "length a2 = 6" "length a3 = 6" "length seq = 2" "length qosc = 2" "\<not> bit (qosc ! 0) 7"
    and "length ccmp = 8" "ccmp ! 2 = 0" "iv \<longrightarrow> prot" "k_parent s" "k_answers s = []"
    and "e \<noteq> ETH_P_PAE \<or> k_state s \<noteq> RTW88_STATE_HANDSHAKING \<or> k_externalSupplicant s"
  shows "deliverDataFrame c d rnd \<lparr>f_data = ap_hdr qos prot a1 a2 a3 seq qosc @ (if iv then ccmp else []) @ llc_snap e @ p, f_rxs = rxs\<rparr> s
    = Some (free_skb (emit (FxInject (eth_packet a1 a3 e p)) s))"
proof -
  let ?rest = "(if iv then ccmp else []) @ llc_snap e @ p" and ?h = "if qos then 26 else 24 :: nat"
  let ?f = "ap_hdr qos prot a1 a2 a3 seq qosc @ ?rest"
  note fl = ap_fields [OF assms(1-5) refl, where qos = qos and prot = prot and rest = ?rest]
  have b: "(0x80 :: u8) = push_bit 7 1" by simp
  have q: "qos \<Longrightarrow> rd ?f 24 = Some (qosc ! 0)" "qosc ! 0 AND 0x80 = 0"
    using fl(1,8) assms(6) unfolding b bit_iff_and_push_bit_not_eq_0 by simp_all
  have fc: "frame_control_of ?f = Some (le16_of (if qos then 0x88 else 0x08) (if prot then 0x42 else 0x02))"
    using fl(1-3) by (simp add: frame_control_24)
  define off where "off = ?h + (if iv then 8 else 0)"
  have llc: "length (llc_snap e) = 8" "llc_snap e = [0xAA, 0xAA, 0x03, 0, 0, 0, hi8 e, lo8 e]" by (simp_all add: llc_snap_def be16_bytes_def)
  have len: "length ?f = off + 8 + length p" using fl(1) assms(7) llc(1) by (simp add: off_def)
  have at: "?f ! (off + k) = (llc_snap e @ p) ! k" for k
    using fl(10) [of "(if iv then 8 else 0) + k"] assms(7) by (cases iv) (simp_all add: off_def nth_append add.assoc)
  have dr: "drop (off + 8) ?f = p" using assms(1-5,7) llc(1) by (simp add: off_def ap_hdr_def)
  have sn: "is_snap ?f off = Some True"
    using len at [of 0] at [of 1] at [of 2] llc by (simp add: is_snap_at nth_append)
  have "iv \<Longrightarrow> ?f ! (?h + 2) = 0" using fl(10) [of 2] assms(7,8) by (simp add: nth_append)
  then have "iv \<Longrightarrow> is_snap ?f ?h = Some False" using len by (auto simp: is_snap_at off_def)
  then have lo: "llc_offset ?f fc ?h = Some off" if "ieee80211_has_protected fc = prot" for fc
    using sn that assms(9) len by (cases iv) (simp_all add: llc_offset_def off_def)
  have et: "rd ?f (off + 6) = Some (hi8 e)" "rd ?f (off + 7) = Some (lo8 e)"
    using len at [of 6] at [of 7] llc by (simp_all add: nth_append)
  note h = ap_fc [of qos prot]
  have "deliverDataFrame c d rnd \<lparr>f_data = ?f, f_rxs = rxs\<rparr> s = Some (free_skb (deliverEthernet (block ?f 4 6) (block ?f 16 6) e (drop (off + 8) ?f) s))"
  proof (rule deliver_single_code [where skb = "\<lparr>f_data = ?f, f_rxs = rxs\<rparr>", unfolded rx_skb.select_convs])
    show "?h + 8 \<le> length ?f" unfolding len by (simp add: off_def)
    show "rd ?f (?h - 2) = Some (qosc ! 0)" if "ieee80211_is_data_qos (le16_of (if qos then 0x88 else 0x08) (if prot then 0x42 else 0x02))"
      using q(1) that h(2) by simp
  qed (use fc h(1) q(2) lo [OF h(3)] sn et assms(12) in simp_all)
  then show ?thesis unfolding fl(4,6) dr deliver_all(1) [OF assms(10,11)] .
qed

lemma processRxData_direct:
  assumes "stack_ok s" "24 \<le> length (f_data skb)" "data_state s" "from_ap (f_data skb) s"
    and "frame_control_of (f_data skb) = Some fc" "hdrlen_of_fc fc = h" "24 \<le> h"
    and "ieee80211_is_data_qos fc \<Longrightarrow> \<not> ba_session (unat (f_data skb ! (h - 2) AND 0x0f)) s"
  shows "processRxData c d rnd skb s = deliverDataFrame c d (rnd 0) skb s"
  using assms infra_ok_exact [OF assms(1,2)] by (auto simp: processRxData_def Let_def)

lemma ap_frame_direct:
  assumes "stack_ok s" "data_state s" "length a1 = 6" "a1 = k_macAddr s \<or> bit (a1 ! 0) 0" "length a3 = 6" "length seq = 2" "length qosc = 2"
    and "qos \<Longrightarrow> \<not> ba_session (unat (qosc ! 0 AND 0x0f)) s"
  shows "processRxData c d rnd \<lparr>f_data = ap_hdr qos prot a1 (b_bssid (k_targetBSS s)) a3 seq qosc @ rest, f_rxs = rxs\<rparr> s
    = deliverDataFrame c d (rnd 0) \<lparr>f_data = ap_hdr qos prot a1 (b_bssid (k_targetBSS s)) a3 seq qosc @ rest, f_rxs = rxs\<rparr> s"
proof -
  let ?f = "ap_hdr qos prot a1 (b_bssid (k_targetBSS s)) a3 seq qosc @ rest"
  note fl = ap_fields [OF assms(3) stack_okD(3) [OF assms(1)] assms(5-7) refl, where qos = qos and prot = prot and rest = rest]
  note h = ap_fc [of qos prot]
  have fc: "frame_control_of ?f = Some (le16_of (if qos then 0x88 else 0x08) (if prot then 0x42 else 0x02))"
    using fl(1-3) by (simp add: frame_control_24)
  have "bit (0x42 :: u8) 1" "bit (0x02 :: u8) 1" by (simp_all add: bit_numeral_rec)
  then have ap: "from_ap ?f s" using fl(3,4,5,7) assms(4) by (simp add: from_ap_def)
  show ?thesis
    by (rule processRxData_direct [where skb = "\<lparr>f_data = ?f, f_rxs = rxs\<rparr>", unfolded rx_skb.select_convs, OF assms(1) _ assms(2) ap fc h(1)])
      (use fl(1,8) assms(8) h(2) in simp_all)
qed

text \<open>
  C10: Every packet of the access point arrives whole. For a station that takes data frames with no reorder session for
  the priority of the frame: a frame with one packet, with or without quality of service field, protected or not, with
  the CCMP header still in place or already removed, is handed to the network stack as exactly one Ethernet packet
  with the frame's addresses, protocol and payload, unless it is an EAPOL packet during the handshake, which the handshake takes; an aggregated frame of any number of packets, each padded to
  four bytes, is handed up as exactly these packets in their order. The frame is released once.
\<close>

theorem rx_packets_arrive_whole:
  assumes "stack_ok s" "data_state s" "k_parent s" "k_answers s = []" "length a1 = 6" "a1 = k_macAddr s \<or> bit (a1 ! 0) 0"
    and "length a3 = 6" "length seq = 2" "length qosc = 2" "\<not> ba_session (unat (qosc ! 0 AND 0x0f)) s"
    and "length ccmp = 8" "ccmp ! 2 = 0" "iv \<longrightarrow> prot" "\<forall>m\<in>set ms. msdu_ok m"
  defines "hdr \<equiv> \<lambda>qos. ap_hdr qos prot a1 (b_bssid (k_targetBSS s)) a3 seq qosc"
  shows "if bit (qosc ! 0) 7
    then processRxData c d rnd \<lparr>f_data = hdr True @ (if prot then ccmp else []) @ amsdu_body ms, f_rxs = rxs\<rparr> s
           = Some (free_skb (s\<lparr>k_fx := k_fx s @ map (\<lambda>m. FxInject (packet_of m)) ms\<rparr>))
    else e = ETH_P_PAE \<and> k_state s = RTW88_STATE_HANDSHAKING
      \<or> processRxData c d rnd \<lparr>f_data = hdr qos @ (if iv then ccmp else []) @ llc_snap e @ p, f_rxs = rxs\<rparr> s
           = Some (free_skb (emit (FxInject (eth_packet a1 a3 e p)) s))"
proof -
  note dir = ap_frame_direct [OF assms(1,2,5-9,10)]
  have b: "length (b_bssid (k_targetBSS s)) = 6" by (rule stack_okD(3) [OF assms(1)])
  show ?thesis
    unfolding hdr_def dir
    using deliver_amsdu [OF assms(5) b assms(7-9,11) _ assms(14,3,4), of c d "rnd 0" prot rxs]
      deliver_single [OF assms(5) b assms(7-9) _ assms(11-13,3,4), of e c d "rnd 0" qos p rxs] by argo
qed

theorem rx_packets_arrive_whole_witness:
  "processRxData demo_stack demo_drv (\<lambda>_. replicate 32 0)
      \<lparr>f_data = ap_hdr True True (replicate 6 0xff) (replicate 6 0) (replicate 6 7) [0, 0] [0x80, 0] @ replicate 8 0
         @ amsdu_body [(replicate 6 1, replicate 6 2, 0x0800, [5, 6, 7]), (replicate 6 3, replicate 6 4, 0x86DD, [8])], f_rxs = demo_rxs\<rparr>
      (demo_ready\<lparr>k_parent := True\<rparr>)
    = Some (free_skb (demo_ready\<lparr>k_parent := True,
        k_fx := [FxInject (replicate 6 1 @ replicate 6 2 @ [8, 0, 5, 6, 7]), FxInject (replicate 6 3 @ replicate 6 4 @ [0x86, 0xDD, 8])]\<rparr>))"
proof -
  let ?s = "demo_ready\<lparr>k_parent := True\<rparr>"
  have ok: "stack_ok ?s" using demo_ready_ok(1) by (simp add: stack_ok_def)
  have s: "data_state ?s" "k_parent ?s" "k_answers ?s = []" "\<not> ba_session (unat ([0x80, 0] ! 0 AND 0x0f :: u8)) ?s" "k_fx ?s = []"
      "b_bssid (k_targetBSS ?s) = replicate 6 0"
    by (simp_all add: data_state_def demo_ready_def stack0_def ba_session_def zero_bss_def)
  have b: "bit ([0x80, 0 :: u8] ! 0) 7" "bit (replicate 6 (0xff :: u8) ! 0) 0" by (simp_all add: bit_numeral_rec bit_0)
  have ms: "\<forall>m\<in>set [(replicate 6 1, replicate 6 2, 0x0800, [5, 6, 7]), (replicate 6 3, replicate 6 4, 0x86DD, [8])]. msdu_ok m"
    by (simp add: msdu_ok_def)
  show ?thesis
    using rx_packets_arrive_whole [OF ok s(1-3) length_replicate disjI2 [OF b(2)] _ _ _ s(4) _ _ _ ms,
        of "replicate 6 7" "[0, 0]" "replicate 8 0" True True demo_stack demo_drv "\<lambda>_. replicate 32 0" demo_rxs 0 False "[]"]
    unfolding s(5,6) if_P [OF b(1)] if_True
    by (simp add: packet_of_def eth_packet_def be16_bytes_def hi8_def lo8_def)
qed

text \<open>
  Nothing on this path asks whether a frame of a protected connection is protected: once a pairwise key is installed,
  a frame in the clear that carries the access point's address is still handed to the network stack.
\<close>

theorem plaintext_accepted_on_protected_link:
  assumes "stack_ok s" "k_state s = RTW88_STATE_CONNECTED" "k_wpa2 s" "k_ptkConf s = Some key" "k_parent s" "k_answers s = []" "length a3 = 6"
  shows "processRxData c d rnd \<lparr>f_data = ap_hdr False False (k_macAddr s) (b_bssid (k_targetBSS s)) a3 [0, 0] [0, 0] @ llc_snap e @ p, f_rxs = rxs\<rparr> s
    = Some (free_skb (emit (FxInject (eth_packet (k_macAddr s) a3 e p)) s))"
proof -
  have l: "length (k_macAddr s) = 6" "length (b_bssid (k_targetBSS s)) = 6" using stack_okD(1,3) [OF assms(1)] .
  have "data_state s" using assms(2) by (simp add: data_state_def)
  note dir = ap_frame_direct [OF assms(1) this l(1) disjI1 [OF refl] assms(7), of "[0, 0]" "[0, 0]" False]
  show ?thesis
    using dir deliver_single [OF l assms(7) _ _ _ _ _ _ assms(5,6), of "[0, 0]" "[0, 0]" "replicate 8 0" False False e c d "rnd 0" False p rxs] assms(2)
    by simp
qed

section \<open>AWDL data frames\<close>

lemma awdl_layout:
  assumes "14 \<le> length m" "k_parent s" "k_answers s = []"
    and f: "f = hdr3 IEEE80211_FTYPE_DATA (take 6 m) (block m 6 6) awdlBssid q @ awdl_snap
      @ ([0x03, 0x04, l, h, 0, 0] @ be16_bytes (be16_of (m ! 12) (m ! 13))) @ drop 14 m"
  shows "tryDeliverAWDLDataFrame \<lparr>f_data = f, f_rxs = rxs\<rparr> s = Some (True, free_skb (emit (FxInjectAwdl m) s))"
proof -
  define e where "e = be16_of (m ! 12) (m ! 13)"
  have la: "length (take 6 m) = 6" "length (block m 6 6) = 6" using assms(1) by (simp_all add: block_def)
  have x: "f = [8, 0, 0, 0] @ take 6 m @ block m 6 6 @ awdlBssid @ [lo8 q, hi8 q] @ awdl_snap @ [0x03, 0x04, l, h, 0, 0, hi8 e, lo8 e] @ drop 14 m"
    unfolding f by (simp add: hdr3_def hdr_3addr_bytes_def e_def be16_bytes_def IEEE80211_FTYPE_DATA_def lo8_def hi8_def)
  have len: "length f = 40 + (length m - 14)" using la by (simp add: x awdlBssid_def awdl_snap_def)
  have v: "frame_control_of f = Some 8" "block f 4 6 = take 6 m" "block f 10 6 = block m 6 6" "block f 16 6 = awdlBssid" "block f 24 8 = awdl_snap"
      "f ! 32 = 0x03" "f ! 33 = 0x04" "f ! 38 = hi8 e" "f ! 39 = lo8 e" "drop 40 f = drop 14 m"
    using la by (simp_all add: x frame_control_of_def rd_def le16_of_def block_def awdlBssid_def awdl_snap_def nth_append)
  have fc: "8 AND (IEEE80211_FCTL_TODS OR IEEE80211_FCTL_FROMDS) = 0" "hdrlen_of_fc 8 = 24"
    by (simp_all add: hdrlen_of_fc_def IEEE80211_FCTL_TODS_def IEEE80211_FCTL_FROMDS_def IEEE80211_FTYPE_DATA_def Let_def)
  have "drop 12 m = m ! 12 # m ! 13 # drop 14 m"
    using assms(1) Cons_nth_drop_Suc [of 12 m] Cons_nth_drop_Suc [of 13 m] by simp
  then have "m = take 6 m @ take 6 (drop 6 m) @ m ! 12 # m ! 13 # drop 14 m"
    using append_take_drop_id [of 6 m] append_take_drop_id [of 6 "drop 6 m"] by simp
  then have m: "eth_packet (take 6 m) (block m 6 6) e (drop 14 m) = m"
    by (simp add: eth_packet_def be16_bytes_def e_def be16_of_def block_def)
  show ?thesis
    using len by (simp add: tryDeliverAWDLDataFrame_def Let_def v fc deliver_all(2) [OF assms(2,3)] m)
qed

text \<open>
  C37: An AWDL packet arrives as it was sent. Whenever \<open>txAWDLDataFrame\<close> succeeds on an Ethernet packet, it hands the
  driver exactly one frame, and any peer that receives this frame, connected or not, recognises it, delivers exactly
  the original packet to its AWDL interface, and releases the frame.
\<close>

theorem awdl_data_roundtrip:
  assumes "txAWDLDataFrame d (Some m) s = Some (True, s')" "k_parent t" "k_answers t = []"
  shows "\<exists>f meta. k_fx s' = k_fx s @ [FxTx f meta, FxFreeMbuf]
    \<and> tryDeliverAWDLDataFrame \<lparr>f_data = f, f_rxs = rxs\<rparr> t = Some (True, free_skb (emit (FxInjectAwdl m) t))"
proof -
  obtain q l h meta where "14 \<le> length m" "k_fx s' = k_fx s @ [FxTx (hdr3 IEEE80211_FTYPE_DATA (take 6 m) (block m 6 6) awdlBssid q
      @ awdl_snap @ ([0x03, 0x04, l, h, 0, 0] @ be16_bytes (be16_of (m ! 12) (m ! 13))) @ drop 14 m) meta, FxFreeMbuf]"
    using assms(1)
    by (auto simp: txAWDLDataFrame_def Let_def skb_frame_def free_m_def next_txSeq_def bind_eq_Some_iff not_less split: if_splits)
  then show ?thesis using awdl_layout [OF _ assms(2,3) refl] by blast
qed

theorem awdl_data_roundtrip_witness:
  "\<exists>s' f meta. txAWDLDataFrame demo_drv (Some [1, 2, 3, 4, 5, 6, 7, 8, 9, 10, 11, 12, 0x86, 0xDD, 42]) demo_ready = Some (True, s')
     \<and> k_fx s' = k_fx demo_ready @ [FxTx f meta, FxFreeMbuf]
     \<and> tryDeliverAWDLDataFrame \<lparr>f_data = f, f_rxs = demo_rxs\<rparr> (stack0\<lparr>k_parent := True\<rparr>)
       = Some (True, free_skb (emit (FxInjectAwdl [1, 2, 3, 4, 5, 6, 7, 8, 9, 10, 11, 12, 0x86, 0xDD, 42]) (stack0\<lparr>k_parent := True\<rparr>)))"
proof -
  let ?m = "[1, 2, 3, 4, 5, 6, 7, 8, 9, 10, 11, 12, 0x86, 0xDD, 42] :: bytes"
  have "\<exists>s'. txAWDLDataFrame demo_drv (Some ?m) demo_ready = Some (True, s')"
    by (simp add: txAWDLDataFrame_def Let_def skb_frame_def demo_ready_def stack0_def has_ops_def demo_drv_def answer_def
        hdr3_def hdr_3addr_bytes_def awdlBssid_def awdl_snap_def be16_bytes_def block_def next_txSeq_def)
  then show ?thesis
    using awdl_data_roundtrip [of demo_drv ?m demo_ready _ "stack0\<lparr>k_parent := True\<rparr>" demo_rxs] by (fastforce simp: stack0_def)
qed

end
