(* ===== verification/Assoc.thy ===== *)
theory Assoc
  imports Eapol "HOL-Library.Signed_Division"
begin

text \<open>
  The requests of \<open>RTW88IEEE80211.cpp\<close> that open a connection and the queries about it: the authentication and
  association frames, the RSN element an external supplicant supplies, the operating channel derived from the
  access point's elements, and the copies of the target's elements and of the channel table for callers outside the
  class. Frames are built in buffers of fixed size on the stack; a write past the end is \<open>None\<close>.
\<close>

definition IEEE80211_STYPE_ASSOC_REQ :: u16 where "IEEE80211_STYPE_ASSOC_REQ = 0x0000"
definition IEEE80211_STYPE_AUTH :: u16 where "IEEE80211_STYPE_AUTH = 0x00B0"
definition IEEE80211_STYPE_DEAUTH :: u16 where "IEEE80211_STYPE_DEAUTH = 0x00C0"
definition WLAN_EID_HT_CAPABILITY :: u8 where "WLAN_EID_HT_CAPABILITY = 45"
definition WLAN_EID_VHT_CAPABILITY :: u8 where "WLAN_EID_VHT_CAPABILITY = 191"
definition WLAN_EID_VHT_OPERATION :: u8 where "WLAN_EID_VHT_OPERATION = 192"
definition WLAN_EID_EXT_SUPP_RATES :: u8 where "WLAN_EID_EXT_SUPP_RATES = 50"
definition IEEE80211_HT_CAP_SUP_WIDTH_20_40 :: u16 where "IEEE80211_HT_CAP_SUP_WIDTH_20_40 = 0x0002"
definition IEEE80211_HT_CAP_SGI_40 :: u16 where "IEEE80211_HT_CAP_SGI_40 = 0x0040"
definition IEEE80211_HT_CAP_DSSSCCK40 :: u16 where "IEEE80211_HT_CAP_DSSSCCK40 = 0x1000"
definition IEEE80211_CHAN_DISABLED :: u32 where "IEEE80211_CHAN_DISABLED = 1"
definition IEEE80211_CHAN_NO_IR :: u32 where "IEEE80211_CHAN_NO_IR = 2"
definition IEEE80211_CHAN_RADAR :: u32 where "IEEE80211_CHAN_RADAR = 128"
definition NL80211_NUM_BANDS :: nat where "NL80211_NUM_BANDS = 3"

section \<open>Bands and channels\<close>

fun band_number :: "nl80211_band \<Rightarrow> nat" where
  "band_number NL80211_BAND_2GHZ = 0"
| "band_number NL80211_BAND_5GHZ = 1"
| "band_number NL80211_BAND_60GHZ = 2"

text \<open>\<open>(_hw && _hw->wiphy) ? _hw->wiphy->bands[band] : nullptr\<close>\<close>

definition band_entry :: "nl80211_band \<Rightarrow> RTW88IEEE80211 \<Rightarrow> ieee80211_supported_band option" where
  "band_entry bnd s =
     (case k_hw s of None \<Rightarrow> None
      | Some hw \<Rightarrow> (case h_bands hw of None \<Rightarrow> None | Some bands \<Rightarrow> Option.bind (rd bands (band_number bnd)) id))"

text \<open>
  The search loops over the channel tables: the first channel that satisfies \<open>P\<close>, with its \<open>band\<close> member set from the
  table it is in, and the tables with this change.
\<close>

fun pick_chan :: "(ieee80211_channel \<Rightarrow> bool) \<Rightarrow> nl80211_band \<Rightarrow> ieee80211_channel list
    \<Rightarrow> (ieee80211_channel \<times> ieee80211_channel list) option" where
  "pick_chan P bnd [] = None"
| "pick_chan P bnd (c # cs) =
     (if P c then (let c' = c\<lparr>ch_band := bnd\<rparr> in Some (c', c' # cs))
      else map_option (\<lambda>(x, ys). (x, c # ys)) (pick_chan P bnd cs))"

fun pick_bands :: "(ieee80211_channel \<Rightarrow> bool) \<Rightarrow> ieee80211_supported_band option list
    \<Rightarrow> (ieee80211_channel \<times> ieee80211_supported_band option list) option" where
  "pick_bands P [] = None"
| "pick_bands P (None # bs) = map_option (\<lambda>(x, ys). (x, None # ys)) (pick_bands P bs)"
| "pick_bands P (Some b # bs) =
     (case pick_chan P (sb_band b) (sb_channels b) of
        Some (c, cs) \<Rightarrow> Some (c, Some (b\<lparr>sb_channels := cs\<rparr>) # bs)
      | None \<Rightarrow> map_option (\<lambda>(x, ys). (x, Some b # ys)) (pick_bands P bs))"

definition find_channel :: "(ieee80211_channel \<Rightarrow> bool) \<Rightarrow> RTW88IEEE80211 \<Rightarrow> ieee80211_channel option \<times> RTW88IEEE80211" where
  "find_channel P s =
     (case k_hw s of None \<Rightarrow> (None, s)
      | Some hw \<Rightarrow>
        (case Option.bind (h_bands hw) (pick_bands P) of
           None \<Rightarrow> (None, s)
         | Some (c, bands) \<Rightarrow> (Some c, s\<lparr>k_hw := Some (hw\<lparr>h_bands := Some bands\<rparr>)\<rparr>)))"

section \<open>The operating width\<close>

record op_info =
  oi_sco :: u8
  oi_htStaWidth :: bool
  oi_vhtWidth :: u8
  oi_vhtSeg0 :: u8

text \<open>The HT and VHT operation elements among the \<open>ielen\<close> bytes of \<open>ies\<close>, from offset \<open>i\<close>.\<close>

function op_walk :: "bytes \<Rightarrow> nat \<Rightarrow> nat \<Rightarrow> op_info \<Rightarrow> op_info option" where
  "op_walk ies ielen i oi =
     (if i + 2 \<le> ielen then
        do { eid \<leftarrow> rd ies i; n \<leftarrow> rd ies (i + 1);
             if i + 2 + unat n > ielen then Some oi
             else do {
               oi \<leftarrow> (if eid = WLAN_EID_HT_OPERATION \<and> n \<ge> 2
                      then do { d1 \<leftarrow> rd ies (i + 3); Some (oi\<lparr>oi_sco := d1 AND 0x03, oi_htStaWidth := d1 AND 0x04 \<noteq> 0\<rparr>) }
                      else if eid = WLAN_EID_VHT_OPERATION \<and> n \<ge> 3
                      then do { d0 \<leftarrow> rd ies (i + 2); d1 \<leftarrow> rd ies (i + 3); Some (oi\<lparr>oi_vhtWidth := d0, oi_vhtSeg0 := d1\<rparr>) }
                      else Some oi);
               op_walk ies ielen (i + 2 + unat n) oi } }
      else Some oi)"
  by pat_completeness auto
termination by (relation "measure (\<lambda>(ies, ielen, i, oi). ielen - i)") auto

declare op_walk.simps [simp del]

definition no_op_info :: op_info where
  "no_op_info = \<lparr>oi_sco = 0, oi_htStaWidth = False, oi_vhtWidth = 0, oi_vhtSeg0 = 0\<rparr>"

definition set_chandef :: "ieee80211_channel \<Rightarrow> nl80211_chan_width \<Rightarrow> u32 \<Rightarrow> hw_view \<Rightarrow> hw_view" where
  "set_chandef chan w f hw = hw\<lparr>h_chandef := (h_chandef hw)\<lparr>cd_chan := Some chan, cd_width := w, cd_center_freq1 := f\<rparr>\<rparr>"

text \<open>The width in MHz, the code of the driver, and the centre frequency.\<close>

definition chan_width :: "ieee80211_channel \<Rightarrow> nl80211_band \<Rightarrow> ieee80211_supported_band \<Rightarrow> op_info \<Rightarrow> u8 \<times> nl80211_chan_width \<times> u32" where
  "chan_width chan bnd sb oi =
     (let chip40 = (ht_cap_bits (sb_ht_cap sb) AND IEEE80211_HT_CAP_SUP_WIDTH_20_40 \<noteq> 0);
          chip80 = (chip40 \<and> bnd = NL80211_BAND_5GHZ \<and> vht_supported (sb_vht_cap sb));
          cf = uint (ch_center_freq chan);
          r = (20, NL80211_CHAN_WIDTH_20_NOHT, of_int cf);
          r = (if chip40 \<and> oi_htStaWidth oi \<and> (oi_sco oi = 1 \<or> oi_sco oi = 3)
               then (40, NL80211_CHAN_WIDTH_40, of_int (cf + (if oi_sco oi = 1 then 10 else - 10))) else r)
      in if chip80 \<and> oi_vhtWidth oi = 1 \<and> oi_vhtSeg0 oi \<noteq> 0
         then (80, NL80211_CHAN_WIDTH_80, of_int (5000 + 5 * uint (oi_vhtSeg0 oi))) else r)"

definition setConnectedChandef :: "ieee80211_channel \<Rightarrow> RTW88IEEE80211 \<Rightarrow> RTW88IEEE80211 option" where
  "setConnectedChandef chan s =
     do { hw \<leftarrow> k_hw s;
          let hw = set_chandef chan NL80211_CHAN_WIDTH_20_NOHT (ucast (ch_center_freq chan)) hw;
              s = s\<lparr>k_hw := Some hw, k_connChanWidth := 20\<rparr>;
              bnd = band_of (b_channel (k_targetBSS s))
          in if \<not> htAllowed s then Some s
             else (case band_entry bnd s of
                     None \<Rightarrow> Some s
                   | Some sb \<Rightarrow>
                     do { oi \<leftarrow> op_walk (b_ies (k_targetBSS s)) (unat (b_ies_len (k_targetBSS s))) 0 no_op_info;
                          let (w, cw, f) = chan_width chan bnd sb oi
                          in Some (s\<lparr>k_connChanWidth := w, k_hw := Some (set_chandef chan cw f hw)\<rparr>) }) }"

section \<open>Requests\<close>

text \<open>\<open>cpu_to_le16 ((uint16_t)(_txSeq++ << 4))\<close>\<close>

definition mgmt_hdr :: "u16 \<Rightarrow> RTW88IEEE80211 \<Rightarrow> bytes" where
  "mgmt_hdr stype s = hdr3 (IEEE80211_FTYPE_MGMT OR stype) (b_bssid (k_targetBSS s)) (k_macAddr s) (b_bssid (k_targetBSS s))
     (push_bit 4 (k_txSeq s))"

definition buildAuthReq :: "RTW88IEEE80211 \<Rightarrow> (bytes \<times> RTW88IEEE80211) option" where
  "buildAuthReq s = do { f \<leftarrow> skb_frame 30 [mgmt_hdr IEEE80211_STYPE_AUTH s, [0, 0, 1, 0, 0, 0]]; Some (f, next_txSeq s) }"

definition ext_rates_2g :: bytes where
  "ext_rates_2g = [0x30, 0x48, 0x60, 0x6c]"

definition wme_info :: bytes where
  "wme_info = [0xdd, 0x07, 0x00, 0x50, 0xf2, 0x02, 0x00, 0x01, 0x00]"

definition narrow_ht :: "u8 \<Rightarrow> u16 \<Rightarrow> u16" where
  "narrow_ht width cap =
     (if width < 40 then cap AND NOT (IEEE80211_HT_CAP_SUP_WIDTH_20_40 OR IEEE80211_HT_CAP_SGI_40 OR IEEE80211_HT_CAP_DSSSCCK40)
      else cap)"

definition ht_cap_ie :: "u8 \<Rightarrow> ieee80211_sta_ht_cap \<Rightarrow> bytes" where
  "ht_cap_ie width ht =
     (let htcap = narrow_ht width (ht_cap_bits ht); mcs = ht_mcs ht
      in [WLAN_EID_HT_CAPABILITY, 26, lo8 htcap, hi8 htcap, (ampdu_factor ht AND 0x3) OR push_bit 2 (ampdu_density ht AND 0x7)]
         @ mcs_rx_mask mcs @ [lo8 (mcs_rx_highest mcs), hi8 (mcs_rx_highest mcs), ucast (mcs_tx_params mcs)] @ replicate 10 0)"

definition vht_cap_ie :: "ieee80211_sta_vht_cap \<Rightarrow> bytes" where
  "vht_cap_ie vht =
     (let m = vht_mcs vht; rxmap = ucast (vm_rx_mcs_map m) :: u16; txmap = ucast (vm_tx_mcs_map m) :: u16
      in [WLAN_EID_VHT_CAPABILITY, 12] @ le32_bytes (vht_cap_bits vht)
         @ [lo8 rxmap, hi8 rxmap, lo8 (vm_rx_highest m), hi8 (vm_rx_highest m), lo8 txmap, hi8 txmap, lo8 (vm_tx_highest m), hi8 (vm_tx_highest m)])"

text \<open>The RSN element of the request: the supplicant's, when it is there and consistent, or the selected one.\<close>

definition assoc_rsn :: "RTW88IEEE80211 \<Rightarrow> bytes" where
  "assoc_rsn s =
     (let n = k_assocRsnIELen s
      in if k_externalSupplicant s \<and> n \<ge> 2 \<and> n \<le> 257 \<and> k_assocRsnIE s ! 0 = 48 \<and> ucast (k_assocRsnIE s ! 1) + 2 = n
         then take (unat n) (k_assocRsnIE s)
         else rtw88BuildSelectedRsnIe (b_group_cipher (k_targetBSS s)))"

definition assoc_caps :: "RTW88IEEE80211 \<Rightarrow> u16" where
  "assoc_caps s = (if k_wpa2 s then 0x0431 OR 0x0010 else 0x0431)"

definition buildAssocReq :: "RTW88IEEE80211 \<Rightarrow> (bytes \<times> RTW88IEEE80211) option" where
  "buildAssocReq s =
     (let b = k_targetBSS s;
          is5 = b_channel b > 14;
          rates = (if is5 then rates_5g else rates_2g);
          bnd = band_of (b_channel b)
      in do { f \<leftarrow> skb_frame 256
                [mgmt_hdr IEEE80211_STYPE_ASSOC_REQ s,
                 [lo8 (assoc_caps s), hi8 (assoc_caps s), 10, 0],
                 [WLAN_EID_SSID, b_ssid_len b] @ take (unat (b_ssid_len b)) (b_ssid b),
                 [WLAN_EID_SUPP_RATES, of_nat (length rates)] @ rates,
                 (if b_channel b \<le> 14 then [WLAN_EID_EXT_SUPP_RATES, of_nat (length ext_rates_2g)] @ ext_rates_2g else []),
                 (case band_entry bnd s of
                    Some sb \<Rightarrow> if htAllowed s \<and> ht_supported (sb_ht_cap sb) then ht_cap_ie (k_connChanWidth s) (sb_ht_cap sb) else []
                  | None \<Rightarrow> []),
                 (case band_entry bnd s of
                    Some sb \<Rightarrow> if htAllowed s \<and> bnd = NL80211_BAND_5GHZ \<and> vht_supported (sb_vht_cap sb) then vht_cap_ie (sb_vht_cap sb) else []
                  | None \<Rightarrow> []),
                 wme_info,
                 (if k_wpa2 s then assoc_rsn s else [])];
              Some (f, next_txSeq s) })"

text \<open>\<open>ie\<close> is the caller's element, \<open>n\<close> its announced length.\<close>

definition cmdSetAssocRsnIE :: "bytes option \<Rightarrow> u16 \<Rightarrow> RTW88IEEE80211 \<Rightarrow> (IOReturn \<times> RTW88IEEE80211) option" where
  "cmdSetAssocRsnIE ie n s =
     (case ie of None \<Rightarrow> Some (BadArgument, s)
      | Some ie \<Rightarrow>
        if n < 2 \<or> n > 257 then Some (BadArgument, s)
        else do { i0 \<leftarrow> rd ie 0;
          if i0 \<noteq> 48 then Some (BadArgument, s)
          else do { i1 \<leftarrow> rd ie 1;
            if ucast i1 + 2 \<noteq> n then Some (BadArgument, s)
            else if unat n > length ie then None
            else Some (IOSuccess, s\<lparr>k_assocRsnIE := take (unat n) ie @ replicate (257 - unat n) 0, k_assocRsnIELen := n\<rparr>) } })"

section \<open>Copies for callers\<close>

text \<open>The element buffer of a network has 512 bytes.\<close>

definition ies_used :: "RTW88BSS \<Rightarrow> nat" where
  "ies_used b = (if unat (b_ies_len b) > 512 then 512 else unat (b_ies_len b))"

text \<open>
  \<open>out\<close>: the caller's buffer, whose announced size is \<open>capacity\<close>; the result has the buffer and the length when they were
  written.
\<close>

definition copyTargetIEs :: "bytes option \<Rightarrow> nat \<Rightarrow> bool \<Rightarrow> RTW88IEEE80211 \<Rightarrow> (IOReturn \<times> bytes option \<times> nat option) option" where
  "copyTargetIEs out capacity len_ok s =
     (if \<not> len_ok then Some (BadArgument, out, None)
      else let need = ies_used (k_targetBSS s)
      in case out of
           None \<Rightarrow> Some (if need \<noteq> 0 then NoSpace else NotReady, out, Some need)
         | Some outb \<Rightarrow>
             if capacity < need then Some (if need \<noteq> 0 then NoSpace else NotReady, out, Some need)
             else if need = 0 then Some (NotReady, out, None)
             else do { outb \<leftarrow> memcpy_at outb 0 (take need (b_ies (k_targetBSS s))); Some (IOSuccess, Some outb, Some need) })"

function rsn_search :: "bytes \<Rightarrow> nat \<Rightarrow> nat \<Rightarrow> bytes \<Rightarrow> nat \<Rightarrow> (IOReturn \<times> bytes \<times> nat option) option" where
  "rsn_search ies tot pos outb capacity =
     (if pos + 2 \<le> tot then
        do { n1 \<leftarrow> rd ies (pos + 1);
             let n = unat n1 + 2 in
             if n > tot - pos then Some (NotFound, outb, None)
             else do { e \<leftarrow> rd ies pos;
               if e = 48 then
                 (if n > capacity then Some (NoSpace, outb, None)
                  else do { outb \<leftarrow> memcpy_at outb 0 (block ies pos n); Some (IOSuccess, outb, Some n) })
               else rsn_search ies tot (pos + n) outb capacity } }
      else Some (NotFound, outb, None))"
  by pat_completeness auto
termination by (relation "measure (\<lambda>(ies, tot, pos, outb, capacity). tot - pos)") auto

declare rsn_search.simps [simp del]

definition copyTargetRsnIE :: "bytes option \<Rightarrow> nat \<Rightarrow> bool \<Rightarrow> RTW88IEEE80211 \<Rightarrow> (IOReturn \<times> bytes \<times> nat option) option" where
  "copyTargetRsnIE out capacity len_ok s =
     (case out of None \<Rightarrow> Some (BadArgument, [], None)
      | Some outb \<Rightarrow>
        if \<not> len_ok then Some (BadArgument, outb, None)
        else let n = unat (k_assocRsnIELen s) in
        if n \<ge> 2 then
          (if capacity < n then Some (NoSpace, outb, None)
           else do { outb \<leftarrow> memcpy_at outb 0 (take n (k_assocRsnIE s)); Some (IOSuccess, outb, Some n) })
        else rsn_search (b_ies (k_targetBSS s)) (ies_used (k_targetBSS s)) 0 outb capacity)"

text \<open>\<open>strnlen\<close>\<close>

definition strnlen :: "bytes \<Rightarrow> nat \<Rightarrow> nat" where
  "strnlen t n = length (takeWhile (\<lambda>c. c \<noteq> 0) (take n t))"

definition copyCurrentBSS :: "bool \<Rightarrow> RTW88IEEE80211 \<Rightarrow> IOReturn \<times> RTW88BSS option" where
  "copyCurrentBSS out s =
     (if \<not> out then (BadArgument, None)
      else if k_state s \<noteq> RTW88_STATE_CONNECTED then (NotReady, None)
      else let b = (case find (\<lambda>b. b_bssid b = b_bssid (k_targetBSS s)) (bssList (k_scan s)) of
                      Some b \<Rightarrow> b | None \<Rightarrow> k_targetBSS s);
               b = b\<lparr>b_rssi := of_int (k_rssi s)\<rparr>;
               b = (if b_ssid_len b = 0 \<and> b_ssid b ! 0 \<noteq> 0 then b\<lparr>b_ssid_len := of_nat (strnlen (b_ssid b) 32)\<rparr> else b)
      in (if b_ssid_len b = 0 \<or> b_channel b = 0 then NotReady else IOSuccess, Some b))"

record RTW88Channel =
  c_number :: int
  c_passive :: bool
  c_radar :: bool

definition channel_entry :: "ieee80211_channel \<Rightarrow> RTW88Channel option" where
  "channel_entry c =
     (let f = uint (ch_center_freq c);
          number = (if f = 2484 then 14 else if f < 2500 then (f - 2407) sdiv 5 else (f - 5000) sdiv 5)
      in if number \<le> 0 \<or> number > 196 then None
         else Some \<lparr>c_number = number, c_passive = (ch_flags c AND IEEE80211_CHAN_NO_IR \<noteq> 0), c_radar = (ch_flags c AND IEEE80211_CHAN_RADAR \<noteq> 0)\<rparr>)"

text \<open>The loop over one table; \<open>False\<close>: no space was left.\<close>

fun put_channels :: "ieee80211_channel list \<Rightarrow> nat \<Rightarrow> RTW88Channel list \<Rightarrow> bool \<times> RTW88Channel list" where
  "put_channels [] capacity out = (True, out)"
| "put_channels (c # cs) capacity out =
     (if ch_flags c AND IEEE80211_CHAN_DISABLED \<noteq> 0 then put_channels cs capacity out
      else if length out = capacity then (False, out)
      else (case channel_entry c of
              None \<Rightarrow> put_channels cs capacity out
            | Some e \<Rightarrow> put_channels cs capacity (out @ [e])))"

fun put_bands :: "ieee80211_supported_band option list \<Rightarrow> nat \<Rightarrow> RTW88Channel list \<Rightarrow> bool \<times> RTW88Channel list" where
  "put_bands [] capacity out = (True, out)"
| "put_bands (None # bs) capacity out = put_bands bs capacity out"
| "put_bands (Some b # bs) capacity out =
     (case put_channels (sb_channels b) capacity out of
        (True, out) \<Rightarrow> put_bands bs capacity out
      | (False, out) \<Rightarrow> (False, out))"

definition copyChannels :: "bool \<Rightarrow> nat \<Rightarrow> RTW88IEEE80211 \<Rightarrow> IOReturn \<times> RTW88Channel list" where
  "copyChannels args_ok capacity s =
     (if \<not> args_ok then (BadArgument, [])
      else case k_hw s of
             None \<Rightarrow> (NotReady, [])
           | Some hw \<Rightarrow>
             (case h_bands hw of
                None \<Rightarrow> (NotReady, [])
              | Some bands \<Rightarrow> (case put_bands bands capacity [] of (ok, l) \<Rightarrow> (if ok then IOSuccess else NoSpace, l))))"

section \<open>The association request\<close>

text \<open>The capability tables of the driver have their lengths.\<close>

definition bands_ok :: "ieee80211_supported_band option list \<Rightarrow> bool" where
  "bands_ok bs \<longleftrightarrow> (\<forall>b. Some b \<in> set bs \<longrightarrow> length (mcs_rx_mask (ht_mcs (sb_ht_cap b))) = 10)"

definition hw_ok :: "RTW88IEEE80211 \<Rightarrow> bool" where
  "hw_ok s \<longleftrightarrow> (\<forall>hw bs. k_hw s = Some hw \<longrightarrow> h_bands hw = Some bs \<longrightarrow> bands_ok bs)"

text \<open>An external supplicant's element leaves room for the rest of the request.\<close>

definition rsn_fits :: "RTW88IEEE80211 \<Rightarrow> bool" where
  "rsn_fits s \<longleftrightarrow> k_externalSupplicant s \<longrightarrow> k_assocRsnIELen s \<le> 133"

text \<open>The elements of a frame body, read the way the standard lays them out.\<close>

fun ie_list :: "bytes \<Rightarrow> (u8 \<times> bytes) list option" where
  "ie_list [] = Some []"
| "ie_list [i] = None"
| "ie_list (i # n # r) =
     (if unat n \<le> length r then map_option (Cons (i, take (unat n) r)) (ie_list (drop (unat n) r)) else None)"

lemma ie_list_enc [simp]:
  assumes "length (snd el) \<le> 255"
  shows "ie_list (enc_el el @ r) = map_option (Cons el) (ie_list r)"
proof -
  have "unat (of_nat (length (snd el)) :: u8) = length (snd el)" using assms by (simp add: unat_of_nat_small)
  then show ?thesis by (cases el) (simp add: enc_el_def)
qed

lemma ie_list_concat: "\<forall>el\<in>set els. length (snd el) \<le> 255 \<Longrightarrow> ie_list (concat (map enc_el els)) = Some els"
  by (induction els) simp_all

text \<open>The elements a request should have, in order.\<close>

definition ht_body :: "u8 \<Rightarrow> ieee80211_sta_ht_cap \<Rightarrow> bytes" where
  "ht_body width ht = drop 2 (ht_cap_ie width ht)"

definition vht_body :: "ieee80211_sta_vht_cap \<Rightarrow> bytes" where
  "vht_body vht = drop 2 (vht_cap_ie vht)"

definition assoc_elements :: "RTW88IEEE80211 \<Rightarrow> (u8 \<times> bytes) list" where
  "assoc_elements s =
     (let b = k_targetBSS s; bnd = band_of (b_channel b); sb = (if htAllowed s then band_entry bnd s else None)
      in [(WLAN_EID_SSID, take (unat (b_ssid_len b)) (b_ssid b))]
         @ (if bnd = NL80211_BAND_5GHZ then [(WLAN_EID_SUPP_RATES, rates_5g)]
            else [(WLAN_EID_SUPP_RATES, rates_2g), (WLAN_EID_EXT_SUPP_RATES, ext_rates_2g)])
         @ (case sb of None \<Rightarrow> []
            | Some t \<Rightarrow> (if ht_supported (sb_ht_cap t) then [(WLAN_EID_HT_CAPABILITY, ht_body (k_connChanWidth s) (sb_ht_cap t))] else [])
                @ (if bnd = NL80211_BAND_5GHZ \<and> vht_supported (sb_vht_cap t) then [(WLAN_EID_VHT_CAPABILITY, vht_body (sb_vht_cap t))] else []))
         @ [(0xdd, drop 2 wme_info)]
         @ (if k_wpa2 s then [(48, drop 2 (assoc_rsn s))] else []))"

lemma length_mgmt_hdr: "stack_ok s \<Longrightarrow> length (mgmt_hdr t s) = 24"
  using stack_okD [of s] by (simp add: mgmt_hdr_def)

lemma band_entry_mask:
  assumes "hw_ok s" "band_entry bnd s = Some t"
  shows "length (mcs_rx_mask (ht_mcs (sb_ht_cap t))) = 10"
proof -
  obtain hw bs where hw: "k_hw s = Some hw" "h_bands hw = Some bs" "rd bs (band_number bnd) = Some (Some t)"
    using assms(2) by (auto simp: band_entry_def split: option.splits bind_splits)
  then have "Some t \<in> set bs" by (auto simp: rd_def split: if_splits) (metis nth_mem)
  then show ?thesis using assms(1) hw(1,2) unfolding hw_ok_def bands_ok_def by blast
qed

lemma ht_enc: "length (mcs_rx_mask (ht_mcs ht)) = 10 \<Longrightarrow> ht_cap_ie w ht = enc_el (WLAN_EID_HT_CAPABILITY, ht_body w ht)
    \<and> length (ht_body w ht) = 26"
  by (simp add: ht_cap_ie_def ht_body_def enc_el_def Let_def)

lemma vht_enc: "vht_cap_ie vht = enc_el (WLAN_EID_VHT_CAPABILITY, vht_body vht)" "length (vht_body vht) = 12"
  by (simp_all add: vht_cap_ie_def vht_body_def enc_el_def Let_def le32_bytes_def)

lemma wme_enc: "wme_info = enc_el (0xdd, drop 2 wme_info)"
  by (simp add: wme_info_def enc_el_def)

lemma assoc_rsn_enc:
  assumes "stack_ok s"
  shows "assoc_rsn s = enc_el (48, drop 2 (assoc_rsn s))" "length (drop 2 (assoc_rsn s)) \<le> 255"
    "rsn_fits s \<Longrightarrow> length (assoc_rsn s) \<le> 133"
proof -
  let ?e = "k_assocRsnIE s" and ?n = "k_assocRsnIELen s"
  define ext where "ext \<longleftrightarrow> k_externalSupplicant s \<and> ?n \<ge> 2 \<and> ?n \<le> 257 \<and> ?e ! 0 = 48 \<and> ucast (?e ! 1) + 2 = ?n"
  have l: "length ?e = 257" using stack_okD(10) [OF assms] .
  have code: "assoc_rsn s = (if ext then take (unat ?n) ?e else rtw88BuildSelectedRsnIe (b_group_cipher (k_targetBSS s)))"
    by (simp add: assoc_rsn_def ext_def Let_def)
  have sel: "rtw88BuildSelectedRsnIe g = enc_el (48, drop 2 (rtw88BuildSelectedRsnIe g))" for g
    by (simp add: rtw88BuildSelectedRsnIe_def Let_def enc_el_def rtw88WriteSuite_def)
  have ex: "unat ?n = unat (?e ! 1) + 2 \<and> take (unat ?n) ?e = 48 # ?e ! 1 # take (unat (?e ! 1)) (drop 2 ?e)" if ext
  proof -
    have c: "unat ?n \<le> 257" "?e ! 0 = 48" "?n = ucast (?e ! 1) + 2" using that by (simp_all add: ext_def word_le_nat_alt)
    have b: "unat (?e ! 1) < 256" using unsigned_less [of "?e ! 1", where 'a = nat] by simp
    then have "unat (ucast (?e ! 1) :: u16) = unat (?e ! 1)" by (simp add: unat_ucast_u8)
    then have n: "unat ?n = unat (?e ! 1) + 2" using b unfolding c(3) by (subst unat_add_lem [THEN iffD1]) simp_all
    have "?e = 48 # ?e ! 1 # drop 2 ?e"
      using l c(2) by (cases ?e; cases "tl ?e") auto
    then have "take (unat ?n) ?e = take (Suc (Suc (unat (?e ! 1)))) (48 # ?e ! 1 # drop 2 ?e)" using n by simp
    then show ?thesis using n by simp
  qed
  have l2: "length (take (unat (?e ! 1)) (drop 2 ?e)) = unat (?e ! 1)"
    using l unsigned_less [of "?e ! 1", where 'a = nat] by simp
  have tk: "take (unat ?n) ?e = enc_el (48, drop 2 (take (unat ?n) ?e))" if ext
  proof -
    define v where "v = take (unat (?e ! 1)) (drop 2 ?e)"
    have "take (unat ?n) ?e = 48 # ?e ! 1 # v" "length v = unat (?e ! 1)"
      using ex [OF that, THEN conjunct2] l2 by (simp_all only: v_def)
    then show ?thesis by (simp add: enc_el_def del: take_Suc_Cons)
  qed
  have len: "unat ?n \<le> 257" "unat ?n \<ge> 2" "length (take (unat ?n) ?e) = unat ?n" if ext
    using that l by (simp_all add: ext_def word_le_nat_alt)
  have fits: "rsn_fits s \<Longrightarrow> ext \<Longrightarrow> unat ?n \<le> 133" by (simp add: rsn_fits_def ext_def word_le_nat_alt)
  consider "ext" "assoc_rsn s = take (unat ?n) ?e" | "assoc_rsn s = rtw88BuildSelectedRsnIe (b_group_cipher (k_targetBSS s))"
    using code by (cases ext) simp_all
  note forms = this
  show "assoc_rsn s = enc_el (48, drop 2 (assoc_rsn s))"
    by (cases rule: forms) (metis tk, metis sel)
  show "length (drop 2 (assoc_rsn s)) \<le> 255"
    by (cases rule: forms) (use len(1,3) in simp_all)
  show "rsn_fits s \<Longrightarrow> length (assoc_rsn s) \<le> 133"
    by (cases rule: forms) (use len(3) fits in simp_all)
qed

text \<open>The parts of the request after the fixed fields are the elements.\<close>

definition assoc_front :: "RTW88IEEE80211 \<Rightarrow> bytes" where
  "assoc_front s = mgmt_hdr IEEE80211_STYPE_ASSOC_REQ s @ [lo8 (assoc_caps s), hi8 (assoc_caps s), 10, 0]"

lemma enc_len [simp]: "length (enc_el el) = 2 + length (snd el)"
  by (simp add: enc_el_def)

lemma ssid_enc:
  assumes "stack_ok s"
  defines "b \<equiv> k_targetBSS s"
  shows "[WLAN_EID_SSID, b_ssid_len b] @ take (unat (b_ssid_len b)) (b_ssid b) = enc_el (WLAN_EID_SSID, take (unat (b_ssid_len b)) (b_ssid b))"
    "length (take (unat (b_ssid_len b)) (b_ssid b)) \<le> 32"
  using stack_okD(2) [OF assms(1)] by (auto simp: b_def enc_el_def bss_ok_def min_def)

lemma buildAssocReq_code:
  assumes "stack_ok s" "hw_ok s"
  shows "buildAssocReq s =
    (let f = assoc_front s @ concat (map enc_el (assoc_elements s)) in if length f \<le> 256 then Some (f, next_txSeq s) else None)"
    "\<forall>el\<in>set (assoc_elements s). length (snd el) \<le> 255" "rsn_fits s \<Longrightarrow> length (concat (map enc_el (assoc_elements s))) \<le> 228"
proof -
  define b where "b = k_targetBSS s"
  define bnd where "bnd = band_of (b_channel b)"
  define sb where "sb = (if htAllowed s then band_entry bnd s else None)"
  have sb: "sb = Some t \<Longrightarrow> length (mcs_rx_mask (ht_mcs (sb_ht_cap t))) = 10" for t
    using band_entry_mask [OF assms(2)] by (auto simp: sb_def split: if_splits)
  note ss = ssid_enc [OF assms(1), folded b_def]
  have els: "assoc_elements s = [(WLAN_EID_SSID, take (unat (b_ssid_len b)) (b_ssid b))]
      @ (if bnd = NL80211_BAND_5GHZ then [(WLAN_EID_SUPP_RATES, rates_5g)]
         else [(WLAN_EID_SUPP_RATES, rates_2g), (WLAN_EID_EXT_SUPP_RATES, ext_rates_2g)])
      @ (case sb of None \<Rightarrow> []
         | Some t \<Rightarrow> (if ht_supported (sb_ht_cap t) then [(WLAN_EID_HT_CAPABILITY, ht_body (k_connChanWidth s) (sb_ht_cap t))] else [])
             @ (if bnd = NL80211_BAND_5GHZ \<and> vht_supported (sb_vht_cap t) then [(WLAN_EID_VHT_CAPABILITY, vht_body (sb_vht_cap t))] else []))
      @ [(0xdd, drop 2 wme_info)] @ (if k_wpa2 s then [(48, drop 2 (assoc_rsn s))] else [])"
    by (simp only: assoc_elements_def b_def bnd_def sb_def Let_def)
  have c5: "b_channel b > 14 \<longleftrightarrow> bnd = NL80211_BAND_5GHZ" "b_channel b \<le> 14 \<longleftrightarrow> bnd \<noteq> NL80211_BAND_5GHZ"
    by (auto simp: bnd_def band_of_def)
  have rates: "[WLAN_EID_SUPP_RATES, of_nat (length r)] @ r = enc_el (WLAN_EID_SUPP_RATES, r)"
    "[WLAN_EID_EXT_SUPP_RATES, of_nat (length r)] @ r = enc_el (WLAN_EID_EXT_SUPP_RATES, r)" for r
    by (simp_all add: enc_el_def)
  note ie = ht_enc [OF sb, THEN conjunct1] vht_enc(1)
  have ht: "(case band_entry bnd s of Some sb \<Rightarrow> if htAllowed s \<and> ht_supported (sb_ht_cap sb) then ht_cap_ie (k_connChanWidth s) (sb_ht_cap sb) else []
        | None \<Rightarrow> []) @ (case band_entry bnd s of Some sb \<Rightarrow> if htAllowed s \<and> bnd = NL80211_BAND_5GHZ \<and> vht_supported (sb_vht_cap sb)
          then vht_cap_ie (sb_vht_cap sb) else [] | None \<Rightarrow> [])
      = concat (map enc_el (case sb of None \<Rightarrow> []
         | Some t \<Rightarrow> (if ht_supported (sb_ht_cap t) then [(WLAN_EID_HT_CAPABILITY, ht_body (k_connChanWidth s) (sb_ht_cap t))] else [])
             @ (if bnd = NL80211_BAND_5GHZ \<and> vht_supported (sb_vht_cap t) then [(WLAN_EID_VHT_CAPABILITY, vht_body (sb_vht_cap t))] else [])))"
    using ie by (cases "htAllowed s"; cases "band_entry bnd s") (auto simp: sb_def)
  have parts: "concat [mgmt_hdr IEEE80211_STYPE_ASSOC_REQ s, [lo8 (assoc_caps s), hi8 (assoc_caps s), 10, 0],
      [WLAN_EID_SSID, b_ssid_len b] @ take (unat (b_ssid_len b)) (b_ssid b),
      [WLAN_EID_SUPP_RATES, of_nat (length (if b_channel b > 14 then rates_5g else rates_2g))] @ (if b_channel b > 14 then rates_5g else rates_2g),
      (if b_channel b \<le> 14 then [WLAN_EID_EXT_SUPP_RATES, of_nat (length ext_rates_2g)] @ ext_rates_2g else []),
      (case band_entry bnd s of Some sb \<Rightarrow> if htAllowed s \<and> ht_supported (sb_ht_cap sb) then ht_cap_ie (k_connChanWidth s) (sb_ht_cap sb) else []
        | None \<Rightarrow> []),
      (case band_entry bnd s of Some sb \<Rightarrow> if htAllowed s \<and> bnd = NL80211_BAND_5GHZ \<and> vht_supported (sb_vht_cap sb)
          then vht_cap_ie (sb_vht_cap sb) else [] | None \<Rightarrow> []),
      wme_info, (if k_wpa2 s then assoc_rsn s else [])] = assoc_front s @ concat (map enc_el (assoc_elements s))"
    unfolding els c5 ss(1) rates assoc_front_def map_append concat_append ht [symmetric]
    using wme_enc assoc_rsn_enc(1) [OF assms(1)] by simp
  show "buildAssocReq s = (let f = assoc_front s @ concat (map enc_el (assoc_elements s)) in if length f \<le> 256 then Some (f, next_txSeq s) else None)"
    unfolding buildAssocReq_def Let_def b_def [symmetric] bnd_def [symmetric] skb_frame_def parts by simp
  show "\<forall>el\<in>set (assoc_elements s). length (snd el) \<le> 255"
    unfolding els using ss(2) ht_enc [OF sb] vht_enc(2) assoc_rsn_enc(2) [OF assms(1)]
    by (auto simp: rates_2g_def rates_5g_def ext_rates_2g_def wme_info_def split: option.splits)
  show "length (concat (map enc_el (assoc_elements s))) \<le> 228" if "rsn_fits s"
  proof -
    have "length (assoc_rsn s) \<le> 133" "length (assoc_rsn s) \<ge> 2"
      using assoc_rsn_enc(3) [OF assms(1) that] assoc_rsn_enc(1) [OF assms(1)] enc_len by (auto, metis le_add1)
    then show ?thesis unfolding els using ss(2) ht_enc [OF sb] vht_enc(2)
      by (auto simp: rates_2g_def rates_5g_def ext_rates_2g_def wme_info_def split: option.splits)
  qed
qed

lemma length_assoc_front: "stack_ok s \<Longrightarrow> length (assoc_front s) = 28"
  by (simp add: assoc_front_def length_mgmt_hdr)

text \<open>
  What an access point reads from the capability elements, laid out as the standard has them. HT capabilities: 16 bits
  of information, the A-MPDU parameters (maximal length exponent in bits 0 and 1, minimal spacing in bits 2 to 4), the MCS
  set (a mask of 10 bytes, the highest rate, the transmit parameters) and the rest. VHT capabilities: 32 bits of
  information, then the map and the highest rate of each direction. The numbers are little endian.
\<close>

record ht_element =
  he_info :: u16
  he_exponent :: u8
  he_spacing :: u8
  he_rx_mask :: bytes
  he_rx_highest :: u16
  he_tx_params :: u8
  he_rest :: bytes

definition read_ht :: "bytes \<Rightarrow> ht_element option" where
  "read_ht b =
     (if length b = 26
      then Some \<lparr>he_info = le16_of (b ! 0) (b ! 1), he_exponent = b ! 2 AND 3, he_spacing = drop_bit 2 (b ! 2),
             he_rx_mask = block b 3 10, he_rx_highest = le16_of (b ! 13) (b ! 14), he_tx_params = b ! 15, he_rest = drop 16 b\<rparr>
      else None)"

record vht_element =
  ve_info :: u32
  ve_rx_map :: u16
  ve_rx_highest :: u16
  ve_tx_map :: u16
  ve_tx_highest :: u16

definition read_vht :: "bytes \<Rightarrow> vht_element option" where
  "read_vht b =
     (if length b = 12
      then Some \<lparr>ve_info = be32_of (b ! 3) (b ! 2) (b ! 1) (b ! 0), ve_rx_map = le16_of (b ! 4) (b ! 5),
             ve_rx_highest = le16_of (b ! 6) (b ! 7), ve_tx_map = le16_of (b ! 8) (b ! 9), ve_tx_highest = le16_of (b ! 10) (b ! 11)\<rparr>
      else None)"

text \<open>An external supplicant has supplied a consistent RSN element.\<close>

definition supplied_rsn :: "RTW88IEEE80211 \<Rightarrow> bool" where
  "supplied_rsn s \<longleftrightarrow> k_externalSupplicant s \<and> unat (k_assocRsnIELen s) = unat (k_assocRsnIE s ! 1) + 2 \<and> k_assocRsnIE s ! 0 = 48"

text \<open>The bits of the HT information that announce 40 MHz are 1, 6 and 12; the others are \<open>0xEFBD\<close>.\<close>

lemma narrow_ht_bits: "narrow_ht w cap = (if w < 40 then cap AND 0xEFBD else cap)"
proof -
  have "NOT (IEEE80211_HT_CAP_SUP_WIDTH_20_40 OR IEEE80211_HT_CAP_SGI_40 OR IEEE80211_HT_CAP_DSSSCCK40) = 0xEFBD"
    by (simp add: IEEE80211_HT_CAP_SUP_WIDTH_20_40_def IEEE80211_HT_CAP_SGI_40_def IEEE80211_HT_CAP_DSSSCCK40_def word_unat_eq_iff)
  then show ?thesis by (simp only: narrow_ht_def)
qed

lemma ampdu_bits:
  fixes a d :: u8
  defines "p \<equiv> (a AND 3) OR push_bit 2 (d AND 7)"
  shows "p AND 3 = a AND 3" "drop_bit 2 p = d AND 7"
proof -
  have m: "(3 :: u8) = mask 2" "(7 :: u8) = mask 3" by (simp_all add: mask_eq_exp_minus_1)
  show "p AND 3 = a AND 3" unfolding p_def m by (rule bit_word_eqI) (auto simp: bit_simps)
  show "drop_bit 2 p = d AND 7" unfolding p_def m by (rule bit_word_eqI) (auto simp: bit_simps)
qed

lemma read_ht_body:
  assumes "length (mcs_rx_mask (ht_mcs ht)) = 10"
  shows "read_ht (ht_body w ht) = Some \<lparr>he_info = (if w < 40 then ht_cap_bits ht AND 0xEFBD else ht_cap_bits ht),
    he_exponent = ampdu_factor ht AND 3, he_spacing = ampdu_density ht AND 7, he_rx_mask = mcs_rx_mask (ht_mcs ht),
    he_rx_highest = mcs_rx_highest (ht_mcs ht), he_tx_params = ucast (mcs_tx_params (ht_mcs ht)), he_rest = replicate 10 0\<rparr>"
proof -
  let ?m = "ht_mcs ht" and ?c = "narrow_ht w (ht_cap_bits ht)"
  define p where "p = (ampdu_factor ht AND 3) OR push_bit 2 (ampdu_density ht AND 7)"
  have b: "ht_body w ht = [lo8 ?c, hi8 ?c, p] @ mcs_rx_mask ?m @ [lo8 (mcs_rx_highest ?m), hi8 (mcs_rx_highest ?m), ucast (mcs_tx_params ?m)] @ replicate 10 0"
    by (simp only: ht_body_def ht_cap_ie_def Let_def p_def append.simps drop_Suc_Cons drop_0 numeral_2_eq_2)
  show ?thesis
    using ampdu_bits [of "ampdu_factor ht" "ampdu_density ht", folded p_def] assms
    unfolding read_ht_def b narrow_ht_bits [symmetric] by (simp add: block_def nth_append)
qed

lemma read_vht_body:
  "read_vht (vht_body vht) = Some \<lparr>ve_info = vht_cap_bits vht, ve_rx_map = ucast (vm_rx_mcs_map (vht_mcs vht)),
    ve_rx_highest = vm_rx_highest (vht_mcs vht), ve_tx_map = ucast (vm_tx_mcs_map (vht_mcs vht)), ve_tx_highest = vm_tx_highest (vht_mcs vht)\<rparr>"
  by (simp add: read_vht_def vht_body_def vht_cap_ie_def Let_def le32_bytes_def)

lemma assoc_rsn_body:
  assumes "stack_ok s"
  shows "drop 2 (assoc_rsn s) =
    (if supplied_rsn s then block (k_assocRsnIE s) 2 (unat (k_assocRsnIE s ! 1))
     else [1, 0, 0x00, 0x0f, 0xac, if b_group_cipher (k_targetBSS s) = 0x000FAC02 then 2 else 4,
           1, 0, 0x00, 0x0f, 0xac, 4, 1, 0, 0x00, 0x0f, 0xac, 2, 0, 0])"
proof -
  let ?e = "k_assocRsnIE s" and ?n = "k_assocRsnIELen s"
  have b: "unat (?e ! 1) < 256" using unsigned_less [of "?e ! 1", where 'a = nat] by simp
  have n: "unat (ucast (?e ! 1) + 2 :: u16) = unat (?e ! 1) + 2"
    using b by (simp add: unat_word_ariths unat_ucast_u8)
  have "ucast (?e ! 1) + 2 = ?n \<longleftrightarrow> unat ?n = unat (?e ! 1) + 2" unfolding word_unat_eq_iff n by auto
  then have c: "(k_externalSupplicant s \<and> ?n \<ge> 2 \<and> ?n \<le> 257 \<and> ?e ! 0 = 48 \<and> ucast (?e ! 1) + 2 = ?n) \<longleftrightarrow> supplied_rsn s"
    using b by (auto simp: supplied_rsn_def word_le_nat_alt)
  have "drop 2 (take (unat ?n) ?e) = block ?e 2 (unat (?e ! 1))" if "supplied_rsn s"
    using that by (simp add: supplied_rsn_def block_def drop_take)
  moreover have "drop 2 (rtw88BuildSelectedRsnIe g) = [1, 0, 0x00, 0x0f, 0xac, if g = 0x000FAC02 then 2 else 4,
      1, 0, 0x00, 0x0f, 0xac, 4, 1, 0, 0x00, 0x0f, 0xac, 2, 0, 0]" for g
    by (simp add: rtw88BuildSelectedRsnIe_def Let_def rtw88WriteSuite_def SUITE_PSK_def WLAN_CIPHER_SUITE_TKIP_def WLAN_CIPHER_SUITE_CCMP_def)
  ultimately show ?thesis unfolding assoc_rsn_def Let_def c by auto
qed

lemma assoc_front_fields:
  assumes "stack_ok s"
  shows "take 4 (assoc_front s @ r) = [0, 0, 0, 0]" "block (assoc_front s @ r) 4 6 = b_bssid (k_targetBSS s)"
    "block (assoc_front s @ r) 10 6 = k_macAddr s" "block (assoc_front s @ r) 16 6 = b_bssid (k_targetBSS s)"
    "le16_of ((assoc_front s @ r) ! 22) ((assoc_front s @ r) ! 23) = push_bit 4 (k_txSeq s)"
    "block (assoc_front s @ r) 24 4 = [0x31, 0x04, 10, 0]"
proof -
  note l = stack_okD(1,3) [OF assms]
  note d = assoc_front_def mgmt_hdr_def hdr3_def hdr_3addr_bytes_def block_def nth_append
  show "le16_of ((assoc_front s @ r) ! 22) ((assoc_front s @ r) ! 23) = push_bit 4 (k_txSeq s)" using l by (simp add: d)
  show "take 4 (assoc_front s @ r) = [0, 0, 0, 0]" "block (assoc_front s @ r) 24 4 = [0x31, 0x04, 10, 0]"
    using l by (simp_all add: d assoc_caps_def lo8_def hi8_def IEEE80211_FTYPE_MGMT_def IEEE80211_STYPE_ASSOC_REQ_def)
  show "block (assoc_front s @ r) 4 6 = b_bssid (k_targetBSS s)" "block (assoc_front s @ r) 10 6 = k_macAddr s"
    "block (assoc_front s @ r) 16 6 = b_bssid (k_targetBSS s)"
    using l by (simp_all add: d)
qed

text \<open>
  C23: The association request fits its buffer and an access point reads from it what the station means to say. When
  the capability tables have their lengths and an external supplicant's RSN element has at most 133 bytes,
  \<open>buildAssocReq\<close> never writes past the 256 bytes of the caller's buffer. The frame is an association request from the
  station to the target, with the next sequence number, the capability bits 0x0431 (ESS, privacy, short preamble, short
  slot; the code announces privacy to open networks too, against its comment) and the listen interval 10. What follows
  reads back as exactly these elements, in this order: the target's SSID; the eight rates of its band, and on 2.4 GHz
  four more; where neither cipher is TKIP, the band's HT capabilities, without the three 40 MHz bits when the
  connection is narrower than 40 MHz and with them otherwise, and on 5 GHz the band's VHT capabilities, each field as the
  hardware's table has it; the WME element; and for WPA2 the RSN element, which is an external supplicant's own if it has
  supplied a consistent one, and otherwise version 1, the group cipher (TKIP or CCMP), one pairwise cipher CCMP,
  one key management suite PSK and no RSN capabilities.
\<close>

theorem assoc_request_parses:
  assumes "stack_ok s" "hw_ok s" "rsn_fits s"
  shows "let b = k_targetBSS s; is5 = b_channel b > 14; rsn = k_assocRsnIE s;
      sb = (if b_cipher b \<noteq> 0x000FAC02 \<and> b_group_cipher b \<noteq> 0x000FAC02 then band_entry (band_of (b_channel b)) s else None)
    in \<exists>f ht vht. buildAssocReq s = Some (f, next_txSeq s) \<and> length f \<le> 256
      \<and> take 4 f = [0, 0, 0, 0] \<and> block f 4 6 = b_bssid b \<and> block f 10 6 = k_macAddr s \<and> block f 16 6 = b_bssid b
      \<and> le16_of (f ! 22) (f ! 23) = push_bit 4 (k_txSeq s) \<and> block f 24 4 = [0x31, 0x04, 10, 0]
      \<and> ie_list (drop 28 f) = Some
          ([(0, take (unat (b_ssid_len b)) (b_ssid b))]
           @ (if is5 then [(1, [0x8c, 0x12, 0x98, 0x24, 0x30, 0x48, 0x60, 0x6c])]
              else [(1, [0x82, 0x84, 0x8b, 0x96, 0x0c, 0x12, 0x18, 0x24]), (50, [0x30, 0x48, 0x60, 0x6c])])
           @ (if \<exists>t. sb = Some t \<and> ht_supported (sb_ht_cap t) then [(45, ht)] else [])
           @ (if \<exists>t. sb = Some t \<and> is5 \<and> vht_supported (sb_vht_cap t) then [(191, vht)] else [])
           @ [(0xdd, [0x00, 0x50, 0xf2, 2, 0, 1, 0])]
           @ (if k_wpa2 s
              then [(48, if supplied_rsn s then block rsn 2 (unat (rsn ! 1))
                     else [1, 0, 0x00, 0x0f, 0xac, if b_group_cipher b = 0x000FAC02 then 2 else 4,
                           1, 0, 0x00, 0x0f, 0xac, 4, 1, 0, 0x00, 0x0f, 0xac, 2, 0, 0])]
              else []))
      \<and> (\<forall>t. sb = Some t \<longrightarrow>
           (let h = sb_ht_cap t; v = sb_vht_cap t
            in read_ht ht = Some \<lparr>he_info = (if k_connChanWidth s < 40 then ht_cap_bits h AND 0xEFBD else ht_cap_bits h),
                 he_exponent = ampdu_factor h AND 3, he_spacing = ampdu_density h AND 7, he_rx_mask = mcs_rx_mask (ht_mcs h),
                 he_rx_highest = mcs_rx_highest (ht_mcs h), he_tx_params = ucast (mcs_tx_params (ht_mcs h)), he_rest = replicate 10 0\<rparr>
             \<and> read_vht vht = Some \<lparr>ve_info = vht_cap_bits v, ve_rx_map = ucast (vm_rx_mcs_map (vht_mcs v)),
                 ve_rx_highest = vm_rx_highest (vht_mcs v), ve_tx_map = ucast (vm_tx_mcs_map (vht_mcs v)),
                 ve_tx_highest = vm_tx_highest (vht_mcs v)\<rparr>))"
proof -
  let ?b = "k_targetBSS s" and ?f = "assoc_front s @ concat (map enc_el (assoc_elements s))"
  define sb where "sb = (if htAllowed s then band_entry (band_of (b_channel ?b)) s else None)"
  define ht where "ht = (case sb of Some t \<Rightarrow> ht_body (k_connChanWidth s) (sb_ht_cap t) | None \<Rightarrow> [])"
  define vht where "vht = (case sb of Some t \<Rightarrow> vht_body (sb_vht_cap t) | None \<Rightarrow> [])"
  note code = buildAssocReq_code [OF assms(1,2)] and l = length_assoc_front [OF assms(1)]
  have allowed: "(b_cipher ?b \<noteq> 0x000FAC02 \<and> b_group_cipher ?b \<noteq> 0x000FAC02) = htAllowed s"
    by (simp add: htAllowed_def WLAN_CIPHER_SUITE_TKIP_def)
  have len: "length ?f \<le> 256" using code(3) [OF assms(3)] l by simp
  then have built: "buildAssocReq s = Some (?f, next_txSeq s)" using code(1) by (simp only: Let_def if_True)
  have body: "ie_list (drop 28 ?f) = Some (assoc_elements s)"
    using ie_list_concat [OF code(2)] l by (simp del: ie_list.simps)
  have tab: "read_ht ht = read_ht (ht_body (k_connChanWidth s) (sb_ht_cap t)) \<and> read_vht vht = read_vht (vht_body (sb_vht_cap t))
      \<and> length (mcs_rx_mask (ht_mcs (sb_ht_cap t))) = 10" if "sb = Some t" for t
    using that band_entry_mask [OF assms(2)] by (auto simp: ht_def vht_def sb_def split: if_splits)
  have els: "assoc_elements s = [(0, take (unat (b_ssid_len ?b)) (b_ssid ?b))]
      @ (if b_channel ?b > 14 then [(1, rates_5g)] else [(1, rates_2g), (50, ext_rates_2g)])
      @ (if \<exists>t. sb = Some t \<and> ht_supported (sb_ht_cap t) then [(45, ht)] else [])
      @ (if \<exists>t. sb = Some t \<and> b_channel ?b > 14 \<and> vht_supported (sb_vht_cap t) then [(191, vht)] else [])
      @ [(0xdd, drop 2 wme_info)] @ (if k_wpa2 s then [(48, drop 2 (assoc_rsn s))] else [])"
    unfolding assoc_elements_def Let_def sb_def [symmetric]
    by (cases sb) (auto simp: ht_def vht_def band_of_def WLAN_EID_SSID_def
        WLAN_EID_SUPP_RATES_def WLAN_EID_EXT_SUPP_RATES_def WLAN_EID_HT_CAPABILITY_def WLAN_EID_VHT_CAPABILITY_def)
  have wme: "drop 2 wme_info = [0x00, 0x50, 0xf2, 2, 0, 1, 0]" by (simp add: wme_info_def)
  note els = els [unfolded rates_5g_def rates_2g_def ext_rates_2g_def wme assoc_rsn_body [OF assms(1)]]
  show ?thesis
    unfolding Let_def allowed sb_def [symmetric]
    by (rule exI [of _ ?f], rule exI [of _ ht], rule exI [of _ vht], intro conjI allI impI)
      (rule built len assoc_front_fields [OF assms(1)] trans [OF body arg_cong [OF els, of Some]]
          trans [OF tab [THEN conjunct1] read_ht_body [OF tab [THEN conjunct2, THEN conjunct2]]]
          trans [OF tab [THEN conjunct2, THEN conjunct1] read_vht_body] | assumption)+
qed

lemma stack0_hw_ok: "hw_ok stack0"
  by (simp add: hw_ok_def stack0_def bands_ok_def demo_hw_def)

lemma stack0_rsn_fits: "rsn_fits stack0"
  by (simp add: rsn_fits_def stack0_def)

text \<open>A WPA2 network on channel 36, and hardware with HT and VHT on 5 GHz, connected at 20 MHz.\<close>

definition demo_wide :: ieee80211_supported_band where
  "demo_wide = \<lparr>sb_channels = [], sb_bitrates = [],
     sb_ht_cap = zero_ht_cap\<lparr>ht_cap_bits := 0x1862, ht_supported := True, ampdu_factor := 3, ampdu_density := 5\<rparr>,
     sb_vht_cap = zero_vht_cap\<lparr>vht_supported := True, vht_cap_bits := 0x03D071B2\<rparr>, sb_band = NL80211_BAND_5GHZ\<rparr>"

definition demo_asking :: RTW88IEEE80211 where
  "demo_asking = stack0\<lparr>k_hw := Some (demo_hw\<lparr>h_bands := Some [None, Some demo_wide, None]\<rparr>), k_wpa2 := True,
     k_targetBSS := zero_bss\<lparr>b_channel := 36, b_ssid_len := 2, b_cipher := 0x000FAC04, b_group_cipher := 0x000FAC04\<rparr>\<rparr>"

lemma demo_asking_ok: "stack_ok demo_asking" "hw_ok demo_asking" "rsn_fits demo_asking"
  using stack0_ok stack0_rsn_fits
  by (simp_all add: demo_asking_def stack_ok_def hw_ok_def bands_ok_def demo_wide_def zero_ht_cap_def rsn_fits_def bss_ok_def zero_bss_def)

lemma demo_asking_band: "band_entry (band_of 36) demo_asking = Some demo_wide"
  by (simp add: band_entry_def band_of_def demo_asking_def rd_def)

theorem assoc_request_parses_witness:
  "\<exists>f ht vht. buildAssocReq demo_asking = Some (f, next_txSeq demo_asking) \<and> length f \<le> 256 \<and> block f 24 4 = [0x31, 0x04, 10, 0]
    \<and> ie_list (drop 28 f) = Some [(0, [0, 0]), (1, [0x8c, 0x12, 0x98, 0x24, 0x30, 0x48, 0x60, 0x6c]), (45, ht), (191, vht),
         (0xdd, [0x00, 0x50, 0xf2, 2, 0, 1, 0]),
         (48, [1, 0, 0x00, 0x0f, 0xac, 4, 1, 0, 0x00, 0x0f, 0xac, 4, 1, 0, 0x00, 0x0f, 0xac, 2, 0, 0])]
    \<and> map_option he_info (read_ht ht) = Some 0x0820 \<and> map_option he_spacing (read_ht ht) = Some 5
    \<and> map_option ve_info (read_vht vht) = Some 0x03D071B2"
proof -
  have v: "b_cipher (k_targetBSS demo_asking) = 0x000FAC04" "b_group_cipher (k_targetBSS demo_asking) = 0x000FAC04"
    "b_channel (k_targetBSS demo_asking) = 36" "take (unat (b_ssid_len (k_targetBSS demo_asking))) (b_ssid (k_targetBSS demo_asking)) = [0, 0]"
    "k_wpa2 demo_asking" "\<not> supplied_rsn demo_asking" "k_connChanWidth demo_asking = 20"
    by (simp_all add: demo_asking_def zero_bss_def supplied_rsn_def stack0_def)
      (simp add: numeral_2_eq_2)
  have t: "ht_supported (sb_ht_cap demo_wide)" "vht_supported (sb_vht_cap demo_wide)" "ht_cap_bits (sb_ht_cap demo_wide) = 0x1862"
    "ampdu_density (sb_ht_cap demo_wide) = 5" "vht_cap_bits (sb_vht_cap demo_wide) = 0x03D071B2"
    by (simp_all add: demo_wide_def)
  show ?thesis
    using assoc_request_parses [OF demo_asking_ok, unfolded Let_def] unfolding v demo_asking_band
    apply (elim exE)
    subgoal for f ht vht by (rule exI [of _ f], rule exI [of _ ht], rule exI [of _ vht]) (simp add: v t)
    done
qed

text \<open>
  \<open>cmdSetAssocRsnIE\<close> accepts up to 257 bytes, but the request is built in 256 bytes together with everything else: with
  an element of more than 228 bytes every request of an external supplicant's WPA2 connection overruns the buffer on the stack.
\<close>

theorem long_rsn_overruns_request:
  assumes "stack_ok s" "hw_ok s" "228 \<le> n" "n \<le> 255"
  defines "ie \<equiv> 48 # of_nat n # replicate n 0"
  shows "\<exists>s'. cmdSetAssocRsnIE (Some ie) (of_nat (n + 2)) s = Some (IOSuccess, s')
    \<and> buildAssocReq (s'\<lparr>k_wpa2 := True, k_externalSupplicant := True\<rparr>) = None"
proof -
  let ?n = "of_nat (n + 2) :: u16"
  have n: "unat ?n = n + 2" using assms(4) by (intro unat_of_nat_small) simp
  have u: "ucast (of_nat n :: u8) + 2 = ?n"
    using assms(4) unfolding word_unat_eq_iff n by (simp add: unat_word_ariths unat_ucast_u8 unat_of_nat_small)
  have b: "\<not> ?n < 2" "\<not> ?n > 257" "2 \<le> ?n" "?n \<le> 257" using assms(4) n by (simp_all only: word_less_nat_alt word_le_nat_alt) simp_all
  let ?e = "ie @ replicate (257 - unat ?n) 0"
  let ?s = "s\<lparr>k_assocRsnIE := ?e, k_assocRsnIELen := ?n\<rparr>"
  have li: "length ie = n + 2" by (simp add: ie_def)
  have set: "cmdSetAssocRsnIE (Some ie) ?n s = Some (IOSuccess, ?s)"
    using b(1,2) u n li by (simp add: cmdSetAssocRsnIE_def ie_def)
  let ?t = "?s\<lparr>k_wpa2 := True, k_externalSupplicant := True\<rparr>"
  have ok: "stack_ok ?t" "hw_ok ?t" using assms(1,2,4) n li by (simp_all add: stack_ok_def hw_ok_def)
  have "assoc_rsn ?t = ie" using b(3,4) u n li by (simp add: assoc_rsn_def Let_def ie_def)
  then have "(48, drop 2 ie) \<in> set (assoc_elements ?t)" by (simp add: assoc_elements_def Let_def)
  then have "length (enc_el (48, drop 2 ie)) \<le> length (concat (map enc_el (assoc_elements ?t)))"
    by (fastforce dest: split_list)
  then have "228 < length (concat (map enc_el (assoc_elements ?t)))" using assms(3) li by simp
  then have "buildAssocReq ?t = None"
    using buildAssocReq_code(1) [OF ok] length_assoc_front [OF ok(1)] by (simp add: Let_def)
  then show ?thesis using set by blast
qed

text \<open>The capability field announces privacy to every access point, the open ones included.\<close>

theorem assoc_always_announces_privacy:
  "assoc_caps s AND 0x0010 = 0x0010"
  by (simp add: assoc_caps_def)

section \<open>The operating width\<close>

lemma op_walk_total: "ielen \<le> length ies \<Longrightarrow> \<exists>oi'. op_walk ies ielen i oi = Some oi'"
proof (induction ies ielen i oi rule: op_walk.induct)
  case (1 ies ielen i oi)
  show ?case
  proof (cases "i + 2 \<le> ielen \<and> i + 2 + unat (ies ! (i + 1)) \<le> ielen")
    case True
    let ?n = "ies ! (i + 1)"
    have r: "rd ies i = Some (ies ! i)" "rd ies (i + 1) = Some ?n" using True "1.prems" by (auto simp: rd_def)
    have d: "?n \<ge> 2 \<Longrightarrow> rd ies (i + 2) = Some (ies ! (i + 2))" "?n \<ge> 2 \<Longrightarrow> rd ies (i + 3) = Some (ies ! (i + 3))"
      using True "1.prems" by (auto simp: rd_def word_le_nat_alt)
    have d3: "?n \<ge> 3 \<Longrightarrow> ?n \<ge> 2" by (simp add: word_le_nat_alt)
    obtain oi1 where o: "(if ies ! i = WLAN_EID_HT_OPERATION \<and> ?n \<ge> 2
          then do { d1 \<leftarrow> rd ies (i + 3); Some (oi\<lparr>oi_sco := d1 AND 0x03, oi_htStaWidth := d1 AND 0x04 \<noteq> 0\<rparr>) }
          else if ies ! i = WLAN_EID_VHT_OPERATION \<and> ?n \<ge> 3
          then do { d0 \<leftarrow> rd ies (i + 2); d1 \<leftarrow> rd ies (i + 3); Some (oi\<lparr>oi_vhtWidth := d0, oi_vhtSeg0 := d1\<rparr>) }
          else Some oi) = Some oi1"
      using d d3 by fastforce
    obtain oi2 where "op_walk ies ielen (i + 2 + unat ?n) oi1 = Some oi2"
      using "1.IH" [OF _ r _ o "1.prems"] True by (meson not_less)
    then show ?thesis using True unfolding op_walk.simps [of ies ielen i oi] r bind.bind_lunit o by simp
  next
    case False
    then show ?thesis using "1.prems" by (subst op_walk.simps) (auto simp: rd_def)
  qed
qed

text \<open>The three combinations of a width, the driver's code for it and the centre frequency.\<close>

definition width_ok :: "ieee80211_channel \<Rightarrow> u8 \<Rightarrow> u8 \<times> nl80211_chan_width \<times> u32 \<Rightarrow> bool" where
  "width_ok chan num w \<longleftrightarrow>
     w = (20, NL80211_CHAN_WIDTH_20_NOHT, ucast (ch_center_freq chan))
     \<or> (\<exists>f. w = (40, NL80211_CHAN_WIDTH_40, f) \<and> (f = ucast (ch_center_freq chan) + 10 \<or> f + 10 = ucast (ch_center_freq chan)))
     \<or> (\<exists>seg. w = (80, NL80211_CHAN_WIDTH_80, 5000 + 5 * seg) \<and> seg \<noteq> 0 \<and> seg < 256 \<and> num > 14)"

lemma chan_width_ok:
  assumes "bnd = band_of num"
  shows "width_ok chan num (chan_width chan bnd sb oi)"
proof -
  let ?cf = "uint (ch_center_freq chan)"
  have i: "of_int ?cf = (ucast (ch_center_freq chan) :: u32)" by simp
  have f: "(of_int (?cf + x) :: u32) = ucast (ch_center_freq chan) + of_int x" for x by (simp only: of_int_add i)
  have seg: "(of_int (5000 + 5 * uint v) :: u32) = 5000 + 5 * ucast v \<and> (v \<noteq> 0 \<longrightarrow> (ucast v :: u32) \<noteq> 0) \<and> (ucast v :: u32) < 256" for v :: u8
  proof -
    have "(ucast v :: u32) < 256" unfolding word_less_nat_alt using unsigned_less [of v, where 'a = nat] 
      by (simp add: unsigned_ucast_eq take_bit_nat_eq_self)
    moreover have "unat (ucast v :: u32) = unat v"
      using unsigned_less [of v, where 'a = nat] by (simp add: unsigned_ucast_eq take_bit_nat_eq_self)
    then have "(ucast v :: u32) = 0 \<Longrightarrow> v = 0" by (metis unsigned_0 word_unat_eq_iff)
    ultimately show ?thesis by auto
  qed
  show ?thesis
    using assms f [of 10] f [of "- 10"] seg [of "oi_vhtSeg0 oi"]
    unfolding chan_width_def width_ok_def Let_def
    by (auto simp: band_of_def split: if_splits)
qed

lemma setConnectedChandef_result:
  assumes "stack_ok s" "k_hw s = Some hw"
  obtains w where "setConnectedChandef chan s = Some (s\<lparr>k_connChanWidth := fst w, k_hw := Some (set_chandef chan (fst (snd w)) (snd (snd w)) hw)\<rparr>)"
    "width_ok chan (b_channel (k_targetBSS s)) w" "\<not> htAllowed s \<Longrightarrow> fst w = 20"
proof -
  let ?b = "k_targetBSS s"
  let ?hw = "set_chandef chan NL80211_CHAN_WIDTH_20_NOHT (ucast (ch_center_freq chan)) hw"
  let ?s = "s\<lparr>k_hw := Some ?hw, k_connChanWidth := 20\<rparr>"
  let ?w = "(20, NL80211_CHAN_WIDTH_20_NOHT, ucast (ch_center_freq chan)) :: u8 \<times> nl80211_chan_width \<times> u32"
  have w: "width_ok chan n ?w" for n by (simp add: width_ok_def)
  have ht: "htAllowed ?s = htAllowed s" by (simp add: htAllowed_def)
  have again: "set_chandef chan c f ?hw = set_chandef chan c f hw" for c f by (simp add: set_chandef_def)
  have upd: "?s\<lparr>k_connChanWidth := x, k_hw := y\<rparr> = s\<lparr>k_connChanWidth := x, k_hw := y\<rparr>" for x y by simp
  note code = setConnectedChandef_def [of chan s, unfolded assms(2) bind.bind_lunit Let_def ht]
  show thesis
  proof (cases "htAllowed s \<and> band_entry (band_of (b_channel ?b)) ?s \<noteq> None")
    case False
    then have "setConnectedChandef chan s = Some ?s" unfolding code by auto
    then show thesis using that [of ?w] w by simp
  next
    case True
    then obtain sb where sb: "band_entry (band_of (b_channel ?b)) ?s = Some sb" by blast
    obtain oi where oi: "op_walk (b_ies ?b) (unat (b_ies_len ?b)) 0 no_op_info = Some oi"
      using op_walk_total stack_okD(2) [OF assms(1)] unfolding bss_ok_def by fastforce
    let ?w = "chan_width chan (band_of (b_channel ?b)) sb oi"
    have "setConnectedChandef chan s = Some (?s\<lparr>k_connChanWidth := fst ?w, k_hw := Some (set_chandef chan (fst (snd ?w)) (snd (snd ?w)) ?hw)\<rparr>)"
      unfolding code using True sb oi by (cases ?w) simp
    then show thesis using that [of ?w] chan_width_ok [OF refl] True unfolding again upd by blast
  qed
qed

text \<open>
  The operating channel is one of three consistent settings. Whatever elements the access point sent,
  \<open>setConnectedChandef\<close> reads only inside them and changes nothing but the operating channel: the result is the
  primary channel at 20 MHz, at 40 MHz with the centre 10 MHz above or below it, or, on the 5 GHz band only, at 80 MHz with
  the centre the access point announced; the width, the driver's code for it and the centre always belong together.
  With a TKIP cipher, where high throughput is forbidden, the width is 20 MHz.
\<close>

theorem connected_width_consistent:
  assumes "stack_ok s" "k_hw s = Some hw"
  shows "\<exists>s' w cw f. setConnectedChandef chan s = Some s' \<and> width_ok chan (b_channel (k_targetBSS s)) (w, cw, f)
    \<and> s' = s\<lparr>k_connChanWidth := w, k_hw := Some (set_chandef chan cw f hw)\<rparr> \<and> (\<not> htAllowed s \<longrightarrow> w = 20)"
proof -
  obtain w where "setConnectedChandef chan s = Some (s\<lparr>k_connChanWidth := fst w, k_hw := Some (set_chandef chan (fst (snd w)) (snd (snd w)) hw)\<rparr>)"
    "width_ok chan (b_channel (k_targetBSS s)) w" "\<not> htAllowed s \<longrightarrow> fst w = 20"
    using setConnectedChandef_result [OF assms] by blast
  then show ?thesis by (cases w) auto
qed

definition demo_chan :: ieee80211_channel where
  "demo_chan = \<lparr>ch_band = NL80211_BAND_5GHZ, ch_center_freq = 5180, ch_hw_value = 36, ch_flags = 0,
     ch_max_power = 20, ch_max_reg_power = 20\<rparr>"

lemma demo_linked_ok: "stack_ok demo_linked" "k_hw demo_linked = Some demo_hw"
  using stack0_ok by (simp_all add: demo_linked_def stack_ok_def)

theorem connected_width_consistent_witness:
  "\<exists>s' w cw f. setConnectedChandef demo_chan demo_linked = Some s' \<and> width_ok demo_chan (b_channel (k_targetBSS demo_linked)) (w, cw, f)"
  using connected_width_consistent [OF demo_linked_ok, of demo_chan] by blast

section \<open>The RSN element of the target\<close>

lemma drop_two: "i + 2 \<le> length xs \<Longrightarrow> drop i xs = xs ! i # xs ! (i + 1) # drop (i + 2) xs"
  using Cons_nth_drop_Suc [of i xs] Cons_nth_drop_Suc [of "i + 1" xs] by simp

lemma ie_list_step:
  assumes "i + 2 \<le> length xs"
  shows "ie_list (drop i xs) = (if i + 2 + unat (xs ! (i + 1)) \<le> length xs
    then map_option (Cons (xs ! i, block xs (i + 2) (unat (xs ! (i + 1))))) (ie_list (drop (i + 2 + unat (xs ! (i + 1))) xs)) else None)"
  unfolding drop_two [OF assms] using assms by (auto simp: block_def add.commute)

lemma block_take: "i + n \<le> m \<Longrightarrow> block (take m xs) i n = block xs i n"
  by (simp add: block_def drop_take)

lemma rsn_search_spec:
  "tot \<le> length ies \<Longrightarrow> pos \<le> tot \<Longrightarrow> ie_list (drop pos (take tot ies)) = Some els \<Longrightarrow>
   rsn_search ies tot pos out capacity =
     (case find (\<lambda>el. fst el = 48) els of
        None \<Rightarrow> Some (NotFound, out, None)
      | Some el \<Rightarrow> if length (enc_el el) > capacity then Some (NoSpace, out, None)
          else map_option (\<lambda>o'. (IOSuccess, o', Some (length (enc_el el)))) (memcpy_at out 0 (enc_el el)))"
proof (induction ies tot pos out capacity arbitrary: els rule: rsn_search.induct)
  case (1 ies tot pos out capacity)
  let ?r = "take tot ies"
  have lr: "length ?r = tot" using "1.prems"(1) by simp
  show ?case
  proof (cases "pos + 2 \<le> tot")
    case False
    then have l: "length (drop pos ?r) \<le> 1" using lr by simp
    obtain zs where zs: "drop pos ?r = zs" by blast
    have "zs = [] \<or> (\<exists>x. zs = [x])" using l unfolding zs by (cases zs) auto
    then have "drop pos ?r = [] \<or> (\<exists>x. drop pos ?r = [x])" unfolding zs .
    then have "els = []" using "1.prems"(3) by auto
    then show ?thesis using False by (subst rsn_search.simps) simp
  next
    case True
    let ?e = "ies ! pos" and ?n = "ies ! (pos + 1)"
    let ?v = "block ies (pos + 2) (unat ?n)"
    have r: "rd ies (pos + 1) = Some ?n" "rd ies pos = Some ?e" using True "1.prems"(1) by (simp_all add: rd_def)
    note st = ie_list_step [of pos ?r, unfolded lr, OF True]
    have rn: "?r ! (pos + 1) = ?n" "?r ! pos = ?e" using True by simp_all
    have fit: "pos + 2 + unat ?n \<le> tot" using st "1.prems"(3) unfolding rn by (metis option.distinct(1))
    have m: "map_option (Cons (?e, ?v)) (ie_list (drop (pos + 2 + unat ?n) ?r)) = Some els"
      using st "1.prems"(3) unfolding rn if_P [OF fit] block_take [OF fit] by (simp only:)
    obtain els' where els': "ie_list (drop (pos + 2 + unat ?n) ?r) = Some els'" "els = (?e, ?v) # els'"
      using m [unfolded map_option_eq_Some] by blast
    have lv: "length ?v = unat ?n" by (rule length_block [OF order.trans [OF fit "1.prems"(1)]])
    have blk: "block ies pos (unat ?n + 2) = enc_el (?e, ?v)"
    proof -
      have d: "drop pos ies = ?e # ?n # drop (pos + 2) ies" using True "1.prems"(1) by (intro drop_two) simp
      have "take (unat ?n + 2) (?e # ?n # drop (pos + 2) ies) = ?e # ?n # ?v" by (simp add: block_def)
      then show ?thesis using lv unfolding block_def [of ies pos] d by (simp add: enc_el_def)
    qed
    have le: "length (enc_el (?e, ?v)) = unat ?n + 2" using lv by simp
    have ngt: "\<not> unat ?n + 2 > tot - pos" using fit by simp
    show ?thesis
    proof (cases "?e = 48")
      case True
      then have "find (\<lambda>el. fst el = 48) els = Some (?e, ?v)" using els'(2) by simp
      then show ?thesis
        unfolding rsn_search.simps [of ies tot pos out capacity] r bind.bind_lunit Let_def blk option.case le
          if_P [OF \<open>pos + 2 \<le> tot\<close>] if_not_P [OF ngt] if_P [OF True]
        using lv by (cases "memcpy_at out 0 (enc_el (?e, ?v))") simp_all
    next
      case False
      have "rsn_search ies tot pos out capacity = rsn_search ies tot (pos + (unat ?n + 2)) out capacity"
        unfolding rsn_search.simps [of ies tot pos out capacity] r bind.bind_lunit Let_def if_P [OF \<open>pos + 2 \<le> tot\<close>]
          if_not_P [OF ngt] if_not_P [OF False] ..
      moreover have "find (\<lambda>el. fst el = 48) els = find (\<lambda>el. fst el = 48) els'" using False els'(2) by simp
      moreover have "ie_list (drop (pos + (unat ?n + 2)) ?r) = Some els'" "pos + (unat ?n + 2) \<le> tot"
        using els'(1) fit by (simp_all only: add.assoc add.commute [of 2])
      ultimately show ?thesis
        using "1.IH" [OF \<open>pos + 2 \<le> tot\<close> r(1) refl ngt r(2) False "1.prems"(1)] by (simp only:)
    qed
  qed
qed

text \<open>
  The query for the RSN element returns the target's own. When no element was set from outside and the stored elements
  of the target are whole, \<open>copyTargetRsnIE\<close> gives the first RSN element among them, byte for byte, if the caller's
  buffer has room for it; it says that there is no room otherwise, and that there is no such element when there is
  none. The caller's buffer is never overrun.
\<close>

theorem target_rsn_returned:
  assumes "stack_ok s" "k_assocRsnIELen s < 2" "capacity \<le> length out"
    and "ie_list (take (unat (b_ies_len (k_targetBSS s))) (b_ies (k_targetBSS s))) = Some els"
  shows "copyTargetRsnIE (Some out) capacity True s = Some
    (case find (\<lambda>el. fst el = 48) els of
       None \<Rightarrow> (NotFound, out, None)
     | Some el \<Rightarrow> if length (enc_el el) > capacity then (NoSpace, out, None)
         else (IOSuccess, enc_el el @ drop (length (enc_el el)) out, Some (length (enc_el el))))"
proof -
  let ?b = "k_targetBSS s" and ?f = "find (\<lambda>el. fst el = 48) els"
  have b: "length (b_ies ?b) = 512" "unat (b_ies_len ?b) \<le> 512" "ies_used ?b = unat (b_ies_len ?b)"
    using stack_okD(2) [OF assms(1)] by (auto simp: bss_ok_def ies_used_def)
  have n: "\<not> 2 \<le> unat (k_assocRsnIELen s)" using assms(2) by (simp add: word_less_nat_alt)
  have "copyTargetRsnIE (Some out) capacity True s = rsn_search (b_ies ?b) (unat (b_ies_len ?b)) 0 out capacity"
    unfolding copyTargetRsnIE_def b(3) using n by simp
  also have "\<dots> = (case ?f of None \<Rightarrow> Some (NotFound, out, None)
      | Some el \<Rightarrow> if length (enc_el el) > capacity then Some (NoSpace, out, None)
          else map_option (\<lambda>o'. (IOSuccess, o', Some (length (enc_el el)))) (memcpy_at out 0 (enc_el el)))"
    by (rule rsn_search_spec) (use b assms(4) in simp_all)
  finally show ?thesis using assms(3) by (auto simp: memcpy_at_def blit_def split: option.splits)
qed

definition demo_rsn_bss :: RTW88BSS where
  "demo_rsn_bss = zero_bss\<lparr>b_ies := [0, 1, 65, 48, 2, 1, 0] @ replicate 505 0, b_ies_len := 7\<rparr>"

theorem target_rsn_returned_witness:
  "copyTargetRsnIE (Some [9, 9, 9, 9, 9, 9]) 6 True (stack0\<lparr>k_targetBSS := demo_rsn_bss\<rparr>) = Some (IOSuccess, [48, 2, 1, 0, 9, 9], Some 4)"
proof -
  let ?s = "stack0\<lparr>k_targetBSS := demo_rsn_bss\<rparr>"
  have "stack_ok ?s" using stack0_ok by (simp add: stack_ok_def demo_rsn_bss_def bss_ok_def zero_bss_def)
  moreover have "k_assocRsnIELen ?s < 2" by (simp add: stack0_def)
  moreover have "ie_list (take (unat (b_ies_len (k_targetBSS ?s))) (b_ies (k_targetBSS ?s))) = Some [(0, [65]), (48, [1, 0])]"
    by (simp add: demo_rsn_bss_def)
  ultimately show ?thesis using target_rsn_returned [of ?s 6 "[9, 9, 9, 9, 9, 9]" "[(0, [65]), (48, [1, 0])]"] by (simp add: enc_el_def)
qed

end
