(* ===== verification/Mlme.thy ===== *)
theory Mlme
  imports RxData Assoc Hooks
begin

text \<open>
  The connection state machine of \<open>RTW88IEEE80211.cpp\<close>: power, scanning, connecting, disconnecting, management frames
  and timeouts. A function that runs without sleeping is one definition. The functions that sleep or wait, which other
  threads interleave with, are cut at these points: \<open>doAuthenticate\<close>, \<open>runManualScan\<close>, \<open>abortActiveScan\<close> and the commands
  that drain a thread call are sequences of sections, and the theory of their interleavings joins them by a step relation.
\<close>

definition FIF_ALLMULTI :: u32 where "FIF_ALLMULTI = 2"
definition FIF_OTHER_BSS :: u32 where "FIF_OTHER_BSS = 64"
definition BSS_CHANGED_ASSOC :: u64 where "BSS_CHANGED_ASSOC = 4"
definition BSS_CHANGED_QOS :: u64 where "BSS_CHANGED_QOS = 32768"

definition authenticationCancelled :: "RTW88IEEE80211 \<Rightarrow> bool" where
  "authenticationCancelled s = k_connectCancelled s"

definition set_link :: "bool \<Rightarrow> RTW88IEEE80211 \<Rightarrow> RTW88IEEE80211" where
  "set_link active s = (if k_parent s then emit (FxLink active) s else s)"

definition upd_vif :: "(ieee80211_vif \<Rightarrow> ieee80211_vif) \<Rightarrow> RTW88IEEE80211 \<Rightarrow> RTW88IEEE80211" where
  "upd_vif f s = s\<lparr>k_vif := map_option f (k_vif s)\<rparr>"

section \<open>Power and filters\<close>

definition setReceiveMulticast :: "driver \<Rightarrow> bool \<Rightarrow> RTW88IEEE80211 \<Rightarrow> IOReturn \<times> RTW88IEEE80211" where
  "setReceiveMulticast d active s =
     (if \<not> has_ops d s \<or> \<not> d_configure_filter d then (NotReady, s)
      else let s = s\<lparr>k_receiveMulticast := active\<rparr>
           in (IOSuccess, if k_powered s then emit (FxFilter FIF_ALLMULTI (if active then FIF_ALLMULTI else 0)) s else s))"

definition setAWDLReceiveMode :: "driver \<Rightarrow> bool \<Rightarrow> RTW88IEEE80211 \<Rightarrow> IOReturn \<times> RTW88IEEE80211" where
  "setAWDLReceiveMode d active s =
     (if \<not> has_ops d s \<or> \<not> d_configure_filter d then (NotReady, s)
      else let s = s\<lparr>k_awdlReceiveMode := active\<rparr>;
               s = (if \<not> active then s\<lparr>k_awdlChannel := 0\<rparr> else s)
           in (IOSuccess, emit (FxFilter (FIF_OTHER_BSS OR FIF_ALLMULTI)
                 (if active then FIF_OTHER_BSS OR FIF_ALLMULTI else if k_receiveMulticast s then FIF_ALLMULTI else 0)) s))"

definition awdl_busy :: "RTW88IEEE80211 \<Rightarrow> bool" where
  "awdl_busy s \<longleftrightarrow> k_state s = RTW88_STATE_CONNECTED
     \<or> (k_state s = RTW88_STATE_SCANNING \<and> k_scanReturnState s = RTW88_STATE_CONNECTED)
     \<or> k_state s = RTW88_STATE_AUTHENTICATING \<or> k_state s = RTW88_STATE_ASSOCIATING \<or> k_state s = RTW88_STATE_HANDSHAKING"

text \<open>\<open>_hw->wiphy\<close>\<close>

definition has_wiphy :: "RTW88IEEE80211 \<Rightarrow> bool" where
  "has_wiphy s \<longleftrightarrow> (case k_hw s of None \<Rightarrow> False | Some hw \<Rightarrow> h_bands hw \<noteq> None)"

definition tune :: "ieee80211_channel \<Rightarrow> RTW88IEEE80211 \<Rightarrow> RTW88IEEE80211" where
  "tune chan s = s\<lparr>k_hw := map_option (set_chandef chan NL80211_CHAN_WIDTH_20_NOHT (ucast (ch_center_freq chan))) (k_hw s)\<rparr>"

definition setAWDLChannel :: "u16 \<Rightarrow> RTW88IEEE80211 \<Rightarrow> IOReturn \<times> RTW88IEEE80211" where
  "setAWDLChannel channel s =
     (if \<not> k_powered s \<or> \<not> has_wiphy s \<or> channel = 0 then (NotReady, s)
      else let s = s\<lparr>k_awdlChannel := channel\<rparr>
      in if awdl_busy s then (Busy, s)
      else case find_channel (\<lambda>c. ch_hw_value c = channel \<and> ch_flags c AND IEEE80211_CHAN_DISABLED = 0) s of
             (None, s) \<Rightarrow> (Unsupported, s)
           | (Some chan, s) \<Rightarrow> (IOSuccess, emit (FxAwdlSwitch chan) (tune chan s)))"

definition powerOn :: "driver \<Rightarrow> RTW88IEEE80211 \<Rightarrow> IOReturn \<times> RTW88IEEE80211" where
  "powerOn d s =
     (if k_powered s then (IOSuccess, s)
      else case d_start d of
             None \<Rightarrow> (NotReady, s)
           | Some ret \<Rightarrow>
             if \<not> has_ops d s then (NotReady, s)
             else let s = emit FxHwStart s
             in if ret \<noteq> 0 then (IOError, s)
                else setReceiveMulticast d (k_receiveMulticast s) (s\<lparr>k_powered := True\<rparr>))"

definition powerOff :: "driver \<Rightarrow> RTW88IEEE80211 \<Rightarrow> RTW88IEEE80211" where
  "powerOff d s =
     (if \<not> k_powered s then s
      else (if has_ops d s \<and> d_stop d then emit FxHwStop s else s)\<lparr>k_powered := False\<rparr>)"

section \<open>Scanning\<close>

definition connected_vif :: "bytes \<Rightarrow> u16 \<Rightarrow> ieee80211_vif \<Rightarrow> ieee80211_vif" where
  "connected_vif bssid aid v =
     v\<lparr>vif_bss_conf := (vif_bss_conf v)\<lparr>bc_bssid := bssid, bc_bssid_buf := bssid, bc_assoc := True, bc_aid := aid\<rparr>,
       vif_cfg_of := (vif_cfg_of v)\<lparr>vc_assoc := True, vc_aid := aid\<rparr>\<rparr>"

definition restoreConnectedChannel :: "RTW88IEEE80211 \<Rightarrow> RTW88IEEE80211 option" where
  "restoreConnectedChannel s =
     (if k_scanReturnState s \<noteq> RTW88_STATE_CONNECTED \<or> k_hw s = None \<or> k_vif s = None then Some s
      else let (c, s) = find_channel (\<lambda>c. ch_hw_value c = ucast (b_channel (k_targetBSS s))) s
      in do { s \<leftarrow> (case c of None \<Rightarrow> Some s | Some chan \<Rightarrow> setConnectedChandef chan s);
              Some (upd_vif (connected_vif (b_bssid (k_targetBSS s)) (k_assocAID s))
                      (emit (FxRestoreHw (b_bssid (k_targetBSS s))) s)) })"

definition cancel_hw_scan :: "driver \<Rightarrow> RTW88IEEE80211 \<Rightarrow> RTW88IEEE80211" where
  "cancel_hw_scan d s = (if has_ops d s \<and> d_cancel_hw_scan d then emit FxCancelHwScan s else s)"

text \<open>\<open>abortActiveScan\<close> up to its wait, and from the end of the wait on; \<open>ret\<close> is the return state read at the start.\<close>

definition abort_begin :: "driver \<Rightarrow> RTW88IEEE80211 \<Rightarrow> RTW88IEEE80211" where
  "abort_begin d s =
     (if k_state s \<noteq> RTW88_STATE_SCANNING then s
      else if k_manualScanChannelCount s \<noteq> 0 then s\<lparr>k_manualScanAbort := True\<rparr>
      else cancel_hw_scan d s)"

definition abort_end :: "RTW88State \<Rightarrow> RTW88IEEE80211 \<Rightarrow> (bool \<times> RTW88IEEE80211) option" where
  "abort_end ret s =
     (if k_state s \<noteq> RTW88_STATE_SCANNING then Some (True, s)
      else if k_manualScanChannelCount s \<noteq> 0 then Some (False, s)
      else do { s \<leftarrow> (if ret = RTW88_STATE_CONNECTED then restoreConnectedChannel s else Some s);
                let s = s\<lparr>k_state := ret, k_scanReturnState := RTW88_STATE_IDLE, k_manualScanChannelCount := 0,
                          k_manualScanOnHomeChannel := False\<rparr>
                in Some (k_state s \<noteq> RTW88_STATE_SCANNING, s) })"

definition scan_target :: "RTW88IEEE80211 \<Rightarrow> bytes option" where
  "scan_target s =
     (let e = (if k_state s = RTW88_STATE_SCANNING then k_scanReturnState s else k_state s)
      in if e = RTW88_STATE_CONNECTED \<or> e = RTW88_STATE_HANDSHAKING then Some (b_bssid (k_targetBSS s)) else None)"

definition scanDone :: "bool \<Rightarrow> RTW88IEEE80211 \<Rightarrow> RTW88IEEE80211 option" where
  "scanDone aborted s =
     (let s = s\<lparr>k_scan := scan_done_age aborted (scan_target s) (k_scan s)\<rparr>
      in do { s \<leftarrow> (if k_state s = RTW88_STATE_SCANNING
                    then let ret = k_scanReturnState s
                         in do { s \<leftarrow> (if ret = RTW88_STATE_CONNECTED then restoreConnectedChannel s else Some s);
                                 let s = s\<lparr>k_state := ret, k_scanReturnState := RTW88_STATE_IDLE, k_manualScanOnHomeChannel := False\<rparr>
                                 in Some (if ret = RTW88_STATE_IDLE \<and> k_awdlReceiveMode s \<and> k_awdlChannel s \<noteq> 0
                                          then snd (setAWDLChannel (k_awdlChannel s) s) else s) }
                    else Some s);
              Some (if k_delegate s then emit (FxScanDone aborted) s else s) })"

text \<open>
  The channels a scan visits: the enabled ones, at most 256. \<open>n\<close> are counted already; the tables come back with the
  band of each visited channel set.
\<close>

fun scan_chans :: "nl80211_band \<Rightarrow> ieee80211_channel list \<Rightarrow> nat \<Rightarrow> ieee80211_channel list \<times> ieee80211_channel list" where
  "scan_chans bnd [] n = ([], [])"
| "scan_chans bnd (c # cs) n =
     (if n < 256 \<and> ch_flags c AND IEEE80211_CHAN_DISABLED = 0
      then (let c' = c\<lparr>ch_band := bnd\<rparr>; (a, t) = scan_chans bnd cs (n + 1) in (c' # a, c' # t))
      else (let (a, t) = scan_chans bnd cs n in (a, c # t)))"

fun scan_bands :: "ieee80211_supported_band option list \<Rightarrow> nat \<Rightarrow> ieee80211_channel list \<times> ieee80211_supported_band option list" where
  "scan_bands [] n = ([], [])"
| "scan_bands (None # bs) n = (let (a, t) = scan_bands bs n in (a, None # t))"
| "scan_bands (Some b # bs) n =
     (let (a1, cs) = scan_chans (sb_band b) (sb_channels b) n; (a2, t) = scan_bands bs (n + length a1)
      in (a1 @ a2, Some (b\<lparr>sb_channels := cs\<rparr>) # t))"

definition scan_channels :: "RTW88IEEE80211 \<Rightarrow> ieee80211_channel list \<times> RTW88IEEE80211" where
  "scan_channels s =
     (case k_hw s of None \<Rightarrow> ([], s)
      | Some hw \<Rightarrow> (case h_bands hw of None \<Rightarrow> ([], s)
        | Some bands \<Rightarrow> (let (chans, t) = scan_bands bands 0 in (chans, s\<lparr>k_hw := Some (hw\<lparr>h_bands := Some t\<rparr>)\<rparr>))))"

definition scan_fail :: "IOReturn \<Rightarrow> RTW88State \<Rightarrow> RTW88IEEE80211 \<Rightarrow> IOReturn \<times> RTW88IEEE80211" where
  "scan_fail r returnState s = (r, s\<lparr>k_state := returnState, k_scanReturnState := RTW88_STATE_IDLE\<rparr>)"

definition start_manual :: "ieee80211_channel list \<Rightarrow> RTW88IEEE80211 \<Rightarrow> IOReturn \<times> RTW88IEEE80211" where
  "start_manual chans s =
     (let t = (if k_scanReturnState s = RTW88_STATE_CONNECTED then 30000 else 12000);
          s = emit FxEnterScan (s\<lparr>k_manualScanChannelCount := of_nat (length chans),
                k_manualScanChannels := chans @ drop (length chans) (k_manualScanChannels s), k_manualScanAbort := False,
                k_manualScanOnHomeChannel := False, k_rxFrameCount := 0\<rparr>)
      in (IOSuccess, emit (FxTimer t) (s\<lparr>k_timeoutMs := of_nat t\<rparr>)))"

definition cmdScan :: "driver \<Rightarrow> RTW88IEEE80211 \<Rightarrow> IOReturn \<times> RTW88IEEE80211" where
  "cmdScan d s =
     (if k_state s \<noteq> RTW88_STATE_IDLE then (Busy, s)
      else if \<not> k_powered s \<or> \<not> has_ops d s then (NotReady, s)
      else let returnState = k_state s;
               s = s\<lparr>k_scan := next_generation (k_scan s),
                     k_scanReturnState := (if returnState = RTW88_STATE_CONNECTED then returnState else RTW88_STATE_IDLE),
                     k_state := RTW88_STATE_SCANNING\<rparr>;
               (ok, s) = (if k_scanRequest s then (True, s) else ask s)
      in if \<not> ok then scan_fail NoMemory returnState s
      else let (chans, s) = scan_channels (s\<lparr>k_scanRequest := True\<rparr>)
      in if chans = [] then scan_fail NotReady returnState s
      else case d_hw_scan d of
             None \<Rightarrow> if \<not> k_manualScanTC s then scan_fail NotReady returnState s else start_manual chans s
           | Some ret \<Rightarrow>
             if \<not> d_scan_supported d then
               (if \<not> k_manualScanTC s then scan_fail NotReady returnState s else start_manual chans s)
             else let s = emit (FxHwScan chans) (s\<lparr>k_rxFrameCount := 0\<rparr>)
             in if ret \<noteq> 0 then (if k_manualScanTC s then start_manual chans s else scan_fail IOError returnState s)
                else (IOSuccess, emit (FxTimer 10000) (s\<lparr>k_timeoutMs := 10000\<rparr>)))"

text \<open>
  The sections of \<open>runManualScan\<close>. \<open>mscan_begin\<close> gives the number of channels and whether the scan leaves a connection,
  or \<open>None\<close> when it ends at once.
\<close>

definition mscan_begin :: "RTW88IEEE80211 \<Rightarrow> ((nat \<times> bool) option \<times> RTW88IEEE80211) option" where
  "mscan_begin s =
     (if k_hw s = None \<or> k_vif s = None
      then do { s \<leftarrow> scanDone True s; Some (None, s\<lparr>k_manualScanChannelCount := 0\<rparr>) }
      else Some (Some (min 256 (unat (k_manualScanChannelCount s)), k_scanReturnState s = RTW88_STATE_CONNECTED), emit FxSwScanStart s))"

text \<open>The part of the loop body that announces power saving to the access point of the connection.\<close>

definition mscan_leave :: "driver \<Rightarrow> bool \<Rightarrow> RTW88IEEE80211 \<Rightarrow> RTW88IEEE80211 option" where
  "mscan_leave d conn s =
     (let s = s\<lparr>k_manualScanOnHomeChannel := False\<rparr>
      in if conn then do { s \<leftarrow> restoreConnectedChannel s; Some (snd (txNullFunc d True s)) } else Some s)"

definition mscan_visit :: "driver \<Rightarrow> ieee80211_channel \<Rightarrow> RTW88IEEE80211 \<Rightarrow> RTW88IEEE80211 option" where
  "mscan_visit d chan s =
     (if k_hw s = None then None
      else let s = emit (FxSwScanSwitch chan) (tune chan s)
      in if ch_flags chan AND (IEEE80211_CHAN_NO_IR OR IEEE80211_CHAN_RADAR) \<noteq> 0 then Some s
         else map_option snd (txProbeRequest d s))"

definition mscan_home :: "driver \<Rightarrow> bool \<Rightarrow> RTW88IEEE80211 \<Rightarrow> RTW88IEEE80211 option" where
  "mscan_home d conn s =
     (if conn \<and> \<not> k_manualScanAbort s
      then do { s \<leftarrow> restoreConnectedChannel s; Some ((snd (txNullFunc d False s))\<lparr>k_manualScanOnHomeChannel := True\<rparr>) }
      else Some s)"

definition mscan_finish :: "driver \<Rightarrow> bool \<Rightarrow> RTW88IEEE80211 \<Rightarrow> RTW88IEEE80211 option" where
  "mscan_finish d conn s =
     (let s = emit FxSwScanComplete (s\<lparr>k_manualScanOnHomeChannel := False\<rparr>)
      in do { s \<leftarrow> (if conn then do { s \<leftarrow> restoreConnectedChannel s; Some (snd (txNullFunc d False s)) } else Some s);
              s \<leftarrow> scanDone (k_manualScanAbort s) s;
              Some (s\<lparr>k_manualScanAbort := False, k_manualScanChannelCount := 0\<rparr>) })"

section \<open>Connecting\<close>

definition cstr :: "bytes \<Rightarrow> bytes" where
  "cstr t = takeWhile (\<lambda>c. c \<noteq> 0) t"

text \<open>\<open>strlcpy (_password, p, 64)\<close>\<close>

definition copy_password :: "bytes \<Rightarrow> bytes \<Rightarrow> bytes" where
  "copy_password p old = (let q = take 63 p in q @ [0] @ drop (length q + 1) old)"

text \<open>The C strings are lists without a zero byte; \<open>None\<close> is a null pointer.\<close>

record connect_args =
  ca_ssid :: "bytes option"
  ca_password :: "bytes option"
  ca_pmk :: "bytes option"
  ca_bssid :: "bytes option"
  ca_external :: bool

definition matches :: "bytes \<Rightarrow> bytes option \<Rightarrow> RTW88BSS \<Rightarrow> bool" where
  "matches ssid bssid b \<longleftrightarrow> cstr (b_ssid b) = ssid \<and> (case bssid of None \<Rightarrow> True | Some m \<Rightarrow> b_bssid b = m)"

definition unsupported_bss :: "connect_args \<Rightarrow> RTW88BSS \<Rightarrow> bool" where
  "unsupported_bss a b \<longleftrightarrow>
     (b_capabilities b AND 0x10 \<noteq> 0 \<and> (b_cipher b \<noteq> WLAN_CIPHER_SUITE_CCMP \<or> b_akm b \<noteq> SUITE_PSK))
     \<or> (ca_pmk a \<noteq> None \<and> b_capabilities b AND 0x10 = 0)
     \<or> (\<not> ca_external a \<and> ca_pmk a = None \<and> ca_password a = None \<and> b_capabilities b AND 0x10 \<noteq> 0)"

text \<open>\<open>cmdConnect\<close> after the abort of an active scan.\<close>

definition cmdConnect :: "driver \<Rightarrow> connect_args \<Rightarrow> RTW88IEEE80211 \<Rightarrow> IOReturn \<times> RTW88IEEE80211" where
  "cmdConnect d a s =
     (if k_state s \<noteq> RTW88_STATE_IDLE then (Busy, s)
      else case ca_ssid a of
        None \<Rightarrow> (BadArgument, s)
      | Some ssid \<Rightarrow>
        if ssid = [] \<or> length ssid > 32 then (BadArgument, s)
        else if \<not> k_powered s \<or> \<not> k_connectTC s then (NotReady, s)
        else let s = releaseSta d (clearKeys d s)
        in case find (matches ssid (ca_bssid a)) (bssList (k_scan s)) of
             None \<Rightarrow> (NotFound, s)
           | Some b \<Rightarrow>
             let s = s\<lparr>k_targetBSS := b\<rparr>
             in if unsupported_bss a b then (Unsupported, s)
             else let s = s\<lparr>k_externalSupplicant := ca_external a, k_pmkProvided := ca_pmk a \<noteq> None,
                            k_pmk := (case ca_pmk a of None \<Rightarrow> k_pmk s | Some m \<Rightarrow> m),
                            k_password := copy_password (case ca_password a of None \<Rightarrow> [] | Some p \<Rightarrow> p) (k_password s),
                            k_wpa2 := b_cipher b = WLAN_CIPHER_SUITE_CCMP, k_deauthReason := 0,
                            k_connectCancelled := False, k_state := RTW88_STATE_AUTHENTICATING\<rparr>
             in (IOSuccess, emit FxEnterConnect s))"

text \<open>
  The sections of \<open>doAuthenticate\<close>: the first test, one look at the scan flag of the driver, the test after the settle
  delay, the channel switch, the frame, the timeout. \<open>False\<close> and \<open>None\<close> in the result: the function returns.
\<close>

definition auth_begin :: "RTW88IEEE80211 \<Rightarrow> bool" where
  "auth_begin s \<longleftrightarrow> \<not> (authenticationCancelled s \<or> \<not> k_powered s \<or> k_hw s = None \<or> k_vif s = None)"

datatype poll = PollReturn | PollReady | PollAgain

text \<open>Look \<open>i\<close> of at most 100, and the test after the loop.\<close>

definition auth_poll :: "nat \<Rightarrow> bool \<Rightarrow> RTW88IEEE80211 \<Rightarrow> poll" where
  "auth_poll i scanning s =
     (if authenticationCancelled s then PollReturn
      else if i < 100 then (if \<not> scanning then PollReady else PollAgain)
      else if scanning then PollReturn else PollReady)"

definition auth_bss :: "bytes \<Rightarrow> ieee80211_vif \<Rightarrow> ieee80211_vif" where
  "auth_bss bssid v = v\<lparr>vif_bss_conf := (vif_bss_conf v)\<lparr>bc_bssid := bssid, bc_bssid_buf := bssid, bc_assoc := False, bc_aid := 0\<rparr>\<rparr>"

definition auth_channel :: "RTW88IEEE80211 \<Rightarrow> RTW88IEEE80211 option" where
  "auth_channel s =
     (if k_hw s = None then None
      else let (c, s) = find_channel (\<lambda>c. ch_hw_value c = ucast (b_channel (k_targetBSS s))) s
      in do { s \<leftarrow> (case c of None \<Rightarrow> Some s | Some chan \<Rightarrow> setConnectedChandef chan s);
              Some (emit (FxConnectSetup (b_bssid (k_targetBSS s))) s) })"

definition auth_send :: "driver \<Rightarrow> RTW88IEEE80211 \<Rightarrow> RTW88IEEE80211 option" where
  "auth_send d s =
     (if authenticationCancelled s then Some s
      else if k_vif s = None then None
      else let s = upd_vif (auth_bss (b_bssid (k_targetBSS s))) s
      in do { (f, s) \<leftarrow> buildAuthReq s;
              if authenticationCancelled s then Some s else Some (snd (txMgmtFrame d f s)) })"

definition auth_arm :: "RTW88IEEE80211 \<Rightarrow> RTW88IEEE80211" where
  "auth_arm s =
     (if authenticationCancelled s \<or> k_state s \<noteq> RTW88_STATE_AUTHENTICATING then s else emit (FxTimer 3000) s)"

definition doAssociate :: "driver \<Rightarrow> RTW88IEEE80211 \<Rightarrow> RTW88IEEE80211 option" where
  "doAssociate d s =
     (if k_hw s = None \<or> k_vif s = None then Some s
      else if authenticationCancelled s then Some s
      else do { (f, s) \<leftarrow> buildAssocReq s;
                let s = s\<lparr>k_state := RTW88_STATE_ASSOCIATING\<rparr>;
                    (ok, s) = txMgmtFrame d f s
                in if \<not> ok then Some (s\<lparr>k_state := RTW88_STATE_IDLE\<rparr>)
                   else if authenticationCancelled s \<or> k_state s \<noteq> RTW88_STATE_ASSOCIATING then Some s
                   else Some (emit (FxTimer 3000) s) })"

text \<open>The peer station as the association response makes it.\<close>

definition peer_sta :: "u16 \<Rightarrow> RTW88IEEE80211 \<Rightarrow> ieee80211_sta" where
  "peer_sta aid s =
     (let bnd = band_of (b_channel (k_targetBSS s));
          w = k_connChanWidth s;
          dl = (sta_deflink_of zero_sta)\<lparr>dl_supp_rates := [0xFFF, 0xFF, 0],
                 dl_bandwidth := (if w = 80 then IEEE80211_STA_RX_BW_80 else if w = 40 then IEEE80211_STA_RX_BW_40
                                  else IEEE80211_STA_RX_BW_20)\<rparr>;
          dl = (case band_entry bnd s of
                  Some sb \<Rightarrow>
                    if htAllowed s then
                      (let ht = sb_ht_cap sb;
                           dl = dl\<lparr>dl_ht_cap := ht\<lparr>ht_cap_bits := narrow_ht w (ht_cap_bits ht)\<rparr>\<rparr>
                       in if bnd = NL80211_BAND_5GHZ then dl\<lparr>dl_vht_cap := sb_vht_cap sb\<rparr> else dl)
                    else dl
                | None \<Rightarrow> dl)
      in zero_sta\<lparr>sta_addr := b_bssid (k_targetBSS s), sta_aid := aid, sta_wme := True, sta_deflink_of := dl\<rparr>)"

definition add_sta :: "driver \<Rightarrow> u16 \<Rightarrow> RTW88IEEE80211 \<Rightarrow> RTW88IEEE80211" where
  "add_sta d aid s =
     (if k_sta s = None \<and> d_ops d \<and> d_sta_add d
      then let (ok, s) = ask s
           in if ok then (let sta = peer_sta aid s in emit (FxStaAdd sta) (s\<lparr>k_sta := Some sta\<rparr>)) else s
      else s)"

definition assoc_vif :: "bytes \<Rightarrow> u16 \<Rightarrow> ieee80211_vif \<Rightarrow> ieee80211_vif" where
  "assoc_vif bssid aid v =
     (connected_vif bssid aid v)\<lparr>vif_bss_conf := (vif_bss_conf (connected_vif bssid aid v))\<lparr>bc_qos := True\<rparr>\<rparr>"

definition notify_assoc :: "driver \<Rightarrow> u16 \<Rightarrow> RTW88IEEE80211 \<Rightarrow> RTW88IEEE80211" where
  "notify_assoc d aid s =
     (if d_ops d \<and> d_bss_info_changed d
      then emit (FxBssInfo True (BSS_CHANGED_ASSOC OR BSS_CHANGED_QOS)) (upd_vif (assoc_vif (b_bssid (k_targetBSS s)) aid) s)
      else s)"

text \<open>After a valid response with status 0; \<open>_hw\<close> is dereferenced without a test.\<close>

definition associated :: "KERN_SHA1_CTX \<Rightarrow> driver \<Rightarrow> u16 \<Rightarrow> RTW88IEEE80211 \<Rightarrow> RTW88IEEE80211 option" where
  "associated c d aid s =
     (if k_hw s = None then None
      else let s = notify_assoc d aid (add_sta d aid (s\<lparr>k_assocAID := aid\<rparr>))
      in if k_wpa2 s \<and> \<not> k_externalSupplicant s
         then let s = s\<lparr>k_state := RTW88_STATE_HANDSHAKING\<rparr>
              in do { s \<leftarrow> (if \<not> k_pmkProvided s
                            then do { m \<leftarrow> derivePMK c (cstr (k_password s)) (b_ssid (k_targetBSS s)) (unat (b_ssid_len (k_targetBSS s)));
                                      Some (s\<lparr>k_pmk := m\<rparr>) }
                            else Some s);
                      Some (emit (FxTimer 8000) s) }
         else let s = set_link True (s\<lparr>k_state := RTW88_STATE_CONNECTED\<rparr>);
                  s = (if \<not> k_wpa2 s then startTxAggregation d s else s)
              in Some (emit FxTimerCancel s))"

definition processAssocResponse :: "KERN_SHA1_CTX \<Rightarrow> driver \<Rightarrow> bytes \<Rightarrow> RTW88IEEE80211 \<Rightarrow> RTW88IEEE80211 option" where
  "processAssocResponse c d f s =
     do { (valid, out) \<leftarrow> rtw88AssocResponse (Some f) (length f) (Some (k_macAddr s)) (Some (b_bssid (k_targetBSS s))) True True;
          let s = free_skb s
          in if \<not> valid \<or> authenticationCancelled s then Some s
             else case out of
                    None \<Rightarrow> Some s
                  | Some (status, aid) \<Rightarrow>
                    if status \<noteq> 0 then Some (s\<lparr>k_state := RTW88_STATE_IDLE\<rparr>) else associated c d aid s }"

section \<open>Disconnecting\<close>

definition deauth_vif :: "ieee80211_vif \<Rightarrow> ieee80211_vif" where
  "deauth_vif v = v\<lparr>vif_bss_conf := (vif_bss_conf v)\<lparr>bc_assoc := False\<rparr>\<rparr>"

definition go_idle :: "RTW88IEEE80211 \<Rightarrow> RTW88IEEE80211" where
  "go_idle s = s\<lparr>k_state := RTW88_STATE_IDLE, k_scanReturnState := RTW88_STATE_IDLE\<rparr>"

definition deauth_frame :: "RTW88IEEE80211 \<Rightarrow> bytes" where
  "deauth_frame s = hdr3 (IEEE80211_FTYPE_MGMT OR IEEE80211_STYPE_DEAUTH) (b_bssid (k_targetBSS s)) (k_macAddr s)
     (b_bssid (k_targetBSS s)) 0 @ [WLAN_REASON_DEAUTH_LEAVING, 0]"

definition doDisconnect :: "driver \<Rightarrow> RTW88IEEE80211 \<Rightarrow> RTW88IEEE80211" where
  "doDisconnect d s =
     (if k_hw s = None \<or> k_vif s = None then go_idle s
      else let s = clearKeys d s;
               s = snd (txMgmtFrame d (deauth_frame s) s);
               s = upd_vif deauth_vif s;
               s = (if d_ops d \<and> d_bss_info_changed d then emit (FxBssInfo False BSS_CHANGED_ASSOC) s else s);
               s = releaseSta d s
           in set_link False (emit FxTimerCancel (go_idle s)))"

text \<open>\<open>cancelAuthentication\<close> up to the wait for the connect call to drain; the commands are what follows it.\<close>

definition cancelAuthentication :: "RTW88IEEE80211 \<Rightarrow> RTW88IEEE80211" where
  "cancelAuthentication s =
     (let s = emit FxTimerCancel (s\<lparr>k_connectCancelled := True\<rparr>) in if k_connectTC s then emit FxDrainConnect s else s)"

definition cmdDisconnect :: "driver \<Rightarrow> RTW88IEEE80211 \<Rightarrow> IOReturn \<times> RTW88IEEE80211" where
  "cmdDisconnect d s = (IOSuccess, if k_state s = RTW88_STATE_IDLE then s else doDisconnect d s)"

definition cmdPowerOn :: "driver \<Rightarrow> RTW88IEEE80211 \<Rightarrow> IOReturn \<times> RTW88IEEE80211" where
  "cmdPowerOn d s =
     (let (ret, s) = powerOn d s
      in (ret, if ret = IOSuccess \<and> k_state s = RTW88_STATE_DISCONNECTING then s\<lparr>k_state := RTW88_STATE_IDLE\<rparr> else s))"

text \<open>After the abort of an active scan; \<open>ok\<close> is its result.\<close>

definition cmdPowerOff :: "driver \<Rightarrow> bool \<Rightarrow> RTW88IEEE80211 \<Rightarrow> IOReturn \<times> RTW88IEEE80211" where
  "cmdPowerOff d ok s =
     (if \<not> ok then (Busy, s)
      else let s = (if k_state s \<in> {RTW88_STATE_CONNECTED, RTW88_STATE_AUTHENTICATING, RTW88_STATE_ASSOCIATING, RTW88_STATE_HANDSHAKING}
                    then doDisconnect d s else releaseSta d (clearKeys d s))
           in (IOSuccess, set_link False (go_idle (powerOff d s))))"

definition cmdInstallExternalKey :: "driver \<Rightarrow> bool \<Rightarrow> u8 \<Rightarrow> u32 \<Rightarrow> bytes option \<Rightarrow> RTW88IEEE80211 \<Rightarrow> IOReturn \<times> RTW88IEEE80211" where
  "cmdInstallExternalKey d pw keyidx cipher key s =
     (if \<not> k_externalSupplicant s \<or> \<not> k_wpa2 s \<or> k_state s \<noteq> RTW88_STATE_CONNECTED then (NotReady, s)
      else case key of
             None \<Rightarrow> (BadArgument, s)
           | Some tk \<Rightarrow>
             if tk = [] then (BadArgument, s)
             else if pw \<and> k_sta s = None then (NotReady, s)
             else case installKey d pw keyidx cipher tk s of (ok, s) \<Rightarrow> (if ok then IOSuccess else Unsupported, s))"

section \<open>Management frames and timeouts\<close>

definition leave_network :: "driver \<Rightarrow> u16 \<Rightarrow> RTW88IEEE80211 \<Rightarrow> RTW88IEEE80211" where
  "leave_network d reason s =
     (let s = clearKeys d (s\<lparr>k_deauthReason := ucast reason\<rparr>);
          s = rxBaTeardownAll_k (s\<lparr>k_txBaActive := False\<rparr>)
      in set_link False (go_idle s))"

definition deauth_relevant :: "RTW88IEEE80211 \<Rightarrow> bool" where
  "deauth_relevant s \<longleftrightarrow> k_state s = RTW88_STATE_CONNECTED \<or> k_state s = RTW88_STATE_HANDSHAKING
     \<or> (k_state s = RTW88_STATE_SCANNING \<and> k_scanReturnState s = RTW88_STATE_CONNECTED)"

definition action_channel :: "ieee80211_rx_status \<Rightarrow> RTW88IEEE80211 \<Rightarrow> u16" where
  "action_channel rxs s =
     (case k_hw s of None \<Rightarrow> 0
      | Some hw \<Rightarrow>
        (case h_bands hw of None \<Rightarrow> 0
         | Some bands \<Rightarrow>
           if unat (rs_band rxs) < NL80211_NUM_BANDS \<and> Option.bind (rd bands (unat (rs_band rxs))) id \<noteq> None
           then (case cd_chan (h_chandef hw) of Some c \<Rightarrow> ch_hw_value c | None \<Rightarrow> k_awdlChannel s)
           else 0))"

definition inject_action :: "rx_skb \<Rightarrow> RTW88IEEE80211 \<Rightarrow> RTW88IEEE80211" where
  "inject_action skb s =
     (if k_parent s then emit (FxInjectAction (f_data skb) (rs_signal (f_rxs skb)) (action_channel (f_rxs skb) s)) s else s)"

definition rx_auth :: "driver \<Rightarrow> bytes \<Rightarrow> RTW88IEEE80211 \<Rightarrow> RTW88IEEE80211 option" where
  "rx_auth d f s =
     (if k_state s = RTW88_STATE_AUTHENTICATING \<and> \<not> authenticationCancelled s
      then do { r \<leftarrow> rtw88AuthResponse (Some f) (length f) (Some (k_macAddr s)) (Some (b_bssid (k_targetBSS s))) True;
                case r of
                  None \<Rightarrow> Some s
                | Some status \<Rightarrow>
                  if status = 0 then doAssociate d s else Some ((emit FxTimerCancel s)\<lparr>k_state := RTW88_STATE_IDLE\<rparr>) }
      else Some s)"

definition rx_deauth :: "driver \<Rightarrow> bytes \<Rightarrow> RTW88IEEE80211 \<Rightarrow> RTW88IEEE80211 option" where
  "rx_deauth d f s =
     (if deauth_relevant s
      then do { a1 \<leftarrow> rd_blk f 4 6; a2 \<leftarrow> rd_blk f 10 6; a3 \<leftarrow> rd_blk f 16 6; bc \<leftarrow> is_broadcast_ether_addr a1;
                let ap = b_bssid (k_targetBSS s)
                in if \<not> (a3 = ap \<or> a2 = ap) \<or> \<not> (a1 = k_macAddr s \<or> bc) then Some s
                   else do { reason \<leftarrow> (if length f \<ge> 26 then rd16 f 24 else Some 0); Some (leave_network d reason s) } }
      else Some s)"

definition rx_action :: "driver \<Rightarrow> bytes \<Rightarrow> RTW88IEEE80211 \<Rightarrow> RTW88IEEE80211 option" where
  "rx_action d f s =
     (if k_state s = RTW88_STATE_CONNECTED \<and> length f \<ge> 26
      then do { b0 \<leftarrow> rd f 24; a3 \<leftarrow> rd_blk f 16 6;
                if b0 = WLAN_CATEGORY_BACK \<and> a3 = b_bssid (k_targetBSS s) then handleBackAction d (drop 24 f) s else Some s }
      else Some s)"

text \<open>The scan table frees the frame itself, as \<open>processScanResult\<close> does.\<close>

definition rx_scan :: "rx_skb \<Rightarrow> RTW88IEEE80211 \<Rightarrow> RTW88IEEE80211 option" where
  "rx_scan skb s =
     (let (mem, s) = (if length (f_data skb) < 36 then (True, s) else ask s)
      in map_option (\<lambda>db. s\<lparr>k_scan := db\<rparr>) (processScanResult mem (Some (f_data skb)) (f_rxs skb) (k_scan s)))"

definition processRxMgmt :: "KERN_SHA1_CTX \<Rightarrow> driver \<Rightarrow> rx_skb \<Rightarrow> RTW88IEEE80211 \<Rightarrow> RTW88IEEE80211 option" where
  "processRxMgmt c d skb s =
     (let f = f_data skb in
      do { fc \<leftarrow> frame_control_of f;
           let stype = fc AND 0x00f0 in
           if stype = 0x0080 \<or> stype = 0x0050 then
             (if k_state s = RTW88_STATE_SCANNING then rx_scan skb s else Some (free_skb s))
           else if stype = 0x00B0 then map_option free_skb (rx_auth d f s)
           else if stype = 0x0010 \<or> stype = 0x0030 then
             (if k_state s = RTW88_STATE_ASSOCIATING then processAssocResponse c d f s else Some (free_skb s))
           else if stype = 0x00A0 \<or> stype = 0x00C0 then map_option free_skb (rx_deauth d f s)
           else if stype = 0x00D0 then map_option free_skb (rx_action d f (inject_action skb s))
           else Some (free_skb s) })"

definition rxFrame :: "KERN_SHA1_CTX \<Rightarrow> driver \<Rightarrow> (nat \<Rightarrow> bytes) \<Rightarrow> rx_skb option \<Rightarrow> RTW88IEEE80211 \<Rightarrow> RTW88IEEE80211 option" where
  "rxFrame c d rnd skbo s =
     (case skbo of None \<Rightarrow> Some s
      | Some skb \<Rightarrow>
        if length (f_data skb) < 24 then Some (free_skb s)
        else do { fc \<leftarrow> frame_control_of (f_data skb);
          let s = s\<lparr>k_rssi := rs_signal (f_rxs skb), k_rxFrameCount := k_rxFrameCount s + 1\<rparr> in
          if ieee80211_is_mgmt fc then processRxMgmt c d skb s
          else if ieee80211_is_data fc then
            do { (consumed, s) \<leftarrow> tryDeliverAWDLDataFrame skb s;
                 if consumed then Some s else processRxData c d rnd skb s }
          else Some (free_skb s) })"

definition onTimer :: "driver \<Rightarrow> RTW88IEEE80211 \<Rightarrow> RTW88IEEE80211 option" where
  "onTimer d s =
     (case k_state s of
        RTW88_STATE_SCANNING \<Rightarrow>
          if k_manualScanChannelCount s \<noteq> 0 then Some (s\<lparr>k_manualScanAbort := True\<rparr>)
          else let s = cancel_hw_scan d s; ret = k_scanReturnState s
               in do { s \<leftarrow> (if ret = RTW88_STATE_CONNECTED then restoreConnectedChannel s else Some s);
                       Some (s\<lparr>k_state := ret, k_scanReturnState := RTW88_STATE_IDLE\<rparr>) }
      | RTW88_STATE_AUTHENTICATING \<Rightarrow>
          Some (if \<not> authenticationCancelled s \<and> k_connectTC s then emit FxEnterConnect s else s)
      | RTW88_STATE_ASSOCIATING \<Rightarrow> Some (s\<lparr>k_state := RTW88_STATE_IDLE\<rparr>)
      | RTW88_STATE_HANDSHAKING \<Rightarrow> Some (doDisconnect d s)
      | _ \<Rightarrow> Some s)"

section \<open>Start and stop\<close>

text \<open>The device numbers of \<open>rtw88_pci_chip_table\<close>, before the entry that ends it.\<close>

definition rtw88_pci_chip_table :: "u16 list" where
  "rtw88_pci_chip_table = [0xB822, 0xC822, 0xC82F, 0xC821, 0xB821, 0x8821, 0x8812, 0x8813]"

text \<open>What the probe of the driver answers and leaves: its result, the registered hardware, its private part and address.\<close>

record probe_result =
  p_ret :: int
  p_hw :: "hw_view option"
  p_priv :: bool
  p_perm_addr :: bytes

definition fail_probe :: "RTW88IEEE80211 \<Rightarrow> IOReturn \<times> RTW88IEEE80211" where
  "fail_probe s = (IOError, (emit FxRemove s)\<lparr>k_rtwdev := False, k_hw := None, k_powered := False\<rparr>)"

definition fail_vif :: "driver \<Rightarrow> RTW88IEEE80211 \<Rightarrow> IOReturn \<times> RTW88IEEE80211" where
  "fail_vif d s =
     (let s = (if k_powered s \<and> has_ops d s \<and> d_stop d then (emit FxHwStop s)\<lparr>k_powered := False\<rparr> else s)
      in fail_probe (s\<lparr>k_vif := None\<rparr>))"

definition start_vif :: "bytes \<Rightarrow> ieee80211_vif" where
  "start_vif mac =
     zero_vif\<lparr>vif_type := NL80211_IFTYPE_STATION, vif_addr := mac,
       vif_bss_conf := (vif_bss_conf zero_vif)\<lparr>bc_bssid := bc_bssid_buf (vif_bss_conf zero_vif)\<rparr>\<rparr>"

definition start :: "u16 \<Rightarrow> probe_result \<Rightarrow> driver \<Rightarrow> RTW88IEEE80211 \<Rightarrow> IOReturn \<times> RTW88IEEE80211" where
  "start device p d s =
     (if device \<notin> set rtw88_pci_chip_table then (Unsupported, s)
      else let s = emit FxProbe s
      in if p_ret p \<noteq> 0 then (IOError, s)
      else let s = s\<lparr>k_hw := p_hw p, k_rtwdev := p_hw p \<noteq> None \<and> p_priv p\<rparr>
      in if k_hw s = None \<or> \<not> k_rtwdev s \<or> \<not> has_wiphy s \<or> \<not> d_ops d then fail_probe s
      else let (ok, s) = ask (s\<lparr>k_macAddr := p_perm_addr p\<rparr>)
      in if \<not> ok then fail_probe s
      else let s = s\<lparr>k_vif := Some (start_vif (k_macAddr s))\<rparr>
      in case d_add_interface d of
           None \<Rightarrow> fail_vif d s
         | Some add_ret \<Rightarrow>
           (case d_start d of
              None \<Rightarrow> fail_vif d s
            | Some ret \<Rightarrow>
              let s = emit FxHwStart s
              in if ret \<noteq> 0 then fail_vif d s
              else let s = emit FxAddInterface (s\<lparr>k_powered := True\<rparr>)
              in if add_ret \<noteq> 0 then fail_vif d s
              else (IOSuccess, go_idle (emit FxRegisterVif s))))"

text \<open>\<open>stop\<close> once the thread calls it waits for are over.\<close>

definition stop_rest :: "driver \<Rightarrow> RTW88IEEE80211 \<Rightarrow> RTW88IEEE80211" where
  "stop_rest d s =
     (let s = (if (k_state s = RTW88_STATE_CONNECTED \<or> (k_state s = RTW88_STATE_SCANNING \<and> k_scanReturnState s = RTW88_STATE_CONNECTED))
                  \<and> k_powered s
               then doDisconnect d s else releaseSta d (clearKeys d s));
          s = (if k_state s = RTW88_STATE_SCANNING then cancel_hw_scan d s else s);
          s = (if k_vif s \<noteq> None then emit FxUnregisterVif s else s);
          s = (if k_vif s \<noteq> None \<and> has_ops d s \<and> d_remove_interface d then emit FxRemoveInterface s else s);
          s = s\<lparr>k_vif := None\<rparr>;
          s = (if k_powered s \<and> has_ops d s \<and> d_stop d then emit FxHwStop s else s);
          s = emit FxRemove (s\<lparr>k_powered := False\<rparr>)
      in go_idle (s\<lparr>k_rtwdev := False, k_hw := None\<rparr>))"

definition stop :: "driver \<Rightarrow> RTW88IEEE80211 \<Rightarrow> RTW88IEEE80211" where
  "stop d s =
     (let s = (cancelAuthentication s)\<lparr>k_manualScanAbort := True\<rparr>;
          s = (if k_manualScanTC s then emit FxDrainScan s else s);
          s = (if k_connectTC s then emit FxDrainConnect s else s)
      in stop_rest d (emit FxTimerCancel (emit FxReorderCancel s)))"

section \<open>Queries\<close>

fun state_number :: "RTW88State \<Rightarrow> u32" where
  "state_number RTW88_STATE_IDLE = 0"
| "state_number RTW88_STATE_SCANNING = 1"
| "state_number RTW88_STATE_AUTHENTICATING = 2"
| "state_number RTW88_STATE_ASSOCIATING = 3"
| "state_number RTW88_STATE_HANDSHAKING = 4"
| "state_number RTW88_STATE_CONNECTED = 5"
| "state_number RTW88_STATE_DISCONNECTING = 6"

record RTW88StateResult =
  sr_state :: u32
  sr_bssid :: bytes
  sr_ssid :: bytes
  sr_rssi :: int
  sr_channel :: u32
  sr_mac_addr :: bytes
  sr_fw_version :: "u16 option"
  sr_fw_sub_version :: "u8 option"
  sr_chip_name :: "string option"
  sr_rx_byte_count :: "u32 option"
  sr_tx_byte_count :: "u32 option"
  sr_scan_offload_supported :: bool
  sr_powered :: bool

text \<open>\<open>dev\<close>: what \<open>_rtwdev\<close> points to.\<close>

definition cmdGetState :: "driver \<Rightarrow> rtw_dev option \<Rightarrow> bool \<Rightarrow> RTW88IEEE80211 \<Rightarrow> IOReturn \<times> RTW88StateResult option" where
  "cmdGetState d dev out s =
     (if \<not> out then (BadArgument, None)
      else let (ver, sub) = rtw88_get_fw_version dev True True; (txb, rxb) = rtw88_get_stats dev True True
      in (IOSuccess, Some \<lparr>sr_state = state_number (k_state s), sr_bssid = b_bssid (k_targetBSS s), sr_ssid = b_ssid (k_targetBSS s),
            sr_rssi = k_rssi s, sr_channel = ucast (b_channel (k_targetBSS s)), sr_mac_addr = k_macAddr s,
            sr_fw_version = ver, sr_fw_sub_version = sub, sr_chip_name = rtw88_get_chip_name dev True 32,
            sr_rx_byte_count = rxb, sr_tx_byte_count = txb,
            sr_scan_offload_supported = (has_ops d s \<and> d_hw_scan d \<noteq> None \<and> d_scan_supported d), sr_powered = k_powered s\<rparr>))"

definition cmdGetRSSI :: "RTW88IEEE80211 \<Rightarrow> IOReturn \<times> int" where
  "cmdGetRSSI s = (IOSuccess, k_rssi s)"

definition getMACAddress :: "RTW88IEEE80211 \<Rightarrow> bytes" where
  "getMACAddress s = k_macAddr s"

end
