(* ===== verification/LinkState.thy ===== *)
theory LinkState
  imports Mlme
begin

text \<open>
  The invariant of the connection state machine and what every section of \<open>Mlme\<close> does to it. Most sections leave
  the mode of the link alone (\<open>same_mode\<close>); the others change it in ways the invariant allows.
\<close>

section \<open>Sections that leave the mode of the link alone\<close>

definition same_mode :: "RTW88IEEE80211 \<Rightarrow> RTW88IEEE80211 \<Rightarrow> bool" where
  "same_mode s s' \<longleftrightarrow>
     k_state s' = k_state s \<and> k_powered s' = k_powered s \<and> k_scanReturnState s' = k_scanReturnState s
     \<and> (k_hw s' = None \<longleftrightarrow> k_hw s = None) \<and> (k_vif s' = None \<longleftrightarrow> k_vif s = None) \<and> k_sta s' = k_sta s
     \<and> k_targetBSS s' = k_targetBSS s \<and> k_wpa2 s' = k_wpa2 s \<and> k_externalSupplicant s' = k_externalSupplicant s
     \<and> k_ptkConf s' = k_ptkConf s \<and> k_rxBa s' = k_rxBa s \<and> k_scan s' = k_scan s \<and> k_assocRsnIELen s' = k_assocRsnIELen s
     \<and> k_connectCancelled s' = k_connectCancelled s \<and> (stack_ok s \<longrightarrow> stack_ok s') \<and> (hw_ok s \<longrightarrow> hw_ok s')"

lemma same_modeD:
  assumes "same_mode s s'"
  shows "k_state s' = k_state s" "k_powered s' = k_powered s" "k_scanReturnState s' = k_scanReturnState s"
    "(k_hw s' = None) = (k_hw s = None)" "(k_vif s' = None) = (k_vif s = None)" "k_sta s' = k_sta s"
    "k_targetBSS s' = k_targetBSS s" "k_wpa2 s' = k_wpa2 s" "k_externalSupplicant s' = k_externalSupplicant s"
    "k_ptkConf s' = k_ptkConf s" "k_rxBa s' = k_rxBa s" "k_scan s' = k_scan s" "k_assocRsnIELen s' = k_assocRsnIELen s"
    "k_connectCancelled s' = k_connectCancelled s" "stack_ok s \<Longrightarrow> stack_ok s'" "hw_ok s \<Longrightarrow> hw_ok s'"
  using assms unfolding same_mode_def by blast+

lemma same_mode_refl [simp, intro]: "same_mode s s"
  by (simp add: same_mode_def)

lemma same_mode_trans [trans]: "same_mode s t \<Longrightarrow> same_mode t u \<Longrightarrow> same_mode s u"
  unfolding same_mode_def by metis

lemma hw_ok_hw: "k_hw s' = k_hw s \<Longrightarrow> hw_ok s' = hw_ok s"
  by (simp add: hw_ok_def)

lemma same_mode_tx: "tx_core s' = tx_core s \<Longrightarrow> stack_ok s' \<or> \<not> stack_ok s \<Longrightarrow> same_mode s s'"
  using tx_coreD [of s' s] hw_ok_hw [of s' s] by (auto simp: same_mode_def)

lemma same_mode_emit [simp]: "same_mode s (emit e t) = same_mode s t"
  by (simp add: same_mode_def hw_ok_def)

lemma same_mode_misc [simp]:
  "same_mode s (t\<lparr>k_answers := a\<rparr>) = same_mode s t" "same_mode s (t\<lparr>k_fx := fx\<rparr>) = same_mode s t" "same_mode s (t\<lparr>k_txBaActive := b\<rparr>) = same_mode s t"
  "same_mode s (t\<lparr>k_receiveMulticast := b\<rparr>) = same_mode s t" "same_mode s (t\<lparr>k_awdlReceiveMode := b\<rparr>) = same_mode s t"
  "same_mode s (t\<lparr>k_awdlChannel := c\<rparr>) = same_mode s t" "same_mode s (t\<lparr>k_timeoutMs := n\<rparr>) = same_mode s t"
  "same_mode s (t\<lparr>k_manualScanChannelCount := n\<rparr>) = same_mode s t" "same_mode s (t\<lparr>k_manualScanAbort := b\<rparr>) = same_mode s t"
  "same_mode s (t\<lparr>k_manualScanOnHomeChannel := b\<rparr>) = same_mode s t" "same_mode s (t\<lparr>k_rxFrameCount := n\<rparr>) = same_mode s t"
  "same_mode s (t\<lparr>k_manualScanChannels := cs\<rparr>) = same_mode s t" "same_mode s (t\<lparr>k_scanRequest := b\<rparr>) = same_mode s t"
  "same_mode s (t\<lparr>k_rssi := i\<rparr>) = same_mode s t" "same_mode s (t\<lparr>k_assocAID := c\<rparr>) = same_mode s t"
  "same_mode s (t\<lparr>k_baDialog := dl\<rparr>) = same_mode s t" "same_mode s (next_txSeq t) = same_mode s t" "same_mode s (t\<lparr>k_connChanWidth := w\<rparr>) = same_mode s t"
  by (simp_all add: same_mode_def hw_ok_def stack_ok_def next_txSeq_def)

lemma same_mode_vif [simp]: "same_mode s (upd_vif f t) = same_mode s t"
  by (simp add: same_mode_def upd_vif_def hw_ok_def stack_ok_def)

lemma same_mode_set_link [simp]: "same_mode s (set_link b t) = same_mode s t"
  by (simp add: set_link_def)

lemma same_mode_mgmt [simp]: "same_mode s (snd (txMgmtFrame d f t)) = same_mode s t"
  by (auto simp: txMgmtFrame_def Let_def)

lemma same_mode_null [simp]: "same_mode s (snd (txNullFunc d b t)) = same_mode s t"
  by (auto simp: txNullFunc_def Let_def)

lemma same_mode_probe: "txProbeRequest d s = Some r \<Longrightarrow> same_mode s (snd r)"
  by (auto simp: txProbeRequest_def Let_def split: if_splits bind_splits)

lemma same_mode_startTx [simp]: "same_mode s (startTxAggregation d t) = same_mode s t"
  by (auto simp: startTxAggregation_def sendAddbaRequest_def Let_def simp del: ask_eq split: option.splits)

lemma same_mode_cancel_scan: "same_mode s (cancel_hw_scan d s)"
  by (simp add: cancel_hw_scan_def)

lemma same_mode_multicast: "same_mode s (snd (setReceiveMulticast d b s))"
  by (simp add: setReceiveMulticast_def Let_def)

lemma same_mode_awdl: "same_mode s (snd (setAWDLReceiveMode d b s))"
  by (simp add: setAWDLReceiveMode_def Let_def)

section \<open>The channel tables\<close>

lemma pick_chan_Some: "pick_chan P bnd cs = Some (c, cs') \<Longrightarrow> length cs' = length cs"
  by (induction cs arbitrary: c cs') (auto simp: Let_def split: if_splits)

lemma pick_bands_ok: "pick_bands P bs = Some (c, bs') \<Longrightarrow> bands_ok bs \<Longrightarrow> bands_ok bs'"
  by (induction P bs arbitrary: c bs' rule: pick_bands.induct)
    (auto simp: bands_ok_def split: option.splits, (fastforce+)?)

lemma scan_bands_ok: "scan_bands bs n = (a, bs') \<Longrightarrow> bands_ok bs \<Longrightarrow> bands_ok bs'"
proof (induction bs n arbitrary: a bs' rule: scan_bands.induct)
  case (2 bs n)
  then show ?case by (auto simp: bands_ok_def split: prod.splits)
next
  case (3 b bs n)
  then show ?case by (auto simp: bands_ok_def split: prod.splits)
qed simp

lemma same_mode_find:
  assumes "find_channel P s = (c, s')"
  shows "same_mode s s'"
proof (cases "k_hw s")
  case None
  then show ?thesis using assms by (simp add: find_channel_def)
next
  case (Some hw)
  show ?thesis
  proof (cases "h_bands hw")
    case None
    then show ?thesis using assms Some by (simp add: find_channel_def)
  next
    case (Some bs)
    then show ?thesis using assms \<open>k_hw s = Some hw\<close> pick_bands_ok [of P bs]
      by (auto simp: find_channel_def same_mode_def hw_ok_def stack_ok_def split: option.splits prod.splits)
  qed
qed

lemma same_mode_scan_channels:
  assumes "scan_channels s = (cs, s')"
  shows "same_mode s s'"
proof (cases "k_hw s")
  case None
  then show ?thesis using assms by (simp add: scan_channels_def)
next
  case (Some hw)
  then show ?thesis using assms scan_bands_ok
    by (auto simp: scan_channels_def same_mode_def hw_ok_def stack_ok_def split: option.splits prod.splits)
qed

lemma same_mode_tune: "same_mode s (tune c s)"
  by (auto simp: tune_def same_mode_def hw_ok_def stack_ok_def set_chandef_def)

lemma same_mode_hw: "k_hw s = Some hw \<Longrightarrow> same_mode s (s\<lparr>k_hw := Some (set_chandef c w f hw), k_connChanWidth := n\<rparr>)"
  by (auto simp: same_mode_def hw_ok_def stack_ok_def set_chandef_def)

lemma same_mode_chandef:
  assumes "setConnectedChandef c s = Some s'"
  shows "same_mode s s'"
proof -
  obtain hw where hw: "k_hw s = Some hw" using assms by (cases "k_hw s") (simp_all add: setConnectedChandef_def)
  let ?hw = "set_chandef c NL80211_CHAN_WIDTH_20_NOHT (ucast (ch_center_freq c)) hw"
  define t where "t = s\<lparr>k_hw := Some ?hw, k_connChanWidth := 20\<rparr>"
  have t: "same_mode s t" "k_hw t = Some ?hw" unfolding t_def using same_mode_hw [OF hw] by simp_all
  note code = assms [unfolded setConnectedChandef_def hw bind.bind_lunit Let_def, folded t_def]
  show ?thesis
  proof (cases "htAllowed t \<and> band_entry (band_of (b_channel (k_targetBSS t))) t \<noteq> None")
    case False
    then have "s' = t" using code by (auto split: option.splits if_splits)
    then show ?thesis using t(1) by simp
  next
    case True
    then obtain n w f where "s' = t\<lparr>k_connChanWidth := n, k_hw := Some (set_chandef c w f ?hw)\<rparr>"
      using code by (auto split: option.splits bind_splits prod.splits)
    then have "s' = t\<lparr>k_hw := Some (set_chandef c w f ?hw), k_connChanWidth := n\<rparr>" by simp
    then have "same_mode t s'" using same_mode_hw [OF t(2)] by simp
    then show ?thesis using t(1) same_mode_trans by blast
  qed
qed

lemma same_mode_awdl_channel: "same_mode s (snd (setAWDLChannel n s))"
proof -
  obtain c t where f: "find_channel (\<lambda>c. ch_hw_value c = n \<and> ch_flags c AND IEEE80211_CHAN_DISABLED = 0) (s\<lparr>k_awdlChannel := n\<rparr>) = (c, t)"
    by fastforce
  have "same_mode s t" using same_mode_find [OF f] by (rule same_mode_trans [rotated]) simp
  then have "same_mode s (tune x t)" for x using same_mode_tune same_mode_trans by blast
  with \<open>same_mode s t\<close> show ?thesis using f by (auto simp: setAWDLChannel_def Let_def split: option.splits)
qed

section \<open>The invariant\<close>

definition nets_ok :: "RTW88IEEE80211 \<Rightarrow> bool" where
  "nets_ok s \<longleftrightarrow> (\<forall>b\<in>set (bssList (k_scan s)). bss_ok b)"

definition held_len :: "RTW88IEEE80211 \<Rightarrow> bool" where
  "held_len s \<longleftrightarrow> (\<forall>f\<in>held (k_rxBa s). 24 \<le> length (f_data f))"

text \<open>
  The type invariant of the members, and the facts that tie the mode to them: no connection without power, no peer station
  before the association and none but the target's, a handshake for WPA2 without an external supplicant only, and no
  such connection without a pairwise key.
\<close>

definition shape_ok :: "RTW88IEEE80211 \<Rightarrow> bool" where
  "shape_ok s \<longleftrightarrow> stack_ok s \<and> hw_ok s \<and> nets_ok s \<and> held_len s"

definition mode_ok :: "RTW88IEEE80211 \<Rightarrow> bool" where
  "mode_ok s \<longleftrightarrow>
     k_scanReturnState s = RTW88_STATE_IDLE \<and> k_state s \<noteq> RTW88_STATE_DISCONNECTING
     \<and> (k_state s \<noteq> RTW88_STATE_IDLE \<longrightarrow> k_powered s)
     \<and> k_hw s \<noteq> None \<and> k_vif s \<noteq> None
     \<and> (k_state s = RTW88_STATE_AUTHENTICATING \<or> k_state s = RTW88_STATE_ASSOCIATING \<longrightarrow> k_sta s = None)
     \<and> (\<forall>x. k_sta s = Some x \<longrightarrow> sta_addr x = b_bssid (k_targetBSS s))
     \<and> (k_state s = RTW88_STATE_HANDSHAKING \<longrightarrow> k_wpa2 s \<and> \<not> k_externalSupplicant s)
     \<and> (k_state s = RTW88_STATE_CONNECTED \<and> k_wpa2 s \<and> \<not> k_externalSupplicant s \<longrightarrow> k_ptkConf s \<noteq> None)"

definition mlme_inv :: "RTW88IEEE80211 \<Rightarrow> bool" where
  "mlme_inv s \<longleftrightarrow> shape_ok s \<and> mode_ok s"

lemma shape_same: "same_mode s s' \<Longrightarrow> shape_ok s \<Longrightarrow> shape_ok s'"
  using same_modeD [of s s'] by (simp add: shape_ok_def nets_ok_def held_len_def)

lemma mode_same: "same_mode s s' \<Longrightarrow> mode_ok s \<Longrightarrow> mode_ok s'"
  using same_modeD [of s s'] unfolding mode_ok_def by simp

lemma inv_same: "same_mode s s' \<Longrightarrow> mlme_inv s \<Longrightarrow> mlme_inv s'"
  using shape_same mode_same unfolding mlme_inv_def by blast

text \<open>A quiet state, where no connection is being made or held: what disconnecting leaves.\<close>

definition quiet_ok :: "RTW88IEEE80211 \<Rightarrow> bool" where
  "quiet_ok s \<longleftrightarrow> shape_ok s \<and> k_hw s \<noteq> None \<and> k_vif s \<noteq> None \<and> (\<forall>x. k_sta s = Some x \<longrightarrow> sta_addr x = b_bssid (k_targetBSS s))"

lemma quiet_inv: "mlme_inv s \<Longrightarrow> quiet_ok s"
  by (simp add: mlme_inv_def mode_ok_def quiet_ok_def)

lemma quiet_same: "same_mode s s' \<Longrightarrow> quiet_ok s \<Longrightarrow> quiet_ok s'"
  using shape_same [of s s'] same_modeD [of s s'] unfolding quiet_ok_def by simp

lemma shape_updates [simp]:
  "shape_ok (s\<lparr>k_state := st\<rparr>) = shape_ok s" "shape_ok (s\<lparr>k_scanReturnState := st\<rparr>) = shape_ok s"
  "shape_ok (s\<lparr>k_powered := b\<rparr>) = shape_ok s" "shape_ok (s\<lparr>k_sta := x\<rparr>) = shape_ok s" "shape_ok (emit e s) = shape_ok s"
  "shape_ok (s\<lparr>k_ptkConf := y\<rparr>) = shape_ok s" "shape_ok (s\<lparr>k_gtkConf := y\<rparr>) = shape_ok s" "shape_ok (s\<lparr>k_answers := as\<rparr>) = shape_ok s"
  "shape_ok (s\<lparr>k_deauthReason := r\<rparr>) = shape_ok s" "shape_ok (s\<lparr>k_connectCancelled := b\<rparr>) = shape_ok s"
  "shape_ok (s\<lparr>k_txBaActive := b\<rparr>) = shape_ok s" "shape_ok (s\<lparr>k_dataSeq := q\<rparr>) = shape_ok s"
  by (simp_all add: shape_ok_def stack_ok_def hw_ok_def nets_ok_def held_len_def emit_def)

lemma quiet_updates [simp]:
  "quiet_ok (s\<lparr>k_state := st\<rparr>) = quiet_ok s" "quiet_ok (s\<lparr>k_scanReturnState := st\<rparr>) = quiet_ok s"
  "quiet_ok (s\<lparr>k_powered := b\<rparr>) = quiet_ok s" "quiet_ok (emit e s) = quiet_ok s"
  "quiet_ok (s\<lparr>k_answers := as\<rparr>) = quiet_ok s" "quiet_ok (s\<lparr>k_deauthReason := r\<rparr>) = quiet_ok s"
  "quiet_ok (s\<lparr>k_connectCancelled := b\<rparr>) = quiet_ok s" "quiet_ok (s\<lparr>k_txBaActive := b\<rparr>) = quiet_ok s"
  by (simp_all add: quiet_ok_def)

lemma quiet_set_link [simp]: "quiet_ok (set_link b s) = quiet_ok s"
  by (simp add: set_link_def)

lemma idle_inv: "quiet_ok s \<Longrightarrow> k_state s = RTW88_STATE_IDLE \<Longrightarrow> k_scanReturnState s = RTW88_STATE_IDLE \<Longrightarrow> mlme_inv s"
  by (simp add: mlme_inv_def mode_ok_def quiet_ok_def)

lemma go_idle_inv: "quiet_ok s \<Longrightarrow> mlme_inv (go_idle s)"
  by (rule idle_inv) (simp_all add: go_idle_def)

section \<open>Leaving a network\<close>

lemma teardown_held: "held (rx_state (rxBaTeardown t ba)) \<subseteq> held ba"
  by (auto simp: rxBaTeardown_def held_def split: option.splits if_splits)

lemma teardown_all_held: "held (rx_state (rxBaTeardownAll ba)) \<subseteq> held ba"
proof -
  have "held (rx_state (fold (\<lambda>tid res. let t = rxBaTeardown tid (rx_state res) in t\<lparr>rx_free := rx_free res @ rx_free t\<rparr>) ts res))
      \<subseteq> held (rx_state res)" for ts and res :: "'a rx_result"
  proof (induction ts arbitrary: res)
    case (Cons t ts)
    let ?r = "(rxBaTeardown t (rx_state res))\<lparr>rx_free := rx_free res @ rx_free (rxBaTeardown t (rx_state res))\<rparr>"
    have "held (rx_state ?r) \<subseteq> held (rx_state res)" using teardown_held by simp
    then show ?case using Cons [of ?r] by (simp add: Let_def)
  qed simp
  from this [of "[0 ..< kRxBaNumTid]" "\<lparr>rx_state = ba, rx_deliver = [], rx_free = [], rx_arm = False\<rparr>"]
  show ?thesis by (simp add: rxBaTeardownAll_def)
qed

lemma setup_held: "held (rx_state (rxBaSetup ok t ssn sz ba)) \<subseteq> held ba"
  by (auto simp: rxBaSetup_def held_def Let_def split: option.splits if_splits)

lemma shape_settle: "held (rx_state res) \<subseteq> held (k_rxBa s) \<Longrightarrow> shape_ok s \<Longrightarrow> shape_ok (rx_settle res s)"
  by (auto simp: shape_ok_def rx_settle_def stack_ok_def hw_ok_def nets_ok_def held_len_def)

lemma shape_teardown [simp]:
  "shape_ok s \<Longrightarrow> shape_ok (rxBaTeardownAll_k s)" "shape_ok s \<Longrightarrow> shape_ok (rxBaTeardown_k t s)" "shape_ok s \<Longrightarrow> shape_ok (rxBaSetup_k t n b s)"
proof -
  show "shape_ok s \<Longrightarrow> shape_ok (rxBaTeardownAll_k s)" "shape_ok s \<Longrightarrow> shape_ok (rxBaTeardown_k t s)"
    unfolding rxBaTeardownAll_k_def rxBaTeardown_k_def by (rule shape_settle; simp add: teardown_held teardown_all_held)+
  show "shape_ok s \<Longrightarrow> shape_ok (rxBaSetup_k t n b s)"
    unfolding rxBaSetup_k_def Let_def ask_eq by (cases "unat t < kRxBaNumTid \<and> k_rxBa s (unat t) = None") (simp_all add: shape_settle setup_held)
qed

lemma settle_sel [simp]:
  "k_state (rx_settle res s) = k_state s" "k_powered (rx_settle res s) = k_powered s" "k_scanReturnState (rx_settle res s) = k_scanReturnState s"
  "k_hw (rx_settle res s) = k_hw s" "k_vif (rx_settle res s) = k_vif s" "k_sta (rx_settle res s) = k_sta s"
  "k_targetBSS (rx_settle res s) = k_targetBSS s" "k_wpa2 (rx_settle res s) = k_wpa2 s"
  "k_externalSupplicant (rx_settle res s) = k_externalSupplicant s" "k_ptkConf (rx_settle res s) = k_ptkConf s"
  "k_connectCancelled (rx_settle res s) = k_connectCancelled s" "k_gtkConf (rx_settle res s) = k_gtkConf s" "k_ptk (rx_settle res s) = k_ptk s"
  "k_pmk (rx_settle res s) = k_pmk s" "k_password (rx_settle res s) = k_password s" "k_scan (rx_settle res s) = k_scan s"
  "k_parent (rx_settle res s) = k_parent s"
  by (simp_all add: rx_settle_def)

lemma mode_settle [simp]: "mode_ok (rx_settle res s) = mode_ok s"
  by (simp add: mode_ok_def)

text \<open>What is left after the keys are cleared, and after the peer station is released.\<close>

lemma clearKeys_sel [simp]:
  "k_state (clearKeys d s) = k_state s" "k_powered (clearKeys d s) = k_powered s" "k_scanReturnState (clearKeys d s) = k_scanReturnState s"
  "k_hw (clearKeys d s) = k_hw s" "k_vif (clearKeys d s) = k_vif s" "k_sta (clearKeys d s) = k_sta s"
  "k_targetBSS (clearKeys d s) = k_targetBSS s" "k_scan (clearKeys d s) = k_scan s" "k_connectTC (clearKeys d s) = k_connectTC s"
  "k_rxBa (clearKeys d s) = k_rxBa s" "k_ptkConf (clearKeys d s) = None" "k_gtkConf (clearKeys d s) = None"
  "k_pmk (clearKeys d s) = replicate 32 0" "k_ptk (clearKeys d s) = replicate 64 0" "k_password (clearKeys d s) = replicate 64 0"
  "stack_ok s \<Longrightarrow> stack_ok (clearKeys d s)" "k_parent (clearKeys d s) = k_parent s"
  by (simp_all add: clearKeys_def Let_def disable_slot_def stack_ok_def split: option.splits)

lemma releaseSta_sel [simp]:
  "k_state (releaseSta d s) = k_state s" "k_powered (releaseSta d s) = k_powered s" "k_scanReturnState (releaseSta d s) = k_scanReturnState s"
  "k_hw (releaseSta d s) = k_hw s" "k_vif (releaseSta d s) = k_vif s" "k_sta (releaseSta d s) = None"
  "k_targetBSS (releaseSta d s) = k_targetBSS s" "k_scan (releaseSta d s) = k_scan s" "k_ptkConf (releaseSta d s) = k_ptkConf s"
  "k_gtkConf (releaseSta d s) = k_gtkConf s" "k_pmk (releaseSta d s) = k_pmk s" "k_ptk (releaseSta d s) = k_ptk s"
  "k_password (releaseSta d s) = k_password s" "k_parent (releaseSta d s) = k_parent s"
  by (simp_all add: releaseSta_def Let_def rxBaTeardownAll_k_def)

lemma shape_clearKeys [simp]: "shape_ok s \<Longrightarrow> shape_ok (clearKeys d s)"
  by (auto simp: shape_ok_def hw_ok_def nets_ok_def held_len_def)

lemma shape_releaseSta [simp]: "shape_ok s \<Longrightarrow> shape_ok (releaseSta d s)"
  by (simp add: releaseSta_def Let_def)

lemma quiet_clear [simp]: "quiet_ok s \<Longrightarrow> quiet_ok (clearKeys d s)" "quiet_ok s \<Longrightarrow> quiet_ok (releaseSta d s)"
  by (simp_all add: quiet_ok_def)

lemma quiet_mgmt [simp]: "quiet_ok s \<Longrightarrow> quiet_ok (snd (txMgmtFrame d f s))"
  by (rule quiet_same [OF _ ]) simp_all

lemma doDisconnect_quiet: "quiet_ok s \<Longrightarrow> mlme_inv (doDisconnect d s)"
proof -
  assume q: "quiet_ok s"
  let ?t = "upd_vif deauth_vif (snd (txMgmtFrame d (deauth_frame (clearKeys d s)) (clearKeys d s)))"
  have t: "quiet_ok ?t" by (rule quiet_same [of "clearKeys d s"]) (use q in simp_all)
  have n: "\<not> (k_hw s = None \<or> k_vif s = None)" using q by (simp add: quiet_ok_def)
  have "doDisconnect d s = set_link False (emit FxTimerCancel (go_idle (releaseSta d
      (if d_ops d \<and> d_bss_info_changed d then emit (FxBssInfo False BSS_CHANGED_ASSOC) ?t else ?t))))"
    unfolding doDisconnect_def if_not_P [OF n] Let_def ..
  then show ?thesis
    using t by (simp only:) (rule idle_inv; simp add: go_idle_def set_link_def)
qed

lemma leave_network_inv: "quiet_ok s \<Longrightarrow> mlme_inv (leave_network d r s)"
proof -
  assume q: "quiet_ok s"
  let ?u = "(clearKeys d (s\<lparr>k_deauthReason := ucast r\<rparr>))\<lparr>k_txBaActive := False\<rparr>"
  have u: "quiet_ok ?u" using q by simp
  then have "shape_ok (rxBaTeardownAll_k ?u)" by (intro shape_teardown) (simp add: quiet_ok_def)
  then have "quiet_ok (rxBaTeardownAll_k ?u)" using u by (simp add: quiet_ok_def rxBaTeardownAll_k_def)
  then show ?thesis by (intro idle_inv) (simp_all add: leave_network_def Let_def go_idle_def set_link_def)
qed

section \<open>Power and scanning\<close>

lemma inv_powered: "mlme_inv s \<Longrightarrow> mlme_inv (s\<lparr>k_powered := True\<rparr>)"
  by (simp add: mlme_inv_def mode_ok_def)

lemma inv_emit [simp]: "mlme_inv (emit e s) = mlme_inv s"
  by (simp add: mlme_inv_def mode_ok_def)

lemma powerOn_inv: "mlme_inv s \<Longrightarrow> mlme_inv (snd (powerOn d s))"
  using inv_same [OF same_mode_multicast] inv_powered [of "emit FxHwStart s"]
  by (auto simp: powerOn_def Let_def split: option.splits)

lemma cmdPowerOn_inv: "mlme_inv s \<Longrightarrow> mlme_inv (snd (cmdPowerOn d s))"
proof -
  assume "mlme_inv s"
  then have i: "mlme_inv (snd (powerOn d s))" by (rule powerOn_inv)
  then have "k_state (snd (powerOn d s)) \<noteq> RTW88_STATE_DISCONNECTING" by (simp add: mlme_inv_def mode_ok_def)
  then have "snd (cmdPowerOn d s) = snd (powerOn d s)" by (simp add: cmdPowerOn_def case_prod_beta Let_def)
  then show ?thesis using i by simp
qed

lemma inv_ret: "mlme_inv s \<Longrightarrow> k_scanReturnState s = RTW88_STATE_IDLE"
  by (simp add: mlme_inv_def mode_ok_def)

lemma restore_none: "k_scanReturnState s = RTW88_STATE_IDLE \<Longrightarrow> restoreConnectedChannel s = Some s"
  by (simp add: restoreConnectedChannel_def)

lemma abort_begin_inv: "same_mode s (abort_begin d s)"
  using same_mode_cancel_scan by (simp add: abort_begin_def)

lemma scan_over_inv:
  assumes "mlme_inv s"
  shows "mlme_inv (s\<lparr>k_state := RTW88_STATE_IDLE, k_scanReturnState := RTW88_STATE_IDLE\<rparr>)"
  by (rule idle_inv) (use quiet_inv [OF assms] in simp_all)

lemma inv_misc [simp]:
  "mlme_inv (s\<lparr>k_manualScanChannelCount := n\<rparr>) = mlme_inv s" "mlme_inv (s\<lparr>k_manualScanAbort := b\<rparr>) = mlme_inv s"
  "mlme_inv (s\<lparr>k_manualScanOnHomeChannel := b\<rparr>) = mlme_inv s" "mlme_inv (s\<lparr>k_answers := a\<rparr>) = mlme_inv s"
  "mlme_inv (s\<lparr>k_timeoutMs := m\<rparr>) = mlme_inv s" "mlme_inv (s\<lparr>k_rxFrameCount := n\<rparr>) = mlme_inv s"
  "mlme_inv (s\<lparr>k_manualScanChannels := cs\<rparr>) = mlme_inv s" "mlme_inv (s\<lparr>k_scanRequest := b\<rparr>) = mlme_inv s"
  "mlme_inv (s\<lparr>k_connectCancelled := b\<rparr>) = mlme_inv s" "mlme_inv (s\<lparr>k_rssi := i\<rparr>) = mlme_inv s"
  by (simp_all add: mlme_inv_def mode_ok_def shape_ok_def stack_ok_def hw_ok_def nets_ok_def held_len_def)

lemma abort_end_inv:
  assumes "mlme_inv s"
  shows "\<exists>b s'. abort_end RTW88_STATE_IDLE s = Some (b, s') \<and> mlme_inv s'"
  using assms scan_over_inv [OF assms] by (auto simp: abort_end_def Let_def)

lemma age_out_subset: "(l', x, y) = age_out t g l c k \<Longrightarrow> set l' \<subseteq> set l"
  by (induction t g l c k arbitrary: l' x y rule: age_out.induct) (fastforce split: if_splits prod.splits)+

lemma shape_scan: "shape_ok s \<Longrightarrow> \<forall>b\<in>set (bssList db). bss_ok b \<Longrightarrow> shape_ok (s\<lparr>k_scan := db\<rparr>)"
  by (simp add: shape_ok_def stack_ok_def hw_ok_def nets_ok_def held_len_def)

lemma inv_scan: "mlme_inv s \<Longrightarrow> \<forall>b\<in>set (bssList db). bss_ok b \<Longrightarrow> mlme_inv (s\<lparr>k_scan := db\<rparr>)"
  using shape_scan by (simp add: mlme_inv_def mode_ok_def)

lemma aged_inv: "mlme_inv s \<Longrightarrow> mlme_inv (s\<lparr>k_scan := scan_done_age b t (k_scan s)\<rparr>)"
  by (rule inv_scan) (auto simp: scan_done_age_def mlme_inv_def shape_ok_def nets_ok_def dest: age_out_subset [OF sym] split: prod.splits)

lemma scanDone_inv:
  assumes "mlme_inv s"
  shows "\<exists>s'. scanDone b s = Some s' \<and> mlme_inv s'"
proof -
  define t where "t = s\<lparr>k_scan := scan_done_age b (scan_target s) (k_scan s)\<rparr>"
  have t: "mlme_inv t" "k_scanReturnState t = RTW88_STATE_IDLE" "k_state t = k_state s"
    using aged_inv [OF assms] inv_ret [OF assms] by (simp_all add: t_def)
  define u where "u = t\<lparr>k_state := RTW88_STATE_IDLE, k_scanReturnState := RTW88_STATE_IDLE, k_manualScanOnHomeChannel := False\<rparr>"
  have u: "mlme_inv u" using scan_over_inv [OF t(1)] by (simp add: u_def)
  have v: "mlme_inv (snd (setAWDLChannel n u))" for n using inv_same [OF same_mode_awdl_channel u] .
  show ?thesis
    unfolding scanDone_def Let_def t_def [symmetric]
    using t u v by (cases "k_state s = RTW88_STATE_SCANNING") (auto simp: u_def)
qed

lemma scan_begins_inv:
  assumes "mlme_inv s" "k_powered s"
  shows "mlme_inv (s\<lparr>k_scan := next_generation (k_scan s), k_scanReturnState := RTW88_STATE_IDLE, k_state := RTW88_STATE_SCANNING\<rparr>)"
proof -
  have "mlme_inv (s\<lparr>k_scan := next_generation (k_scan s)\<rparr>)"
    by (rule inv_scan) (use assms in \<open>auto simp: next_generation_def Let_def mlme_inv_def shape_ok_def nets_ok_def bss_ok_def\<close>)
  then show ?thesis using assms(2) by (simp add: mlme_inv_def mode_ok_def)
qed

text \<open>Every way out of \<open>cmdScan\<close>, from a state where it starts a scan: back to idle, or scanning.\<close>

lemma cmdScan_cases:
  assumes "k_state s = RTW88_STATE_IDLE" "k_powered s" "has_ops d s"
  obtains w r where
    "same_mode (s\<lparr>k_scan := next_generation (k_scan s), k_scanReturnState := RTW88_STATE_IDLE, k_state := RTW88_STATE_SCANNING\<rparr>) w"
    "snd (cmdScan d s) = snd (scan_fail r RTW88_STATE_IDLE w)"
  | w where
    "same_mode (s\<lparr>k_scan := next_generation (k_scan s), k_scanReturnState := RTW88_STATE_IDLE, k_state := RTW88_STATE_SCANNING\<rparr>) w"
    "snd (cmdScan d s) = w"
proof -
  define t where "t = s\<lparr>k_scan := next_generation (k_scan s), k_scanReturnState := RTW88_STATE_IDLE, k_state := RTW88_STATE_SCANNING\<rparr>"
  obtain ok u where u: "(if k_scanRequest t then (True, t) else ask t) = (ok, u)" by fastforce
  then have tu: "same_mode t u" by (auto split: if_splits)
  obtain cs w where w: "scan_channels (u\<lparr>k_scanRequest := True\<rparr>) = (cs, w)" by fastforce
  have tw: "same_mode t w" using same_mode_trans [OF _ same_mode_scan_channels [OF w], of t] tu by simp
  define x where "x = emit (FxHwScan cs) (w\<lparr>k_rxFrameCount := 0\<rparr>)"
  have tx: "same_mode t x" "same_mode t (snd (start_manual cs w))" "same_mode t (snd (start_manual cs x))"
      "same_mode t (emit (FxTimer 10000) (x\<lparr>k_timeoutMs := 10000\<rparr>))"
    using tw by (simp_all add: x_def start_manual_def Let_def)
  have code: "cmdScan d s = (if \<not> ok then scan_fail NoMemory RTW88_STATE_IDLE u
      else if cs = [] then scan_fail NotReady RTW88_STATE_IDLE w
      else case d_hw_scan d of
             None \<Rightarrow> if \<not> k_manualScanTC w then scan_fail NotReady RTW88_STATE_IDLE w else start_manual cs w
           | Some ret \<Rightarrow>
             if \<not> d_scan_supported d then
               (if \<not> k_manualScanTC w then scan_fail NotReady RTW88_STATE_IDLE w else start_manual cs w)
             else if ret \<noteq> 0 then (if k_manualScanTC x then start_manual cs x else scan_fail IOError RTW88_STATE_IDLE x)
                else (IOSuccess, emit (FxTimer 10000) (x\<lparr>k_timeoutMs := 10000\<rparr>)))"
    using assms u w unfolding cmdScan_def t_def x_def by (auto simp: Let_def split: option.splits)
  note ways = that [folded t_def]
  have "(\<exists>r v. same_mode t v \<and> cmdScan d s = scan_fail r RTW88_STATE_IDLE v) \<or> same_mode t (snd (cmdScan d s))"
    unfolding code using tu tw tx by (cases ok; cases "cs = []"; cases "d_hw_scan d") auto
  then show thesis using ways by auto
qed

lemma cmdScan_inv:
  assumes "mlme_inv s"
  shows "mlme_inv (snd (cmdScan d s))"
proof (cases "k_state s = RTW88_STATE_IDLE \<and> k_powered s \<and> has_ops d s")
  case True
  then have go: "k_state s = RTW88_STATE_IDLE" "k_powered s" "has_ops d s" by simp_all
  note b = scan_begins_inv [OF assms go(2)]
  show ?thesis
  proof (cases rule: cmdScan_cases [OF go])
    case (1 w r)
    then show ?thesis using scan_over_inv [OF inv_same [OF 1(1) b]] by (simp add: scan_fail_def)
  next
    case (2 w)
    then show ?thesis using inv_same [OF 2(1) b] by simp
  qed
qed (use assms in \<open>auto simp: cmdScan_def\<close>)

lemma inv_stack: "mlme_inv s \<Longrightarrow> stack_ok s"
  by (simp add: mlme_inv_def shape_ok_def)

lemma restore_inv [simp]: "mlme_inv s \<Longrightarrow> restoreConnectedChannel s = Some s"
  using inv_ret restore_none by blast

lemma inv_null [simp]: "mlme_inv s \<Longrightarrow> mlme_inv (snd (txNullFunc d b s))"
  by (rule inv_same) simp_all

lemma txProbeRequest_total: "stack_ok s \<Longrightarrow> \<exists>r. txProbeRequest d s = Some r"
  using stack_okD(1) [of s] by (auto simp: txProbeRequest_def Let_def skb_frame_def rates_2g_def rates_5g_def)

lemma mscan_begin_inv:
  assumes "mlme_inv s"
  shows "\<exists>r s'. mscan_begin s = Some (r, s') \<and> mlme_inv s'"
  using assms scanDone_inv [OF assms, of True] by (auto simp: mscan_begin_def)

lemma mscan_leave_inv: "mlme_inv s \<Longrightarrow> \<exists>s'. mscan_leave d conn s = Some s' \<and> mlme_inv s'"
  by (auto simp: mscan_leave_def Let_def)

lemma mscan_home_inv: "mlme_inv s \<Longrightarrow> \<exists>s'. mscan_home d conn s = Some s' \<and> mlme_inv s'"
  by (auto simp: mscan_home_def)

lemma inv_hw: "mlme_inv s \<Longrightarrow> k_hw s \<noteq> None" "mlme_inv s \<Longrightarrow> k_vif s \<noteq> None"
  by (simp_all add: mlme_inv_def mode_ok_def)

lemma mscan_visit_inv:
  assumes "mlme_inv s"
  shows "\<exists>s'. mscan_visit d chan s = Some s' \<and> mlme_inv s'"
proof -
  let ?t = "emit (FxSwScanSwitch chan) (tune chan s)"
  have t: "mlme_inv ?t" using inv_same [OF same_mode_tune assms] by simp
  obtain r where r: "txProbeRequest d ?t = Some r" using txProbeRequest_total [OF inv_stack [OF t]] by blast
  then have "mlme_inv (snd r)" using inv_same [OF same_mode_probe t] by blast
  then show ?thesis using t r inv_hw(1) [OF assms] by (simp add: mscan_visit_def Let_def)
qed

lemma mscan_finish_inv:
  assumes "mlme_inv s"
  shows "\<exists>s'. mscan_finish d conn s = Some s' \<and> mlme_inv s'"
proof -
  define t where "t = emit FxSwScanComplete (s\<lparr>k_manualScanOnHomeChannel := False\<rparr>)"
  have t: "mlme_inv t" using assms by (simp add: t_def)
  define u where "u = (if conn then snd (txNullFunc d False t) else t)"
  have u: "(if conn then do { s \<leftarrow> restoreConnectedChannel t; Some (snd (txNullFunc d False s)) } else Some t) = Some u" "mlme_inv u"
    using t restore_inv [OF t] by (simp_all add: u_def)
  obtain v where v: "scanDone (k_manualScanAbort u) u = Some v" "mlme_inv v" using scanDone_inv [OF u(2)] by blast
  show ?thesis unfolding mscan_finish_def Let_def t_def [symmetric] u(1) bind.bind_lunit v(1) using v(2) by simp
qed

section \<open>Connecting\<close>

lemma cmdConnect_inv:
  assumes "mlme_inv s" and args: "\<forall>m. ca_pmk a = Some m \<longrightarrow> length m = 32"
  shows "mlme_inv (snd (cmdConnect d a s))"
proof (cases "k_state s \<noteq> RTW88_STATE_IDLE \<or> (case ca_ssid a of None \<Rightarrow> True | Some x \<Rightarrow> x = [] \<or> length x > 32) \<or> \<not> k_powered s \<or> \<not> k_connectTC s")
  case True
  then have "snd (cmdConnect d a s) = s" by (auto simp: cmdConnect_def split: option.splits)
  then show ?thesis using assms(1) by simp
next
  case False
  then obtain ssid where ssid: "ca_ssid a = Some ssid" "\<not> (ssid = [] \<or> length ssid > 32)" by (auto split: option.splits)
  define t where "t = releaseSta d (clearKeys d s)"
  have t: "quiet_ok t" "k_state t = RTW88_STATE_IDLE" "k_scanReturnState t = RTW88_STATE_IDLE" "k_powered t" "k_sta t = None"
    using quiet_inv [OF assms(1)] inv_ret [OF assms(1)] False by (simp_all add: t_def)
  note code = cmdConnect_def [of d a s, unfolded ssid(1) option.case if_not_P [OF ssid(2)] Let_def, folded t_def]
  show ?thesis
  proof (cases "find (matches ssid (ca_bssid a)) (bssList (k_scan t))")
    case None
    then have "snd (cmdConnect d a s) = t" unfolding code using False by simp
    then show ?thesis using idle_inv t by simp
  next
    case (Some b)
    have "b \<in> set (bssList (k_scan t))" using Some by (metis (no_types) find_Some_iff nth_mem)
    then have b: "bss_ok b" using t(1) by (auto simp: quiet_ok_def shape_ok_def nets_ok_def)
    define u where "u = t\<lparr>k_targetBSS := b\<rparr>"
    have u: "shape_ok u" "mlme_inv u"
      using t b by (auto simp: u_def quiet_ok_def shape_ok_def stack_ok_def hw_ok_def nets_ok_def held_len_def intro!: idle_inv)
    define v where "v = u\<lparr>k_externalSupplicant := ca_external a, k_pmkProvided := ca_pmk a \<noteq> None,
      k_pmk := (case ca_pmk a of None \<Rightarrow> k_pmk u | Some m \<Rightarrow> m),
      k_password := copy_password (case ca_password a of None \<Rightarrow> [] | Some p \<Rightarrow> p) (k_password u),
      k_wpa2 := b_cipher b = WLAN_CIPHER_SUITE_CCMP, k_deauthReason := 0,
      k_connectCancelled := False, k_state := RTW88_STATE_AUTHENTICATING\<rparr>"
    have "length (copy_password p q) = 64" if "length q = 64" for p q using that by (simp add: copy_password_def Let_def)
    then have "shape_ok v" using u(1) args
      by (auto simp: v_def shape_ok_def stack_ok_def hw_ok_def nets_ok_def held_len_def split: option.splits)
    moreover have "k_hw v \<noteq> None" "k_vif v \<noteq> None" "k_powered v" "k_sta v = None" "k_scanReturnState v = RTW88_STATE_IDLE" "k_state v = RTW88_STATE_AUTHENTICATING"
      using t by (simp_all add: v_def u_def quiet_ok_def)
    ultimately have "mlme_inv v" by (simp add: mlme_inv_def mode_ok_def)
    moreover have "snd (cmdConnect d a s) = (if unsupported_bss a b then u else emit FxEnterConnect v)"
      unfolding code v_def u_def using False Some by simp
    ultimately show ?thesis using u(2) by simp
  qed
qed

text \<open>The sections of \<open>doAuthenticate\<close>.\<close>

lemma channel_then_inv:
  assumes "mlme_inv s" "find_channel P s = (c, t)"
  shows "\<exists>u. (case c of None \<Rightarrow> Some t | Some chan \<Rightarrow> setConnectedChandef chan t) = Some u \<and> mlme_inv u"
proof (cases c)
  case None
  then show ?thesis using inv_same [OF same_mode_find [OF assms(2)] assms(1)] by simp
next
  case (Some chan)
  have t: "mlme_inv t" using inv_same [OF same_mode_find [OF assms(2)] assms(1)] .
  obtain hw where hw: "k_hw t = Some hw" using inv_hw(1) [OF t] by blast
  obtain u where "setConnectedChandef chan t = Some u" using setConnectedChandef_result [OF inv_stack [OF t] hw] by blast
  then show ?thesis using inv_same [OF same_mode_chandef t] Some by auto
qed

lemma auth_channel_inv:
  assumes "mlme_inv s"
  shows "\<exists>s'. auth_channel s = Some s' \<and> mlme_inv s'"
proof -
  obtain c t where ct: "find_channel (\<lambda>c. ch_hw_value c = ucast (b_channel (k_targetBSS s))) s = (c, t)" by fastforce
  obtain u where "(case c of None \<Rightarrow> Some t | Some chan \<Rightarrow> setConnectedChandef chan t) = Some u" "mlme_inv u"
    using channel_then_inv [OF assms ct] by blast
  then show ?thesis using inv_hw(1) [OF assms] by (simp add: auth_channel_def ct)
qed

lemma inv_mgmt [simp]: "mlme_inv s \<Longrightarrow> mlme_inv (snd (txMgmtFrame d f s))"
  by (rule inv_same) simp_all

lemma inv_vif: "mlme_inv s \<Longrightarrow> mlme_inv (upd_vif f s)"
  by (rule inv_same) simp_all

lemma inv_seq: "mlme_inv s \<Longrightarrow> mlme_inv (next_txSeq s)"
  by (rule inv_same) simp_all

lemma auth_send_inv:
  assumes "mlme_inv s"
  shows "\<exists>s'. auth_send d s = Some s' \<and> mlme_inv s'"
proof (cases "authenticationCancelled s")
  case True
  then show ?thesis using assms by (simp add: auth_send_def)
next
  case False
  define t where "t = upd_vif (auth_bss (b_bssid (k_targetBSS s))) s"
  have t: "mlme_inv t" using inv_vif [OF assms] by (simp add: t_def)
  let ?f = "mgmt_hdr IEEE80211_STYPE_AUTH t @ [0, 0, 1, 0, 0, 0]"
  have b: "buildAuthReq t = Some (?f, next_txSeq t)" using length_mgmt_hdr [OF inv_stack [OF t]] by (simp add: buildAuthReq_def skb_frame_def)
  note n = inv_seq [OF t]
  show ?thesis
    unfolding auth_send_def Let_def if_not_P [OF False] if_not_P [OF inv_hw(2) [OF assms]] t_def [symmetric] b bind.bind_lunit
    using n inv_mgmt [OF n] by simp
qed

lemma auth_arm_inv: "mlme_inv s \<Longrightarrow> mlme_inv (auth_arm s)"
  by (simp add: auth_arm_def)

text \<open>The association.\<close>

lemma state_inv:
  assumes "mlme_inv s" "k_state s = RTW88_STATE_AUTHENTICATING \<or> k_state s = RTW88_STATE_ASSOCIATING"
  shows "mlme_inv (s\<lparr>k_state := RTW88_STATE_ASSOCIATING\<rparr>)"
  using assms unfolding mlme_inv_def mode_ok_def by (elim disjE) simp_all

lemma rsn_fits_same: "same_mode s s' \<Longrightarrow> rsn_fits s' = rsn_fits s"
  using same_modeD(9,13) [of s s'] by (simp add: rsn_fits_def)

lemma inv_idle_state: "mlme_inv s \<Longrightarrow> mlme_inv (s\<lparr>k_state := RTW88_STATE_IDLE\<rparr>)"
  by (rule idle_inv) (use quiet_inv inv_ret in simp_all)

lemma doAssociate_inv:
  assumes "mlme_inv s" "k_state s = RTW88_STATE_AUTHENTICATING" "rsn_fits s"
  shows "\<exists>s'. doAssociate d s = Some s' \<and> mlme_inv s'"
proof (cases "authenticationCancelled s")
  case True
  then show ?thesis using assms(1) by (simp add: doAssociate_def)
next
  case False
  have hw: "\<not> (k_hw s = None \<or> k_vif s = None)" using inv_hw [OF assms(1)] by blast
  have ok: "stack_ok s" "hw_ok s" using assms(1) by (simp_all add: mlme_inv_def shape_ok_def)
  let ?f = "assoc_front s @ concat (map enc_el (assoc_elements s))"
  have b: "buildAssocReq s = Some (?f, next_txSeq s)"
    using buildAssocReq_code(1,3) [OF ok] assms(3) length_assoc_front [OF ok(1)] by (simp add: Let_def)
  define t where "t = (next_txSeq s)\<lparr>k_state := RTW88_STATE_ASSOCIATING\<rparr>"
  have t: "mlme_inv t" using state_inv [OF inv_seq [OF assms(1)]] assms(2) by (simp add: t_def next_txSeq_def)
  obtain r u where u: "txMgmtFrame d ?f t = (r, u)" by fastforce
  have ui: "mlme_inv u" using inv_mgmt [OF t, of d ?f] unfolding u by simp
  have "doAssociate d s = (if \<not> r then Some (u\<lparr>k_state := RTW88_STATE_IDLE\<rparr>)
      else if authenticationCancelled u \<or> k_state u \<noteq> RTW88_STATE_ASSOCIATING then Some u else Some (emit (FxTimer 3000) u))"
    unfolding doAssociate_def if_not_P [OF hw] if_not_P [OF False] b bind.bind_lunit Let_def prod.case t_def [symmetric] u ..
  then show ?thesis using ui inv_idle_state [OF ui] by simp
qed

lemma add_sta_inv:
  assumes "mlme_inv s" "k_state s = RTW88_STATE_ASSOCIATING"
  shows "quiet_ok (add_sta d aid s)" "k_state (add_sta d aid s) = RTW88_STATE_ASSOCIATING" "k_scanReturnState (add_sta d aid s) = RTW88_STATE_IDLE"
    "k_powered (add_sta d aid s)" "k_ptkConf (add_sta d aid s) = k_ptkConf s" "k_wpa2 (add_sta d aid s) = k_wpa2 s"
    "k_externalSupplicant (add_sta d aid s) = k_externalSupplicant s" "shape_ok (add_sta d aid s)" "k_hw (add_sta d aid s) = k_hw s"
proof -
  have s: "quiet_ok s" "shape_ok s" "k_powered s" "k_sta s = None" "k_scanReturnState s = RTW88_STATE_IDLE"
    using quiet_inv [OF assms(1)] assms by (simp_all add: mlme_inv_def mode_ok_def)
  have a: "sta_addr (peer_sta aid t) = b_bssid (k_targetBSS t)" for t by (simp add: peer_sta_def Let_def)
  show "quiet_ok (add_sta d aid s)" "k_state (add_sta d aid s) = RTW88_STATE_ASSOCIATING" "k_scanReturnState (add_sta d aid s) = RTW88_STATE_IDLE"
    "k_powered (add_sta d aid s)" "k_ptkConf (add_sta d aid s) = k_ptkConf s" "k_wpa2 (add_sta d aid s) = k_wpa2 s"
    "k_externalSupplicant (add_sta d aid s) = k_externalSupplicant s" "shape_ok (add_sta d aid s)" "k_hw (add_sta d aid s) = k_hw s"
    using s assms(2) by (simp_all add: add_sta_def Let_def quiet_ok_def a)
qed

lemma same_mode_notify [simp]: "same_mode s (notify_assoc d aid t) = same_mode s t"
  by (simp add: notify_assoc_def)

lemma joined_inv:
  assumes "quiet_ok s" "k_powered s" "k_scanReturnState s = RTW88_STATE_IDLE"
  shows "k_wpa2 s \<and> \<not> k_externalSupplicant s \<Longrightarrow> mlme_inv (s\<lparr>k_state := RTW88_STATE_HANDSHAKING\<rparr>)"
    "\<not> (k_wpa2 s \<and> \<not> k_externalSupplicant s) \<Longrightarrow> mlme_inv (s\<lparr>k_state := RTW88_STATE_CONNECTED\<rparr>)"
  using assms by (auto simp: mlme_inv_def mode_ok_def quiet_ok_def)

lemma inv_pmk: "mlme_inv s \<Longrightarrow> length m = 32 \<Longrightarrow> mlme_inv (s\<lparr>k_pmk := m\<rparr>)"
  by (simp add: mlme_inv_def mode_ok_def shape_ok_def stack_ok_def hw_ok_def nets_ok_def held_len_def)

lemma inv_link [simp]: "mlme_inv (set_link b s) = mlme_inv s"
  by (simp add: set_link_def)

lemma pmk_total:
  assumes "stack_ok s" "sha_stack c"
  obtains m where "derivePMK c (cstr (k_password s)) (b_ssid (k_targetBSS s)) (unat (b_ssid_len (k_targetBSS s))) = Some m" "length m = 32"
proof -
  have "length (cstr (k_password s)) \<le> length (k_password s)" unfolding cstr_def by (rule length_takeWhile_le)
  moreover have "length (k_password s) = 64" using assms(1) by (simp add: stack_ok_def)
  moreover have "bss_ok (k_targetBSS s)" using stack_okD(2) [OF assms(1)] .
  ultimately have "derivePMK c (cstr (k_password s)) (b_ssid (k_targetBSS s)) (unat (b_ssid_len (k_targetBSS s)))
      = Some (std_pbkdf2 (cstr (k_password s)) (take (unat (b_ssid_len (k_targetBSS s))) (b_ssid (k_targetBSS s))) 4095 32)"
    by (intro derivePMK_std [OF assms(2)]) (auto elim!: bss_okE)
  then show thesis by (rule that) (simp add: std_pbkdf2_def)
qed

lemma associated_inv:
  assumes "mlme_inv s" "k_state s = RTW88_STATE_ASSOCIATING" "sha_stack c"
  shows "\<exists>s'. associated c d aid s = Some s' \<and> mlme_inv s'"
proof -
  define t where "t = notify_assoc d aid (add_sta d aid (s\<lparr>k_assocAID := aid\<rparr>))"
  have s1: "mlme_inv (s\<lparr>k_assocAID := aid\<rparr>)" "k_state (s\<lparr>k_assocAID := aid\<rparr>) = RTW88_STATE_ASSOCIATING"
    using inv_same [of s "s\<lparr>k_assocAID := aid\<rparr>"] assms(1,2) by simp_all
  note a = add_sta_inv [OF s1, of d aid]
  have m: "same_mode (add_sta d aid (s\<lparr>k_assocAID := aid\<rparr>)) t" by (simp add: t_def)
  have t: "quiet_ok t" "k_powered t" "k_scanReturnState t = RTW88_STATE_IDLE" using quiet_same [OF m a(1)] same_modeD(2,3) [OF m] a(3,4) by simp_all
  note j = joined_inv [OF t]
  have hw: "k_hw s \<noteq> None" using inv_hw [OF assms(1)] by blast
  note code = associated_def [of c d aid s, unfolded if_not_P [OF hw] Let_def, folded t_def]
  show ?thesis
  proof (cases "k_wpa2 t \<and> \<not> k_externalSupplicant t")
    case True
    define u where "u = t\<lparr>k_state := RTW88_STATE_HANDSHAKING\<rparr>"
    have u: "mlme_inv u" unfolding u_def by (rule j(1) [OF True])
    obtain k where k: "derivePMK c (cstr (k_password u)) (b_ssid (k_targetBSS u)) (unat (b_ssid_len (k_targetBSS u))) = Some k" "length k = 32"
      using pmk_total [OF inv_stack [OF u] assms(3)] by blast
    show ?thesis unfolding code if_P [OF True] u_def [symmetric] using u k inv_pmk [OF u k(2)] by auto
  next
    case False
    define u where "u = set_link True (t\<lparr>k_state := RTW88_STATE_CONNECTED\<rparr>)"
    have u: "mlme_inv u" unfolding u_def inv_link by (rule j(2) [OF False])
    have "mlme_inv (startTxAggregation d u)" by (rule inv_same [OF _ u]) simp
    then show ?thesis unfolding code if_not_P [OF False] u_def [symmetric] using u by simp
  qed
qed

lemma responses_total:
  assumes "stack_ok s"
  shows "\<exists>r. rtw88AuthResponse (Some f) (length f) (Some (k_macAddr s)) (Some (b_bssid (k_targetBSS s))) True = Some r"
    "\<exists>r. rtw88AssocResponse (Some f) (length f) (Some (k_macAddr s)) (Some (b_bssid (k_targetBSS s))) True True = Some r"
proof -
  have P: "rtw88ResponsePeer (Some f) (length f) (Some (k_macAddr s)) (Some (b_bssid (k_targetBSS s))) = Some (30 \<le> length f
      \<and> block f 4 6 = k_macAddr s \<and> block f 10 6 = b_bssid (k_targetBSS s) \<and> block f 16 6 = b_bssid (k_targetBSS s))"
    using stack_okD(1,3) [OF assms] by (intro response_peer_result) simp_all
  have R: "30 \<le> length f \<Longrightarrow> i < 30 \<Longrightarrow> rd f i = Some (f ! i)" for i by simp
  show "\<exists>r. rtw88AuthResponse (Some f) (length f) (Some (k_macAddr s)) (Some (b_bssid (k_targetBSS s))) True = Some r"
    "\<exists>r. rtw88AssocResponse (Some f) (length f) (Some (k_macAddr s)) (Some (b_bssid (k_targetBSS s))) True True = Some r"
    by (auto simp: rtw88AuthResponse_def rtw88AssocResponse_def P R Let_def)
qed

lemma inv_free [simp]: "mlme_inv (free_skb s) = mlme_inv s"
  by (simp add: free_skb_def)

lemma processAssocResponse_inv:
  assumes "mlme_inv s" "k_state s = RTW88_STATE_ASSOCIATING" "sha_stack c"
  shows "\<exists>s'. processAssocResponse c d f s = Some s' \<and> mlme_inv s'"
proof -
  obtain v out where r: "rtw88AssocResponse (Some f) (length f) (Some (k_macAddr s)) (Some (b_bssid (k_targetBSS s))) True True = Some (v, out)"
    using responses_total(2) [OF inv_stack [OF assms(1)], of f] by auto
  define t where "t = free_skb s"
  have t: "mlme_inv t" "k_state t = RTW88_STATE_ASSOCIATING" using assms by (simp_all add: t_def, simp add: free_skb_def)
  show ?thesis
    unfolding processAssocResponse_def r bind.bind_lunit prod.case Let_def t_def [symmetric]
    using t inv_idle_state [OF t(1)] associated_inv [OF t assms(3), of d] by (auto split: option.split prod.split)
qed

section \<open>Commands\<close>

lemma cmdDisconnect_inv: "mlme_inv s \<Longrightarrow> mlme_inv (snd (cmdDisconnect d s))"
  using doDisconnect_quiet [OF quiet_inv] by (simp add: cmdDisconnect_def)

lemma cancel_inv: "mlme_inv s \<Longrightarrow> mlme_inv (cancelAuthentication s)"
  by (simp add: cancelAuthentication_def Let_def)

lemma powerOff_quiet: "quiet_ok s \<Longrightarrow> quiet_ok (powerOff d s)"
  by (simp add: powerOff_def)

lemma cmdPowerOff_inv:
  assumes "mlme_inv s"
  shows "mlme_inv (snd (cmdPowerOff d ok s))"
proof -
  have "quiet_ok (doDisconnect d s)" "quiet_ok (releaseSta d (clearKeys d s))"
    using quiet_inv [OF doDisconnect_quiet [OF quiet_inv [OF assms]]] quiet_inv [OF assms] by simp_all
  then show ?thesis using assms go_idle_inv powerOff_quiet by (simp add: cmdPowerOff_def Let_def)
qed

lemma install_inv:
  assumes "mlme_inv s" "k_externalSupplicant s" "installKey d pw i cipher tk s = (ok, s')"
  shows "mlme_inv s'"
proof -
  note e = installKey_effect [OF assms(3)]
  note h = hs_coreD [OF e(8)]
  have "shape_ok s'" using assms(1) e(1) h hw_ok_hw [of s' s] by (simp add: mlme_inv_def shape_ok_def nets_ok_def held_len_def)
  then show ?thesis using assms(1,2) e(2) h unfolding mlme_inv_def mode_ok_def by simp
qed

lemma cmdInstallExternalKey_inv:
  assumes "mlme_inv s"
  shows "mlme_inv (snd (cmdInstallExternalKey d pw i cipher key s))"
proof (cases "k_externalSupplicant s \<and> (\<exists>tk. key = Some tk \<and> tk \<noteq> [])")
  case True
  then obtain tk where tk: "key = Some tk" by blast
  have "mlme_inv (snd (installKey d pw i cipher tk s))" using install_inv [OF assms] True by (metis prod.collapse)
  then show ?thesis using assms by (auto simp: cmdInstallExternalKey_def tk case_prod_beta Let_def)
next
  case False
  then have "snd (cmdInstallExternalKey d pw i cipher key s) = s" by (auto simp: cmdInstallExternalKey_def split: option.splits)
  then show ?thesis using assms by simp
qed

lemma cmdSetAssocRsnIE_inv:
  assumes "mlme_inv s" "cmdSetAssocRsnIE ie n s = Some (r, s')"
  shows "mlme_inv s'"
proof -
  consider "s' = s" | x where "\<not> n > 257" "\<not> unat n > length x"
      "s' = s\<lparr>k_assocRsnIE := take (unat n) x @ replicate (257 - unat n) 0, k_assocRsnIELen := n\<rparr>"
  proof (cases "s' = s \<or> ie = None \<or> n < 2 \<or> n > 257")
    case True
    then show thesis using assms(2) that(1) by (auto simp: cmdSetAssocRsnIE_def split: option.splits)
  next
    case False
    then obtain x where x: "ie = Some x" "s' \<noteq> s" and n: "\<not> (n < 2 \<or> n > 257)" by (cases ie) auto
    note c = assms(2) [unfolded cmdSetAssocRsnIE_def x(1) option.case if_not_P [OF n]]
    then obtain i0 where i0: "rd x 0 = Some i0" by (cases "rd x 0") simp_all
    note c = c [unfolded i0 bind.bind_lunit]
    then have "\<not> i0 \<noteq> 48" using x(2) by (cases "i0 = 48") simp_all
    note c = c [unfolded if_not_P [OF this]]
    then obtain i1 where i1: "rd x 1 = Some i1" by (cases "rd x 1") simp_all
    note c = c [unfolded i1 bind.bind_lunit]
    then have "\<not> ucast i1 + 2 \<noteq> n" using x(2) by (cases "ucast i1 + 2 = n") (simp_all only: simp_thms if_True if_False option.inject prod.inject)
    note c = c [unfolded if_not_P [OF this]]
    then have "\<not> unat n > length x" by (cases "unat n > length x") simp_all
    with c show thesis using that(2) [of x] n by simp
  qed
  then show ?thesis
  proof cases
    case (2 x)
    then have "length (take (unat n) x @ replicate (257 - unat n) (0 :: u8)) = 257" by (simp add: word_less_nat_alt)
    then show ?thesis using assms(1) unfolding 2(3)
      by (simp add: mlme_inv_def mode_ok_def shape_ok_def stack_ok_def hw_ok_def nets_ok_def held_len_def)
  qed (use assms(1) in simp)
qed

section \<open>Received frames\<close>

lemma rx_auth_inv:
  assumes "mlme_inv s" "rsn_fits s"
  shows "\<exists>s'. rx_auth d f s = Some s' \<and> mlme_inv s'"
proof -
  obtain r where r: "rtw88AuthResponse (Some f) (length f) (Some (k_macAddr s)) (Some (b_bssid (k_targetBSS s))) True = Some r"
    using responses_total(1) [OF inv_stack [OF assms(1)], of f] by auto
  have i: "mlme_inv ((emit FxTimerCancel s)\<lparr>k_state := RTW88_STATE_IDLE\<rparr>)" by (rule inv_idle_state) (simp add: assms)
  show ?thesis
    unfolding rx_auth_def r bind.bind_lunit using i assms doAssociate_inv [OF assms(1) _ assms(2), of d] by (auto split: option.split)
qed

lemma rx_deauth_inv:
  assumes "mlme_inv s" "24 \<le> length f"
  shows "\<exists>s'. rx_deauth d f s = Some s' \<and> mlme_inv s'"
proof -
  have b: "\<exists>b. is_broadcast_ether_addr (block f 4 6) = Some b"
    using assms(2) is_broadcast_iff [of "block f 4 6"] by (simp add: buf_simps)
  have r: "\<exists>x. (if length f \<ge> 26 then rd16 f 24 else Some 0) = Some x" by (simp add: rd16_def)
  show ?thesis
    using b r assms leave_network_inv [OF quiet_inv [OF assms(1)]] unfolding rx_deauth_def by (auto simp: Let_def)
qed

lemma handleBackAction_inv:
  assumes "mlme_inv s"
  shows "\<exists>s'. handleBackAction d b s = Some s' \<and> mlme_inv s'"
proof -
  have m: "mlme_inv t" if "shape_ok t" "mode_ok t = mode_ok s" for t using that assms by (simp add: mlme_inv_def)
  have k: "mode_ok (t\<lparr>k_txBaActive := x\<rparr>) = mode_ok t" "mode_ok (t\<lparr>k_answers := as\<rparr>) = mode_ok t" for t x as by (simp_all add: mode_ok_def)
  have sh: "shape_ok s" using assms by (simp add: mlme_inv_def)
  have i: "mlme_inv (rxBaSetup_k t n z s)" "mlme_inv (rxBaTeardown_k t s)" "mlme_inv (s\<lparr>k_txBaActive := x\<rparr>)"
    "mlme_inv (rxBaTeardown_k t (s\<lparr>k_txBaActive := x\<rparr>))" for t n z x
  proof -
    show "mlme_inv (rxBaSetup_k t n z s)" by (rule m) (use sh k in \<open>simp_all, simp add: rxBaSetup_k_def Let_def\<close>)
    show "mlme_inv (rxBaTeardown_k t s)" by (rule m) (use sh k in \<open>simp_all, simp add: rxBaTeardown_k_def\<close>)
    show "mlme_inv (s\<lparr>k_txBaActive := x\<rparr>)" by (rule m) (use sh k in simp_all)
    show "mlme_inv (rxBaTeardown_k t (s\<lparr>k_txBaActive := x\<rparr>))" by (rule m) (use sh k in \<open>simp_all, simp add: rxBaTeardown_k_def\<close>)
  qed
  have a: "mlme_inv (sendAddbaResponse d t n p q u)" if "mlme_inv u" for t n p q u
    by (rule inv_same [OF _ that]) (simp add: sendAddbaResponse_def Let_def)
  have r: "length b \<ge> 9 \<Longrightarrow> j < 8 \<Longrightarrow> \<exists>x. rd16 b j = Some x" "length b \<ge> 6 \<Longrightarrow> \<exists>x. rd16 b 2 = Some x" for j by (simp_all add: rd16_def)
  show ?thesis
    using assms i a r(1) [of 3] r(1) [of 5] r(1) [of 7] r(2)
    unfolding handleBackAction_def by (auto simp: Let_def)
qed

end
