(* ===== verification/Interleave.thy ===== *)
theory Interleave
  imports LinkState
begin

text \<open>
  The connection state machine under concurrency. The receive path, the timers, the driver's notifications, any number
  of callers, the connect thread and the manual scan thread interleave at the points where the code sleeps or waits;
  \<open>link_step\<close> is one section of one of them. The section between two such points is one step, as the code assumes: it
  takes no lock around \<open>_state\<close>.
\<close>

section \<open>Frames from the driver\<close>

lemma replace_bss_subset: "replace_bss b l = Some l' \<Longrightarrow> set l' \<subseteq> insert b (set l)"
  by (induction l arbitrary: l') (auto split: if_splits, blast?)

lemma store_bss_nets: "bss_ok b \<Longrightarrow> \<forall>e\<in>set (bssList db). bss_ok e \<Longrightarrow> e \<in> set (bssList (store_bss b db)) \<Longrightarrow> bss_ok e"
  by (auto simp: store_bss_def split: option.splits dest: replace_bss_subset)

lemma rx_scan_inv:
  assumes "mlme_inv s"
  shows "\<exists>s'. rx_scan skb s = Some s' \<and> mlme_inv s'"
proof -
  define m t where "m = (length (f_data skb) < 36 \<or> answer s)" and "t = (if length (f_data skb) < 36 then s else s\<lparr>k_answers := tl (k_answers s)\<rparr>)"
  have mt: "(if length (f_data skb) < 36 then (True, s) else ask s) = (m, t)" by (simp add: m_def t_def)
  have t: "mlme_inv t" using assms by (simp add: t_def)
  then have nets: "\<forall>b\<in>set (bssList (k_scan t)). bss_ok b" by (simp add: mlme_inv_def shape_ok_def nets_ok_def)
  have "\<exists>db. processScanResult m (Some (f_data skb)) (f_rxs skb) (k_scan t) = Some db \<and> (\<forall>b\<in>set (bssList db). bss_ok b)"
  proof (cases "36 \<le> length (f_data skb) \<and> m")
    case False
    then show ?thesis using nets by (cases "length (f_data skb) < 36") (auto simp: processScanResult_def free_frame_def)
  next
    case True
    then obtain b where "parse_beacon (f_data skb) (f_rxs skb) (scanGeneration (k_scan t)) = Some b" "bss_ok b"
      using parse_beacon_ok by metis
    then show ?thesis using True nets store_bss_nets [of b "(k_scan t)\<lparr>bss_blocks := bss_blocks (k_scan t) + 1\<rparr>"]
      by (auto simp: processScanResult_def free_frame_def)
  qed
  then obtain db where db: "processScanResult m (Some (f_data skb)) (f_rxs skb) (k_scan t) = Some db" "\<forall>b\<in>set (bssList db). bss_ok b" by blast
  show ?thesis unfolding rx_scan_def Let_def mt prod.case db(1) using inv_scan [OF t db(2)] by simp
qed

lemma rx_action_inv:
  assumes "mlme_inv s" "24 \<le> length f"
  shows "\<exists>s'. rx_action d f s = Some s' \<and> mlme_inv s'"
  using assms handleBackAction_inv [OF assms(1), of d "drop 24 f"] by (auto simp: rx_action_def)

lemma inject_inv: "mlme_inv s \<Longrightarrow> mlme_inv (inject_action skb s)"
  by (simp add: inject_action_def)

lemma processRxMgmt_inv:
  assumes "mlme_inv s" "rsn_fits s" "sha_stack c" "24 \<le> length (f_data skb)"
  shows "\<exists>s'. processRxMgmt c d skb s = Some s' \<and> mlme_inv s'"
proof -
  obtain fc where fc: "frame_control_of (f_data skb) = Some fc" using frame_control_24 [OF assms(4)] by blast
  have free: "\<exists>s'. map_option free_skb r = Some s' \<and> mlme_inv s'" if "\<exists>s'. r = Some s' \<and> mlme_inv s'" for r using that by auto
  note parts = rx_scan_inv [OF assms(1), of skb] free [OF rx_auth_inv [OF assms(1,2), of d "f_data skb"]]
    processAssocResponse_inv [OF assms(1) _ assms(3), of d "f_data skb"]
    free [OF rx_deauth_inv [OF assms(1,4), of d]] free [OF rx_action_inv [OF inject_inv [OF assms(1)] assms(4), of d skb]]
  show ?thesis unfolding processRxMgmt_def Let_def fc bind.bind_lunit using parts assms(1) by simp
qed

text \<open>Data frames.\<close>

lemma rx_keeps_inv:
  assumes "rx_keeps s s'" "mlme_inv s"
  shows "mlme_inv s'"
proof -
  have k: "stack_ok s'" "hs_core s' = hs_core s" using assms(1) by (simp_all add: rx_keeps_def)
  note h = hs_coreD [OF k(2)]
  have sh: "shape_ok s'" using assms(2) k(1) h hw_ok_hw [of s' s] by (simp add: mlme_inv_def shape_ok_def nets_ok_def held_len_def)
  have m: "mode_ok s" using assms(2) by (simp add: mlme_inv_def)
  consider "k_state s' = k_state s" "k_state s = RTW88_STATE_HANDSHAKING" | "k_state s' = k_state s" "k_ptkConf s' = k_ptkConf s"
    | "k_state s = RTW88_STATE_HANDSHAKING" "k_state s' = RTW88_STATE_CONNECTED" "k_ptkConf s' \<noteq> None"
    using assms(1) unfolding rx_keeps_def by blast
  then have "mode_ok s'"
    using m h unfolding mode_ok_def by cases (simp_all (no_asm_simp))
  then show ?thesis using sh by (simp add: mlme_inv_def)
qed

lemma rx_dispatch_inv:
  assumes "mlme_inv s" "sha_stack c" "\<forall>i. length (rnd i) = 32" "\<forall>f\<in>set (rx_deliver res) \<union> held (rx_state res). 24 \<le> length (f_data f)"
  shows "\<exists>s'. rx_dispatch c d rnd res s = Some s' \<and> mlme_inv s'"
proof -
  define t where "t = s\<lparr>k_rxBa := rx_state res, k_fx := k_fx s @ replicate (length (rx_free res)) FxFreeSkb\<rparr>"
  have t: "mlme_inv t"
    using assms(1,4) by (simp add: t_def mlme_inv_def mode_ok_def shape_ok_def stack_ok_def hw_ok_def nets_ok_def held_len_def)
  obtain u where u: "deliver_frames c d rnd (rx_deliver res) t = Some u" "rx_keeps t u"
    using deliver_frames_safe [OF inv_stack [OF t] assms(2,3)] assms(4) by blast
  show ?thesis unfolding rx_dispatch_def t_def [symmetric] u(1) using rx_keeps_inv [OF u(2) t] by simp
qed

lemma inv_held: "mlme_inv s \<Longrightarrow> f \<in> held (k_rxBa s) \<Longrightarrow> 24 \<le> length (f_data f)"
  by (simp add: mlme_inv_def shape_ok_def held_len_def)

lemma processRxData_split:
  assumes "mlme_inv s" "24 \<le> length (f_data skb)"
  obtains "processRxData c d rnd skb s = Some (free_skb s)" | "processRxData c d rnd skb s = deliverDataFrame c d (rnd 0) skb s"
  | res where "processRxData c d rnd skb s = rx_dispatch c d rnd res s" "\<forall>g\<in>set (rx_deliver res) \<union> held (rx_state res). 24 \<le> length (f_data g)"
proof -
  define f where "f = f_data skb"
  define fc where "fc = le16_of (f ! 0) (f ! 1)"
  define hl where "hl = hdrlen_of_fc fc"
  define tid where "tid = unat (f ! (hl - 2) AND 0x0f)"
  define sn where "sn = drop_bit 4 (le16_of (f ! 22) (f ! 23) AND 0xFFF0)"
  define res where "res = rxReorderInput tid skb (uint sn) (k_rxBa s)"
  have len: "24 \<le> length f" and rd: "frame_control_of f = Some fc" "rd16 f 22 = Some (le16_of (f ! 22) (f ! 23))"
    using assms(2) by (simp_all add: frame_control_24 f_def fc_def rd16_def)
  have q: "hl \<le> length f \<Longrightarrow> rd f (hl - 2) = Some (f ! (hl - 2))" using hdrlen_bounds(1) [of fc] by (simp add: hl_def)
  have "\<forall>g\<in>set (rx_deliver res) \<union> held (rx_state res). 24 \<le> length (f_data g)"
    using input_frames [of tid skb "uint sn" "k_rxBa s"] inv_held [OF assms(1)] assms(2) unfolding res_def by blast
  moreover have "processRxData c d rnd skb s = (if \<not> data_state s \<or> \<not> from_ap f s then Some (free_skb s)
      else if ieee80211_is_data_qos fc \<and> hl \<le> length f \<and> ba_session tid s
      then rx_dispatch c d rnd res s else deliverDataFrame c d (rnd 0) skb s)"
    using infra_ok_exact [OF inv_stack [OF assms(1)] len] q rd
    by (simp add: processRxData_def Let_def rxReorderInput_k_def f_def fc_def hl_def tid_def sn_def res_def)
  ultimately show thesis using that by presburger
qed

lemma processRxData_inv:
  assumes "mlme_inv s" "sha_stack c" "\<forall>i. length (rnd i) = 32" "24 \<le> length (f_data skb)"
  shows "\<exists>s'. processRxData c d rnd skb s = Some s' \<and> mlme_inv s'"
proof (cases rule: processRxData_split [OF assms(1,4), of c d rnd])
  case 2
  obtain u where "deliverDataFrame c d (rnd 0) skb s = Some u" "rx_keeps s u"
    using deliverDataFrame_safe [OF inv_stack [OF assms(1)] assms(2) _ assms(4), of "rnd 0"] assms(3) by blast
  then show ?thesis using 2 rx_keeps_inv [OF _ assms(1)] by simp
next
  case (3 res)
  then show ?thesis using rx_dispatch_inv [OF assms(1-3) 3(2), of d] by simp
qed (use assms(1) in simp)

lemma awdl_deliver_same: "same_mode s (free_skb (deliverAWDLEthernet da sa e p s))"
proof -
  have "only_log s (deliverAWDLEthernet da sa e p s)" by simp
  then have "same_mode s (deliverAWDLEthernet da sa e p s)" by (auto simp: only_log_def)
  then show ?thesis by (simp add: free_skb_def)
qed

lemma tryDeliverAWDL_same:
  assumes "stack_ok s"
  shows "\<exists>b s'. tryDeliverAWDLDataFrame skb s = Some (b, s') \<and> same_mode s s'"
proof (cases "length (f_data skb) < 40")
  case True
  then show ?thesis using assms by (auto simp: tryDeliverAWDLDataFrame_def)
next
  case False
  define f where "f = f_data skb"
  have l: "40 \<le> length f" using False by (simp add: f_def)
  obtain fc where fc: "frame_control_of f = Some fc" using frame_control_24 [of f] l by auto
  define hl where "hl = hdrlen_of_fc fc"
  note i = awdl_deliver_same [of s]
  have ex: "Ex Not" "\<exists>b. b" by blast+
  show ?thesis
  proof (cases "hl < 24 \<or> length f < hl + 16")
    case True
    then show ?thesis using l fc assms
      by (auto simp: tryDeliverAWDLDataFrame_def Let_def f_def [symmetric] hl_def)
  next
    case False
    then have r: "rd_blk f hl 8 = Some (block f hl 8)" "rd f (hl + 8) = Some (f ! (hl + 8))" "rd f (hl + 9) = Some (f ! (hl + 9))"
      "rd f (hl + 14) = Some (f ! (hl + 14))" "rd f (hl + 15) = Some (f ! (hl + 15))" "rd_blk f 4 6 = Some (block f 4 6)"
      "rd_blk f 10 6 = Some (block f 10 6)" "rd_blk f 16 6 = Some (block f 16 6)"
      using l by simp_all
    show ?thesis
      unfolding tryDeliverAWDLDataFrame_def Let_def f_def [symmetric] fc bind.bind_lunit hl_def [symmetric] r
      using l assms i by (simp add: ex)
  qed
qed

lemma rxFrame_inv:
  assumes "mlme_inv s" "rsn_fits s" "sha_stack c" "\<forall>i. length (rnd i) = 32"
  shows "\<exists>s'. rxFrame c d rnd skbo s = Some s' \<and> mlme_inv s'"
proof (cases skbo)
  case None
  then show ?thesis using assms(1) by (simp add: rxFrame_def)
next
  case (Some skb)
  show ?thesis
  proof (cases "length (f_data skb) < 24")
    case True
    then show ?thesis using assms(1) by (simp add: rxFrame_def Some)
  next
    case False
    then have l: "24 \<le> length (f_data skb)" by simp
    obtain fc where fc: "frame_control_of (f_data skb) = Some fc" using frame_control_24 [OF l] by blast
    define t where "t = s\<lparr>k_rssi := rs_signal (f_rxs skb), k_rxFrameCount := k_rxFrameCount s + 1\<rparr>"
    have t: "mlme_inv t" "rsn_fits t" using assms(1,2) by (simp_all add: t_def rsn_fits_def)
    obtain b u where u: "tryDeliverAWDLDataFrame skb t = Some (b, u)" "mlme_inv u"
      using tryDeliverAWDL_same [OF inv_stack [OF t(1)]] inv_same [OF _ t(1)] by blast
    show ?thesis
      unfolding rxFrame_def Some option.case if_not_P [OF False] fc bind.bind_lunit Let_def t_def [symmetric] u(1) prod.case
      using processRxMgmt_inv [OF t assms(3) l, of d] processRxData_inv [OF u(2) assms(3,4) l, of d] u(2) t(1) by simp
  qed
qed

text \<open>The flush of the reorder buffers.\<close>

lemma skip_holes_buf [simp]: "buf (skip_holes n r) = buf r"
  by (induction n r rule: skip_holes.induct) simp_all

lemma flush_tid_frames:
  "set (rx_deliver (flush_tid tid res)) \<union> held (rx_state (flush_tid tid res)) \<subseteq> set (rx_deliver res) \<union> held (rx_state res)"
proof (cases "rx_state res tid")
  case None
  then show ?thesis by (simp add: flush_tid_def)
next
  case (Some r)
  obtain r' out where q: "release_run (room (rx_deliver res)) (skip_holes 4096 r) (rx_deliver res) = (r', out)" by fastforce
  have "set out \<union> ran (buf r') \<subseteq> set (rx_deliver res) \<union> ran (buf r)"
    using release_run_frames [of "room (rx_deliver res)" "skip_holes 4096 r" "rx_deliver res"] unfolding q by simp
  moreover have "ran (buf r) \<subseteq> held (rx_state res)" using Some by (auto simp: held_def ran_def)
  moreover have "held ((rx_state res)(tid \<mapsto> r')) \<subseteq> held (rx_state res) \<union> ran (buf r')" by (auto simp: held_def ran_def)
  ultimately show ?thesis by (auto simp: flush_tid_def Some q)
qed

lemma flush_frames: "set (rx_deliver (rxReorderFlushStale ba)) \<union> held (rx_state (rxReorderFlushStale ba)) \<subseteq> held ba"
proof -
  have "set (rx_deliver (fold flush_tid ts res)) \<union> held (rx_state (fold flush_tid ts res)) \<subseteq> set (rx_deliver res) \<union> held (rx_state res)"
    for ts and res :: "'a rx_result"
  proof (induction ts arbitrary: res)
    case (Cons t ts)
    show ?case using order_trans [OF Cons [of "flush_tid t res"] flush_tid_frames [of t res]] by simp
  qed simp
  from this [of "[0 ..< kRxBaNumTid]" "\<lparr>rx_state = ba, rx_deliver = [], rx_free = [], rx_arm = False\<rparr>"]
  show ?thesis by (simp add: rxReorderFlushStale_def)
qed

lemma flush_inv:
  assumes "mlme_inv s" "sha_stack c" "\<forall>i. length (rnd i) = 32"
  shows "\<exists>s'. rxReorderFlushStale_k c d rnd s = Some s' \<and> mlme_inv s'"
  unfolding rxReorderFlushStale_k_def
  by (rule rx_dispatch_inv [OF assms]) (use flush_frames [of "k_rxBa s"] inv_held [OF assms(1)] in blast)

section \<open>Timers and transmission\<close>

lemma onTimer_inv:
  assumes "mlme_inv s"
  shows "\<exists>s'. onTimer d s = Some s' \<and> mlme_inv s'"
proof -
  define t where "t = cancel_hw_scan d s"
  have t: "mlme_inv t" using inv_same [OF same_mode_cancel_scan assms] by (simp add: t_def)
  show ?thesis
    using t inv_ret [OF t] scan_over_inv [OF t] assms inv_idle_state [OF assms] doDisconnect_quiet [OF quiet_inv [OF assms], of d]
    unfolding onTimer_def t_def [symmetric] by (cases "k_state s") (simp_all add: Let_def)
qed

lemma outputPacket_inv:
  assumes "mlme_inv s"
  shows "\<exists>b s'. outputPacket d m s = Some (b, s') \<and> mlme_inv s'"
proof -
  obtain b s' where "txDataFrame d m s = Some (b, s')" "tx_outcome m s b s'" using txDataFrame_outcome [OF inv_stack [OF assms], of d m] by blast
  moreover have "same_mode s s'" using calculation(2) by (intro same_mode_tx) (simp_all add: tx_outcome_def)
  moreover have "mlme_inv (free_m s)" using assms by (simp add: free_m_def)
  ultimately show ?thesis using inv_same [OF _ assms] by (auto simp: outputPacket_def Let_def)
qed

section \<open>The threads\<close>

text \<open>Where the connect thread is in \<open>doAuthenticate\<close>, and the scan thread in \<open>runManualScan\<close> (channel \<open>i\<close> of \<open>n\<close>).\<close>

datatype conn_pc = CIdle | CStart | CPoll nat | CSettle | CSend | CArm

datatype scan_pc = SIdle | SStart | SNext nat nat bool | SVisit nat nat bool | SHome nat nat bool

text \<open>A caller that waits: for the end of a scan it aborts, or for the connect thread. The state to return to was read before.\<close>

datatype caller = ConnectAbort RTW88State connect_args | DisconnectDrain | PowerOffDrain | PowerOffAbort RTW88State

record link =
  l_st :: RTW88IEEE80211
  l_cpend :: bool
  l_cpc :: conn_pc
  l_spend :: bool
  l_spc :: scan_pc
  l_wait :: "caller list"

text \<open>The calls a section made; \<open>thread_call_enter\<close> leaves the thread call pending.\<close>

definition entered :: "fx \<Rightarrow> RTW88IEEE80211 \<Rightarrow> RTW88IEEE80211 \<Rightarrow> bool" where
  "entered e s s' \<longleftrightarrow> e \<in> set (drop (length (k_fx s)) (k_fx s'))"

definition goes :: "link \<Rightarrow> RTW88IEEE80211 \<Rightarrow> link" where
  "goes l s' = l\<lparr>l_st := s', l_cpend := l_cpend l \<or> entered FxEnterConnect (l_st l) s',
     l_spend := l_spend l \<or> entered FxEnterScan (l_st l) s'\<rparr>"

definition args_ok :: "connect_args \<Rightarrow> bool" where
  "args_ok a \<longleftrightarrow> (\<forall>m. ca_pmk a = Some m \<longrightarrow> length m = 32)"

text \<open>
  One section. What the driver and the kernel answer (\<open>d\<close>, \<open>scanning\<close>), what arrives and what is asked for are free in
  every step. A drained thread call is no longer pending; the drain ends when the call that was running has.
\<close>

inductive link_step :: "link \<Rightarrow> link \<Rightarrow> bool" where
  scan: "link_step l (goes l (snd (cmdScan d (l_st l))))"
| connect: "k_state (l_st l) \<noteq> RTW88_STATE_SCANNING \<Longrightarrow> args_ok a \<Longrightarrow> link_step l (goes l (snd (cmdConnect d a (l_st l))))"
| connect_abort: "k_state (l_st l) = RTW88_STATE_SCANNING \<Longrightarrow> args_ok a \<Longrightarrow> ret = k_scanReturnState (l_st l) \<Longrightarrow>
    link_step l ((goes l (abort_begin d (l_st l)))\<lparr>l_wait := l_wait l @ [ConnectAbort ret a]\<rparr>)"
| connect_after: "l_wait l = ws @ ConnectAbort ret a # ws' \<Longrightarrow> abort_end ret (l_st l) = Some (b, s) \<Longrightarrow>
    link_step l ((goes l (if b then snd (cmdConnect d a s) else s))\<lparr>l_wait := ws @ ws'\<rparr>)"
| disconnect: "link_step l ((goes l (cancelAuthentication (l_st l)))\<lparr>l_cpend := False, l_wait := l_wait l @ [DisconnectDrain]\<rparr>)"
| disconnect_after: "l_wait l = ws @ DisconnectDrain # ws' \<Longrightarrow> l_cpc l = CIdle \<Longrightarrow>
    link_step l ((goes l (snd (cmdDisconnect d (l_st l))))\<lparr>l_wait := ws @ ws'\<rparr>)"
| power_off: "link_step l ((goes l (cancelAuthentication (l_st l)))\<lparr>l_cpend := False, l_wait := l_wait l @ [PowerOffDrain]\<rparr>)"
| power_off_now: "l_wait l = ws @ PowerOffDrain # ws' \<Longrightarrow> l_cpc l = CIdle \<Longrightarrow> k_state (l_st l) \<noteq> RTW88_STATE_SCANNING \<Longrightarrow>
    link_step l ((goes l (snd (cmdPowerOff d True (l_st l))))\<lparr>l_wait := ws @ ws'\<rparr>)"
| power_off_abort: "l_wait l = ws @ PowerOffDrain # ws' \<Longrightarrow> l_cpc l = CIdle \<Longrightarrow> k_state (l_st l) = RTW88_STATE_SCANNING \<Longrightarrow>
    ret = k_scanReturnState (l_st l) \<Longrightarrow>
    link_step l ((goes l (abort_begin d (l_st l)))\<lparr>l_wait := ws @ PowerOffAbort ret # ws'\<rparr>)"
| power_off_after: "l_wait l = ws @ PowerOffAbort ret # ws' \<Longrightarrow> abort_end ret (l_st l) = Some (b, s) \<Longrightarrow>
    link_step l ((goes l (snd (cmdPowerOff d b s)))\<lparr>l_wait := ws @ ws'\<rparr>)"
| power_on: "link_step l (goes l (snd (cmdPowerOn d (l_st l))))"
| multicast: "link_step l (goes l (snd (setReceiveMulticast d b (l_st l))))"
| awdl_mode: "link_step l (goes l (snd (setAWDLReceiveMode d b (l_st l))))"
| awdl_channel: "link_step l (goes l (snd (setAWDLChannel n (l_st l))))"
| install_key: "link_step l (goes l (snd (cmdInstallExternalKey d pw i cipher key (l_st l))))"
| set_rsn: "cmdSetAssocRsnIE ie n (l_st l) = Some (r, s) \<Longrightarrow> link_step l (goes l s)"
| transmit: "outputPacket d m (l_st l) = Some (b, s) \<Longrightarrow> link_step l (goes l s)"
| receive: "sha_stack c \<Longrightarrow> \<forall>i. length (rnd i) = 32 \<Longrightarrow> rsn_fits (l_st l) \<Longrightarrow> rxFrame c d rnd skb (l_st l) = Some s \<Longrightarrow> link_step l (goes l s)"
| flush: "sha_stack c \<Longrightarrow> \<forall>i. length (rnd i) = 32 \<Longrightarrow> rxReorderFlushStale_k c d rnd (l_st l) = Some s \<Longrightarrow> link_step l (goes l s)"
| scan_done: "scanDone b (l_st l) = Some s \<Longrightarrow> link_step l (goes l s)"
| timer: "onTimer d (l_st l) = Some s \<Longrightarrow> link_step l (goes l s)"
| c_wake: "l_cpend l \<Longrightarrow> l_cpc l = CIdle \<Longrightarrow> link_step l (l\<lparr>l_cpend := False, l_cpc := CStart\<rparr>)"
| c_start: "l_cpc l = CStart \<Longrightarrow> link_step l (l\<lparr>l_cpc := (if auth_begin (l_st l) then CPoll 0 else CIdle)\<rparr>)"
| c_poll: "l_cpc l = CPoll i \<Longrightarrow>
    link_step l (l\<lparr>l_cpc := (case auth_poll i scanning (l_st l) of PollReturn \<Rightarrow> CIdle | PollReady \<Rightarrow> CSettle | PollAgain \<Rightarrow> CPoll (i + 1))\<rparr>)"
| c_settle_end: "l_cpc l = CSettle \<Longrightarrow> authenticationCancelled (l_st l) \<Longrightarrow> link_step l (l\<lparr>l_cpc := CIdle\<rparr>)"
| c_settle: "l_cpc l = CSettle \<Longrightarrow> \<not> authenticationCancelled (l_st l) \<Longrightarrow> auth_channel (l_st l) = Some s \<Longrightarrow>
    link_step l ((goes l s)\<lparr>l_cpc := CSend\<rparr>)"
| c_send: "l_cpc l = CSend \<Longrightarrow> auth_send d (l_st l) = Some s \<Longrightarrow>
    link_step l ((goes l s)\<lparr>l_cpc := (if authenticationCancelled s then CIdle else CArm)\<rparr>)"
| c_arm: "l_cpc l = CArm \<Longrightarrow> link_step l ((goes l (auth_arm (l_st l)))\<lparr>l_cpc := CIdle\<rparr>)"
| s_wake: "l_spend l \<Longrightarrow> l_spc l = SIdle \<Longrightarrow> link_step l (l\<lparr>l_spend := False, l_spc := SStart\<rparr>)"
| s_start: "l_spc l = SStart \<Longrightarrow> mscan_begin (l_st l) = Some (r, s) \<Longrightarrow>
    link_step l ((goes l s)\<lparr>l_spc := (case r of None \<Rightarrow> SIdle | Some (n, conn) \<Rightarrow> SNext 0 n conn)\<rparr>)"
| s_skip: "l_spc l = SNext i n conn \<Longrightarrow> i < n \<Longrightarrow> \<not> k_manualScanAbort (l_st l) \<Longrightarrow> i \<ge> length (k_manualScanChannels (l_st l)) \<Longrightarrow>
    link_step l (l\<lparr>l_spc := SNext (i + 1) n conn\<rparr>)"
| s_leave: "l_spc l = SNext i n conn \<Longrightarrow> i < n \<Longrightarrow> \<not> k_manualScanAbort (l_st l) \<Longrightarrow> i < length (k_manualScanChannels (l_st l)) \<Longrightarrow>
    mscan_leave d conn (l_st l) = Some s \<Longrightarrow> link_step l ((goes l s)\<lparr>l_spc := SVisit i n conn\<rparr>)"
| s_visit: "l_spc l = SVisit i n conn \<Longrightarrow> mscan_visit d chan (l_st l) = Some s \<Longrightarrow>
    link_step l ((goes l s)\<lparr>l_spc := SHome i n conn\<rparr>)"
| s_home: "l_spc l = SHome i n conn \<Longrightarrow> mscan_home d conn (l_st l) = Some s \<Longrightarrow>
    link_step l ((goes l s)\<lparr>l_spc := SNext (i + 1) n conn\<rparr>)"
| s_finish: "l_spc l = SNext i n conn \<Longrightarrow> i \<ge> n \<or> k_manualScanAbort (l_st l) \<Longrightarrow> mscan_finish d conn (l_st l) = Some s \<Longrightarrow>
    link_step l ((goes l s)\<lparr>l_spc := SIdle\<rparr>)"

text \<open>A started class: what \<open>start\<close> leaves when it succeeds, with no thread running and nobody waiting.\<close>

definition link0 :: "RTW88IEEE80211 \<Rightarrow> link" where
  "link0 s = \<lparr>l_st = s, l_cpend = False, l_cpc = CIdle, l_spend = False, l_spc = SIdle, l_wait = []\<rparr>"

inductive reaches :: "link \<Rightarrow> link \<Rightarrow> bool" for l0 where
  start: "reaches l0 l0"
| step: "reaches l0 l \<Longrightarrow> link_step l l' \<Longrightarrow> reaches l0 l'"

section \<open>The invariant of the whole\<close>

definition caller_ok :: "caller \<Rightarrow> bool" where
  "caller_ok w \<longleftrightarrow> (case w of ConnectAbort ret a \<Rightarrow> ret = RTW88_STATE_IDLE \<and> args_ok a | PowerOffAbort ret \<Rightarrow> ret = RTW88_STATE_IDLE | _ \<Rightarrow> True)"

definition link_ok :: "link \<Rightarrow> bool" where
  "link_ok l \<longleftrightarrow> mlme_inv (l_st l) \<and> (\<forall>w\<in>set (l_wait l). caller_ok w)"

lemma goes_sel [simp]:
  "l_st (goes l s) = s" "l_cpc (goes l s) = l_cpc l" "l_spc (goes l s) = l_spc l" "l_wait (goes l s) = l_wait l"
  by (simp_all add: goes_def)

lemma some_inv: "\<exists>s'. x = Some s' \<and> P s' \<Longrightarrow> x = Some t \<Longrightarrow> P t"
  by auto

lemma some_inv2: "\<exists>b s'. x = Some (b, s') \<and> P s' \<Longrightarrow> x = Some (c, t) \<Longrightarrow> P t"
  by auto

lemmas section_invs = some_inv [OF rxFrame_inv] some_inv [OF flush_inv] some_inv [OF scanDone_inv] some_inv [OF onTimer_inv]
  some_inv [OF auth_channel_inv] some_inv [OF auth_send_inv] some_inv2 [OF mscan_begin_inv] some_inv [OF mscan_leave_inv]
  some_inv [OF mscan_visit_inv] some_inv [OF mscan_home_inv] some_inv [OF mscan_finish_inv] some_inv2 [OF outputPacket_inv]

lemma link_ok_step: "link_step l l' \<Longrightarrow> link_ok l \<Longrightarrow> link_ok l'"
proof (induction rule: link_step.induct)
  case (connect_after l ws ret a ws' b s d)
  then have i: "mlme_inv (l_st l)" and w: "ret = RTW88_STATE_IDLE" "args_ok a" by (auto simp: link_ok_def caller_ok_def)
  have "mlme_inv s" using abort_end_inv [OF i] connect_after(2) w(1) by auto
  then show ?case using connect_after w(2) cmdConnect_inv [of s a d] by (auto simp: link_ok_def args_ok_def)
next
  case (power_off_after l ws ret ws' b s d)
  then have i: "mlme_inv (l_st l)" and w: "ret = RTW88_STATE_IDLE" by (auto simp: link_ok_def caller_ok_def)
  have "mlme_inv s" using abort_end_inv [OF i] power_off_after(2) w by auto
  then show ?case using power_off_after cmdPowerOff_inv [of s d b] by (auto simp: link_ok_def)
qed (auto simp: link_ok_def caller_ok_def args_ok_def dest: inv_ret
  intro: cmdScan_inv cmdConnect_inv inv_same [OF abort_begin_inv] cancel_inv cmdDisconnect_inv cmdPowerOff_inv cmdPowerOn_inv
    inv_same [OF same_mode_multicast] inv_same [OF same_mode_awdl] inv_same [OF same_mode_awdl_channel] cmdInstallExternalKey_inv
    cmdSetAssocRsnIE_inv auth_arm_inv section_invs)

section \<open>The moves of the state machine\<close>

fun successors :: "RTW88State \<Rightarrow> RTW88State list" where
  "successors RTW88_STATE_IDLE = [RTW88_STATE_SCANNING, RTW88_STATE_AUTHENTICATING]"
| "successors RTW88_STATE_SCANNING = [RTW88_STATE_IDLE, RTW88_STATE_AUTHENTICATING]"
| "successors RTW88_STATE_AUTHENTICATING = [RTW88_STATE_ASSOCIATING, RTW88_STATE_IDLE]"
| "successors RTW88_STATE_ASSOCIATING = [RTW88_STATE_HANDSHAKING, RTW88_STATE_CONNECTED, RTW88_STATE_IDLE]"
| "successors RTW88_STATE_HANDSHAKING = [RTW88_STATE_CONNECTED, RTW88_STATE_IDLE]"
| "successors RTW88_STATE_CONNECTED = [RTW88_STATE_IDLE]"
| "successors RTW88_STATE_DISCONNECTING = []"

definition builtin_wpa2 :: "RTW88IEEE80211 \<Rightarrow> bool" where
  "builtin_wpa2 s \<longleftrightarrow> k_wpa2 s \<and> \<not> k_externalSupplicant s"

text \<open>A move the state machine allows; a WPA2 connection comes out of the handshake only.\<close>

definition moves :: "RTW88IEEE80211 \<Rightarrow> RTW88IEEE80211 \<Rightarrow> bool" where
  "moves s s' \<longleftrightarrow> (k_state s' = k_state s \<or> k_state s' \<in> set (successors (k_state s)))
     \<and> (k_state s' = RTW88_STATE_CONNECTED \<and> builtin_wpa2 s' \<longrightarrow> k_state s \<in> {RTW88_STATE_HANDSHAKING, RTW88_STATE_CONNECTED})"

lemma moves_same: "same_mode s s' \<Longrightarrow> moves s s'"
  using same_modeD [of s s'] by (auto simp: moves_def)

lemma moves_refl: "moves s s"
  by (rule moves_same) simp

lemma moves_idle: "k_state s \<noteq> RTW88_STATE_DISCONNECTING \<Longrightarrow> k_state s' = RTW88_STATE_IDLE \<Longrightarrow> moves s s'"
  by (cases "k_state s") (simp_all add: moves_def)

lemma inv_not_disc: "mlme_inv s \<Longrightarrow> k_state s \<noteq> RTW88_STATE_DISCONNECTING"
  by (simp add: mlme_inv_def mode_ok_def)

lemma link_idle_sel [simp]: "k_state (set_link b s) = k_state s" "k_state (go_idle s) = RTW88_STATE_IDLE" "k_state (free_skb s) = k_state s"
  by (simp_all add: set_link_def go_idle_def free_skb_def)

lemma doDisconnect_state [simp]: "k_state (doDisconnect d s) = RTW88_STATE_IDLE"
  by (simp add: doDisconnect_def Let_def)

lemma leave_network_state [simp]: "k_state (leave_network d r s) = RTW88_STATE_IDLE"
  by (simp add: leave_network_def Let_def)

lemma cmdScan_moves: "moves s (snd (cmdScan d s))"
proof (cases "k_state s = RTW88_STATE_IDLE \<and> k_powered s \<and> has_ops d s")
  case True
  then have go: "k_state s = RTW88_STATE_IDLE" "k_powered s" "has_ops d s" by simp_all
  show ?thesis
    by (cases rule: cmdScan_cases [OF go]) (auto simp: moves_def scan_fail_def go dest: same_modeD(1))
next
  case False
  then have "snd (cmdScan d s) = s" by (auto simp: cmdScan_def)
  then show ?thesis using moves_refl by simp
qed

lemma cmdConnect_state:
  "k_state (snd (cmdConnect d a s)) = k_state s \<or> k_state s = RTW88_STATE_IDLE \<and> k_state (snd (cmdConnect d a s)) = RTW88_STATE_AUTHENTICATING"
  "k_state s \<noteq> RTW88_STATE_IDLE \<Longrightarrow> snd (cmdConnect d a s) = s"
  by (simp_all add: cmdConnect_def Let_def split: option.split)

lemma cmdConnect_moves: "moves s (snd (cmdConnect d a s))"
proof (cases "k_state s = RTW88_STATE_IDLE")
  case True
  then show ?thesis using cmdConnect_state(1) [of d a s] by (auto simp: moves_def)
next
  case False
  then show ?thesis using cmdConnect_state(2) moves_refl by simp
qed

lemma abort_end_state:
  assumes "mlme_inv s" "abort_end RTW88_STATE_IDLE s = Some (b, t)"
  shows "t = s \<or> k_state s = RTW88_STATE_SCANNING \<and> k_state t = RTW88_STATE_IDLE"
  using assms by (auto simp: abort_end_def Let_def split: if_splits)

lemma moves_via_idle:
  assumes "k_state s = RTW88_STATE_SCANNING" "k_state t = RTW88_STATE_IDLE" "k_state u = k_state t \<or> k_state u = RTW88_STATE_AUTHENTICATING"
  shows "moves s u"
  using assms by (auto simp: moves_def)

lemma cmdDisconnect_moves: "mlme_inv s \<Longrightarrow> moves s (snd (cmdDisconnect d s))"
  by (rule moves_idle) (auto simp: cmdDisconnect_def inv_not_disc)

lemma cancel_same: "moves s (cancelAuthentication s)"
  by (auto simp: cancelAuthentication_def Let_def moves_def)

lemma cmdPowerOff_moves: "mlme_inv s \<Longrightarrow> moves s (snd (cmdPowerOff d b s))"
  by (cases b) (auto simp: cmdPowerOff_def Let_def moves_refl intro!: moves_idle inv_not_disc)

lemma powerOn_state: "k_state (snd (powerOn d s)) = k_state s"
  using same_modeD(1) [OF same_mode_multicast, of d _ "(emit FxHwStart s)\<lparr>k_powered := True\<rparr>"]
  by (auto simp: powerOn_def Let_def split: option.split)

lemma moves_keep: "k_state s' = k_state s \<Longrightarrow> moves s s'"
  by (auto simp: moves_def)

lemma moves_to_idle: "mlme_inv s \<Longrightarrow> k_state s' = RTW88_STATE_IDLE \<Longrightarrow> moves s s'"
  by (rule moves_idle [OF inv_not_disc])

lemma cmdPowerOn_moves: "mlme_inv s \<Longrightarrow> moves s (snd (cmdPowerOn d s))"
  using powerOn_state [of d s] by (intro moves_keep) (auto simp: cmdPowerOn_def Let_def case_prod_beta inv_not_disc)

lemma install_key_moves: "moves s (snd (cmdInstallExternalKey d pw i cipher key s))"
proof (rule moves_keep)
  have "k_state (snd (installKey d pw i cipher tk s)) = k_state s" for tk
    using installKey_effect(2) [of d pw i cipher tk s] by (metis prod.collapse)
  then show "k_state (snd (cmdInstallExternalKey d pw i cipher key s)) = k_state s"
    by (simp add: cmdInstallExternalKey_def case_prod_beta Let_def split: option.split)
qed

lemma set_rsn_moves: "cmdSetAssocRsnIE ie n s = Some (r, s') \<Longrightarrow> moves s s'"
  by (rule moves_keep) (auto simp: cmdSetAssocRsnIE_def split: option.splits if_splits bind_splits)

lemma output_moves:
  assumes "mlme_inv s" "outputPacket d m s = Some (b, s')"
  shows "moves s s'"
proof (rule moves_keep)
  obtain r t where "txDataFrame d m s = Some (r, t)" "tx_outcome m s r t" using txDataFrame_outcome [OF inv_stack [OF assms(1)], of d m] by blast
  then show "k_state s' = k_state s" using assms(2) by (auto simp: outputPacket_def Let_def free_m_def tx_outcome_def split: if_splits)
qed

lemma data_moves: "rx_keeps s s' \<Longrightarrow> moves s s'"
  unfolding rx_keeps_def moves_def by auto

lemma dispatch_moves:
  assumes "mlme_inv s" "sha_stack c" "\<forall>i. length (rnd i) = 32" "\<forall>f\<in>set (rx_deliver res). 24 \<le> length (f_data f)"
    and "rx_dispatch c d rnd res s = Some s'"
  shows "moves s s'"
proof -
  define t where "t = s\<lparr>k_rxBa := rx_state res, k_fx := k_fx s @ replicate (length (rx_free res)) FxFreeSkb\<rparr>"
  have t: "stack_ok t" "k_state t = k_state s" using inv_stack [OF assms(1)] by (simp_all add: t_def stack_ok_def)
  obtain u where u: "deliver_frames c d rnd (rx_deliver res) t = Some u" "rx_keeps t u"
    using deliver_frames_safe [OF t(1) assms(2-4)] by blast
  have "moves t u" by (rule data_moves [OF u(2)])
  then have "moves s u" using t(2) by (simp add: moves_def)
  then show ?thesis using assms(5) unfolding rx_dispatch_def t_def [symmetric] u(1) by (auto simp: moves_def builtin_wpa2_def split: if_splits)
qed

lemma flush_moves:
  assumes "mlme_inv s" "sha_stack c" "\<forall>i. length (rnd i) = 32" "rxReorderFlushStale_k c d rnd s = Some s'"
  shows "moves s s'"
  by (rule dispatch_moves [OF assms(1-3) _ assms(4) [unfolded rxReorderFlushStale_k_def]])
    (use flush_frames [of "k_rxBa s"] inv_held [OF assms(1)] in blast)

lemma doAssociate_state: "doAssociate d s = Some s' \<Longrightarrow> k_state s' \<in> {k_state s, RTW88_STATE_ASSOCIATING, RTW88_STATE_IDLE}"
  using same_modeD(1) [OF same_mode_mgmt [THEN iffD2, OF same_mode_refl]]
  by (auto simp: doAssociate_def Let_def case_prod_beta split: if_splits bind_splits)

lemma associated_moves:
  assumes "k_state s = RTW88_STATE_ASSOCIATING" "associated c d aid s = Some s'"
  shows "moves s s'"
proof -
  define t where "t = notify_assoc d aid (add_sta d aid (s\<lparr>k_assocAID := aid\<rparr>))"
  have hw: "k_hw s \<noteq> None" using assms(2) by (cases "k_hw s") (simp_all add: associated_def)
  note code = assms(2) [unfolded associated_def if_not_P [OF hw] Let_def, folded t_def]
  show ?thesis
  proof (cases "k_wpa2 t \<and> \<not> k_externalSupplicant t")
    case True
    then have "k_state s' = RTW88_STATE_HANDSHAKING" using code by (auto split: if_splits bind_splits)
    then show ?thesis using assms(1) by (simp add: moves_def)
  next
    case False
    define u where "u = set_link True (t\<lparr>k_state := RTW88_STATE_CONNECTED\<rparr>)"
    define v where "v = (if \<not> k_wpa2 u then startTxAggregation d u else u)"
    have "same_mode u v" by (simp add: v_def)
    then have "k_state v = RTW88_STATE_CONNECTED" "\<not> builtin_wpa2 v"
      using False same_modeD [of u v] by (simp_all add: u_def builtin_wpa2_def set_link_def)
    moreover have "s' = emit FxTimerCancel v" using code False unfolding v_def u_def by (simp split: if_splits)
    ultimately show ?thesis using assms(1) by (simp add: moves_def builtin_wpa2_def)
  qed
qed

lemma processAssocResponse_moves:
  assumes "k_state s = RTW88_STATE_ASSOCIATING" "processAssocResponse c d f s = Some s'"
  shows "moves s s'"
proof -
  obtain v out where r: "rtw88AssocResponse (Some f) (length f) (Some (k_macAddr s)) (Some (b_bssid (k_targetBSS s))) True True = Some (v, out)"
    using assms(2) unfolding processAssocResponse_def
    by (cases "rtw88AssocResponse (Some f) (length f) (Some (k_macAddr s)) (Some (b_bssid (k_targetBSS s))) True True") (simp, fastforce)
  have t: "k_state (free_skb s) = RTW88_STATE_ASSOCIATING" using assms(1) by simp
  have m: "moves s u = moves (free_skb s) u" for u by (simp add: moves_def)
  note code = assms(2) [unfolded processAssocResponse_def r bind.bind_lunit prod.case Let_def]
  consider "s' = free_skb s" | "k_state s' = RTW88_STATE_IDLE" | aid where "associated c d aid (free_skb s) = Some s'"
  proof (cases "(\<not> v \<or> authenticationCancelled (free_skb s)) \<or> out = None")
    case True
    then show thesis using code that(1) by (cases out; cases v; cases "authenticationCancelled (free_skb s)") simp_all
  next
    case False
    then obtain st aid where o: "out = Some (st, aid)" by auto
    note code = code [unfolded o option.case prod.case]
    show thesis
    proof (cases "st = 0")
      case True
      then show thesis using False code that(3) [of aid] by simp
    next
      case False
      then have "s' = (free_skb s)\<lparr>k_state := RTW88_STATE_IDLE\<rparr>" using code \<open>\<not> (_ \<or> _)\<close> by simp
      then show thesis using that(2) by simp
    qed
  qed
  then show ?thesis
  proof cases
    case 2
    then show ?thesis using assms(1) by (intro moves_idle) simp_all
  qed (use associated_moves [OF t] m moves_keep in auto)
qed

lemma handleBackAction_state: "handleBackAction d b s = Some s' \<Longrightarrow> k_state s' = k_state s"
  by (auto simp: handleBackAction_def Let_def sendAddbaResponse_def rxBaSetup_k_def rxBaTeardown_k_def next_txSeq_def txMgmtFrame_def
      split: if_splits bind_splits)

lemma rx_auth_moves:
  assumes "mlme_inv s" "rx_auth d f s = Some s'"
  shows "moves s s'"
proof -
  obtain r where r: "rtw88AuthResponse (Some f) (length f) (Some (k_macAddr s)) (Some (b_bssid (k_targetBSS s))) True = Some r"
    using responses_total(1) [OF inv_stack [OF assms(1)]] by blast
  note code = assms(2) [unfolded rx_auth_def r bind.bind_lunit]
  consider "s' = s" | "k_state s' = RTW88_STATE_IDLE" | "k_state s = RTW88_STATE_AUTHENTICATING" "doAssociate d s = Some s'"
  proof (cases "k_state s = RTW88_STATE_AUTHENTICATING \<and> \<not> authenticationCancelled s")
    case True
    note code = code [unfolded if_P [OF True]]
    show thesis
    proof (cases r)
      case (Some st)
      then show thesis using code True that(3) that(2) by (cases "st = 0") auto
    qed (use code that(1) in simp)
  next
    case False
    note code = code [unfolded if_not_P [OF False]]
    then show thesis using that(1) by simp
  qed
  then show ?thesis
  proof cases
    case 3
    then show ?thesis using doAssociate_state [OF 3(2)] by (auto simp: moves_def)
  qed (use moves_refl moves_to_idle [OF assms(1)] in auto)
qed

lemma rx_deauth_moves:
  assumes "mlme_inv s" "rx_deauth d f s = Some s'"
  shows "moves s s'"
proof -
  have "s' = s \<or> k_state s' = RTW88_STATE_IDLE" using assms(2) by (auto simp: rx_deauth_def Let_def split: if_splits bind_splits)
  then show ?thesis using moves_refl moves_to_idle [OF assms(1)] by auto
qed

lemma rx_action_state: "rx_action d f s = Some s' \<Longrightarrow> k_state s' = k_state s"
  by (auto simp: rx_action_def dest: handleBackAction_state split: if_splits bind_splits)

lemma processRxMgmt_moves:
  assumes "mlme_inv s" "processRxMgmt c d skb s = Some s'"
  shows "moves s s'"
proof -
  have free: "moves s u \<Longrightarrow> moves s (free_skb u)" for u by (auto simp: moves_def free_skb_def builtin_wpa2_def)
  have inj: "k_state (inject_action skb s) = k_state s" by (simp add: inject_action_def)
  have scan: "rx_scan skb s = Some u \<Longrightarrow> k_state u = k_state s" for u by (auto simp: rx_scan_def Let_def split: if_splits)
  obtain fc where fc: "frame_control_of (f_data skb) = Some fc"
    using assms(2) unfolding processRxMgmt_def by (cases "frame_control_of (f_data skb)") simp_all
  note code = assms(2) [unfolded processRxMgmt_def Let_def fc bind.bind_lunit]
  have mo: "map_option free_skb x = Some s' \<Longrightarrow> \<exists>u. x = Some u \<and> s' = free_skb u" for x by auto
  consider "fc AND 0x00f0 = 0x0080 \<or> fc AND 0x00f0 = 0x0050" | "fc AND 0x00f0 = 0x00B0" | "fc AND 0x00f0 = 0x0010 \<or> fc AND 0x00f0 = 0x0030"
    | "fc AND 0x00f0 = 0x00A0 \<or> fc AND 0x00f0 = 0x00C0" | "fc AND 0x00f0 = 0x00D0"
    | "fc AND 0x00f0 \<notin> {0x0080, 0x0050, 0x00B0, 0x0010, 0x0030, 0x00A0, 0x00C0, 0x00D0}" by blast
  note kinds = this
  consider "rx_scan skb s = Some s'" | "s' = free_skb s" | u where "rx_auth d (f_data skb) s = Some u" "s' = free_skb u"
    | "k_state s = RTW88_STATE_ASSOCIATING" "processAssocResponse c d (f_data skb) s = Some s'"
    | u where "rx_deauth d (f_data skb) s = Some u" "s' = free_skb u"
    | u where "rx_action d (f_data skb) (inject_action skb s) = Some u" "s' = free_skb u"
  proof (cases rule: kinds)
    case 1
    then show thesis using code that(1,2) by (cases "k_state s = RTW88_STATE_SCANNING") auto
  next
    case 2
    then show thesis using code mo that(3) by fastforce
  next
    case 3
    then show thesis using code that(2,4) by (cases "k_state s = RTW88_STATE_ASSOCIATING") auto
  next
    case 4
    then show thesis using code mo that(5) by fastforce
  next
    case 5
    then show thesis using code mo that(6) by fastforce
  next
    case 6
    then show thesis using code that(2) by simp
  qed
  then show ?thesis
  proof cases
    case 1
    then show ?thesis using moves_keep [OF scan] by simp
  next
    case 6
    then show ?thesis using moves_keep [of u s] rx_action_state [OF 6(1)] inj free by simp
  qed (use moves_refl free rx_auth_moves [OF assms(1)] processAssocResponse_moves rx_deauth_moves [OF assms(1)] in auto)
qed

lemma processRxData_moves:
  assumes "mlme_inv s" "sha_stack c" "\<forall>i. length (rnd i) = 32" "24 \<le> length (f_data skb)" "processRxData c d rnd skb s = Some s'"
  shows "moves s s'"
proof (cases rule: processRxData_split [OF assms(1,4), of c d rnd])
  case 1
  then show ?thesis using assms(5) by (intro moves_keep) auto
next
  case 2
  then show ?thesis
    using deliverDataFrame_safe [OF inv_stack [OF assms(1)] assms(2) _ assms(4), of "rnd 0" d] assms(3,5) data_moves by auto
next
  case (3 res)
  then show ?thesis using dispatch_moves [OF assms(1-3), of res d s'] assms(5) by auto
qed

lemma rxFrame_moves:
  assumes "mlme_inv s" "sha_stack c" "\<forall>i. length (rnd i) = 32" "rxFrame c d rnd skbo s = Some s'"
  shows "moves s s'"
proof (cases skbo)
  case None
  then show ?thesis using assms(4) moves_refl by (simp add: rxFrame_def)
next
  case (Some skb)
  show ?thesis
  proof (cases "length (f_data skb) < 24")
    case True
    then show ?thesis using assms(4) by (intro moves_keep) (auto simp: rxFrame_def Some)
  next
    case False
    then have l: "24 \<le> length (f_data skb)" by simp
    obtain fc where fc: "frame_control_of (f_data skb) = Some fc" using frame_control_24 [OF l] by blast
    define t where "t = s\<lparr>k_rssi := rs_signal (f_rxs skb), k_rxFrameCount := k_rxFrameCount s + 1\<rparr>"
    have t: "mlme_inv t" "k_state t = k_state s" using assms(1) by (simp_all add: t_def)
    have m: "moves t u \<Longrightarrow> moves s u" for u using t(2) by (simp add: moves_def)
    obtain b u where u: "tryDeliverAWDLDataFrame skb t = Some (b, u)" "mlme_inv u" "k_state u = k_state t"
      using tryDeliverAWDL_same [OF inv_stack [OF t(1)]] inv_same [OF _ t(1)] same_modeD(1) by blast
    note us = u(3)
    have mu: "moves u v \<Longrightarrow> moves t v" for v using us by (simp add: moves_def)
    note code = assms(4) [unfolded rxFrame_def Some option.case if_not_P [OF False] fc bind.bind_lunit Let_def t_def [symmetric] u(1) prod.case]
    consider "processRxMgmt c d skb t = Some s'" | "s' = u" | "processRxData c d rnd skb u = Some s'" | "s' = free_skb t"
      using code by (cases "ieee80211_is_mgmt fc"; cases "ieee80211_is_data fc"; cases b) simp_all
    then show ?thesis
    proof cases
      case 1
      then show ?thesis using m processRxMgmt_moves [OF t(1)] by blast
    next
      case 3
      then show ?thesis using m mu processRxData_moves [OF u(2) assms(2,3) l] by blast
    qed (use us t(2) moves_keep in auto)
  qed
qed

lemma scanDone_moves:
  assumes "mlme_inv s" "scanDone b s = Some s'"
  shows "moves s s'"
proof -
  have r: "k_scanReturnState s = RTW88_STATE_IDLE" by (rule inv_ret [OF assms(1)])
  have a: "k_state (snd (setAWDLChannel n t)) = k_state t" for n t by (rule same_modeD(1) [OF same_mode_awdl_channel])
  have "k_state s' = k_state s \<or> k_state s' = RTW88_STATE_IDLE"
    using assms(2) r by (auto simp: scanDone_def Let_def a split: if_splits)
  then show ?thesis using moves_keep moves_to_idle [OF assms(1)] by blast
qed

lemma onTimer_moves:
  assumes "mlme_inv s" "onTimer d s = Some s'"
  shows "moves s s'"
proof -
  have r: "k_scanReturnState (cancel_hw_scan d s) = RTW88_STATE_IDLE" using inv_ret [OF assms(1)] by (simp add: cancel_hw_scan_def)
  have "k_state s' = k_state s \<or> k_state s' = RTW88_STATE_IDLE"
    using assms(2) r by (cases "k_state s") (auto simp: onTimer_def Let_def restore_none split: if_splits)
  then show ?thesis using moves_keep moves_to_idle [OF assms(1)] by blast
qed

lemma moves_extra:
  "mscan_begin s = Some (r, t) \<Longrightarrow> mlme_inv s \<Longrightarrow> moves s t" "mscan_leave d conn s = Some t \<Longrightarrow> mlme_inv s \<Longrightarrow> moves s t"
  "mscan_visit d chan s = Some t \<Longrightarrow> moves s t" "mscan_home d conn s = Some t \<Longrightarrow> mlme_inv s \<Longrightarrow> moves s t"
  "auth_channel s = Some t \<Longrightarrow> moves s t" "auth_send d s = Some t \<Longrightarrow> moves s t" "moves s (auth_arm s)"
proof -
  have null: "k_state (snd (txNullFunc d b u)) = k_state u" for b u by (rule same_modeD(1)) simp
  have idle: "mlme_inv s \<Longrightarrow> k_scanReturnState (s\<lparr>k_manualScanOnHomeChannel := False\<rparr>) = RTW88_STATE_IDLE" using inv_ret by simp
  have sd: "mlme_inv s \<Longrightarrow> scanDone True s = Some u \<Longrightarrow> moves s (u\<lparr>k_manualScanChannelCount := 0\<rparr>)" for u
    using scanDone_moves [of s True u] by (simp add: moves_def builtin_wpa2_def)
  show "mscan_begin s = Some (r, t) \<Longrightarrow> mlme_inv s \<Longrightarrow> moves s t"
    by (auto simp: mscan_begin_def moves_keep split: if_splits bind_splits dest: inv_hw)
  show "mscan_leave d conn s = Some t \<Longrightarrow> mlme_inv s \<Longrightarrow> moves s t"
    by (rule moves_keep) (auto simp: mscan_leave_def Let_def null restore_none [OF idle] split: if_splits)
  show "mscan_home d conn s = Some t \<Longrightarrow> mlme_inv s \<Longrightarrow> moves s t"
    by (rule moves_keep) (auto simp: mscan_home_def null split: if_splits)
  show "moves s (auth_arm s)" by (rule moves_keep) (simp add: auth_arm_def)
  show "mscan_visit d chan s = Some t \<Longrightarrow> moves s t"
  proof -
    assume v: "mscan_visit d chan s = Some t"
    then have n: "k_hw s \<noteq> None" by (cases "k_hw s") (simp_all add: mscan_visit_def)
    define u where "u = emit (FxSwScanSwitch chan) (tune chan s)"
    have "same_mode s u" using same_mode_tune by (simp add: u_def)
    moreover have "t = u \<or> (\<exists>r. txProbeRequest d u = Some r \<and> t = snd r)"
      using v unfolding mscan_visit_def if_not_P [OF n] Let_def u_def [symmetric]
      by (cases "ch_flags chan AND (IEEE80211_CHAN_NO_IR OR IEEE80211_CHAN_RADAR) \<noteq> 0") auto
    ultimately have "same_mode s t" using same_mode_probe same_mode_trans by blast
    then show ?thesis by (rule moves_same)
  qed
  show "auth_channel s = Some t \<Longrightarrow> moves s t"
  proof -
    assume a: "auth_channel s = Some t"
    obtain c u where cu: "find_channel (\<lambda>c. ch_hw_value c = ucast (b_channel (k_targetBSS s))) s = (c, u)" by fastforce
    have n: "k_hw s \<noteq> None" using a by (cases "k_hw s") (simp_all add: auth_channel_def)
    obtain v where v: "(case c of None \<Rightarrow> Some u | Some chan \<Rightarrow> setConnectedChandef chan u) = Some v" "k_state t = k_state v"
      using a unfolding auth_channel_def if_not_P [OF n] cu Let_def prod.case by (auto split: bind_splits)
    have "same_mode u v" using v(1) same_mode_chandef by (auto split: option.splits)
    then show ?thesis using same_mode_find [OF cu] same_modeD(1) v(2) by (intro moves_keep) metis
  qed
  show "auth_send d s = Some t \<Longrightarrow> moves s t"
  proof (rule moves_keep)
    assume a: "auth_send d s = Some t"
    have m: "k_state (snd (txMgmtFrame d f u)) = k_state u" for f u by (rule same_modeD(1)) simp
    show "k_state t = k_state s"
      using a by (auto simp: auth_send_def Let_def buildAuthReq_def upd_vif_def next_txSeq_def m split: if_splits bind_splits)
  qed
qed

lemma mscan_finish_moves:
  assumes "mlme_inv s" "mscan_finish d conn s = Some s'"
  shows "moves s s'"
proof -
  define t where "t = emit FxSwScanComplete (s\<lparr>k_manualScanOnHomeChannel := False\<rparr>)"
  define u where "u = (if conn then snd (txNullFunc d False t) else t)"
  have t: "mlme_inv t" "k_state t = k_state s" using assms(1) by (simp_all add: t_def)
  have u: "(if conn then do { s \<leftarrow> restoreConnectedChannel t; Some (snd (txNullFunc d False s)) } else Some t) = Some u" "mlme_inv u"
    using t restore_inv [OF t(1)] by (simp_all add: u_def)
  have us: "k_state u = k_state s" using t(2) same_modeD(1) [of t u] by (simp add: u_def)
  note code = assms(2) [unfolded mscan_finish_def Let_def t_def [symmetric] u(1) bind.bind_lunit]
  obtain v where v: "scanDone (k_manualScanAbort u) u = Some v" using scanDone_inv [OF u(2)] by blast
  have "moves u v" by (rule scanDone_moves [OF u(2) v])
  then show ?thesis using code v us by (auto simp: moves_def builtin_wpa2_def)
qed

lemma link_step_moves: "link_step l l' \<Longrightarrow> link_ok l \<Longrightarrow> moves (l_st l) (l_st l')"
proof (induction rule: link_step.induct)
  case (connect_after l ws ret a ws' b s d)
  then have i: "mlme_inv (l_st l)" and r: "ret = RTW88_STATE_IDLE" by (auto simp: link_ok_def caller_ok_def)
  let ?t = "if b then snd (cmdConnect d a s) else s"
  consider "s = l_st l" | "k_state (l_st l) = RTW88_STATE_SCANNING" "k_state s = RTW88_STATE_IDLE"
    using abort_end_state [OF i connect_after(2) [unfolded r]] by blast
  then show ?case
  proof cases
    case 1
    then show ?thesis using cmdConnect_moves moves_refl by simp
  next
    case 2
    then show ?thesis using moves_via_idle [OF 2] cmdConnect_state(1) [of d a s] by auto
  qed
next
  case (power_off_after l ws ret ws' b s d)
  then have i: "mlme_inv (l_st l)" and r: "ret = RTW88_STATE_IDLE" by (auto simp: link_ok_def caller_ok_def)
  consider "s = l_st l" | "k_state s = RTW88_STATE_IDLE" using abort_end_state [OF i power_off_after(2) [unfolded r]] by blast
  then show ?case
  proof cases
    case 1
    then show ?thesis using cmdPowerOff_moves [OF i] by simp
  next
    case 2
    have "k_state (snd (cmdPowerOff d b s)) = RTW88_STATE_IDLE" using 2 by (cases b) (auto simp: cmdPowerOff_def Let_def)
    then show ?thesis using moves_to_idle [OF i] by simp
  qed
qed (auto simp: link_ok_def moves_refl intro: cmdScan_moves cmdConnect_moves moves_same [OF abort_begin_inv] cancel_same cmdDisconnect_moves
    cmdPowerOff_moves cmdPowerOn_moves moves_same [OF same_mode_multicast] moves_same [OF same_mode_awdl] moves_same [OF same_mode_awdl_channel]
    install_key_moves set_rsn_moves output_moves rxFrame_moves flush_moves scanDone_moves onTimer_moves moves_extra mscan_finish_moves)

end
