(* ===== verification/LinkProps.thy ===== *)
theory LinkProps
  imports Interleave
begin

text \<open>
  What holds of the connection state machine from its start: the invariant of every reachable state, that no section
  leaves a buffer or follows a null pointer, the moves it makes, that the threads finish, and what starting,
  disconnecting and the last section of switching off leave behind.
\<close>

section \<open>Starting\<close>

definition probe_ok :: "probe_result \<Rightarrow> bool" where
  "probe_ok p \<longleftrightarrow> length (p_perm_addr p) = 6 \<and> (\<forall>hw bs. p_hw p = Some hw \<longrightarrow> h_bands hw = Some bs \<longrightarrow> bands_ok bs)"

lemma start_cases:
  obtains "start device p d s = (Unsupported, s)" | "start device p d s = (IOError, emit FxProbe s)" "p_ret p \<noteq> 0"
  | t where "start device p d s = fail_probe t" "k_vif t = k_vif s \<or> k_vif t = None" "p_ret p = 0"
  | t hw where "start device p d s = (IOSuccess, go_idle t)" "p_hw p = Some hw" "p_ret p = 0"
      "t = emit FxRegisterVif (emit FxAddInterface (emit FxHwStart ((emit FxProbe s)\<lparr>k_hw := Some hw, k_rtwdev := True, k_macAddr := p_perm_addr p,
             k_answers := tl (k_answers s), k_vif := Some (start_vif (p_perm_addr p)), k_powered := True\<rparr>)))"
proof -
  show thesis
  proof (cases "device \<in> set rtw88_pci_chip_table \<and> p_ret p = 0")
    case False
    then have "start device p d s = (Unsupported, s) \<or> start device p d s = (IOError, emit FxProbe s) \<and> p_ret p \<noteq> 0"
      by (auto simp: start_def Let_def)
    then show thesis using that(1,2) by blast
  next
    case True
    define t where "t = (emit FxProbe s)\<lparr>k_hw := p_hw p, k_rtwdev := p_hw p \<noteq> None \<and> p_priv p\<rparr>"
    define u where "u = t\<lparr>k_macAddr := p_perm_addr p, k_answers := tl (k_answers s)\<rparr>"
    define v where "v = u\<lparr>k_vif := Some (start_vif (p_perm_addr p))\<rparr>"
    define w where "w = emit FxAddInterface ((emit FxHwStart v)\<lparr>k_powered := True\<rparr>)"
    have eqs: "(emit FxProbe s)\<lparr>k_hw := p_hw p, k_rtwdev := p_hw p \<noteq> None \<and> p_priv p\<rparr> = t"
      "ask (t\<lparr>k_macAddr := p_perm_addr p\<rparr>) = (answer s, u)" "k_macAddr u = p_perm_addr p"
      "u\<lparr>k_vif := Some (start_vif (p_perm_addr p))\<rparr> = v" "emit FxAddInterface ((emit FxHwStart v)\<lparr>k_powered := True\<rparr>) = w"
      by (simp_all add: t_def u_def v_def w_def answer_def emit_def)
    have tests: "device \<in> set rtw88_pci_chip_table" "p_ret p = 0" using True by simp_all
    have code: "start device p d s =
      (if k_hw t = None \<or> \<not> k_rtwdev t \<or> \<not> has_wiphy t \<or> \<not> d_ops d then fail_probe t
       else if \<not> answer s then fail_probe u
       else case d_add_interface d of
           None \<Rightarrow> fail_vif d v
         | Some add_ret \<Rightarrow>
           (case d_start d of
              None \<Rightarrow> fail_vif d v
            | Some ret \<Rightarrow> if ret \<noteq> 0 then fail_vif d (emit FxHwStart v)
              else if add_ret \<noteq> 0 then fail_vif d w else (IOSuccess, go_idle (emit FxRegisterVif w))))"
      unfolding start_def Let_def eqs prod.case using tests by (simp only: eqs not_True_eq_False not_False_eq_True if_True if_False simp_thms)
    have vif: "\<exists>y. fail_vif d x = fail_probe y \<and> k_vif y = None" for x by (auto simp: fail_vif_def Let_def)
    have pr: "k_vif t = k_vif s" "k_vif u = k_vif s" by (simp_all add: t_def u_def)
    have p0: "p_ret p = 0" using True by simp
    show thesis
    proof (cases "k_hw t = None \<or> \<not> k_rtwdev t \<or> \<not> has_wiphy t \<or> \<not> d_ops d \<or> \<not> answer s")
      case True
      then have "start device p d s = fail_probe t \<or> start device p d s = fail_probe u" unfolding code by auto
      then show thesis using that(3) pr p0 by blast
    next
      case ok: False
      show thesis
      proof (cases "d_add_interface d = Some 0 \<and> d_start d = Some 0")
        case True
        then have "start device p d s = (IOSuccess, go_idle (emit FxRegisterVif w))" unfolding code using ok by (simp del: not_None_eq)
        moreover obtain hw where hw: "p_hw p = Some hw" "p_priv p" using ok by (auto simp: t_def)
        moreover have "emit FxRegisterVif w = emit FxRegisterVif (emit FxAddInterface (emit FxHwStart ((emit FxProbe s)\<lparr>k_hw := Some hw, k_rtwdev := True, k_macAddr := p_perm_addr p,
             k_answers := tl (k_answers s), k_vif := Some (start_vif (p_perm_addr p)), k_powered := True\<rparr>)))"
          using hw by (simp add: w_def v_def u_def t_def emit_def)
        ultimately show thesis using that(4) p0 by blast
      next
        case False
        then have "\<exists>x. start device p d s = fail_vif d x" unfolding code using ok by (auto split: option.splits)
        then show thesis using that(3) vif p0 by metis
      qed
    qed
  qed
qed

text \<open>
  C15: Starting is all or nothing. When \<open>start\<close> does not succeed, the class holds no hardware, no private driver data
  and no interface, is not powered, and after a completed probe the driver has been removed again; the device numbers of
  the table are the only ones it tries. When it succeeds the class is powered and idle, with the address of the hardware
  on its interface.
\<close>

theorem start_all_or_nothing:
  assumes "k_hw s = None" "\<not> k_rtwdev s" "k_vif s = None" "\<not> k_powered s"
  shows "(case start device p d s of (ret, s') \<Rightarrow>
    if ret = IOSuccess
    then k_powered s' \<and> k_state s' = RTW88_STATE_IDLE \<and> k_macAddr s' = p_perm_addr p \<and> k_hw s' = p_hw p
         \<and> map_option vif_addr (k_vif s') = Some (p_perm_addr p) \<and> device \<in> set rtw88_pci_chip_table
    else k_hw s' = None \<and> \<not> k_rtwdev s' \<and> k_vif s' = None \<and> \<not> k_powered s' \<and> (p_ret p = 0 \<and> k_fx s' \<noteq> k_fx s \<longrightarrow> last (k_fx s') = FxRemove))"
proof (cases rule: start_cases [of device p d s])
  case 4
  have "device \<in> set rtw88_pci_chip_table" using 4(1) by (auto simp: start_def split: if_splits)
  then show ?thesis using 4 by (simp add: go_idle_def start_vif_def)
qed (use assms in \<open>auto simp: fail_probe_def\<close>)

definition demo_probe :: probe_result where
  "demo_probe = \<lparr>p_ret = 0, p_hw = Some demo_hw, p_priv = True, p_perm_addr = [2, 0, 0, 0, 0, 1]\<rparr>"

definition demo_started :: RTW88IEEE80211 where
  "demo_started = snd (start 0xC822 demo_probe demo_drv stack0)"

theorem start_all_or_nothing_witness:
  "k_powered demo_started \<and> k_macAddr demo_started = [2, 0, 0, 0, 0, 1]"
proof -
  have "fst (start 0xC822 demo_probe demo_drv stack0) = IOSuccess"
    by (simp add: start_def rtw88_pci_chip_table_def demo_probe_def demo_drv_def stack0_def demo_hw_def has_wiphy_def answer_def emit_def Let_def)
  then show ?thesis using start_all_or_nothing [of stack0, where device = "0xC822" and p = demo_probe and d = demo_drv]
    by (simp add: demo_started_def case_prod_beta stack0_def demo_probe_def)
qed

section \<open>From the start on\<close>

text \<open>A class that \<open>start\<close> brought up, from members of the right shape and without a peer station.\<close>

definition started :: "RTW88IEEE80211 \<Rightarrow> bool" where
  "started s \<longleftrightarrow> (\<exists>device p d s0. start device p d s0 = (IOSuccess, s) \<and> shape_ok s0 \<and> k_sta s0 = None \<and> probe_ok p)"

lemma started_inv:
  assumes "started s"
  shows "mlme_inv s"
proof -
  obtain device p d s0 where st: "start device p d s0 = (IOSuccess, s)" and ok: "shape_ok s0" "k_sta s0 = None" "probe_ok p"
    using assms unfolding started_def by blast
  show ?thesis
  proof (cases rule: start_cases [of device p d s0])
    case (4 t hw)
    have "shape_ok t" using ok(1,3) 4(2)
      by (auto simp: 4(4) shape_ok_def stack_ok_def hw_ok_def nets_ok_def held_len_def probe_ok_def)
    then have "quiet_ok t" using ok(2) by (simp add: quiet_ok_def 4(4))
    then show ?thesis using st 4(1) go_idle_inv [of t] by auto
  qed (use st in \<open>simp_all add: fail_probe_def\<close>)
qed

lemma demo_start: "start 0xC822 demo_probe demo_drv stack0 = (IOSuccess, demo_started)"
proof -
  have "fst (start 0xC822 demo_probe demo_drv stack0) = IOSuccess"
    by (simp add: start_def rtw88_pci_chip_table_def demo_probe_def demo_drv_def stack0_def demo_hw_def has_wiphy_def answer_def emit_def Let_def)
  then show ?thesis by (simp add: demo_started_def prod_eq_iff)
qed

lemma demo_fields:
  "k_state demo_started = RTW88_STATE_IDLE" "k_powered demo_started" "has_ops demo_drv demo_started" "\<not> k_externalSupplicant demo_started"
  by (simp_all add: demo_started_def start_def rtw88_pci_chip_table_def demo_probe_def demo_drv_def stack0_def demo_hw_def
      has_wiphy_def has_ops_def answer_def emit_def go_idle_def Let_def)

lemma demo_shape: "shape_ok stack0"
  using stack0_ok by (simp add: shape_ok_def hw_ok_def nets_ok_def held_len_def stack0_def scan_db0_def held_def)

lemma demo_started_ok: "started demo_started"
proof -
  have "probe_ok demo_probe" by (simp add: probe_ok_def demo_probe_def demo_hw_def bands_ok_def NL80211_NUM_BANDS_def)
  moreover have "k_sta stack0 = None" by (simp add: stack0_def)
  ultimately show ?thesis using demo_start demo_shape unfolding started_def by blast
qed

lemma reaches_ok:
  assumes "reaches (link0 s) l" "started s"
  shows "link_ok l"
  using assms
proof (induction rule: reaches.induct)
  case start
  then show ?case using started_inv by (simp add: link_ok_def link0_def)
next
  case (step l l')
  then show ?case using link_ok_step by blast
qed

lemma reaches_inv: "reaches (link0 s) l \<Longrightarrow> started s \<Longrightarrow> mlme_inv (l_st l)"
  using reaches_ok by (simp add: link_ok_def)

text \<open>A first request in that class, and the two runs the witnesses use.\<close>

definition demo_link :: link where
  "demo_link = goes (link0 demo_started) (snd (cmdScan demo_drv demo_started))"

lemma demo_reaches: "reaches (link0 demo_started) demo_link"
  using reaches.step [OF reaches.start link_step.scan, of "link0 demo_started" demo_drv] by (simp add: demo_link_def link0_def)

text \<open>
  C1: Invariant of the connection state machine under every interleaving of callers, received frames, timers, driver
  notifications and the two worker threads: the class is powered in every mode but idle; it holds hardware and an
  interface; no peer station exists before the association, and the peer is the target; a handshake runs only for WPA2
  without an external supplicant, and such a connection has a pairwise key. A scan is never started from a
  connection, so the code that leaves and restores a connected channel around a scan is never entered.
\<close>

theorem link_invariant:
  assumes "started s" and "reaches (link0 s) l"
  shows "mlme_inv (l_st l) \<and> \<not> (\<exists>i n. l_spc l \<in> {SNext i n True, SVisit i n True, SHome i n True})"
proof -
  have "\<not> (\<exists>i n. l_spc l \<in> {SNext i n True, SVisit i n True, SHome i n True})"
    using assms(2,1)
  proof (induction rule: reaches.induct)
    case start
    then show ?case by (simp add: link0_def)
  next
    case (step l l')
    have r: "k_scanReturnState (l_st l) = RTW88_STATE_IDLE" using inv_ret reaches_inv step by blast
    have home: "mscan_begin (l_st l) = Some (Some (n, b), t) \<Longrightarrow> \<not> b" for n b t
      using r by (auto simp: mscan_begin_def split: if_splits bind_splits)
    have old: "\<not> (\<exists>i n. l_spc l \<in> {SNext i n True, SVisit i n True, SHome i n True})" using step by blast
    from step(2) old home show ?case by (cases rule: link_step.cases) (auto split: option.splits)
  qed
  then show ?thesis using reaches_inv assms by blast
qed

theorem link_invariant_witness: "mlme_inv (snd (cmdScan demo_drv demo_started))"
  using link_invariant [OF demo_started_ok demo_reaches] by (simp add: demo_link_def link0_def)

text \<open>
  C3: No section faults: in every reachable state a frame of any contents, of at most the length its buffer has, is received without
  a read or write out of bounds and without following a null pointer, and so are the timers, the end of a scan, the
  transmit path and every section of the two threads. On receipt the RSN element an external supplicant stored must leave room in
  the association request.
\<close>

theorem link_never_faults:
  assumes "started s" and "reaches (link0 s) l" and "rsn_fits (l_st l)" and "sha_stack c" and "\<forall>i. length (rnd i) = 32"
  shows "rxFrame c d rnd skb (l_st l) \<noteq> None \<and> rxReorderFlushStale_k c d rnd (l_st l) \<noteq> None
      \<and> onTimer d (l_st l) \<noteq> None \<and> scanDone aborted (l_st l) \<noteq> None \<and> outputPacket d m (l_st l) \<noteq> None
      \<and> auth_channel (l_st l) \<noteq> None \<and> auth_send d (l_st l) \<noteq> None
      \<and> mscan_begin (l_st l) \<noteq> None \<and> mscan_leave d conn (l_st l) \<noteq> None \<and> mscan_visit d chan (l_st l) \<noteq> None
      \<and> mscan_home d conn (l_st l) \<noteq> None \<and> mscan_finish d conn (l_st l) \<noteq> None"
proof -
  note i = reaches_inv [OF assms(2,1)]
  show ?thesis
    using rxFrame_inv [OF i assms(3-5), of d skb] flush_inv [OF i assms(4,5), of d] onTimer_inv [OF i, of d] scanDone_inv [OF i, of aborted]
      outputPacket_inv [OF i, of d m] auth_channel_inv [OF i] auth_send_inv [OF i, of d] mscan_begin_inv [OF i]
      mscan_leave_inv [OF i, of d conn] mscan_visit_inv [OF i, of d chan] mscan_home_inv [OF i, of d conn]
      mscan_finish_inv [OF i, of d conn] by auto
qed

text \<open>A key derivation context and nonces for the witnesses.\<close>

definition demo_rnd :: "nat \<Rightarrow> bytes" where
  "demo_rnd i = replicate 32 (of_nat i)"

lemma demo_env: "sha_stack demo_stack" "\<forall>i. length (demo_rnd i) = 32" "rsn_fits (l_st demo_link)"
proof -
  have "\<not> k_externalSupplicant (snd (cmdScan demo_drv demo_started))"
    by (cases rule: cmdScan_cases [OF demo_fields(1,2,3)]) (auto simp: scan_fail_def demo_fields(4) dest: same_modeD(9))
  then show "rsn_fits (l_st demo_link)" by (simp add: demo_link_def rsn_fits_def link0_def)
qed (simp_all add: demo_rnd_def demo_ready_ok)

theorem link_never_faults_witness:
  "rxFrame demo_stack demo_drv demo_rnd (Some \<lparr>f_data = replicate 24 255, f_rxs = demo_rxs\<rparr>) (l_st demo_link) \<noteq> None"
  using link_never_faults [OF demo_started_ok demo_reaches demo_env(3,1,2)] by blast

text \<open>
  C2: The modes move only along the edges of the state machine, whatever interleaves: from idle to a scan or to
  authentication, on to association, to the handshake or, for an open or externally keyed network, straight to the connection, and
  from everywhere back to idle. A WPA2 connection with the built-in supplicant comes out of the handshake and of
  nothing else.
\<close>

theorem link_moves_allowed:
  assumes "started s" and "reaches (link0 s) l" and "link_step l l'"
  shows "(k_state (l_st l') = k_state (l_st l) \<or> k_state (l_st l') \<in> set (successors (k_state (l_st l))))
    \<and> (k_state (l_st l') = RTW88_STATE_CONNECTED \<and> k_wpa2 (l_st l') \<and> \<not> k_externalSupplicant (l_st l')
        \<longrightarrow> k_state (l_st l) \<in> {RTW88_STATE_HANDSHAKING, RTW88_STATE_CONNECTED})"
  using link_step_moves [OF assms(3) reaches_ok [OF assms(2,1)]] by (simp add: moves_def builtin_wpa2_def)

theorem link_moves_allowed_witness:
  "k_state (l_st demo_link) \<in> {RTW88_STATE_IDLE, RTW88_STATE_SCANNING, RTW88_STATE_AUTHENTICATING}"
proof -
  have "link_step (link0 demo_started) demo_link"
    using link_step.scan [of "link0 demo_started" demo_drv] by (simp add: demo_link_def link0_def)
  then show ?thesis using link_moves_allowed [OF demo_started_ok reaches.start] by (simp add: link0_def demo_fields(1))
qed

section \<open>The threads end\<close>

fun conn_rank :: "conn_pc \<Rightarrow> nat" where
  "conn_rank CIdle = 0"
| "conn_rank CArm = 1"
| "conn_rank CSend = 2"
| "conn_rank CSettle = 3"
| "conn_rank (CPoll i) = 104 - i"
| "conn_rank CStart = 105"

fun scan_rank :: "scan_pc \<Rightarrow> nat" where
  "scan_rank SIdle = 0"
| "scan_rank (SHome i n b) = 3 * (n - Suc i) + 2"
| "scan_rank (SVisit i n b) = 3 * (n - Suc i) + 3"
| "scan_rank (SNext i n b) = 3 * (n - i) + 1"
| "scan_rank SStart = 770"

definition pcs_ok :: "link \<Rightarrow> bool" where
  "pcs_ok l \<longleftrightarrow> (\<forall>i. l_cpc l = CPoll i \<longrightarrow> i \<le> 100) \<and> scan_rank (l_spc l) \<le> 770"

lemma pcs_step: "link_step l l' \<Longrightarrow> pcs_ok l \<Longrightarrow> pcs_ok l'"
  by (cases rule: link_step.cases)
    (auto simp: pcs_ok_def auth_poll_def mscan_begin_def split: if_splits poll.splits option.splits bind_splits)

lemma reaches_pcs: "reaches (link0 s) l \<Longrightarrow> pcs_ok l"
proof (induction rule: reaches.induct)
  case start
  then show ?case by (simp add: pcs_ok_def link0_def)
qed (use pcs_step in blast)

lemma conn_falls:
  "link_step l l' \<Longrightarrow> pcs_ok l \<Longrightarrow> l_cpc l' = l_cpc l \<or> conn_rank (l_cpc l') < conn_rank (l_cpc l) \<or> l_cpc l = CIdle \<and> l_cpend l \<and> l_cpc l' = CStart"
  by (cases rule: link_step.cases) (auto simp: pcs_ok_def auth_poll_def split: if_splits poll.splits)

lemma scan_falls:
  "link_step l l' \<Longrightarrow> l_spc l' = l_spc l \<or> scan_rank (l_spc l') < scan_rank (l_spc l) \<or> l_spc l = SIdle \<and> l_spend l \<and> l_spc l' = SStart"
  by (cases rule: link_step.cases) (auto simp: mscan_begin_def split: if_splits option.splits bind_splits)

lemma conn_runs:
  assumes "mlme_inv (l_st l)" "pcs_ok l" "l_cpc l \<noteq> CIdle"
  shows "\<exists>l'. link_step l l' \<and> conn_rank (l_cpc l') < conn_rank (l_cpc l)"
proof (cases "l_cpc l")
  case CStart
  show ?thesis by (rule exI, rule conjI, rule c_start [OF CStart]) (simp add: CStart)
next
  case (CPoll i)
  then have i: "i \<le> 100" using assms(2) by (simp add: pcs_ok_def)
  show ?thesis by (rule exI, rule conjI, rule c_poll [OF CPoll, of True]) (use i in \<open>auto simp: CPoll auth_poll_def\<close>)
next
  case CSettle
  obtain s where "auth_channel (l_st l) = Some s" using auth_channel_inv [OF assms(1)] by blast
  then show ?thesis using c_settle_end [OF CSettle] c_settle [OF CSettle] CSettle by (cases "authenticationCancelled (l_st l)") fastforce+
next
  case CSend
  obtain s where s: "auth_send demo_drv (l_st l) = Some s" using auth_send_inv [OF assms(1)] by blast
  show ?thesis by (rule exI, rule conjI, rule c_send [OF CSend s]) (simp add: CSend)
next
  case CArm
  show ?thesis by (rule exI, rule conjI, rule c_arm [OF CArm]) (simp add: CArm)
qed (use assms(3) in simp)

lemma scan_runs:
  assumes "mlme_inv (l_st l)" "l_spc l \<noteq> SIdle"
  shows "\<exists>l'. link_step l l' \<and> scan_rank (l_spc l') < scan_rank (l_spc l)"
proof (cases "l_spc l")
  case SStart
  obtain r s where s: "mscan_begin (l_st l) = Some (r, s)" using mscan_begin_inv [OF assms(1)] by blast
  show ?thesis by (rule exI, rule conjI, rule s_start [OF SStart s])
      (use s in \<open>auto simp: SStart mscan_begin_def split: if_splits bind_splits option.splits\<close>)
next
  case (SNext i n conn)
  show ?thesis
  proof (cases "i \<ge> n \<or> k_manualScanAbort (l_st l)")
    case True
    obtain s where s: "mscan_finish demo_drv conn (l_st l) = Some s" using mscan_finish_inv [OF assms(1)] by blast
    show ?thesis by (rule exI, rule conjI, rule s_finish [OF SNext True s]) (simp add: SNext)
  next
    case False
    then have g: "i < n" "\<not> k_manualScanAbort (l_st l)" by simp_all
    show ?thesis
    proof (cases "i < length (k_manualScanChannels (l_st l))")
      case True
      obtain s where s: "mscan_leave demo_drv conn (l_st l) = Some s" using mscan_leave_inv [OF assms(1)] by blast
      show ?thesis by (rule exI, rule conjI, rule s_leave [OF SNext g True s]) (use g in \<open>simp add: SNext\<close>)
    next
      case False
      then have e: "i \<ge> length (k_manualScanChannels (l_st l))" by simp
      show ?thesis by (rule exI, rule conjI, rule s_skip [OF SNext g e]) (use g in \<open>simp add: SNext\<close>)
    qed
  qed
next
  case (SVisit i n conn)
  obtain s where s: "mscan_visit demo_drv demo_chan (l_st l) = Some s" using mscan_visit_inv [OF assms(1)] by blast
  show ?thesis by (rule exI, rule conjI, rule s_visit [OF SVisit s]) (simp add: SVisit)
next
  case (SHome i n conn)
  obtain s where s: "mscan_home demo_drv conn (l_st l) = Some s" using mscan_home_inv [OF assms(1)] by blast
  show ?thesis by (rule exI, rule conjI, rule s_home [OF SHome s]) (simp add: SHome)
qed (use assms(2) in simp)

lemma cancelled_ends:
  "mlme_inv (l_st l) \<Longrightarrow> link_step l l' \<Longrightarrow> authenticationCancelled (l_st l) \<Longrightarrow> l_cpc l \<noteq> CIdle \<Longrightarrow> l_cpc l' = l_cpc l \<or> l_cpc l' = CIdle"
  by (erule link_step.cases) (auto simp: auth_begin_def auth_poll_def auth_send_def)

text \<open>
  C13: Both worker threads end. Whatever interleaves, a section of the authentication or of a manual scan only lowers
  what is left of it, no other step raises it, and a call that is running can always go on: a call of the connect
  thread takes at most 105 sections (100 looks at the driver's scan flag) and a manual scan at most 770 (three for each of at most
  256 channels). After \<open>cancelAuthentication\<close> the next section of the connect thread is its last.
\<close>

theorem threads_terminate:
  assumes "started s" and "reaches (link0 s) l"
  shows "conn_rank (l_cpc l) \<le> 105 \<and> scan_rank (l_spc l) \<le> 770
    \<and> (l_cpc l \<noteq> CIdle \<longrightarrow> (\<exists>l'. link_step l l' \<and> conn_rank (l_cpc l') < conn_rank (l_cpc l)))
    \<and> (l_spc l \<noteq> SIdle \<longrightarrow> (\<exists>l'. link_step l l' \<and> scan_rank (l_spc l') < scan_rank (l_spc l)))
    \<and> (\<forall>l'. link_step l l' \<longrightarrow>
         (l_cpc l' = l_cpc l \<or> conn_rank (l_cpc l') < conn_rank (l_cpc l) \<or> l_cpc l = CIdle \<and> l_cpend l \<and> l_cpc l' = CStart)
         \<and> (l_spc l' = l_spc l \<or> scan_rank (l_spc l') < scan_rank (l_spc l) \<or> l_spc l = SIdle \<and> l_spend l \<and> l_spc l' = SStart)
         \<and> (authenticationCancelled (l_st l) \<and> l_cpc l \<noteq> CIdle \<longrightarrow> l_cpc l' = l_cpc l \<or> l_cpc l' = CIdle))"
proof -
  note i = reaches_inv [OF assms(2,1)] and p = reaches_pcs [OF assms(2)]
  have "conn_rank (l_cpc l) \<le> 105" using p by (cases "l_cpc l") (simp_all add: pcs_ok_def)
  moreover have "scan_rank (l_spc l) \<le> 770" using p by (simp add: pcs_ok_def)
  moreover have "link_step l l' \<Longrightarrow> authenticationCancelled (l_st l) \<Longrightarrow> l_cpc l \<noteq> CIdle \<Longrightarrow> l_cpc l' = l_cpc l \<or> l_cpc l' = CIdle" for l'
    using cancelled_ends [OF i] by blast
  ultimately show ?thesis using conn_runs [OF i p] scan_runs [OF i] conn_falls [OF _ p] scan_falls by blast
qed

theorem threads_terminate_witness: "conn_rank (l_cpc demo_link) \<le> 105 \<and> scan_rank (l_spc demo_link) \<le> 770"
  using threads_terminate [OF demo_started_ok demo_reaches] by blast

section \<open>Switching off\<close>

lemma powerOff_sel [simp]:
  "k_sta (powerOff d s) = k_sta s" "k_ptkConf (powerOff d s) = k_ptkConf s" "k_gtkConf (powerOff d s) = k_gtkConf s"
  "k_pmk (powerOff d s) = k_pmk s" "k_ptk (powerOff d s) = k_ptk s" "k_password (powerOff d s) = k_password s" "\<not> k_powered (powerOff d s)"
  by (simp_all add: powerOff_def)

lemma txMgmtFrame_sel [simp]:
  "k_sta (snd (txMgmtFrame d f s)) = k_sta s" "k_ptkConf (snd (txMgmtFrame d f s)) = k_ptkConf s"
  "k_gtkConf (snd (txMgmtFrame d f s)) = k_gtkConf s" "k_pmk (snd (txMgmtFrame d f s)) = k_pmk s"
  "k_ptk (snd (txMgmtFrame d f s)) = k_ptk s" "k_password (snd (txMgmtFrame d f s)) = k_password s"
  by (simp_all add: txMgmtFrame_def Let_def)

lemma doDisconnect_clears:
  assumes "k_hw s \<noteq> None" "k_vif s \<noteq> None"
  shows "k_sta (doDisconnect d s) = None" "k_ptkConf (doDisconnect d s) = None" "k_gtkConf (doDisconnect d s) = None"
    "k_pmk (doDisconnect d s) = replicate 32 0" "k_ptk (doDisconnect d s) = replicate 64 0" "k_password (doDisconnect d s) = replicate 64 0"
proof -
  have n: "\<not> (k_hw s = None \<or> k_vif s = None)" using assms by simp
  note code = doDisconnect_def [of d s, unfolded if_not_P [OF n] Let_def]
  show "k_sta (doDisconnect d s) = None" "k_ptkConf (doDisconnect d s) = None" "k_gtkConf (doDisconnect d s) = None"
    "k_pmk (doDisconnect d s) = replicate 32 0" "k_ptk (doDisconnect d s) = replicate 64 0" "k_password (doDisconnect d s) = replicate 64 0"
    unfolding code by (simp_all add: set_link_def go_idle_def upd_vif_def)
qed

text \<open>The secrets and the connection are gone.\<close>

definition wiped :: "RTW88IEEE80211 \<Rightarrow> bool" where
  "wiped s \<longleftrightarrow> k_sta s = None \<and> k_ptkConf s = None \<and> k_gtkConf s = None \<and> k_pmk s = replicate 32 0 \<and> k_ptk s = replicate 64 0
     \<and> k_password s = replicate 64 0"

text \<open>What follows the two waits, when no scan is left.\<close>

lemma cmdPowerOff_clears:
  assumes "mlme_inv s"
  obtains t where "cmdPowerOff d True s = (IOSuccess, t)" "k_state t = RTW88_STATE_IDLE" "k_scanReturnState t = RTW88_STATE_IDLE"
    "\<not> k_powered t" "wiped t" "mlme_inv t"
proof -
  have w: "wiped (doDisconnect d s)" "wiped (releaseSta d (clearKeys d s))"
    using doDisconnect_clears [OF inv_hw [OF assms]] by (simp_all add: wiped_def)
  have p: "wiped u \<Longrightarrow> wiped (set_link False (go_idle (powerOff d u)))" "\<not> k_powered (set_link False (go_idle (powerOff d u)))" for u
    by (simp_all add: wiped_def set_link_def go_idle_def)
  obtain u where u: "wiped u" "cmdPowerOff d True s = (IOSuccess, set_link False (go_idle (powerOff d u)))"
    using w unfolding cmdPowerOff_def Let_def by (cases "k_state s \<in> {RTW88_STATE_CONNECTED, RTW88_STATE_AUTHENTICATING, RTW88_STATE_ASSOCIATING, RTW88_STATE_HANDSHAKING}") auto
  show thesis
    by (rule that [OF u(2)])
      (use p [of u] u cmdPowerOff_inv [OF assms, of d True] in \<open>simp_all add: set_link_def go_idle_def\<close>)
qed

section \<open>Joining a network\<close>

lemma rxFrame_mgmt:
  assumes "24 \<le> length f" "frame_control_of f = Some fc" "ieee80211_is_mgmt fc"
  shows "rxFrame c d rnd (Some \<lparr>f_data = f, f_rxs = r\<rparr>) s
    = processRxMgmt c d \<lparr>f_data = f, f_rxs = r\<rparr> (s\<lparr>k_rssi := rs_signal r, k_rxFrameCount := k_rxFrameCount s + 1\<rparr>)"
  using assms by (simp add: rxFrame_def Let_def)

lemma mgmt_kinds: "ieee80211_is_mgmt 0x00B0" "ieee80211_is_mgmt 0x0010"
  by (simp_all add: ieee80211_is_mgmt_def IEEE80211_FCTL_FTYPE_def IEEE80211_FTYPE_MGMT_def)

lemma doAssociate_sends:
  assumes "mlme_inv s" "\<not> authenticationCancelled s" "rsn_fits s" "has_ops d s" "d_tx d" "k_answers s = []"
  shows "\<exists>req meta t. buildAssocReq s = Some (req, next_txSeq s) \<and> doAssociate d s = Some (emit (FxTimer 3000) (emit (FxTx req meta) t))
     \<and> t = (next_txSeq s)\<lparr>k_state := RTW88_STATE_ASSOCIATING\<rparr>"
proof -
  have hw: "\<not> (k_hw s = None \<or> k_vif s = None)" using inv_hw [OF assms(1)] by blast
  have ok: "stack_ok s" "hw_ok s" using assms(1) by (simp_all add: mlme_inv_def shape_ok_def)
  let ?f = "assoc_front s @ concat (map enc_el (assoc_elements s))"
  have b: "buildAssocReq s = Some (?f, next_txSeq s)"
    using buildAssocReq_code(1,3) [OF ok] assms(3) length_assoc_front [OF ok(1)] by (simp add: Let_def)
  define t where "t = (next_txSeq s)\<lparr>k_state := RTW88_STATE_ASSOCIATING\<rparr>"
  have t: "\<not> authenticationCancelled t" "k_state t = RTW88_STATE_ASSOCIATING" "has_ops d t" "k_answers t = []"
    using assms by (simp_all add: t_def next_txSeq_def has_ops_def authenticationCancelled_def)
  have a: "ask t = (True, t)" by (simp add: ask_def t(4) del: ask_eq)
  obtain meta where tx: "txMgmtFrame d ?f t = (True, emit (FxTx ?f meta) t)"
    using t(3) assms(5) unfolding txMgmtFrame_def a Let_def prod.case by simp
  have "authenticationCancelled (emit e t) = authenticationCancelled t" for e by (simp add: authenticationCancelled_def)
  then have "doAssociate d s = Some (emit (FxTimer 3000) (emit (FxTx ?f meta) t))"
    unfolding doAssociate_def if_not_P [OF hw] if_not_P [OF assms(2)] b bind.bind_lunit Let_def prod.case t_def [symmetric] tx
    using t(1,2) by simp
  then show ?thesis using b t_def by blast
qed

lemma associated_joins:
  assumes "mlme_inv s" "k_state s = RTW88_STATE_ASSOCIATING" "sha_stack c" "d_ops d" "d_sta_add d" "k_answers s = []"
  shows "\<exists>u sta. associated c d aid s = Some u \<and> k_sta u = Some sta \<and> sta_addr sta = b_bssid (k_targetBSS s) \<and> sta_aid sta = aid
     \<and> k_state u = (if builtin_wpa2 s then RTW88_STATE_HANDSHAKING else RTW88_STATE_CONNECTED) \<and> mlme_inv u"
proof -
  define q where "q = s\<lparr>k_assocAID := aid\<rparr>"
  define sta where "sta = peer_sta aid q"
  define r where "r = emit (FxStaAdd sta) (q\<lparr>k_sta := Some sta\<rparr>)"
  define t where "t = notify_assoc d aid r"
  have q: "k_answers q = []" "k_sta q = None" using assms(1,2,6) by (simp_all add: q_def mlme_inv_def mode_ok_def)
  then have a: "ask q = (True, q)" by (simp add: ask_def del: ask_eq)
  have r: "add_sta d aid q = r" unfolding add_sta_def a Let_def prod.case using q assms(4,5) by (simp add: r_def sta_def)
  have m: "same_mode r t" by (simp add: t_def)
  have t: "k_sta t = Some sta" "builtin_wpa2 t = builtin_wpa2 s" using same_modeD(6,8,9) [OF m] by (simp_all add: r_def q_def builtin_wpa2_def)
  have sta: "sta_addr sta = b_bssid (k_targetBSS s)" "sta_aid sta = aid" by (simp_all add: sta_def peer_sta_def Let_def q_def)
  obtain u where u: "associated c d aid s = Some u" "mlme_inv u" using associated_inv [OF assms(1-3)] by blast
  have hw: "k_hw s \<noteq> None" using inv_hw [OF assms(1)] by blast
  note code = associated_def [of c d aid s, unfolded if_not_P [OF hw] Let_def q_def [symmetric] r t_def [symmetric]]
  have "k_sta u = Some sta \<and> k_state u = (if builtin_wpa2 s then RTW88_STATE_HANDSHAKING else RTW88_STATE_CONNECTED)"
  proof (cases "k_wpa2 t \<and> \<not> k_externalSupplicant t")
    case True
    then have "k_sta u = Some sta" "k_state u = RTW88_STATE_HANDSHAKING"
      using u(1) t(1) unfolding code if_P [OF True] by (auto split: if_splits bind_splits)
    then show ?thesis using True t(2) by (simp add: builtin_wpa2_def)
  next
    case False
    define v where "v = set_link True (t\<lparr>k_state := RTW88_STATE_CONNECTED\<rparr>)"
    have v: "k_sta v = Some sta" "k_state v = RTW88_STATE_CONNECTED" using t(1) by (simp_all add: v_def set_link_def)
    have n: "k_state (startTxAggregation d v) = k_state v" "k_sta (startTxAggregation d v) = k_sta v"
      by (rule same_modeD; simp)+
    have "k_sta u = Some sta" "k_state u = RTW88_STATE_CONNECTED"
      using u(1) v n unfolding code if_not_P [OF False] v_def [symmetric] by (auto split: if_splits)
    then show ?thesis using False t(2) by (auto simp: builtin_wpa2_def)
  qed
  then show ?thesis using u sta by blast
qed

lemma buildAssocReq_rx:
  "map_option fst (buildAssocReq (s\<lparr>k_rssi := i, k_rxFrameCount := n\<rparr>)) = map_option fst (buildAssocReq s)"
proof -
  have eqs: "mgmt_hdr t (s\<lparr>k_rssi := i, k_rxFrameCount := n\<rparr>) = mgmt_hdr t s" "assoc_caps (s\<lparr>k_rssi := i, k_rxFrameCount := n\<rparr>) = assoc_caps s"
    "band_entry b (s\<lparr>k_rssi := i, k_rxFrameCount := n\<rparr>) = band_entry b s" "htAllowed (s\<lparr>k_rssi := i, k_rxFrameCount := n\<rparr>) = htAllowed s"
    "assoc_rsn (s\<lparr>k_rssi := i, k_rxFrameCount := n\<rparr>) = assoc_rsn s" "k_targetBSS (s\<lparr>k_rssi := i, k_rxFrameCount := n\<rparr>) = k_targetBSS s" "k_wpa2 (s\<lparr>k_rssi := i, k_rxFrameCount := n\<rparr>) = k_wpa2 s"
    "k_connChanWidth (s\<lparr>k_rssi := i, k_rxFrameCount := n\<rparr>) = k_connChanWidth s" for t b
    by (simp_all add: mgmt_hdr_def assoc_caps_def band_entry_def htAllowed_def assoc_rsn_def Let_def)
  have "map_option fst (do { f \<leftarrow> x; Some (f, u) }) = x" for x :: "bytes option" and u :: RTW88IEEE80211 by (cases x) simp_all
  then show ?thesis unfolding buildAssocReq_def Let_def eqs by simp
qed

text \<open>
  C4: A network is joined. While authentication is under way and not cancelled, and the driver transmits and takes
  stations, an authentication response that \<open>rtw88AuthResponse\<close> accepts with status 0 makes the class send
  the association request; an association response then accepted with status 0 gives the target a peer station with the
  announced association number and starts the handshake for a WPA2 network with the built-in supplicant, and connects for any other.
\<close>

theorem join_completes:
  assumes inv: "mlme_inv s" and st: "k_state s = RTW88_STATE_AUTHENTICATING" "\<not> authenticationCancelled s" "rsn_fits s" "k_answers s = []"
    and drv: "has_ops d s" "d_tx d" "d_sta_add d" and env: "sha_stack c"
    and auth: "24 \<le> length f" "frame_control_of f = Some 0x00B0"
      "rtw88AuthResponse (Some f) (length f) (Some (k_macAddr s)) (Some (b_bssid (k_targetBSS s))) True = Some (Some 0)"
    and assoc: "24 \<le> length g" "frame_control_of g = Some 0x0010"
      "rtw88AssocResponse (Some g) (length g) (Some (k_macAddr s)) (Some (b_bssid (k_targetBSS s))) True True = Some (True, Some (0, aid))"
  shows "\<exists>t u req meta sta. rxFrame c d rnd (Some \<lparr>f_data = f, f_rxs = r\<rparr>) s = Some t \<and> k_state t = RTW88_STATE_ASSOCIATING
    \<and> map_option fst (buildAssocReq s) = Some req \<and> FxTx req meta \<in> set (k_fx t)
    \<and> rxFrame c d rnd (Some \<lparr>f_data = g, f_rxs = r\<rparr>) t = Some u
    \<and> k_state u = (if k_wpa2 s \<and> \<not> k_externalSupplicant s then RTW88_STATE_HANDSHAKING else RTW88_STATE_CONNECTED)
    \<and> k_sta u = Some sta \<and> sta_addr sta = b_bssid (k_targetBSS s) \<and> sta_aid sta = aid"
proof -
  define s1 where "s1 = s\<lparr>k_rssi := rs_signal r, k_rxFrameCount := k_rxFrameCount s + 1\<rparr>"
  have s1: "mlme_inv s1" "\<not> authenticationCancelled s1" "rsn_fits s1" "has_ops d s1" "k_answers s1 = []" "k_state s1 = RTW88_STATE_AUTHENTICATING"
    using inv st drv(1) by (simp_all add: s1_def rsn_fits_def has_ops_def authenticationCancelled_def)
  obtain req meta where q: "buildAssocReq s1 = Some (req, next_txSeq s1)"
    "doAssociate d s1 = Some (emit (FxTimer 3000) (emit (FxTx req meta) ((next_txSeq s1)\<lparr>k_state := RTW88_STATE_ASSOCIATING\<rparr>)))"
    using doAssociate_sends [OF s1(1-4) drv(2) s1(5)] by blast
  have req: "map_option fst (buildAssocReq s) = Some req"
  proof -
    have "map_option fst (buildAssocReq s1) = Some req" using q(1) by simp
    then show ?thesis by (simp only: s1_def buildAssocReq_rx)
  qed
  define t where "t = free_skb (emit (FxTimer 3000) (emit (FxTx req meta) ((next_txSeq s1)\<lparr>k_state := RTW88_STATE_ASSOCIATING\<rparr>)))"
  have ti: "mlme_inv t" using doAssociate_inv [OF s1(1) s1(6,3), of d] q(2) by (simp add: t_def)
  have au: "(case Some (0::u16) of None \<Rightarrow> Some s1 | Some status \<Rightarrow> if status = 0 then doAssociate d s1 else x) = doAssociate d s1" for x by simp
  have a1: "rtw88AuthResponse (Some f) (length f) (Some (k_macAddr s1)) (Some (b_bssid (k_targetBSS s1))) True = Some (Some 0)"
    using auth(3) by (simp add: s1_def)
  have "rx_auth d f s1 = doAssociate d s1" using s1(2,6) by (simp add: rx_auth_def a1)
  then have rx1: "rxFrame c d rnd (Some \<lparr>f_data = f, f_rxs = r\<rparr>) s = Some t"
    unfolding rxFrame_mgmt [OF auth(1,2) mgmt_kinds(1)] s1_def [symmetric] using q(2) by (simp add: processRxMgmt_def auth(2) t_def)
  have t: "k_state t = RTW88_STATE_ASSOCIATING" "FxTx req meta \<in> set (k_fx t)" "k_macAddr t = k_macAddr s" "k_targetBSS t = k_targetBSS s"
    "k_answers t = []" "builtin_wpa2 t = builtin_wpa2 s" "\<not> authenticationCancelled t"
    using s1(2,5) by (simp_all add: t_def s1_def free_skb_def next_txSeq_def builtin_wpa2_def authenticationCancelled_def)
  define v where "v = free_skb (t\<lparr>k_rssi := rs_signal r, k_rxFrameCount := k_rxFrameCount t + 1\<rparr>)"
  have v: "mlme_inv v" "k_state v = RTW88_STATE_ASSOCIATING" "k_answers v = []" "k_targetBSS v = k_targetBSS s" "builtin_wpa2 v = builtin_wpa2 s"
    "\<not> authenticationCancelled v"
    using ti t by (simp_all add: v_def) (simp_all add: free_skb_def builtin_wpa2_def authenticationCancelled_def)
  obtain u sta where u: "associated c d aid v = Some u" "k_sta u = Some sta" "sta_addr sta = b_bssid (k_targetBSS s)" "sta_aid sta = aid"
    "k_state u = (if builtin_wpa2 s then RTW88_STATE_HANDSHAKING else RTW88_STATE_CONNECTED)"
    using associated_joins [OF v(1,2) env _ drv(3) v(3), of aid] drv(1) v(4,5) by (auto simp: has_ops_def)
  have rx2: "rxFrame c d rnd (Some \<lparr>f_data = g, f_rxs = r\<rparr>) t = Some u"
    unfolding rxFrame_mgmt [OF assoc(1,2) mgmt_kinds(2)] using t(1) assoc(2,3) v(6) u(1)
    by (simp add: processRxMgmt_def processAssocResponse_def t(3,4) v_def [symmetric])
  show ?thesis using rx1 rx2 t(1,2) req u by (auto simp: builtin_wpa2_def)
qed

definition demo_joining :: RTW88IEEE80211 where
  "demo_joining = stack0\<lparr>k_hw := Some demo_hw, k_vif := Some zero_vif, k_powered := True, k_state := RTW88_STATE_AUTHENTICATING,
     k_connectCancelled := False, k_macAddr := [1, 2, 3, 4, 5, 6], k_targetBSS := zero_bss\<lparr>b_bssid := [7, 8, 9, 10, 11, 12]\<rparr>\<rparr>"

definition demo_assoc_resp :: bytes where
  "demo_assoc_resp = [0x10, 0, 0, 0, 1, 2, 3, 4, 5, 6, 7, 8, 9, 10, 11, 12, 7, 8, 9, 10, 11, 12, 0, 0, 1, 0, 0, 0, 1, 0xc0]"

lemma demo_responses:
  "rtw88AuthResponse (Some demo_auth) (length demo_auth) (Some [1, 2, 3, 4, 5, 6]) (Some [7, 8, 9, 10, 11, 12]) True = Some (Some 0)"
  "rtw88AssocResponse (Some demo_assoc_resp) (length demo_assoc_resp) (Some [1, 2, 3, 4, 5, 6]) (Some [7, 8, 9, 10, 11, 12]) True True
     = Some (True, Some (0, 1))"
  "frame_control_of demo_auth = Some 0x00B0" "frame_control_of demo_assoc_resp = Some 0x0010"
  "24 \<le> length demo_auth" "24 \<le> length demo_assoc_resp"
  by (simp_all add: rtw88AuthResponse_def rtw88AssocResponse_def response_peer_result frame_control_of_def demo_auth_def demo_assoc_resp_def
      block_def le16_of_def)

lemma demo_joining_ok:
  "mlme_inv demo_joining" "k_state demo_joining = RTW88_STATE_AUTHENTICATING" "\<not> authenticationCancelled demo_joining"
  "rsn_fits demo_joining" "k_answers demo_joining = []" "has_ops demo_drv demo_joining" "d_tx demo_drv" "d_sta_add demo_drv"
proof -
  have "shape_ok demo_joining" using demo_shape
    by (simp add: shape_ok_def stack_ok_def hw_ok_def nets_ok_def held_len_def demo_joining_def demo_hw_def bands_ok_def bss_ok_def zero_bss_def)
  then show "mlme_inv demo_joining" by (simp add: mlme_inv_def mode_ok_def demo_joining_def stack0_def)
qed (simp_all add: demo_joining_def stack0_def authenticationCancelled_def rsn_fits_def has_ops_def demo_drv_def)

theorem join_completes_witness:
  "\<exists>t u. rxFrame demo_stack demo_drv demo_rnd (Some \<lparr>f_data = demo_auth, f_rxs = demo_rxs\<rparr>) demo_joining = Some t
     \<and> rxFrame demo_stack demo_drv demo_rnd (Some \<lparr>f_data = demo_assoc_resp, f_rxs = demo_rxs\<rparr>) t = Some u
     \<and> k_state u = RTW88_STATE_CONNECTED"
proof -
  have m: "k_macAddr demo_joining = [1, 2, 3, 4, 5, 6]" "b_bssid (k_targetBSS demo_joining) = [7, 8, 9, 10, 11, 12]" "\<not> k_wpa2 demo_joining"
    by (simp_all add: demo_joining_def stack0_def)
  show ?thesis
    using join_completes [OF demo_joining_ok demo_env(1) demo_responses(5,3) demo_responses(1) [folded m(1,2)]
        demo_responses(6,4) demo_responses(2) [folded m(1,2)], of demo_rnd demo_rxs] m(3) by auto
qed

end
