(* ===== verification/KernelMem.thy ===== *)
theory KernelMem
  imports Prelude
begin

text \<open>
  Kernel memory as one store of bytes: blocks are read and written as lists, words are little-endian. On it the device
  register accessors of \<open>linux/pci.h\<close> and the allocator of \<open>linux/slab.h\<close>, which keeps the size of a block in a header in
  front of it.
\<close>

type_synonym memory = "nat \<Rightarrow> u8"

definition mem_read :: "memory \<Rightarrow> nat \<Rightarrow> nat \<Rightarrow> bytes" where
  "mem_read m a n = map (\<lambda>i. m (a + i)) [0 ..< n]"

definition mem_write :: "memory \<Rightarrow> nat \<Rightarrow> bytes \<Rightarrow> memory" where
  "mem_write m a bs = (\<lambda>i. if a \<le> i \<and> i < a + length bs then bs ! (i - a) else m i)"

definition apart :: "nat \<Rightarrow> nat \<Rightarrow> nat \<Rightarrow> nat \<Rightarrow> bool" where
  "apart a n b k \<longleftrightarrow> a + n \<le> b \<or> b + k \<le> a"

lemma length_mem_read [simp]: "length (mem_read m a n) = n"
  by (simp add: mem_read_def)

lemma nth_mem_read [simp]: "i < n \<Longrightarrow> mem_read m a n ! i = m (a + i)"
  by (simp add: mem_read_def)

lemma mem_read_same [simp]: "mem_read (mem_write m a bs) a (length bs) = bs"
  by (rule nth_equalityI) (simp_all add: mem_write_def)

lemma mem_read_apart: "apart a (length bs) b k \<Longrightarrow> mem_read (mem_write m a bs) b k = mem_read m b k"
  by (rule nth_equalityI) (auto simp: mem_write_def apart_def)

lemma mem_read_prefix: "n \<le> length bs \<Longrightarrow> mem_read (mem_write m a bs) a n = take n bs"
  by (rule nth_equalityI) (simp_all add: mem_write_def)

lemma mem_read_within: "i + k \<le> n \<Longrightarrow> mem_read m (a + i) k = take k (drop i (mem_read m a n))"
  by (rule nth_equalityI) (simp_all add: add.assoc)

lemma take_mem_read: "k \<le> n \<Longrightarrow> take k (mem_read m a n) = mem_read m a k"
  by (rule nth_equalityI) simp_all

lemma mem_write_inside:
  "i + length bs \<le> n \<Longrightarrow> mem_read (mem_write m (a + i) bs) a n = blit (mem_read m a n) i bs"
  by (rule nth_equalityI) (auto simp: mem_write_def nth_blit length_blit buf_simps)

lemma apart_sym: "apart a n b k \<Longrightarrow> apart b k a n"
  by (auto simp: apart_def)

lemma apart_sub: "apart a n b k \<Longrightarrow> i + l \<le> n \<Longrightarrow> apart (a + i) l b k"
  by (auto simp: apart_def)

section \<open>Words in memory\<close>

definition le_bytes :: "nat \<Rightarrow> 'a::len word \<Rightarrow> bytes" where
  "le_bytes n v = map (\<lambda>i. ucast (drop_bit (8 * i) v)) [0 ..< n]"

fun le_join :: "bytes \<Rightarrow> 'a::len word" where
  "le_join [] = 0"
| "le_join (b # bs) = ucast b OR push_bit 8 (le_join bs)"

lemma length_le_bytes [simp]: "length (le_bytes n v) = n"
  by (simp add: le_bytes_def)

lemma le_bytes_Suc: "le_bytes (Suc n) v = ucast v # le_bytes n (drop_bit 8 v)"
  by (rule nth_equalityI) (auto simp: le_bytes_def nth_Cons drop_bit_drop_bit algebra_simps simp del: upt_Suc split: nat.split)

lemma bit_le_join: "bit (le_join bs :: 'a::len word) i \<longleftrightarrow> i < LENGTH('a) \<and> i < 8 * length bs \<and> bit (bs ! (i div 8)) (i mod 8)"
proof (induction bs arbitrary: i)
  case (Cons b bs)
  show ?case
  proof (cases "i < 8")
    case True
    then show ?thesis by (auto simp: bit_or_iff bit_push_bit_iff bit_ucast_iff bit_imp_le_length)
  next
    case False
    then obtain j where j: "i = j + 8" by (metis le_Suc_ex add.commute not_less)
    have "\<not> bit b (j + 8)" using bit_u8_iff by fastforce
    have d: "(j + 8) div 8 = Suc (j div 8)" "(j + 8) mod 8 = j mod 8" by simp_all
    show ?thesis unfolding j d
      using \<open>\<not> bit b (j + 8)\<close> by (auto simp: bit_or_iff bit_push_bit_iff bit_ucast_iff Cons.IH)
  qed
qed simp

lemma bit_le_bytes: "k < n \<Longrightarrow> bit (le_bytes n v ! k) i \<longleftrightarrow> i < 8 \<and> bit v (8 * k + i)"
  by (auto simp: le_bytes_def bit_ucast_iff bit_drop_bit_eq)

lemma le_join_bytes: "LENGTH('a) \<le> 8 * n \<Longrightarrow> le_join (le_bytes n (v :: 'a::len word)) = v"
proof (rule bit_eqI)
  fix i
  assume n: "LENGTH('a) \<le> 8 * n" and "possible_bit TYPE('a word) i"
  then have i: "i < LENGTH('a)" by simp
  then have "i div 8 < n" using n by simp
  then show "bit (le_join (le_bytes n v) :: 'a word) i = bit v i"
    using i n by (simp add: bit_le_join bit_le_bytes)
qed

text \<open>The accessors of \<open>linux/pci.h\<close>.\<close>

definition readb :: "memory \<Rightarrow> nat \<Rightarrow> u8" where "readb m a = m a"
definition readw :: "memory \<Rightarrow> nat \<Rightarrow> u16" where "readw m a = le_join (mem_read m a 2)"
definition readl :: "memory \<Rightarrow> nat \<Rightarrow> u32" where "readl m a = le_join (mem_read m a 4)"
definition writeb :: "u8 \<Rightarrow> nat \<Rightarrow> memory \<Rightarrow> memory" where "writeb v a m = mem_write m a [v]"
definition writew :: "u16 \<Rightarrow> nat \<Rightarrow> memory \<Rightarrow> memory" where "writew v a m = mem_write m a (le_bytes 2 v)"
definition writel :: "u32 \<Rightarrow> nat \<Rightarrow> memory \<Rightarrow> memory" where "writel v a m = mem_write m a (le_bytes 4 v)"

definition load64 :: "memory \<Rightarrow> nat \<Rightarrow> u64" where "load64 m a = le_join (mem_read m a 8)"
definition store64 :: "u64 \<Rightarrow> nat \<Rightarrow> memory \<Rightarrow> memory" where "store64 v a m = mem_write m a (le_bytes 8 v)"

lemma register_roundtrip: "readb (writeb b a m) a = b" "readw (writew w a m) a = w" "readl (writel l a m) a = l"
proof -
  show "readb (writeb b a m) a = b" by (simp add: readb_def writeb_def mem_write_def)
  show "readw (writew w a m) a = w" using mem_read_same [of m a "le_bytes 2 w"] by (simp add: readw_def writew_def le_join_bytes)
  show "readl (writel l a m) a = l" using mem_read_same [of m a "le_bytes 4 l"] by (simp add: readl_def writel_def le_join_bytes)
qed

lemma load_store64 [simp]: "load64 (store64 v a m) a = v"
  using mem_read_same [of m a "le_bytes 8 v"] by (simp add: load64_def store64_def le_join_bytes)

lemma load64_apart: "apart b (length bs) a 8 \<Longrightarrow> load64 (mem_write m b bs) a = load64 m a"
  by (simp add: load64_def mem_read_apart)

end
