(* ===== verification/Slab.thy ===== *)
theory Slab
  imports KernelMem
begin

text \<open>
  The allocator of \<open>linux/slab.h\<close>: every block carries its size in front of it, because \<open>IOFree\<close> wants the size back.
  What \<open>IOMalloc\<close> returns is a parameter of each allocation (0 for NULL); it is asked for the size and the header, added in 64 bits. Lemmas: a well-formed heap stays so, freeing never
  meets a block \<open>IOMalloc\<close> did not hand out, and the heap refines a map from pointers to contents.
\<close>

section \<open>The state and the two calls of the kernel\<close>

record slab =
  sl_mem :: memory
  sl_live :: "nat \<Rightarrow> nat option"

text \<open>\<open>IOFree\<close> panics on a block or a size \<open>IOMalloc\<close> never returned: \<open>None\<close>.\<close>

definition IOFree :: "nat \<Rightarrow> nat \<Rightarrow> 's slab_scheme \<Rightarrow> 's slab_scheme option" where
  "IOFree a n s = (if sl_live s a = Some n then Some (s\<lparr>sl_live := (sl_live s)(a := None)\<rparr>) else None)"

definition gfp_zero :: u32 where "gfp_zero = 1"

definition low_pointer :: "nat \<Rightarrow> bool" where
  "low_pointer p \<longleftrightarrow> p < 0xffff000000000000"

section \<open>The operations\<close>

definition kmalloc :: "u64 \<Rightarrow> u32 \<Rightarrow> nat \<Rightarrow> 's slab_scheme \<Rightarrow> nat \<times> 's slab_scheme" where
  "kmalloc sz flags blk s =
     (if blk = 0 then (0, s)
      else let m = store64 sz blk (sl_mem s);
               m = (if flags AND gfp_zero \<noteq> 0 then mem_write m (blk + 8) (replicate (unat sz) 0) else m)
           in (blk + 8, s\<lparr>sl_mem := m, sl_live := (sl_live s)(blk \<mapsto> unat (sz + 8))\<rparr>))"

definition kzalloc :: "u64 \<Rightarrow> u32 \<Rightarrow> nat \<Rightarrow> 's slab_scheme \<Rightarrow> nat \<times> 's slab_scheme" where
  "kzalloc sz flags = kmalloc sz (flags OR gfp_zero)"

definition kcalloc :: "u64 \<Rightarrow> u64 \<Rightarrow> u32 \<Rightarrow> nat \<Rightarrow> 's slab_scheme \<Rightarrow> nat \<times> 's slab_scheme" where
  "kcalloc n sz flags = kzalloc (n * sz) flags"

definition kmalloc_array :: "u64 \<Rightarrow> u64 \<Rightarrow> u32 \<Rightarrow> nat \<Rightarrow> 's slab_scheme \<Rightarrow> nat \<times> 's slab_scheme" where
  "kmalloc_array n sz flags = kmalloc (n * sz) flags"

definition kfree :: "nat \<Rightarrow> 's slab_scheme \<Rightarrow> 's slab_scheme option" where
  "kfree p s =
     (if p = 0 then Some s
      else if low_pointer p then Some s
      else IOFree (p - 8) (unat (load64 (sl_mem s) (p - 8) + 8)) s)"

definition kfree_const :: "nat \<Rightarrow> 's slab_scheme \<Rightarrow> 's slab_scheme option" where
  "kfree_const p s = kfree p s"

definition krealloc :: "nat \<Rightarrow> u64 \<Rightarrow> u32 \<Rightarrow> nat \<Rightarrow> 's slab_scheme \<Rightarrow> (nat \<times> 's slab_scheme) option" where
  "krealloc p new flags blk s =
     (if p = 0 then Some (kmalloc new flags blk s)
      else let old = load64 (sl_mem s) (p - 8);
               (q, s) = kmalloc new flags blk s
           in if q = 0 then Some (0, s)
              else let n = (if old < new then old else new);
                       s = s\<lparr>sl_mem := mem_write (sl_mem s) q (mem_read (sl_mem s) p (unat n))\<rparr>
                   in map_option (\<lambda>s. (q, s)) (kfree p s))"

partial_function (option) strlen :: "memory \<Rightarrow> nat \<Rightarrow> nat option" where
  "strlen m a = (if m a = 0 then Some 0 else Option.bind (strlen m (a + 1)) (\<lambda>n. Some (n + 1)))"

definition kstrdup :: "nat \<Rightarrow> u32 \<Rightarrow> nat \<Rightarrow> 's slab_scheme \<Rightarrow> (nat \<times> 's slab_scheme) option" where
  "kstrdup a flags blk s =
     map_option (\<lambda>n. let l = n + 1; (p, s) = kmalloc (of_nat l) flags blk s
                     in if p = 0 then (p, s)
                        else (p, s\<lparr>sl_mem := mem_write (sl_mem s) p (mem_read (sl_mem s) a l)\<rparr>))
       (strlen (sl_mem s) a)"

definition kmemdup :: "nat \<Rightarrow> u64 \<Rightarrow> u32 \<Rightarrow> nat \<Rightarrow> 's slab_scheme \<Rightarrow> nat \<times> 's slab_scheme" where
  "kmemdup src n flags blk s =
     (let (p, s) = kmalloc n flags blk s
      in if p = 0 then (p, s) else (p, s\<lparr>sl_mem := mem_write (sl_mem s) p (mem_read (sl_mem s) src (unat n))\<rparr>))"

text \<open>\<open>struct kmem_cache\<close> is two words: the object size at offset 0, the name at offset 8.\<close>

definition kmem_cache_create :: "u64 \<Rightarrow> u64 \<Rightarrow> nat \<Rightarrow> 's slab_scheme \<Rightarrow> nat \<times> 's slab_scheme" where
  "kmem_cache_create name sz blk s =
     (let (c, s) = kzalloc 16 0 blk s
      in if c = 0 then (c, s) else (c, s\<lparr>sl_mem := store64 name (c + 8) (store64 sz c (sl_mem s))\<rparr>))"

definition kmem_cache_alloc :: "nat \<Rightarrow> u32 \<Rightarrow> nat \<Rightarrow> 's slab_scheme \<Rightarrow> nat \<times> 's slab_scheme" where
  "kmem_cache_alloc c flags blk s = kzalloc (load64 (sl_mem s) c) flags blk s"

definition kmem_cache_free :: "nat \<Rightarrow> nat \<Rightarrow> 's slab_scheme \<Rightarrow> 's slab_scheme option" where
  "kmem_cache_free c obj s = kfree obj s"

definition kmem_cache_destroy :: "nat \<Rightarrow> 's slab_scheme \<Rightarrow> 's slab_scheme option" where
  "kmem_cache_destroy c s = kfree c s"

section \<open>Well-formed heaps and their contents\<close>

definition block_ok :: "'s slab_scheme \<Rightarrow> nat \<Rightarrow> nat \<Rightarrow> bool" where
  "block_ok s a n \<longleftrightarrow> 0xffff000000000000 \<le> a \<and> a + n < 2 ^ 64 \<and> 8 \<le> n \<and> unat (load64 (sl_mem s) a) + 8 = n"

definition heap_wf :: "'s slab_scheme \<Rightarrow> bool" where
  "heap_wf s \<longleftrightarrow>
     (\<forall>a n. sl_live s a = Some n \<longrightarrow> block_ok s a n) \<and>
     (\<forall>a n b k. sl_live s a = Some n \<longrightarrow> sl_live s b = Some k \<longrightarrow> a \<noteq> b \<longrightarrow> apart a n b k)"

text \<open>What \<open>IOMalloc\<close> documents: NULL, or fresh kernel memory of the size asked for.\<close>

definition io_fresh :: "'s slab_scheme \<Rightarrow> nat \<Rightarrow> nat \<Rightarrow> bool" where
  "io_fresh s a n \<longleftrightarrow> 0xffff000000000000 \<le> a \<and> a + n < 2 ^ 64 \<and> (\<forall>b k. sl_live s b = Some k \<longrightarrow> apart a n b k)"

text \<open>The specification: a map from the pointers handed out to the bytes behind them.\<close>

definition contents :: "'s slab_scheme \<Rightarrow> nat \<Rightarrow> bytes option" where
  "contents s p = (if p < 8 then None else map_option (\<lambda>n. mem_read (sl_mem s) p (n - 8)) (sl_live s (p - 8)))"

lemma no_wrap: "unat (v :: u64) + 8 < 2 ^ 64 \<Longrightarrow> unat (v + 8) = unat v + 8"
  by (simp add: unat_word_ariths)

lemma heap_wfI:
  assumes "\<And>a n. sl_live s a = Some n \<Longrightarrow> block_ok s a n"
    and "\<And>a n b k. sl_live s a = Some n \<Longrightarrow> sl_live s b = Some k \<Longrightarrow> a \<noteq> b \<Longrightarrow> apart a n b k"
  shows "heap_wf s"
  unfolding heap_wf_def using assms by blast

lemma wf_block: "heap_wf s \<Longrightarrow> sl_live s a = Some n \<Longrightarrow> block_ok s a n"
  by (simp add: heap_wf_def)

lemma wf_apart: "heap_wf s \<Longrightarrow> sl_live s a = Some n \<Longrightarrow> sl_live s b = Some k \<Longrightarrow> a \<noteq> b \<Longrightarrow> apart a n b k"
  unfolding heap_wf_def by blast

lemma contentsE:
  assumes "contents s p = Some bs"
  obtains n where "8 \<le> p" "sl_live s (p - 8) = Some n" "bs = mem_read (sl_mem s) p (n - 8)"
  using assms by (auto simp: contents_def split: if_splits)

section \<open>Writes into a block\<close>

lemma store_inside:
  assumes wf: "heap_wf s" and c: "contents s p = Some bs" and l: "i + length ds \<le> length bs"
  defines "s' \<equiv> s\<lparr>sl_mem := mem_write (sl_mem s) (p + i) ds\<rparr>"
  shows "heap_wf s'" and "contents s' = (contents s)(p \<mapsto> blit bs i ds)"
proof -
  from c obtain n where p: "8 \<le> p" and live: "sl_live s (p - 8) = Some n" and bs: "bs = mem_read (sl_mem s) p (n - 8)"
    by (rule contentsE)
  have ok: "block_ok s (p - 8) n" using wf live by (rule wf_block)
  have n: "8 \<le> n" using ok by (simp add: block_ok_def)
  have ln: "8 + i + length ds \<le> n" using l n by (simp add: bs)
  have hd: "load64 (mem_write (sl_mem s) (p + i) ds) a = load64 (sl_mem s) a" if "sl_live s a = Some k" for a k
  proof (rule load64_apart)
    show "apart (p + i) (length ds) a 8"
    proof (cases "a = p - 8")
      case True then show ?thesis using p by (auto simp: apart_def)
    next
      case False
      have "apart (p - 8) n a k" using wf_apart [OF wf live that] False by simp
      moreover have "8 \<le> k" using wf_block [OF wf that] by (simp add: block_ok_def)
      ultimately show ?thesis using ln p by (auto simp: apart_def)
    qed
  qed
  show "heap_wf s'"
  proof (rule heap_wfI)
    show "block_ok s' a k" if "sl_live s' a = Some k" for a k
      using wf_block [OF wf] that hd by (simp add: s'_def block_ok_def)
    show "apart a k b l" if "sl_live s' a = Some k" "sl_live s' b = Some l" "a \<noteq> b" for a k b l
      using wf_apart [OF wf] that by (simp add: s'_def)
  qed
  show "contents s' = (contents s)(p \<mapsto> blit bs i ds)"
  proof (rule ext)
    fix q
    show "contents s' q = ((contents s)(p \<mapsto> blit bs i ds)) q"
    proof (cases "q = p")
      case True
      have "mem_read (mem_write (sl_mem s) (p + i) ds) p (n - 8) = blit bs i ds"
        unfolding bs using ln by (intro mem_write_inside) simp
      then show ?thesis using True p live by (simp add: s'_def contents_def)
    next
      case False
      have "mem_read (mem_write (sl_mem s) (p + i) ds) q (k - 8) = mem_read (sl_mem s) q (k - 8)"
        if "8 \<le> q" "sl_live s (q - 8) = Some k" for k
      proof (rule mem_read_apart)
        have "q - 8 \<noteq> p - 8" using False p that(1) by linarith
        then have "apart (p - 8) n (q - 8) k" using wf_apart [OF wf live that(2)] by simp
        then show "apart (p + i) (length ds) q (k - 8)" using ln p that(1) by (auto simp: apart_def)
      qed
      then show ?thesis using False by (cases "sl_live s (q - 8)") (auto simp: s'_def contents_def)
    qed
  qed
qed

section \<open>The operations keep the heap and refine the map\<close>

lemma mem_write_twice: "mem_write (mem_write m a xs) (a + length xs) ys = mem_write m a (xs @ ys)"
  by (rule ext) (auto simp: mem_write_def nth_append)

text \<open>A block \<open>IOMalloc\<close> returned, with the size in front and \<open>bs\<close> behind it.\<close>

definition fresh_block :: "nat \<Rightarrow> u64 \<Rightarrow> memory \<Rightarrow> 's slab_scheme \<Rightarrow> 's slab_scheme" where
  "fresh_block blk sz m s = s\<lparr>sl_mem := m, sl_live := (sl_live s)(blk \<mapsto> unat sz + 8)\<rparr>"

lemma fresh_block_wf:
  assumes wf: "heap_wf s" and io: "io_fresh s blk (unat sz + 8)" and bs: "length bs \<le> unat sz"
  defines "s' \<equiv> fresh_block blk sz (mem_write (sl_mem s) blk (le_bytes 8 sz @ bs)) s"
  shows "heap_wf s'"
    and "contents s' = (contents s)(blk + 8 \<mapsto> mem_read (mem_write (sl_mem s) blk (le_bytes 8 sz @ bs)) (blk + 8) (unat sz))"
proof -
  let ?m = "mem_write (sl_mem s) blk (le_bytes 8 sz @ bs)"
  have hdr: "load64 ?m blk = sz"
    using mem_read_prefix [of 8 "le_bytes 8 sz @ bs" "sl_mem s" blk] by (simp add: load64_def le_join_bytes)
  have old: "mem_read ?m a k = mem_read (sl_mem s) a k" if "apart blk (unat sz + 8) a k" for a k
    using that bs by (intro mem_read_apart) (auto simp: apart_def)
  have ap: "apart blk (unat sz + 8) a k" if "sl_live s a = Some k" for a k
    using io that by (simp add: io_fresh_def)
  have oldhdr: "load64 ?m a = load64 (sl_mem s) a" if "sl_live s a = Some k" for a k
  proof -
    have "8 \<le> k" using wf_block [OF wf that] by (simp add: block_ok_def)
    then have "apart blk (unat sz + 8) a 8" using ap [OF that] by (auto simp: apart_def)
    then show ?thesis using old by (simp add: load64_def)
  qed
  have fresh: "sl_live s blk = None"
  proof (rule ccontr)
    assume "sl_live s blk \<noteq> None"
    then obtain k where k: "sl_live s blk = Some k" by auto
    then show False using ap [OF k] wf_block [OF wf k] by (auto simp: apart_def block_ok_def)
  qed
  show "heap_wf s'"
  proof (rule heap_wfI)
    show "block_ok s' a k" if "sl_live s' a = Some k" for a k
      using that wf_block [OF wf, of a k] io hdr oldhdr [of a k]
      by (auto simp: s'_def fresh_block_def block_ok_def io_fresh_def split: if_splits)
    show "apart a k b l" if "sl_live s' a = Some k" "sl_live s' b = Some l" "a \<noteq> b" for a k b l
      using that ap apart_sym [OF ap] wf_apart [OF wf] by (auto simp: s'_def fresh_block_def split: if_splits)
  qed
  show "contents s' = (contents s)(blk + 8 \<mapsto> mem_read ?m (blk + 8) (unat sz))"
  proof (rule ext)
    fix q
    show "contents s' q = ((contents s)(blk + 8 \<mapsto> mem_read ?m (blk + 8) (unat sz))) q"
    proof (cases "q = blk + 8")
      case True
      then show ?thesis by (simp add: s'_def fresh_block_def contents_def)
    next
      case False
      have "mem_read ?m q (k - 8) = mem_read (sl_mem s) q (k - 8)" if "8 \<le> q" "sl_live s (q - 8) = Some k" for k
        using ap [OF that(2)] that(1) wf_block [OF wf that(2)] by (intro old) (auto simp: apart_def block_ok_def)
      then show ?thesis using False
        by (cases "sl_live s (q - 8)") (auto simp: s'_def fresh_block_def contents_def)
    qed
  qed
qed

lemma store64_write: "store64 v a m = mem_write m a (le_bytes 8 v @ [])"
  by (simp add: store64_def)

lemma kmalloc_null: "kmalloc sz flags 0 s = (0, s)"
  by (simp add: kmalloc_def)

lemma kmalloc_fresh:
  assumes "blk \<noteq> 0" "unat sz + 8 < 2 ^ 64"
  shows "kmalloc sz flags blk s =
    (blk + 8, fresh_block blk sz
       (mem_write (sl_mem s) blk (le_bytes 8 sz @ (if flags AND gfp_zero \<noteq> 0 then replicate (unat sz) 0 else []))) s)"
  using assms mem_write_twice [of "sl_mem s" blk "le_bytes 8 sz" "replicate (unat sz) 0"]
  by (simp add: kmalloc_def fresh_block_def no_wrap store64_def Let_def)

lemma io_fresh_nonzero: "io_fresh s blk n \<Longrightarrow> blk \<noteq> 0"
  by (auto simp: io_fresh_def)

lemma io_fresh_fits: "io_fresh s blk (unat (sz :: u64) + 8) \<Longrightarrow> unat sz + 8 < 2 ^ 64"
  by (auto simp: io_fresh_def)

lemma kmalloc_refines:
  assumes wf: "heap_wf s" and io: "io_fresh s blk (unat sz + 8)" and r: "kmalloc sz flags blk s = (p, s')"
  shows "p = blk + 8" and "heap_wf s'"
    and "\<exists>bs. contents s' = (contents s)(p \<mapsto> bs) \<and> length bs = unat sz \<and>
              (flags AND gfp_zero \<noteq> 0 \<longrightarrow> bs = replicate (unat sz) 0)"
proof -
  note eq = kmalloc_fresh [OF io_fresh_nonzero [OF io] io_fresh_fits [OF io], of flags s]
  let ?z = "if flags AND gfp_zero \<noteq> 0 then replicate (unat sz) 0 else []"
  have l: "length ?z \<le> unat sz" by simp
  note F = fresh_block_wf [OF wf io l]
  show "p = blk + 8" and "heap_wf s'" using r F(1) by (auto simp only: eq prod.inject)
  have z: "mem_read (mem_write m blk (le_bytes 8 sz @ replicate (unat sz) 0)) (blk + 8) (unat sz) = replicate (unat sz) 0"
    for m
    by (rule nth_equalityI) (auto simp: mem_write_def nth_append)
  show "\<exists>bs. contents s' = (contents s)(p \<mapsto> bs) \<and> length bs = unat sz \<and>
              (flags AND gfp_zero \<noteq> 0 \<longrightarrow> bs = replicate (unat sz) 0)"
    using r F(2) z by (intro exI [of _ "mem_read (mem_write (sl_mem s) blk (le_bytes 8 sz @ ?z)) (blk + 8) (unat sz)"])
      (auto simp only: eq prod.inject length_mem_read if_True not_False_eq_True)
qed

lemma kfree_refines:
  assumes wf: "heap_wf s" and c: "contents s p = Some bs"
  obtains s' where "kfree p s = Some s'" "heap_wf s'" "contents s' = (contents s)(p := None)"
    "sl_live s' = (sl_live s)(p - 8 := None)"
proof -
  from c obtain n where p: "8 \<le> p" and live: "sl_live s (p - 8) = Some n" by (rule contentsE)
  have ok: "block_ok s (p - 8) n" using wf live by (rule wf_block)
  define s' where "s' = s\<lparr>sl_live := (sl_live s)(p - 8 := None)\<rparr>"
  have n: "unat (load64 (sl_mem s) (p - 8) + 8) = n" using ok by (simp add: block_ok_def no_wrap)
  have "\<not> low_pointer p" "p \<noteq> 0" using ok p by (auto simp: block_ok_def low_pointer_def)
  then have "kfree p s = Some s'" using live n by (simp add: kfree_def IOFree_def s'_def)
  moreover have "heap_wf s'"
    using wf_block [OF wf] wf_apart [OF wf] by (intro heap_wfI) (auto simp: s'_def block_ok_def split: if_splits)
  moreover have "contents s' = (contents s)(p := None)" using p by (auto simp: s'_def contents_def fun_eq_iff)
  ultimately show thesis by (intro that [of s']) (simp_all add: s'_def)
qed

text \<open>\<open>krealloc\<close> moves the block: the old contents up to the shorter of the two sizes, the rest unspecified.\<close>

lemma krealloc_refines:
  assumes wf: "heap_wf s" and c: "contents s p = Some bs" and io: "io_fresh s blk (unat sz + 8)"
  shows "\<exists>s' cs. krealloc p sz flags blk s = Some (blk + 8, s') \<and> heap_wf s' \<and>
     contents s' = ((contents s)(blk + 8 \<mapsto> cs))(p := None) \<and> length cs = unat sz \<and>
     take (min (length bs) (unat sz)) cs = take (min (length bs) (unat sz)) bs"
proof -
  from c obtain n where p: "8 \<le> p" and live: "sl_live s (p - 8) = Some n" and bs: "bs = mem_read (sl_mem s) p (n - 8)"
    by (rule contentsE)
  have ok: "block_ok s (p - 8) n" using wf live by (rule wf_block)
  define old where "old = load64 (sl_mem s) (p - 8)"
  have lbs: "length bs = unat old" using ok bs by (auto simp: block_ok_def old_def)
  have p0: "p \<noteq> 0" using p by simp
  obtain s1 where k: "kmalloc sz flags blk s = (blk + 8, s1)"
    using kmalloc_refines(1) [OF wf io] by (cases "kmalloc sz flags blk s") blast
  obtain cs where wf1: "heap_wf s1" and c1: "contents s1 = (contents s)(blk + 8 \<mapsto> cs)" and cs: "length cs = unat sz"
    using kmalloc_refines(2,3) [OF wf io k] by blast
  have ne: "p \<noteq> blk + 8"
  proof
    assume "p = blk + 8"
    then have "sl_live s blk = Some n" using live by simp
    then have "apart blk (unat sz + 8) blk n" using io live by (simp add: io_fresh_def)
    then show False using ok by (auto simp: apart_def block_ok_def)
  qed
  have cp: "contents s1 p = Some bs" using c1 c ne by simp
  define m where "m = unat (if old < sz then old else sz)"
  have m: "m = min (length bs) (unat sz)" by (auto simp: m_def lbs word_less_nat_alt)
  from cp obtain n1 where bs1: "bs = mem_read (sl_mem s1) p (n1 - 8)" by (rule contentsE)
  have rd: "mem_read (sl_mem s1) p m = take m bs" using bs1 m by (simp add: take_mem_read)
  define s2 where "s2 = s1\<lparr>sl_mem := mem_write (sl_mem s1) (blk + 8 + 0) (take m bs)\<rparr>"
  have "contents s1 (blk + 8) = Some cs" using c1 by simp
  note W = store_inside [OF wf1 this, of 0 "take m bs", folded s2_def]
  have l2: "0 + length (take m bs) \<le> length cs" using m cs by simp
  have c2: "contents s2 p = Some bs" using W(2) [OF l2] cp ne by simp
  obtain s3 where f: "kfree p s2 = Some s3" "heap_wf s3" "contents s3 = (contents s2)(p := None)"
    using kfree_refines [OF W(1) [OF l2] c2] by metis
  have "krealloc p sz flags blk s = Some (blk + 8, s3)"
    using p0 k f(1) rd by (simp add: krealloc_def Let_def s2_def old_def [symmetric] m_def)
  moreover have "contents s3 = ((contents s)(blk + 8 \<mapsto> blit cs 0 (take m bs)))(p := None)"
    using f(3) W(2) [OF l2] c1 by (simp add: fun_upd_twist)
  moreover have "length (blit cs 0 (take m bs)) = unat sz" using l2 cs by (simp add: length_blit)
  moreover have "take m (blit cs 0 (take m bs)) = take m bs" using m by (simp add: blit_def)
  ultimately show ?thesis using f(2) unfolding m [symmetric] by blast
qed

text \<open>\<open>kmemdup\<close> of a block the client holds.\<close>

lemma kmemdup_copies:
  assumes wf: "heap_wf s" and c: "contents s p = Some bs" and io: "io_fresh s blk (unat n + 8)" and n: "unat n \<le> length bs"
  shows "\<exists>s'. kmemdup p n flags blk s = (blk + 8, s') \<and> heap_wf s' \<and>
     contents s' = (contents s)(blk + 8 \<mapsto> take (unat n) bs)"
proof -
  obtain s1 where k: "kmalloc n flags blk s = (blk + 8, s1)"
    using kmalloc_refines(1) [OF wf io] by (cases "kmalloc n flags blk s") blast
  obtain cs where wf1: "heap_wf s1" and c1: "contents s1 = (contents s)(blk + 8 \<mapsto> cs)" and cs: "length cs = unat n"
    using kmalloc_refines(2,3) [OF wf io k] by blast
  from c obtain t where live: "8 \<le> p" "sl_live s (p - 8) = Some t" by (rule contentsE)
  have ne: "p \<noteq> blk + 8"
  proof
    assume "p = blk + 8"
    then have "apart blk (unat n + 8) blk t" using io live by (simp add: io_fresh_def)
    then show False using wf_block [OF wf live(2)] by (auto simp: apart_def block_ok_def)
  qed
  have "contents s1 p = Some bs" using c1 c ne by simp
  then obtain u where "bs = mem_read (sl_mem s1) p (u - 8)" by (rule contentsE)
  then have rd: "mem_read (sl_mem s1) p (unat n) = take (unat n) bs" using n by (simp add: take_mem_read)
  define s2 where "s2 = s1\<lparr>sl_mem := mem_write (sl_mem s1) (blk + 8 + 0) (take (unat n) bs)\<rparr>"
  have cq: "contents s1 (blk + 8) = Some cs" using c1 by simp
  have l: "0 + length (take (unat n) bs) \<le> length cs" using n cs by simp
  note W = store_inside [OF wf1 cq l, folded s2_def]
  have "kmemdup p n flags blk s = (blk + 8, s2)" using k rd by (simp add: kmemdup_def s2_def)
  moreover have "contents s2 = (contents s)(blk + 8 \<mapsto> take (unat n) bs)" using W(2) c1 cs n by (simp add: blit_def)
  ultimately show ?thesis using W(1) by blast
qed

section \<open>Runs of the allocator\<close>

datatype heap_op = Alloc u64 u32 nat | Store nat nat bytes | Resize nat u64 u32 nat | Free nat

fun heap_step :: "heap_op \<Rightarrow> 's slab_scheme \<Rightarrow> 's slab_scheme option" where
  "heap_step (Alloc sz fl blk) s = Some (snd (kmalloc sz fl blk s))"
| "heap_step (Store p i ds) s = Some (s\<lparr>sl_mem := mem_write (sl_mem s) (p + i) ds\<rparr>)"
| "heap_step (Resize p sz fl blk) s = map_option snd (krealloc p sz fl blk s)"
| "heap_step (Free p) s = kfree p s"

text \<open>
  What \<open>IOMalloc\<close> owes: NULL, or fresh memory of the bytes it was asked for, which is the sum of the size and the header modulo
  2^64. What a client owes: it touches and frees only what it holds; and that this sum does not wrap, which the allocator does not check.
\<close>

definition malloc_ok :: "'s slab_scheme \<Rightarrow> u64 \<Rightarrow> nat \<Rightarrow> bool" where
  "malloc_ok s sz blk \<longleftrightarrow> blk = 0 \<or> io_fresh s blk (unat (sz + 8))"

fun op_ok :: "heap_op \<Rightarrow> 's slab_scheme \<Rightarrow> bool" where
  "op_ok (Alloc sz fl blk) s = malloc_ok s sz blk"
| "op_ok (Store p i ds) s = (\<exists>bs. contents s p = Some bs \<and> i + length ds \<le> length bs)"
| "op_ok (Resize p sz fl blk) s = ((p = 0 \<or> contents s p \<noteq> None) \<and> malloc_ok s sz blk)"
| "op_ok (Free p) s = (p = 0 \<or> contents s p \<noteq> None)"

fun size_fits :: "heap_op \<Rightarrow> bool" where
  "size_fits (Alloc sz fl blk) = (unat sz + 8 < 2 ^ 64)"
| "size_fits (Resize p sz fl blk) = (unat sz + 8 < 2 ^ 64)"
| "size_fits _ = True"

fun heap_run :: "heap_op list \<Rightarrow> 's slab_scheme \<Rightarrow> 's slab_scheme option" where
  "heap_run [] s = Some s"
| "heap_run (x # xs) s = Option.bind (heap_step x s) (heap_run xs)"

fun ops_ok :: "heap_op list \<Rightarrow> 's slab_scheme \<Rightarrow> bool" where
  "ops_ok [] s = True"
| "ops_ok (x # xs) s = (op_ok x s \<and> (case heap_step x s of None \<Rightarrow> True | Some s \<Rightarrow> ops_ok xs s))"

lemma malloc_ok_fresh: "malloc_ok s sz blk \<Longrightarrow> unat sz + 8 < 2 ^ 64 \<Longrightarrow> blk \<noteq> 0 \<Longrightarrow> io_fresh s blk (unat sz + 8)"
  by (simp only: malloc_ok_def no_wrap) simp

lemma alloc_step:
  assumes "heap_wf s" and "malloc_ok s sz blk" and "unat sz + 8 < 2 ^ 64"
  shows "heap_wf (snd (kmalloc sz fl blk s))"
proof (cases "blk = 0")
  case False
  with assms show ?thesis
    using kmalloc_refines(2) [OF assms(1) malloc_ok_fresh [OF assms(2,3) False], of fl] by (metis prod.collapse)
qed (simp add: assms(1) kmalloc_null)

lemma heap_step_ok:
  assumes "heap_wf s" "op_ok x s" "size_fits x"
  shows "\<exists>s'. heap_step x s = Some s' \<and> heap_wf s'"
proof (cases x)
  case (Alloc sz fl blk)
  then show ?thesis using assms alloc_step by simp
next
  case (Store p i ds)
  then show ?thesis using assms store_inside(1) by fastforce
next
  case (Free p)
  show ?thesis
  proof (cases "p = 0")
    case True then show ?thesis using assms Free by (simp add: kfree_def)
  next
    case False
    then obtain bs where "contents s p = Some bs" using assms Free by auto
    then show ?thesis using kfree_refines [OF assms(1)] Free by (metis heap_step.simps(4))
  qed
next
  case (Resize p sz fl blk)
  then have m: "malloc_ok s sz blk" and fits: "unat sz + 8 < 2 ^ 64" using assms by simp_all
  consider "p = 0" | "p \<noteq> 0" "blk = 0" | bs where "p \<noteq> 0" "blk \<noteq> 0" "contents s p = Some bs"
    using assms Resize by fastforce
  then show ?thesis
  proof cases
    case 1
    then show ?thesis using Resize alloc_step [OF assms(1) m fits] by (simp add: krealloc_def)
  next
    case 2
    then show ?thesis using Resize assms by (simp add: krealloc_def kmalloc_null Let_def)
  next
    case 3
    then have "io_fresh s blk (unat sz + 8)" using malloc_ok_fresh [OF m fits] by simp
    then show ?thesis using krealloc_refines [OF assms(1) 3(3)] Resize by fastforce
  qed
qed

text \<open>C31: A client of the allocator that stores into and frees only blocks it holds, and asks for sizes below 2^64 - 8, never makes
  \<open>IOFree\<close> see a block or a size \<open>IOMalloc\<close> did not return, whatever the sequence of allocations, stores, resizes and frees,
  as long as \<open>IOMalloc\<close> answers NULL or fresh memory of the bytes it was asked for.\<close>

theorem heap_never_faults:
  assumes "heap_wf s" "ops_ok xs s" "list_all size_fits xs"
  shows "\<exists>s'. heap_run xs s = Some s' \<and> heap_wf s'"
  using assms
proof (induction xs arbitrary: s)
  case (Cons x xs)
  then obtain s1 where s1: "heap_step x s = Some s1" "heap_wf s1" using heap_step_ok by fastforce
  then show ?case using Cons by simp
qed simp

definition demo_heap :: slab where
  "demo_heap = \<lparr>sl_mem = \<lambda>_. 0, sl_live = Map.empty\<rparr>"

lemma demo_heap_wf: "heap_wf demo_heap"
  by (rule heap_wfI) (simp_all add: demo_heap_def)

lemma heap_never_faults_witness:
  "\<exists>s'. heap_run [Alloc 4 0 0xffff000000001000, Resize 0xffff000000001008 8 0 0xffff000000002000,
                 Free 0xffff000000002008] demo_heap = Some s' \<and> heap_wf s'"
proof (rule heap_never_faults)
  show "heap_wf demo_heap" by (rule demo_heap_wf)
  define s1 where "s1 = snd (kmalloc 4 0 0xffff000000001000 demo_heap)"
  have io1: "io_fresh demo_heap 0xffff000000001000 (unat (4 :: u64) + 8)"
    by (simp add: io_fresh_def demo_heap_def)
  obtain bs where k: "kmalloc 4 0 0xffff000000001000 demo_heap = (0xffff000000001008, s1)"
    "heap_wf s1" "contents s1 = (contents demo_heap)(0xffff000000001008 \<mapsto> bs)"
    using kmalloc_refines [OF demo_heap_wf io1, of 0] by (cases "kmalloc 4 0 0xffff000000001000 demo_heap") (auto simp: s1_def)
  have live1: "sl_live s1 = (sl_live demo_heap)(0xffff000000001000 \<mapsto> 12)"
    by (simp add: s1_def kmalloc_def Let_def)
  have io2: "io_fresh s1 0xffff000000002000 (unat (8 :: u64) + 8)"
    by (simp add: io_fresh_def live1 demo_heap_def apart_def)
  have c1: "contents s1 0xffff000000001008 = Some bs" using k(3) by simp
  obtain s2 cs where r: "krealloc 0xffff000000001008 8 0 0xffff000000002000 s1 = Some (0xffff000000002008, s2)"
    "contents s2 = ((contents s1)(0xffff000000002008 \<mapsto> cs))(0xffff000000001008 := None)"
    using krealloc_refines [OF k(2) c1 io2, of 0] by auto
  show "ops_ok [Alloc 4 0 0xffff000000001000, Resize 0xffff000000001008 8 0 0xffff000000002000,
                 Free 0xffff000000002008] demo_heap"
    using io1 io2 k(1) c1 r by (simp add: malloc_ok_def s1_def [symmetric] split: option.split)
qed simp

text \<open>
  A size from 2^64 - 8 on wraps: \<open>kzalloc\<close> asks \<open>IOMalloc\<close> for a few bytes and clears memory far behind them. The header of a
  block the client holds is then zero, and freeing that block gives \<open>IOFree\<close> a size that was never returned.
\<close>

lemma le_join_zeros: "le_join (replicate n 0) = 0"
  by (induction n) simp_all

lemma kmalloc_zeroed:
  assumes "blk \<noteq> 0"
  shows "sl_mem (snd (kmalloc sz gfp_zero blk s)) = mem_write (store64 sz blk (sl_mem s)) (blk + 8) (replicate (unat sz) 0)"
    and "sl_live (snd (kmalloc sz gfp_zero blk s)) = (sl_live s)(blk \<mapsto> unat (sz + 8))"
  using assms by (simp_all add: kmalloc_def Let_def gfp_zero_def)

lemma wrapped_size_faults:
  "ops_ok [Alloc 8 0 0xffff000000002000, Alloc (- 1) gfp_zero 0xffff000000001000, Free 0xffff000000002008] demo_heap
     \<and> heap_run [Alloc 8 0 0xffff000000002000, Alloc (- 1) gfp_zero 0xffff000000001000, Free 0xffff000000002008] demo_heap = None"
proof -
  define s1 where "s1 = snd (kmalloc 8 0 0xffff000000002000 demo_heap)"
  define z where "z = replicate (unat (- 1 :: u64)) (0 :: u8)"
  have u: "unat (- 1 :: u64) = 2 ^ 64 - 1" by (simp add: unsigned_minus_1_eq_mask mask_eq_exp_minus_1)
  have lz: "length z = 2 ^ 64 - 1" unfolding z_def length_replicate by (rule u)
  have nz: "i < 2 ^ 64 - 1 \<Longrightarrow> z ! i = 0" for i unfolding z_def u by (rule nth_replicate)
  define s2 where "s2 = snd (kmalloc (- 1) gfp_zero 0xffff000000001000 s1)"
  have live1: "sl_live s1 = [0xffff000000002000 \<mapsto> 16]"
    by (simp add: s1_def kmalloc_def Let_def demo_heap_def)
  have nn: "(0xffff000000001000 :: nat) \<noteq> 0" by simp
  have s2: "sl_live s2 = [0xffff000000002000 \<mapsto> 16, 0xffff000000001000 \<mapsto> 7]"
    unfolding s2_def kmalloc_zeroed(2) [OF nn] live1 by simp
  have "sl_mem s2 = mem_write (store64 (- 1) 0xffff000000001000 (sl_mem s1)) (0xffff000000001000 + 8) z"
    unfolding s2_def kmalloc_zeroed(1) [OF nn] z_def ..
  then have m2: "sl_mem s2 i = 0" if "0xffff000000002000 \<le> i" "i < 0xffff000000002008" for i
    using that lz nz [of "i - 0xffff000000001008"] by (simp add: mem_write_def)
  have "mem_read (sl_mem s2) 0xffff000000002000 8 = replicate 8 0"
    by (rule nth_equalityI) (simp_all add: m2)
  then have "load64 (sl_mem s2) 0xffff000000002000 = le_join (replicate 8 0)" by (simp only: load64_def)
  then have l: "load64 (sl_mem s2) 0xffff000000002000 = 0" by (simp only: le_join_zeros)
  have ok: "malloc_ok demo_heap 8 0xffff000000002000" "malloc_ok s1 (- 1) 0xffff000000001000"
    "contents s2 0xffff000000002008 \<noteq> None"
    by (simp_all add: malloc_ok_def io_fresh_def demo_heap_def live1 apart_def contents_def s2)
  have "kfree 0xffff000000002008 s2 = None"
    by (simp add: kfree_def low_pointer_def IOFree_def l s2)
  then show ?thesis using ok by (simp add: s1_def [symmetric] s2_def [symmetric])
qed

text \<open>A block of \<open>n * size\<close> bytes is smaller than the array when the product leaves 64 bits: the arguments are not checked.\<close>

lemma kcalloc_wraps:
  "sl_live (snd (kcalloc 0x2000000000000001 8 0 0xffff000000001000 demo_heap)) 0xffff000000001000 = Some 16"
  by (simp add: kcalloc_def kzalloc_def kmalloc_def Let_def demo_heap_def)

end
