(* ===== verification/Dma.thy ===== *)
theory Dma
  imports Slab "HOL-Library.Multiset"
begin

text \<open>
  DMA buffers: the wrappers of \<open>linux/dma-mapping.h\<close>, the shims of \<open>RTW88HwOps.cpp\<close> (which \<open>RTW88PCIDevice.cpp\<close> repeats) and
  the tracking lists of the controllers (\<open>allocCoherent\<close>, \<open>freeCoherent\<close>, bounce copies, deferred frees). The memory is the
  store of \<open>Slab\<close>; what \<open>IOBufferMemoryDescriptor\<close>, \<open>IOMallocZero\<close> and \<open>preemption_enabled\<close> answer are parameters.
\<close>

section \<open>State\<close>

record dma_entry =
  de_desc :: nat
  de_virt :: nat
  de_phys :: u64
  de_size :: u64
  de_orig :: nat

text \<open>The two lists, the descriptors prepared and not yet released, and the tracking nodes allocated. \<open>_pendingFreeLock\<close>
  non-null is \<open>dm_lock\<close>.\<close>

record dma = slab +
  dm_list :: "dma_entry list"
  dm_pending :: "dma_entry list"
  dm_descs :: "nat multiset"
  dm_nodes :: nat
  dm_lock :: bool

text \<open>One answer of \<open>inTaskWithPhysicalMask\<close>: its identity, what \<open>prepare\<close> returns, the two addresses; and whether the node
  could be allocated.\<close>

record dma_answer =
  an_desc :: nat
  an_prepare :: bool
  an_phys :: u64
  an_virt :: nat
  an_node :: bool

section \<open>Allocation\<close>

definition take_desc :: "nat \<Rightarrow> dma \<Rightarrow> dma" where
  "take_desc d s = s\<lparr>dm_descs := add_mset d (dm_descs s)\<rparr>"

text \<open>\<open>complete\<close> and \<open>release\<close>.\<close>

definition drop_desc :: "nat \<Rightarrow> dma \<Rightarrow> dma" where
  "drop_desc d s = s\<lparr>dm_descs := dm_descs s - {#d#}\<rparr>"

definition zero_fill :: "nat \<Rightarrow> u64 \<Rightarrow> dma \<Rightarrow> dma" where
  "zero_fill a n s = s\<lparr>sl_mem := mem_write (sl_mem s) a (replicate (unat n) 0)\<rparr>"

definition track :: "dma_answer \<Rightarrow> u64 \<Rightarrow> dma \<Rightarrow> dma" where
  "track a n s = s\<lparr>dm_nodes := dm_nodes s + 1,
     dm_list := \<lparr>de_desc = an_desc a, de_virt = an_virt a, de_phys = an_phys a, de_size = n, de_orig = 0\<rparr> # dm_list s\<rparr>"

text \<open>\<open>RTW88PCIDevice::allocCoherent\<close>: result pointer, \<open>*phys\<close> (0 when not written) and state. A null address with a
  non-empty size is a fault of \<open>memset\<close>.\<close>

definition allocCoherent :: "dma_answer option \<Rightarrow> u64 \<Rightarrow> dma \<Rightarrow> (nat \<times> u64 \<times> dma) option" where
  "allocCoherent ans n s =
     (case ans of
        None \<Rightarrow> Some (0, 0, s)
      | Some a \<Rightarrow>
          let s = take_desc (an_desc a) s
          in if an_virt a = 0 \<and> n \<noteq> 0 then None
             else let s = zero_fill (an_virt a) n s
                  in if \<not> an_node a then Some (0, an_phys a, drop_desc (an_desc a) s)
                     else Some (an_virt a, an_phys a, track a n s))"

text \<open>\<open>AirportRTW88::allocCoherent\<close> checks what the other one takes on trust. A failed \<open>prepare\<close> only releases.\<close>

definition airport_allocCoherent :: "dma_answer option \<Rightarrow> u64 \<Rightarrow> dma \<Rightarrow> (nat \<times> u64 \<times> dma) option" where
  "airport_allocCoherent ans n s =
     (case ans of
        None \<Rightarrow> Some (0, 0, s)
      | Some a \<Rightarrow>
          let s = take_desc (an_desc a) s
          in if \<not> an_prepare a then Some (0, 0, drop_desc (an_desc a) s)
             else if an_virt a = 0 \<or> an_phys a = 0 then Some (0, 0, drop_desc (an_desc a) s)
             else let s = zero_fill (an_virt a) n s
                  in if \<not> an_node a then Some (0, an_phys a, drop_desc (an_desc a) s)
                     else Some (an_virt a, an_phys a, track a n s))"

section \<open>Release\<close>

text \<open>The loops walk the list with the address of the previous link: the first match is unlinked.\<close>

fun unlink :: "(dma_entry \<Rightarrow> bool) \<Rightarrow> dma_entry list \<Rightarrow> (dma_entry \<times> dma_entry list) option" where
  "unlink P [] = None"
| "unlink P (e # es) = (if P e then Some (e, es) else map_option (\<lambda>(d, ds). (d, e # ds)) (unlink P es))"

definition free_entry :: "dma_entry \<Rightarrow> dma \<Rightarrow> dma" where
  "free_entry e s = (drop_desc (de_desc e) s)\<lparr>dm_nodes := dm_nodes s - 1\<rparr>"

definition dispose :: "bool \<Rightarrow> dma_entry \<Rightarrow> dma \<Rightarrow> dma" where
  "dispose preemptible e s = (if preemptible then free_entry e s else s\<lparr>dm_pending := e # dm_pending s\<rparr>)"

definition freeCoherent :: "bool \<Rightarrow> u64 \<Rightarrow> nat \<Rightarrow> u64 \<Rightarrow> dma \<Rightarrow> dma" where
  "freeCoherent preemptible n virt phys s =
     (case unlink (\<lambda>e. de_virt e = virt) (dm_list s) of
        None \<Rightarrow> s
      | Some (e, es) \<Rightarrow> dispose preemptible e (s\<lparr>dm_list := es\<rparr>))"

definition freeCoherentByPhys :: "bool \<Rightarrow> u64 \<Rightarrow> dma \<Rightarrow> dma" where
  "freeCoherentByPhys preemptible phys s =
     (case unlink (\<lambda>e. de_phys e = phys) (dm_list s) of
        None \<Rightarrow> s
      | Some (e, es) \<Rightarrow> dispose preemptible e (s\<lparr>dm_list := es\<rparr>))"

definition drainPendingFree :: "dma \<Rightarrow> dma" where
  "drainPendingFree s = (if \<not> dm_lock s then s else fold free_entry (dm_pending s) (s\<lparr>dm_pending := []\<rparr>))"

definition releaseDMAEntries :: "dma \<Rightarrow> dma" where
  "releaseDMAEntries s = (if \<not> dm_lock s then s else fold free_entry (dm_list s) (s\<lparr>dm_list := []\<rparr>))"

section \<open>Bounce buffers\<close>

fun set_orig :: "u64 \<Rightarrow> nat \<Rightarrow> dma_entry list \<Rightarrow> dma_entry list" where
  "set_orig phys va [] = []"
| "set_orig phys va (e # es) = (if de_phys e = phys then e\<lparr>de_orig := va\<rparr> # es else e # set_orig phys va es)"

definition setBounceOrigVA :: "u64 \<Rightarrow> nat \<Rightarrow> dma \<Rightarrow> dma" where
  "setBounceOrigVA phys va s = s\<lparr>dm_list := set_orig phys va (dm_list s)\<rparr>"

text \<open>The lookup is made under the lock, the copy after it was dropped.\<close>

definition sync_lookup :: "u64 \<Rightarrow> dma \<Rightarrow> dma_entry option" where
  "sync_lookup phys s = find (\<lambda>e. de_phys e = phys \<and> de_orig e \<noteq> 0 \<and> de_virt e \<noteq> 0) (dm_list s)"

definition sync_copy :: "dma_entry \<Rightarrow> u64 \<Rightarrow> dma \<Rightarrow> dma" where
  "sync_copy e n s =
     (let k = (if n \<le> de_size e then n else de_size e)
      in s\<lparr>sl_mem := mem_write (sl_mem s) (de_orig e) (mem_read (sl_mem s) (de_virt e) (unat k))\<rparr>)"

definition syncBounceForCpu :: "u64 \<Rightarrow> u64 \<Rightarrow> dma \<Rightarrow> dma" where
  "syncBounceForCpu phys n s = (case sync_lookup phys s of None \<Rightarrow> s | Some e \<Rightarrow> sync_copy e n s)"

section \<open>The shims behind \<open>rtw88_dma_ops\<close>\<close>

text \<open>\<open>inst\<close> is \<open>g_pci_dev_instance \<noteq> nullptr\<close>, \<open>alloc\<close> the allocator of the controller it points to.\<close>

type_synonym dma_alloc = "dma_answer option \<Rightarrow> u64 \<Rightarrow> dma \<Rightarrow> (nat \<times> u64 \<times> dma) option"

definition compat_dma_alloc :: "bool \<Rightarrow> dma_alloc \<Rightarrow> dma_answer option \<Rightarrow> u64 \<Rightarrow> dma \<Rightarrow> (nat \<times> u64 \<times> dma) option" where
  "compat_dma_alloc inst alloc ans n s = (if \<not> inst then Some (0, 0, s) else alloc ans n s)"

definition compat_dma_free :: "bool \<Rightarrow> bool \<Rightarrow> u64 \<Rightarrow> nat \<Rightarrow> u64 \<Rightarrow> dma \<Rightarrow> dma" where
  "compat_dma_free inst preemptible n virt phys s = (if inst then freeCoherent preemptible n virt phys s else s)"

definition compat_dma_map :: "bool \<Rightarrow> dma_alloc \<Rightarrow> dma_answer option \<Rightarrow> nat \<Rightarrow> u64 \<Rightarrow> int \<Rightarrow> dma \<Rightarrow> (u64 \<times> dma) option" where
  "compat_dma_map inst alloc ans p n dir s =
     (if \<not> inst \<or> p = 0 then Some (0, s)
      else case alloc ans n s of
             None \<Rightarrow> None
           | Some (bounce, phys, s) \<Rightarrow>
               if bounce = 0 then Some (0, s)
               else let s = setBounceOrigVA phys p s;
                        s = (if dir = 1 \<or> dir = 2
                             then s\<lparr>sl_mem := mem_write (sl_mem s) bounce (mem_read (sl_mem s) p (unat n))\<rparr> else s)
                    in Some (phys, s))"

definition compat_dma_unmap :: "bool \<Rightarrow> bool \<Rightarrow> u64 \<Rightarrow> dma \<Rightarrow> dma" where
  "compat_dma_unmap inst preemptible phys s = (if inst then freeCoherentByPhys preemptible phys s else s)"

definition compat_dma_sync_cpu :: "bool \<Rightarrow> u64 \<Rightarrow> u64 \<Rightarrow> int \<Rightarrow> dma \<Rightarrow> dma" where
  "compat_dma_sync_cpu inst phys n dir s = (if dir = 0 \<and> inst then syncBounceForCpu phys n s else s)"

section \<open>The wrappers the driver calls\<close>

text \<open>\<open>ops\<close> is \<open>rtw88_dma_ops \<noteq> NULL\<close>; without it the fallback is the slab allocator, with its own answer \<open>blk\<close>.\<close>

definition dma_alloc_coherent ::
  "bool \<Rightarrow> bool \<Rightarrow> dma_alloc \<Rightarrow> dma_answer option \<Rightarrow> nat \<Rightarrow> u64 \<Rightarrow> u64 \<Rightarrow> dma \<Rightarrow> (nat \<times> u64 \<times> dma) option" where
  "dma_alloc_coherent ops inst alloc ans blk old n s =
     (if ops then (if inst then compat_dma_alloc inst alloc ans n s else Some (0, old, s))
      else let (p, s) = kzalloc n 0 blk s in Some (p, if p \<noteq> 0 then of_nat p else old, s))"

definition dma_free_coherent :: "bool \<Rightarrow> bool \<Rightarrow> bool \<Rightarrow> u64 \<Rightarrow> nat \<Rightarrow> u64 \<Rightarrow> dma \<Rightarrow> dma option" where
  "dma_free_coherent ops inst preemptible n virt phys s =
     (if ops then Some (compat_dma_free inst preemptible n virt phys s) else kfree virt s)"

definition dma_map_single ::
  "bool \<Rightarrow> bool \<Rightarrow> dma_alloc \<Rightarrow> dma_answer option \<Rightarrow> nat \<Rightarrow> u64 \<Rightarrow> int \<Rightarrow> dma \<Rightarrow> (u64 \<times> dma) option" where
  "dma_map_single ops inst alloc ans p n dir s =
     (if ops then compat_dma_map inst alloc ans p n dir s else Some (of_nat p, s))"

definition dma_unmap_single :: "bool \<Rightarrow> bool \<Rightarrow> bool \<Rightarrow> u64 \<Rightarrow> dma \<Rightarrow> dma" where
  "dma_unmap_single ops inst preemptible phys s = (if ops then compat_dma_unmap inst preemptible phys s else s)"

definition dma_sync_single_for_cpu :: "bool \<Rightarrow> bool \<Rightarrow> u64 \<Rightarrow> u64 \<Rightarrow> int \<Rightarrow> dma \<Rightarrow> dma" where
  "dma_sync_single_for_cpu ops inst phys n dir s = (if ops then compat_dma_sync_cpu inst phys n dir s else s)"

definition dma_mapping_error :: "u64 \<Rightarrow> bool" where
  "dma_mapping_error a \<longleftrightarrow> a = 0 \<or> a = - 1"

definition dma_bit_mask :: "nat \<Rightarrow> u64" where
  "dma_bit_mask n = (if n < 64 then push_bit n 1 - 1 else NOT 0)"

text \<open>\<open>struct page\<close> is two words in front of 4096 bytes of data; the bus address is the address itself.\<close>

definition alloc_page :: "u32 \<Rightarrow> nat \<Rightarrow> 's slab_scheme \<Rightarrow> nat \<times> 's slab_scheme" where
  "alloc_page flags blk s =
     (let (p, s) = kzalloc (16 + 4096) flags blk s
      in if p = 0 then (p, s)
         else (p, s\<lparr>sl_mem := store64 (of_nat (p + 16)) (p + 8) (store64 (of_nat (p + 16)) p (sl_mem s))\<rparr>))"

definition free_page' :: "nat \<Rightarrow> 's slab_scheme \<Rightarrow> 's slab_scheme option" where
  "free_page' p s = kfree p s"

definition page_address :: "nat \<Rightarrow> 's slab_scheme \<Rightarrow> u64" where
  "page_address p s = (if p = 0 then 0 else load64 (sl_mem s) p)"

definition dma_map_page :: "nat \<Rightarrow> u64 \<Rightarrow> 's slab_scheme \<Rightarrow> u64" where
  "dma_map_page p off s = load64 (sl_mem s) (p + 8) + off"

section \<open>Every descriptor is on one of the lists\<close>

definition tracked :: "dma \<Rightarrow> bool" where
  "tracked s \<longleftrightarrow> dm_descs s = mset (map de_desc (dm_list s @ dm_pending s)) \<and>
                 dm_nodes s = length (dm_list s) + length (dm_pending s)"

definition dma_wf :: "dma \<Rightarrow> bool" where
  "dma_wf s \<longleftrightarrow> tracked s \<and> distinct (map de_phys (dm_list s)) \<and> distinct (map de_virt (dm_list s))"

text \<open>What \<open>IOBufferMemoryDescriptor\<close> documents: live buffers do not overlap, so the addresses are new.\<close>

definition answer_fresh :: "dma_answer option \<Rightarrow> dma \<Rightarrow> bool" where
  "answer_fresh ans s \<longleftrightarrow>
     (case ans of None \<Rightarrow> True
      | Some a \<Rightarrow> an_virt a \<noteq> 0 \<and> (\<forall>e \<in> set (dm_list s). de_phys e \<noteq> an_phys a \<and> de_virt e \<noteq> an_virt a))"

definition dma_alloc_of :: "bool \<Rightarrow> dma_alloc" where
  "dma_alloc_of airport = (if airport then airport_allocCoherent else allocCoherent)"

named_theorems dma_upd \<open>fields after an operation on the tracking lists\<close>

lemma take_desc_fields [dma_upd]:
  "dm_list (take_desc d s) = dm_list s" "dm_pending (take_desc d s) = dm_pending s" "dm_nodes (take_desc d s) = dm_nodes s"
  "dm_descs (take_desc d s) = add_mset d (dm_descs s)" "dm_lock (take_desc d s) = dm_lock s" "sl_mem (take_desc d s) = sl_mem s"
  by (simp_all add: take_desc_def)

lemma drop_desc_fields [dma_upd]:
  "dm_list (drop_desc d s) = dm_list s" "dm_pending (drop_desc d s) = dm_pending s" "dm_nodes (drop_desc d s) = dm_nodes s"
  "dm_descs (drop_desc d s) = dm_descs s - {#d#}" "dm_lock (drop_desc d s) = dm_lock s" "sl_mem (drop_desc d s) = sl_mem s"
  by (simp_all add: drop_desc_def)

lemma zero_fill_fields [dma_upd]:
  "dm_list (zero_fill a n s) = dm_list s" "dm_pending (zero_fill a n s) = dm_pending s" "dm_nodes (zero_fill a n s) = dm_nodes s"
  "dm_descs (zero_fill a n s) = dm_descs s" "dm_lock (zero_fill a n s) = dm_lock s"
  by (simp_all add: zero_fill_def)

lemma unlink_Some:
  "unlink P es = Some (e, ds) \<Longrightarrow> \<exists>xs ys. es = xs @ e # ys \<and> ds = xs @ ys \<and> P e \<and> (\<forall>x \<in> set xs. \<not> P x)"
proof (induction es arbitrary: ds)
  case (Cons a es)
  show ?case
  proof (cases "P a")
    case True
    then show ?thesis using Cons.prems by (intro exI [of _ "[]"] exI [of _ es]) auto
  next
    case False
    then obtain us where u: "unlink P es = Some (e, us)" "ds = a # us" using Cons.prems by auto
    obtain xs ys where "es = xs @ e # ys" "us = xs @ ys" "P e" "\<forall>x \<in> set xs. \<not> P x" using Cons.IH [OF u(1)] by blast
    then show ?thesis using False u(2) by (intro exI [of _ "a # xs"] exI [of _ ys]) auto
  qed
qed simp

lemma unlink_None: "unlink P es = None \<longleftrightarrow> (\<forall>e \<in> set es. \<not> P e)"
  by (induction es) auto

lemma set_orig_maps [simp]:
  "map de_desc (set_orig p va es) = map de_desc es" "map de_phys (set_orig p va es) = map de_phys es"
  "map de_virt (set_orig p va es) = map de_virt es" "length (set_orig p va es) = length es"
  by (induction es) auto

text \<open>The outcome of an allocation, common to the two controllers.\<close>

lemma alloc_cases:
  assumes r: "dma_alloc_of airport ans n s = Some (v, phys, s')" and fresh: "answer_fresh ans s"
  obtains (failed) "v = 0" "dm_list s' = dm_list s" "dm_pending s' = dm_pending s" "dm_descs s' = dm_descs s"
      "dm_nodes s' = dm_nodes s" "dm_lock s' = dm_lock s"
  | (ok) a where "ans = Some a" "v = an_virt a" "v \<noteq> 0" "phys = an_phys a" "an_node a"
      "s' = track a n (zero_fill v n (take_desc (an_desc a) s))"
proof (cases ans)
  case None
  then show thesis using r failed by (auto simp: dma_alloc_of_def allocCoherent_def airport_allocCoherent_def split: if_splits)
next
  case (Some a)
  then have v: "an_virt a \<noteq> 0" using fresh by (simp add: answer_fresh_def)
  show thesis
  proof (cases "v = 0")
    case True
    then show thesis using r Some v
      by (intro failed)
         (auto simp: dma_alloc_of_def allocCoherent_def airport_allocCoherent_def Let_def dma_upd split: if_splits)
  next
    case False
    then show thesis using r Some v
      by (intro ok)
         (auto simp: dma_alloc_of_def allocCoherent_def airport_allocCoherent_def Let_def dma_upd split: if_splits)
  qed
qed

lemma track_wf:
  assumes "dma_wf s" "answer_fresh (Some a) s"
  shows "dma_wf (track a n (zero_fill v k (take_desc (an_desc a) s)))"
  using assms by (auto simp: dma_wf_def tracked_def track_def dma_upd answer_fresh_def)

lemma dma_wf_fields:
  "dma_wf s \<Longrightarrow> dm_list t = dm_list s \<Longrightarrow> dm_pending t = dm_pending s \<Longrightarrow> dm_descs t = dm_descs s \<Longrightarrow>
   dm_nodes t = dm_nodes s \<Longrightarrow> dma_wf t"
  by (simp add: dma_wf_def tracked_def)

lemma alloc_wf:
  "dma_wf s \<Longrightarrow> answer_fresh ans s \<Longrightarrow> dma_alloc_of air ans n s = Some (v, phys, s') \<Longrightarrow> dma_wf s'"
  by (erule (1) alloc_cases) (auto intro: track_wf dma_wf_fields)

lemma setBounceOrigVA_wf: "dma_wf s \<Longrightarrow> dma_wf (setBounceOrigVA p va s)"
proof -
  assume w: "dma_wf s"
  have "mset (map de_desc (set_orig p va (dm_list s) @ dm_pending s)) = mset (map de_desc (dm_list s @ dm_pending s))"
    unfolding map_append set_orig_maps ..
  then show ?thesis using w by (simp add: dma_wf_def tracked_def setBounceOrigVA_def del: map_append mset_map)
qed

lemma mem_update_wf [simp]: "dma_wf (s\<lparr>sl_mem := m\<rparr>) = dma_wf s"
  by (simp add: dma_wf_def tracked_def)

lemma sync_wf: "dma_wf s \<Longrightarrow> dma_wf (syncBounceForCpu p n s)"
  by (simp add: syncBounceForCpu_def sync_copy_def Let_def split: option.split)

lemma release_wf:
  assumes w: "dma_wf s" and u: "unlink P (dm_list s) = Some (e, es)"
  shows "dma_wf (dispose pre e (s\<lparr>dm_list := es\<rparr>))"
proof -
  obtain xs ys where l: "dm_list s = xs @ e # ys" "es = xs @ ys" using unlink_Some [OF u] by blast
  then show ?thesis using w by (auto simp: dispose_def free_entry_def dma_wf_def tracked_def dma_upd)
qed

lemma freeByPhys_wf: "dma_wf s \<Longrightarrow> dma_wf (freeCoherentByPhys pre phys s)"
  by (auto simp: freeCoherentByPhys_def release_wf split: option.split)

lemma freeCoherent_wf: "dma_wf s \<Longrightarrow> dma_wf (freeCoherent pre n v phys s)"
  by (auto simp: freeCoherent_def release_wf split: option.split)

lemma fold_free:
  "dm_list (fold free_entry es s) = dm_list s" "dm_pending (fold free_entry es s) = dm_pending s"
  "dm_descs (fold free_entry es s) = dm_descs s - mset (map de_desc es)"
  "dm_nodes (fold free_entry es s) = dm_nodes s - length es" "dm_lock (fold free_entry es s) = dm_lock s"
  by (induction es arbitrary: s) (simp_all add: free_entry_def dma_upd)

lemma drain_wf: "dma_wf s \<Longrightarrow> dma_wf (drainPendingFree s)"
  by (auto simp: drainPendingFree_def dma_wf_def tracked_def fold_free)

section \<open>Runs\<close>

datatype dma_op =
    DmaAlloc "dma_answer option" u64
  | DmaFree bool u64 nat u64
  | DmaMap "dma_answer option" nat u64 int
  | DmaUnmap bool u64
  | DmaSync u64 u64 int
  | DmaDrain

fun dma_step :: "bool \<Rightarrow> dma_op \<Rightarrow> dma \<Rightarrow> dma option" where
  "dma_step air (DmaAlloc ans n) s = map_option (\<lambda>(v, p, s). s) (compat_dma_alloc True (dma_alloc_of air) ans n s)"
| "dma_step air (DmaFree pre n v p) s = Some (compat_dma_free True pre n v p s)"
| "dma_step air (DmaMap ans p n dir) s = map_option snd (compat_dma_map True (dma_alloc_of air) ans p n dir s)"
| "dma_step air (DmaUnmap pre p) s = Some (compat_dma_unmap True pre p s)"
| "dma_step air (DmaSync p n dir) s = Some (compat_dma_sync_cpu True p n dir s)"
| "dma_step air DmaDrain s = Some (drainPendingFree s)"

fun dma_op_fresh :: "dma_op \<Rightarrow> dma \<Rightarrow> bool" where
  "dma_op_fresh (DmaAlloc ans n) s = answer_fresh ans s"
| "dma_op_fresh (DmaMap ans p n dir) s = answer_fresh ans s"
| "dma_op_fresh _ s = True"

fun dma_run :: "bool \<Rightarrow> dma_op list \<Rightarrow> dma \<Rightarrow> dma option" where
  "dma_run air [] s = Some s"
| "dma_run air (x # xs) s = Option.bind (dma_step air x s) (dma_run air xs)"

fun dma_ops_fresh :: "bool \<Rightarrow> dma_op list \<Rightarrow> dma \<Rightarrow> bool" where
  "dma_ops_fresh air [] s = True"
| "dma_ops_fresh air (x # xs) s =
     (dma_op_fresh x s \<and> (case dma_step air x s of None \<Rightarrow> True | Some s \<Rightarrow> dma_ops_fresh air xs s))"

lemma map_cases:
  assumes "compat_dma_map True (dma_alloc_of air) ans p n dir s = Some (phys, s')" "answer_fresh ans s"
  obtains (failed) "phys = 0" "dm_list s' = dm_list s" "dm_pending s' = dm_pending s" "dm_descs s' = dm_descs s"
      "dm_nodes s' = dm_nodes s" "dm_lock s' = dm_lock s"
  | (ok) a t where "ans = Some a" "p \<noteq> 0" "an_virt a \<noteq> 0" "phys = an_phys a" "an_node a"
      "t = setBounceOrigVA phys p (track a n (zero_fill (an_virt a) n (take_desc (an_desc a) s)))"
      "s' = (if dir = 1 \<or> dir = 2
             then t\<lparr>sl_mem := mem_write (sl_mem t) (an_virt a) (mem_read (sl_mem t) p (unat n))\<rparr> else t)"
proof (cases "p = 0")
  case True
  then show thesis using assms by (intro failed) (auto simp: compat_dma_map_def)
next
  case False
  then obtain v q s1 where r: "dma_alloc_of air ans n s = Some (v, q, s1)"
    and s': "(if v = 0 then Some (0, s1)
              else let s = setBounceOrigVA q p s1;
                       s = (if dir = 1 \<or> dir = 2
                            then s\<lparr>sl_mem := mem_write (sl_mem s) v (mem_read (sl_mem s) p (unat n))\<rparr> else s)
                   in Some (q, s)) = Some (phys, s')"
    using assms(1) by (auto simp: compat_dma_map_def split: option.splits)
  from r assms(2) show thesis
  proof (cases rule: alloc_cases)
    case failed
    then show thesis using s' by (intro that(1)) auto
  next
    case (ok a)
    then show thesis using s' False by (intro that(2) [of a "setBounceOrigVA q p s1"]) (auto simp: Let_def)
  qed
qed

lemma map_wf:
  "dma_wf s \<Longrightarrow> answer_fresh ans s \<Longrightarrow> compat_dma_map True (dma_alloc_of air) ans p n dir s = Some (phys, s') \<Longrightarrow> dma_wf s'"
  by (erule (1) map_cases) (auto intro: dma_wf_fields setBounceOrigVA_wf track_wf)

lemma dma_step_wf: "dma_wf s \<Longrightarrow> dma_op_fresh x s \<Longrightarrow> dma_step air x s = Some s' \<Longrightarrow> dma_wf s'"
  by (cases x) (auto simp: compat_dma_alloc_def compat_dma_free_def compat_dma_unmap_def compat_dma_sync_cpu_def
      intro: alloc_wf map_wf sync_wf freeByPhys_wf freeCoherent_wf drain_wf)

lemma alloc_defined: "answer_fresh ans s \<Longrightarrow> dma_alloc_of air ans n s \<noteq> None"
  by (auto simp: dma_alloc_of_def allocCoherent_def airport_allocCoherent_def answer_fresh_def Let_def split: option.splits)

lemma map_defined: "answer_fresh ans s \<Longrightarrow> compat_dma_map True (dma_alloc_of air) ans p n dir s \<noteq> None"
  using alloc_defined [of ans s air n] by (auto simp: compat_dma_map_def Let_def)

lemma dma_step_defined: "dma_op_fresh x s \<Longrightarrow> dma_step air x s \<noteq> None"
proof (cases x)
  case (DmaAlloc ans n)
  assume "dma_op_fresh x s"
  then show ?thesis using DmaAlloc alloc_defined [of ans s air n] by (simp add: compat_dma_alloc_def del: not_None_eq)
next
  case (DmaMap ans p n dir)
  assume "dma_op_fresh x s"
  then show ?thesis using DmaMap map_defined [of ans s air p n dir] by (simp del: not_None_eq)
qed simp_all

lemma dma_step_lock: "dma_op_fresh x s \<Longrightarrow> dma_step air x s = Some s' \<Longrightarrow> dm_lock s' = dm_lock s"
proof (cases x)
  case (DmaAlloc ans n)
  assume "dma_op_fresh x s" "dma_step air x s = Some s'"
  then obtain v p where f: "answer_fresh ans s" and r: "dma_alloc_of air ans n s = Some (v, p, s')"
    using DmaAlloc by (auto simp: compat_dma_alloc_def)
  from r f show ?thesis by (cases rule: alloc_cases) (auto simp: track_def dma_upd)
next
  case (DmaMap ans p n dir)
  assume "dma_op_fresh x s" "dma_step air x s = Some s'"
  then obtain q where f: "answer_fresh ans s" and r: "compat_dma_map True (dma_alloc_of air) ans p n dir s = Some (q, s')"
    using DmaMap by auto
  from r f show ?thesis
    by (cases rule: map_cases) (auto simp: track_def setBounceOrigVA_def dma_upd)
qed (auto simp: compat_dma_free_def compat_dma_unmap_def compat_dma_sync_cpu_def freeCoherent_def freeCoherentByPhys_def
       syncBounceForCpu_def sync_copy_def drainPendingFree_def fold_free dispose_def free_entry_def dma_upd Let_def
     split: option.splits if_splits)

lemma dma_run_wf:
  "dma_wf s \<Longrightarrow> dma_ops_fresh air xs s \<Longrightarrow> \<exists>s'. dma_run air xs s = Some s' \<and> dma_wf s' \<and> dm_lock s' = dm_lock s"
proof (induction xs arbitrary: s)
  case (Cons x xs)
  then have f: "dma_op_fresh x s" by simp
  obtain s1 where s1: "dma_step air x s = Some s1" using dma_step_defined [OF f] by blast
  then have "dma_wf s1" "dm_lock s1 = dm_lock s" using dma_step_wf dma_step_lock Cons.prems f by blast+
  then show ?case using Cons s1 by auto
qed simp

text \<open>The part of \<open>AirportRTW88::teardown\<close> that frees DMA memory.\<close>

definition airport_release_dma :: "dma \<Rightarrow> dma" where
  "airport_release_dma s = releaseDMAEntries (drainPendingFree s)"

text \<open>C27: Whatever the driver allocated, mapped, freed or unmapped, from thread or from interrupt context, the release at the
  end of the Airport controller's teardown leaves no descriptor prepared and no tracking node allocated; no operation faults.\<close>

theorem dma_balanced:
  assumes "dma_wf s" "dm_lock s" "dma_ops_fresh air xs s"
  shows "\<exists>s'. dma_run air xs s = Some s' \<and>
    (let t = airport_release_dma s' in dm_descs t = {#} \<and> dm_nodes t = 0 \<and> dm_list t = [] \<and> dm_pending t = [])"
proof -
  obtain s' where s': "dma_run air xs s = Some s'" "dma_wf s'" "dm_lock s'" using dma_run_wf [OF assms(1,3)] assms(2) by auto
  then have "dm_descs (airport_release_dma s') = {#} \<and> dm_nodes (airport_release_dma s') = 0 \<and>
             dm_list (airport_release_dma s') = [] \<and> dm_pending (airport_release_dma s') = []"
    by (simp add: airport_release_dma_def releaseDMAEntries_def drainPendingFree_def fold_free dma_wf_def tracked_def)
  then show ?thesis using s'(1) by (simp add: Let_def)
qed

definition demo_dma :: dma where
  "demo_dma = \<lparr>sl_mem = \<lambda>_. 0, sl_live = Map.empty, dm_list = [], dm_pending = [], dm_descs = {#}, dm_nodes = 0, dm_lock = True\<rparr>"

definition demo_answer :: "nat \<Rightarrow> dma_answer" where
  "demo_answer k = \<lparr>an_desc = k, an_prepare = True, an_phys = of_nat (4096 * (k + 1)), an_virt = 65536 * (k + 1), an_node = True\<rparr>"

lemma demo_dma_wf: "dma_wf demo_dma" "dm_lock demo_dma"
  by (simp_all add: demo_dma_def dma_wf_def tracked_def)

lemmas dma_eval = compat_dma_alloc_def compat_dma_map_def compat_dma_unmap_def compat_dma_free_def dma_alloc_of_def
  allocCoherent_def airport_allocCoherent_def take_desc_def zero_fill_def track_def setBounceOrigVA_def freeCoherentByPhys_def
  dispose_def answer_fresh_def demo_dma_def demo_answer_def

lemma dma_balanced_witness:
  "\<exists>s'. dma_run True [DmaMap (Some (demo_answer 0)) 100 4 1, DmaAlloc (Some (demo_answer 1)) 8, DmaUnmap False 4096] demo_dma = Some s' \<and>
    (let t = airport_release_dma s' in dm_descs t = {#} \<and> dm_nodes t = 0 \<and> dm_list t = [] \<and> dm_pending t = [])"
  by (rule dma_balanced) (simp_all add: demo_dma_wf, simp add: dma_eval Let_def)

text \<open>\<open>RTW88PCIDevice::teardown\<close> and \<open>free\<close> only drain the deferred entries: what is still mapped stays.\<close>

definition pcidevice_release_dma :: "dma \<Rightarrow> dma" where
  "pcidevice_release_dma s = drainPendingFree s"

lemma pcidevice_release_keeps: "dma_wf s \<Longrightarrow> dm_lock s \<Longrightarrow>
  dm_descs (pcidevice_release_dma s) = mset (map de_desc (dm_list s))"
  by (simp add: pcidevice_release_dma_def drainPendingFree_def fold_free dma_wf_def tracked_def)

section \<open>A bounce buffer carries the bytes\<close>

text \<open>What the chip does: it writes the buffer whose bus address it was given.\<close>

definition device_write :: "nat \<Rightarrow> bytes \<Rightarrow> dma \<Rightarrow> dma" where
  "device_write va bs s = s\<lparr>sl_mem := mem_write (sl_mem s) va bs\<rparr>"

lemma map_entry:
  assumes "compat_dma_map True (dma_alloc_of air) (Some a) p n dir s = Some (phys, s1)" "answer_fresh (Some a) s" "phys \<noteq> 0"
  shows "p \<noteq> 0" "phys = an_phys a"
    "dm_list s1 = \<lparr>de_desc = an_desc a, de_virt = an_virt a, de_phys = phys, de_size = n, de_orig = p\<rparr> # dm_list s"
    "sl_mem s1 = (let m = mem_write (sl_mem s) (an_virt a) (replicate (unat n) 0)
       in if dir = 1 \<or> dir = 2 then mem_write m (an_virt a) (mem_read m p (unat n)) else m)"
proof -
  from assms(1,2) have "p \<noteq> 0 \<and> phys = an_phys a \<and>
    dm_list s1 = \<lparr>de_desc = an_desc a, de_virt = an_virt a, de_phys = phys, de_size = n, de_orig = p\<rparr> # dm_list s \<and>
    sl_mem s1 = (let m = mem_write (sl_mem s) (an_virt a) (replicate (unat n) 0)
       in if dir = 1 \<or> dir = 2 then mem_write m (an_virt a) (mem_read m p (unat n)) else m)"
  proof (cases rule: map_cases)
    case failed
    then show ?thesis using assms(3) by simp
  next
    case (ok b t)
    then show ?thesis by (auto simp: setBounceOrigVA_def track_def zero_fill_def take_desc_def Let_def)
  qed
  then show "p \<noteq> 0" "phys = an_phys a"
    "dm_list s1 = \<lparr>de_desc = an_desc a, de_virt = an_virt a, de_phys = phys, de_size = n, de_orig = p\<rparr> # dm_list s"
    "sl_mem s1 = (let m = mem_write (sl_mem s) (an_virt a) (replicate (unat n) 0)
       in if dir = 1 \<or> dir = 2 then mem_write m (an_virt a) (mem_read m p (unat n)) else m)" by simp_all
qed

text \<open>C28: A streaming mapping hands the bytes over in both directions: mapped to the device, the chip reads what the caller
  wrote; mapped from the device, the sync brings into the caller's buffer exactly what the chip wrote; unmapping restores the
  list of live buffers.\<close>

theorem bounce_roundtrip:
  assumes map_ok: "compat_dma_map True (dma_alloc_of air) (Some a) p n dir s = Some (phys, s1)"
    and fresh: "answer_fresh (Some a) s" and mapped: "\<not> dma_mapping_error phys"
    and sep: "apart (an_virt a) (unat n) p (unat n)" and bs: "length bs = unat n"
  shows "(dir = 1 \<or> dir = 2 \<longrightarrow> mem_read (sl_mem s1) (an_virt a) (unat n) = mem_read (sl_mem s) p (unat n)) \<and>
         mem_read (sl_mem (compat_dma_sync_cpu True phys n 0 (device_write (an_virt a) bs s1))) p (unat n) = bs \<and>
         dm_list (compat_dma_unmap True pre phys s1) = dm_list s"
proof -
  have "phys \<noteq> 0" using mapped by (simp add: dma_mapping_error_def)
  note E = map_entry [OF map_ok fresh this]
  have v: "an_virt a \<noteq> 0" using fresh by (simp add: answer_fresh_def)
  let ?m = "mem_write (sl_mem s) (an_virt a) (replicate (unat n) 0)"
  have p: "mem_read ?m p (unat n) = mem_read (sl_mem s) p (unat n)" using sep by (intro mem_read_apart) simp
  have "mem_read (sl_mem s1) (an_virt a) (unat n) = mem_read (sl_mem s) p (unat n)" if "dir = 1 \<or> dir = 2"
    using that E(4) p mem_read_same [of ?m "an_virt a" "mem_read ?m p (unat n)"] by (auto simp: Let_def)
  moreover have "sync_lookup phys (device_write (an_virt a) bs s1) = Some (hd (dm_list s1))"
    using E v by (simp add: sync_lookup_def device_write_def)
  then have "mem_read (sl_mem (compat_dma_sync_cpu True phys n 0 (device_write (an_virt a) bs s1))) p (unat n) = bs"
    using E(3) bs mem_read_same [of "sl_mem s1" "an_virt a" bs] mem_read_same [of "mem_write (sl_mem s1) (an_virt a) bs" p bs]
    by (simp add: compat_dma_sync_cpu_def syncBounceForCpu_def sync_copy_def device_write_def Let_def)
  moreover have "dm_list (compat_dma_unmap True pre phys s1) = dm_list s"
    using E(3) by (simp add: compat_dma_unmap_def freeCoherentByPhys_def dispose_def free_entry_def dma_upd)
  ultimately show ?thesis by blast
qed

lemma bounce_roundtrip_witness:
  "let a = demo_answer 0; s1 = snd (the (compat_dma_map True (dma_alloc_of False) (Some a) 100 4 1 demo_dma))
   in (1 = (1 :: int) \<or> 1 = (2 :: int) \<longrightarrow>
         mem_read (sl_mem s1) (an_virt a) (unat (4 :: u64)) = mem_read (sl_mem demo_dma) 100 (unat (4 :: u64))) \<and>
      mem_read (sl_mem (compat_dma_sync_cpu True 4096 4 0 (device_write (an_virt a) [1, 2, 3, 4] s1))) 100 (unat (4 :: u64)) = [1, 2, 3, 4] \<and>
      dm_list (compat_dma_unmap True False 4096 s1) = dm_list demo_dma"
  unfolding Let_def
proof (rule bounce_roundtrip)
  show "compat_dma_map True (dma_alloc_of False) (Some (demo_answer 0)) 100 4 1 demo_dma =
        Some (4096, snd (the (compat_dma_map True (dma_alloc_of False) (Some (demo_answer 0)) 100 4 1 demo_dma)))"
    by (simp add: dma_eval Let_def)
qed (simp_all add: answer_fresh_def demo_answer_def demo_dma_def dma_mapping_error_def apart_def)

text \<open>The entry found by \<open>syncBounceForCpu\<close> may be released before the copy: nothing holds it between the two sections.\<close>

definition sync_race :: "dma \<Rightarrow> dma_entry option \<times> dma" where
  "sync_race s = (sync_lookup 4096 s, freeCoherentByPhys True 4096 s)"

lemma sync_copies_released:
  "\<exists>s e t. dma_wf s \<and> sync_race s = (Some e, t) \<and> de_desc e \<in># dm_descs s \<and> de_desc e \<notin># dm_descs t"
proof -
  define e where "e = \<lparr>de_desc = 0, de_virt = 65536, de_phys = 4096, de_size = 4, de_orig = 100\<rparr>"
  define s where "s = demo_dma\<lparr>dm_list := [e], dm_descs := {#0#}, dm_nodes := 1\<rparr>"
  show ?thesis
    by (intro exI [of _ s] exI [of _ e] exI [of _ "snd (sync_race s)"])
       (simp add: s_def e_def sync_race_def sync_lookup_def freeCoherentByPhys_def dispose_def free_entry_def drop_desc_def
          demo_dma_def dma_wf_def tracked_def)
qed

end
