(* ===== verification/AwdlManager.thy ===== *)
theory AwdlManager
  imports Stack
begin

text \<open>
  The class \<open>RTW88AWDLManager\<close>: the AWDL state shared by the virtual-interface requests and the management transport, with
  the buffer of the synchronisation frame template. Interfaces are addresses (0 for none); \<open>am_blocks\<close> lists the sizes of
  the blocks taken from \<open>IOMalloc\<close> and not given back, so that a free of a wrong size is \<open>None\<close>. Also the filter that
  decides which received action frames belong to AWDL.
\<close>

section \<open>State\<close>

record awdl_manager =
  am_backend :: bool
  am_workLoop :: bool
  am_awdlInterface :: nat
  am_p2pInterface :: nat
  am_syncTemplate :: "bytes option"
  am_syncTemplateLength :: u32
  am_electionMetric :: u32
  am_electionId :: u32
  am_masterChannel :: u32
  am_secondaryMasterChannel :: u32
  am_peerRegistrations :: u32
  am_presenceMode :: u32
  am_syncState :: u32
  am_actionFrameTxMode :: u64
  am_bssid :: bytes
  am_minRate :: u8
  am_deviceCapabilities :: u8
  am_syncChannelSequence :: bytes
  am_syncChannelSequenceLength :: u32
  am_availabilityWindowLength :: u32
  am_availabilityWindowPeriod :: u32
  am_extensionLength :: u32
  am_synchronizationFramePeriod :: u32
  am_syncParamsValid :: bool
  am_syncEnabled :: bool
  am_p2pEnabled :: bool
  am_blocks :: "nat list"

text \<open>\<open>new RTW88AWDLManager\<close>: the initialisers of the members.\<close>

definition new_manager :: awdl_manager where
  "new_manager = \<lparr>am_backend = False, am_workLoop = False, am_awdlInterface = 0, am_p2pInterface = 0,
     am_syncTemplate = None, am_syncTemplateLength = 0, am_electionMetric = 0, am_electionId = 0, am_masterChannel = 0,
     am_secondaryMasterChannel = 0, am_peerRegistrations = 0, am_presenceMode = 0, am_syncState = 0, am_actionFrameTxMode = 0,
     am_bssid = replicate 6 0, am_minRate = 0, am_deviceCapabilities = 0, am_syncChannelSequence = replicate 512 0,
     am_syncChannelSequenceLength = 0, am_availabilityWindowLength = 0, am_availabilityWindowPeriod = 0, am_extensionLength = 0,
     am_synchronizationFramePeriod = 0, am_syncParamsValid = False, am_syncEnabled = True, am_p2pEnabled = False, am_blocks = []\<rparr>"

text \<open>The roles of a virtual interface, with the numbers of a Ventura target.\<close>

definition APPLE80211_VIF_P2P_DEVICE :: u32 where "APPLE80211_VIF_P2P_DEVICE = 3"
definition APPLE80211_VIF_P2P_GO :: u32 where "APPLE80211_VIF_P2P_GO = 5"
definition APPLE80211_VIF_AWDL :: u32 where "APPLE80211_VIF_AWDL = 6"

section \<open>Operations\<close>

text \<open>The members \<open>init\<close> and \<open>reset\<close> both set.\<close>

definition reset_members :: "awdl_manager \<Rightarrow> awdl_manager" where
  "reset_members m = m\<lparr>am_syncEnabled := True, am_p2pEnabled := False, am_electionMetric := 0, am_electionId := 0,
     am_masterChannel := 0, am_secondaryMasterChannel := 0, am_presenceMode := 0, am_syncState := 0, am_actionFrameTxMode := 0,
     am_minRate := 0, am_deviceCapabilities := 0, am_bssid := replicate 6 0, am_peerRegistrations := 0\<rparr>"

definition manager_init :: "bool \<Rightarrow> bool \<Rightarrow> awdl_manager \<Rightarrow> bool \<times> awdl_manager" where
  "manager_init backend workLoop m =
     (if \<not> backend \<or> \<not> workLoop then (False, m)
      else (True, reset_members (m\<lparr>am_backend := True, am_workLoop := True\<rparr>)))"

definition io_free :: "nat \<Rightarrow> awdl_manager \<Rightarrow> awdl_manager option" where
  "io_free n m = (if n \<in> set (am_blocks m) then Some (m\<lparr>am_blocks := remove1 n (am_blocks m)\<rparr>) else None)"

definition manager_reset :: "awdl_manager \<Rightarrow> awdl_manager option" where
  "manager_reset m =
     (let m = reset_members (m\<lparr>am_awdlInterface := 0, am_p2pInterface := 0, am_backend := False, am_workLoop := False\<rparr>)
      in if am_syncTemplate m \<noteq> None
         then map_option (\<lambda>m. m\<lparr>am_syncTemplate := None, am_syncTemplateLength := 0\<rparr>) (io_free (unat (am_syncTemplateLength m)) m)
         else Some m)"

definition setVirtualInterface :: "u32 \<Rightarrow> nat \<Rightarrow> awdl_manager \<Rightarrow> awdl_manager" where
  "setVirtualInterface role i m =
     (if role = APPLE80211_VIF_AWDL then m\<lparr>am_awdlInterface := i\<rparr>
      else if role \<ge> APPLE80211_VIF_P2P_DEVICE \<and> role \<le> APPLE80211_VIF_P2P_GO then m\<lparr>am_p2pInterface := i\<rparr> else m)"

definition clearVirtualInterface :: "nat \<Rightarrow> awdl_manager \<Rightarrow> awdl_manager" where
  "clearVirtualInterface i m =
     (let m = (if am_awdlInterface m = i then m\<lparr>am_awdlInterface := 0\<rparr> else m)
      in if am_p2pInterface m = i then m\<lparr>am_p2pInterface := 0\<rparr> else m)"

text \<open>A payload is the bytes readable at the pointer, \<open>None\<close> for a null pointer. \<open>ok\<close>: \<open>IOMalloc\<close> returned memory.\<close>

definition setSyncFrameTemplate :: "bool \<Rightarrow> bytes option \<Rightarrow> u32 \<Rightarrow> awdl_manager \<Rightarrow> (IOReturn \<times> awdl_manager) option" where
  "setSyncFrameTemplate ok pay n m =
     (case pay of
        None \<Rightarrow> Some (BadArgument, m)
      | Some p \<Rightarrow>
          if n = 0 \<or> n > 4096 then Some (BadArgument, m)
          else if \<not> ok then Some (NoMemory, m)
          else if length p < unat n then None
          else let m = m\<lparr>am_blocks := unat n # am_blocks m\<rparr>
               in do { m \<leftarrow> (if am_syncTemplate m \<noteq> None then io_free (unat (am_syncTemplateLength m)) m else Some m);
                       Some (IOSuccess, m\<lparr>am_syncTemplate := Some (take (unat n) p), am_syncTemplateLength := n\<rparr>) })"

text \<open>Result: the status, the payload and the length written back.\<close>

definition copySyncFrameTemplate :: "bytes option \<Rightarrow> u32 option \<Rightarrow> awdl_manager \<Rightarrow> (IOReturn \<times> bytes option \<times> u32 option) option" where
  "copySyncFrameTemplate pay plen m =
     (case (pay, plen) of
        (Some p, Some capacity) \<Rightarrow>
          (case am_syncTemplate m of
             None \<Rightarrow> Some (NotReady, pay, plen)
           | Some t \<Rightarrow>
               if am_syncTemplateLength m = 0 then Some (NotReady, pay, plen)
               else let plen = Some (am_syncTemplateLength m)
               in if capacity < am_syncTemplateLength m then Some (NoSpace, pay, plen)
                  else map_option (\<lambda>p. (IOSuccess, Some p, plen)) (memcpy_at p 0 (take (unat (am_syncTemplateLength m)) t)))
      | _ \<Rightarrow> Some (BadArgument, pay, plen))"

definition setSyncChannelSequence :: "bytes option \<Rightarrow> u32 \<Rightarrow> awdl_manager \<Rightarrow> (IOReturn \<times> awdl_manager) option" where
  "setSyncChannelSequence src n m =
     (case src of
        None \<Rightarrow> Some (BadArgument, m)
      | Some d \<Rightarrow>
          if n = 0 \<or> n > 512 then Some (BadArgument, m)
          else if length d < unat n then None
          else Some (IOSuccess, m\<lparr>am_syncChannelSequence := blit (replicate 512 0) 0 (take (unat n) d),
                                  am_syncChannelSequenceLength := n\<rparr>))"

definition copySyncChannelSequence :: "bytes option \<Rightarrow> u32 \<Rightarrow> awdl_manager \<Rightarrow> (IOReturn \<times> bytes option) option" where
  "copySyncChannelSequence dst n m =
     (case dst of
        None \<Rightarrow> Some (NotReady, None)
      | Some d \<Rightarrow>
          if am_syncChannelSequenceLength m = 0 \<or> n < am_syncChannelSequenceLength m then Some (NotReady, dst)
          else map_option (\<lambda>d. (IOSuccess, Some d))
                 (memcpy_at d 0 (take (unat (am_syncChannelSequenceLength m)) (am_syncChannelSequence m))))"

definition setSyncParams :: "u32 \<Rightarrow> u32 \<Rightarrow> u32 \<Rightarrow> u32 \<Rightarrow> awdl_manager \<Rightarrow> awdl_manager" where
  "setSyncParams awLen awPeriod extLen syncPeriod m =
     m\<lparr>am_availabilityWindowLength := awLen, am_availabilityWindowPeriod := awPeriod, am_extensionLength := extLen,
       am_synchronizationFramePeriod := syncPeriod, am_syncParamsValid := True\<rparr>"

definition setBSSID :: "bytes option \<Rightarrow> awdl_manager \<Rightarrow> awdl_manager" where
  "setBSSID b m = (case b of None \<Rightarrow> m | Some a \<Rightarrow> m\<lparr>am_bssid := take 6 a\<rparr>)"

definition notePeerTrafficRegistration :: "bool \<Rightarrow> awdl_manager \<Rightarrow> awdl_manager" where
  "notePeerTrafficRegistration active m =
     (if active then m\<lparr>am_peerRegistrations := am_peerRegistrations m + 1\<rparr>
      else if am_peerRegistrations m \<noteq> 0 then m\<lparr>am_peerRegistrations := am_peerRegistrations m - 1\<rparr> else m)"

definition hasVirtualTransport :: "awdl_manager \<Rightarrow> bool" where
  "hasVirtualTransport m \<longleftrightarrow> am_awdlInterface m \<noteq> 0 \<or> am_p2pInterface m \<noteq> 0"

section \<open>The filter for AWDL action frames\<close>

definition awdl_bssid :: bytes where "awdl_bssid = [0x00, 0x25, 0x00, 0xff, 0x94, 0x73]"

text \<open>The subtype, or \<open>None\<close> for a frame that is not AWDL. The index operations are inside the frame after the length test.\<close>

definition rtw88IsAWDLActionFrame :: "bytes option \<Rightarrow> u8 option" where
  "rtw88IsAWDLActionFrame frame =
     (case frame of
        None \<Rightarrow> None
      | Some f \<Rightarrow>
          if length f < 24 + 16 then None
          else if f ! 0 AND 0xfc \<noteq> 0xd0 then None
          else if block f 16 6 \<noteq> awdl_bssid then None
          else let a = drop 24 f
          in if a ! 0 \<noteq> 0x7f \<or> block a 1 3 \<noteq> [0x00, 0x17, 0xf2] \<or> a ! 4 \<noteq> 8 then None
          else let subtype = a ! 6
          in if subtype \<noteq> 0 \<and> subtype \<noteq> 3 then None
          else let sa = block f 10 6
          in if list_all (\<lambda>b. b = 0) sa \<or> sa ! 0 AND 0x01 \<noteq> 0 then None
          else Some subtype)"

text \<open>The specification: the fields an AWDL frame is made of.\<close>

definition awdl_action_frame :: "u8 \<Rightarrow> bytes \<Rightarrow> bytes \<Rightarrow> u8 \<Rightarrow> u8 \<Rightarrow> bytes \<Rightarrow> bytes" where
  "awdl_action_frame low hdr sa ver sub rest =
     low # take 9 hdr @ sa @ awdl_bssid @ drop 9 hdr @ [0x7f, 0x00, 0x17, 0xf2, 8, ver, sub] @ rest"

lemma drop_split: "drop i xs = take k (drop i xs) @ drop (k + i) xs"
  by (metis append_take_drop_id drop_drop)

text \<open>The frame cut at the fields: one byte, nine, the source, the BSSID, two, the vendor header.\<close>

lemma cut_frame:
  fixes f :: bytes
  assumes "40 \<le> length f"
  shows "f = f ! 0 # block f 1 9 @ block f 10 6 @ block f 16 6 @ block f 22 2 @ [f ! 24, f ! 25, f ! 26, f ! 27, f ! 28, f ! 29, f ! 30] @ drop 31 f"
proof -
  have v: "take 7 (drop 24 f) = [f ! 24, f ! 25, f ! 26, f ! 27, f ! 28, f ! 29, f ! 30]"
    using assms by (intro nth_equalityI) (auto simp: less_Suc_eq numeral_eq_Suc)
  have "f = [f ! 0] @ drop 1 f" using assms by (cases f) auto
  also have "drop 1 f = block f 1 9 @ drop 10 f" using drop_split [of 1 f 9] by (simp add: block_def)
  also have "drop 10 f = block f 10 6 @ drop 16 f" using drop_split [of 10 f 6] by (simp add: block_def)
  also have "drop 16 f = block f 16 6 @ drop 22 f" using drop_split [of 16 f 6] by (simp add: block_def)
  also have "drop 22 f = block f 22 2 @ drop 24 f" using drop_split [of 22 f 2] by (simp add: block_def)
  also have "drop 24 f = take 7 (drop 24 f) @ drop 31 f" using drop_split [of 24 f 7] by simp
  finally show ?thesis unfolding v append_Cons append_Nil append_assoc .
qed

lemma awdl_frame_parts:
  assumes "length hdr = 11" "length sa = 6" "9 \<le> length rest" "f = awdl_action_frame low hdr sa ver sub rest"
  shows "40 \<le> length f" "f ! 0 = low" "block f 16 6 = awdl_bssid" "block f 10 6 = sa"
    "drop 24 f = [0x7f, 0x00, 0x17, 0xf2, 8, ver, sub] @ rest"
  using assms by (simp_all add: awdl_action_frame_def awdl_bssid_def block_def)

text \<open>The filter lets through exactly the frames of the AWDL layout: an action frame with Apple's BSSID and vendor header, of
  subtype PSF or MIF, from a source that is neither zero nor a group address, with the fixed fields complete. Every other frame
  is left to the infrastructure, and the subtype reported is the one in the frame.\<close>

theorem awdl_filter_exact:
  "rtw88IsAWDLActionFrame (Some f) = Some sub \<longleftrightarrow>
     (sub = 0 \<or> sub = 3) \<and>
     (\<exists>low hdr sa ver rest. f = awdl_action_frame low hdr sa ver sub rest \<and> low AND 0xfc = 0xd0 \<and> length hdr = 11 \<and>
        length sa = 6 \<and> sa \<noteq> replicate 6 0 \<and> sa ! 0 AND 1 = 0 \<and> 9 \<le> length rest)"
proof
  assume r: "rtw88IsAWDLActionFrame (Some f) = Some sub"
  then have l: "40 \<le> length f" by (auto simp: rtw88IsAWDLActionFrame_def split: if_splits)
  have z: "list_all (\<lambda>b. b = 0) (replicate 6 (0 :: u8))" by (simp add: list_all_iff)
  have lo: "f ! 0 AND 0xfc = 0xd0" "block f 16 6 = awdl_bssid" "f ! 24 = 0x7f" "block (drop 24 f) 1 3 = [0x00, 0x17, 0xf2]"
    "f ! 28 = 8" "f ! 30 = sub" "sub = 0 \<or> sub = 3" "\<not> list_all (\<lambda>b. b = 0) (block f 10 6)" "block f 10 6 ! 0 AND 1 = 0"
    using r l by (auto simp: rtw88IsAWDLActionFrame_def Let_def split: if_splits)
  have oui: "f ! 25 = 0" "f ! 26 = 0x17" "f ! 27 = 0xf2"
  proof -
    have "block (drop 24 f) 1 3 ! i = f ! (25 + i)" if "i < 3" for i using l that by (simp add: block_def add.commute)
    from this [of 0] this [of 1] this [of 2] show "f ! 25 = 0" "f ! 26 = 0x17" "f ! 27 = 0xf2" using lo(4) by simp_all
  qed
  have nz: "block f 10 6 \<noteq> replicate 6 0" using z lo(8) by metis
  have c: "f = awdl_action_frame (f ! 0) (block f 1 9 @ block f 22 2) (block f 10 6) (f ! 29) sub (drop 31 f)"
    using cut_frame [OF l] l lo oui by (simp add: awdl_action_frame_def length_block)
  have h: "length (block f 1 9 @ block f 22 2) = 11" "length (block f 10 6) = 6" "9 \<le> length (drop 31 f)"
    using l by (simp_all add: length_block)
  show "(sub = 0 \<or> sub = 3) \<and> (\<exists>low hdr sa ver rest. f = awdl_action_frame low hdr sa ver sub rest \<and> low AND 0xfc = 0xd0 \<and>
      length hdr = 11 \<and> length sa = 6 \<and> sa \<noteq> replicate 6 0 \<and> sa ! 0 AND 1 = 0 \<and> 9 \<le> length rest)"
    by (intro conjI exI) (fact lo(7), fact c, fact lo(1), fact h(1), fact h(2), fact nz, fact lo(9), fact h(3))
next
  assume "(sub = 0 \<or> sub = 3) \<and> (\<exists>low hdr sa ver rest. f = awdl_action_frame low hdr sa ver sub rest \<and> low AND 0xfc = 0xd0 \<and>
      length hdr = 11 \<and> length sa = 6 \<and> sa \<noteq> replicate 6 0 \<and> sa ! 0 AND 1 = 0 \<and> 9 \<le> length rest)"
  then obtain low hdr sa ver rest where a: "sub = 0 \<or> sub = 3" "low AND 0xfc = 0xd0" "sa \<noteq> replicate 6 0" "sa ! 0 AND 1 = 0"
    and e: "length hdr = 11" "length sa = 6" "9 \<le> length rest" "f = awdl_action_frame low hdr sa ver sub rest" by blast
  have "\<not> list_all (\<lambda>b. b = 0) sa"
  proof
    assume "list_all (\<lambda>b. b = 0) sa"
    then have "sa = replicate 6 0" using e(2) by (intro replicate_eqI) (auto simp: list_all_iff)
    then show False using a(3) by simp
  qed
  then show "rtw88IsAWDLActionFrame (Some f) = Some sub"
    using a(1,2,4) awdl_frame_parts(1) [OF e] by (auto simp: rtw88IsAWDLActionFrame_def Let_def awdl_frame_parts(2-5) [OF e] block_def [of "_ # _"])
qed

section \<open>The template buffer\<close>

definition template_ok :: "awdl_manager \<Rightarrow> bool" where
  "template_ok m \<longleftrightarrow>
     (case am_syncTemplate m of
        None \<Rightarrow> am_blocks m = [] \<and> am_syncTemplateLength m = 0
      | Some t \<Rightarrow> am_blocks m = [length t] \<and> length t = unat (am_syncTemplateLength m) \<and> t \<noteq> [])"

lemma new_manager_template: "template_ok new_manager"
  by (simp add: template_ok_def new_manager_def)

lemma set_template_ok:
  assumes "template_ok m" "setSyncFrameTemplate ok pay n m = Some (r, m')"
  shows "template_ok m'"
  using assms
  by (auto simp: setSyncFrameTemplate_def template_ok_def io_free_def Let_def unat_eq_zero
      split: option.splits if_splits bind_splits)

lemma reset_template: "template_ok m \<Longrightarrow> \<exists>m'. manager_reset m = Some m' \<and> template_ok m' \<and> am_blocks m' = []"
  by (auto simp: manager_reset_def template_ok_def io_free_def reset_members_def Let_def split: option.splits)

end
