(* ===== verification/Airport.thy ===== *)
theory Airport
  imports AwdlManager LinkState
begin

text \<open>
  The controller \<open>AirportRTW88\<close>: the requests of \<open>apple80211Request\<close> and its handlers, the scan-result conversion, the events
  of the 802.11 class and the link status. The class behind it is the model of \<open>Stack\<close> and \<open>Mlme\<close>, called here with the
  functions of those theories, so that a request is the composition the code makes. The superclass and the virtual
  interfaces belong to IO80211Family: their answers are fields of the environment.
\<close>

section \<open>Environment and state\<close>

text \<open>
  \<open>e_drain\<close> and \<open>e_wait\<close>: what the other threads do to the class while a request waits for the connect thread, or sleeps
  until a scan has ended.
\<close>

record env =
  e_driver :: driver
  e_dev :: "rtw_dev option"
  e_drain :: "RTW88IEEE80211 \<Rightarrow> RTW88IEEE80211"
  e_wait :: "RTW88IEEE80211 \<Rightarrow> RTW88IEEE80211"
  e_attach :: "nat \<times> bool"
  e_detach :: bool
  e_bsdName :: "nat \<Rightarrow> bytes option"
  e_role :: "nat \<Rightarrow> u32"

record apple_channel =
  ac_version :: u32
  ac_channel :: u32
  ac_flags :: u32

record apple80211_scan_result =
  asr_version :: u32
  asr_channel :: apple_channel
  asr_noise :: u16
  asr_snr :: u16
  asr_rssi :: u16
  asr_beacon_int :: u16
  asr_cap :: u16
  asr_bssid :: bytes
  asr_nrates :: u8
  asr_rates :: "u32 list"
  asr_ssid_len :: u8
  asr_ssid :: bytes
  asr_age :: u32
  asr_ie_len :: u16
  asr_ie_data :: bytes

datatype ap_msg =
    M_SCAN_DONE u32 | M_ASSOC_DONE | M_DEAUTH_RECEIVED | M_LINK_CHANGED | M_LINK_QUALITY
  | M_COUNTRY_CODE_CHANGED | M_POWER_CHANGED | M_RSN_HANDSHAKE_DONE
  | SetLinkState bool

record airport =
  ap_ieee80211 :: "RTW88IEEE80211 option"
  ap_awdlManager :: "awdl_manager option"
  ap_netif :: bool
  ap_scanResult :: apple80211_scan_result
  ap_scanCursor :: u32
  ap_authLower :: u32
  ap_authUpper :: u32
  ap_countryCode :: bytes
  ap_macAddr :: bytes
  ap_scanInProgress :: bool
  ap_linkUp :: bool
  ap_msgs :: "ap_msg list"

definition post :: "ap_msg \<Rightarrow> airport \<Rightarrow> airport" where
  "post m a = a\<lparr>ap_msgs := ap_msgs a @ [m]\<rparr>"

section \<open>Events of the 802.11 class\<close>

datatype RTW88Event = EventScanDone "u32 option" | EventAssocDone | EventDeauth | EventDisconnected | EventRSSIChanged

definition rtw88Event :: "RTW88Event \<Rightarrow> airport \<Rightarrow> airport" where
  "rtw88Event ev a =
     (if \<not> ap_netif a then a
      else case ev of
        EventScanDone r \<Rightarrow> post (M_SCAN_DONE (case r of None \<Rightarrow> 0 | Some v \<Rightarrow> v)) (a\<lparr>ap_scanInProgress := False, ap_scanCursor := 0\<rparr>)
      | EventAssocDone \<Rightarrow> post M_ASSOC_DONE a
      | EventDeauth \<Rightarrow> post M_DEAUTH_RECEIVED a
      | EventDisconnected \<Rightarrow> post M_LINK_CHANGED a
      | EventRSSIChanged \<Rightarrow> post M_LINK_QUALITY a)"

text \<open>The action \<open>setLinkStatus\<close> runs on the command gate, \<open>gate\<close>: there is one.\<close>

definition setLinkStatus :: "bool \<Rightarrow> bool \<Rightarrow> airport \<Rightarrow> airport" where
  "setLinkStatus gate up a =
     (if gate \<and> ap_netif a \<and> ap_linkUp a \<noteq> up
      then let a = post (SetLinkState up) (a\<lparr>ap_linkUp := up\<rparr>) in if up then post M_ASSOC_DONE a else a
      else a)"

text \<open>The calls the class made to its delegates, replayed on the controller in their order.\<close>

fun delegate_call :: "fx \<Rightarrow> airport \<Rightarrow> airport" where
  "delegate_call (FxScanDone aborted) a = rtw88Event (EventScanDone (Some (if aborted then 1 else 0))) a"
| "delegate_call (FxLink up) a = setLinkStatus True up a"
| "delegate_call _ a = a"

definition backend :: "RTW88IEEE80211 \<Rightarrow> RTW88IEEE80211 \<Rightarrow> airport \<Rightarrow> airport" where
  "backend s s' a = fold delegate_call (drop (length (k_fx s)) (k_fx s')) (a\<lparr>ap_ieee80211 := Some s'\<rparr>)"

section \<open>Commands that wait\<close>

definition abortActiveScan :: "env \<Rightarrow> RTW88IEEE80211 \<Rightarrow> (bool \<times> RTW88IEEE80211) option" where
  "abortActiveScan e s =
     (if k_state s \<noteq> RTW88_STATE_SCANNING then Some (True, s)
      else let returnState = k_scanReturnState s
           in abort_end returnState (e_wait e (abort_begin (e_driver e) s)))"

definition connect_whole :: "env \<Rightarrow> connect_args \<Rightarrow> RTW88IEEE80211 \<Rightarrow> (IOReturn \<times> RTW88IEEE80211) option" where
  "connect_whole e a s =
     do { (ok, s) \<leftarrow> abortActiveScan e s;
          Some (if \<not> ok then (Busy, s) else cmdConnect (e_driver e) a s) }"

definition disconnect_whole :: "env \<Rightarrow> RTW88IEEE80211 \<Rightarrow> IOReturn \<times> RTW88IEEE80211" where
  "disconnect_whole e s = cmdDisconnect (e_driver e) (e_drain e (cancelAuthentication s))"

definition powerOff_whole :: "env \<Rightarrow> RTW88IEEE80211 \<Rightarrow> (IOReturn \<times> RTW88IEEE80211) option" where
  "powerOff_whole e s =
     do { (ok, s) \<leftarrow> abortActiveScan e (e_drain e (cancelAuthentication s));
          Some (cmdPowerOff (e_driver e) ok s) }"

section \<open>Scan results\<close>

definition APPLE80211_VERSION :: u32 where "APPLE80211_VERSION = 1"

definition channel_flags :: "u32 \<Rightarrow> u32" where
  "channel_flags chan = 0x80 OR 0x02 OR (if chan \<le> 14 then 0x08 else 0x10)"

definition apple_channel_of :: "u32 \<Rightarrow> apple_channel" where
  "apple_channel_of chan = \<lparr>ac_version = APPLE80211_VERSION, ac_channel = chan, ac_flags = channel_flags chan\<rparr>"

text \<open>The first RSN element; \<open>Some None\<close>: there is none.\<close>

function rsn_tlv :: "bytes \<Rightarrow> nat \<Rightarrow> nat \<Rightarrow> bytes option option" where
  "rsn_tlv ies tot pos =
     (if pos + 2 \<le> tot then
        do { n1 \<leftarrow> rd ies (pos + 1);
             let n = unat n1 + 2 in
             if n > tot - pos then Some None
             else do { e \<leftarrow> rd ies pos;
               if e = 48 then Some (Some (take (if n > 1024 then 1024 else n) (block ies pos n)))
               else rsn_tlv ies tot (pos + n) } }
      else Some None)"
  by pat_completeness auto
termination by (relation "measure (\<lambda>(ies, tot, pos). tot - pos)") auto

text \<open>The rates of the elements 1 and 50, at most 15.\<close>

function rates_tlv :: "bytes \<Rightarrow> nat \<Rightarrow> nat \<Rightarrow> u32 list \<Rightarrow> u32 list option" where
  "rates_tlv ies tot pos rs =
     (if pos + 2 \<le> tot then
        do { n1 \<leftarrow> rd ies (pos + 1);
             let n = unat n1 + 2 in
             if n > tot - pos then Some rs
             else do { e \<leftarrow> rd ies pos;
               rates_tlv ies tot (pos + n)
                 (if e = 1 \<or> e = 50 then rs @ take (15 - length rs) (map ucast (block ies (pos + 2) (n - 2))) else rs) } }
      else Some rs)"
  by pat_completeness auto
termination by (relation "measure (\<lambda>(ies, tot, pos, rs). tot - pos)") auto

declare rsn_tlv.simps [simp del] rates_tlv.simps [simp del]

definition fillScanResultFromBSS :: "RTW88BSS \<Rightarrow> bool \<Rightarrow> apple80211_scan_result option" where
  "fillScanResultFromBSS b fullIEs =
     (let noise = - 95 :: u16;
          n = (if b_ssid_len b > 32 then 32 else b_ssid_len b);
          ieLength = ies_used b
      in do { ie \<leftarrow> (if fullIEs then Some (take (if ieLength > 1024 then 1024 else ieLength) (b_ies b))
                    else do { t \<leftarrow> rsn_tlv (b_ies b) ieLength 0; Some (case t of None \<Rightarrow> [] | Some e \<Rightarrow> e) });
              rates \<leftarrow> rates_tlv (b_ies b) ieLength 0 [];
              Some \<lparr>asr_version = APPLE80211_VERSION, asr_channel = apple_channel_of (ucast (b_channel b)), asr_noise = noise,
                asr_snr = b_rssi b - noise, asr_rssi = b_rssi b, asr_beacon_int = b_beacon_interval b,
                asr_cap = ucast (b_capabilities b), asr_bssid = b_bssid b, asr_nrates = of_nat (length rates),
                asr_rates = blit (replicate 15 0) 0 rates, asr_ssid_len = n,
                asr_ssid = blit (replicate 32 0) 0 (take (unat n) (b_ssid b)), asr_age = 0, asr_ie_len = of_nat (length ie),
                asr_ie_data = blit (replicate 1024 0) 0 ie\<rparr> })"

text \<open>The loops stay inside the element buffer, and at most 15 rates come out.\<close>

lemma rsn_tlv_bounds: "tot \<le> length ies \<Longrightarrow> \<exists>r. rsn_tlv ies tot pos = Some r \<and> (\<forall>e. r = Some e \<longrightarrow> length e \<le> 257)"
proof (induction ies tot pos rule: rsn_tlv.induct)
  case (1 ies tot pos)
  show ?case
  proof (cases "pos + 2 \<le> tot \<and> unat (ies ! (pos + 1)) + 2 \<le> tot - pos")
    case True
    have u: "unat (ies ! (pos + 1)) < 256" using unsigned_less [of "ies ! (pos + 1)", where ?'a = nat] by simp
    then show ?thesis using True 1 by (subst rsn_tlv.simps) (auto simp: Let_def length_block)
  next
    case False
    then show ?thesis using 1 by (subst rsn_tlv.simps) (auto simp: Let_def)
  qed
qed

lemma rates_tlv_bounds: "tot \<le> length ies \<Longrightarrow> length rs \<le> 15 \<Longrightarrow> \<exists>r. rates_tlv ies tot pos rs = Some r \<and> length r \<le> 15"
proof (induction ies tot pos rs rule: rates_tlv.induct)
  case (1 ies tot pos rs)
  show ?case
  proof (cases "pos + 2 \<le> tot \<and> unat (ies ! (pos + 1)) + 2 \<le> tot - pos")
    case True
    define n where "n = unat (ies ! (pos + 1)) + 2"
    define rs2 where "rs2 = (if ies ! pos = 1 \<or> ies ! pos = 50 then rs @ take (15 - length rs) (map ucast (block ies (pos + 2) (n - 2))) else rs)"
    have "\<exists>r. rates_tlv ies tot (pos + n) rs2 = Some r \<and> length r \<le> 15"
      unfolding rs2_def
      by (rule "1.IH" [of "ies ! (pos + 1)" n "ies ! pos"]) (use True "1.prems" in \<open>auto simp: n_def\<close>)
    moreover have "rates_tlv ies tot pos rs = rates_tlv ies tot (pos + n) rs2"
      using True "1.prems" by (subst rates_tlv.simps) (simp add: Let_def rs2_def n_def)
    ultimately show ?thesis by simp
  next
    case False
    then show ?thesis using 1 by (subst rates_tlv.simps) (auto simp: Let_def)
  qed
qed

section \<open>What a scan result reports\<close>

text \<open>The elements of a frame body, and their encoding.\<close>

type_synonym element = "u8 \<times> bytes"

definition enc_element :: "element \<Rightarrow> bytes" where
  "enc_element e = fst e # of_nat (length (snd e)) # snd e"

definition enc_elements :: "element list \<Rightarrow> bytes" where
  "enc_elements es = concat (map enc_element es)"

definition rate_elements :: "element list \<Rightarrow> u32 list" where
  "rate_elements es = concat (map (\<lambda>(t, v). if t = 1 \<or> t = 50 then map ucast v else []) es)"

definition first_rsn :: "element list \<Rightarrow> bytes option" where
  "first_rsn es = map_option enc_element (find (\<lambda>(t, v). t = 48) es)"

definition short_elements :: "element list \<Rightarrow> bool" where
  "short_elements es \<longleftrightarrow> (\<forall>e \<in> set es. length (snd e) \<le> 255)"

lemma enc_elements_simps [simp]:
  "enc_elements [] = []" "enc_elements (e # es) = fst e # of_nat (length (snd e)) # snd e @ enc_elements es"
  by (simp_all add: enc_elements_def enc_element_def)

lemma byte_length: "n \<le> 255 \<Longrightarrow> unat (of_nat n :: u8) = n"
  by (simp add: unat_of_nat)

lemma nth_after: "(pre @ a # b # v) ! (Suc (length pre)) = b" "(pre @ a # xs) ! length pre = a"
  by (simp_all add: nth_append)

lemma block_after: "block (pre @ a # b # v @ w) (length pre + 2) (length v) = v"
  by (simp add: block_def)

lemma rates_tlv_elements:
  assumes "short_elements es" "length rs \<le> 15"
  shows "rates_tlv (pre @ enc_elements es @ pad) (length pre + length (enc_elements es)) (length pre) rs =
         Some (rs @ take (15 - length rs) (rate_elements es))"
  using assms
proof (induction es arbitrary: pre rs)
  case Nil
  then show ?case by (subst rates_tlv.simps) (simp add: rate_elements_def)
next
  case (Cons e es)
  obtain t v where e: "e = (t, v)" by (cases e)
  have v: "length v \<le> 255" using Cons.prems(1) by (simp add: short_elements_def e)
  note n = byte_length [OF v]
  let ?rs = "if t = 1 \<or> t = 50 then rs @ take (15 - length rs) (map ucast v) else rs"
  have "rates_tlv (pre @ enc_elements (e # es) @ pad) (length pre + length (enc_elements (e # es))) (length pre) rs =
        rates_tlv ((pre @ t # of_nat (length v) # v) @ enc_elements es @ pad)
          (length (pre @ t # of_nat (length v) # v) + length (enc_elements es)) (length (pre @ t # of_nat (length v) # v)) ?rs"
    by (subst rates_tlv.simps) (simp add: e Let_def n nth_append block_def add.commute add.left_commute)
  also have "\<dots> = Some (?rs @ take (15 - length ?rs) (rate_elements es))"
    using Cons.prems by (intro Cons.IH) (auto simp: short_elements_def)
  also have "?rs @ take (15 - length ?rs) (rate_elements es) = rs @ take (15 - length rs) (rate_elements (e # es))"
    by (simp add: rate_elements_def e min_def)
  finally show ?case .
qed

lemma rsn_tlv_elements:
  assumes "short_elements es"
  shows "rsn_tlv (pre @ enc_elements es @ pad) (length pre + length (enc_elements es)) (length pre) = Some (first_rsn es)"
  using assms
proof (induction es arbitrary: pre)
  case Nil
  then show ?case by (subst rsn_tlv.simps) (simp add: first_rsn_def)
next
  case (Cons e es)
  obtain t v where e: "e = (t, v)" by (cases e)
  have v: "length v \<le> 255" using Cons.prems(1) by (simp add: short_elements_def e)
  note n = byte_length [OF v]
  show ?case
  proof (cases "t = 48")
    case True
    then show ?thesis using v
      by (subst rsn_tlv.simps) (simp add: e Let_def n nth_append block_def first_rsn_def enc_element_def)
  next
    case False
    have "rsn_tlv (pre @ enc_elements (e # es) @ pad) (length pre + length (enc_elements (e # es))) (length pre) =
          rsn_tlv ((pre @ t # of_nat (length v) # v) @ enc_elements es @ pad)
            (length (pre @ t # of_nat (length v) # v) + length (enc_elements es)) (length (pre @ t # of_nat (length v) # v))"
      using False by (subst rsn_tlv.simps) (simp add: e Let_def n nth_append add.commute add.left_commute)
    also have "\<dots> = Some (first_rsn es)" using Cons.prems by (intro Cons.IH) (simp add: short_elements_def)
    finally show ?thesis using False by (simp add: first_rsn_def e)
  qed
qed

text \<open>C39: A scan result built from a stored network tells the truth about it: identity, channel, signal and capabilities are the
  network's, the SSID is copied up to its length, the rates are the first fifteen of the elements 1 and 50 in their order, and
  the element data are either all elements of the network or exactly its first RSN element, within the buffers of the reply.\<close>

theorem scan_result_faithful:
  assumes b: "bss_ok b" and es: "b_ies b = enc_elements es @ pad" "unat (b_ies_len b) = length (enc_elements es)" "short_elements es"
  shows "\<exists>r. fillScanResultFromBSS b fullIEs = Some r \<and>
     asr_bssid r = b_bssid b \<and> asr_rssi r = b_rssi b \<and> ac_channel (asr_channel r) = ucast (b_channel b) \<and>
     asr_beacon_int r = b_beacon_interval b \<and> asr_cap r = ucast (b_capabilities b) \<and>
     take (unat (asr_ssid_len r)) (asr_ssid r) = take (unat (b_ssid_len b)) (b_ssid b) \<and>
     take (unat (asr_nrates r)) (asr_rates r) = take 15 (rate_elements es) \<and>
     take (unat (asr_ie_len r)) (asr_ie_data r) =
       (if fullIEs then enc_elements es else case first_rsn es of None \<Rightarrow> [] | Some t \<Rightarrow> t) \<and>
     length (asr_ssid r) = 32 \<and> length (asr_rates r) = 15 \<and> length (asr_ie_data r) = 1024"
proof -
  let ?ie = "if fullIEs then enc_elements es else case first_rsn es of None \<Rightarrow> [] | Some t \<Rightarrow> t"
  let ?rates = "take 15 (rate_elements es)"
  have l: "unat (b_ssid_len b) \<le> 32" "length (b_ssid b) = 33" "length (enc_elements es) < 512"
    using b es(2) by (auto simp: bss_ok_def)
  have u: "ies_used b = length (enc_elements es)" using es(2) l(3) by (simp add: ies_used_def)
  have rsn: "rsn_tlv (b_ies b) (ies_used b) 0 = Some (first_rsn es)"
    using rsn_tlv_elements [OF es(3), of "[]" pad] by (simp add: es(1) u)
  have rt: "rates_tlv (b_ies b) (ies_used b) 0 [] = Some ?rates"
    using rates_tlv_elements [OF es(3), of "[]" "[]" pad] by (simp add: es(1) u)
  have lie: "length ?ie \<le> 512"
  proof (cases "first_rsn es")
    case (Some t)
    then obtain e where e: "e \<in> set es" "t = enc_element e"
      by (auto simp: first_rsn_def find_Some_iff) (metis nth_mem)
    then have "length t \<le> 257" using es(3) by (auto simp: short_elements_def enc_element_def)
    then show ?thesis using Some l(3) by simp
  qed (use l(3) in simp)
  have sl: "\<not> b_ssid_len b > 32" using l(1) by (simp add: word_less_nat_alt)
  have blit0: "take (length xs) (blit (replicate k z) 0 xs) = xs" for xs :: "'z list" and k z by (simp add: blit_def)
  have n15: "unat (of_nat (length ?rates) :: u8) = length ?rates" by (rule byte_length) simp
  have nie: "unat (of_nat (length ?ie) :: u16) = length ?ie" using lie by (simp add: unat_of_nat)
  have ie: "(if fullIEs then Some (take (if ies_used b > 1024 then 1024 else ies_used b) (b_ies b))
             else do { t \<leftarrow> rsn_tlv (b_ies b) (ies_used b) 0; Some (case t of None \<Rightarrow> [] | Some e \<Rightarrow> e) }) = Some ?ie"
  proof (cases fullIEs)
    case True
    then show ?thesis using l(3) by (simp add: u es(1))
  qed (simp add: rsn)
  define r where "r = \<lparr>asr_version = APPLE80211_VERSION, asr_channel = apple_channel_of (ucast (b_channel b)), asr_noise = - 95,
                asr_snr = b_rssi b - (- 95), asr_rssi = b_rssi b, asr_beacon_int = b_beacon_interval b,
                asr_cap = ucast (b_capabilities b), asr_bssid = b_bssid b, asr_nrates = of_nat (length ?rates),
                asr_rates = blit (replicate 15 0) 0 ?rates, asr_ssid_len = b_ssid_len b,
                asr_ssid = blit (replicate 32 0) 0 (take (unat (b_ssid_len b)) (b_ssid b)), asr_age = 0, asr_ie_len = of_nat (length ?ie),
                asr_ie_data = blit (replicate 1024 0) 0 ?ie\<rparr>"
  have "fillScanResultFromBSS b fullIEs = Some r"
    unfolding fillScanResultFromBSS_def Let_def ie bind.bind_lunit rt if_not_P [OF sl] r_def by (rule refl)
  moreover have "take (unat (asr_nrates r)) (asr_rates r) = ?rates" unfolding r_def apple80211_scan_result.select_convs n15 by (rule blit0)
  moreover have "take (unat (asr_ie_len r)) (asr_ie_data r) = ?ie" unfolding r_def apple80211_scan_result.select_convs nie by (rule blit0)
  moreover have "take (unat (asr_ssid_len r)) (asr_ssid r) = take (unat (b_ssid_len b)) (b_ssid b)"
    using l blit0 [of "take (unat (b_ssid_len b)) (b_ssid b)" 32 0] by (simp add: r_def)
  moreover have "length (asr_ssid r) = 32" "length (asr_rates r) = 15" "length (asr_ie_data r) = 1024"
    using l lie by (simp_all add: r_def blit_def del: if_split)
  moreover have "asr_bssid r = b_bssid b \<and> asr_rssi r = b_rssi b \<and> ac_channel (asr_channel r) = ucast (b_channel b) \<and>
     asr_beacon_int r = b_beacon_interval b \<and> asr_cap r = ucast (b_capabilities b)"
    by (simp add: r_def apple_channel_of_def)
  ultimately show ?thesis by blast
qed

lemma scan_result_faithful_witness:
  "let b = zero_bss\<lparr>b_ies := enc_elements [(1, [0x82, 0x84])] @ replicate 508 0, b_ies_len := 4\<rparr>
   in \<exists>r. fillScanResultFromBSS b False = Some r \<and>
     asr_bssid r = b_bssid b \<and> asr_rssi r = b_rssi b \<and> ac_channel (asr_channel r) = ucast (b_channel b) \<and>
     asr_beacon_int r = b_beacon_interval b \<and> asr_cap r = ucast (b_capabilities b) \<and>
     take (unat (asr_ssid_len r)) (asr_ssid r) = take (unat (b_ssid_len b)) (b_ssid b) \<and>
     take (unat (asr_nrates r)) (asr_rates r) = take 15 (rate_elements [(1, [0x82, 0x84])]) \<and>
     take (unat (asr_ie_len r)) (asr_ie_data r) =
       (if False then enc_elements [(1, [0x82, 0x84])] else case first_rsn [(1, [0x82, 0x84])] of None \<Rightarrow> [] | Some t \<Rightarrow> t) \<and>
     length (asr_ssid r) = 32 \<and> length (asr_rates r) = 15 \<and> length (asr_ie_data r) = 1024"
  unfolding Let_def
  by (rule scan_result_faithful [where pad = "replicate 508 0"]) (simp_all add: bss_ok_def zero_bss_def short_elements_def)

section \<open>Payloads\<close>

record apple80211_key =
  key_version :: u32
  key_len :: u32
  key_cipher_type :: u32
  key_flags :: u16
  key_index :: u16
  key_bytes :: bytes

record apple80211_assoc_data =
  ad_version :: u32
  ad_auth_lower :: u32
  ad_auth_upper :: u32
  ad_ssid_len :: u32
  ad_ssid :: bytes
  ad_bssid :: bytes
  ad_key :: apple80211_key
  ad_rsn_ie :: bytes

text \<open>
  What \<open>data\<close> points to, one constructor for each structure, with the members the code reads or writes; \<open>Null\<close> is the null
  pointer. A structure of another kind than the selector's is undefined behaviour: \<open>None\<close>.
\<close>

datatype (plugins only: code) payload =
    Null
  | SsidData u32 u32 bytes
  | AuthtypeData u32 u32 u32
  | AssocData apple80211_assoc_data
  | RsnIeData u32 u16 bytes
  | ApIeData u32 u32 bytes
  | KeyData apple80211_key
  | ScanData u32 u32 u32
  | MultiScanData
  | ScanResultPtr "apple80211_scan_result option"
  | ScanResultData apple80211_scan_result
  | RssiData u32 u32 u32 int
  | OpmodeData u32 u32
  | PhymodeData u32 u32 u32
  | CapabilityData u32 bytes
  | BssidData u32 bytes
  | DeauthData u32 u32
  | AssocStatusData u32 u32
  | AssocResultData u32 u32
  | SupChannelData u32 "apple_channel list"
  | VersionData u32 u16 string
  | VifCreateData u32 bytes u32 bytes
  | VifDeleteData u32 bytes
  | StateData u32 u32
  | ChannelData u32 apple_channel
  | RadioInfoData u32 u32
  | PowerData u32 u32 "u32 list"
  | NoiseData u32 u32 u32 int
  | IntmitData u32 u32
  | ProtmodeData u32 u32 u32
  | TxpowerData u32 u32 u32
  | PowersaveData u32 u32
  | LocaleData u32 u32
  | CountryCodeData u32 bytes

text \<open>A result code: an \<open>IOReturn\<close>, or one of the BSD numbers the code returns.\<close>

datatype sint = Ret IOReturn | Errno nat

type_synonym response = "(sint \<times> payload \<times> airport) option"

definition answers_with :: "sint \<Rightarrow> payload \<Rightarrow> airport \<Rightarrow> response" where
  "answers_with r p a = Some (r, p, a)"

section \<open>Station queries\<close>

definition state_of :: "env \<Rightarrow> RTW88IEEE80211 \<Rightarrow> RTW88StateResult" where
  "state_of e s = the (snd (cmdGetState (e_driver e) (e_dev e) True s))"

definition sr_connected :: "RTW88StateResult \<Rightarrow> bool" where
  "sr_connected st \<longleftrightarrow> sr_state st = state_number RTW88_STATE_CONNECTED"

definition handleSSID :: "env \<Rightarrow> bool \<Rightarrow> payload \<Rightarrow> RTW88IEEE80211 \<Rightarrow> airport \<Rightarrow> response" where
  "handleSSID e isSet p s a =
     (case p of
        Null \<Rightarrow> answers_with (Ret BadArgument) p a
      | SsidData v n bs \<Rightarrow>
          if isSet then answers_with (Ret IOSuccess) p a
          else let st = state_of e s
          in if \<not> sr_connected st then answers_with (Errno 6) p a
          else let k = strnlen (sr_ssid st) 32
          in answers_with (Ret IOSuccess) (SsidData APPLE80211_VERSION (of_nat k) (blit (replicate 32 0) 0 (take k (sr_ssid st)))) a
      | _ \<Rightarrow> None)"

definition handleAUTH_TYPE :: "bool \<Rightarrow> payload \<Rightarrow> airport \<Rightarrow> response" where
  "handleAUTH_TYPE isSet p a =
     (case p of
        Null \<Rightarrow> answers_with (Ret BadArgument) p a
      | AuthtypeData v lower upper \<Rightarrow>
          if isSet
          then if v \<noteq> APPLE80211_VERSION then answers_with (Ret BadArgument) p a
               else answers_with (Ret IOSuccess) p (a\<lparr>ap_authLower := lower, ap_authUpper := upper\<rparr>)
          else answers_with (Ret IOSuccess) (AuthtypeData APPLE80211_VERSION (ap_authLower a) (ap_authUpper a)) a
      | _ \<Rightarrow> None)"

text \<open>The upper authentication types the code knows.\<close>

definition AUTH_WPA_PSK :: u32 where "AUTH_WPA_PSK = 0x02"
definition AUTH_WPA2_PSK :: u32 where "AUTH_WPA2_PSK = 0x08"
definition AUTH_SHA256_PSK :: u32 where "AUTH_SHA256_PSK = 0x400"

definition handleASSOCIATE :: "env \<Rightarrow> payload \<Rightarrow> RTW88IEEE80211 \<Rightarrow> airport \<Rightarrow> response" where
  "handleASSOCIATE e p s a =
     (case p of
        Null \<Rightarrow> answers_with (Ret BadArgument) p a
      | AssocData d \<Rightarrow>
          if ad_version d \<noteq> APPLE80211_VERSION \<or> ad_ssid_len d = 0 \<or> ad_ssid_len d > 32 then answers_with (Ret BadArgument) p a
          else let ssid = cstr (take (unat (ad_ssid_len d)) (ad_ssid d));
                   bssid = (if ad_bssid d \<noteq> replicate 6 0 then Some (ad_bssid d) else None);
                   a = a\<lparr>ap_authLower := ad_auth_lower d, ap_authUpper := ad_auth_upper d\<rparr>
          in do { t \<leftarrow> rd (ad_rsn_ie d) 0; l \<leftarrow> rd (ad_rsn_ie d) 1;
                  s \<leftarrow> (let rsnLen = ucast l + 2 :: u16
                       in if t = 48 \<and> rsnLen \<le> 257 then map_option snd (cmdSetAssocRsnIE (Some (ad_rsn_ie d)) rsnLen s) else Some s);
                  let a = a\<lparr>ap_ieee80211 := Some s\<rparr>;
                      secure = ad_auth_upper d AND (AUTH_WPA_PSK OR AUTH_WPA2_PSK OR AUTH_SHA256_PSK) \<noteq> 0
                  in if ad_auth_lower d \<noteq> 1 then answers_with (Ret Unsupported) p a
                     else if \<not> secure \<and> ad_auth_upper d \<noteq> 0 then answers_with (Ret Unsupported) p a
                     else if ad_auth_upper d AND (AUTH_WPA2_PSK OR AUTH_SHA256_PSK) = 0 \<and> ad_auth_upper d \<noteq> 0
                          then answers_with (Ret Unsupported) p a
                     else if secure \<and> key_len (ad_key d) \<noteq> 32 then answers_with (Ret Unsupported) p a
                     else if \<not> secure \<and> key_len (ad_key d) \<noteq> 0 then answers_with (Ret Unsupported) p a
                     else do { (r, s') \<leftarrow> connect_whole e \<lparr>ca_ssid = Some ssid, ca_password = None,
                                 ca_pmk = (if secure then Some (key_bytes (ad_key d)) else None), ca_bssid = bssid, ca_external = False\<rparr> s;
                               answers_with (Ret r) p (backend s s' a) } }
      | _ \<Rightarrow> None)"

definition handleRSN_IE :: "bool \<Rightarrow> payload \<Rightarrow> RTW88IEEE80211 \<Rightarrow> airport \<Rightarrow> response" where
  "handleRSN_IE isSet p s a =
     (case p of
        Null \<Rightarrow> answers_with (Ret BadArgument) p a
      | RsnIeData v n ie \<Rightarrow>
          if isSet
          then if v \<noteq> APPLE80211_VERSION \<or> n < 2 \<or> n > 257 then answers_with (Ret BadArgument) p a
               else do { (r, s) \<leftarrow> cmdSetAssocRsnIE (Some ie) n s; answers_with (Ret r) p (a\<lparr>ap_ieee80211 := Some s\<rparr>) }
          else do { (r, ie, k) \<leftarrow> copyTargetRsnIE (Some ie) 257 True s;
                    answers_with (Ret r) (if r \<noteq> IOSuccess then p
                        else RsnIeData APPLE80211_VERSION (case k of None \<Rightarrow> 0 | Some k \<Rightarrow> of_nat k) ie) a }
      | _ \<Rightarrow> None)"

text \<open>The buffer of \<open>ap_ie_data\<close> is part of the structure on the targets built; only \<open>d->len\<close> bytes of it are used.\<close>

definition handleAP_IE_LIST :: "payload \<Rightarrow> RTW88IEEE80211 \<Rightarrow> airport \<Rightarrow> response" where
  "handleAP_IE_LIST p s a =
     (case p of
        Null \<Rightarrow> answers_with (Ret BadArgument) p a
      | ApIeData v n ie \<Rightarrow>
          if n = 0 then answers_with (Ret BadArgument) p a
          else do { (r, rsn, k) \<leftarrow> copyTargetRsnIE (Some (replicate 257 0)) 257 True s;
                    let l = (case k of None \<Rightarrow> 0 | Some k \<Rightarrow> k) in
                    if r \<noteq> IOSuccess then answers_with (Ret r) p a
                    else if l > unat n then answers_with (Ret NoSpace) p a
                    else do { ie \<leftarrow> memcpy_at ie 0 (take l rsn);
                              answers_with (Ret IOSuccess) (ApIeData APPLE80211_VERSION (of_nat l) ie) a } }
      | _ \<Rightarrow> None)"

definition handleCIPHER_KEY :: "env \<Rightarrow> payload \<Rightarrow> RTW88IEEE80211 \<Rightarrow> airport \<Rightarrow> response" where
  "handleCIPHER_KEY e p s a =
     (case p of
        Null \<Rightarrow> answers_with (Ret BadArgument) p a
      | KeyData k \<Rightarrow>
          if key_version k \<noteq> APPLE80211_VERSION \<or> key_len k > 32 then answers_with (Ret BadArgument) p a
          else if key_cipher_type k = 0 then answers_with (Ret IOSuccess) p a
          else (case (if key_cipher_type k = 5 then Some WLAN_CIPHER_SUITE_CCMP
                      else if key_cipher_type k = 3 then Some WLAN_CIPHER_SUITE_TKIP else None) of
                  None \<Rightarrow> answers_with (Ret Unsupported) p a
                | Some cipher \<Rightarrow>
                    if key_flags k \<noteq> 4 \<and> key_flags k \<noteq> 0 then answers_with (Ret Unsupported) p a
                    else let (r, s') = cmdInstallExternalKey (e_driver e) (key_flags k = 4) (ucast (key_index k)) cipher
                               (Some (take (unat (key_len k)) (key_bytes k))) s;
                             a = backend s s' a
                    in answers_with (Ret r) p (if r = IOSuccess \<and> ap_netif a then post M_RSN_HANDSHAKE_DONE a else a))
      | _ \<Rightarrow> None)"

definition handleDISASSOCIATE :: "env \<Rightarrow> payload \<Rightarrow> RTW88IEEE80211 \<Rightarrow> airport \<Rightarrow> response" where
  "handleDISASSOCIATE e p s a = (case disconnect_whole e s of (r, s') \<Rightarrow> answers_with (Ret r) p (backend s s' a))"

end
