(* ===== verification/AirportReq.thy ===== *)
theory AirportReq
  imports Airport Interleave
begin

text \<open>
  \<open>apple80211Request\<close>: the dispatcher, the scan requests and their enumeration, and the remaining queries of the controller
  \<open>AirportRTW88\<close>; with the interface calls of IONetworkController that decide something.
\<close>

section \<open>Scans\<close>

text \<open>What \<open>SCAN_REQ\<close> and \<open>SCAN_REQ_MULTIPLE\<close> do after their own checks. Posting through a null \<open>_netif\<close> is a fault.\<close>

definition scan_request :: "env \<Rightarrow> payload \<Rightarrow> RTW88IEEE80211 \<Rightarrow> airport \<Rightarrow> response" where
  "scan_request e p s a =
     (if ap_scanInProgress a then answers_with (Ret IOSuccess) p a
      else if sr_connected (state_of e s)
      then if \<not> ap_netif a then None
           else answers_with (Ret IOSuccess) p (post (M_SCAN_DONE 0) (a\<lparr>ap_scanCursor := 0\<rparr>))
      else let a = a\<lparr>ap_scanInProgress := True, ap_scanCursor := 0\<rparr>;
               (r, s') = cmdScan (e_driver e) s;
               a = backend s s' a
      in answers_with (Ret r) p (if r \<noteq> IOSuccess then a\<lparr>ap_scanInProgress := False\<rparr> else a))"

definition handleSCAN_REQ :: "env \<Rightarrow> payload \<Rightarrow> RTW88IEEE80211 \<Rightarrow> airport \<Rightarrow> response" where
  "handleSCAN_REQ e p s a =
     (case p of
        Null \<Rightarrow> answers_with (Ret BadArgument) p a
      | ScanData v ssid_n channels \<Rightarrow>
          if v \<noteq> APPLE80211_VERSION \<or> ssid_n > 32 \<or> channels > 128 then answers_with (Ret BadArgument) p a
          else scan_request e p s a
      | _ \<Rightarrow> None)"

definition handleSCAN_RESULT :: "payload \<Rightarrow> RTW88IEEE80211 \<Rightarrow> airport \<Rightarrow> response" where
  "handleSCAN_RESULT p s a =
     (case p of
        Null \<Rightarrow> answers_with (Ret BadArgument) p a
      | ScanResultPtr q \<Rightarrow>
          if ap_scanInProgress a then answers_with (Ret Busy) (ScanResultPtr None) a
          else (case copyScanBSS (unat (ap_scanCursor a)) True (k_scan s) of
                  (r, ob) \<Rightarrow>
                    if r = NotFound then answers_with (Errno 5) (ScanResultPtr None) (a\<lparr>ap_scanCursor := 0\<rparr>)
                    else (case ob of
                            None \<Rightarrow> answers_with (Ret r) (ScanResultPtr None) a
                          | Some b \<Rightarrow> do { x \<leftarrow> fillScanResultFromBSS b False;
                              answers_with (Ret IOSuccess) (ScanResultPtr (Some x))
                                (a\<lparr>ap_scanResult := x, ap_scanCursor := ap_scanCursor a + 1\<rparr>) }))
      | _ \<Rightarrow> None)"

text \<open>The network rebuilt from the connection state when the table has no entry for it.\<close>

definition current_from_state :: "RTW88StateResult \<Rightarrow> RTW88BSS \<Rightarrow> RTW88BSS" where
  "current_from_state st b =
     (let n = strnlen (sr_ssid st) 32
      in b\<lparr>b_ssid_len := of_nat n, b_ssid := (blit (b_ssid b) 0 (take n (sr_ssid st)))[n := 0], b_bssid := sr_bssid st,
           b_channel := ucast (sr_channel st), b_rssi := of_int (sr_rssi st), b_beacon_interval := 100\<rparr>)"

definition handleCURRENT_NETWORK :: "env \<Rightarrow> payload \<Rightarrow> RTW88IEEE80211 \<Rightarrow> airport \<Rightarrow> response" where
  "handleCURRENT_NETWORK e p s a =
     (case p of
        Null \<Rightarrow> answers_with (Ret BadArgument) p a
      | ScanResultData old \<Rightarrow>
          (case copyCurrentBSS True s of
             (ret, ob) \<Rightarrow>
               let current = (case ob of None \<Rightarrow> zero_bss | Some b \<Rightarrow> b);
                   st = state_of e s
               in if ret \<noteq> IOSuccess \<and> (\<not> sr_connected st \<or> sr_channel st = 0 \<or> sr_ssid st ! 0 = 0)
                  then answers_with (Ret ret) p a
                  else do { x \<leftarrow> fillScanResultFromBSS (if ret = IOSuccess then current else current_from_state st current) True;
                            answers_with (Ret IOSuccess) (ScanResultData x) a })
      | _ \<Rightarrow> None)"

section \<open>State, channel and power\<close>

text \<open>\<open>apple80211_state\<close>\<close>

fun apple_state :: "RTW88State \<Rightarrow> u32" where
  "apple_state RTW88_STATE_SCANNING = 1"
| "apple_state RTW88_STATE_AUTHENTICATING = 2"
| "apple_state RTW88_STATE_ASSOCIATING = 3"
| "apple_state RTW88_STATE_HANDSHAKING = 3"
| "apple_state RTW88_STATE_CONNECTED = 4"
| "apple_state _ = 0"

definition handleSTATE :: "payload \<Rightarrow> RTW88IEEE80211 \<Rightarrow> airport \<Rightarrow> response" where
  "handleSTATE p s a =
     (case p of
        Null \<Rightarrow> answers_with (Ret BadArgument) p a
      | StateData v x \<Rightarrow> answers_with (Ret IOSuccess) (StateData APPLE80211_VERSION (apple_state (k_state s))) a
      | _ \<Rightarrow> None)"

definition handleCHANNEL :: "env \<Rightarrow> payload \<Rightarrow> RTW88IEEE80211 \<Rightarrow> airport \<Rightarrow> response" where
  "handleCHANNEL e p s a =
     (case p of
        Null \<Rightarrow> answers_with (Ret BadArgument) p a
      | ChannelData v c \<Rightarrow>
          let st = state_of e s
          in if \<not> sr_connected st \<or> sr_channel st = 0 then answers_with (Errno 6) p a
             else answers_with (Ret IOSuccess) (ChannelData APPLE80211_VERSION (apple_channel_of (sr_channel st))) a
      | _ \<Rightarrow> None)"

definition handlePOWER :: "env \<Rightarrow> bool \<Rightarrow> payload \<Rightarrow> RTW88IEEE80211 \<Rightarrow> airport \<Rightarrow> response" where
  "handlePOWER e isSet p s a =
     (case p of
        Null \<Rightarrow> answers_with (Ret BadArgument) p a
      | PowerData v n states \<Rightarrow>
          if isSet then
            (if v \<noteq> APPLE80211_VERSION \<or> n = 0 \<or> n > 4 then answers_with (Ret BadArgument) p a
             else do { requested \<leftarrow> rd states 0;
                       if requested \<noteq> 1 \<and> requested \<noteq> 0 then answers_with (Ret Unsupported) p a
                       else do { (r, s') \<leftarrow> (if requested = 1 then Some (cmdPowerOn (e_driver e) s) else powerOff_whole e s);
                                 let a = backend s s' a in
                                 answers_with (Ret r) p (if r = IOSuccess \<and> ap_netif a then post M_POWER_CHANGED a else a) } })
          else answers_with (Ret IOSuccess)
                 (PowerData APPLE80211_VERSION 4 (replicate 4 (if sr_powered (state_of e s) then 1 else 0))) a
      | _ \<Rightarrow> None)"

section \<open>Virtual interfaces\<close>

definition bsd_name_field :: "bytes option \<Rightarrow> bytes" where
  "bsd_name_field name =
     (case name of None \<Rightarrow> replicate 16 0 | Some n \<Rightarrow> blit (replicate 16 0) 0 (take 15 n))"

definition handleVIRTUAL_IF_CREATE :: "env \<Rightarrow> payload \<Rightarrow> airport \<Rightarrow> response" where
  "handleVIRTUAL_IF_CREATE e p a =
     (case p of
        Null \<Rightarrow> answers_with (Ret BadArgument) p a
      | VifCreateData v mac role name \<Rightarrow>
          if v \<noteq> APPLE80211_VERSION then answers_with (Ret BadArgument) p a
          else if role < APPLE80211_VIF_P2P_DEVICE \<or> role > APPLE80211_VIF_AWDL then answers_with (Ret Unsupported) p a
          else (case ap_awdlManager a of
                  None \<Rightarrow> answers_with (Ret NotReady) p a
                | Some m \<Rightarrow>
                    let existing = (if role = APPLE80211_VIF_AWDL then am_awdlInterface m else am_p2pInterface m)
                    in if existing \<noteq> 0
                       then answers_with (Ret IOSuccess) (VifCreateData v mac role (bsd_name_field (e_bsdName e existing))) a
                       else let (created, ok) = e_attach e
                       in if \<not> ok \<or> created = 0 then answers_with (Ret IOError) p a
                          else answers_with (Ret IOSuccess) (VifCreateData v mac role (bsd_name_field (e_bsdName e created)))
                                 (a\<lparr>ap_awdlManager := Some (setVirtualInterface role created m)\<rparr>))
      | _ \<Rightarrow> None)"

text \<open>\<open>strncmp\<close> over the field of 16 bytes against a zero-terminated name.\<close>

definition same_name :: "bytes option \<Rightarrow> bytes \<Rightarrow> bool" where
  "same_name name field = (case name of None \<Rightarrow> False | Some n \<Rightarrow> take 16 n = cstr (take 16 field))"

definition handleVIRTUAL_IF_DELETE :: "env \<Rightarrow> payload \<Rightarrow> airport \<Rightarrow> response" where
  "handleVIRTUAL_IF_DELETE e p a =
     (case p of
        Null \<Rightarrow> answers_with (Ret BadArgument) p a
      | VifDeleteData v name \<Rightarrow>
          if v \<noteq> APPLE80211_VERSION then answers_with (Ret BadArgument) p a
          else let awdl = (case ap_awdlManager a of None \<Rightarrow> 0 | Some m \<Rightarrow> am_awdlInterface m);
                   p2p = (case ap_awdlManager a of None \<Rightarrow> 0 | Some m \<Rightarrow> am_p2pInterface m);
                   target = (if awdl \<noteq> 0 \<and> same_name (e_bsdName e awdl) name then awdl
                             else if p2p \<noteq> 0 \<and> same_name (e_bsdName e p2p) name then p2p else 0)
          in if target = 0 then answers_with (Ret NotFound) p a
             else if e_detach e
             then answers_with (Ret IOSuccess) p (a\<lparr>ap_awdlManager := map_option (clearVirtualInterface target) (ap_awdlManager a)\<rparr>)
             else answers_with (Ret IOError) p a
      | _ \<Rightarrow> None)"

section \<open>The dispatcher\<close>

datatype req = GetReq | SetReq | OtherReq

text \<open>The selectors of the \<open>switch\<close>.\<close>

datatype (plugins only: code) ioc =
    IOC_SSID | IOC_AUTH_TYPE | IOC_ASSOCIATE | IOC_RSN_IE | IOC_AP_IE_LIST | IOC_CIPHER_KEY | IOC_SCAN_REQ
  | IOC_SCAN_REQ_MULTIPLE | IOC_SCANCACHE_CLEAR | IOC_SCAN_RESULT | IOC_RSSI | IOC_DISASSOCIATE | IOC_OP_MODE | IOC_PHY_MODE
  | IOC_CARD_CAPABILITIES | IOC_BSSID | IOC_DEAUTH | IOC_ASSOCIATION_STATUS | IOC_ASSOCIATE_RESULT | IOC_SUPPORTED_CHANNELS
  | IOC_HW_SUPPORTED_CHANNELS | IOC_DRIVER_VERSION | IOC_HARDWARE_VERSION | IOC_VIRTUAL_IF_CREATE | IOC_VIRTUAL_IF_DELETE
  | IOC_CURRENT_NETWORK | IOC_STATE | IOC_CHANNEL | IOC_RADIO_INFO | IOC_POWER | IOC_NOISE | IOC_INT_MIT | IOC_PROTMODE
  | IOC_TXPOWER | IOC_POWERSAVE | IOC_LOCALE | IOC_COUNTRY_CODE
  | IOC_OTHER int

text \<open>A query of the station: 6 unless it is connected. \<open>p\<close> is left as it is then.\<close>

definition when_connected :: "env \<Rightarrow> RTW88IEEE80211 \<Rightarrow> payload \<Rightarrow> payload \<Rightarrow> airport \<Rightarrow> response" where
  "when_connected e s p q a =
     (if sr_connected (state_of e s) then answers_with (Ret IOSuccess) q a else answers_with (Errno 6) p a)"

text \<open>The bit numbers of the capabilities advertised, and the bytes set after them.\<close>

definition set_cap :: "nat \<Rightarrow> bytes \<Rightarrow> bytes" where
  "set_cap c bs = bs[c div 8 := (bs ! (c div 8)) OR push_bit (c mod 8) 1]"

definition card_capabilities :: bytes where
  "card_capabilities = (fold set_cap [1, 3, 14, 12, 9, 10] (replicate 11 0))
     [2 := 0xFF, 3 := 0x2B, 4 := 0xAD, 5 := 0x8C, 6 := 0x8C, 7 := 0x84]"

definition supported_channels :: "payload \<Rightarrow> RTW88IEEE80211 \<Rightarrow> airport \<Rightarrow> response" where
  "supported_channels p s a =
     (case copyChannels True 128 s of
        (r, cs) \<Rightarrow>
          if r \<noteq> IOSuccess then answers_with (Ret r) p a
          else answers_with (Ret IOSuccess) (SupChannelData APPLE80211_VERSION (map (\<lambda>c. apple_channel_of (of_int (c_number c))) cs)) a)"

definition country_code :: "bool \<Rightarrow> payload \<Rightarrow> airport \<Rightarrow> response" where
  "country_code isSet p a =
     (case p of
        CountryCodeData v cc \<Rightarrow>
          if isSet then
            (if v \<noteq> APPLE80211_VERSION then answers_with (Ret BadArgument) p a
             else do { c0 \<leftarrow> rd cc 0;
                       if c0 \<noteq> 0x78 \<and> c0 \<noteq> 0x58
                       then let a = a\<lparr>ap_countryCode := (take 3 cc)[2 := 0]\<rparr>
                            in answers_with (Ret IOSuccess) p (if ap_netif a then post M_COUNTRY_CODE_CHANGED a else a)
                       else answers_with (Ret IOSuccess) p a })
          else answers_with (Ret IOSuccess) (CountryCodeData APPLE80211_VERSION (ap_countryCode a)) a
      | _ \<Rightarrow> None)"

text \<open>The queries that only read: what each of them answers to a GET. The payload has the kind of the selector.\<close>

definition query :: "env \<Rightarrow> ioc \<Rightarrow> payload \<Rightarrow> RTW88IEEE80211 \<Rightarrow> airport \<Rightarrow> response" where
  "query e i p s a =
     (let st = state_of e s; v = APPLE80211_VERSION; ok = (\<lambda>q. answers_with (Ret IOSuccess) q a)
      in case (i, p) of
        (IOC_RSSI, RssiData _ _ _ _) \<Rightarrow> when_connected e s p (RssiData v 1 0 (sr_rssi st)) a
      | (IOC_OP_MODE, OpmodeData _ _) \<Rightarrow> ok (OpmodeData v 1)
      | (IOC_PHY_MODE, PhymodeData _ _ _) \<Rightarrow> ok (PhymodeData v (0x02 OR 0x04 OR 0x08 OR 0x10 OR 0x80) 1)
      | (IOC_CARD_CAPABILITIES, CapabilityData _ _) \<Rightarrow> ok (CapabilityData v card_capabilities)
      | (IOC_BSSID, BssidData _ _) \<Rightarrow> when_connected e s p (BssidData v (sr_bssid st)) a
      | (IOC_DEAUTH, DeauthData _ _) \<Rightarrow> ok (DeauthData v (k_deauthReason s))
      | (IOC_ASSOCIATION_STATUS, AssocStatusData _ _) \<Rightarrow> ok (AssocStatusData v (if sr_connected st then 0 else 0xffff))
      | (IOC_ASSOCIATE_RESULT, AssocResultData _ _) \<Rightarrow>
          if sr_connected st then ok (AssocResultData v 1) else answers_with (Ret NotReady) p a
      | (IOC_SUPPORTED_CHANNELS, SupChannelData _ _) \<Rightarrow> supported_channels p s a
      | (IOC_HW_SUPPORTED_CHANNELS, SupChannelData _ _) \<Rightarrow> supported_channels p s a
      | (IOC_DRIVER_VERSION, VersionData _ _ _) \<Rightarrow> ok (VersionData v 19 ''AirPort_RTW88 1.0.1'')
      | (IOC_HARDWARE_VERSION, VersionData _ _ _) \<Rightarrow> ok (VersionData v 9 ''RTL8822BE'')
      | (IOC_RADIO_INFO, RadioInfoData _ _) \<Rightarrow> ok (RadioInfoData v 1)
      | (IOC_NOISE, NoiseData _ _ _ _) \<Rightarrow> when_connected e s p (NoiseData v 1 0 (- 95)) a
      | (IOC_INT_MIT, IntmitData _ _) \<Rightarrow> ok (IntmitData v 1)
      | (IOC_PROTMODE, ProtmodeData _ _ _) \<Rightarrow> when_connected e s p (ProtmodeData v 0 0) a
      | (IOC_TXPOWER, TxpowerData _ _ _) \<Rightarrow> when_connected e s p (TxpowerData v 2 100) a
      | (IOC_POWERSAVE, PowersaveData _ _) \<Rightarrow> ok (PowersaveData v 0)
      | (IOC_LOCALE, LocaleData _ _) \<Rightarrow> ok (LocaleData v 6)
      | _ \<Rightarrow> None)"

definition unsupported_set :: "bool \<Rightarrow> payload \<Rightarrow> airport \<Rightarrow> response \<Rightarrow> response" where
  "unsupported_set isSet p a r = (if isSet then answers_with (Ret Unsupported) p a else r)"

definition unsupported_get :: "bool \<Rightarrow> payload \<Rightarrow> airport \<Rightarrow> response \<Rightarrow> response" where
  "unsupported_get isSet p a r = (if \<not> isSet then answers_with (Ret Unsupported) p a else r)"

definition dispatch :: "env \<Rightarrow> bool \<Rightarrow> ioc \<Rightarrow> payload \<Rightarrow> RTW88IEEE80211 \<Rightarrow> airport \<Rightarrow> response" where
  "dispatch e isSet i p s a =
     (case i of
        IOC_SSID \<Rightarrow> handleSSID e isSet p s a
      | IOC_AUTH_TYPE \<Rightarrow> handleAUTH_TYPE isSet p a
      | IOC_ASSOCIATE \<Rightarrow> unsupported_get isSet p a (handleASSOCIATE e p s a)
      | IOC_RSN_IE \<Rightarrow> handleRSN_IE isSet p s a
      | IOC_AP_IE_LIST \<Rightarrow> unsupported_set isSet p a (handleAP_IE_LIST p s a)
      | IOC_CIPHER_KEY \<Rightarrow> unsupported_get isSet p a (handleCIPHER_KEY e p s a)
      | IOC_SCAN_REQ \<Rightarrow> unsupported_get isSet p a (handleSCAN_REQ e p s a)
      | IOC_SCAN_REQ_MULTIPLE \<Rightarrow> unsupported_get isSet p a (scan_request e p s a)
      | IOC_SCANCACHE_CLEAR \<Rightarrow> unsupported_get isSet p a (answers_with (Ret IOSuccess) p (a\<lparr>ap_scanCursor := 0\<rparr>))
      | IOC_SCAN_RESULT \<Rightarrow> unsupported_set isSet p a (handleSCAN_RESULT p s a)
      | IOC_DISASSOCIATE \<Rightarrow> unsupported_get isSet p a (handleDISASSOCIATE e p s a)
      | IOC_BSSID \<Rightarrow> if isSet then answers_with (Ret IOSuccess) p a else query e i p s a
      | IOC_VIRTUAL_IF_CREATE \<Rightarrow> unsupported_get isSet p a (handleVIRTUAL_IF_CREATE e p a)
      | IOC_VIRTUAL_IF_DELETE \<Rightarrow> unsupported_get isSet p a (handleVIRTUAL_IF_DELETE e p a)
      | IOC_CURRENT_NETWORK \<Rightarrow> unsupported_set isSet p a (handleCURRENT_NETWORK e p s a)
      | IOC_STATE \<Rightarrow> unsupported_set isSet p a (handleSTATE p s a)
      | IOC_CHANNEL \<Rightarrow> unsupported_set isSet p a (handleCHANNEL e p s a)
      | IOC_POWER \<Rightarrow> handlePOWER e isSet p s a
      | IOC_COUNTRY_CODE \<Rightarrow> country_code isSet p a
      | IOC_OTHER n \<Rightarrow> answers_with (Ret Unsupported) p a
      | _ \<Rightarrow> unsupported_set isSet p a (query e i p s a))"

definition apple80211Request :: "env \<Rightarrow> req \<Rightarrow> ioc \<Rightarrow> payload \<Rightarrow> airport \<Rightarrow> response" where
  "apple80211Request e r i p a =
     (case ap_ieee80211 a of
        None \<Rightarrow> answers_with (Ret NotReady) p a
      | Some s \<Rightarrow>
          if r = OtherReq then answers_with (Ret BadArgument) p a
          else if p = Null \<and> i \<noteq> IOC_DISASSOCIATE then answers_with (Ret BadArgument) p a
          else dispatch e (r = SetReq) i p s a)"

section \<open>Requests keep the class in its invariant\<close>

text \<open>What the other threads do during a wait keeps the invariant: every section of \<open>link_step\<close> does.\<close>

definition env_ok :: "env \<Rightarrow> bool" where
  "env_ok e \<longleftrightarrow> (\<forall>s. mlme_inv s \<longrightarrow> mlme_inv (e_drain e s) \<and> mlme_inv (e_wait e s))"

lemma env_okD: "env_ok e \<Longrightarrow> mlme_inv s \<Longrightarrow> mlme_inv (e_drain e s)" "env_ok e \<Longrightarrow> mlme_inv s \<Longrightarrow> mlme_inv (e_wait e s)"
  by (simp_all add: env_ok_def)

lemma delegate_ieee [simp]: "ap_ieee80211 (delegate_call x a) = ap_ieee80211 a"
  by (cases x) (auto simp: rtw88Event_def setLinkStatus_def post_def Let_def)

lemma delegates_ieee [simp]: "ap_ieee80211 (fold delegate_call xs a) = ap_ieee80211 a"
  by (induction xs arbitrary: a) simp_all

lemma backend_ieee [simp]: "ap_ieee80211 (backend s s' a) = Some s'"
  by (simp add: backend_def)

lemma post_ieee [simp]: "ap_ieee80211 (post m a) = ap_ieee80211 a"
  by (simp add: post_def)

lemma abort_whole_inv:
  assumes "env_ok e" "mlme_inv s"
  shows "\<exists>b s'. abortActiveScan e s = Some (b, s') \<and> mlme_inv s'"
proof -
  have "mlme_inv (e_wait e (abort_begin (e_driver e) s))"
    using env_okD(2) [OF assms(1)] inv_same [OF abort_begin_inv assms(2)] by simp
  from abort_end_inv [OF this] show ?thesis using assms(2) inv_ret [OF assms(2)] by (auto simp: abortActiveScan_def Let_def)
qed

lemma connect_whole_inv:
  assumes "env_ok e" "mlme_inv s" "\<forall>m. ca_pmk c = Some m \<longrightarrow> length m = 32"
  shows "\<exists>r s'. connect_whole e c s = Some (r, s') \<and> mlme_inv s'"
proof -
  obtain b t where t: "abortActiveScan e s = Some (b, t)" "mlme_inv t" using abort_whole_inv [OF assms(1,2)] by blast
  then show ?thesis using cmdConnect_inv [OF t(2) assms(3), of "e_driver e"]
    by (cases "cmdConnect (e_driver e) c t") (auto simp: connect_whole_def)
qed

lemma disconnect_whole_inv: "env_ok e \<Longrightarrow> mlme_inv s \<Longrightarrow> mlme_inv (snd (disconnect_whole e s))"
  unfolding disconnect_whole_def by (intro cmdDisconnect_inv env_okD(1) cancel_inv)

lemma powerOff_whole_inv:
  assumes "env_ok e" "mlme_inv s"
  shows "\<exists>r s'. powerOff_whole e s = Some (r, s') \<and> mlme_inv s'"
proof -
  have "mlme_inv (e_drain e (cancelAuthentication s))" using assms by (intro env_okD(1) cancel_inv)
  then obtain b t where t: "abortActiveScan e (e_drain e (cancelAuthentication s)) = Some (b, t)" "mlme_inv t"
    using abort_whole_inv [OF assms(1)] by blast
  then show ?thesis using cmdPowerOff_inv [OF t(2), of "e_driver e" b]
    by (cases "cmdPowerOff (e_driver e) b t") (auto simp: powerOff_whole_def)
qed

text \<open>The copies for callers stay inside their buffers.\<close>

lemma ies_used_le: "ies_used b \<le> 512"
  by (simp add: ies_used_def)

lemma rsn_search_total:
  "tot \<le> length ies \<Longrightarrow> capacity \<le> length outb \<Longrightarrow>
   \<exists>r o' k. rsn_search ies tot pos outb capacity = Some (r, o', k) \<and> length o' = length outb \<and> (\<forall>n. k = Some n \<longrightarrow> n \<le> capacity)"
proof (induction ies tot pos outb capacity rule: rsn_search.induct)
  case (1 ies tot pos outb capacity)
  show ?case
  proof (cases "pos + 2 \<le> tot \<and> unat (ies ! (pos + 1)) + 2 \<le> tot - pos")
    case True
    show ?thesis
    proof (cases "ies ! pos = 48")
      case e: True
      then show ?thesis using True "1.prems"
        by (subst rsn_search.simps) (auto simp: Let_def memcpy_at_def length_block length_blit)
    next
      case False
      then have "\<exists>r o' k. rsn_search ies tot (pos + (unat (ies ! (pos + 1)) + 2)) outb capacity = Some (r, o', k) \<and>
                   length o' = length outb \<and> (\<forall>n. k = Some n \<longrightarrow> n \<le> capacity)"
        using True "1.prems" by (intro "1.IH" [of "ies ! (pos + 1)" _ "ies ! pos"]) auto
      then show ?thesis using True False "1.prems" by (subst rsn_search.simps) (auto simp: Let_def)
    qed
  next
    case False
    then show ?thesis using "1.prems" by (subst rsn_search.simps) (auto simp: Let_def)
  qed
qed

lemma copyTargetRsnIE_total:
  assumes "mlme_inv s" "length outb = 257"
  shows "\<exists>r o' k. copyTargetRsnIE (Some outb) 257 True s = Some (r, o', k) \<and> length o' = 257 \<and> (\<forall>n. k = Some n \<longrightarrow> n \<le> 257)"
proof (cases "unat (k_assocRsnIELen s) \<ge> 2")
  case True
  then show ?thesis using assms stack_okD(10) [OF inv_stack [OF assms(1)]]
    by (auto simp: copyTargetRsnIE_def Let_def memcpy_at_def length_blit)
next
  case False
  have "length (b_ies (k_targetBSS s)) = 512"
    using stack_okD(2) [OF inv_stack [OF assms(1)]] by (simp add: bss_ok_def)
  then have "\<exists>r o' k. rsn_search (b_ies (k_targetBSS s)) (ies_used (k_targetBSS s)) 0 outb 257 = Some (r, o', k) \<and>
      length o' = length outb \<and> (\<forall>n. k = Some n \<longrightarrow> n \<le> 257)"
    using ies_used_le [of "k_targetBSS s"] assms(2) by (intro rsn_search_total) simp_all
  then show ?thesis using False assms(2) by (auto simp: copyTargetRsnIE_def Let_def)
qed

lemma fill_total:
  assumes "bss_ok b"
  shows "fillScanResultFromBSS b full \<noteq> None"
proof -
  have l: "ies_used b \<le> length (b_ies b)" using assms ies_used_le [of b] by (simp add: bss_ok_def)
  obtain t where t: "rsn_tlv (b_ies b) (ies_used b) 0 = Some t" using rsn_tlv_bounds [OF l] by blast
  obtain r where "rates_tlv (b_ies b) (ies_used b) 0 [] = Some r" using rates_tlv_bounds [OF l, of "[]"] by auto
  then show ?thesis by (simp add: fillScanResultFromBSS_def Let_def t)
qed

lemma setRsn_total:
  assumes "mlme_inv s" "length ie \<ge> 257"
  shows "\<exists>r s'. cmdSetAssocRsnIE (Some ie) n s = Some (r, s') \<and> mlme_inv s'"
proof -
  have "cmdSetAssocRsnIE (Some ie) n s \<noteq> None"
  proof (cases "n < 2 \<or> n > 257")
    case False
    then have "unat n \<le> length ie" using assms(2) by (auto simp: word_less_nat_alt word_le_nat_alt not_less)
    moreover have "rd ie 0 = Some (ie ! 0)" "rd ie 1 = Some (ie ! 1)" using assms(2) by (auto intro!: rd_Some)
    ultimately show ?thesis using False by (simp add: cmdSetAssocRsnIE_def)
  qed (simp add: cmdSetAssocRsnIE_def)
  then obtain r s' where "cmdSetAssocRsnIE (Some ie) n s = Some (r, s')" by auto
  then show ?thesis using cmdSetAssocRsnIE_inv [OF assms(1)] by blast
qed

text \<open>A structure of the selector's kind, with arrays of their lengths.\<close>

definition key_fits :: "apple80211_key \<Rightarrow> bool" where
  "key_fits k \<longleftrightarrow> length (key_bytes k) = 32"

definition kind_ok :: "ioc \<Rightarrow> payload \<Rightarrow> bool" where
  "kind_ok i p \<longleftrightarrow>
     (case i of
        IOC_SSID \<Rightarrow> \<exists>v n bs. p = SsidData v n bs
      | IOC_AUTH_TYPE \<Rightarrow> \<exists>v l u. p = AuthtypeData v l u
      | IOC_ASSOCIATE \<Rightarrow> \<exists>d. p = AssocData d \<and> length (ad_rsn_ie d) \<ge> 257 \<and> key_fits (ad_key d)
      | IOC_RSN_IE \<Rightarrow> \<exists>v n ie. p = RsnIeData v n ie \<and> length ie = 257
      | IOC_AP_IE_LIST \<Rightarrow> \<exists>v n ie. p = ApIeData v n ie \<and> unat n \<le> length ie
      | IOC_CIPHER_KEY \<Rightarrow> \<exists>k. p = KeyData k \<and> key_fits k
      | IOC_SCAN_REQ \<Rightarrow> \<exists>v n m. p = ScanData v n m
      | IOC_SCAN_RESULT \<Rightarrow> \<exists>q. p = ScanResultPtr q
      | IOC_RSSI \<Rightarrow> \<exists>v n u x. p = RssiData v n u x
      | IOC_OP_MODE \<Rightarrow> \<exists>v x. p = OpmodeData v x
      | IOC_PHY_MODE \<Rightarrow> \<exists>v x y. p = PhymodeData v x y
      | IOC_CARD_CAPABILITIES \<Rightarrow> \<exists>v x. p = CapabilityData v x
      | IOC_BSSID \<Rightarrow> \<exists>v x. p = BssidData v x
      | IOC_DEAUTH \<Rightarrow> \<exists>v x. p = DeauthData v x
      | IOC_ASSOCIATION_STATUS \<Rightarrow> \<exists>v x. p = AssocStatusData v x
      | IOC_ASSOCIATE_RESULT \<Rightarrow> \<exists>v x. p = AssocResultData v x
      | IOC_SUPPORTED_CHANNELS \<Rightarrow> \<exists>v x. p = SupChannelData v x
      | IOC_HW_SUPPORTED_CHANNELS \<Rightarrow> \<exists>v x. p = SupChannelData v x
      | IOC_DRIVER_VERSION \<Rightarrow> \<exists>v n x. p = VersionData v n x
      | IOC_HARDWARE_VERSION \<Rightarrow> \<exists>v n x. p = VersionData v n x
      | IOC_VIRTUAL_IF_CREATE \<Rightarrow> \<exists>v m r n. p = VifCreateData v m r n
      | IOC_VIRTUAL_IF_DELETE \<Rightarrow> \<exists>v n. p = VifDeleteData v n
      | IOC_CURRENT_NETWORK \<Rightarrow> \<exists>x. p = ScanResultData x
      | IOC_STATE \<Rightarrow> \<exists>v x. p = StateData v x
      | IOC_CHANNEL \<Rightarrow> \<exists>v c. p = ChannelData v c
      | IOC_RADIO_INFO \<Rightarrow> \<exists>v x. p = RadioInfoData v x
      | IOC_POWER \<Rightarrow> \<exists>v n xs. p = PowerData v n xs \<and> length xs = 4
      | IOC_NOISE \<Rightarrow> \<exists>v n u x. p = NoiseData v n u x
      | IOC_INT_MIT \<Rightarrow> \<exists>v x. p = IntmitData v x
      | IOC_PROTMODE \<Rightarrow> \<exists>v m t. p = ProtmodeData v m t
      | IOC_TXPOWER \<Rightarrow> \<exists>v u x. p = TxpowerData v u x
      | IOC_POWERSAVE \<Rightarrow> \<exists>v x. p = PowersaveData v x
      | IOC_LOCALE \<Rightarrow> \<exists>v x. p = LocaleData v x
      | IOC_COUNTRY_CODE \<Rightarrow> \<exists>v cc. p = CountryCodeData v cc \<and> length cc = 3
      | _ \<Rightarrow> True)"

definition safe :: "response \<Rightarrow> bool" where
  "safe x \<longleftrightarrow> (\<exists>r q a s. x = Some (r, q, a) \<and> ap_ieee80211 a = Some s \<and> mlme_inv s)"

lemma safeI [intro]: "ap_ieee80211 a = Some s \<Longrightarrow> mlme_inv s \<Longrightarrow> safe (answers_with r q a)"
  by (simp add: safe_def answers_with_def)

lemma safe_if: "(c \<Longrightarrow> safe x) \<Longrightarrow> (\<not> c \<Longrightarrow> safe y) \<Longrightarrow> safe (if c then x else y)"
  by simp

lemma safe_sets: "safe x \<Longrightarrow> ap_ieee80211 a = Some s \<Longrightarrow> mlme_inv s \<Longrightarrow> safe (unsupported_set b p a x)"
  "safe x \<Longrightarrow> ap_ieee80211 a = Some s \<Longrightarrow> mlme_inv s \<Longrightarrow> safe (unsupported_get b p a x)"
  by (auto simp: unsupported_set_def unsupported_get_def)

lemma answer_safe [simp]: "safe (answers_with r q a) \<longleftrightarrow> (\<exists>s. ap_ieee80211 a = Some s \<and> mlme_inv s)"
  by (auto simp: safe_def answers_with_def)

lemma safe_connect:
  "\<exists>r s'. x = Some (r, s') \<and> mlme_inv s' \<Longrightarrow> safe (do { (r, s') \<leftarrow> x; answers_with (Ret r) p (backend s s' a) })"
  by auto

lemma safe_fill:
  "bss_ok b \<Longrightarrow> mlme_inv s \<Longrightarrow> (\<And>x. ap_ieee80211 (h x) = Some s) \<Longrightarrow>
   safe (do { x \<leftarrow> fillScanResultFromBSS b f; answers_with r (g x) (h x) })"
  using fill_total [of b f] by (cases "fillScanResultFromBSS b f") auto

lemma associate_safe:
  assumes env: "env_ok e" and s: "ap_ieee80211 a = Some s" "mlme_inv s" and d: "length (ad_rsn_ie d) \<ge> 257" "key_fits (ad_key d)"
  shows "safe (handleASSOCIATE e (AssocData d) s a)"
proof -
  define r0 r1 where "r0 = ad_rsn_ie d ! 0" and "r1 = ad_rsn_ie d ! 1"
  have r: "rd (ad_rsn_ie d) 0 = Some r0" "rd (ad_rsn_ie d) 1 = Some r1"
    using d(1) unfolding r0_def r1_def by (intro rd_Some, linarith)+
  define t where "t = (let rsnLen = ucast r1 + 2 :: u16
    in if r0 = 48 \<and> rsnLen \<le> 257 then map_option snd (cmdSetAssocRsnIE (Some (ad_rsn_ie d)) rsnLen s) else Some s)"
  have "\<exists>u. t = Some u \<and> mlme_inv u"
    using setRsn_total [OF s(2) d(1), of "ucast r1 + 2"] s(2) by (auto simp: t_def Let_def)
  then obtain u where u: "t = Some u" "mlme_inv u" by blast
  have c: "\<exists>r s'. connect_whole e \<lparr>ca_ssid = x, ca_password = None, ca_pmk = (if b then Some (key_bytes (ad_key d)) else None),
      ca_bssid = y, ca_external = False\<rparr> u = Some (r, s') \<and> mlme_inv s'" for x b y
    using d(2) by (intro connect_whole_inv [OF env u(2)]) (simp add: key_fits_def)
  show ?thesis
    unfolding handleASSOCIATE_def payload.case
  proof (rule safe_if)
    show "safe (answers_with (Ret BadArgument) (AssocData d) a)" using s by auto
  next
    assume "\<not> (ad_version d \<noteq> APPLE80211_VERSION \<or> ad_ssid_len d = 0 \<or> ad_ssid_len d > 32)"
    show "safe (let ssid = cstr (take (unat (ad_ssid_len d)) (ad_ssid d));
                   bssid = (if ad_bssid d \<noteq> replicate 6 0 then Some (ad_bssid d) else None);
                   a = a\<lparr>ap_authLower := ad_auth_lower d, ap_authUpper := ad_auth_upper d\<rparr>
          in do { t \<leftarrow> rd (ad_rsn_ie d) 0; l \<leftarrow> rd (ad_rsn_ie d) 1;
                  s \<leftarrow> (let rsnLen = ucast l + 2 :: u16
                       in if t = 48 \<and> rsnLen \<le> 257 then map_option snd (cmdSetAssocRsnIE (Some (ad_rsn_ie d)) rsnLen s) else Some s);
                  let a = a\<lparr>ap_ieee80211 := Some s\<rparr>;
                      secure = ad_auth_upper d AND (AUTH_WPA_PSK OR AUTH_WPA2_PSK OR AUTH_SHA256_PSK) \<noteq> 0
                  in if ad_auth_lower d \<noteq> 1 then answers_with (Ret Unsupported) (AssocData d) a
                     else if \<not> secure \<and> ad_auth_upper d \<noteq> 0 then answers_with (Ret Unsupported) (AssocData d) a
                     else if ad_auth_upper d AND (AUTH_WPA2_PSK OR AUTH_SHA256_PSK) = 0 \<and> ad_auth_upper d \<noteq> 0
                          then answers_with (Ret Unsupported) (AssocData d) a
                     else if secure \<and> key_len (ad_key d) \<noteq> 32 then answers_with (Ret Unsupported) (AssocData d) a
                     else if \<not> secure \<and> key_len (ad_key d) \<noteq> 0 then answers_with (Ret Unsupported) (AssocData d) a
                     else do { (r, s') \<leftarrow> connect_whole e \<lparr>ca_ssid = Some ssid, ca_password = None,
                                 ca_pmk = (if secure then Some (key_bytes (ad_key d)) else None), ca_bssid = bssid, ca_external = False\<rparr> s;
                               answers_with (Ret r) (AssocData d) (backend s s' a) } })"
      unfolding Let_def r bind.bind_lunit t_def [symmetric, unfolded Let_def] u(1)
      using u(2) c by (intro safe_if safe_connect) simp_all
  qed
qed

lemma rsn_safe:
  assumes s: "ap_ieee80211 a = Some s" "mlme_inv s" and ie: "length ie = 257"
  shows "safe (handleRSN_IE b (RsnIeData v n ie) s a)"
proof -
  obtain r s' where "cmdSetAssocRsnIE (Some ie) n s = Some (r, s')" "mlme_inv s'" using setRsn_total [OF s(2), of ie n] ie by auto
  moreover obtain r' o' k where "copyTargetRsnIE (Some ie) 257 True s = Some (r', o', k)" using copyTargetRsnIE_total [OF s(2) ie] by blast
  ultimately show ?thesis using s by (auto simp: handleRSN_IE_def)
qed

lemma ie_list_safe:
  assumes s: "ap_ieee80211 a = Some s" "mlme_inv s" and ie: "unat n \<le> length ie"
  shows "safe (handleAP_IE_LIST (ApIeData v n ie) s a)"
proof -
  obtain r o' k where c: "copyTargetRsnIE (Some (replicate 257 0)) 257 True s = Some (r, o', k)" "length o' = 257" "\<forall>m. k = Some m \<longrightarrow> m \<le> 257"
    using copyTargetRsnIE_total [OF s(2), of "replicate 257 0"] by auto
  then show ?thesis using s ie by (cases k) (auto simp: handleAP_IE_LIST_def Let_def memcpy_at_def)
qed

lemma cipher_safe: "ap_ieee80211 a = Some s \<Longrightarrow> mlme_inv s \<Longrightarrow> safe (handleCIPHER_KEY e (KeyData k) s a)"
  using cmdInstallExternalKey_inv [of s "e_driver e"]
  by (auto simp: handleCIPHER_KEY_def Let_def case_prod_beta split: option.split)

lemma scan_safe: "ap_ieee80211 a = Some s \<Longrightarrow> mlme_inv s \<Longrightarrow> ap_netif a \<Longrightarrow> safe (scan_request e p s a)"
  using cmdScan_inv [of s "e_driver e"] by (auto simp: scan_request_def Let_def case_prod_beta)

lemma scan_result_safe:
  assumes s: "ap_ieee80211 a = Some s" "mlme_inv s"
  shows "safe (handleSCAN_RESULT (ScanResultPtr q) s a)"
proof -
  have "bss_ok (bssList (k_scan s) ! i)" if "i < length (bssList (k_scan s))" for i
    using s(2) that by (auto simp: mlme_inv_def shape_ok_def nets_ok_def)
  then show ?thesis using s by (auto simp: handleSCAN_RESULT_def copyScanBSS_def intro!: safe_fill)
qed

lemma bss_ok_update:
  "bss_ok b \<Longrightarrow> bss_ok (b\<lparr>b_rssi := x\<rparr>)" "bss_ok b \<Longrightarrow> bss_ok (b\<lparr>b_rssi := x, b_ssid_len := 0\<rparr>)"
  "bss_ok b \<Longrightarrow> bss_ok (b\<lparr>b_ssid_len := of_nat (strnlen t 32)\<rparr>)"
proof -
  have "length (takeWhile (\<lambda>c. c \<noteq> 0) (take 32 t)) \<le> 32"
    using length_takeWhile_le [of "\<lambda>c. c \<noteq> 0" "take 32 t"] by (simp add: min_def split: if_splits)
  then show "bss_ok b \<Longrightarrow> bss_ok (b\<lparr>b_ssid_len := of_nat (strnlen t 32)\<rparr>)"
    by (simp add: bss_ok_def strnlen_def unat_of_nat)
qed (simp_all add: bss_ok_def)

lemma current_safe:
  assumes s: "ap_ieee80211 a = Some s" "mlme_inv s"
  shows "safe (handleCURRENT_NETWORK e (ScanResultData x) s a)"
proof -
  obtain r ob where c: "copyCurrentBSS True s = (r, ob)" by (cases "copyCurrentBSS True s")
  have t: "bss_ok (k_targetBSS s)" using stack_okD(2) [OF inv_stack [OF s(2)]] .
  have n: "bss_ok b" if "find P (bssList (k_scan s)) = Some b" for P b
    using that s(2) by (auto simp: mlme_inv_def shape_ok_def nets_ok_def find_Some_iff)
  have b: "bss_ok (case ob of None \<Rightarrow> zero_bss | Some b \<Rightarrow> b)"
    using c t n by (auto simp: copyCurrentBSS_def Let_def zero_bss_def bss_ok_update split: if_splits option.splits) (simp add: bss_ok_def)
  have l: "strnlen u 32 \<le> 32" for u :: bytes
    using length_takeWhile_le [of "\<lambda>c. c \<noteq> 0" "take 32 u"] by (simp add: strnlen_def min_def split: if_splits)
  have "bss_ok (current_from_state (state_of e s) (case ob of None \<Rightarrow> zero_bss | Some b \<Rightarrow> b))"
  proof -
    define st where "st = state_of e s"
    have ss: "sr_bssid st = b_bssid (k_targetBSS s)" "sr_ssid st = b_ssid (k_targetBSS s)"
      by (simp_all add: st_def state_of_def cmdGetState_def case_prod_beta Let_def)
    have "length (sr_bssid st) = 6" "length (sr_ssid st) = 33" using t ss by (simp_all add: bss_ok_def)
    moreover have "unat (of_nat (strnlen (sr_ssid st) 32) :: u8) \<le> 32" using l [of "sr_ssid st"] by (simp add: unat_of_nat)
    moreover have "(blit bs 0 (take k (sr_ssid st)))[k := 0] ! 32 = 0" if "bs ! 32 = 0" "length bs = 33" "k \<le> 32" for bs k
      using that \<open>length (sr_ssid st) = 33\<close> by (cases "k = 32") (simp_all add: length_blit nth_blit)
    ultimately show ?thesis using b l [of "sr_ssid st"]
      by (auto simp: current_from_state_def Let_def bss_ok_def length_blit st_def [symmetric])
  qed
  then show ?thesis using c b s by (auto simp: handleCURRENT_NETWORK_def Let_def intro!: safe_fill)
qed

lemma power_safe:
  assumes env: "env_ok e" and s: "ap_ieee80211 a = Some s" "mlme_inv s" and l: "length xs = 4"
  shows "safe (handlePOWER e b (PowerData v n xs) s a)"
proof -
  obtain r s' where "powerOff_whole e s = Some (r, s')" "mlme_inv s'" using powerOff_whole_inv [OF env s(2)] by blast
  moreover have "rd xs 0 = Some (xs ! 0)" using l by (intro rd_Some) simp
  ultimately show ?thesis using s cmdPowerOn_inv [OF s(2), of "e_driver e"]
    by (cases "cmdPowerOn (e_driver e) s") (auto simp: handlePOWER_def Let_def)
qed

lemma country_safe: "ap_ieee80211 a = Some s \<Longrightarrow> mlme_inv s \<Longrightarrow> length cc = 3 \<Longrightarrow> safe (country_code b (CountryCodeData v cc) a)"
  by (auto simp: country_code_def Let_def)

lemma vif_create_safe: "ap_ieee80211 a = Some s \<Longrightarrow> mlme_inv s \<Longrightarrow> safe (handleVIRTUAL_IF_CREATE e (VifCreateData v m r n) a)"
  by (auto simp: handleVIRTUAL_IF_CREATE_def Let_def case_prod_beta split: option.split)

lemma vif_delete_safe: "ap_ieee80211 a = Some s \<Longrightarrow> mlme_inv s \<Longrightarrow> safe (handleVIRTUAL_IF_DELETE e (VifDeleteData v n) a)"
  by (auto simp: handleVIRTUAL_IF_DELETE_def Let_def)

lemma request_safe:
  assumes env: "env_ok e" and netif: "ap_netif a" and s: "ap_ieee80211 a = Some s" "mlme_inv s" and kind: "p = Null \<or> kind_ok i p"
  shows "safe (apple80211Request e r i p a)"
proof -
  have d: "safe (dispatch e b i p s a)" if k: "p \<noteq> Null \<or> i = IOC_DISASSOCIATE" for b
  proof -
    have "safe (handleDISASSOCIATE e p s a)"
      using disconnect_whole_inv [OF env s(2)] by (cases "disconnect_whole e s") (simp add: handleDISASSOCIATE_def)
    then show ?thesis using k kind s netif env
      by (cases i) (auto simp: dispatch_def kind_ok_def query_def when_connected_def supported_channels_def Let_def
          handleSSID_def handleAUTH_TYPE_def handleSTATE_def handleCHANNEL_def handleSCAN_REQ_def case_prod_beta
        intro!: safe_sets associate_safe rsn_safe ie_list_safe cipher_safe scan_safe scan_result_safe current_safe power_safe
          country_safe vif_create_safe vif_delete_safe)
  qed
  show ?thesis
  proof (cases "r = OtherReq \<or> p = Null \<and> i \<noteq> IOC_DISASSOCIATE")
    case True
    then show ?thesis using s by (auto simp: apple80211Request_def)
  next
    case False
    then show ?thesis using d s(1) by (auto simp: apple80211Request_def)
  qed
qed

text \<open>C16: Every request of the kernel's Wi-Fi stack, of any selector and direction, with a structure of the selector's kind,
  returns: no handler reads or writes outside a buffer; and it leaves the 802.11 class in the invariant of its state machine,
  whatever the other threads do while the request waits for them.\<close>

theorem apple_request_safe:
  assumes env: "env_ok e" and netif: "ap_netif a" and s: "ap_ieee80211 a = Some s" "mlme_inv s" and kind: "p = Null \<or> kind_ok i p"
  shows "\<exists>res q a' s'. apple80211Request e r i p a = Some (res, q, a') \<and> ap_ieee80211 a' = Some s' \<and> mlme_inv s'"
  using request_safe [OF assms] by (simp add: safe_def)

end
