(* ===== verification/AirportProps.thy ===== *)
theory AirportProps
  imports AirportReq LinkProps
begin

text \<open>
  What the requests of \<open>apple80211Request\<close> promise together: a scan from its request to the enumeration of its results,
  the station queries against the state of the connection, switching off as a whole with its two waits, and the instances of the
  theorems of \<open>AirportReq\<close>.
\<close>

section \<open>A controller on a started class\<close>

definition demo_airport_env :: env where
  "demo_airport_env = \<lparr>e_driver = demo_drv, e_dev = None, e_drain = id, e_wait = id, e_attach = (1, True), e_detach = True,
     e_bsdName = (\<lambda>_. None), e_role = (\<lambda>_. 6)\<rparr>"

definition zero_scan_result :: apple80211_scan_result where
  "zero_scan_result = \<lparr>asr_version = 0, asr_channel = \<lparr>ac_version = 0, ac_channel = 0, ac_flags = 0\<rparr>, asr_noise = 0, asr_snr = 0, asr_rssi = 0,
     asr_beacon_int = 0, asr_cap = 0, asr_bssid = replicate 6 0, asr_nrates = 0, asr_rates = replicate 15 0, asr_ssid_len = 0,
     asr_ssid = replicate 32 0, asr_age = 0, asr_ie_len = 0, asr_ie_data = replicate 1024 0\<rparr>"

definition demo_airport :: "RTW88IEEE80211 \<Rightarrow> airport" where
  "demo_airport s = \<lparr>ap_ieee80211 = Some s, ap_awdlManager = Some new_manager, ap_netif = True, ap_scanResult = zero_scan_result,
     ap_scanCursor = 0, ap_authLower = 0, ap_authUpper = 0, ap_countryCode = [0x55, 0x53, 0], ap_macAddr = replicate 6 0,
     ap_scanInProgress = False, ap_linkUp = False, ap_msgs = []\<rparr>"

lemma demo_env_ok: "env_ok demo_airport_env"
  by (simp add: env_ok_def demo_airport_env_def)

lemma demo_airport_fields [simp]:
  "ap_netif (demo_airport s)" "ap_ieee80211 (demo_airport s) = Some s" "ap_scanCursor (demo_airport s) = 0"
  "\<not> ap_scanInProgress (demo_airport s)"
  by (simp_all add: demo_airport_def)

theorem apple_request_safe_witness:
  "\<exists>res q a' s'. apple80211Request demo_airport_env SetReq IOC_SCAN_REQ (ScanData 1 0 0) (demo_airport demo_started) = Some (res, q, a')
     \<and> ap_ieee80211 a' = Some s' \<and> mlme_inv s'"
  by (rule apple_request_safe [OF demo_env_ok _ _ started_inv [OF demo_started_ok]]) (simp_all add: kind_ok_def)

section \<open>The station queries\<close>

lemma state_number_inject: "state_number x = state_number y \<longleftrightarrow> x = y"
  by (cases x; cases y) simp_all

lemma connected_state [simp]: "sr_connected (state_of e s) \<longleftrightarrow> k_state s = RTW88_STATE_CONNECTED"
proof -
  have "sr_state (state_of e s) = state_number (k_state s)" by (simp add: state_of_def cmdGetState_def case_prod_beta Let_def)
  then show ?thesis by (simp only: sr_connected_def state_number_inject)
qed

lemma state_fields [simp]:
  "sr_bssid (state_of e s) = b_bssid (k_targetBSS s)" "sr_ssid (state_of e s) = b_ssid (k_targetBSS s)"
  "sr_rssi (state_of e s) = k_rssi s" "sr_channel (state_of e s) = ucast (b_channel (k_targetBSS s))"
  by (simp_all add: state_of_def cmdGetState_def case_prod_beta Let_def)

text \<open>The queries that need a connection, with a structure of their kind.\<close>

definition station_query :: "ioc \<Rightarrow> payload \<Rightarrow> bool" where
  "station_query i p \<longleftrightarrow> i \<in> {IOC_SSID, IOC_BSSID, IOC_RSSI, IOC_NOISE, IOC_CHANNEL, IOC_PROTMODE, IOC_TXPOWER} \<and> p \<noteq> Null \<and> kind_ok i p"

text \<open>What they answer for a connection.\<close>

fun station_answer :: "ioc \<Rightarrow> RTW88IEEE80211 \<Rightarrow> payload" where
  "station_answer IOC_SSID s = (let n = strnlen (b_ssid (k_targetBSS s)) 32
     in SsidData 1 (of_nat n) (blit (replicate 32 0) 0 (take n (b_ssid (k_targetBSS s)))))"
| "station_answer IOC_BSSID s = BssidData 1 (b_bssid (k_targetBSS s))"
| "station_answer IOC_RSSI s = RssiData 1 1 0 (k_rssi s)"
| "station_answer IOC_NOISE s = NoiseData 1 1 0 (- 95)"
| "station_answer IOC_CHANNEL s = ChannelData 1 (apple_channel_of (ucast (b_channel (k_targetBSS s))))"
| "station_answer IOC_PROTMODE s = ProtmodeData 1 0 0"
| "station_answer _ s = TxpowerData 1 2 100"

text \<open>C17: The queries of the station agree with each other and with the state machine: each of SSID, BSSID, RSSI, noise, channel,
  protection and transmit power answers with the target's data exactly when the class is connected (the channel needs one too),
  and otherwise error 6 with the caller's structure untouched; the state query says 4 in the same states and no query changes
  the controller.\<close>

theorem station_queries_agree:
  assumes "ap_ieee80211 a = Some s" and "station_query i p"
  shows "apple80211Request e GetReq i p a =
           (if k_state s = RTW88_STATE_CONNECTED \<and> (i = IOC_CHANNEL \<longrightarrow> b_channel (k_targetBSS s) \<noteq> 0)
            then Some (Ret IOSuccess, station_answer i s, a) else Some (Errno 6, p, a)) \<and>
         apple80211Request e GetReq IOC_STATE (StateData v x) a = Some (Ret IOSuccess, StateData 1 (apple_state (k_state s)), a) \<and>
         (apple_state (k_state s) = 4 \<longleftrightarrow> k_state s = RTW88_STATE_CONNECTED)"
proof -
  have z: "(ucast (b_channel (k_targetBSS s)) :: u32) = 0 \<longleftrightarrow> b_channel (k_targetBSS s) = 0"
    by (simp add: ucast_up_eq_0_iff)
  have "apple_state (k_state s) = 4 \<longleftrightarrow> k_state s = RTW88_STATE_CONNECTED" by (cases "k_state s") simp_all
  moreover have "apple80211Request e GetReq i p a =
           (if k_state s = RTW88_STATE_CONNECTED \<and> (i = IOC_CHANNEL \<longrightarrow> b_channel (k_targetBSS s) \<noteq> 0)
            then Some (Ret IOSuccess, station_answer i s, a) else Some (Errno 6, p, a))"
    using assms by (auto simp: station_query_def kind_ok_def apple80211Request_def dispatch_def handleSSID_def handleCHANNEL_def query_def
        when_connected_def unsupported_set_def answers_with_def Let_def APPLE80211_VERSION_def z)
  ultimately show ?thesis
    using assms(1) by (simp add: apple80211Request_def dispatch_def handleSTATE_def unsupported_set_def answers_with_def APPLE80211_VERSION_def)
qed

theorem station_queries_agree_witness:
  "apple80211Request demo_airport_env GetReq IOC_BSSID (BssidData 0 []) (demo_airport demo_started) =
     Some (Errno 6, BssidData 0 [], demo_airport demo_started)"
  using station_queries_agree [of "demo_airport demo_started" demo_started IOC_BSSID "BssidData 0 []" demo_airport_env]
  by (simp add: station_query_def kind_ok_def demo_fields)

section \<open>A scan from request to results\<close>

text \<open>The effects of a scan that begins: none of them calls the delegate.\<close>

definition is_delegate :: "fx \<Rightarrow> bool" where
  "is_delegate x \<longleftrightarrow> (case x of FxScanDone b \<Rightarrow> True | FxLink b \<Rightarrow> True | _ \<Rightarrow> False)"

lemma silent_delegates: "\<forall>x \<in> set xs. \<not> is_delegate x \<Longrightarrow> fold delegate_call xs a = a"
proof (induction xs arbitrary: a)
  case (Cons x xs)
  then show ?case by (cases x) (simp_all add: is_delegate_def)
qed simp

definition silent :: "RTW88IEEE80211 \<Rightarrow> RTW88IEEE80211 \<Rightarrow> bool" where
  "silent s t \<longleftrightarrow> (\<exists>xs. k_fx t = k_fx s @ xs \<and> (\<forall>x \<in> set xs. \<not> is_delegate x))"

lemma silent_refl: "k_fx t = k_fx s \<Longrightarrow> silent s t"
  by (simp add: silent_def)

lemma silent_emit: "silent s t \<Longrightarrow> \<not> is_delegate x \<Longrightarrow> silent s (emit x t)"
  by (auto simp: silent_def emit_def)

lemma silent_same: "silent s t \<Longrightarrow> k_fx u = k_fx t \<Longrightarrow> silent s u"
  by (simp add: silent_def)

lemma silent_backend: "silent s t \<Longrightarrow> backend s t a = a\<lparr>ap_ieee80211 := Some t\<rparr>"
  by (auto simp: silent_def backend_def silent_delegates)

lemma scan_channels_fx: "k_fx (snd (scan_channels s)) = k_fx s" "k_state (snd (scan_channels s)) = k_state s"
  by (simp_all add: scan_channels_def case_prod_beta Let_def split: option.split)

lemma ask_fx: "k_fx (snd (ask s)) = k_fx s" "k_state (snd (ask s)) = k_state s"
  by (simp_all add: ask_def Let_def split: list.split)

lemma scan_start_silent:
  assumes "silent s t" "k_state t = RTW88_STATE_SCANNING"
  shows "silent s (snd (start_manual chans t))" "k_state (snd (start_manual chans t)) = RTW88_STATE_SCANNING"
    "silent s (snd (scan_fail r st t))"
  using assms by (simp_all add: start_manual_def scan_fail_def Let_def emit_def silent_def) (auto simp: is_delegate_def)

lemma cmdScan_silent:
  "silent s (snd (cmdScan d s)) \<and> (fst (cmdScan d s) = IOSuccess \<longrightarrow> k_state (snd (cmdScan d s)) = RTW88_STATE_SCANNING)"
proof -
  define t where "t = s\<lparr>k_scan := next_generation (k_scan s),
                     k_scanReturnState := (if k_state s = RTW88_STATE_CONNECTED then k_state s else RTW88_STATE_IDLE),
                     k_state := RTW88_STATE_SCANNING\<rparr>"
  define u where "u = (if k_scanRequest t then (True, t) else ask t)"
  define v where "v = scan_channels ((snd u)\<lparr>k_scanRequest := True\<rparr>)"
  have u: "k_fx (snd u) = k_fx s" "k_state (snd u) = RTW88_STATE_SCANNING" by (simp_all add: u_def t_def)
  have v: "silent s (snd v)" "k_state (snd v) = RTW88_STATE_SCANNING"
    using u scan_channels_fx [of "(snd u)\<lparr>k_scanRequest := True\<rparr>"] by (simp_all add: v_def silent_def)
  have w: "silent s (emit (FxHwScan c) ((snd v)\<lparr>k_rxFrameCount := 0\<rparr>))" "k_state (emit (FxHwScan c) ((snd v)\<lparr>k_rxFrameCount := 0\<rparr>)) = RTW88_STATE_SCANNING" for c
    using v by (auto simp: silent_def emit_def is_delegate_def)
  note parts = scan_start_silent [OF v] scan_start_silent [OF w]
  have f: "fst (scan_fail r st x) = r" for r st x by (simp add: scan_fail_def)
  have u1: "silent s (snd (scan_fail r st (snd u)))" for r st using u by (simp add: scan_fail_def silent_def)
  have "silent s (emit x (k_timeoutMs_update y (emit (FxHwScan c) ((snd v)\<lparr>k_rxFrameCount := 0\<rparr>))))" if "\<not> is_delegate x" for x y c
    by (rule silent_emit [OF silent_same [OF w(1)] that]) simp
  then show ?thesis
    unfolding cmdScan_def Let_def t_def [symmetric] u_def [symmetric] case_prod_beta v_def [symmetric]
    using parts w(2) u1 by (auto simp: f silent_refl is_delegate_def split: option.split)
qed

lemma find_channel_fx [simp]: "k_fx (snd (find_channel P s)) = k_fx s" "k_delegate (snd (find_channel P s)) = k_delegate s"
  by (auto simp: find_channel_def split: option.split)

lemma setAWDLChannel_silent: "silent s (snd (setAWDLChannel c s)) \<and> k_delegate (snd (setAWDLChannel c s)) = k_delegate s"
proof -
  obtain o' t where f: "find_channel (\<lambda>x. ch_hw_value x = c \<and> ch_flags x AND IEEE80211_CHAN_DISABLED = 0) (s\<lparr>k_awdlChannel := c\<rparr>) = (o', t)"
    by fastforce
  then have "k_fx t = k_fx s" "k_delegate t = k_delegate s"
    using find_channel_fx [of "\<lambda>x. ch_hw_value x = c \<and> ch_flags x AND IEEE80211_CHAN_DISABLED = 0" "s\<lparr>k_awdlChannel := c\<rparr>"] by auto
  then show ?thesis
    using f by (auto simp: setAWDLChannel_def Let_def tune_def emit_def silent_def is_delegate_def split: option.split)
qed

lemma scanDone_reports:
  assumes "mlme_inv u" "k_delegate u" "scanDone aborted u = Some t"
  shows "\<exists>v. silent u v \<and> t = emit (FxScanDone aborted) v"
proof -
  define w where "w = u\<lparr>k_scan := scan_done_age aborted (scan_target u) (k_scan u)\<rparr>"
  define x where "x = w\<lparr>k_state := RTW88_STATE_IDLE, k_scanReturnState := RTW88_STATE_IDLE, k_manualScanOnHomeChannel := False\<rparr>"
  have r: "k_scanReturnState w = RTW88_STATE_IDLE" using inv_ret [OF assms(1)] by (simp add: w_def)
  have wx: "silent u w" "k_delegate w" "silent u x" "k_delegate x" using assms(2) by (simp_all add: w_def x_def silent_def)
  have y: "silent u (snd (setAWDLChannel c x)) \<and> k_delegate (snd (setAWDLChannel c x))" for c
    using setAWDLChannel_silent [of x c] wx(4) silent_refl [of x u] by (auto simp: silent_def x_def w_def)
  have "k_awdlReceiveMode x = k_awdlReceiveMode w" "k_awdlChannel x = k_awdlChannel w" by (simp_all add: x_def)
  then show ?thesis
    using assms(3) r wx y unfolding scanDone_def w_def [symmetric] Let_def
    by (auto simp: x_def [symmetric] split: if_splits)
qed

text \<open>C18: A scan from request to end. A valid request on a controller that has none under way and no connection is the scan command
  of the class: it is under way exactly when that succeeds, with the class scanning and the cursor at the first result. Until it
  ends every further request is acknowledged without a second scan and results are refused as busy, both without an effect.
  When the class reports the end, in whatever state it has reached, the flag and the cursor are cleared and the waiting client
  is told, with the abort code.\<close>

theorem scan_cycle:
  assumes "ap_ieee80211 a = Some s" "ap_netif a" "\<not> ap_scanInProgress a" "k_state s \<noteq> RTW88_STATE_CONNECTED" "n \<le> 32" "m \<le> 128"
  shows "\<exists>r s' a'. apple80211Request e SetReq IOC_SCAN_REQ (ScanData 1 n m) a = Some (Ret r, ScanData 1 n m, a') \<and>
    cmdScan (e_driver e) s = (r, s') \<and> ap_ieee80211 a' = Some s' \<and> ap_scanCursor a' = 0 \<and>
    (ap_scanInProgress a' \<longleftrightarrow> r = IOSuccess) \<and>
    (r = IOSuccess \<longrightarrow> k_state s' = RTW88_STATE_SCANNING \<and>
       apple80211Request e SetReq IOC_SCAN_REQ (ScanData 1 n m) a' = Some (Ret IOSuccess, ScanData 1 n m, a') \<and>
       apple80211Request e SetReq IOC_SCAN_REQ_MULTIPLE MultiScanData a' = Some (Ret IOSuccess, MultiScanData, a') \<and>
       apple80211Request e GetReq IOC_SCAN_RESULT (ScanResultPtr None) a' = Some (Ret Busy, ScanResultPtr None, a') \<and>
       (\<forall>u t aborted. mlme_inv u \<longrightarrow> k_delegate u \<longrightarrow> scanDone aborted u = Some t \<longrightarrow>
          backend u t a' = a'\<lparr>ap_ieee80211 := Some t, ap_scanInProgress := False, ap_scanCursor := 0,
            ap_msgs := ap_msgs a' @ [M_SCAN_DONE (if aborted then 1 else 0)]\<rparr>))"
proof -
  obtain r s' where c: "cmdScan (e_driver e) s = (r, s')" by fastforce
  have sil: "silent s s'" "r = IOSuccess \<Longrightarrow> k_state s' = RTW88_STATE_SCANNING" using cmdScan_silent [of s "e_driver e"] c by auto
  define b where "b = a\<lparr>ap_scanInProgress := True, ap_scanCursor := 0, ap_ieee80211 := Some s'\<rparr>"
  define a' where "a' = (if r \<noteq> IOSuccess then b\<lparr>ap_scanInProgress := False\<rparr> else b)"
  have valid: "\<not> n > 32" "\<not> m > 128" using assms(5,6) by (simp_all add: not_less)
  have req: "apple80211Request e SetReq IOC_SCAN_REQ (ScanData 1 n m) x = scan_request e (ScanData 1 n m) t x"
    "apple80211Request e SetReq IOC_SCAN_REQ_MULTIPLE MultiScanData x = scan_request e MultiScanData t x"
    if "ap_ieee80211 x = Some t" for x t
    using that valid by (simp_all add: apple80211Request_def dispatch_def unsupported_get_def handleSCAN_REQ_def APPLE80211_VERSION_def)
  have one: "apple80211Request e SetReq IOC_SCAN_REQ (ScanData 1 n m) a = Some (Ret r, ScanData 1 n m, a')"
    using assms(3,4) silent_backend [OF sil(1), of "a\<lparr>ap_scanInProgress := True, ap_scanCursor := 0\<rparr>"]
    by (simp add: req [OF assms(1)] scan_request_def c Let_def answers_with_def a'_def b_def)
  have fields: "ap_ieee80211 a' = Some s'" "ap_scanCursor a' = 0" "ap_scanInProgress a' \<longleftrightarrow> r = IOSuccess" "ap_netif a'"
    using assms(2) by (simp_all add: a'_def b_def)
  have fin: "backend u t a' = a'\<lparr>ap_ieee80211 := Some t, ap_scanInProgress := False, ap_scanCursor := 0,
      ap_msgs := ap_msgs a' @ [M_SCAN_DONE (if aborted then 1 else 0)]\<rparr>"
    if h: "mlme_inv u" "k_delegate u" "scanDone aborted u = Some t" for u t aborted
  proof -
    obtain v xs where "k_fx v = k_fx u @ xs" "\<forall>x \<in> set xs. \<not> is_delegate x" "t = emit (FxScanDone aborted) v"
      using scanDone_reports [OF h] by (auto simp: silent_def)
    then show ?thesis using fields(4) by (simp add: backend_def emit_def silent_delegates rtw88Event_def post_def)
  qed
  have later: "scan_request e q t a' = Some (Ret IOSuccess, q, a')" if "r = IOSuccess" for q t
    using fields(3) that by (simp add: scan_request_def answers_with_def)
  have busy: "apple80211Request e GetReq IOC_SCAN_RESULT (ScanResultPtr None) a' = Some (Ret Busy, ScanResultPtr None, a')" if "r = IOSuccess"
    using fields that by (simp add: apple80211Request_def dispatch_def unsupported_set_def handleSCAN_RESULT_def answers_with_def)
  show ?thesis
    using one c fields(1-3) sil(2) fin later busy req [OF fields(1)] by (intro exI [of _ r] exI [of _ s'] exI [of _ a']) auto
qed

theorem scan_cycle_witness:
  "\<exists>r s' a'. apple80211Request demo_airport_env SetReq IOC_SCAN_REQ (ScanData 1 0 0) (demo_airport demo_started) = Some (Ret r, ScanData 1 0 0, a')
     \<and> cmdScan demo_drv demo_started = (r, s') \<and> (ap_scanInProgress a' \<longleftrightarrow> r = IOSuccess)"
  using scan_cycle [of "demo_airport demo_started" demo_started 0 0 demo_airport_env]
  by (auto simp: demo_fields demo_airport_env_def)

text \<open>A client that asks for \<open>n\<close> results, one after the other.\<close>

fun read_results :: "env \<Rightarrow> nat \<Rightarrow> airport \<Rightarrow> (apple80211_scan_result list \<times> airport) option" where
  "read_results e 0 a = Some ([], a)"
| "read_results e (Suc n) a =
     (case apple80211Request e GetReq IOC_SCAN_RESULT (ScanResultPtr None) a of
        Some (Ret IOSuccess, ScanResultPtr (Some x), a) \<Rightarrow> map_option (\<lambda>(xs, a). (x # xs, a)) (read_results e n a)
      | _ \<Rightarrow> None)"

lemma result_step:
  assumes "ap_ieee80211 a = Some s" "\<not> ap_scanInProgress a" "unat (ap_scanCursor a) = i" "i < length (bssList (k_scan s))"
    "fillScanResultFromBSS (bssList (k_scan s) ! i) False = Some x"
  shows "apple80211Request e GetReq IOC_SCAN_RESULT (ScanResultPtr None) a =
    Some (Ret IOSuccess, ScanResultPtr (Some x), a\<lparr>ap_scanResult := x, ap_scanCursor := ap_scanCursor a + 1\<rparr>)"
  using assms by (simp add: apple80211Request_def dispatch_def unsupported_set_def handleSCAN_RESULT_def copyScanBSS_def answers_with_def)

lemma results_from:
  assumes "ap_ieee80211 a = Some s" "\<not> ap_scanInProgress a" "unat (ap_scanCursor a) = i" "i + n \<le> length (bssList (k_scan s))"
    "length (bssList (k_scan s)) < 2 ^ 32" "\<forall>b \<in> set (bssList (k_scan s)). fillScanResultFromBSS b False \<noteq> None"
  shows "\<exists>xs y. read_results e n a = Some (xs, a\<lparr>ap_scanResult := y, ap_scanCursor := of_nat (i + n)\<rparr>) \<and>
    map Some xs = map (\<lambda>b. fillScanResultFromBSS b False) (take n (drop i (bssList (k_scan s))))"
  using assms
proof (induction n arbitrary: a i)
  case 0
  have "of_nat i = ap_scanCursor a" by (simp add: 0(3) [symmetric])
  then show ?case by (intro exI [of _ "[]"] exI [of _ "ap_scanResult a"]) simp
next
  case (Suc n)
  let ?l = "bssList (k_scan s)"
  have i: "i < length ?l" using Suc.prems(4) by simp
  then obtain x where x: "fillScanResultFromBSS (?l ! i) False = Some x" using Suc.prems(6) nth_mem [OF i] by blast
  define b where "b = a\<lparr>ap_scanResult := x, ap_scanCursor := ap_scanCursor a + 1\<rparr>"
  have c: "unat (ap_scanCursor a + 1) = Suc i" using Suc.prems(3,4,5) i by (simp add: unat_word_ariths)
  have b: "ap_ieee80211 b = Some s" "\<not> ap_scanInProgress b" "unat (ap_scanCursor b) = Suc i" "Suc i + n \<le> length ?l"
    using Suc.prems c by (simp_all add: b_def)
  obtain xs y where r: "read_results e n b = Some (xs, b\<lparr>ap_scanResult := y, ap_scanCursor := of_nat (Suc i + n)\<rparr>)"
    "map Some xs = map (\<lambda>b. fillScanResultFromBSS b False) (take n (drop (Suc i) ?l))"
    using Suc.IH [OF b Suc.prems(5,6)] by blast
  have "read_results e (Suc n) a = Some (x # xs, a\<lparr>ap_scanResult := y, ap_scanCursor := of_nat (i + Suc n)\<rparr>)"
    using result_step [OF Suc.prems(1-3) i x] r(1) by (simp add: b_def [symmetric]) (simp add: b_def)
  moreover have "take (Suc n) (drop i ?l) = ?l ! i # take n (drop (Suc i) ?l)" using i by (simp add: Cons_nth_drop_Suc [symmetric])
  ultimately show ?case using x r(2) by (intro exI [of _ "x # xs"] exI [of _ y]) simp
qed

text \<open>C38: Reading the results of a scan enumerates the table: as many requests as the table has entries give each entry's result
  once, in the order of the table, and the next request ends the enumeration with error 5 and puts the cursor back, so that a second
  enumeration starts over.\<close>

theorem scan_enumeration:
  assumes "ap_ieee80211 a = Some s" "mlme_inv s" "\<not> ap_scanInProgress a" "ap_scanCursor a = 0" "length (bssList (k_scan s)) < 2 ^ 32"
  shows "\<exists>xs y. read_results e (length (bssList (k_scan s))) a =
      Some (xs, a\<lparr>ap_scanResult := y, ap_scanCursor := of_nat (length (bssList (k_scan s)))\<rparr>) \<and>
    map Some xs = map (\<lambda>b. fillScanResultFromBSS b False) (bssList (k_scan s)) \<and>
    apple80211Request e GetReq IOC_SCAN_RESULT (ScanResultPtr None) (a\<lparr>ap_scanResult := y, ap_scanCursor := of_nat (length (bssList (k_scan s)))\<rparr>) =
      Some (Errno 5, ScanResultPtr None, a\<lparr>ap_scanResult := y\<rparr>)"
proof -
  let ?l = "bssList (k_scan s)"
  have ok: "\<forall>b \<in> set ?l. fillScanResultFromBSS b False \<noteq> None"
    using assms(2) fill_total by (auto simp: mlme_inv_def shape_ok_def nets_ok_def)
  have i: "unat (ap_scanCursor a) = 0" "0 + length ?l \<le> length ?l" using assms(4) by simp_all
  obtain xs y where r: "read_results e (length ?l) a = Some (xs, a\<lparr>ap_scanResult := y, ap_scanCursor := of_nat (length ?l)\<rparr>)"
    "map Some xs = map (\<lambda>b. fillScanResultFromBSS b False) ?l"
    using results_from [OF assms(1,3) i assms(5) ok, of e] by (auto simp del: length_0_conv)
  have "unat (of_nat (length ?l) :: u32) = length ?l" using assms(5) by (simp add: unat_of_nat)
  moreover have "a\<lparr>ap_scanResult := y, ap_scanCursor := 0\<rparr> = a\<lparr>ap_scanResult := y\<rparr>" using assms(4) by (cases a) simp
  ultimately have "apple80211Request e GetReq IOC_SCAN_RESULT (ScanResultPtr None) (a\<lparr>ap_scanResult := y, ap_scanCursor := of_nat (length ?l)\<rparr>) =
      Some (Errno 5, ScanResultPtr None, a\<lparr>ap_scanResult := y\<rparr>)"
    using assms(1,3) by (simp add: apple80211Request_def dispatch_def unsupported_set_def handleSCAN_RESULT_def copyScanBSS_def answers_with_def)
  then show ?thesis using r by blast
qed

definition demo_table :: RTW88IEEE80211 where
  "demo_table = demo_joining\<lparr>k_scan := (k_scan demo_joining)\<lparr>bssList := [zero_bss]\<rparr>\<rparr>"

lemma demo_table_ok: "mlme_inv demo_table"
  using demo_joining_ok(1) by (auto simp: demo_table_def mlme_inv_def mode_ok_def shape_ok_def stack_ok_def hw_ok_def nets_ok_def held_len_def bss_ok_def zero_bss_def)

theorem scan_enumeration_witness:
  "\<exists>xs a'. read_results demo_airport_env 1 (demo_airport demo_table) = Some (xs, a') \<and> length xs = 1"
proof -
  have l: "bssList (k_scan demo_table) = [zero_bss]" by (simp add: demo_table_def)
  show ?thesis
    using scan_enumeration [of "demo_airport demo_table" demo_table demo_airport_env] demo_table_ok
    by (simp add: l del: read_results.simps) (metis length_map length_Cons list.size(3) One_nat_def)
qed

section \<open>Switching off\<close>

text \<open>The three sections of \<open>cmdPowerOff\<close> and its two waits.\<close>

lemma power_off_whole_clears:
  fixes e l
  assumes "started s" and "reaches (link0 s) l" and "env_ok e"
  defines "c \<equiv> cancelAuthentication (l_st l)"
  defines "u \<equiv> e_drain e c"
  defines "v \<equiv> (if k_state u = RTW88_STATE_SCANNING then e_wait e (abort_begin (e_driver e) u) else u)"
  shows "\<exists>ret t. powerOff_whole e (l_st l) = Some (ret, t) \<and> mlme_inv t
    \<and> k_connectCancelled c
    \<and> k_fx c = k_fx (l_st l) @ FxTimerCancel # (if k_connectTC (l_st l) then [FxDrainConnect] else [])
    \<and> (k_state u = RTW88_STATE_SCANNING \<longrightarrow>
         (if k_manualScanChannelCount u \<noteq> 0 then k_manualScanAbort (abort_begin (e_driver e) u)
          else abort_begin (e_driver e) u = cancel_hw_scan (e_driver e) u))
    \<and> (if k_state v = RTW88_STATE_SCANNING \<and> k_manualScanChannelCount v \<noteq> 0 then ret = Busy \<and> t = v
       else ret = IOSuccess \<and> k_state t = RTW88_STATE_IDLE \<and> k_scanReturnState t = RTW88_STATE_IDLE \<and> \<not> k_powered t \<and> wiped t
         \<and> cmdScan d t = (NotReady, t) \<and> fst (cmdConnect d a t) \<noteq> IOSuccess)"
proof -
  let ?d = "e_driver e"
  have u: "mlme_inv u"
    unfolding u_def c_def by (intro env_okD(1) [OF assms(3)] cancel_inv reaches_inv [OF assms(2,1)])
  have v: "mlme_inv v"
    using u env_okD(2) [OF assms(3) inv_same [OF abort_begin_inv u]] by (simp add: v_def)
  have c: "k_connectCancelled c" "k_fx c = k_fx (l_st l) @ FxTimerCancel # (if k_connectTC (l_st l) then [FxDrainConnect] else [])"
    by (simp_all add: c_def cancelAuthentication_def Let_def emit_def)
  have b: "k_state u = RTW88_STATE_SCANNING \<longrightarrow>
      (if k_manualScanChannelCount u \<noteq> 0 then k_manualScanAbort (abort_begin ?d u) else abort_begin ?d u = cancel_hw_scan ?d u)"
    by (simp add: abort_begin_def)
  have off: "\<exists>t. cmdPowerOff ?d True w = (IOSuccess, t) \<and> mlme_inv t \<and> k_state t = RTW88_STATE_IDLE
      \<and> k_scanReturnState t = RTW88_STATE_IDLE \<and> \<not> k_powered t \<and> wiped t \<and> cmdScan d t = (NotReady, t) \<and> fst (cmdConnect d a t) \<noteq> IOSuccess"
    if w: "mlme_inv w" for w
  proof -
    obtain t where t: "cmdPowerOff ?d True w = (IOSuccess, t)" "k_state t = RTW88_STATE_IDLE" "k_scanReturnState t = RTW88_STATE_IDLE"
      "\<not> k_powered t" "wiped t" "mlme_inv t" by (rule cmdPowerOff_clears [OF w])
    moreover have "cmdScan d t = (NotReady, t)" using t by (simp add: cmdScan_def)
    moreover have "fst (cmdConnect d a t) \<noteq> IOSuccess" using t by (auto simp: cmdConnect_def split: option.split)
    ultimately show ?thesis by blast
  qed
  have abort: "abortActiveScan e u = (if k_state u \<noteq> RTW88_STATE_SCANNING then Some (True, u) else abort_end (k_scanReturnState u) v)"
    by (simp add: abortActiveScan_def v_def)
  have whole: "powerOff_whole e (l_st l) = abortActiveScan e u \<bind> (\<lambda>(ok, s). Some (cmdPowerOff ?d ok s))"
    by (simp add: powerOff_whole_def u_def c_def)
  consider "k_state v = RTW88_STATE_SCANNING" "k_manualScanChannelCount v \<noteq> 0"
    | w where "\<not> (k_state v = RTW88_STATE_SCANNING \<and> k_manualScanChannelCount v \<noteq> 0)" "abortActiveScan e u = Some (True, w)" "mlme_inv w"
    using abort_whole_inv [OF assms(3) u] abort inv_ret [OF u]
    by (auto simp: abort_end_def v_def Let_def split: if_splits bind_splits)
  then show ?thesis
  proof cases
    case 1
    then have "abortActiveScan e u = Some (False, v)" using abort by (auto simp: abort_end_def v_def split: if_splits)
    then have "powerOff_whole e (l_st l) = Some (Busy, v)" by (simp add: whole cmdPowerOff_def)
    then show ?thesis using 1 v c b by (intro exI [of _ Busy] exI [of _ v]) simp
  next
    case (2 w)
    then show ?thesis using off [OF 2(3)] c b by (auto simp: whole)
  qed
qed

text \<open>
  C14: Switching the radio off, from every state the interleaved class can reach and whatever the other threads do during its two
  waits that keeps the class well formed. \<open>cmdPowerOff\<close> first marks an attempt to join as cancelled, stops its timer and
  drains its thread; when a scan is still under way it tells the scan thread to abort, or the driver to cancel its scan, and
  waits. It reports busy exactly when a scan of the scan thread is still under way after that wait, and then leaves the
  connection, the keys and the power as the wait left them. Otherwise it succeeds and leaves the class idle and without power, with
  the master key, the transient key, the password, both installed keys and the peer station gone, and in that state a
  scan is not ready and a connection is refused.
\<close>

theorem power_off_clears:
  assumes "started s" and "reaches (link0 s) l" and "env_ok e"
  shows "let c = cancelAuthentication (l_st l); u = e_drain e c;
        v = (if k_state u = RTW88_STATE_SCANNING then e_wait e (abort_begin (e_driver e) u) else u)
    in \<exists>ret t. powerOff_whole e (l_st l) = Some (ret, t) \<and> mlme_inv t
    \<and> k_connectCancelled c
    \<and> k_fx c = k_fx (l_st l) @ FxTimerCancel # (if k_connectTC (l_st l) then [FxDrainConnect] else [])
    \<and> (k_state u = RTW88_STATE_SCANNING \<longrightarrow>
         (if k_manualScanChannelCount u \<noteq> 0 then k_manualScanAbort (abort_begin (e_driver e) u)
          else abort_begin (e_driver e) u = cancel_hw_scan (e_driver e) u))
    \<and> (if k_state v = RTW88_STATE_SCANNING \<and> k_manualScanChannelCount v \<noteq> 0 then ret = Busy \<and> t = v
       else ret = IOSuccess \<and> k_state t = RTW88_STATE_IDLE \<and> k_scanReturnState t = RTW88_STATE_IDLE \<and> \<not> k_powered t \<and> wiped t
         \<and> cmdScan d t = (NotReady, t) \<and> fst (cmdConnect d a t) \<noteq> IOSuccess)"
  unfolding Let_def by (rule power_off_whole_clears [OF assms])

text \<open>A scan is under way, and another caller disconnects while the abort waits for it.\<close>

definition demo_wait_env :: env where
  "demo_wait_env = demo_airport_env\<lparr>e_wait := (\<lambda>s. snd (cmdDisconnect demo_drv s))\<rparr>"

lemma demo_wait_ok: "env_ok demo_wait_env"
  using cmdDisconnect_inv by (simp add: env_ok_def demo_wait_env_def demo_airport_env_def)

lemma disconnect_idle: "k_state (snd (cmdDisconnect d s)) = RTW88_STATE_IDLE"
  by (simp add: cmdDisconnect_def doDisconnect_def Let_def set_link_def go_idle_def)

theorem power_off_clears_witness:
  "\<exists>t. powerOff_whole demo_wait_env (l_st demo_link) = Some (IOSuccess, t) \<and> wiped t \<and> \<not> k_powered t"
proof -
  let ?u = "e_drain demo_wait_env (cancelAuthentication (l_st demo_link))"
  have "k_state (e_wait demo_wait_env x) = RTW88_STATE_IDLE" for x by (simp add: demo_wait_env_def disconnect_idle)
  then have v: "k_state (if k_state ?u = RTW88_STATE_SCANNING then e_wait demo_wait_env (abort_begin (e_driver demo_wait_env) ?u) else ?u)
      \<noteq> RTW88_STATE_SCANNING" by simp
  obtain ret t where p: "powerOff_whole demo_wait_env (l_st demo_link) = Some (ret, t)"
    "ret = IOSuccess" "\<not> k_powered t" "wiped t"
    using power_off_clears [OF demo_started_ok demo_reaches demo_wait_ok] v by (simp only: Let_def simp_thms if_False) blast
  then show ?thesis by blast
qed

section \<open>Keys from the client\<close>

text \<open>
  \<open>ASSOCIATE\<close> always connects with the supplicant of the class, so a key given with \<open>CIPHER_KEY\<close> is refused: the class
  installs one only when the connection was made for a supplicant outside.
\<close>

lemma cipher_key_refused:
  assumes "ap_ieee80211 a = Some s" "\<not> k_externalSupplicant s" "key_version k = 1" "key_len k \<le> 32" "key_cipher_type k \<in> {3, 5}"
    "key_flags k \<in> {0, 4}"
  shows "apple80211Request e SetReq IOC_CIPHER_KEY (KeyData k) a = Some (Ret NotReady, KeyData k, a)"
proof -
  have "backend s s a = a" using silent_backend [OF silent_refl [OF refl], of s a] assms(1) by (cases a) simp
  then show ?thesis
    using assms by (auto simp: apple80211Request_def dispatch_def unsupported_get_def handleCIPHER_KEY_def cmdInstallExternalKey_def
        answers_with_def Let_def APPLE80211_VERSION_def)
qed

end
