(* ===== verification/Vif.thy ===== *)
theory Vif
  imports AirportReq
begin

text \<open>
  The virtual interfaces of the controller, \<open>AirportRTW88AWDL.cpp\<close>: their life cycle, the requests of
  \<open>apple80211VirtualRequest\<close>, and \<open>ensureAWDLVirtualInterface\<close>. The interfaces themselves belong to IO80211Family; the calls
  made on them are recorded in order.
\<close>

section \<open>Life cycle\<close>

datatype vif_call =
    VifEnabledBySystem nat
  | VifLinkState nat bool
  | VifLinkChanged nat
  | VifPresence nat bytes int u16 u8
  | VifInput nat bytes

text \<open>What \<open>createVirtualInterface\<close> gives: the answer of the superclass, the null pointer, or the interface made.\<close>

datatype vif_created = SuperCreates | CreateFails | Created u32

definition createVirtualInterface :: "bool \<Rightarrow> bool \<Rightarrow> u32 \<Rightarrow> vif_created" where
  "createVirtualInterface alloc init role =
     (if role < APPLE80211_VIF_P2P_DEVICE \<or> role > APPLE80211_VIF_AWDL then SuperCreates
      else if \<not> alloc then CreateFails
      else if \<not> init then CreateFails else Created role)"

text \<open>\<open>setAWDLReceiveMode\<close> through the pointer to the class, when there is one.\<close>

definition receive_mode :: "env \<Rightarrow> bool \<Rightarrow> airport \<Rightarrow> airport" where
  "receive_mode e active a =
     (case ap_ieee80211 a of None \<Rightarrow> a | Some s \<Rightarrow> backend s (snd (setAWDLReceiveMode (e_driver e) active s)) a)"

text \<open>\<open>super\<close> is what the superclass returns.\<close>

definition enableVirtualInterface :: "env \<Rightarrow> IOReturn \<Rightarrow> nat \<Rightarrow> airport \<Rightarrow> IOReturn \<times> vif_call list \<times> airport" where
  "enableVirtualInterface e super vif a =
     (if vif = 0 then (BadArgument, [], a)
      else let role = e_role e vif
      in if super \<noteq> IOSuccess then (super, [], a)
         else let a = a\<lparr>ap_awdlManager := map_option (setVirtualInterface role vif) (ap_awdlManager a)\<rparr>;
                  a = (if role = APPLE80211_VIF_AWDL then receive_mode e True a else a)
              in (IOSuccess, [VifEnabledBySystem vif, VifLinkState vif True, VifLinkChanged vif], a))"

definition disableVirtualInterface :: "env \<Rightarrow> IOReturn \<Rightarrow> nat \<Rightarrow> airport \<Rightarrow> IOReturn \<times> vif_call list \<times> airport" where
  "disableVirtualInterface e super vif a =
     (if vif = 0 then (BadArgument, [], a)
      else let role = e_role e vif
      in if super \<noteq> IOSuccess then (super, [], a)
         else let a = (if role = APPLE80211_VIF_AWDL then receive_mode e False a else a)
              in (IOSuccess, [VifLinkState vif False, VifLinkChanged vif],
                  a\<lparr>ap_awdlManager := map_option (clearVirtualInterface vif) (ap_awdlManager a)\<rparr>))"

text \<open>The address of the AWDL interface: locally administered, unicast, and different from the station's.\<close>

definition awdl_mac :: "bytes \<Rightarrow> bytes" where
  "awdl_mac mac = mac[0 := ((mac ! 0) OR 0x02) AND 0xFE, 5 := (mac ! 5) XOR 0x80]"

definition ensureAWDLVirtualInterface :: "env \<Rightarrow> IOReturn \<Rightarrow> airport \<Rightarrow> bool \<times> vif_call list \<times> airport" where
  "ensureAWDLVirtualInterface e super a =
     (case ap_awdlManager a of
        None \<Rightarrow> (False, [], a)
      | Some m \<Rightarrow>
          if \<not> ap_netif a then (False, [], a)
          else if am_awdlInterface m \<noteq> 0 then (True, [], a)
          else let (created, ok) = e_attach e
          in if \<not> ok \<or> created = 0 then (False, [], a)
             else let a = a\<lparr>ap_awdlManager := Some (setVirtualInterface APPLE80211_VIF_AWDL created m)\<rparr>;
                      (r, calls, a) = enableVirtualInterface e super created a
                  in (r = IOSuccess, calls, a))"

section \<open>Payloads\<close>

record apple_channel_info =
  ci_chan :: u8
  ci_passive :: bool
  ci_radar :: bool
  ci_40 :: bool
  ci_80 :: bool
  ci_spec :: u16

text \<open>
  The structures of the AWDL selectors. Their members are declared by the SDK: a member the code hands to the manager has
  the width of the manager's member. \<open>Plain\<close> is a structure of the requests the two dispatchers share. The channel
  sequence is a block of bytes, of which the code reads one member and writes one.
\<close>

datatype (plugins only: code) vpayload =
    Plain payload
  | SyncEnabledData u32 u32
  | Attr8 u32 u8
  | Attr32 u32 u32
  | Attr64 u32 u64
  | PeerTrafficData u32 u32 u32
  | TemplateData u32 u32 "bytes option"
  | HtCapData u32 u32 u32
  | VhtCapData u32 u32
  | ChannelsInfoData u32 u16 "apple_channel_info list"
  | PeerCacheData u32 u32
  | AwdlBssidData u32 bytes
  | OpaqueData u32
  | SequenceData bytes
  | SyncParamsData u32 u32 u32 u32 u32

type_synonym vresponse = "(sint \<times> vpayload \<times> airport) option"

text \<open>The layout of the channel sequence, as the SDK has it.\<close>

record sequence_layout =
  sl_fill :: "bytes \<Rightarrow> u16"
  sl_setVersion :: "bytes \<Rightarrow> bytes"

datatype (plugins only: code) vioc =
    V_BASE ioc
  | V_SYNC_ENABLED | V_ELECTION_METRIC | V_PEER_TRAFFIC | V_SYNC_FRAME_TEMPLATE | V_HT_CAPABILITY | V_VHT_CAPABILITY
  | V_CHANNELS_INFO | V_PEER_CACHE | V_P2P_ENABLE | V_P2P_SCAN | V_P2P_LISTEN | V_P2P_GO_CONF | V_BSSID | V_ELECTION_ID
  | V_MASTER_CHANNEL | V_SECONDARY_MASTER_CHANNEL | V_MIN_RATE | V_RSSI_THRESHOLDS | V_CHANNEL_SEQUENCE | V_PRESENCE_MODE
  | V_EXTENSION_PARAMETERS | V_SYNC_STATE | V_SYNC_PARAMS | V_DEVICE_CAPABILITIES | V_AF_TX_MODE | V_OOB_AUTO_REQUEST

section \<open>Requests\<close>

definition vreply :: "IOReturn \<Rightarrow> vpayload \<Rightarrow> airport \<Rightarrow> vresponse" where
  "vreply r p a = Some (Ret r, p, a)"

definition on_manager :: "(awdl_manager \<Rightarrow> awdl_manager) \<Rightarrow> airport \<Rightarrow> airport" where
  "on_manager f a = a\<lparr>ap_awdlManager := map_option f (ap_awdlManager a)\<rparr>"

text \<open>The infrastructure handler, for the selectors both kinds of interface have.\<close>

definition base_request :: "env \<Rightarrow> req \<Rightarrow> ioc \<Rightarrow> payload \<Rightarrow> airport \<Rightarrow> vresponse" where
  "base_request e r i p a = map_option (\<lambda>(res, q, a). (res, Plain q, a)) (apple80211Request e r i p a)"

definition shared_selectors :: "ioc list" where
  "shared_selectors = [IOC_CARD_CAPABILITIES, IOC_POWER, IOC_SUPPORTED_CHANNELS, IOC_DRIVER_VERSION, IOC_OP_MODE, IOC_PHY_MODE,
     IOC_RSSI, IOC_STATE, IOC_BSSID, IOC_AUTH_TYPE, IOC_SSID, IOC_COUNTRY_CODE]"

text \<open>\<open>_ieee80211->setAWDLChannel\<close>, or \<open>NotReady\<close> without a class.\<close>

definition awdl_channel :: "u16 \<Rightarrow> airport \<Rightarrow> IOReturn \<times> airport" where
  "awdl_channel chan a =
     (case ap_ieee80211 a of None \<Rightarrow> (NotReady, a) | Some s \<Rightarrow> (case setAWDLChannel chan s of (r, s') \<Rightarrow> (r, backend s s' a)))"

definition virtual_channel :: "env \<Rightarrow> bool \<Rightarrow> u32 \<Rightarrow> payload \<Rightarrow> airport \<Rightarrow> vresponse" where
  "virtual_channel e isSet role p a =
     (if role \<noteq> APPLE80211_VIF_AWDL then base_request e (if isSet then SetReq else GetReq) IOC_CHANNEL p a
      else case p of
        ChannelData v c \<Rightarrow>
          if isSet then
            (if v \<noteq> APPLE80211_VERSION \<or> ac_channel c = 0 then vreply BadArgument (Plain p) a
             else let a = on_manager (\<lambda>m. m\<lparr>am_masterChannel := ucast (ucast (ac_channel c) :: u8)\<rparr>) a;
                      (r, a) = awdl_channel (ucast (ac_channel c)) a
                  in vreply (if r = Busy then IOSuccess else r) (Plain p) a)
          else let chan = (case ap_awdlManager a of None \<Rightarrow> 0 | Some m \<Rightarrow> ucast (am_masterChannel m)) :: u16
               in if chan = 0 then base_request e GetReq IOC_CHANNEL p a
                  else vreply IOSuccess (Plain (ChannelData APPLE80211_VERSION (apple_channel_of (ucast chan)))) a
      | _ \<Rightarrow> None)"

definition channel_info :: "RTW88Channel \<Rightarrow> apple_channel_info" where
  "channel_info c =
     (let chan = of_int (c_number c) :: u16
      in \<lparr>ci_chan = ucast chan, ci_passive = c_passive c, ci_radar = c_radar c, ci_40 = (chan \<noteq> 14), ci_80 = (chan > 14), ci_spec = chan\<rparr>)"

definition channels_info :: "vpayload \<Rightarrow> airport \<Rightarrow> vresponse" where
  "channels_info p a =
     (case ap_ieee80211 a of
        None \<Rightarrow> vreply Unsupported p a
      | Some s \<Rightarrow>
          (case copyChannels True 128 s of
             (r, cs) \<Rightarrow>
               if r \<noteq> IOSuccess \<and> r \<noteq> NoSpace then vreply r (ChannelsInfoData APPLE80211_VERSION 0 []) a
               else vreply IOSuccess (ChannelsInfoData APPLE80211_VERSION (of_nat (length (take 128 cs))) (map channel_info (take 128 cs))) a))"

definition frame_template :: "bool \<Rightarrow> bool \<Rightarrow> vpayload \<Rightarrow> airport \<Rightarrow> vresponse" where
  "frame_template mem isSet p a =
     (case p of
        TemplateData v n pay \<Rightarrow>
          (case ap_awdlManager a of
             None \<Rightarrow> vreply NotReady p a
           | Some m \<Rightarrow>
               if isSet then
                 do { (r, m) \<leftarrow> setSyncFrameTemplate mem pay n m; vreply r p (a\<lparr>ap_awdlManager := Some m\<rparr>) }
               else if pay = None then vreply BadArgument p a
               else do { (r, pay, l) \<leftarrow> copySyncFrameTemplate pay (Some n) m;
                         vreply r (TemplateData APPLE80211_VERSION (case l of None \<Rightarrow> n | Some l \<Rightarrow> l) pay) a })
      | _ \<Rightarrow> None)"

text \<open>A selector that keeps one member of the manager: \<open>NotReady\<close> without one.\<close>

definition attribute :: "(awdl_manager \<Rightarrow> vpayload) \<Rightarrow> (awdl_manager \<Rightarrow> awdl_manager) \<Rightarrow> bool \<Rightarrow> vpayload \<Rightarrow> airport \<Rightarrow> vresponse" where
  "attribute get put isSet p a =
     (case ap_awdlManager a of
        None \<Rightarrow> vreply NotReady p a
      | Some m \<Rightarrow> if isSet then vreply IOSuccess p (a\<lparr>ap_awdlManager := Some (put m)\<rparr>) else vreply IOSuccess (get m) a)"

definition channel_sequence :: "sequence_layout \<Rightarrow> bool \<Rightarrow> bytes \<Rightarrow> airport \<Rightarrow> vresponse" where
  "channel_sequence l isSet d a =
     (case ap_awdlManager a of
        None \<Rightarrow> vreply NotReady (SequenceData d) a
      | Some m \<Rightarrow>
          if isSet then
            do { (r, m) \<leftarrow> setSyncChannelSequence (Some d) (of_nat (length d)) m;
                 let a = a\<lparr>ap_awdlManager := Some m\<rparr> in
                 if r \<noteq> IOSuccess then vreply r (SequenceData d) a
                 else if ap_ieee80211 a \<noteq> None \<and> sl_fill l d \<noteq> 0
                 then (case awdl_channel (sl_fill l d) a of
                         (cr, a) \<Rightarrow> vreply (if cr \<noteq> IOSuccess \<and> cr \<noteq> Busy \<and> cr \<noteq> Unsupported then cr else IOSuccess) (SequenceData d) a)
                 else vreply IOSuccess (SequenceData d) a }
          else let z = replicate (length d) 0
               in do { (r, out) \<leftarrow> copySyncChannelSequence (Some z) (of_nat (length d)) m;
                       let d = (case out of None \<Rightarrow> z | Some x \<Rightarrow> x)
                       in vreply IOSuccess (SequenceData (if r \<noteq> IOSuccess then sl_setVersion l d else d)) a })"

definition master_channel :: "bool \<Rightarrow> vpayload \<Rightarrow> u32 \<Rightarrow> airport \<Rightarrow> vresponse" where
  "master_channel isSet p x a =
     (case ap_awdlManager a of
        None \<Rightarrow> vreply NotReady p a
      | Some m \<Rightarrow>
          if isSet then
            let a = a\<lparr>ap_awdlManager := Some (m\<lparr>am_masterChannel := x\<rparr>)\<rparr>
            in if ap_ieee80211 a \<noteq> None \<and> x \<noteq> 0
               then (case awdl_channel (ucast x) a of (r, a) \<Rightarrow> vreply (if r \<noteq> IOSuccess \<and> r \<noteq> Busy then r else IOSuccess) p a)
               else vreply IOSuccess p a
          else vreply IOSuccess (Attr32 APPLE80211_VERSION (am_masterChannel m)) a)"

definition sync_params :: "awdl_manager \<Rightarrow> vpayload" where
  "sync_params m =
     (if am_syncParamsValid m
      then SyncParamsData APPLE80211_VERSION (am_availabilityWindowLength m) (am_availabilityWindowPeriod m) (am_extensionLength m)
             (am_synchronizationFramePeriod m)
      else SyncParamsData APPLE80211_VERSION 0 0 0 0)"

text \<open>The selectors with data, which is not null. \<open>mem\<close>: \<open>IOMalloc\<close> returns memory.\<close>

definition virtual_data :: "env \<Rightarrow> sequence_layout \<Rightarrow> bool \<Rightarrow> bool \<Rightarrow> u32 \<Rightarrow> vioc \<Rightarrow> vpayload \<Rightarrow> airport \<Rightarrow> vresponse" where
  "virtual_data e l mem isSet role i p a =
     (let v1 = APPLE80211_VERSION; m0 = ap_awdlManager a
      in case (i, p) of
        (V_BASE IOC_CHANNEL, Plain q) \<Rightarrow> virtual_channel e isSet role q a
      | (V_SYNC_ENABLED, SyncEnabledData v x) \<Rightarrow>
          if isSet then (if m0 = None then vreply NotReady p a else vreply IOSuccess p (on_manager (\<lambda>m. m\<lparr>am_syncEnabled := (x \<noteq> 0)\<rparr>) a))
          else vreply IOSuccess (SyncEnabledData v1 (case m0 of None \<Rightarrow> 0 | Some m \<Rightarrow> if am_syncEnabled m then 1 else 0)) a
      | (V_ELECTION_METRIC, Attr32 v x) \<Rightarrow>
          if isSet then (if m0 = None then vreply NotReady p a else vreply IOSuccess p (on_manager (\<lambda>m. m\<lparr>am_electionMetric := x\<rparr>) a))
          else vreply IOSuccess (Attr32 v1 (case m0 of None \<Rightarrow> 0 | Some m \<Rightarrow> am_electionMetric m)) a
      | (V_PEER_TRAFFIC, PeerTrafficData v active n) \<Rightarrow>
          if \<not> isSet then vreply NotFound p a
          else vreply IOSuccess p (on_manager (notePeerTrafficRegistration (active \<noteq> 0)) a)
      | (V_SYNC_FRAME_TEMPLATE, TemplateData v n pay) \<Rightarrow> frame_template mem isSet p a
      | (V_PEER_CACHE, PeerCacheData v n) \<Rightarrow> if isSet then vreply IOSuccess p a else vreply IOSuccess (PeerCacheData v1 255) a
      | (V_BSSID, AwdlBssidData v b) \<Rightarrow> attribute (\<lambda>m. AwdlBssidData v1 (am_bssid m)) (setBSSID (Some b)) isSet p a
      | (V_ELECTION_ID, Attr32 v x) \<Rightarrow> attribute (\<lambda>m. Attr32 v1 (am_electionId m)) (\<lambda>m. m\<lparr>am_electionId := x\<rparr>) isSet p a
      | (V_MASTER_CHANNEL, Attr32 v x) \<Rightarrow> master_channel isSet p x a
      | (V_SECONDARY_MASTER_CHANNEL, Attr32 v x) \<Rightarrow>
          attribute (\<lambda>m. Attr32 v1 (am_secondaryMasterChannel m)) (\<lambda>m. m\<lparr>am_secondaryMasterChannel := x\<rparr>) isSet p a
      | (V_MIN_RATE, Attr8 v x) \<Rightarrow> attribute (\<lambda>m. Attr8 v1 (am_minRate m)) (\<lambda>m. m\<lparr>am_minRate := x\<rparr>) isSet p a
      | (V_RSSI_THRESHOLDS, OpaqueData v) \<Rightarrow> vreply IOSuccess (if isSet then p else OpaqueData v1) a
      | (V_CHANNEL_SEQUENCE, SequenceData d) \<Rightarrow> channel_sequence l isSet d a
      | (V_PRESENCE_MODE, Attr32 v x) \<Rightarrow> attribute (\<lambda>m. Attr32 v1 (am_presenceMode m)) (\<lambda>m. m\<lparr>am_presenceMode := x\<rparr>) isSet p a
      | (V_EXTENSION_PARAMETERS, OpaqueData v) \<Rightarrow> vreply IOSuccess (if isSet then p else OpaqueData v1) a
      | (V_SYNC_STATE, Attr32 v x) \<Rightarrow> attribute (\<lambda>m. Attr32 v1 (am_syncState m)) (\<lambda>m. m\<lparr>am_syncState := x\<rparr>) isSet p a
      | (V_SYNC_PARAMS, SyncParamsData v w x y z) \<Rightarrow> attribute sync_params (setSyncParams w x y z) isSet p a
      | (V_DEVICE_CAPABILITIES, Attr8 v x) \<Rightarrow>
          attribute (\<lambda>m. Attr8 v1 (if am_deviceCapabilities m = 0 then 1 else am_deviceCapabilities m))
            (\<lambda>m. m\<lparr>am_deviceCapabilities := x\<rparr>) isSet p a
      | (V_AF_TX_MODE, Attr64 v x) \<Rightarrow> attribute (\<lambda>m. Attr64 v1 (am_actionFrameTxMode m)) (\<lambda>m. m\<lparr>am_actionFrameTxMode := x\<rparr>) isSet p a
      | _ \<Rightarrow> None)"

text \<open>What a selector with data answers to a null pointer.\<close>

definition null_answer :: "vioc \<Rightarrow> IOReturn" where
  "null_answer i =
     (if i \<in> {V_BASE IOC_CHANNEL, V_SYNC_ENABLED, V_ELECTION_METRIC, V_PEER_TRAFFIC, V_SYNC_FRAME_TEMPLATE, V_PEER_CACHE,
              V_RSSI_THRESHOLDS, V_EXTENSION_PARAMETERS} then BadArgument else NotReady)"

definition p2p_scan :: "vpayload \<Rightarrow> airport \<Rightarrow> vresponse" where
  "p2p_scan p a =
     (case p of
        Plain (ScanData v n m) \<Rightarrow>
          vreply (if v \<noteq> APPLE80211_VERSION \<or> n > 32 \<or> m > 128 then BadArgument else IOSuccess) p a
      | _ \<Rightarrow> None)"

definition apple80211VirtualRequest ::
  "env \<Rightarrow> sequence_layout \<Rightarrow> bool \<Rightarrow> req \<Rightarrow> vioc \<Rightarrow> nat \<Rightarrow> vpayload \<Rightarrow> airport \<Rightarrow> vresponse" where
  "apple80211VirtualRequest e l mem r i vif p a =
     (if r = OtherReq then vreply BadArgument p a
      else let isSet = (r = SetReq); role = (if vif = 0 then 0 else e_role e vif)
      in case i of
           V_P2P_ENABLE \<Rightarrow> if \<not> isSet then vreply Unsupported p a
                           else vreply IOSuccess p (on_manager (\<lambda>m. m\<lparr>am_p2pEnabled := True\<rparr>) a)
         | V_P2P_LISTEN \<Rightarrow> vreply (if isSet then IOSuccess else Unsupported) p a
         | V_P2P_GO_CONF \<Rightarrow> vreply (if isSet then IOSuccess else Unsupported) p a
         | V_OOB_AUTO_REQUEST \<Rightarrow> vreply (if isSet then IOSuccess else Unsupported) p a
         | V_P2P_SCAN \<Rightarrow> if \<not> isSet \<or> p = Plain Null then vreply Unsupported p a else p2p_scan p a
         | V_HT_CAPABILITY \<Rightarrow> if isSet \<or> p = Plain Null then vreply Unsupported p a
                              else vreply IOSuccess (HtCapData APPLE80211_VERSION 45 0x0062) a
         | V_VHT_CAPABILITY \<Rightarrow> if isSet \<or> p = Plain Null then vreply Unsupported p a
                               else vreply IOSuccess (VhtCapData APPLE80211_VERSION 3263) a
         | V_CHANNELS_INFO \<Rightarrow> if isSet \<or> p = Plain Null then vreply Unsupported p a else channels_info p a
         | V_BASE j \<Rightarrow>
             if j \<in> set shared_selectors
             then (case p of Plain q \<Rightarrow> base_request e r j q a | _ \<Rightarrow> None)
             else if j \<noteq> IOC_CHANNEL then vreply Unsupported p a
             else if p = Plain Null then vreply BadArgument p a
             else virtual_data e l mem isSet role i p a
         | _ \<Rightarrow> if p = Plain Null then vreply (null_answer i) p a else virtual_data e l mem isSet role i p a)"

end
