(* ===== verification/Service.thy ===== *)
theory Service
  imports Prelude "HOL-Library.Monad_Syntax"
begin

text \<open>
  What a component that answers requests promises its callers: from a state in its invariant every well-formed request is
  answered, without a fault, as its contract says, and the invariant holds again. Sessions of requests follow.
\<close>

text \<open>A session: the requests one after the other, with their answers; \<open>None\<close> as soon as one faults.\<close>

fun serve :: "('r \<Rightarrow> 's \<Rightarrow> ('a \<times> 's) option) \<Rightarrow> 'r list \<Rightarrow> 's \<Rightarrow> ('a list \<times> 's) option" where
  "serve handle [] s = Some ([], s)"
| "serve handle (r # rs) s = do { (a, s) \<leftarrow> handle r s; (as, s) \<leftarrow> serve handle rs s; Some (a # as, s) }"

lemma serve_append:
  "serve handle (rs @ qs) s = do { (as, s) \<leftarrow> serve handle rs s; (bs, s) \<leftarrow> serve handle qs s; Some (as @ bs, s) }"
  by (induction rs arbitrary: s) (auto simp: bind_eq_Some_iff split: option.splits Option.bind_splits prod.splits)

locale service =
  fixes inv :: "'s \<Rightarrow> bool" and ok :: "'r \<Rightarrow> bool" and post :: "'r \<Rightarrow> 'a \<Rightarrow> bool" and handle :: "'r \<Rightarrow> 's \<Rightarrow> ('a \<times> 's) option"
  assumes handle_total: "inv s \<Longrightarrow> ok r \<Longrightarrow> \<exists>a s'. handle r s = Some (a, s') \<and> inv s' \<and> post r a"
begin

lemma session:
  "inv s \<Longrightarrow> \<forall>r \<in> set rs. ok r \<Longrightarrow> \<exists>as s'. serve handle rs s = Some (as, s') \<and> inv s' \<and> list_all2 post rs as"
proof (induction rs arbitrary: s)
  case (Cons r rs)
  obtain a t where a: "handle r s = Some (a, t)" "inv t" "post r a" using handle_total Cons.prems by force
  obtain as s' where "serve handle rs t = Some (as, s')" "inv s'" "list_all2 post rs as" using Cons.IH [OF a(2)] Cons.prems by auto
  then show ?case using a by auto
qed simp

text \<open>Whatever was asked before, a further request finds the service as it should be.\<close>

lemma after_session:
  assumes "inv s" "\<forall>r \<in> set rs. ok r" "serve handle rs s = Some (as, t)" "ok r"
  shows "\<exists>a u. handle r t = Some (a, u) \<and> inv u \<and> post r a"
  using session [OF assms(1,2)] assms(3) handle_total [OF _ assms(4)] by auto

end

end
