(* ===== verification/VifProps.thy ===== *)
theory VifProps
  imports Vif AirportProps Service
begin

text \<open>
  What the requests of a virtual interface promise: the template of the synchronisation frame, the members kept for the
  AWDL client, and the safety of every request.
\<close>

section \<open>The frame template\<close>

lemma unat_pos: "(0 :: u32) < n \<Longrightarrow> 0 < unat n"
  by (simp add: word_less_nat_alt)

lemma set_template:
  assumes "template_ok m" "0 < n" "n \<le> 4096" "unat n \<le> length bs"
  shows "\<exists>m'. setSyncFrameTemplate True (Some bs) n m = Some (IOSuccess, m') \<and> am_syncTemplate m' = Some (take (unat n) bs) \<and>
    am_syncTemplateLength m' = n \<and> template_ok m'"
proof -
  have "\<not> (n = 0 \<or> n > 4096)" using assms(2,3) by auto
  then show ?thesis
    using assms(1,4) unat_pos [OF assms(2)]
    by (auto simp: setSyncFrameTemplate_def template_ok_def io_free_def Let_def take_eq_Nil split: option.splits)
qed

text \<open>C36: The template of the synchronisation frame survives the interface: a client that sets one of at most 4096 bytes reads back
  exactly those bytes; a buffer that is too small is left alone and told the length needed, with status NoSpace, so that the
  client can ask again; and the old template's memory is given back with its size.\<close>

theorem template_roundtrip:
  assumes "ap_awdlManager a = Some m" "template_ok m" "0 < n" "n \<le> 4096" "unat n \<le> length bs" "unat c \<le> length dst"
  shows "\<exists>a' m'. apple80211VirtualRequest e l True SetReq V_SYNC_FRAME_TEMPLATE vif (TemplateData v n (Some bs)) a =
      Some (Ret IOSuccess, TemplateData v n (Some bs), a') \<and> ap_awdlManager a' = Some m' \<and> am_blocks m' = [unat n] \<and>
    apple80211VirtualRequest e l mem GetReq V_SYNC_FRAME_TEMPLATE vif (TemplateData w c (Some dst)) a' =
      (if c < n then Some (Ret NoSpace, TemplateData 1 n (Some dst), a')
       else Some (Ret IOSuccess, TemplateData 1 n (Some (take (unat n) bs @ drop (unat n) dst)), a'))"
proof -
  obtain m' where m': "setSyncFrameTemplate True (Some bs) n m = Some (IOSuccess, m')" "am_syncTemplate m' = Some (take (unat n) bs)"
    "am_syncTemplateLength m' = n" "template_ok m'"
    using set_template [OF assms(2-5)] by blast
  define a' where "a' = a\<lparr>ap_awdlManager := Some m'\<rparr>"
  have set: "apple80211VirtualRequest e l True SetReq V_SYNC_FRAME_TEMPLATE vif (TemplateData v n (Some bs)) a =
      Some (Ret IOSuccess, TemplateData v n (Some bs), a')"
    using assms(1) m'(1) by (simp add: apple80211VirtualRequest_def virtual_data_def frame_template_def vreply_def a'_def)
  have blk: "am_blocks m' = [unat n]" using m'(2-4) assms(5) by (simp add: template_ok_def)
  have get: "apple80211VirtualRequest e l mem GetReq V_SYNC_FRAME_TEMPLATE vif (TemplateData w c (Some dst)) a' =
      (if c < n then Some (Ret NoSpace, TemplateData 1 n (Some dst), a')
       else Some (Ret IOSuccess, TemplateData 1 n (Some (take (unat n) bs @ drop (unat n) dst)), a'))"
  proof (cases "c < n")
    case True
    then show ?thesis using assms(3) m'(2,3)
      by (simp add: apple80211VirtualRequest_def virtual_data_def frame_template_def vreply_def a'_def copySyncFrameTemplate_def
          APPLE80211_VERSION_def)
  next
    case False
    then have "unat n \<le> length dst" using assms(6) by (simp add: not_less word_le_nat_alt)
    then have "memcpy_at dst 0 (take (unat n) bs) = Some (take (unat n) bs @ drop (unat n) dst)"
      using assms(5) by (simp add: memcpy_at_def blit_def)
    then show ?thesis using False assms(3) m'(2,3)
      by (simp add: apple80211VirtualRequest_def virtual_data_def frame_template_def vreply_def a'_def copySyncFrameTemplate_def
          APPLE80211_VERSION_def)
  qed
  have "ap_awdlManager a' = Some m'" by (simp add: a'_def)
  then show ?thesis using set blk get by blast
qed

definition demo_layout :: sequence_layout where
  "demo_layout = \<lparr>sl_fill = (\<lambda>b. ucast (b ! 4)), sl_setVersion = (\<lambda>b. b[0 := 1])\<rparr>"

theorem template_roundtrip_witness:
  "\<exists>a'. apple80211VirtualRequest demo_airport_env demo_layout True SetReq V_SYNC_FRAME_TEMPLATE 1
      (TemplateData 1 3 (Some [7, 8, 9])) (demo_airport demo_started) = Some (Ret IOSuccess, TemplateData 1 3 (Some [7, 8, 9]), a')
    \<and> apple80211VirtualRequest demo_airport_env demo_layout True GetReq V_SYNC_FRAME_TEMPLATE 1
      (TemplateData 0 4 (Some [0, 0, 0, 0])) a' = Some (Ret IOSuccess, TemplateData 1 3 (Some [7, 8, 9, 0]), a')"
  using template_roundtrip [of "demo_airport demo_started" new_manager 3 "[7, 8, 9]" 4 "[0, 0, 0, 0]" demo_airport_env demo_layout 1 1 True 0]
  by (auto simp: new_manager_template demo_airport_def)

section \<open>The members kept for the client\<close>

text \<open>The selectors that keep one value, with a structure of their kind, and the value a query reports after it was set.\<close>

definition keeps_value :: "vioc \<Rightarrow> vpayload \<Rightarrow> bool" where
  "keeps_value i p \<longleftrightarrow>
     (case p of
        SyncEnabledData v x \<Rightarrow> i = V_SYNC_ENABLED
      | Attr32 v x \<Rightarrow> i = V_ELECTION_METRIC \<or> i = V_ELECTION_ID \<or> i = V_SECONDARY_MASTER_CHANNEL \<or> i = V_PRESENCE_MODE \<or> i = V_SYNC_STATE
      | Attr8 v x \<Rightarrow> i = V_MIN_RATE \<or> i = V_DEVICE_CAPABILITIES
      | Attr64 v x \<Rightarrow> i = V_AF_TX_MODE
      | AwdlBssidData v b \<Rightarrow> i = V_BSSID \<and> length b = 6
      | SyncParamsData v w x y z \<Rightarrow> i = V_SYNC_PARAMS
      | _ \<Rightarrow> False)"

definition reported :: "vioc \<Rightarrow> vpayload \<Rightarrow> vpayload" where
  "reported i p =
     (case p of
        SyncEnabledData v x \<Rightarrow> SyncEnabledData 1 (if x = 0 then 0 else 1)
      | Attr32 v x \<Rightarrow> Attr32 1 x
      | Attr8 v x \<Rightarrow> Attr8 1 (if i = V_DEVICE_CAPABILITIES \<and> x = 0 then 1 else x)
      | Attr64 v x \<Rightarrow> Attr64 1 x
      | AwdlBssidData v b \<Rightarrow> AwdlBssidData 1 b
      | SyncParamsData v w x y z \<Rightarrow> SyncParamsData 1 w x y z
      | _ \<Rightarrow> p)"

text \<open>The member of the manager behind a selector.\<close>

definition value_of :: "vioc \<Rightarrow> awdl_manager \<Rightarrow> vpayload" where
  "value_of i m =
     (if i = V_SYNC_ENABLED then SyncEnabledData 1 (if am_syncEnabled m then 1 else 0)
      else if i = V_ELECTION_METRIC then Attr32 1 (am_electionMetric m)
      else if i = V_ELECTION_ID then Attr32 1 (am_electionId m)
      else if i = V_SECONDARY_MASTER_CHANNEL then Attr32 1 (am_secondaryMasterChannel m)
      else if i = V_PRESENCE_MODE then Attr32 1 (am_presenceMode m)
      else if i = V_SYNC_STATE then Attr32 1 (am_syncState m)
      else if i = V_MIN_RATE then Attr8 1 (am_minRate m)
      else if i = V_DEVICE_CAPABILITIES then Attr8 1 (if am_deviceCapabilities m = 0 then 1 else am_deviceCapabilities m)
      else if i = V_AF_TX_MODE then Attr64 1 (am_actionFrameTxMode m)
      else if i = V_BSSID then AwdlBssidData 1 (am_bssid m)
      else sync_params m)"

lemma get_value:
  assumes "ap_awdlManager a = Some m" "keeps_value j q"
  shows "apple80211VirtualRequest e l mem GetReq j vif q a = Some (Ret IOSuccess, value_of j m, a)"
  using assms unfolding keeps_value_def
  by (cases q) (auto simp: apple80211VirtualRequest_def virtual_data_def attribute_def vreply_def value_of_def APPLE80211_VERSION_def)

text \<open>The manager after a value was set.\<close>

definition with_value :: "vioc \<Rightarrow> vpayload \<Rightarrow> awdl_manager \<Rightarrow> awdl_manager" where
  "with_value i p m =
     (case p of
        SyncEnabledData v x \<Rightarrow> m\<lparr>am_syncEnabled := (x \<noteq> 0)\<rparr>
      | Attr32 v x \<Rightarrow>
          if i = V_ELECTION_METRIC then m\<lparr>am_electionMetric := x\<rparr>
          else if i = V_ELECTION_ID then m\<lparr>am_electionId := x\<rparr>
          else if i = V_SECONDARY_MASTER_CHANNEL then m\<lparr>am_secondaryMasterChannel := x\<rparr>
          else if i = V_PRESENCE_MODE then m\<lparr>am_presenceMode := x\<rparr> else m\<lparr>am_syncState := x\<rparr>
      | Attr8 v x \<Rightarrow> if i = V_MIN_RATE then m\<lparr>am_minRate := x\<rparr> else m\<lparr>am_deviceCapabilities := x\<rparr>
      | Attr64 v x \<Rightarrow> m\<lparr>am_actionFrameTxMode := x\<rparr>
      | AwdlBssidData v b \<Rightarrow> m\<lparr>am_bssid := b\<rparr>
      | SyncParamsData v w x y z \<Rightarrow> setSyncParams w x y z m
      | _ \<Rightarrow> m)"

lemma set_value:
  assumes "ap_awdlManager a = Some m" "keeps_value i p"
  shows "apple80211VirtualRequest e l mem SetReq i vif p a = Some (Ret IOSuccess, p, a\<lparr>ap_awdlManager := Some (with_value i p m)\<rparr>)"
  using assms unfolding keeps_value_def
  by (cases p) (auto simp: apple80211VirtualRequest_def virtual_data_def attribute_def vreply_def on_manager_def setBSSID_def with_value_def)

lemma value_after:
  assumes "keeps_value i p" "keeps_value j q"
  shows "value_of j (with_value i p m) = (if j = i then reported i p else value_of j m)"
  using assms unfolding keeps_value_def
  by (cases p; cases q) (auto simp: value_of_def with_value_def reported_def setSyncParams_def sync_params_def APPLE80211_VERSION_def)

text \<open>The manager is a store for its client: each of the eleven selectors that keep a value reports the value last set with it,
  and setting one changes what no other reports.\<close>

theorem awdl_values_kept:
  assumes "ap_awdlManager a = Some m" "keeps_value i p" "keeps_value j q"
  shows "\<exists>a' x. apple80211VirtualRequest e l mem SetReq i vif p a = Some (Ret IOSuccess, p, a') \<and>
    apple80211VirtualRequest e l mem GetReq j vif q a = Some (Ret IOSuccess, x, a) \<and>
    apple80211VirtualRequest e l mem GetReq j vif q a' = Some (Ret IOSuccess, if j = i then reported i p else x, a')"
  using set_value [OF assms(1,2)] get_value [OF assms(1,3)] get_value [OF _ assms(3), of "a\<lparr>ap_awdlManager := Some (with_value i p m)\<rparr>"]
    value_after [OF assms(2,3)] by fastforce

theorem awdl_values_kept_witness:
  "\<exists>a'. apple80211VirtualRequest demo_airport_env demo_layout True SetReq V_MIN_RATE 1 (Attr8 1 24) (demo_airport demo_started) =
      Some (Ret IOSuccess, Attr8 1 24, a')
    \<and> apple80211VirtualRequest demo_airport_env demo_layout True GetReq V_MIN_RATE 1 (Attr8 0 0) a' = Some (Ret IOSuccess, Attr8 1 24, a')"
  using awdl_values_kept [of "demo_airport demo_started" new_manager V_MIN_RATE "Attr8 1 24" V_MIN_RATE "Attr8 0 0" demo_airport_env demo_layout True 1]
  by (auto simp: keeps_value_def reported_def demo_airport_def)

section \<open>Safety\<close>

text \<open>The shared requests leave the manager alone.\<close>

lemma delegate_manager [simp]: "ap_awdlManager (delegate_call x a) = ap_awdlManager a" "ap_netif (delegate_call x a) = ap_netif a"
  by (cases x; auto simp: rtw88Event_def setLinkStatus_def post_def Let_def)+

lemma delegates_manager [simp]: "ap_awdlManager (fold delegate_call xs a) = ap_awdlManager a" "ap_netif (fold delegate_call xs a) = ap_netif a"
  by (induction xs arbitrary: a) simp_all

lemma backend_manager [simp]: "ap_awdlManager (backend s t a) = ap_awdlManager a" "ap_netif (backend s t a) = ap_netif a"
  by (simp_all add: backend_def)

lemma post_manager [simp]: "ap_awdlManager (post m a) = ap_awdlManager a" "ap_netif (post m a) = ap_netif a"
  by (simp_all add: post_def)

lemma shared_keeps_manager:
  assumes "j \<in> set shared_selectors \<or> j = IOC_CHANNEL" "apple80211Request e r j p a = Some (res, q, a')"
  shows "ap_awdlManager a' = ap_awdlManager a \<and> ap_netif a' = ap_netif a"
proof -
  have power: "ap_awdlManager a' = ap_awdlManager a \<and> ap_netif a' = ap_netif a" if "handlePOWER e b p s a = Some (res, q, a')" for b s
    using that by (auto simp: handlePOWER_def answers_with_def Let_def split: payload.splits if_splits bind_splits prod.splits)
  show ?thesis
    using assms power
    by (auto simp: shared_selectors_def apple80211Request_def dispatch_def query_def when_connected_def supported_channels_def
        unsupported_set_def answers_with_def handleAUTH_TYPE_def handleSSID_def handleSTATE_def handleCHANNEL_def country_code_def Let_def
        split: payload.splits option.splits if_splits bind_splits prod.splits)
qed

text \<open>Structures of the selector's kind.\<close>

definition vkind_ok :: "vioc \<Rightarrow> vpayload \<Rightarrow> bool" where
  "vkind_ok i p \<longleftrightarrow>
     (case i of
        V_BASE j \<Rightarrow> \<exists>q. p = Plain q \<and> (q = Null \<or> kind_ok j q)
      | V_PEER_TRAFFIC \<Rightarrow> \<exists>v x n. p = PeerTrafficData v x n
      | V_SYNC_FRAME_TEMPLATE \<Rightarrow> \<exists>v n b. p = TemplateData v n b \<and> (\<forall>bs. b = Some bs \<longrightarrow> unat n \<le> length bs)
      | V_PEER_CACHE \<Rightarrow> \<exists>v n. p = PeerCacheData v n
      | V_P2P_SCAN \<Rightarrow> \<exists>v n m. p = Plain (ScanData v n m)
      | V_MASTER_CHANNEL \<Rightarrow> \<exists>v x. p = Attr32 v x
      | V_RSSI_THRESHOLDS \<Rightarrow> \<exists>v. p = OpaqueData v
      | V_EXTENSION_PARAMETERS \<Rightarrow> \<exists>v. p = OpaqueData v
      | V_CHANNEL_SEQUENCE \<Rightarrow> \<exists>d. p = SequenceData d \<and> length d < 2 ^ 32
      | V_HT_CAPABILITY \<Rightarrow> True
      | V_VHT_CAPABILITY \<Rightarrow> True
      | V_CHANNELS_INFO \<Rightarrow> True
      | V_P2P_ENABLE \<Rightarrow> True
      | V_P2P_LISTEN \<Rightarrow> True
      | V_P2P_GO_CONF \<Rightarrow> True
      | V_OOB_AUTO_REQUEST \<Rightarrow> True
      | _ \<Rightarrow> keeps_value i p)"

text \<open>The invariant of the controller: the class in its invariant, the buffers of the manager in theirs.\<close>

definition manager_ok :: "awdl_manager \<Rightarrow> bool" where
  "manager_ok m \<longleftrightarrow> template_ok m \<and> length (am_syncChannelSequence m) = 512 \<and> am_syncChannelSequenceLength m \<le> 512"

definition airport_ok :: "airport \<Rightarrow> bool" where
  "airport_ok a \<longleftrightarrow> ap_netif a \<and> (\<exists>s. ap_ieee80211 a = Some s \<and> mlme_inv s) \<and> (\<forall>m. ap_awdlManager a = Some m \<longrightarrow> manager_ok m)"

definition vsafe :: "vresponse \<Rightarrow> bool" where
  "vsafe x \<longleftrightarrow> (\<exists>res q a. x = Some (res, q, a) \<and> airport_ok a)"

lemma reply_safe [simp]: "vsafe (vreply r p a) \<longleftrightarrow> airport_ok a"
  by (simp add: vsafe_def vreply_def)

lemma manager_updates [simp]:
  "manager_ok (m\<lparr>am_syncEnabled := b\<rparr>) = manager_ok m" "manager_ok (m\<lparr>am_electionMetric := x\<rparr>) = manager_ok m"
  "manager_ok (m\<lparr>am_electionId := x\<rparr>) = manager_ok m" "manager_ok (m\<lparr>am_secondaryMasterChannel := x\<rparr>) = manager_ok m"
  "manager_ok (m\<lparr>am_presenceMode := x\<rparr>) = manager_ok m" "manager_ok (m\<lparr>am_syncState := x\<rparr>) = manager_ok m"
  "manager_ok (m\<lparr>am_minRate := y\<rparr>) = manager_ok m" "manager_ok (m\<lparr>am_deviceCapabilities := y\<rparr>) = manager_ok m"
  "manager_ok (m\<lparr>am_actionFrameTxMode := z\<rparr>) = manager_ok m" "manager_ok (m\<lparr>am_masterChannel := x\<rparr>) = manager_ok m"
  "manager_ok (m\<lparr>am_p2pEnabled := b\<rparr>) = manager_ok m" "manager_ok (m\<lparr>am_bssid := bs\<rparr>) = manager_ok m"
  "manager_ok (m\<lparr>am_peerRegistrations := x\<rparr>) = manager_ok m"
  "manager_ok (setSyncParams x x1 x2 x3 m) = manager_ok m"
  by (simp_all add: manager_ok_def template_ok_def setSyncParams_def split: option.split)

lemma peer_ok [simp]: "manager_ok (notePeerTrafficRegistration b m) = manager_ok m"
  by (simp add: notePeerTrafficRegistration_def)

lemma bssid_ok [simp]: "manager_ok (setBSSID b m) = manager_ok m"
  by (simp add: setBSSID_def split: option.split)

lemma with_manager_ok: "airport_ok a \<Longrightarrow> manager_ok m \<Longrightarrow> airport_ok (a\<lparr>ap_awdlManager := Some m\<rparr>)"
  by (simp add: airport_ok_def)

lemma on_manager_ok: "airport_ok a \<Longrightarrow> (\<And>m. manager_ok m \<Longrightarrow> manager_ok (f m)) \<Longrightarrow> airport_ok (on_manager f a)"
  by (auto simp: airport_ok_def on_manager_def)

lemma awdl_channel_ok: "airport_ok a \<Longrightarrow> airport_ok (snd (awdl_channel c a))"
  using inv_same [OF same_mode_awdl_channel]
  by (auto simp: airport_ok_def awdl_channel_def case_prod_beta split: option.splits)

lemma base_safe:
  assumes "env_ok e" "airport_ok a" "q = Null \<or> kind_ok j q" "j \<in> set shared_selectors \<or> j = IOC_CHANNEL"
  shows "vsafe (base_request e r j q a)"
proof -
  obtain s where s: "ap_ieee80211 a = Some s" "mlme_inv s" "ap_netif a" using assms(2) by (auto simp: airport_ok_def)
  obtain res x a' s' where x: "apple80211Request e r j q a = Some (res, x, a')" "ap_ieee80211 a' = Some s'" "mlme_inv s'"
    using request_safe [OF assms(1) s(3,1,2) assms(3), of r] by (auto simp: safe_def)
  moreover have "airport_ok a'" using shared_keeps_manager [OF assms(4) x(1)] x(2,3) assms(2) by (simp add: airport_ok_def)
  ultimately show ?thesis by (simp add: vsafe_def base_request_def)
qed

lemma channel_safe:
  assumes "env_ok e" "airport_ok a" "q = Null \<or> kind_ok IOC_CHANNEL q" "q \<noteq> Null"
  shows "vsafe (virtual_channel e b role q a)"
proof -
  obtain v c where q: "q = ChannelData v c" using assms(3,4) by (auto simp: kind_ok_def)
  have "airport_ok (snd (awdl_channel d (on_manager (\<lambda>m. m\<lparr>am_masterChannel := x\<rparr>) a)))" for d x
    by (intro awdl_channel_ok on_manager_ok) (simp_all add: assms(2))
  then show ?thesis using base_safe [OF assms(1-3)] assms(2)
    by (auto simp: virtual_channel_def q Let_def case_prod_beta)
qed

lemma template_safe:
  assumes "airport_ok a" "\<forall>bs. b = Some bs \<longrightarrow> unat n \<le> length bs"
  shows "vsafe (frame_template mem isSet (TemplateData v n b) a)"
proof (cases "ap_awdlManager a")
  case None
  then show ?thesis using assms(1) by (simp add: frame_template_def)
next
  case (Some m)
  then have m: "manager_ok m" "template_ok m" using assms(1) by (auto simp: airport_ok_def manager_ok_def)
  show ?thesis
  proof (cases isSet)
    case True
    have "setSyncFrameTemplate mem b n m \<noteq> None"
      using assms(2) m(2) by (auto simp: setSyncFrameTemplate_def template_ok_def io_free_def Let_def split: option.splits if_splits)
    then obtain r m' where r: "setSyncFrameTemplate mem b n m = Some (r, m')" by auto
    moreover have "manager_ok m'" using r m set_template_ok [OF m(2) r]
      by (auto simp: manager_ok_def setSyncFrameTemplate_def io_free_def Let_def split: option.splits if_splits bind_splits)
    ultimately show ?thesis using True Some assms(1) by (simp add: frame_template_def with_manager_ok)
  next
    case False
    have "copySyncFrameTemplate (Some bs) (Some n) m \<noteq> None" if "b = Some bs" for bs
    proof (cases "am_syncTemplate m")
      case (Some t)
      then have "length t = unat (am_syncTemplateLength m)" using m(2) by (simp add: template_ok_def)
      moreover have "unat (am_syncTemplateLength m) \<le> length bs" if "\<not> n < am_syncTemplateLength m"
        using that assms(2) \<open>b = Some bs\<close> by (simp add: not_less word_le_nat_alt)
      ultimately show ?thesis using Some by (simp add: copySyncFrameTemplate_def memcpy_at_def Let_def)
    qed (simp add: copySyncFrameTemplate_def)
    then have "b \<noteq> None \<Longrightarrow> copySyncFrameTemplate b (Some n) m \<noteq> None" by auto
    then show ?thesis using False Some assms(1)
      by (cases "copySyncFrameTemplate b (Some n) m") (auto simp: frame_template_def case_prod_beta)
  qed
qed

lemma sequence_safe:
  assumes "airport_ok a" "length d < 2 ^ 32"
  shows "vsafe (channel_sequence l isSet d a)"
proof (cases "ap_awdlManager a")
  case None
  then show ?thesis using assms(1) by (simp add: channel_sequence_def)
next
  case (Some m)
  then have m: "manager_ok m" using assms(1) by (auto simp: airport_ok_def)
  have n: "unat (of_nat (length d) :: u32) = length d" using assms(2) by (simp add: unat_of_nat)
  show ?thesis
  proof (cases isSet)
    case True
    have "setSyncChannelSequence (Some d) (of_nat (length d)) m \<noteq> None" using n by (simp add: setSyncChannelSequence_def)
    then obtain r m' where r: "setSyncChannelSequence (Some d) (of_nat (length d)) m = Some (r, m')" by auto
    have "manager_ok m'" using r m n
      by (auto simp: setSyncChannelSequence_def manager_ok_def template_ok_def length_blit word_le_nat_alt not_less split: if_splits option.splits)
    then have ok: "airport_ok (a\<lparr>ap_awdlManager := Some m'\<rparr>)" using assms(1) by (simp add: with_manager_ok)
    then show ?thesis using True Some r awdl_channel_ok [OF ok]
      by (auto simp: channel_sequence_def Let_def case_prod_beta)
  next
    case False
    have "unat (am_syncChannelSequenceLength m) \<le> length d" if "\<not> (of_nat (length d) :: u32) < am_syncChannelSequenceLength m"
      using that n by (simp add: not_less word_le_nat_alt)
    moreover have "unat (am_syncChannelSequenceLength m) \<le> length (am_syncChannelSequence m)"
      using m by (simp add: manager_ok_def word_le_nat_alt)
    ultimately have "copySyncChannelSequence (Some (replicate (length d) 0)) (of_nat (length d)) m \<noteq> None"
      by (simp add: copySyncChannelSequence_def memcpy_at_def)
    then obtain r out where "copySyncChannelSequence (Some (replicate (length d) 0)) (of_nat (length d)) m = Some (r, out)" by auto
    then show ?thesis using False Some assms(1) by (simp add: channel_sequence_def Let_def)
  qed
qed

lemma attribute_safe: "airport_ok a \<Longrightarrow> (\<And>m. manager_ok m \<Longrightarrow> manager_ok (put m)) \<Longrightarrow> vsafe (attribute get put b p a)"
  by (auto simp: attribute_def with_manager_ok airport_ok_def split: option.split)

lemma master_safe: "airport_ok a \<Longrightarrow> vsafe (master_channel b p x a)"
proof -
  assume a: "airport_ok a"
  have "airport_ok (snd (awdl_channel c (a\<lparr>ap_awdlManager := Some (m\<lparr>am_masterChannel := x\<rparr>)\<rparr>)))" if "ap_awdlManager a = Some m" for c m
    using a that by (intro awdl_channel_ok with_manager_ok) (auto simp: airport_ok_def)
  then show ?thesis using a by (auto simp: master_channel_def Let_def case_prod_beta airport_ok_def with_manager_ok split: option.split)
qed

lemma data_safe:
  assumes "airport_ok a" "vkind_ok i p" "\<forall>j. i \<noteq> V_BASE j"
    "i \<notin> {V_P2P_ENABLE, V_P2P_LISTEN, V_P2P_GO_CONF, V_OOB_AUTO_REQUEST, V_P2P_SCAN, V_HT_CAPABILITY, V_VHT_CAPABILITY, V_CHANNELS_INFO}"
  shows "vsafe (virtual_data e l mem b role i p a)"
  using assms
  by (cases i)
     (auto simp: vkind_ok_def keeps_value_def virtual_data_def Let_def split: vpayload.splits
       intro!: attribute_safe template_safe sequence_safe master_safe on_manager_ok)

lemma channels_info_safe: "airport_ok a \<Longrightarrow> vsafe (channels_info p a)"
  by (simp add: channels_info_def case_prod_beta split: option.split)

lemma virtual_call:
  assumes "env_ok e" "airport_ok a" "p = Plain Null \<or> vkind_ok i p"
  shows "\<exists>res q a'. apple80211VirtualRequest e l mem r i vif p a = Some (res, q, a') \<and> airport_ok a'"
proof -
  have "vsafe (apple80211VirtualRequest e l mem r i vif p a)"
  proof (cases "p = Plain Null")
    case True
    have on_manager_safe: "vsafe (vreply x q (on_manager (\<lambda>m. m\<lparr>am_p2pEnabled := True\<rparr>) a))" for x q
      by (simp add: on_manager_ok assms(2))
    show ?thesis
      using True assms base_safe [OF assms(1,2)] on_manager_safe
      by (cases i) (auto simp: apple80211VirtualRequest_def Let_def)
  next
    case False
    have on: "airport_ok (on_manager (\<lambda>m. m\<lparr>am_p2pEnabled := True\<rparr>) a)" by (simp add: on_manager_ok assms(2))
    have k: "vkind_ok i p" using False assms(3) by simp
    show ?thesis
    proof (cases i)
      case (V_BASE j)
      then obtain q where q: "p = Plain q" "q \<noteq> Null" "kind_ok j q" using k False by (auto simp: vkind_ok_def)
      then show ?thesis using V_BASE assms(2) base_safe [OF assms(1,2), of q j] channel_safe [OF assms(1,2), of q]
        by (auto simp: apple80211VirtualRequest_def virtual_data_def Let_def)
    qed (use k False assms(2) on in \<open>auto simp: apple80211VirtualRequest_def Let_def vkind_ok_def p2p_scan_def keeps_value_def
           intro!: data_safe channels_info_safe\<close>)
  qed
  then show ?thesis by (simp add: vsafe_def)
qed

lemma demo_airport_ok: "airport_ok (demo_airport demo_started)"
  using started_inv [OF demo_started_ok] new_manager_template
  by (simp add: airport_ok_def manager_ok_def demo_airport_def new_manager_def)

text \<open>
  A session: requests of any clients, each with the environment it finds, and between them whatever other parts do to the controller,
  as long as they keep its invariant.
\<close>

datatype vif_event = Request env sequence_layout bool req vioc nat vpayload | Meanwhile "airport \<Rightarrow> airport"

definition vif_event_ok :: "vif_event \<Rightarrow> bool" where
  "vif_event_ok ev \<longleftrightarrow>
     (case ev of Request e l mem r i vif p \<Rightarrow> env_ok e \<and> (p = Plain Null \<or> vkind_ok i p)
      | Meanwhile f \<Rightarrow> \<forall>a. airport_ok a \<longrightarrow> airport_ok (f a))"

definition vif_handle :: "vif_event \<Rightarrow> airport \<Rightarrow> ((sint \<times> vpayload) option \<times> airport) option" where
  "vif_handle ev a =
     (case ev of
        Request e l mem r i vif p \<Rightarrow> map_option (\<lambda>(res, q, a). (Some (res, q), a)) (apple80211VirtualRequest e l mem r i vif p a)
      | Meanwhile f \<Rightarrow> Some (None, f a))"

definition vif_post :: "vif_event \<Rightarrow> (sint \<times> vpayload) option \<Rightarrow> bool" where
  "vif_post ev x \<longleftrightarrow> (case ev of Request e l mem r i vif p \<Rightarrow> x \<noteq> None | Meanwhile f \<Rightarrow> x = None)"

interpretation vif: service airport_ok vif_event_ok vif_post vif_handle
proof
  fix a ev
  assume a: "airport_ok a" and ev: "vif_event_ok ev"
  show "\<exists>x a'. vif_handle ev a = Some (x, a') \<and> airport_ok a' \<and> vif_post ev x"
  proof (cases ev)
    case (Request e l mem r i vif p)
    then obtain res q a' where "apple80211VirtualRequest e l mem r i vif p a = Some (res, q, a')" "airport_ok a'"
      using virtual_call [OF _ a, of e p i l mem r vif] ev by (auto simp: vif_event_ok_def)
    then show ?thesis by (simp add: Request vif_handle_def vif_post_def)
  qed (use a ev in \<open>simp add: vif_handle_def vif_post_def vif_event_ok_def\<close>)
qed

text \<open>C35: No sequence of requests on the virtual interfaces faults. For any number of requests, of any selector and direction, with a null
  pointer or a structure of the selector's kind, on any interfaces, whatever other parts do in between that keeps the
  controller's invariant, every request is answered: no copy leaves its buffer and no block is freed with a wrong size; and
  the controller ends in its invariant, with the class in that of its state machine and the template's memory tracked.\<close>

theorem virtual_sessions_safe:
  assumes "airport_ok a" "\<forall>ev \<in> set evs. vif_event_ok ev"
  shows "\<exists>xs a'. serve vif_handle evs a = Some (xs, a') \<and> airport_ok a' \<and> list_all2 vif_post evs xs"
  using assms by (rule vif.session)

theorem virtual_sessions_safe_witness:
  "\<exists>xs a'. serve vif_handle [Request demo_airport_env demo_layout True SetReq V_CHANNEL_SEQUENCE 1 (SequenceData (replicate 16 1)), Meanwhile id,
      Request demo_airport_env demo_layout True GetReq V_MIN_RATE 1 (Attr8 0 0)] (demo_airport demo_started) = Some (xs, a') \<and> airport_ok a'"
proof -
  let ?evs = "[Request demo_airport_env demo_layout True SetReq V_CHANNEL_SEQUENCE 1 (SequenceData (replicate 16 1)), Meanwhile id,
      Request demo_airport_env demo_layout True GetReq V_MIN_RATE 1 (Attr8 0 0)]"
  have "\<forall>ev \<in> set ?evs. vif_event_ok ev" using demo_env_ok by (simp add: vif_event_ok_def vkind_ok_def keeps_value_def)
  then show ?thesis using virtual_sessions_safe [OF demo_airport_ok, of ?evs] by blast
qed

end
