(* ===== verification/VifFrames.thy ===== *)
theory VifFrames
  imports Vif
begin

text \<open>
  Frames of the virtual interfaces: the action frames the system sends (\<open>outputActionFrame\<close>, \<open>bpfOutputPacket\<close>), the data
  frames drained by \<open>requestPacketTx\<close>, and the received frames handed to the AWDL interface.
\<close>

section \<open>Packets\<close>

text \<open>A packet of the system: the length of its header field, the length of its first buffer, and its bytes. \<open>mbuf_copydata\<close>
  fails past the end, \<open>mbuf_adj\<close> removes bytes at the front, from as many buffers as it takes.\<close>

record packet =
  pk_header :: nat
  pk_first :: nat
  pk_bytes :: bytes

definition copydata :: "nat \<Rightarrow> packet \<Rightarrow> bytes option" where
  "copydata n m = (if n \<le> length (pk_bytes m) then Some (take n (pk_bytes m)) else None)"

definition adj :: "nat \<Rightarrow> packet \<Rightarrow> packet" where
  "adj n m = \<lparr>pk_header = pk_header m - n, pk_first = pk_first m - n, pk_bytes = drop n (pk_bytes m)\<rparr>"

text \<open>Result of an output: the status, how often the packet was freed, the controller.\<close>

type_synonym sent = "IOReturn \<times> nat \<times> airport"

section \<open>Transmission\<close>

definition rtw88SendActionFrame :: "env \<Rightarrow> bool \<Rightarrow> packet option \<Rightarrow> airport \<Rightarrow> sent" where
  "rtw88SendActionFrame e mem pkt a =
     (case pkt of
        None \<Rightarrow> (BadArgument, 0, a)
      | Some m \<Rightarrow>
          (case ap_ieee80211 a of
             None \<Rightarrow> (NotReady, 1, a)
           | Some s \<Rightarrow>
               let n = (if pk_header m = 0 then pk_first m else pk_header m)
               in if n < 24 \<or> n > 4096 then (BadArgument, 1, a)
                  else if \<not> mem then (NoMemory, 1, a)
                  else (case copydata n m of
                          None \<Rightarrow> (IOError, 1, a)
                        | Some f \<Rightarrow>
                            (case txRawManagementFrame (e_driver e) (Some f) s of
                               (ok, s') \<Rightarrow> (if ok then IOSuccess else IOError, 1, backend s s' a)))))"

definition outputActionFrame :: "env \<Rightarrow> bool \<Rightarrow> packet option \<Rightarrow> airport \<Rightarrow> sent" where
  "outputActionFrame e mem pkt a = rtw88SendActionFrame e mem pkt a"

datatype dlt = DLT_RAW | DLT_IEEE802_11 | DLT_IEEE802_11_RADIO | DLT_OTHER

definition bpfOutputPacket :: "env \<Rightarrow> bool \<Rightarrow> dlt \<Rightarrow> packet option \<Rightarrow> airport \<Rightarrow> sent" where
  "bpfOutputPacket e mem t pkt a =
     (if t = DLT_RAW \<or> t = DLT_IEEE802_11 then rtw88SendActionFrame e mem pkt a
      else case pkt of
        None \<Rightarrow> (Unsupported, 0, a)
      | Some m \<Rightarrow>
          if t = DLT_IEEE802_11_RADIO then
            (if pk_header m < 4 then (BadArgument, 1, a)
             else case copydata 4 m of
               None \<Rightarrow> (BadArgument, 1, a)
             | Some hdr \<Rightarrow>
                 let rtlen = unat (le16_of (hdr ! 2) (hdr ! 3))
                 in if rtlen < 4 \<or> rtlen \<ge> pk_header m then (BadArgument, 1, a)
                    else rtw88SendActionFrame e mem (Some (adj rtlen m)) a)
          else (Unsupported, 1, a))"

text \<open>
  \<open>requestPacketTx\<close> drains the private queues of the interface, one list of at most 32 packets for each of the ten
  service classes; every packet is consumed by the class. Result: the packets sent.
\<close>

fun drain_packets :: "driver \<Rightarrow> bytes list \<Rightarrow> u32 \<Rightarrow> RTW88IEEE80211 \<Rightarrow> (u32 \<times> RTW88IEEE80211) option" where
  "drain_packets d [] n s = Some (n, s)"
| "drain_packets d (m # ms) n s =
     do { (ok, s) \<leftarrow> txAWDLDataFrame d (Some m) s; drain_packets d ms (if ok then n + 1 else n) s }"

fun drain_classes :: "driver \<Rightarrow> bytes list list \<Rightarrow> u32 \<Rightarrow> RTW88IEEE80211 \<Rightarrow> (u32 \<times> RTW88IEEE80211) option" where
  "drain_classes d [] n s = Some (n, s)"
| "drain_classes d (c # cs) n s = do { (n, s) \<leftarrow> drain_packets d c n s; drain_classes d cs n s }"

definition requestPacketTx :: "env \<Rightarrow> nat \<Rightarrow> bytes list list \<Rightarrow> airport \<Rightarrow> (u32 \<times> airport) option" where
  "requestPacketTx e vif classes a =
     (case ap_ieee80211 a of
        None \<Rightarrow> Some (0, a)
      | Some s \<Rightarrow>
          if vif = 0 \<or> e_role e vif \<noteq> APPLE80211_VIF_AWDL then Some (0, a)
          else do { (n, s') \<leftarrow> drain_classes (e_driver e) classes 0 s; Some (n, backend s s' a) })"

section \<open>Reception\<close>

text \<open>What the system answers on the way: the interface is an \<open>IO80211P2PInterface\<close>, a packet could be allocated, the copy
  into it succeeded.\<close>

record rx_answers =
  ra_p2p :: bool
  ra_alloc :: bool
  ra_copied :: bool

definition injectRxActionFrame :: "rx_answers \<Rightarrow> bytes option \<Rightarrow> int \<Rightarrow> u16 \<Rightarrow> airport \<Rightarrow> vif_call list" where
  "injectRxActionFrame ans frame rssi chan a =
     (let awdl = (case ap_awdlManager a of None \<Rightarrow> 0 | Some m \<Rightarrow> am_awdlInterface m)
      in case frame of
        None \<Rightarrow> []
      | Some f \<Rightarrow>
          if awdl = 0 \<or> length f > 4096 then []
          else (case rtw88IsAWDLActionFrame (Some f) of
                  None \<Rightarrow> []
                | Some subtype \<Rightarrow>
                    (if ra_p2p ans then [VifPresence awdl (block f 10 6) rssi chan subtype] else []) @
                    (if ra_alloc ans \<and> ra_copied ans then [VifInput awdl f] else [])))"

text \<open>Result: the calls, and how often the packet was freed here.\<close>

definition injectRxAWDLFrame :: "bytes option \<Rightarrow> airport \<Rightarrow> vif_call list \<times> nat" where
  "injectRxAWDLFrame pkt a =
     (case pkt of
        None \<Rightarrow> ([], 0)
      | Some m \<Rightarrow>
          let awdl = (case ap_awdlManager a of None \<Rightarrow> 0 | Some m \<Rightarrow> am_awdlInterface m)
          in if awdl = 0 then ([], 1) else ([VifInput awdl m], 0))"

text \<open>The infrastructure interface: \<open>injectRxFrame\<close> of the controller, then the routing of \<open>AirportRTW88Interface::inputPacket\<close>.\<close>

datatype rx_fate = RxFreed | RxEapol bytes | RxEthernet bytes | RxNothing

definition interface_input :: "packet option \<Rightarrow> rx_fate" where
  "interface_input pkt =
     (case pkt of
        None \<Rightarrow> RxNothing
      | Some m \<Rightarrow>
          if pk_first m \<ge> 14 \<and> be16_of (pk_bytes m ! 12) (pk_bytes m ! 13) = 0x888E then RxEapol (take (pk_first m) (pk_bytes m))
          else RxEthernet (pk_bytes m))"

definition injectRxFrame :: "packet option \<Rightarrow> airport \<Rightarrow> rx_fate" where
  "injectRxFrame pkt a =
     (case pkt of
        None \<Rightarrow> RxNothing
      | Some m \<Rightarrow>
          if \<not> ap_netif a then RxFreed
          else if pk_header m < 14 \<or> pk_header m > 4096 \<or> pk_first m < 14 \<or> pk_first m > 4096 then RxFreed
          else interface_input pkt)"

section \<open>Properties\<close>

lemma packet_adj: "length h = n \<Longrightarrow> adj n \<lparr>pk_header = n + length f, pk_first = n + length f, pk_bytes = h @ f\<rparr> =
    \<lparr>pk_header = length f, pk_first = length f, pk_bytes = f\<rparr>"
  by (simp add: adj_def)

definition whole :: "bytes \<Rightarrow> packet" where
  "whole f = \<lparr>pk_header = length f, pk_first = length f, pk_bytes = f\<rparr>"

text \<open>The common end of the outputs: the packet is freed exactly once.\<close>

lemma send_frees: "fst (snd (rtw88SendActionFrame e mem pkt a)) = (if pkt = None then 0 else 1)"
  by (auto simp: rtw88SendActionFrame_def Let_def case_prod_beta split: option.split)

lemma send_refused:
  assumes "length f < 24 \<or> length f > 4096" "f \<noteq> []" "ap_ieee80211 a = Some s"
  shows "rtw88SendActionFrame e mem (Some (whole f)) a = (BadArgument, 1, a)"
  using assms by (auto simp: rtw88SendActionFrame_def whole_def Let_def)

text \<open>A frame given to a packet filter with a radiotap header is transmitted as the frame alone would be: for a header of any
  length its own length field states and a frame that is not empty, the output is the same in status, effect on the class and
  frees as the output of the bare frame; a header shorter than four bytes or not shorter than the packet is refused without
  touching the class; and on every path and for every link type the packet is freed exactly once.\<close>

theorem radiotap_decapsulated:
  assumes "4 \<le> length h" "length h < 2 ^ 16" "h ! 2 = lo8 (of_nat (length h))" "h ! 3 = hi8 (of_nat (length h))"
    and "f \<noteq> []"
  shows "bpfOutputPacket e mem DLT_IEEE802_11_RADIO (Some (whole (h @ f))) a = bpfOutputPacket e mem DLT_IEEE802_11 (Some (whole f)) a \<and>
    (\<forall>m hdr. copydata 4 m = Some hdr \<longrightarrow> (unat (le16_of (hdr ! 2) (hdr ! 3)) < 4 \<or> unat (le16_of (hdr ! 2) (hdr ! 3)) \<ge> pk_header m) \<longrightarrow>
       bpfOutputPacket e mem DLT_IEEE802_11_RADIO (Some m) a = (BadArgument, 1, a)) \<and>
    (\<forall>t pkt. fst (snd (bpfOutputPacket e mem t pkt a)) = (if pkt = None then 0 else 1))"
proof (intro conjI allI impI)
  have rt: "unat (le16_of (h ! 2) (h ! 3)) = length h"
  proof -
    have "le16_of (h ! 2) (h ! 3) = (of_nat (length h) :: u16)" by (simp add: assms(3,4))
    then show ?thesis using assms(2) by (simp add: unat_of_nat)
  qed
  have h: "take 4 (h @ f) ! 2 = h ! 2" "take 4 (h @ f) ! 3 = h ! 3" using assms(1) by (simp_all add: nth_append)
  show "bpfOutputPacket e mem DLT_IEEE802_11_RADIO (Some (whole (h @ f))) a = bpfOutputPacket e mem DLT_IEEE802_11 (Some (whole f)) a"
    using assms(1,5) packet_adj [of h "length h" f] rt h
    by (simp add: bpfOutputPacket_def whole_def copydata_def Let_def)
next
  fix m hdr
  assume "copydata 4 m = Some hdr" "unat (le16_of (hdr ! 2) (hdr ! 3)) < 4 \<or> unat (le16_of (hdr ! 2) (hdr ! 3)) \<ge> pk_header m"
  then show "bpfOutputPacket e mem DLT_IEEE802_11_RADIO (Some m) a = (BadArgument, 1, a)"
    by (auto simp: bpfOutputPacket_def Let_def)
next
  fix t pkt
  show "fst (snd (bpfOutputPacket e mem t pkt a)) = (if pkt = None then 0 else 1)"
    using send_frees [of e mem] by (auto simp: bpfOutputPacket_def Let_def split: option.split)
qed

theorem radiotap_decapsulated_witness:
  "bpfOutputPacket e mem DLT_IEEE802_11_RADIO (Some (whole ([0, 0, 8, 0, 0, 0, 0, 0] @ replicate 30 7))) a =
     bpfOutputPacket e mem DLT_IEEE802_11 (Some (whole (replicate 30 7))) a"
  using radiotap_decapsulated [of "[0, 0, 8, 0, 0, 0, 0, 0]" "replicate 30 7" e mem a] by (simp add: lo8_def hi8_def)

end
