(* ===== verification/Network.thy ===== *)
theory Network
  imports VifFrames Hooks Dma
begin

text \<open>
  The calls of \<open>IONetworkController\<close> both controllers answer: bringing the interface up and down, the output of packets with
  the flow control of \<open>RTW88PCIDevice\<close>, received packets, addresses and receive filters.
\<close>

section \<open>AirportRTW88\<close>

text \<open>\<open>up\<close> is what \<open>super::enable\<close> returns.\<close>

definition airport_enable :: "env \<Rightarrow> IOReturn \<Rightarrow> airport \<Rightarrow> IOReturn \<times> airport" where
  "airport_enable e up a =
     (case ap_ieee80211 a of
        None \<Rightarrow> (NotReady, a)
      | Some s \<Rightarrow>
          (case powerOn (e_driver e) s of
             (ret, t) \<Rightarrow>
               if ret \<noteq> IOSuccess then (ret, backend s t a)
               else (up, if up \<noteq> IOSuccess then backend s (powerOff (e_driver e) t) a else backend s t a)))"

definition airport_disable :: "IOReturn \<Rightarrow> airport \<Rightarrow> IOReturn \<times> airport" where
  "airport_disable down a = (down, a)"

definition PACKET_FILTERS :: u32 where "PACKET_FILTERS = 0x01 OR 0x02 OR 0x08"

text \<open>\<open>group\<close>: \<open>None\<close> for null, else whether it is the filter group of the network; \<open>out\<close>: the result pointer is not null.\<close>

definition airport_getPacketFilters :: "bool option \<Rightarrow> bool \<Rightarrow> IOReturn \<times> u32 option" where
  "airport_getPacketFilters grp out =
     (case grp of
        None \<Rightarrow> (BadArgument, None)
      | Some network \<Rightarrow> if \<not> out then (BadArgument, None) else (IOSuccess, Some (if network then PACKET_FILTERS else 0)))"

definition airport_setMulticastMode :: "env \<Rightarrow> bool \<Rightarrow> airport \<Rightarrow> IOReturn \<times> airport" where
  "airport_setMulticastMode e active a =
     (case ap_ieee80211 a of
        None \<Rightarrow> (NotReady, a)
      | Some s \<Rightarrow> (case setReceiveMulticast (e_driver e) active s of (r, t) \<Rightarrow> (r, backend s t a)))"

definition airport_setMulticastList :: "env \<Rightarrow> bool \<Rightarrow> u32 \<Rightarrow> airport \<Rightarrow> IOReturn \<times> airport" where
  "airport_setMulticastList e addrs n a =
     (if n \<noteq> 0 \<and> \<not> addrs then (BadArgument, a) else airport_setMulticastMode e (n \<noteq> 0) a)"

definition airport_setPromiscuousMode :: "bool \<Rightarrow> IOReturn" where
  "airport_setPromiscuousMode active = (if active then Unsupported else IOSuccess)"

text \<open>\<open>medium\<close>: \<open>None\<close> for null, else whether it is the automatic Wi-Fi medium; \<open>selected\<close>: the answer of \<open>setSelectedMedium\<close>.\<close>

definition airport_selectMedium :: "bool option \<Rightarrow> bool \<Rightarrow> IOReturn" where
  "airport_selectMedium medium selected =
     (if medium \<noteq> Some True then Unsupported else if selected then IOSuccess else IOError)"

datatype output_result = OutputSuccess | OutputDropped | OutputStall

text \<open>Result: the status, the packets freed here, the controller. The class frees or sends the packet it is given.\<close>

definition airport_outputPacket :: "env \<Rightarrow> bytes option \<Rightarrow> airport \<Rightarrow> (output_result \<times> nat \<times> airport) option" where
  "airport_outputPacket e pkt a =
     (case ap_ieee80211 a of
        None \<Rightarrow> Some (OutputDropped, if pkt = None then 0 else 1, a)
      | Some s \<Rightarrow>
          (case pkt of
             None \<Rightarrow> None
           | Some m \<Rightarrow> do { (ok, t) \<leftarrow> outputPacket (e_driver e) m s;
                            Some (if ok then OutputSuccess else OutputDropped, 0, backend s t a) }))"

definition airport_getHardwareAddress :: "bool \<Rightarrow> airport \<Rightarrow> IOReturn \<times> bytes option" where
  "airport_getHardwareAddress out a =
     (case ap_ieee80211 a of None \<Rightarrow> (NotReady, None) | Some s \<Rightarrow> if \<not> out then (NotReady, None) else (IOSuccess, Some (getMACAddress s)))"

section \<open>RTW88PCIDevice\<close>

datatype pci_call =
    QueueStart | QueueStop | QueueFlush | QueueService | InterruptEnable | InterruptDisable | FreePacket bytes | DumpState | TimerArm nat

record pcidev =
  pd_ieee80211 :: "RTW88IEEE80211 option"
  pd_hooks :: hooks
  pd_dma :: dma
  pd_device :: "u16 option"
  pd_enabled :: bool
  pd_txStalled :: bool
  pd_txQueue :: bool
  pd_intrSrc :: bool
  pd_iface :: bool
  pd_macAddr :: bytes
  pd_stats :: "u32 option"
  pd_calls :: "pci_call list"

definition calls :: "pci_call list \<Rightarrow> pcidev \<Rightarrow> pcidev" where
  "calls cs p = p\<lparr>pd_calls := pd_calls p @ cs\<rparr>"

definition kRTW88TxStallAvail :: u32 where "kRTW88TxStallAvail = 96"
definition kRTW88TxResumeAvail :: u32 where "kRTW88TxResumeAvail = 160"

definition chipDisplayName :: "pcidev \<Rightarrow> string" where
  "chipDisplayName p =
     (case pd_device p of
        None \<Rightarrow> ''Realtek Wireless''
      | Some d \<Rightarrow>
          if d = 0xB822 then ''RTL8822BE''
          else if d = 0xC822 \<or> d = 0xC82F then ''RTL8822CE''
          else if d = 0xC821 \<or> d = 0xB821 then ''RTL8821CE''
          else if d = 0x8821 then ''RTL8821AE''
          else if d = 0x8812 then ''RTL8812AE''
          else if d = 0x8813 then ''RTL8814AE''
          else ''Realtek Wireless'')"

definition pci_enable :: "driver \<Rightarrow> pcidev \<Rightarrow> IOReturn \<times> pcidev" where
  "pci_enable d p =
     (if pd_enabled p then (IOSuccess, p)
      else case pd_ieee80211 p of
             None \<Rightarrow> (NotReady, p)
           | Some s \<Rightarrow>
               (case powerOn d s of
                  (ret, t) \<Rightarrow>
                    let p = p\<lparr>pd_ieee80211 := Some t\<rparr>
                    in if ret \<noteq> IOSuccess then (ret, p)
                       else let p = calls (if pd_txQueue p then [QueueStart] else []) p;
                                p = calls (if pd_intrSrc p then [InterruptEnable] else []) p
                            in (IOSuccess, p\<lparr>pd_enabled := True\<rparr>)))"

definition pci_disable :: "driver \<Rightarrow> pcidev \<Rightarrow> IOReturn \<times> pcidev" where
  "pci_disable d p =
     (if \<not> pd_enabled p then (IOSuccess, p)
      else let p = p\<lparr>pd_enabled := False\<rparr>;
               p = calls (if pd_intrSrc p then [InterruptDisable] else []) p;
               p = calls (if pd_txQueue p then [QueueStop, QueueFlush] else []) p
           in (IOSuccess, p\<lparr>pd_ieee80211 := map_option (powerOff d) (pd_ieee80211 p)\<rparr>))"

text \<open>\<open>be\<close>: the driver's count of free slots of the best-effort ring.\<close>

definition tx_avail :: "(ptr \<Rightarrow> u32) \<Rightarrow> pcidev \<Rightarrow> u32" where
  "tx_avail be p = rtw88_be_tx_avail be (pd_hooks p)"

definition pci_outputPacket :: "(ptr \<Rightarrow> u32) \<Rightarrow> driver \<Rightarrow> bytes \<Rightarrow> pcidev \<Rightarrow> (output_result \<times> pcidev) option" where
  "pci_outputPacket be d m p =
     (let p = p\<lparr>pd_dma := drainPendingFree (pd_dma p)\<rparr>
      in case pd_ieee80211 p of
           None \<Rightarrow> Some (OutputDropped, calls [FreePacket m] p)
         | Some s \<Rightarrow>
             if \<not> pd_enabled p then Some (OutputDropped, calls [FreePacket m] p)
             else if tx_avail be p < kRTW88TxStallAvail then Some (OutputStall, p\<lparr>pd_txStalled := True\<rparr>)
             else do { (ok, t) \<leftarrow> outputPacket d m s;
                       Some (if ok then OutputSuccess else OutputDropped, p\<lparr>pd_ieee80211 := Some t\<rparr>) })"

text \<open>\<open>resumeTxIfStalled\<close>: the test, and what follows it.\<close>

definition may_resume :: "(ptr \<Rightarrow> u32) \<Rightarrow> pcidev \<Rightarrow> bool" where
  "may_resume be p \<longleftrightarrow> pd_txStalled p \<and> tx_avail be p \<ge> kRTW88TxResumeAvail"

definition resumeTxIfStalled :: "(ptr \<Rightarrow> u32) \<Rightarrow> pcidev \<Rightarrow> pcidev" where
  "resumeTxIfStalled be p =
     (if may_resume be p then let p = p\<lparr>pd_txStalled := False\<rparr> in calls (if pd_txQueue p then [QueueService] else []) p else p)"

text \<open>The ring is counted once here and again in \<open>resumeTxIfStalled\<close>: \<open>be\<close> and \<open>be'\<close>.\<close>

definition debugTimerFired :: "(ptr \<Rightarrow> u32) \<Rightarrow> (ptr \<Rightarrow> u32) \<Rightarrow> pcidev \<Rightarrow> pcidev" where
  "debugTimerFired be be' p =
     (let avail = tx_avail be p;
          p = (if pd_txStalled p \<and> avail \<ge> kRTW88TxResumeAvail then resumeTxIfStalled be' p else p);
          p = (if pd_txStalled p \<or> avail < kRTW88TxStallAvail then calls [DumpState] p else p)
      in calls [TimerArm 1000] p)"

text \<open>\<open>rtw88_tx_resume_trampoline\<close>: \<open>inst\<close> is the global pointer.\<close>

definition rtw88_tx_resume_trampoline :: "bool \<Rightarrow> (ptr \<Rightarrow> u32) \<Rightarrow> pcidev \<Rightarrow> pcidev" where
  "rtw88_tx_resume_trampoline inst be p = (if inst then resumeTxIfStalled be p else p)"

definition pci_getHardwareAddress :: "pcidev \<Rightarrow> IOReturn \<times> bytes option \<times> pcidev" where
  "pci_getHardwareAddress p =
     (case pd_ieee80211 p of
        None \<Rightarrow> (NotReady, None, p)
      | Some s \<Rightarrow> (IOSuccess, Some (getMACAddress s), p\<lparr>pd_macAddr := getMACAddress s\<rparr>))"

definition pci_setHardwareAddress :: "bytes \<Rightarrow> pcidev \<Rightarrow> IOReturn \<times> pcidev" where
  "pci_setHardwareAddress a p = (IOSuccess, p\<lparr>pd_macAddr := take 6 a\<rparr>)"

definition getMaxPacketSize :: "IOReturn \<times> u32" where
  "getMaxPacketSize = (IOSuccess, 2346)"

text \<open>\<open>wol\<close>: the group is the one for wake-on-LAN; \<open>sup\<close>: the answer of the superclass.\<close>

definition pci_getPacketFilters :: "bool \<Rightarrow> IOReturn \<times> u32 \<Rightarrow> IOReturn \<times> u32" where
  "pci_getPacketFilters wol super = (if wol then (IOSuccess, 0) else super)"

definition pci_injectRxFrame :: "packet \<Rightarrow> pcidev \<Rightarrow> rx_fate \<times> pcidev" where
  "pci_injectRxFrame m p =
     (let p = p\<lparr>pd_dma := drainPendingFree (pd_dma p)\<rparr>
      in if \<not> pd_iface p \<or> \<not> pd_enabled p then (RxFreed, p)
         else if pk_header m < 14 \<or> pk_header m > 4096 \<or> pk_first m < 14 \<or> pk_first m > 4096 then (RxFreed, p)
         else (RxEthernet (pk_bytes m), p\<lparr>pd_stats := map_option (\<lambda>n. n + 1) (pd_stats p)\<rparr>))"

section \<open>A stalled queue is resumed\<close>

text \<open>
  The sections of flow control, interleaved. The output queue calls \<open>outputPacket\<close> under the work-loop gate and does not call it
  while it holds a packet back; a service it is asked for runs on the gate later. \<open>resumeTxIfStalled\<close> runs without the gate on
  two threads, the interrupt bottom half and the debug timer. The ring fills and drains at any time. Both operations read the ring
  and act on what they read afterwards: an \<open>outputPacket\<close> that finds the ring low remembers the ring it read (\<open>fl_low\<close>) and ends,
  with its own result, on the device of that later moment; a resuming thread remembers the device it saw and what
  \<open>resumeTxIfStalled\<close> makes of it, writes the flag of the result, and then makes the calls of the result.
\<close>

datatype resume_pc = ResumeIdle | ResumeSeen pcidev pcidev | ResumeCleared pcidev pcidev

datatype resumer = BottomHalf | DebugTimer

record flow =
  fl_dev :: pcidev
  fl_ring :: "ptr \<Rightarrow> u32"
  fl_low :: "(ptr \<Rightarrow> u32) option"
  fl_held :: bool
  fl_service :: bool
  fl_pc :: "resumer \<Rightarrow> resume_pc"

definition flow_start :: "flow \<Rightarrow> bool" where
  "flow_start f \<longleftrightarrow> fl_low f = None \<and> \<not> fl_held f \<and> \<not> pd_txStalled (fl_dev f) \<and> pd_txQueue (fl_dev f) \<and> (\<forall>r. fl_pc f r = ResumeIdle)"

text \<open>Whether the calls made between two states of the device hold a service of the queue.\<close>

definition asks_service :: "pcidev \<Rightarrow> pcidev \<Rightarrow> bool" where
  "asks_service p q \<longleftrightarrow> QueueService \<in> set (drop (length (pd_calls p)) (pd_calls q))"

inductive flow_step :: "flow \<Rightarrow> flow \<Rightarrow> bool" where
  ring: "flow_step f (f\<lparr>fl_ring := be\<rparr>)"
| pass: "\<not> fl_held f \<Longrightarrow> fl_low f = None \<Longrightarrow> pci_outputPacket (fl_ring f) d m (fl_dev f) = Some (r, q) \<Longrightarrow> r \<noteq> OutputStall \<Longrightarrow>
    flow_step f (f\<lparr>fl_dev := q\<rparr>)"
| low: "\<not> fl_held f \<Longrightarrow> fl_low f = None \<Longrightarrow> pci_outputPacket (fl_ring f) d m (fl_dev f) = Some (OutputStall, q) \<Longrightarrow>
    flow_step f (f\<lparr>fl_low := Some (fl_ring f)\<rparr>)"
| stall: "fl_low f = Some be \<Longrightarrow> pci_outputPacket be d m (fl_dev f) = Some (OutputStall, q) \<Longrightarrow>
    flow_step f (f\<lparr>fl_low := None, fl_held := True, fl_dev := q\<rparr>)"
| see: "fl_pc f r = ResumeIdle \<Longrightarrow> may_resume (fl_ring f) (fl_dev f) \<Longrightarrow>
    flow_step f (f\<lparr>fl_pc := (fl_pc f)(r := ResumeSeen (fl_dev f) (resumeTxIfStalled (fl_ring f) (fl_dev f)))\<rparr>)"
| clear: "fl_pc f r = ResumeSeen p q \<Longrightarrow>
    flow_step f (f\<lparr>fl_pc := (fl_pc f)(r := ResumeCleared p q), fl_dev := (fl_dev f)\<lparr>pd_txStalled := pd_txStalled q\<rparr>\<rparr>)"
| ask: "fl_pc f r = ResumeCleared p q \<Longrightarrow>
    flow_step f (f\<lparr>fl_pc := (fl_pc f)(r := ResumeIdle), fl_service := (fl_service f \<or> asks_service p q)\<rparr>)"
| service: "fl_service f \<Longrightarrow> fl_low f = None \<Longrightarrow> flow_step f (f\<lparr>fl_service := False, fl_held := False\<rparr>)"

text \<open>What \<open>outputPacket\<close> answers and what it does to the flag.\<close>

lemma pci_output_facts:
  assumes "pci_outputPacket be d m p = Some (r, q)"
  shows "pd_txQueue q = pd_txQueue p" "pd_hooks q = pd_hooks p"
    "r = OutputStall \<Longrightarrow> pd_txStalled q \<and> tx_avail be p < 96"
    "r \<noteq> OutputStall \<Longrightarrow> pd_txStalled q = pd_txStalled p"
  using assms
  by (auto simp: pci_outputPacket_def Let_def calls_def tx_avail_def kRTW88TxStallAvail_def split: option.splits if_splits bind_splits)

lemma resume_facts:
  assumes "may_resume be p" "pd_txQueue p"
  shows "asks_service p (resumeTxIfStalled be p)"
  using assms by (simp add: resumeTxIfStalled_def calls_def Let_def asks_service_def)

text \<open>
  A held packet is covered: the flag is set, or a thread that cleared it has still to ask, or the service is on its way;
  and a thread that is resuming will ask.
\<close>

definition covered :: "flow \<Rightarrow> bool" where
  "covered f \<longleftrightarrow> pd_txQueue (fl_dev f) \<and> (fl_low f \<noteq> None \<longrightarrow> \<not> fl_held f) \<and>
     (fl_held f \<longrightarrow> pd_txStalled (fl_dev f) \<or> (\<exists>r p q. fl_pc f r = ResumeCleared p q) \<or> fl_service f) \<and>
     (\<forall>r p q. fl_pc f r = ResumeSeen p q \<or> fl_pc f r = ResumeCleared p q \<longrightarrow> asks_service p q)"

lemma flow_start_covered: "flow_start f \<Longrightarrow> covered f"
  by (simp add: flow_start_def covered_def)

lemma flow_step_covered: "flow_step f g \<Longrightarrow> covered f \<Longrightarrow> covered g"
proof (induction rule: flow_step.induct)
  case (pass f d m r q)
  then show ?case using pci_output_facts [OF pass(3)] by (simp add: covered_def)
next
  case (stall f be d m q)
  then show ?case using pci_output_facts [OF stall(2)] by (simp add: covered_def)
next
  case (see f r)
  have "asks_service (fl_dev f) (resumeTxIfStalled (fl_ring f) (fl_dev f))"
    using resume_facts [OF see(2)] see(3) by (simp add: covered_def)
  moreover have "fl_pc f r' = ResumeCleared p q \<Longrightarrow> r' \<noteq> r" for r' p q using see(1) by auto
  ultimately show ?case using see(3) unfolding covered_def by (simp add: fun_upd_def) metis
next
  case (clear f r p q)
  then show ?case by (auto simp: covered_def)
next
  case (ask f r p q)
  then show ?case by (auto simp: covered_def split: if_splits)
qed (auto simp: covered_def)

lemma flow_reach_covered: "flow_step\<^sup>*\<^sup>* f g \<Longrightarrow> flow_start f \<Longrightarrow> covered g"
  by (induction rule: rtranclp_induct) (auto intro: flow_start_covered flow_step_covered)

text \<open>The steps of the resuming threads and of the queue's service alone.\<close>

inductive resume_step :: "flow \<Rightarrow> flow \<Rightarrow> bool" where
  "flow_step f g \<Longrightarrow> fl_low g = fl_low f \<Longrightarrow> fl_ring g = fl_ring f \<Longrightarrow> (fl_held g \<longrightarrow> fl_held f) \<Longrightarrow> resume_step f g"

lemma service_frees: "fl_service f \<Longrightarrow> fl_low f = None \<Longrightarrow> \<exists>g. resume_step\<^sup>*\<^sup>* f g \<and> \<not> fl_held g"
  by (rule exI [of _ "f\<lparr>fl_service := False, fl_held := False\<rparr>"]) (auto intro!: r_into_rtranclp resume_step.intros service)

lemma cleared_frees:
  assumes "fl_pc f r = ResumeCleared p q" "fl_low f = None" "asks_service p q"
  shows "\<exists>g. resume_step\<^sup>*\<^sup>* f g \<and> \<not> fl_held g"
proof -
  let ?g = "f\<lparr>fl_pc := (fl_pc f)(r := ResumeIdle), fl_service := (fl_service f \<or> asks_service p q)\<rparr>"
  have "resume_step f ?g" using ask [OF assms(1)] by (auto intro!: resume_step.intros)
  moreover obtain h where "resume_step\<^sup>*\<^sup>* ?g h" "\<not> fl_held h" using service_frees [of ?g] assms(2,3) by auto
  ultimately show ?thesis by (meson converse_rtranclp_into_rtranclp)
qed

lemma seen_frees:
  assumes "fl_pc f r = ResumeSeen p q" "fl_low f = None" "asks_service p q"
  shows "\<exists>g. resume_step\<^sup>*\<^sup>* f g \<and> \<not> fl_held g"
proof -
  let ?g = "f\<lparr>fl_pc := (fl_pc f)(r := ResumeCleared p q), fl_dev := (fl_dev f)\<lparr>pd_txStalled := pd_txStalled q\<rparr>\<rparr>"
  have "resume_step f ?g" using clear [OF assms(1)] by (auto intro!: resume_step.intros)
  moreover obtain h where "resume_step\<^sup>*\<^sup>* ?g h" "\<not> fl_held h" using cleared_frees [of ?g r p q] assms(2,3) by auto
  ultimately show ?thesis by (meson converse_rtranclp_into_rtranclp)
qed

lemma stalled_frees:
  assumes "covered g" "fl_held g" "pd_txStalled (fl_dev g)" "tx_avail (fl_ring g) (fl_dev g) \<ge> 160"
  shows "\<exists>h. resume_step\<^sup>*\<^sup>* g h \<and> \<not> fl_held h"
proof -
  have low: "fl_low g = None" and will: "fl_pc g r = ResumeSeen p q \<or> fl_pc g r = ResumeCleared p q \<Longrightarrow> asks_service p q" for r p q
    using assms(1,2) by (auto simp: covered_def)
  show ?thesis
  proof (cases "fl_pc g DebugTimer")
    case ResumeIdle
    let ?q = "resumeTxIfStalled (fl_ring g) (fl_dev g)"
    let ?h = "g\<lparr>fl_pc := (fl_pc g)(DebugTimer := ResumeSeen (fl_dev g) ?q)\<rparr>"
    have may: "may_resume (fl_ring g) (fl_dev g)" using assms(3,4) by (simp add: may_resume_def kRTW88TxResumeAvail_def)
    have "resume_step g ?h" using see [OF ResumeIdle may] by (auto intro!: resume_step.intros)
    moreover have "asks_service (fl_dev g) ?q" using resume_facts [OF may] assms(1) by (simp add: covered_def)
    then obtain h where "resume_step\<^sup>*\<^sup>* ?h h" "\<not> fl_held h"
      using seen_frees [of ?h DebugTimer "fl_dev g" ?q] low by auto
    ultimately show ?thesis by (meson converse_rtranclp_into_rtranclp)
  qed (use seen_frees cleared_frees low will in blast)+
qed

text \<open>C25: Flow control loses no wake-up. However calls of \<open>outputPacket\<close>, the interrupt bottom half, the debug timer and the ring
  interleave, a packet the queue holds back after \<open>outputPacket\<close> answered with a stall is not forgotten: once the ring has the 160
  free slots again, steps of the threads that resume and of the queue alone set it free. And a packet comes to be held
  back only by an \<open>outputPacket\<close> that counted fewer than 96 free slots.\<close>

theorem stalled_queue_resumes:
  assumes "flow_start f" "flow_step\<^sup>*\<^sup>* f g"
  shows "(fl_held g \<and> tx_avail (fl_ring g) (fl_dev g) \<ge> 160 \<longrightarrow> (\<exists>h. resume_step\<^sup>*\<^sup>* g h \<and> \<not> fl_held h))
     \<and> (\<forall>h. flow_step g h \<and> \<not> fl_held g \<and> fl_held h \<longrightarrow>
          (\<exists>be. fl_low g = Some be \<and> tx_avail be (fl_dev g) < 96))"
proof (intro conjI impI allI)
  assume h: "fl_held g \<and> tx_avail (fl_ring g) (fl_dev g) \<ge> 160"
  have c: "covered g" using flow_reach_covered [OF assms(2,1)] .
  then have low: "fl_low g = None" using h by (auto simp: covered_def)
  consider "fl_service g" | r p q where "fl_pc g r = ResumeCleared p q" | "pd_txStalled (fl_dev g)" using c h by (auto simp: covered_def)
  then show "\<exists>h. resume_step\<^sup>*\<^sup>* g h \<and> \<not> fl_held h"
  proof cases
    case 1
    then show ?thesis using service_frees low by blast
  next
    case 2
    then show ?thesis using cleared_frees low c unfolding covered_def by blast
  next
    case 3
    then show ?thesis using stalled_frees c h by blast
  qed
next
  fix h
  assume "flow_step g h \<and> \<not> fl_held g \<and> fl_held h"
  then have "flow_step g h" "\<not> fl_held g" "fl_held h" by blast+
  then show "\<exists>be. fl_low g = Some be \<and> tx_avail be (fl_dev g) < 96"
    by (cases rule: flow_step.cases) (auto dest: pci_output_facts(3))
qed

text \<open>A ring of 255 free slots fills to 40, a packet is held back, and the ring drains to 200.\<close>

definition demo_flow :: flow where
  "demo_flow =
     \<lparr>fl_dev = \<lparr>pd_ieee80211 = Some stack0,
        pd_hooks = \<lparr>g_irq_handler = 0, g_irq_thread_fn = 0, g_irq_dev_id = 1, g_irq_thread_call = 0, g_vif = 0, g_tx_resume_cb = 0,
          g_hw_cbs = None, g_kext_hw = 0\<rparr>,
        pd_dma = \<lparr>sl_mem = (\<lambda>_. 0), sl_live = Map.empty, dm_list = [], dm_pending = [], dm_descs = {#}, dm_nodes = 0, dm_lock = True\<rparr>,
        pd_device = Some 0xC822, pd_enabled = True, pd_txStalled = False, pd_txQueue = True, pd_intrSrc = True, pd_iface = True,
        pd_macAddr = [], pd_stats = None, pd_calls = []\<rparr>,
      fl_ring = (\<lambda>_. 255), fl_low = None, fl_held = False, fl_service = False, fl_pc = (\<lambda>_. ResumeIdle)\<rparr>"

theorem stalled_queue_resumes_witness:
  "\<exists>g. flow_start demo_flow \<and> flow_step\<^sup>*\<^sup>* demo_flow g \<and> fl_held g \<and> pd_txStalled (fl_dev g) \<and> (\<exists>h. resume_step\<^sup>*\<^sup>* g h \<and> \<not> fl_held h)"
proof -
  let ?f1 = "demo_flow\<lparr>fl_ring := (\<lambda>_. 40)\<rparr>"
  let ?q = "(fl_dev demo_flow)\<lparr>pd_dma := drainPendingFree (pd_dma (fl_dev demo_flow)), pd_txStalled := True\<rparr>"
  let ?f2 = "?f1\<lparr>fl_low := Some (\<lambda>_. 40)\<rparr>"
  let ?f3 = "?f2\<lparr>fl_low := None, fl_held := True, fl_dev := ?q\<rparr>"
  let ?g = "?f3\<lparr>fl_ring := (\<lambda>_. 200)\<rparr>"
  have start: "flow_start demo_flow" by (simp add: flow_start_def demo_flow_def)
  have out: "pci_outputPacket (\<lambda>_. 40) demo_drv [] (fl_dev demo_flow) = Some (OutputStall, ?q)"
    by (simp add: pci_outputPacket_def demo_flow_def tx_avail_def rtw88_be_tx_avail_def kRTW88TxStallAvail_def)
  have "flow_step\<^sup>*\<^sup>* demo_flow ?f1" by (rule r_into_rtranclp, rule ring)
  moreover have "flow_step ?f1 ?f2"
    using low [of ?f1 demo_drv "[]" ?q] out by (simp add: demo_flow_def)
  ultimately have "flow_step\<^sup>*\<^sup>* demo_flow ?f2" by (rule rtranclp.rtrancl_into_rtrancl)
  moreover have "flow_step ?f2 ?f3" using stall [of ?f2 "\<lambda>_. 40" demo_drv "[]" ?q] out by simp
  ultimately have "flow_step\<^sup>*\<^sup>* demo_flow ?f3" by (rule rtranclp.rtrancl_into_rtrancl)
  then have reach: "flow_step\<^sup>*\<^sup>* demo_flow ?g" using ring by (rule rtranclp.rtrancl_into_rtrancl)
  have "fl_held ?g \<and> tx_avail (fl_ring ?g) (fl_dev ?g) \<ge> 160"
    by (simp add: demo_flow_def tx_avail_def rtw88_be_tx_avail_def)
  then have "\<exists>h. resume_step\<^sup>*\<^sup>* ?g h \<and> \<not> fl_held h" using stalled_queue_resumes [OF start reach] by blast
  moreover have "fl_held ?g" "pd_txStalled (fl_dev ?g)" by simp_all
  ultimately show ?thesis using start reach by blast
qed

end
