(* ===== verification/Lifecycle.thy ===== *)
theory Lifecycle
  imports Prelude "HOL-Library.Monad_Syntax"
begin

text \<open>
  Bring-up and teardown of the two controllers: \<open>start\<close>, \<open>failStart\<close>, \<open>teardown\<close>, \<open>stop\<close> and \<open>free\<close> of \<open>AirportRTW88\<close> and of
  \<open>RTW88PCIDevice\<close>. The state says which members are set and which objects of the system exist; using or releasing an
  object that does not exist is \<open>None\<close>, and so is a second one behind the same member. Whether an object can be had is an
  answer of the system.
\<close>

section \<open>Objects\<close>

text \<open>\<open>IntrEvent\<close>, \<open>GateEvent\<close> and \<open>TimerEvent\<close>: the source is registered with the work loop. \<open>Globals\<close>: \<open>g_pci_dev_instance\<close>
  is this controller, with the two tables behind \<open>rtw88_pci_io_ops\<close> and \<open>rtw88_dma_ops\<close>. \<open>ResumeHook\<close>: the callback of
  the interrupt path is set.\<close>

datatype obj =
    SuperRun | PciRef | DmaLock | PendingLock | Mmio | Globals | Compat | CompatDev | WorkLoop | Intr | IntrEvent
  | Ieee | IeeeRun | AwdlMgr | Netif | NetifAttached | CmdGate | GateEvent | Timer | TimerEvent | TxQueue | ResumeHook

record boot =
  bo_ptr :: "obj set"
  bo_held :: "obj set"

definition boot0 :: boot where "boot0 = \<lparr>bo_ptr = {}, bo_held = {}\<rparr>"

definition acquire :: "obj \<Rightarrow> boot \<Rightarrow> boot option" where
  "acquire x s = (if x \<in> bo_held s then None else Some \<lparr>bo_ptr = insert x (bo_ptr s), bo_held = insert x (bo_held s)\<rparr>)"

definition needs :: "obj list \<Rightarrow> boot \<Rightarrow> boot option" where
  "needs xs s = (if set xs \<subseteq> bo_held s then Some s else None)"

text \<open>Release the object and clear the member.\<close>

definition drop_obj :: "obj \<Rightarrow> boot \<Rightarrow> boot option" where
  "drop_obj x s = (if x \<in> bo_held s then Some \<lparr>bo_ptr = bo_ptr s - {x}, bo_held = bo_held s - {x}\<rparr> else None)"

text \<open>A registration with the work loop has no member of its own.\<close>

definition register :: "obj \<Rightarrow> boot \<Rightarrow> boot option" where
  "register x s = (if WorkLoop \<in> bo_held s \<and> x \<notin> bo_held s then Some (s\<lparr>bo_held := insert x (bo_held s)\<rparr>) else None)"

definition unregister :: "obj \<Rightarrow> boot \<Rightarrow> boot option" where
  "unregister x s = (if WorkLoop \<in> bo_held s \<and> x \<in> bo_held s then Some (s\<lparr>bo_held := bo_held s - {x}\<rparr>) else None)"

definition if_set :: "obj \<Rightarrow> (boot \<Rightarrow> boot option) \<Rightarrow> boot \<Rightarrow> boot option" where
  "if_set x f s = (if x \<in> bo_ptr s then f s else Some s)"

section \<open>AirportRTW88\<close>

text \<open>What the system answers on the way up.\<close>

record boot_answers =
  an_isPci :: bool
  an_workLoop :: bool
  an_super :: bool
  an_dmaLock :: bool
  an_pendingLock :: bool
  an_map :: bool
  an_compat :: bool
  an_compatDev :: bool
  an_intr :: bool
  an_addIntr :: bool
  an_create :: bool
  an_probe :: bool
  an_manager :: bool
  an_attach :: bool
  an_netifType :: bool
  an_gate :: bool
  an_medium :: bool
  an_queue :: bool
  an_timer :: bool

text \<open>\<open>super::stop\<close> may touch every member of the controller, which must not dangle.\<close>

definition super_stop :: "boot \<Rightarrow> boot option" where
  "super_stop s = (if bo_ptr s \<subseteq> bo_held s then drop_obj SuperRun s else None)"

definition stop_class :: "boot \<Rightarrow> boot option" where
  "stop_class s = do { s \<leftarrow> needs [Mmio, Compat, CompatDev, Globals] s; drop_obj IeeeRun s }"

definition airport_teardown :: "boot \<Rightarrow> boot option" where
  "airport_teardown s =
     do { s \<leftarrow> if_set Intr (needs [Intr]) s;
          s \<leftarrow> if_set AwdlMgr (drop_obj AwdlMgr) s;
          s \<leftarrow> if_set Netif (\<lambda>s. do { s \<leftarrow> if_set NetifAttached (drop_obj NetifAttached) s; drop_obj Netif s }) s;
          s \<leftarrow> if_set Ieee (\<lambda>s. do { s \<leftarrow> if_set IeeeRun stop_class s; drop_obj Ieee s }) s;
          s \<leftarrow> if_set PendingLock (needs [PendingLock]) s;
          s \<leftarrow> if_set DmaLock (needs [DmaLock]) s;
          s \<leftarrow> if_set Compat (drop_obj Compat) s;
          s \<leftarrow> if_set Intr (\<lambda>s. do { s \<leftarrow> if_set WorkLoop (unregister IntrEvent) s; drop_obj Intr s }) s;
          s \<leftarrow> if_set WorkLoop (drop_obj WorkLoop) s;
          s \<leftarrow> if_set CompatDev (drop_obj CompatDev) s;
          s \<leftarrow> if_set Mmio (drop_obj Mmio) s;
          s \<leftarrow> if_set Globals (drop_obj Globals) s;
          s \<leftarrow> if_set PciRef (drop_obj PciRef) s;
          s \<leftarrow> if_set PendingLock (drop_obj PendingLock) s;
          if_set DmaLock (drop_obj DmaLock) s }"

definition airport_stop :: "boot \<Rightarrow> boot option" where
  "airport_stop s = do { s \<leftarrow> if_set SuperRun super_stop s; airport_teardown s }"

definition failStart :: "boot \<Rightarrow> (bool \<times> boot) option" where
  "failStart s = do { s \<leftarrow> if_set SuperRun super_stop s; s \<leftarrow> airport_teardown s; Some (False, s) }"

definition setupInterrupt :: "boot_answers \<Rightarrow> boot \<Rightarrow> (bool \<times> boot) option" where
  "setupInterrupt a s =
     (if \<not> an_intr a then Some (False, s)
      else do { s \<leftarrow> acquire Intr s;
                if an_addIntr a then do { s \<leftarrow> register IntrEvent s; Some (True, s) }
                else do { s \<leftarrow> needs [WorkLoop] s; s \<leftarrow> drop_obj Intr s; Some (False, s) } })"

text \<open>\<open>super::start\<close> calls \<open>createWorkLoop\<close> of the controller.\<close>

definition createWorkLoop :: "boot_answers \<Rightarrow> boot \<Rightarrow> boot option" where
  "createWorkLoop a s = (if WorkLoop \<in> bo_ptr s then Some s else if an_workLoop a then acquire WorkLoop s else Some s)"

text \<open>The part after the class runs.\<close>

definition start_interface :: "boot_answers \<Rightarrow> boot \<Rightarrow> (bool \<times> boot) option" where
  "start_interface a s =
     (if \<not> an_manager a then failStart s
      else do { s \<leftarrow> acquire AwdlMgr s;
                if \<not> an_attach a then failStart s
                else do { s \<leftarrow> acquire Netif s; s \<leftarrow> acquire NetifAttached s;
                  if \<not> an_netifType a then do { s \<leftarrow> drop_obj NetifAttached s; s \<leftarrow> drop_obj Netif s; failStart s }
                  else do { s \<leftarrow> if_set Intr (needs [Intr]) s; Some (True, s) } } })"

definition start_class :: "boot_answers \<Rightarrow> boot \<Rightarrow> (bool \<times> boot) option" where
  "start_class a s =
     (if WorkLoop \<notin> bo_ptr s then failStart s
      else do { (ok, s) \<leftarrow> setupInterrupt a s;
                if \<not> ok then failStart s
                else if \<not> an_create a then failStart s
                else do { s \<leftarrow> acquire Ieee s;
                  if \<not> an_probe a then failStart s
                  else do { s \<leftarrow> needs [Mmio, Compat, CompatDev, Globals] s; s \<leftarrow> acquire IeeeRun s; start_interface a s } } })"

definition airport_start :: "boot_answers \<Rightarrow> boot \<Rightarrow> (bool \<times> boot) option" where
  "airport_start a s =
     (if \<not> an_isPci a then Some (False, s)
      else do { s \<leftarrow> createWorkLoop a s;
        if \<not> an_super a then Some (False, s)
        else do { s \<leftarrow> acquire SuperRun s; s \<leftarrow> acquire PciRef s;
          s \<leftarrow> (if an_dmaLock a then acquire DmaLock s else Some s);
          s \<leftarrow> (if an_pendingLock a then acquire PendingLock s else Some s);
          if \<not> an_dmaLock a \<or> \<not> an_pendingLock a then failStart s
          else if \<not> an_map a then failStart s
          else do { s \<leftarrow> acquire Mmio s; s \<leftarrow> acquire Globals s;
            if \<not> an_compat a then failStart s
            else do { s \<leftarrow> acquire Compat s;
              if \<not> an_compatDev a then failStart s
              else do { s \<leftarrow> acquire CompatDev s; start_class a s } } } } })"

section \<open>Every way down releases everything once\<close>

text \<open>The members that are set are the objects that exist, with the registration of the interrupt source.\<close>

definition boot_ok :: "boot \<Rightarrow> bool" where
  "boot_ok s \<longleftrightarrow> bo_held s = bo_ptr s \<union> (if Intr \<in> bo_ptr s then {IntrEvent} else {}) \<and> IntrEvent \<notin> bo_ptr s \<and>
     bo_ptr s \<inter> {CmdGate, GateEvent, Timer, TimerEvent, TxQueue, ResumeHook} = {} \<and>
     (Intr \<in> bo_ptr s \<longrightarrow> WorkLoop \<in> bo_ptr s) \<and> (NetifAttached \<in> bo_ptr s \<longrightarrow> Netif \<in> bo_ptr s) \<and>
     (IeeeRun \<in> bo_ptr s \<longrightarrow> {Ieee, Mmio, Compat, CompatDev, Globals} \<subseteq> bo_ptr s)"

definition without :: "obj set \<Rightarrow> boot \<Rightarrow> boot" where
  "without X s = \<lparr>bo_ptr = bo_ptr s - X, bo_held = bo_held s - X\<rparr>"

lemma without_sel [simp]: "bo_ptr (without X s) = bo_ptr s - X" "bo_held (without X s) = bo_held s - X"
  by (simp_all add: without_def)

lemma without_without [simp]: "without Y (without X s) = without (X \<union> Y) s"
  by (auto simp: without_def)

lemma drop_if_set: "(x \<in> bo_ptr s \<longleftrightarrow> x \<in> bo_held s) \<Longrightarrow> if_set x (drop_obj x) s = Some (without {x} s)"
  by (auto simp: if_set_def drop_obj_def without_def)

lemma use_if_set: "(x \<in> bo_ptr s \<Longrightarrow> x \<in> bo_held s) \<Longrightarrow> if_set x (needs [x]) s = Some s"
  by (auto simp: if_set_def needs_def)

lemma teardown_releases:
  assumes "boot_ok s"
  shows "airport_teardown s = Some (without (UNIV - {SuperRun}) s)"
proof -
  note ok = assms [unfolded boot_ok_def]
  have same: "x \<in> bo_ptr s \<longleftrightarrow> x \<in> bo_held s" if "x \<noteq> IntrEvent" for x using ok that by auto
  have netif: "if_set Netif (\<lambda>s. do { s \<leftarrow> if_set NetifAttached (drop_obj NetifAttached) s; drop_obj Netif s }) (without {AwdlMgr} s) =
      Some (without {AwdlMgr, Netif, NetifAttached} s)"
    using ok same by (auto simp: if_set_def drop_obj_def without_def)
  have ieee: "if_set Ieee (\<lambda>s. do { s \<leftarrow> if_set IeeeRun stop_class s; drop_obj Ieee s }) (without {AwdlMgr, Netif, NetifAttached} s) =
      Some (without {AwdlMgr, Netif, NetifAttached, Ieee, IeeeRun} s)"
    using ok same by (auto simp: if_set_def stop_class_def needs_def drop_obj_def without_def)
  let ?X = "{AwdlMgr, Netif, NetifAttached, Ieee, IeeeRun, Compat}"
  have intr: "if_set Intr (\<lambda>s. do { s \<leftarrow> if_set WorkLoop (unregister IntrEvent) s; drop_obj Intr s }) (without ?X s) =
      Some (without (?X \<union> {Intr, IntrEvent}) s)"
  proof (cases "Intr \<in> bo_ptr s")
    case True
    then have h: "Intr \<in> bo_held s" "IntrEvent \<in> bo_held s" "WorkLoop \<in> bo_ptr s" "WorkLoop \<in> bo_held s" "IntrEvent \<notin> bo_ptr s"
      using ok by auto
    have "bo_ptr s - ?X - {Intr} = bo_ptr s - (?X \<union> {Intr, IntrEvent})" "bo_held s - ?X - {IntrEvent} - {Intr} = bo_held s - (?X \<union> {Intr, IntrEvent})"
      using h(5) by blast+
    then show ?thesis using True h unfolding if_set_def unregister_def drop_obj_def without_def by simp
  next
    case False
    then have "Intr \<notin> bo_held s" "IntrEvent \<notin> bo_held s" "IntrEvent \<notin> bo_ptr s" using ok by auto
    then have e: "bo_ptr s - (?X \<union> {Intr, IntrEvent}) = bo_ptr s - ?X" "bo_held s - (?X \<union> {Intr, IntrEvent}) = bo_held s - ?X"
      using False by blast+
    have "without (?X \<union> {Intr, IntrEvent}) s = without ?X s" unfolding without_def e by (rule refl)
    then show ?thesis using False unfolding if_set_def by simp
  qed
  have step: "if_set x (drop_obj x) (without Y s) = Some (without (Y \<union> {x}) s)" if "x \<noteq> IntrEvent" for x Y
    using drop_if_set [of x "without Y s"] same [OF that] by simp
  have first: "if_set Intr (needs [Intr]) s = Some s" "if_set AwdlMgr (drop_obj AwdlMgr) s = Some (without {AwdlMgr} s)"
    by (rule use_if_set drop_if_set; simp add: same)+
  let ?A = "{AwdlMgr, Netif, NetifAttached, Ieee, IeeeRun}"
  have locks: "if_set PendingLock (needs [PendingLock]) (without ?A s) = Some (without ?A s)"
    "if_set DmaLock (needs [DmaLock]) (without ?A s) = Some (without ?A s)"
    by (rule use_if_set; simp add: same)+
  have compat: "if_set Compat (drop_obj Compat) (without ?A s) = Some (without ?X s)"
  proof -
    have "?A \<union> {Compat} = ?X" by auto
    then show ?thesis using step [of Compat ?A] by simp
  qed
  define Z where "Z = ?X \<union> {Intr, IntrEvent} \<union> {WorkLoop} \<union> {CompatDev} \<union> {Mmio} \<union> {Globals} \<union> {PciRef} \<union> {PendingLock} \<union> {DmaLock}"
  have tail_steps: "airport_teardown s = Some (without Z s)"
    unfolding airport_teardown_def first bind.bind_lunit netif ieee locks compat intr Z_def
    by (simp only: step bind.bind_lunit obj.distinct not_False_eq_True)
  have "x \<in> Z \<longleftrightarrow> x \<noteq> SuperRun" if "x \<in> bo_ptr s \<or> x \<in> bo_held s" for x
    using ok that by (cases x) (auto simp: Z_def split: if_splits)
  then have "without Z s = without (UNIV - {SuperRun}) s" by (auto simp: without_def)
  then show ?thesis using tail_steps by simp
qed

lemma stop_releases:
  assumes "boot_ok s"
  shows "airport_stop s = Some boot0" "failStart s = Some (False, boot0)"
proof -
  have sub: "bo_ptr s \<subseteq> bo_held s" using assms by (auto simp: boot_ok_def)
  have t: "if_set SuperRun super_stop s = Some (without {SuperRun} s)"
    using assms by (auto simp: if_set_def super_stop_def drop_obj_def without_def boot_ok_def split: if_splits)
  have "boot_ok (without {SuperRun} s)" using assms by (auto simp: boot_ok_def split: if_splits)
  note d = teardown_releases [OF this]
  have "without ({SuperRun} \<union> (UNIV - {SuperRun})) s = boot0" by (auto simp: without_def boot0_def)
  then show "airport_stop s = Some boot0" "failStart s = Some (False, boot0)"
    using d t by (simp_all add: airport_stop_def failStart_def)
qed

text \<open>A state of the way up, given by the members that are set.\<close>

definition up :: "obj set \<Rightarrow> boot" where
  "up P = \<lparr>bo_ptr = P, bo_held = P \<union> (if Intr \<in> P then {IntrEvent} else {})\<rparr>"

lemma up_sel [simp]: "bo_ptr (up P) = P"
  by (simp add: up_def)

lemma acquire_up: "x \<notin> P \<Longrightarrow> x \<noteq> Intr \<Longrightarrow> x \<noteq> IntrEvent \<Longrightarrow> acquire x (up P) = Some (up (insert x P))"
  by (auto simp: acquire_def up_def)

lemma drop_up: "x \<in> P \<Longrightarrow> x \<noteq> Intr \<Longrightarrow> x \<noteq> IntrEvent \<Longrightarrow> drop_obj x (up P) = Some (up (P - {x}))"
  by (auto simp: drop_obj_def up_def)

lemma needs_up: "set xs \<subseteq> P \<Longrightarrow> needs xs (up P) = Some (up P)"
  by (auto simp: needs_def up_def)

lemma setup_up:
  assumes "WorkLoop \<in> P" "Intr \<notin> P" "IntrEvent \<notin> P"
  shows "setupInterrupt a (up P) = Some (if an_intr a \<and> an_addIntr a then (True, up (insert Intr P)) else (False, up P))"
  using assms by (auto simp: setupInterrupt_def acquire_def register_def needs_def drop_obj_def up_def)

lemma fail_up: "boot_ok (up P) \<Longrightarrow> failStart (up P) = Some (False, boot0)"
  by (rule stop_releases)

lemma boot0_up: "boot0 = up {}"
  by (simp add: boot0_def up_def)

lemma not_Some_bind: "Some x \<bind> f = f x"
  by simp

text \<open>Everything the running controller holds.\<close>

definition running :: "obj set" where
  "running = {WorkLoop, SuperRun, PciRef, DmaLock, PendingLock, Mmio, Globals, Compat, CompatDev, Intr, Ieee, IeeeRun, AwdlMgr, Netif, NetifAttached}"

lemma up_states:
  "boot_ok (up {})" "boot_ok (up {WorkLoop})"
  "P \<subseteq> {WorkLoop, SuperRun, PciRef, DmaLock, PendingLock, Mmio, Globals, Compat, CompatDev} \<Longrightarrow> boot_ok (up P)"
  by (auto simp: boot_ok_def up_def)

lemma up_running: "boot_ok (up running)"
  by (simp add: boot_ok_def up_def running_def)

lemma interface_outcome:
  "start_interface a (up {WorkLoop, SuperRun, PciRef, DmaLock, PendingLock, Mmio, Globals, Compat, CompatDev, Intr, Ieee, IeeeRun}) =
     Some (if an_manager a \<and> an_attach a \<and> an_netifType a then (True, up running) else (False, boot0))"
proof -
  let ?P = "{WorkLoop, SuperRun, PciRef, DmaLock, PendingLock, Mmio, Globals, Compat, CompatDev, Intr, Ieee, IeeeRun}"
  have f: "failStart (up ?P) = Some (False, boot0)" "failStart (up (insert AwdlMgr ?P)) = Some (False, boot0)"
    by (rule fail_up; simp add: boot_ok_def up_def)+
  have "insert AwdlMgr ?P \<union> {Netif, NetifAttached} = running" by (auto simp: running_def)
  then have r: "insert NetifAttached (insert Netif (insert AwdlMgr ?P)) = running" by auto
  have d: "drop_obj NetifAttached (up running) = Some (up (insert Netif (insert AwdlMgr ?P)))"
    "drop_obj Netif (up (insert Netif (insert AwdlMgr ?P))) = Some (up (insert AwdlMgr ?P))"
    by (simp_all add: drop_up running_def) (rule arg_cong [of _ _ up]; auto)
  have i: "if_set Intr (needs [Intr]) (up running) = Some (up running)" by (simp add: use_if_set up_def running_def)
  show ?thesis
    unfolding start_interface_def
    using f d i by (simp add: acquire_up r)
qed

lemma class_outcome:
  assumes "P = {SuperRun, PciRef, DmaLock, PendingLock, Mmio, Globals, Compat, CompatDev}"
  shows "start_class a (up (insert WorkLoop P)) =
     Some (if an_intr a \<and> an_addIntr a \<and> an_create a \<and> an_probe a \<and> an_manager a \<and> an_attach a \<and> an_netifType a
           then (True, up running) else (False, boot0))"
    "start_class a (up P) = Some (False, boot0)"
proof -
  have f: "failStart (up P) = Some (False, boot0)" "failStart (up (insert WorkLoop P)) = Some (False, boot0)"
    "failStart (up (insert Intr (insert WorkLoop P))) = Some (False, boot0)"
    "failStart (up (insert Ieee (insert Intr (insert WorkLoop P)))) = Some (False, boot0)"
    by (rule fail_up; auto simp: boot_ok_def up_def assms)+
  have i: "start_interface a (up (insert IeeeRun (insert Ieee (insert Intr (insert WorkLoop P))))) =
     Some (if an_manager a \<and> an_attach a \<and> an_netifType a then (True, up running) else (False, boot0))"
    using interface_outcome [of a] by (simp add: assms insert_commute)
  have w: "WorkLoop \<notin> P" "Intr \<notin> insert WorkLoop P" "IntrEvent \<notin> insert WorkLoop P" "Ieee \<notin> insert Intr (insert WorkLoop P)"
    "IeeeRun \<notin> insert Ieee (insert Intr (insert WorkLoop P))"
    "set [Mmio, Compat, CompatDev, Globals] \<subseteq> insert Ieee (insert Intr (insert WorkLoop P))"
    by (simp_all add: assms)
  show "start_class a (up (insert WorkLoop P)) =
     Some (if an_intr a \<and> an_addIntr a \<and> an_create a \<and> an_probe a \<and> an_manager a \<and> an_attach a \<and> an_netifType a
           then (True, up running) else (False, boot0))"
    unfolding start_class_def using f i w by (simp add: setup_up acquire_up needs_up del: set_simps)
  show "start_class a (up P) = Some (False, boot0)" using w(1) f(1) by (simp add: start_class_def)
qed

text \<open>The start fails only at the cast or in the superclass with something left: the work loop, which \<open>free\<close> releases.\<close>

definition all_granted :: "boot_answers \<Rightarrow> bool" where
  "all_granted a \<longleftrightarrow> an_isPci a \<and> an_workLoop a \<and> an_super a \<and> an_dmaLock a \<and> an_pendingLock a \<and> an_map a \<and> an_compat a \<and>
     an_compatDev a \<and> an_intr a \<and> an_addIntr a \<and> an_create a \<and> an_probe a \<and> an_manager a \<and> an_attach a \<and> an_netifType a"

lemma start_outcome:
  "airport_start a boot0 =
     Some (if all_granted a then (True, up running)
           else if an_isPci a \<and> an_workLoop a \<and> \<not> an_super a then (False, up {WorkLoop}) else (False, boot0))"
proof -
  define W where "W = (if an_workLoop a then {WorkLoop} else {})"
  have w: "createWorkLoop a boot0 = Some (up W)"
    by (simp add: createWorkLoop_def boot0_up acquire_up W_def)
  have n: "SuperRun \<notin> W" "PciRef \<notin> insert SuperRun W" "x \<notin> W \<or> x = WorkLoop" for x by (auto simp: W_def)
  have f: "failStart (up (P \<union> W)) = Some (False, boot0)"
    if "P \<subseteq> {SuperRun, PciRef, DmaLock, PendingLock, Mmio, Globals, Compat, CompatDev}" for P
    using that by (intro fail_up up_states(3)) (auto simp: W_def)
  let ?P = "{SuperRun, PciRef, DmaLock, PendingLock, Mmio, Globals, Compat, CompatDev}"
  have c: "start_class a (up (?P \<union> W)) = Some (if an_workLoop a \<and> an_intr a \<and> an_addIntr a \<and> an_create a \<and> an_probe a \<and> an_manager a \<and>
      an_attach a \<and> an_netifType a then (True, up running) else (False, boot0))"
  proof -
    have "?P \<union> {WorkLoop} = insert WorkLoop ?P" by auto
    then show ?thesis using class_outcome [OF refl, of a] unfolding W_def by (simp del: Un_insert_left Un_insert_right)
  qed
  have acq: "acquire x (up (P \<union> W)) = Some (up (insert x P \<union> W))" if "x \<notin> P" "x \<notin> {Intr, IntrEvent, WorkLoop}" for x P
    using that n(3) [of x] by (simp add: acquire_up)
  have w0: "createWorkLoop a boot0 = Some (up ({} \<union> W))" using w by simp
  have locks: "(if an_dmaLock a then acquire DmaLock (up (P \<union> W)) else Some (up (P \<union> W))) = Some (up ((if an_dmaLock a then insert DmaLock P else P) \<union> W))"
    "(if an_pendingLock a then acquire PendingLock (up (Q \<union> W)) else Some (up (Q \<union> W))) = Some (up ((if an_pendingLock a then insert PendingLock Q else Q) \<union> W))"
    if "DmaLock \<notin> P" "PendingLock \<notin> Q" for P Q
    using that acq by simp_all
  show ?thesis
  proof (cases "an_isPci a \<and> an_super a")
    case False
    then show ?thesis using w by (auto simp: airport_start_def all_granted_def W_def boot0_up)
  next
    case True
    let ?Q = "if an_dmaLock a then insert DmaLock {PciRef, SuperRun} else {PciRef, SuperRun}"
    let ?R = "if an_pendingLock a then insert PendingLock ?Q else ?Q"
    have super: "acquire SuperRun (up ({} \<union> W)) = Some (up ({SuperRun} \<union> W))" "acquire PciRef (up ({SuperRun} \<union> W)) = Some (up ({PciRef, SuperRun} \<union> W))"
      by (rule acq; simp)+
    note l = locks [where P = "{PciRef, SuperRun}" and Q = ?Q, simplified]
    show ?thesis
    proof (cases "an_dmaLock a \<and> an_pendingLock a")
      case False
      have "failStart (up (?R \<union> W)) = Some (False, boot0)" by (rule f) auto
      then show ?thesis using True False unfolding airport_start_def all_granted_def w0 bind.bind_lunit super
        using locks [of "{PciRef, SuperRun}" ?Q] by auto
    next
      case both: True
      let ?S = "{PendingLock, DmaLock, PciRef, SuperRun}"
      have lk: "acquire DmaLock (up ({PciRef, SuperRun} \<union> W)) = Some (up ({DmaLock, PciRef, SuperRun} \<union> W))"
        "acquire PendingLock (up ({DmaLock, PciRef, SuperRun} \<union> W)) = Some (up (?S \<union> W))"
        "acquire Mmio (up (?S \<union> W)) = Some (up (insert Mmio ?S \<union> W))"
        "acquire Globals (up (insert Mmio ?S \<union> W)) = Some (up (insert Globals (insert Mmio ?S) \<union> W))"
        "acquire Compat (up (insert Globals (insert Mmio ?S) \<union> W)) = Some (up (insert Compat (insert Globals (insert Mmio ?S)) \<union> W))"
        "acquire CompatDev (up (insert Compat (insert Globals (insert Mmio ?S)) \<union> W)) =
           Some (up (insert CompatDev (insert Compat (insert Globals (insert Mmio ?S))) \<union> W))"
        by (rule acq; simp)+
      have fl: "failStart (up (?S \<union> W)) = Some (False, boot0)" "failStart (up (insert Globals (insert Mmio ?S) \<union> W)) = Some (False, boot0)"
        "failStart (up (insert Compat (insert Globals (insert Mmio ?S)) \<union> W)) = Some (False, boot0)"
        by (rule f; simp)+
      have all: "insert CompatDev (insert Compat (insert Globals (insert Mmio ?S))) = ?P" by auto
      show ?thesis
        using True both unfolding airport_start_def all_granted_def w0 bind.bind_lunit super
        by (simp only: lk fl all c bind.bind_lunit simp_thms if_True if_False split: if_split) auto
    qed
  qed
qed

text \<open>C24: A start of the Airport controller is all or nothing for every answer of the system: it succeeds exactly when everything is
  granted; a failure after the superclass started gives back every object once, in an order in which nothing is used after its
  release and the superclass never sees a dangling member; what a failure before leaves, the work loop, \<open>free\<close> releases; and
  stopping a started controller, then freeing it, leaves nothing and releases nothing twice.\<close>

theorem airport_lifecycle:
  "\<exists>ok s. airport_start a boot0 = Some (ok, s) \<and> (ok \<longleftrightarrow> all_granted a) \<and> airport_teardown s \<noteq> None \<and>
     (ok \<longrightarrow> airport_stop s = Some boot0) \<and> (\<not> ok \<longrightarrow> airport_teardown s = Some boot0) \<and> airport_teardown boot0 = Some boot0"
proof -
  have t: "airport_teardown (up P) = Some boot0" if "boot_ok (up P)" "SuperRun \<notin> P" for P
  proof -
    have "without (UNIV - {SuperRun}) (up P) = boot0" using that by (auto simp: without_def boot0_def up_def)
    then show ?thesis using teardown_releases [OF that(1)] by simp
  qed
  have z: "airport_teardown boot0 = Some boot0" "airport_teardown (up {WorkLoop}) = Some boot0"
    using t [of "{}"] t [of "{WorkLoop}"] up_states(1,2) by (simp_all add: boot0_up)
  show ?thesis
    using z teardown_releases [OF up_running] stop_releases(1) [OF up_running] by (auto simp: start_outcome)
qed

theorem airport_lifecycle_witness:
  "let a = \<lparr>an_isPci = True, an_workLoop = True, an_super = True, an_dmaLock = True, an_pendingLock = True, an_map = True,
      an_compat = True, an_compatDev = True, an_intr = True, an_addIntr = True, an_create = True, an_probe = True, an_manager = True,
      an_attach = True, an_netifType = True, an_gate = True, an_medium = True, an_queue = True, an_timer = True\<rparr>
   in (\<exists>s. airport_start a boot0 = Some (True, s) \<and> airport_stop s = Some boot0) \<and>
      (\<exists>s. airport_start (a\<lparr>an_attach := False\<rparr>) boot0 = Some (False, s) \<and> airport_teardown s = Some boot0)"
  unfolding Let_def
proof
  let ?a = "\<lparr>an_isPci = True, an_workLoop = True, an_super = True, an_dmaLock = True, an_pendingLock = True, an_map = True,
      an_compat = True, an_compatDev = True, an_intr = True, an_addIntr = True, an_create = True, an_probe = True, an_manager = True,
      an_attach = True, an_netifType = True, an_gate = True, an_medium = True, an_queue = True, an_timer = True\<rparr>"
  show "\<exists>s. airport_start ?a boot0 = Some (True, s) \<and> airport_stop s = Some boot0"
    using airport_lifecycle [of ?a] by (force simp: all_granted_def)
  show "\<exists>s. airport_start (?a\<lparr>an_attach := False\<rparr>) boot0 = Some (False, s) \<and> airport_teardown s = Some boot0"
    using airport_lifecycle [of "?a\<lparr>an_attach := False\<rparr>"] by (force simp: all_granted_def)
qed

section \<open>RTW88PCIDevice\<close>

text \<open>The locks are allocated by \<open>init\<close>; a second failure leaves the first lock to \<open>free\<close>.\<close>

definition pcidevice_init :: "boot_answers \<Rightarrow> boot \<Rightarrow> (bool \<times> boot) option" where
  "pcidevice_init a s =
     do { s \<leftarrow> (if an_dmaLock a then acquire DmaLock s else Some s);
          s \<leftarrow> (if an_pendingLock a then acquire PendingLock s else Some s);
          Some (an_dmaLock a \<and> an_pendingLock a, s) }"

definition attachDevice :: "boot_answers \<Rightarrow> boot \<Rightarrow> (bool \<times> boot) option" where
  "attachDevice a s =
     (if \<not> an_attach a then Some (False, s)
      else do { s \<leftarrow> acquire Netif s; s \<leftarrow> acquire NetifAttached s;
                if \<not> an_medium a then Some (False, s)
                else do { s \<leftarrow> (if an_queue a then acquire TxQueue s else Some s); Some (True, s) } })"

text \<open>A failure returns at once. The result of \<open>rtw88_compat_init\<close> is not looked at.\<close>

definition pcidevice_start :: "boot_answers \<Rightarrow> boot \<Rightarrow> (bool \<times> boot) option" where
  "pcidevice_start a s =
     (if \<not> an_super a \<or> \<not> an_isPci a then Some (False, s)
      else do { s \<leftarrow> acquire PciRef s;
        if \<not> an_map a then Some (False, s)
        else do { s \<leftarrow> acquire Mmio s; s \<leftarrow> acquire Globals s;
          s \<leftarrow> (if an_compat a then acquire Compat s else Some s);
          if \<not> an_compatDev a then Some (False, s)
          else do { s \<leftarrow> acquire CompatDev s;
            if \<not> an_workLoop a then Some (False, s)
            else do { s \<leftarrow> acquire WorkLoop s;
              if \<not> an_gate a then Some (False, s)
              else do { s \<leftarrow> acquire CmdGate s; s \<leftarrow> register GateEvent s;
                if \<not> an_intr a then Some (False, s)
                else do { s \<leftarrow> acquire Intr s; s \<leftarrow> register IntrEvent s;
                  if \<not> an_create a then Some (False, s)
                  else do { s \<leftarrow> acquire Ieee s;
                    if \<not> an_probe a then Some (False, s)
                    else do { s \<leftarrow> acquire IeeeRun s;
                      (ok, s) \<leftarrow> attachDevice a s;
                      if \<not> ok then Some (False, s)
                      else do { s \<leftarrow> acquire ResumeHook s; s \<leftarrow> needs [Intr] s;
                        s \<leftarrow> (if an_timer a then do { s \<leftarrow> acquire Timer s; register TimerEvent s } else Some s);
                        Some (True, s) } } } } } } } } })"

text \<open>\<open>teardown\<close>, and \<open>free\<close>. The hook, the three globals and the layer are taken down whether or not they were set up.\<close>

definition pcidevice_teardown :: "boot \<Rightarrow> boot option" where
  "pcidevice_teardown s =
     do { s \<leftarrow> if_set ResumeHook (drop_obj ResumeHook) s;
          s \<leftarrow> if_set Timer (needs [Timer]) s;
          s \<leftarrow> if_set Intr (needs [Intr]) s;
          s \<leftarrow> if_set TxQueue (needs [TxQueue]) s;
          s \<leftarrow> if_set PendingLock (needs [PendingLock]) s;
          s \<leftarrow> if_set Ieee (\<lambda>s. do { s \<leftarrow> if_set IeeeRun (\<lambda>s. do { s \<leftarrow> needs [Mmio, CompatDev, Globals] s; drop_obj IeeeRun s }) s; drop_obj Ieee s }) s;
          s \<leftarrow> if_set Compat (drop_obj Compat) s;
          s \<leftarrow> if_set Timer (\<lambda>s. do { s \<leftarrow> unregister TimerEvent s; drop_obj Timer s }) s;
          s \<leftarrow> if_set Intr (\<lambda>s. do { s \<leftarrow> unregister IntrEvent s; drop_obj Intr s }) s;
          s \<leftarrow> if_set CmdGate (\<lambda>s. do { s \<leftarrow> unregister GateEvent s; drop_obj CmdGate s }) s;
          s \<leftarrow> if_set TxQueue (drop_obj TxQueue) s;
          s \<leftarrow> if_set Netif (\<lambda>s. do { s \<leftarrow> if_set NetifAttached (drop_obj NetifAttached) s; drop_obj Netif s }) s;
          s \<leftarrow> if_set WorkLoop (drop_obj WorkLoop) s;
          s \<leftarrow> if_set Mmio (drop_obj Mmio) s;
          s \<leftarrow> if_set PciRef (drop_obj PciRef) s;
          if_set Globals (drop_obj Globals) s }"

definition pcidevice_free :: "boot \<Rightarrow> boot option" where
  "pcidevice_free s =
     do { s \<leftarrow> if_set CompatDev (drop_obj CompatDev) s;
          s \<leftarrow> if_set PendingLock (drop_obj PendingLock) s;
          if_set DmaLock (drop_obj DmaLock) s }"

text \<open>A controller that started is taken down completely by \<open>stop\<close> and \<open>free\<close>.\<close>

lemma pcidevice_stop_releases:
  assumes "pcidevice_init a boot0 = Some (True, s)" "pcidevice_start a s = Some (True, t)"
  shows "do { u \<leftarrow> pcidevice_teardown t; pcidevice_free u } = Some boot0"
proof -
  have i: "an_dmaLock a" "an_pendingLock a" and s: "s = \<lparr>bo_ptr = {PendingLock, DmaLock}, bo_held = {PendingLock, DmaLock}\<rparr>"
    using assms(1) by (auto simp: pcidevice_init_def acquire_def boot0_def split: if_splits bind_splits)
  have g: "an_super a" "an_isPci a" "an_map a" "an_compatDev a" "an_workLoop a" "an_gate a" "an_intr a" "an_create a" "an_probe a"
    "an_attach a" "an_medium a"
    using assms(2) by (auto simp: pcidevice_start_def attachDevice_def split: if_splits bind_splits)
  define T where "T = {PendingLock, DmaLock, PciRef, Mmio, Globals, CompatDev, WorkLoop, CmdGate, Intr, Ieee, IeeeRun, Netif, NetifAttached, ResumeHook}
    \<union> (if an_compat a then {Compat} else {}) \<union> (if an_queue a then {TxQueue} else {}) \<union> (if an_timer a then {Timer} else {})"
  have t: "t = \<lparr>bo_ptr = T, bo_held = T \<union> {GateEvent, IntrEvent} \<union> (if an_timer a then {TimerEvent} else {})\<rparr>"
  proof -
    have "\<exists>p h. pcidevice_start a s = Some (True, \<lparr>bo_ptr = p, bo_held = h\<rparr>) \<and> p = T \<and> h = T \<union> {GateEvent, IntrEvent} \<union> (if an_timer a then {TimerEvent} else {})"
      using g by (cases "an_compat a"; cases "an_queue a"; cases "an_timer a")
        (simp_all add: s pcidevice_start_def attachDevice_def acquire_def register_def needs_def T_def insert_commute)
    then show ?thesis using assms(2) by simp
  qed
  show ?thesis
    unfolding t T_def
    by (cases "an_compat a"; cases "an_queue a"; cases "an_timer a")
       (simp_all add: needs_def pcidevice_teardown_def pcidevice_free_def if_set_def drop_obj_def unregister_def insert_Diff_if boot0_def)
qed

text \<open>A start that fails after the registers were mapped keeps what it took: the system frees a controller that did not start
  without stopping it, and \<open>free\<close> leaves the mapping, the reference to the device and the global pointer to the freed
  controller.\<close>

lemma pcidevice_failed_start_leaks:
  assumes "pcidevice_init a boot0 = Some (True, s)" "an_super a" "an_isPci a" "an_map a" "\<not> an_compatDev a \<or> \<not> an_workLoop a"
  shows "\<exists>t u. pcidevice_start a s = Some (False, t) \<and> pcidevice_free t = Some u \<and> {Mmio, PciRef, Globals} \<subseteq> bo_held u"
proof -
  have s: "s = \<lparr>bo_ptr = {PendingLock, DmaLock}, bo_held = {PendingLock, DmaLock}\<rparr>"
    using assms(1) by (auto simp: pcidevice_init_def acquire_def boot0_def split: if_splits bind_splits)
  show ?thesis
    using assms(2-5)
    by (cases "an_compatDev a"; cases "an_compat a")
       (simp_all add: s pcidevice_start_def acquire_def pcidevice_free_def if_set_def drop_obj_def)
qed

end
