(* ===== verification/PciConfig.thy ===== *)
theory PciConfig
  imports Bitops
begin

text \<open>
  The configuration space of the device: the accessors of the controllers, the shims of \<open>RTW88HwOps.cpp\<close> (repeated in
  \<open>RTW88PCIDevice.cpp\<close>) and the functions of \<open>linux/pci.h\<close> the driver calls. The device itself answers through \<open>IOPCIDevice\<close>,
  whose calls are a parameter; its offsets have eight bits.
\<close>

unbundle bit_operations_syntax

record 'c pci_service =
  cf_read8 :: "u8 \<Rightarrow> 'c \<Rightarrow> u8"
  cf_read16 :: "u8 \<Rightarrow> 'c \<Rightarrow> u16"
  cf_read32 :: "u8 \<Rightarrow> 'c \<Rightarrow> u32"
  cf_write8 :: "u8 \<Rightarrow> u8 \<Rightarrow> 'c \<Rightarrow> 'c"
  cf_write16 :: "u8 \<Rightarrow> u16 \<Rightarrow> 'c \<Rightarrow> 'c"
  cf_write32 :: "u8 \<Rightarrow> u32 \<Rightarrow> 'c \<Rightarrow> 'c"
  cf_find :: "u8 \<Rightarrow> 'c \<Rightarrow> u32 \<times> u8"

section \<open>The controllers\<close>

definition pciReadByte :: "'c pci_service \<Rightarrow> int \<Rightarrow> 'c \<Rightarrow> u8" where
  "pciReadByte v off c = cf_read8 v (of_int off) c"

definition pciReadWord :: "'c pci_service \<Rightarrow> int \<Rightarrow> 'c \<Rightarrow> u16" where
  "pciReadWord v off c = cf_read16 v (of_int off) c"

definition pciReadDword :: "'c pci_service \<Rightarrow> int \<Rightarrow> 'c \<Rightarrow> u32" where
  "pciReadDword v off c = cf_read32 v (of_int off) c"

definition pciWriteByte :: "'c pci_service \<Rightarrow> int \<Rightarrow> u8 \<Rightarrow> 'c \<Rightarrow> 'c" where
  "pciWriteByte v off x c = cf_write8 v (of_int off) x c"

definition pciWriteWord :: "'c pci_service \<Rightarrow> int \<Rightarrow> u16 \<Rightarrow> 'c \<Rightarrow> 'c" where
  "pciWriteWord v off x c = cf_write16 v (of_int off) x c"

definition pciWriteDword :: "'c pci_service \<Rightarrow> int \<Rightarrow> u32 \<Rightarrow> 'c \<Rightarrow> 'c" where
  "pciWriteDword v off x c = cf_write32 v (of_int off) x c"

text \<open>\<open>dev\<close>: \<open>_pciDev\<close> is set.\<close>

definition pciFindCapability :: "'c pci_service \<Rightarrow> bool \<Rightarrow> int \<Rightarrow> 'c \<Rightarrow> int" where
  "pciFindCapability v dev cap c =
     (if \<not> dev \<or> cap < 0 \<or> cap > 0xff then 0
      else case cf_find v (of_int cap) c of (val, off) \<Rightarrow> if val \<noteq> 0 then uint off else 0)"

section \<open>The shims\<close>

text \<open>\<open>inst\<close>: \<open>g_pci_dev_instance\<close> is set. Result: the status and the value read.\<close>

definition compat_pci_read_config_byte :: "'c pci_service \<Rightarrow> bool \<Rightarrow> int \<Rightarrow> 'c \<Rightarrow> int \<times> u8" where
  "compat_pci_read_config_byte v inst off c = (if \<not> inst then (- 1, 0xff) else (0, pciReadByte v off c))"

definition compat_pci_read_config_word :: "'c pci_service \<Rightarrow> bool \<Rightarrow> int \<Rightarrow> 'c \<Rightarrow> int \<times> u16" where
  "compat_pci_read_config_word v inst off c = (if \<not> inst then (- 1, 0xffff) else (0, pciReadWord v off c))"

definition compat_pci_read_config_dword :: "'c pci_service \<Rightarrow> bool \<Rightarrow> int \<Rightarrow> 'c \<Rightarrow> int \<times> u32" where
  "compat_pci_read_config_dword v inst off c = (if \<not> inst then (- 1, 0xffffffff) else (0, pciReadDword v off c))"

definition compat_pci_write_config_byte :: "'c pci_service \<Rightarrow> bool \<Rightarrow> int \<Rightarrow> u8 \<Rightarrow> 'c \<Rightarrow> int \<times> 'c" where
  "compat_pci_write_config_byte v inst off x c = (if \<not> inst then (- 1, c) else (0, pciWriteByte v off x c))"

definition compat_pci_write_config_word :: "'c pci_service \<Rightarrow> bool \<Rightarrow> int \<Rightarrow> u16 \<Rightarrow> 'c \<Rightarrow> int \<times> 'c" where
  "compat_pci_write_config_word v inst off x c = (if \<not> inst then (- 1, c) else (0, pciWriteWord v off x c))"

definition compat_pci_write_config_dword :: "'c pci_service \<Rightarrow> bool \<Rightarrow> int \<Rightarrow> u32 \<Rightarrow> 'c \<Rightarrow> int \<times> 'c" where
  "compat_pci_write_config_dword v inst off x c = (if \<not> inst then (- 1, c) else (0, pciWriteDword v off x c))"

definition compat_pci_find_capability :: "'c pci_service \<Rightarrow> bool \<Rightarrow> bool \<Rightarrow> int \<Rightarrow> 'c \<Rightarrow> int" where
  "compat_pci_find_capability v inst dev cap c = (if \<not> inst then 0 else pciFindCapability v dev cap c)"

section \<open>The functions of the header\<close>

text \<open>\<open>ops\<close>: \<open>rtw88_pci_io_ops\<close> is set.\<close>

definition pci_read_config_byte :: "'c pci_service \<Rightarrow> bool \<Rightarrow> bool \<Rightarrow> int \<Rightarrow> 'c \<Rightarrow> int \<times> u8" where
  "pci_read_config_byte v ops inst off c = (if ops then compat_pci_read_config_byte v inst off c else (- 1, 0xff))"

definition pci_read_config_word :: "'c pci_service \<Rightarrow> bool \<Rightarrow> bool \<Rightarrow> int \<Rightarrow> 'c \<Rightarrow> int \<times> u16" where
  "pci_read_config_word v ops inst off c = (if ops then compat_pci_read_config_word v inst off c else (- 1, 0xffff))"

definition pci_read_config_dword :: "'c pci_service \<Rightarrow> bool \<Rightarrow> bool \<Rightarrow> int \<Rightarrow> 'c \<Rightarrow> int \<times> u32" where
  "pci_read_config_dword v ops inst off c = (if ops then compat_pci_read_config_dword v inst off c else (- 1, 0xffffffff))"

definition pci_write_config_byte :: "'c pci_service \<Rightarrow> bool \<Rightarrow> bool \<Rightarrow> int \<Rightarrow> u8 \<Rightarrow> 'c \<Rightarrow> int \<times> 'c" where
  "pci_write_config_byte v ops inst off x c = (if ops then compat_pci_write_config_byte v inst off x c else (- 1, c))"

definition pci_write_config_word :: "'c pci_service \<Rightarrow> bool \<Rightarrow> bool \<Rightarrow> int \<Rightarrow> u16 \<Rightarrow> 'c \<Rightarrow> int \<times> 'c" where
  "pci_write_config_word v ops inst off x c = (if ops then compat_pci_write_config_word v inst off x c else (- 1, c))"

definition pci_write_config_dword :: "'c pci_service \<Rightarrow> bool \<Rightarrow> bool \<Rightarrow> int \<Rightarrow> u32 \<Rightarrow> 'c \<Rightarrow> int \<times> 'c" where
  "pci_write_config_dword v ops inst off x c = (if ops then compat_pci_write_config_dword v inst off x c else (- 1, c))"

definition pcie_capability_set_word :: "'c pci_service \<Rightarrow> bool \<Rightarrow> bool \<Rightarrow> int \<Rightarrow> u16 \<Rightarrow> 'c \<Rightarrow> int \<times> 'c" where
  "pcie_capability_set_word v ops inst off bits c =
     (let (ret, x) = pci_read_config_word v ops inst (0x100 + off) c
      in if ret \<noteq> 0 then (ret, c) else pci_write_config_word v ops inst (0x100 + off) (x OR bits) c)"

definition pcie_capability_clear_word :: "'c pci_service \<Rightarrow> bool \<Rightarrow> bool \<Rightarrow> int \<Rightarrow> u16 \<Rightarrow> 'c \<Rightarrow> int \<times> 'c" where
  "pcie_capability_clear_word v ops inst off bits c =
     (let (ret, x) = pci_read_config_word v ops inst (0x100 + off) c
      in if ret \<noteq> 0 then (ret, c) else pci_write_config_word v ops inst (0x100 + off) (x AND NOT bits) c)"

definition pcie_capability_read_word :: "'c pci_service \<Rightarrow> bool \<Rightarrow> bool \<Rightarrow> int \<Rightarrow> 'c \<Rightarrow> int \<times> u16" where
  "pcie_capability_read_word v ops inst off c = pci_read_config_word v ops inst off c"

definition pci_find_capability :: "'c pci_service \<Rightarrow> bool \<Rightarrow> bool \<Rightarrow> bool \<Rightarrow> int \<Rightarrow> 'c \<Rightarrow> int" where
  "pci_find_capability v ops inst dev cap c = (if ops then compat_pci_find_capability v inst dev cap c else 0)"

section \<open>Where the capability accessors land\<close>

text \<open>
  The offset \<open>0x100 + where\<close> of \<open>pcie_capability_set_word\<close> and \<open>_clear_word\<close> has nine bits and \<open>configRead16\<close> takes eight:
  the access falls on the register \<open>where\<close> of the plain header, not on the capability, whose place \<open>pci_find_capability\<close>
  would give. For \<open>PCI_EXP_LNKCTL\<close>, 0x10, that is the first base address register.
\<close>

lemma capability_offset_wraps: "(of_int (0x100 + off) :: u8) = of_int off"
proof -
  have "(of_int 0x100 :: u8) = 0" by simp
  then show ?thesis by (simp only: of_int_add add_0)
qed

lemma capability_hits_header:
  "pcie_capability_set_word v True True off bits c = (0, cf_write16 v (of_int off) (cf_read16 v (of_int off) c OR bits) c)"
  "pcie_capability_clear_word v True True off bits c = (0, cf_write16 v (of_int off) (cf_read16 v (of_int off) c AND NOT bits) c)"
  unfolding pcie_capability_set_word_def pcie_capability_clear_word_def pci_read_config_word_def pci_write_config_word_def
    compat_pci_read_config_word_def compat_pci_write_config_word_def pciReadWord_def pciWriteWord_def capability_offset_wraps
  by simp_all

text \<open>Without a controller every access fails in the way a missing device does, and changes nothing.\<close>

lemma missing_device:
  assumes "\<not> (ops \<and> inst)"
  shows "pci_read_config_byte v ops inst off c = (- 1, 0xff)" "pci_read_config_word v ops inst off c = (- 1, 0xffff)"
    "pci_read_config_dword v ops inst off c = (- 1, 0xffffffff)" "pci_write_config_byte v ops inst off x8 c = (- 1, c)"
    "pci_write_config_word v ops inst off x16 c = (- 1, c)" "pci_write_config_dword v ops inst off x32 c = (- 1, c)"
    "pcie_capability_set_word v ops inst off x16 c = (- 1, c)" "pcie_capability_clear_word v ops inst off x16 c = (- 1, c)"
    "pci_find_capability v ops inst dev cap c = 0"
  using assms
  by (auto simp: pci_read_config_byte_def pci_read_config_word_def pci_read_config_dword_def pci_write_config_byte_def
      pci_write_config_word_def pci_write_config_dword_def compat_pci_read_config_byte_def compat_pci_read_config_word_def
      compat_pci_read_config_dword_def compat_pci_write_config_byte_def compat_pci_write_config_word_def compat_pci_write_config_dword_def
      pcie_capability_set_word_def pcie_capability_clear_word_def pci_find_capability_def compat_pci_find_capability_def)

end
