(* ===== verification/UserClient.thy ===== *)
theory UserClient
  imports Ctl LogRing Network AirportProps Service
begin

text \<open>
  The user client \<open>RTW88UserClient.cpp\<close>, through which \<open>rtw88ctl\<close> reaches the class: its dispatch table and selectors, and the
  tool's list of networks from end to end.
\<close>

section \<open>Arguments\<close>

text \<open>
  The members of \<open>IOExternalMethodArguments\<close> the client uses; \<open>None\<close> is a null pointer. What a selector writes into the
  output structure is kept by kind: bytes, the state, or the text of the log.
\<close>

record uc_args =
  ua_scalarInput :: "u64 list"
  ua_structureInput :: "bytes option"
  ua_scalarOutput :: "u64 list option"
  ua_structureOutput :: "bytes option"
  ua_structureOutputSize :: nat
  ua_state :: "Mlme.RTW88StateResult option"
  ua_log :: string

record user_client =
  uc_provider :: "pcidev option"
  uc_logRing :: log_ring
  uc_logLevel :: int

datatype status = Status IOReturn | Offline

type_synonym uc_result = "(status \<times> uc_args \<times> user_client) option"

definition kIOUCVariableStructureSize :: u32 where "kIOUCVariableStructureSize = 0xffffffff"

definition sizeof_ConnectArgs :: nat where "sizeof_ConnectArgs = 97"
definition sizeof_StateResult :: nat where "sizeof_StateResult = 108"

section \<open>Selectors\<close>

text \<open>\<open>_provider->get80211 ()\<close>.\<close>

definition get80211 :: "user_client \<Rightarrow> RTW88IEEE80211 option" where
  "get80211 u = Option.bind (uc_provider u) pd_ieee80211"

definition with_class :: "RTW88IEEE80211 \<Rightarrow> user_client \<Rightarrow> user_client" where
  "with_class s u = u\<lparr>uc_provider := map_option (\<lambda>p. p\<lparr>pd_ieee80211 := Some s\<rparr>) (uc_provider u)\<rparr>"

text \<open>A command of the class, offline without one.\<close>

definition command :: "(RTW88IEEE80211 \<Rightarrow> (IOReturn \<times> RTW88IEEE80211) option) \<Rightarrow> uc_args \<Rightarrow> user_client \<Rightarrow> uc_result" where
  "command f args u =
     (case get80211 u of
        None \<Rightarrow> Some (Offline, args, u)
      | Some s \<Rightarrow> do { (r, s) \<leftarrow> f s; Some (Status r, args, with_class s u) })"

definition sScan :: "env \<Rightarrow> uc_args \<Rightarrow> user_client \<Rightarrow> uc_result" where
  "sScan e args u = command (\<lambda>s. Some (cmdScan (e_driver e) s)) args u"

text \<open>
  The structure is a name of 33 bytes and a password of 64, two C strings in place. \<open>cmdConnect\<close> reads at most 33 bytes of the
  name; only when it accepts does it copy the password, up to the zero that ends it, which may lie past the structure.
\<close>

definition sConnect :: "env \<Rightarrow> uc_args \<Rightarrow> user_client \<Rightarrow> uc_result" where
  "sConnect e args u =
     (if get80211 u = None then Some (Offline, args, u)
      else case ua_structureInput args of
        None \<Rightarrow> Some (Status BadArgument, args, u)
      | Some i \<Rightarrow>
          if length i < sizeof_ConnectArgs then Some (Status BadArgument, args, u)
          else command (\<lambda>s.
            do { (r, s) \<leftarrow> connect_whole e \<lparr>connect_args.ca_ssid = Some (cstr (take 33 i)), ca_password = Some (cstr (drop 33 i)),
                                          ca_pmk = None, ca_bssid = None, ca_external = False\<rparr> s;
                 if r = IOSuccess \<and> 0 \<notin> set (drop 33 i) then None else Some (r, s) }) args u)"

definition sDisconnect :: "env \<Rightarrow> uc_args \<Rightarrow> user_client \<Rightarrow> uc_result" where
  "sDisconnect e args u = command (\<lambda>s. Some (disconnect_whole e s)) args u"

definition sPowerOn :: "env \<Rightarrow> uc_args \<Rightarrow> user_client \<Rightarrow> uc_result" where
  "sPowerOn e args u = command (\<lambda>s. Some (cmdPowerOn (e_driver e) s)) args u"

definition sPowerOff :: "env \<Rightarrow> uc_args \<Rightarrow> user_client \<Rightarrow> uc_result" where
  "sPowerOff e args u = command (powerOff_whole e) args u"

definition uninitialized_state :: "Mlme.RTW88StateResult" where
  "uninitialized_state = \<lparr>Mlme.RTW88StateResult.sr_state = 0, sr_bssid = replicate 6 0, sr_ssid = replicate 33 0, sr_rssi = 0, sr_channel = 0,
     sr_mac_addr = replicate 6 0, sr_fw_version = Some 0, sr_fw_sub_version = Some 0, sr_chip_name = Some ''Uninitialized'',
     sr_rx_byte_count = Some 0, sr_tx_byte_count = Some 0, sr_scan_offload_supported = False, sr_powered = False\<rparr>"

definition sGetState :: "env \<Rightarrow> uc_args \<Rightarrow> user_client \<Rightarrow> uc_result" where
  "sGetState e args u =
     (if ua_structureOutput args = None \<or> ua_structureOutputSize args < sizeof_StateResult then Some (Status BadArgument, args, u)
      else case get80211 u of
        None \<Rightarrow> Some (Status IOSuccess, args\<lparr>ua_state := Some uninitialized_state, ua_structureOutputSize := sizeof_StateResult\<rparr>, u)
      | Some s \<Rightarrow>
          (case cmdGetState (e_driver e) (e_dev e) True s of
             (ret, out) \<Rightarrow>
               if ret \<noteq> IOSuccess then Some (Status ret, args, u)
               else Some (Status IOSuccess, args\<lparr>ua_state := out, ua_structureOutputSize := sizeof_StateResult\<rparr>, u)))"

definition sGetBSSList :: "uc_args \<Rightarrow> user_client \<Rightarrow> uc_result" where
  "sGetBSSList args u =
     (case ua_structureOutput args of
        None \<Rightarrow> Some (Status BadArgument, args, u)
      | Some bs \<Rightarrow>
          (case get80211 u of
             None \<Rightarrow> Some (Status IOSuccess, args\<lparr>ua_structureOutputSize := 0\<rparr>, u)
           | Some s \<Rightarrow>
               do { (ret, out, n) \<leftarrow> cmdGetBSSList (Some bs) (ua_structureOutputSize args) (k_scan s);
                    Some (Status ret, args\<lparr>ua_structureOutput := Some out, ua_structureOutputSize := n\<rparr>, u) }))"

definition sGetRSSI :: "uc_args \<Rightarrow> user_client \<Rightarrow> uc_result" where
  "sGetRSSI args u =
     (case ua_scalarOutput args of
        None \<Rightarrow> Some (Status BadArgument, args, u)
      | Some out \<Rightarrow>
          if length out < 1 then Some (Status BadArgument, args, u)
          else case get80211 u of
            None \<Rightarrow> Some (Status IOSuccess, args\<lparr>ua_scalarOutput := Some (out[0 := word_of_int (- 100)])\<rparr>, u)
          | Some s \<Rightarrow>
              (case cmdGetRSSI s of (ret, rssi) \<Rightarrow>
                 Some (Status ret, args\<lparr>ua_scalarOutput := Some (out[0 := word_of_int rssi])\<rparr>, u)))"

definition sSetDebug :: "uc_args \<Rightarrow> user_client \<Rightarrow> uc_result" where
  "sSetDebug args u =
     Some (Status IOSuccess, args,
           if length (ua_scalarInput args) \<ge> 1 then u\<lparr>uc_logLevel := sint (ucast (ua_scalarInput args ! 0) :: u32)\<rparr> else u)"

definition sGetLog :: "uc_args \<Rightarrow> user_client \<Rightarrow> uc_result" where
  "sGetLog args u =
     (if ua_structureOutput args = None \<or> ua_structureOutputSize args = 0 then Some (Status BadArgument, args, u)
      else case rtw88_read_log True (ua_structureOutputSize args) (uc_logRing u) of
        (out, r) \<Rightarrow> Some (Status IOSuccess, args\<lparr>ua_log := out, ua_structureOutputSize := length out\<rparr>, u\<lparr>uc_logRing := r\<rparr>))"

section \<open>Dispatch\<close>

record uc_method =
  me_action :: selector
  me_scalarInput :: u32
  me_structureInput :: u32
  me_scalarOutput :: u32
  me_structureOutput :: u32

definition sMethods :: "uc_method list" where
  "sMethods =
     [\<lparr>me_action = kRTW88Scan, me_scalarInput = 0, me_structureInput = 0, me_scalarOutput = 0, me_structureOutput = 0\<rparr>,
      \<lparr>me_action = kRTW88Connect, me_scalarInput = 0, me_structureInput = of_nat sizeof_ConnectArgs, me_scalarOutput = 0, me_structureOutput = 0\<rparr>,
      \<lparr>me_action = kRTW88Disconnect, me_scalarInput = 0, me_structureInput = 0, me_scalarOutput = 0, me_structureOutput = 0\<rparr>,
      \<lparr>me_action = kRTW88GetState, me_scalarInput = 0, me_structureInput = 0, me_scalarOutput = 0, me_structureOutput = of_nat sizeof_StateResult\<rparr>,
      \<lparr>me_action = kRTW88GetBSSList, me_scalarInput = 0, me_structureInput = 0, me_scalarOutput = 0, me_structureOutput = kIOUCVariableStructureSize\<rparr>,
      \<lparr>me_action = kRTW88GetRSSI, me_scalarInput = 0, me_structureInput = 0, me_scalarOutput = 1, me_structureOutput = 0\<rparr>,
      \<lparr>me_action = kRTW88SetDebug, me_scalarInput = 1, me_structureInput = 0, me_scalarOutput = 0, me_structureOutput = 0\<rparr>,
      \<lparr>me_action = kRTW88GetLog, me_scalarInput = 0, me_structureInput = 0, me_scalarOutput = 0, me_structureOutput = kIOUCVariableStructureSize\<rparr>,
      \<lparr>me_action = kRTW88PowerOn, me_scalarInput = 0, me_structureInput = 0, me_scalarOutput = 0, me_structureOutput = 0\<rparr>,
      \<lparr>me_action = kRTW88PowerOff, me_scalarInput = 0, me_structureInput = 0, me_scalarOutput = 0, me_structureOutput = 0\<rparr>]"

definition run_selector :: "env \<Rightarrow> selector \<Rightarrow> uc_args \<Rightarrow> user_client \<Rightarrow> uc_result" where
  "run_selector e sel args u =
     (case sel of
        kRTW88Scan \<Rightarrow> sScan e args u
      | kRTW88Connect \<Rightarrow> sConnect e args u
      | kRTW88Disconnect \<Rightarrow> sDisconnect e args u
      | kRTW88GetState \<Rightarrow> sGetState e args u
      | kRTW88GetBSSList \<Rightarrow> sGetBSSList args u
      | kRTW88GetRSSI \<Rightarrow> sGetRSSI args u
      | kRTW88SetDebug \<Rightarrow> sSetDebug args u
      | kRTW88GetLog \<Rightarrow> sGetLog args u
      | kRTW88PowerOn \<Rightarrow> sPowerOn e args u
      | kRTW88PowerOff \<Rightarrow> sPowerOff e args u)"

text \<open>
  \<open>super\<close> is \<open>IOUserClient::externalMethod\<close>, given the method of the table, the arguments and the action to call. As documented it
  compares the four sizes with the table, where \<open>kIOUCVariableStructureSize\<close> allows any, and calls the action or refuses.
\<close>

type_synonym super_method = "uc_method \<Rightarrow> uc_args \<Rightarrow> (uc_args \<Rightarrow> user_client \<Rightarrow> uc_result) \<Rightarrow> user_client \<Rightarrow> uc_result"

definition externalMethod :: "super_method \<Rightarrow> env \<Rightarrow> u32 \<Rightarrow> uc_args \<Rightarrow> user_client \<Rightarrow> uc_result" where
  "externalMethod super e sel args u =
     (if sel \<ge> 10 then Some (Status Unsupported, args, u)
      else let d = sMethods ! unat sel in super d args (run_selector e (me_action d)) u)"

definition size_ok :: "u32 \<Rightarrow> nat \<Rightarrow> bool" where
  "size_ok want n \<longleftrightarrow> want = kIOUCVariableStructureSize \<or> unat want = n"

definition args_match :: "uc_method \<Rightarrow> uc_args \<Rightarrow> bool" where
  "args_match d args \<longleftrightarrow> size_ok (me_scalarInput d) (length (ua_scalarInput args)) \<and>
     size_ok (me_structureInput d) (case ua_structureInput args of None \<Rightarrow> 0 | Some i \<Rightarrow> length i) \<and>
     size_ok (me_scalarOutput d) (case ua_scalarOutput args of None \<Rightarrow> 0 | Some i \<Rightarrow> length i) \<and>
     size_ok (me_structureOutput d) (ua_structureOutputSize args)"

definition checked_super :: super_method where
  "checked_super d args act u = (if args_match d args then act args u else Some (Status BadArgument, args, u))"

section \<open>No selector faults\<close>

definition client_ok :: "user_client \<Rightarrow> bool" where
  "client_ok u \<longleftrightarrow> (\<forall>s. get80211 u = Some s \<longrightarrow> mlme_inv s) \<and> log_wf (uc_logRing u)"

text \<open>The output buffer has the size announced, and a password ends before the arguments do.\<close>

definition uc_args_ok :: "uc_args \<Rightarrow> bool" where
  "uc_args_ok a \<longleftrightarrow> (\<forall>b. ua_structureOutput a = Some b \<longrightarrow> length b = ua_structureOutputSize a) \<and>
     (\<forall>i. ua_structureInput a = Some i \<longrightarrow> 0 \<in> set (drop 33 i))"

text \<open>The buffer keeps its length, and what is handed back is no longer than what the caller gave.\<close>

definition out_ok :: "uc_args \<Rightarrow> uc_args \<Rightarrow> bool" where
  "out_ok a a' \<longleftrightarrow> map_option length (ua_structureOutput a') = map_option length (ua_structureOutput a) \<and>
     map_option length (ua_scalarOutput a') = map_option length (ua_scalarOutput a) \<and>
     ua_structureOutputSize a' \<le> ua_structureOutputSize a"

definition uc_safe :: "uc_args \<Rightarrow> uc_result \<Rightarrow> bool" where
  "uc_safe a x \<longleftrightarrow> (\<exists>r a' u'. x = Some (r, a', u') \<and> client_ok u' \<and> out_ok a a')"

lemma out_ok_refl [simp]: "out_ok a a"
  by (simp add: out_ok_def)

lemma uc_safe_Some [simp]: "uc_safe a (Some (r, a', u)) \<longleftrightarrow> client_ok u \<and> out_ok a a'"
  by (simp add: uc_safe_def)

lemma get_with_class: "get80211 u = Some s \<Longrightarrow> get80211 (with_class t u) = Some t"
  by (auto simp: get80211_def with_class_def bind_eq_Some_iff)

lemma client_with_class: "client_ok u \<Longrightarrow> get80211 u = Some s \<Longrightarrow> mlme_inv t \<Longrightarrow> client_ok (with_class t u)"
  by (simp add: client_ok_def get_with_class) (simp add: with_class_def)

lemma command_safe:
  assumes "client_ok u" and f: "\<And>s. mlme_inv s \<Longrightarrow> \<exists>r t. f s = Some (r, t) \<and> mlme_inv t"
  shows "uc_safe a (command f a u)"
proof (cases "get80211 u")
  case None
  then show ?thesis using assms(1) by (simp add: command_def)
next
  case (Some s)
  then have "mlme_inv s" using assms(1) by (simp add: client_ok_def)
  then obtain r t where "f s = Some (r, t)" "mlme_inv t" using f by blast
  then show ?thesis using Some assms(1) client_with_class [OF assms(1) Some] by (simp add: command_def)
qed

lemma connect_safe:
  assumes "env_ok e" "client_ok u" "uc_args_ok a"
  shows "uc_safe a (sConnect e a u)"
proof (cases "ua_structureInput a")
  case (Some i)
  then have z: "0 \<in> set (drop 33 i)" using assms(3) by (simp add: uc_args_ok_def)
  let ?c = "\<lparr>connect_args.ca_ssid = Some (cstr (take 33 i)), ca_password = Some (cstr (drop 33 i)), ca_pmk = None, ca_bssid = None,
    ca_external = False\<rparr>"
  have "\<exists>r t. connect_whole e ?c s = Some (r, t) \<and> mlme_inv t" if "mlme_inv s" for s
    by (rule connect_whole_inv [OF assms(1) that]) simp
  then show ?thesis using assms(2) unfolding sConnect_def Some by (auto intro!: command_safe [OF assms(2)] simp: z)
qed (use assms(2) in \<open>simp add: sConnect_def\<close>)

lemma bss_list_len:
  assumes "nets_ok s" "length bs = n"
  shows "\<exists>out m. cmdGetBSSList (Some bs) n (k_scan s) = Some (IOSuccess, out, m) \<and> length out = n \<and> m \<le> n"
proof (cases "min n 4095 < 4")
  case True
  then show ?thesis using assms(2) by (auto simp: cmdGetBSSList_def Let_def)
next
  case False
  have ok: "list_all bss_ok (bssList (k_scan s))" using assms(1) by (simp add: nets_ok_def list_all_iff)
  have m: "(if 4095 < n then 4095 else n) = min n 4095" by simp
  obtain b where b: "put_entries (min n 4095) (bssList (k_scan s)) bs 4 =
      Some (b, 4 + sum_list (map entry_size (fitting (min n 4095 - 4) (bssList (k_scan s)))))"
    "length b = length bs" "4 + sum_list (map entry_size (fitting (min n 4095 - 4) (bssList (k_scan s)))) \<le> min n 4095"
    using put_entries_stream [OF ok, of 4 "min n 4095" bs] False assms(2) by auto
  then show ?thesis
    using False assms(2) unfolding cmdGetBSSList_def option.case Let_def m
    by (auto simp: memcpy_at_def blit_def)
qed

lemma log_read_len: "rtw88_read_log True n r = (cs, r') \<Longrightarrow> log_wf r \<Longrightarrow> length cs \<le> n \<and> log_wf r'"
  using log_read_contents [of r n cs r'] by (auto simp: rtw88_read_log_def split: if_splits)

lemma selector_safe:
  assumes "env_ok e" "client_ok u" "uc_args_ok a"
  shows "uc_safe a (run_selector e sel a u)"
proof (cases sel)
  case kRTW88Scan
  then show ?thesis
    using cmdScan_inv by (auto simp: run_selector_def sScan_def intro!: command_safe [OF assms(2)]) (metis prod.collapse)
next
  case kRTW88Connect
  then show ?thesis using connect_safe [OF assms] by (simp add: run_selector_def)
next
  case kRTW88Disconnect
  then show ?thesis
    using disconnect_whole_inv [OF assms(1)]
    by (auto simp: run_selector_def sDisconnect_def intro!: command_safe [OF assms(2)]) (metis prod.collapse)
next
  case kRTW88GetState
  then show ?thesis
    using assms(2) by (auto simp: run_selector_def sGetState_def out_ok_def cmdGetState_def Let_def case_prod_beta split: option.split)
next
  case kRTW88GetBSSList
  show ?thesis
  proof (cases "ua_structureOutput a")
    case (Some bs)
    then have len: "length bs = ua_structureOutputSize a" using assms(3) by (simp add: uc_args_ok_def)
    show ?thesis
    proof (cases "get80211 u")
      case s: (Some s)
      then have nets: "nets_ok s" using assms(2) by (simp add: client_ok_def mlme_inv_def shape_ok_def)
      then obtain out m where "cmdGetBSSList (Some bs) (ua_structureOutputSize a) (k_scan s) = Some (IOSuccess, out, m)"
        "length out = length bs" "m \<le> ua_structureOutputSize a"
        using bss_list_len [OF nets len] len by metis
      then show ?thesis using kRTW88GetBSSList Some s assms(2) by (simp add: run_selector_def sGetBSSList_def out_ok_def)
    qed (use kRTW88GetBSSList Some assms(2) in \<open>simp add: run_selector_def sGetBSSList_def out_ok_def\<close>)
  qed (use kRTW88GetBSSList assms(2) in \<open>simp add: run_selector_def sGetBSSList_def\<close>)
next
  case kRTW88GetRSSI
  then show ?thesis
    using assms(2) by (auto simp: run_selector_def sGetRSSI_def out_ok_def case_prod_beta split: option.split)
next
  case kRTW88SetDebug
  then show ?thesis
    using assms(2) by (simp add: run_selector_def sSetDebug_def client_ok_def get80211_def)
next
  case kRTW88GetLog
  then show ?thesis
    using assms(2) log_read_len [of "ua_structureOutputSize a" "uc_logRing u"]
    by (auto simp: run_selector_def sGetLog_def client_ok_def get80211_def out_ok_def split: prod.split)
next
  case kRTW88PowerOn
  then show ?thesis
    using cmdPowerOn_inv by (auto simp: run_selector_def sPowerOn_def intro!: command_safe [OF assms(2)]) (metis prod.collapse)
next
  case kRTW88PowerOff
  then show ?thesis
    using powerOff_whole_inv [OF assms(1)] by (auto simp: run_selector_def sPowerOff_def intro!: command_safe [OF assms(2)])
qed

text \<open>One call. Without a class every command is answered Offline and changes nothing.\<close>

lemma user_call:
  assumes "env_ok e" "client_ok u" "uc_args_ok a"
    and "\<And>d f. super d a f u = f a u \<or> super d a f u = Some (Status BadArgument, a, u)"
  shows "\<exists>r a' u'. externalMethod super e sel a u = Some (r, a', u') \<and> client_ok u' \<and> out_ok a a' \<and>
    (sel \<ge> 10 \<longrightarrow> r = Status Unsupported \<and> u' = u) \<and>
    (get80211 u = None \<longrightarrow> sel \<in> {0, 1, 2, 8, 9} \<longrightarrow> (r = Offline \<or> r = Status BadArgument) \<and> u' = u)"
proof -
  have safe: "uc_safe a (externalMethod super e sel a u)"
    using selector_safe [OF assms(1-3)] assms(2) assms(4) [of "sMethods ! unat sel" "run_selector e (me_action (sMethods ! unat sel))"]
    by (auto simp: externalMethod_def Let_def)
  have off: "externalMethod super e sel a u = Some (Offline, a, u) \<or> externalMethod super e sel a u = Some (Status BadArgument, a, u)"
    if "get80211 u = None" "sel \<in> {0, 1, 2, 8, 9}"
  proof -
    have "run_selector e (me_action (sMethods ! unat sel)) a u = Some (Offline, a, u)" "\<not> sel \<ge> 10"
      using that by (auto simp: sMethods_def run_selector_def sScan_def sConnect_def sDisconnect_def sPowerOn_def sPowerOff_def command_def word_le_nat_alt)
    then show ?thesis
      using assms(4) [of "sMethods ! unat sel" "run_selector e (me_action (sMethods ! unat sel))"] by (auto simp: externalMethod_def Let_def)
  qed
  show ?thesis
  proof (cases "sel \<ge> 10")
    case True
    moreover have "\<not> (10 :: u32) \<le> 0" "\<not> (10 :: u32) \<le> 1" "\<not> (10 :: u32) \<le> 2" "\<not> (10 :: u32) \<le> 8" "\<not> (10 :: u32) \<le> 9" by (simp_all add: word_le_nat_alt)
    ultimately show ?thesis using assms(2) by (auto simp: externalMethod_def)
  next
    case False
    show ?thesis
    proof (cases "get80211 u = None \<and> sel \<in> {0, 1, 2, 8, 9}")
      case True
      then show ?thesis using off assms(2) False by force
    next
      case other: False
      then show ?thesis using safe False unfolding uc_safe_def by blast
    qed
  qed
qed

text \<open>
  A session: calls of any number of processes, each with the environment it finds, and between them whatever the other threads do
  to the class, as long as they keep its invariant.
\<close>

datatype uc_event = Call super_method env u32 uc_args | Background "RTW88IEEE80211 \<Rightarrow> RTW88IEEE80211"

definition uc_event_ok :: "uc_event \<Rightarrow> bool" where
  "uc_event_ok ev \<longleftrightarrow>
     (case ev of
        Call super e sel a \<Rightarrow> env_ok e \<and> uc_args_ok a \<and> (\<forall>d f u. super d a f u = f a u \<or> super d a f u = Some (Status BadArgument, a, u))
      | Background f \<Rightarrow> \<forall>s. mlme_inv s \<longrightarrow> mlme_inv (f s))"

definition uc_handle :: "uc_event \<Rightarrow> user_client \<Rightarrow> ((status \<times> uc_args) option \<times> user_client) option" where
  "uc_handle ev u =
     (case ev of
        Call super e sel a \<Rightarrow> map_option (\<lambda>(r, a, u). (Some (r, a), u)) (externalMethod super e sel a u)
      | Background f \<Rightarrow> Some (None, case get80211 u of None \<Rightarrow> u | Some s \<Rightarrow> with_class (f s) u))"

text \<open>A call is answered; an unknown selector is refused; the buffers keep their size and no more than asked is handed back.\<close>

definition uc_post :: "uc_event \<Rightarrow> (status \<times> uc_args) option \<Rightarrow> bool" where
  "uc_post ev x \<longleftrightarrow>
     (case ev of
        Call super e sel a \<Rightarrow> (\<exists>r a'. x = Some (r, a') \<and> out_ok a a' \<and> (sel \<ge> 10 \<longrightarrow> r = Status Unsupported))
      | Background f \<Rightarrow> x = None)"

interpretation uc: service client_ok uc_event_ok uc_post uc_handle
proof
  fix u ev
  assume u: "client_ok u" and ev: "uc_event_ok ev"
  show "\<exists>x u'. uc_handle ev u = Some (x, u') \<and> client_ok u' \<and> uc_post ev x"
  proof (cases ev)
    case (Call super e sel a)
    then obtain r a' u' where "externalMethod super e sel a u = Some (r, a', u')" "client_ok u'" "out_ok a a'"
      "sel \<ge> 10 \<longrightarrow> r = Status Unsupported"
      using user_call [of e u a super sel] u ev by (force simp: uc_event_ok_def)
    then show ?thesis by (simp add: Call uc_handle_def uc_post_def)
  next
    case (Background f)
    then show ?thesis
      using u ev client_with_class [OF u]
      by (auto simp: uc_handle_def uc_post_def uc_event_ok_def client_ok_def split: option.split)
  qed
qed

text \<open>C19: No sequence of calls from user space can make the user client fault. For any number of calls, of every selector number, with
  arguments whose output buffer has the size announced and whose password ends inside them, whatever \<open>IOUserClient\<close> refuses of
  them and whatever the other threads do to the class in between, every call returns; an unknown selector is refused; the buffers
  keep their sizes and the kernel hands back no more bytes than asked; and at the end the class is in its invariant and the log
  ring well formed.\<close>

theorem user_sessions_safe:
  assumes "client_ok u" "\<forall>ev \<in> set evs. uc_event_ok ev"
  shows "\<exists>xs u'. serve uc_handle evs u = Some (xs, u') \<and> client_ok u' \<and> list_all2 uc_post evs xs"
  using assms by (rule uc.session)

definition demo_client :: "RTW88IEEE80211 \<Rightarrow> user_client" where
  "demo_client s = \<lparr>uc_provider = Some ((fl_dev demo_flow)\<lparr>pd_ieee80211 := Some s\<rparr>), uc_logRing = log_init, uc_logLevel = 0\<rparr>"

lemma demo_client_class [simp]: "get80211 (demo_client s) = Some s" "uc_logRing (demo_client s) = log_init"
  by (simp_all add: demo_client_def get80211_def)

lemma demo_client_ok: "client_ok (demo_client demo_table)"
  using demo_table_ok by (simp add: client_ok_def log_wf_def log_init_def RING_SIZE_def)

theorem user_sessions_safe_witness:
  "let a = \<lparr>ua_scalarInput = [], ua_structureInput = Some (replicate 97 0), ua_scalarOutput = None, ua_structureOutput = None,
       ua_structureOutputSize = 0, ua_state = None, ua_log = []\<rparr>
   in \<exists>xs u'. serve uc_handle [Call checked_super demo_airport_env 1 a, Background id, Call checked_super demo_airport_env 77 a]
        (demo_client demo_table) = Some (xs, u') \<and> client_ok u' \<and> length xs = 3"
  unfolding Let_def
proof -
  let ?a = "\<lparr>ua_scalarInput = [], ua_structureInput = Some (replicate 97 0), ua_scalarOutput = None, ua_structureOutput = None,
       ua_structureOutputSize = 0, ua_state = None, ua_log = []\<rparr>"
  let ?evs = "[Call checked_super demo_airport_env 1 ?a, Background id, Call checked_super demo_airport_env 77 ?a]"
  have ok: "\<forall>ev \<in> set ?evs. uc_event_ok ev" using demo_env_ok by (simp add: uc_event_ok_def uc_args_ok_def checked_super_def)
  obtain xs u' where "serve uc_handle ?evs (demo_client demo_table) = Some (xs, u')" "client_ok u'" "list_all2 uc_post ?evs xs"
    using user_sessions_safe [OF demo_client_ok ok] by blast
  moreover from this have "length xs = 3" using list_all2_lengthD by fastforce
  ultimately show "\<exists>xs u'. serve uc_handle ?evs (demo_client demo_table) = Some (xs, u') \<and> client_ok u' \<and> length xs = 3" by blast
qed

section \<open>The list of the tool from end to end\<close>

text \<open>\<open>IOConnectCallStructMethod\<close> with an output buffer of \<open>n\<close> bytes: the status, the bytes returned, the client.\<close>

definition struct_call :: "super_method \<Rightarrow> env \<Rightarrow> u32 \<Rightarrow> nat \<Rightarrow> user_client \<Rightarrow> (status \<times> bytes \<times> user_client) option" where
  "struct_call super e sel n u =
     do { (r, a, u) \<leftarrow> externalMethod super e sel
            \<lparr>ua_scalarInput = [], ua_structureInput = None, ua_scalarOutput = None, ua_structureOutput = Some (replicate n 0),
              ua_structureOutputSize = n, ua_state = None, ua_log = []\<rparr> u;
          Some (r, take (ua_structureOutputSize a) (case ua_structureOutput a of None \<Rightarrow> [] | Some b \<Rightarrow> b), u) }"

text \<open>C20: The list command prints the table of the class. With a class whose table is well formed, the call the tool makes for its 4095
  bytes succeeds and changes nothing; and a tool that is handed these bytes prints, after four lines of heading, one line for each
  of the first \<open>n\<close> networks in order, as many as the buffer holds.\<close>

theorem list_end_to_end:
  assumes "get80211 u = Some s" "db_ok (k_scan s)" "\<And>d a f. args_match d a \<Longrightarrow> super d a f u = f a u"
  shows "\<exists>out. struct_call super e 4 4095 u = Some (Status IOSuccess, out, u) \<and>
    (\<forall>api. k_bytes api kRTW88GetBSSList 4095 u = (0, out, u) \<longrightarrow>
       (\<exists>n heading. cmd_list api u = Some (0, heading @ map (row_line \<circ> row_of) (take n (bssList (k_scan s))), u) \<and>
          length heading = 4 \<and> (n < length (bssList (k_scan s)) \<longrightarrow> 4095 < 4 + sum_list (map entry_size (take (Suc n) (bssList (k_scan s)))))))"
proof -
  obtain out m where out: "cmdGetBSSList (Some (replicate 4095 0)) 4095 (k_scan s) = Some (IOSuccess, out, m)"
    by (rule getBSSList_stream [OF assms(2), of "replicate 4095 0"]) (auto simp del: length_concat)
  have "struct_call super e 4 4095 u = Some (Status IOSuccess, take m out, u)"
    using assms(1) out
    by (simp add: struct_call_def externalMethod_def sMethods_def Let_def assms(3) args_match_def size_ok_def kIOUCVariableStructureSize_def
        run_selector_def sGetBSSList_def)
  then show ?thesis
  proof (intro exI [of _ "take m out"] conjI allI impI)
    fix api :: "user_client kext_api"
    assume "k_bytes api kRTW88GetBSSList 4095 u = (0, take m out, u)"
    from list_prints [OF assms(2) out this] show "\<exists>n heading. cmd_list api u =
        Some (0, heading @ map (row_line \<circ> row_of) (take n (bssList (k_scan s))), u) \<and> length heading = 4 \<and>
        (n < length (bssList (k_scan s)) \<longrightarrow> 4095 < 4 + sum_list (map entry_size (take (Suc n) (bssList (k_scan s)))))"
      by blast
  qed
qed

theorem list_end_to_end_witness:
  "\<exists>out. struct_call checked_super demo_airport_env 4 4095 (demo_client (demo_table\<lparr>k_scan := demo_db\<rparr>)) =
     Some (Status IOSuccess, out, demo_client (demo_table\<lparr>k_scan := demo_db\<rparr>))"
  using list_end_to_end [of "demo_client (demo_table\<lparr>k_scan := demo_db\<rparr>)" _ checked_super demo_airport_env] demo_db_ok
  by (auto simp: checked_super_def)

end
