(* ===== verification/Poll.thy ===== *)
theory Poll
  imports Timers "HOL-Library.Monad_Syntax"
begin

text \<open>
  The polling loops of \<open>linux/iopoll.h\<close> and \<open>linux/kernel.h\<close>: \<open>read_poll_timeout\<close>, which waits on jiffies, and
  \<open>read_poll_timeout_atomic\<close>, which waits on the absolute time. The driver's accessor, the delay of the system and its clock are
  parameters; the clock counts nanoseconds, which the second loop takes for the unit of the absolute time. A loop that never
  ends is \<open>None\<close>.
\<close>

record ('w, 'v) poller =
  pl_op :: "'w \<Rightarrow> 'v \<times> 'w"
  pl_delay :: "nat \<Rightarrow> 'w \<Rightarrow> 'w"
  pl_time :: "'w \<Rightarrow> nat"

definition ETIMEDOUT :: int where "ETIMEDOUT = 110"

section \<open>The loops\<close>

definition jiffies_now :: "('w, 'v) poller \<Rightarrow> 'w \<Rightarrow> u64" where
  "jiffies_now P w = rtw88_get_jiffies (of_nat (pl_time P w))"

definition wait_us :: "('w, 'v) poller \<Rightarrow> nat \<Rightarrow> 'w \<Rightarrow> 'w" where
  "wait_us P us w = fold (pl_delay P) (udelay us) w"

text \<open>The second read after the deadline, and its answer.\<close>

definition last_read :: "('w, 'v) poller \<Rightarrow> ('v \<Rightarrow> bool) \<Rightarrow> 'w \<Rightarrow> int \<times> 'v \<times> 'w" where
  "last_read P until w = (case pl_op P w of (v, w) \<Rightarrow> (if until v then 0 else - ETIMEDOUT, v, w))"

partial_function (option) poll_loop ::
  "('w, 'v) poller \<Rightarrow> ('v \<Rightarrow> bool) \<Rightarrow> nat \<Rightarrow> u32 \<Rightarrow> u64 \<Rightarrow> 'w \<Rightarrow> (int \<times> 'v \<times> 'w) option" where
  "poll_loop P until sleep timeout start w =
     (let (v, w) = pl_op P w
      in if until v then Some (0, v, w)
         else if timeout \<noteq> 0 \<and> time_after (jiffies_now P w) (start + usecs_to_jiffies timeout) then Some (last_read P until w)
         else poll_loop P until sleep timeout start (if sleep > 0 then wait_us P sleep w else w))"

definition read_poll_timeout ::
  "('w, 'v) poller \<Rightarrow> ('v \<Rightarrow> bool) \<Rightarrow> nat \<Rightarrow> u32 \<Rightarrow> bool \<Rightarrow> 'w \<Rightarrow> (int \<times> 'v \<times> 'w) option" where
  "read_poll_timeout P until sleep timeout before w =
     poll_loop P until sleep timeout (jiffies_now P w) (if before \<and> sleep > 0 then wait_us P sleep w else w)"

text \<open>The argument of \<open>IODelay\<close>: the delay as an \<open>unsigned int\<close>, and at least one.\<close>

definition delay_arg :: "nat \<Rightarrow> nat" where
  "delay_arg us = (let n = us mod 2 ^ 32 in if n < 1 then 1 else n)"

lemma delay_arg_bounds: "0 < delay_arg us" "delay_arg us \<le> us + 1"
  using mod_less_eq_dividend [of us "2 ^ 32"] by (simp_all only: delay_arg_def Let_def split: if_split) linarith+

partial_function (option) atomic_loop ::
  "('w, 'v) poller \<Rightarrow> ('v \<Rightarrow> bool) \<Rightarrow> nat \<Rightarrow> u64 \<Rightarrow> 'w \<Rightarrow> (int \<times> 'v \<times> 'w) option" where
  "atomic_loop P until us deadline w =
     (let (v, w) = pl_op P w
      in if until v then Some (0, v, w)
         else if of_nat (pl_time P w) \<ge> deadline then Some (last_read P until w)
         else atomic_loop P until us deadline (pl_delay P (delay_arg us) w))"

definition read_poll_timeout_atomic ::
  "('w, 'v) poller \<Rightarrow> ('v \<Rightarrow> bool) \<Rightarrow> nat \<Rightarrow> u32 \<Rightarrow> 'w \<Rightarrow> (int \<times> 'v \<times> 'w) option" where
  "read_poll_timeout_atomic P until us timeout w =
     atomic_loop P until us (of_nat (pl_time P w) + ucast timeout * 1000) w"

section \<open>Time\<close>

text \<open>
  What the loops rely on: a read takes at most \<open>d\<close> nanoseconds, and \<open>IODelay\<close> of \<open>n\<close> microseconds takes at least these and at most
  \<open>d\<close> more.
\<close>

definition clock_ok :: "('w, 'v) poller \<Rightarrow> nat \<Rightarrow> bool" where
  "clock_ok P d \<longleftrightarrow>
     (\<forall>w. pl_time P w \<le> pl_time P (snd (pl_op P w)) \<and> pl_time P (snd (pl_op P w)) \<le> pl_time P w + d) \<and>
     (\<forall>w n. pl_time P w + 1000 * n \<le> pl_time P (pl_delay P n w) \<and> pl_time P (pl_delay P n w) \<le> pl_time P w + 1000 * n + d)"

lemma clock_op: "clock_ok P d \<Longrightarrow> pl_op P w = (v, w') \<Longrightarrow> pl_time P w \<le> pl_time P w' \<and> pl_time P w' \<le> pl_time P w + d"
  unfolding clock_ok_def by (metis snd_conv)

lemma clock_fold:
  assumes "clock_ok P d"
  shows "pl_time P w + 1000 * sum_list ns \<le> pl_time P (fold (pl_delay P) ns w) \<and>
    pl_time P (fold (pl_delay P) ns w) \<le> pl_time P w + 1000 * sum_list ns + length ns * d"
proof (induction ns arbitrary: w)
  case (Cons n ns)
  have "pl_time P w + 1000 * n \<le> pl_time P (pl_delay P n w)" "pl_time P (pl_delay P n w) \<le> pl_time P w + 1000 * n + d"
    using assms by (auto simp: clock_ok_def)
  then show ?case using Cons.IH [of "pl_delay P n w"] by (simp add: algebra_simps)
qed simp

lemma udelay_count: "length (udelay n) \<le> n div 1000 + 1"
proof (induction n rule: udelay.induct)
  case (1 n)
  show ?case
  proof (cases "1000 < n")
    case True
    moreover have "n div 1000 = Suc ((n - 1000) div 1000)" using True by (simp add: le_div_geq)
    ultimately show ?thesis using 1 by (subst udelay.simps) simp
  qed (subst udelay.simps, simp)
qed

text \<open>The time one wait may take.\<close>

definition wait_bound :: "nat \<Rightarrow> nat \<Rightarrow> nat" where
  "wait_bound d us = 1000 * us + (us div 1000 + 1) * d"

lemma clock_wait:
  assumes "clock_ok P d"
  shows "pl_time P w + 1000 * us \<le> pl_time P (wait_us P us w)" "pl_time P (wait_us P us w) \<le> pl_time P w + wait_bound d us"
proof -
  note b = clock_fold [OF assms, where ns = "udelay us" and w = w]
  show "pl_time P w + 1000 * us \<le> pl_time P (wait_us P us w)"
    using b by (simp add: wait_us_def sum_list_udelay)
  have "length (udelay us) * d \<le> (us div 1000 + 1) * d" using udelay_count by (rule mult_le_mono1)
  then show "pl_time P (wait_us P us w) \<le> pl_time P w + wait_bound d us"
    using b by (simp add: wait_us_def sum_list_udelay wait_bound_def)
qed

lemma small_div: "n < 2 ^ 64 \<Longrightarrow> rtw88_get_jiffies (of_nat n) = of_nat (n div 1000000)"
  by (simp add: rtw88_get_jiffies_def word_unat_eq_iff unat_div unat_of_nat)

lemma sint_diff: "a < 2 ^ 62 \<Longrightarrow> b < 2 ^ 62 \<Longrightarrow> sint (of_nat a - of_nat b :: u64) = int a - int b"
proof -
  assume b: "a < 2 ^ 62" "b < 2 ^ 62"
  have "(of_nat a - of_nat b :: u64) = word_of_int (int a - int b)" by (simp only: of_int_diff of_int_of_nat_eq)
  moreover have "int a < 2 ^ 62" "int b < 2 ^ 62" using b by simp_all
  then have "sint (word_of_int (int a - int b) :: u64) = int a - int b" by (intro sint_u64_of_int) simp_all
  ultimately show ?thesis by simp
qed

text \<open>Before the clock wraps, the test of the deadline is the comparison of the instants in milliseconds.\<close>

lemma deadline_test:
  assumes "n < 2 ^ 64" "s < 2 ^ 64" "timeout \<le> 4294966296"
  shows "time_after (rtw88_get_jiffies (of_nat n)) (rtw88_get_jiffies (of_nat s) + usecs_to_jiffies timeout) \<longleftrightarrow>
    s div 1000000 + (unat timeout + 999) div 1000 < n div 1000000"
proof -
  let ?T = "(unat timeout + 999) div 1000"
  have t: "unat timeout \<le> 4294966296" using assms(3) by (simp add: word_le_nat_alt)
  then have "unat (timeout + 999) = unat timeout + 999" by (simp add: unat_word_ariths)
  then have u: "usecs_to_jiffies timeout = of_nat ?T"
    using t by (simp add: usecs_to_jiffies_def word_unat_eq_iff unat_of_nat unsigned_ucast_eq take_bit_eq_mod unat_div)
  have b: "n div 1000000 < 2 ^ 62" "s div 1000000 + ?T < 2 ^ 62" using assms(1,2) t by auto
  have "sint (of_nat (s div 1000000 + ?T) - of_nat (n div 1000000) :: u64) = int (s div 1000000 + ?T) - int (n div 1000000)"
    using sint_diff [OF b(2,1)] .
  then show ?thesis
    unfolding time_after_def small_div [OF assms(1)] small_div [OF assms(2)] u of_nat_add [symmetric] by linarith
qed

section \<open>The loops end\<close>

text \<open>
  What a finished loop answers: the condition of the value of the last read decides, and before a time-out that read
  begins only at the instant \<open>due\<close> or later.
\<close>

definition answered :: "('w, 'v) poller \<Rightarrow> ('v \<Rightarrow> bool) \<Rightarrow> nat \<Rightarrow> nat \<Rightarrow> (int \<times> 'v \<times> 'w) option \<Rightarrow> bool" where
  "answered P until due latest x \<longleftrightarrow>
     (\<exists>r v w w0. x = Some (r, v, w) \<and> pl_op P w0 = (v, w) \<and> pl_time P w \<le> latest
        \<and> (r = 0 \<and> until v \<or> r = - ETIMEDOUT \<and> \<not> until v \<and> due \<le> pl_time P w0))"

lemma answered_read:
  "pl_op P w0 = (v, w) \<Longrightarrow> until v \<Longrightarrow> pl_time P w \<le> latest \<Longrightarrow> answered P until due latest (Some (0, v, w))"
  by (auto simp: answered_def)

lemma answered_last:
  assumes "clock_ok P d" "due \<le> pl_time P w" "pl_time P w + d \<le> latest"
  shows "answered P until due latest (Some (last_read P until w))"
proof (cases "pl_op P w")
  case (Pair v w')
  then show ?thesis using clock_op [OF assms(1) Pair] assms(2,3) by (auto simp: answered_def last_read_def)
qed

lemma poll_loop_ends:
  assumes c: "clock_ok P d" and sleep: "0 < sleep" and t: "timeout \<noteq> 0" "timeout \<le> 4294966296"
    and D: "D = 1000000 * (s div 1000000 + (unat timeout + 999) div 1000 + 1)" and s: "s < 2 ^ 64"
    and room: "latest < 2 ^ 64" "D + wait_bound d sleep + 2 * d \<le> latest"
  shows "pl_time P w \<le> D + wait_bound d sleep \<Longrightarrow>
    answered P until D latest (poll_loop P until sleep timeout (rtw88_get_jiffies (of_nat s)) w)"
proof (induction "D + wait_bound d sleep - pl_time P w" arbitrary: w rule: less_induct)
  case less
  obtain v w' where op: "pl_op P w = (v, w')" by fastforce
  note w' = clock_op [OF c op]
  have n: "pl_time P w' < 2 ^ 64" using w' less.prems room by linarith
  let ?late = "time_after (jiffies_now P w') (rtw88_get_jiffies (of_nat s) + usecs_to_jiffies timeout)"
  have late: "?late \<longleftrightarrow> D \<le> pl_time P w'"
    unfolding jiffies_now_def deadline_test [OF n s t(2)] D
    by (metis Suc_eq_plus1 Suc_le_eq less_eq_div_iff_mult_less_eq mult.commute zero_less_numeral)
  show ?case
  proof (cases "until v \<or> ?late")
    case True
    then show ?thesis
      using op t(1) w' less.prems room(2) late
      by (subst poll_loop.simps) (auto intro!: answered_read [OF op] answered_last [OF c])
  next
    case False
    let ?w = "wait_us P sleep w'"
    have b: "pl_time P w' + 1000 * sleep \<le> pl_time P ?w" "pl_time P ?w \<le> pl_time P w' + wait_bound d sleep"
      using clock_wait [OF c] by blast+
    have "pl_time P w' < D" using False late by simp
    then have "answered P until D latest (poll_loop P until sleep timeout (rtw88_get_jiffies (of_nat s)) ?w)"
      using b w' sleep by (intro less.hyps) auto
    then show ?thesis using op t(1) False sleep by (subst poll_loop.simps) simp
  qed
qed

lemma atomic_loop_ends:
  assumes c: "clock_ok P d" and room: "latest < 2 ^ 64" "D + 1000 * (us + 1) + 3 * d \<le> latest"
  shows "pl_time P w \<le> D + 1000 * (us + 1) + d \<Longrightarrow> answered P until D latest (atomic_loop P until us (of_nat D) w)"
proof (induction "D + 1000 * (us + 1) + d - pl_time P w" arbitrary: w rule: less_induct)
  case less
  obtain v w' where op: "pl_op P w = (v, w')" by fastforce
  note w' = clock_op [OF c op]
  have "pl_time P w' < 2 ^ 64" "D < 2 ^ 64" using w' less.prems room by linarith+
  then have late: "(of_nat D :: u64) \<le> of_nat (pl_time P w') \<longleftrightarrow> D \<le> pl_time P w'"
    by (simp add: word_le_nat_alt unat_of_nat)
  show ?case
  proof (cases "until v \<or> D \<le> pl_time P w'")
    case True
    then show ?thesis
      using op w' less.prems room(2) late
      by (subst atomic_loop.simps) (auto intro!: answered_read [OF op] answered_last [OF c])
  next
    case False
    define n where "n = delay_arg us"
    have b: "pl_time P w' + 1000 * n \<le> pl_time P (pl_delay P n w')" "pl_time P (pl_delay P n w') \<le> pl_time P w' + 1000 * n + d"
      using c by (simp_all add: clock_ok_def)
    have n: "0 < n" "n \<le> us + 1" using delay_arg_bounds [of us] by (simp_all add: n_def)
    have "answered P until D latest (atomic_loop P until us (of_nat D) (pl_delay P n w'))"
      using b w' False n by (intro less.hyps) (simp_all add: not_le, linarith+)
    then show ?thesis using op False late unfolding n_def by (subst atomic_loop.simps) simp
  qed
qed

text \<open>Without a time-out the loop ends only on the condition; on a device that never meets it, it does not end.\<close>

lemma poll_without_timeout:
  fixes P :: "('w, 'v) poller"
  assumes "\<forall>w. \<not> until (fst (pl_op P w))"
  shows "read_poll_timeout P until sleep 0 before w = None"
proof -
  let ?Q = "\<lambda>(t :: ((((('w, 'v) poller \<times> ('v \<Rightarrow> bool)) \<times> nat) \<times> u32) \<times> u64) \<times> 'w) (x :: int \<times> 'v \<times> 'w).
    snd (fst (fst t)) = 0 \<longrightarrow> (\<exists>w. snd (fst (fst (fst (fst t)))) (fst (pl_op (fst (fst (fst (fst (fst t))))) w)))"
  have Q: "poll_loop P' until' sleep' timeout start w = Some x \<Longrightarrow> ?Q (((((P', until'), sleep'), timeout), start), w) x"
    for P' until' sleep' timeout start w x
  proof (erule poll_loop.raw_induct [where Pa = ?Q, rotated])
    fix f and P :: "('w, 'v) poller" and until sleep timeout start w x
    assume f: "\<And>P until sleep timeout start w x. f P until sleep timeout start w = Some x \<Longrightarrow> ?Q (((((P, until), sleep), timeout), start), w) x"
      and b: "(let (v, w) = pl_op P w in if until v then Some (0, v, w)
         else if timeout \<noteq> 0 \<and> time_after (jiffies_now P w) (start + usecs_to_jiffies timeout) then Some (last_read P until w)
         else f P until sleep timeout start (if sleep > 0 then wait_us P sleep w else w)) = Some x"
    obtain v w' where op: "pl_op P w = (v, w')" by fastforce
    show "?Q (((((P, until), sleep), timeout), start), w) x"
    proof (cases "until v")
      case True
      then show ?thesis using op by (auto intro!: exI [of _ w])
    next
      case False
      then show ?thesis using b f [of P until sleep timeout start _ x] unfolding op by (auto split: if_splits)
    qed
  qed
  then show ?thesis using assms Q [of P until sleep 0] unfolding read_poll_timeout_def by fastforce
qed

lemma due_bounds:
  fixes s t :: nat
  shows "s + 1000 * t \<le> 1000000 * (s div 1000000 + (t + 999) div 1000 + 1)"
    "1000000 * (s div 1000000 + (t + 999) div 1000 + 1) \<le> s + 1000 * t + 2000000"
proof -
  define q u where "q = s div 1000000" and "u = (t + 999) div 1000"
  have "s < 1000000 * q + 1000000" "1000000 * q \<le> s" "t + 999 < 1000 * u + 1000" "1000 * u \<le> t + 999"
    unfolding q_def u_def by simp_all
  then show "s + 1000 * t \<le> 1000000 * (s div 1000000 + (t + 999) div 1000 + 1)"
    "1000000 * (s div 1000000 + (t + 999) div 1000 + 1) \<le> s + 1000 * t + 2000000"
    unfolding q_def [symmetric] u_def [symmetric] by simp_all
qed

text \<open>C40: A poll with a time-out always ends, in bounded time, and does not give up early. With a time-out that is not 0 and at most
  4294966296 microseconds (2^32 - 1000; above it the rounding to jiffies wraps) and a wait of at least one microsecond, on a clock
  that does not wrap meanwhile, with reads and delays that take at most \<open>d\<close> nanoseconds more than asked, both loops return the
  value of their last read: status 0 only when it meets the condition, ETIMEDOUT only when it does not and that read began after
  the whole time-out had passed; and they are back at the instant \<open>latest\<close>: the start plus the time-out, two milliseconds of
  rounding, the duration of two waits and three times \<open>d\<close>.\<close>

theorem poll_bounded:
  assumes "clock_ok P d" "0 < sleep" "timeout \<noteq> 0" "timeout \<le> 4294966296"
    and "latest = pl_time P w + 1000 * unat timeout + 2000000 + 1000 * (sleep + 1) + wait_bound d sleep + 3 * d" "latest < 2 ^ 64"
  shows "(\<exists>r v w0 w'. read_poll_timeout P until sleep timeout before w = Some (r, v, w')
        \<and> pl_op P w0 = (v, w') \<and> pl_time P w' \<le> latest
        \<and> (r = 0 \<and> until v \<or> r = - ETIMEDOUT \<and> \<not> until v \<and> pl_time P w + 1000 * unat timeout \<le> pl_time P w0))
     \<and> (\<exists>r v w0 w'. read_poll_timeout_atomic P until sleep timeout w = Some (r, v, w')
        \<and> pl_op P w0 = (v, w') \<and> pl_time P w' \<le> latest
        \<and> (r = 0 \<and> until v \<or> r = - ETIMEDOUT \<and> \<not> until v \<and> pl_time P w + 1000 * unat timeout \<le> pl_time P w0))"
proof
  let ?s = "pl_time P w"
  let ?D = "1000000 * (?s div 1000000 + (unat timeout + 999) div 1000 + 1)"
  note D = due_bounds [of ?s "unat timeout"]
  have "pl_time P (if before \<and> sleep > 0 then wait_us P sleep w else w) \<le> ?D + wait_bound d sleep"
    using clock_wait [OF assms(1), where w = w and us = sleep] D by simp
  then have "answered P until ?D latest (read_poll_timeout P until sleep timeout before w)"
    unfolding read_poll_timeout_def jiffies_now_def
    by (intro poll_loop_ends [OF assms(1-4) refl]) (use assms(5,6) D in auto)
  then show "\<exists>r v w0 w'. read_poll_timeout P until sleep timeout before w = Some (r, v, w')
        \<and> pl_op P w0 = (v, w') \<and> pl_time P w' \<le> latest
        \<and> (r = 0 \<and> until v \<or> r = - ETIMEDOUT \<and> \<not> until v \<and> ?s + 1000 * unat timeout \<le> pl_time P w0)"
    using D(1) by (fastforce simp: answered_def)
next
  let ?D = "pl_time P w + 1000 * unat timeout"
  have "(of_nat (pl_time P w) + ucast timeout * 1000 :: u64) = of_nat ?D"
    by (simp add: word_unat_eq_iff unat_word_ariths unat_of_nat unsigned_ucast_eq take_bit_eq_mod mod_simps mult.commute)
  then have "answered P until ?D latest (read_poll_timeout_atomic P until sleep timeout w)"
    unfolding read_poll_timeout_atomic_def
    by (simp only:) (rule atomic_loop_ends [OF assms(1,6)]; use assms(5) in simp)
  then show "\<exists>r v w0 w'. read_poll_timeout_atomic P until sleep timeout w = Some (r, v, w')
        \<and> pl_op P w0 = (v, w') \<and> pl_time P w' \<le> latest
        \<and> (r = 0 \<and> until v \<or> r = - ETIMEDOUT \<and> \<not> until v \<and> ?D \<le> pl_time P w0)"
    by (fastforce simp: answered_def)
qed

text \<open>A register that turns from 0 to 1 at 5 microseconds, read in 100 nanoseconds.\<close>

definition demo_poller :: "(nat, nat) poller" where
  "demo_poller = \<lparr>pl_op = (\<lambda>w. (if w < 5000 then 0 else 1, w + 100)), pl_delay = (\<lambda>n w. w + 1000 * n), pl_time = id\<rparr>"

theorem poll_bounded_witness:
  "(\<exists>r v w0 w. read_poll_timeout demo_poller (\<lambda>v. v = 2) 2 50 True 0 = Some (r, v, w)
       \<and> r = - ETIMEDOUT \<and> pl_op demo_poller w0 = (v, w) \<and> 50000 \<le> w0 \<and> w \<le> 2055400) \<and>
   (\<exists>r v w0 w. read_poll_timeout_atomic demo_poller (\<lambda>v. v = 2) 2 50 0 = Some (r, v, w)
       \<and> r = - ETIMEDOUT \<and> pl_op demo_poller w0 = (v, w) \<and> 50000 \<le> w0 \<and> w \<le> 2055400)"
proof -
  have "clock_ok demo_poller 100" by (simp add: clock_ok_def demo_poller_def)
  note b = poll_bounded [OF this, of 2 50 2055400 0 "\<lambda>v. v = 2" True, simplified wait_bound_def, simplified]
  have n: "pl_op demo_poller w0 \<noteq> (2, w)" for w0 w
    by (simp add: demo_poller_def)
  have t: "pl_time demo_poller w = w" for w by (simp add: demo_poller_def)
  show ?thesis using b unfolding t by (simp add: n) (elim conjE exE disjE, simp_all add: n, blast)
qed

end
