(* ===== verification/Spec2Isabelle.thy ===== *)
theory Spec2Isabelle
  imports Bitops SkBuff LogRing ThreadCall Workqueue Firmware Sync RxReorder MacFrames MgmtFrames Hooks Ctl EtherDevice LinkProps Dma AirportProps VifProps Network Lifecycle PciConfig UserClient Poll
begin

text \<open>
  A verification library for AirportRTW88, a macOS kernel extension that runs the Linux rtw88 Wi-Fi driver.

  \<^bold>\<open>The program.\<close> It has four layers. \<open>src/src/compat\<close> gives the Linux driver the kernel functions it expects: bit operations, lists, packet
  buffers, timers, work queues, locks, memory, DMA, firmware and a stand-in for mac80211. The driver core itself is a git submodule that is
  not in the repository. \<open>RTW88IEEE80211.cpp\<close> is the station: scanning, authentication, association, the WPA2 handshake, the data path,
  BlockAck. Around it stand two controllers, \<open>AirportRTW88.cpp\<close> with \<open>AirportRTW88AWDL.cpp\<close> for Apple's IO80211 family and
  \<open>RTW88PCIDevice.cpp\<close> as a plain Ethernet controller, and \<open>RTW88UserClient.cpp\<close>, through which the tool \<open>ctl/main.c\<close> talks to it.

  \<^bold>\<open>Conventions.\<close> A struct or class is a record with one field for each member, an enumeration a datatype, a machine integer a word of its
  width. \<open>None\<close> as the outcome of an operation is a fault: a copy that leaves its buffer, a null pointer followed, a block freed with the
  wrong size, a loop that never ends. Errors the code returns are values (\<open>IOReturn\<close> or the negative numbers of the code). What the
  system, the driver core and the hardware answer is an argument: \<open>driver\<close> and \<open>env\<close> bundle the answers of the driver and of the
  threads beside the caller, \<open>ask\<close> takes the next answer of an allocation, \<open>emit\<close> records a call that leaves the model.

  \<^bold>\<open>Theories and sources.\<close>
  \<^item> \<open>Prelude\<close>: words, byte order, buffer reads and copies, and the rules shared by everything. \<open>Service\<close>: what a component that answers
    requests promises, and sessions of requests.
  \<^item> \<open>linux/*.h\<close> and \<open>rtw88_compat.c\<close>: \<open>Bitops\<close> (bitops.h, bitfield.h), \<open>ListHead\<close> (types.h), \<open>SkBuff\<close> (skbuff.h), \<open>Timers\<close>
    (jiffies.h, delay.h, timer.h), \<open>Poll\<close> (iopoll.h, kernel.h), \<open>Workqueue\<close> (workqueue.h), \<open>ThreadCall\<close> (rtw88_thread_call.c), \<open>Sync\<close>
    (atomic.h, completion.h, mutex.h, average.h), \<open>LogRing\<close>, \<open>EtherDevice\<close> (etherdevice.h), \<open>KernelMem\<close> and \<open>Slab\<close> (slab.h),
    \<open>Dma\<close> (dma-mapping.h, RTW88HwOps.cpp and the lists of both controllers), \<open>PciConfig\<close> (pci.h), \<open>Firmware\<close> (rtw88_firmware.c),
    \<open>Mac80211\<close>, \<open>MacStation\<close> and \<open>MacFrames\<close> (net/mac80211.h and its functions), \<open>Hooks\<close> (interrupts, NAPI, callbacks, life cycle).
  \<^item> \<open>RTW88IEEE80211.cpp\<close>: \<open>Sha1\<close>, \<open>Aes\<close>, \<open>Wpa\<close> (cryptography), \<open>RxReorder\<close> (reorder buffer), \<open>MgmtFrames\<close> (with
    RTW88MgmtValidation.hpp), \<open>BssScan\<close> (table of networks), \<open>Stack\<close> (the members of the class), \<open>TxPath\<close>, \<open>BlockAck\<close>, \<open>Eapol\<close>,
    \<open>RxData\<close>, \<open>Assoc\<close>, \<open>Mlme\<close> (the connection state machine); then \<open>LinkState\<close> (its invariant), \<open>Interleave\<close> (its threads) and
    \<open>LinkProps\<close> (what holds of it).
  \<^item> The controllers: \<open>AwdlManager\<close> (RTW88AWDLManager), \<open>Airport\<close>, \<open>AirportReq\<close> and \<open>AirportProps\<close> (apple80211Request), \<open>Vif\<close>,
    \<open>VifProps\<close> and \<open>VifFrames\<close> (AirportRTW88AWDL.cpp, AirportRTW88Interface.cpp), \<open>Lifecycle\<close> (start, stop and teardown), \<open>Network\<close>
    (the calls of IONetworkController and flow control).
  \<^item> User space: \<open>Ctl\<close> (ctl/main.c) and \<open>UserClient\<close> (RTW88UserClient.cpp).

  \<^bold>\<open>Interfaces.\<close> \<open>intrusive_fifo\<close> is the contract of a queue made of linked nodes, given by the lists of types.h and by the packet queues.
  \<open>record_stream\<close> is the contract between a writer and a reader of a byte stream of records, given by the list of networks from the
  class to the tool. \<open>service\<close> is the contract of a component that answers requests, given by the user client and by the virtual
  interfaces.

  \<^bold>\<open>What the lemmas show.\<close>
  \<^item> The connection: every reachable state is well formed and its mode fits its members, no section of any thread faults, only the intended
    moves are made, a join with a cooperating access point completes, the threads end, start is all or nothing, the association
    request reads back element by element, and switching off, with both its waits, leaves neither keys nor peer.
  \<^item> Security: connected on a WPA2 network only by a frame that is a third message with a valid integrity code (\<open>Eapol.valid_m3\<close>);
    every packet handed to the stack is carried by a frame of the access point (\<open>RxData.injected\<close>, \<open>RxData.carries\<close>); packet numbers
    never repeat, the derived keys are those of the standard, key unwrapping inverts wrapping, and SHA-1 is FIPS 180-4 as long as no
    update wraps the 32-bit sum of offset and length (\<open>Sha1.parts_fit\<close>), and overruns its buffer otherwise.
  \<^item> Data: frames reach the access point and the stack as they were given, in order within the window, with round trips for AWDL.
  \<^item> The controllers: requests never fault, alone or in sessions; queries agree with the state machine; scan results are enumerated once;
    bring-up is all or nothing and teardown releases everything once; a stalled output queue is resumed.
  \<^item> The compatibility layer: cancellation is synchronous for one canceller at a time, no work runs twice at a time, the allocator faults
    for no size that leaves room for its header (\<open>Slab.size_fits\<close>), the DMA lists stay balanced, polls end in bounded time with a last
    look after the deadline, helpers equal their specifications.

  \<^bold>\<open>Concurrency.\<close> In \<open>Interleave\<close> the receive path, timers, notifications of the driver, callers, the connect thread and the manual scan
  thread interleave at the points where the code sleeps or waits; \<open>link_step\<close> is one section of one of them, taken as atomic. It covers
  the time from the end of \<open>start\<close> to \<open>stop\<close>, which is not interleaved itself. Requests that wait use \<open>e_drain\<close> and \<open>e_wait\<close>, any
  change of the class by others that keeps its invariant. \<open>Workqueue\<close> and \<open>ThreadCall\<close> interleave the sections of their locks with
  worker threads and timers; in \<open>Workqueue\<close> the steps are labelled, and the wait of a cancellation is the guard \<open>cancel_work_blocked\<close> of
  its return. \<open>Network\<close> cuts the unlocked flow control at each access to the shared flag; the sections take what they do from
  \<open>pci_outputPacket\<close> and \<open>resumeTxIfStalled\<close>. An RSN element set by the
  client is taken to fit the association request where a response is processed, because a longer one overruns the request (see the
  findings).

  \<^bold>\<open>Bounds and fuel.\<close> The reorder flush stops after 4096 skips, the number of sequence numbers, and a window has at most 64 slots, so no run
  of output is longer. The padding of SHA-1 has 64 rounds of fuel; a context never needs more. A connect attempt looks at the scan
  flag at most 100 times, so it has at most 105 sections; a manual scan has at most 256 channels and 770 sections. The polls of the tool
  end after the seconds they are given and after 30. Other loops are structural, or recursive functions with a measure, or
  \<open>partial_function\<close> where they may not end.

  \<^bold>\<open>Not modelled.\<close> IOKit, IO80211Family and IONetworkingFamily are called and not contained in the repository: their answers are parameters.
  The driver core is the submodule; its operations are the fields of \<open>driver\<close>. The bytes of the firmware in \<open>fw_blobs.c\<close> are data, their
  inflation by zlib a parameter. \<open>linux/usb.h\<close> and \<open>linux/sdio.h\<close> are stubs for buses the extension does not use, \<open>iokit_shim.h\<close>
  declares IOKit functions, the remaining headers rename locks of the system or are empty, and the module entry classes call their
  superclass and log. Hex dumps, log texts, registry properties and media tables have no effect on the state. Of \<open>net/mac80211.h\<close> the
  operations the extension never calls and the constants it never uses are left out, of \<open>pci.h\<close> the functions that return a constant.

  \<^bold>\<open>What modelling showed.\<close> The manifest lists the divergences with their lemmas. The gravest: a third handshake message is accepted before
  the first, under an all-zero key (\<open>Eapol.m3_before_m1_installs_zero_key\<close>); unencrypted data is accepted on a protected link
  (\<open>RxData.plaintext_accepted_on_protected_link\<close>); a long RSN element overruns the association request
  (\<open>Assoc.long_rsn_overruns_request\<close>); \<open>le64_get_bits\<close> shifts the wrong way (\<open>Bitops.le64_get_bits_loses_field\<close>); the PCI Express
  capability accessors write to the plain header (\<open>PciConfig.capability_hits_header\<close>); the synchronisation of a bounce buffer copies
  after dropping its lock (\<open>Dma.sync_copies_released\<close>); and a failed start of the Ethernet controller leaves a dangling global
  (\<open>Lifecycle.pcidevice_failed_start_leaks\<close>).
\<close>

end
